(* ===== verification/Prelude.thy ===== *)
theory Prelude
  imports Main "HOL-Library.Word"
begin

unbundle bit_operations_syntax

text \<open>Shared vocabulary of the development.

The model writes C values as follows. A value whose bits matter (what is
packed into a frame, an I2C request, a sample) is a word of its C width;
\<open>byte\<close> is an \<open>unsigned char\<close>. A counter, an index, a frequency in hertz
or a time in seconds, none of which comes near the end of its 32 or 64 bit
range, is an \<open>int\<close>. A \<open>gboolean\<close> is a \<open>bool\<close>, a C string a
\<open>string\<close> without its terminating zero, a fixed buffer \<open>char x[n]\<close>
a \<open>string\<close> of fewer than \<open>n\<close> characters.

An operation that changes a structure takes the structure and returns the new
one; one that also returns a value returns a pair. Log output is not modelled.\<close>

type_synonym byte = "8 word"

named_theorems c_string \<open>facts about the C string helpers\<close>

section \<open>Lists\<close>

lemma nth_map_upt0 [simp]: "i < n \<Longrightarrow> map f [0..<n] ! i = f i"
  by simp

lemma map_upt0_Suc_snoc: "map f [0..<Suc n] = map f [0..<n] @ [f n]"
  by simp

lemma map_upt0_Suc_Cons: "map f [0..<Suc n] = f 0 # map (\<lambda>i. f (Suc i)) [0..<n]"
  by (simp add: upt_conv_Cons map_Suc_upt [symmetric] del: upt_Suc)

lemma take_list_update_eq: "n \<le> i \<Longrightarrow> take n (xs[i := v]) = take n xs"
  by simp

lemma fold_invariant: "P s \<Longrightarrow> (\<And>x s. P s \<Longrightarrow> P (f x s)) \<Longrightarrow> P (fold f xs s)"
  by (induction xs arbitrary: s) auto

lemma nth_concat_chunks:
  assumes "\<forall>x \<in> set xs. length (f x) = k" "i < length xs" "j < k"
  shows "concat (map f xs) ! (k * i + j) = f (xs ! i) ! j"
  using assms
proof (induction xs arbitrary: i)
  case (Cons x xs)
  have x: "length (f x) = k" using Cons.prems(1) by simp
  show ?case
  proof (cases i)
    case 0 thus ?thesis using x Cons.prems(3) by (simp add: nth_append)
  next
    case (Suc m)
    have "concat (map f (x # xs)) ! (k * Suc m + j) = concat (map f xs) ! (k * m + j)"
      using x by (simp add: nth_append)
    thus ?thesis using Cons.IH[of m] Cons.prems Suc by simp
  qed
qed simp

lemma length_concat_chunks: "\<forall>x \<in> set xs. length (f x) = k \<Longrightarrow> length (concat (map f xs)) = k * length xs"
  by (induction xs) auto

lemma map_upt_nth: "length xs = n \<Longrightarrow> map (\<lambda>i. f (xs ! i)) [0..<n] = map f xs"
  by (simp add: list_eq_iff_nth_eq)

section \<open>Integers modulo a size\<close>

text \<open>A ring index is an integer in \<open>0 ..< n\<close>; these say when two
offsets from the same start meet.\<close>

lemma mod_offset_inj:
  fixes n :: int
  assumes "0 \<le> i" "i < n" "0 \<le> j" "j < n" "(a + i) mod n = (a + j) mod n"
  shows "i = j"
proof -
  have "n dvd (a + i) - (a + j)" using assms(5) by (simp add: mod_eq_dvd_iff)
  hence "n dvd i - j" by simp
  moreover have "\<bar>i - j\<bar> < n" using assms by linarith
  ultimately show ?thesis using zdvd_imp_le[of n "i - j"] zdvd_imp_le[of n "j - i"]
    by (smt (verit) dvd_diff_commute)
qed

lemma mod_diff_suc:
  fixes n :: int
  assumes "0 < n" "(a - b) mod n + 1 < n"
  shows "(a + 1 - b) mod n = (a - b) mod n + 1"
proof -
  have "(a + 1 - b) mod n = ((a - b) mod n + 1) mod n" by (simp add: mod_simps algebra_simps)
  thus ?thesis using assms by simp
qed

lemma mod_diff_pred:
  fixes n :: int
  assumes "0 < n" "0 < (a - b) mod n"
  shows "(a - (b + 1)) mod n = (a - b) mod n - 1"
proof -
  have "(a - (b + 1)) mod n = ((a - b) mod n - 1) mod n" by (simp add: mod_simps algebra_simps)
  moreover have "(a - b) mod n < n" using assms(1) by simp
  ultimately show ?thesis using assms(2) by (simp add: mod_pos_pos_trivial)
qed

lemma mod_window:
  fixes n :: int
  assumes "0 \<le> x + n" "x < n"
  shows "x mod n = (if 0 \<le> x then x else x + n)"
  using assms mod_pos_pos_trivial[of x n] mod_pos_pos_trivial[of "x + n" n] by auto

section \<open>Bits of small words\<close>

lemma word_small_bit:
  fixes x :: "'a::len word"
  assumes "x < 2 ^ n" "bit x k"
  shows "k < n"
proof -
  have "x AND mask n = x" using assms(1) by (rule less_mask_eq)
  thus ?thesis using assms(2) by (metis bit_and_iff bit_mask_iff)
qed

text \<open>The bits of the numerals that are powers of two or masks, for words of
any length that holds them.\<close>

lemma bit_pow2: "w = 2 ^ m \<Longrightarrow> bit (w :: 'a::len word) k \<longleftrightarrow> k = m \<and> m < LENGTH('a)"
  by (auto simp: bit_exp_iff)

lemma bit_mask_word: "bit (mask m :: 'a::len word) k \<longleftrightarrow> k < m \<and> k < LENGTH('a)"
  by (auto simp: bit_mask_iff)

lemma mask_numerals:
  "(0x7 :: 'a::len word) = mask 3" "(0xF :: 'a word) = mask 4" "(0x1F :: 'a word) = mask 5"
  "(0x3F :: 'a word) = mask 6" "(0x7F :: 'a word) = mask 7"
  "(0xFF :: 'a word) = mask 8" "(0xFFFFFF :: 'a word) = mask 24"
  "(0x3 :: 'a word) = mask 2" "(0x3FF :: 'a word) = mask 10" "(0x3FFFF :: 'a word) = mask 18"
  by (simp_all add: mask_eq_exp_minus_1)

section \<open>Clamping\<close>

definition clamp :: "int \<Rightarrow> int \<Rightarrow> int \<Rightarrow> int" where
  "clamp lo hi x = (if x < lo then lo else if hi < x then hi else x)"

lemma clamp_bounds: "lo \<le> hi \<Longrightarrow> lo \<le> clamp lo hi x \<and> clamp lo hi x \<le> hi"
  by (simp add: clamp_def)

lemma clamp_id [simp]: "lo \<le> x \<Longrightarrow> x \<le> hi \<Longrightarrow> clamp lo hi x = x"
  by (simp add: clamp_def)

end
