(* ===== verification/Ringbuffer.thy ===== *)
theory Ringbuffer
  imports Prelude
begin

text \<open>The ring buffer of \<open>src/core/ringbuffer.c\<close>: a fixed array with an
in index and an out index, one slot always left free so that equal indices
mean empty. The payload (\<open>glong\<close>) is never looked at, so it is a type
parameter here.

The interface its clients rely on is the locale \<open>bounded_fifo\<close>: a queue
of at most \<open>cap\<close> elements that refuses a put when full and a get when
empty, leaving both the queue and the caller's variable as they were. The
buffer is shown to be one.\<close>

section \<open>The code\<close>

record 'a ringbufferl =
  queue :: "'a list"
  queue_in :: int
  queue_out :: int
  queue_size :: int

definition queue_put :: "'a ringbufferl \<Rightarrow> 'a \<Rightarrow> 'a ringbufferl \<times> int" where
  "queue_put rbuf new_value =
     (if queue_in rbuf = (queue_out rbuf - 1 + queue_size rbuf) mod queue_size rbuf
      then (rbuf, - 1)
      else (rbuf\<lparr>queue := (queue rbuf)[nat (queue_in rbuf) := new_value],
                 queue_in := (queue_in rbuf + 1) mod queue_size rbuf\<rparr>, 0))"

text \<open>\<open>old\<close> is the caller's variable: it comes back unchanged when there
is nothing to get.\<close>

definition queue_get :: "'a ringbufferl \<Rightarrow> 'a \<Rightarrow> 'a ringbufferl \<times> 'a \<times> int" where
  "queue_get rbuf old =
     (if queue_in rbuf = queue_out rbuf then (rbuf, old, - 1)
      else (rbuf\<lparr>queue_out := (queue_out rbuf + 1) mod queue_size rbuf\<rparr>,
            queue rbuf ! nat (queue_out rbuf), 0))"

text \<open>\<open>queue_size\<close> is a \<open>guint\<close>: \<open>queue_elements + 1\<close> is
stored modulo \<open>2 ^ 32\<close>.\<close>

definition create_long_ringbuffer :: "int \<Rightarrow> 'a \<Rightarrow> 'a ringbufferl" where
  "create_long_ringbuffer queue_elements init_val =
     (let size = (queue_elements + 1) mod 2 ^ 32 in
      \<lparr>queue = replicate (nat size) init_val, queue_in = 0, queue_out = 0,
       queue_size = size\<rparr>)"

section \<open>The contract of a bounded queue\<close>

text \<open>Operations on a queue, and their answers: a put answers its return
code, a get its return code and what the caller's variable holds afterwards.\<close>

datatype 'a fifo_op = Put 'a | Get 'a
datatype 'a fifo_ans = PutAns int | GetAns int 'a

primrec fifo_run ::
  "('q \<Rightarrow> 'a \<Rightarrow> 'q \<times> int) \<Rightarrow> ('q \<Rightarrow> 'a \<Rightarrow> 'q \<times> 'a \<times> int) \<Rightarrow>
   'a fifo_op list \<Rightarrow> 'q \<Rightarrow> 'q \<times> 'a fifo_ans list" where
  "fifo_run put get [] q = (q, [])"
| "fifo_run put get (opn # ops) q =
     (case opn of
        Put x \<Rightarrow> (case put q x of (q1, r) \<Rightarrow>
          (case fifo_run put get ops q1 of (q2, as) \<Rightarrow> (q2, PutAns r # as)))
      | Get old \<Rightarrow> (case get q old of (q1, v, r) \<Rightarrow>
          (case fifo_run put get ops q1 of (q2, as) \<Rightarrow> (q2, GetAns r v # as))))"

text \<open>The specification: a list that never grows beyond \<open>cap\<close>.\<close>

definition spec_put :: "nat \<Rightarrow> 'a list \<Rightarrow> 'a \<Rightarrow> 'a list \<times> int" where
  "spec_put cap xs x = (if length xs < cap then (xs @ [x], 0) else (xs, - 1))"

definition spec_get :: "'a list \<Rightarrow> 'a \<Rightarrow> 'a list \<times> 'a \<times> int" where
  "spec_get xs old = (case xs of [] \<Rightarrow> ([], old, - 1) | y # ys \<Rightarrow> (ys, y, 0))"

primrec put_all :: "('q \<Rightarrow> 'a \<Rightarrow> 'q \<times> int) \<Rightarrow> 'a list \<Rightarrow> 'q \<Rightarrow> 'q" where
  "put_all put [] q = q"
| "put_all put (x # xs) q = put_all put xs (fst (put q x))"

locale bounded_fifo =
  fixes put :: "'q \<Rightarrow> 'a \<Rightarrow> 'q \<times> int"
    and get :: "'q \<Rightarrow> 'a \<Rightarrow> 'q \<times> 'a \<times> int"
    and contents :: "'q \<Rightarrow> 'a list"
    and inv :: "'q \<Rightarrow> bool"
    and cap :: "'q \<Rightarrow> nat"
  assumes put_room: "inv q \<Longrightarrow> length (contents q) < cap q \<Longrightarrow>
      inv (fst (put q x)) \<and> contents (fst (put q x)) = contents q @ [x]
      \<and> cap (fst (put q x)) = cap q \<and> snd (put q x) = 0"
    and put_full: "inv q \<Longrightarrow> \<not> length (contents q) < cap q \<Longrightarrow> put q x = (q, - 1)"
    and get_some: "inv q \<Longrightarrow> contents q = y # ys \<Longrightarrow>
      inv (fst (get q old)) \<and> contents (fst (get q old)) = ys
      \<and> cap (fst (get q old)) = cap q \<and> snd (get q old) = (y, 0)"
    and get_none: "inv q \<Longrightarrow> contents q = [] \<Longrightarrow> get q old = (q, old, - 1)"
    and within: "inv q \<Longrightarrow> length (contents q) \<le> cap q"
begin

lemma put_inv: "inv q \<Longrightarrow> inv (fst (put q x)) \<and> cap (fst (put q x)) = cap q"
  by (cases "length (contents q) < cap q") (simp_all add: put_room put_full)

lemma put_spec: "inv q \<Longrightarrow>
  (contents (fst (put q x)), snd (put q x)) = spec_put (cap q) (contents q) x"
  by (cases "length (contents q) < cap q") (simp_all add: put_room put_full spec_put_def)

lemma get_inv: "inv q \<Longrightarrow> inv (fst (get q old)) \<and> cap (fst (get q old)) = cap q"
  by (cases "contents q") (simp_all add: get_some get_none)

lemma get_spec: "inv q \<Longrightarrow>
  (contents (fst (get q old)), snd (get q old)) = spec_get (contents q) old"
  by (cases "contents q") (simp_all add: get_some get_none spec_get_def)

lemma run_refines: "inv q \<Longrightarrow>
  inv (fst (fifo_run put get ops q)) \<and>
  (contents (fst (fifo_run put get ops q)), snd (fifo_run put get ops q))
    = fifo_run (spec_put (cap q)) spec_get ops (contents q)"
proof (induction ops arbitrary: q)
  case (Cons opn ops)
  show ?case
  proof (cases opn)
    case (Put x)
    obtain q1 r where p: "put q x = (q1, r)" by fastforce
    have "inv q1" "cap q1 = cap q" "spec_put (cap q) (contents q) x = (contents q1, r)"
      using put_inv[OF Cons.prems, of x] put_spec[OF Cons.prems, of x] p by auto
    thus ?thesis using Cons.IH[of q1] Put p by (auto split: prod.splits)
  next
    case (Get old)
    obtain q1 v r where g: "get q old = (q1, v, r)" by (metis prod.collapse)
    have "inv q1" "cap q1 = cap q" "spec_get (contents q) old = (contents q1, v, r)"
      using get_inv[OF Cons.prems, of old] get_spec[OF Cons.prems, of old] g by auto
    thus ?thesis using Cons.IH[of q1] Get g by (auto split: prod.splits)
  qed
qed simp

lemma put_all_contents: "inv q \<Longrightarrow> inv (put_all put xs q) \<and> cap (put_all put xs q) = cap q \<and>
   contents (put_all put xs q) = contents q @ take (cap q - length (contents q)) xs"
proof (induction xs arbitrary: q)
  case (Cons x xs)
  show ?case
  proof (cases "length (contents q) < cap q")
    case True
    note r = put_room[OF Cons.prems True, of x]
    have "cap q - length (contents q) = Suc (cap q - Suc (length (contents q)))" using True by simp
    thus ?thesis using Cons.IH[of "fst (put q x)"] r by simp
  next
    case False
    thus ?thesis using Cons.IH[of q] put_full[OF Cons.prems False, of x] Cons.prems by simp
  qed
qed simp

end

section \<open>The ring buffer is a bounded queue\<close>

definition rb_inv :: "'a ringbufferl \<Rightarrow> bool" where
  "rb_inv b \<longleftrightarrow> 0 < queue_size b \<and> 0 \<le> queue_in b \<and> queue_in b < queue_size b
     \<and> 0 \<le> queue_out b \<and> queue_out b < queue_size b
     \<and> length (queue b) = nat (queue_size b)"

definition rb_length :: "'a ringbufferl \<Rightarrow> nat" where
  "rb_length b = nat ((queue_in b - queue_out b) mod queue_size b)"

definition rb_list :: "'a ringbufferl \<Rightarrow> 'a list" where
  "rb_list b = map (\<lambda>i. queue b ! nat ((queue_out b + int i) mod queue_size b)) [0..<rb_length b]"

definition rb_cap :: "'a ringbufferl \<Rightarrow> nat" where
  "rb_cap b = nat (queue_size b) - 1"

lemma length_rb_list [simp]: "length (rb_list b) = rb_length b"
  by (simp add: rb_list_def)

lemma rb_length_less: "rb_inv b \<Longrightarrow> rb_length b < nat (queue_size b)"
  by (simp add: rb_inv_def rb_length_def nat_less_iff)

lemma rb_full_iff:
  assumes "rb_inv b"
  shows "queue_in b = (queue_out b - 1 + queue_size b) mod queue_size b
    \<longleftrightarrow> \<not> rb_length b < rb_cap b"
proof -
  let ?n = "queue_size b" and ?i = "queue_in b" and ?o = "queue_out b"
  have b: "0 < ?n" "0 \<le> ?i" "?i < ?n" "0 \<le> ?o" "?o < ?n" using assms by (auto simp: rb_inv_def)
  have "(?i - ?o) mod ?n = (if ?o \<le> ?i then ?i - ?o else ?i - ?o + ?n)"
    using mod_window[of "?i - ?o" ?n] b by auto
  moreover have "(?o - 1 + ?n) mod ?n = (if ?o = 0 then ?n - 1 else ?o - 1)"
    using mod_window[of "?o - 1" ?n] b by auto
  ultimately show ?thesis using b unfolding rb_length_def rb_cap_def by (auto split: if_splits)
qed

lemma rb_put_room:
  assumes inv: "rb_inv b" and room: "rb_length b < rb_cap b"
  shows "rb_inv (fst (queue_put b x)) \<and> rb_list (fst (queue_put b x)) = rb_list b @ [x]
    \<and> rb_cap (fst (queue_put b x)) = rb_cap b \<and> snd (queue_put b x) = 0"
proof -
  let ?n = "queue_size b" and ?i = "queue_in b" and ?o = "queue_out b"
  let ?b = "fst (queue_put b x)"
  have b: "0 < ?n" "0 \<le> ?i" "?i < ?n" "0 \<le> ?o" "?o < ?n" "length (queue b) = nat ?n"
    using inv by (auto simp: rb_inv_def)
  have put: "queue_put b x = (b\<lparr>queue := (queue b)[nat ?i := x], queue_in := (?i + 1) mod ?n\<rparr>, 0)"
    using rb_full_iff[OF inv] room by (simp add: queue_put_def)
  have d: "0 \<le> (?i - ?o) mod ?n" "(?i - ?o) mod ?n + 1 < ?n"
    using b room by (auto simp: rb_length_def rb_cap_def)
  have "(?i + 1 - ?o) mod ?n = (?i - ?o) mod ?n + 1" using mod_diff_suc[of ?n ?i ?o] b d by simp
  hence len: "rb_length ?b = Suc (rb_length b)"
    using d by (simp add: put rb_length_def mod_diff_left_eq nat_add_distrib)
  have old: "(queue b)[nat ?i := x] ! nat ((?o + int k) mod ?n)
      = queue b ! nat ((?o + int k) mod ?n)" if "k < rb_length b" for k
  proof -
    have k: "int k < (?i - ?o) mod ?n" using that by (simp add: rb_length_def zless_nat_eq_int_zless)
    hence "(?o + int k) mod ?n \<noteq> (?o + (?i - ?o) mod ?n) mod ?n"
      using mod_offset_inj[of "int k" ?n "(?i - ?o) mod ?n" ?o] d by fastforce
    hence "(?o + int k) mod ?n \<noteq> ?i" using b by (simp add: mod_simps)
    moreover have "0 \<le> (?o + int k) mod ?n" using b by simp
    ultimately have "nat ?i \<noteq> nat ((?o + int k) mod ?n)" using b by (simp add: nat_eq_iff)
    thus ?thesis by simp
  qed
  have new: "(?o + int (rb_length b)) mod ?n = ?i"
    using b d by (simp add: rb_length_def mod_simps)
  have "rb_list ?b = rb_list b @ [x]"
    unfolding rb_list_def len map_upt0_Suc_snoc
    using b old new by (simp add: put nat_less_iff)
  thus ?thesis using b by (simp add: put rb_inv_def rb_cap_def)
qed

lemma rb_get_some:
  assumes inv: "rb_inv b" and some: "rb_list b = y # ys"
  shows "rb_inv (fst (queue_get b old)) \<and> rb_list (fst (queue_get b old)) = ys
    \<and> rb_cap (fst (queue_get b old)) = rb_cap b \<and> snd (queue_get b old) = (y, 0)"
proof -
  let ?n = "queue_size b" and ?i = "queue_in b" and ?o = "queue_out b"
  let ?b = "b\<lparr>queue_out := (?o + 1) mod ?n\<rparr>"
  have b: "0 < ?n" "0 \<le> ?i" "?i < ?n" "0 \<le> ?o" "?o < ?n" "length (queue b) = nat ?n"
    using inv by (auto simp: rb_inv_def)
  have "rb_length b = Suc (length ys)" using some by (metis length_rb_list length_Cons)
  hence pos: "0 < (?i - ?o) mod ?n" by (auto simp: rb_length_def)
  have ne: "?i \<noteq> ?o" using pos by auto
  have len: "rb_length b = Suc (rb_length ?b)"
    using mod_diff_pred[of ?n ?i ?o] b pos
    by (simp add: rb_length_def mod_diff_right_eq Suc_nat_eq_nat_zadd1 algebra_simps)
  have step: "((?o + 1) mod ?n + int k) mod ?n = (?o + int (Suc k)) mod ?n" for k
    by (simp add: mod_simps algebra_simps)
  have "rb_list b = queue b ! nat ?o # rb_list ?b"
    unfolding rb_list_def len map_upt0_Suc_Cons
    using b by (simp add: step del: of_nat_Suc)
  hence "queue b ! nat ?o = y" "rb_list ?b = ys" using some by auto
  thus ?thesis using b ne by (simp add: queue_get_def rb_inv_def rb_cap_def)
qed

lemma rb_get_none:
  assumes inv: "rb_inv b" and none: "rb_list b = []"
  shows "queue_get b old = (b, old, - 1)"
proof -
  have "rb_length b = 0" using none by (metis length_rb_list list.size(3))
  hence "(queue_in b - queue_out b) mod queue_size b = 0"
    using inv pos_mod_sign[of "queue_size b" "queue_in b - queue_out b"]
    unfolding rb_length_def rb_inv_def by linarith
  hence "queue_in b = queue_out b"
    using inv by (simp add: rb_inv_def mod_window split: if_splits)
  thus ?thesis by (simp add: queue_get_def)
qed

interpretation rb: bounded_fifo queue_put queue_get rb_list rb_inv rb_cap
proof
  show "queue_put q x = (q, - 1)" if "rb_inv q" "\<not> length (rb_list q) < rb_cap q"
    for q :: "'a ringbufferl" and x
    using that rb_full_iff[of q] by (simp add: queue_put_def)
  show "length (rb_list q) \<le> rb_cap q" if "rb_inv q" for q :: "'a ringbufferl"
    using rb_length_less[OF that] by (simp add: rb_cap_def)
qed (use rb_put_room rb_get_some rb_get_none in \<open>simp_all add: rb_put_room\<close>)

lemma create_long_ringbuffer_inv:
  "0 \<le> n \<Longrightarrow> n < 2 ^ 32 - 1 \<Longrightarrow>
     rb_inv (create_long_ringbuffer n v) \<and> rb_list (create_long_ringbuffer n v) = []
     \<and> rb_cap (create_long_ringbuffer n v) = nat n"
  by (simp add: create_long_ringbuffer_def Let_def rb_inv_def rb_list_def rb_length_def rb_cap_def
      nat_add_distrib)

section \<open>Properties\<close>

text \<open>A new ring buffer of n elements behaves, for every sequence of puts
and gets, exactly as a list of at most n elements: a put on a full queue and a get
on an empty one answer -1 and change nothing, every other get answers the oldest
element not yet taken.\<close>

theorem ring_buffer_is_bounded_fifo:
  assumes "0 \<le> n" "n < 2 ^ 32 - 1"
  shows "snd (fifo_run queue_put queue_get ops (create_long_ringbuffer n v)) =
         snd (fifo_run (spec_put (nat n)) spec_get ops [])"
  using rb.run_refines[of "create_long_ringbuffer n v" ops] create_long_ringbuffer_inv[OF assms, of v]
  by (metis snd_conv)

theorem ring_buffer_is_bounded_fifo_witness:
  "snd (fifo_run queue_put queue_get [Put 5, Put 6, Put 7, Get 0, Put 8, Get 0, Get 0, Get 9]
      (create_long_ringbuffer 2 (0 :: int))) =
    [PutAns 0, PutAns 0, PutAns (- 1), GetAns 0 5, PutAns 0, GetAns 0 6, GetAns 0 8, GetAns (- 1) 9]"
  using ring_buffer_is_bounded_fifo[of 2 "[Put 5, Put 6, Put 7, Get 0, Put 8, Get 0, Get 0, Get 9]" "0 :: int"]
  by (simp add: spec_put_def spec_get_def)

end
