(* ===== verification/Peak_Detect.thy ===== *)
theory Peak_Detect
  imports Complex_Main Prelude
begin

text \<open>The peak detector of \<open>src/dsp/peak_detect.c\<close>: a circular buffer that
overwrites its oldest sample, and the largest sample it holds. The buffer is
related to the list of its last \<open>queue_size\<close> samples, oldest first
(\<open>pd_window\<close>); the peak is the maximum of that list and zero.\<close>

section \<open>The code\<close>

record peakdetector =
  pd_queue :: "real list"
  pd_queue_in :: nat
  pd_queue_size :: nat

definition peak_queue_put :: "peakdetector \<Rightarrow> real \<Rightarrow> peakdetector" where
  "peak_queue_put rbuf new_value =
     (let i = (if pd_queue_in rbuf \<ge> pd_queue_size rbuf then 0 else pd_queue_in rbuf) in
      rbuf\<lparr>pd_queue := (pd_queue rbuf)[i := new_value], pd_queue_in := i + 1\<rparr>)"

primrec peak_scan :: "real list \<Rightarrow> nat \<Rightarrow> real" where
  "peak_scan q 0 = 0"
| "peak_scan q (Suc i) = (if q ! i > peak_scan q i then q ! i else peak_scan q i)"

definition get_peak :: "peakdetector \<Rightarrow> real \<Rightarrow> peakdetector \<times> real" where
  "get_peak rbuf new_val =
     (let rbuf1 = peak_queue_put rbuf new_val in
      (rbuf1, peak_scan (pd_queue rbuf1) (pd_queue_size rbuf1)))"

definition create_peak_detector :: "nat \<Rightarrow> real \<Rightarrow> peakdetector" where
  "create_peak_detector num_samples init_val =
     (let r0 = \<lparr>pd_queue = replicate num_samples 0, pd_queue_in = 0, pd_queue_size = num_samples\<rparr>;
          r1 = ((\<lambda>r. peak_queue_put r init_val) ^^ num_samples) r0
      in r1\<lparr>pd_queue_in := 0\<rparr>)"

section \<open>The window a detector holds\<close>

text \<open>\<open>pd_window d w\<close>: the samples still in the buffer are \<open>w\<close>,
oldest first.\<close>

definition pd_window :: "peakdetector \<Rightarrow> real list \<Rightarrow> bool" where
  "pd_window d w \<longleftrightarrow> 0 < pd_queue_size d \<and> length (pd_queue d) = pd_queue_size d
     \<and> length w = pd_queue_size d \<and> pd_queue_in d \<le> pd_queue_size d
     \<and> w = rotate (pd_queue_in d) (pd_queue d)"

lemma rotate_full: "rotate (length xs) xs = xs"
  by (simp add: rotate_id)

lemma rotate_update:
  assumes "i < length xs"
  shows "rotate (Suc i) (xs[i := v]) = tl (rotate i xs) @ [v]"
proof -
  obtain a y b where xs: "xs = a @ y # b" "length a = i"
    using assms id_take_nth_drop[OF assms] by (metis length_take min.absorb4)
  have "rotate (length (a @ [v])) ((a @ [v]) @ b) = b @ a @ [v]" by (rule rotate_append)
  moreover have "rotate (length a) (a @ y # b) = (y # b) @ a" by (rule rotate_append)
  ultimately show ?thesis using xs by (simp add: list_update_append)
qed

lemma pd_window_put:
  assumes "pd_window d w"
  shows "pd_window (peak_queue_put d x) (tl w @ [x])"
proof -
  let ?n = "pd_queue_size d"
  let ?i = "if pd_queue_in d \<ge> ?n then 0 else pd_queue_in d"
  have d: "length (pd_queue d) = ?n" "0 < ?n" "pd_queue_in d \<le> ?n"
    using assms by (auto simp: pd_window_def)
  have i: "?i < length (pd_queue d)" using d by auto
  have w: "w = rotate ?i (pd_queue d)"
    using assms d rotate_full[of "pd_queue d"] by (auto simp: pd_window_def)
  show ?thesis
    using d w i rotate_update[OF i, of x]
    by (simp add: pd_window_def peak_queue_put_def Let_def)
qed

lemma peak_scan_Max: "n \<le> length q \<Longrightarrow> peak_scan q n = Max (insert 0 (set (take n q)))"
proof (induction n)
  case (Suc n)
  have "insert 0 (set (take (Suc n) q)) = insert (q ! n) (insert 0 (set (take n q)))"
    using Suc.prems by (auto simp: take_Suc_conv_app_nth)
  hence "Max (insert 0 (set (take (Suc n) q))) = max (q ! n) (Max (insert 0 (set (take n q))))"
    by (metis Max_insert List.finite_set finite_insert insert_not_empty)
  moreover have "peak_scan q n = Max (insert 0 (set (take n q)))" using Suc by simp
  ultimately show ?case by (metis linorder_not_less max.absorb1 max.absorb2 order_less_imp_le peak_scan.simps(2))
qed simp

lemma get_peak_window:
  assumes "pd_window d w"
  shows "pd_window (fst (get_peak d x)) (tl w @ [x])
    \<and> snd (get_peak d x) = Max (insert 0 (set (tl w @ [x])))"
proof -
  let ?d = "peak_queue_put d x"
  have p: "pd_window ?d (tl w @ [x])" using pd_window_put[OF assms] .
  hence "set (tl w @ [x]) = set (pd_queue ?d)" "length (pd_queue ?d) = pd_queue_size ?d"
    by (metis pd_window_def set_rotate, simp add: pd_window_def)
  thus ?thesis using p peak_scan_Max[of "pd_queue_size ?d" "pd_queue ?d"]
    by (simp add: get_peak_def Let_def)
qed

lemma pd_window_puts:
  "pd_window d w \<Longrightarrow> pd_window (fold (\<lambda>x d. peak_queue_put d x) xs d)
     (drop (length xs) (w @ xs))"
proof (induction xs rule: rev_induct)
  case (snoc x xs)
  have "pd_window (fold (\<lambda>x d. peak_queue_put d x) xs d) (drop (length xs) (w @ xs))"
    using snoc by simp
  moreover have "w \<noteq> []" using snoc.prems by (auto simp: pd_window_def)
  ultimately show ?case
    using pd_window_put[of _ "drop (length xs) (w @ xs)" x]
    by (cases w) (simp_all add: drop_Suc tl_drop)
qed simp

lemma fold_replicate: "fold f (replicate n v) d = (f v ^^ n) d"
  by (induction n arbitrary: d) (simp_all add: funpow_swap1)

lemma create_peak_detector_window:
  assumes "0 < n"
  shows "pd_window (create_peak_detector n v) (replicate n v)"
proof -
  let ?r0 = "\<lparr>pd_queue = replicate n 0, pd_queue_in = 0, pd_queue_size = n\<rparr>"
  let ?r1 = "((\<lambda>r. peak_queue_put r v) ^^ n) ?r0"
  have w0: "pd_window ?r0 (replicate n 0)" using assms by (simp add: pd_window_def)
  have "pd_window (fold (\<lambda>x d. peak_queue_put d x) (replicate n v) ?r0) (replicate n v)"
    using pd_window_puts[OF w0, of "replicate n v"] by simp
  moreover have "fold (\<lambda>x d. peak_queue_put d x) (replicate n v) ?r0 = ?r1"
    by (simp add: fold_replicate)
  ultimately have r1: "pd_window ?r1 (replicate n v)" by simp
  hence "set (pd_queue ?r1) \<subseteq> {v}" "length (pd_queue ?r1) = n"
    by (auto simp: pd_window_def dest!: arg_cong[where f = set])
  hence "pd_queue ?r1 = replicate n v" by (metis replicate_eqI singletonD subsetD)
  thus ?thesis using r1 assms by (auto simp: create_peak_detector_def Let_def pd_window_def)
qed

section \<open>Properties\<close>

lemma get_peak_state: "fst (get_peak d x) = peak_queue_put d x"
  by (simp add: get_peak_def Let_def)

text \<open>After any number of samples, the peak a detector of n slots reports
is the largest of zero and the last n samples given to it, the initial value
standing for samples not yet given.\<close>

theorem get_peak_is_window_maximum:
  assumes "0 < n"
  shows "snd (get_peak (fold (\<lambda>x d. fst (get_peak d x)) xs (create_peak_detector n v)) x) =
    Max (insert 0 (set (drop (length xs + 1) (replicate n v @ xs @ [x]))))"
proof -
  let ?d = "fold (\<lambda>x d. peak_queue_put d x) xs (create_peak_detector n v)"
  let ?w = "drop (length xs) (replicate n v @ xs)"
  have w: "pd_window ?d ?w" using pd_window_puts[OF create_peak_detector_window[OF assms, of v]] .
  have "tl ?w = drop (Suc (length xs)) (replicate n v @ xs)"
    by (simp only: drop_Suc tl_drop)
  also have "\<dots> @ [x] = drop (Suc (length xs)) ((replicate n v @ xs) @ [x])"
    using assms by (subst drop_append) simp
  finally have "tl ?w @ [x] = drop (length xs + 1) (replicate n v @ xs @ [x])" by simp
  thus ?thesis using get_peak_window[OF w, of x] by (simp add: get_peak_state)
qed

theorem get_peak_is_window_maximum_witness:
  "snd (get_peak (fold (\<lambda>x d. fst (get_peak d x)) [7, 2] (create_peak_detector 2 0)) 1) = 2"
  using get_peak_is_window_maximum[of 2 "[7, 2]" 0 1] by (simp add: numeral_2_eq_2)

end
