(* ===== verification/Hl2.thy ===== *)
theory Hl2
  imports Ringbuffer Peak_Detect
begin

text \<open>The Hermes-Lite 2 helpers of \<open>src/proto/hl2.c\<close>: the I2C requests
that several threads queue and the protocol 1 sender takes one at a time, the
packing of a request into one integer and its unpacking into the bytes of a
command frame, the answers the radio sends back, and the divider of the second
clock output.

The queue is the ring buffer of \<open>Ringbuffer\<close>, used here only through the
laws of \<open>bounded_fifo\<close>. The quotients computed in \<open>double\<close> are
taken exactly: in \<open>HL2cl2CalculateNearest\<close> the truncated quotient is the
integer quotient, because it is at least \<open>1 / lo_freq\<close> away from the next
integer; in \<open>HL2cl2Enable\<close> it is the real quotient, unrounded.\<close>

section \<open>Constants of hl2.h\<close>

definition ADDR_I2C2 :: "32 word" where "ADDR_I2C2 = 0x3d"
definition ADDR_I2C1 :: "32 word" where "ADDR_I2C1 = 0x3c"
definition I2C1_WRITE :: "32 word" where "I2C1_WRITE = 0x06"
definition I2C1_READ :: "32 word" where "I2C1_READ = 0x07"
definition I2C2_WRITE :: "32 word" where "I2C2_WRITE = 0x0E"
definition I2C2_READ :: "32 word" where "I2C2_READ = 0x0F"
definition ADDR_MCP4561 :: "32 word" where "ADDR_MCP4561 = 0x2e"
definition ADDR_MCP4662 :: "32 word" where "ADDR_MCP4662 = 0x2c"
definition ADDR_MRF101 :: "32 word" where "ADDR_MRF101 = 0x2A"
definition ADDR_VERSA5 :: "32 word" where "ADDR_VERSA5 = 0xD4"
definition MCP4662_BIAS0 :: "32 word" where "MCP4662_BIAS0 = 0x02"
definition MCP4662_BIAS1 :: "32 word" where "MCP4662_BIAS1 = 0x03"
definition DUMMY_VALUE :: "32 word" where "DUMMY_VALUE = 0"
definition HL2_I2C_QUEUESIZE :: int where "HL2_I2C_QUEUESIZE = 15"
definition CURRENT_PEAK_BUF_SIZE :: nat where "CURRENT_PEAK_BUF_SIZE = 40"
definition MAX_GAIN :: int where "MAX_GAIN = 31"

lemmas hl2_consts = ADDR_I2C2_def ADDR_I2C1_def I2C1_WRITE_def I2C1_READ_def I2C2_WRITE_def
  I2C2_READ_def ADDR_MCP4561_def ADDR_MCP4662_def ADDR_MRF101_def ADDR_VERSA5_def
  MCP4662_BIAS0_def MCP4662_BIAS1_def DUMMY_VALUE_def HL2_I2C_QUEUESIZE_def
  CURRENT_PEAK_BUF_SIZE_def MAX_GAIN_def

section \<open>State\<close>

record hermeslite2 =
  mrf101_bias_value :: "32 word"
  mrf101_bias_enable :: bool
  clock2_freq :: int
  xvtr :: bool
  adc2_value_to_send :: bool
  adc2_lna_gain :: int
  value_to_send :: "64 word"
  addr_waiting_for :: "32 word"
  command_waiting_for :: "32 word"
  hl2_tx_buffer_size :: int
  late_packets :: int
  ep6_error_ctr :: int
  overflow :: bool
  underflow :: bool
  mrf101_temp :: real
  mrf101_current :: real
  current_peak :: real
  current_peak_buf :: peakdetector
  psu_clk :: bool
  lna_gain_tx :: int
  one_shot_queue :: "64 word ringbufferl"
  cl2_enabled :: bool
  cl2_integer_mode :: bool

definition create_hl2 :: hermeslite2 where
  "create_hl2 =
    \<lparr>mrf101_bias_value = 0, mrf101_bias_enable = False, clock2_freq = 1, xvtr = False,
     adc2_value_to_send = False, adc2_lna_gain = 20, value_to_send = 0,
     addr_waiting_for = 0, command_waiting_for = 0, hl2_tx_buffer_size = 0x15,
     late_packets = 0, ep6_error_ctr = 0, overflow = False, underflow = False,
     mrf101_temp = 0, mrf101_current = 0, current_peak = 0,
     current_peak_buf = create_peak_detector CURRENT_PEAK_BUF_SIZE 0,
     psu_clk = True, lna_gain_tx = 20,
     one_shot_queue = create_long_ringbuffer HL2_I2C_QUEUESIZE 0,
     cl2_enabled = False, cl2_integer_mode = False\<rparr>"

section \<open>The I2C queue\<close>

text \<open>\<open>hl2_combined\<close> is the packing inside \<open>HL2i2cQueueWrite\<close>:
the value is masked to a byte, the command is not.\<close>

definition hl2_combined :: "32 word \<Rightarrow> 32 word \<Rightarrow> 32 word \<Rightarrow> 32 word \<Rightarrow> 64 word" where
  "hl2_combined readwrite addr command v =
     ucast (push_bit 24 readwrite) OR ucast (push_bit 16 (addr OR 0x80))
     OR ucast (push_bit 8 command) OR ucast (v AND 0xFF)"

definition HL2i2cQueueWrite ::
  "hermeslite2 \<Rightarrow> 32 word \<Rightarrow> 32 word \<Rightarrow> 32 word \<Rightarrow> 32 word \<Rightarrow> hermeslite2" where
  "HL2i2cQueueWrite hl2 readwrite addr command v =
     hl2\<lparr>one_shot_queue := fst (queue_put (one_shot_queue hl2) (hl2_combined readwrite addr command v))\<rparr>"

definition HL2i2cWriteQueued :: "hermeslite2 \<Rightarrow> hermeslite2 \<times> bool" where
  "HL2i2cWriteQueued hl2 =
     (case queue_get (one_shot_queue hl2) (value_to_send hl2) of (q, old, r) \<Rightarrow>
        if r = - 1 then (hl2\<lparr>one_shot_queue := q, value_to_send := old\<rparr>, False)
        else (hl2\<lparr>one_shot_queue := q, value_to_send := old\<rparr>, True))"

definition HL2i2cReadWrite :: "hermeslite2 \<Rightarrow> 32 word" where
  "HL2i2cReadWrite hl2 = ucast (drop_bit 24 (value_to_send hl2) AND 0x7)"

definition HL2i2cSendTargetAddr :: "hermeslite2 \<Rightarrow> hermeslite2 \<times> 32 word" where
  "HL2i2cSendTargetAddr hl2 =
     (let a = ucast (drop_bit 16 (value_to_send hl2) AND 0xFF)
      in (hl2\<lparr>addr_waiting_for := a\<rparr>, a))"

definition HL2i2cSendCommand :: "hermeslite2 \<Rightarrow> hermeslite2 \<times> 32 word" where
  "HL2i2cSendCommand hl2 =
     (let c = ucast (drop_bit 8 (value_to_send hl2) AND 0xFF)
      in (hl2\<lparr>command_waiting_for := c\<rparr>, c))"

definition HL2i2cSendValue :: "hermeslite2 \<Rightarrow> 32 word" where
  "HL2i2cSendValue hl2 = ucast (value_to_send hl2 AND 0xFF)"

definition HL2i2cSendRqst :: "hermeslite2 \<Rightarrow> 32 word" where
  "HL2i2cSendRqst hl2 =
     (let rqst = (if drop_bit 27 (value_to_send hl2 AND 0x8000000) \<noteq> 0
                  then push_bit 1 ADDR_I2C2 AND 0xFF
                  else push_bit 1 ADDR_I2C1 AND 0xFF)
      in if ucast (drop_bit 24 (value_to_send hl2) AND 0x7) = I2C1_READ
         then rqst OR 0x80 else rqst)"

definition adc2_set_lna_gain :: "hermeslite2 \<Rightarrow> int \<Rightarrow> hermeslite2" where
  "adc2_set_lna_gain hl2 gain = hl2\<lparr>adc2_lna_gain := gain, adc2_value_to_send := True\<rparr>"

definition adc2_check_send :: "hermeslite2 \<Rightarrow> hermeslite2 \<times> bool" where
  "adc2_check_send hl2 =
     (if adc2_value_to_send hl2 then (hl2\<lparr>adc2_value_to_send := False\<rparr>, True) else (hl2, False))"

section \<open>Answers from the radio\<close>

text \<open>Only the state changes of the answer are kept: the MCP4662 bias is
logged and forgotten by the code, and so is an unknown command.\<close>

definition HL2i2cStoreValue :: "hermeslite2 \<Rightarrow> 32 word \<Rightarrow> 64 word \<Rightarrow> hermeslite2" where
  "HL2i2cStoreValue hl2 raddr rdata =
     (let dev = addr_waiting_for hl2 AND 0x3F;
          cmd = drop_bit 4 (command_waiting_for hl2) AND 0xff in
      if dev = ADDR_MCP4662 then hl2
      else if dev = ADDR_MCP4561 then
        (if cmd = MCP4662_BIAS0
         then hl2\<lparr>mrf101_bias_value := ucast (drop_bit 24 rdata AND 0xFF)\<rparr> else hl2)
      else if dev = ADDR_MRF101 then
        (let temp = real (unat (rdata AND 0xFF));
             cur = real (unat (drop_bit 8 rdata AND 0xFF)) / 255 * 5
         in case get_peak (current_peak_buf hl2) cur of (buf, peak) \<Rightarrow>
              hl2\<lparr>mrf101_temp := temp, mrf101_current := cur,
                  current_peak_buf := buf, current_peak := peak\<rparr>)
      else hl2)"

definition HL2i2cProcessReturnValue ::
  "hermeslite2 \<Rightarrow> byte \<Rightarrow> byte \<Rightarrow> byte \<Rightarrow> byte \<Rightarrow> byte \<Rightarrow> hermeslite2" where
  "HL2i2cProcessReturnValue hl2 c0 c1 c2 c3 c4 =
     (let raddr = drop_bit 1 (ucast c0) AND 0xFF;
          rdata = push_bit 24 (ucast c1) OR push_bit 16 (ucast c2)
                  OR push_bit 8 (ucast c3) OR ucast c4
      in HL2i2cStoreValue hl2 raddr rdata)"

section \<open>Quality of service and MRF101 amplifier\<close>

text \<open>What \<open>qos_timer_cb\<close> reads and writes of the radio, and whether it
reopened the audio output of the transmitter's receiver.\<close>

definition qos_timer_cb :: "bool \<Rightarrow> bool \<Rightarrow> hermeslite2 \<Rightarrow> hermeslite2 \<times> bool \<times> bool" where
  "qos_timer_cb cwdaemon tx_receiver hl2 =
     (let reset = late_packets hl2 > 7 \<and> cwdaemon \<and> tx_receiver;
          qos_flag = (reset \<or> ep6_error_ctr hl2 > 0)
      in (hl2\<lparr>late_packets := 0, ep6_error_ctr := 0\<rparr>, qos_flag, reset))"

definition mrf101data_timer_timer_cb :: "hermeslite2 \<Rightarrow> hermeslite2" where
  "mrf101data_timer_timer_cb hl2 = HL2i2cQueueWrite hl2 I2C2_READ ADDR_MRF101 0x01 0x00"

datatype hl2_timer = Qos_timer int | Mrf101data_timer int

definition HL2mrf101DataInit :: "hermeslite2 \<Rightarrow> hermeslite2 \<times> hl2_timer list" where
  "HL2mrf101DataInit hl2 =
     (HL2i2cQueueWrite (HL2i2cQueueWrite hl2 I2C2_WRITE ADDR_MRF101 0x02 0x1E)
        I2C2_WRITE ADDR_MRF101 0x02 0x1E, [Mrf101data_timer 200])"

definition hl2_init :: "bool \<Rightarrow> hermeslite2 \<Rightarrow> hermeslite2 \<times> hl2_timer list" where
  "hl2_init filter_board_is_mrf101 hl2 =
     (if filter_board_is_mrf101
      then (case HL2mrf101DataInit hl2 of (h, ts) \<Rightarrow> (h, Qos_timer 5000 # ts))
      else (hl2, [Qos_timer 5000]))"

definition HL2mrf101SetBias :: "hermeslite2 \<Rightarrow> hermeslite2" where
  "HL2mrf101SetBias hl2 = HL2i2cQueueWrite hl2 I2C2_WRITE ADDR_MCP4561 0 (mrf101_bias_value hl2)"

definition HL2mrf101StoreBias :: "hermeslite2 \<Rightarrow> hermeslite2" where
  "HL2mrf101StoreBias hl2 =
     (let addr = MCP4662_BIAS0 OR (push_bit 4 MCP4662_BIAS0 AND 0xff)
      in HL2i2cQueueWrite hl2 I2C2_WRITE ADDR_MCP4561 addr (mrf101_bias_value hl2))"

definition HL2mrf101ReadBias :: "hermeslite2 \<Rightarrow> hermeslite2" where
  "HL2mrf101ReadBias hl2 =
     (let addr = (push_bit 4 MCP4662_BIAS0 AND 0xff) OR 0x0c
      in HL2i2cQueueWrite hl2 I2C2_READ ADDR_MCP4561 addr DUMMY_VALUE)"

definition hl2_set_tx_attenuation :: "hermeslite2 \<Rightarrow> int \<Rightarrow> hermeslite2" where
  "hl2_set_tx_attenuation hl2 new_att = hl2\<lparr>lna_gain_tx := new_att\<rparr>"

definition hl2_get_tx_attenuation :: "hermeslite2 \<Rightarrow> int" where
  "hl2_get_tx_attenuation hl2 = MAX_GAIN - lna_gain_tx hl2"

section \<open>The second clock output\<close>

definition HL2cl2CalculateNearest :: "int \<Rightarrow> int" where
  "HL2cl2CalculateNearest lo_freq =
     (if lo_freq \<le> 0 then lo_freq
      else let divisor = 2611200000 div (2 * lo_freq) in
        if divisor < 1 then lo_freq else 2611200000 div divisor div 2)"

text \<open>The divisor of \<open>HL2cl2Enable\<close> before and after the integer mode,
and the 32 bit divider made of it: 8 integer and 24 fractional bits.\<close>

definition cl2_divisor :: "hermeslite2 \<Rightarrow> real" where
  "cl2_divisor hl2 =
     (let d = (2611200000 / real_of_int (clock2_freq hl2)) / 2
      in if cl2_integer_mode hl2 then real_of_int \<lfloor>d\<rfloor> else d)"

definition cl2_div :: "hermeslite2 \<Rightarrow> 32 word" where
  "cl2_div hl2 = word_of_int \<lfloor>cl2_divisor hl2 * 2 ^ 24 + 1 / 10\<rfloor>"

definition cl2_writes :: "32 word \<Rightarrow> (32 word \<times> 32 word) list" where
  "cl2_writes d =
     (let intgr = drop_bit 24 d;
          frac = push_bit 2 (d AND 0xFFFFFF) in
      [(0x62, 0x3b), (0x2c, 0x00), (0x31, 0x81),
       (0x3d, drop_bit 4 intgr), (0x3e, push_bit 4 intgr AND 0xFF),
       (0x32, drop_bit 24 frac), (0x33, drop_bit 16 frac), (0x34, drop_bit 8 frac),
       (0x35, push_bit 2 (frac AND 0xFF)), (0x63, 0x01)])"

definition HL2cl2Enable :: "hermeslite2 \<Rightarrow> hermeslite2" where
  "HL2cl2Enable hl2 =
     (if clock2_freq hl2 \<le> 0 then hl2
      else if cl2_divisor hl2 < 1 \<or> cl2_divisor hl2 > 255 then hl2
      else fold (\<lambda>(reg, v) h. HL2i2cQueueWrite h I2C1_WRITE (drop_bit 1 ADDR_VERSA5) reg v)
             (cl2_writes (cl2_div hl2)) hl2)"

definition HL2cl2Disable :: "hermeslite2 \<Rightarrow> hermeslite2" where
  "HL2cl2Disable hl2 =
     HL2i2cQueueWrite (HL2i2cQueueWrite hl2 I2C1_WRITE (drop_bit 1 ADDR_VERSA5) 0x31 0x80)
       I2C1_WRITE (drop_bit 1 ADDR_VERSA5) 0x63 0x00"

definition HL2clock2Status :: "hermeslite2 \<Rightarrow> bool \<Rightarrow> int \<Rightarrow> hermeslite2" where
  "HL2clock2Status hl2 xvtr_on clock_freq =
     (if xvtr_on \<and> \<not> cl2_enabled hl2
      then (HL2cl2Enable (hl2\<lparr>clock2_freq := clock_freq\<rparr>))\<lparr>cl2_enabled := True\<rparr>
      else if \<not> xvtr_on \<and> cl2_enabled hl2
      then (HL2cl2Disable hl2)\<lparr>cl2_enabled := False\<rparr>
      else hl2)"

section \<open>The request queue\<close>

text \<open>The queue of a radio in use is a well formed ring buffer of
\<open>HL2_I2C_QUEUESIZE\<close> requests, from \<open>create_hl2\<close> on.\<close>

definition hl2_inv :: "hermeslite2 \<Rightarrow> bool" where
  "hl2_inv h \<longleftrightarrow> rb_inv (one_shot_queue h) \<and> rb_cap (one_shot_queue h) = nat HL2_I2C_QUEUESIZE"

definition hl2_pending :: "hermeslite2 \<Rightarrow> 64 word list" where
  "hl2_pending h = rb_list (one_shot_queue h)"

lemma create_hl2_inv: "hl2_inv create_hl2 \<and> hl2_pending create_hl2 = []"
  using create_long_ringbuffer_inv[of "HL2_I2C_QUEUESIZE" "0 :: 64 word"]
  by (simp add: hl2_inv_def hl2_pending_def create_hl2_def HL2_I2C_QUEUESIZE_def)

lemma queue_write_pending:
  assumes "hl2_inv h"
  shows "hl2_inv (HL2i2cQueueWrite h rw a c v) \<and>
    hl2_pending (HL2i2cQueueWrite h rw a c v) =
      fst (spec_put (nat HL2_I2C_QUEUESIZE) (hl2_pending h) (hl2_combined rw a c v))"
  using rb.put_inv[of "one_shot_queue h" "hl2_combined rw a c v"]
    rb.put_spec[of "one_shot_queue h" "hl2_combined rw a c v"] assms
  by (auto simp: hl2_inv_def hl2_pending_def HL2i2cQueueWrite_def dest: arg_cong[where f = fst])

lemma write_queued_some:
  assumes "hl2_inv h" "hl2_pending h = x # xs"
  shows "hl2_inv (fst (HL2i2cWriteQueued h)) \<and> hl2_pending (fst (HL2i2cWriteQueued h)) = xs
    \<and> value_to_send (fst (HL2i2cWriteQueued h)) = x \<and> snd (HL2i2cWriteQueued h)"
  using rb.get_some[of "one_shot_queue h" x xs "value_to_send h"] assms
  by (auto simp: hl2_inv_def hl2_pending_def HL2i2cWriteQueued_def split: prod.splits)

lemma write_queued_none:
  assumes "hl2_inv h" "hl2_pending h = []"
  shows "HL2i2cWriteQueued h = (h, False)"
  using rb.get_none[of "one_shot_queue h" "value_to_send h"] assms
  by (simp add: hl2_inv_def hl2_pending_def HL2i2cWriteQueued_def)

text \<open>Queue a list of requests; take and unpack requests until none is
left, at most \<open>n\<close> of them.\<close>

type_synonym i2c_request = "32 word \<times> 32 word \<times> 32 word \<times> 32 word"

definition queue_requests :: "i2c_request list \<Rightarrow> hermeslite2 \<Rightarrow> hermeslite2" where
  "queue_requests rs h = fold (\<lambda>(rw, a, c, v) h. HL2i2cQueueWrite h rw a c v) rs h"

primrec drain_requests :: "nat \<Rightarrow> hermeslite2 \<Rightarrow> 64 word list" where
  "drain_requests 0 h = []"
| "drain_requests (Suc n) h =
     (case HL2i2cWriteQueued h of (h1, got) \<Rightarrow>
        if got then value_to_send h1 # drain_requests n h1 else [])"

lemma queue_requests_pending:
  "hl2_inv h \<Longrightarrow> hl2_inv (queue_requests rs h) \<and> hl2_pending (queue_requests rs h) =
     hl2_pending h @ take (nat HL2_I2C_QUEUESIZE - length (hl2_pending h))
       (map (\<lambda>(rw, a, c, v). hl2_combined rw a c v) rs)"
proof (induction rs arbitrary: h)
  case (Cons r rs)
  obtain rw a c v where r: "r = (rw, a, c, v)" by (metis prod.collapse)
  let ?h = "HL2i2cQueueWrite h rw a c v"
  note w = queue_write_pending[OF Cons.prems, of rw a c v]
  have q: "queue_requests (r # rs) h = queue_requests rs ?h" by (simp add: queue_requests_def r)
  show ?case
  proof (cases "length (hl2_pending h) < nat HL2_I2C_QUEUESIZE")
    case True
    then obtain k where k: "nat HL2_I2C_QUEUESIZE - length (hl2_pending h) = Suc k"
      by (metis Suc_diff_Suc)
    hence "nat HL2_I2C_QUEUESIZE - Suc (length (hl2_pending h)) = k" by simp
    thus ?thesis using Cons.IH[of ?h] w True q r k by (simp add: spec_put_def)
  next
    case False
    thus ?thesis using Cons.IH[of ?h] w q r by (simp add: spec_put_def)
  qed
qed (simp add: queue_requests_def)

lemma drain_pending: "hl2_inv h \<Longrightarrow> drain_requests n h = take n (hl2_pending h)"
proof (induction n arbitrary: h)
  case (Suc n)
  show ?case
  proof (cases "hl2_pending h")
    case Nil
    thus ?thesis using write_queued_none[OF Suc.prems] by simp
  next
    case (Cons x xs)
    thus ?thesis using write_queued_some[OF Suc.prems Cons] Suc.IH by (auto split: prod.splits)
  qed
qed simp

section \<open>Packing\<close>

lemma combined_bits:
  assumes "rw < 16" "a < 256" "c < 256"
  shows "bit (hl2_combined rw a c v) k \<longleftrightarrow>
    (24 \<le> k \<and> bit rw (k - 24)) \<or> (16 \<le> k \<and> (k = 23 \<or> bit a (k - 16)))
    \<or> (8 \<le> k \<and> bit c (k - 8)) \<or> (k < 8 \<and> bit v k)"
proof -
  have rw: "bit rw n \<Longrightarrow> n < 4" and a: "bit a n \<Longrightarrow> n < 8" and c: "bit c n \<Longrightarrow> n < 8" for n
    using word_small_bit[of rw 4 n] word_small_bit[of a 8 n] word_small_bit[of c 8 n] assms by auto
  have b80: "bit (0x80::32 word) n \<longleftrightarrow> n = 7" for n using bit_pow2[of "0x80::32 word" 7] by simp
  have bff: "bit (0xFF::32 word) n \<longleftrightarrow> n < 8" for n by (auto simp: mask_numerals bit_mask_word)
  have v: "bit v n \<Longrightarrow> n < 32" for n using bit_imp_le_length by fastforce
  have "bit (hl2_combined rw a c v) k \<longleftrightarrow>
    (k < 32 \<and> 24 \<le> k \<and> bit rw (k - 24)) \<or> (k < 32 \<and> 16 \<le> k \<and> (k - 16 = 7 \<or> bit a (k - 16)))
    \<or> (k < 32 \<and> 8 \<le> k \<and> bit c (k - 8)) \<or> (k < 8 \<and> bit v k)"
    unfolding hl2_combined_def bit_or_iff bit_ucast_iff bit_push_bit_iff bit_and_iff b80 bff
    by simp linarith
  moreover have "(k < 32 \<and> 24 \<le> k \<and> bit rw (k - 24)) = (24 \<le> k \<and> bit rw (k - 24))"
    using rw[of "k - 24"] by auto
  moreover have "(k < 32 \<and> 16 \<le> k \<and> (k - 16 = 7 \<or> bit a (k - 16))) =
      (16 \<le> k \<and> (k = 23 \<or> bit a (k - 16)))"
    using a[of "k - 16"] by auto
  moreover have "(k < 32 \<and> 8 \<le> k \<and> bit c (k - 8)) = (8 \<le> k \<and> bit c (k - 8))"
    using c[of "k - 8"] by auto
  ultimately show ?thesis by (simp only:)
qed

lemma combined_fields:
  assumes "rw < 16" "a < 256" "c < 256"
  shows "drop_bit 24 (hl2_combined rw a c v) AND 7 = ucast (rw AND 7)"
    and "drop_bit 16 (hl2_combined rw a c v) AND 0xFF = ucast (a OR 0x80)"
    and "drop_bit 8 (hl2_combined rw a c v) AND 0xFF = ucast c"
    and "hl2_combined rw a c v AND 0xFF = ucast (v AND 0xFF)"
    and "(drop_bit 27 (hl2_combined rw a c v AND 0x8000000) \<noteq> 0) = bit rw 3"
proof -
  let ?w = "hl2_combined rw a c v"
  have rw: "bit rw n \<Longrightarrow> n < 4" and a: "bit a n \<Longrightarrow> n < 8" and c: "bit c n \<Longrightarrow> n < 8" for n
    using word_small_bit[of rw 4 n] word_small_bit[of a 8 n] word_small_bit[of c 8 n] assms by auto
  have b80: "bit (0x80::32 word) n \<longleftrightarrow> n = 7" for n using bit_pow2[of "0x80::32 word" 7] by simp
  have b27: "bit (0x8000000::64 word) n \<longleftrightarrow> n = 27" for n
    using bit_pow2[of "0x8000000::64 word" 27] by simp
  have n: "(0xFF::32 word) = mask 8" "(0xFF::64 word) = mask 8" "(7::32 word) = mask 3" "(7::64 word) = mask 3"
    by (simp_all add: mask_numerals)
  note bits = bit_and_iff bit_or_iff bit_drop_bit_eq bit_ucast_iff bit_mask_word b80 b27 combined_bits[OF assms]
  show "drop_bit 24 ?w AND 7 = ucast (rw AND 7)"
    unfolding n by (rule bit_word_eqI, unfold bits) (auto dest: a c)
  show "drop_bit 16 ?w AND 0xFF = ucast (a OR 0x80)"
    unfolding n by (rule bit_word_eqI, unfold bits) (auto dest: a c)
  show "drop_bit 8 ?w AND 0xFF = ucast c"
    unfolding n by (rule bit_word_eqI, unfold bits) (auto dest: c)
  show "?w AND 0xFF = ucast (v AND 0xFF)"
    unfolding n by (rule bit_word_eqI, unfold bits) auto
  have "bit (drop_bit 27 (?w AND 0x8000000)) m = (m = 0 \<and> bit rw 3)" for m
    by (unfold bits) (auto dest: a c)
  thus "(drop_bit 27 (?w AND 0x8000000) \<noteq> 0) = bit rw 3"
    unfolding bit_eq_iff [of "drop_bit 27 (?w AND 0x8000000)" 0] by simp
qed

lemma ucast_up_down: "ucast (ucast x :: 64 word) = (x :: 32 word)"
  by (rule bit_word_eqI) (auto simp: bit_ucast_iff)

lemma i2c_taken_fields:
  assumes "rw < 16" "a < 256" "c < 256" "value_to_send h = hl2_combined rw a c v"
  shows "HL2i2cReadWrite h = rw AND 7" "snd (HL2i2cSendTargetAddr h) = a OR 0x80"
    "snd (HL2i2cSendCommand h) = c" "HL2i2cSendValue h = v AND 0xFF"
    "HL2i2cSendRqst h = (if bit rw 3 then 0x7A else 0x78) OR (if rw AND 7 = 7 then 0x80 else 0)"
  using combined_fields[OF assms(1-3), of v] assms(4)
  by (simp_all add: HL2i2cReadWrite_def HL2i2cSendTargetAddr_def HL2i2cSendCommand_def
      HL2i2cSendValue_def HL2i2cSendRqst_def Let_def hl2_consts ucast_up_down)

lemma queue_write_taken:
  assumes "hl2_inv h" "hl2_pending h = []"
  shows "value_to_send (fst (HL2i2cWriteQueued (HL2i2cQueueWrite h rw a c v))) = hl2_combined rw a c v
    \<and> snd (HL2i2cWriteQueued (HL2i2cQueueWrite h rw a c v))"
  using queue_write_pending[OF assms(1), of rw a c v] assms(2)
    write_queued_some[of "HL2i2cQueueWrite h rw a c v" "hl2_combined rw a c v" "[]"]
  by (simp add: spec_put_def HL2_I2C_QUEUESIZE_def)

section \<open>Clock divider\<close>

lemma div_div_ge:
  fixes n :: int
  assumes "0 < a" "1 \<le> n div a"
  shows "a \<le> n div (n div a)"
proof -
  have "a * (n div a) div (n div a) \<le> n div (n div a)"
    using assms mult_div_mod_eq[of a n] pos_mod_sign[of a n] by (intro zdiv_mono1) linarith+
  thus ?thesis using assms by simp
qed

lemma div_div_div:
  fixes n :: int
  assumes "0 < a" "1 \<le> n div a"
  shows "n div (n div (n div a)) = n div a"
proof -
  let ?d = "n div a"
  have pos: "0 < ?d" "a \<le> n div ?d" using assms div_div_ge[OF assms] by auto
  have "0 \<le> n" using assms pos_imp_zdiv_nonneg_iff[of a n] by linarith
  hence "n div (n div ?d) \<le> ?d" using pos assms by (intro zdiv_mono2) auto
  moreover have "?d \<le> n div (n div ?d)" using pos assms by (intro div_div_ge) auto
  ultimately show ?thesis by simp
qed

lemma calculate_nearest_quotient:
  assumes "0 < lo" "lo \<le> 1305600000"
  shows "HL2cl2CalculateNearest lo = 1305600000 div (1305600000 div lo)"
    and "1 \<le> 1305600000 div lo"
proof -
  show d: "1 \<le> 1305600000 div lo" using div_div_ge assms zdiv_mono1[of lo 1305600000 lo] by simp
  have "(2611200000 :: int) div (2 * lo) = 1305600000 div lo"
    using div_mult_mult1[of 2 "1305600000 :: int" lo] by simp
  moreover have "(2611200000 :: int) div k div 2 = 1305600000 div k" if "0 < k" for k
    using that zdiv_zmult2_eq[of 2 "2611200000 :: int" k] div_mult_mult2[of 2 "1305600000 :: int" k] by simp
  ultimately show "HL2cl2CalculateNearest lo = 1305600000 div (1305600000 div lo)"
    using assms d by (simp add: HL2cl2CalculateNearest_def Let_def)
qed

text \<open>What the clock generator holds after the writes, read back over the
bit ranges the comments of \<open>HL2cl2Enable\<close> give: registers 0x3d and 0x3e
for the integer part, 0x32 to 0x35 for bits [29:22], [21:14], [13:6] and [5:0] of
the fraction.\<close>

definition cl2_reg :: "(32 word \<times> 32 word) list \<Rightarrow> 32 word \<Rightarrow> 32 word" where
  "cl2_reg ws r = (case map_of ws r of Some v \<Rightarrow> v AND 0xFF | None \<Rightarrow> 0)"

definition cl2_integer_part :: "(32 word \<times> 32 word) list \<Rightarrow> 32 word" where
  "cl2_integer_part ws = push_bit 4 (cl2_reg ws 0x3d) OR drop_bit 4 (cl2_reg ws 0x3e)"

definition cl2_fraction_part :: "(32 word \<times> 32 word) list \<Rightarrow> 32 word" where
  "cl2_fraction_part ws = push_bit 22 (cl2_reg ws 0x32) OR push_bit 14 (cl2_reg ws 0x33)
     OR push_bit 6 (cl2_reg ws 0x34) OR drop_bit 2 (cl2_reg ws 0x35)"

lemma cl2_reg_bits:
  shows "bit (cl2_reg (cl2_writes d) 0x3d) n \<longleftrightarrow> n < 4 \<and> bit d (28 + n)"
    and "bit (cl2_reg (cl2_writes d) 0x3e) n \<longleftrightarrow> 4 \<le> n \<and> n < 8 \<and> bit d (20 + n)"
    and "bit (cl2_reg (cl2_writes d) 0x32) n \<longleftrightarrow> n < 2 \<and> bit d (22 + n)"
    and "bit (cl2_reg (cl2_writes d) 0x33) n \<longleftrightarrow> n < 8 \<and> bit d (14 + n)"
    and "bit (cl2_reg (cl2_writes d) 0x34) n \<longleftrightarrow> n < 8 \<and> bit d (6 + n)"
    and "bit (cl2_reg (cl2_writes d) 0x35) n \<longleftrightarrow> 4 \<le> n \<and> n < 8 \<and> bit d (n - 4)"
proof -
  have ff: "bit (0xFF::32 word) n \<longleftrightarrow> n < 8" for n by (auto simp: mask_numerals bit_mask_word)
  have f6: "bit (0xFFFFFF::32 word) n \<longleftrightarrow> n < 24" for n by (auto simp: mask_numerals bit_mask_word)
  have f10: "bit (0x3FF::32 word) n \<longleftrightarrow> n < 10" for n by (auto simp: mask_numerals bit_mask_word)
  have f18: "bit (0x3FFFF::32 word) n \<longleftrightarrow> n < 18" for n by (auto simp: mask_numerals bit_mask_word)
  have f2: "bit (3::32 word) n \<longleftrightarrow> n < 2" for n by (auto simp: mask_numerals bit_mask_word)
  have d: "bit d m \<Longrightarrow> m < 32" for m using bit_imp_le_length[of d m] by simp
  have sub: "4 \<le> n \<Longrightarrow> 24 + (n - 4) = 20 + n" "n - 2 - 2 = n - 4" by linarith+
  have len: "LENGTH(32) = 32" by simp
  note bits = bit_and_iff bit_drop_bit_eq bit_push_bit_iff ff f6 f2 f10 f18 possible_bit_word len
  show "bit (cl2_reg (cl2_writes d) 0x3d) n \<longleftrightarrow> n < 4 \<and> bit d (28 + n)"
    by (simp add: cl2_reg_def cl2_writes_def Let_def, unfold bits) (auto dest: d)
  show "bit (cl2_reg (cl2_writes d) 0x3e) n \<longleftrightarrow> 4 \<le> n \<and> n < 8 \<and> bit d (20 + n)"
    by (simp add: cl2_reg_def cl2_writes_def Let_def, unfold bits) (auto simp: sub dest: d)
  show "bit (cl2_reg (cl2_writes d) 0x32) n \<longleftrightarrow> n < 2 \<and> bit d (22 + n)"
    by (simp add: cl2_reg_def cl2_writes_def Let_def, unfold bits) (auto dest: d)
  show "bit (cl2_reg (cl2_writes d) 0x33) n \<longleftrightarrow> n < 8 \<and> bit d (14 + n)"
    by (simp add: cl2_reg_def cl2_writes_def Let_def, unfold bits) (auto dest: d)
  show "bit (cl2_reg (cl2_writes d) 0x34) n \<longleftrightarrow> n < 8 \<and> bit d (6 + n)"
    by (simp add: cl2_reg_def cl2_writes_def Let_def, unfold bits) (auto dest: d)
  show "bit (cl2_reg (cl2_writes d) 0x35) n \<longleftrightarrow> 4 \<le> n \<and> n < 8 \<and> bit d (n - 4)"
    by (simp add: cl2_reg_def cl2_writes_def Let_def del: push_bit_and, unfold bits)
      (auto simp: sub dest: d)
qed

lemma cl2_integer_part_eq: "cl2_integer_part (cl2_writes d) = drop_bit 24 d"
proof (rule bit_word_eqI)
  fix n :: nat assume "n < LENGTH(32)"
  have d: "bit d m \<Longrightarrow> m < 32" for m using bit_imp_le_length[of d m] by simp
  have s: "4 \<le> n \<Longrightarrow> 28 + (n - 4) = 24 + n" "20 + (4 + n) = 24 + n" by linarith+
  show "bit (cl2_integer_part (cl2_writes d)) n = bit (drop_bit 24 d) n"
    unfolding cl2_integer_part_def bit_or_iff bit_push_bit_iff bit_drop_bit_eq cl2_reg_bits o_def
    using \<open>n < LENGTH(32)\<close> by (cases "n < 4") (auto simp: s dest: d)
qed

lemma cl2_fraction_part_eq:
  "bit (cl2_fraction_part (cl2_writes d)) n \<longleftrightarrow>
     (if n < 6 then 2 \<le> n \<and> bit d (n - 2) else n < 24 \<and> bit d n)"
proof -
  have d: "bit d m \<Longrightarrow> m < 32" for m using bit_imp_le_length[of d m] by simp
  have s: "22 \<le> n \<Longrightarrow> 22 + (n - 22) = n" "14 \<le> n \<Longrightarrow> 14 + (n - 14) = n"
    "6 \<le> n \<Longrightarrow> 6 + (n - 6) = n" "2 + n - 4 = n - 2" by linarith+
  show ?thesis
    unfolding cl2_fraction_part_def bit_or_iff bit_push_bit_iff bit_drop_bit_eq cl2_reg_bits o_def
    by (cases "n < 6"; cases "n < 14"; cases "n < 22") (auto simp: s)
qed

section \<open>Properties\<close>

text \<open>However many requests are queued on a new radio, the protocol
sender takes out the first fifteen, packed, in the order they were queued; later
ones are dropped.\<close>

theorem i2c_requests_taken_in_order:
  "drain_requests n (queue_requests rs create_hl2) =
     take n (take 15 (map (\<lambda>(rw, a, c, v). hl2_combined rw a c v) rs))"
  using queue_requests_pending[of create_hl2 rs] create_hl2_inv
    drain_pending[of "queue_requests rs create_hl2" n]
  by (simp add: HL2_I2C_QUEUESIZE_def)

text \<open>A request queued on an idle radio comes out of the next take as the
fields it was made of: read or write, the address with its top bit set, the command,
the low byte of the value, and the request byte that selects the bus and marks a read.\<close>

theorem i2c_request_roundtrip:
  assumes "hl2_inv h" "hl2_pending h = []" "rw < 16" "a < 256" "c < 256"
  shows "\<exists>h'. HL2i2cWriteQueued (HL2i2cQueueWrite h rw a c v) = (h', True)
    \<and> HL2i2cReadWrite h' = rw AND 7 \<and> snd (HL2i2cSendTargetAddr h') = a OR 0x80
    \<and> snd (HL2i2cSendCommand h') = c \<and> HL2i2cSendValue h' = v AND 0xFF
    \<and> HL2i2cSendRqst h' = (if bit rw 3 then 0x7A else 0x78) OR (if rw AND 7 = 7 then 0x80 else 0)"
proof -
  let ?h = "fst (HL2i2cWriteQueued (HL2i2cQueueWrite h rw a c v))"
  have t: "value_to_send ?h = hl2_combined rw a c v"
    "snd (HL2i2cWriteQueued (HL2i2cQueueWrite h rw a c v))"
    using queue_write_taken[OF assms(1-2), of rw a c v] by auto
  show ?thesis
    using i2c_taken_fields[OF assms(3-5) t(1)] t(2) by (intro exI[of _ ?h]) (simp add: prod_eq_iff)
qed

theorem i2c_request_roundtrip_witness:
  "\<exists>h'. HL2i2cWriteQueued (HL2i2cQueueWrite create_hl2 0x0F 0x2e 0x2c 0x155) = (h', True)
    \<and> HL2i2cReadWrite h' = 7 \<and> snd (HL2i2cSendTargetAddr h') = 0xAE
    \<and> snd (HL2i2cSendCommand h') = 0x2c \<and> HL2i2cSendValue h' = 0x55 \<and> HL2i2cSendRqst h' = 0xFA"
  using i2c_request_roundtrip[of create_hl2 "0x0F" "0x2e" "0x2c" "0x155"] create_hl2_inv by simp

text \<open>The bias of the MRF101 amplifier is read back end to end: once the
read request has been taken and its target recorded, the answer's first data byte
becomes the bias, whatever the other bytes are.\<close>

theorem mrf101_bias_read_back:
  assumes "hl2_inv h" "hl2_pending h = []"
  shows "mrf101_bias_value (HL2i2cProcessReturnValue
      (fst (HL2i2cSendCommand (fst (HL2i2cSendTargetAddr
        (fst (HL2i2cWriteQueued (HL2mrf101ReadBias h))))))) c0 c1 c2 c3 c4) = ucast c1"
proof -
  let ?h = "fst (HL2i2cWriteQueued (HL2mrf101ReadBias h))"
  have v: "value_to_send ?h = hl2_combined I2C2_READ ADDR_MCP4561 0x2c DUMMY_VALUE"
    using queue_write_taken[OF assms, of I2C2_READ ADDR_MCP4561 "0x2c" DUMMY_VALUE]
    by (simp add: HL2mrf101ReadBias_def Let_def hl2_consts)
  have f: "drop_bit 16 (value_to_send ?h) AND 0xFF = 0xAE" "drop_bit 8 (value_to_send ?h) AND 0xFF = 0x2C"
    using combined_fields[of I2C2_READ ADDR_MCP4561 "0x2c" DUMMY_VALUE] v by (simp_all add: hl2_consts)
  have ff: "bit (0xFF::64 word) n \<longleftrightarrow> n < 8" for n by (auto simp: mask_numerals bit_mask_word)
  have "drop_bit 24 (push_bit 24 (ucast c1) OR push_bit 16 (ucast c2)
        OR push_bit 8 (ucast c3) OR ucast c4 :: 64 word) AND 0xFF = ucast c1"
    by (rule bit_word_eqI, unfold bit_and_iff bit_or_iff bit_drop_bit_eq bit_push_bit_iff
        bit_ucast_iff ff o_def) (auto dest: bit_imp_le_length)
  moreover have "ucast (ucast c1 :: 64 word) = (ucast c1 :: 32 word)"
    by (rule bit_word_eqI) (auto simp: bit_ucast_iff dest: bit_imp_le_length)
  ultimately show ?thesis
    by (simp add: f HL2i2cSendCommand_def HL2i2cSendTargetAddr_def HL2i2cProcessReturnValue_def
        HL2i2cStoreValue_def Let_def hl2_consts)
qed

theorem mrf101_bias_read_back_witness:
  "mrf101_bias_value (HL2i2cProcessReturnValue
      (fst (HL2i2cSendCommand (fst (HL2i2cSendTargetAddr
        (fst (HL2i2cWriteQueued (HL2mrf101ReadBias create_hl2))))))) 0x80 0x9F 1 2 3) = 0x9F"
  using mrf101_bias_read_back[of create_hl2 "0x80" "0x9F" 1 2 3] create_hl2_inv by simp

text \<open>For a local oscillator the clock generator can reach, the value
computed by the integer mode is an exact division of the half rate of the generator,
is never below the requested frequency, is the smallest such division that is not,
and is left alone when computed again.\<close>

theorem calculate_nearest_next_above:
  assumes "0 < lo" "lo \<le> 1305600000"
  shows "HL2cl2CalculateNearest lo = 1305600000 div (1305600000 div lo)
    \<and> lo \<le> HL2cl2CalculateNearest lo
    \<and> (lo \<le> 1305600000 div k \<and> 0 < k \<longrightarrow> HL2cl2CalculateNearest lo \<le> 1305600000 div k)
    \<and> HL2cl2CalculateNearest (HL2cl2CalculateNearest lo) = HL2cl2CalculateNearest lo"
proof -
  let ?n = "1305600000 :: int"
  note q = calculate_nearest_quotient[OF assms]
  have ge: "lo \<le> ?n div (?n div lo)" using div_div_ge[OF assms(1) q(2)] .
  have le: "?n div (?n div lo) \<le> ?n" using zdiv_mono2[of ?n 1 "?n div lo"] q(2) by simp
  have least: "?n div (?n div lo) \<le> ?n div k" if "lo \<le> ?n div k" "0 < k"
  proof -
    have "k \<le> ?n div (?n div k)" using div_div_ge[of k ?n] that assms by simp
    also have "\<dots> \<le> ?n div lo" using that assms by (intro zdiv_mono2) auto
    finally show ?thesis using that by (intro zdiv_mono2) auto
  qed
  have "HL2cl2CalculateNearest (?n div (?n div lo)) = ?n div (?n div lo)"
    using calculate_nearest_quotient(1)[of "?n div (?n div lo)"] ge le assms(1)
      div_div_div[OF assms(1) q(2)] by simp
  thus ?thesis using q(1) ge least by simp
qed

theorem calculate_nearest_next_above_witness:
  "HL2cl2CalculateNearest 900000000 = 1305600000 \<and> (900000000 :: int) \<le> 1305600000"
  using calculate_nearest_next_above[of 900000000 1] by simp

text \<open>The divider registers hold the integer part of the divider exactly.
Of the fraction, read over the bit ranges the code documents, bits 6 to 23 are right
and the low six bits are the low four shifted up by two: the last register is shifted
twice.\<close>

theorem cl2_divider_registers:
  "cl2_integer_part (cl2_writes d) = drop_bit 24 d \<and>
   (bit (cl2_fraction_part (cl2_writes d)) n \<longleftrightarrow>
     (if n < 6 then 2 \<le> n \<and> bit d (n - 2) else n < 24 \<and> bit d n))"
  using cl2_integer_part_eq cl2_fraction_part_eq by blast

text \<open>The clock output follows the transverter: after any report it is
enabled exactly when the transverter is on, and a report that changes nothing queues
nothing.\<close>

theorem clock2_follows_transverter:
  "cl2_enabled (HL2clock2Status h on f) = on \<and>
   HL2clock2Status (HL2clock2Status h on f) on g = HL2clock2Status h on f"
  by (simp add: HL2clock2Status_def)

end
