(* ===== verification/Radio.thy ===== *)
theory Radio
  imports Complex_Main Hl2
begin

text \<open>The shared structures of the program, cut down to the fields the
modelled operations read or write: \<open>RECEIVER\<close>, \<open>TRANSMITTER\<close>,
\<open>DISCOVERED\<close>, \<open>ADC\<close>, \<open>BAND\<close> and \<open>RADIO\<close>
(\<open>src/core/receiver.h\<close>, \<open>transmitter.h\<close>, \<open>src/proto/discovered.h\<close>,
\<open>src/core/adc.h\<close>, \<open>band.h\<close>, \<open>radio.h\<close>), and the small
functions every protocol asks for a frequency, a mode or the transmit state.

A field \<open>f\<close> is written with the prefix of its structure: \<open>rx_f\<close>,
\<open>tx_f\<close>, \<open>d_f\<close>, \<open>adc_f\<close>, \<open>bd_f\<close>, \<open>r_f\<close>. A pointer
that may be null is an option. \<open>transmitter->rx\<close>, the PureSignal feedback receivers
and the receivers of a diversity mixer point into \<open>radio->receiver[]\<close>, so they are
indices here and both names see one receiver.
A \<open>double\<close> is a real number; rounding of doubles is not modelled.\<close>

section \<open>Enumerations\<close>

text \<open>Modes (\<open>src/core/mode.h\<close>).\<close>

definition LSB :: int where "LSB = 0"
definition USB :: int where "USB = 1"
definition DSB :: int where "DSB = 2"
definition CWL :: int where "CWL = 3"
definition CWU :: int where "CWU = 4"
definition FMN :: int where "FMN = 5"
definition AM :: int where "AM = 6"
definition DIGU :: int where "DIGU = 7"
definition SPEC :: int where "SPEC = 8"
definition DIGL :: int where "DIGL = 9"
definition SAM :: int where "SAM = 10"
definition DRM :: int where "DRM = 11"
definition WFM :: int where "WFM = 12"
definition MODES :: int where "MODES = 13"

lemmas mode_defs = LSB_def USB_def DSB_def CWL_def CWU_def FMN_def AM_def DIGU_def SPEC_def
  DIGL_def SAM_def DRM_def WFM_def MODES_def

datatype split_type = SPLIT_OFF | SPLIT_ON | SPLIT_SAT | SPLIT_RSAT

datatype device = DEVICE_UNKNOWN | DEVICE_METIS | DEVICE_HERMES | DEVICE_HERMES2
  | DEVICE_ANGELIA | DEVICE_ORION | DEVICE_ORION2 | DEVICE_HERMES_LITE
  | DEVICE_HERMES_LITE2 | DEVICE_SOAPYSDR

datatype protocol = PROTOCOL_1 | PROTOCOL_2 | PROTOCOL_SOAPYSDR | PROTOCOL_FAKE

datatype filter_board = NONE_BOARD | ALEX | APOLLO | N2ADR | HL2_MRF101

section \<open>Structures\<close>

record receiver =
  rx_channel :: int
  rx_sample_rate :: int
  rx_adc :: int
  rx_band_a :: int
  rx_frequency_a :: int
  rx_mode_a :: int
  rx_filter_a :: int
  rx_filter_low_a :: int
  rx_filter_high_a :: int
  rx_lo_a :: int
  rx_error_a :: int
  rx_band_b :: int
  rx_frequency_b :: int
  rx_mode_b :: int
  rx_filter_b :: int
  rx_filter_low_b :: int
  rx_filter_high_b :: int
  rx_lo_b :: int
  rx_error_b :: int
  rx_split :: split_type
  rx_split_last :: split_type
  rx_vfo_linked :: bool
  rx_ctun :: bool
  rx_freetune :: bool
  rx_ctun_frequency :: int
  rx_ctun_offset :: int
  rx_ctun_min :: int
  rx_ctun_max :: int
  rx_hw_frequency :: int
  rx_rit_enabled :: bool
  rx_rit :: int
  rx_step :: int
  rx_locked :: bool
  rx_subrx_enable :: bool
  rx_subrx :: bool
  rx_pan :: int
  rx_hz_per_pixel :: real
  rx_panadapter_low :: int
  rx_panadapter_high :: int
  rx_panadapter_step :: int
  rx_waterfall_low :: int
  rx_waterfall_high :: int
  rx_waterfall_automatic :: bool
  rx_agc :: int
  rx_squelch :: real
  rx_squelch_enable :: bool
  rx_mode_filter :: "int list"
  rx_mode_agc :: "int list"
  rx_mode_squelch :: "real list"
  rx_deviation :: int
  rx_shift_offset :: int
  rx_shift_run :: bool
  rx_lo_trim :: real
  rx_lo_trim_error :: int
  rx_lo_trim_band :: int
  rx_has_af_notch :: bool
  rx_vfo :: bool
  rx_dsp_feed :: bool
  rx_dmix_id :: nat
  rx_iq_sequence :: "32 word"

record adc =
  adc_filters :: int
  adc_hpf :: int
  adc_lpf :: int
  adc_antenna :: int
  adc_dither :: bool
  adc_random :: bool
  adc_preamp :: bool
  adc_att10 :: bool
  adc_att20 :: bool
  adc_attenuation :: int
  adc_enable_step_attenuation :: bool

record discovered =
  d_device :: device
  d_protocol :: protocol
  d_supported_receivers :: nat
  d_adcs :: int
  d_ps_tx_fdbk_chan :: int
  d_frequency_min :: int
  d_frequency_max :: int

record bandstack_entry =
  be_frequency :: int
  be_mode :: int
  be_filter :: int
  be_var1Low :: int
  be_var1High :: int
  be_var2Low :: int
  be_var2High :: int

record band =
  bd_title :: string
  bd_entry :: "bandstack_entry list"
  bd_entries :: int
  bd_current_entry :: int
  bd_OCrx :: byte
  bd_OCtx :: byte
  bd_preamp :: int
  bd_alexRxAntenna :: int
  bd_alexTxAntenna :: int
  bd_alexAttenuation :: int
  bd_pa_calibration :: real
  bd_frequencyMin :: int
  bd_frequencyMax :: int
  bd_frequencyLO :: int
  bd_errorLO :: int
  bd_disablePA :: bool
  bd_panadapter_low :: int
  bd_panadapter_high :: int
  bd_panadapter_step :: int
  bd_waterfall_low :: int
  bd_waterfall_high :: int
  bd_waterfall_automatic :: bool

record transmitter =
  tx_rx :: "nat option"
  tx_puresignal :: bool
  tx_rx_puresignal_txfbk :: "nat option"
  tx_rx_puresignal_rxfbk :: "nat option"
  tx_use_rx_filter :: bool
  tx_filter_low :: int
  tx_filter_high :: int
  tx_actual_filter_low :: int
  tx_actual_filter_high :: int
  tx_deviation :: int
  tx_drive :: real
  tx_tune_use_drive :: bool
  tx_tune_percent :: real
  tx_xit_enabled :: bool
  tx_xit :: int
  tx_attenuation :: byte
  tx_eer_pwm_min :: int
  tx_eer_pwm_max :: int
  tx_exciter_power :: int
  tx_temperature :: real
  tx_alex_forward_power :: int
  tx_alex_reverse_power :: int

record wideband =
  w_adc :: int
  w_buffer_size :: int
  w_fps :: int

record divmixer =
  dm_rx_visual :: "nat option"
  dm_rx_hidden :: "nat option"

record radio =
  r_discovered :: discovered
  r_receiver :: "receiver option list"
  r_transmitter :: transmitter
  r_bands :: "band list"
  r_adc :: "adc list"
  r_hl2 :: "hermeslite2 option"
  r_receivers :: int
  r_sample_rate :: int
  r_diversity_mixers :: int
  r_wideband :: "wideband option"
  r_divmixer :: "divmixer option list"
  r_filter_board :: filter_board
  r_ppm_correction_value :: real
  r_ptt :: bool
  r_mox :: bool
  r_vox :: bool
  r_tune :: bool
  r_dot :: bool
  r_dash :: bool
  r_local_ptt :: bool
  r_pll_locked :: bool
  r_supply_volts :: int
  r_local_microphone :: bool
  r_adc_overload :: bool
  r_IO1 :: bool
  r_IO2 :: bool
  r_IO3 :: bool
  r_mercury_software_version :: byte
  r_penelope_software_version :: byte
  r_ozy_software_version :: byte
  r_AIN3 :: int
  r_AIN4 :: int
  r_AIN6 :: int
  r_atlas_mic_source :: bool
  r_atlas_clock_source_128mhz :: bool
  r_atlas_clock_source_10mhz :: byte
  r_classE :: bool
  r_OCmemory_tune_time :: int
  r_tune_timeout :: int
  r_oc_tune :: byte
  r_alex_tx_antenna :: int
  r_alex_rx_antenna :: int
  r_mic_boost :: bool
  r_mic_linein :: bool
  r_mic_ptt_enabled :: bool
  r_mic_bias_enabled :: bool
  r_mic_ptt_tip_bias_ring :: bool
  r_linein_gain :: byte
  r_cw_keyer_sidetone_frequency :: int
  r_cw_keyer_sidetone_volume :: byte
  r_cw_keys_reversed :: bool
  r_cw_keyer_speed :: byte
  r_cw_keyer_mode :: byte
  r_cw_keyer_weight :: byte
  r_cw_keyer_spacing :: byte
  r_cw_keyer_internal :: bool
  r_cw_keyer_ptt_delay :: byte
  r_cw_keyer_hang_time :: int
  r_cw_breakin :: bool

section \<open>Transmit state, mode and frequency\<close>

definition isTransmitting :: "radio \<Rightarrow> bool" where
  "isTransmitting r = (r_ptt r \<or> r_mox r \<or> r_vox r \<or> r_tune r)"

text \<open>The receiver the transmitter belongs to.\<close>

definition tx_receiver :: "radio \<Rightarrow> receiver option" where
  "tx_receiver r = (case tx_rx (r_transmitter r) of None \<Rightarrow> None
     | Some i \<Rightarrow> if i < length (r_receiver r) then r_receiver r ! i else None)"

definition transmitter_get_mode :: "radio \<Rightarrow> int" where
  "transmitter_get_mode r =
     (case tx_receiver r of None \<Rightarrow> USB
      | Some rx \<Rightarrow> if rx_split rx \<noteq> SPLIT_OFF then rx_mode_b rx else rx_mode_a rx)"

text \<open>\<open>llround\<close>: to the nearest integer, halves away from zero.\<close>

definition llround :: "real \<Rightarrow> int" where
  "llround x = (if 0 \<le> x then \<lfloor>x + 1 / 2\<rfloor> else \<lceil>x - 1 / 2\<rceil>)"

definition radio_ppm_correction :: "radio \<Rightarrow> int \<Rightarrow> int" where
  "radio_ppm_correction r f_rf = llround (real_of_int f_rf * r_ppm_correction_value r / 1000000)"

definition transmitter_get_frequency :: "radio \<Rightarrow> int" where
  "transmitter_get_frequency r =
     (case tx_receiver r of None \<Rightarrow> 0
      | Some rx \<Rightarrow>
          (let f = (if rx_split rx \<noteq> SPLIT_OFF
                    then rx_frequency_b rx - rx_lo_b rx + rx_error_b rx
                         + radio_ppm_correction r (rx_frequency_b rx - rx_lo_b rx)
                    else if rx_ctun rx \<or> rx_freetune rx
                    then rx_ctun_frequency rx - rx_lo_a rx + rx_error_a rx
                         + radio_ppm_correction r (rx_ctun_frequency rx - rx_lo_a rx)
                    else rx_frequency_a rx - rx_lo_a rx + rx_error_a rx
                         + radio_ppm_correction r (rx_frequency_a rx - rx_lo_a rx))
           in if tx_xit_enabled (r_transmitter r) then f + tx_xit (r_transmitter r) else f))"

definition band_get_band :: "radio \<Rightarrow> int \<Rightarrow> band" where
  "band_get_band r b = r_bands r ! nat b"

lemma llround_of_int [simp]: "llround (real_of_int k) = k"
  by (simp add: llround_def) linarith

lemma radio_ppm_correction_zero [simp]:
  "r_ppm_correction_value r = 0 \<Longrightarrow> radio_ppm_correction r f = 0"
  using llround_of_int [of 0] by (simp add: radio_ppm_correction_def del: llround_of_int)

section \<open>A sample radio\<close>

text \<open>A concrete receiver and radio for the examples of the theories above: one
receiver on 14.1 MHz, the transmitter on it, idle.\<close>

definition receiver0 :: receiver where
  "receiver0 =
    \<lparr>rx_channel = 0, rx_sample_rate = 48000, rx_adc = 0,
     rx_band_a = 7, rx_frequency_a = 14100000, rx_mode_a = USB, rx_filter_a = 5,
     rx_filter_low_a = 200, rx_filter_high_a = 2800, rx_lo_a = 0, rx_error_a = 0,
     rx_band_b = 7, rx_frequency_b = 14150000, rx_mode_b = USB, rx_filter_b = 5,
     rx_filter_low_b = 200, rx_filter_high_b = 2800, rx_lo_b = 0, rx_error_b = 0,
     rx_split = SPLIT_OFF, rx_split_last = SPLIT_ON, rx_vfo_linked = True,
     rx_ctun = False, rx_freetune = False, rx_ctun_frequency = 14100000, rx_ctun_offset = 0,
     rx_ctun_min = 0, rx_ctun_max = 0, rx_hw_frequency = 14100000,
     rx_rit_enabled = False, rx_rit = 0, rx_step = 100, rx_locked = False,
     rx_subrx_enable = False, rx_subrx = False, rx_pan = 0, rx_hz_per_pixel = 50,
     rx_panadapter_low = - 140, rx_panadapter_high = - 60, rx_panadapter_step = 20,
     rx_waterfall_low = - 145, rx_waterfall_high = - 65, rx_waterfall_automatic = True,
     rx_agc = 3, rx_squelch = 0, rx_squelch_enable = False, rx_mode_filter = replicate 13 5,
     rx_mode_agc = replicate 13 3, rx_mode_squelch = replicate 13 0, rx_deviation = 2500,
     rx_shift_offset = 0, rx_shift_run = False, rx_lo_trim = 0, rx_lo_trim_error = 0,
     rx_lo_trim_band = 0, rx_has_af_notch = False, rx_vfo = True, rx_dsp_feed = False,
     rx_dmix_id = 2, rx_iq_sequence = 0\<rparr>"

definition band0 :: band where
  "band0 = \<lparr>bd_title = ''20'', bd_entry = [], bd_entries = 0, bd_current_entry = 0, bd_OCrx = 3, bd_OCtx = 5,
     bd_preamp = 0, bd_alexRxAntenna = 0, bd_alexTxAntenna = 0, bd_alexAttenuation = 0,
     bd_pa_calibration = 53, bd_frequencyMin = 0, bd_frequencyMax = 30000000, bd_frequencyLO = 0,
     bd_errorLO = 0, bd_disablePA = False, bd_panadapter_low = - 140, bd_panadapter_high = - 60,
     bd_panadapter_step = 20, bd_waterfall_low = - 145, bd_waterfall_high = - 65,
     bd_waterfall_automatic = True\<rparr>"

definition adc0 :: adc where
  "adc0 = \<lparr>adc_filters = 0, adc_hpf = 0, adc_lpf = 0, adc_antenna = 0, adc_dither = False,
     adc_random = False, adc_preamp = False, adc_att10 = False, adc_att20 = False,
     adc_attenuation = 0, adc_enable_step_attenuation = False\<rparr>"

definition discovered0 :: discovered where
  "discovered0 = \<lparr>d_device = DEVICE_HERMES, d_protocol = PROTOCOL_1, d_supported_receivers = 5, d_adcs = 1,
     d_ps_tx_fdbk_chan = 4, d_frequency_min = 0, d_frequency_max = 61440000\<rparr>"

definition transmitter0 :: transmitter where
  "transmitter0 = \<lparr>tx_rx = Some 0, tx_puresignal = False,
     tx_rx_puresignal_txfbk = None, tx_rx_puresignal_rxfbk = None, tx_use_rx_filter = False,
     tx_filter_low = 150, tx_filter_high = 2850, tx_actual_filter_low = 150,
     tx_actual_filter_high = 2850, tx_deviation = 2500, tx_drive = 20, tx_tune_use_drive = False,
     tx_tune_percent = 10, tx_xit_enabled = False, tx_xit = 0, tx_attenuation = 0,
     tx_eer_pwm_min = 100, tx_eer_pwm_max = 800, tx_exciter_power = 0, tx_temperature = 0,
     tx_alex_forward_power = 0, tx_alex_reverse_power = 0\<rparr>"

definition radio0 :: radio where
  "radio0 =
    \<lparr>r_discovered = discovered0,
     r_receiver = [Some receiver0, None, None, None, None, None, None, None],
     r_transmitter = transmitter0, r_bands = replicate 32 band0, r_adc = [adc0, adc0],
     r_hl2 = None, r_receivers = 1, r_sample_rate = 48000, r_diversity_mixers = 0,
     r_wideband = None, r_divmixer = [None, None, None], r_filter_board = ALEX, r_ppm_correction_value = 0,
     r_ptt = False, r_mox = False, r_vox = False, r_tune = False, r_dot = False, r_dash = False,
     r_local_ptt = False, r_pll_locked = False, r_supply_volts = 0, r_local_microphone = False, r_adc_overload = False,
     r_IO1 = False, r_IO2 = False, r_IO3 = False, r_mercury_software_version = 0,
     r_penelope_software_version = 0, r_ozy_software_version = 0, r_AIN3 = 0, r_AIN4 = 0, r_AIN6 = 0,
     r_atlas_mic_source = False, r_atlas_clock_source_128mhz = False, r_atlas_clock_source_10mhz = 0,
     r_classE = False, r_OCmemory_tune_time = 0, r_tune_timeout = 0, r_oc_tune = 0,
     r_alex_tx_antenna = 0, r_alex_rx_antenna = 0, r_mic_boost = False, r_mic_linein = False,
     r_mic_ptt_enabled = False, r_mic_bias_enabled = False, r_mic_ptt_tip_bias_ring = False,
     r_linein_gain = 0, r_cw_keyer_sidetone_frequency = 650, r_cw_keyer_sidetone_volume = 60,
     r_cw_keys_reversed = False, r_cw_keyer_speed = 16, r_cw_keyer_mode = 1, r_cw_keyer_weight = 50,
     r_cw_keyer_spacing = 0, r_cw_keyer_internal = True, r_cw_keyer_ptt_delay = 20,
     r_cw_keyer_hang_time = 300, r_cw_breakin = False\<rparr>"

lemmas radio0_defs = radio0_def receiver0_def band0_def adc0_def discovered0_def transmitter0_def

end
