(* ===== verification/P1_Receive.thy ===== *)
theory P1_Receive
  imports Radio
begin

text \<open>The receiving half of protocol 1 (\<open>src/proto/protocol1.c\<close>): the
datagram dispatch of \<open>receive_thread\<close>, the byte state machine
\<open>process_ozy_byte\<close> that cuts a 512 byte frame into control bytes, I/Q samples
and microphone samples, and the decoding of the control bytes.

The samples and requests handed to other components are returned as a list of
events in the order of the calls. What those components do in turn (the DSP
chain, and through it the sender) is not part of this theory.\<close>

section \<open>State and events\<close>

datatype ozy_state = SYNC_0 | SYNC_1 | SYNC_2 | CONTROL_0 | CONTROL_1 | CONTROL_2
  | CONTROL_3 | CONTROL_4 | LEFT_SAMPLE_HI | LEFT_SAMPLE_MID | LEFT_SAMPLE_LOW
  | RIGHT_SAMPLE_HI | RIGHT_SAMPLE_MID | RIGHT_SAMPLE_LOW | MIC_SAMPLE_HI
  | MIC_SAMPLE_LOW | SKIP

record p1_rx =
  pr_state :: ozy_state
  pr_control_in :: "byte list"
  pr_nreceiver :: int
  pr_left_sample :: "32 word"
  pr_right_sample :: "32 word"
  pr_fbk_left :: real
  pr_fbk_right :: real
  pr_mic_sample :: "16 word"
  pr_nsamples :: int
  pr_iq_samples :: int
  pr_mic_samples :: int
  pr_mic_sample_divisor :: int
  pr_ep4_sequence :: int
  pr_ep6_sequence :: int
  pr_last_time :: real

datatype p1_event =
    Ptt_changed
  | Iq_samples nat real real
  | Ps_iq_samples real real real real
  | Mic_sample real
  | Full_tx_buffer bool
  | Note_data
  | Reset_wideband
  | Wideband_sample real

definition SYNC :: byte where "SYNC = 0x7F"

text \<open>The 24 bit samples are divided by \<open>2 ^ 23 - 1\<close>, the microphone
samples by \<open>2 ^ 15\<close>.\<close>

definition sample_double :: "32 word \<Rightarrow> real" where
  "sample_double w = real_of_int (sint w) / 8388607"

section \<open>Control bytes\<close>

text \<open>The status the radio answers with, by the address in bits 3 to 7 of the
first control byte; case 0 also fills in the Hermes-Lite transmit buffer flags.\<close>

definition p1_hl2_buffer_flags :: "byte \<Rightarrow> bool \<Rightarrow> hermeslite2 \<Rightarrow> hermeslite2 \<times> p1_event list" where
  "p1_hl2_buffer_flags c3 transmitting h =
     (let h0 = h\<lparr>overflow := False, underflow := False\<rparr> in
      if transmitting then
        (let recovery = drop_bit 6 (c3 AND 0xC0);
             h1 = (if recovery = 3 then h0\<lparr>overflow := True\<rparr> else h0);
             h2 = (if recovery = 2 then h1\<lparr>underflow := True\<rparr> else h1);
             fill_level = real (unat c3) * 16 * 1 / 48
         in (h2, if fill_level < 5 then [Full_tx_buffer True] else []))
      else (h0, []))"

definition word16 :: "byte \<Rightarrow> byte \<Rightarrow> int" where
  "word16 hi lo = uint hi * 256 + uint lo"

definition p1_status :: "byte list \<Rightarrow> radio \<Rightarrow> radio \<times> p1_event list" where
  "p1_status ci r =
    (let addr = drop_bit 3 (ci ! 0) AND 0x1F in
     if addr = 0 then
       (let r1 = r\<lparr>r_adc_overload := (ci ! 1 AND 0x01 = 0x01), r_IO1 := (ci ! 1 AND 0x02 = 0x02),
                   r_IO2 := (ci ! 1 AND 0x04 = 0x04), r_IO3 := (ci ! 1 AND 0x08 = 0x08)\<rparr>;
            (r2, evs) = (case r_hl2 r1 of None \<Rightarrow> (r1, [])
              | Some h \<Rightarrow> (case p1_hl2_buffer_flags (ci ! 3) (isTransmitting r1) h of
                            (h', evs) \<Rightarrow> (r1\<lparr>r_hl2 := Some h'\<rparr>, evs)))
        in (r2\<lparr>r_mercury_software_version := ci ! 2, r_penelope_software_version := ci ! 3,
              r_ozy_software_version := ci ! 4\<rparr>, evs))
     else if addr = 1 then
       (let adc = word16 (ci ! 1) (ci ! 2);
            this_temperature = (3.26 * (real_of_int adc / 4096) - 0.5) / 0.01;
            tx = r_transmitter r
        in (r\<lparr>r_transmitter := tx\<lparr>tx_exciter_power := adc,
               tx_temperature := 0.7 * this_temperature + (1 - 0.7) * tx_temperature tx,
               tx_alex_forward_power := word16 (ci ! 3) (ci ! 4)\<rparr>\<rparr>, []))
     else if addr = 2 then
       (r\<lparr>r_transmitter := (r_transmitter r)\<lparr>tx_alex_reverse_power := word16 (ci ! 1) (ci ! 2)\<rparr>,
          r_AIN3 := word16 (ci ! 3) (ci ! 4)\<rparr>, [])
     else if addr = 3 then
       (r\<lparr>r_AIN4 := word16 (ci ! 1) (ci ! 2), r_AIN6 := word16 (ci ! 3) (ci ! 4)\<rparr>, [])
     else (r, []))"

definition p1_key_lines :: "byte \<Rightarrow> radio \<Rightarrow> radio" where
  "p1_key_lines c0 r =
     (let tx_mode = transmitter_get_mode r;
          r1 = r\<lparr>r_ptt := (c0 AND 0x01 = 0x01), r_dash := (c0 AND 0x02 = 0x02),
                 r_dot := (c0 AND 0x04 = 0x04)\<rparr>
      in r1\<lparr>r_local_ptt :=
           (if (tx_mode = CWL \<or> tx_mode = CWU) \<and> r_cw_keyer_internal r1
            then r_ptt r1 \<or> r_dot r1 \<or> r_dash r1 else r_ptt r1)\<rparr>)"

definition process_control_bytes :: "byte list \<Rightarrow> radio \<Rightarrow> radio \<times> p1_event list" where
  "process_control_bytes ci r =
     (let previous_ptt = r_local_ptt r;
          r1 = p1_key_lines (ci ! 0) r;
          evs = (if previous_ptt \<noteq> r_local_ptt r1 then [Ptt_changed] else [])
      in case r_hl2 r1 of
           Some h \<Rightarrow>
             if drop_bit 7 (ci ! 0) \<noteq> 0
             then (r1\<lparr>r_hl2 := Some (HL2i2cProcessReturnValue h (ci ! 0) (ci ! 1) (ci ! 2) (ci ! 3) (ci ! 4))\<rparr>, evs)
             else (case p1_status ci r1 of (r2, evs2) \<Rightarrow> (r2, evs @ evs2))
         | None \<Rightarrow> (case p1_status ci r1 of (r2, evs2) \<Rightarrow> (r2, evs @ evs2)))"

section \<open>The byte state machine\<close>

text \<open>The search for the \<open>nreceiver\<close>-th live receiver: \<open>i\<close> counts
live slots, \<open>j\<close> is the slot looked at; it ends at the number of slots when
there is none.\<close>

primrec nth_live :: "receiver option list \<Rightarrow> int \<Rightarrow> int \<Rightarrow> nat \<Rightarrow> nat" where
  "nth_live [] n i j = j"
| "nth_live (x # xs) n i j =
     (if x \<noteq> None then if i + 1 = n then j else nth_live xs n (i + 1) (Suc j)
      else nth_live xs n i (Suc j))"

definition find_receiver :: "radio \<Rightarrow> int \<Rightarrow> nat" where
  "find_receiver r n = nth_live (take (d_supported_receivers (r_discovered r)) (r_receiver r)) n (- 1) 0"

text \<open>Where an I/Q sample goes: to the PureSignal feedback while transmitting,
otherwise to the receiver found.\<close>

definition route_iq :: "radio \<Rightarrow> p1_rx \<Rightarrow> real \<Rightarrow> real \<Rightarrow> p1_rx \<times> p1_event list" where
  "route_iq r s left right =
     (let n = pr_nreceiver s; j = find_receiver r n; chan = d_ps_tx_fdbk_chan (r_discovered r) in
      if isTransmitting r \<and> tx_puresignal (r_transmitter r) \<and> (n = chan \<or> n = chan - 1)
      then (if n = chan - 1 then (s\<lparr>pr_fbk_left := left, pr_fbk_right := right\<rparr>, [])
            else (s, [Ps_iq_samples left right (pr_fbk_left s) (pr_fbk_right s)]))
      else if j < d_supported_receivers (r_discovered r)
      then (s, if r_receiver r ! j \<noteq> None then [Iq_samples j left right] else [])
      else (s, []))"

definition p1_mic_low :: "radio \<Rightarrow> p1_rx \<Rightarrow> byte \<Rightarrow> p1_rx \<times> p1_event list" where
  "p1_mic_low r s b =
     (let s1 = s\<lparr>pr_mic_sample := pr_mic_sample s OR ucast b\<rparr>;
          (s2, evs) =
            (if r_local_microphone r then (s1, [])
             else if pr_mic_samples s1 + 1 \<ge> pr_mic_sample_divisor s1
             then (s1\<lparr>pr_mic_samples := 0\<rparr>,
                   [Mic_sample (real_of_int (sint (pr_mic_sample s1)) / 32768)])
             else (s1\<lparr>pr_mic_samples := pr_mic_samples s1 + 1\<rparr>, []));
          s3 = s2\<lparr>pr_nsamples := pr_nsamples s2 + 1\<rparr>
      in (if pr_nsamples s3 = pr_iq_samples s3 then s3\<lparr>pr_state := SYNC_0\<rparr>
          else s3\<lparr>pr_nreceiver := 0, pr_state := LEFT_SAMPLE_HI\<rparr>, evs))"

definition p1_right_low :: "radio \<Rightarrow> p1_rx \<Rightarrow> byte \<Rightarrow> p1_rx \<times> p1_event list" where
  "p1_right_low r s b =
     (let s1 = s\<lparr>pr_right_sample := pr_right_sample s OR ucast b\<rparr>;
          (s2, evs) = route_iq r s1 (sample_double (pr_left_sample s1)) (sample_double (pr_right_sample s1));
          s3 = s2\<lparr>pr_nreceiver := pr_nreceiver s2 + 1\<rparr>
      in (if pr_nreceiver s3 = r_receivers r then s3\<lparr>pr_state := MIC_SAMPLE_HI\<rparr>
          else s3\<lparr>pr_state := LEFT_SAMPLE_HI\<rparr>, evs))"

definition process_ozy_byte :: "byte \<Rightarrow> radio \<times> p1_rx \<Rightarrow> (radio \<times> p1_rx) \<times> p1_event list" where
  "process_ozy_byte b rs = (case rs of (r, s) \<Rightarrow>
    let quiet = (\<lambda>s'. ((r, s'), []));
        ctl = (\<lambda>i s. s\<lparr>pr_control_in := (pr_control_in s)[i := b]\<rparr>) in
    case pr_state s of
      SYNC_0 \<Rightarrow> quiet (if b = SYNC then s\<lparr>pr_state := SYNC_1\<rparr> else s)
    | SYNC_1 \<Rightarrow> quiet (if b = SYNC then s\<lparr>pr_state := SYNC_2\<rparr> else s)
    | SYNC_2 \<Rightarrow> quiet (if b = SYNC then s\<lparr>pr_state := CONTROL_0\<rparr> else s)
    | CONTROL_0 \<Rightarrow> quiet ((ctl 0 s)\<lparr>pr_state := CONTROL_1\<rparr>)
    | CONTROL_1 \<Rightarrow> quiet ((ctl 1 s)\<lparr>pr_state := CONTROL_2\<rparr>)
    | CONTROL_2 \<Rightarrow> quiet ((ctl 2 s)\<lparr>pr_state := CONTROL_3\<rparr>)
    | CONTROL_3 \<Rightarrow> quiet ((ctl 3 s)\<lparr>pr_state := CONTROL_4\<rparr>)
    | CONTROL_4 \<Rightarrow>
        (let s1 = ctl 4 s in
         case process_control_bytes (pr_control_in s1) r of (r1, evs) \<Rightarrow>
           ((r1, s1\<lparr>pr_nreceiver := 0, pr_iq_samples := (512 - 8) div (r_receivers r1 * 6 + 2),
                     pr_nsamples := 0, pr_state := LEFT_SAMPLE_HI\<rparr>), evs))
    | LEFT_SAMPLE_HI \<Rightarrow>
        quiet (s\<lparr>pr_left_sample := scast b * 65536, pr_state := LEFT_SAMPLE_MID\<rparr>)
    | LEFT_SAMPLE_MID \<Rightarrow>
        quiet (s\<lparr>pr_left_sample := pr_left_sample s OR push_bit 8 (ucast b), pr_state := LEFT_SAMPLE_LOW\<rparr>)
    | LEFT_SAMPLE_LOW \<Rightarrow>
        quiet (s\<lparr>pr_left_sample := pr_left_sample s OR ucast b, pr_state := RIGHT_SAMPLE_HI\<rparr>)
    | RIGHT_SAMPLE_HI \<Rightarrow>
        quiet (s\<lparr>pr_right_sample := scast b * 65536, pr_state := RIGHT_SAMPLE_MID\<rparr>)
    | RIGHT_SAMPLE_MID \<Rightarrow>
        quiet (s\<lparr>pr_right_sample := pr_right_sample s OR push_bit 8 (ucast b), pr_state := RIGHT_SAMPLE_LOW\<rparr>)
    | RIGHT_SAMPLE_LOW \<Rightarrow> (case p1_right_low r s b of (s', evs) \<Rightarrow> ((r, s'), evs))
    | MIC_SAMPLE_HI \<Rightarrow>
        quiet (s\<lparr>pr_mic_sample := push_bit 8 (ucast b), pr_state := MIC_SAMPLE_LOW\<rparr>)
    | MIC_SAMPLE_LOW \<Rightarrow> (case p1_mic_low r s b of (s', evs) \<Rightarrow> ((r, s'), evs))
    | SKIP \<Rightarrow> quiet s)"

primrec process_ozy_bytes :: "byte list \<Rightarrow> radio \<times> p1_rx \<Rightarrow> (radio \<times> p1_rx) \<times> p1_event list" where
  "process_ozy_bytes [] rs = (rs, [])"
| "process_ozy_bytes (b # bs) rs =
     (case process_ozy_byte b rs of (rs1, evs1) \<Rightarrow>
        case process_ozy_bytes bs rs1 of (rs2, evs2) \<Rightarrow> (rs2, evs1 @ evs2))"

definition process_ozy_input_buffer :: "byte list \<Rightarrow> radio \<times> p1_rx \<Rightarrow> (radio \<times> p1_rx) \<times> p1_event list" where
  "process_ozy_input_buffer buffer rs =
     (if r_receivers (fst rs) > 0 then process_ozy_bytes (take 512 buffer) rs else (rs, []))"

section \<open>Datagrams\<close>

fun process_wideband_bytes :: "byte list \<Rightarrow> p1_event list" where
  "process_wideband_bytes (lo # hi # bs) =
     Wideband_sample (real_of_int (sint (push_bit 8 (ucast hi) + ucast lo :: 16 word)) / 32767)
       # process_wideband_bytes bs"
| "process_wideband_bytes bs = []"

definition process_wideband_buffer :: "byte list \<Rightarrow> radio \<Rightarrow> p1_event list" where
  "process_wideband_buffer buffer r =
     (if r_wideband r \<noteq> None then process_wideband_bytes (take 512 buffer) else [])"

text \<open>The time is the clock in seconds; a gap of more than 20 ms since the
last EP6 datagram counts as a late packet.\<close>

definition protocol1_tx_scheduler_monitor :: "real \<Rightarrow> radio \<times> p1_rx \<Rightarrow> radio \<times> p1_rx" where
  "protocol1_tx_scheduler_monitor this_time rs = (case rs of (r, s) \<Rightarrow>
     let timer = 1000 * (this_time - pr_last_time s);
         r1 = (case r_hl2 r of
                 Some h \<Rightarrow> if timer > 20 then r\<lparr>r_hl2 := Some (h\<lparr>late_packets := late_packets h + 1\<rparr>)\<rparr> else r
               | None \<Rightarrow> r)
     in (r1, s\<lparr>pr_last_time := this_time\<rparr>))"

text \<open>\<open>recvfrom\<close> fills the front of the 2048 byte buffer and leaves the
rest as the datagram before left it; the length is not looked at.\<close>

definition recv_into :: "byte list \<Rightarrow> byte list \<Rightarrow> byte list" where
  "recv_into buffer pkt = take 2048 pkt @ drop (length (take 2048 pkt)) buffer"

definition ep6_datagram ::
  "real \<Rightarrow> byte list \<Rightarrow> int \<Rightarrow> radio \<times> p1_rx \<Rightarrow> (radio \<times> p1_rx) \<times> p1_event list" where
  "ep6_datagram now buffer sequence rs = (case rs of (r, s) \<Rightarrow>
     let s1 = s\<lparr>pr_ep6_sequence := pr_ep6_sequence s + 1\<rparr>;
         (r2, s2) = (if sequence \<noteq> pr_ep6_sequence s1
           then (case r_hl2 r of
                   Some h \<Rightarrow> r\<lparr>r_hl2 := Some (h\<lparr>ep6_error_ctr := ep6_error_ctr h + 1\<rparr>)\<rparr>
                 | None \<Rightarrow> r, s1\<lparr>pr_ep6_sequence := sequence\<rparr>)
           else (r, s1));
         (rs3, evs1) = process_ozy_input_buffer (drop 8 buffer) (r2, s2);
         (rs4, evs2) = process_ozy_input_buffer (drop 520 buffer) rs3
     in (protocol1_tx_scheduler_monitor now rs4, evs1 @ evs2 @ [Full_tx_buffer False]))"

definition ep4_datagram :: "byte list \<Rightarrow> int \<Rightarrow> radio \<times> p1_rx \<Rightarrow> (radio \<times> p1_rx) \<times> p1_event list" where
  "ep4_datagram buffer sequence rs = (case rs of (r, s) \<Rightarrow>
     let s1 = s\<lparr>pr_ep4_sequence := pr_ep4_sequence s + 1\<rparr> in
     if sequence \<noteq> pr_ep4_sequence s1 then ((r, s1\<lparr>pr_ep4_sequence := sequence\<rparr>), [])
     else ((r, s1), (if sequence mod 32 = 0 then [Reset_wideband] else [])
             @ process_wideband_buffer (drop 8 buffer) r
             @ process_wideband_buffer (drop 520 buffer) r))"

definition p1_sequence :: "byte list \<Rightarrow> int" where
  "p1_sequence buffer =
     sint (push_bit 24 (ucast (buffer ! 4)) + push_bit 16 (ucast (buffer ! 5))
           + push_bit 8 (ucast (buffer ! 6)) + ucast (buffer ! 7) :: 32 word)"

definition receive_datagram ::
  "real \<Rightarrow> byte list \<Rightarrow> radio \<times> p1_rx \<Rightarrow> (radio \<times> p1_rx) \<times> p1_event list" where
  "receive_datagram now buffer rs =
     (let (rs1, evs) =
        (if buffer ! 0 = 0xEF \<and> buffer ! 1 = 0xFE \<and> buffer ! 2 = 1
         then let ep = buffer ! 3; sequence = p1_sequence buffer in
              if ep = 6 then ep6_datagram now buffer sequence rs
              else if ep = 4 then ep4_datagram buffer sequence rs
              else (rs, [])
         else (rs, []))
      in (rs1, Note_data # evs))"

section \<open>Samples on the wire\<close>

text \<open>The encoding a radio uses: 24 bit big endian samples in two's complement,
16 bit microphone samples.\<close>


definition enc24 :: "int \<Rightarrow> byte list" where
  "enc24 v = [word_of_int (v div 65536), word_of_int (v div 256), word_of_int v]"

definition in24 :: "int \<Rightarrow> bool" where
  "in24 v \<longleftrightarrow> - 8388608 \<le> v \<and> v < 8388608"

lemma int_split24:
  "push_bit 16 (drop_bit 16 v) OR push_bit 8 (take_bit 8 (drop_bit 8 v)) OR take_bit 8 v = (v :: int)"
proof (rule bit_eqI)
  fix n :: nat
  show "bit (push_bit 16 (drop_bit 16 v) OR push_bit 8 (take_bit 8 (drop_bit 8 v)) OR take_bit 8 v) n = bit v n"
    by (cases "n < 8"; cases "n < 16") (auto simp: bit_simps)
qed

lemma scast_byte: "(scast (word_of_int k :: byte) :: 32 word) = word_of_int (signed_take_bit 7 k)"
  by transfer simp

lemma ucast_byte: "(ucast (word_of_int k :: byte) :: 32 word) = word_of_int (take_bit 8 k)"
  by transfer simp

lemma join24:
  assumes "in24 v"
  shows "scast (word_of_int (v div 65536) :: byte) * 65536
      OR push_bit 8 (ucast (word_of_int (v div 256) :: byte))
      OR ucast (word_of_int v :: byte) = (word_of_int v :: 32 word)"
proof -
  have d: "v div 65536 = drop_bit 16 v" "v div 256 = drop_bit 8 v" by (simp_all add: drop_bit_eq_div)
  have h: "signed_take_bit 7 (drop_bit 16 v) = drop_bit 16 v"
    using assms by (intro signed_take_bit_int_eq_self) (auto simp: in24_def drop_bit_eq_div)
  have "word_of_int (drop_bit 16 v) * 65536 = (word_of_int (push_bit 16 (drop_bit 16 v)) :: 32 word)"
    by (simp add: push_bit_eq_mult)
  moreover have "push_bit 8 (word_of_int k) = (word_of_int (push_bit 8 k) :: 32 word)" for k
    by (simp add: push_bit_eq_mult)
  ultimately show ?thesis
    unfolding scast_byte ucast_byte d h by (simp only: word_wi_log_defs or.assoc int_split24) 
qed

lemma sint_word24: "in24 v \<Longrightarrow> sint (word_of_int v :: 32 word) = v"
  by (simp add: signed_of_int signed_take_bit_int_eq_self in24_def)


lemma signed_word24: "in24 v \<Longrightarrow> (signed (word_of_int v :: 32 word) :: real) = real_of_int v"
  by (metis sint_word24 of_int_sint)

section \<open>Frames\<close>

lemma process_ozy_bytes_append:
  "process_ozy_bytes (xs @ ys) rs =
     (case process_ozy_bytes xs rs of (rs1, e1) \<Rightarrow>
        case process_ozy_bytes ys rs1 of (rs2, e2) \<Rightarrow> (rs2, e1 @ e2))"
  by (induction xs arbitrary: rs) (auto split: prod.splits)

lemma process_ozy_bytes_seq:
  "process_ozy_bytes xs rs = (rs1, e1) \<Longrightarrow> process_ozy_bytes ys rs1 = (rs2, e2) \<Longrightarrow>
   process_ozy_bytes (xs @ ys) rs = (rs2, e1 @ e2)"
  by (simp add: process_ozy_bytes_append)

text \<open>The fields a run over sample bytes leaves alone.\<close>

definition same_counters :: "p1_rx \<Rightarrow> p1_rx \<Rightarrow> bool" where
  "same_counters s t \<longleftrightarrow> pr_nsamples t = pr_nsamples s \<and> pr_iq_samples t = pr_iq_samples s
     \<and> pr_mic_samples t = pr_mic_samples s \<and> pr_mic_sample_divisor t = pr_mic_sample_divisor s
     \<and> pr_control_in t = pr_control_in s"

definition live_slots :: "radio \<Rightarrow> nat list" where
  "live_slots r = filter (\<lambda>j. r_receiver r ! j \<noteq> None) [0..<d_supported_receivers (r_discovered r)]"

lemma nth_live_filter:
  "i + 1 \<le> k \<Longrightarrow>
   nth_live xs k i j =
     (let l = filter (\<lambda>m. xs ! m \<noteq> None) [0..<length xs]
      in if nat (k - i - 1) < length l then j + l ! nat (k - i - 1) else j + length xs)"
proof (induction xs arbitrary: i j)
  case (Cons x xs)
  have f: "filter (\<lambda>m. (x # xs) ! m \<noteq> None) [0..<length (x # xs)] =
     (if x \<noteq> None then [0] else []) @ map Suc (filter (\<lambda>m. xs ! m \<noteq> None) [0..<length xs])"
    by (simp add: upt_conv_Cons filter_map o_def map_Suc_upt [symmetric] del: upt_Suc)
  show ?case
  proof (cases "x \<noteq> None \<and> i + 1 < k")
    case True
    hence n: "nat (k - i - 1) = Suc (nat (k - (i + 1) - 1))" by linarith
    show ?thesis using Cons.IH[of "i + 1" "Suc j"] True Cons.prems unfolding f Let_def n by auto
  next
    case False
    show ?thesis using Cons.IH[of i "Suc j"] False Cons.prems unfolding f Let_def by auto
  qed
qed simp

lemma find_receiver_live:
  assumes "d_supported_receivers (r_discovered r) \<le> length (r_receiver r)" "k < length (live_slots r)"
  shows "find_receiver r (int k) = live_slots r ! k"
proof -
  let ?n = "d_supported_receivers (r_discovered r)"
  have "filter (\<lambda>m. take ?n (r_receiver r) ! m \<noteq> None) [0..<length (take ?n (r_receiver r))] = live_slots r"
    using assms(1) by (auto simp: live_slots_def min_def intro: filter_cong)
  thus ?thesis using nth_live_filter[of "- 1" "int k" "take ?n (r_receiver r)" 0] assms
    by (simp add: find_receiver_def Let_def)
qed

lemma live_slots_nth:
  "k < length (live_slots r) \<Longrightarrow> r_receiver r ! (live_slots r ! k) \<noteq> None
     \<and> live_slots r ! k < d_supported_receivers (r_discovered r)"
  using nth_mem[of k "live_slots r"] by (auto simp: live_slots_def)

definition no_ps :: "radio \<Rightarrow> bool" where
  "no_ps r \<longleftrightarrow> \<not> (isTransmitting r \<and> tx_puresignal (r_transmitter r))"

definition rx_wf :: "radio \<Rightarrow> bool" where
  "rx_wf r \<longleftrightarrow> d_supported_receivers (r_discovered r) \<le> length (r_receiver r)
     \<and> r_receivers r = int (length (live_slots r)) \<and> 0 < length (live_slots r)"

lemma route_iq_live:
  assumes "rx_wf r" "no_ps r" "pr_nreceiver s = int k" "k < length (live_slots r)"
  shows "route_iq r s x y = (s, [Iq_samples (live_slots r ! k) x y])"
  using assms find_receiver_live[of r k] live_slots_nth[of k r]
  by (auto simp: route_iq_def Let_def rx_wf_def no_ps_def)

definition sample24 :: "int \<Rightarrow> real" where
  "sample24 v = real_of_int v / 8388607"

lemma process_iq_pair:
  assumes "rx_wf r" "no_ps r" "pr_state s = LEFT_SAMPLE_HI" "pr_nreceiver s = int k"
    "k < length (live_slots r)" "in24 l" "in24 q"
  shows "\<exists>t. process_ozy_bytes (enc24 l @ enc24 q) (r, s) =
      ((r, t), [Iq_samples (live_slots r ! k) (sample24 l) (sample24 q)])
    \<and> same_counters s t \<and> pr_nreceiver t = int (Suc k)
    \<and> pr_state t = (if Suc k = length (live_slots r) then MIC_SAMPLE_HI else LEFT_SAMPLE_HI)"
proof -
  have j: "(scast (word_of_int (v div 65536) :: byte) * 65536
      OR push_bit 8 (ucast (word_of_int (v div 256) :: byte)))
      OR ucast (word_of_int v :: byte) = (word_of_int v :: 32 word)" if "in24 v" for v
    using join24[OF that] by (simp only: or.assoc)
  have n: "r_receivers r = int (length (live_slots r))" using assms(1) by (simp add: rx_wf_def)
  show ?thesis
    using assms(3-7) n
    by (simp add: enc24_def process_ozy_byte_def p1_right_low_def Let_def j sample_double_def
        signed_word24 route_iq_live[OF assms(1,2), of _ k] sample24_def same_counters_def)
qed


lemma same_counters_trans: "same_counters s t \<Longrightarrow> same_counters t u \<Longrightarrow> same_counters s u"
  by (simp add: same_counters_def)

lemma process_iq_pairs:
  assumes "rx_wf r" "no_ps r"
  shows "\<lbrakk>pr_state s = LEFT_SAMPLE_HI; pr_nreceiver s = int k; k < length (live_slots r);
     length iqs = length (live_slots r) - k; \<forall>(l, q) \<in> set iqs. in24 l \<and> in24 q\<rbrakk> \<Longrightarrow>
   \<exists>t. process_ozy_bytes (concat (map (\<lambda>(l, q). enc24 l @ enc24 q) iqs)) (r, s) =
      ((r, t), map (\<lambda>(j, l, q). Iq_samples j (sample24 l) (sample24 q)) (zip (drop k (live_slots r)) iqs))
    \<and> same_counters s t \<and> pr_state t = MIC_SAMPLE_HI"
proof (induction iqs arbitrary: s k)
  case (Cons p iqs)
  obtain l q where p: "p = (l, q)" by (cases p)
  have r: "in24 l" "in24 q" using Cons.prems(5) p by auto
  obtain t where t: "process_ozy_bytes (enc24 l @ enc24 q) (r, s) =
      ((r, t), [Iq_samples (live_slots r ! k) (sample24 l) (sample24 q)])"
    "same_counters s t" "pr_nreceiver t = int (Suc k)"
    "pr_state t = (if Suc k = length (live_slots r) then MIC_SAMPLE_HI else LEFT_SAMPLE_HI)"
    using process_iq_pair[OF assms Cons.prems(1-3) r] by blast
  have d: "drop k (live_slots r) = live_slots r ! k # drop (Suc k) (live_slots r)"
    using Cons.prems(3) by (simp add: Cons_nth_drop_Suc)
  show ?case
  proof (cases "Suc k = length (live_slots r)")
    case True
    hence "length (p # iqs) = 1" using Cons.prems(4) by arith
    hence "iqs = []" by simp
    thus ?thesis using t True d p by auto
  next
    case False
    have "Suc k < length (live_slots r)" using False Cons.prems(3) by auto
    moreover have "length iqs = length (live_slots r) - Suc k" using Cons.prems(4) by auto
    ultimately obtain u where u: "process_ozy_bytes (concat (map (\<lambda>(l, q). enc24 l @ enc24 q) iqs)) (r, t) =
      ((r, u), map (\<lambda>(j, l, q). Iq_samples j (sample24 l) (sample24 q)) (zip (drop (Suc k) (live_slots r)) iqs))"
      "same_counters t u" "pr_state u = MIC_SAMPLE_HI"
      using Cons.IH[of t "Suc k"] t False Cons.prems(5) by auto
    show ?thesis using process_ozy_bytes_seq[OF t(1) u(1)] same_counters_trans[OF t(2) u(2)] u(3) d p
      by auto
  qed
qed simp

definition enc16 :: "int \<Rightarrow> byte list" where
  "enc16 m = [word_of_int (m div 256), word_of_int m]"

definition in16 :: "int \<Rightarrow> bool" where
  "in16 m \<longleftrightarrow> - 32768 \<le> m \<and> m < 32768"

lemma signed_word16:
  assumes "in16 m"
  shows "(signed (push_bit 8 (ucast (word_of_int (m div 256) :: byte)) OR ucast (word_of_int m :: byte) :: 16 word) :: real)
    = real_of_int m"
proof -
  have u: "(ucast (word_of_int k :: byte) :: 16 word) = word_of_int (take_bit 8 k)" for k
    by transfer simp
  have p: "push_bit 8 (word_of_int k) = (word_of_int (push_bit 8 k) :: 16 word)" for k
    by (simp add: push_bit_eq_mult)
  have "take_bit 16 (push_bit 8 (take_bit 8 (m div 256)) OR take_bit 8 m) = take_bit 16 m"
  proof (rule bit_eqI)
    fix n :: nat
    have d: "m div 256 = drop_bit 8 m" by (simp add: drop_bit_eq_div)
    show "bit (take_bit 16 (push_bit 8 (take_bit 8 (m div 256)) OR take_bit 8 m)) n = bit (take_bit 16 m) n"
      unfolding d by (cases "n < 8") (auto simp: bit_simps)
  qed
  hence "(word_of_int (push_bit 8 (take_bit 8 (m div 256)) OR take_bit 8 m) :: 16 word) = word_of_int m"
    by (simp add: word_of_int_eq_iff)
  hence "push_bit 8 (ucast (word_of_int (m div 256) :: byte)) OR ucast (word_of_int m :: byte) = (word_of_int m :: 16 word)"
    unfolding u p by (simp only: word_wi_log_defs)
  moreover have "sint (word_of_int m :: 16 word) = m"
    using assms by (simp add: signed_of_int signed_take_bit_int_eq_self in16_def)
  ultimately show ?thesis by (metis of_int_sint)
qed

text \<open>One microphone sample in \<open>pr_mic_sample_divisor\<close> is kept: the one
at which the counter wraps.\<close>

definition mic_kept :: "radio \<Rightarrow> p1_rx \<Rightarrow> nat \<Rightarrow> bool" where
  "mic_kept r s i \<longleftrightarrow> \<not> r_local_microphone r
     \<and> (pr_mic_samples s + int i + 1) mod pr_mic_sample_divisor s = 0"

type_synonym iq_group = "(int \<times> int) list \<times> int"

definition enc_group :: "iq_group \<Rightarrow> byte list" where
  "enc_group g = concat (map (\<lambda>(l, q). enc24 l @ enc24 q) (fst g)) @ enc16 (snd g)"

definition group_ok :: "radio \<Rightarrow> iq_group \<Rightarrow> bool" where
  "group_ok r g \<longleftrightarrow> length (fst g) = length (live_slots r)
     \<and> (\<forall>(l, q) \<in> set (fst g). in24 l \<and> in24 q) \<and> in16 (snd g)"

definition group_events :: "radio \<Rightarrow> bool \<Rightarrow> iq_group \<Rightarrow> p1_event list" where
  "group_events r kept g =
     map (\<lambda>(j, l, q). Iq_samples j (sample24 l) (sample24 q)) (zip (live_slots r) (fst g))
     @ (if kept then [Mic_sample (real_of_int (snd g) / 32768)] else [])"

lemma mic_counter_step:
  fixes c d :: int
  assumes "0 \<le> c" "c < d"
  shows "(c + 1) mod d = (if c + 1 \<ge> d then 0 else c + 1)"
  using assms by (cases "c + 1 = d") (auto simp: mod_pos_pos_trivial)

lemma process_group:
  assumes wf: "rx_wf r" "no_ps r" and g: "group_ok r g"
    and s: "pr_state s = LEFT_SAMPLE_HI" "pr_nreceiver s = 0"
      "0 \<le> pr_mic_samples s" "pr_mic_samples s < pr_mic_sample_divisor s"
  shows "\<exists>t. process_ozy_bytes (enc_group g) (r, s) = ((r, t), group_events r (mic_kept r s 0) g)
    \<and> pr_control_in t = pr_control_in s \<and> pr_iq_samples t = pr_iq_samples s
    \<and> pr_mic_sample_divisor t = pr_mic_sample_divisor s \<and> pr_nsamples t = pr_nsamples s + 1
    \<and> pr_mic_samples t = (if r_local_microphone r then pr_mic_samples s
         else (pr_mic_samples s + 1) mod pr_mic_sample_divisor s)
    \<and> (if pr_nsamples t = pr_iq_samples t then pr_state t = SYNC_0
       else pr_state t = LEFT_SAMPLE_HI \<and> pr_nreceiver t = 0)"
proof -
  have pos: "0 < length (live_slots r)" using wf by (simp add: rx_wf_def)
  have iq: "\<forall>(l, q) \<in> set (fst g). in24 l \<and> in24 q" "length (fst g) = length (live_slots r) - 0"
    using g by (auto simp: group_ok_def)
  obtain t where t: "process_ozy_bytes (concat (map (\<lambda>(l, q). enc24 l @ enc24 q) (fst g))) (r, s) =
      ((r, t), map (\<lambda>(j, l, q). Iq_samples j (sample24 l) (sample24 q)) (zip (live_slots r) (fst g)))"
    "same_counters s t" "pr_state t = MIC_SAMPLE_HI"
    using process_iq_pairs[OF wf s(1), of 0 "fst g"] s(2) pos iq by auto
  note m = mic_counter_step[OF s(3,4)]
  have c: "pr_mic_samples t = pr_mic_samples s" "pr_mic_sample_divisor t = pr_mic_sample_divisor s"
    "pr_nsamples t = pr_nsamples s" "pr_iq_samples t = pr_iq_samples s" "pr_control_in t = pr_control_in s"
    using t(2) by (auto simp: same_counters_def)
  have k: "mic_kept r s 0 \<longleftrightarrow> \<not> r_local_microphone r \<and> pr_mic_sample_divisor s \<le> pr_mic_samples s + 1"
    using m s by (simp add: mic_kept_def)
  have "\<exists>u. process_ozy_bytes (enc16 (snd g)) (r, t) =
      ((r, u), if mic_kept r s 0 then [Mic_sample (real_of_int (snd g) / 32768)] else [])
    \<and> pr_control_in u = pr_control_in s \<and> pr_iq_samples u = pr_iq_samples s
    \<and> pr_mic_sample_divisor u = pr_mic_sample_divisor s \<and> pr_nsamples u = pr_nsamples s + 1
    \<and> pr_mic_samples u = (if r_local_microphone r then pr_mic_samples s
         else (pr_mic_samples s + 1) mod pr_mic_sample_divisor s)
    \<and> (if pr_nsamples u = pr_iq_samples u then pr_state u = SYNC_0
       else pr_state u = LEFT_SAMPLE_HI \<and> pr_nreceiver u = 0)"
    using t(3) g signed_word16[of "snd g"] unfolding k m
    by (auto simp: enc16_def process_ozy_byte_def p1_mic_low_def Let_def c group_ok_def)
  then obtain u where u: "process_ozy_bytes (enc16 (snd g)) (r, t) =
      ((r, u), if mic_kept r s 0 then [Mic_sample (real_of_int (snd g) / 32768)] else [])"
    "pr_control_in u = pr_control_in s \<and> pr_iq_samples u = pr_iq_samples s
    \<and> pr_mic_sample_divisor u = pr_mic_sample_divisor s \<and> pr_nsamples u = pr_nsamples s + 1
    \<and> pr_mic_samples u = (if r_local_microphone r then pr_mic_samples s
         else (pr_mic_samples s + 1) mod pr_mic_sample_divisor s)
    \<and> (if pr_nsamples u = pr_iq_samples u then pr_state u = SYNC_0
       else pr_state u = LEFT_SAMPLE_HI \<and> pr_nreceiver u = 0)" by blast
  show ?thesis
    using process_ozy_bytes_seq[OF t(1) u(1)] u(2)
    unfolding enc_group_def group_events_def by (intro exI[of _ u] conjI) simp_all
qed


primrec frame_events :: "radio \<Rightarrow> p1_rx \<Rightarrow> nat \<Rightarrow> iq_group list \<Rightarrow> p1_event list" where
  "frame_events r s i [] = []"
| "frame_events r s i (g # gs) = group_events r (mic_kept r s i) g @ frame_events r s (Suc i) gs"

lemma frame_events_shift:
  assumes "\<And>i. mic_kept r t i = mic_kept r s (Suc i)"
  shows "frame_events r t i gs = frame_events r s (Suc i) gs"
  by (induction gs arbitrary: i) (simp_all add: assms)

lemma process_groups:
  assumes wf: "rx_wf r" "no_ps r"
  shows "\<lbrakk>\<forall>g \<in> set gs. group_ok r g; gs \<noteq> []; pr_state s = LEFT_SAMPLE_HI; pr_nreceiver s = 0;
      0 \<le> pr_mic_samples s; pr_mic_samples s < pr_mic_sample_divisor s;
      pr_iq_samples s - pr_nsamples s = int (length gs)\<rbrakk> \<Longrightarrow>
    \<exists>t. process_ozy_bytes (concat (map enc_group gs)) (r, s) = ((r, t), frame_events r s 0 gs)
      \<and> pr_state t = SYNC_0 \<and> pr_control_in t = pr_control_in s
      \<and> pr_mic_sample_divisor t = pr_mic_sample_divisor s
      \<and> pr_mic_samples t = (if r_local_microphone r then pr_mic_samples s
           else (pr_mic_samples s + int (length gs)) mod pr_mic_sample_divisor s)"
proof (induction gs arbitrary: s)
  case (Cons g gs)
  have ok: "group_ok r g" using Cons.prems by simp
  obtain t where t: "process_ozy_bytes (enc_group g) (r, s) = ((r, t), group_events r (mic_kept r s 0) g)"
    "pr_control_in t = pr_control_in s" "pr_iq_samples t = pr_iq_samples s"
    "pr_mic_sample_divisor t = pr_mic_sample_divisor s" "pr_nsamples t = pr_nsamples s + 1"
    "pr_mic_samples t = (if r_local_microphone r then pr_mic_samples s
         else (pr_mic_samples s + 1) mod pr_mic_sample_divisor s)"
    "if pr_nsamples t = pr_iq_samples t then pr_state t = SYNC_0
       else pr_state t = LEFT_SAMPLE_HI \<and> pr_nreceiver t = 0"
    using process_group[OF wf ok Cons.prems(3-6)] by blast
  show ?case
  proof (cases "gs = []")
    case True
    hence "pr_nsamples t = pr_iq_samples t" using Cons.prems(7) t by simp
    thus ?thesis using t True by auto
  next
    case False
    hence "0 < length gs" by simp
    moreover have "int (length (g # gs)) = 1 + int (length gs)" by simp
    ultimately have n: "pr_nsamples t \<noteq> pr_iq_samples t" using Cons.prems(7) t(3,5) by linarith
    have m: "0 \<le> pr_mic_samples t" "pr_mic_samples t < pr_mic_sample_divisor t"
      using t(4,6) Cons.prems(5,6) by (auto split: if_splits)
    have "pr_iq_samples t - pr_nsamples t = int (length gs)" using Cons.prems(7) t by simp
    then obtain u where u: "process_ozy_bytes (concat (map enc_group gs)) (r, t) = ((r, u), frame_events r t 0 gs)"
      "pr_state u = SYNC_0" "pr_control_in u = pr_control_in t"
      "pr_mic_sample_divisor u = pr_mic_sample_divisor t"
      "pr_mic_samples u = (if r_local_microphone r then pr_mic_samples t
           else (pr_mic_samples t + int (length gs)) mod pr_mic_sample_divisor t)"
      using Cons.IH[of t] Cons.prems(1) False t(7) n m by auto
    have "((c + 1) mod d + int i + 1) mod d = (c + int (Suc i) + 1) mod d" for c d i
      using mod_add_left_eq[of "c + 1" d "int i + 1"] by (simp add: ac_simps)
    hence "mic_kept r t i = mic_kept r s (Suc i)" for i
      using t(4,6) by (simp add: mic_kept_def del: of_nat_Suc)
    hence "frame_events r t 0 gs = frame_events r s (Suc 0) gs" by (rule frame_events_shift)
    thus ?thesis
      using process_ozy_bytes_seq[OF t(1) u(1)] u t
        mod_add_left_eq[of "pr_mic_samples s + 1" "pr_mic_sample_divisor s" "int (length gs)"]
      by (auto simp: ac_simps)
  qed
qed simp

lemma process_padding:
  "pr_state s = SYNC_0 \<Longrightarrow> SYNC \<notin> set bs \<Longrightarrow> process_ozy_bytes bs (r, s) = ((r, s), [])"
  by (induction bs) (auto simp: process_ozy_byte_def Let_def)

text \<open>The status decoding changes no receiver, so a frame's layout is fixed
before it is read.\<close>

lemma process_control_bytes_frame:
  "r_receiver (fst (process_control_bytes ci r)) = r_receiver r
   \<and> r_discovered (fst (process_control_bytes ci r)) = r_discovered r
   \<and> r_receivers (fst (process_control_bytes ci r)) = r_receivers r
   \<and> r_local_microphone (fst (process_control_bytes ci r)) = r_local_microphone r
   \<and> tx_puresignal (r_transmitter (fst (process_control_bytes ci r))) = tx_puresignal (r_transmitter r)"
  by (simp add: process_control_bytes_def p1_status_def p1_key_lines_def Let_def split: option.splits prod.splits)

lemma process_header:
  assumes "pr_state s = SYNC_0" "length (pr_control_in s) = 5" "length ci = 5"
  shows "process_ozy_bytes ([SYNC, SYNC, SYNC] @ ci) (r, s) =
    ((fst (process_control_bytes ci r),
      s\<lparr>pr_state := LEFT_SAMPLE_HI, pr_control_in := ci, pr_nreceiver := 0, pr_nsamples := 0,
        pr_iq_samples := (512 - 8) div (r_receivers r * 6 + 2)\<rparr>),
     snd (process_control_bytes ci r))"
proof -
  obtain a b c d e where ci: "ci = [a, b, c, d, e]"
    using assms(3) by (auto simp: numeral_eq_Suc length_Suc_conv)
  obtain a' b' c' d' e' where p: "pr_control_in s = [a', b', c', d', e']"
    using assms(2) by (auto simp: numeral_eq_Suc length_Suc_conv)
  obtain r1 evs where c: "process_control_bytes [a, b, c, d, e] r = (r1, evs)" by fastforce
  have "r_receivers r1 = r_receivers r" using process_control_bytes_frame[of ci r] ci c by simp
  thus ?thesis using assms(1) p
    by (cases s) (simp add: ci c process_ozy_byte_def Let_def numeral_eq_Suc)
qed

definition enc_frame :: "byte list \<Rightarrow> iq_group list \<Rightarrow> byte list \<Rightarrow> byte list" where
  "enc_frame ci gs pad = ([SYNC, SYNC, SYNC] @ ci) @ concat (map enc_group gs) @ pad"

lemma rx_wf_cong:
  "r_receiver r' = r_receiver r \<Longrightarrow> r_discovered r' = r_discovered r \<Longrightarrow> r_receivers r' = r_receivers r \<Longrightarrow>
   rx_wf r' = rx_wf r \<and> live_slots r' = live_slots r"
  by (simp add: rx_wf_def live_slots_def)

lemma process_frame:
  assumes wf: "rx_wf r" and ci: "length ci = 5" and ps: "no_ps (fst (process_control_bytes ci r))"
    and s: "pr_state s = SYNC_0" "length (pr_control_in s) = 5"
      "0 \<le> pr_mic_samples s" "pr_mic_samples s < pr_mic_sample_divisor s"
    and gs: "int (length gs) = (512 - 8) div (r_receivers r * 6 + 2)" "gs \<noteq> []"
      "\<forall>g \<in> set gs. group_ok r g"
    and pad: "SYNC \<notin> set pad"
  shows "\<exists>t. process_ozy_bytes (enc_frame ci gs pad) (r, s) =
      ((fst (process_control_bytes ci r), t), snd (process_control_bytes ci r) @ frame_events r s 0 gs)
    \<and> pr_state t = SYNC_0 \<and> length (pr_control_in t) = 5
    \<and> 0 \<le> pr_mic_samples t \<and> pr_mic_samples t < pr_mic_sample_divisor t"
proof -
  let ?r = "fst (process_control_bytes ci r)"
  let ?s = "s\<lparr>pr_state := LEFT_SAMPLE_HI, pr_control_in := ci, pr_nreceiver := 0, pr_nsamples := 0,
        pr_iq_samples := (512 - 8) div (r_receivers r * 6 + 2)\<rparr>"
  note f = process_control_bytes_frame[of ci r]
  have wf': "rx_wf ?r" "live_slots ?r = live_slots r" using rx_wf_cong[of ?r r] f wf by auto
  have ev: "frame_events ?r ?s i gs = frame_events r s i gs" for i
    using f by (induction gs arbitrary: i) (simp_all add: group_events_def mic_kept_def wf'(2))
  have ok: "\<forall>g \<in> set gs. group_ok ?r g" using gs(3) wf'(2) by (simp add: group_ok_def)
  obtain t where t: "process_ozy_bytes (concat (map enc_group gs)) (?r, ?s) = ((?r, t), frame_events ?r ?s 0 gs)"
    "pr_state t = SYNC_0" "pr_control_in t = ci" "pr_mic_sample_divisor t = pr_mic_sample_divisor s"
    "pr_mic_samples t = (if r_local_microphone ?r then pr_mic_samples s
           else (pr_mic_samples s + int (length gs)) mod pr_mic_sample_divisor s)"
    using process_groups[OF wf'(1) ps ok gs(2), of ?s] s gs(1) by auto
  have "process_ozy_bytes (concat (map enc_group gs) @ pad) (?r, ?s) = ((?r, t), frame_events ?r ?s 0 gs @ [])"
    using process_ozy_bytes_seq[OF t(1) process_padding[OF t(2) pad]] .
  from process_ozy_bytes_seq[OF process_header[OF s(1,2) ci, of r] this] t ci s ev
  show ?thesis unfolding enc_frame_def by (intro exI[of _ t]) auto
qed

end
