(* ===== verification/P1_Frames.thy ===== *)
theory P1_Frames
  imports P1_Receive
begin

text \<open>What the byte machine of \<open>P1_Receive\<close> guarantees: exact decoding of a well
formed frame, and safety for bytes of any kind.\<close>

section \<open>Arbitrary bytes\<close>

text \<open>Whatever bytes arrive, a partly assembled sample stays within 24 bits.\<close>

definition ok24 :: "32 word \<Rightarrow> bool" where
  "ok24 w \<longleftrightarrow> in24 (sint w)"

lemma in24_iff: "in24 v \<longleftrightarrow> signed_take_bit 23 v = v"
  by (auto simp: in24_def signed_take_bit_int_eq_self_iff)

lemma stb_or: "signed_take_bit n (a OR b) = signed_take_bit n a OR (signed_take_bit n b :: int)"
  by (rule bit_eqI) (auto simp: bit_signed_take_bit_iff bit_or_iff)

lemma ok24_or:
  assumes "ok24 a" "ok24 b" shows "ok24 (a OR b)"
proof -
  have "sint (a OR b) = sint a OR sint b" by (simp add: signed_or_eq)
  thus ?thesis using assms by (simp add: ok24_def in24_iff stb_or)
qed

lemma ok24_small:
  assumes "uint w < 8388608" shows "ok24 (w :: 32 word)"
proof -
  have "sint w = uint w"
    unfolding sint_uint using assms uint_ge_0[of w] order_trans[OF _ uint_ge_0, of "- 2147483648" w]
    by (intro signed_take_bit_int_eq_self) simp_all
  thus ?thesis using assms uint_ge_0[of w] unfolding ok24_def in24_def by linarith
qed

lemma ok24_hi: "ok24 (scast (b :: byte) * 65536)"
proof -
  have b: "- 128 \<le> sint b" "sint b < 128" using sint_greater_eq[of b] sint_less[of b] by simp_all
  have w: "(scast b :: 32 word) = word_of_int (sint b)" by simp
  have "sint (word_of_int (sint b * 65536) :: 32 word) = sint b * 65536"
    unfolding signed_of_int of_int_eq_id id_apply using b by (intro signed_take_bit_int_eq_self) simp_all
  moreover have "scast b * 65536 = (word_of_int (sint b * 65536) :: 32 word)" unfolding w by simp
  ultimately have "sint (scast b * 65536 :: 32 word) = sint b * 65536" by (simp only:)
  thus ?thesis unfolding ok24_def in24_def using b by linarith
qed

lemma ok24_mid: "ok24 (push_bit 8 (ucast (b :: byte)))"
proof (rule ok24_small)
  have u: "uint b < 256" using uint_lt2p[of b] by simp
  have "uint (push_bit 8 (ucast b) :: 32 word) = take_bit 32 (push_bit 8 (uint b))"
    by (simp add: unsigned_push_bit_eq unsigned_ucast_eq take_bit_push_bit)
  also have "\<dots> = push_bit 8 (uint b)"
    using u uint_ge_0[of b] by (intro take_bit_int_eq_self) (auto simp: push_bit_eq_mult)
  also have "\<dots> \<le> 255 * 256" using u by (simp add: push_bit_eq_mult)
  finally show "uint (push_bit 8 (ucast b) :: 32 word) < 8388608" by simp
qed

lemma ok24_low: "ok24 (ucast (b :: byte))"
proof (rule ok24_small)
  have "uint b < 256" using uint_lt2p[of b] by simp
  thus "uint (ucast b :: 32 word) < 8388608"
    by (simp add: unsigned_ucast_eq take_bit_int_eq_self)
qed

lemma ok24_bound: "ok24 w \<Longrightarrow> \<bar>sample_double w\<bar> \<le> 8388608 / 8388607"
proof -
  assume "ok24 w"
  hence "\<bar>sint w\<bar> \<le> 8388608" by (simp add: ok24_def in24_def abs_le_iff)
  hence "\<bar>real_of_int (sint w)\<bar> \<le> 8388608" by linarith
  thus ?thesis unfolding sample_double_def abs_divide by (simp only: divide_right_mono abs_numeral zero_le_numeral)
qed


definition sample_ok :: "radio \<Rightarrow> p1_event \<Rightarrow> bool" where
  "sample_ok r e = (case e of
     Iq_samples j x y \<Rightarrow> j < d_supported_receivers (r_discovered r) \<and> r_receiver r ! j \<noteq> None
       \<and> \<bar>x\<bar> \<le> 8388608 / 8388607 \<and> \<bar>y\<bar> \<le> 8388608 / 8388607
   | _ \<Rightarrow> True)"

definition samples_inv :: "p1_rx \<Rightarrow> bool" where
  "samples_inv s \<longleftrightarrow> ok24 (pr_left_sample s) \<and> ok24 (pr_right_sample s)"

definition same_receivers :: "radio \<Rightarrow> radio \<Rightarrow> bool" where
  "same_receivers r r' \<longleftrightarrow> r_receiver r' = r_receiver r \<and> r_discovered r' = r_discovered r"

lemma sample_ok_cong: "same_receivers r r' \<Longrightarrow> sample_ok r' = sample_ok r"
  by (rule ext) (simp add: sample_ok_def same_receivers_def split: p1_event.splits)

lemma process_control_bytes_events:
  "set (snd (process_control_bytes ci r)) \<subseteq> {Ptt_changed, Full_tx_buffer True}"
  by (auto simp: process_control_bytes_def p1_status_def p1_key_lines_def p1_hl2_buffer_flags_def
      Let_def split: option.splits prod.splits if_splits)

lemma route_iq_ok:
  assumes "\<bar>x\<bar> \<le> 8388608 / 8388607" "\<bar>y\<bar> \<le> 8388608 / 8388607" "route_iq r s x y = (t, evs)"
  shows "list_all (sample_ok r) evs \<and> pr_left_sample t = pr_left_sample s
    \<and> pr_right_sample t = pr_right_sample s"
  using assms by (auto simp: route_iq_def Let_def sample_ok_def split: if_splits)

lemma process_ozy_byte_samples:
  assumes inv: "samples_inv s" and p: "process_ozy_byte b (r, s) = ((r', s'), evs)"
  shows "samples_inv s' \<and> same_receivers r r' \<and> list_all (sample_ok r) evs"
proof (cases "pr_state s")
  case CONTROL_4
  let ?ci = "(pr_control_in s)[4 := b]"
  obtain r1 e where c: "process_control_bytes ?ci r = (r1, e)" by fastforce
  have "list_all (sample_ok r) e"
    using process_control_bytes_events[of ?ci r] c
    by (auto simp: list_all_iff sample_ok_def dest!: subsetD split: p1_event.splits)
  moreover have "same_receivers r r1"
    using process_control_bytes_frame[of ?ci r] c by (simp add: same_receivers_def)
  ultimately show ?thesis using p inv CONTROL_4 c
    by (auto simp: process_ozy_byte_def Let_def samples_inv_def)
next
  case RIGHT_SAMPLE_LOW
  let ?s = "s\<lparr>pr_right_sample := pr_right_sample s OR ucast b\<rparr>"
  have ok: "ok24 (pr_left_sample ?s)" "ok24 (pr_right_sample ?s)"
    using inv ok24_or ok24_low by (auto simp: samples_inv_def)
  obtain t e where t: "route_iq r ?s (sample_double (pr_left_sample ?s)) (sample_double (pr_right_sample ?s)) = (t, e)"
    by fastforce
  have "list_all (sample_ok r) e \<and> ok24 (pr_left_sample t) \<and> ok24 (pr_right_sample t)"
    using route_iq_ok[OF ok24_bound[OF ok(1)] ok24_bound[OF ok(2)] t] ok by simp
  thus ?thesis using p t RIGHT_SAMPLE_LOW
    by (auto simp: process_ozy_byte_def p1_right_low_def Let_def samples_inv_def same_receivers_def
        split: if_splits)
next
  case MIC_SAMPLE_LOW
  show ?thesis using p inv MIC_SAMPLE_LOW
    by (auto simp: process_ozy_byte_def p1_mic_low_def Let_def samples_inv_def same_receivers_def
        sample_ok_def split: if_splits)
qed (use p inv ok24_hi ok24_or ok24_mid ok24_low in
    \<open>auto simp: process_ozy_byte_def Let_def samples_inv_def same_receivers_def\<close>)

lemma process_ozy_bytes_samples:
  "samples_inv s \<Longrightarrow> process_ozy_bytes bs (r, s) = ((r', s'), evs) \<Longrightarrow>
   samples_inv s' \<and> same_receivers r r' \<and> list_all (sample_ok r) evs"
proof (induction bs arbitrary: r s evs)
  case (Cons b bs)
  obtain r1 s1 e1 where 1: "process_ozy_byte b (r, s) = ((r1, s1), e1)" by (metis prod.collapse)
  obtain e2 where 2: "process_ozy_bytes bs (r1, s1) = ((r', s'), e2)" "evs = e1 @ e2"
    using Cons.prems(2) 1 by (auto split: prod.splits)
  note step = process_ozy_byte_samples[OF Cons.prems(1) 1]
  have "samples_inv s' \<and> same_receivers r1 r' \<and> list_all (sample_ok r1) e2"
    using Cons.IH[OF _ 2(1)] step by blast
  thus ?case using step 2(2) sample_ok_cong[of r r1] by (auto simp: same_receivers_def)
qed (simp add: same_receivers_def)

section \<open>Properties\<close>

text \<open>C1: A frame in the layout the radio uses is decoded exactly. Conditions: no
PureSignal transmission is on once the frame's control bytes are taken (its samples go to the
calibration instead), the count of receivers agrees with the receiver slots and is not zero, the
machine is synchronised and its microphone count lies below a positive divisor. Then three sync
bytes, five control bytes, a group of one I/Q pair per receiver (24 bits each) and a microphone
sample as often as 504 bytes allow, and padding free of sync bytes, give the events of the control
bytes, then every sample in order to its receiver, and one microphone sample in every
\<open>mic_sample_divisor\<close>; the machine is synchronised again.\<close>

theorem p1_frame_decoded:
  assumes "rx_wf r" "length ci = 5" "no_ps (fst (process_control_bytes ci r))"
    and "pr_state s = SYNC_0" "length (pr_control_in s) = 5"
      "0 \<le> pr_mic_samples s" "pr_mic_samples s < pr_mic_sample_divisor s"
    and "int (length gs) = (512 - 8) div (r_receivers r * 6 + 2)" "gs \<noteq> []"
      "\<forall>g \<in> set gs. group_ok r g"
    and "SYNC \<notin> set pad" "length (enc_frame ci gs pad) = 512"
  shows "\<exists>t. process_ozy_input_buffer (enc_frame ci gs pad) (r, s) =
      ((fst (process_control_bytes ci r), t), snd (process_control_bytes ci r) @ frame_events r s 0 gs)
    \<and> pr_state t = SYNC_0 \<and> length (pr_control_in t) = 5
    \<and> 0 \<le> pr_mic_samples t \<and> pr_mic_samples t < pr_mic_sample_divisor t"
  using process_frame[OF assms(1-11)] assms(1,12)
  by (simp add: process_ozy_input_buffer_def rx_wf_def)

definition p1_rx0 :: p1_rx where
  "p1_rx0 = \<lparr>pr_state = SYNC_0, pr_control_in = [0, 0, 0, 0, 0], pr_nreceiver = 0, pr_left_sample = 0,
     pr_right_sample = 0, pr_fbk_left = 0, pr_fbk_right = 0, pr_mic_sample = 0, pr_nsamples = 0,
     pr_iq_samples = 0, pr_mic_samples = 0, pr_mic_sample_divisor = 1, pr_ep4_sequence = 0,
     pr_ep6_sequence = 0, pr_last_time = 0\<rparr>"

lemma radio0_rx: "live_slots radio0 = [0]" "rx_wf radio0"
  by (simp_all add: rx_wf_def live_slots_def radio0_defs upt_rec numeral_eq_Suc)

theorem p1_frame_decoded_witness:
  "\<exists>t. process_ozy_input_buffer (enc_frame [0xF8, 0, 0, 0, 0] (replicate 63 ([(1, - 1)], 5)) [])
      (radio0, p1_rx0) =
      ((fst (process_control_bytes [0xF8, 0, 0, 0, 0] radio0), t),
       snd (process_control_bytes [0xF8, 0, 0, 0, 0] radio0)
         @ frame_events radio0 p1_rx0 0 (replicate 63 ([(1, - 1)], 5)))
    \<and> pr_state t = SYNC_0 \<and> length (pr_control_in t) = 5
    \<and> 0 \<le> pr_mic_samples t \<and> pr_mic_samples t < pr_mic_sample_divisor t"
proof -
  have ps: "no_ps (fst (process_control_bytes [0xF8, 0, 0, 0, 0] radio0))"
    using process_control_bytes_frame[of "[0xF8, 0, 0, 0, 0]" radio0]
    by (simp add: no_ps_def radio0_def transmitter0_def)
  have len: "length (enc_frame [0xF8, 0, 0, 0, 0] (replicate 63 ([(1, - 1)], 5)) []) = 512"
    by (simp add: enc_frame_def enc_group_def enc24_def enc16_def length_concat map_replicate sum_list_replicate)
  have ok: "group_ok radio0 ([(1, - 1)], 5)"
    by (simp add: group_ok_def radio0_rx in24_def in16_def)
  show ?thesis
    by (rule p1_frame_decoded)
      (use ps len ok radio0_rx in \<open>simp_all add: p1_rx0_def radio0_def\<close>)
qed

text \<open>C2: Whatever bytes arrive, in whatever state the machine is, every I/Q
sample goes to an existing receiver and lies within the range of 24 bits.\<close>

theorem p1_samples_safe:
  assumes "samples_inv s" "process_ozy_input_buffer buffer (r, s) = ((r', s'), evs)" "e \<in> set evs"
  shows "sample_ok r e \<and> samples_inv s'"
  using assms process_ozy_bytes_samples[of s "take 512 buffer" r r' s' evs]
  by (auto simp: process_ozy_input_buffer_def list_all_iff split: if_splits)

theorem p1_samples_safe_witness:
  "sample_ok radio0 (Iq_samples 0 (- 8388608 / 8388607) (1 / 8388607))"
proof -
  let ?s = "p1_rx0\<lparr>pr_state := LEFT_SAMPLE_HI, pr_nreceiver := 0\<rparr>"
  have z: "samples_inv ?s" by (simp add: samples_inv_def ok24_def in24_def p1_rx0_def)
  have f: "find_receiver radio0 0 = 0" using find_receiver_live[of radio0 0] radio0_rx by (simp add: rx_wf_def)
  obtain t where "process_ozy_input_buffer [0x80, 0, 0, 0, 0, 1] (radio0, ?s) =
      ((radio0, t), [Iq_samples 0 (- 8388608 / 8388607) (1 / 8388607)])"
    using f by (fastforce simp: process_ozy_input_buffer_def process_ozy_byte_def p1_right_low_def
        route_iq_def p1_rx0_def sample_double_def Let_def radio0_defs isTransmitting_def)
  from p1_samples_safe[OF z this] show ?thesis by simp
qed

text \<open>While looking for a frame the machine never goes back: three sync bytes
are accepted as the start of a frame however many other bytes lie between them.\<close>

theorem p1_sync_never_resets:
  assumes "pr_state s = SYNC_0" "SYNC \<notin> set xs" "SYNC \<notin> set ys" "SYNC \<notin> set zs"
  shows "process_ozy_bytes (xs @ SYNC # ys @ SYNC # zs @ [SYNC]) (r, s) =
    ((r, s\<lparr>pr_state := CONTROL_0\<rparr>), [])"
proof -
  have skip: "process_ozy_bytes (bs @ SYNC # cs) (r, u) =
      process_ozy_bytes cs (r, u\<lparr>pr_state := (if pr_state u = SYNC_0 then SYNC_1
        else if pr_state u = SYNC_1 then SYNC_2 else CONTROL_0)\<rparr>)"
    if "SYNC \<notin> set bs" "pr_state u \<in> {SYNC_0, SYNC_1, SYNC_2}" for bs cs u
    using that by (induction bs) (auto simp: process_ozy_byte_def Let_def split: prod.splits)
  show ?thesis using assms by (simp add: skip)
qed

theorem p1_sync_never_resets_witness:
  "process_ozy_bytes [1, 0x7F, 2, 3, 0x7F, 4, 0x7F] (radio0, p1_rx0) =
    ((radio0, p1_rx0\<lparr>pr_state := CONTROL_0\<rparr>), [])"
  using p1_sync_never_resets[of p1_rx0 "[1]" "[2, 3]" "[4]" radio0]
  by (simp add: p1_rx0_def SYNC_def)

end
