(* ===== verification/P1_Send.thy ===== *)
theory P1_Send
  imports P1_Receive
begin

text \<open>The sending half of protocol 1 (\<open>src/proto/protocol1.c\<close>):
\<open>ozy_send_buffer\<close> fills the five control bytes of a 512 byte buffer, every
other buffer with the configuration and the ones between with the next of ten or
eleven commands in turn; \<open>metis_write\<close> joins two buffers into one datagram of
1032 bytes; \<open>metis_restart\<close> and \<open>metis_start_stop\<close> start the radio.

Each command is a definition of its own. A command that reads through
\<open>transmitter->rx\<close> without asking whether it is null is \<open>None\<close> there.
The time of day (\<open>gettimeofday\<close>, in milliseconds) is an argument. Datagrams
sent are kept in the order they were sent.\<close>

section \<open>Constants\<close>

definition SYNC_BYTE :: byte where "SYNC_BYTE = 0x7F"
definition HL2_SYNC_MASK_PRIMARY :: byte where "HL2_SYNC_MASK_PRIMARY = 0x7D"
definition HL2_SYNC_MASK_SECONDARY :: byte where "HL2_SYNC_MASK_SECONDARY = 0x7E"
definition PENELOPE_MIC :: byte where "PENELOPE_MIC = 0x80"
definition CONFIG_BOTH :: byte where "CONFIG_BOTH = 0x60"
definition MERCURY_122_88MHZ_SOURCE :: byte where "MERCURY_122_88MHZ_SOURCE = 0x10"
definition LT2208_GAIN_ON :: byte where "LT2208_GAIN_ON = 0x04"
definition LT2208_DITHER_ON :: byte where "LT2208_DITHER_ON = 0x08"
definition LT2208_RANDOM_ON :: byte where "LT2208_RANDOM_ON = 0x10"
definition ALEX_ATTENUATION_10DB :: byte where "ALEX_ATTENUATION_10DB = 0x01"
definition ALEX_ATTENUATION_20DB :: byte where "ALEX_ATTENUATION_20DB = 0x02"
definition band6 :: int where "band6 = 12"
definition MANUAL :: int where "MANUAL = 1"

lemmas p1_consts = SYNC_BYTE_def HL2_SYNC_MASK_PRIMARY_def HL2_SYNC_MASK_SECONDARY_def
  PENELOPE_MIC_def CONFIG_BOTH_def MERCURY_122_88MHZ_SOURCE_def LT2208_GAIN_ON_def
  LT2208_DITHER_ON_def LT2208_RANDOM_ON_def ALEX_ATTENUATION_10DB_def
  ALEX_ATTENUATION_20DB_def band6_def MANUAL_def

section \<open>State\<close>

record p1_tx =
  ps_output_buffer :: "byte list"
  ps_output_buffer_index :: nat
  ps_tx_output_buffer_index :: nat
  ps_metis_buffer :: "byte list"
  ps_metis_offset :: nat
  ps_send_sequence :: int
  ps_command :: int
  ps_current_rx :: nat
  ps_sent :: "byte list list"
  ps_running :: bool

type_synonym ctl = "byte \<times> byte \<times> byte \<times> byte \<times> byte"

text \<open>A byte with a bit set when a condition holds: \<open>if(c) x |= m\<close>.\<close>

definition or_if :: "bool \<Rightarrow> byte \<Rightarrow> byte \<Rightarrow> byte" where
  "or_if c m x = (if c then x OR m else x)"

text \<open>An integer stored into four bytes, most significant first: the assignment
of \<open>f >> 24\<close>, \<open>f >> 16\<close>, \<open>f >> 8\<close> and \<open>f\<close> to bytes.\<close>

definition freq_bytes :: "int \<Rightarrow> byte \<times> byte \<times> byte \<times> byte" where
  "freq_bytes f = (word_of_int (f div 2 ^ 24), word_of_int (f div 2 ^ 16),
     word_of_int (f div 2 ^ 8), word_of_int f)"

section \<open>The configuration buffer\<close>

definition config_c1 :: "radio \<Rightarrow> byte" where
  "config_c1 r =
     (let speed = (if r_sample_rate r = 96000 then 0x01 else if r_sample_rate r = 192000 then 0x02
                   else if r_sample_rate r = 384000 then 0x03 else 0x00)
      in if d_device (r_discovered r) = DEVICE_METIS
         then or_if (r_atlas_clock_source_128mhz r) MERCURY_122_88MHZ_SOURCE
                (or_if (r_atlas_mic_source r) PENELOPE_MIC speed OR CONFIG_BOTH)
              OR push_bit 2 (r_atlas_clock_source_10mhz r AND 3)
         else speed)"

definition config_c2 :: "int \<Rightarrow> radio \<Rightarrow> byte" where
  "config_c2 now r =
     (let c = or_if (r_classE r) 0x01 0x00 in
      case tx_receiver r of None \<Rightarrow> c
      | Some rx \<Rightarrow>
          if isTransmitting r then
            (let band = band_get_band r (if rx_split rx \<noteq> SPLIT_OFF then rx_band_b rx else rx_band_a rx);
                 c1 = c OR push_bit 1 (bd_OCtx band)
             in if r_tune r \<and> r_OCmemory_tune_time r \<noteq> 0 \<and> r_tune_timeout r > now
                then c1 OR push_bit 1 (r_oc_tune r) else c1)
          else c OR push_bit 1 (bd_OCrx (band_get_band r (rx_band_a rx))))"

definition config_c3 :: "radio \<Rightarrow> byte" where
  "config_c3 r =
     (let a = r_adc r ! 0;
          random = (case r_hl2 r of Some h \<Rightarrow> \<not> psu_clk h | None \<Rightarrow> adc_random a);
          c = or_if (adc_att20 a) ALEX_ATTENUATION_20DB
               (or_if (adc_att10 a) ALEX_ATTENUATION_10DB
                 (or_if (adc_preamp a) LT2208_GAIN_ON
                   (or_if (adc_dither a) LT2208_DITHER_ON (or_if random LT2208_RANDOM_ON 0x00))))
      in if adc_antenna a = 3 then c OR 0xE0
         else if adc_antenna a = 4 then c OR 0xA0
         else if adc_antenna a = 5 then c OR 0xE0 else c)"

definition antenna_bits :: "int \<Rightarrow> byte" where
  "antenna_bits a = (if a = 1 then 0x01 else if a = 2 then 0x02 else 0x00)"

definition config_c4 :: "radio \<Rightarrow> byte" where
  "config_c4 r =
     (let ant = adc_antenna (r_adc r ! 0);
          c = or_if (r_diversity_mixers r > 0) 0x80 0x04 OR push_bit 3 (word_of_int (r_receivers r - 1));
          c1 = (if isTransmitting r then c OR antenna_bits (r_alex_tx_antenna r) else c)
      in if ant \<in> {0, 1, 2} then c1 OR antenna_bits ant
         else if ant \<in> {3, 4, 5} then c1 OR antenna_bits (r_alex_tx_antenna r)
         else c1)"

definition ozy_config :: "int \<Rightarrow> radio \<Rightarrow> ctl" where
  "ozy_config now r = (0x00, config_c1 r, config_c2 now r, config_c3 r, config_c4 r)"

section \<open>Commands 1 and 2: frequencies\<close>

definition cmd_tx_frequency :: "radio \<Rightarrow> ctl" where
  "cmd_tx_frequency r = (0x02, freq_bytes (transmitter_get_frequency r))"

definition rx_command_frequency :: "radio \<Rightarrow> receiver \<Rightarrow> int" where
  "rx_command_frequency r rx =
     (let f = rx_frequency_a rx - rx_lo_a rx + rx_error_a rx
              + radio_ppm_correction r (rx_frequency_a rx - rx_lo_a rx);
          f1 = (if rx_rit_enabled rx then f + rx_rit rx else f)
      in if rx_mode_a rx = CWU then f1 - r_cw_keyer_sidetone_frequency r
         else if rx_mode_a rx = CWL then f1 + r_cw_keyer_sidetone_frequency r else f1)"

definition cmd_rx_frequency :: "radio \<Rightarrow> nat \<Rightarrow> ctl" where
  "cmd_rx_frequency r current_rx =
     (let supported = d_supported_receivers (r_discovered r);
          chan = d_ps_tx_fdbk_chan (r_discovered r) in
      if current_rx < supported then
        (0x04 + of_nat current_rx * 2,
         (if isTransmitting r \<and> tx_puresignal (r_transmitter r)
             \<and> (int current_rx = chan \<or> int current_rx = chan - 1)
          then freq_bytes (transmitter_get_frequency r)
          else (let j = nth_live (take supported (r_receiver r)) (int current_rx) (- 1) 0;
                    rx = (if j < supported then r_receiver r ! j else None)
                in freq_bytes (case rx of Some x \<Rightarrow> rx_command_frequency r x | None \<Rightarrow> 0))))
      else (0, 0, 0, 0, 0))"

section \<open>Command 3: drive level and filters\<close>

text \<open>Conversion of a double to \<open>int\<close> cuts the fraction off.\<close>

definition c_trunc :: "real \<Rightarrow> int" where
  "c_trunc x = (if 0 \<le> x then \<lfloor>x\<rfloor> else \<lceil>x\<rceil>)"

text \<open>The drive level for a power in watts and a gain in dB. For no power the
logarithm is minus infinity and the level 0; for a negative power it is not a
number, which the \<open>min\<close> macro turns into full level.\<close>

definition pa_level :: "int \<Rightarrow> real \<Rightarrow> int" where
  "pa_level pwr gbb =
     (if pwr < 0 then 255 else if pwr = 0 then 0
      else let target_dbm = 10 * log 10 (real_of_int pwr * 1000) - gbb;
               target_volts = sqrt (10 powr (target_dbm * 0.1) * 0.05);
               volts = (if target_volts / 0.8 < 1 then target_volts / 0.8 else 1);
               actual_volts = volts * (1 / 0.98);
               clamped = (if actual_volts < 0 then 0 else if actual_volts > 1 then 1 else actual_volts)
           in c_trunc (clamped * 255))"

definition drive_level :: "radio \<Rightarrow> int" where
  "drive_level r =
     (let tx_mode = transmitter_get_mode r; tx = r_transmitter r in
      if isTransmitting r \<or> tx_mode = CWL \<or> tx_mode = CWU then
        (let gbb = (case tx_receiver r of None \<Rightarrow> 0
             | Some rx \<Rightarrow> bd_pa_calibration (band_get_band r
                 (if rx_split rx \<noteq> SPLIT_OFF then rx_band_b rx else rx_band_a rx)));
             pwr = (if r_tune r \<and> \<not> tx_tune_use_drive tx
                      then c_trunc (tx_drive tx / 100 * tx_tune_percent tx)
                      else c_trunc (tx_drive tx))
         in pa_level pwr gbb)
      else 0)"

definition hpf_bits :: "int \<Rightarrow> byte" where
  "hpf_bits h = (if h = 0 then 0x20 else if h = 1 then 0x10 else if h = 2 then 0x08
     else if h = 3 then 0x04 else if h = 4 then 0x01 else if h = 5 then 0x02 else 0)"

definition lpf_bits :: "int \<Rightarrow> byte" where
  "lpf_bits l = (if l = 0 then 0x08 else if l = 1 then 0x04 else if l = 2 then 0x02
     else if l = 3 then 0x01 else if l = 4 then 0x40 else if l = 5 then 0x20
     else if l = 6 then 0x10 else 0)"

definition cmd_drive_c2 :: "radio \<Rightarrow> receiver \<Rightarrow> byte" where
  "cmd_drive_c2 r rx =
     (let band = band_get_band r
            (if isTransmitting r \<and> rx_split rx \<noteq> SPLIT_OFF then rx_band_b rx else rx_band_a rx);
          c = or_if (r_mic_linein r) 0x02 (or_if (r_mic_boost r) 0x01 0x00);
          c1 = (if r_hl2 r \<noteq> None \<and> \<not> bd_disablePA band then c OR 0x2C
                else or_if (r_filter_board r = APOLLO) 0x2C c);
          c2 = or_if ((r_filter_board r = APOLLO \<or> d_device (r_discovered r) = DEVICE_HERMES_LITE2)
                      \<and> r_tune r) 0x10 c1
      in or_if (adc_filters (r_adc r ! 0) = MANUAL) 0x40 c2)"

definition cmd_drive_c3 :: "radio \<Rightarrow> receiver \<Rightarrow> byte" where
  "cmd_drive_c3 r rx =
     (let band = band_get_band r
            (if isTransmitting r \<and> rx_split rx \<noteq> SPLIT_OFF then rx_band_b rx else rx_band_a rx);
          a = r_adc r ! 0;
          c = or_if (rx_band_a rx = band6) 0x40 0x00;
          c1 = or_if (r_hl2 r = None \<and> bd_disablePA band) 0x80 c
      in if adc_filters a = MANUAL then c1 OR hpf_bits (adc_hpf a) OR lpf_bits (adc_lpf a) else c1)"

definition cmd_drive :: "radio \<Rightarrow> ctl option" where
  "cmd_drive r = (case tx_receiver r of None \<Rightarrow> None
     | Some rx \<Rightarrow> Some (0x12, word_of_int (drive_level r), cmd_drive_c2 r rx, cmd_drive_c3 r rx, 0x00))"

section \<open>Commands 4 to 10: front end, keyer, levels, antennas\<close>

definition hermes_class :: "radio \<Rightarrow> bool" where
  "hermes_class r \<longleftrightarrow> d_device (r_discovered r) \<in> {DEVICE_HERMES, DEVICE_ANGELIA, DEVICE_ORION, DEVICE_ORION2}"

definition cmd_attenuation_c4 :: "radio \<Rightarrow> byte" where
  "cmd_attenuation_c4 r =
     (let a = r_adc r ! 0 in
      if d_device (r_discovered r) = DEVICE_HERMES_LITE2
      then 0x40 OR (word_of_int (adc_attenuation a + 12) AND 0x3F)
      else if d_device (r_discovered r) = DEVICE_HERMES_LITE
      then (if \<not> adc_enable_step_attenuation a then 0x20 else 0x00)
      else if hermes_class r
      then or_if (adc_enable_step_attenuation a) 0x20 0x00 OR (word_of_int (adc_attenuation a) AND 0x1F)
      else 0x00)"

definition cmd_attenuation :: "radio \<Rightarrow> ctl" where
  "cmd_attenuation r =
     (let c1 = or_if (adc_preamp (r_adc r ! 1)) 0x02 (or_if (adc_preamp (r_adc r ! 0)) 0x01 0x00);
          c1' = or_if (r_mic_ptt_tip_bias_ring r) 0x10
                  (or_if (r_mic_bias_enabled r) 0x20 (or_if (\<not> r_mic_ptt_enabled r) 0x40 c1));
          c2 = or_if (isTransmitting r \<and> tx_puresignal (r_transmitter r)) 0x40 (r_linein_gain r)
      in (0x14, c1', c2, 0x00, cmd_attenuation_c4 r))"

text \<open>The third sync byte of command 4 tells the primary of several
synchronised Hermes-Lites.\<close>

definition attenuation_sync2 :: "radio \<Rightarrow> byte" where
  "attenuation_sync2 r =
     (if r_hl2 r \<noteq> None \<and> r_diversity_mixers r > 0 then HL2_SYNC_MASK_PRIMARY else SYNC_BYTE)"

definition cmd_keyer :: "radio \<Rightarrow> ctl" where
  "cmd_keyer r = (0x16, 0x00, or_if (r_cw_keys_reversed r) 0x40 0x00,
     r_cw_keyer_speed r OR push_bit 6 (r_cw_keyer_mode r),
     r_cw_keyer_weight r OR push_bit 7 (r_cw_keyer_spacing r))"

text \<open>\<open>adc_of r i k\<close>: the ADC of receiver \<open>i\<close> at bit \<open>k\<close>,
nothing for an empty slot.\<close>

definition adc_of :: "radio \<Rightarrow> nat \<Rightarrow> nat \<Rightarrow> byte" where
  "adc_of r i k = (case r_receiver r ! i of None \<Rightarrow> 0 | Some rx \<Rightarrow> push_bit k (word_of_int (rx_adc rx)))"

definition cmd_adc :: "radio \<Rightarrow> ctl" where
  "cmd_adc r = (0x1C, adc_of r 0 0 OR adc_of r 1 2 OR adc_of r 2 4 OR adc_of r 3 6,
     adc_of r 4 0 OR adc_of r 5 2 OR adc_of r 6 4,
     (case r_hl2 r of Some h \<Rightarrow> 0xC0 OR (word_of_int (lna_gain_tx h + 12) AND 0x3F)
      | None \<Rightarrow> tx_attenuation (r_transmitter r)), 0x00)"

definition cmd_cw :: "radio \<Rightarrow> ctl" where
  "cmd_cw r =
     (let tx_mode = transmitter_get_mode r;
          c1 = (if tx_mode \<noteq> CWU \<and> tx_mode \<noteq> CWL then 0x00
                else if r_tune r \<or> r_vox r \<or> \<not> r_cw_keyer_internal r then 0x00 else 0x01)
      in (0x1E, c1, r_cw_keyer_sidetone_volume r, r_cw_keyer_ptt_delay r, 0x00))"

definition cmd_hang :: "radio \<Rightarrow> ctl" where
  "cmd_hang r = (0x20, word_of_int (r_cw_keyer_hang_time r div 4), word_of_int (r_cw_keyer_hang_time r) AND 0x03,
     word_of_int (r_cw_keyer_sidetone_frequency r div 16),
     word_of_int (r_cw_keyer_sidetone_frequency r) AND 0x0F)"

definition cmd_eer :: "radio \<Rightarrow> ctl" where
  "cmd_eer r = (let tx = r_transmitter r in
     (0x22, word_of_int (tx_eer_pwm_min tx div 4), word_of_int (tx_eer_pwm_min tx) AND 0x03,
      word_of_int (tx_eer_pwm_max tx div 4), word_of_int (tx_eer_pwm_max tx) AND 0x03))"

definition cmd_alex :: "radio \<Rightarrow> ctl" where
  "cmd_alex r = (0x24, or_if (isTransmitting r) 0x80 0x00,
     (if r_alex_rx_antenna r = 5 then 0x02 else 0x00), 0x00, 0x00)"

section \<open>Command 11: Hermes-Lite I2C requests\<close>

definition cmd_hl2 :: "hermeslite2 \<Rightarrow> hermeslite2 \<times> byte \<times> ctl" where
  "cmd_hl2 hl2 =
     (case HL2i2cWriteQueued hl2 of (h, queued) \<Rightarrow>
        if queued then
          (let c0 = ucast (HL2i2cSendRqst h); c1 = ucast (HL2i2cReadWrite h);
               (h1, addr) = HL2i2cSendTargetAddr h; (h2, cmd) = HL2i2cSendCommand h1
           in (h2, SYNC_BYTE, c0, c1, ucast addr, ucast cmd, ucast (HL2i2cSendValue h2)))
        else if adc2_value_to_send h then
          (h\<lparr>adc2_value_to_send := False\<rparr>, HL2_SYNC_MASK_SECONDARY,
           0x14, 0x00, 0x00, 0x00, 0x40 OR (word_of_int (adc2_lna_gain h + 12) AND 0x3F))
        else (h, SYNC_BYTE, 0x2E, 0x00, 0x00, 0x06, word_of_int (hl2_tx_buffer_size h)))"

section \<open>A whole buffer\<close>

definition ozy_command :: "int \<Rightarrow> nat \<Rightarrow> radio \<Rightarrow> (radio \<times> byte \<times> ctl) option" where
  "ozy_command command current_rx r =
     (let plain = (\<lambda>c. Some (r, SYNC_BYTE, c)) in
      if command = 1 then plain (cmd_tx_frequency r)
      else if command = 2 then plain (cmd_rx_frequency r current_rx)
      else if command = 3 then map_option (\<lambda>c. (r, SYNC_BYTE, c)) (cmd_drive r)
      else if command = 4 then Some (r, attenuation_sync2 r, cmd_attenuation r)
      else if command = 5 then plain (cmd_keyer r)
      else if command = 6 then plain (cmd_adc r)
      else if command = 7 then plain (cmd_cw r)
      else if command = 8 then plain (cmd_hang r)
      else if command = 9 then plain (cmd_eer r)
      else if command = 10 then plain (cmd_alex r)
      else if command = 11 then
        (case r_hl2 r of None \<Rightarrow> plain (0, 0, 0, 0, 0)
         | Some h \<Rightarrow> (case cmd_hl2 h of (h', sync2, c) \<Rightarrow> Some (r\<lparr>r_hl2 := Some h'\<rparr>, sync2, c)))
      else plain (0, 0, 0, 0, 0))"

text \<open>Command 2 is repeated once per receiver the radio supports; the command
moves on only when the receiver counter is back at zero.\<close>

definition next_current_rx :: "radio \<Rightarrow> int \<Rightarrow> nat \<Rightarrow> nat" where
  "next_current_rx r command current_rx =
     (if command = 2 then
        (let n = (if current_rx < d_supported_receivers (r_discovered r) then current_rx + 1 else current_rx)
         in if n \<ge> d_supported_receivers (r_discovered r) then 0 else n)
      else current_rx)"

definition last_command :: "radio \<Rightarrow> int" where
  "last_command r = (if d_device (r_discovered r) = DEVICE_HERMES_LITE2 then 11 else 10)"

definition next_command :: "radio \<Rightarrow> int \<Rightarrow> nat \<Rightarrow> int" where
  "next_command r command current_rx' =
     (if current_rx' = 0 then (if command + 1 > last_command r then 1 else command + 1) else command)"

definition mox_bit :: "radio \<Rightarrow> byte" where
  "mox_bit r =
     (let tx_mode = transmitter_get_mode r in
      if (tx_mode = CWU \<or> tx_mode = CWL) \<and> r_cw_keyer_internal r
      then (if r_tune r then 0x01 else 0x00)
      else (if isTransmitting r then 0x01 else 0x00))"

section \<open>Datagrams\<close>

definition put_bytes :: "nat \<Rightarrow> byte list \<Rightarrow> byte list \<Rightarrow> byte list" where
  "put_bytes off bs buf = take off buf @ bs @ drop (off + length bs) buf"

definition metis_header :: "byte \<Rightarrow> int \<Rightarrow> byte list" where
  "metis_header ep sequence =
     (case freq_bytes sequence of (a, b, c, d) \<Rightarrow> [0xEF, 0xFE, 0x01, ep, a, b, c, d])"

definition metis_write :: "byte \<Rightarrow> byte list \<Rightarrow> p1_tx \<Rightarrow> p1_tx" where
  "metis_write ep buffer s =
     (let mb = put_bytes (ps_metis_offset s) (take 512 buffer) (ps_metis_buffer s);
          s1 = s\<lparr>ps_metis_buffer := mb\<rparr> in
      if ps_metis_offset s1 = 8 then s1\<lparr>ps_metis_offset := 520\<rparr>
      else (let seq = ps_send_sequence s1 + 1;
                mb1 = put_bytes 0 (metis_header ep seq) mb
            in s1\<lparr>ps_send_sequence := seq, ps_metis_buffer := mb1,
                  ps_sent := ps_sent s1 @ [take 1032 mb1], ps_metis_offset := 8\<rparr>))"

definition ozy_send_buffer :: "int \<Rightarrow> radio \<times> p1_tx \<Rightarrow> (radio \<times> p1_tx) option" where
  "ozy_send_buffer now rs = (case rs of (r, s) \<Rightarrow>
     case (if ps_metis_offset s = 8 then Some (r, SYNC_BYTE, ozy_config now r)
           else ozy_command (ps_command s) (ps_current_rx s) r) of
       None \<Rightarrow> None
     | Some (r1, sync2, c0, c1, c2, c3, c4) \<Rightarrow>
         (let s1 = (if ps_metis_offset s = 8 then s
                    else let rx' = next_current_rx r1 (ps_command s) (ps_current_rx s)
                         in s\<lparr>ps_current_rx := rx', ps_command := next_command r1 (ps_command s) rx'\<rparr>);
              buf = put_bytes 0 [SYNC_BYTE, SYNC_BYTE, sync2, c0 OR mox_bit r1, c1, c2, c3, c4]
                      (ps_output_buffer s1)
          in Some (r1, metis_write 0x02 buf (s1\<lparr>ps_output_buffer := buf\<rparr>))))"

section \<open>Audio and I/Q samples\<close>

text \<open>A 16 bit sample is stored high byte first.\<close>

definition hi_lo :: "int \<Rightarrow> byte list" where
  "hi_lo x = [word_of_int (x div 256), word_of_int x]"

definition protocol1_audio_samples :: "int \<Rightarrow> int \<Rightarrow> int \<Rightarrow> radio \<times> p1_tx \<Rightarrow> (radio \<times> p1_tx) option" where
  "protocol1_audio_samples now left right rs = (case rs of (r, s) \<Rightarrow>
     if isTransmitting r then Some (r, s)
     else (let i = ps_output_buffer_index s;
               s1 = s\<lparr>ps_output_buffer := put_bytes i (hi_lo left @ hi_lo right @ [0, 0, 0, 0]) (ps_output_buffer s),
                      ps_output_buffer_index := i + 8\<rparr>
           in if ps_output_buffer_index s1 \<ge> 512
              then map_option (\<lambda>(r2, s2). (r2, s2\<lparr>ps_output_buffer_index := 8\<rparr>)) (ozy_send_buffer now (r, s1))
              else Some (r, s1)))"

definition protocol1_iq_samples :: "int \<Rightarrow> int \<Rightarrow> int \<Rightarrow> radio \<times> p1_tx \<Rightarrow> (radio \<times> p1_tx) option" where
  "protocol1_iq_samples now isample qsample rs = (case rs of (r, s) \<Rightarrow>
     let i = ps_tx_output_buffer_index s;
         s1 = s\<lparr>ps_output_buffer := put_bytes i ([0, 0, 0, 0] @ hi_lo isample @ hi_lo qsample) (ps_output_buffer s),
                ps_tx_output_buffer_index := i + 8\<rparr>
     in if ps_tx_output_buffer_index s1 \<ge> 512
        then ozy_send_buffer now (r, s1\<lparr>ps_tx_output_buffer_index := 8\<rparr>)
        else Some (r, s1))"

definition protocol1_eer_iq_samples ::
  "int \<Rightarrow> int \<Rightarrow> int \<Rightarrow> int \<Rightarrow> int \<Rightarrow> radio \<times> p1_tx \<Rightarrow> (radio \<times> p1_tx) option" where
  "protocol1_eer_iq_samples now isample qsample lasample rasample rs = (case rs of (r, s) \<Rightarrow>
     if \<not> isTransmitting r then Some (r, s)
     else (let i = ps_output_buffer_index s;
               s1 = s\<lparr>ps_output_buffer := put_bytes i
                        (hi_lo lasample @ hi_lo rasample @ hi_lo isample @ hi_lo qsample) (ps_output_buffer s),
                      ps_output_buffer_index := i + 8\<rparr>
           in if ps_output_buffer_index s1 \<ge> 512
              then map_option (\<lambda>(r2, s2). (r2, s2\<lparr>ps_output_buffer_index := 8\<rparr>)) (ozy_send_buffer now (r, s1))
              else Some (r, s1)))"

section \<open>Start and stop\<close>

text \<open>A start or stop command also sets the byte machine of the receiving half
back to its first state.\<close>

definition metis_start_stop :: "byte \<Rightarrow> p1_rx \<times> p1_tx \<Rightarrow> p1_rx \<times> p1_tx" where
  "metis_start_stop command xs = (case xs of (x, s) \<Rightarrow>
     (x\<lparr>pr_state := SYNC_0\<rparr>,
      s\<lparr>ps_sent := ps_sent s @ [[0xEF, 0xFE, 0x04, command] @ replicate 60 0x00]\<rparr>))"

text \<open>\<open>do ozy_send_buffer(); while (command != 1)\<close>, with a bound on the
rounds: \<open>None\<close> when the bound is too small or a buffer cannot be made.\<close>

primrec send_until_command_1 :: "nat \<Rightarrow> int \<Rightarrow> radio \<times> p1_tx \<Rightarrow> (radio \<times> p1_tx) option" where
  "send_until_command_1 0 now rs = None"
| "send_until_command_1 (Suc fuel) now rs =
     (case ozy_send_buffer now rs of None \<Rightarrow> None
      | Some rs1 \<Rightarrow> if ps_command (snd rs1) \<noteq> 1 then send_until_command_1 fuel now rs1 else Some rs1)"

definition metis_restart :: "nat \<Rightarrow> int \<Rightarrow> radio \<times> p1_rx \<times> p1_tx \<Rightarrow> (radio \<times> p1_rx \<times> p1_tx) option" where
  "metis_restart fuel now rxs = (case rxs of (r, x, s) \<Rightarrow>
     let s1 = s\<lparr>ps_metis_offset := 8, ps_current_rx := 0, ps_command := 1\<rparr> in
     case send_until_command_1 fuel now (r, s1) of None \<Rightarrow> None
     | Some rs1 \<Rightarrow> (case send_until_command_1 fuel now rs1 of None \<Rightarrow> None
        | Some (r2, s2) \<Rightarrow> Some (r2, metis_start_stop (if r_wideband r2 \<noteq> None then 3 else 1) (x, s2))))"

definition protocol1_stop :: "p1_rx \<times> p1_tx \<Rightarrow> p1_rx \<times> p1_tx" where
  "protocol1_stop xs = (case metis_start_stop 0 xs of (x, s) \<Rightarrow> (x, s\<lparr>ps_running := False\<rparr>))"

text \<open>The receive thread is taken down and started again (its first statement
sets \<open>running\<close>); joining it and the socket calls are not modelled.\<close>

definition protocol1_run :: "nat \<Rightarrow> int \<Rightarrow> radio \<times> p1_rx \<times> p1_tx \<Rightarrow> (radio \<times> p1_rx \<times> p1_tx) option" where
  "protocol1_run fuel now rxs = (case rxs of (r, x, s) \<Rightarrow>
     metis_restart fuel now
       (r, x, s\<lparr>ps_running := True, ps_output_buffer := take 8 (ps_output_buffer s) @ replicate 504 0\<rparr>))"

definition protocol1_is_running :: "p1_tx \<Rightarrow> bool" where
  "protocol1_is_running s = ps_running s"

section \<open>How the commands go round\<close>

definition tx_wf :: "p1_tx \<Rightarrow> bool" where
  "tx_wf s \<longleftrightarrow> length (ps_output_buffer s) = 512 \<and> length (ps_metis_buffer s) = 1032
     \<and> (ps_metis_offset s = 8 \<or> ps_metis_offset s = 520)"

lemma length_put_bytes [simp]:
  "off + length bs \<le> length buf \<Longrightarrow> length (put_bytes off bs buf) = length buf"
  by (simp add: put_bytes_def)

lemma take_put_bytes0: "length bs \<le> length buf \<Longrightarrow> take (length bs) (put_bytes 0 bs buf) = bs"
  by (simp add: put_bytes_def)

lemma length_metis_header [simp]: "length (metis_header ep n) = 8"
  by (simp add: metis_header_def freq_bytes_def)

lemma metis_write_wf:
  "tx_wf s \<Longrightarrow> length buffer = 512 \<Longrightarrow> tx_wf (metis_write ep buffer s)
     \<and> ps_command (metis_write ep buffer s) = ps_command s
     \<and> ps_current_rx (metis_write ep buffer s) = ps_current_rx s
     \<and> ps_metis_offset (metis_write ep buffer s) = (if ps_metis_offset s = 8 then 520 else 8)
     \<and> length (ps_sent (metis_write ep buffer s)) =
         length (ps_sent s) + (if ps_metis_offset s = 8 then 0 else 1)"
  by (auto simp: tx_wf_def metis_write_def Let_def)

end
