(* ===== verification/P1_Commands.thy ===== *)
theory P1_Commands
  imports P1_Send
begin

text \<open>What the sender of \<open>P1_Send\<close> guarantees: the round of commands and its
end, the layout of a datagram, the transmit bit, levels and frequencies, and the bounds of
the sample buffer.\<close>

section \<open>Buffers\<close>

lemma tx_receiver_hl2 [simp]: "tx_receiver (r\<lparr>r_hl2 := h\<rparr>) = tx_receiver r"
  by (simp add: tx_receiver_def split: option.splits)

lemma mode_hl2 [simp]: "transmitter_get_mode (r\<lparr>r_hl2 := h\<rparr>) = transmitter_get_mode r"
  by (simp add: transmitter_get_mode_def)

lemma transmitting_hl2 [simp]: "isTransmitting (r\<lparr>r_hl2 := h\<rparr>) = isTransmitting r"
  by (simp add: isTransmitting_def)

text \<open>A command changes nothing of the radio but the Hermes-Lite's queue.\<close>

lemma ozy_command_radio:
  assumes "ozy_command c k r = Some (r', sync2, ctl)"
  shows "\<exists>h. r' = r\<lparr>r_hl2 := h\<rparr>"
proof (cases "c = 11")
  case True
  show ?thesis
  proof (cases "r_hl2 r")
    case None
    hence "r' = r\<lparr>r_hl2 := r_hl2 r\<rparr>" using assms True by (simp add: ozy_command_def Let_def)
    thus ?thesis by blast
  next
    case (Some h)
    thus ?thesis using assms True by (auto simp: ozy_command_def Let_def split: prod.splits)
  qed
next
  case False
  hence "r' = r"
    using assms unfolding ozy_command_def Let_def by (simp split: if_split_asm) (cases "cmd_drive r"; auto)
  hence "r' = r\<lparr>r_hl2 := r_hl2 r\<rparr>" by simp
  thus ?thesis by blast
qed

lemma next_hl2 [simp]:
  "next_current_rx (r\<lparr>r_hl2 := h\<rparr>) = next_current_rx r" "next_command (r\<lparr>r_hl2 := h\<rparr>) = next_command r"
  by (auto simp: fun_eq_iff next_current_rx_def next_command_def last_command_def)

lemma ozy_command_total:
  assumes "tx_receiver r \<noteq> None"
  shows "ozy_command c k r \<noteq> None"
  using assms by (cases "r_hl2 r"; cases "tx_receiver r")
    (simp_all add: ozy_command_def cmd_drive_def Let_def split: prod.splits del: not_None_eq)

definition sent_buffer :: "radio \<Rightarrow> byte \<Rightarrow> ctl \<Rightarrow> byte list \<Rightarrow> byte list" where
  "sent_buffer r sync2 ctl buf = (case ctl of (c0, c1, c2, c3, c4) \<Rightarrow>
     [SYNC_BYTE, SYNC_BYTE, sync2, c0 OR mox_bit r, c1, c2, c3, c4] @ drop 8 buf)"

lemma put_bytes8: "put_bytes 0 [a, b, c, d, e, f, g, h] buf = [a, b, c, d, e, f, g, h] @ drop 8 buf"
  by (simp add: put_bytes_def eval_nat_numeral)

lemma ozy_send_config:
  assumes "ps_metis_offset s = 8"
  shows "ozy_send_buffer now (r, s) =
    (let buf = sent_buffer r SYNC_BYTE (ozy_config now r) (ps_output_buffer s)
     in Some (r, metis_write 0x02 buf (s\<lparr>ps_output_buffer := buf\<rparr>)))"
  using assms by (simp add: ozy_send_buffer_def ozy_config_def sent_buffer_def put_bytes8 Let_def)

lemma ozy_send_command:
  assumes "ps_metis_offset s \<noteq> 8" "ozy_command (ps_command s) (ps_current_rx s) r = Some (r1, sync2, ctl)"
  shows "ozy_send_buffer now (r, s) =
    (let buf = sent_buffer r1 sync2 ctl (ps_output_buffer s);
         k = next_current_rx r (ps_command s) (ps_current_rx s)
     in Some (r1, metis_write 0x02 buf (s\<lparr>ps_current_rx := k,
          ps_command := next_command r (ps_command s) k, ps_output_buffer := buf\<rparr>)))"
proof -
  obtain h where h: "r1 = r\<lparr>r_hl2 := h\<rparr>" using ozy_command_radio[OF assms(2)] by blast
  obtain c0 c1 c2 c3 c4 where ctl: "ctl = (c0, c1, c2, c3, c4)" by (metis prod.collapse)
  show ?thesis using assms
    by (simp add: ozy_send_buffer_def sent_buffer_def put_bytes8 Let_def ctl h)
qed

lemma length_sent_buffer [simp]: "length buf = 512 \<Longrightarrow> length (sent_buffer r sync2 ctl buf) = 512"
  by (simp add: sent_buffer_def split: prod.splits)

section \<open>One round of the commands\<close>

lemma ozy_send_config_step:
  assumes "tx_wf s" "ps_metis_offset s = 8"
  shows "\<exists>s'. ozy_send_buffer now (r, s) = Some (r, s') \<and> tx_wf s' \<and> ps_metis_offset s' = 520
    \<and> ps_command s' = ps_command s \<and> ps_current_rx s' = ps_current_rx s
    \<and> length (ps_sent s') = length (ps_sent s)"
proof -
  let ?b = "sent_buffer r SYNC_BYTE (ozy_config now r) (ps_output_buffer s)"
  have l: "length ?b = 512" using assms(1) by (simp add: tx_wf_def)
  hence "tx_wf (s\<lparr>ps_output_buffer := ?b\<rparr>)" using assms(1) by (simp add: tx_wf_def)
  from metis_write_wf[OF this l, of "0x02"] assms(2) ozy_send_config[OF assms(2), of now r]
  show ?thesis by (auto simp: Let_def)
qed

lemma ozy_send_command_step:
  assumes "tx_wf s" "ps_metis_offset s = 520" "tx_receiver r \<noteq> None"
  shows "\<exists>h s'. ozy_send_buffer now (r, s) = Some (r\<lparr>r_hl2 := h\<rparr>, s') \<and> tx_wf s' \<and> ps_metis_offset s' = 8
    \<and> ps_current_rx s' = next_current_rx r (ps_command s) (ps_current_rx s)
    \<and> ps_command s' = next_command r (ps_command s) (ps_current_rx s')
    \<and> length (ps_sent s') = length (ps_sent s) + 1"
proof -
  obtain r1 sync2 ctl where c: "ozy_command (ps_command s) (ps_current_rx s) r = Some (r1, sync2, ctl)"
    using ozy_command_total[OF assms(3), of "ps_command s" "ps_current_rx s"] by auto
  obtain h where h: "r1 = r\<lparr>r_hl2 := h\<rparr>" using ozy_command_radio[OF c] by blast
  let ?b = "sent_buffer r1 sync2 ctl (ps_output_buffer s)"
  let ?k = "next_current_rx r (ps_command s) (ps_current_rx s)"
  let ?s = "s\<lparr>ps_current_rx := ?k, ps_command := next_command r (ps_command s) ?k, ps_output_buffer := ?b\<rparr>"
  have l: "length ?b = 512" using assms(1) by (simp add: tx_wf_def)
  hence "tx_wf ?s" using assms(1) by (simp add: tx_wf_def)
  from metis_write_wf[OF this l, of "0x02"] assms(2) ozy_send_command[OF _ c, of now] h
  show ?thesis by (auto simp: Let_def)
qed

text \<open>The command buffers left until command 1 comes round again.\<close>

definition rounds_left :: "radio \<Rightarrow> int \<Rightarrow> nat \<Rightarrow> nat" where
  "rounds_left r c k =
     (let n = nat (last_command r); supported = max 1 (d_supported_receivers (r_discovered r)) in
      if c = 1 then supported + n - 1
      else if c = 2 then (supported - k) + (n - 2) else n + 1 - nat c)"

definition round_pos :: "radio \<Rightarrow> int \<Rightarrow> nat \<Rightarrow> bool" where
  "round_pos r c k \<longleftrightarrow> 1 \<le> c \<and> c \<le> last_command r
     \<and> (if c = 2 then k < max 1 (d_supported_receivers (r_discovered r)) else k = 0)"

lemma round_step:
  assumes "round_pos r c k"
  defines "k' \<equiv> next_current_rx r c k"
  defines "c' \<equiv> next_command r c k'"
  shows "round_pos r c' k' \<and>
    (if c' = 1 then rounds_left r c k = 1 \<and> k' = 0 else Suc (rounds_left r c' k') = rounds_left r c k)"
proof -
  have l: "last_command r = 10 \<or> last_command r = 11" by (simp add: last_command_def)
  consider "c = 1" | "c = 2" | "2 < c" using assms(1) unfolding round_pos_def by linarith
  thus ?thesis
  proof cases
    case 1
    thus ?thesis using l assms(1)
      by (auto simp: k'_def c'_def round_pos_def rounds_left_def next_current_rx_def next_command_def Let_def)
  next
    case 2
    thus ?thesis using l assms(1)
      by (auto simp: k'_def c'_def round_pos_def rounds_left_def next_current_rx_def next_command_def
          Let_def max_def split: if_splits)
  next
    case 3
    thus ?thesis using l assms(1)
      by (auto simp: k'_def c'_def round_pos_def rounds_left_def next_current_rx_def next_command_def Let_def)
  qed
qed

lemma rounds_left_hl2 [simp]: "rounds_left (r\<lparr>r_hl2 := h\<rparr>) = rounds_left r"
  "round_pos (r\<lparr>r_hl2 := h\<rparr>) = round_pos r"
  by (auto simp: rounds_left_def round_pos_def last_command_def fun_eq_iff)

text \<open>Two buffers make one datagram: from an even start, one buffer and the
next together append exactly one datagram, made of the header with the next sequence
number, the configuration with the samples of the first and the command with the
samples of the second.\<close>

theorem two_buffers_one_datagram:
  assumes "tx_wf s" "ps_metis_offset s = 8"
    and "ozy_send_buffer now (r, s) = Some (r1, s1)" "ozy_send_buffer now (r1, s1) = Some (r2, s2)"
    and "ozy_command (ps_command s) (ps_current_rx s) r = Some (r2, sync2, ctl)"
  shows "ps_metis_offset s2 = 8 \<and> ps_send_sequence s2 = ps_send_sequence s + 1
    \<and> ps_sent s2 = ps_sent s @ [metis_header 0x02 (ps_send_sequence s + 1)
         @ sent_buffer r SYNC_BYTE (ozy_config now r) (ps_output_buffer s)
         @ sent_buffer r2 sync2 ctl (ps_output_buffer s)]"
proof -
  let ?b1 = "sent_buffer r SYNC_BYTE (ozy_config now r) (ps_output_buffer s)"
  let ?b2 = "sent_buffer r2 sync2 ctl (ps_output_buffer s)"
  have len: "length ?b1 = 512" "length ?b2 = 512" "length (ps_metis_buffer s) = 1032"
    using assms(1) by (auto simp: tx_wf_def)
  have d: "drop 8 ?b1 = drop 8 (ps_output_buffer s)"
    by (simp add: sent_buffer_def eval_nat_numeral split: prod.splits)
  have b2: "sent_buffer r2 sync2 ctl ?b1 = ?b2" using d by (simp add: sent_buffer_def)
  have r1: "r1 = r" and s1: "s1 = s\<lparr>ps_output_buffer := ?b1,
      ps_metis_buffer := put_bytes 8 ?b1 (ps_metis_buffer s), ps_metis_offset := 520\<rparr>"
    using assms(3) ozy_send_config[OF assms(2), of now r] assms(2) len
    by (auto simp: Let_def metis_write_def)
  have c: "ps_metis_offset s1 \<noteq> 8" "ozy_command (ps_command s1) (ps_current_rx s1) r1 = Some (r2, sync2, ctl)"
    using assms(5) by (simp_all add: s1 r1)
  have w: "put_bytes 0 (metis_header 2 n) (put_bytes 520 ?b2 (put_bytes 8 ?b1 (ps_metis_buffer s)))
      = metis_header 2 n @ ?b1 @ ?b2" for n
    using len by (simp add: put_bytes_def)
  show ?thesis
    using assms(4) ozy_send_command[OF c, of now] len w
    by (auto simp: s1 b2 Let_def metis_write_def)
qed

text \<open>The commands of one round, in order: the transmit frequency, the receive frequency of
each receiver the radio supports, then every other command once, the last of them for a Hermes-Lite
2 only.\<close>

definition command_round :: "radio \<Rightarrow> (int \<times> nat) list" where
  "command_round r = (1, 0) # map (\<lambda>k. (2, k)) [0..<max 1 (d_supported_receivers (r_discovered r))]
     @ map (\<lambda>c. (c, 0)) [3..last_command r]"

text \<open>The datagram of one command: the configuration, then the command, each in front of the
samples that are in the buffer.\<close>

definition command_datagram :: "int \<Rightarrow> radio \<Rightarrow> byte list \<Rightarrow> int \<Rightarrow> int \<times> nat \<Rightarrow> byte list" where
  "command_datagram now r buf seq ck =
     metis_header 0x02 seq @ sent_buffer r SYNC_BYTE (ozy_config now r) buf @
     (case ozy_command (fst ck) (snd ck) r of None \<Rightarrow> [] | Some (r1, sync2, ctl) \<Rightarrow> sent_buffer r1 sync2 ctl buf)"

primrec command_datagrams :: "int \<Rightarrow> radio \<Rightarrow> byte list \<Rightarrow> int \<Rightarrow> (int \<times> nat) list \<Rightarrow> byte list list" where
  "command_datagrams now r buf seq [] = []"
| "command_datagrams now r buf seq (ck # cks) =
     command_datagram now r buf (seq + 1) ck # command_datagrams now r buf (seq + 1) cks"

text \<open>What is left of the round at a position.\<close>

definition round_from :: "radio \<Rightarrow> int \<Rightarrow> nat \<Rightarrow> (int \<times> nat) list" where
  "round_from r c k = (if c = 1 then [(1, 0)] else []) @
     (if c \<le> 2 then map (\<lambda>k. (2, k)) [k..<max 1 (d_supported_receivers (r_discovered r))] else []) @
     map (\<lambda>c. (c, 0)) [max 3 c..last_command r]"

lemma round_from_step:
  assumes "round_pos r c k"
  defines "k' \<equiv> next_current_rx r c k"
  defines "c' \<equiv> next_command r c k'"
  shows "round_from r c k = (c, k) # (if c' = 1 then [] else round_from r c' k')"
proof -
  have l: "last_command r = 10 \<or> last_command r = 11" by (simp add: last_command_def)
  consider "c = 1" | "c = 2" | "2 < c" using assms(1) unfolding round_pos_def by linarith
  thus ?thesis
  proof cases
    case 1
    thus ?thesis using l assms(1)
      by (auto simp: k'_def c'_def round_pos_def round_from_def next_current_rx_def next_command_def)
  next
    case 2
    hence "k < max 1 (d_supported_receivers (r_discovered r))" using assms(1) by (simp add: round_pos_def)
    thus ?thesis using 2 l
      by (auto simp: k'_def c'_def round_from_def next_current_rx_def next_command_def
          upt_rec[of k] max_def split: if_splits)
  next
    case 3
    hence "c \<le> last_command r" "k = 0" using assms(1) by (auto simp: round_pos_def)
    thus ?thesis using 3 l upto_rec1[of c "last_command r"]
      by (auto simp: k'_def c'_def round_from_def next_current_rx_def next_command_def max_def)
  qed
qed

lemma ozy_command_same_radio: "ozy_command c k r = Some (r1, sync2, ctl) \<Longrightarrow> c \<noteq> 11 \<Longrightarrow> r1 = r"
  unfolding ozy_command_def Let_def by (simp split: if_split_asm) (cases "cmd_drive r"; auto)

lemma sent_buffer_drop: "drop 8 b = drop 8 b' \<Longrightarrow> sent_buffer r sync2 ctl b = sent_buffer r sync2 ctl b'"
  by (simp add: sent_buffer_def)

lemma command_datagrams_drop: "drop 8 b = drop 8 b' \<Longrightarrow> command_datagrams now r b n cks = command_datagrams now r b' n cks"
  by (induction cks arbitrary: n) (simp_all add: command_datagram_def sent_buffer_drop[of b b'] split: option.split)

lemma metis_write_buffer: "ps_output_buffer (metis_write ep b s) = ps_output_buffer s"
  by (simp add: metis_write_def Let_def)

lemma drop_sent_buffer: "drop 8 (sent_buffer r sync2 ctl buf) = drop 8 buf"
  by (simp add: sent_buffer_def eval_nat_numeral split: prod.splits)

text \<open>From an even start, a configuration buffer (\<open>s1\<close>) and the command buffer after it.\<close>

lemma command_pair:
  assumes "tx_wf s" "ps_metis_offset s = 8" "tx_receiver r \<noteq> None"
    and "ozy_send_buffer now (r, s) = Some (r, s1)"
  shows "\<exists>h s2. ozy_send_buffer now (r, s1) = Some (r\<lparr>r_hl2 := h\<rparr>, s2) \<and> tx_wf s2 \<and> ps_metis_offset s2 = 8 \<and>
    ps_current_rx s2 = next_current_rx r (ps_command s) (ps_current_rx s) \<and>
    ps_command s2 = next_command r (ps_command s) (ps_current_rx s2) \<and>
    ps_send_sequence s2 = ps_send_sequence s + 1 \<and> drop 8 (ps_output_buffer s2) = drop 8 (ps_output_buffer s) \<and>
    ps_sent s2 = ps_sent s @ [command_datagram now r (ps_output_buffer s) (ps_send_sequence s + 1)
       (ps_command s, ps_current_rx s)] \<and> (ps_command s \<noteq> 11 \<longrightarrow> r\<lparr>r_hl2 := h\<rparr> = r)"
proof -
  obtain t where t: "ozy_send_buffer now (r, s) = Some (r, t)" "tx_wf t" "ps_metis_offset t = 520"
    "ps_command t = ps_command s" "ps_current_rx t = ps_current_rx s"
    using ozy_send_config_step[OF assms(1,2)] by blast
  hence s1: "t = s1" using assms(4) by simp
  obtain r2 sync2 ctl where c: "ozy_command (ps_command s) (ps_current_rx s) r = Some (r2, sync2, ctl)"
    using ozy_command_total[OF assms(3), of "ps_command s" "ps_current_rx s"] by auto
  obtain h where h: "r2 = r\<lparr>r_hl2 := h\<rparr>" using ozy_command_radio[OF c] by blast
  have d1: "drop 8 (ps_output_buffer s1) = drop 8 (ps_output_buffer s)"
    using assms(4) ozy_send_config[OF assms(2), of now r]
    by (auto simp: Let_def metis_write_buffer drop_sent_buffer)
  have c1: "ps_metis_offset s1 \<noteq> 8" "ozy_command (ps_command s1) (ps_current_rx s1) r = Some (r2, sync2, ctl)"
    using t c s1 by auto
  obtain g s2 where 2: "ozy_send_buffer now (r, s1) = Some (r\<lparr>r_hl2 := g\<rparr>, s2)" "tx_wf s2" "ps_metis_offset s2 = 8"
    "ps_current_rx s2 = next_current_rx r (ps_command s) (ps_current_rx s)"
    "ps_command s2 = next_command r (ps_command s) (ps_current_rx s2)"
    using ozy_send_command_step[OF t(2,3) assms(3), of now] t(4,5) s1 by auto
  have g: "r\<lparr>r_hl2 := g\<rparr> = r2" using 2(1) ozy_send_command[OF c1, of now] by (auto simp: Let_def)
  have d2: "drop 8 (ps_output_buffer s2) = drop 8 (ps_output_buffer s1)"
    using 2(1) ozy_send_command[OF c1, of now] by (auto simp: Let_def metis_write_buffer drop_sent_buffer)
  have "ps_send_sequence s2 = ps_send_sequence s + 1 \<and>
    ps_sent s2 = ps_sent s @ [command_datagram now r (ps_output_buffer s) (ps_send_sequence s + 1) (ps_command s, ps_current_rx s)]"
    using two_buffers_one_datagram[OF assms(1,2,4) 2(1)[unfolded g] c] by (simp add: command_datagram_def c)
  thus ?thesis using 2 d1 d2 g ozy_command_same_radio[OF c] by (intro exI[of _ g] exI[of _ s2]) simp
qed

lemma send_round:
  "\<lbrakk>tx_wf s; ps_metis_offset s = 8; tx_receiver r \<noteq> None; round_pos r (ps_command s) (ps_current_rx s);
     ozy_send_buffer now (r, s) = Some (r, s1);
     2 * rounds_left r (ps_command s) (ps_current_rx s) \<le> fuel + 1\<rbrakk> \<Longrightarrow>
   \<exists>h s'. send_until_command_1 fuel now (r, s1) = Some (r\<lparr>r_hl2 := h\<rparr>, s') \<and>
     ps_metis_offset s' = 8 \<and> ps_command s' = 1 \<and>
     ps_sent s' = ps_sent s @ command_datagrams now r (ps_output_buffer s) (ps_send_sequence s)
       (round_from r (ps_command s) (ps_current_rx s))"
proof (induction "rounds_left r (ps_command s) (ps_current_rx s)" arbitrary: s s1 fuel rule: less_induct)
  case less
  let ?n = "rounds_left r (ps_command s) (ps_current_rx s)" and ?ck = "(ps_command s, ps_current_rx s)"
  obtain h s2 where 2: "ozy_send_buffer now (r, s1) = Some (r\<lparr>r_hl2 := h\<rparr>, s2)" "tx_wf s2" "ps_metis_offset s2 = 8"
    "ps_current_rx s2 = next_current_rx r (ps_command s) (ps_current_rx s)"
    "ps_command s2 = next_command r (ps_command s) (ps_current_rx s2)"
    "ps_send_sequence s2 = ps_send_sequence s + 1" "drop 8 (ps_output_buffer s2) = drop 8 (ps_output_buffer s)"
    "ps_sent s2 = ps_sent s @ [command_datagram now r (ps_output_buffer s) (ps_send_sequence s + 1) ?ck]"
    "ps_command s \<noteq> 11 \<longrightarrow> r\<lparr>r_hl2 := h\<rparr> = r"
    using command_pair[OF less.prems(1-3,5)] by blast
  have st: "round_pos r (ps_command s2) (ps_current_rx s2)"
    "if ps_command s2 = 1 then ?n = 1 else Suc (rounds_left r (ps_command s2) (ps_current_rx s2)) = ?n"
    using round_step[OF less.prems(4)] 2(4,5) by (auto split: if_splits)
  have rf: "round_from r (ps_command s) (ps_current_rx s) =
      ?ck # (if ps_command s2 = 1 then [] else round_from r (ps_command s2) (ps_current_rx s2))"
    using round_from_step[OF less.prems(4)] 2(4,5) by simp
  have "?n \<noteq> 0" using st(2) by (auto split: if_splits)
  then obtain f1 where f1: "fuel = Suc f1" using less.prems(6) by (cases fuel) auto
  show ?case
  proof (cases "ps_command s2 = 1")
    case True
    thus ?thesis using 2 f1 rf by auto
  next
    case False
    have n: "Suc (rounds_left r (ps_command s2) (ps_current_rx s2)) = ?n" using st(2) False by simp
    have "ps_command s \<noteq> 11"
      using False less.prems(4) unfolding 2(5)
      by (auto simp: next_command_def last_command_def round_pos_def 2(4) next_current_rx_def split: if_splits)
    hence r: "r\<lparr>r_hl2 := h\<rparr> = r" using 2(9) by simp
    obtain s3 where 3: "ozy_send_buffer now (r, s2) = Some (r, s3)" "ps_command s3 = ps_command s2"
      using ozy_send_config_step[OF 2(2,3)] by blast
    have "rounds_left r (ps_command s2) (ps_current_rx s2) \<noteq> 0"
      using st(1) False unfolding round_pos_def rounds_left_def Let_def
      by (auto simp: last_command_def max_def split: if_splits)
    then obtain f2 where f2: "f1 = Suc f2" using less.prems(6) f1 n by (cases f1) auto
    have "\<exists>h s'. send_until_command_1 f2 now (r, s3) = Some (r\<lparr>r_hl2 := h\<rparr>, s') \<and>
       ps_metis_offset s' = 8 \<and> ps_command s' = 1 \<and>
       ps_sent s' = ps_sent s2 @ command_datagrams now r (ps_output_buffer s2) (ps_send_sequence s2)
         (round_from r (ps_command s2) (ps_current_rx s2))"
      using less.hyps[OF _ 2(2,3) less.prems(3) st(1) 3(1), of f2] less.prems(6) n f1 f2 by simp
    thus ?thesis using 2(1,6,8) 3 f1 f2 False rf
      by (auto simp: r command_datagrams_drop[OF 2(7)])
  qed
qed

lemma metis_restart_sends:
  assumes "tx_wf s" "tx_receiver r \<noteq> None"
    "2 * (max 1 (d_supported_receivers (r_discovered r)) + nat (last_command r)) \<le> fuel + 3"
  shows "\<exists>r' x' s'. metis_restart fuel now (r, x, s) = Some (r', x', s')
    \<and> pr_state x' = SYNC_0 \<and> ps_command s' = 1 \<and> ps_metis_offset s' = 8
    \<and> ps_sent s' = ps_sent s @
        command_datagrams now r (ps_output_buffer s) (ps_send_sequence s) (command_round r) @
        [[0xEF, 0xFE, 0x04, if r_wideband r \<noteq> None then 3 else 1] @ replicate 60 0]"
proof -
  let ?s = "s\<lparr>ps_metis_offset := 8, ps_current_rx := 0, ps_command := 1\<rparr>"
  have w: "tx_wf ?s" "ps_metis_offset ?s = 8" using assms(1) by (simp_all add: tx_wf_def)
  have l: "10 \<le> last_command r" by (simp add: last_command_def)
  obtain f where f: "fuel = Suc f" using assms(3) l by (cases fuel) auto
  obtain s1 where 1: "ozy_send_buffer now (r, ?s) = Some (r, s1)" "ps_command s1 = 1"
    using ozy_send_config_step[OF w, of now r] by auto
  have s1: "send_until_command_1 fuel now (r, ?s) = Some (r, s1)" using 1 f by simp
  have p: "round_pos r (ps_command ?s) (ps_current_rx ?s)" using l by (simp add: round_pos_def)
  have fl: "2 * rounds_left r (ps_command ?s) (ps_current_rx ?s) \<le> fuel + 1"
    using assms(3) l by (simp add: rounds_left_def Let_def)
  have "round_from r 1 0 = command_round r" by (simp add: round_from_def command_round_def)
  thus ?thesis
    using send_round[OF w assms(2) p 1(1) fl] s1
    by (auto simp: metis_restart_def metis_start_stop_def Let_def)
qed

section \<open>Levels and bytes\<close>

lemma c_trunc_nonneg: "0 \<le> x \<Longrightarrow> c_trunc x = \<lfloor>x\<rfloor>"
  by (simp add: c_trunc_def)

definition pa_volts :: "int \<Rightarrow> real \<Rightarrow> real" where
  "pa_volts p gbb = sqrt (10 powr ((10 * log 10 (real_of_int p * 1000) - gbb) * 0.1) * 0.05) / 0.8"

lemma pa_volts_pos: "0 \<le> pa_volts p gbb"
  by (simp add: pa_volts_def)

lemma pa_volts_mono: "0 < p \<Longrightarrow> p \<le> q \<Longrightarrow> pa_volts p gbb \<le> pa_volts q gbb"
  by (simp add: pa_volts_def powr_mono)

lemma pa_level_clamp:
  assumes "0 < p"
  shows "pa_level p gbb = \<lfloor>min 1 (min 1 (pa_volts p gbb) / 0.98) * 255\<rfloor>"
proof -
  have v: "0 \<le> pa_volts p gbb" by (rule pa_volts_pos)
  let ?v = "if pa_volts p gbb < 1 then pa_volts p gbb else 1"
  have 1: "?v = min 1 (pa_volts p gbb)" by auto
  let ?a = "?v * (1 / 0.98)"
  have 2: "(if ?a < 0 then 0 else if ?a > 1 then 1 else ?a) = min 1 (min 1 (pa_volts p gbb) / 0.98)"
    using v unfolding 1 by (auto simp: min_def)
  have "pa_level p gbb = c_trunc ((if ?a < 0 then 0 else if ?a > 1 then 1 else ?a) * 255)"
    using assms unfolding pa_level_def pa_volts_def Let_def by simp
  also have "\<dots> = \<lfloor>min 1 (min 1 (pa_volts p gbb) / 0.98) * 255\<rfloor>"
    unfolding 2 using v by (intro c_trunc_nonneg) (simp add: min_def)
  finally show ?thesis .
qed

lemma freq_bytes_value:
  assumes "freq_bytes f = (a, b, c, d)" "0 \<le> f" "f < 2 ^ 32"
  shows "uint a * 2 ^ 24 + uint b * 2 ^ 16 + uint c * 2 ^ 8 + uint d = f"
proof -
  have u: "uint (word_of_int k :: byte) = k mod 256" for k
    by (simp add: uint_word_of_int)
  have "uint a = f div 16777216 mod 256" "uint b = f div 65536 mod 256"
    "uint c = f div 256 mod 256" "uint d = f mod 256"
    using assms(1) by (auto simp: freq_bytes_def u)
  moreover have "f div 16777216 mod 256 = f div 16777216" using assms by simp
  moreover have "f div 65536 = f div 16777216 * 256 + f div 65536 mod 256"
    using zdiv_zmult2_eq[of 256 f 65536] by simp
  moreover have "f div 256 = f div 65536 * 256 + f div 256 mod 256"
    using zdiv_zmult2_eq[of 256 f 256] by simp
  moreover have "f = f div 256 * 256 + f mod 256" by simp
  ultimately have "uint a * 16777216 + uint b * 65536 + uint c * 256 + uint d = f" by linarith
  thus ?thesis by simp
qed

lemma even_bytes:
  "bit (x OR y) 0 = (bit x 0 \<or> bit (y :: byte) 0)" "bit (or_if c m x) 0 = (bit x 0 \<or> c \<and> bit m 0)"
  by (simp_all add: bit_or_iff or_if_def)

lemma cmd_hl2_even: "cmd_hl2 h = (h', sync2, c0, rest) \<Longrightarrow> \<not> bit c0 0"
proof -
  have rq: "\<not> bit (ucast (HL2i2cSendRqst x) :: byte) 0" for x
    by (simp add: HL2i2cSendRqst_def Let_def hl2_consts bit_ucast_iff bit_or_iff)
  show "cmd_hl2 h = (h', sync2, c0, rest) \<Longrightarrow> \<not> bit c0 0"
    using rq by (auto simp: cmd_hl2_def Let_def split: prod.splits if_splits)
qed

lemma ozy_command_even:
  assumes "ozy_command c k r = Some (r', sync2, c0, rest)"
  shows "\<not> bit c0 0"
proof (cases "c = 11")
  case True
  thus ?thesis using assms cmd_hl2_even
    by (auto simp: ozy_command_def Let_def split: option.splits prod.splits)
next
  case c11: False
  have rx: "cmd_rx_frequency r k = (c0, rest) \<Longrightarrow> \<not> bit c0 0"
    by (auto simp: cmd_rx_frequency_def Let_def bit_0 split: if_splits)
  show ?thesis
  proof (cases "c = 3")
    case True
    thus ?thesis using assms by (auto simp: ozy_command_def cmd_drive_def Let_def split: option.splits)
  next
    case False
    thus ?thesis using assms c11 rx unfolding ozy_command_def Let_def
      by (auto simp: cmd_tx_frequency_def cmd_attenuation_def cmd_keyer_def cmd_adc_def cmd_cw_def
          cmd_hang_def cmd_eer_def cmd_alex_def Let_def split: if_split_asm)
  qed
qed

section \<open>Index of the sample buffer\<close>

text \<open>The index of the next sample is a multiple of eight from 8 to 504, so the
eight bytes written there stay inside the buffer.\<close>

definition index_ok :: "nat \<Rightarrow> bool" where
  "index_ok i \<longleftrightarrow> 8 \<le> i \<and> i \<le> 504 \<and> i mod 8 = 0"

lemma index_ok_step: "index_ok i \<Longrightarrow> index_ok (i + 8) \<or> 512 \<le> i + 8"
  unfolding index_ok_def by presburger

definition tx_inv :: "p1_tx \<Rightarrow> bool" where
  "tx_inv s \<longleftrightarrow> tx_wf s \<and> index_ok (ps_output_buffer_index s) \<and> index_ok (ps_tx_output_buffer_index s)"

lemma metis_write_index:
  "ps_output_buffer_index (metis_write ep b s) = ps_output_buffer_index s"
  "ps_tx_output_buffer_index (metis_write ep b s) = ps_tx_output_buffer_index s"
  by (simp_all add: metis_write_def Let_def)

lemma ozy_send_buffer_inv:
  assumes "tx_wf s" "ozy_send_buffer now (r, s) = Some (r', s')"
  shows "tx_wf s' \<and> ps_output_buffer_index s' = ps_output_buffer_index s
    \<and> ps_tx_output_buffer_index s' = ps_tx_output_buffer_index s"
proof (cases "ps_metis_offset s = 8")
  case True
  let ?b = "sent_buffer r SYNC_BYTE (ozy_config now r) (ps_output_buffer s)"
  have l: "length ?b = 512" using assms(1) by (simp add: tx_wf_def)
  hence "tx_wf (s\<lparr>ps_output_buffer := ?b\<rparr>)" using assms(1) by (simp add: tx_wf_def)
  from metis_write_wf[OF this l, of "0x02"] ozy_send_config[OF True, of now r] assms(2)
  show ?thesis by (auto simp: Let_def metis_write_index)
next
  case False
  obtain r1 sync2 ctl where c: "ozy_command (ps_command s) (ps_current_rx s) r = Some (r1, sync2, ctl)"
    using assms(2) False by (auto simp: ozy_send_buffer_def split: option.splits prod.splits)
  let ?b = "sent_buffer r1 sync2 ctl (ps_output_buffer s)"
  let ?k = "next_current_rx r (ps_command s) (ps_current_rx s)"
  let ?s = "s\<lparr>ps_current_rx := ?k, ps_command := next_command r (ps_command s) ?k, ps_output_buffer := ?b\<rparr>"
  have l: "length ?b = 512" using assms(1) by (simp add: tx_wf_def)
  hence "tx_wf ?s" using assms(1) by (simp add: tx_wf_def)
  from metis_write_wf[OF this l, of "0x02"] ozy_send_command[OF False c, of now] assms(2)
  show ?thesis by (auto simp: Let_def metis_write_index)
qed

lemma put_sample_wf:
  assumes "tx_wf s" "index_ok i" "length bs = 8"
  shows "tx_wf (s\<lparr>ps_output_buffer := put_bytes i bs (ps_output_buffer s)\<rparr>)"
  using assms by (simp add: tx_wf_def index_ok_def)

lemma length_hi_lo [simp]: "length (hi_lo x) = 2"
  by (simp add: hi_lo_def)

lemma put_sample_wf_audio:
  assumes "tx_inv s" "length bs = 8"
  shows "tx_wf (s\<lparr>ps_output_buffer := put_bytes (ps_output_buffer_index s) bs (ps_output_buffer s),
                  ps_output_buffer_index := ps_output_buffer_index s + 8\<rparr>)"
  using put_sample_wf[of s "ps_output_buffer_index s" bs] assms by (simp add: tx_inv_def tx_wf_def)

lemma audio_step_inv:
  assumes "tx_inv s" "length bs = 8"
  defines "s1 \<equiv> s\<lparr>ps_output_buffer := put_bytes (ps_output_buffer_index s) bs (ps_output_buffer s),
                  ps_output_buffer_index := ps_output_buffer_index s + 8\<rparr>"
  assumes "(if ps_output_buffer_index s1 \<ge> 512
            then map_option (\<lambda>(r2, s2). (r2, s2\<lparr>ps_output_buffer_index := 8\<rparr>)) (ozy_send_buffer now (r, s1))
            else Some (r, s1)) = Some (r', s')"
  shows "tx_inv s'"
proof -
  have w: "tx_wf s1" using put_sample_wf_audio[OF assms(1,2)] by (simp add: s1_def)
  have i: "index_ok (ps_tx_output_buffer_index s1)" "index_ok 8"
    using assms(1) by (auto simp: s1_def tx_inv_def index_ok_def)
  show ?thesis
  proof (cases "ps_output_buffer_index s1 \<ge> 512")
    case True
    then obtain s2 where "ozy_send_buffer now (r, s1) = Some (r', s2)" "s' = s2\<lparr>ps_output_buffer_index := 8\<rparr>"
      using assms(4) by auto
    thus ?thesis using ozy_send_buffer_inv[OF w] i by (auto simp: tx_inv_def tx_wf_def)
  next
    case False
    hence "s' = s1" using assms(4) by simp
    thus ?thesis using w i False index_ok_step[of "ps_output_buffer_index s"] assms(1)
      by (auto simp: tx_inv_def s1_def)
  qed
qed

section \<open>Properties\<close>

text \<open>C7: Restarting the radio ends, and sends one round of the commands in order, then the
start command. From buffers of the right sizes, with a receiver for the transmitter and enough
rounds allowed, the datagrams sent are, numbered on from the last one: the transmit frequency, the
receive frequency once per receiver the radio supports (once if it supports none), and every other
command once up to the last the radio has, each behind the configuration in a datagram of its own;
then the start command, with the wideband stream if there is one. The receiver looks for a frame
from the beginning.\<close>

theorem metis_restart_terminates:
  assumes "tx_wf s" "tx_receiver r \<noteq> None"
    "2 * (max 1 (d_supported_receivers (r_discovered r)) + nat (last_command r)) \<le> fuel + 3"
  shows "\<exists>r' x' s'. metis_restart fuel now (r, x, s) = Some (r', x', s')
    \<and> pr_state x' = SYNC_0 \<and> ps_command s' = 1 \<and> ps_metis_offset s' = 8
    \<and> ps_sent s' = ps_sent s @
        command_datagrams now r (ps_output_buffer s) (ps_send_sequence s) (command_round r) @
        [[0xEF, 0xFE, 0x04, if r_wideband r \<noteq> None then 3 else 1] @ replicate 60 0]"
  using assms by (rule metis_restart_sends)

definition p1_tx0 :: p1_tx where
  "p1_tx0 = \<lparr>ps_output_buffer = replicate 512 0, ps_output_buffer_index = 8,
     ps_tx_output_buffer_index = 8, ps_metis_buffer = replicate 1032 0, ps_metis_offset = 8,
     ps_send_sequence = - 1, ps_command = 1, ps_current_rx = 0, ps_sent = [], ps_running = False\<rparr>"

definition p1_rx1 :: p1_rx where
  "p1_rx1 = \<lparr>pr_state = SKIP, pr_control_in = [0, 0, 0, 0, 0], pr_nreceiver = 0, pr_left_sample = 0,
     pr_right_sample = 0, pr_fbk_left = 0, pr_fbk_right = 0, pr_mic_sample = 0, pr_nsamples = 0,
     pr_iq_samples = 0, pr_mic_samples = 0, pr_mic_sample_divisor = 1, pr_ep4_sequence = 0,
     pr_ep6_sequence = 0, pr_last_time = 0\<rparr>"

lemma p1_tx0_inv: "tx_inv p1_tx0"
  by (simp add: tx_inv_def tx_wf_def index_ok_def p1_tx0_def)

lemma radio0_tx: "tx_receiver radio0 = Some receiver0" "last_command radio0 = 10"
  by (simp_all add: tx_receiver_def last_command_def radio0_def transmitter0_def discovered0_def)

theorem metis_restart_terminates_witness:
  "\<exists>r' x' s'. metis_restart 29 0 (radio0, p1_rx1, p1_tx0) = Some (r', x', s')
    \<and> pr_state x' = SYNC_0 \<and> ps_command s' = 1 \<and> ps_metis_offset s' = 8 \<and>
    ps_sent s' = command_datagrams 0 radio0 (replicate 512 0) (- 1) (command_round radio0) @
      [[0xEF, 0xFE, 0x04, 1] @ replicate 60 0]"
  using metis_restart_terminates[of p1_tx0 radio0 29 0 p1_rx1] p1_tx0_inv radio0_tx
  by (simp add: tx_inv_def) (simp add: radio0_def discovered0_def p1_tx0_def)

theorem two_buffers_one_datagram_witness:
  "\<exists>r2 s2. (\<exists>s1. ozy_send_buffer 0 (radio0, p1_tx0) = Some (radio0, s1)
      \<and> ozy_send_buffer 0 (radio0, s1) = Some (r2, s2))
    \<and> ps_sent s2 = [metis_header 0x02 0 @ sent_buffer radio0 SYNC_BYTE (ozy_config 0 radio0) (replicate 512 0)
         @ sent_buffer r2 SYNC_BYTE (cmd_tx_frequency radio0) (replicate 512 0)]"
proof -
  have w: "tx_wf p1_tx0" "ps_metis_offset p1_tx0 = 8" using p1_tx0_inv by (auto simp: tx_inv_def p1_tx0_def)
  have c: "ozy_command (ps_command p1_tx0) (ps_current_rx p1_tx0) radio0 = Some (radio0, SYNC_BYTE, cmd_tx_frequency radio0)"
    by (simp add: ozy_command_def p1_tx0_def)
  obtain s1 where s1: "ozy_send_buffer 0 (radio0, p1_tx0) = Some (radio0, s1)" "tx_wf s1"
    "ps_metis_offset s1 = 520" "ps_command s1 = ps_command p1_tx0" "ps_current_rx s1 = ps_current_rx p1_tx0"
    using ozy_send_config_step[OF w] by blast
  have "ozy_command (ps_command s1) (ps_current_rx s1) radio0 = Some (radio0, SYNC_BYTE, cmd_tx_frequency radio0)"
    using c s1 by simp
  from ozy_send_command[OF _ this] s1(3)
  obtain s2 where s2: "ozy_send_buffer 0 (radio0, s1) = Some (radio0, s2)" by (simp add: Let_def)
  from two_buffers_one_datagram[OF w s1(1) s2 c] s1(1) s2 show ?thesis
    by (fastforce simp: p1_tx0_def)
qed

text \<open>The transmit bit of every buffer, configuration or command, is the low
bit of its first control byte: no command uses that bit for anything else.\<close>

theorem mox_bit_of_every_buffer:
  assumes "ozy_command c k r = Some (r', sync2, ctl)"
  shows "(bit (sent_buffer r' sync2 ctl buf ! 3) 0 = bit (mox_bit r) 0)
    \<and> (bit (sent_buffer r SYNC_BYTE (ozy_config now r) buf ! 3) 0 = bit (mox_bit r) 0)"
proof -
  obtain c0 c1 c2 c3 c4 where ctl: "ctl = (c0, c1, c2, c3, c4)" by (metis prod.collapse)
  obtain h where h: "r' = r\<lparr>r_hl2 := h\<rparr>" using ozy_command_radio[OF assms] by blast
  have "\<not> bit c0 0" using ozy_command_even assms ctl by blast
  moreover have "mox_bit r' = mox_bit r" by (simp add: h mox_bit_def)
  ultimately show ?thesis by (simp add: sent_buffer_def ozy_config_def ctl bit_or_iff del: bit_0)
qed

theorem mox_bit_of_every_buffer_witness:
  "bit (sent_buffer (radio0\<lparr>r_mox := True\<rparr>) SYNC_BYTE (cmd_tx_frequency (radio0\<lparr>r_mox := True\<rparr>)) [] ! 3) 0
     = bit (mox_bit (radio0\<lparr>r_mox := True\<rparr>)) 0"
  using mox_bit_of_every_buffer[of 1 0 "radio0\<lparr>r_mox := True\<rparr>" "radio0\<lparr>r_mox := True\<rparr>" SYNC_BYTE
    "cmd_tx_frequency (radio0\<lparr>r_mox := True\<rparr>)" "[]" 0]
  by (simp add: ozy_command_def)

text \<open>The four frequency bytes of command 1 are the transmit frequency in
big endian, for every frequency of 32 bits.\<close>

theorem tx_frequency_bytes:
  assumes "cmd_tx_frequency r = (c0, c1, c2, c3, c4)"
    "0 \<le> transmitter_get_frequency r" "transmitter_get_frequency r < 2 ^ 32"
  shows "c0 = 0x02 \<and> uint c1 * 2 ^ 24 + uint c2 * 2 ^ 16 + uint c3 * 2 ^ 8 + uint c4
     = transmitter_get_frequency r"
  using assms freq_bytes_value[of "transmitter_get_frequency r" c1 c2 c3 c4]
  by (auto simp: cmd_tx_frequency_def)

theorem tx_frequency_bytes_witness:
  "uint (0 :: byte) * 2 ^ 24 + uint (0xD7 :: byte) * 2 ^ 16 + uint (0x26 :: byte) * 2 ^ 8 + uint (0x20 :: byte)
     = 14100000"
proof -
  have f: "transmitter_get_frequency radio0 = 14100000"
    by (simp add: transmitter_get_frequency_def radio0_tx Let_def)
      (simp add: receiver0_def radio0_def transmitter0_def)
  have "cmd_tx_frequency radio0 = (0x02, 0, 0xD7, 0x26, 0x20)"
    by (simp add: cmd_tx_frequency_def f freq_bytes_def)
  from tx_frequency_bytes[OF this] f show ?thesis by simp
qed

text \<open>The drive level is a byte: from 0 to 255, 0 for no power, and never
smaller for more power.\<close>

theorem drive_level_bounds:
  assumes "0 \<le> p" "p \<le> q"
  shows "0 \<le> pa_level p gbb \<and> pa_level p gbb \<le> pa_level q gbb \<and> pa_level q gbb \<le> 255
    \<and> pa_level 0 gbb = 0"
proof -
  have b: "0 \<le> pa_level n gbb \<and> pa_level n gbb \<le> 255" if "0 \<le> n" for n
  proof (cases "n = 0")
    case False
    have v: "0 \<le> pa_volts n gbb" by (rule pa_volts_pos)
    let ?x = "min 1 (min 1 (pa_volts n gbb) / 0.98) * 255"
    have "0 \<le> ?x" "?x \<le> 255" using v by (auto simp: min_def)
    hence "0 \<le> \<lfloor>?x\<rfloor>" "\<lfloor>?x\<rfloor> \<le> 255" by linarith+
    thus ?thesis using pa_level_clamp[of n gbb] False that by simp
  qed (simp add: pa_level_def)
  have "pa_level p gbb \<le> pa_level q gbb"
  proof (cases "p = 0")
    case True
    thus ?thesis using b[of q] assms by (simp add: pa_level_def)
  next
    case False
    hence "0 < p" "0 < q" using assms by auto
    moreover have "min 1 (min 1 (pa_volts p gbb) / 0.98) \<le> min 1 (min 1 (pa_volts q gbb) / 0.98)"
      using pa_volts_mono[of p q gbb] False assms by (intro min.mono divide_right_mono) auto
    ultimately show ?thesis by (simp add: pa_level_clamp floor_mono)
  qed
  thus ?thesis using b assms by (simp add: pa_level_def)
qed

theorem drive_level_bounds_witness: "0 \<le> pa_level 5 53 \<and> pa_level 5 53 \<le> pa_level 100 53"
  using drive_level_bounds[of 5 100 53] by simp

text \<open>Manual filters lose information: the low pass bits are merged into the
byte of the high pass bits, so two different choices of filters give the same command.\<close>

theorem manual_filters_collide:
  assumes "adc_filters a = MANUAL"
  shows "cmd_drive (r\<lparr>r_adc := [a\<lparr>adc_hpf := 4, adc_lpf := 1\<rparr>, b]\<rparr>)
       = cmd_drive (r\<lparr>r_adc := [a\<lparr>adc_hpf := 3, adc_lpf := 3\<rparr>, b]\<rparr>)"
proof -
  have t: "tx_receiver (r\<lparr>r_adc := x\<rparr>) = tx_receiver r" for x
    by (simp add: tx_receiver_def split: option.splits)
  have m: "transmitter_get_mode (r\<lparr>r_adc := x\<rparr>) = transmitter_get_mode r"
    "isTransmitting (r\<lparr>r_adc := x\<rparr>) = isTransmitting r"
    "band_get_band (r\<lparr>r_adc := x\<rparr>) = band_get_band r" for x
    by (simp_all add: transmitter_get_mode_def t isTransmitting_def band_get_band_def fun_eq_iff)
  have d: "drive_level (r\<lparr>r_adc := x\<rparr>) = drive_level r" for x
    by (cases "tx_receiver r") (simp_all add: drive_level_def t m Let_def)
  show ?thesis
    using assms
    by (simp add: cmd_drive_def t d m cmd_drive_c2_def cmd_drive_c3_def hpf_bits_def lpf_bits_def
        Let_def or_if_def word_bw_assocs split: option.splits)
qed

theorem manual_filters_collide_witness:
  "cmd_drive (radio0\<lparr>r_adc := [adc0\<lparr>adc_filters := 1, adc_hpf := 4, adc_lpf := 1\<rparr>, adc0]\<rparr>)
   = cmd_drive (radio0\<lparr>r_adc := [adc0\<lparr>adc_filters := 1, adc_hpf := 3, adc_lpf := 3\<rparr>, adc0]\<rparr>)"
  using manual_filters_collide[where a = "adc0\<lparr>adc_filters := 1\<rparr>" and r = radio0 and b = adc0] by (simp add: MANUAL_def)

text \<open>Writing samples never leaves the buffer: audio, I/Q and EER samples keep
both indices inside it and the buffers at their sizes.\<close>

theorem sample_index_in_bounds:
  assumes "tx_inv s"
    and "protocol1_audio_samples now a b (r, s) = Some (r', s')
      \<or> protocol1_iq_samples now a b (r, s) = Some (r', s')
      \<or> protocol1_eer_iq_samples now a b c d (r, s) = Some (r', s')"
  shows "tx_inv s'"
proof -
  have "tx_inv s'" if "protocol1_audio_samples now a b (r, s) = Some (r', s')"
  proof (cases "isTransmitting r")
    case True thus ?thesis using that assms(1) by (simp add: protocol1_audio_samples_def)
  next
    case False
    show ?thesis
      by (rule audio_step_inv[OF assms(1), of "hi_lo a @ hi_lo b @ [0, 0, 0, 0]" now r r' s'])
        (use that False in \<open>simp_all add: protocol1_audio_samples_def Let_def\<close>)
  qed
  moreover have "tx_inv s'" if "protocol1_eer_iq_samples now a b c d (r, s) = Some (r', s')"
  proof (cases "isTransmitting r")
    case False thus ?thesis using that assms(1) by (simp add: protocol1_eer_iq_samples_def)
  next
    case True
    show ?thesis
      by (rule audio_step_inv[OF assms(1), of "hi_lo c @ hi_lo d @ hi_lo a @ hi_lo b" now r r' s'])
        (use that True in \<open>simp_all add: protocol1_eer_iq_samples_def Let_def\<close>)
  qed
  moreover have "tx_inv s'" if p: "protocol1_iq_samples now a b (r, s) = Some (r', s')"
  proof -
    let ?i = "ps_tx_output_buffer_index s"
    let ?s = "s\<lparr>ps_output_buffer := put_bytes ?i ([0, 0, 0, 0] @ hi_lo a @ hi_lo b) (ps_output_buffer s)\<rparr>"
    have i: "index_ok ?i" "index_ok 8" "index_ok (ps_output_buffer_index s)"
      using assms(1) by (auto simp: tx_inv_def index_ok_def)
    have "tx_wf ?s" using put_sample_wf[of s ?i] i assms(1) by (simp add: tx_inv_def)
    hence w: "tx_wf (?s\<lparr>ps_tx_output_buffer_index := n\<rparr>)" for n by (simp add: tx_wf_def)
    show ?thesis
    proof (cases "512 \<le> ?i + 8")
      case True
      thus ?thesis using p ozy_send_buffer_inv[OF w[of 8]] i
        by (auto simp: protocol1_iq_samples_def Let_def tx_inv_def)
    next
      case False
      thus ?thesis using p w[of "?i + 8"] i index_ok_step[OF i(1)]
        by (auto simp: protocol1_iq_samples_def Let_def tx_inv_def)
    qed
  qed
  ultimately show ?thesis using assms(2) by blast
qed

theorem sample_index_in_bounds_witness:
  "\<exists>s'. protocol1_iq_samples 0 1 2 (radio0, p1_tx0) = Some (radio0, s') \<and> tx_inv s'"
proof -
  obtain s' where "protocol1_iq_samples 0 1 2 (radio0, p1_tx0) = Some (radio0, s')"
    by (auto simp: protocol1_iq_samples_def p1_tx0_def Let_def)
  thus ?thesis using sample_index_in_bounds[OF p1_tx0_inv, of 0 1 2 radio0 radio0 s' 0 0] by blast
qed

end
