(* ===== verification/Link.thy ===== *)
theory Link
  imports Radio
begin

text \<open>The link watchdog: the decision of \<open>src/proto/link_state.c\<close>, which
is handed the time and answers with a state and at most one action, and the half of
\<open>src/proto/reconnect.c\<close> that feeds it with the clock, the block counter of the
receive threads and the transmit state, runs the attempt and decides what the banner
says. Times are in seconds of the monotonic clock.

The interface the watchdog relies on is the locale \<open>retry_ladder\<close>: an attempt
may only be ordered when it is due, and recording one moves the next by at least the
current backoff.\<close>

section \<open>The decision\<close>

datatype link_state = LINK_IDLE | LINK_STARTING | LINK_STREAMING | LINK_LOST | LINK_RETRYING

datatype link_action = LINK_ACT_NOTHING | LINK_ACT_RECONNECT

definition DISCONNECT_TIMEOUT_SEC :: int where "DISCONNECT_TIMEOUT_SEC = 3"
definition FIRST_DATA_TIMEOUT_SEC :: int where "FIRST_DATA_TIMEOUT_SEC = 10"
definition RECONNECT_BACKOFF_MIN_SEC :: int where "RECONNECT_BACKOFF_MIN_SEC = 1"
definition RECONNECT_BACKOFF_MAX_SEC :: int where "RECONNECT_BACKOFF_MAX_SEC = 60"

lemmas link_consts = DISCONNECT_TIMEOUT_SEC_def FIRST_DATA_TIMEOUT_SEC_def
  RECONNECT_BACKOFF_MIN_SEC_def RECONNECT_BACKOFF_MAX_SEC_def

record link =
  l_state :: link_state
  l_state_since :: int
  l_last_data :: int
  l_data_seq :: int
  l_seq_at_entry :: int
  l_next_attempt :: int
  l_backoff :: int
  l_attempt :: int

definition link_state_name :: "link_state \<Rightarrow> string" where
  "link_state_name s = (case s of LINK_IDLE \<Rightarrow> ''idle'' | LINK_STARTING \<Rightarrow> ''starting''
     | LINK_STREAMING \<Rightarrow> ''streaming'' | LINK_LOST \<Rightarrow> ''lost'' | LINK_RETRYING \<Rightarrow> ''retrying'')"

definition link_enter :: "link \<Rightarrow> link_state \<Rightarrow> int \<Rightarrow> link" where
  "link_enter l s now = l\<lparr>l_state := s, l_state_since := now, l_seq_at_entry := l_data_seq l\<rparr>"

definition link_reset :: "link \<Rightarrow> int \<Rightarrow> link" where
  "link_reset l now =
     link_enter (l\<lparr>l_last_data := now, l_next_attempt := 0, l_backoff := RECONNECT_BACKOFF_MIN_SEC,
                   l_attempt := 0, l_state := LINK_IDLE\<rparr>) LINK_STARTING now"

definition link_retry_now :: "link \<Rightarrow> int \<Rightarrow> link" where
  "link_retry_now l now =
     (let l1 = l\<lparr>l_next_attempt := now\<rparr>
      in if l_state l1 = LINK_STARTING then link_enter l1 LINK_LOST now else l1)"

definition link_attempted :: "link \<Rightarrow> int \<Rightarrow> link" where
  "link_attempted l now =
     (let b = (if l_backoff l * 2 > RECONNECT_BACKOFF_MAX_SEC then RECONNECT_BACKOFF_MAX_SEC
               else l_backoff l * 2)
      in link_enter (l\<lparr>l_attempt := l_attempt l + 1, l_last_data := now, l_backoff := b,
                       l_next_attempt := now + FIRST_DATA_TIMEOUT_SEC + b\<rparr>) LINK_STARTING now)"

definition link_streaming :: "link \<Rightarrow> int \<Rightarrow> link" where
  "link_streaming l now =
     link_enter (l\<lparr>l_backoff := RECONNECT_BACKOFF_MIN_SEC, l_attempt := 0\<rparr>) LINK_STREAMING now"

definition link_tick :: "link \<Rightarrow> int \<Rightarrow> bool \<Rightarrow> link \<times> link_action" where
  "link_tick l now transmitting =
     (let fresh = (l_data_seq l \<noteq> l_seq_at_entry l) in
      if l_state l = LINK_IDLE then (l, LINK_ACT_NOTHING)
      else if transmitting \<and> (l_state l = LINK_STREAMING \<or> l_state l = LINK_STARTING)
      then (l\<lparr>l_last_data := now, l_state_since := now\<rparr>, LINK_ACT_NOTHING)
      else case l_state l of
        LINK_STARTING \<Rightarrow>
          (if fresh then link_streaming l now
           else if now - l_state_since l \<ge> FIRST_DATA_TIMEOUT_SEC
           then let l1 = link_enter l LINK_LOST now
                in if l_attempt l1 = 0 then l1\<lparr>l_next_attempt := now\<rparr> else l1
           else l, LINK_ACT_NOTHING)
      | LINK_STREAMING \<Rightarrow>
          (if now - l_last_data l \<ge> DISCONNECT_TIMEOUT_SEC
           then (link_enter l LINK_LOST now)\<lparr>l_next_attempt := now\<rparr> else l, LINK_ACT_NOTHING)
      | LINK_LOST \<Rightarrow>
          (if fresh then (link_streaming l now, LINK_ACT_NOTHING)
           else if now \<ge> l_next_attempt l then (link_enter l LINK_RETRYING now, LINK_ACT_RECONNECT)
           else (l, LINK_ACT_NOTHING))
      | _ \<Rightarrow> (l, LINK_ACT_NOTHING))"

section \<open>The watchdog\<close>

datatype auto_answer = RECONNECT_ASK | RECONNECT_BTN_RECONNECT | RECONNECT_BTN_EXIT

text \<open>What the banner says, by the words and numbers the message is made of.\<close>

datatype banner_text = Banner_reconnecting_attempt int | Banner_no_data_yet
  | Banner_lost int | Banner_lost_attempts int int | Banner_reconnecting

datatype watchdog_event = Do_reconnect protocol | Main_delete | Banner "banner_text option"

record watchdog =
  wd_link :: link
  wd_data_seq :: int
  wd_last_data_sec :: int
  wd_auto_answer :: auto_answer
  wd_watch_fake :: bool
  wd_banner_shown :: bool
  wd_timer_armed :: bool

definition reconnect_note_data :: "int \<Rightarrow> watchdog \<Rightarrow> watchdog" where
  "reconnect_note_data now w = w\<lparr>wd_data_seq := wd_data_seq w + 1, wd_last_data_sec := now\<rparr>"

definition reconnect_set_auto :: "auto_answer \<Rightarrow> watchdog \<Rightarrow> watchdog" where
  "reconnect_set_auto button w = w\<lparr>wd_auto_answer := button\<rparr>"

definition banner_retry_cb :: "int \<Rightarrow> watchdog \<Rightarrow> watchdog" where
  "banner_retry_cb now w = w\<lparr>wd_link := link_retry_now (wd_link w) now\<rparr>"

definition banner_message :: "link \<Rightarrow> int \<Rightarrow> banner_text option" where
  "banner_message l now = (case l_state l of
     LINK_STARTING \<Rightarrow>
       (if l_attempt l > 0 then Some (Banner_reconnecting_attempt (l_attempt l))
        else if now - l_state_since l \<ge> FIRST_DATA_TIMEOUT_SEC div 2 then Some Banner_no_data_yet
        else None)
   | LINK_LOST \<Rightarrow>
       (let due = (if l_next_attempt l - now < 0 then 0 else l_next_attempt l - now)
        in Some (if l_attempt l = 0 then Banner_lost due else Banner_lost_attempts (l_attempt l) due))
   | LINK_RETRYING \<Rightarrow> Some Banner_reconnecting
   | _ \<Rightarrow> None)"

definition banner_update :: "int \<Rightarrow> watchdog \<Rightarrow> watchdog \<times> watchdog_event list" where
  "banner_update now w =
     (let m = banner_message (wd_link w) now
      in (w\<lparr>wd_banner_shown := (m \<noteq> None)\<rparr>, [Banner m]))"

text \<open>One second of the watchdog. \<open>now'\<close> is the clock after the attempt,
which runs inside the call; the fake device is watched only under the test hook. The
protocol's own restart is an event.\<close>

definition watchdog_cb ::
  "int \<Rightarrow> int \<Rightarrow> bool \<Rightarrow> protocol option \<Rightarrow> watchdog \<Rightarrow> watchdog \<times> watchdog_event list" where
  "watchdog_cb now now' transmitting radio w =
     (case radio of None \<Rightarrow> (w, [])
      | Some proto \<Rightarrow>
        if proto = PROTOCOL_FAKE \<and> \<not> wd_watch_fake w then (w, [])
        else (case link_tick ((wd_link w)\<lparr>l_data_seq := wd_data_seq w, l_last_data := wd_last_data_sec w\<rparr>)
                     now transmitting of (l1, act) \<Rightarrow>
          let w1 = w\<lparr>wd_link := l1\<rparr> in
          if act = LINK_ACT_RECONNECT then
            (if wd_auto_answer w1 = RECONNECT_BTN_EXIT then (w1, [Main_delete])
             else (case banner_update now w1 of (w2, e2) \<Rightarrow>
               case banner_update now (w2\<lparr>wd_link := link_attempted (wd_link w2) now',
                                         wd_last_data_sec := now'\<rparr>) of (w3, e3) \<Rightarrow>
                 (w3, e2 @ [Do_reconnect proto] @ e3)))
          else banner_update now w1))"

definition reconnect_init :: "int \<Rightarrow> bool \<Rightarrow> watchdog \<Rightarrow> watchdog" where
  "reconnect_init now test_hook w =
     w\<lparr>wd_watch_fake := test_hook, wd_last_data_sec := now,
       wd_link := link_reset ((wd_link w)\<lparr>l_data_seq := wd_data_seq w\<rparr>) now,
       wd_timer_armed := True\<rparr>"

section \<open>The retry ladder\<close>

text \<open>The contract between a machine that decides when to retry and the code that
retries: the attempts are due no earlier than the machine said, and each attempt
recorded moves the due time on by at least the backoff, which never shrinks and stays
within its bounds.\<close>

locale retry_ladder =
  fixes due :: "'s \<Rightarrow> int" and backoff :: "'s \<Rightarrow> int"
    and tick :: "'s \<Rightarrow> int \<Rightarrow> 's \<times> bool" and attempted :: "'s \<Rightarrow> int \<Rightarrow> 's"
    and lo :: int and hi :: int and inv :: "'s \<Rightarrow> bool"
  assumes tick_due: "inv s \<Longrightarrow> snd (tick s now) \<Longrightarrow> due s \<le> now"
    and attempted_due: "inv s \<Longrightarrow> now + backoff (attempted s now) \<le> due (attempted s now)"
    and attempted_backoff: "inv s \<Longrightarrow> backoff s \<le> backoff (attempted s now)"
    and inv_bounds: "inv s \<Longrightarrow> lo \<le> backoff s \<and> backoff s \<le> hi"
    and attempted_inv: "inv s \<Longrightarrow> inv (attempted s now)"
    and tick_inv: "inv s \<Longrightarrow> inv (fst (tick s now))"
    and lo_pos: "0 < lo"
begin

lemma next_tick_later:
  assumes "inv s" "snd (tick (attempted s now) later)"
  shows "now + lo \<le> later"
  using tick_due[OF attempted_inv[OF assms(1)] assms(2)] attempted_due[OF assms(1), of now]
    inv_bounds[OF attempted_inv[OF assms(1)], of now] by linarith

primrec attempts :: "int list \<Rightarrow> 's \<Rightarrow> 's" where
  "attempts [] s = s"
| "attempts (t # ts) s = attempts ts (attempted s t)"

lemma attempts_inv: "inv s \<Longrightarrow> inv (attempts ts s)"
  by (induction ts arbitrary: s) (simp_all add: attempted_inv)

lemma attempts_backoff_mono: "inv s \<Longrightarrow> backoff s \<le> backoff (attempts ts s) \<and> backoff (attempts ts s) \<le> hi"
proof (induction ts arbitrary: s)
  case (Cons t ts)
  thus ?case using attempted_backoff[OF Cons.prems, of t] Cons.IH[OF attempted_inv[OF Cons.prems, of t]]
    by simp
qed (simp add: inv_bounds)

end

definition link_inv :: "link \<Rightarrow> bool" where
  "link_inv l \<longleftrightarrow> RECONNECT_BACKOFF_MIN_SEC \<le> l_backoff l \<and> l_backoff l \<le> RECONNECT_BACKOFF_MAX_SEC"

definition tick_reconnects :: "link \<Rightarrow> int \<Rightarrow> link \<times> bool" where
  "tick_reconnects l now = (case link_tick l now False of (l1, a) \<Rightarrow> (l1, a = LINK_ACT_RECONNECT))"

lemma link_tick_reconnect:
  "snd (link_tick l now tr) = LINK_ACT_RECONNECT \<longleftrightarrow>
     l_state l = LINK_LOST \<and> l_data_seq l = l_seq_at_entry l \<and> l_next_attempt l \<le> now"
  by (auto simp: link_tick_def Let_def split: link_state.splits)

lemma link_tick_inv: "link_inv l \<Longrightarrow> link_inv (fst (link_tick l now tr))"
  by (auto simp: link_inv_def link_tick_def Let_def link_enter_def link_streaming_def link_consts
      split: link_state.splits)

interpretation ladder: retry_ladder l_next_attempt l_backoff tick_reconnects link_attempted
  RECONNECT_BACKOFF_MIN_SEC RECONNECT_BACKOFF_MAX_SEC link_inv
proof
  show "l_next_attempt s \<le> now" if "link_inv s" "snd (tick_reconnects s now)" for s now
    using that link_tick_reconnect[of s now False] by (auto simp: tick_reconnects_def split: prod.splits)
  show "link_inv (fst (tick_reconnects s now))" if "link_inv s" for s now
    using link_tick_inv[OF that, of now False] by (auto simp: tick_reconnects_def split: prod.splits)
qed (auto simp: link_attempted_def link_enter_def link_inv_def link_consts Let_def)

section \<open>The schedule of attempts\<close>

text \<open>The time of the first attempt ordered by ticks one second apart, with the key down at
the times \<open>tr\<close>.\<close>

primrec first_retry :: "(int \<Rightarrow> bool) \<Rightarrow> nat \<Rightarrow> int \<Rightarrow> link \<Rightarrow> int option" where
  "first_retry tr 0 t l = None"
| "first_retry tr (Suc n) t l = (case link_tick l t (tr t) of (l1, a) \<Rightarrow>
     if a = LINK_ACT_RECONNECT then Some t else first_retry tr n (t + 1) l1)"

lemma first_retry_lost:
  "\<lbrakk>l_state l = LINK_LOST; l_data_seq l = l_seq_at_entry l; m = max t (l_next_attempt l); m - t < int n\<rbrakk>
   \<Longrightarrow> first_retry tr n t l = Some m"
proof (induction n arbitrary: t)
  case (Suc n)
  show ?case
  proof (cases "l_next_attempt l \<le> t")
    case True
    thus ?thesis using Suc.prems by (simp add: link_tick_def Let_def)
  next
    case False
    hence "link_tick l t (tr t) = (l, LINK_ACT_NOTHING)" using Suc.prems by (simp add: link_tick_def Let_def)
    thus ?thesis using Suc.IH[of "t + 1"] Suc.prems False by simp
  qed
qed simp

lemma first_retry_starting:
  "\<lbrakk>l_state l = LINK_STARTING; l_data_seq l = l_seq_at_entry l; l_attempt l \<noteq> 0; \<forall>x \<ge> t. \<not> tr x;
    t \<le> l_state_since l + 10; m = max (l_state_since l + 11) (l_next_attempt l); m - t < int n\<rbrakk>
   \<Longrightarrow> first_retry tr n t l = Some m"
proof (induction n arbitrary: t)
  case (Suc n)
  have off: "\<not> tr t" using Suc.prems(4) by simp
  show ?case
  proof (cases "t = l_state_since l + 10")
    case True
    have "link_tick l t (tr t) = (link_enter l LINK_LOST t, LINK_ACT_NOTHING)"
      using Suc.prems True off by (simp add: link_tick_def Let_def link_consts link_enter_def)
    moreover have "first_retry tr n (t + 1) (link_enter l LINK_LOST t) = Some m"
      using Suc.prems True by (intro first_retry_lost) (auto simp: link_enter_def)
    ultimately show ?thesis by simp
  next
    case False
    hence "link_tick l t (tr t) = (l, LINK_ACT_NOTHING)"
      using Suc.prems off by (simp add: link_tick_def Let_def link_consts)
    thus ?thesis using Suc.IH[of "t + 1"] Suc.prems False by simp
  qed
qed simp

text \<open>With the key down the wait for the first block starts again at every tick.\<close>

lemma first_retry_keyed:
  "\<lbrakk>l_state l = LINK_STARTING; l_data_seq l = l_seq_at_entry l; l_attempt l \<noteq> 0; \<forall>x. tr x \<longleftrightarrow> x \<le> u;
    l_state_since l = t - 1; t - 1 \<le> u; m = max (u + 11) (l_next_attempt l); m - t < int n\<rbrakk>
   \<Longrightarrow> first_retry tr n t l = Some m"
proof (induction n arbitrary: t l)
  case (Suc n)
  show ?case
  proof (cases "t \<le> u")
    case True
    let ?l = "l\<lparr>l_last_data := t, l_state_since := t\<rparr>"
    have "link_tick l t (tr t) = (?l, LINK_ACT_NOTHING)"
      using Suc.prems True by (simp add: link_tick_def Let_def)
    thus ?thesis using Suc.IH[of ?l "t + 1"] Suc.prems True by simp
  next
    case False
    thus ?thesis using Suc.prems by (intro first_retry_starting) auto
  qed
qed simp

lemma attempted_backoff_eq: "l_backoff (link_attempted l now) = min 60 (2 * l_backoff l)"
  by (simp add: link_attempted_def link_enter_def Let_def link_consts)

text \<open>A link just reset, for the examples.\<close>

definition lost_link :: link where
  "lost_link = (link_reset \<lparr>l_state = LINK_IDLE, l_state_since = 0, l_last_data = 0, l_data_seq = 7,
     l_seq_at_entry = 0, l_next_attempt = 0, l_backoff = 0, l_attempt = 0\<rparr> 0)"

section \<open>Reachable states\<close>

text \<open>A link from its reset on: ticks at any time and in any transmit state, blocks
arriving, the operator's Retry now, and attempts when they are ordered. With it goes the time of
the last attempt, unless the operator asked for another since.\<close>

inductive link_reach :: "link \<Rightarrow> int option \<Rightarrow> bool" where
  start: "link_reach (link_reset l t) None"
| tick: "link_reach l a \<Longrightarrow> link_tick l t tr = (l', LINK_ACT_NOTHING) \<Longrightarrow> link_reach l' a"
| data: "link_reach l a \<Longrightarrow> link_reach (l\<lparr>l_data_seq := l_data_seq l + 1, l_last_data := t\<rparr>) a"
| attempt: "link_reach l a \<Longrightarrow> link_tick l t tr = (l', LINK_ACT_RECONNECT) \<Longrightarrow>
    link_reach (link_attempted l' t') (Some t')"
| retry_now: "link_reach l a \<Longrightarrow> link_reach (link_retry_now l t) None"

definition reach_inv :: "link \<Rightarrow> int option \<Rightarrow> bool" where
  "reach_inv l a \<longleftrightarrow> link_inv l \<and> 0 \<le> l_attempt l \<and>
     (0 < l_attempt l \<longrightarrow> l_state l \<noteq> LINK_STREAMING \<and>
        (\<forall>t. a = Some t \<longrightarrow> l_next_attempt l = t + FIRST_DATA_TIMEOUT_SEC + l_backoff l))"

lemma link_tick_reach_inv:
  assumes "reach_inv l a" "link_tick l t tr = (l', x)"
  shows "reach_inv l' a"
proof -
  have "link_inv l'" using link_tick_inv[of l t tr] assms by (simp add: reach_inv_def)
  thus ?thesis using assms
    by (cases "l_state l") (auto simp: reach_inv_def link_tick_def Let_def link_streaming_def link_enter_def
        split: if_splits)
qed

lemma link_reach_inv: "link_reach l a \<Longrightarrow> reach_inv l a"
proof (induction rule: link_reach.induct)
  case (start l t)
  thus ?case by (simp add: reach_inv_def link_reset_def link_enter_def link_inv_def link_consts)
next
  case (tick l a t tr l')
  thus ?case using link_tick_reach_inv by blast
next
  case (data l a t)
  thus ?case by (simp add: reach_inv_def link_inv_def)
next
  case (attempt l a t tr l' t')
  have i: "reach_inv l' a" using link_tick_reach_inv attempt by blast
  hence "link_inv (link_attempted l' t')" using ladder.attempted_inv by (simp add: reach_inv_def)
  thus ?case using i
    by (simp add: reach_inv_def link_attempted_def link_enter_def Let_def)
next
  case (retry_now l a t)
  thus ?case by (simp add: reach_inv_def link_retry_now_def link_enter_def link_inv_def Let_def)
qed

section \<open>Properties\<close>

text \<open>After the n-th attempt since the watchdog was armed the backoff is 2 to
the n seconds, at most a minute: 1, 2, 4, 8, 16, 32, 60, 60 and so on.\<close>

theorem backoff_doubles_to_a_minute:
  "l_backoff (fold (\<lambda>t l. link_attempted l t) ts (link_reset l now)) = min 60 (2 ^ length ts)"
proof (induction ts rule: rev_induct)
  case Nil
  thus ?case by (simp add: link_reset_def link_enter_def link_consts)
next
  case (snoc t ts)
  have "(1 :: int) \<le> 2 ^ length ts" by simp
  thus ?case using snoc by (simp add: attempted_backoff_eq min_def)
qed



text \<open>C34: The watchdog never hammers the device: in every state the link can
reach, an attempt that follows another, with no healthy stream and no Retry now of the operator in
between, is ordered at least ten seconds plus the current backoff after it, whatever the ticks, the
transmit state and the blocks that arrived; and the backoff is between one second and a minute.\<close>

theorem attempts_keep_their_distance:
  assumes "link_reach l (Some t0)" "link_tick l t tr = (l', LINK_ACT_RECONNECT)" "0 < l_attempt l"
  shows "t0 + FIRST_DATA_TIMEOUT_SEC + l_backoff l \<le> t \<and> 1 \<le> l_backoff l \<and> l_backoff l \<le> 60"
  using link_reach_inv[OF assms(1)] link_tick_reconnect[of l t tr] assms(2,3)
  by (auto simp: reach_inv_def link_inv_def link_consts)

text \<open>After Retry now the next tick may order one.\<close>

lemma retry_now_is_not_held_back:
  "l_state l = LINK_STARTING \<Longrightarrow> snd (link_tick (link_retry_now l t) t tr) = LINK_ACT_RECONNECT"
  by (simp add: link_tick_reconnect link_retry_now_def link_enter_def Let_def)

theorem attempts_keep_their_distance_witness:
  "\<exists>l l' t. link_reach l (Some 11) \<and> link_tick l 23 False = (l', LINK_ACT_RECONNECT)
     \<and> 11 + FIRST_DATA_TIMEOUT_SEC + l_backoff l \<le> 23"
proof -
  have 0: "link_reach lost_link None" unfolding lost_link_def by (rule link_reach.start)
  define l1 where "l1 = fst (link_tick lost_link 10 False)"
  have 1: "link_reach l1 None"
    by (rule link_reach.tick[OF 0, of 10 False])
      (simp add: l1_def lost_link_def link_reset_def link_enter_def link_tick_def Let_def link_consts)
  define l2 where "l2 = link_attempted (fst (link_tick l1 11 False)) 11"
  have 2: "link_reach l2 (Some 11)" unfolding l2_def
    by (rule link_reach.attempt[OF 1, of 11 False])
      (simp add: l1_def lost_link_def link_reset_def link_enter_def link_tick_def Let_def link_consts)
  define l3 where "l3 = fst (link_tick l2 21 False)"
  have 3: "link_reach l3 (Some 11)"
    by (rule link_reach.tick[OF 2, of 21 False])
      (simp add: l3_def l2_def l1_def lost_link_def link_reset_def link_enter_def link_tick_def
        link_attempted_def Let_def link_consts)
  have a: "0 < l_attempt l3" "\<exists>l'. link_tick l3 23 False = (l', LINK_ACT_RECONNECT)"
    by (simp_all add: l3_def l2_def l1_def lost_link_def link_reset_def link_enter_def link_tick_def
        link_attempted_def Let_def link_consts)
  then obtain l' where l': "link_tick l3 23 False = (l', LINK_ACT_RECONNECT)" by blast
  from attempts_keep_their_distance[OF 3 l' a(1)] 3 l' show ?thesis by auto
qed

text \<open>The grace period after a transmission is lost. A link that was streaming
before the key went down and has delivered nothing for three seconds is declared lost by
the first watchdog tick after the key comes up, although the tick before it, with the key
still down, had refreshed the clock: the watchdog overwrites the refreshed time with that
of the last block. The decision alone would have kept the link.\<close>

theorem grace_period_lost_after_transmission:
  assumes "l_state (wd_link w) = LINK_STREAMING" "wd_data_seq w = l_seq_at_entry (wd_link w)"
    and "wd_last_data_sec w + DISCONNECT_TIMEOUT_SEC \<le> t" "proto \<noteq> PROTOCOL_FAKE"
  shows "(let w1 = fst (watchdog_cb t t True (Some proto) w)
          in l_state (wd_link w1) = LINK_STREAMING \<and> l_last_data (wd_link w1) = t
           \<and> l_state (fst (link_tick (wd_link w1) (t + 1) False)) = LINK_STREAMING
           \<and> l_state (wd_link (fst (watchdog_cb (t + 1) (t + 1) False (Some proto) w1))) = LINK_LOST)"
  using assms
  by (simp add: watchdog_cb_def link_tick_def Let_def banner_update_def link_enter_def link_consts)

definition watchdog0 :: watchdog where
  "watchdog0 = \<lparr>wd_link = lost_link\<lparr>l_state := LINK_STREAMING, l_seq_at_entry := 9\<rparr>, wd_data_seq = 9,
     wd_last_data_sec = 20, wd_auto_answer = RECONNECT_ASK, wd_watch_fake = False,
     wd_banner_shown = False, wd_timer_armed = True\<rparr>"

theorem grace_period_lost_after_transmission_witness:
  "l_state (wd_link (fst (watchdog_cb 31 31 False (Some PROTOCOL_SOAPYSDR)
     (fst (watchdog_cb 30 30 True (Some PROTOCOL_SOAPYSDR) watchdog0))))) = LINK_LOST"
  using grace_period_lost_after_transmission[of watchdog0 30 PROTOCOL_SOAPYSDR]
  by (simp add: watchdog0_def Let_def link_consts)

end
