(* ===== verification/C_Strings.thy ===== *)
theory C_Strings
  imports Prelude "HOL-Library.Char_ord"
begin

text \<open>The string functions of the C library the modelled code calls, on strings without
the terminating null: \<open>fgets\<close>, \<open>strtok\<close>, \<open>strstr\<close>, the
character classes of the C locale, \<open>atoi\<close> and the decimal conversions of
\<open>printf\<close>. A buffer of \<open>n\<close> characters holds a string of
\<open>n - 1\<close>, so \<open>snprintf\<close> into it is \<open>take (n - 1)\<close>.\<close>

section \<open>Characters\<close>

definition newline :: char where "newline = CHR 0x0A"

definition isspace_c :: "char \<Rightarrow> bool" where
  "isspace_c c = (c = CHR '' '' \<or> (9 \<le> (of_char c :: nat) \<and> (of_char c :: nat) \<le> 13))"

definition isdigit_c :: "char \<Rightarrow> bool" where
  "isdigit_c c = (48 \<le> (of_char c :: nat) \<and> (of_char c :: nat) \<le> 57)"

definition toupper_c :: "char \<Rightarrow> char" where
  "toupper_c c = (if 97 \<le> (of_char c :: nat) \<and> (of_char c :: nat) \<le> 122 then char_of ((of_char c :: nat) - 32) else c)"

definition tolower_c :: "char \<Rightarrow> char" where
  "tolower_c c = (if of_char c \<in> {65 .. 90 :: nat} then char_of (of_char c + 32 :: nat) else c)"

definition strcaseeq :: "string \<Rightarrow> string \<Rightarrow> bool" where
  "strcaseeq a b = (map toupper_c a = map toupper_c b)"

section \<open>Lines and tokens\<close>

text \<open>\<open>fgets\<close> into a buffer for \<open>n\<close> characters: up to and including the
next newline.\<close>

fun fgets :: "nat \<Rightarrow> string \<Rightarrow> string \<times> string" where
  "fgets 0 s = ([], s)"
| "fgets (Suc n) [] = ([], [])"
| "fgets (Suc n) (c # cs) =
     (if c = newline then ([c], cs) else case fgets n cs of (a, b) \<Rightarrow> (c # a, b))"

text \<open>\<open>strtok\<close> with one delimiter: leading delimiters are skipped, the
token ends at the next one, which is consumed.\<close>

definition strtok :: "char \<Rightarrow> string \<Rightarrow> (string \<times> string) option" where
  "strtok d s = (let s1 = dropWhile (\<lambda>c. c = d) s in
     if s1 = [] then None
     else Some (takeWhile (\<lambda>c. c \<noteq> d) s1, drop 1 (dropWhile (\<lambda>c. c \<noteq> d) s1)))"

lemma fgets_length: "length (snd (fgets n s)) \<le> length s"
  by (induction n s rule: fgets.induct) (auto split: prod.splits)

lemma fgets_progress: "s \<noteq> [] \<Longrightarrow> 0 < n \<Longrightarrow> length (snd (fgets n s)) < length s"
  using fgets_length by (cases s; cases n) (auto split: prod.splits simp: less_Suc_eq_le intro: order_trans,
    metis snd_conv)

text \<open>The loop over a file with a buffer that holds \<open>n\<close> characters.\<close>

function read_lines :: "nat \<Rightarrow> string \<Rightarrow> string list" where
  "read_lines n s = (if s = [] \<or> n = 0 then [] else fst (fgets n s) # read_lines n (snd (fgets n s)))"
  by pat_completeness auto
termination
  by (relation "measure (\<lambda>(n, s). length s)") (use fgets_progress in auto)

declare read_lines.simps [simp del]

lemma fgets_line:
  "newline \<notin> set l \<Longrightarrow> length l < n \<Longrightarrow> fgets n (l @ newline # rest) = (l @ [newline], rest)"
proof (induction l arbitrary: n)
  case Nil thus ?case by (cases n) auto
next
  case (Cons c l) thus ?case by (cases n) auto
qed

lemma takeWhile_upto: "d \<notin> set k \<Longrightarrow> takeWhile (\<lambda>c. c \<noteq> d) (k @ d # r) = k"
  by (induction k) auto

lemma dropWhile_upto: "d \<notin> set k \<Longrightarrow> dropWhile (\<lambda>c. c \<noteq> d) (k @ d # r) = d # r"
  by (induction k) auto

lemma strtok_token: "k \<noteq> [] \<Longrightarrow> d \<notin> set k \<Longrightarrow> strtok d (k @ d # r) = Some (k, r)"
  by (cases k) (auto simp: strtok_def Let_def takeWhile_upto dropWhile_upto)

lemma dropWhile_absent: "d \<notin> set k \<Longrightarrow> dropWhile (\<lambda>c. c \<noteq> d) k = []"
  by (induction k) auto

lemma takeWhile_absent: "d \<notin> set k \<Longrightarrow> takeWhile (\<lambda>c. c \<noteq> d) k = k"
  by (induction k) auto

lemma strtok_whole: "k \<noteq> [] \<Longrightarrow> d \<notin> set k \<Longrightarrow> strtok d k = Some (k, [])"
  by (cases k) (auto simp: strtok_def Let_def takeWhile_absent dropWhile_absent)

lemma fgets_split: "fst (fgets n s) @ snd (fgets n s) = s"
  by (induction n s rule: fgets.induct) (auto split: prod.splits)

lemma fgets_long: "newline \<notin> set l \<Longrightarrow> n \<le> length l \<Longrightarrow> fgets n (l @ r) = (take n l, drop n l @ r)"
proof (induction l arbitrary: n)
  case Nil thus ?case by simp
next
  case (Cons c l) thus ?case by (cases n) auto
qed

section \<open>Numbers\<close>

definition digit_char :: "nat \<Rightarrow> char" where
  "digit_char n = char_of (48 + n)"

fun digits :: "nat \<Rightarrow> string" where
  "digits n = (if n < 10 then [digit_char n] else digits (n div 10) @ [digit_char (n mod 10)])"

declare digits.simps [simp del]

text \<open>\<open>%d\<close> and \<open>%+03d\<close>.\<close>

definition fmt_d :: "int \<Rightarrow> string" where
  "fmt_d x = (if x < 0 then ''-'' @ digits (nat (- x)) else digits (nat x))"

definition fmt_plus_03d :: "int \<Rightarrow> string" where
  "fmt_plus_03d x = (let d = digits (nat \<bar>x\<bar>)
     in (if x < 0 then CHR ''-'' else CHR ''+'') # (if length d < 2 then CHR ''0'' # d else d))"

definition digits_value :: "string \<Rightarrow> nat" where
  "digits_value s = foldl (\<lambda>n c. 10 * n + (of_char c - 48)) 0 s"

definition atoi :: "string \<Rightarrow> int" where
  "atoi s = (let s1 = dropWhile isspace_c s;
                 neg = (s1 \<noteq> [] \<and> hd s1 = CHR ''-'');
                 s2 = (if s1 \<noteq> [] \<and> (hd s1 = CHR ''-'' \<or> hd s1 = CHR ''+'') then tl s1 else s1);
                 v = int (digits_value (takeWhile isdigit_c s2))
             in if neg then - v else v)"

lemma of_digit_char [simp]: "n < 10 \<Longrightarrow> (of_char (digit_char n) :: nat) = 48 + n"
  by (simp add: digit_char_def)

lemma isdigit_digit_char [simp]: "n < 10 \<Longrightarrow> isdigit_c (digit_char n)"
  by (simp add: isdigit_c_def)

lemma digits_isdigit: "\<forall>c \<in> set (digits n). isdigit_c c"
  by (induction n rule: digits.induct) (subst digits.simps, auto)

lemma digits_value_digits: "digits_value (digits n) = n"
  by (induction n rule: digits.induct) (subst digits.simps, auto simp: digits_value_def)

lemma digits_not_empty [simp]: "digits n \<noteq> []"
  by (subst digits.simps) auto

lemma digits_length_2: "n < 100 \<Longrightarrow> length (digits n) \<le> 2"
  by (subst digits.simps, subst digits.simps) auto

lemma digits_length_3: "n < 1000 \<Longrightarrow> length (digits n) \<le> 3"
  by (subst digits.simps, subst digits.simps, subst digits.simps) auto

lemma isdigit_not_space: "isdigit_c c \<Longrightarrow> \<not> isspace_c c"
  by (auto simp: isdigit_c_def isspace_c_def)

lemma isdigit_not_sign: "isdigit_c c \<Longrightarrow> c \<noteq> CHR ''-'' \<and> c \<noteq> CHR ''+''"
  by (auto simp: isdigit_c_def)

lemma takeWhile_digits: "\<forall>c \<in> set a. isdigit_c c \<Longrightarrow> r = [] \<or> \<not> isdigit_c (hd r) \<Longrightarrow> takeWhile isdigit_c (a @ r) = a"
  by (cases r) (auto simp: takeWhile_append2 takeWhile_eq_all_conv)

lemma atoi_digits: "r = [] \<or> \<not> isdigit_c (hd r) \<Longrightarrow> atoi (digits n @ r) = int n"
proof -
  assume r: "r = [] \<or> \<not> isdigit_c (hd r)"
  obtain c cs where c: "digits n = c # cs" by (cases "digits n") auto
  have d: "isdigit_c c" using digits_isdigit[of n] c by simp
  have "takeWhile isdigit_c (digits n @ r) = digits n" using takeWhile_digits[OF digits_isdigit r] .
  thus ?thesis using d isdigit_not_space[OF d] isdigit_not_sign[OF d] digits_value_digits[of n]
    by (simp add: atoi_def c Let_def)
qed

lemma atoi_fmt_plus_03d: "r = [] \<or> \<not> isdigit_c (hd r) \<Longrightarrow> atoi (fmt_plus_03d x @ r) = x"
proof -
  assume r: "r = [] \<or> \<not> isdigit_c (hd r)"
  let ?d = "digits (nat \<bar>x\<bar>)"
  let ?e = "if length ?d < 2 then CHR ''0'' # ?d else ?d"
  have e: "\<forall>c \<in> set ?e. isdigit_c c" using digits_isdigit[of "nat \<bar>x\<bar>"] by (auto simp: isdigit_c_def)
  have "digits_value ?e = nat \<bar>x\<bar>" using digits_value_digits[of "nat \<bar>x\<bar>"] by (simp add: digits_value_def)
  moreover have "takeWhile isdigit_c (?e @ r) = ?e" using takeWhile_digits[OF e r] .
  moreover have "\<not> isspace_c (CHR ''-'')" "\<not> isspace_c (CHR ''+'')" by (simp_all add: isspace_c_def)
  ultimately show ?thesis by (auto simp: atoi_def fmt_plus_03d_def Let_def simp del: takeWhile_append)
qed

lemma atoi_fmt_d [simp]: "atoi (fmt_d x) = x"
proof (cases "x < 0")
  case True
  have s: "\<not> isspace_c (CHR ''-'')" by (simp add: isspace_c_def)
  have t: "takeWhile isdigit_c (digits (nat (- x))) = digits (nat (- x))"
    using takeWhile_digits[OF digits_isdigit, of "[]"] by simp
  show ?thesis using True by (simp add: atoi_def fmt_d_def s t digits_value_digits)
next
  case False
  thus ?thesis using atoi_digits[of "[]" "nat x"] by (simp add: fmt_d_def)
qed

lemma append_sep_inject:
  "c \<notin> set a \<Longrightarrow> c \<notin> set b \<Longrightarrow> (a @ c # r = b @ c # s) = (a = b \<and> r = s)"
proof (induction a arbitrary: b)
  case Nil thus ?case by (cases b) auto
next
  case (Cons x a) thus ?case by (cases b) auto
qed

end
