(* ===== verification/Property_Store.thy ===== *)
theory Property_Store
  imports Complex_Main C_Strings "HOL-Library.AList" "HOL-Library.List_Lexorder" "HOL-Library.Char_ord"
begin

text \<open>The settings store of \<open>src/core/property.c\<close>: a table from names to
values, parked and retained tables beside it, the text file it is read from and the way
a file is replaced by a new one.

A hash table is an association list with distinct keys. The file system is a map from
names to contents; a save is the list of the file systems it goes through, one per system
call, so that a crash at any point is a prefix of that list. What can fail (open, write,
flush, close, each rename) is decided by an argument. \<open>g_ascii_strtod\<close> belongs to
GLib and is a parameter; the version line the program writes is the text
\<open>2.00\<close>.\<close>

section \<open>Tables\<close>

type_synonym table = "(string \<times> string) list"

definition tbl_insert :: "string \<Rightarrow> string \<Rightarrow> table \<Rightarrow> table" where
  "tbl_insert k v t = AList.update k v t"

definition tbl_lookup :: "table \<Rightarrow> string \<Rightarrow> string option" where
  "tbl_lookup t k = map_of t k"

record props =
  p_properties :: table
  p_retained :: table
  p_parked :: "table option"
  p_version :: real
  p_parked_version :: real

definition PROPERTY_VERSION :: real where "PROPERTY_VERSION = 2"

definition initProperties :: "props \<Rightarrow> props" where
  "initProperties s = s\<lparr>p_properties := []\<rparr>"

definition getProperty :: "string \<Rightarrow> props \<Rightarrow> string option" where
  "getProperty name s = tbl_lookup (p_properties s) name"

definition setProperty :: "string \<Rightarrow> string \<Rightarrow> props \<Rightarrow> props" where
  "setProperty name v s = s\<lparr>p_properties := tbl_insert name v (p_properties s)\<rparr>"

definition pushPropertyStore :: "props \<Rightarrow> props" where
  "pushPropertyStore s =
     (case p_parked s of Some _ \<Rightarrow> s
      | None \<Rightarrow> s\<lparr>p_parked := Some (p_properties s), p_parked_version := p_version s, p_properties := []\<rparr>)"

definition popPropertyStore :: "props \<Rightarrow> props" where
  "popPropertyStore s =
     (case p_parked s of None \<Rightarrow> s
      | Some t \<Rightarrow> s\<lparr>p_properties := t, p_version := p_parked_version s, p_parked := None\<rparr>)"

definition has_prefix :: "string \<Rightarrow> string \<Rightarrow> bool" where
  "has_prefix pre name = (take (length pre) name = pre)"

definition insert_all :: "table \<Rightarrow> table \<Rightarrow> table" where
  "insert_all new t = fold (\<lambda>(k, v). tbl_insert k v) new t"

definition retainProperties :: "string \<Rightarrow> props \<Rightarrow> props" where
  "retainProperties prefix s =
     s\<lparr>p_retained := insert_all (filter (\<lambda>(k, v). has_prefix prefix k) (p_properties s)) (p_retained s),
       p_properties := filter (\<lambda>(k, v). \<not> has_prefix prefix k) (p_properties s)\<rparr>"

definition releaseRetainedProperties :: "props \<Rightarrow> props" where
  "releaseRetainedProperties s =
     s\<lparr>p_properties := insert_all (p_retained s) (p_properties s), p_retained := []\<rparr>"

section \<open>Reading a file\<close>

definition parse_line :: "string \<Rightarrow> (string \<times> string) option" where
  "parse_line line =
     (if line \<noteq> [] \<and> hd line = CHR ''#'' then None
      else case strtok (CHR ''='') line of None \<Rightarrow> None
        | Some (name, rest) \<Rightarrow> (case strtok newline rest of None \<Rightarrow> None
            | Some (v, _) \<Rightarrow> Some (name, v)))"

definition comma_to_dot :: "string \<Rightarrow> string" where
  "comma_to_dot v = map (\<lambda>c. if c = CHR '','' then CHR ''.'' else c) (take 63 v)"

definition propToDouble :: "(string \<Rightarrow> real) \<Rightarrow> string option \<Rightarrow> real" where
  "propToDouble strtod v = (case v of None \<Rightarrow> 0 | Some s \<Rightarrow> strtod (comma_to_dot s))"

definition load_line :: "(string \<Rightarrow> real) \<Rightarrow> string \<Rightarrow> props \<times> bool \<Rightarrow> props \<times> bool" where
  "load_line strtod line sa = (case sa of (s, any) \<Rightarrow>
     case parse_line line of None \<Rightarrow> (s, any)
     | Some (name, v) \<Rightarrow>
         (let s1 = setProperty name v s
          in (if name = ''property_version'' then s1\<lparr>p_version := propToDouble strtod (Some v)\<rparr> else s1, True)))"

type_synonym files = "string \<Rightarrow> string option"

definition load_one :: "(string \<Rightarrow> real) \<Rightarrow> files \<Rightarrow> string \<Rightarrow> props \<Rightarrow> props \<times> bool" where
  "load_one strtod fs filename s =
     (case fs filename of None \<Rightarrow> (s, False)
      | Some content \<Rightarrow> fold (load_line strtod) (read_lines 255 content) (s, False))"

definition loadProperties :: "(string \<Rightarrow> real) \<Rightarrow> files \<Rightarrow> string \<Rightarrow> props \<Rightarrow> props" where
  "loadProperties strtod fs filename s =
     (let s0 = s\<lparr>p_properties := [], p_version := 0\<rparr>;
          s1 = (case load_one strtod fs filename s0 of (s', ok) \<Rightarrow>
                  if ok then s' else fst (load_one strtod fs (filename @ ''.bak'') s'))
      in if p_version s1 \<noteq> PROPERTY_VERSION then s1\<lparr>p_properties := []\<rparr> else s1)"

section \<open>Saving\<close>

text \<open>Which of the system calls of a save fail. \<open>sf_write\<close> is the number
of the first line whose write fails, if any.\<close>

record save_faults =
  sf_open :: bool
  sf_write :: "nat option"
  sf_flush :: bool
  sf_close :: bool
  sf_backup :: bool
  sf_rename :: bool
  sf_restore :: bool

definition prop_line :: "string \<times> string \<Rightarrow> string" where
  "prop_line kv = fst kv @ ''='' @ snd kv @ [newline]"

definition sorted_items :: "table \<Rightarrow> (string \<times> string) list" where
  "sorted_items t = map (\<lambda>k. (k, the (map_of t k))) (sort (map fst t))"

definition file_text :: "table \<Rightarrow> string" where
  "file_text t = concat (map prop_line (sorted_items t))"

text \<open>The contents of the temporary file while the lines are written; it stops
after the line whose write fails.\<close>

fun write_states :: "nat option \<Rightarrow> string \<Rightarrow> string list \<Rightarrow> string list" where
  "write_states fault acc [] = []"
| "write_states fault acc (l # ls) =
     (if fault = Some 0 then [acc]
      else (acc @ l) # write_states (map_option (\<lambda>n. n - 1) fault) (acc @ l) ls)"

definition write_ok :: "nat option \<Rightarrow> string list \<Rightarrow> bool" where
  "write_ok fault ls = (case fault of None \<Rightarrow> True | Some n \<Rightarrow> length ls \<le> n)"

text \<open>Moving the finished file into place: the file systems passed through, and
whether the settings reached the disk.\<close>

definition rename_file :: "string \<Rightarrow> string \<Rightarrow> files \<Rightarrow> files" where
  "rename_file a b fs = (fs(b := fs a))(a := None)"

definition move_into_place :: "save_faults \<Rightarrow> string \<Rightarrow> files \<Rightarrow> files list \<times> bool" where
  "move_into_place f filename fs =
     (let tmp = filename @ ''.tmp''; bak = filename @ ''.bak'';
          had_old = (fs filename \<noteq> None);
          s1 = (if had_old then [fs(bak := None)] else []);
          fs1 = last (fs # s1);
          backed = (had_old \<and> \<not> sf_backup f);
          s2 = (if backed then [rename_file filename bak fs1] else []);
          fs2 = last (fs1 # s2)
      in if \<not> sf_rename f then (s1 @ s2 @ [rename_file tmp filename fs2], True)
         else (let fs3 = fs2(tmp := None);
                   s4 = (if backed \<and> \<not> sf_restore f then [rename_file bak filename fs3] else [])
               in (s1 @ s2 @ [fs3] @ s4, False)))"

definition saveProperties :: "save_faults \<Rightarrow> files \<Rightarrow> string \<Rightarrow> props \<Rightarrow> props \<times> files list \<times> bool" where
  "saveProperties f fs filename s =
     (let s1 = setProperty ''property_version'' ''2.00'' s;
          tmp = filename @ ''.tmp'';
          lines = map prop_line (sorted_items (p_properties s1)) in
      if sf_open f then (s1, [fs], False)
      else
        (let texts = [] # write_states (sf_write f) [] lines;
             steps = map (\<lambda>t. fs(tmp \<mapsto> t)) texts;
             written = last steps in
         if write_ok (sf_write f) lines \<and> \<not> sf_flush f \<and> \<not> sf_close f
         then (case move_into_place f filename written of (moves, ok) \<Rightarrow>
                 (s1, fs # steps @ moves, ok))
         else (s1, fs # steps @ [written(tmp := None)], False)))"

definition setPropertyDouble :: "(real \<Rightarrow> string) \<Rightarrow> string \<Rightarrow> real \<Rightarrow> props \<Rightarrow> props" where
  "setPropertyDouble formatd name v s = setProperty name (formatd v) s"

lemma rev_map_of: "distinct (map fst xs) \<Longrightarrow> map_of (rev xs) = map_of xs"
proof (induction xs)
  case (Cons x xs)
  have "map_of xs (fst x) = None" using Cons.prems by (simp add: map_of_eq_None_iff)
  thus ?case using Cons by (auto simp: map_add_def fun_eq_iff split: option.splits)
qed simp

section \<open>The contract of a settings store\<close>

locale kv_store =
  fixes get :: "'k \<Rightarrow> 's \<Rightarrow> 'v option" and put :: "'k \<Rightarrow> 'v \<Rightarrow> 's \<Rightarrow> 's"
  assumes get_put: "get k (put k' v s) = (if k = k' then Some v else get k s)"
begin

definition put_all :: "('k \<times> 'v) list \<Rightarrow> 's \<Rightarrow> 's" where
  "put_all kvs s = fold (\<lambda>(k, v). put k v) kvs s"

lemma get_put_all: "get k (put_all kvs s) = (case map_of (rev kvs) k of Some v \<Rightarrow> Some v | None \<Rightarrow> get k s)"
  by (induction kvs arbitrary: s) (auto simp: put_all_def get_put map_add_def split: option.splits)

lemma get_put_all_distinct:
  "distinct (map fst kvs) \<Longrightarrow> get k (put_all kvs s) = (case map_of kvs k of Some v \<Rightarrow> Some v | None \<Rightarrow> get k s)"
  using get_put_all[of k kvs s] by (simp add: rev_map_of)

lemma put_all_append: "put_all (xs @ ys) s = put_all ys (put_all xs s)"
  by (simp add: put_all_def)

lemma put_all_concat: "fold (\<lambda>x. put_all (g x)) xs s = put_all (concat (map g xs)) s"
  by (induction xs arbitrary: s) (simp_all add: put_all_append, simp add: put_all_def)

lemma put_all_two: "put k2 v2 (put k1 v1 s) = put_all [(k1, v1), (k2, v2)] s"
  by (simp add: put_all_def)

lemma get_put_all_only:
  assumes "(k, v) \<in> set kvs" "\<And>v'. (k, v') \<in> set kvs \<Longrightarrow> v' = v"
  shows "get k (put_all kvs s) = Some v"
proof -
  obtain v' where "map_of (rev kvs) k = Some v'" using assms(1)
    by (metis map_of_eq_None_iff not_Some_eq fst_conv image_eqI set_rev)
  thus ?thesis using assms(2) get_put_all[of k kvs s] map_of_SomeD by fastforce
qed

lemma get_put_all_other: "k \<notin> fst ` set kvs \<Longrightarrow> get k (put_all kvs s) = get k s"
  using map_of_eq_None_iff[of "rev kvs" k] by (simp add: get_put_all)

end

lemma lookup_insert: "tbl_lookup (tbl_insert k' v t) k = (if k = k' then Some v else tbl_lookup t k)"
  by (simp add: tbl_lookup_def tbl_insert_def update_conv)

interpretation tbl: kv_store "\<lambda>k t. tbl_lookup t k" tbl_insert
  by unfold_locales (simp add: lookup_insert)

interpretation store: kv_store getProperty setProperty
  by unfold_locales (simp add: getProperty_def setProperty_def lookup_insert)

lemma insert_all_put_all: "insert_all new t = tbl.put_all new t"
  by (simp add: insert_all_def tbl.put_all_def)

lemma distinct_insert: "distinct (map fst t) \<Longrightarrow> distinct (map fst (tbl_insert k v t))"
  by (simp add: tbl_insert_def distinct_update)

lemma insert_all_lookup:
  "distinct (map fst new) \<Longrightarrow>
   tbl_lookup (insert_all new t) k = (case map_of new k of Some v \<Rightarrow> Some v | None \<Rightarrow> tbl_lookup t k)"
  unfolding insert_all_put_all by (rule tbl.get_put_all_distinct)

lemma distinct_insert_all: "distinct (map fst t) \<Longrightarrow> distinct (map fst (insert_all new t))"
  unfolding insert_all_def by (induction new arbitrary: t) (auto simp: distinct_insert)

lemma map_of_filter_prefix:
  "map_of (filter (\<lambda>(k, v). has_prefix p k) t) k = (if has_prefix p k then map_of t k else None)"
  by (induction t) auto

lemma put_all_retained: "p_retained (store.put_all kvs s) = p_retained s"
  unfolding store.put_all_def by (induction kvs arbitrary: s) (auto simp: setProperty_def)

section \<open>Reading back what was written\<close>

definition line_ok :: "string \<times> string \<Rightarrow> bool" where
  "line_ok kv \<longleftrightarrow> fst kv \<noteq> [] \<and> hd (fst kv) \<noteq> CHR ''#'' \<and> CHR ''='' \<notin> set (fst kv)
     \<and> newline \<notin> set (fst kv) \<and> snd kv \<noteq> [] \<and> newline \<notin> set (snd kv)
     \<and> length (fst kv) + length (snd kv) + 2 \<le> 255"

lemma parse_prop_line: "line_ok kv \<Longrightarrow> parse_line (prop_line kv) = Some kv"
  using strtok_token[of "fst kv" "CHR ''=''" "snd kv @ [newline]"] strtok_token[of "snd kv" newline "[]"]
  by (cases kv; cases "fst kv") (auto simp: parse_line_def prop_line_def line_ok_def)

lemma read_prop_lines:
  "\<forall>kv \<in> set kvs. line_ok kv \<Longrightarrow> read_lines 255 (concat (map prop_line kvs)) = map prop_line kvs"
proof (induction kvs)
  case (Cons kv kvs)
  have nl: "newline \<noteq> CHR ''=''" by (simp add: newline_def)
  have "fgets 255 (prop_line kv @ concat (map prop_line kvs)) = (prop_line kv, concat (map prop_line kvs))"
    using fgets_line[of "fst kv @ ''='' @ snd kv" 255 "concat (map prop_line kvs)"] Cons.prems nl
    by (auto simp: line_ok_def prop_line_def)
  moreover have "prop_line kv @ concat (map prop_line kvs) \<noteq> []" by (simp add: prop_line_def)
  ultimately show ?case using Cons read_lines.simps[of 255 "prop_line kv @ concat (map prop_line kvs)"] by simp
qed (simp add: read_lines.simps)

lemma load_lines_properties:
  "\<forall>kv \<in> set kvs. line_ok kv \<Longrightarrow>
   p_properties (fst (fold (load_line strtod) (map prop_line kvs) (s, a))) = insert_all kvs (p_properties s)
   \<and> snd (fold (load_line strtod) (map prop_line kvs) (s, a)) = (a \<or> kvs \<noteq> [])
   \<and> p_version (fst (fold (load_line strtod) (map prop_line kvs) (s, a))) =
      (case map_of (rev kvs) ''property_version'' of Some v \<Rightarrow> propToDouble strtod (Some v) | None \<Rightarrow> p_version s)"
proof (induction kvs arbitrary: s a)
  case (Cons kv kvs)
  obtain k v where kv: "kv = (k, v)" by (cases kv)
  have p: "parse_line (prop_line (k, v)) = Some (k, v)" using parse_prop_line Cons.prems kv by auto
  let ?s = "setProperty k v s"
  let ?s1 = "if k = ''property_version'' then ?s\<lparr>p_version := propToDouble strtod (Some v)\<rparr> else ?s"
  have l: "load_line strtod (prop_line kv) (s, a) = (?s1, True)"
    unfolding kv load_line_def p by (simp add: Let_def)
  show ?case using Cons.IH[of ?s1 True] Cons.prems unfolding list.map fold.simps o_apply l
    by (auto simp: kv insert_all_def setProperty_def map_add_def split: option.splits)
qed (simp add: insert_all_def)

lemma sorted_items_map_of:
  "map_of (sorted_items t) = map_of t"
proof
  fix k
  show "map_of (sorted_items t) k = map_of t k"
    unfolding sorted_items_def map_of_map_restrict
    using map_of_eq_None_iff[of t k] by (cases "map_of t k") (auto simp: restrict_map_def)
qed

lemma distinct_sorted_items: "distinct (map fst t) \<Longrightarrow> distinct (map fst (sorted_items t))"
  by (simp add: sorted_items_def o_def)

definition props_ok :: "props \<Rightarrow> bool" where
  "props_ok s \<longleftrightarrow> distinct (map fst (p_properties s))
     \<and> (\<forall>k v. getProperty k s = Some v \<longrightarrow> line_ok (k, v))"

lemma sorted_items_ok:
  assumes "props_ok s"
  shows "\<forall>kv \<in> set (sorted_items (p_properties s)). line_ok kv"
proof
  fix kv assume kv: "kv \<in> set (sorted_items (p_properties s))"
  obtain k v where e: "kv = (k, v)" by (cases kv)
  have "k \<in> set (map fst (p_properties s))" "v = the (map_of (p_properties s) k)"
    using kv by (auto simp: sorted_items_def e)
  hence "map_of (p_properties s) k = Some v" by (metis map_of_eq_None_iff option.collapse set_map)
  thus "line_ok kv" using assms by (simp add: props_ok_def getProperty_def tbl_lookup_def e)
qed

lemma version_line_ok: "line_ok (''property_version'', ''2.00'')"
  by (simp add: line_ok_def newline_def)

lemma props_ok_version:
  assumes "props_ok s" shows "props_ok (setProperty ''property_version'' ''2.00'' s)"
proof -
  have "distinct (map fst (p_properties (setProperty ''property_version'' ''2.00'' s)))"
    using assms by (simp add: props_ok_def setProperty_def distinct_insert)
  thus ?thesis using assms version_line_ok by (auto simp: props_ok_def store.get_put split: if_splits)
qed

lemma load_file_text:
  assumes ok: "props_ok s" and v: "getProperty ''property_version'' s = Some ''2.00''"
    and d: "strtod ''2.00'' = 2" and fs: "fs f = Some (file_text (p_properties s))"
  shows "getProperty k (loadProperties strtod fs f u) = getProperty k s"
proof -
  let ?kvs = "sorted_items (p_properties s)" and ?u = "u\<lparr>p_properties := [], p_version := 0\<rparr>"
  let ?r = "fold (load_line strtod) (map prop_line ?kvs) (?u, False)"
  have items: "\<forall>kv \<in> set ?kvs. line_ok kv" using sorted_items_ok[OF ok] .
  have di: "distinct (map fst ?kvs)" using ok distinct_sorted_items by (simp add: props_ok_def)
  have mo: "map_of ?kvs = map_of (p_properties s)" by (rule sorted_items_map_of)
  have vv: "map_of ?kvs ''property_version'' = Some ''2.00''"
    using v by (simp add: mo getProperty_def tbl_lookup_def)
  have ne: "?kvs \<noteq> []" using vv by auto
  have one: "load_one strtod fs f ?u = ?r" using fs read_prop_lines[OF items] by (simp add: load_one_def file_text_def)
  note r = load_lines_properties[OF items, of strtod ?u False]
  have ver: "p_version (fst ?r) = 2"
    using r vv rev_map_of[OF di] d by (simp add: propToDouble_def comma_to_dot_def)
  have "p_properties (fst ?r) = tbl.put_all ?kvs []" using r by (simp add: insert_all_put_all)
  hence "tbl_lookup (p_properties (fst ?r)) k = map_of (p_properties s) k"
    using tbl.get_put_all_distinct[OF di, where k = k and s = "[]"] mo by (simp add: tbl_lookup_def split: option.splits)
  moreover have "loadProperties strtod fs f u = fst ?r"
  proof -
    obtain a b where ab: "?r = (a, b)" by (cases ?r)
    thus ?thesis using one r ne ver by (simp add: loadProperties_def Let_def PROPERTY_VERSION_def)
  qed
  ultimately show ?thesis by (simp add: getProperty_def tbl_lookup_def)
qed

section \<open>Replacing the file\<close>

lemma last_map: "xs \<noteq> [] \<Longrightarrow> last (map f xs) = f (last xs)"
  by (induction xs) auto

lemma write_states_last:
  "write_ok fault ls \<Longrightarrow> last (acc # write_states fault acc ls) = acc @ concat ls"
proof (induction ls arbitrary: fault acc)
  case (Cons l ls)
  have "fault \<noteq> Some 0" "write_ok (map_option (\<lambda>n. n - 1) fault) ls"
    using Cons.prems by (auto simp: write_ok_def split: option.splits)
  thus ?case using Cons.IH[of "map_option (\<lambda>n. n - 1) fault" "acc @ l"] by simp
qed simp

text \<open>A file system a save may leave behind: the settings file is the old one or
the new one, or it is missing and the old one is the backup.\<close>

definition recoverable :: "string \<Rightarrow> string \<Rightarrow> string \<Rightarrow> files \<Rightarrow> bool" where
  "recoverable filename old new fs \<longleftrightarrow> fs filename = Some old \<or> fs filename = Some new
     \<or> (fs filename = None \<and> fs (filename @ ''.bak'') = Some old)"

lemma tmp_steps_keep:
  assumes "fs filename = Some old"
  shows "(fs(filename @ ''.tmp'' \<mapsto> t)) filename = Some old"
  using assms by simp

lemma move_into_place_states:
  assumes "fs filename = Some old" "fs (filename @ ''.tmp'') = Some new"
  shows "(\<forall>g \<in> set (fst (move_into_place f filename fs)). recoverable filename old new g)
    \<and> (let g = last (fst (move_into_place f filename fs)) in
        (snd (move_into_place f filename fs) \<longrightarrow> g filename = Some new)
        \<and> (\<not> snd (move_into_place f filename fs) \<and> \<not> sf_restore f \<longrightarrow> g filename = Some old))
    \<and> snd (move_into_place f filename fs) = (\<not> sf_rename f)"
  using assms by (auto simp: move_into_place_def Let_def rename_file_def recoverable_def)

lemma saveProperties_states:
  assumes old: "fs filename = Some old" and p: "saveProperties f fs filename s = (s1, states, ok)"
  shows "(\<forall>g \<in> set states. recoverable filename old (file_text (p_properties s1)) g)
    \<and> (ok \<longrightarrow> last states filename = Some (file_text (p_properties s1)))
    \<and> (\<not> ok \<and> \<not> sf_restore f \<longrightarrow> last states filename = Some old)"
proof (cases "sf_open f")
  case True
  thus ?thesis using p old by (auto simp: saveProperties_def Let_def recoverable_def)
next
  case False
  let ?s1 = "setProperty ''property_version'' ''2.00'' s"
  let ?lines = "map prop_line (sorted_items (p_properties ?s1))"
  let ?steps = "map (\<lambda>t. fs(filename @ ''.tmp'' \<mapsto> t)) ([] # write_states (sf_write f) [] ?lines)"
  let ?new = "file_text (p_properties ?s1)"
  have steps: "\<forall>g \<in> set (fs # ?steps). recoverable filename old ?new g" using old by (auto simp: recoverable_def)
  have s1: "s1 = ?s1" using p False by (auto simp: saveProperties_def Let_def split: if_splits prod.splits)
  show ?thesis
  proof (cases "write_ok (sf_write f) ?lines \<and> \<not> sf_flush f \<and> \<not> sf_close f")
    case True
    have w: "last ?steps = fs(filename @ ''.tmp'' \<mapsto> ?new)"
      using write_states_last[of "sf_write f" ?lines "[]"] True
      by (subst last_map) (simp_all add: file_text_def del: last.simps)
    obtain moves b where m: "move_into_place f filename (last ?steps) = (moves, b)" by fastforce
    have st: "states = fs # ?steps @ moves" "ok = b"
      using p False True m by (auto simp: saveProperties_def Let_def)
    have "moves \<noteq> []" using m by (auto simp: move_into_place_def Let_def split: if_splits)
    thus ?thesis
      using move_into_place_states[of "last ?steps" filename old ?new f] old steps
      unfolding st s1 m by (auto simp: w Let_def simp del: list.map)
  next
    case bad: False
    hence "states = fs # ?steps @ [(last ?steps)(filename @ ''.tmp'' := None)]" "\<not> ok"
      using p False by (auto simp: saveProperties_def Let_def)
    moreover have "last ?steps filename = Some old" using old by (subst last_map) simp_all
    ultimately show ?thesis using steps unfolding s1 by (auto simp: recoverable_def)
  qed
qed

lemma save_ok_content:
  assumes "saveProperties f fs filename s = (s1, states, True)"
  shows "s1 = setProperty ''property_version'' ''2.00'' s
    \<and> last states filename = Some (file_text (p_properties s1))"
proof -
  let ?s1 = "setProperty ''property_version'' ''2.00'' s"
  let ?lines = "map prop_line (sorted_items (p_properties ?s1))"
  let ?steps = "map (\<lambda>t. fs(filename @ ''.tmp'' \<mapsto> t)) ([] # write_states (sf_write f) [] ?lines)"
  have o: "\<not> sf_open f" and ok: "write_ok (sf_write f) ?lines \<and> \<not> sf_flush f \<and> \<not> sf_close f"
    using assms by (auto simp: saveProperties_def Let_def split: if_splits prod.splits)
  have w: "last ?steps = fs(filename @ ''.tmp'' \<mapsto> file_text (p_properties ?s1))"
    using write_states_last[of "sf_write f" ?lines "[]"] ok
    by (subst last_map) (simp_all add: file_text_def del: last.simps)
  obtain moves b where m: "move_into_place f filename (last ?steps) = (moves, b)" by fastforce
  have st: "states = fs # ?steps @ moves" "b" "s1 = ?s1"
    using assms o ok m by (auto simp: saveProperties_def Let_def)
  have "moves \<noteq> [] \<and> last moves filename = Some (file_text (p_properties ?s1))"
    using m st(2) unfolding w by (auto simp: move_into_place_def Let_def rename_file_def split: if_splits)
  thus ?thesis using st by (simp del: list.map)
qed

lemma parse_line_no_eq: "CHR ''='' \<notin> set l \<Longrightarrow> parse_line l = None"
proof (cases "l = []")
  case False
  assume "CHR ''='' \<notin> set l"
  moreover have "strtok newline [] = None" by (simp add: strtok_def)
  ultimately show ?thesis using strtok_whole[OF False] by (simp add: parse_line_def)
qed (simp add: parse_line_def strtok_def)

lemma read_lines_no_eq: "CHR ''='' \<notin> set s \<Longrightarrow> l \<in> set (read_lines 255 s) \<Longrightarrow> parse_line l = None"
proof (induction "255 :: nat" s rule: read_lines.induct)
  case (1 s)
  have "set (fst (fgets 255 s)) \<union> set (snd (fgets 255 s)) = set s"
    by (metis fgets_split set_append)
  hence "CHR ''='' \<notin> set (fst (fgets 255 s))" "CHR ''='' \<notin> set (snd (fgets 255 s))" using 1 by auto
  thus ?case using 1 read_lines.simps[of 255 s] parse_line_no_eq by (auto split: if_splits)
qed

lemma fold_load_none:
  "\<forall>l \<in> set ls. parse_line l = None \<Longrightarrow> fold (load_line strtod) ls x = x"
  by (induction ls) (auto simp: load_line_def split: prod.splits)

section \<open>Properties\<close>

text \<open>C17: Settings survive: when a save reports success, loading the file gives
back every setting, provided each fits a line of the loader (a name without equals sign,
newline or leading hash, a value that is not empty, at most 255 characters together with
the separators).\<close>

theorem saved_settings_load_back:
  assumes "props_ok s" "strtod ''2.00'' = 2" "saveProperties f fs filename s = (s1, states, True)"
  shows "getProperty k (loadProperties strtod (last states) filename u) =
    (if k = ''property_version'' then Some ''2.00'' else getProperty k s)"
proof -
  have s1: "s1 = setProperty ''property_version'' ''2.00'' s"
    "last states filename = Some (file_text (p_properties s1))"
    using save_ok_content[OF assms(3)] by auto
  have "getProperty ''property_version'' s1 = Some ''2.00''" by (simp add: s1(1) store.get_put)
  from load_file_text[where strtod = strtod and fs = "last states" and f = filename and s = s1, OF _ this assms(2) s1(2), of k u]
    props_ok_version[OF assms(1)]
  show ?thesis by (simp add: s1(1) store.get_put)
qed

definition no_faults :: save_faults where
  "no_faults = \<lparr>sf_open = False, sf_write = None, sf_flush = False, sf_close = False,
     sf_backup = False, sf_rename = False, sf_restore = False\<rparr>"

definition props0 :: props where
  "props0 = \<lparr>p_properties = [(''radio.ppm'', ''1.5''), (''band'', ''7'')], p_retained = [], p_parked = None,
     p_version = 0, p_parked_version = 0\<rparr>"

lemma props0_ok: "props_ok props0"
  by (simp add: props_ok_def props0_def getProperty_def tbl_lookup_def line_ok_def newline_def)

lemma save_no_faults: "\<exists>s1 states. saveProperties no_faults fs f s = (s1, states, True)"
  by (simp add: saveProperties_def no_faults_def Let_def move_into_place_def write_ok_def)

theorem saved_settings_load_back_witness:
  "\<exists>s1 states. saveProperties no_faults (\<lambda>_. None) ''x.props'' props0 = (s1, states, True)
    \<and> getProperty ''radio.ppm'' (loadProperties (\<lambda>v. if v = ''2.00'' then 2 else 0) (last states) ''x.props'' props0)
        = Some ''1.5''"
proof -
  obtain s1 states where s: "saveProperties no_faults (\<lambda>_. None) ''x.props'' props0 = (s1, states, True)"
    using save_no_faults by blast
  have "getProperty ''radio.ppm'' (loadProperties (\<lambda>v. if v = ''2.00'' then 2 else 0) (last states) ''x.props'' props0)
      = Some ''1.5''"
    using saved_settings_load_back[OF props0_ok _ s, of "\<lambda>v. if v = ''2.00'' then 2 else 0" "''radio.ppm''" props0]
    by (simp add: props0_def getProperty_def tbl_lookup_def)
  thus ?thesis using s by blast
qed

text \<open>Whatever lines surround it, a line that fits is read as a line of its own.\<close>

lemma fgets_append:
  "a \<noteq> [] \<Longrightarrow> last a = newline \<Longrightarrow>
   fgets n (a @ b) = (fst (fgets n a), snd (fgets n a) @ b) \<and> (snd (fgets n a) = [] \<or> last (snd (fgets n a)) = newline)"
  by (induction n a rule: fgets.induct) (auto split: prod.splits if_splits)

lemma read_lines_append:
  "0 < n \<Longrightarrow> a = [] \<or> last a = newline \<Longrightarrow> read_lines n (a @ b) = read_lines n a @ read_lines n b"
proof (induction n a rule: read_lines.induct)
  case (1 n a)
  show ?case
  proof (cases "a = []")
    case True
    thus ?thesis by (simp add: read_lines.simps[of n "[]"])
  next
    case False
    hence f: "fgets n (a @ b) = (fst (fgets n a), snd (fgets n a) @ b)" "snd (fgets n a) = [] \<or> last (snd (fgets n a)) = newline"
      using fgets_append[of a n b] 1(3) by auto
    show ?thesis using 1(1)[OF _ 1(2) f(2)] 1(2) False f(1)
      by (simp add: read_lines.simps[of n "a @ b"] read_lines.simps[of n a])
  qed
qed

lemma load_lines_any: "snd (fold (load_line strtod) ls (s, a)) = (a \<or> (\<exists>l \<in> set ls. parse_line l \<noteq> None))"
  by (induction ls arbitrary: s a) (auto simp: load_line_def Let_def split: option.splits)

lemma file_text_has_a_setting:
  assumes "getProperty ''property_version'' t = Some ''2.00''"
  shows "\<exists>l \<in> set (read_lines 255 (file_text (p_properties t))). parse_line l \<noteq> None"
proof -
  let ?kv = "(''property_version'', ''2.00'')"
  have "map_of (sorted_items (p_properties t)) ''property_version'' = Some ''2.00''"
    using assms by (simp add: sorted_items_map_of getProperty_def tbl_lookup_def)
  then obtain xs ys where xs: "sorted_items (p_properties t) = xs @ ?kv # ys"
    using split_list[OF map_of_SomeD] by metis
  let ?a = "concat (map prop_line xs)" and ?b = "concat (map prop_line ys)"
  have a: "?a = [] \<or> last ?a = newline"
    by (induction xs rule: rev_induct) (simp_all add: prop_line_def)
  have "fgets 255 (prop_line ?kv @ ?b) = (prop_line ?kv, ?b)"
    using fgets_line[of "''property_version=2.00''" 255 ?b] by (simp add: prop_line_def newline_def)
  hence "prop_line ?kv \<in> set (read_lines 255 (prop_line ?kv @ ?b))"
    using read_lines.simps[of 255 "prop_line ?kv @ ?b"] by (simp add: prop_line_def)
  hence "prop_line ?kv \<in> set (read_lines 255 (file_text (p_properties t)))"
    using read_lines_append[OF _ a, of 255 "prop_line ?kv @ ?b"] by (simp add: file_text_def xs)
  thus ?thesis using parse_prop_line[OF version_line_ok] by fastforce
qed

text \<open>So a file a save has written is loaded without a look at the backup, and the backup is
loaded like the file where there is no file.\<close>

lemma load_one_saved:
  assumes "getProperty ''property_version'' t = Some ''2.00''" "fs f = Some (file_text (p_properties t))"
  shows "snd (load_one strtod fs f s)"
  using file_text_has_a_setting[OF assms(1)] assms(2) by (simp add: load_one_def load_lines_any)

lemma load_saved_file:
  assumes "getProperty ''property_version'' t = Some ''2.00''"
    "g f = Some (file_text (p_properties t)) \<or> g f = None \<and> g (f @ ''.bak'') = Some (file_text (p_properties t))"
  shows "loadProperties strtod g f u = loadProperties strtod [f \<mapsto> file_text (p_properties t)] f u"
proof -
  let ?u = "u\<lparr>p_properties := [], p_version := 0\<rparr>" and ?h = "[f \<mapsto> file_text (p_properties t)]"
  obtain x where x: "load_one strtod ?h f ?u = (x, True)"
    using load_one_saved[OF assms(1), of ?h f strtod ?u] by (cases "load_one strtod ?h f ?u") auto
  have "load_one strtod g f ?u = (x, True) \<or>
      load_one strtod g f ?u = (?u, False) \<and> load_one strtod g (f @ ''.bak'') ?u = (x, True)"
    using assms(2) x by (auto simp: load_one_def)
  thus ?thesis using x by (auto simp: loadProperties_def Let_def)
qed

text \<open>C16: A crash at any point of a save loses nothing: over a file an earlier save has written,
whichever system calls fail and wherever the program is stopped, loading afterwards gives exactly
what loading the complete old file gives or what loading the complete new file gives. Where every
setting of the one that is loaded fits a line of the loader (a name without equals sign, newline or
leading hash, a value that is not empty, at most 255 characters together), and \<open>strtod\<close> reads the
version number, these are all of the old settings or all of the new ones. No condition is put on
the other settings: an empty or an overlong value, which no load gives back, does not keep the rest
from being the old or the new.\<close>

theorem crash_leaves_old_or_new:
  assumes "getProperty ''property_version'' old = Some ''2.00''"
    "fs filename = Some (file_text (p_properties old))"
    "saveProperties f fs filename s = (s1, states, ok)" "g \<in> set states"
  shows "\<exists>t \<in> {old, s1}. loadProperties strtod g filename u =
        loadProperties strtod [filename \<mapsto> file_text (p_properties t)] filename u \<and>
      (props_ok t \<and> strtod ''2.00'' = 2 \<longrightarrow> (\<forall>k. getProperty k (loadProperties strtod g filename u) = getProperty k t))"
proof -
  have s1: "s1 = setProperty ''property_version'' ''2.00'' s"
    using assms(3) by (auto simp: saveProperties_def Let_def split: if_splits prod.splits)
  hence v: "t \<in> {old, s1} \<Longrightarrow> getProperty ''property_version'' t = Some ''2.00''" for t
    using assms(1) by (auto simp: store.get_put)
  have "recoverable filename (file_text (p_properties old)) (file_text (p_properties s1)) g"
    using saveProperties_states[OF assms(2,3)] assms(4) by blast
  then obtain t where t: "t \<in> {old, s1}" "g filename = Some (file_text (p_properties t)) \<or>
      g filename = None \<and> g (filename @ ''.bak'') = Some (file_text (p_properties t))"
    by (auto simp: recoverable_def)
  have l: "loadProperties strtod g filename u = loadProperties strtod [filename \<mapsto> file_text (p_properties t)] filename u"
    using load_saved_file[where strtod = strtod, OF v[OF t(1)] t(2)] .
  have "getProperty k (loadProperties strtod g filename u) = getProperty k t" if "props_ok t" "strtod ''2.00'' = 2" for k
    unfolding l using load_file_text[where strtod = strtod, OF that(1) v[OF t(1)] that(2)] by simp
  thus ?thesis using t(1) l by blast
qed

definition old0 :: props where
  "old0 = props0\<lparr>p_properties := [(''band'', ''3''), (''property_version'', ''2.00'')]\<rparr>"

theorem crash_leaves_old_or_new_witness:
  "\<exists>s1 states. saveProperties (no_faults\<lparr>sf_rename := True\<rparr>)
      [''x.props'' \<mapsto> file_text (p_properties old0)] ''x.props'' props0 = (s1, states, False)
    \<and> (\<forall>k. getProperty k (loadProperties (\<lambda>v. if v = ''2.00'' then 2 else 0) (last states) ''x.props'' props0)
          = getProperty k old0)"
proof -
  let ?fs = "[''x.props'' \<mapsto> file_text (p_properties old0)]" and ?f = "no_faults\<lparr>sf_rename := True\<rparr>"
  let ?d = "\<lambda>v :: string. if v = ''2.00'' then 2 else 0 :: real"
  obtain s1 states where s: "saveProperties ?f ?fs ''x.props'' props0 = (s1, states, False)"
    by (simp add: saveProperties_def no_faults_def Let_def move_into_place_def write_ok_def)
  have old: "props_ok old0" "getProperty ''property_version'' old0 = Some ''2.00''"
    by (simp_all add: old0_def props_ok_def props0_def getProperty_def tbl_lookup_def line_ok_def newline_def)
  have ok1: "props_ok s1"
    using props_ok_version[OF props0_ok] s
    by (auto simp: saveProperties_def Let_def split: if_splits prod.splits)
  have fs: "?fs ''x.props'' = Some (file_text (p_properties old0))" by simp
  have ne: "states \<noteq> []" using s by (auto simp: saveProperties_def Let_def split: if_splits prod.splits)
  have l: "last states ''x.props'' = Some (file_text (p_properties old0))"
    using saveProperties_states[OF fs s] by (simp add: no_faults_def)
  have "getProperty ''band'' (loadProperties ?d (last states) ''x.props'' props0) = Some ''3''"
    using load_file_text[where strtod = ?d and fs = "last states" and f = "''x.props''" and s = old0, OF old _ l, of "''band''" props0]
    by (simp add: old0_def props0_def getProperty_def tbl_lookup_def)
  moreover have "getProperty ''band'' s1 = Some ''7''"
    using s by (auto simp: saveProperties_def Let_def store.get_put getProperty_def tbl_lookup_def props0_def
        setProperty_def tbl_insert_def update_conv' split: if_splits prod.splits)
  ultimately show ?thesis
    using crash_leaves_old_or_new[where strtod = ?d and u = props0, OF old(2) fs s last_in_set[OF ne]] s old(1) ok1 by fastforce
qed

text \<open>A save that reports failure has changed nothing: the settings file still
holds what it held (unless even putting it back failed).\<close>

theorem failed_save_keeps_file:
  assumes "fs filename = Some old" "saveProperties f fs filename s = (s1, states, False)" "\<not> sf_restore f"
  shows "last states filename = Some old"
  using saveProperties_states[OF assms(1,2)] assms(3) by simp

theorem failed_save_keeps_file_witness:
  "\<exists>s1 states. saveProperties (no_faults\<lparr>sf_write := Some 1\<rparr>) [''p'' \<mapsto> ''old''] ''p'' props0 = (s1, states, False)
     \<and> last states ''p'' = Some ''old''"
proof -
  have "\<not> write_ok (Some 1) (map prop_line (sorted_items (p_properties (setProperty ''property_version'' ''2.00'' props0))))"
    by (simp add: write_ok_def sorted_items_def props0_def setProperty_def tbl_insert_def)
  then obtain s1 states where
    s: "saveProperties (no_faults\<lparr>sf_write := Some 1\<rparr>) [''p'' \<mapsto> ''old''] ''p'' props0 = (s1, states, False)"
    by (simp add: saveProperties_def no_faults_def Let_def)
  from failed_save_keeps_file[OF _ this] s show ?thesis by (simp add: no_faults_def)
qed

text \<open>A long setting does not survive: when name and value do not fit the
loader's buffer, the value read back is cut to what does fit.\<close>

theorem long_value_is_cut:
  assumes "k \<noteq> []" "hd k \<noteq> CHR ''#''" "CHR ''='' \<notin> set k" "newline \<notin> set k" "length k < 254"
    "CHR ''='' \<notin> set v" "newline \<notin> set v" "255 \<le> length k + 1 + length v"
    "fs f = Some (prop_line (k, v))"
  shows "getProperty k (fst (load_one strtod fs f s)) = Some (take (254 - length k) v)"
proof -
  let ?l = "k @ ''='' @ v"
  let ?rest = "drop (254 - length k) v @ [newline]"
  have nl: "newline \<noteq> CHR ''=''" by (simp add: newline_def)
  have v: "take (254 - length k) v \<noteq> []" using assms(5,8) by auto
  have "fgets 255 (?l @ [newline]) = (take 255 ?l, drop 255 ?l @ [newline])"
    using assms nl by (intro fgets_long) auto
  moreover have "take 255 ?l = k @ CHR ''='' # take (254 - length k) v" "drop 255 ?l = drop (254 - length k) v"
    using assms(5) by (auto simp: take_Cons' drop_Cons' numeral_eq_Suc)
  ultimately have fg: "fgets 255 (prop_line (k, v)) = (k @ CHR ''='' # take (254 - length k) v, ?rest)"
    by (simp only: prop_line_def fst_conv snd_conv append.assoc)
  have "prop_line (k, v) \<noteq> []" by (simp add: prop_line_def)
  hence lines: "read_lines 255 (prop_line (k, v)) = (k @ CHR ''='' # take (254 - length k) v) # read_lines 255 ?rest"
    using read_lines.simps[of 255 "prop_line (k, v)"] fg by simp
  have tl: "strtok newline (take (254 - length k) v) = Some (take (254 - length k) v, [])"
    using assms(7) v by (intro strtok_whole) (auto dest: in_set_takeD)
  have p: "parse_line (k @ CHR ''='' # take (254 - length k) v) = Some (k, take (254 - length k) v)"
    using assms(1-3) strtok_token[of k "CHR ''=''" "take (254 - length k) v"] tl
    by (simp add: parse_line_def)
  have "CHR ''='' \<notin> set ?rest" using assms(6) nl by (auto dest: in_set_dropD)
  hence n: "\<forall>l \<in> set (read_lines 255 ?rest). parse_line l = None" using read_lines_no_eq by blast
  show ?thesis
    using assms(9) by (simp add: load_one_def lines load_line_def p fold_load_none[OF n] Let_def
        store.get_put) (simp add: getProperty_def setProperty_def lookup_insert)
qed

theorem long_value_is_cut_witness:
  "getProperty ''k'' (fst (load_one (\<lambda>_. 0) [''f'' \<mapsto> prop_line (''k'', replicate 300 (CHR ''a''))] ''f'' props0))
     = Some (replicate 253 (CHR ''a''))"
  using long_value_is_cut[of "''k''" "replicate 300 (CHR ''a'')" "[''f'' \<mapsto> prop_line (''k'', replicate 300 (CHR ''a''))]" "''f''"]
  by (simp add: newline_def)

text \<open>The settings of a closed receiver survive a full save: what was retained
under a prefix comes back after the store has been emptied and filled again, over
whatever was set meanwhile, and nothing else comes back.\<close>

theorem retained_settings_survive:
  assumes "distinct (map fst (p_properties s))" "p_retained s = []"
  shows "getProperty k (releaseRetainedProperties (store.put_all kvs (initProperties (retainProperties prefix s))))
    = (if has_prefix prefix k \<and> getProperty k s \<noteq> None then getProperty k s
       else getProperty k (store.put_all kvs (initProperties s)))"
proof -
  let ?t = "filter (\<lambda>(k, v). has_prefix prefix k) (p_properties s)"
  let ?r = "initProperties (retainProperties prefix s)"
  have ret: "p_retained (store.put_all kvs ?r) = insert_all ?t []"
    by (simp add: put_all_retained initProperties_def retainProperties_def assms(2))
  have m: "map_of (insert_all ?t []) k = (if has_prefix prefix k then getProperty k s else None)"
    using insert_all_lookup[OF distinct_map_filter[OF assms(1)], where k = k and t = "[]"]
    by (auto simp: map_of_filter_prefix tbl_lookup_def getProperty_def split: option.splits)
  have d: "distinct (map fst (insert_all ?t []))" by (simp add: distinct_insert_all)
  have o: "getProperty k (store.put_all kvs ?r) = getProperty k (store.put_all kvs (initProperties s))"
    unfolding store.get_put_all by (simp add: initProperties_def getProperty_def tbl_lookup_def cong: option.case_cong)
  show ?thesis
    using insert_all_lookup[OF d, where k = k and t = "p_properties (store.put_all kvs ?r)"] m o ret
    by (auto simp: releaseRetainedProperties_def getProperty_def split: option.splits if_splits)
qed

theorem retained_settings_survive_witness:
  "getProperty ''rx.1.f'' (releaseRetainedProperties (store.put_all [(''band'', ''9'')]
     (initProperties (retainProperties ''rx.1.'' (props0\<lparr>p_properties := [(''rx.1.f'', ''7''), (''band'', ''3'')]\<rparr>)))))
   = Some ''7''"
  using retained_settings_survive[of "props0\<lparr>p_properties := [(''rx.1.f'', ''7''), (''band'', ''3'')]\<rparr>"
      "''rx.1.f''" "[(''band'', ''9'')]" "''rx.1.''"]
  by (simp add: props0_def has_prefix_def getProperty_def tbl_lookup_def)

text \<open>The operations between a push and its pop.\<close>

datatype prop_op = PSet string string | PInit | PLoad files string | PRetain string | PRelease
  | PPush

fun prop_step :: "(string \<Rightarrow> real) \<Rightarrow> prop_op \<Rightarrow> props \<Rightarrow> props" where
  "prop_step d (PSet k v) s = setProperty k v s"
| "prop_step d PInit s = initProperties s"
| "prop_step d (PLoad fs f) s = loadProperties d fs f s"
| "prop_step d (PRetain p) s = retainProperties p s"
| "prop_step d PRelease s = releaseRetainedProperties s"
| "prop_step d PPush s = pushPropertyStore s"

lemma fold_load_parked:
  "p_parked (fst (fold (load_line d) ls x)) = p_parked (fst x)
   \<and> p_parked_version (fst (fold (load_line d) ls x)) = p_parked_version (fst x)"
proof (induction ls arbitrary: x)
  case (Cons l ls)
  have "p_parked (fst (load_line d l x)) = p_parked (fst x)
      \<and> p_parked_version (fst (load_line d l x)) = p_parked_version (fst x)"
    by (cases x) (auto simp: load_line_def setProperty_def Let_def split: option.splits)
  thus ?case using Cons by simp
qed simp

lemma load_one_parked:
  "p_parked (fst (load_one d fs f s)) = p_parked s \<and> p_parked_version (fst (load_one d fs f s)) = p_parked_version s"
  by (auto simp: load_one_def fold_load_parked split: option.splits)

lemma load_parked:
  "p_parked (loadProperties d fs f s) = p_parked s \<and> p_parked_version (loadProperties d fs f s) = p_parked_version s"
proof -
  let ?s = "s\<lparr>p_properties := [], p_version := 0\<rparr>"
  obtain a b where ab: "load_one d fs f ?s = (a, b)" by fastforce
  have "p_parked a = p_parked s \<and> p_parked_version a = p_parked_version s"
    using load_one_parked[of d fs f ?s] ab by simp
  thus ?thesis using ab load_one_parked[of d fs "f @ ''.bak''" a] by (simp add: loadProperties_def Let_def)
qed

lemma prop_step_parked:
  "p_parked s \<noteq> None \<Longrightarrow> p_parked (prop_step d op s) = p_parked s
    \<and> p_parked_version (prop_step d op s) = p_parked_version s"
  by (cases op) (auto simp: setProperty_def initProperties_def retainProperties_def
      releaseRetainedProperties_def pushPropertyStore_def load_parked split: option.splits)

lemma prop_steps_parked:
  "p_parked s \<noteq> None \<Longrightarrow> p_parked (fold (prop_step d) ops s) = p_parked s
    \<and> p_parked_version (fold (prop_step d) ops s) = p_parked_version s"
  by (induction ops arbitrary: s) (simp_all add: prop_step_parked)

text \<open>Opening the menus of another radio leaves this radio's settings alone:
after a push, whatever is set, emptied, loaded, retained or released (even a nested push)
and the pop, the store holds the table and the version it held before.\<close>

theorem pop_restores_pushed_store:
  assumes "p_parked s = None"
  shows "p_properties (popPropertyStore (fold (prop_step d) ops (pushPropertyStore s))) = p_properties s
    \<and> p_version (popPropertyStore (fold (prop_step d) ops (pushPropertyStore s))) = p_version s
    \<and> p_parked (popPropertyStore (fold (prop_step d) ops (pushPropertyStore s))) = None"
proof -
  have "p_parked (fold (prop_step d) ops (pushPropertyStore s)) = Some (p_properties s)
      \<and> p_parked_version (fold (prop_step d) ops (pushPropertyStore s)) = p_version s"
    using assms prop_steps_parked[of "pushPropertyStore s" d ops] by (simp add: pushPropertyStore_def)
  thus ?thesis by (simp add: popPropertyStore_def)
qed

theorem pop_restores_pushed_store_witness:
  "p_properties (popPropertyStore (fold (prop_step (\<lambda>_. 0)) [PSet ''band'' ''3'', PPush, PInit] (pushPropertyStore props0)))
     = p_properties props0"
  using pop_restores_pushed_store[of props0 "\<lambda>_. 0" "[PSet ''band'' ''3'', PPush, PInit]"]
  by (simp add: props0_def)

end
