(* ===== verification/Ft8_Dxcc.thy ===== *)
theory Ft8_Dxcc
  imports Complex_Main C_Strings
begin

text \<open>The country table of \<open>src/decode/ft8_dxcc.c\<close>: the entities, exact
calls and prefixes read from \<open>cty.dat\<close>, and the lookup of a callsign.

A hash table is a map from strings to entity numbers. The file system is a map from names
to contents; the directory of the executable, the environment and the home directory are
arguments of the search for the file.\<close>

section \<open>Reading \<open>cty.dat\<close>\<close>

definition MAX_ENTITIES :: nat where "MAX_ENTITIES = 512"

record dxcc =
  dx_entities :: "(string \<times> string) list"
  dx_exact :: "string \<Rightarrow> nat option"
  dx_prefix :: "string \<Rightarrow> nat option"
  dx_max_prefix_len :: nat
  dx_loaded_path :: string
  dx_ready :: bool

definition stop_char :: "char \<Rightarrow> bool" where
  "stop_char c = (c \<in> set ''([<{~;,'' \<or> isspace_c c)"

definition clean_token :: "string \<Rightarrow> nat \<Rightarrow> string" where
  "clean_token src dstsz =
     map toupper_c (take (dstsz - 1) (takeWhile (\<lambda>c. \<not> stop_char c) (dropWhile isspace_c src)))"

definition add_prefix :: "string \<Rightarrow> nat \<Rightarrow> dxcc \<Rightarrow> dxcc" where
  "add_prefix pfx ent d =
     (if pfx = [] then d
      else let d1 = d\<lparr>dx_max_prefix_len := max (dx_max_prefix_len d) (length pfx)\<rparr>
           in if dx_prefix d1 pfx = None then d1\<lparr>dx_prefix := (dx_prefix d1)(pfx \<mapsto> ent)\<rparr> else d1)"

definition add_exact :: "string \<Rightarrow> nat \<Rightarrow> dxcc \<Rightarrow> dxcc" where
  "add_exact call ent d = (if call = [] then d else d\<lparr>dx_exact := (dx_exact d)(call \<mapsto> ent)\<rparr>)"

definition trim :: "string \<Rightarrow> string" where
  "trim s = rev (dropWhile isspace_c (rev (dropWhile isspace_c s)))"

fun header_fields :: "nat \<Rightarrow> string \<Rightarrow> string list option" where
  "header_fields 0 p = Some []"
| "header_fields (Suc f) p =
     (if CHR '':'' \<notin> set p then None
      else map_option (\<lambda>fs. trim (take 63 (takeWhile (\<lambda>c. c \<noteq> CHR '':'') p)) # fs)
             (header_fields f (tl (dropWhile (\<lambda>c. c \<noteq> CHR '':'') p))))"

definition parse_header :: "string \<Rightarrow> dxcc \<Rightarrow> dxcc \<times> nat option" where
  "parse_header line d =
     (case header_fields 8 line of None \<Rightarrow> (d, None)
      | Some hdr \<Rightarrow>
          (let n = length (dx_entities d) in
           if n \<ge> MAX_ENTITIES then (d, None)
           else (let pfx = hdr ! 7;
                     pfx1 = (if pfx \<noteq> [] \<and> hd pfx = CHR ''*'' then tl pfx else pfx);
                     prefix = take 15 pfx1;
                     d1 = d\<lparr>dx_entities := dx_entities d @ [(prefix, take 63 (hdr ! 0))]\<rparr>
                 in (add_prefix (clean_token prefix 16) n d1, Some n))))"

definition alias_end :: "char \<Rightarrow> bool" where
  "alias_end c = (c = CHR '','' \<or> c = CHR '';'')"

definition raw_token :: "string \<Rightarrow> string" where
  "raw_token p = take 63 (takeWhile (\<lambda>c. \<not> alias_end c) p)"

definition after_token :: "string \<Rightarrow> string" where
  "after_token p = (let r = drop (length (raw_token p)) p
                    in if r \<noteq> [] \<and> alias_end (hd r) then tl r else r)"

definition add_alias :: "string \<Rightarrow> nat \<Rightarrow> dxcc \<Rightarrow> dxcc" where
  "add_alias raw ent d =
     (let q = dropWhile isspace_c raw in
      if q = [] then d
      else (let exact = (hd q = CHR ''='');
                base = clean_token (if exact then tl q else q) 32
            in if base = [] then d
               else if exact then add_exact base ent d else add_prefix base ent d))"

lemma after_token_progress: "p \<noteq> [] \<Longrightarrow> length (after_token p) < length p"
  by (cases p) (auto simp: after_token_def raw_token_def Let_def)

function parse_aliases :: "string \<Rightarrow> nat \<Rightarrow> dxcc \<Rightarrow> dxcc" where
  "parse_aliases p ent d =
     (if p = [] then d else parse_aliases (after_token p) ent (add_alias (raw_token p) ent d))"
  by pat_completeness auto
termination
  by (relation "measure (\<lambda>(p, ent, d). length p)") (use after_token_progress in auto)

declare parse_aliases.simps [simp del]

definition load_cty_line :: "string \<Rightarrow> dxcc \<times> nat option \<Rightarrow> dxcc \<times> nat option" where
  "load_cty_line line s = (case s of (d, cur) \<Rightarrow>
     if line = [] \<or> hd line = newline \<or> hd line = CHR ''#'' then (d, cur)
     else if \<not> isspace_c (hd line) then parse_header line d
     else (case cur of None \<Rightarrow> d | Some ent \<Rightarrow> parse_aliases line ent d, cur))"

text \<open>Where the file is looked for: the environment, beside the executable, the
current directory, the user's and the system's data directories.\<close>

record places =
  pl_env :: "string option"
  pl_resource :: "string option"
  pl_home :: string

definition cty_places :: "places \<Rightarrow> string list" where
  "cty_places p =
     (case pl_env p of Some e \<Rightarrow> if e \<noteq> [] then [e] else [] | None \<Rightarrow> [])
     @ (case pl_resource p of Some r \<Rightarrow> [r] | None \<Rightarrow> [])
     @ [''assets/cty.dat'', ''cty.dat'', pl_home p @ ''/.local/share/machpsdr/cty.dat'',
        ''/usr/local/share/machpsdr/cty.dat'', ''/usr/share/machpsdr/cty.dat'']"

definition open_cty :: "places \<Rightarrow> (string \<Rightarrow> string option) \<Rightarrow> string option" where
  "open_cty p fs = find (\<lambda>path. fs path \<noteq> None) (cty_places p)"

definition load_cty :: "places \<Rightarrow> (string \<Rightarrow> string option) \<Rightarrow> dxcc \<Rightarrow> dxcc" where
  "load_cty p fs d =
     (case open_cty p fs of None \<Rightarrow> d\<lparr>dx_loaded_path := []\<rparr>
      | Some path \<Rightarrow>
          fst (fold load_cty_line (read_lines 4095 (the (fs path))) (d\<lparr>dx_loaded_path := take 1023 path\<rparr>, None)))"

definition ft8_dxcc_init :: "places \<Rightarrow> (string \<Rightarrow> string option) \<Rightarrow> dxcc \<Rightarrow> dxcc" where
  "ft8_dxcc_init p fs d =
     (if dx_ready d then d else load_cty p fs (d\<lparr>dx_exact := Map.empty, dx_prefix := Map.empty, dx_ready := True\<rparr>))"

definition ft8_dxcc_reload :: "places \<Rightarrow> (string \<Rightarrow> string option) \<Rightarrow> dxcc \<Rightarrow> dxcc \<times> nat" where
  "ft8_dxcc_reload p fs d =
     (let d1 = (if \<not> dx_ready d then ft8_dxcc_init p fs d
                else load_cty p fs (d\<lparr>dx_exact := Map.empty, dx_prefix := Map.empty, dx_entities := [],
                                      dx_max_prefix_len := 0, dx_loaded_path := []\<rparr>))
      in (d1, length (dx_entities d1)))"

definition ft8_dxcc_loaded :: "dxcc \<Rightarrow> bool" where
  "ft8_dxcc_loaded d = (length (dx_entities d) > 0)"

definition ft8_dxcc_count :: "dxcc \<Rightarrow> nat" where
  "ft8_dxcc_count d = length (dx_entities d)"

definition ft8_dxcc_path :: "dxcc \<Rightarrow> string option" where
  "ft8_dxcc_path d = (if dx_loaded_path d \<noteq> [] then Some (dx_loaded_path d) else None)"

section \<open>Looking up a call\<close>

text \<open>The segments between slashes, as repeated \<open>strtok_r\<close> gives them.\<close>

lemma strtok_progress: "strtok d s = Some (t, r) \<Longrightarrow> length r < length s"
proof -
  assume a: "strtok d s = Some (t, r)"
  let ?s = "dropWhile (\<lambda>c. c = d) s"
  have s: "?s \<noteq> []" "r = drop 1 (dropWhile (\<lambda>c. c \<noteq> d) ?s)"
    using a by (auto simp: strtok_def Let_def split: if_splits)
  have "length (dropWhile (\<lambda>c. c \<noteq> d) ?s) \<le> length ?s" "length ?s \<le> length s"
    by (simp_all add: length_dropWhile_le)
  thus ?thesis using s hd_dropWhile[of "\<lambda>c. c = d" s] by (cases ?s) auto
qed

function segments :: "string \<Rightarrow> string list" where
  "segments s = (case strtok (CHR ''/'') s of None \<Rightarrow> [] | Some (t, r) \<Rightarrow> t # segments r)"
  by pat_completeness auto
termination
  by (relation "measure length") (auto dest: strtok_progress)

declare segments.simps [simp del]

fun probe_from :: "dxcc \<Rightarrow> string \<Rightarrow> nat \<Rightarrow> (nat \<times> nat) option" where
  "probe_from d seg 0 = None"
| "probe_from d seg (Suc L) =
     (case dx_prefix d (take (Suc L) seg) of Some e \<Rightarrow> Some (Suc L, e) | None \<Rightarrow> probe_from d seg L)"

definition best_step :: "dxcc \<Rightarrow> nat \<times> int \<Rightarrow> string \<Rightarrow> nat \<times> int" where
  "best_step d b seg =
     (case probe_from d seg (min (length seg) (dx_max_prefix_len d)) of None \<Rightarrow> b
      | Some (L, e) \<Rightarrow> if L > fst b then (L, int e) else b)"

definition ft8_dxcc_entity :: "dxcc \<Rightarrow> string \<Rightarrow> int" where
  "ft8_dxcc_entity d call =
     (if call = [] \<or> dx_entities d = [] then - 1
      else let up = map toupper_c (take 31 call) in
        case dx_exact d up of Some e \<Rightarrow> int e
        | None \<Rightarrow> snd (foldl (best_step d) (0, - 1) (segments up)))"

definition ft8_dxcc_name :: "dxcc \<Rightarrow> int \<Rightarrow> string option" where
  "ft8_dxcc_name d ent =
     (if ent < 0 \<or> ent \<ge> int (length (dx_entities d)) then None else Some (snd (dx_entities d ! nat ent)))"

section \<open>The table is well formed\<close>

definition dxcc_ok :: "dxcc \<Rightarrow> bool" where
  "dxcc_ok d \<longleftrightarrow> length (dx_entities d) \<le> MAX_ENTITIES
     \<and> (\<forall>e \<in> ran (dx_exact d) \<union> ran (dx_prefix d). e < length (dx_entities d))
     \<and> (\<forall>p \<in> dom (dx_prefix d). 0 < length p \<and> length p \<le> dx_max_prefix_len d)"

lemma dxcc_ok_add_prefix: "dxcc_ok d \<Longrightarrow> e < length (dx_entities d) \<Longrightarrow> dxcc_ok (add_prefix p e d)"
  by (auto simp: dxcc_ok_def add_prefix_def Let_def ran_def dom_def)

lemma dxcc_ok_add_exact: "dxcc_ok d \<Longrightarrow> e < length (dx_entities d) \<Longrightarrow> dxcc_ok (add_exact p e d)"
  by (auto simp: dxcc_ok_def add_exact_def ran_def dom_def)

lemma add_entities [simp]:
  "dx_entities (add_prefix p e d) = dx_entities d" "dx_entities (add_exact p e d) = dx_entities d"
  by (simp_all add: add_prefix_def add_exact_def Let_def)

lemma add_alias_ok: "dxcc_ok d \<Longrightarrow> e < length (dx_entities d) \<Longrightarrow>
    dxcc_ok (add_alias r e d) \<and> dx_entities (add_alias r e d) = dx_entities d"
  by (auto simp: add_alias_def Let_def dxcc_ok_add_prefix dxcc_ok_add_exact)

lemma parse_aliases_ok: "dxcc_ok d \<Longrightarrow> e < length (dx_entities d) \<Longrightarrow>
    dxcc_ok (parse_aliases p e d) \<and> dx_entities (parse_aliases p e d) = dx_entities d"
proof (induction p e d rule: parse_aliases.induct)
  case (1 p e d)
  thus ?case using add_alias_ok[OF "1.prems"] parse_aliases.simps[of p e d] by (cases "p = []") auto
qed

lemma dxcc_ok_entity: "dxcc_ok d \<Longrightarrow> length (dx_entities d) < MAX_ENTITIES \<Longrightarrow>
    dxcc_ok (d\<lparr>dx_entities := dx_entities d @ [x]\<rparr>)"
  by (auto simp: dxcc_ok_def less_Suc_eq)

lemma parse_header_ok:
  assumes "dxcc_ok d" "parse_header l d = (d', c)"
  shows "dxcc_ok d' \<and> (\<forall>e. c = Some e \<longrightarrow> e < length (dx_entities d'))"
proof (cases "header_fields 8 l = None \<or> length (dx_entities d) \<ge> MAX_ENTITIES")
  case True
  thus ?thesis using assms by (auto simp: parse_header_def Let_def split: option.splits)
next
  case False
  then obtain fs x where "d' = add_prefix x (length (dx_entities d)) (d\<lparr>dx_entities := dx_entities d @ [fs]\<rparr>)"
    "c = Some (length (dx_entities d))"
    using assms(2) by (auto simp: parse_header_def Let_def)
  thus ?thesis using dxcc_ok_entity[OF assms(1)] False by (simp add: dxcc_ok_add_prefix)
qed

lemma load_cty_line_ok:
  assumes "dxcc_ok d" "\<forall>e. c = Some e \<longrightarrow> e < length (dx_entities d)" "load_cty_line l (d, c) = (d', c')"
  shows "dxcc_ok d' \<and> (\<forall>e. c' = Some e \<longrightarrow> e < length (dx_entities d'))"
  using assms parse_header_ok[OF assms(1)] parse_aliases_ok[OF assms(1)]
  by (auto simp: load_cty_line_def split: if_splits option.splits)

lemma load_lines_ok:
  "dxcc_ok d \<Longrightarrow> (\<forall>e. c = Some e \<longrightarrow> e < length (dx_entities d)) \<Longrightarrow>
   dxcc_ok (fst (fold load_cty_line ls (d, c)))"
proof (induction ls arbitrary: d c)
  case (Cons l ls)
  obtain d' c' where "load_cty_line l (d, c) = (d', c')" by fastforce
  thus ?case using load_cty_line_ok[OF Cons.prems] Cons.IH by simp
qed simp

lemma load_cty_ok: "dxcc_ok d \<Longrightarrow> dxcc_ok (load_cty p fs d)"
proof -
  assume d: "dxcc_ok d"
  hence "dxcc_ok (d\<lparr>dx_loaded_path := x\<rparr>)" for x by (simp add: dxcc_ok_def)
  thus ?thesis using load_lines_ok by (simp add: load_cty_def split: option.splits)
qed

definition dxcc0 :: dxcc where
  "dxcc0 = \<lparr>dx_entities = [], dx_exact = Map.empty, dx_prefix = Map.empty, dx_max_prefix_len = 0,
     dx_loaded_path = [], dx_ready = False\<rparr>"

text \<open>The tables the program can hold: those of start-up, then any number of loads.\<close>

inductive dxcc_reachable :: "dxcc \<Rightarrow> bool" where
  start: "dxcc_reachable dxcc0"
| init: "dxcc_reachable d \<Longrightarrow> dxcc_reachable (ft8_dxcc_init p fs d)"
| reload: "dxcc_reachable d \<Longrightarrow> dxcc_reachable (fst (ft8_dxcc_reload p fs d))"

lemma dxcc_ok_init: "dxcc_ok d \<Longrightarrow> dxcc_ok (ft8_dxcc_init p fs d)"
  using load_cty_ok by (auto simp: ft8_dxcc_init_def intro!: load_cty_ok) (auto simp: dxcc_ok_def)

lemma reachable_ok: "dxcc_reachable d \<Longrightarrow> dxcc_ok d"
proof (induction rule: dxcc_reachable.induct)
  case start thus ?case by (simp add: dxcc_ok_def dxcc0_def)
next
  case (init d p fs) thus ?case by (simp add: dxcc_ok_init)
next
  case (reload d p fs)
  have "dxcc_ok (d\<lparr>dx_exact := Map.empty, dx_prefix := Map.empty, dx_entities := [],
                    dx_max_prefix_len := 0, dx_loaded_path := []\<rparr>)" by (simp add: dxcc_ok_def)
  thus ?case using reload.IH by (simp add: ft8_dxcc_reload_def Let_def dxcc_ok_init load_cty_ok)
qed

section \<open>The longest prefix\<close>

lemma probe_from_None: "probe_from d seg n = None \<longleftrightarrow> (\<forall>L. 1 \<le> L \<and> L \<le> n \<longrightarrow> dx_prefix d (take L seg) = None)"
proof (induction n)
  case (Suc n)
  have "(\<forall>L. 1 \<le> L \<and> L \<le> Suc n \<longrightarrow> dx_prefix d (take L seg) = None)
    \<longleftrightarrow> dx_prefix d (take (Suc n) seg) = None \<and> (\<forall>L. 1 \<le> L \<and> L \<le> n \<longrightarrow> dx_prefix d (take L seg) = None)"
    by (auto simp: le_Suc_eq)
  thus ?case using Suc by (simp split: option.split)
qed auto

lemma probe_from_Some:
  "probe_from d seg n = Some (L, e) \<Longrightarrow> 1 \<le> L \<and> L \<le> n \<and> dx_prefix d (take L seg) = Some e
     \<and> (\<forall>L'. L < L' \<and> L' \<le> n \<longrightarrow> dx_prefix d (take L' seg) = None)"
  by (induction n) (auto simp: le_Suc_eq split: option.splits)

text \<open>The match of length \<open>L\<close> with entity \<open>e\<close> in some segment.\<close>

definition prefix_match :: "dxcc \<Rightarrow> string list \<Rightarrow> nat \<Rightarrow> nat \<Rightarrow> bool" where
  "prefix_match d segs L e \<longleftrightarrow> (\<exists>seg \<in> set segs. 1 \<le> L \<and> L \<le> length seg \<and> dx_prefix d (take L seg) = Some e)"

lemma best_step_fold:
  assumes ok: "dxcc_ok d"
  shows "case foldl (best_step d) (0, - 1) segs of (L, e) \<Rightarrow>
    (L = 0 \<longrightarrow> e = - 1 \<and> (\<forall>L' e'. \<not> prefix_match d segs L' e'))
    \<and> (L > 0 \<longrightarrow> e \<ge> 0 \<and> prefix_match d segs L (nat e) \<and> (\<forall>L' e'. prefix_match d segs L' e' \<longrightarrow> L' \<le> L))"
proof (induction segs rule: rev_induct)
  case Nil thus ?case by (simp add: prefix_match_def)
next
  case (snoc seg segs)
  obtain L e where b: "foldl (best_step d) (0, - 1) segs = (L, e)" by fastforce
  note ih = snoc.IH[unfolded b prod.case]
  have st: "foldl (best_step d) (0, - 1) (segs @ [seg]) = best_step d (L, e) seg" by (simp add: b)
  let ?n = "min (length seg) (dx_max_prefix_len d)"
  have len: "L' \<le> ?n" if "L' \<le> length seg" "dx_prefix d (take L' seg) = Some e'" for L' e'
    using ok that unfolding dxcc_ok_def by (fastforce simp: dom_def)
  have m: "prefix_match d (segs @ [seg]) L' e' \<longleftrightarrow>
      prefix_match d segs L' e' \<or> (1 \<le> L' \<and> L' \<le> length seg \<and> dx_prefix d (take L' seg) = Some e')" for L' e'
    by (auto simp: prefix_match_def)
  show ?case
  proof (cases "probe_from d seg ?n")
    case None
    hence "\<not> (1 \<le> L' \<and> L' \<le> length seg \<and> dx_prefix d (take L' seg) = Some e')" for L' e'
      using len[of L' e'] unfolding probe_from_None by auto
    moreover have "best_step d (L, e) seg = (L, e)" using None by (simp add: best_step_def)
    ultimately show ?thesis using ih unfolding st by (auto simp: m)
  next
    case (Some p)
    obtain K f where p: "p = (K, f)" by (cases p)
    note K = probe_from_Some[OF Some[unfolded p]]
    have max: "L' \<le> K" if "L' \<le> length seg" "dx_prefix d (take L' seg) = Some e'" for L' e'
      using K len[OF that] that(2) by (metis not_le option.distinct(1))
    show ?thesis
    proof (cases "K > L")
      case True
      hence "best_step d (L, e) seg = (K, int f)" using Some p by (simp add: best_step_def)
      thus ?thesis using ih K max True unfolding st by (fastforce simp: m)
    next
      case False
      hence "L > 0" using K by linarith
      moreover have "best_step d (L, e) seg = (L, e)" using Some p False by (simp add: best_step_def)
      ultimately show ?thesis using ih max False unfolding st by (fastforce simp: m)
    qed
  qed
qed

section \<open>Properties\<close>

text \<open>A call is filed under the longest prefix: with no entry for the whole call,
the entity found is one whose prefix starts a segment of the call, no segment starts with a
longer prefix of the table, and no entity is found only when no prefix matches at all.\<close>

theorem entity_has_longest_prefix:
  assumes "dxcc_reachable d" "call \<noteq> []" "ft8_dxcc_loaded d" "dx_exact d (map toupper_c (take 31 call)) = None"
  shows "if ft8_dxcc_entity d call = - 1
    then \<forall>L e. \<not> prefix_match d (segments (map toupper_c (take 31 call))) L e
    else \<exists>L. prefix_match d (segments (map toupper_c (take 31 call))) L (nat (ft8_dxcc_entity d call))
           \<and> (\<forall>L' e. prefix_match d (segments (map toupper_c (take 31 call))) L' e \<longrightarrow> L' \<le> L)"
proof -
  let ?segs = "segments (map toupper_c (take 31 call))"
  obtain L e where b: "foldl (best_step d) (0, - 1) ?segs = (L, e)" by fastforce
  have "ft8_dxcc_entity d call = e"
    using assms b by (simp add: ft8_dxcc_entity_def ft8_dxcc_loaded_def Let_def)
  thus ?thesis using best_step_fold[OF reachable_ok[OF assms(1)], of ?segs] b by (cases "L = 0") auto
qed

definition cty_text :: string where
  "cty_text = ''F:::::::F:'' @ [newline] @ ''S:::::::MM:'' @ [newline]"

definition places0 :: places where
  "places0 = \<lparr>pl_env = None, pl_resource = None, pl_home = ''/h''\<rparr>"

definition dxcc1 :: dxcc where
  "dxcc1 = ft8_dxcc_init places0 [''cty.dat'' \<mapsto> cty_text] dxcc0"


lemma dxcc1_reachable: "dxcc_reachable dxcc1"
  unfolding dxcc1_def by (intro dxcc_reachable.intros)

lemma dxcc1_lookup: "map toupper_c (take 31 ''F5ABC/MM'') = ''F5ABC/MM'' \<and>
    ft8_dxcc_entity dxcc1 ''F5ABC/MM'' = 1 \<and> dx_exact dxcc1 ''F5ABC/MM'' = None"
  by code_simp

theorem entity_has_longest_prefix_witness:
  "\<exists>L. prefix_match dxcc1 (segments ''F5ABC/MM'') L (nat (ft8_dxcc_entity dxcc1 ''F5ABC/MM''))
     \<and> (\<forall>L' e. prefix_match dxcc1 (segments ''F5ABC/MM'') L' e \<longrightarrow> L' \<le> L)"
proof -
  note l = dxcc1_lookup
  have u: "map toupper_c (take 31 ''F5ABC/MM'') = ''F5ABC/MM''" using l by blast
  have ne: "(ft8_dxcc_entity dxcc1 ''F5ABC/MM'' = - 1) = False"
    using l by (metis one_neq_neg_one)
  have "dx_entities dxcc1 \<noteq> []" using ne unfolding ft8_dxcc_entity_def by (metis (full_types))
  hence ld: "ft8_dxcc_loaded dxcc1" unfolding ft8_dxcc_loaded_def length_greater_0_conv .
  have x: "dx_exact dxcc1 (map toupper_c (take 31 ''F5ABC/MM'')) = None" unfolding u using l by blast
  from entity_has_longest_prefix[OF dxcc1_reachable list.distinct(2) ld x]
  show ?thesis unfolding u ne if_False .
qed

text \<open>An entity number is an index: whatever was loaded, an entity found for a call
has a name, and there are never more than 512 of them.\<close>

theorem entity_has_name:
  assumes "dxcc_reachable d" "ft8_dxcc_entity d call \<noteq> - 1"
  shows "ft8_dxcc_count d \<le> 512 \<and> 0 \<le> ft8_dxcc_entity d call
    \<and> ft8_dxcc_entity d call < int (ft8_dxcc_count d) \<and> ft8_dxcc_name d (ft8_dxcc_entity d call) \<noteq> None"
proof -
  have ok: "dxcc_ok d" using reachable_ok[OF assms(1)] .
  let ?up = "map toupper_c (take 31 call)"
  obtain L e where b: "foldl (best_step d) (0, - 1) (segments ?up) = (L, e)" by fastforce
  have "0 \<le> ft8_dxcc_entity d call \<and> ft8_dxcc_entity d call < int (length (dx_entities d))"
  proof (cases "dx_exact d ?up")
    case (Some x)
    thus ?thesis using ok assms(2) by (auto simp: ft8_dxcc_entity_def Let_def dxcc_ok_def ran_def split: if_splits)
  next
    case None
    hence e: "ft8_dxcc_entity d call = e" using assms(2) b by (auto simp: ft8_dxcc_entity_def Let_def split: if_splits)
    hence "L > 0" "0 \<le> e" "prefix_match d (segments ?up) L (nat e)"
      using best_step_fold[OF ok, of "segments ?up"] b assms(2) by (cases "L = 0"; simp)+
    moreover then obtain seg where "dx_prefix d (take L seg) = Some (nat e)" by (auto simp: prefix_match_def)
    hence "nat e < length (dx_entities d)" using ok unfolding dxcc_ok_def by (meson UnI2 ranI)
    ultimately show ?thesis using e by simp
  qed
  thus ?thesis using ok by (auto simp: ft8_dxcc_name_def ft8_dxcc_count_def dxcc_ok_def MAX_ENTITIES_def)
qed

theorem entity_has_name_witness:
  "ft8_dxcc_name dxcc1 (ft8_dxcc_entity dxcc1 ''F5ABC/MM'') \<noteq> None"
proof -
  have "ft8_dxcc_entity dxcc1 ''F5ABC/MM'' \<noteq> - 1" using dxcc1_lookup by linarith
  thus ?thesis using entity_has_name[OF dxcc1_reachable] by blast
qed

end
