(* ===== verification/Ft8_Tx.thy ===== *)
theory Ft8_Tx
  imports Complex_Main Prelude
begin

text \<open>The transmit side of FT8 and FT4, \<open>src/decode/ft8_encoder.c\<close>: the table
of callsign hashes, the waveform, the scheduler that keys the transmitter in a time slot of
the wanted parity, and the watchdog on the keying.

The waveform is described by the text, audio offset and protocol it was made from; its
samples are floating point and are not modelled. \<open>ftx_message_encode\<close> of ft8_lib
is a parameter that gives the callsigns it saves and whether the message can be packed.
\<open>set_mox\<close> is an event; the clock, \<open>radio->mox\<close> and
\<open>radio->ft8_proto\<close> are arguments.\<close>

section \<open>Callsign hashes\<close>

definition CALLSIGN_HASHTABLE_SIZE :: nat where "CALLSIGN_HASHTABLE_SIZE = 256"

type_synonym hashtable = "(string \<times> 32 word) list"

datatype hash_type = FTX_CALLSIGN_HASH_22_BITS | FTX_CALLSIGN_HASH_12_BITS | FTX_CALLSIGN_HASH_10_BITS

definition hash_index :: "32 word \<Rightarrow> nat" where
  "hash_index h10 = (unat (h10 AND 0x3FF) * 23) mod CALLSIGN_HASHTABLE_SIZE"

definition hash22 :: "32 word \<Rightarrow> 32 word" where
  "hash22 h = h AND 0x3FFFFF"

fun add_probe :: "nat \<Rightarrow> nat \<Rightarrow> string \<Rightarrow> 32 word \<Rightarrow> hashtable \<Rightarrow> hashtable" where
  "add_probe 0 idx callsign hash t = t"
| "add_probe (Suc n) idx callsign hash t =
     (if fst (t ! idx) = [] then t[idx := (take 11 callsign, hash)]
      else if hash22 (snd (t ! idx)) = hash \<and> fst (t ! idx) = callsign
      then t[idx := (fst (t ! idx), hash22 (snd (t ! idx)))]
      else add_probe n ((idx + 1) mod CALLSIGN_HASHTABLE_SIZE) callsign hash t)"

definition hashtable_add :: "string \<Rightarrow> 32 word \<Rightarrow> hashtable \<Rightarrow> hashtable" where
  "hashtable_add callsign hash t =
     add_probe CALLSIGN_HASHTABLE_SIZE (hash_index (drop_bit 12 hash)) callsign hash t"

definition hash_shift :: "hash_type \<Rightarrow> nat" where
  "hash_shift ty = (if ty = FTX_CALLSIGN_HASH_10_BITS then 12 else if ty = FTX_CALLSIGN_HASH_12_BITS then 10 else 0)"

fun lookup_probe :: "nat \<Rightarrow> nat \<Rightarrow> nat \<Rightarrow> 32 word \<Rightarrow> hashtable \<Rightarrow> string option" where
  "lookup_probe 0 idx shift hash t = None"
| "lookup_probe (Suc n) idx shift hash t =
     (if fst (t ! idx) = [] then None
      else if drop_bit shift (hash22 (snd (t ! idx))) = hash then Some (fst (t ! idx))
      else lookup_probe n ((idx + 1) mod CALLSIGN_HASHTABLE_SIZE) shift hash t)"

definition hashtable_lookup :: "hash_type \<Rightarrow> 32 word \<Rightarrow> hashtable \<Rightarrow> string option" where
  "hashtable_lookup ty hash t =
     lookup_probe CALLSIGN_HASHTABLE_SIZE (hash_index (drop_bit (12 - hash_shift ty) hash)) (hash_shift ty) hash t"

section \<open>The waveform\<close>

definition FT8_TX_RATE :: int where "FT8_TX_RATE = 48000"
definition FT8_TX_SPS :: int where "FT8_TX_SPS = 7680"
definition FT4_TX_SPS :: int where "FT4_TX_SPS = 2304"
definition FT8_NN :: int where "FT8_NN = 79"
definition FT4_NN :: int where "FT4_NN = 105"
definition FT8_TX_SAMPLES :: int where "FT8_TX_SAMPLES = FT8_NN * FT8_TX_SPS"
definition FT8_TX_MAX_MARGIN_MS :: int where "FT8_TX_MAX_MARGIN_MS = 2000"

definition TX_SLOT_MS :: "bool \<Rightarrow> int" where "TX_SLOT_MS ft4 = (if ft4 then 7500 else 15000)"

record ft8_tx =
  t_wave :: "(string \<times> int \<times> bool) option"
  t_wave_len :: int
  t_have_wave :: bool
  t_tx_active :: bool
  t_tx_idx :: int
  t_armed :: bool
  t_arm_even :: bool
  t_last_started_slot :: int
  t_we_keyed :: bool
  t_ticking :: bool
  t_key_time_ms :: int
  t_hash :: hashtable

definition ft8_tx0 :: ft8_tx where
  "ft8_tx0 = \<lparr>t_wave = None, t_wave_len = 0, t_have_wave = False, t_tx_active = False, t_tx_idx = 0,
     t_armed = False, t_arm_even = False, t_last_started_slot = - 1, t_we_keyed = False, t_ticking = False,
     t_key_time_ms = 0, t_hash = replicate CALLSIGN_HASHTABLE_SIZE ([], 0)\<rparr>"

type_synonym encoder = "string \<Rightarrow> (string \<times> 32 word) list \<times> bool"

definition ft8_tx_prepare :: "encoder \<Rightarrow> bool \<Rightarrow> string \<Rightarrow> int \<Rightarrow> ft8_tx \<Rightarrow> ft8_tx \<times> bool" where
  "ft8_tx_prepare encode ft4 msg offset t =
     (case encode msg of (saved, ok) \<Rightarrow>
        let t1 = t\<lparr>t_hash := fold (\<lambda>(c, h). hashtable_add c h) saved (t_hash t)\<rparr> in
        if \<not> ok then (t1\<lparr>t_have_wave := False\<rparr>, False)
        else (t1\<lparr>t_wave := Some (msg, offset, ft4),
                t_wave_len := (if ft4 then FT4_NN * FT4_TX_SPS else FT8_NN * FT8_TX_SPS),
                t_have_wave := True\<rparr>, True))"

section \<open>The scheduler\<close>

text \<open>One tick: the new state and the values \<open>set_mox\<close> is called with.\<close>

definition tx_tick :: "int \<Rightarrow> bool \<Rightarrow> bool \<Rightarrow> ft8_tx \<Rightarrow> ft8_tx \<times> bool list" where
  "tx_tick now_ms ft4 mox t =
     (if \<not> t_armed t \<and> \<not> t_tx_active t then (t\<lparr>t_ticking := False\<rparr>, [])
      else
        (let slot_ms = TX_SLOT_MS ft4; slot = now_ms div slot_ms; in_slot = now_ms mod slot_ms in
         if t_tx_active t then
           (let max_ms = t_wave_len t * 1000 div FT8_TX_RATE + FT8_TX_MAX_MARGIN_MS in
            if t_we_keyed t \<and> t_key_time_ms t \<noteq> 0 \<and> now_ms - t_key_time_ms t > max_ms
            then (t\<lparr>t_tx_active := False, t_armed := False, t_we_keyed := False, t_ticking := False\<rparr>, [False])
            else if t_tx_idx t \<ge> t_wave_len t
            then (t\<lparr>t_tx_active := False, t_armed := False, t_we_keyed := False, t_ticking := False\<rparr>,
                  if t_we_keyed t then [False] else [])
            else (t, []))
         else if t_have_wave t \<and> in_slot < 2000 \<and> slot \<noteq> t_last_started_slot t
                 \<and> (slot mod 2 = 0) = t_arm_even t
         then (let t1 = t\<lparr>t_last_started_slot := slot, t_tx_idx := 0, t_tx_active := True, t_key_time_ms := now_ms\<rparr>
               in if \<not> mox then (t1\<lparr>t_we_keyed := True\<rparr>, [True]) else (t1, []))
         else (t, [])))"

definition ft8_tx_arm :: "int \<Rightarrow> bool \<Rightarrow> bool \<Rightarrow> ft8_tx \<Rightarrow> ft8_tx" where
  "ft8_tx_arm now_ms ft4 tx_even t =
     (if \<not> t_have_wave t then t
      else t\<lparr>t_arm_even := tx_even, t_last_started_slot := now_ms div TX_SLOT_MS ft4, t_armed := True,
             t_ticking := True\<rparr>)"

definition ft8_tx_disarm :: "ft8_tx \<Rightarrow> ft8_tx \<times> bool list" where
  "ft8_tx_disarm t =
     (t\<lparr>t_armed := False, t_tx_active := False, t_we_keyed := False\<rparr>, if t_we_keyed t then [False] else [])"

definition ft8_tx_active :: "ft8_tx \<Rightarrow> bool" where
  "ft8_tx_active t = t_tx_active t"

text \<open>The index of the sample taken, none for silence.\<close>

definition ft8_tx_next_sample :: "ft8_tx \<Rightarrow> ft8_tx \<times> int option" where
  "ft8_tx_next_sample t =
     (if \<not> t_tx_active t then (t, None)
      else if t_tx_idx t \<ge> t_wave_len t then (t, None)
      else (t\<lparr>t_tx_idx := t_tx_idx t + 1\<rparr>, Some (t_tx_idx t)))"


section \<open>Lookups after an insertion\<close>

lemma hash22_idem [simp]: "hash22 (hash22 h) = hash22 h"
  by (simp add: hash22_def and.assoc)

lemma length_add_probe [simp]: "length (add_probe n idx c h t) = length t"
  by (induction n idx c h t rule: add_probe.induct) (auto simp: Let_def)

lemma length_add [simp]: "length (hashtable_add c h t) = length t"
  by (simp add: hashtable_add_def)

lemma list_update_get: "j < length t \<Longrightarrow> t[i := x] ! j = (if i = j then x else t ! j)"
  by (simp add: nth_list_update)

lemma add_probe_get:
  assumes "j < length t" "fst (t ! j) \<noteq> []" "hash22 h = h"
  shows "fst (add_probe n idx c h t ! j) = fst (t ! j)
    \<and> hash22 (snd (add_probe n idx c h t ! j)) = hash22 (snd (t ! j))"
  using assms
  by (induction n idx c h t rule: add_probe.induct) (auto simp: list_update_get)

lemma lookup_probe_mono:
  assumes "length t = CALLSIGN_HASHTABLE_SIZE" "idx < CALLSIGN_HASHTABLE_SIZE"
    "\<And>j. j < CALLSIGN_HASHTABLE_SIZE \<Longrightarrow> fst (t ! j) \<noteq> [] \<Longrightarrow>
       fst (u ! j) = fst (t ! j) \<and> hash22 (snd (u ! j)) = hash22 (snd (t ! j))"
    "lookup_probe n idx s h t = Some c"
  shows "lookup_probe n idx s h u = Some c"
  using assms(2,4)
proof (induction n arbitrary: idx)
  case (Suc n)
  have "(idx + 1) mod CALLSIGN_HASHTABLE_SIZE < CALLSIGN_HASHTABLE_SIZE" by (simp add: CALLSIGN_HASHTABLE_SIZE_def)
  thus ?case using Suc assms(3)[of idx] by (auto split: if_splits)
qed simp

lemma hash_index_bound [simp]: "hash_index h < CALLSIGN_HASHTABLE_SIZE"
  by (simp add: hash_index_def CALLSIGN_HASHTABLE_SIZE_def)

text \<open>No other callsign holds this 22 bit hash.\<close>

definition hash_free :: "string \<Rightarrow> 32 word \<Rightarrow> hashtable \<Rightarrow> bool" where
  "hash_free c h t \<longleftrightarrow> (\<forall>e \<in> set t. fst e \<noteq> [] \<and> hash22 (snd e) = h \<longrightarrow> fst e = c)"

lemma add_then_lookup_probe:
  assumes "length t = CALLSIGN_HASHTABLE_SIZE" "idx < CALLSIGN_HASHTABLE_SIZE" "c \<noteq> []" "length c \<le> 11"
    "hash22 h = h" "hash_free c h t" "\<exists>k < n. fst (t ! ((idx + k) mod CALLSIGN_HASHTABLE_SIZE)) = []"
  shows "lookup_probe n idx 0 h (add_probe n idx c h t) = Some c"
  using assms(2,7)
proof (induction n arbitrary: idx)
  case (Suc n)
  let ?next = "(idx + 1) mod CALLSIGN_HASHTABLE_SIZE"
  have idx: "idx < length t" using Suc.prems(1) assms(1) by simp
  show ?case
  proof (cases "fst (t ! idx) = []")
    case True
    thus ?thesis using idx assms(3-5) by simp
  next
    case used: False
    show ?thesis
    proof (cases "hash22 (snd (t ! idx)) = h")
      case True
      hence "fst (t ! idx) = c" using used assms(6) nth_mem[OF idx] by (auto simp: hash_free_def)
      thus ?thesis using used True idx assms(3,5) by simp
    next
      case False
      obtain k where k: "k < Suc n" "fst (t ! ((idx + k) mod CALLSIGN_HASHTABLE_SIZE)) = []" using Suc.prems(2) by blast
      have "k \<noteq> 0" using k used Suc.prems(1) by (cases k) auto
      then obtain k' where k': "k = Suc k'" using not0_implies_Suc by blast
      have "(?next + k') mod CALLSIGN_HASHTABLE_SIZE = (idx + k) mod CALLSIGN_HASHTABLE_SIZE"
        by (simp add: k' mod_simps)
      hence "\<exists>k < n. fst (t ! ((?next + k) mod CALLSIGN_HASHTABLE_SIZE)) = []" using k k' by auto
      moreover have "?next < CALLSIGN_HASHTABLE_SIZE" by (simp add: CALLSIGN_HASHTABLE_SIZE_def)
      ultimately have "lookup_probe n ?next 0 h (add_probe n ?next c h t) = Some c" by (intro Suc.IH)
      thus ?thesis using used False add_probe_get[OF idx used assms(5), of n ?next c] by simp
    qed
  qed
qed simp

lemma add_probe_found:
  assumes "length t = CALLSIGN_HASHTABLE_SIZE" "idx < CALLSIGN_HASHTABLE_SIZE"
    "lookup_probe n idx 0 h t = Some c"
  shows "drop_bit s h = h' \<Longrightarrow> lookup_probe n idx s h' t \<noteq> None"
  using assms(2,3)
proof (induction n arbitrary: idx)
  case (Suc n)
  have "(idx + 1) mod CALLSIGN_HASHTABLE_SIZE < CALLSIGN_HASHTABLE_SIZE" by (simp add: CALLSIGN_HASHTABLE_SIZE_def)
  thus ?case using Suc by (auto split: if_splits)
qed simp

lemma reach_every_slot:
  assumes "j < CALLSIGN_HASHTABLE_SIZE" "idx < CALLSIGN_HASHTABLE_SIZE"
  shows "\<exists>k < CALLSIGN_HASHTABLE_SIZE. (idx + k) mod CALLSIGN_HASHTABLE_SIZE = j"
proof (intro exI conjI)
  let ?k = "(j + CALLSIGN_HASHTABLE_SIZE - idx) mod CALLSIGN_HASHTABLE_SIZE"
  show "?k < CALLSIGN_HASHTABLE_SIZE" by (simp add: CALLSIGN_HASHTABLE_SIZE_def)
  have "(idx + ?k) mod CALLSIGN_HASHTABLE_SIZE = (idx + (j + CALLSIGN_HASHTABLE_SIZE - idx)) mod CALLSIGN_HASHTABLE_SIZE"
    by (simp add: mod_simps)
  thus "(idx + ?k) mod CALLSIGN_HASHTABLE_SIZE = j" using assms by simp
qed

text \<open>A callsign saved in the hash table is found again by its 22 bit hash, as
long as the table has a free slot and no other callsign has the same hash; its 12 and 10
bit hashes find a callsign too; and nothing that could be looked up before is lost or
changed. Both loops end after one turn of the table.\<close>

theorem saved_callsign_is_found:
  assumes "length t = CALLSIGN_HASHTABLE_SIZE" "c \<noteq> []" "length c \<le> 11" "hash22 h = h"
    "hash_free c h t" "\<exists>e \<in> set t. fst e = []"
  shows "hashtable_lookup FTX_CALLSIGN_HASH_22_BITS h (hashtable_add c h t) = Some c
    \<and> hashtable_lookup FTX_CALLSIGN_HASH_12_BITS (drop_bit 10 h) (hashtable_add c h t) \<noteq> None
    \<and> hashtable_lookup FTX_CALLSIGN_HASH_10_BITS (drop_bit 12 h) (hashtable_add c h t) \<noteq> None
    \<and> (\<forall>ty h' c'. hashtable_lookup ty h' t = Some c' \<longrightarrow> hashtable_lookup ty h' (hashtable_add c h t) = Some c')"
proof -
  let ?i = "hash_index (drop_bit 12 h)"
  let ?u = "hashtable_add c h t"
  obtain j where j: "j < CALLSIGN_HASHTABLE_SIZE" "fst (t ! j) = []"
    using assms(1,6) by (metis in_set_conv_nth)
  have "\<exists>k < CALLSIGN_HASHTABLE_SIZE. fst (t ! ((?i + k) mod CALLSIGN_HASHTABLE_SIZE)) = []"
    using reach_every_slot[OF j(1) hash_index_bound] j(2) by metis
  hence l: "lookup_probe CALLSIGN_HASHTABLE_SIZE ?i 0 h ?u = Some c"
    using add_then_lookup_probe[OF assms(1) hash_index_bound assms(2-5)] by (simp add: hashtable_add_def)
  have "length ?u = CALLSIGN_HASHTABLE_SIZE" using assms(1) by simp
  note f = add_probe_found[OF this hash_index_bound l]
  have keep: "hashtable_lookup ty h' ?u = Some c'" if "hashtable_lookup ty h' t = Some c'" for ty h' c'
    using that lookup_probe_mono[OF assms(1) hash_index_bound, where u = ?u] add_probe_get[OF _ _ assms(4), where t = t] assms(1)
    unfolding hashtable_lookup_def by (simp add: hashtable_add_def)
  show ?thesis using l f[of 10 "drop_bit 10 h"] f[of 12 "drop_bit 12 h"] keep
    by (simp add: hashtable_lookup_def hash_shift_def drop_bit_drop_bit)
qed

theorem saved_callsign_is_found_witness:
  "hashtable_lookup FTX_CALLSIGN_HASH_22_BITS 0x12345 (hashtable_add ''G0ORX'' 0x12345 (t_hash ft8_tx0)) = Some ''G0ORX''"
proof -
  have "length (t_hash ft8_tx0) = CALLSIGN_HASHTABLE_SIZE" by (simp add: ft8_tx0_def)
  moreover have "hash_free ''G0ORX'' 0x12345 (t_hash ft8_tx0)" "\<exists>e \<in> set (t_hash ft8_tx0). fst e = []"
    by (auto simp: ft8_tx0_def hash_free_def CALLSIGN_HASHTABLE_SIZE_def)
  ultimately show ?thesis using saved_callsign_is_found[of "t_hash ft8_tx0" "''G0ORX''" "0x12345"] by (simp add: hash22_def)
qed

section \<open>What the scheduler keeps\<close>

datatype tx_op = Op_tick int bool bool | Op_prepare bool string int | Op_arm int bool bool | Op_disarm | Op_sample

fun tx_step :: "encoder \<Rightarrow> tx_op \<Rightarrow> ft8_tx \<Rightarrow> ft8_tx \<times> bool list" where
  "tx_step en (Op_tick now ft4 mox) t = tx_tick now ft4 mox t"
| "tx_step en (Op_prepare ft4 msg offset) t = (fst (ft8_tx_prepare en ft4 msg offset t), [])"
| "tx_step en (Op_arm now ft4 ev) t = (ft8_tx_arm now ft4 ev t, [])"
| "tx_step en Op_disarm t = ft8_tx_disarm t"
| "tx_step en Op_sample t = (fst (ft8_tx_next_sample t), [])"

fun tx_run :: "encoder \<Rightarrow> tx_op list \<Rightarrow> ft8_tx \<Rightarrow> ft8_tx \<times> bool list" where
  "tx_run en [] t = (t, [])"
| "tx_run en (op # ops) t =
     (case tx_step en op t of (t1, e1) \<Rightarrow> case tx_run en ops t1 of (t2, e2) \<Rightarrow> (t2, e1 @ e2))"

text \<open>Key-ups and key-downs that alternate, the transmitter being on at the start or
not; the result is whether it is on at the end.\<close>

fun alternates :: "bool \<Rightarrow> bool list \<Rightarrow> bool" where
  "alternates on [] = True"
| "alternates on (e # es) = (e \<noteq> on \<and> alternates e es)"

definition tx_inv :: "ft8_tx \<Rightarrow> bool" where
  "tx_inv t \<longleftrightarrow> (t_we_keyed t \<longrightarrow> t_tx_active t) \<and> (t_armed t \<or> t_tx_active t \<longrightarrow> t_ticking t)
     \<and> t_wave_len t \<in> {0, FT8_NN * FT8_TX_SPS, FT4_NN * FT4_TX_SPS} \<and> 0 \<le> t_tx_idx t"

lemmas tx_ops = tx_tick_def ft8_tx_prepare_def ft8_tx_arm_def ft8_tx_disarm_def ft8_tx_next_sample_def

lemma tx_inv0: "tx_inv ft8_tx0"
  by (simp add: tx_inv_def ft8_tx0_def)

lemma tx_step_inv:
  assumes "tx_inv t"
  shows "tx_inv (fst (tx_step en op t))
    \<and> alternates (t_we_keyed t) (snd (tx_step en op t))
    \<and> t_we_keyed (fst (tx_step en op t)) = last (t_we_keyed t # snd (tx_step en op t))"
  using assms
  by (cases op) (auto simp: tx_ops tx_inv_def Let_def split: prod.splits)

lemma alternates_append: "alternates on (a @ b) \<longleftrightarrow> alternates on a \<and> alternates (last (on # a)) b"
  by (induction a arbitrary: on) auto

lemma tx_run_inv:
  "tx_inv t \<Longrightarrow> tx_inv (fst (tx_run en ops t))
    \<and> alternates (t_we_keyed t) (snd (tx_run en ops t))
    \<and> t_we_keyed (fst (tx_run en ops t)) = last (t_we_keyed t # snd (tx_run en ops t))"
proof (induction ops arbitrary: t)
  case (Cons op ops)
  obtain t1 e1 where 1: "tx_step en op t = (t1, e1)" by fastforce
  obtain t2 e2 where 2: "tx_run en ops t1 = (t2, e2)" by fastforce
  note a = tx_step_inv[OF Cons.prems, of en op, unfolded 1 fst_conv snd_conv]
  note b = Cons.IH[of t1, unfolded 2 fst_conv snd_conv]
  have "last (t_we_keyed t # e1 @ e2) = last (t_we_keyed t1 # e2)" using a by (cases e2) auto
  thus ?case using a b by (simp add: 1 2 alternates_append)
qed simp

text \<open>The scheduler gives the transmitter back: whatever it is asked to do, from
start-up on, its calls of \<open>set_mox\<close> alternate between on and off, starting with on,
so it only drops a transmission it raised itself; it remembers a raised one exactly while
the waveform is being sent; and its timer runs as long as there is anything to do.\<close>

theorem keying_is_balanced:
  "alternates False (snd (tx_run en ops ft8_tx0))
   \<and> t_we_keyed (fst (tx_run en ops ft8_tx0)) = last (False # snd (tx_run en ops ft8_tx0))
   \<and> (t_we_keyed (fst (tx_run en ops ft8_tx0)) \<longrightarrow> t_tx_active (fst (tx_run en ops ft8_tx0)))
   \<and> (t_armed (fst (tx_run en ops ft8_tx0)) \<or> t_tx_active (fst (tx_run en ops ft8_tx0))
       \<longrightarrow> t_ticking (fst (tx_run en ops ft8_tx0)))"
  using tx_run_inv[OF tx_inv0, of en ops] by (simp add: tx_inv_def ft8_tx0_def)


text \<open>MOX is never stuck: a transmission the scheduler raised is dropped by the
first tick more than 14.64 s (the longest waveform and the margin) after it was raised,
even when the transmit path has stopped taking samples.\<close>

theorem keying_ends_in_time:
  assumes "s = fst (tx_run en ops ft8_tx0)" "t_we_keyed s" "t_key_time_ms s \<noteq> 0"
    "now - t_key_time_ms s > 14640"
  shows "snd (tx_tick now ft4 mox s) = [False] \<and> \<not> t_tx_active (fst (tx_tick now ft4 mox s))"
proof -
  have i: "tx_inv s" using tx_run_inv[OF tx_inv0, of en ops] assms(1) by simp
  have "t_tx_active s" "t_wave_len s * 1000 div FT8_TX_RATE + FT8_TX_MAX_MARGIN_MS \<le> 14640"
    using i assms(2) by (auto simp: tx_inv_def FT8_NN_def FT4_NN_def FT8_TX_SPS_def FT4_TX_SPS_def
        FT8_TX_RATE_def FT8_TX_MAX_MARGIN_MS_def)
  thus ?thesis using assms(2-4) by (simp add: tx_tick_def Let_def)
qed

definition encode_any :: encoder where "encode_any msg = ([], True)"

definition keyed_ops :: "tx_op list" where
  "keyed_ops = [Op_prepare False ''CQ G0ORX IO83'' 1500, Op_arm 15000 False True, Op_tick 30100 False False]"

theorem keying_ends_in_time_witness:
  "snd (tx_tick 44741 False True (fst (tx_run encode_any keyed_ops ft8_tx0))) = [False]"
proof -
  have "t_we_keyed (fst (tx_run encode_any keyed_ops ft8_tx0))"
    "t_key_time_ms (fst (tx_run encode_any keyed_ops ft8_tx0)) = 30100"
    by (simp_all add: keyed_ops_def tx_ops encode_any_def ft8_tx0_def TX_SLOT_MS_def)
  thus ?thesis using keying_ends_in_time[OF refl, of encode_any keyed_ops 44741 False True] by simp
qed

theorem keying_is_balanced_witness:
  "t_we_keyed (fst (tx_run encode_any keyed_ops ft8_tx0)) \<and> t_tx_active (fst (tx_run encode_any keyed_ops ft8_tx0))
   \<and> t_ticking (fst (tx_run encode_any keyed_ops ft8_tx0))"
proof -
  have "t_we_keyed (fst (tx_run encode_any keyed_ops ft8_tx0))"
    by (simp add: keyed_ops_def tx_ops encode_any_def ft8_tx0_def TX_SLOT_MS_def)
  thus ?thesis using keying_is_balanced[of encode_any keyed_ops] by blast
qed

text \<open>Ticks while the scheduler waits, up to the first that keys the transmitter up;
the result is the time of that tick.\<close>

fun first_key_up :: "bool \<Rightarrow> bool \<Rightarrow> int list \<Rightarrow> ft8_tx \<Rightarrow> (int \<times> ft8_tx) option" where
  "first_key_up ft4 mox [] t = None"
| "first_key_up ft4 mox (now # ts) t =
     (if t_tx_active (fst (tx_tick now ft4 mox t)) then Some (now, fst (tx_tick now ft4 mox t))
      else first_key_up ft4 mox ts (fst (tx_tick now ft4 mox t)))"

lemma waiting_tick:
  assumes "t_armed t" "\<not> t_tx_active t"
  shows "tx_tick now ft4 mox t = (t, []) \<or>
    (t_tx_active (fst (tx_tick now ft4 mox t)) \<and> t_have_wave t \<and> now mod TX_SLOT_MS ft4 < 2000
     \<and> now div TX_SLOT_MS ft4 \<noteq> t_last_started_slot t \<and> (now div TX_SLOT_MS ft4 mod 2 = 0) = t_arm_even t
     \<and> t_wave_len (fst (tx_tick now ft4 mox t)) = t_wave_len t)"
  using assms by (auto simp: tx_tick_def Let_def)

lemma first_key_up_slot:
  assumes "t_armed t" "\<not> t_tx_active t" "first_key_up ft4 mox ts t = Some (now, t')"
  shows "now \<in> set ts \<and> t_have_wave t \<and> now mod TX_SLOT_MS ft4 < 2000
     \<and> now div TX_SLOT_MS ft4 \<noteq> t_last_started_slot t \<and> (now div TX_SLOT_MS ft4 mod 2 = 0) = t_arm_even t
     \<and> t_wave_len t' = t_wave_len t"
  using assms(3)
proof (induction ts)
  case (Cons n ts)
  consider "tx_tick n ft4 mox t = (t, [])" | "t_tx_active (fst (tx_tick n ft4 mox t))"
    using waiting_tick[OF assms(1,2)] by blast
  thus ?case
  proof cases
    case 1 thus ?thesis using Cons assms(2) by simp
  next
    case 2
    thus ?thesis using Cons.prems waiting_tick[OF assms(1,2), of n ft4 mox] assms(2) by auto
  qed
qed simp

text \<open>Transmissions stay in their slots: however late the timer runs, an armed
message starts in a slot after the one it was armed in, of the parity asked for, and early
enough that the whole waveform ends inside that slot.\<close>

theorem starts_in_a_later_slot_and_fits:
  assumes "\<not> t_tx_active t" "ft8_tx_prepare en ft4 msg offset t = (t1, True)"
    "\<forall>n \<in> set ts. arm_time \<le> n" "first_key_up ft4 mox ts (ft8_tx_arm arm_time ft4 ev t1) = Some (now, t2)"
  shows "now div TX_SLOT_MS ft4 > arm_time div TX_SLOT_MS ft4
    \<and> (now div TX_SLOT_MS ft4 mod 2 = 0) = ev
    \<and> (now + t_wave_len t2 * 1000 div FT8_TX_RATE) div TX_SLOT_MS ft4 = now div TX_SLOT_MS ft4"
proof -
  let ?a = "ft8_tx_arm arm_time ft4 ev t1"
  have t1: "t_have_wave t1" "\<not> t_tx_active t1"
    "t_wave_len t1 = (if ft4 then FT4_NN * FT4_TX_SPS else FT8_NN * FT8_TX_SPS)"
    using assms(1,2) by (auto simp: ft8_tx_prepare_def Let_def split: prod.splits if_splits)
  have a: "t_armed ?a" "\<not> t_tx_active ?a" "t_arm_even ?a = ev" "t_wave_len ?a = t_wave_len t1"
    "t_last_started_slot ?a = arm_time div TX_SLOT_MS ft4" using t1 by (simp_all add: ft8_tx_arm_def)
  note k = first_key_up_slot[OF a(1,2) assms(4), unfolded a(3-5)]
  have "arm_time div TX_SLOT_MS ft4 \<le> now div TX_SLOT_MS ft4"
    using k assms(3) by (intro zdiv_mono1) (auto simp: TX_SLOT_MS_def)
  moreover have "(now + t_wave_len t2 * 1000 div FT8_TX_RATE) div TX_SLOT_MS ft4 = now div TX_SLOT_MS ft4"
  proof -
    let ?w = "t_wave_len t2 * 1000 div FT8_TX_RATE" and ?s = "TX_SLOT_MS ft4"
    have "0 \<le> now mod ?s + ?w" "now mod ?s + ?w < ?s" "0 < ?s"
      using k t1(3) by (auto simp: TX_SLOT_MS_def FT8_NN_def FT4_NN_def FT8_TX_SPS_def FT4_TX_SPS_def FT8_TX_RATE_def)
    moreover have "now + ?w = (now div ?s) * ?s + (now mod ?s + ?w)" by simp
    ultimately show ?thesis by (metis div_mult_self3 div_pos_pos_trivial add.right_neutral less_irrefl)
  qed
  ultimately show ?thesis using k by linarith
qed

theorem starts_in_a_later_slot_and_fits_witness:
  "\<exists>t2. first_key_up False False [15100, 29000, 30100] (ft8_tx_arm 15000 False True
      (fst (ft8_tx_prepare encode_any False ''CQ G0ORX IO83'' 1500 ft8_tx0))) = Some (30100, t2)
    \<and> (30100 :: int) div TX_SLOT_MS False > 15000 div TX_SLOT_MS False"
proof -
  obtain t1 where 1: "ft8_tx_prepare encode_any False ''CQ G0ORX IO83'' 1500 ft8_tx0 = (t1, True)"
    by (simp add: ft8_tx_prepare_def encode_any_def)
  have 0: "\<not> t_tx_active ft8_tx0" by (simp add: ft8_tx0_def)
  obtain t2 where 2: "first_key_up False False [15100, 29000, 30100] (ft8_tx_arm 15000 False True t1) = Some (30100, t2)"
    using 1 by (auto simp: ft8_tx_prepare_def encode_any_def ft8_tx0_def tx_tick_def ft8_tx_arm_def TX_SLOT_MS_def)
  from starts_in_a_later_slot_and_fits[OF 0 1 _ 2] show ?thesis using 1 2 by simp
qed

text \<open>A transmission the operator keyed has no watchdog: when MOX was already on at
the start of the slot and goes off before the waveform is out, the sender stays active
for ever, at the same sample and with nothing keyed, until something disarms it.\<close>

theorem unkeyed_transmission_never_ends:
  assumes "t_tx_active t" "\<not> t_we_keyed t" "t_tx_idx t < t_wave_len t"
  shows "tx_run en (map (\<lambda>(now, ft4, mox). Op_tick now ft4 mox) ts) t = (t, [])"
proof (induction ts)
  case (Cons x ts)
  obtain now ft4 mox where x: "x = (now, ft4, mox)" by (cases x)
  have "tx_tick now ft4 mox t = (t, [])" using assms by (simp add: tx_tick_def Let_def)
  thus ?case using Cons by (simp add: x)
qed simp

theorem unkeyed_transmission_never_ends_witness:
  "tx_run encode_any [Op_tick 999999 False False]
     (fst (tx_run encode_any [Op_prepare False ''CQ'' 1500, Op_arm 15000 False True, Op_tick 30100 False True] ft8_tx0))
   = (fst (tx_run encode_any [Op_prepare False ''CQ'' 1500, Op_arm 15000 False True, Op_tick 30100 False True] ft8_tx0), [])"
proof -
  let ?t = "fst (tx_run encode_any [Op_prepare False ''CQ'' 1500, Op_arm 15000 False True, Op_tick 30100 False True] ft8_tx0)"
  have "t_tx_active ?t" "\<not> t_we_keyed ?t" "t_tx_idx ?t < t_wave_len ?t"
    by (simp_all add: tx_ops encode_any_def ft8_tx0_def TX_SLOT_MS_def FT8_NN_def FT8_TX_SPS_def)
  from unkeyed_transmission_never_ends[OF this, of encode_any "[(999999, False, False)]"] show ?thesis by simp
qed


text \<open>Sending reads inside the waveform: in every state the scheduler can be in, a
sample handed to the transmit path comes from inside the waveform buffer.\<close>

theorem sample_within_waveform:
  "snd (ft8_tx_next_sample (fst (tx_run en ops ft8_tx0))) = Some i \<Longrightarrow> 0 \<le> i \<and> i < FT8_TX_SAMPLES"
proof -
  assume a: "snd (ft8_tx_next_sample (fst (tx_run en ops ft8_tx0))) = Some i"
  let ?s = "fst (tx_run en ops ft8_tx0)"
  have "i = t_tx_idx ?s" "t_tx_idx ?s < t_wave_len ?s"
    using a by (auto simp: ft8_tx_next_sample_def split: if_splits)
  moreover have "0 \<le> t_tx_idx ?s" "t_wave_len ?s \<le> FT8_TX_SAMPLES"
    using tx_run_inv[OF tx_inv0, of en ops]
    by (auto simp: tx_inv_def FT8_TX_SAMPLES_def FT8_NN_def FT4_NN_def FT8_TX_SPS_def FT4_TX_SPS_def)
  ultimately show ?thesis by linarith
qed

theorem sample_within_waveform_witness:
  "snd (ft8_tx_next_sample (fst (tx_run encode_any keyed_ops ft8_tx0))) = Some 0 \<and> (0 :: int) < FT8_TX_SAMPLES"
proof -
  have "snd (ft8_tx_next_sample (fst (tx_run encode_any keyed_ops ft8_tx0))) = Some 0"
    by (simp add: keyed_ops_def tx_ops encode_any_def ft8_tx0_def TX_SLOT_MS_def FT8_NN_def FT8_TX_SPS_def)
  thus ?thesis using sample_within_waveform by blast
qed

end
