(* ===== verification/Ft8_Qso.thy ===== *)
theory Ft8_Qso
  imports Complex_Main Ft8_Dxcc Ft8_Tx Radio
begin

text \<open>The automatic FT8 contact of \<open>src/decode/ft8_qso.c\<close>: the sequence
states, the messages, the log with the stations and countries already worked, the poll timer
and what the panel can ask for.

The state is one record, with the transmit scheduler inside it, the records appended to
the log file and the calls of \<open>set_mox\<close> made so far. What the code reads of the
radio, the clock, the country table and the decoder is an argument; the radio is there
whenever these functions run. The status line is a datatype with one constructor per text.
\<open>g_ascii_formatd\<close>, \<open>g_ascii_strtod\<close>, the broken-down UTC time and
the encoder of ft8_lib are parameters.\<close>

section \<open>State\<close>

datatype qso_state = ST_IDLE | ST_CALLING_CQ | ST_CQ_SENT_REPORT | ST_CQ_SENT_RR73
  | ST_ANS_SENT_GRID | ST_ANS_SENT_RREPORT | ST_ANS_SENT_73 | ST_FREE

definition WATCHDOG_CYCLES :: nat where "WATCHDOG_CYCLES = 5"
definition TX_WATCHDOG_SEC :: int where "TX_WATCHDOG_SEC = 6 * 60"

datatype qso_status = Status_idle | Status_set_call | Status_set_grid | Status_calling_cq
  | Status_answering string | Status_sent string int | Status_sent_rr73 string int | Status_sent_73 string
  | Status_sent_rreport string int int | Status_complete | Status_no_reply | Status_watchdog
  | Status_cant_encode string | Status_tx_disabled | Status_pick_station | Status_tx int string | Status_free string

record ft8_decode =
  fd_utc :: string
  fd_snr :: real
  fd_call_to :: string
  fd_call_de :: string
  fd_extra :: string

text \<open>What is read of the radio and the system.\<close>

record qso_env =
  e_station_call :: string
  e_station_grid :: string
  e_cq_dir :: string
  e_tx_even :: bool
  e_tx_offset :: int
  e_ft4 :: bool
  e_dial :: "int option"
  e_now :: int
  e_now_ms :: int
  e_date :: string
  e_time :: string
  e_formatd :: "real \<Rightarrow> string"
  e_encode :: encoder
  e_dxcc :: dxcc

record qso =
  q_state :: qso_state
  q_my_call :: string
  q_my_grid :: string
  q_dx_call :: string
  q_dx_grid :: string
  q_sent_report :: int
  q_recv_report :: int
  q_tx_even :: bool
  q_tx_enabled :: bool
  q_auto_seq :: bool
  q_pending_msg :: string
  q_prepared_msg :: string
  q_have_pending :: bool
  q_need_arm :: bool
  q_last_utc :: string
  q_last_n :: nat
  q_prev_active :: bool
  q_cycles :: nat
  q_logged :: bool
  q_status :: qso_status
  q_tx_enabled_since :: int
  q_prev_txen :: bool
  q_loaded :: bool
  q_worked :: "string list"
  q_worked_dxcc :: "int list"
  q_worked_dxcc_band :: "int list"
  q_tx :: ft8_tx
  q_log :: "string list"
  q_mox :: "bool list"

section \<open>Stations worked\<close>

definition band_from_hz :: "int \<Rightarrow> int" where
  "band_from_hz hz = (let m = real_of_int hz / 10 ^ 6 in
     if m \<ge> 1.8 \<and> m < 2 then 160
     else if m \<ge> 3.5 \<and> m < 4 then 80
     else if m \<ge> 5.25 \<and> m < 5.5 then 60
     else if m \<ge> 7 \<and> m < 7.3 then 40
     else if m \<ge> 10.1 \<and> m < 10.15 then 30
     else if m \<ge> 14 \<and> m < 14.35 then 20
     else if m \<ge> 18.06 \<and> m < 18.17 then 17
     else if m \<ge> 21 \<and> m < 21.45 then 15
     else if m \<ge> 24.89 \<and> m < 24.99 then 12
     else if m \<ge> 28 \<and> m < 29.7 then 10
     else if m \<ge> 50 \<and> m < 54 then 6
     else if m \<ge> 70 \<and> m < 71 then 4
     else if m \<ge> 144 \<and> m < 148 then 2
     else 0)"

text \<open>\<open>strstr\<close>: what follows the first occurrence.\<close>

fun after_first :: "string \<Rightarrow> string \<Rightarrow> string option" where
  "after_first pat [] = (if pat = [] then Some [] else None)"
| "after_first pat (c # cs) =
     (if take (length pat) (c # cs) = pat then Some (drop (length pat) (c # cs)) else after_first pat cs)"

definition adif_get :: "string \<Rightarrow> string \<Rightarrow> nat \<Rightarrow> string option" where
  "adif_get line fld outsz =
     (case after_first (''<'' @ fld @ '':'') line of None \<Rightarrow> None
      | Some p \<Rightarrow>
          (let len = atoi p in
           if CHR ''>'' \<notin> set p \<or> len \<le> 0 then None
           else (let v = tl (dropWhile (\<lambda>c. c \<noteq> CHR ''>'') p);
                     n = (if len < int outsz - 1 then nat len else outsz - 1)
                 in Some (take n v))))"

definition call_key :: "string \<Rightarrow> string" where
  "call_key call = map toupper_c (take 15 call)"

definition worked_add :: "dxcc \<Rightarrow> string \<Rightarrow> int \<Rightarrow> qso \<Rightarrow> qso" where
  "worked_add d call band q =
     (if \<not> q_loaded q \<or> call = [] then q
      else (let up = call_key call;
                q1 = q\<lparr>q_worked := List.insert up (q_worked q)\<rparr>;
                ent = ft8_dxcc_entity d up
            in if ent \<ge> 0
               then (let q2 = q1\<lparr>q_worked_dxcc := List.insert ent (q_worked_dxcc q1)\<rparr>
                     in if band > 0 then q2\<lparr>q_worked_dxcc_band := List.insert (band * 1000 + ent) (q_worked_dxcc_band q2)\<rparr>
                        else q2)
               else q1))"

definition trunc :: "real \<Rightarrow> int" where
  "trunc x = (if x < 0 then \<lceil>x\<rceil> else \<lfloor>x\<rfloor>)"

definition worked_parse_line :: "(string \<Rightarrow> real) \<Rightarrow> dxcc \<Rightarrow> string \<Rightarrow> qso \<Rightarrow> qso" where
  "worked_parse_line strtod d line q =
     (case adif_get line ''CALL'' 16 of None \<Rightarrow> q
      | Some call \<Rightarrow>
          (let band = (case adif_get line ''BAND'' 16 of Some b \<Rightarrow> atoi b
                       | None \<Rightarrow> (case adif_get line ''FREQ'' 16 of Some f \<Rightarrow> band_from_hz (trunc (strtod f * 10 ^ 6))
                                  | None \<Rightarrow> 0))
           in worked_add d call band q))"

definition worked_load :: "(string \<Rightarrow> real) \<Rightarrow> dxcc \<Rightarrow> string option \<Rightarrow> qso \<Rightarrow> qso" where
  "worked_load strtod d file q =
     (let q1 = q\<lparr>q_loaded := True, q_worked := [], q_worked_dxcc := [], q_worked_dxcc_band := []\<rparr>
      in case file of None \<Rightarrow> q1 | Some s \<Rightarrow> fold (worked_parse_line strtod d) (read_lines 1023 s) q1)"

definition ft8_qso_worked :: "string \<Rightarrow> qso \<Rightarrow> bool" where
  "ft8_qso_worked call q = (q_loaded q \<and> call \<noteq> [] \<and> call_key call \<in> set (q_worked q))"

definition ft8_qso_new_dxcc :: "dxcc \<Rightarrow> string \<Rightarrow> qso \<Rightarrow> bool" where
  "ft8_qso_new_dxcc d call q =
     (if \<not> q_loaded q \<or> call = [] then False
      else let ent = ft8_dxcc_entity d call in ent \<ge> 0 \<and> ent \<notin> set (q_worked_dxcc q))"

definition ft8_qso_new_dxcc_band :: "dxcc \<Rightarrow> string \<Rightarrow> int \<Rightarrow> qso \<Rightarrow> bool" where
  "ft8_qso_new_dxcc_band d call dial_hz q =
     (if \<not> q_loaded q \<or> call = [] then False
      else let band = band_from_hz dial_hz; ent = ft8_dxcc_entity d call
           in band > 0 \<and> ent \<ge> 0 \<and> band * 1000 + ent \<notin> set (q_worked_dxcc_band q))"

definition ft8_qso_country :: "dxcc \<Rightarrow> string \<Rightarrow> string option" where
  "ft8_qso_country d call = (let ent = ft8_dxcc_entity d call in if ent \<ge> 0 then ft8_dxcc_name d ent else None)"

section \<open>Text\<close>

definition char_at :: "string \<Rightarrow> nat \<Rightarrow> int" where
  "char_at s i = (if i < length s then of_char (s ! i) else 0)"

definition in_range :: "int \<Rightarrow> string \<Rightarrow> nat \<Rightarrow> int \<Rightarrow> bool" where
  "in_range lo s i hi = (lo \<le> char_at s i \<and> char_at s i \<le> hi)"

definition is_grid :: "string \<Rightarrow> bool" where
  "is_grid s = ((length s = 4 \<or> length s = 6)
     \<and> in_range 65 s 0 82 \<and> in_range 65 s 1 82 \<and> in_range 48 s 2 57 \<and> in_range 48 s 3 57)"

definition is_report :: "string \<Rightarrow> bool" where
  "is_report s = ((char_at s 0 = 45 \<or> char_at s 0 = 43) \<and> in_range 48 s 1 57)"

definition has_roger :: "string \<Rightarrow> bool" where
  "has_roger s = (char_at s 0 = 82 \<and> (char_at s 1 = 45 \<or> char_at s 1 = 43))"

definition is_rr73 :: "string \<Rightarrow> bool" where
  "is_rr73 s = (s = ''RR73'' \<or> s = ''RRR'')"

definition is_73 :: "string \<Rightarrow> bool" where
  "is_73 s = (s = ''73'')"

definition parse_report :: "string \<Rightarrow> int" where
  "parse_report s = atoi (if s \<noteq> [] \<and> hd s = CHR ''R'' then tl s else s)"

definition clamp_report :: "real \<Rightarrow> int" where
  "clamp_report snr = clamp (- 24) 20 (llround snr)"

definition same_dx :: "string \<Rightarrow> qso \<Rightarrow> bool" where
  "same_dx call q = (q_dx_call q \<noteq> [] \<and> strcaseeq call (q_dx_call q))"

definition slot_even_from_utc :: "bool \<Rightarrow> string \<Rightarrow> bool" where
  "slot_even_from_utc ft4 utc =
     (let two = (\<lambda>i. (char_at utc i - 48) * 10 + (char_at utc (i + 1) - 48));
          sod = two 0 * 3600 + two 2 * 60 + two 4;
          slot = (if ft4 then (sod * 2) div 15 else sod div 15)
      in slot mod 2 = 0)"

section \<open>Messages\<close>

definition set_pending :: "string \<Rightarrow> qso \<Rightarrow> qso" where
  "set_pending s q = q\<lparr>q_pending_msg := take 31 s, q_have_pending := True, q_need_arm := True\<rparr>"

definition sp :: "string list \<Rightarrow> string" where
  "sp ws = concat (case ws of [] \<Rightarrow> [] | w # r \<Rightarrow> w # map (\<lambda>x. CHR '' '' # x) r)"

definition cq_text :: "string \<Rightarrow> string \<Rightarrow> string \<Rightarrow> string" where
  "cq_text dir call grid =
     (if dir \<noteq> [] \<and> grid \<noteq> [] then sp [''CQ'', dir, call, grid]
      else if dir \<noteq> [] then sp [''CQ'', dir, call]
      else if grid \<noteq> [] then sp [''CQ'', call, grid]
      else sp [''CQ'', call])"

definition msg_cq :: "qso_env \<Rightarrow> qso \<Rightarrow> qso" where
  "msg_cq e q = set_pending (cq_text (e_cq_dir e) (q_my_call q) (q_my_grid q)) q"

definition msg_grid :: "qso \<Rightarrow> qso" where
  "msg_grid q = set_pending (sp [q_dx_call q, q_my_call q, q_my_grid q]) q"

definition msg_report :: "qso \<Rightarrow> qso" where
  "msg_report q = set_pending (sp [q_dx_call q, q_my_call q, fmt_plus_03d (q_sent_report q)]) q"

definition msg_rreport :: "qso \<Rightarrow> qso" where
  "msg_rreport q = set_pending (sp [q_dx_call q, q_my_call q, CHR ''R'' # fmt_plus_03d (q_sent_report q)]) q"

definition msg_rr73 :: "qso \<Rightarrow> qso" where
  "msg_rr73 q = set_pending (sp [q_dx_call q, q_my_call q, ''RR73'']) q"

definition msg_73 :: "qso \<Rightarrow> qso" where
  "msg_73 q = set_pending (sp [q_dx_call q, q_my_call q, ''73'']) q"

definition progress :: "qso_env \<Rightarrow> qso \<Rightarrow> qso" where
  "progress e q = q\<lparr>q_cycles := 0, q_tx_enabled_since := e_now e\<rparr>"

section \<open>The log\<close>

definition adif_field :: "string \<Rightarrow> string \<Rightarrow> string" where
  "adif_field name v = ''<'' @ name @ '':'' @ fmt_d (int (length v)) @ ''>'' @ v @ '' ''"

definition adif_fields :: "qso_env \<Rightarrow> qso \<Rightarrow> string" where
  "adif_fields e q =
     (let dial = (case e_dial e of None \<Rightarrow> 0 | Some f \<Rightarrow> f);
          mhz = (case e_dial e of None \<Rightarrow> 0 | Some f \<Rightarrow> real_of_int (f + e_tx_offset e) / 10 ^ 6);
          band = band_from_hz dial
      in adif_field ''CALL'' (q_dx_call q)
         @ (if q_dx_grid q \<noteq> [] then adif_field ''GRIDSQUARE'' (q_dx_grid q) else [])
         @ adif_field ''MODE'' (if e_ft4 e then ''FT4'' else ''FT8'')
         @ adif_field ''RST_SENT'' (take 7 (fmt_plus_03d (q_sent_report q)))
         @ adif_field ''RST_RCVD'' (take 7 (fmt_plus_03d (q_recv_report q)))
         @ adif_field ''QSO_DATE'' (take 8 (e_date e))
         @ adif_field ''TIME_ON'' (take 6 (e_time e))
         @ (if band > 0 then adif_field ''BAND'' (take 7 (fmt_d band @ ''m'')) else [])
         @ (if mhz > 0 then adif_field ''FREQ'' (take 15 (e_formatd e mhz)) else []))"

definition adif_record :: "qso_env \<Rightarrow> qso \<Rightarrow> string" where
  "adif_record e q = adif_fields e q @ ''<EOR>'' @ [newline]"

definition log_qso :: "qso_env \<Rightarrow> qso \<Rightarrow> qso" where
  "log_qso e q =
     (if q_logged q then q
      else (let q1 = q\<lparr>q_logged := True, q_log := q_log q @ [adif_record e q]\<rparr>
            in worked_add (e_dxcc e) (q_dx_call q1)
                 (band_from_hz (case e_dial e of None \<Rightarrow> 0 | Some f \<Rightarrow> f)) q1))"

section \<open>The sequence\<close>

definition qso_disarm :: "qso \<Rightarrow> qso" where
  "qso_disarm q = (case ft8_tx_disarm (q_tx q) of (t, m) \<Rightarrow> q\<lparr>q_tx := t, q_mox := q_mox q @ m\<rparr>)"

definition go_idle :: "qso_status \<Rightarrow> qso \<Rightarrow> qso" where
  "go_idle why q =
     (qso_disarm (q\<lparr>q_state := ST_IDLE, q_have_pending := False, q_need_arm := False, q_tx_enabled := False,
        q_pending_msg := [], q_prepared_msg := [], q_cycles := 0\<rparr>))\<lparr>q_status := why\<rparr>"

definition set_dx :: "string \<Rightarrow> string \<Rightarrow> qso \<Rightarrow> qso" where
  "set_dx call grid q = q\<lparr>q_dx_call := take 15 call, q_dx_grid := (if is_grid grid then take 7 grid else [])\<rparr>"

definition handle_decode :: "qso_env \<Rightarrow> ft8_decode \<Rightarrow> qso \<Rightarrow> qso" where
  "handle_decode e d q =
     (if \<not> q_auto_seq q then q
      else if fd_call_de d = [] \<or> q_my_call q = [] then q
      else if \<not> strcaseeq (fd_call_to d) (q_my_call q) then q
      else case q_state q of
        ST_CALLING_CQ \<Rightarrow>
          (let q1 = set_dx (fd_call_de d) (fd_extra d) q;
               q2 = msg_report (q1\<lparr>q_sent_report := clamp_report (fd_snr d)\<rparr>)
           in progress e (q2\<lparr>q_state := ST_CQ_SENT_REPORT, q_status := Status_sent (q_dx_call q2) (q_sent_report q2)\<rparr>))
      | ST_CQ_SENT_REPORT \<Rightarrow>
          (if \<not> same_dx (fd_call_de d) q then q
           else if has_roger (fd_extra d) \<or> is_report (fd_extra d) \<or> is_rr73 (fd_extra d)
           then (let q1 = (if has_roger (fd_extra d) \<or> is_report (fd_extra d)
                           then q\<lparr>q_recv_report := parse_report (fd_extra d)\<rparr> else q);
                     q2 = log_qso e (msg_rr73 q1)
                 in progress e (q2\<lparr>q_state := ST_CQ_SENT_RR73, q_status := Status_sent_rr73 (q_dx_call q2) (q_recv_report q2)\<rparr>))
           else q)
      | ST_CQ_SENT_RR73 \<Rightarrow>
          (if same_dx (fd_call_de d) q \<and> (is_73 (fd_extra d) \<or> is_rr73 (fd_extra d)) then go_idle Status_complete q else q)
      | ST_ANS_SENT_GRID \<Rightarrow>
          (if \<not> same_dx (fd_call_de d) q then q
           else if is_rr73 (fd_extra d) \<or> is_73 (fd_extra d)
           then (let q2 = log_qso e (msg_73 (q\<lparr>q_recv_report := 0\<rparr>))
                 in progress e (q2\<lparr>q_state := ST_ANS_SENT_73, q_status := Status_sent_73 (q_dx_call q2)\<rparr>))
           else if is_report (fd_extra d) \<and> \<not> has_roger (fd_extra d)
           then (let q2 = msg_rreport (q\<lparr>q_recv_report := parse_report (fd_extra d),
                                        q_sent_report := clamp_report (fd_snr d)\<rparr>)
                 in progress e (q2\<lparr>q_state := ST_ANS_SENT_RREPORT,
                      q_status := Status_sent_rreport (q_dx_call q2) (q_sent_report q2) (q_recv_report q2)\<rparr>))
           else q)
      | ST_ANS_SENT_RREPORT \<Rightarrow>
          (if \<not> same_dx (fd_call_de d) q then q
           else if is_rr73 (fd_extra d) \<or> is_73 (fd_extra d) \<or> has_roger (fd_extra d)
           then (let q2 = log_qso e (msg_73 q)
                 in progress e (q2\<lparr>q_state := ST_ANS_SENT_73, q_status := Status_sent_73 (q_dx_call q2)\<rparr>))
           else q)
      | _ \<Rightarrow> q)"


definition ft8_qso_set_tx_enabled :: "bool \<Rightarrow> qso \<Rightarrow> qso" where
  "ft8_qso_set_tx_enabled en q =
     (let q1 = q\<lparr>q_tx_enabled := en\<rparr> in
      if \<not> en then (let q2 = qso_disarm q1
                     in if q_state q2 \<noteq> ST_IDLE then q2\<lparr>q_status := Status_tx_disabled\<rparr> else q2)
      else if q_have_pending q1 then q1\<lparr>q_need_arm := True\<rparr> else q1)"

section \<open>The poll timer\<close>

definition poll_watchdog :: "qso_env \<Rightarrow> qso \<Rightarrow> qso" where
  "poll_watchdog e q =
     (let q1 = (if q_tx_enabled q \<and> \<not> q_prev_txen q then q\<lparr>q_tx_enabled_since := e_now e\<rparr> else q);
          q2 = q1\<lparr>q_prev_txen := q_tx_enabled q1\<rparr>
      in if q_tx_enabled q2 \<and> e_now e - q_tx_enabled_since q2 > TX_WATCHDOG_SEC
         then (ft8_qso_set_tx_enabled False q2)\<lparr>q_status := Status_watchdog\<rparr> else q2)"

text \<open>The decodes of the current slot that were not handled yet.\<close>

definition poll_decodes :: "qso_env \<Rightarrow> ft8_decode list \<Rightarrow> string \<Rightarrow> qso \<Rightarrow> qso" where
  "poll_decodes e ds utc q =
     (let first = (if utc = q_last_utc q then q_last_n q else 0); n = length ds in
      if n > first \<and> utc \<noteq> []
      then fold (\<lambda>d q. if q_state q \<noteq> ST_IDLE then handle_decode e d q else q) (drop first ds)
             (q\<lparr>q_last_utc := take 7 utc, q_last_n := n\<rparr>)
      else q)"

definition poll_tx_end :: "qso \<Rightarrow> qso" where
  "poll_tx_end q =
     (let act = ft8_tx_active (q_tx q);
          q1 = (if q_prev_active q \<and> \<not> act
                then (let c = q\<lparr>q_cycles := q_cycles q + 1\<rparr> in
                      if q_state c = ST_ANS_SENT_73 then go_idle Status_complete c
                      else if q_auto_seq c \<and> q_state c \<noteq> ST_CALLING_CQ \<and> q_state c \<noteq> ST_FREE
                              \<and> q_cycles c \<ge> WATCHDOG_CYCLES
                      then go_idle Status_no_reply c
                      else if q_have_pending c then c\<lparr>q_need_arm := True\<rparr>
                      else c)
                else q)
      in q1\<lparr>q_prev_active := act\<rparr>)"

definition poll_arm :: "qso_env \<Rightarrow> bool \<Rightarrow> qso \<Rightarrow> qso" where
  "poll_arm e act q =
     (if q_need_arm q \<and> q_have_pending q \<and> q_tx_enabled q \<and> \<not> act \<and> q_state q \<noteq> ST_IDLE
      then (let q1 = (if q_pending_msg q \<noteq> q_prepared_msg q
                      then (case ft8_tx_prepare (e_encode e) (e_ft4 e) (q_pending_msg q) (e_tx_offset e) (q_tx q) of
                              (t, ok) \<Rightarrow> if ok then q\<lparr>q_tx := t, q_prepared_msg := q_pending_msg q\<rparr> else q\<lparr>q_tx := t\<rparr>)
                      else q)
            in if q_pending_msg q1 = q_prepared_msg q1
               then q1\<lparr>q_tx := ft8_tx_arm (e_now_ms e) (e_ft4 e) (q_tx_even q1) (q_tx q1), q_need_arm := False\<rparr>
               else q1\<lparr>q_status := Status_cant_encode (q_pending_msg q1)\<rparr>)
      else q)"

definition qso_poll :: "qso_env \<Rightarrow> ft8_decode list \<Rightarrow> string \<Rightarrow> qso \<Rightarrow> qso" where
  "qso_poll e ds utc q =
     (if q_state q = ST_IDLE then q\<lparr>q_prev_active := False, q_prev_txen := False\<rparr>
      else (let q1 = poll_decodes e (take 64 ds) utc (poll_watchdog e q); q2 = poll_tx_end q1
            in poll_arm e (ft8_tx_active (q_tx q1)) q2))"

section \<open>What the panel asks for\<close>

definition ft8_qso_start_cq :: "qso_env \<Rightarrow> qso \<Rightarrow> qso" where
  "ft8_qso_start_cq e q =
     (if e_station_call e = [] then q\<lparr>q_status := Status_set_call\<rparr>
      else (msg_cq e (q\<lparr>q_my_call := take 15 (e_station_call e), q_my_grid := take 7 (e_station_grid e),
              q_dx_call := [], q_dx_grid := [], q_sent_report := 0, q_recv_report := 0,
              q_tx_even := e_tx_even e, q_logged := False, q_prepared_msg := [], q_last_utc := [], q_last_n := 0,
              q_cycles := 0, q_state := ST_CALLING_CQ, q_tx_enabled := True\<rparr>))\<lparr>q_status := Status_calling_cq\<rparr>)"

definition ft8_qso_answer :: "qso_env \<Rightarrow> ft8_decode \<Rightarrow> qso \<Rightarrow> qso" where
  "ft8_qso_answer e d q =
     (if e_station_call e = [] then q\<lparr>q_status := Status_set_call\<rparr>
      else if fd_call_de d = [] then q
      else (let q1 = q\<lparr>q_my_call := take 15 (e_station_call e), q_my_grid := take 7 (e_station_grid e)\<rparr> in
        if q_my_grid q1 = [] then q1\<lparr>q_status := Status_set_grid\<rparr>
        else (let q2 = set_dx (fd_call_de d) (fd_extra d) q1;
                  q3 = msg_grid (q2\<lparr>q_sent_report := 0, q_recv_report := 0,
                         q_tx_even := \<not> slot_even_from_utc (e_ft4 e) (fd_utc d), q_logged := False,
                         q_prepared_msg := [], q_last_utc := [], q_last_n := 0, q_cycles := 0,
                         q_state := ST_ANS_SENT_GRID, q_tx_enabled := True\<rparr>)
              in q3\<lparr>q_status := Status_answering (q_dx_call q3)\<rparr>)))"

definition ft8_qso_halt :: "qso \<Rightarrow> qso" where
  "ft8_qso_halt q = go_idle Status_idle q"

definition ft8_qso_active :: "qso \<Rightarrow> bool" where
  "ft8_qso_active q = (q_state q \<noteq> ST_IDLE)"

definition ft8_qso_next_tx :: "qso \<Rightarrow> string" where
  "ft8_qso_next_tx q = (if q_have_pending q then q_pending_msg q else [])"

definition ft8_qso_set_auto :: "bool \<Rightarrow> qso \<Rightarrow> qso" where
  "ft8_qso_set_auto en q = q\<lparr>q_auto_seq := en\<rparr>"

text \<open>The six messages offered, and the number of the queued one (0 for none).\<close>

definition ft8_qso_messages :: "qso_env \<Rightarrow> qso \<Rightarrow> string list \<times> nat" where
  "ft8_qso_messages e q =
     (let mc = (if e_station_call e \<noteq> [] then e_station_call e else q_my_call q);
          mg = (if e_station_grid e \<noteq> [] then e_station_grid e else q_my_grid q);
          sr = (if q_sent_report q \<noteq> 0 then q_sent_report q else - 15);
          dx = q_dx_call q;
          five = (if dx \<noteq> []
                  then [sp [dx, mc, mg], sp [dx, mc, fmt_plus_03d sr], sp [dx, mc, CHR ''R'' # fmt_plus_03d sr],
                        sp [dx, mc, ''RR73''], sp [dx, mc, ''73'']]
                  else [[], [], [], [], []]);
          out = map (take 31) (five @ [cq_text (e_cq_dir e) mc mg])
      in (out, case List.find (\<lambda>i. q_have_pending q \<and> out ! i = q_pending_msg q) [0..<6] of
                 Some i \<Rightarrow> i + 1 | None \<Rightarrow> 0))"

definition select_message :: "int \<Rightarrow> qso \<Rightarrow> qso option" where
  "select_message idx q =
     (if idx = 1 then Some (msg_grid (q\<lparr>q_state := ST_ANS_SENT_GRID\<rparr>))
      else if idx = 2 then Some (msg_report (q\<lparr>q_state := ST_CQ_SENT_REPORT\<rparr>))
      else if idx = 3 then Some (msg_rreport (q\<lparr>q_state := ST_ANS_SENT_RREPORT\<rparr>))
      else if idx = 4 then Some (msg_rr73 (q\<lparr>q_state := ST_CQ_SENT_RR73\<rparr>))
      else if idx = 5 then Some (msg_73 (q\<lparr>q_state := ST_ANS_SENT_73\<rparr>))
      else None)"

definition select_reset :: "qso \<Rightarrow> qso" where
  "select_reset q =
     (if q_sent_report q = 0 then q\<lparr>q_sent_report := - 15\<rparr> else q)
       \<lparr>q_logged := False, q_prepared_msg := [], q_cycles := 0\<rparr>"

definition ft8_qso_select_tx :: "qso_env \<Rightarrow> int \<Rightarrow> qso \<Rightarrow> qso" where
  "ft8_qso_select_tx e idx q =
     (if e_station_call e = [] then q\<lparr>q_status := Status_set_call\<rparr>
      else (let q1 = q\<lparr>q_my_call := take 15 (e_station_call e), q_my_grid := take 7 (e_station_grid e)\<rparr> in
        if idx = 6
        then (msg_cq e (q1\<lparr>q_tx_even := e_tx_even e, q_logged := False, q_prepared_msg := [], q_cycles := 0,
                q_dx_call := [], q_dx_grid := [], q_state := ST_CALLING_CQ\<rparr>))\<lparr>q_status := Status_calling_cq\<rparr>
        else if q_dx_call q1 = [] then q1\<lparr>q_status := Status_pick_station\<rparr>
        else (let q3 = select_reset q1
              in case select_message idx q3 of None \<Rightarrow> q3
                 | Some q4 \<Rightarrow> q4\<lparr>q_status := Status_tx idx (q_dx_call q4)\<rparr>)))"

definition ft8_qso_send_free :: "string \<Rightarrow> qso \<Rightarrow> qso" where
  "ft8_qso_send_free txt q =
     (if txt = [] then q
      else (let msg = map toupper_c (take 13 txt)
            in (set_pending msg (q\<lparr>q_logged := False, q_prepared_msg := [], q_cycles := 0, q_state := ST_FREE,
                  q_tx_enabled := True\<rparr>))\<lparr>q_status := Status_free msg\<rparr>))"

definition ft8_qso_init :: "(string \<Rightarrow> real) \<Rightarrow> dxcc \<Rightarrow> string option \<Rightarrow> qso \<Rightarrow> qso" where
  "ft8_qso_init strtod d file q = worked_load strtod d file q"

definition qso0 :: qso where
  "qso0 = \<lparr>q_state = ST_IDLE, q_my_call = [], q_my_grid = [], q_dx_call = [], q_dx_grid = [],
     q_sent_report = 0, q_recv_report = 0, q_tx_even = True, q_tx_enabled = False, q_auto_seq = True,
     q_pending_msg = [], q_prepared_msg = [], q_have_pending = False, q_need_arm = False,
     q_last_utc = [], q_last_n = 0, q_prev_active = False, q_cycles = 0, q_logged = False,
     q_status = Status_idle, q_tx_enabled_since = 0, q_prev_txen = False, q_loaded = False,
     q_worked = [], q_worked_dxcc = [], q_worked_dxcc_band = [], q_tx = ft8_tx0, q_log = [], q_mox = []\<rparr>"

section \<open>The engine as a step relation\<close>

text \<open>One event on the GTK thread (or a sample taken by the transmit thread): a poll,
a tick of the transmit scheduler, or a request of the panel, each under whatever the radio,
the clock and the decoder show at that time.\<close>

definition qso_tx_tick :: "int \<Rightarrow> bool \<Rightarrow> bool \<Rightarrow> qso \<Rightarrow> qso" where
  "qso_tx_tick now_ms ft4 mox q =
     (case tx_tick now_ms ft4 mox (q_tx q) of (t, m) \<Rightarrow> q\<lparr>q_tx := t, q_mox := q_mox q @ m\<rparr>)"

inductive qso_step :: "qso \<Rightarrow> qso \<Rightarrow> bool" where
  poll: "qso_step q (qso_poll e ds utc q)"
| tick: "qso_step q (qso_tx_tick now ft4 mox q)"
| sample: "qso_step q (q\<lparr>q_tx := fst (ft8_tx_next_sample (q_tx q))\<rparr>)"
| start_cq: "qso_step q (ft8_qso_start_cq e q)"
| answer: "qso_step q (ft8_qso_answer e d q)"
| halt: "qso_step q (ft8_qso_halt q)"
| set_tx: "qso_step q (ft8_qso_set_tx_enabled en q)"
| set_auto: "qso_step q (ft8_qso_set_auto en q)"
| select: "qso_step q (ft8_qso_select_tx e idx q)"
| free: "qso_step q (ft8_qso_send_free txt q)"
| init: "qso_step q (ft8_qso_init strtod dx file q)"

inductive qso_reachable :: "qso \<Rightarrow> bool" where
  start: "qso_reachable qso0"
| step: "qso_reachable q \<Longrightarrow> qso_step q q' \<Longrightarrow> qso_reachable q'"


section \<open>Who changes what\<close>

lemma worked_add_sel [simp]:
  "q_state (worked_add d c b q) = q_state q" "q_my_call (worked_add d c b q) = q_my_call q"
  "q_my_grid (worked_add d c b q) = q_my_grid q" "q_dx_call (worked_add d c b q) = q_dx_call q"
  "q_dx_grid (worked_add d c b q) = q_dx_grid q" "q_sent_report (worked_add d c b q) = q_sent_report q"
  "q_recv_report (worked_add d c b q) = q_recv_report q" "q_tx_enabled (worked_add d c b q) = q_tx_enabled q"
  "q_auto_seq (worked_add d c b q) = q_auto_seq q" "q_pending_msg (worked_add d c b q) = q_pending_msg q"
  "q_prepared_msg (worked_add d c b q) = q_prepared_msg q" "q_have_pending (worked_add d c b q) = q_have_pending q"
  "q_need_arm (worked_add d c b q) = q_need_arm q" "q_logged (worked_add d c b q) = q_logged q"
  "q_cycles (worked_add d c b q) = q_cycles q" "q_tx (worked_add d c b q) = q_tx q"
  "q_log (worked_add d c b q) = q_log q" "q_mox (worked_add d c b q) = q_mox q"
  "q_tx_even (worked_add d c b q) = q_tx_even q" "q_loaded (worked_add d c b q) = q_loaded q"
  "q_prev_active (worked_add d c b q) = q_prev_active q"
  by (simp_all add: worked_add_def Let_def)

lemma log_qso_sel [simp]:
  "q_state (log_qso e q) = q_state q" "q_my_call (log_qso e q) = q_my_call q"
  "q_my_grid (log_qso e q) = q_my_grid q" "q_dx_call (log_qso e q) = q_dx_call q"
  "q_dx_grid (log_qso e q) = q_dx_grid q" "q_sent_report (log_qso e q) = q_sent_report q"
  "q_recv_report (log_qso e q) = q_recv_report q" "q_tx_enabled (log_qso e q) = q_tx_enabled q"
  "q_auto_seq (log_qso e q) = q_auto_seq q" "q_pending_msg (log_qso e q) = q_pending_msg q"
  "q_prepared_msg (log_qso e q) = q_prepared_msg q" "q_have_pending (log_qso e q) = q_have_pending q"
  "q_need_arm (log_qso e q) = q_need_arm q" "q_logged (log_qso e q) = True"
  "q_cycles (log_qso e q) = q_cycles q" "q_tx (log_qso e q) = q_tx q" "q_mox (log_qso e q) = q_mox q"
  "q_log (log_qso e q) = (if q_logged q then q_log q else q_log q @ [adif_record e q])"
  "q_tx_even (log_qso e q) = q_tx_even q" "q_loaded (log_qso e q) = q_loaded q"
  "q_prev_active (log_qso e q) = q_prev_active q"
  by (simp_all add: log_qso_def Let_def)

lemmas msg_defs = msg_cq_def msg_grid_def msg_report_def msg_rreport_def msg_rr73_def msg_73_def set_pending_def

lemma sp_not_empty [simp]: "sp (w # x # r) \<noteq> []"
  by (simp add: sp_def)

lemma cq_text_not_empty [simp]: "cq_text d c g \<noteq> []"
  by (simp add: cq_text_def)

text \<open>What every part of the program keeps: the scheduler is only used while
transmitting is enabled and a sequence is running, its calls of \<open>set_mox\<close> alternate,
and the texts fit their buffers.\<close>

definition qso_inv :: "qso \<Rightarrow> bool" where
  "qso_inv q \<longleftrightarrow> tx_inv (q_tx q)
     \<and> (t_armed (q_tx q) \<or> t_tx_active (q_tx q) \<longrightarrow> q_tx_enabled q \<and> q_state q \<noteq> ST_IDLE)
     \<and> alternates False (q_mox q) \<and> t_we_keyed (q_tx q) = last (False # q_mox q)
     \<and> (q_have_pending q \<longrightarrow> q_pending_msg q \<noteq> []) \<and> length (q_pending_msg q) \<le> 31
     \<and> length (q_my_call q) \<le> 15 \<and> length (q_my_grid q) \<le> 7
     \<and> length (q_dx_call q) \<le> 15 \<and> length (q_dx_grid q) \<le> 7"

lemma alternates_snoc: "alternates False es \<Longrightarrow> e \<noteq> last (False # es) \<Longrightarrow> alternates False (es @ [e])"
  by (simp add: alternates_append)

lemma disarm_inv:
  assumes "tx_inv (q_tx q)" "alternates False (q_mox q)" "t_we_keyed (q_tx q) = last (False # q_mox q)"
  shows "tx_inv (q_tx (qso_disarm q)) \<and> alternates False (q_mox (qso_disarm q))
    \<and> \<not> last (False # q_mox (qso_disarm q)) \<and> \<not> t_we_keyed (q_tx (qso_disarm q))
    \<and> \<not> t_armed (q_tx (qso_disarm q)) \<and> \<not> t_tx_active (q_tx (qso_disarm q))"
  using assms alternates_snoc[OF assms(2), of False]
  by (auto simp: qso_disarm_def ft8_tx_disarm_def tx_inv_def split: if_splits)

lemma qso_disarm_sel [simp]:
  "q_state (qso_disarm q) = q_state q" "q_tx_enabled (qso_disarm q) = q_tx_enabled q"
  "q_have_pending (qso_disarm q) = q_have_pending q" "q_pending_msg (qso_disarm q) = q_pending_msg q"
  "q_my_call (qso_disarm q) = q_my_call q" "q_my_grid (qso_disarm q) = q_my_grid q"
  "q_dx_call (qso_disarm q) = q_dx_call q" "q_dx_grid (qso_disarm q) = q_dx_grid q"
  "q_log (qso_disarm q) = q_log q" "q_logged (qso_disarm q) = q_logged q"
  by (simp_all add: qso_disarm_def ft8_tx_disarm_def)

lemma disarm_qso_inv: "qso_inv q \<Longrightarrow> qso_inv (qso_disarm q)"
  using disarm_inv[of q] by (auto simp: qso_inv_def)

lemma go_idle_inv: "qso_inv q \<Longrightarrow> qso_inv (go_idle why q)"
  using disarm_inv[of "q\<lparr>q_state := ST_IDLE, q_have_pending := False, q_need_arm := False, q_tx_enabled := False,
        q_pending_msg := [], q_prepared_msg := [], q_cycles := 0\<rparr>"]
  by (auto simp: qso_inv_def go_idle_def)

text \<open>An operation that leaves the scheduler alone.\<close>

lemma qso_inv_frame:
  assumes "qso_inv q" "q_tx q' = q_tx q" "q_mox q' = q_mox q"
    "q_tx_enabled q \<longrightarrow> q_tx_enabled q'" "q_state q \<noteq> ST_IDLE \<longrightarrow> q_state q' \<noteq> ST_IDLE"
    "q_have_pending q' \<longrightarrow> q_pending_msg q' \<noteq> []" "length (q_pending_msg q') \<le> 31"
    "length (q_my_call q') \<le> 15" "length (q_my_grid q') \<le> 7" "length (q_dx_call q') \<le> 15" "length (q_dx_grid q') \<le> 7"
  shows "qso_inv q'"
  using assms by (auto simp: qso_inv_def)

lemma is_grid_length: "is_grid g \<Longrightarrow> length g \<le> 7"
  by (auto simp: is_grid_def)

lemma set_pending_inv: "qso_inv q \<Longrightarrow> txt \<noteq> [] \<Longrightarrow> qso_inv (set_pending txt q)"
  by (simp add: qso_inv_def set_pending_def)

lemma msg_inv:
  "qso_inv q \<Longrightarrow> qso_inv (msg_cq e q)" "qso_inv q \<Longrightarrow> qso_inv (msg_grid q)"
  "qso_inv q \<Longrightarrow> qso_inv (msg_report q)" "qso_inv q \<Longrightarrow> qso_inv (msg_rreport q)"
  "qso_inv q \<Longrightarrow> qso_inv (msg_rr73 q)" "qso_inv q \<Longrightarrow> qso_inv (msg_73 q)"
  by (simp_all add: msg_cq_def msg_grid_def msg_report_def msg_rreport_def msg_rr73_def msg_73_def set_pending_inv)

lemma log_qso_inv: "qso_inv q \<Longrightarrow> qso_inv (log_qso e q)"
  by (simp add: qso_inv_def)

lemma progress_inv: "qso_inv q \<Longrightarrow> s \<noteq> ST_IDLE \<Longrightarrow> qso_inv (progress e (q\<lparr>q_state := s, q_status := st\<rparr>))"
  by (simp add: qso_inv_def progress_def)

lemma fields_inv:
  "qso_inv q \<Longrightarrow> qso_inv (q\<lparr>q_recv_report := r\<rparr>)" "qso_inv q \<Longrightarrow> qso_inv (q\<lparr>q_sent_report := r\<rparr>)"
  "qso_inv q \<Longrightarrow> qso_inv (q\<lparr>q_recv_report := r, q_sent_report := t\<rparr>)"
  "qso_inv q \<Longrightarrow> qso_inv (set_dx c g q)"
  by (simp_all add: qso_inv_def set_dx_def)

lemmas qso_inv_rules = progress_inv log_qso_inv msg_inv fields_inv go_idle_inv

lemma handle_decode_inv: "qso_inv q \<Longrightarrow> qso_inv (handle_decode e d q)"
  unfolding handle_decode_def Let_def
  by (cases "q_state q")
     (simp_all only: qso_state.case split: if_split, auto intro!: qso_inv_rules)

lemma set_tx_enabled_inv: "qso_inv q \<Longrightarrow> qso_inv (ft8_qso_set_tx_enabled en q)"
proof (cases en)
  case True
  assume i: "qso_inv q"
  show ?thesis using True i by (auto simp: ft8_qso_set_tx_enabled_def Let_def qso_inv_def)
next
  case False
  assume i: "qso_inv q"
  thus ?thesis using False disarm_inv[of "q\<lparr>q_tx_enabled := False\<rparr>"]
    by (auto simp: ft8_qso_set_tx_enabled_def Let_def qso_inv_def)
qed

lemma poll_watchdog_inv: "qso_inv q \<Longrightarrow> qso_inv (poll_watchdog e q)"
proof -
  assume i: "qso_inv q"
  let ?q1 = "if q_tx_enabled q \<and> \<not> q_prev_txen q then q\<lparr>q_tx_enabled_since := e_now e\<rparr> else q"
  have "qso_inv (?q1\<lparr>q_prev_txen := q_tx_enabled ?q1\<rparr>)" using i by (simp add: qso_inv_def)
  hence "qso_inv ((ft8_qso_set_tx_enabled False (?q1\<lparr>q_prev_txen := q_tx_enabled ?q1\<rparr>))\<lparr>q_status := Status_watchdog\<rparr>)"
    using set_tx_enabled_inv by (auto simp: qso_inv_def)
  thus ?thesis using \<open>qso_inv (?q1\<lparr>q_prev_txen := q_tx_enabled ?q1\<rparr>)\<close> by (auto simp: poll_watchdog_def Let_def)
qed

lemma poll_decodes_inv: "qso_inv q \<Longrightarrow> qso_inv (poll_decodes e ds utc q)"
proof -
  have "qso_inv q' \<Longrightarrow> qso_inv (fold (\<lambda>d q. if q_state q \<noteq> ST_IDLE then handle_decode e d q else q) xs q')" for q' xs
    by (induction xs arbitrary: q') (simp_all add: handle_decode_inv)
  moreover assume "qso_inv q"
  moreover hence "qso_inv (q\<lparr>q_last_utc := u, q_last_n := n\<rparr>)" for u n by (simp add: qso_inv_def)
  ultimately show ?thesis by (simp add: poll_decodes_def Let_def)
qed

lemma poll_tx_end_inv: "qso_inv q \<Longrightarrow> qso_inv (poll_tx_end q)"
proof -
  assume i: "qso_inv q"
  let ?c = "q\<lparr>q_cycles := q_cycles q + 1\<rparr>"
  have "qso_inv ?c" using i by (simp add: qso_inv_def)
  hence "qso_inv (go_idle w ?c)" "qso_inv (?c\<lparr>q_need_arm := True\<rparr>)" for w
    by (simp_all add: go_idle_inv) (simp add: qso_inv_def)
  hence "qso_inv ((go_idle w ?c)\<lparr>q_prev_active := b\<rparr>)" "qso_inv (?c\<lparr>q_need_arm := True, q_prev_active := b\<rparr>)"
    "qso_inv (q\<lparr>q_prev_active := b\<rparr>)" "qso_inv (?c\<lparr>q_prev_active := b\<rparr>)" for w b
    using i by (simp_all add: qso_inv_def)
  thus ?thesis by (simp add: poll_tx_end_def Let_def)
qed

lemma poll_arm_inv: "qso_inv q \<Longrightarrow> qso_inv (poll_arm e act q)"
proof -
  assume i: "qso_inv q"
  let ?p = "ft8_tx_prepare (e_encode e) (e_ft4 e) (q_pending_msg q) (e_tx_offset e) (q_tx q)"
  have p: "tx_inv (fst ?p)" "t_armed (fst ?p) = t_armed (q_tx q)" "t_tx_active (fst ?p) = t_tx_active (q_tx q)"
    "t_we_keyed (fst ?p) = t_we_keyed (q_tx q)"
    using i by (auto simp: qso_inv_def ft8_tx_prepare_def tx_inv_def Let_def split: prod.splits)
  have a: "tx_inv (ft8_tx_arm n f v t)" "t_we_keyed (ft8_tx_arm n f v t) = t_we_keyed t" if "tx_inv t" for n f v t
    using that by (auto simp: ft8_tx_arm_def tx_inv_def)
  have i': "tx_inv (q_tx q)" using i by (simp add: qso_inv_def)
  obtain t ok where t: "?p = (t, ok)" by fastforce
  show ?thesis using i p a[of t] a[OF i'] unfolding poll_arm_def t Let_def by (auto simp: qso_inv_def)
qed

lemma qso_poll_inv: "qso_inv q \<Longrightarrow> qso_inv (qso_poll e ds utc q)"
proof (cases "q_state q = ST_IDLE")
  case True
  assume "qso_inv q"
  thus ?thesis using True by (simp add: qso_poll_def qso_inv_def)
next
  case False
  assume "qso_inv q"
  thus ?thesis using False
    by (simp add: qso_poll_def Let_def poll_arm_inv poll_tx_end_inv poll_decodes_inv poll_watchdog_inv)
qed

lemma qso_tx_tick_inv: "qso_inv q \<Longrightarrow> qso_inv (qso_tx_tick now ft4 mox q)"
proof -
  assume i: "qso_inv q"
  obtain t m where t: "tx_tick now ft4 mox (q_tx q) = (t, m)" by fastforce
  have k: "tx_inv t" "alternates (t_we_keyed (q_tx q)) m" "t_we_keyed t = last (t_we_keyed (q_tx q) # m)"
    using tx_step_inv[of "q_tx q" undefined "Op_tick now ft4 mox"] i t by (auto simp: qso_inv_def)
  have "t_armed t \<or> t_tx_active t \<longrightarrow> t_armed (q_tx q) \<or> t_tx_active (q_tx q)"
    using t by (auto simp: tx_tick_def Let_def split: if_splits)
  thus ?thesis using i k t by (auto simp: qso_inv_def qso_tx_tick_def alternates_append)
qed

lemma worked_load_sel:
  "q_state (worked_load st d f q) = q_state q \<and> q_tx (worked_load st d f q) = q_tx q
   \<and> q_mox (worked_load st d f q) = q_mox q \<and> q_tx_enabled (worked_load st d f q) = q_tx_enabled q
   \<and> q_have_pending (worked_load st d f q) = q_have_pending q \<and> q_pending_msg (worked_load st d f q) = q_pending_msg q
   \<and> q_my_call (worked_load st d f q) = q_my_call q \<and> q_my_grid (worked_load st d f q) = q_my_grid q
   \<and> q_dx_call (worked_load st d f q) = q_dx_call q \<and> q_dx_grid (worked_load st d f q) = q_dx_grid q
   \<and> q_log (worked_load st d f q) = q_log q \<and> q_logged (worked_load st d f q) = q_logged q"
proof -
  have "\<forall>q. q_state (fold (worked_parse_line st d) ls q) = q_state q \<and> q_tx (fold (worked_parse_line st d) ls q) = q_tx q
   \<and> q_mox (fold (worked_parse_line st d) ls q) = q_mox q \<and> q_tx_enabled (fold (worked_parse_line st d) ls q) = q_tx_enabled q
   \<and> q_have_pending (fold (worked_parse_line st d) ls q) = q_have_pending q
   \<and> q_pending_msg (fold (worked_parse_line st d) ls q) = q_pending_msg q
   \<and> q_my_call (fold (worked_parse_line st d) ls q) = q_my_call q \<and> q_my_grid (fold (worked_parse_line st d) ls q) = q_my_grid q
   \<and> q_dx_call (fold (worked_parse_line st d) ls q) = q_dx_call q \<and> q_dx_grid (fold (worked_parse_line st d) ls q) = q_dx_grid q
   \<and> q_log (fold (worked_parse_line st d) ls q) = q_log q \<and> q_logged (fold (worked_parse_line st d) ls q) = q_logged q" for ls
  proof (induction ls)
    case (Cons l ls)
    thus ?case by (simp add: worked_parse_line_def Let_def split: option.split)
  qed simp
  thus ?thesis by (simp add: worked_load_def Let_def split: option.split)
qed


lemma start_cq_inv: "qso_inv q \<Longrightarrow> qso_inv (ft8_qso_start_cq e q)"
  by (auto simp: ft8_qso_start_cq_def msg_cq_def set_pending_def qso_inv_def)

lemma answer_inv: "qso_inv q \<Longrightarrow> qso_inv (ft8_qso_answer e d q)"
  by (auto simp: ft8_qso_answer_def Let_def msg_grid_def set_pending_def set_dx_def qso_inv_def)

lemma state_inv: "qso_inv q \<Longrightarrow> s \<noteq> ST_IDLE \<Longrightarrow> qso_inv (q\<lparr>q_state := s\<rparr>)"
  by (simp add: qso_inv_def)

lemma status_inv: "qso_inv q \<Longrightarrow> qso_inv (q\<lparr>q_status := s\<rparr>)"
  by (simp add: qso_inv_def)

lemma select_reset_inv: "qso_inv q \<Longrightarrow> qso_inv (select_reset q)"
  by (simp add: qso_inv_def select_reset_def)

lemma select_message_inv: "qso_inv q \<Longrightarrow> select_message idx q = Some q' \<Longrightarrow> qso_inv q'"
  using msg_inv(2-6)[OF state_inv[of q]] by (auto simp: select_message_def split: if_splits)

lemma select_inv:
  assumes i: "qso_inv q"
  shows "qso_inv (ft8_qso_select_tx e idx q)"
proof -
  let ?q1 = "q\<lparr>q_my_call := take 15 (e_station_call e), q_my_grid := take 7 (e_station_grid e)\<rparr>"
  have 1: "qso_inv ?q1" using i by (simp add: qso_inv_def)
  have "qso_inv (?q1\<lparr>q_tx_even := b, q_logged := False, q_prepared_msg := [], q_cycles := 0,
                q_dx_call := [], q_dx_grid := [], q_state := ST_CALLING_CQ\<rparr>)" for b
    using 1 by (simp add: qso_inv_def)
  note cq = status_inv[OF msg_inv(1)[OF this]]
  have m: "qso_inv (case select_message idx (select_reset ?q1) of None \<Rightarrow> select_reset ?q1
                 | Some q4 \<Rightarrow> q4\<lparr>q_status := Status_tx idx (q_dx_call q4)\<rparr>)"
    using select_reset_inv[OF 1] select_message_inv status_inv by (cases "select_message idx (select_reset ?q1)") auto
  show ?thesis
    unfolding ft8_qso_select_tx_def Let_def using status_inv[OF i] status_inv[OF 1] m cq
    by (simp only: split: if_split) blast
qed

lemma free_inv: "qso_inv q \<Longrightarrow> qso_inv (ft8_qso_send_free txt q)"
  by (auto simp: ft8_qso_send_free_def Let_def set_pending_def qso_inv_def)

lemma qso_step_inv: "qso_step q q' \<Longrightarrow> qso_inv q \<Longrightarrow> qso_inv q'"
proof (induction rule: qso_step.induct)
  case (sample q) thus ?case by (auto simp: qso_inv_def ft8_tx_next_sample_def tx_inv_def)
next
  case (set_auto q en) thus ?case by (simp add: ft8_qso_set_auto_def qso_inv_def)
next
  case (init q st dx f) thus ?case
    using worked_load_sel[of st dx f q] by (simp add: ft8_qso_init_def qso_inv_def)
qed (simp_all add: qso_poll_inv qso_tx_tick_inv start_cq_inv answer_inv ft8_qso_halt_def go_idle_inv
    set_tx_enabled_inv select_inv free_inv)

lemma qso_reachable_inv: "qso_reachable q \<Longrightarrow> qso_inv q"
proof (induction rule: qso_reachable.induct)
  case start
  show ?case using tx_inv0 by (simp add: qso_inv_def qso0_def) (simp add: ft8_tx0_def)
next
  case (step q q') thus ?case using qso_step_inv by blast
qed

section \<open>Properties\<close>

text \<open>C36: Nothing is sent unless transmitting is enabled: in every state the engine can
reach, whatever is requested and received and whenever the timers run, the scheduler is
armed, sending or keyed only while Enable Tx is on and a sequence is running, and the
calls of \<open>set_mox\<close> are balanced; so disabling, halting and finishing leave the
transmitter off.\<close>

theorem sending_only_while_enabled:
  assumes "qso_reachable q"
  shows "(t_armed (q_tx q) \<or> t_tx_active (q_tx q) \<or> t_we_keyed (q_tx q) \<longrightarrow> q_tx_enabled q \<and> q_state q \<noteq> ST_IDLE)
    \<and> alternates False (q_mox q) \<and> (last (False # q_mox q) \<longrightarrow> q_tx_enabled q \<and> t_tx_active (q_tx q))"
  using qso_reachable_inv[OF assms] by (auto simp: qso_inv_def tx_inv_def)

definition env0 :: qso_env where
  "env0 = \<lparr>e_station_call = ''G0ORX'', e_station_grid = ''IO83'', e_cq_dir = [], e_tx_even = True,
     e_tx_offset = 1500, e_ft4 = False, e_dial = Some 14074000, e_now = 1000, e_now_ms = 1000000,
     e_date = ''20240101'', e_time = ''120000'', e_formatd = (\<lambda>_. ''14.075500''), e_encode = encode_any,
     e_dxcc = dxcc0\<rparr>"

definition calling :: qso where "calling = ft8_qso_start_cq env0 qso0"

lemma calling_reachable: "qso_reachable calling"
  unfolding calling_def by (intro qso_reachable.step[OF qso_reachable.start] qso_step.start_cq)

theorem sending_only_while_enabled_witness:
  "\<exists>q. qso_reachable q \<and> t_armed (q_tx q) \<and> q_tx_enabled q"
proof -
  let ?q = "qso_poll env0 [] [] calling"
  have r: "qso_reachable ?q" by (intro qso_reachable.step[OF calling_reachable] qso_step.poll)
  have "t_armed (q_tx ?q)"
    by (simp add: calling_def ft8_qso_start_cq_def env0_def qso0_def ft8_tx0_def msg_cq_def cq_text_def sp_def
        set_pending_def qso_poll_def poll_watchdog_def poll_decodes_def poll_tx_end_def poll_arm_def Let_def
        ft8_tx_active_def TX_WATCHDOG_SEC_def ft8_tx_prepare_def encode_any_def ft8_tx_arm_def)
  thus ?thesis using sending_only_while_enabled[OF r] r by blast
qed

section \<open>Logging\<close>

lemma after_first_here: "take (length pat) s = pat \<Longrightarrow> after_first pat s = Some (drop (length pat) s)"
  by (cases s) auto

text \<open>What is searched for starts with an angle bracket, so the search passes over text
without one.\<close>

lemma after_first_skip: "CHR ''<'' \<notin> set a \<Longrightarrow> after_first (CHR ''<'' # pat) (a @ s) = after_first (CHR ''<'' # pat) s"
  by (induction a) auto


lemma after_first_field:
  assumes "CHR ''<'' \<notin> set n" "CHR ''<'' \<notin> set v"
    "take (Suc (length pat)) (''<'' @ n @ '':'' @ r) \<noteq> CHR ''<'' # pat"
    "r = fmt_d (int (length v)) @ ''>'' @ v @ '' '' @ s"
  shows "after_first (CHR ''<'' # pat) (adif_field n v @ s) = after_first (CHR ''<'' # pat) s"
proof -
  have d: "CHR ''<'' \<notin> set (fmt_d (int (length v)))"
    using digits_isdigit[of "length v"] by (auto simp: fmt_d_def isdigit_c_def)
  have f: "adif_field n v @ s = CHR ''<'' # n @ '':'' @ r" using assms(4) by (simp add: adif_field_def)
  have "after_first (CHR ''<'' # pat) (adif_field n v @ s) = after_first (CHR ''<'' # pat) (n @ '':'' @ r)"
    using assms(3) by (simp add: f)
  also have "\<dots> = after_first (CHR ''<'' # pat) ((n @ '':'' @ fmt_d (int (length v)) @ ''>'' @ v @ '' '') @ s)"
    by (simp add: assms(4))
  also have "\<dots> = after_first (CHR ''<'' # pat) s"
    using assms(1,2) d by (intro after_first_skip) auto
  finally show ?thesis .
qed

lemma field_value:
  assumes "v \<noteq> []" "length v < outsz"
  shows "adif_get (adif_field n v @ s) n outsz = Some v"
proof -
  let ?p = "fmt_d (int (length v)) @ CHR ''>'' # v @ '' '' @ s"
  have "after_first (''<'' @ n @ '':'') (adif_field n v @ s) = Some ?p"
    by (subst after_first_here) (simp_all add: adif_field_def)
  moreover have "atoi ?p = int (length v)"
    using atoi_digits[of "CHR ''>'' # v @ '' '' @ s" "length v"] by (simp add: fmt_d_def isdigit_c_def)
  moreover have "CHR ''>'' \<notin> set (fmt_d (int (length v)))"
    using digits_isdigit[of "length v"] by (auto simp: fmt_d_def isdigit_c_def)
  hence "dropWhile (\<lambda>c. c \<noteq> CHR ''>'') ?p = CHR ''>'' # v @ '' '' @ s" by (rule dropWhile_upto)
  ultimately show ?thesis using assms by (auto simp: adif_get_def Let_def)
qed

lemma adif_get_skip:
  "after_first (''<'' @ f @ '':'') l = after_first (''<'' @ f @ '':'') l' \<Longrightarrow> adif_get l f n = adif_get l' f n"
  by (simp add: adif_get_def)

text \<open>A contact whose texts can be written: they contain neither the bracket of a field
nor a line end, the other station is known, and the dial is in an amateur band.\<close>

definition plain :: "string \<Rightarrow> bool" where
  "plain s \<longleftrightarrow> CHR ''<'' \<notin> set s \<and> newline \<notin> set s"

definition record_ok :: "qso_env \<Rightarrow> qso \<Rightarrow> bool" where
  "record_ok e q \<longleftrightarrow> q_dx_call q \<noteq> [] \<and> length (q_dx_call q) \<le> 15 \<and> length (q_dx_grid q) \<le> 7
     \<and> plain (q_dx_call q) \<and> plain (q_dx_grid q) \<and> plain (e_date e) \<and> plain (e_time e)
     \<and> (\<forall>m. plain (e_formatd e m)) \<and> (\<exists>f. e_dial e = Some f \<and> band_from_hz f > 0)"

lemma fmt_d_chars: "c \<in> set (fmt_d x) \<Longrightarrow> isdigit_c c \<or> c = CHR ''-''"
  using digits_isdigit[of "nat x"] digits_isdigit[of "nat (- x)"] by (auto simp: fmt_d_def split: if_splits)

lemma fmt_plus_chars: "c \<in> set (fmt_plus_03d x) \<Longrightarrow> isdigit_c c \<or> c = CHR ''-'' \<or> c = CHR ''+''"
  using digits_isdigit[of "nat \<bar>x\<bar>"] by (auto simp: fmt_plus_03d_def Let_def isdigit_c_def split: if_splits)

lemma plain_fmt: "plain (fmt_d x)" "plain (take n (fmt_plus_03d x))"
  using fmt_d_chars[of _ x] fmt_plus_chars[of _ x]
  by (auto simp: plain_def newline_def isdigit_c_def dest!: in_set_takeD) force+

lemma plain_take: "plain s \<Longrightarrow> plain (take n s)"
  by (auto simp: plain_def dest: in_set_takeD)

lemma adif_field_length: "length v < 100 \<Longrightarrow> length (adif_field n v) \<le> length n + length v + 6"
  using digits_length_2[of "length v"] by (simp add: adif_field_def fmt_d_def)

lemma field_le: "length v \<le> m \<Longrightarrow> m < 100 \<Longrightarrow> length n + m + 6 \<le> k \<Longrightarrow> length (adif_field n v) \<le> k"
  using adif_field_length[of v n] by simp

lemma adif_record_length:
  assumes "length (q_dx_call q) \<le> 15" "length (q_dx_grid q) \<le> 7"
  shows "length (adif_record e q) \<le> 220"
proof -
  have "length (adif_field ''CALL'' (q_dx_call q)) \<le> 25"
    "length (if q_dx_grid q \<noteq> [] then adif_field ''GRIDSQUARE'' (q_dx_grid q) else []) \<le> 23"
    using field_le[OF assms(1)] field_le[OF assms(2)] by simp_all
  moreover have "length (adif_field ''MODE'' (if c then ''FT4'' else ''FT8'')) \<le> 13" for c
    by (rule field_le[of _ 3]) simp_all
  moreover have "length (adif_field ''RST_SENT'' (take 7 x)) \<le> 21" "length (adif_field ''RST_RCVD'' (take 7 x)) \<le> 21" for x
    by (rule field_le[of _ 7]; simp)+
  moreover have "length (adif_field ''QSO_DATE'' (take 8 x)) \<le> 22" "length (adif_field ''TIME_ON'' (take 6 x)) \<le> 19" for x
    by (rule field_le[of _ 8]; simp) (rule field_le[of _ 6]; simp)
  moreover have "length (if c then adif_field ''BAND'' (take 7 x) else []) \<le> 17" for c x
    using field_le[of "take 7 x" 7 "''BAND''" 17] by simp
  moreover have "length (if c then adif_field ''FREQ'' (take 15 x) else []) \<le> 25" for c x
    using field_le[of "take 15 x" 15 "''FREQ''" 25] by simp
  moreover have "length ''<EOR>'' \<le> 5" "length [newline] \<le> 1" by simp_all
  ultimately have "length (adif_record e q) \<le> 25 + (23 + (13 + (21 + (21 + (22 + (19 + (17 + (25 + (5 + 1)))))))))"
    unfolding adif_record_def adif_fields_def Let_def append.assoc length_append by (intro add_mono)
  thus ?thesis by simp
qed

lemma adif_record_call:
  "record_ok e q \<Longrightarrow> adif_get (adif_record e q) ''CALL'' 16 = Some (q_dx_call q)"
  unfolding adif_record_def adif_fields_def Let_def append.assoc by (rule field_value) (auto simp: record_ok_def)

text \<open>Looking for the band, the fields before it are passed over.\<close>

lemma skip_to_band:
  assumes "plain v"
  shows "after_first ''<BAND:'' (adif_field ''CALL'' v @ s) = after_first ''<BAND:'' s"
    "after_first ''<BAND:'' (adif_field ''GRIDSQUARE'' v @ s) = after_first ''<BAND:'' s"
    "after_first ''<BAND:'' (adif_field ''MODE'' v @ s) = after_first ''<BAND:'' s"
    "after_first ''<BAND:'' (adif_field ''RST_SENT'' v @ s) = after_first ''<BAND:'' s"
    "after_first ''<BAND:'' (adif_field ''RST_RCVD'' v @ s) = after_first ''<BAND:'' s"
    "after_first ''<BAND:'' (adif_field ''QSO_DATE'' v @ s) = after_first ''<BAND:'' s"
    "after_first ''<BAND:'' (adif_field ''TIME_ON'' v @ s) = after_first ''<BAND:'' s"
  using assms by (simp_all add: after_first_field plain_def)

lemma plain_mode: "plain (if c then ''FT4'' else ''FT8'')"
  by (simp add: plain_def newline_def)

lemma adif_record_band:
  assumes "record_ok e q" "e_dial e = Some f"
  shows "\<exists>b. adif_get (adif_record e q) ''BAND'' 16 = Some b \<and> atoi b = band_from_hz f"
proof -
  let ?b = "take 7 (fmt_d (band_from_hz f) @ ''m'')"
  note ok = assms(1)[unfolded record_ok_def]
  have b: "0 < band_from_hz f" "band_from_hz f \<le> 160" using ok assms(2) by (auto simp: band_from_hz_def Let_def)
  obtain t where t: "after_first ''<BAND:'' (adif_record e q) = after_first ''<BAND:'' (adif_field ''BAND'' ?b @ t)"
    unfolding adif_record_def adif_fields_def Let_def append.assoc using ok b(1)
    by (cases "q_dx_grid q = []") (simp_all add: skip_to_band plain_mode plain_take plain_fmt assms(2))
  have l: "length (fmt_d (band_from_hz f)) \<le> 3"
    using b digits_length_3[of "nat (band_from_hz f)"] by (simp add: fmt_d_def)
  hence "?b = fmt_d (band_from_hz f) @ ''m''" by simp
  moreover have "atoi (fmt_d (band_from_hz f) @ ''m'') = band_from_hz f"
    using b atoi_digits[of "''m''" "nat (band_from_hz f)"] by (simp add: fmt_d_def isdigit_c_def)
  moreover have "adif_get (adif_field ''BAND'' ?b @ t) ''BAND'' 16 = Some ?b" using field_value[of ?b 16 "''BAND''" t] by simp
  ultimately show ?thesis using adif_get_skip[of "''BAND''" "adif_record e q" "adif_field ''BAND'' ?b @ t" 16] t by simp
qed

lemma parse_own_record:
  assumes "record_ok e q" "e_dial e = Some f"
  shows "worked_parse_line strtod d (adif_record e q) w = worked_add d (q_dx_call q) (band_from_hz f) w"
  using adif_record_band[OF assms] adif_record_call[OF assms(1)]
  by (auto simp: worked_parse_line_def Let_def)

lemma names_plain:
  "plain ''CALL''" "plain ''GRIDSQUARE''" "plain ''MODE''" "plain ''RST_SENT''" "plain ''RST_RCVD''"
  "plain ''QSO_DATE''" "plain ''TIME_ON''" "plain ''FREQ''" "plain ''FT4''" "plain ''FT8''" by (simp_all add: plain_def newline_def)

lemma adif_record_line: "record_ok e q \<Longrightarrow> \<exists>l. adif_record e q = l @ [newline] \<and> newline \<notin> set l"
proof -
  assume ok: "record_ok e q"
  have n: "newline \<in> set (adif_field n v) \<Longrightarrow> plain n \<Longrightarrow> plain v \<Longrightarrow> False" for n v
    using plain_fmt(1)[of "int (length v)"] by (auto simp: adif_field_def plain_def newline_def)
  have "newline \<notin> set (take 7 (fmt_d b @ ''m''))" for b
    using plain_fmt(1)[of b] by (auto simp: plain_def newline_def dest!: in_set_takeD)
  hence bd: "newline \<notin> set (adif_field ''BAND'' (take 7 (fmt_d b @ ''m'')))" for b
    using plain_fmt(1) by (auto simp: adif_field_def plain_def newline_def)
  have "newline \<notin> set (adif_fields e q)"
    unfolding adif_fields_def Let_def
    using ok bd by (auto simp: record_ok_def plain_mode plain_take plain_fmt names_plain split: if_splits dest!: n)
  moreover have "adif_record e q = (adif_fields e q @ ''<EOR>'') @ [newline]" by (simp add: adif_record_def)
  ultimately show ?thesis by (auto simp: newline_def)
qed


lemma worked_lines:
  assumes "\<forall>(e, q) \<in> set xs. record_ok e q"
  shows "fold (worked_parse_line strtod d) (read_lines 1023 (concat (map (\<lambda>(e, q). adif_record e q) xs))) w
    = fold (\<lambda>(e, q). worked_add d (q_dx_call q) (band_from_hz (the (e_dial e)))) xs w"
  using assms
proof (induction xs arbitrary: w)
  case (Cons x xs)
  obtain e q where x: "x = (e, q)" by (cases x)
  let ?rest = "concat (map (\<lambda>(e, q). adif_record e q) xs)"
  have ok: "record_ok e q" using Cons.prems x by simp
  obtain l where l: "adif_record e q = l @ [newline]" "newline \<notin> set l" using adif_record_line[OF ok] by blast
  have "length l < 1023"
    using adif_record_length[of q e] ok l(1) by (simp add: record_ok_def)
  hence "fgets 1023 (adif_record e q @ ?rest) = (adif_record e q, ?rest)"
    using fgets_line[OF l(2), of 1023 ?rest] by (simp add: l(1))
  hence "read_lines 1023 (adif_record e q @ ?rest) = adif_record e q # read_lines 1023 ?rest"
    using read_lines.simps[of 1023 "adif_record e q @ ?rest"] l(1) by simp
  moreover obtain f where "e_dial e = Some f" using ok by (auto simp: record_ok_def)
  ultimately show ?case using Cons.IH Cons.prems parse_own_record[OF ok] by (simp add: x)
qed (simp add: read_lines.simps)

text \<open>The log is read back as it was written: reading, at the next start, a log of
contacts gives the same worked stations, countries and band slots as counting each contact
when it was made, on every contact with a dial in an amateur band.\<close>

theorem log_read_back:
  assumes "\<forall>(e, q) \<in> set xs. record_ok e q"
  shows "worked_load strtod d (Some (concat (map (\<lambda>(e, q). adif_record e q) xs))) w =
    fold (\<lambda>(e, q). worked_add d (q_dx_call q) (band_from_hz (the (e_dial e)))) xs
      (w\<lparr>q_loaded := True, q_worked := [], q_worked_dxcc := [], q_worked_dxcc_band := []\<rparr>)"
  using worked_lines[OF assms] by (simp add: worked_load_def)

definition contact0 :: qso where
  "contact0 = qso0\<lparr>q_dx_call := ''K1ABC'', q_dx_grid := ''FN42'', q_sent_report := - 12, q_recv_report := 3\<rparr>"

theorem log_read_back_witness:
  "ft8_qso_worked ''k1abc'' (worked_load (\<lambda>_. 0) dxcc0 (Some (adif_record env0 contact0)) qso0)"
proof -
  have "record_ok env0 contact0"
    by (simp add: record_ok_def plain_def newline_def env0_def contact0_def qso0_def band_from_hz_def)
  hence "worked_load (\<lambda>_. 0) dxcc0 (Some (adif_record env0 contact0)) qso0
     = worked_add dxcc0 (q_dx_call contact0) (band_from_hz (the (e_dial env0)))
        (qso0\<lparr>q_loaded := True, q_worked := [], q_worked_dxcc := [], q_worked_dxcc_band := []\<rparr>)"
    using log_read_back[of "[(env0, contact0)]"] by simp
  moreover have "call_key ''k1abc'' = call_key ''K1ABC''" by code_simp
  ultimately show ?thesis
    by (simp add: worked_add_def ft8_qso_worked_def contact0_def Let_def ft8_dxcc_entity_def dxcc0_def)
qed

text \<open>A log record never overflows its buffer of 512 characters, in whatever state
the engine is when a contact completes.\<close>

theorem log_record_fits_buffer:
  assumes "qso_reachable q"
  shows "length (adif_record e q) < 512"
  using adif_record_length[of q e] qso_reachable_inv[OF assms] by (simp add: qso_inv_def)

theorem log_record_fits_buffer_witness: "length (adif_record env0 calling) < 512"
  by (rule log_record_fits_buffer[OF calling_reachable])

section \<open>A complete contact\<close>

text \<open>What the other station decodes: the three words of a message.\<close>

definition heard :: "string \<Rightarrow> real \<Rightarrow> string \<Rightarrow> ft8_decode" where
  "heard m snr utc =
     (let r1 = tl (dropWhile (\<lambda>c. c \<noteq> CHR '' '') m); r2 = tl (dropWhile (\<lambda>c. c \<noteq> CHR '' '') r1)
      in \<lparr>fd_utc = utc, fd_snr = snr, fd_call_to = takeWhile (\<lambda>c. c \<noteq> CHR '' '') m,
          fd_call_de = takeWhile (\<lambda>c. c \<noteq> CHR '' '') r1, fd_extra = r2\<rparr>)"

lemma heard_sp:
  "CHR '' '' \<notin> set a \<Longrightarrow> CHR '' '' \<notin> set b \<Longrightarrow>
   heard (sp [a, b, c]) snr utc = \<lparr>fd_utc = utc, fd_snr = snr, fd_call_to = a, fd_call_de = b, fd_extra = c\<rparr>"
  by (simp add: heard_def sp_def takeWhile_upto dropWhile_upto Let_def)

lemma strcaseeq_refl [simp]: "strcaseeq a a"
  by (simp add: strcaseeq_def)

text \<open>A message to this station, while automatic sequencing is on.\<close>

definition to_me :: "ft8_decode \<Rightarrow> qso \<Rightarrow> bool" where
  "to_me d q \<longleftrightarrow> q_auto_seq q \<and> fd_call_de d \<noteq> [] \<and> q_my_call q \<noteq> [] \<and> strcaseeq (fd_call_to d) (q_my_call q)"

lemma cq_answered:
  assumes "to_me d q" "q_state q = ST_CALLING_CQ"
  shows "handle_decode e d q =
    (let dx = take 15 (fd_call_de d); r = clamp_report (fd_snr d)
     in progress e (q\<lparr>q_dx_call := dx, q_dx_grid := (if is_grid (fd_extra d) then take 7 (fd_extra d) else []),
          q_sent_report := r, q_pending_msg := take 31 (sp [dx, q_my_call q, fmt_plus_03d r]),
          q_have_pending := True, q_need_arm := True, q_state := ST_CQ_SENT_REPORT, q_status := Status_sent dx r\<rparr>))"
  using assms by (simp add: handle_decode_def to_me_def set_dx_def msg_report_def set_pending_def Let_def)

lemma report_rogered:
  assumes "to_me d q" "q_state q = ST_CQ_SENT_REPORT" "same_dx (fd_call_de d) q" "has_roger (fd_extra d)"
  shows "let q' = handle_decode e d q in
    q_state q' = ST_CQ_SENT_RR73 \<and> q_pending_msg q' = take 31 (sp [q_dx_call q, q_my_call q, ''RR73''])
    \<and> q_recv_report q' = parse_report (fd_extra d) \<and> q_sent_report q' = q_sent_report q
    \<and> q_dx_call q' = q_dx_call q \<and> q_dx_grid q' = q_dx_grid q \<and> q_my_call q' = q_my_call q \<and> q_auto_seq q'
    \<and> q_logged q' \<and> (\<not> q_logged q \<longrightarrow> q_log q' = q_log q @ [adif_record e q'])"
  using assms by (simp add: handle_decode_def to_me_def msg_rr73_def set_pending_def Let_def progress_def
      adif_record_def adif_fields_def)

lemma report_received:
  assumes "to_me d q" "q_state q = ST_ANS_SENT_GRID" "same_dx (fd_call_de d) q" "is_report (fd_extra d)"
  shows "let q' = handle_decode e d q in
    q_state q' = ST_ANS_SENT_RREPORT
    \<and> q_pending_msg q' = take 31 (sp [q_dx_call q, q_my_call q, CHR ''R'' # fmt_plus_03d (clamp_report (fd_snr d))])
    \<and> q_recv_report q' = parse_report (fd_extra d) \<and> q_sent_report q' = clamp_report (fd_snr d)
    \<and> q_dx_call q' = q_dx_call q \<and> q_dx_grid q' = q_dx_grid q \<and> q_my_call q' = q_my_call q \<and> q_auto_seq q'
    \<and> q_logged q' = q_logged q \<and> q_log q' = q_log q"
proof -
  have "\<not> is_rr73 (fd_extra d)" "\<not> is_73 (fd_extra d)" "\<not> has_roger (fd_extra d)"
    using assms(4) by (auto simp: is_report_def is_rr73_def is_73_def has_roger_def char_at_def)
  thus ?thesis using assms by (simp add: handle_decode_def to_me_def msg_rreport_def set_pending_def Let_def progress_def)
qed

lemma rr73_received:
  assumes "to_me d q" "q_state q = ST_ANS_SENT_RREPORT" "same_dx (fd_call_de d) q" "is_rr73 (fd_extra d)"
  shows "let q' = handle_decode e d q in
    q_state q' = ST_ANS_SENT_73 \<and> q_pending_msg q' = take 31 (sp [q_dx_call q, q_my_call q, ''73''])
    \<and> q_recv_report q' = q_recv_report q \<and> q_sent_report q' = q_sent_report q
    \<and> q_dx_call q' = q_dx_call q \<and> q_dx_grid q' = q_dx_grid q
    \<and> q_logged q' \<and> (\<not> q_logged q \<longrightarrow> q_log q' = q_log q @ [adif_record e q'])"
  using assms by (simp add: handle_decode_def to_me_def msg_73_def set_pending_def Let_def progress_def
      adif_record_def adif_fields_def)

lemma final_73:
  assumes "to_me d q" "q_state q = ST_CQ_SENT_RR73" "same_dx (fd_call_de d) q" "is_73 (fd_extra d)"
  shows "handle_decode e d q = go_idle Status_complete q"
  using assms by (simp add: handle_decode_def to_me_def)


lemma fmt_plus_cons: "\<exists>c d r. fmt_plus_03d x = c # d # r \<and> (c = CHR ''-'' \<or> c = CHR ''+'') \<and> isdigit_c d"
proof -
  obtain c cs where d: "digits (nat \<bar>x\<bar>) = c # cs" by (cases "digits (nat \<bar>x\<bar>)") auto
  have "isdigit_c c" using digits_isdigit[of "nat \<bar>x\<bar>"] d by simp
  thus ?thesis using d by (auto simp: fmt_plus_03d_def Let_def isdigit_c_def)
qed

lemma report_text:
  "is_report (fmt_plus_03d x)" "has_roger (CHR ''R'' # fmt_plus_03d x)"
  "parse_report (fmt_plus_03d x) = x" "parse_report (CHR ''R'' # fmt_plus_03d x) = x"
proof -
  obtain c d r where f: "fmt_plus_03d x = c # d # r" "c = CHR ''-'' \<or> c = CHR ''+''" "isdigit_c d"
    using fmt_plus_cons[of x] by blast
  have "48 \<le> (of_char d :: int)" "(of_char d :: int) \<le> 57"
    using f(3) by (auto simp: isdigit_c_def) (metis of_nat_le_iff of_nat_numeral of_nat_of_char)+
  thus "is_report (fmt_plus_03d x)" "has_roger (CHR ''R'' # fmt_plus_03d x)"
    using f by (auto simp: is_report_def has_roger_def char_at_def in_range_def)
  show "parse_report (CHR ''R'' # fmt_plus_03d x) = x" "parse_report (fmt_plus_03d x) = x"
    using atoi_fmt_plus_03d[of "[]" x] f by (auto simp: parse_report_def)
qed

lemma fmt_plus_length: "\<bar>x\<bar> < 100 \<Longrightarrow> length (fmt_plus_03d x) \<le> 3"
  using digits_length_2[of "nat \<bar>x\<bar>"] by (simp add: fmt_plus_03d_def Let_def)

lemma clamp_report_bounds: "- 24 \<le> clamp_report r \<and> clamp_report r \<le> 20"
  unfolding clamp_report_def by (rule clamp_bounds) simp

definition station :: "qso_env \<Rightarrow> string \<Rightarrow> string \<Rightarrow> bool" where
  "station e call grid \<longleftrightarrow> e_station_call e = call \<and> e_station_grid e = grid \<and> e_cq_dir e = []
     \<and> call \<noteq> [] \<and> length call \<le> 11 \<and> CHR '' '' \<notin> set call \<and> is_grid grid \<and> CHR '' '' \<notin> set grid"

lemma sp_length: "length (sp [a, b, c]) = length a + length b + length c + 2"
  by (simp add: sp_def)

lemma sp_take: "length a \<le> 11 \<Longrightarrow> length b \<le> 11 \<Longrightarrow> length c \<le> 6 \<Longrightarrow> take 31 (sp [a, b, c]) = sp [a, b, c]"
  using sp_length[of a b c] by simp

lemma station_grid: "is_grid g \<Longrightarrow> length g \<le> 6 \<and> g \<noteq> []"
  by (auto simp: is_grid_def)

text \<open>After its 73 has been on the air the answerer is done: the first poll that finds the
transmission over goes to rest, whatever the transmitter was left in.\<close>

lemma poll_after_73:
  fixes e :: qso_env and u :: string
  assumes "q_state q = ST_ANS_SENT_73" "\<not> ft8_tx_active x"
  defines "q' \<equiv> qso_poll e [] u (q\<lparr>q_prev_active := True, q_tx := x\<rparr>)"
  shows "q_state q' = ST_IDLE \<and> q_pending_msg q' = [] \<and> \<not> q_tx_enabled q' \<and> \<not> t_armed (q_tx q') \<and> q_log q' = q_log q"
  using assms(1,2)
  by (simp add: q'_def qso_poll_def poll_watchdog_def poll_decodes_def poll_tx_end_def poll_arm_def go_idle_def
      qso_disarm_def ft8_tx_disarm_def ft8_tx_active_def ft8_qso_set_tx_enabled_def Let_def)

text \<open>C35: Two of these engines complete a contact with each other: one calls CQ, the
other answers, and each hears what the other queues. Both have the automatic sequence on, a call
and a grid of their own that fit a message, and no directed CQ. They exchange grid, reports, RR73
and 73 in order; both know each other's call and grid; the report each logs as received is the
one the other logs as sent; each writes exactly one record; and both stop, the caller when it hears
the 73, the answerer at the first poll, with nothing more heard, that finds the transmission of its
73 over: at rest, with nothing queued, disarmed and not enabled to transmit.\<close>

theorem complete_contact:
  fixes s0 s1 s2 s3 s4 s5 :: real and u0 u1 u2 u3 u4 u5 u6 :: string
  assumes st: "station ea ca ga" "station eb cb gb" and auto: "q_auto_seq a" "q_auto_seq b"
    and over: "\<not> ft8_tx_active x"
  defines "a0 \<equiv> ft8_qso_start_cq ea a"
  defines "b0 \<equiv> ft8_qso_answer eb (heard (q_pending_msg a0) s0 u0) b"
  defines "a1 \<equiv> handle_decode ea (heard (q_pending_msg b0) s1 u1) a0"
  defines "b1 \<equiv> handle_decode eb (heard (q_pending_msg a1) s2 u2) b0"
  defines "a2 \<equiv> handle_decode ea (heard (q_pending_msg b1) s3 u3) a1"
  defines "b2 \<equiv> handle_decode eb (heard (q_pending_msg a2) s4 u4) b1"
  defines "a3 \<equiv> handle_decode ea (heard (q_pending_msg b2) s5 u5) a2"
  defines "b3 \<equiv> qso_poll eb [] u6 (b2\<lparr>q_prev_active := True, q_tx := x\<rparr>)"
  shows "q_pending_msg a0 = sp [''CQ'', ca, ga] \<and> q_pending_msg b0 = sp [ca, cb, gb]
    \<and> q_pending_msg a1 = sp [cb, ca, fmt_plus_03d (clamp_report s1)]
    \<and> q_pending_msg b1 = sp [ca, cb, CHR ''R'' # fmt_plus_03d (clamp_report s2)]
    \<and> q_pending_msg a2 = sp [cb, ca, ''RR73''] \<and> q_pending_msg b2 = sp [ca, cb, ''73'']
    \<and> q_dx_call a2 = cb \<and> q_dx_grid a2 = gb \<and> q_dx_call b2 = ca \<and> q_dx_grid b2 = ga
    \<and> q_recv_report b2 = q_sent_report a2 \<and> q_recv_report a2 = q_sent_report b2
    \<and> q_log a3 = q_log a @ [adif_record ea a2] \<and> q_log b3 = q_log b @ [adif_record eb b2]
    \<and> (\<forall>q \<in> {a3, b3}. q_state q = ST_IDLE \<and> q_pending_msg q = [] \<and> \<not> q_tx_enabled q \<and> \<not> t_armed (q_tx q))"
proof -
  note ca = st(1)[unfolded station_def] and cb = st(2)[unfolded station_def]
  have ga: "length ga \<le> 6" "ga \<noteq> []" "is_grid ga" and gb: "length gb \<le> 6" "gb \<noteq> []" "is_grid gb"
    using ca cb station_grid by auto
  have fl: "length (fmt_plus_03d (clamp_report r)) \<le> 3" for r
    using clamp_report_bounds[of r] by (intro fmt_plus_length) auto
  have a0: "q_pending_msg a0 = sp [''CQ'', ca, ga]" "q_state a0 = ST_CALLING_CQ" "q_my_call a0 = ca"
    "q_auto_seq a0" "\<not> q_logged a0" "q_log a0 = q_log a"
    using ca ga auto sp_take[of "''CQ''" ca ga]
    by (simp_all add: a0_def ft8_qso_start_cq_def msg_cq_def set_pending_def cq_text_def)
  have b0: "q_pending_msg b0 = sp [ca, cb, gb]" "q_state b0 = ST_ANS_SENT_GRID" "q_my_call b0 = cb"
    "q_dx_call b0 = ca" "q_dx_grid b0 = ga" "q_auto_seq b0" "\<not> q_logged b0" "q_log b0 = q_log b"
    using ca cb ga gb auto sp_take[of ca cb gb]
    by (simp_all add: b0_def a0(1) heard_sp ft8_qso_answer_def set_dx_def msg_grid_def set_pending_def Let_def)
  have h1: "heard (q_pending_msg b0) s1 u1 = \<lparr>fd_utc = u1, fd_snr = s1, fd_call_to = ca, fd_call_de = cb, fd_extra = gb\<rparr>"
    using ca cb by (simp add: b0(1) heard_sp)
  have a1: "q_pending_msg a1 = sp [cb, ca, fmt_plus_03d (clamp_report s1)]" "q_state a1 = ST_CQ_SENT_REPORT"
    "q_my_call a1 = ca" "q_dx_call a1 = cb" "q_dx_grid a1 = gb" "q_auto_seq a1" "\<not> q_logged a1" "q_log a1 = q_log a"
    "q_sent_report a1 = clamp_report s1"
    using cq_answered[of "heard (q_pending_msg b0) s1 u1" a0 ea] a0 ca cb gb sp_take[OF _ _ order_trans[OF fl[of s1]], of cb ca]
    by (simp_all add: a1_def h1 to_me_def progress_def Let_def)
  have h2: "heard (q_pending_msg a1) s2 u2
      = \<lparr>fd_utc = u2, fd_snr = s2, fd_call_to = cb, fd_call_de = ca, fd_extra = fmt_plus_03d (clamp_report s1)\<rparr>"
    using ca cb by (simp add: a1(1) heard_sp)
  have R: "length (CHR ''R'' # fmt_plus_03d (clamp_report s2)) \<le> 6" using fl[of s2] by simp
  have b1: "q_pending_msg b1 = sp [ca, cb, CHR ''R'' # fmt_plus_03d (clamp_report s2)]" "q_state b1 = ST_ANS_SENT_RREPORT"
    "q_my_call b1 = cb" "q_dx_call b1 = ca" "q_dx_grid b1 = ga" "q_auto_seq b1" "\<not> q_logged b1" "q_log b1 = q_log b"
    "q_sent_report b1 = clamp_report s2" "q_recv_report b1 = clamp_report s1"
    using report_received[of "heard (q_pending_msg a1) s2 u2" b0 eb] b0 ca cb sp_take[OF _ _ R, of ca cb]
    by (simp_all add: b1_def h2 to_me_def same_dx_def report_text Let_def)
  have h3: "heard (q_pending_msg b1) s3 u3
      = \<lparr>fd_utc = u3, fd_snr = s3, fd_call_to = ca, fd_call_de = cb, fd_extra = CHR ''R'' # fmt_plus_03d (clamp_report s2)\<rparr>"
    using ca cb by (simp add: b1(1) heard_sp)
  have a2: "q_pending_msg a2 = sp [cb, ca, ''RR73'']" "q_state a2 = ST_CQ_SENT_RR73"
    "q_my_call a2 = ca" "q_dx_call a2 = cb" "q_dx_grid a2 = gb" "q_auto_seq a2"
    "q_sent_report a2 = clamp_report s1" "q_recv_report a2 = clamp_report s2" "q_log a2 = q_log a @ [adif_record ea a2]"
    using report_rogered[of "heard (q_pending_msg b1) s3 u3" a1 ea] a1 ca cb sp_take[of cb ca "''RR73''"]
    by (simp_all add: a2_def h3 to_me_def same_dx_def report_text Let_def)
  have h4: "heard (q_pending_msg a2) s4 u4
      = \<lparr>fd_utc = u4, fd_snr = s4, fd_call_to = cb, fd_call_de = ca, fd_extra = ''RR73''\<rparr>"
    using ca cb by (simp add: a2(1) heard_sp)
  have b2: "q_pending_msg b2 = sp [ca, cb, ''73'']" "q_state b2 = ST_ANS_SENT_73" "q_dx_call b2 = ca" "q_dx_grid b2 = ga"
    "q_sent_report b2 = clamp_report s2" "q_recv_report b2 = clamp_report s1" "q_log b2 = q_log b @ [adif_record eb b2]"
    using rr73_received[of "heard (q_pending_msg a2) s4 u4" b1 eb] b1 ca cb sp_take[of ca cb "''73''"]
    by (simp_all add: b2_def h4 to_me_def same_dx_def is_rr73_def Let_def)
  have h5: "heard (q_pending_msg b2) s5 u5
      = \<lparr>fd_utc = u5, fd_snr = s5, fd_call_to = ca, fd_call_de = cb, fd_extra = ''73''\<rparr>"
    using ca cb by (simp add: b2(1) heard_sp)
  have "a3 = go_idle Status_complete a2"
    using final_73[of "heard (q_pending_msg b2) s5 u5" a2 ea] a2 ca cb
    by (simp add: a3_def h5 to_me_def same_dx_def is_73_def)
  hence a3: "q_state a3 = ST_IDLE" "q_pending_msg a3 = []" "\<not> q_tx_enabled a3" "\<not> t_armed (q_tx a3)" "q_log a3 = q_log a2"
    by (simp_all add: go_idle_def qso_disarm_def ft8_tx_disarm_def)
  show ?thesis using a0(1) b0(1) a1(1) b1(1) a2 b2 a3 poll_after_73[OF b2(2) over, of eb u6] by (simp add: b3_def)
qed


definition env1 :: qso_env where
  "env1 = env0\<lparr>e_station_call := ''K1ABC'', e_station_grid := ''FN42''\<rparr>"

lemma grids: "is_grid ''IO83''" "is_grid ''FN42''" "is_grid ''RR73''"
  by (simp_all add: is_grid_def in_range_def char_at_def)

lemma stations: "station env0 ''G0ORX'' ''IO83''" "station env1 ''K1ABC'' ''FN42''"
  using grids by (simp_all add: station_def env0_def env1_def)

theorem complete_contact_witness:
  "q_pending_msg (ft8_qso_answer env1 (heard (q_pending_msg (ft8_qso_start_cq env0 qso0)) (- 12) ''120000'') qso0)
     = ''G0ORX K1ABC FN42''"
proof -
  have "q_auto_seq qso0" "\<not> ft8_tx_active (q_tx qso0)" by (simp_all add: qso0_def ft8_tx_active_def ft8_tx0_def)
  from complete_contact[OF stations this(1) this(1) this(2), of "- 12" "''120000''" 0 "[]" 0 "[]" 0 "[]" 0 "[]" 0 "[]" "[]"]
  have "q_pending_msg (ft8_qso_answer env1 (heard (q_pending_msg (ft8_qso_start_cq env0 qso0)) (- 12) ''120000'') qso0)
      = sp [''G0ORX'', ''K1ABC'', ''FN42'']" by (elim conjE)
  also have "\<dots> = ''G0ORX K1ABC FN42''" by (simp add: sp_def)
  finally show ?thesis .
qed

text \<open>An unanswered call ends: each of our transmissions that ends with nothing new
decoded counts, and the fifth without progress ends the sequence with the transmitter
disarmed and disabled; before that the same message is queued again.\<close>

theorem unanswered_call_gives_up:
  assumes "q_state q \<in> {ST_CQ_SENT_REPORT, ST_CQ_SENT_RR73, ST_ANS_SENT_GRID, ST_ANS_SENT_RREPORT}"
    "q_auto_seq q" "q_have_pending q" "q_prev_active q" "\<not> t_tx_active (q_tx q)"
  shows "if q_cycles q + 1 \<ge> WATCHDOG_CYCLES
    then q_state (qso_poll e [] utc q) = ST_IDLE \<and> \<not> q_tx_enabled (qso_poll e [] utc q)
      \<and> \<not> t_armed (q_tx (qso_poll e [] utc q)) \<and> q_status (qso_poll e [] utc q) = Status_no_reply
    else q_state (qso_poll e [] utc q) = q_state q \<and> q_cycles (qso_poll e [] utc q) = q_cycles q + 1
      \<and> q_pending_msg (qso_poll e [] utc q) = q_pending_msg q"
proof -
  let ?w = "poll_watchdog e q"
  have w: "q_state ?w = q_state q" "q_auto_seq ?w = q_auto_seq q" "q_have_pending ?w = q_have_pending q"
    "q_prev_active ?w = q_prev_active q" "\<not> t_tx_active (q_tx ?w)" "q_cycles ?w = q_cycles q"
    "q_pending_msg ?w = q_pending_msg q"
    using assms(5) by (simp_all add: poll_watchdog_def ft8_qso_set_tx_enabled_def qso_disarm_def ft8_tx_disarm_def Let_def)
  have d: "poll_decodes e [] utc ?w = ?w" by (simp add: poll_decodes_def)
  have p: "qso_poll e [] utc q = poll_arm e False (poll_tx_end ?w)"
    using assms(1) w(5) by (auto simp: qso_poll_def Let_def d ft8_tx_active_def)
  have st: "q_state q \<noteq> ST_ANS_SENT_73" "q_state q \<noteq> ST_CALLING_CQ" "q_state q \<noteq> ST_FREE" using assms(1) by auto
  show ?thesis
  proof (cases "q_cycles q + 1 \<ge> WATCHDOG_CYCLES")
    case True
    hence "poll_tx_end ?w = (go_idle Status_no_reply (?w\<lparr>q_cycles := q_cycles ?w + 1\<rparr>))\<lparr>q_prev_active := False\<rparr>"
      using w assms st by (simp add: poll_tx_end_def Let_def ft8_tx_active_def)
    thus ?thesis using True unfolding p
      by (simp add: poll_arm_def go_idle_def qso_disarm_def ft8_tx_disarm_def)
  next
    case False
    let ?q = "?w\<lparr>q_cycles := q_cycles ?w + 1, q_need_arm := True, q_prev_active := False\<rparr>"
    have "poll_tx_end ?w = ?q"
      using w assms st False by (simp add: poll_tx_end_def Let_def ft8_tx_active_def)
    moreover have "q_state (poll_arm e False r) = q_state r" "q_cycles (poll_arm e False r) = q_cycles r"
      "q_pending_msg (poll_arm e False r) = q_pending_msg r" for r
      by (simp_all add: poll_arm_def Let_def split: prod.split)
    ultimately show ?thesis using False w unfolding p by simp
  qed
qed

theorem unanswered_call_gives_up_witness:
  "q_state (qso_poll env0 [] [] (calling\<lparr>q_state := ST_ANS_SENT_GRID, q_cycles := 4, q_prev_active := True\<rparr>)) = ST_IDLE"
proof -
  let ?q = "calling\<lparr>q_state := ST_ANS_SENT_GRID, q_cycles := 4, q_prev_active := True\<rparr>"
  have "q_auto_seq ?q" "q_have_pending ?q" "\<not> t_tx_active (q_tx ?q)"
    by (simp_all add: calling_def ft8_qso_start_cq_def env0_def qso0_def msg_cq_def set_pending_def ft8_tx0_def)
  thus ?thesis using unanswered_call_gives_up[of ?q env0 "[]"] by (simp add: WATCHDOG_CYCLES_def)
qed

text \<open>One step of the log: nothing, or the first record of this contact.\<close>

definition logs_once :: "qso \<Rightarrow> qso \<Rightarrow> bool" where
  "logs_once q q' \<longleftrightarrow> (q_log q' = q_log q \<and> (q_logged q \<longrightarrow> q_logged q'))
     \<or> (\<not> q_logged q \<and> q_logged q' \<and> (\<exists>r. q_log q' = q_log q @ [r]))"

lemma logs_once_refl [simp]: "logs_once q q"
  by (simp add: logs_once_def)

lemma logs_once_trans: "logs_once a b \<Longrightarrow> logs_once b c \<Longrightarrow> logs_once a c"
  by (auto simp: logs_once_def)

lemma same_log: "q_log q' = q_log q \<Longrightarrow> q_logged q' = q_logged q \<Longrightarrow> logs_once q q'"
  by (simp add: logs_once_def)

lemma go_idle_log [simp]: "q_log (go_idle w q) = q_log q" "q_logged (go_idle w q) = q_logged q"
  by (simp_all add: go_idle_def)

lemma handle_decode_log: "logs_once q (handle_decode e d q)"
  unfolding handle_decode_def Let_def
  by (cases "q_state q")
     (simp_all add: progress_def msg_defs set_dx_def logs_once_def)

lemma poll_log: "logs_once q (qso_poll e ds utc q)"
proof (cases "q_state q = ST_IDLE")
  case True
  thus ?thesis by (simp add: qso_poll_def same_log)
next
  case False
  have f: "logs_once q' (fold (\<lambda>d q. if q_state q \<noteq> ST_IDLE then handle_decode e d q else q) xs q')" for xs q'
  proof (induction xs arbitrary: q')
    case (Cons x xs)
    show ?case
      using logs_once_trans[OF handle_decode_log Cons[of "handle_decode e x q'"]] Cons[of q'] by simp
  qed simp
  have 1: "logs_once q (poll_watchdog e q)"
    by (rule same_log) (simp_all add: poll_watchdog_def ft8_qso_set_tx_enabled_def Let_def)
  have 2: "logs_once r (poll_decodes e ds' utc r)" for r ds'
  proof -
    have "logs_once r (r\<lparr>q_last_utc := u, q_last_n := n\<rparr>)" for u n by (simp add: same_log)
    from logs_once_trans[OF this f] show ?thesis by (simp add: poll_decodes_def Let_def)
  qed
  have 3: "logs_once r (poll_arm e act (poll_tx_end r))" for r act
    by (rule same_log) (simp_all add: poll_arm_def poll_tx_end_def Let_def split: prod.split)
  show ?thesis using False logs_once_trans[OF logs_once_trans[OF 1 2] 3] by (simp add: qso_poll_def Let_def)
qed

text \<open>A contact is logged once: a poll appends at most one record, only when the
contact was not logged yet, and marks it logged, however many messages the poll handles; the
requests of the panel append none.\<close>

theorem logged_once:
  "(q_log (qso_poll e ds utc q) = q_log q
     \<or> (\<not> q_logged q \<and> q_logged (qso_poll e ds utc q) \<and> (\<exists>r. q_log (qso_poll e ds utc q) = q_log q @ [r])))
   \<and> q_log (ft8_qso_start_cq e q) = q_log q \<and> q_log (ft8_qso_answer e d q) = q_log q
   \<and> q_log (ft8_qso_halt q) = q_log q \<and> q_log (ft8_qso_set_tx_enabled en q) = q_log q
   \<and> q_log (ft8_qso_select_tx e idx q) = q_log q \<and> q_log (ft8_qso_send_free txt q) = q_log q"
proof -
  have "q_log (select_reset r) = q_log r" for r by (simp add: select_reset_def)
  moreover have "select_message i r = Some r' \<Longrightarrow> q_log r' = q_log r" for i r r'
    by (auto simp: select_message_def msg_defs split: if_splits)
  ultimately have "q_log (ft8_qso_select_tx e idx q) = q_log q"
    unfolding ft8_qso_select_tx_def Let_def by (simp add: msg_defs split: option.split)
  thus ?thesis
    using poll_log[of q e ds utc]
    by (auto simp: logs_once_def ft8_qso_start_cq_def ft8_qso_answer_def ft8_qso_halt_def ft8_qso_set_tx_enabled_def
        ft8_qso_send_free_def msg_defs set_dx_def Let_def)
qed


theorem logged_once_witness:
  "q_log (qso_poll env0 [] [] calling) = []"
proof -
  have "q_log (qso_poll env0 [] [] calling) = q_log calling"
    by (simp add: calling_def ft8_qso_start_cq_def env0_def qso0_def ft8_tx0_def msg_cq_def cq_text_def sp_def
        set_pending_def qso_poll_def poll_watchdog_def poll_decodes_def poll_tx_end_def poll_arm_def Let_def
        ft8_tx_active_def TX_WATCHDOG_SEC_def ft8_tx_prepare_def encode_any_def ft8_tx_arm_def)
  also have "\<dots> = q_log qso0" unfolding calling_def by (simp add: logged_once)
  finally show ?thesis by (simp add: qso0_def)
qed

text \<open>The waveform, if there is one, is of the message prepared last.\<close>

definition wave_inv :: "qso \<Rightarrow> bool" where
  "wave_inv q \<longleftrightarrow> (t_have_wave (q_tx q) \<and> q_prepared_msg q \<noteq> [] \<longrightarrow>
     (\<exists>off ft4. t_wave (q_tx q) = Some (q_prepared_msg q, off, ft4)))"

definition wave_kept :: "qso \<Rightarrow> qso \<Rightarrow> bool" where
  "wave_kept q q' \<longleftrightarrow> (q_prepared_msg q' = q_prepared_msg q \<or> q_prepared_msg q' = [])
     \<and> t_wave (q_tx q') = t_wave (q_tx q) \<and> t_have_wave (q_tx q') = t_have_wave (q_tx q)
     \<and> (t_armed (q_tx q') \<longrightarrow> t_armed (q_tx q))"

lemma wave_kept_refl [simp]: "wave_kept q q"
  by (simp add: wave_kept_def)

lemma wave_kept_trans: "wave_kept a b \<Longrightarrow> wave_kept b c \<Longrightarrow> wave_kept a c"
  by (auto simp: wave_kept_def)

lemma wave_inv_kept: "wave_kept q q' \<Longrightarrow> wave_inv q \<Longrightarrow> wave_inv q'"
  by (auto simp: wave_kept_def wave_inv_def)

lemma disarm_wave: "wave_kept q (qso_disarm q)"
  by (simp add: wave_kept_def qso_disarm_def ft8_tx_disarm_def)

lemma go_idle_wave: "wave_kept q (go_idle w q)"
  by (simp add: wave_kept_def go_idle_def qso_disarm_def ft8_tx_disarm_def)

lemma set_tx_wave: "wave_kept q (ft8_qso_set_tx_enabled en q)"
  by (simp add: ft8_qso_set_tx_enabled_def Let_def wave_kept_def qso_disarm_def ft8_tx_disarm_def)

lemma handle_decode_wave: "wave_kept q (handle_decode e d q)"
  unfolding handle_decode_def Let_def
  by (cases "q_state q")
     (simp_all add: go_idle_wave, simp_all add: progress_def msg_defs set_dx_def wave_kept_def)

lemma poll_until_arm_wave: "wave_kept q (poll_tx_end (poll_decodes e ds utc (poll_watchdog e q)))"
proof -
  have f: "wave_kept q' (fold (\<lambda>d q. if q_state q \<noteq> ST_IDLE then handle_decode e d q else q) xs q')" for xs q'
  proof (induction xs arbitrary: q')
    case (Cons x xs)
    show ?case
      using wave_kept_trans[OF handle_decode_wave Cons[of "handle_decode e x q'"]] Cons[of q'] by simp
  qed simp
  have 1: "wave_kept q (poll_watchdog e q)"
    by (simp add: poll_watchdog_def ft8_qso_set_tx_enabled_def Let_def wave_kept_def qso_disarm_def ft8_tx_disarm_def)
  have "wave_kept r (r\<lparr>q_last_utc := u, q_last_n := n\<rparr>)" for r u n by (simp add: wave_kept_def)
  from wave_kept_trans[OF this f] have 2: "wave_kept r (poll_decodes e ds utc r)" for r
    by (simp add: poll_decodes_def Let_def)
  have 3: "wave_kept r (poll_tx_end r)" for r
    by (simp add: poll_tx_end_def Let_def wave_kept_def go_idle_def qso_disarm_def ft8_tx_disarm_def)
  show ?thesis using wave_kept_trans[OF wave_kept_trans[OF 1 2] 3] .
qed

lemma poll_arm_wave:
  assumes "wave_inv q"
  shows "wave_inv (poll_arm e act q)"
proof -
  obtain t ok where t: "ft8_tx_prepare (e_encode e) (e_ft4 e) (q_pending_msg q) (e_tx_offset e) (q_tx q) = (t, ok)"
    by fastforce
  hence w: "if ok then t_wave t = Some (q_pending_msg q, e_tx_offset e, e_ft4 e) else \<not> t_have_wave t"
    by (auto simp: ft8_tx_prepare_def Let_def split: prod.splits if_splits)
  have a: "t_wave (ft8_tx_arm n f v r) = t_wave r" "t_have_wave (ft8_tx_arm n f v r) = t_have_wave r" for n f v r
    by (simp_all add: ft8_tx_arm_def)
  show ?thesis using assms w unfolding poll_arm_def t Let_def
    by (cases ok) (simp_all add: wave_inv_def a)
qed

lemma poll_arm_armed:
  assumes "wave_inv q" "qso_inv q" "\<not> t_armed (q_tx q)" "t_armed (q_tx (poll_arm e act q))"
  shows "\<exists>off ft4. t_wave (q_tx (poll_arm e act q)) = Some (q_pending_msg (poll_arm e act q), off, ft4)
    \<and> t_arm_even (q_tx (poll_arm e act q)) = q_tx_even (poll_arm e act q)"
proof -
  obtain t ok where t: "ft8_tx_prepare (e_encode e) (e_ft4 e) (q_pending_msg q) (e_tx_offset e) (q_tx q) = (t, ok)"
    by fastforce
  hence w: "t_armed t = t_armed (q_tx q)" "ok \<longrightarrow> t_wave t = Some (q_pending_msg q, e_tx_offset e, e_ft4 e)"
    by (auto simp: ft8_tx_prepare_def Let_def split: prod.splits if_splits)
  have n: "q_have_pending q \<longrightarrow> q_pending_msg q \<noteq> []" using assms(2) by (simp add: qso_inv_def)
  have a: "t_armed (ft8_tx_arm n f v r) \<longleftrightarrow> t_have_wave r \<or> t_armed r" "t_wave (ft8_tx_arm n f v r) = t_wave r"
    "t_have_wave r \<Longrightarrow> t_arm_even (ft8_tx_arm n f v r) = v" for n f v r
    by (auto simp: ft8_tx_arm_def)
  show ?thesis using assms(1,3,4) w n unfolding poll_arm_def t Let_def
    by (cases ok) (auto simp: wave_inv_def a split: if_splits)
qed

lemma qso_step_wave: "qso_step q q' \<Longrightarrow> wave_inv q \<Longrightarrow> wave_inv q'"
proof (induction rule: qso_step.induct)
  case (poll q e ds utc)
  show ?case
  proof (cases "q_state q = ST_IDLE")
    case True thus ?thesis using poll by (simp add: qso_poll_def wave_inv_def)
  next
    case False
    thus ?thesis using poll_arm_wave[OF wave_inv_kept[OF poll_until_arm_wave poll]] by (simp add: qso_poll_def Let_def)
  qed
next
  case (tick q now ft4 mox)
  have "wave_kept q (qso_tx_tick now ft4 mox q)"
    by (simp add: wave_kept_def qso_tx_tick_def tx_tick_def Let_def split: prod.split)
  thus ?case using tick wave_inv_kept by blast
next
  case (sample q) thus ?case by (simp add: wave_inv_def ft8_tx_next_sample_def)
next
  case (set_tx q en) thus ?case using wave_inv_kept[OF set_tx_wave] by blast
next
  case (halt q) thus ?case using wave_inv_kept[OF go_idle_wave] by (simp add: ft8_qso_halt_def)
next
  case (init q st dx f)
  have "q_prepared_msg (fold (worked_parse_line st dx) ls r) = q_prepared_msg r" for ls r
    by (induction ls arbitrary: r) (simp_all add: worked_parse_line_def Let_def split: option.split)
  hence "q_prepared_msg (worked_load st dx f q) = q_prepared_msg q" by (simp add: worked_load_def Let_def split: option.split)
  thus ?case using init worked_load_sel[of st dx f q] by (simp add: ft8_qso_init_def wave_inv_def)
next
  case (select q e idx)
  have r: "q_tx (select_reset r) = q_tx r" "q_prepared_msg (select_reset r) = []" for r by (simp_all add: select_reset_def)
  have "select_message i r = Some r' \<Longrightarrow> q_tx r' = q_tx r \<and> q_prepared_msg r' = q_prepared_msg r" for i r r'
    by (auto simp: select_message_def msg_defs split: if_splits)
  hence "wave_kept q (ft8_qso_select_tx e idx q)"
    unfolding ft8_qso_select_tx_def Let_def by (simp add: msg_defs wave_kept_def r split: option.split)
  thus ?case using select wave_inv_kept by blast
qed (simp_all add: wave_inv_def ft8_qso_start_cq_def ft8_qso_answer_def ft8_qso_set_auto_def ft8_qso_send_free_def
    msg_defs set_dx_def Let_def)

lemma qso_reachable_wave: "qso_reachable q \<Longrightarrow> wave_inv q"
proof (induction rule: qso_reachable.induct)
  case start show ?case by (simp add: wave_inv_def qso0_def ft8_tx0_def)
next
  case (step q q') thus ?case using qso_step_wave by blast
qed

text \<open>The message sent is the message shown: when a poll arms the idle scheduler,
the waveform it will send is that of the queued message and the slot parity is the one of
the sequence; a message the encoder refuses never leaves an older waveform armed.\<close>

theorem armed_waveform_is_queued_message:
  assumes "qso_reachable q" "\<not> t_armed (q_tx q)" "t_armed (q_tx (qso_poll e ds utc q))"
  shows "\<exists>off ft4. t_wave (q_tx (qso_poll e ds utc q)) = Some (ft8_qso_next_tx (qso_poll e ds utc q), off, ft4)
    \<and> t_arm_even (q_tx (qso_poll e ds utc q)) = q_tx_even (qso_poll e ds utc q)"
proof -
  have ni: "q_state q \<noteq> ST_IDLE" using assms(2,3) by (auto simp: qso_poll_def)
  let ?q = "poll_tx_end (poll_decodes e (take 64 ds) utc (poll_watchdog e q))"
  let ?act = "ft8_tx_active (q_tx (poll_decodes e (take 64 ds) utc (poll_watchdog e q)))"
  have p: "qso_poll e ds utc q = poll_arm e ?act ?q" using ni by (simp add: qso_poll_def Let_def)
  have k: "wave_kept q ?q" by (rule poll_until_arm_wave)
  have w: "wave_inv ?q" using wave_inv_kept[OF k] qso_reachable_wave[OF assms(1)] by blast
  have i: "qso_inv ?q" using qso_reachable_inv[OF assms(1)]
    by (simp add: poll_tx_end_inv poll_decodes_inv poll_watchdog_inv)
  have na: "\<not> t_armed (q_tx ?q)" using k assms(2) by (auto simp: wave_kept_def)
  have "q_have_pending (poll_arm e ?act ?q)"
    using na assms(3) unfolding p by (auto simp: poll_arm_def Let_def split: if_splits prod.splits)
  thus ?thesis using poll_arm_armed[OF w i na assms(3)[unfolded p]] unfolding p by (simp add: ft8_qso_next_tx_def)
qed

theorem armed_waveform_is_queued_message_witness:
  "\<exists>off ft4. t_wave (q_tx (qso_poll env0 [] [] calling)) = Some (ft8_qso_next_tx (qso_poll env0 [] [] calling), off, ft4)"
proof -
  have "t_armed (q_tx (qso_poll env0 [] [] calling))" "\<not> t_armed (q_tx calling)"
    by (simp_all add: calling_def ft8_qso_start_cq_def env0_def qso0_def ft8_tx0_def msg_cq_def cq_text_def sp_def
        set_pending_def qso_poll_def poll_watchdog_def poll_decodes_def poll_tx_end_def poll_arm_def Let_def
        ft8_tx_active_def TX_WATCHDOG_SEC_def ft8_tx_prepare_def encode_any_def ft8_tx_arm_def)
  thus ?thesis using armed_waveform_is_queued_message[OF calling_reachable] by blast
qed

text \<open>RR73 is taken for a locator: a station that sends RR73 to us while we call CQ is
answered with a report as if it had called, and its locator is recorded as RR73.\<close>

theorem rr73_taken_for_locator:
  assumes "to_me d q" "q_state q = ST_CALLING_CQ" "fd_extra d = ''RR73''"
  shows "q_dx_grid (handle_decode e d q) = ''RR73'' \<and> q_state (handle_decode e d q) = ST_CQ_SENT_REPORT"
  using cq_answered[OF assms(1,2)] assms(3) grids(3) by (simp add: progress_def Let_def)

theorem rr73_taken_for_locator_witness:
  "q_dx_grid (handle_decode env0 (heard ''G0ORX K1ABC RR73'' 0 ''120000'') calling) = ''RR73''"
proof -
  have d: "heard ''G0ORX K1ABC RR73'' 0 ''120000'' = \<lparr>fd_utc = ''120000'', fd_snr = 0, fd_call_to = ''G0ORX'',
      fd_call_de = ''K1ABC'', fd_extra = ''RR73''\<rparr>" by (simp add: heard_def Let_def)
  have "to_me (heard ''G0ORX K1ABC RR73'' 0 ''120000'') calling" "q_state calling = ST_CALLING_CQ"
    by (simp_all add: d to_me_def calling_def ft8_qso_start_cq_def env0_def qso0_def msg_cq_def set_pending_def)
  from rr73_taken_for_locator[OF this] show ?thesis by (simp add: d)
qed

text \<open>Answering a station does not restart the watchdog: when transmitting has been
enabled for more than six minutes at the next poll, that poll disables it, however
recently the operator picked a new station to call.\<close>

theorem answer_keeps_old_watchdog:
  assumes "q_tx_enabled q" "q_prev_txen q" "e_now e' - q_tx_enabled_since q > TX_WATCHDOG_SEC"
    "e_station_call e \<noteq> []" "e_station_grid e \<noteq> []" "fd_call_de d \<noteq> []"
  shows "\<not> q_tx_enabled (qso_poll e' [] [] (ft8_qso_answer e d q))"
proof -
  let ?a = "ft8_qso_answer e d q"
  have a: "q_tx_enabled ?a" "q_prev_txen ?a" "q_tx_enabled_since ?a = q_tx_enabled_since q" "q_state ?a = ST_ANS_SENT_GRID"
    using assms by (simp_all add: ft8_qso_answer_def set_dx_def msg_grid_def set_pending_def Let_def)
  have w: "\<not> q_tx_enabled (poll_watchdog e' ?a)"
    using a assms(3) by (simp add: poll_watchdog_def ft8_qso_set_tx_enabled_def Let_def)
  have "\<not> q_tx_enabled (poll_tx_end r)" if "\<not> q_tx_enabled r" for r
    using that by (simp add: poll_tx_end_def go_idle_def Let_def)
  thus ?thesis using a(4) w by (simp add: qso_poll_def Let_def poll_decodes_def poll_arm_def)
qed

theorem answer_keeps_old_watchdog_witness:
  "\<not> q_tx_enabled (qso_poll (env0\<lparr>e_now := 1361\<rparr>) [] []
     (ft8_qso_answer env0 (heard ''CQ K1ABC FN42'' 0 ''120000'') (calling\<lparr>q_prev_txen := True, q_tx_enabled_since := 1000\<rparr>)))"
  by (rule answer_keeps_old_watchdog)
     (simp_all add: calling_def ft8_qso_start_cq_def env0_def qso0_def msg_cq_def set_pending_def TX_WATCHDOG_SEC_def
       heard_def Let_def)

end
