(* ===== verification/Filters.thy ===== *)
theory Filters
  imports Radio Property_Store
begin

text \<open>The filter tables of \<open>src/core/filter.c\<close> (\<open>filter.h\<close>, and the mode
names of \<open>mode.c\<close>): one row of twelve filters per mode, of which the last two,
\<open>Var1\<close> and \<open>Var2\<close>, are the operator's and are kept in the settings.

A table is a list of rows in the order of the mode numbers. The settings are the store of
\<open>Property_Store\<close>.\<close>

section \<open>The tables\<close>

record filter_entry =
  fl_low :: int
  fl_high :: int
  fl_title :: string

definition F0 :: int where "F0 = 0"
definition F1 :: int where "F1 = 1"
definition F3 :: int where "F3 = 3"
definition F5 :: int where "F5 = 5"
definition F6 :: int where "F6 = 6"
definition FVar1 :: int where "FVar1 = 10"
definition FVar2 :: int where "FVar2 = 11"
definition FILTERS :: int where "FILTERS = 12"

lemmas filter_numbers = F0_def F1_def F3_def F5_def F6_def FVar1_def FVar2_def FILTERS_def

definition flt :: "int \<Rightarrow> int \<Rightarrow> string \<Rightarrow> filter_entry" where
  "flt low high title = \<lparr>fl_low = low, fl_high = high, fl_title = title\<rparr>"

definition filterLSB :: "filter_entry list" where
  "filterLSB =
    [flt (-5150) (-150) ''5.0k'', flt (-4550) (-150) ''4.4k'', flt (-3950) (-150) ''3.8k'',
     flt (-3450) (-150) ''3.3k'', flt (-3050) (-150) ''2.9k'', flt (-2850) (-150) ''2.7k'',
     flt (-2550) (-150) ''2.4k'', flt (-2250) (-150) ''2.1k'', flt (-1950) (-150) ''1.8k'',
     flt (-1150) (-150) ''1.0k'', flt (-2850) (-150) ''Var1'', flt (-2850) (-150) ''Var2'']"

definition filterDIGL :: "filter_entry list" where
  "filterDIGL =
    [flt (-5150) (-150) ''5.0k'', flt (-4550) (-150) ''4.4k'', flt (-3950) (-150) ''3.8k'',
     flt (-3450) (-150) ''3.3k'', flt (-3050) (-150) ''2.9k'', flt (-2850) (-150) ''2.7k'',
     flt (-2550) (-150) ''2.4k'', flt (-2250) (-150) ''2.1k'', flt (-1950) (-150) ''1.8k'',
     flt (-1150) (-150) ''1.0k'', flt (-2850) (-150) ''Var1'', flt (-2850) (-150) ''Var2'']"

definition filterUSB :: "filter_entry list" where
  "filterUSB =
    [flt 150 5150 ''5.0k'', flt 150 4550 ''4.4k'', flt 150 3950 ''3.8k'',
     flt 150 3450 ''3.3k'', flt 150 3050 ''2.9k'', flt 150 2850 ''2.7k'',
     flt 150 2550 ''2.4k'', flt 150 2250 ''2.1k'', flt 150 1950 ''1.8k'',
     flt 150 1150 ''1.0k'', flt 150 2850 ''Var1'', flt 150 2850 ''Var2'']"

definition filterDIGU :: "filter_entry list" where
  "filterDIGU =
    [flt 150 5150 ''5.0k'', flt 150 4550 ''4.4k'', flt 150 3950 ''3.8k'',
     flt 150 3450 ''3.3k'', flt 150 3050 ''2.9k'', flt 150 2850 ''2.7k'',
     flt 150 2550 ''2.4k'', flt 150 2250 ''2.1k'', flt 150 1950 ''1.8k'',
     flt 150 1150 ''1.0k'', flt 150 2850 ''Var1'', flt 150 2850 ''Var2'']"

definition filterCWL :: "filter_entry list" where
  "filterCWL =
    [flt 500 500 ''1.0k'', flt 400 400 ''800'', flt 375 375 ''750'', flt 300 300 ''600'',
     flt 250 250 ''500'', flt 200 200 ''400'', flt 100 100 ''200'', flt 50 50 ''100'',
     flt 25 25 ''50'', flt 13 13 ''25'', flt 250 250 ''Var1'', flt 250 250 ''Var2'']"

definition filterCWU :: "filter_entry list" where
  "filterCWU =
    [flt 500 500 ''1.0k'', flt 400 400 ''800'', flt 375 375 ''750'', flt 300 300 ''600'',
     flt 250 250 ''500'', flt 200 200 ''400'', flt 100 100 ''200'', flt 50 50 ''100'',
     flt 25 25 ''50'', flt 13 13 ''25'', flt 250 250 ''Var1'', flt 250 250 ''Var2'']"

definition filterAM :: "filter_entry list" where
  "filterAM =
    [flt (-8000) 8000 ''16k'', flt (-6000) 6000 ''12k'', flt (-5000) 5000 ''10k'',
     flt (-4000) 4000 ''8k'', flt (-3300) 3300 ''6.6k'', flt (-2600) 2600 ''5.2k'',
     flt (-2000) 2000 ''4.0k'', flt (-1550) 1550 ''3.1k'', flt (-1450) 1450 ''2.9k'',
     flt (-1200) 1200 ''2.4k'', flt (-3300) 3300 ''Var1'', flt (-3300) 3300 ''Var2'']"

definition filterSAM :: "filter_entry list" where
  "filterSAM =
    [flt (-8000) 8000 ''16k'', flt (-6000) 6000 ''12k'', flt (-5000) 5000 ''10k'',
     flt (-4000) 4000 ''8k'', flt (-3300) 3300 ''6.6k'', flt (-2600) 2600 ''5.2k'',
     flt (-2000) 2000 ''4.0k'', flt (-1550) 1550 ''3.1k'', flt (-1450) 1450 ''2.9k'',
     flt (-1200) 1200 ''2.4k'', flt (-3300) 3300 ''Var1'', flt (-3300) 3300 ''Var2'']"

definition filterFMN :: "filter_entry list" where
  "filterFMN =
    [flt (-8000) 8000 ''16k'', flt (-6000) 6000 ''12k'', flt (-5000) 5000 ''10k'',
     flt (-4000) 4000 ''8k'', flt (-3300) 3300 ''6.6k'', flt (-2600) 2600 ''5.2k'',
     flt (-2000) 2000 ''4.0k'', flt (-1550) 1550 ''3.1k'', flt (-1450) 1450 ''2.9k'',
     flt (-1200) 1200 ''2.4k'', flt (-3300) 3300 ''Var1'', flt (-3300) 3300 ''Var2'']"

definition filterDSB :: "filter_entry list" where
  "filterDSB =
    [flt (-8000) 8000 ''16k'', flt (-6000) 6000 ''12k'', flt (-5000) 5000 ''10k'',
     flt (-4000) 4000 ''8k'', flt (-3300) 3300 ''6.6k'', flt (-2600) 2600 ''5.2k'',
     flt (-2000) 2000 ''4.0k'', flt (-1550) 1550 ''3.1k'', flt (-1450) 1450 ''2.9k'',
     flt (-1200) 1200 ''2.4k'', flt (-3300) 3300 ''Var1'', flt (-3300) 3300 ''Var2'']"

definition filterSPEC :: "filter_entry list" where
  "filterSPEC =
    [flt (-8000) 8000 ''16k'', flt (-6000) 6000 ''12k'', flt (-5000) 5000 ''10k'',
     flt (-4000) 4000 ''8k'', flt (-3300) 3300 ''6.6k'', flt (-2600) 2600 ''5.2k'',
     flt (-2000) 2000 ''4.0k'', flt (-1550) 1550 ''3.1k'', flt (-1450) 1450 ''2.9k'',
     flt (-1200) 1200 ''2.4k'', flt (-3300) 3300 ''Var1'', flt (-3300) 3300 ''Var2'']"

definition filterDRM :: "filter_entry list" where
  "filterDRM =
    [flt (-8000) 8000 ''16k'', flt (-6000) 6000 ''12k'', flt (-5000) 5000 ''10k'',
     flt (-4000) 4000 ''8k'', flt (-3300) 3300 ''6.6k'', flt (-2600) 2600 ''5.2k'',
     flt (-2000) 2000 ''4.0k'', flt (-1550) 1550 ''3.1k'', flt (-1450) 1450 ''2.9k'',
     flt (-1200) 1200 ''2.4k'', flt (-3300) 3300 ''Var1'', flt (-3300) 3300 ''Var2'']"

definition filterWFM :: "filter_entry list" where
  "filterWFM =
    [flt (-90000) 90000 ''180k'', flt (-80000) 80000 ''160k'', flt (-70000) 70000 ''140k'',
     flt (-60000) 60000 ''120k'', flt (-50000) 50000 ''100k'', flt (-90000) 90000 ''180k'',
     flt (-80000) 80000 ''160k'', flt (-70000) 70000 ''140k'', flt (-60000) 60000 ''120k'',
     flt (-50000) 50000 ''100k'', flt (-90000) 90000 ''Var1'', flt (-90000) 90000 ''Var2'']"

lemmas filter_row_defs = filterLSB_def filterUSB_def filterDSB_def filterCWL_def filterCWU_def
  filterFMN_def filterAM_def filterDIGU_def filterSPEC_def filterDIGL_def filterSAM_def
  filterDRM_def filterWFM_def

type_synonym filter_table = "filter_entry list list"

definition filters0 :: filter_table where
  "filters0 = [filterLSB, filterUSB, filterDSB, filterCWL, filterCWU, filterFMN, filterAM,
     filterDIGU, filterSPEC, filterDIGL, filterSAM, filterDRM, filterWFM]"

definition mode_string :: "string list" where
  "mode_string = [''LSB'', ''USB'', ''DSB'', ''CWL'', ''CWU'', ''FMN'', ''AM'', ''DIGU'',
     ''SPEC'', ''DIGL'', ''SAM'', ''DRM'', ''WFM'']"

text \<open>\<open>filters[mode][filter]\<close>: \<open>None\<close> is a subscript outside the table.\<close>

definition filter_at :: "filter_table \<Rightarrow> int \<Rightarrow> int \<Rightarrow> filter_entry option" where
  "filter_at fs mode f =
     (if 0 \<le> mode \<and> nat mode < length fs \<and> 0 \<le> f \<and> nat f < length (fs ! nat mode)
      then Some (fs ! nat mode ! nat f) else None)"

definition filter_put :: "int \<Rightarrow> int \<Rightarrow> (filter_entry \<Rightarrow> filter_entry) \<Rightarrow> filter_table \<Rightarrow> filter_table" where
  "filter_put mode f g fs = fs[nat mode := (fs ! nat mode)[nat f := g (fs ! nat mode ! nat f)]]"

section \<open>The settings\<close>

text \<open>The name is cut at 15 characters by the buffer it is built in.\<close>

definition filter_var_key :: "int \<Rightarrow> int \<Rightarrow> string \<Rightarrow> string" where
  "filter_var_key mode var edge =
     ''filter.'' @ take 15 (map tolower_c (mode_string ! nat mode)) @ ''.var'' @
     fmt_d (if var = FVar1 then 1 else 2) @ ''.'' @ edge"

definition save_var :: "filter_table \<Rightarrow> int \<Rightarrow> int \<Rightarrow> props \<Rightarrow> props" where
  "save_var fs mode var p =
     (let p1 = setProperty (filter_var_key mode var ''low'') (fmt_d (fl_low (fs ! nat mode ! nat var))) p
      in setProperty (filter_var_key mode var ''high'') (fmt_d (fl_high (fs ! nat mode ! nat var))) p1)"

definition filterSaveState :: "filter_table \<Rightarrow> props \<Rightarrow> props" where
  "filterSaveState fs = fold (\<lambda>mode. fold (save_var fs mode) [FVar1 .. FVar2]) [0 .. MODES - 1]"

definition FILTER_EDGE_LIMIT_HZ :: int where "FILTER_EDGE_LIMIT_HZ = 192000"

definition filter_edge :: "string option \<Rightarrow> int \<Rightarrow> int" where
  "filter_edge v fallback =
     (case v of None \<Rightarrow> fallback
      | Some s \<Rightarrow>
          (let v1 = atoi s;
               v2 = (if v1 > FILTER_EDGE_LIMIT_HZ then FILTER_EDGE_LIMIT_HZ else v1)
           in if v2 < - FILTER_EDGE_LIMIT_HZ then - FILTER_EDGE_LIMIT_HZ else v2))"

definition restore_var :: "props \<Rightarrow> int \<Rightarrow> int \<Rightarrow> filter_table \<Rightarrow> filter_table" where
  "restore_var p mode var fs =
     (let fs1 = filter_put mode var
            (\<lambda>f. f\<lparr>fl_low := filter_edge (getProperty (filter_var_key mode var ''low'') p) (fl_low f)\<rparr>) fs
      in filter_put mode var
            (\<lambda>f. f\<lparr>fl_high := filter_edge (getProperty (filter_var_key mode var ''high'') p) (fl_high f)\<rparr>) fs1)"

definition filterRestoreState :: "props \<Rightarrow> filter_table \<Rightarrow> filter_table" where
  "filterRestoreState p = fold (\<lambda>mode. fold (restore_var p mode) [FVar1 .. FVar2]) [0 .. MODES - 1]"

section \<open>Saving and restoring\<close>

definition filters_ok :: "filter_table \<Rightarrow> bool" where
  "filters_ok fs \<longleftrightarrow> length fs = nat MODES \<and>
     (\<forall>row \<in> set fs. length row = nat FILTERS \<and>
        (\<forall>f \<in> set row. \<bar>fl_low f\<bar> \<le> FILTER_EDGE_LIMIT_HZ \<and> \<bar>fl_high f\<bar> \<le> FILTER_EDGE_LIMIT_HZ))"

lemma filters0_ok: "filters_ok filters0"
  by (simp add: filters_ok_def filters0_def filter_row_defs flt_def mode_defs filter_numbers FILTER_EDGE_LIMIT_HZ_def)

lemma filter_at_in_range:
  "filters_ok fs \<Longrightarrow> 0 \<le> m \<Longrightarrow> m < MODES \<Longrightarrow> 0 \<le> f \<Longrightarrow> f < FILTERS \<Longrightarrow> filter_at fs m f = Some (fs ! nat m ! nat f)"
  by (auto simp: filters_ok_def filter_at_def)

lemma filter_edge_limit: "\<bar>fallback\<bar> \<le> FILTER_EDGE_LIMIT_HZ \<Longrightarrow> \<bar>filter_edge v fallback\<bar> \<le> FILTER_EDGE_LIMIT_HZ"
  by (auto simp: filter_edge_def Let_def FILTER_EDGE_LIMIT_HZ_def split: option.split)

lemma filter_put_ok:
  assumes "filters_ok fs"
    and "\<And>f. \<bar>fl_low f\<bar> \<le> FILTER_EDGE_LIMIT_HZ \<Longrightarrow> \<bar>fl_high f\<bar> \<le> FILTER_EDGE_LIMIT_HZ \<Longrightarrow>
           \<bar>fl_low (g f)\<bar> \<le> FILTER_EDGE_LIMIT_HZ \<and> \<bar>fl_high (g f)\<bar> \<le> FILTER_EDGE_LIMIT_HZ"
  shows "filters_ok (filter_put m i g fs)"
proof -
  have row: "length row = nat FILTERS \<and> (\<forall>f \<in> set row. \<bar>fl_low f\<bar> \<le> FILTER_EDGE_LIMIT_HZ \<and> \<bar>fl_high f\<bar> \<le> FILTER_EDGE_LIMIT_HZ)"
    if "row \<in> set fs" for row using assms(1) that by (auto simp: filters_ok_def)
  have "length r = nat FILTERS \<and> (\<forall>f \<in> set r. \<bar>fl_low f\<bar> \<le> FILTER_EDGE_LIMIT_HZ \<and> \<bar>fl_high f\<bar> \<le> FILTER_EDGE_LIMIT_HZ)"
    if r: "r \<in> set (filter_put m i g fs)" for r
  proof (cases "nat m < length fs \<and> r = (fs ! nat m)[nat i := g (fs ! nat m ! nat i)]")
    case True
    have o: "fs ! nat m \<in> set fs" using True by simp
    have "f \<in> set (fs ! nat m) \<or> (nat i < length (fs ! nat m) \<and> f = g (fs ! nat m ! nat i))" if "f \<in> set r" for f
      using True that by (cases "nat i < length (fs ! nat m)") (auto simp: set_update_subset_insert [THEN subsetD] list_update_beyond dest!: set_update_subset_insert [THEN subsetD])
    thus ?thesis using row[OF o] assms(2) True nth_mem by (metis length_list_update)
  next
    case False
    thus ?thesis using r row by (cases "nat m < length fs") (auto simp: filter_put_def list_update_beyond dest!: set_update_subset_insert [THEN subsetD])
  qed
  thus ?thesis using assms(1) by (auto simp: filters_ok_def filter_put_def)
qed

lemma restore_var_ok: "filters_ok fs \<Longrightarrow> filters_ok (restore_var p mode var fs)"
  unfolding restore_var_def Let_def by (intro filter_put_ok) (auto intro: filter_edge_limit)

text \<open>Whatever the settings file says, a restored table still has one row of twelve
filters per mode and no edge beyond 192 kHz.\<close>

theorem restored_filters_well_formed: "filters_ok fs \<Longrightarrow> filters_ok (filterRestoreState p fs)"
  unfolding filterRestoreState_def by (intro fold_invariant[where P = filters_ok] restore_var_ok)

theorem restored_filters_well_formed_witness:
  "filters_ok (filterRestoreState (setProperty ''filter.usb.var1.low'' ''-9999999'' props0) filters0)"
  by (rule restored_filters_well_formed[OF filters0_ok])

text \<open>The names of the settings are all different.\<close>

lemma mode_names:
  assumes "0 \<le> m" "m < MODES"
  shows "CHR ''.'' \<notin> set (take 15 (map tolower_c (mode_string ! nat m)))"
proof -
  have "\<forall>i \<in> {0 ..< 13}. CHR ''.'' \<notin> set (take 15 (map tolower_c (mode_string ! i)))" by code_simp
  thus ?thesis using assms by (auto simp: mode_defs)
qed

lemma mode_names_inj:
  assumes "0 \<le> m" "m < MODES" "0 \<le> n" "n < MODES"
    "take 15 (map tolower_c (mode_string ! nat m)) = take 15 (map tolower_c (mode_string ! nat n))"
  shows "m = n"
proof -
  let ?l = "map (\<lambda>s. take 15 (map tolower_c s)) mode_string"
  have "distinct ?l" by code_simp
  moreover have l: "length mode_string = 13" by (simp add: mode_string_def)
  ultimately have "nat m = nat n" using assms nth_eq_iff_index_eq[of ?l "nat m" "nat n"] by (simp add: mode_defs)
  thus ?thesis using assms by simp
qed

lemma filter_var_key_inj:
  assumes "0 \<le> m" "m < MODES" "0 \<le> n" "n < MODES" "v \<in> {FVar1, FVar2}" "w \<in> {FVar1, FVar2}"
    "filter_var_key m v e = filter_var_key n w e'"
  shows "m = n \<and> v = w \<and> e = e'"
proof -
  have d: "fmt_d 1 = ''1''" "fmt_d 2 = ''2''" by code_simp+
  have "take 15 (map tolower_c (mode_string ! nat m)) = take 15 (map tolower_c (mode_string ! nat n)) \<and> v = w \<and> e = e'"
    using assms(5-7) append_sep_inject[OF mode_names mode_names] assms(1-4)
    by (auto simp: filter_var_key_def d filter_numbers)
  thus ?thesis using mode_names_inj assms(1-4) by blast
qed

definition var_items :: "filter_table \<Rightarrow> int \<Rightarrow> int \<Rightarrow> (string \<times> string) list" where
  "var_items fs mode var =
     [(filter_var_key mode var ''low'', fmt_d (fl_low (fs ! nat mode ! nat var))),
      (filter_var_key mode var ''high'', fmt_d (fl_high (fs ! nat mode ! nat var)))]"

lemma filterSaveState_put_all:
  "filterSaveState fs p = store.put_all
     (concat (map (\<lambda>mode. concat (map (var_items fs mode) [FVar1 .. FVar2])) [0 .. MODES - 1])) p"
proof -
  have "save_var fs mode var = store.put_all (var_items fs mode var)" for mode var
    by (rule ext) (simp add: save_var_def var_items_def Let_def store.put_all_two)
  hence "save_var fs = (\<lambda>mode var. store.put_all (var_items fs mode var))" by (intro ext) simp
  hence "fold (save_var fs mode) [FVar1 .. FVar2] = store.put_all (concat (map (var_items fs mode) [FVar1 .. FVar2]))" for mode
    by (intro ext) (simp add: store.put_all_concat)
  thus ?thesis unfolding filterSaveState_def by (simp add: store.put_all_concat)
qed

lemma var_numbers: "{FVar1 .. FVar2} = {FVar1, FVar2}"
  by (auto simp: filter_numbers)

lemma var_items_mem:
  "((k, x) \<in> set (concat (map (\<lambda>mode. concat (map (var_items fs mode) [FVar1 .. FVar2])) [0 .. MODES - 1])))
   = (\<exists>m v. 0 \<le> m \<and> m < MODES \<and> v \<in> {FVar1, FVar2} \<and> (k, x) \<in> set (var_items fs m v))"
  by (auto simp: var_numbers Bex_def)

lemma var_items_functional:
  assumes "0 \<le> m" "m < MODES" "v \<in> {FVar1, FVar2}" "(k, x) \<in> set (var_items fs m v)"
    "0 \<le> n" "n < MODES" "w \<in> {FVar1, FVar2}" "(k, y) \<in> set (var_items fs n w)"
  shows "y = x"
  using assms(4,8) filter_var_key_inj[OF assms(1,2,5,6,3,7)]
  by (auto simp: var_items_def)

lemma saved_item:
  assumes "0 \<le> m" "m < MODES" "v \<in> {FVar1, FVar2}" "(k, x) \<in> set (var_items fs m v)"
  shows "getProperty k (filterSaveState fs p) = Some x"
  unfolding filterSaveState_put_all
  using assms var_items_functional[OF assms] by (intro store.get_put_all_only) (unfold var_items_mem, blast+)

lemma saved_var:
  assumes "0 \<le> m" "m < MODES" "v \<in> {FVar1, FVar2}"
  shows "getProperty (filter_var_key m v ''low'') (filterSaveState fs p) = Some (fmt_d (fl_low (fs ! nat m ! nat v)))"
    and "getProperty (filter_var_key m v ''high'') (filterSaveState fs p) = Some (fmt_d (fl_high (fs ! nat m ! nat v)))"
  using saved_item[OF assms] by (simp_all add: var_items_def)

lemma filter_at_put:
  "0 \<le> m \<Longrightarrow> 0 \<le> f \<Longrightarrow> filter_at (filter_put m f g fs) m' f' =
     (if m = m' \<and> f = f' then map_option g (filter_at fs m f) else filter_at fs m' f')"
  by (cases "nat m < length fs"; cases "nat m' < length fs")
     (auto simp: filter_at_def filter_put_def nth_list_update)

definition restored :: "props \<Rightarrow> int \<Rightarrow> int \<Rightarrow> filter_entry \<Rightarrow> filter_entry" where
  "restored p mode var f =
     f\<lparr>fl_low := filter_edge (getProperty (filter_var_key mode var ''low'') p) (fl_low f),
       fl_high := filter_edge (getProperty (filter_var_key mode var ''high'') p) (fl_high f)\<rparr>"

lemma filter_at_restore_var:
  "0 \<le> m \<Longrightarrow> 0 \<le> v \<Longrightarrow> filter_at (restore_var p m v fs) m' v' =
     (if m = m' \<and> v = v' then map_option (restored p m v) (filter_at fs m v) else filter_at fs m' v')"
  by (cases "filter_at fs m v") (auto simp: restore_var_def Let_def filter_at_put restored_def)

lemma filter_at_restore_vars:
  "distinct vs \<Longrightarrow> 0 \<le> m \<Longrightarrow> \<forall>v \<in> set vs. 0 \<le> v \<Longrightarrow>
   filter_at (fold (restore_var p m) vs fs) m' v' =
     (if m = m' \<and> v' \<in> set vs then map_option (restored p m v') (filter_at fs m v') else filter_at fs m' v')"
  by (induction vs arbitrary: fs) (auto simp: filter_at_restore_var)

lemma filter_at_restore_modes:
  "distinct ms \<Longrightarrow> distinct vs \<Longrightarrow> \<forall>m \<in> set ms. 0 \<le> m \<Longrightarrow> \<forall>v \<in> set vs. 0 \<le> v \<Longrightarrow>
   filter_at (fold (\<lambda>m. fold (restore_var p m) vs) ms fs) m' v' =
     (if m' \<in> set ms \<and> v' \<in> set vs then map_option (restored p m' v') (filter_at fs m' v') else filter_at fs m' v')"
  by (induction ms arbitrary: fs) (auto simp: filter_at_restore_vars)

lemma filter_at_restored:
  "filter_at (filterRestoreState p fs) m v =
     (if 0 \<le> m \<and> m < MODES \<and> v \<in> {FVar1, FVar2} then map_option (restored p m v) (filter_at fs m v)
      else filter_at fs m v)"
  unfolding filterRestoreState_def
  by (subst filter_at_restore_modes) (auto simp: filter_numbers mode_defs)

lemma filter_edge_fmt: "\<bar>x\<bar> \<le> FILTER_EDGE_LIMIT_HZ \<Longrightarrow> filter_edge (Some (fmt_d x)) y = x"
  by (auto simp: filter_edge_def Let_def)

text \<open>Saving and restoring the filters: whatever tables the program starts with, the
two operator filters of every mode come back with the edges that were saved, and the rest
of the table is as it was.\<close>

theorem saved_filters_load_back:
  assumes "filters_ok fs" "filters_ok gs" "0 \<le> m" "m < MODES" "0 \<le> v" "v < FILTERS"
  shows "filter_at (filterRestoreState (filterSaveState fs p) gs) m v =
           (if v = FVar1 \<or> v = FVar2
            then Some ((gs ! nat m ! nat v)\<lparr>fl_low := fl_low (fs ! nat m ! nat v),
                                             fl_high := fl_high (fs ! nat m ! nat v)\<rparr>)
            else filter_at gs m v)"
proof (cases "v = FVar1 \<or> v = FVar2")
  case True
  have v: "v \<in> {FVar1, FVar2}" using True by simp
  have r: "nat m < length fs" "nat v < length (fs ! nat m)"
    using assms by (auto simp: filters_ok_def)
  have "fs ! nat m ! nat v \<in> set (fs ! nat m)" "fs ! nat m \<in> set fs" using r by auto
  hence b: "\<bar>fl_low (fs ! nat m ! nat v)\<bar> \<le> FILTER_EDGE_LIMIT_HZ" "\<bar>fl_high (fs ! nat m ! nat v)\<bar> \<le> FILTER_EDGE_LIMIT_HZ"
    using assms(1) by (auto simp: filters_ok_def)
  have "filter_at gs m v = Some (gs ! nat m ! nat v)" using assms by (intro filter_at_in_range)
  thus ?thesis using assms(3,4) v saved_var[OF assms(3,4) v]
    by (simp add: filter_at_restored restored_def filter_edge_fmt[OF b(1)] filter_edge_fmt[OF b(2)])
qed (simp add: filter_at_restored)

definition filters_wide :: filter_table where
  "filters_wide = filter_put USB FVar1 (\<lambda>f. f\<lparr>fl_low := 50, fl_high := 6000\<rparr>) filters0"

theorem saved_filters_load_back_witness:
  "filter_at (filterRestoreState (filterSaveState filters_wide props0) filters0) USB FVar1 =
     Some \<lparr>fl_low = 50, fl_high = 6000, fl_title = ''Var1''\<rparr> \<and>
   filter_at (filterRestoreState (filterSaveState filters_wide props0) filters0) USB F5 =
     Some \<lparr>fl_low = 150, fl_high = 2850, fl_title = ''2.7k''\<rparr>"
proof -
  have ok: "filters_ok filters_wide"
    unfolding filters_wide_def by (intro filter_put_ok filters0_ok) (simp add: FILTER_EDGE_LIMIT_HZ_def)
  show ?thesis
    using saved_filters_load_back[OF ok filters0_ok, of USB FVar1 props0]
      saved_filters_load_back[OF ok filters0_ok, of USB F5 props0]
    by (simp add: mode_defs filter_numbers filters_wide_def filter_put_def filter_at_def filters0_def
        filter_row_defs flt_def)
qed

end
