(* ===== verification/Bands.thy ===== *)
theory Bands
  imports Filters
begin

text \<open>The band plan of \<open>src/core/band.c\<close> (\<open>band.h\<close>, \<open>bandstack.h\<close>):
the built-in bands and band stacks, the eight transverter slots, which band a frequency
belongs to, stepping through bands and stack entries, the open collector outputs of the
filter boards, and the settings they are kept in.

The tables are those of a build with \<open>SOAPYSDR\<close>, the default of the Makefile. A
\<open>BANDSTACK\<close> is part of its \<open>BAND\<close> here: \<open>bd_entry\<close> is the array, whose
length is fixed, \<open>bd_entries\<close> the count of entries in use. \<open>bands\<close> is the
field \<open>r_bands\<close> of the radio where an operation reads the rest of the radio, a
list of bands otherwise.\<close>

section \<open>Band numbers\<close>

definition band160 :: int where "band160 = 2"
definition band80 :: int where "band80 = 3"
definition band60 :: int where "band60 = 4"
definition band40 :: int where "band40 = 5"
definition band30 :: int where "band30 = 6"
definition band20 :: int where "band20 = 7"
definition band17 :: int where "band17 = 8"
definition band15 :: int where "band15 = 9"
definition band12 :: int where "band12 = 10"
definition band10 :: int where "band10 = 11"
definition band6 :: int where "band6 = 12"
definition bandGen :: int where "bandGen = 13"
definition bandWWV :: int where "bandWWV = 14"
definition band70 :: int where "band70 = 15"
definition bandAIR :: int where "bandAIR = 23"
definition BANDS :: int where "BANDS = 24"
definition XVTRS :: int where "XVTRS = 8"

lemmas band_numbers = band160_def band80_def band60_def band40_def band30_def band20_def band17_def
  band15_def band12_def band10_def band6_def bandGen_def bandWWV_def band70_def bandAIR_def
  BANDS_def XVTRS_def

section \<open>Band stacks\<close>

definition bse :: "int \<Rightarrow> int \<Rightarrow> int \<Rightarrow> int \<Rightarrow> int \<Rightarrow> int \<Rightarrow> int \<Rightarrow> bandstack_entry" where
  "bse f m fi l1 h1 l2 h2 =
     \<lparr>be_frequency = f, be_mode = m, be_filter = fi, be_var1Low = l1, be_var1High = h1,
      be_var2Low = l2, be_var2High = h2\<rparr>"

type_synonym bandstack = "int \<times> int \<times> bandstack_entry list"

definition bandstack_entries2200 :: "bandstack_entry list" where
  "bandstack_entries2200 =
    [bse 135800 CWL F6 (-2800) (-200) (-2800) (-200),
     bse 137100 CWL F6 (-2800) (-200) (-2800) (-200)]"

definition bandstack_entries630 :: "bandstack_entry list" where
  "bandstack_entries630 =
    [bse 472100 CWL F6 (-2800) (-200) (-2800) (-200),
     bse 475100 CWL F6 (-2800) (-200) (-2800) (-200)]"

definition bandstack_entries160 :: "bandstack_entry list" where
  "bandstack_entries160 =
    [bse 1810000 CWL F6 (-2800) (-200) (-2800) (-200),
     bse 1835000 CWU F6 (-2800) (-200) (-2800) (-200),
     bse 1845000 USB F5 (-2800) (-200) (-2800) (-200)]"

definition bandstack_entries80 :: "bandstack_entry list" where
  "bandstack_entries80 =
    [bse 3501000 CWL F6 (-2800) (-200) (-2800) (-200),
     bse 3751000 LSB F5 (-2800) (-200) (-2800) (-200),
     bse 3850000 LSB F5 (-2800) (-200) (-2800) (-200)]"

definition bandstack_entries60_OTHER :: "bandstack_entry list" where
  "bandstack_entries60_OTHER =
    [bse 5332000 USB F5 (-2800) (-200) (-2800) (-200),
     bse 5348000 USB F5 (-2800) (-200) (-2800) (-200),
     bse 5358500 USB F5 (-2800) (-200) (-2800) (-200),
     bse 5373000 USB F5 (-2800) (-200) (-2800) (-200),
     bse 5405000 USB F5 (-2800) (-200) (-2800) (-200)]"

definition bandstack_entries60_UK :: "bandstack_entry list" where
  "bandstack_entries60_UK =
    [bse 5261250 USB F5 (-2800) (-200) (-2800) (-200),
     bse 5280000 USB F5 (-2800) (-200) (-2800) (-200),
     bse 5290250 USB F5 (-2800) (-200) (-2800) (-200),
     bse 5302500 USB F5 (-2800) (-200) (-2800) (-200),
     bse 5318000 USB F5 (-2800) (-200) (-2800) (-200),
     bse 5335500 USB F5 (-2800) (-200) (-2800) (-200),
     bse 5356000 USB F5 (-2800) (-200) (-2800) (-200),
     bse 5368250 USB F5 (-2800) (-200) (-2800) (-200),
     bse 5380000 USB F5 (-2800) (-200) (-2800) (-200),
     bse 5398250 USB F5 (-2800) (-200) (-2800) (-200),
     bse 5405000 USB F5 (-2800) (-200) (-2800) (-200)]"

definition bandstack_entries40 :: "bandstack_entry list" where
  "bandstack_entries40 =
    [bse 7001000 CWL F6 (-2800) (-200) (-2800) (-200),
     bse 7152000 LSB F5 (-2800) (-200) (-2800) (-200),
     bse 7255000 LSB F5 (-2800) (-200) (-2800) (-200)]"

definition bandstack_entries30 :: "bandstack_entry list" where
  "bandstack_entries30 =
    [bse 10120000 CWU F6 200 2800 200 2800,
     bse 10130000 CWU F6 200 2800 200 2800,
     bse 10140000 CWU F6 200 2800 200 2800]"

definition bandstack_entries20 :: "bandstack_entry list" where
  "bandstack_entries20 =
    [bse 14010000 CWU F6 200 2800 200 2800,
     bse 14150000 USB F5 200 2800 200 2800,
     bse 14230000 USB F5 200 2800 200 2800,
     bse 14336000 USB F5 200 2800 200 2800]"

definition bandstack_entries17 :: "bandstack_entry list" where
  "bandstack_entries17 =
    [bse 18068600 CWU F6 200 2800 200 2800,
     bse 18125000 USB F5 200 2800 200 2800,
     bse 18140000 USB F5 200 2800 200 2800]"

definition bandstack_entries15 :: "bandstack_entry list" where
  "bandstack_entries15 =
    [bse 21001000 CWU F6 200 2800 200 2800,
     bse 21255000 USB F5 200 2800 200 2800,
     bse 21300000 USB F5 200 2800 200 2800]"

definition bandstack_entries12 :: "bandstack_entry list" where
  "bandstack_entries12 =
    [bse 24895000 CWU F6 200 2800 200 2800,
     bse 24900000 USB F5 200 2800 200 2800,
     bse 24910000 USB F5 200 2800 200 2800]"

definition bandstack_entries10 :: "bandstack_entry list" where
  "bandstack_entries10 =
    [bse 28010000 CWU F6 200 2800 200 2800,
     bse 28300000 USB F5 200 2800 200 2800,
     bse 28400000 USB F5 200 2800 200 2800]"

definition bandstack_entries6 :: "bandstack_entry list" where
  "bandstack_entries6 =
    [bse 50010000 CWU F6 200 2800 200 2800,
     bse 50125000 USB F5 200 2800 200 2800,
     bse 50200000 USB F5 200 2800 200 2800]"

definition bandstack_entries70 :: "bandstack_entry list" where
  "bandstack_entries70 =
    [bse 70010000 CWU F6 200 2800 200 2800,
     bse 70200000 USB F5 200 2800 200 2800,
     bse 70250000 USB F5 200 2800 200 2800]"

definition bandstack_entries144 :: "bandstack_entry list" where
  "bandstack_entries144 =
    [bse 144010000 CWU F6 200 2800 200 2800,
     bse 144200000 USB F5 200 2800 200 2800,
     bse 144250000 USB F5 200 2800 200 2800,
     bse 145600000 FMN F1 200 2800 200 2800,
     bse 145725000 FMN F1 200 2800 200 2800,
     bse 145900000 FMN F1 200 2800 200 2800]"

definition bandstack_entries220 :: "bandstack_entry list" where
  "bandstack_entries220 =
    [bse 220010000 CWU F6 200 2800 200 2800,
     bse 220200000 USB F5 200 2800 200 2800,
     bse 220250000 USB F5 200 2800 200 2800]"

definition bandstack_entries430 :: "bandstack_entry list" where
  "bandstack_entries430 =
    [bse 430010000 CWU F6 200 2800 200 2800,
     bse 432100000 USB F5 200 2800 200 2800,
     bse 432300000 USB F5 200 2800 200 2800]"

definition bandstack_entries902 :: "bandstack_entry list" where
  "bandstack_entries902 =
    [bse 902010000 CWU F6 200 2800 200 2800,
     bse 902100000 USB F5 200 2800 200 2800,
     bse 902300000 USB F5 200 2800 200 2800]"

definition bandstack_entries1240 :: "bandstack_entry list" where
  "bandstack_entries1240 =
    [bse 1240010000 CWU F6 200 2800 200 2800,
     bse 1240100000 USB F5 200 2800 200 2800,
     bse 1240300000 USB F5 200 2800 200 2800]"

definition bandstack_entries2300 :: "bandstack_entry list" where
  "bandstack_entries2300 =
    [bse 2300010000 CWU F6 200 2800 200 2800,
     bse 2300100000 USB F5 200 2800 200 2800,
     bse 2300300000 USB F5 200 2800 200 2800]"

definition bandstack_entries3400 :: "bandstack_entry list" where
  "bandstack_entries3400 =
    [bse 3400010000 CWU F6 200 2800 200 2800,
     bse 3400100000 USB F5 200 2800 200 2800,
     bse 3400300000 USB F5 200 2800 200 2800]"

definition bandstack_entriesAIR :: "bandstack_entry list" where
  "bandstack_entriesAIR =
    [bse 118800000 AM F3 200 2800 200 2800,
     bse 120000000 AM F3 200 2800 200 2800,
     bse 121700000 AM F3 200 2800 200 2800,
     bse 124100000 AM F3 200 2800 200 2800,
     bse 126600000 AM F3 200 2800 200 2800,
     bse 136500000 AM F3 200 2800 200 2800]"

definition bandstack_entriesGEN :: "bandstack_entry list" where
  "bandstack_entriesGEN =
    [bse 909000 AM F3 (-6000) 6000 (-6000) 60000,
     bse 5975000 AM F3 (-6000) 6000 (-6000) 60000,
     bse 13845000 AM F3 (-6000) 6000 (-6000) 60000]"

definition bandstack_entriesWWV :: "bandstack_entry list" where
  "bandstack_entriesWWV =
    [bse 2500000 SAM F3 200 2800 200 2800,
     bse 5000000 SAM F3 200 2800 200 2800,
     bse 10000000 SAM F3 200 2800 200 2800,
     bse 15000000 SAM F3 200 2800 200 2800,
     bse 20000000 SAM F3 200 2800 200 2800]"

definition bandstack_entries_xvtr :: "bandstack_entry list" where
  "bandstack_entries_xvtr =
    [bse 0 USB F6 150 2550 150 2550,
     bse 0 USB F6 150 2550 150 2550,
     bse 0 USB F6 150 2550 150 2550]"

definition bandstack2200 :: bandstack where
  "bandstack2200 = (2, 0, bandstack_entries2200)"

definition bandstack630 :: bandstack where
  "bandstack630 = (2, 0, bandstack_entries630)"

definition bandstack160 :: bandstack where
  "bandstack160 = (3, 1, bandstack_entries160)"

definition bandstack80 :: bandstack where
  "bandstack80 = (3, 1, bandstack_entries80)"

definition bandstack60 :: bandstack where
  "bandstack60 = (11, 1, bandstack_entries60_UK)"

definition bandstack40 :: bandstack where
  "bandstack40 = (3, 1, bandstack_entries40)"

definition bandstack30 :: bandstack where
  "bandstack30 = (3, 1, bandstack_entries30)"

definition bandstack20 :: bandstack where
  "bandstack20 = (4, 1, bandstack_entries20)"

definition bandstack17 :: bandstack where
  "bandstack17 = (3, 1, bandstack_entries17)"

definition bandstack15 :: bandstack where
  "bandstack15 = (3, 1, bandstack_entries15)"

definition bandstack12 :: bandstack where
  "bandstack12 = (3, 1, bandstack_entries12)"

definition bandstack10 :: bandstack where
  "bandstack10 = (3, 1, bandstack_entries10)"

definition bandstack6 :: bandstack where
  "bandstack6 = (3, 1, bandstack_entries6)"

definition bandstack70 :: bandstack where
  "bandstack70 = (3, 1, bandstack_entries70)"

definition bandstack144 :: bandstack where
  "bandstack144 = (6, 1, bandstack_entries144)"

definition bandstack220 :: bandstack where
  "bandstack220 = (3, 1, bandstack_entries220)"

definition bandstack430 :: bandstack where
  "bandstack430 = (3, 1, bandstack_entries430)"

definition bandstack902 :: bandstack where
  "bandstack902 = (3, 1, bandstack_entries902)"

definition bandstack1240 :: bandstack where
  "bandstack1240 = (3, 1, bandstack_entries1240)"

definition bandstack2300 :: bandstack where
  "bandstack2300 = (3, 1, bandstack_entries2300)"

definition bandstack3400 :: bandstack where
  "bandstack3400 = (3, 1, bandstack_entries3400)"

definition bandstackAIR :: bandstack where
  "bandstackAIR = (6, 1, bandstack_entriesAIR)"

definition bandstackWWV :: bandstack where
  "bandstackWWV = (5, 1, bandstack_entriesWWV)"

definition bandstackGEN :: bandstack where
  "bandstackGEN = (3, 1, bandstack_entriesGEN)"

definition bandstack_xvtr :: bandstack where
  "bandstack_xvtr = (3, 0, bandstack_entries_xvtr)"

lemmas bandstack_entries_defs =
  bandstack_entries2200_def bandstack_entries630_def bandstack_entries160_def
  bandstack_entries80_def bandstack_entries60_OTHER_def bandstack_entries60_UK_def
  bandstack_entries40_def bandstack_entries30_def bandstack_entries20_def
  bandstack_entries17_def bandstack_entries15_def bandstack_entries12_def
  bandstack_entries10_def bandstack_entries6_def bandstack_entries70_def
  bandstack_entries144_def bandstack_entries220_def bandstack_entries430_def
  bandstack_entries902_def bandstack_entries1240_def bandstack_entries2300_def
  bandstack_entries3400_def bandstack_entriesAIR_def bandstack_entriesGEN_def
  bandstack_entriesWWV_def bandstack_entries_xvtr_def

lemmas bandstack_defs =
  bandstack2200_def bandstack630_def bandstack160_def bandstack80_def bandstack60_def
  bandstack40_def bandstack30_def bandstack20_def bandstack17_def bandstack15_def
  bandstack12_def bandstack10_def bandstack6_def bandstack70_def bandstack144_def
  bandstack220_def bandstack430_def bandstack902_def bandstack1240_def bandstack2300_def
  bandstack3400_def bandstackAIR_def bandstackWWV_def bandstackGEN_def bandstack_xvtr_def

section \<open>Bands\<close>

definition ALEX_ATTENUATION_0dB :: int where "ALEX_ATTENUATION_0dB = 0"

definition bnd :: "string \<Rightarrow> bandstack \<Rightarrow> int \<Rightarrow> int \<Rightarrow> int \<Rightarrow> int \<Rightarrow> bool \<Rightarrow> band" where
  "bnd title stack fmin fmax lo err nopa =
     (case stack of (n, cur, es) \<Rightarrow>
      \<lparr>bd_title = title, bd_entry = es, bd_entries = n, bd_current_entry = cur,
       bd_OCrx = 0, bd_OCtx = 0, bd_preamp = 0, bd_alexRxAntenna = 0, bd_alexTxAntenna = 0,
       bd_alexAttenuation = ALEX_ATTENUATION_0dB, bd_pa_calibration = 53,
       bd_frequencyMin = fmin, bd_frequencyMax = fmax, bd_frequencyLO = lo, bd_errorLO = err,
       bd_disablePA = nopa, bd_panadapter_low = - 140, bd_panadapter_high = - 60,
       bd_panadapter_step = 20, bd_waterfall_low = - 145, bd_waterfall_high = - 65,
       bd_waterfall_automatic = True\<rparr>)"

definition bands0 :: "band list" where
  "bands0 =
    [bnd ''2200'' bandstack2200 135700 137800 0 0 False,
     bnd ''630'' bandstack630 472000 479000 0 0 False,
     bnd ''160'' bandstack160 1810000 2000000 0 0 False,
     bnd ''80'' bandstack80 3500000 4000000 0 0 False,
     bnd ''60'' bandstack60 5258500 5403500 0 0 False,
     bnd ''40'' bandstack40 7000000 7300000 0 0 False,
     bnd ''30'' bandstack30 10100000 10150000 0 0 False,
     bnd ''20'' bandstack20 14000000 14350000 0 0 False,
     bnd ''17'' bandstack17 18068000 18168000 0 0 False,
     bnd ''15'' bandstack15 21000000 21450000 0 0 False,
     bnd ''12'' bandstack12 24890000 24990000 0 0 False,
     bnd ''10'' bandstack10 28000000 29700000 0 0 False,
     bnd ''6'' bandstack6 50000000 54000000 0 0 False,
     bnd ''GEN'' bandstackGEN 0 0 0 0 True,
     bnd ''WWV'' bandstackWWV 0 0 0 0 True,
     bnd ''70'' bandstack70 70000000 70500000 0 0 False,
     bnd ''144'' bandstack144 144000000 148000000 0 0 False,
     bnd ''220'' bandstack220 222000000 224980000 0 0 False,
     bnd ''430'' bandstack430 420000000 450000000 0 0 False,
     bnd ''902'' bandstack902 902000000 928000000 0 0 False,
     bnd ''1240'' bandstack1240 1240000000 1300000000 0 0 False,
     bnd ''2300'' bandstack2300 2300000000 2450000000 0 0 False,
     bnd ''3400'' bandstack3400 3400000000 3410000000 0 0 False,
     bnd ''AIR'' bandstackAIR 108000000 137000000 0 0 False,
     bnd '''' bandstack_xvtr 0 0 0 0 False,
     bnd '''' bandstack_xvtr 0 0 0 0 False,
     bnd '''' bandstack_xvtr 0 0 0 0 False,
     bnd '''' bandstack_xvtr 0 0 0 0 False,
     bnd '''' bandstack_xvtr 0 0 0 0 False,
     bnd '''' bandstack_xvtr 0 0 0 0 False,
     bnd '''' bandstack_xvtr 0 0 0 0 False,
     bnd '''' bandstack_xvtr 0 0 0 0 False]"

definition band_display_names :: "string list" where
  "band_display_names = [''2200 m'', ''630 m'', ''160 m'', ''80 m'', ''60 m'', ''40 m'', ''30 m'',
     ''20 m'', ''17 m'', ''15 m'', ''12 m'', ''10 m'', ''6 m'', ''GEN'', ''WWV'', ''4 m'', ''2 m'',
     ''1.25 m'', ''70 cm'', ''33 cm'', ''23 cm'', ''13 cm'', ''9 cm'', ''AIR'']"

definition band_display_name :: "band list \<Rightarrow> int \<Rightarrow> string" where
  "band_display_name bands b =
     (if b < 0 \<or> b \<ge> BANDS + XVTRS then []
      else if b < BANDS then band_display_names ! nat b
      else bd_title (bands ! nat b))"

section \<open>Which band a frequency belongs to\<close>

text \<open>The first named band whose edges hold the frequency; the 6 m row is skipped on a
Hermes-Lite 2.\<close>

definition band_holds :: "radio \<Rightarrow> int \<Rightarrow> int \<Rightarrow> bool" where
  "band_holds r f b =
     (\<not> (b = band6 \<and> r_hl2 r \<noteq> None) \<and>
      (let bd = band_get_band r b
       in bd_title bd \<noteq> [] \<and> bd_frequencyMin bd \<le> f \<and> f \<le> bd_frequencyMax bd))"

definition get_band_from_frequency :: "radio \<Rightarrow> int \<Rightarrow> int" where
  "get_band_from_frequency r f =
     (case find (band_holds r f) [0 .. BANDS + XVTRS - 1] of Some b \<Rightarrow> b | None \<Rightarrow> bandGen)"

text \<open>\<open>bands\<close> is the table, \<open>dev\<close> the discovered device, if there is one.\<close>

definition band_is_offered :: "band list \<Rightarrow> discovered option \<Rightarrow> int \<Rightarrow> bool" where
  "band_is_offered bands dev b =
     (\<not> (b < 0 \<or> b \<ge> BANDS + XVTRS \<or> bd_title (bands ! nat b) = []) \<and>
      \<not> (band70 \<le> b \<and> b \<le> bandAIR \<and>
         (case dev of None \<Rightarrow> True | Some d \<Rightarrow> d_protocol d \<noteq> PROTOCOL_SOAPYSDR)))"

definition next_band :: "radio \<Rightarrow> int \<Rightarrow> int" where
  "next_band r current_band =
     (let b = current_band + 1
      in if b \<ge> BANDS then bandWWV
         else if bd_frequencyMin (band_get_band r b) > d_frequency_max (r_discovered r) then bandGen
         else b)"

function back_to_tunable :: "radio \<Rightarrow> int \<Rightarrow> int" where
  "back_to_tunable r b =
     (if bd_frequencyMin (band_get_band r b) > d_frequency_max (r_discovered r) \<and> b > 0
      then back_to_tunable r (b - 1) else b)"
  by pat_completeness auto
termination by (relation "measure (\<lambda>(r, b). nat b)") auto

declare back_to_tunable.simps [simp del]

definition previous_band :: "radio \<Rightarrow> int \<Rightarrow> int" where
  "previous_band r current_band =
     (let b = current_band - 1 in if b < 0 then 0 else back_to_tunable r b)"

section \<open>Band stack entries\<close>

definition bandstack_get_bandstack_entry :: "band list \<Rightarrow> int \<Rightarrow> int \<Rightarrow> bandstack_entry" where
  "bandstack_get_bandstack_entry bands b entry = bd_entry (bands ! nat b) ! nat entry"

definition bandstack_entry_get_current :: "band list \<Rightarrow> int \<Rightarrow> bandstack_entry" where
  "bandstack_entry_get_current bands b =
     bd_entry (bands ! nat b) ! nat (bd_current_entry (bands ! nat b))"

definition stack_step :: "int \<Rightarrow> (band \<Rightarrow> band) \<Rightarrow> band list \<Rightarrow> band list \<times> bandstack_entry" where
  "stack_step b g bands =
     (let bands1 = bands[nat b := g (bands ! nat b)] in (bands1, bandstack_entry_get_current bands1 b))"

definition bandstack_entry_next :: "int \<Rightarrow> band list \<Rightarrow> band list \<times> bandstack_entry" where
  "bandstack_entry_next b =
     stack_step b (\<lambda>bd. let c = bd_current_entry bd + 1
                       in bd\<lparr>bd_current_entry := (if c \<ge> bd_entries bd then 0 else c)\<rparr>)"

definition bandstack_entry_previous :: "int \<Rightarrow> band list \<Rightarrow> band list \<times> bandstack_entry" where
  "bandstack_entry_previous b =
     stack_step b (\<lambda>bd. let c = bd_current_entry bd - 1
                       in bd\<lparr>bd_current_entry := (if c < 0 then bd_entries bd - 1 else c)\<rparr>)"

section \<open>Filter boards\<close>

definition set_oc :: "int \<times> byte \<Rightarrow> band list \<Rightarrow> band list" where
  "set_oc bv bands = bands[nat (fst bv) := (bands ! nat (fst bv))\<lparr>bd_OCrx := snd bv, bd_OCtx := snd bv\<rparr>]"

definition change_filters :: "filter_board \<Rightarrow> band list \<Rightarrow> band list" where
  "change_filters board bands =
     (case board of
        N2ADR \<Rightarrow> fold set_oc [(band160, 1), (band80, 66), (band60, 68), (band40, 68), (band30, 72),
          (band20, 72), (band17, 80), (band15, 80), (band12, 96), (band10, 96)] bands
      | HL2_MRF101 \<Rightarrow> fold set_oc [(band160, 0), (band80, 80), (band60, 72), (band40, 68), (band30, 68),
          (band20, 66), (band17, 66), (band15, 65), (band12, 65), (band10, 65)] bands
      | NONE_BOARD \<Rightarrow> fold set_oc (map (\<lambda>i. (i, 0)) [0 .. BANDS - 1]) bands
      | _ \<Rightarrow> bands)"

section \<open>Settings\<close>

definition band_key :: "int \<Rightarrow> string \<Rightarrow> string" where
  "band_key b field = ''band.'' @ fmt_d b @ ''.'' @ field"

definition stack_key :: "int \<Rightarrow> int \<Rightarrow> string \<Rightarrow> string" where
  "stack_key b stack field = band_key b (''stack.'' @ fmt_d stack @ ''.'' @ field)"

definition fmt_bool :: "bool \<Rightarrow> string" where
  "fmt_bool x = fmt_d (if x then 1 else 0)"

text \<open>What is written for a band and for an entry of its stack, in the order of the code;
\<open>formatd\<close> prints a double.\<close>

definition band_items :: "(real \<Rightarrow> string) \<Rightarrow> band \<Rightarrow> (string \<times> string) list" where
  "band_items formatd bd =
     [(''title'', bd_title bd),
      (''entries'', fmt_d (bd_entries bd)),
      (''current'', fmt_d (bd_current_entry bd)),
      (''preamp'', fmt_d (bd_preamp bd)),
      (''alexRxAntenna'', fmt_d (bd_alexRxAntenna bd)),
      (''alexTxAntenna'', fmt_d (bd_alexTxAntenna bd)),
      (''alexAttenuation'', fmt_d (bd_alexAttenuation bd)),
      (''pa_calibration'', formatd (bd_pa_calibration bd)),
      (''OCrx'', fmt_d (uint (bd_OCrx bd))),
      (''OCtx'', fmt_d (uint (bd_OCtx bd))),
      (''frequencyMin'', fmt_d (bd_frequencyMin bd)),
      (''frequencyMax'', fmt_d (bd_frequencyMax bd)),
      (''frequencyLO'', fmt_d (bd_frequencyLO bd)),
      (''errorLO'', fmt_d (bd_errorLO bd)),
      (''disablePA'', fmt_bool (bd_disablePA bd)),
      (''waterfall_low'', fmt_d (bd_waterfall_low bd)),
      (''waterfall_high'', fmt_d (bd_waterfall_high bd)),
      (''waterfall_automatic'', fmt_bool (bd_waterfall_automatic bd))]"

definition entry_items :: "bandstack_entry \<Rightarrow> (string \<times> string) list" where
  "entry_items e =
     [(''a'', fmt_d (be_frequency e)),
      (''mode'', fmt_d (be_mode e)),
      (''filter'', fmt_d (be_filter e)),
      (''var1Low'', fmt_d (be_var1Low e)),
      (''var1High'', fmt_d (be_var1High e)),
      (''var2Low'', fmt_d (be_var2Low e)),
      (''var2High'', fmt_d (be_var2High e))]"

definition save_entry :: "int \<Rightarrow> band \<Rightarrow> int \<Rightarrow> props \<Rightarrow> props" where
  "save_entry b bd stack =
     fold (\<lambda>(k, v). setProperty (stack_key b stack k) v) (entry_items (bd_entry bd ! nat stack))"

definition save_band :: "(real \<Rightarrow> string) \<Rightarrow> band list \<Rightarrow> int \<Rightarrow> props \<Rightarrow> props" where
  "save_band formatd bands b p =
     (let bd = bands ! nat b
      in if bd_title bd = [] then p
         else fold (save_entry b bd) [0 .. bd_entries bd - 1]
                (fold (\<lambda>(k, v). setProperty (band_key b k) v) (band_items formatd bd) p))"

definition bandSaveState :: "(real \<Rightarrow> string) \<Rightarrow> band list \<Rightarrow> int \<Rightarrow> props \<Rightarrow> props" where
  "bandSaveState formatd bands current_band p =
     setProperty ''band'' (fmt_d current_band) (fold (save_band formatd bands) [0 .. BANDS + XVTRS - 1] p)"

text \<open>\<open>if(value) ...\<close>: a field is changed when its name is in the store.\<close>

definition if_set :: "props \<Rightarrow> string \<Rightarrow> (string \<Rightarrow> 'a \<Rightarrow> 'a) \<Rightarrow> 'a \<Rightarrow> 'a" where
  "if_set p name g x = (case getProperty name p of None \<Rightarrow> x | Some v \<Rightarrow> g v x)"

definition restore_entries :: "string \<Rightarrow> band \<Rightarrow> band" where
  "restore_entries v bd =
     (let capacity = bd_entries bd;
          n = atoi v;
          n1 = (if n < 0 then 0 else n);
          n2 = (if n1 > capacity then capacity else n1)
      in bd\<lparr>bd_entries := n2\<rparr>)"

definition restore_current :: "string \<Rightarrow> band \<Rightarrow> band" where
  "restore_current v bd =
     (let n = atoi v in bd\<lparr>bd_current_entry := (if n < 0 \<or> n \<ge> bd_entries bd then 0 else n)\<rparr>)"

definition restore_calibration :: "(string \<Rightarrow> real) \<Rightarrow> string \<Rightarrow> band \<Rightarrow> band" where
  "restore_calibration strtod v bd =
     (let c = propToDouble strtod (Some v)
      in bd\<lparr>bd_pa_calibration := (if c < 38.8 \<or> c > 100 then 38.8 else c)\<rparr>)"

definition set_fields :: "props \<Rightarrow> (string \<Rightarrow> string) \<Rightarrow> (string \<times> (string \<Rightarrow> 'a \<Rightarrow> 'a)) list \<Rightarrow> 'a \<Rightarrow> 'a" where
  "set_fields p key = fold (\<lambda>(name, g). if_set p (key name) g)"

definition entry_setters :: "(string \<times> (string \<Rightarrow> bandstack_entry \<Rightarrow> bandstack_entry)) list" where
  "entry_setters =
     [(''a'', \<lambda>v e. e\<lparr>be_frequency := atoi v\<rparr>),
      (''mode'', \<lambda>v e. e\<lparr>be_mode := atoi v\<rparr>),
      (''filter'', \<lambda>v e. e\<lparr>be_filter := atoi v\<rparr>),
      (''var1Low'', \<lambda>v e. e\<lparr>be_var1Low := atoi v\<rparr>),
      (''var1High'', \<lambda>v e. e\<lparr>be_var1High := atoi v\<rparr>),
      (''var2Low'', \<lambda>v e. e\<lparr>be_var2Low := atoi v\<rparr>),
      (''var2High'', \<lambda>v e. e\<lparr>be_var2High := atoi v\<rparr>)]"

definition restore_stack :: "props \<Rightarrow> int \<Rightarrow> int \<Rightarrow> band \<Rightarrow> band" where
  "restore_stack p b stack bd =
     bd\<lparr>bd_entry := (bd_entry bd)[nat stack :=
          set_fields p (stack_key b stack) entry_setters (bd_entry bd ! nat stack)]\<rparr>"

text \<open>The fields of a band up to the transmit antenna, the old files' antenna numbers put
right, and the fields after it.\<close>

definition band_setters1 :: "(string \<times> (string \<Rightarrow> band \<Rightarrow> band)) list" where
  "band_setters1 =
     [(''title'', \<lambda>v bd. bd\<lparr>bd_title := take 15 v\<rparr>),
      (''entries'', restore_entries),
      (''current'', restore_current),
      (''preamp'', \<lambda>v bd. bd\<lparr>bd_preamp := atoi v\<rparr>),
      (''alexRxAntenna'', \<lambda>v bd. bd\<lparr>bd_alexRxAntenna := atoi v\<rparr>),
      (''alexTxAntenna'', \<lambda>v bd. bd\<lparr>bd_alexTxAntenna := atoi v\<rparr>)]"

definition antenna_in_range :: "band \<Rightarrow> band" where
  "antenna_in_range bd = (if bd_alexTxAntenna bd > 2 then bd\<lparr>bd_alexTxAntenna := 0\<rparr> else bd)"

definition band_setters2 :: "(string \<Rightarrow> real) \<Rightarrow> (string \<times> (string \<Rightarrow> band \<Rightarrow> band)) list" where
  "band_setters2 strtod =
     [(''alexAttenuation'', \<lambda>v bd. bd\<lparr>bd_alexAttenuation := atoi v\<rparr>),
      (''pa_calibration'', restore_calibration strtod),
      (''OCrx'', \<lambda>v bd. bd\<lparr>bd_OCrx := word_of_int (atoi v)\<rparr>),
      (''OCtx'', \<lambda>v bd. bd\<lparr>bd_OCtx := word_of_int (atoi v)\<rparr>),
      (''frequencyMin'', \<lambda>v bd. bd\<lparr>bd_frequencyMin := atoi v\<rparr>),
      (''frequencyMax'', \<lambda>v bd. bd\<lparr>bd_frequencyMax := atoi v\<rparr>),
      (''frequencyLO'', \<lambda>v bd. bd\<lparr>bd_frequencyLO := atoi v\<rparr>),
      (''errorLO'', \<lambda>v bd. bd\<lparr>bd_errorLO := atoi v\<rparr>),
      (''disablePA'', \<lambda>v bd. bd\<lparr>bd_disablePA := (atoi v \<noteq> 0)\<rparr>),
      (''waterfall_low'', \<lambda>v bd. bd\<lparr>bd_waterfall_low := atoi v\<rparr>),
      (''waterfall_high'', \<lambda>v bd. bd\<lparr>bd_waterfall_high := atoi v\<rparr>),
      (''waterfall_automatic'', \<lambda>v bd. bd\<lparr>bd_waterfall_automatic := (atoi v \<noteq> 0)\<rparr>)]"

definition restore_fields :: "(string \<Rightarrow> real) \<Rightarrow> props \<Rightarrow> int \<Rightarrow> band \<Rightarrow> band" where
  "restore_fields strtod p b bd =
     set_fields p (band_key b) (band_setters2 strtod)
       (antenna_in_range (set_fields p (band_key b) band_setters1 bd))"

definition restore_band :: "(string \<Rightarrow> real) \<Rightarrow> props \<Rightarrow> int \<Rightarrow> band \<Rightarrow> band" where
  "restore_band strtod p b bd =
     (let bd1 = restore_fields strtod p b bd
      in fold (restore_stack p b) [0 .. bd_entries bd1 - 1] bd1)"

definition bandRestoreState :: "(string \<Rightarrow> real) \<Rightarrow> props \<Rightarrow> band list \<Rightarrow> int \<Rightarrow> band list \<times> int" where
  "bandRestoreState strtod p bands current_band =
     (fold (\<lambda>b bs. bs[nat b := restore_band strtod p b (bs ! nat b)]) [0 .. BANDS + XVTRS - 1] bands,
      case getProperty ''band'' p of None \<Rightarrow> current_band | Some v \<Rightarrow> atoi v)"

section \<open>A restored band is well formed\<close>

definition band_ok :: "band \<Rightarrow> bool" where
  "band_ok bd \<longleftrightarrow> length (bd_title bd) \<le> 15
     \<and> 0 \<le> bd_entries bd \<and> bd_entries bd \<le> int (length (bd_entry bd))
     \<and> 0 \<le> bd_current_entry bd \<and> bd_current_entry bd < int (length (bd_entry bd))
     \<and> 38.8 \<le> bd_pa_calibration bd \<and> bd_pa_calibration bd \<le> 100
     \<and> bd_alexTxAntenna bd \<le> 2"

definition bands_ok :: "band list \<Rightarrow> bool" where
  "bands_ok bs \<longleftrightarrow> length bs = nat (BANDS + XVTRS) \<and> (\<forall>bd \<in> set bs. band_ok bd)"

lemma bands0_ok: "bands_ok bands0"
  by (simp add: bands_ok_def bands0_def band_ok_def bnd_def bandstack_defs bandstack_entries_defs
      BANDS_def XVTRS_def)

text \<open>Before the antenna is put in range everything else is.\<close>

definition band_ok1 :: "band \<Rightarrow> bool" where
  "band_ok1 bd \<longleftrightarrow> band_ok (bd\<lparr>bd_alexTxAntenna := 0\<rparr>)"

lemma set_fields_inv:
  assumes "P x" "\<forall>(name, g) \<in> set fs. \<forall>v x. P x \<longrightarrow> P (g v x)"
  shows "P (set_fields p key fs x)"
  using assms unfolding set_fields_def
  by (induction fs arbitrary: x) (auto simp: if_set_def split: option.split)

lemma restore_fields_ok: "band_ok bd \<Longrightarrow> band_ok (restore_fields strtod p b bd)"
proof -
  assume "band_ok bd"
  hence "band_ok1 bd" by (simp add: band_ok1_def band_ok_def)
  hence "band_ok1 (set_fields p (band_key b) band_setters1 bd)"
    by (rule set_fields_inv)
       (auto simp: band_setters1_def band_ok1_def band_ok_def restore_entries_def restore_current_def Let_def)
  hence "band_ok (antenna_in_range (set_fields p (band_key b) band_setters1 bd))"
    by (simp add: antenna_in_range_def band_ok1_def band_ok_def)
  thus ?thesis unfolding restore_fields_def
    by (rule set_fields_inv)
       (auto simp: band_setters2_def band_ok_def restore_calibration_def Let_def)
qed

lemma restore_stack_ok: "band_ok bd \<Longrightarrow> band_ok (restore_stack p b st bd)"
  by (simp add: band_ok_def restore_stack_def)

lemma restore_band_ok: "band_ok bd \<Longrightarrow> band_ok (restore_band strtod p b bd)"
  unfolding restore_band_def Let_def
  by (intro fold_invariant[where P = band_ok] restore_fields_ok restore_stack_ok)

lemma bands_ok_update: "bands_ok bs \<Longrightarrow> (i < length bs \<Longrightarrow> band_ok x) \<Longrightarrow> bands_ok (bs[i := x])"
  by (cases "i < length bs") (auto simp: bands_ok_def list_update_beyond dest!: set_update_subset_insert[THEN subsetD])

lemma bands_ok_nth: "bands_ok bs \<Longrightarrow> i < length bs \<Longrightarrow> band_ok (bs ! i)"
  by (simp add: bands_ok_def)

text \<open>Whatever the settings file says, the band table stays in bounds: every title fits
its sixteen bytes, no band counts more stack entries than its array holds, the current entry
is one of them, the calibration and the antenna number are in range.\<close>

theorem restored_bands_well_formed:
  "bands_ok bs \<Longrightarrow> bands_ok (fst (bandRestoreState strtod p bs cur))"
  unfolding bandRestoreState_def fst_conv
  by (rule fold_invariant[where P = bands_ok]) (simp_all add: bands_ok_update bands_ok_nth restore_band_ok)

theorem restored_bands_well_formed_witness:
  "bands_ok (fst (bandRestoreState (\<lambda>_. 0) (setProperty ''band.7.entries'' ''9999'' props0) bands0 7))"
  by (rule restored_bands_well_formed[OF bands0_ok])

section \<open>Saving and restoring\<close>

lemma digits_inject: "digits m = digits n \<Longrightarrow> m = n"
  by (metis digits_value_digits)

lemma fmt_d_inject: "(fmt_d x = fmt_d y) = (x = y)"
  by (metis atoi_fmt_d)

lemma fmt_d_no_dot: "CHR ''.'' \<notin> set (fmt_d x)"
proof -
  have "\<not> isdigit_c (CHR ''.'')" by (simp add: isdigit_c_def)
  thus ?thesis using digits_isdigit by (auto simp: fmt_d_def)
qed

lemma band_key_inject: "(band_key b f = band_key b' f') = (b = b' \<and> f = f')"
  using append_sep_inject[OF fmt_d_no_dot fmt_d_no_dot] by (simp add: band_key_def fmt_d_inject)

lemma stack_key_inject: "(stack_key b s f = stack_key b' s' f') = (b = b' \<and> s = s' \<and> f = f')"
  using append_sep_inject[OF fmt_d_no_dot fmt_d_no_dot]
  by (auto simp: stack_key_def band_key_inject fmt_d_inject)

definition entry_pairs :: "int \<Rightarrow> band \<Rightarrow> int \<Rightarrow> (string \<times> string) list" where
  "entry_pairs b bd st = map (\<lambda>(k, v). (stack_key b st k, v)) (entry_items (bd_entry bd ! nat st))"

definition band_pairs :: "(real \<Rightarrow> string) \<Rightarrow> band list \<Rightarrow> int \<Rightarrow> (string \<times> string) list" where
  "band_pairs formatd bs b =
     (let bd = bs ! nat b
      in if bd_title bd = [] then []
         else map (\<lambda>(k, v). (band_key b k, v)) (band_items formatd bd)
              @ concat (map (entry_pairs b bd) [0 .. bd_entries bd - 1]))"

lemma fold_set_map: "fold (\<lambda>(k, v). setProperty (g k) v) kvs p = store.put_all (map (\<lambda>(k, v). (g k, v)) kvs) p"
  by (induction kvs arbitrary: p) (auto simp: store.put_all_def)

lemma save_band_put_all: "save_band formatd bs b p = store.put_all (band_pairs formatd bs b) p"
proof -
  have "save_entry b bd = (\<lambda>st. store.put_all (entry_pairs b bd st))" for bd
    by (intro ext) (simp add: save_entry_def entry_pairs_def fold_set_map)
  thus ?thesis
    by (simp add: save_band_def band_pairs_def Let_def fold_set_map store.put_all_append store.put_all_concat)
       (simp add: store.put_all_def)
qed

definition all_pairs :: "(real \<Rightarrow> string) \<Rightarrow> band list \<Rightarrow> int \<Rightarrow> (string \<times> string) list" where
  "all_pairs formatd bs cur =
     concat (map (band_pairs formatd bs) [0 .. BANDS + XVTRS - 1]) @ [(''band'', fmt_d cur)]"

lemma bandSaveState_put_all: "bandSaveState formatd bs cur p = store.put_all (all_pairs formatd bs cur) p"
proof -
  have "save_band formatd bs = (\<lambda>b. store.put_all (band_pairs formatd bs b))"
    by (intro ext) (rule save_band_put_all)
  thus ?thesis
    by (simp add: bandSaveState_def all_pairs_def store.put_all_append store.put_all_concat)
       (simp add: store.put_all_def)
qed

lemma band_items_functional: "distinct (map fst (band_items formatd bd))"
  by (simp add: band_items_def)

lemma entry_items_functional: "distinct (map fst (entry_items e))"
  by (simp add: entry_items_def)

lemma band_item_not_stack: "(f, v) \<in> set (band_items formatd bd) \<Longrightarrow> band_key b f \<noteq> stack_key b' st f'"
  by (auto simp: stack_key_def band_key_inject band_items_def)

lemma band_pairs_mem:
  "((k, v) \<in> set (band_pairs formatd bs b)) \<longleftrightarrow>
     bd_title (bs ! nat b) \<noteq> [] \<and>
     ((\<exists>f. k = band_key b f \<and> (f, v) \<in> set (band_items formatd (bs ! nat b))) \<or>
      (\<exists>st f. 0 \<le> st \<and> st < bd_entries (bs ! nat b) \<and> k = stack_key b st f \<and>
              (f, v) \<in> set (entry_items (bd_entry (bs ! nat b) ! nat st))))"
  by (auto simp: band_pairs_def entry_pairs_def Let_def image_iff Bex_def split: prod.splits)

lemma band_pairs_same_band: "(k, v) \<in> set (band_pairs formatd bs b) \<Longrightarrow> \<exists>f. k = band_key b f"
  by (auto simp: band_pairs_mem stack_key_def)

lemma band_pairs_functional:
  assumes "(k, v) \<in> set (band_pairs formatd bs b)" "(k, v') \<in> set (band_pairs formatd bs b)"
  shows "v' = v"
proof (cases "\<exists>f. k = band_key b f \<and> (f, v) \<in> set (band_items formatd (bs ! nat b))")
  case True
  then obtain f where f: "k = band_key b f" "(f, v) \<in> set (band_items formatd (bs ! nat b))" by blast
  hence "(f, v') \<in> set (band_items formatd (bs ! nat b))"
    using assms(2) band_item_not_stack[OF f(2)] by (auto simp: band_pairs_mem band_key_inject)
  thus ?thesis using eq_key_imp_eq_value[OF band_items_functional f(2)] by simp
next
  case False
  then obtain st f where f: "k = stack_key b st f" "(f, v) \<in> set (entry_items (bd_entry (bs ! nat b) ! nat st))"
    using assms(1) by (auto simp: band_pairs_mem)
  hence "(f, v') \<in> set (entry_items (bd_entry (bs ! nat b) ! nat st))"
    using assms(2) band_item_not_stack by (metis band_pairs_mem stack_key_inject)
  thus ?thesis using eq_key_imp_eq_value[OF entry_items_functional f(2)] by simp
qed

lemma saved_band_pair:
  assumes "0 \<le> b" "b < BANDS + XVTRS" "(k, v) \<in> set (band_pairs formatd bs b)"
  shows "getProperty k (bandSaveState formatd bs cur p) = Some v"
  unfolding bandSaveState_put_all
proof (rule store.get_put_all_only)
  show "(k, v) \<in> set (all_pairs formatd bs cur)" using assms by (auto simp: all_pairs_def)
next
  fix v' assume m: "(k, v') \<in> set (all_pairs formatd bs cur)"
  obtain f where k: "k = band_key b f" using band_pairs_same_band assms(3) by blast
  have "k \<noteq> ''band''" by (simp add: k band_key_def)
  then obtain b' where b': "(k, v') \<in> set (band_pairs formatd bs b')" using m by (auto simp: all_pairs_def)
  obtain f' where "k = band_key b' f'" using band_pairs_same_band b' by blast
  hence "b' = b" using k by (simp add: band_key_inject)
  thus "v' = v" using b' assms(3) band_pairs_functional by blast
qed

lemma saved_current: "getProperty ''band'' (bandSaveState formatd bs cur p) = Some (fmt_d cur)"
  by (simp add: bandSaveState_def store.get_put)

lemma saved_field:
  assumes "0 \<le> b" "b < BANDS + XVTRS" "bd_title (bs ! nat b) \<noteq> []" "(f, v) \<in> set (band_items formatd (bs ! nat b))"
  shows "getProperty (band_key b f) (bandSaveState formatd bs cur p) = Some v"
  using assms by (intro saved_band_pair) (auto simp: band_pairs_mem)

lemma saved_entry_field:
  assumes "0 \<le> b" "b < BANDS + XVTRS" "bd_title (bs ! nat b) \<noteq> []" "0 \<le> st" "st < bd_entries (bs ! nat b)"
    "(f, v) \<in> set (entry_items (bd_entry (bs ! nat b) ! nat st))"
  shows "getProperty (stack_key b st f) (bandSaveState formatd bs cur p) = Some v"
  using assms by (intro saved_band_pair) (auto simp: band_pairs_mem)

lemma restored_entry:
  assumes "\<And>f v. (f, v) \<in> set (entry_items e) \<Longrightarrow> getProperty (stack_key b st f) P = Some v"
  shows "set_fields P (stack_key b st) entry_setters e' = e"
proof -
  note g = assms[unfolded entry_items_def, simplified]
  show ?thesis by (simp add: set_fields_def entry_setters_def if_set_def g)
qed

lemma restored_fields:
  assumes "\<And>f v. (f, v) \<in> set (band_items formatd bd) \<Longrightarrow> getProperty (band_key b f) P = Some v"
    "band_ok bd" "bd_current_entry bd < bd_entries bd" "bd_entries bd \<le> bd_entries gd"
    "propToDouble strtod (Some (formatd (bd_pa_calibration bd))) = bd_pa_calibration bd"
  shows "restore_fields strtod P b gd =
           bd\<lparr>bd_entry := bd_entry gd, bd_panadapter_low := bd_panadapter_low gd,
              bd_panadapter_high := bd_panadapter_high gd, bd_panadapter_step := bd_panadapter_step gd\<rparr>"
proof -
  note g = assms(1)[unfolded band_items_def, simplified]
  note ok = assms(2)[unfolded band_ok_def]
  have s1: "set_fields P (band_key b) band_setters1 gd =
      gd\<lparr>bd_title := bd_title bd, bd_entries := bd_entries bd, bd_current_entry := bd_current_entry bd,
         bd_preamp := bd_preamp bd, bd_alexRxAntenna := bd_alexRxAntenna bd, bd_alexTxAntenna := bd_alexTxAntenna bd\<rparr>"
    using ok assms(3,4)
    by (simp add: set_fields_def band_setters1_def if_set_def g restore_entries_def restore_current_def Let_def)
  have "atoi (fmt_bool x) \<noteq> 0 \<longleftrightarrow> x" for x by (simp add: fmt_bool_def)
  thus ?thesis unfolding restore_fields_def s1 using ok assms(5)
    by (simp add: antenna_in_range_def set_fields_def band_setters2_def if_set_def g restore_calibration_def Let_def)
qed

lemma restore_stacks:
  "n \<le> length (bd_entry bd) \<Longrightarrow>
   fold (restore_stack p b) [0 .. int n - 1] bd =
     bd\<lparr>bd_entry := map (\<lambda>i. set_fields p (stack_key b (int i)) entry_setters (bd_entry bd ! i)) [0 ..< n] @ drop n (bd_entry bd)\<rparr>"
proof (induction n)
  case (Suc n)
  have "[0 .. int (Suc n) - 1] = [0 .. int n - 1] @ [int n]" using upto_rec2[of 0 "int n"] by simp
  moreover have "(map f [0 ..< n] @ drop n xs)[n := y] = map f [0 ..< n] @ y # drop (Suc n) xs"
    if "Suc n \<le> length xs" for f :: "nat \<Rightarrow> bandstack_entry" and xs y
    using that by (simp add: list_update_append Cons_nth_drop_Suc[symmetric])
  ultimately show ?case using Suc by (simp add: restore_stack_def nth_append)
qed simp

lemma restored_band:
  assumes "\<And>f v. (f, v) \<in> set (band_items formatd bd) \<Longrightarrow> getProperty (band_key b f) P = Some v"
    and stk: "\<And>st f v. 0 \<le> st \<Longrightarrow> st < bd_entries bd \<Longrightarrow> (f, v) \<in> set (entry_items (bd_entry bd ! nat st)) \<Longrightarrow>
            getProperty (stack_key b st f) P = Some v"
    and "band_ok bd" "bd_current_entry bd < bd_entries bd" "bd_entries bd \<le> bd_entries gd" "band_ok gd"
    "propToDouble strtod (Some (formatd (bd_pa_calibration bd))) = bd_pa_calibration bd"
  shows "restore_band strtod P b gd =
           bd\<lparr>bd_entry := take (nat (bd_entries bd)) (bd_entry bd) @ drop (nat (bd_entries bd)) (bd_entry gd),
              bd_panadapter_low := bd_panadapter_low gd,
              bd_panadapter_high := bd_panadapter_high gd, bd_panadapter_step := bd_panadapter_step gd\<rparr>"
proof -
  let ?n = "nat (bd_entries bd)"
  have l: "?n \<le> length (bd_entry gd)" "?n \<le> length (bd_entry bd)" "int ?n = bd_entries bd"
    using assms(3-6) by (auto simp: band_ok_def)
  have "map (\<lambda>i. set_fields P (stack_key b (int i)) entry_setters (bd_entry gd ! i)) [0 ..< ?n] = take ?n (bd_entry bd)"
    using l stk by (intro nth_equalityI) (auto intro!: restored_entry)
  moreover have "restore_fields strtod P b gd = bd\<lparr>bd_entry := bd_entry gd, bd_panadapter_low := bd_panadapter_low gd,
              bd_panadapter_high := bd_panadapter_high gd, bd_panadapter_step := bd_panadapter_step gd\<rparr>"
    by (rule restored_fields[where formatd = formatd]) (use assms in simp_all)
  ultimately show ?thesis
    using restore_stacks[of ?n "bd\<lparr>bd_entry := bd_entry gd, bd_panadapter_low := bd_panadapter_low gd,
              bd_panadapter_high := bd_panadapter_high gd, bd_panadapter_step := bd_panadapter_step gd\<rparr>" P b] l
    by (cases bd) (simp add: restore_band_def)
qed

lemma fold_update_each:
  "distinct is \<Longrightarrow> \<forall>i \<in> set is. nat i < length xs \<Longrightarrow> \<forall>i \<in> set is. 0 \<le> i \<Longrightarrow> 0 \<le> (j :: int) \<Longrightarrow> j \<in> set is \<Longrightarrow>
   fold (\<lambda>i xs. xs[nat i := f i (xs ! nat i)]) is xs ! nat j = f j (xs ! nat j)"
proof (induction "is" arbitrary: xs)
  case (Cons i "is")
  have other: "fold (\<lambda>i xs. xs[nat i := f i (xs ! nat i)]) is xs ! nat j = xs ! nat j"
    if "j \<notin> set is" "\<forall>i \<in> set is. 0 \<le> i" "0 \<le> j" for xs and j :: int and "is"
    using that by (induction "is" arbitrary: xs) (auto simp: nth_list_update)
  show ?case using Cons by (cases "i = j") (auto simp: other)
qed simp

text \<open>Saving and restoring the bands: with the settings in between, every named band
comes back as it was saved, all its stack entries included, except for the three numbers of
its panadapter scale, which are those the program started with; and the current band comes
back.\<close>

theorem saved_bands_load_back:
  assumes "bands_ok bs" "bands_ok gs" "0 \<le> b" "b < BANDS + XVTRS"
    "bd_title (bs ! nat b) \<noteq> []" "bd_current_entry (bs ! nat b) < bd_entries (bs ! nat b)"
    "bd_entries (bs ! nat b) \<le> bd_entries (gs ! nat b)"
    "propToDouble strtod (Some (formatd (bd_pa_calibration (bs ! nat b)))) = bd_pa_calibration (bs ! nat b)"
  shows "fst (bandRestoreState strtod (bandSaveState formatd bs cur p) gs cur') ! nat b =
           (bs ! nat b)\<lparr>bd_entry := take (nat (bd_entries (bs ! nat b))) (bd_entry (bs ! nat b)) @
                                    drop (nat (bd_entries (bs ! nat b))) (bd_entry (gs ! nat b)),
              bd_panadapter_low := bd_panadapter_low (gs ! nat b),
              bd_panadapter_high := bd_panadapter_high (gs ! nat b),
              bd_panadapter_step := bd_panadapter_step (gs ! nat b)\<rparr>
         \<and> snd (bandRestoreState strtod (bandSaveState formatd bs cur p) gs cur') = cur"
proof -
  let ?P = "bandSaveState formatd bs cur p"
  have r: "fst (bandRestoreState strtod ?P gs cur') ! nat b = restore_band strtod ?P b (gs ! nat b)"
    unfolding bandRestoreState_def fst_conv
    by (rule fold_update_each) (use assms(2-4) in \<open>auto simp: bands_ok_def\<close>)
  have ok: "band_ok (bs ! nat b)" "band_ok (gs ! nat b)"
    using assms(1-4) by (auto simp: bands_ok_def)
  note f = saved_field[OF assms(3,4,5), where formatd = formatd and cur = cur and p = p]
  note e = saved_entry_field[OF assms(3,4,5), where formatd = formatd and cur = cur and p = p]
  have "snd (bandRestoreState strtod ?P gs cur') = cur" by (simp add: bandRestoreState_def saved_current)
  moreover have "restore_band strtod ?P b (gs ! nat b) =
      (bs ! nat b)\<lparr>bd_entry := take (nat (bd_entries (bs ! nat b))) (bd_entry (bs ! nat b)) @
                                    drop (nat (bd_entries (bs ! nat b))) (bd_entry (gs ! nat b)),
              bd_panadapter_low := bd_panadapter_low (gs ! nat b),
              bd_panadapter_high := bd_panadapter_high (gs ! nat b),
              bd_panadapter_step := bd_panadapter_step (gs ! nat b)\<rparr>"
    by (rule restored_band[where formatd = formatd and P = ?P and b = b, OF f e ok(1) assms(6,7) ok(2) assms(8)])
  ultimately show ?thesis using r by simp
qed

text \<open>The 20 m band saved on the second of its entries, retuned, and loaded into a program
that starts from the built-in table.\<close>

definition bands_used :: "band list" where
  "bands_used = bands0[7 := (bands0 ! 7)\<lparr>bd_current_entry := 2, bd_errorLO := - 12,
     bd_entry := (bd_entry (bands0 ! 7))[2 := bse 14195000 USB F5 200 2800 200 2800]\<rparr>]"

theorem saved_bands_load_back_witness:
  "fst (bandRestoreState (\<lambda>_. 53) (bandSaveState (\<lambda>_. ''53'') bands_used 7 props0) bands0 3) ! 7 = bands_used ! 7"
proof -
  have b: "bands0 ! 7 = bnd ''20'' bandstack20 14000000 14350000 0 0 False" by (simp add: bands0_def)
  have ok: "bands_ok bands_used" unfolding bands_used_def
    by (intro bands_ok_update bands0_ok)
       (simp add: b band_ok_def bnd_def bandstack20_def bandstack_entries20_def)
  have l: "length bands0 = 32" by (simp add: bands0_def)
  show ?thesis
    using saved_bands_load_back[OF ok bands0_ok, where b = 7 and formatd = "\<lambda>_. ''53''" and
        strtod = "\<lambda>_. 53" and cur = 7 and p = props0 and cur' = 3]
    by (simp add: bands_used_def l b bnd_def bandstack20_def bandstack_entries20_def propToDouble_def
        BANDS_def XVTRS_def)
qed

section \<open>The band of a frequency\<close>

lemma find_append_first: "\<forall>y \<in> set ys. \<not> P y \<Longrightarrow> P x \<Longrightarrow> find P (ys @ x # zs) = Some x"
  by (induction ys) auto

lemma find_upto:
  assumes "a \<le> k" "k \<le> b" "P k" "\<And>j. a \<le> j \<Longrightarrow> j < k \<Longrightarrow> \<not> P j"
  shows "find P [a .. b :: int] = Some k"
proof -
  have "[a .. b] = [a .. k - 1] @ k # [k + 1 .. b]"
    using upto_split1[of a k b] upto_rec1[of k b] assms(1,2) by simp
  thus ?thesis using assms(3,4) by (simp add: find_append_first)
qed

text \<open>The rows of the table as numbers: the edges of the twenty-four built-in bands.\<close>

lemma built_in_edges:
  "map (\<lambda>bd. (bd_frequencyMin bd, bd_frequencyMax bd)) (take 24 bands0) =
     [(135700, 137800), (472000, 479000), (1810000, 2000000), (3500000, 4000000),
      (5258500, 5403500), (7000000, 7300000), (10100000, 10150000), (14000000, 14350000),
      (18068000, 18168000), (21000000, 21450000), (24890000, 24990000), (28000000, 29700000),
      (50000000, 54000000), (0, 0), (0, 0), (70000000, 70500000), (144000000, 148000000),
      (222000000, 224980000), (420000000, 450000000), (902000000, 928000000),
      (1240000000, 1300000000), (2300000000, 2450000000), (3400000000, 3410000000),
      (108000000, 137000000)]"
  by (simp add: bands0_def bnd_def bandstack_defs)

lemma int_below_24:
  assumes "0 \<le> b" "b < 24"
  shows "b \<in> {0, 1, 2, 3, 4, 5, 6, 7, 8, 9, 10, 11, 12, 13, 14, 15, 16, 17, 18, 19, 20, 21, 22, 23 :: int}"
proof -
  have "b \<in> set [0 .. 23]" using assms by simp
  thus ?thesis by (simp add: upto.simps)
qed

text \<open>Two rows have no positive frequency in common.\<close>

definition apart :: "int \<times> int \<Rightarrow> int \<times> int \<Rightarrow> bool" where
  "apart p q \<longleftrightarrow> snd p < fst q \<or> snd q < fst p \<or> snd p \<le> 0 \<or> snd q \<le> 0"

lemma edges_apart: "sorted_wrt apart (map (\<lambda>bd. (bd_frequencyMin bd, bd_frequencyMax bd)) (take 24 bands0))"
  unfolding built_in_edges by (simp add: apart_def)

lemma edges_disjoint:
  assumes "0 \<le> b" "b < 24" "0 \<le> c" "c < 24" "0 < f"
    "bd_frequencyMin (bands0 ! nat b) \<le> f" "f \<le> bd_frequencyMax (bands0 ! nat b)"
    "bd_frequencyMin (bands0 ! nat c) \<le> f" "f \<le> bd_frequencyMax (bands0 ! nat c)"
  shows "b = c"
proof -
  have l: "length bands0 \<ge> 24" by (simp add: bands0_def)
  have apart: "apart (bd_frequencyMin (bands0 ! i), bd_frequencyMax (bands0 ! i))
      (bd_frequencyMin (bands0 ! j), bd_frequencyMax (bands0 ! j))" if "i < j" "j < 24" for i j
    using sorted_wrt_nth_less[OF edges_apart that(1)] that l by simp
  have "\<not> nat b < nat c" using apart[of "nat b" "nat c"] assms(4-9) unfolding apart_def fst_conv snd_conv by linarith
  moreover have "\<not> nat c < nat b" using apart[of "nat c" "nat b"] assms(2,5-9) unfolding apart_def fst_conv snd_conv by linarith
  ultimately show ?thesis using assms(1,3) by linarith
qed

text \<open>A frequency inside one of the built-in bands belongs to that band and to no
other, whatever transverters there are.\<close>

theorem band_of_frequency:
  assumes "take 24 (r_bands r) = take 24 bands0" "r_hl2 r = None \<or> b \<noteq> band6" "0 \<le> b" "b < BANDS" "0 < f"
    "bd_frequencyMin (bands0 ! nat b) \<le> f" "f \<le> bd_frequencyMax (bands0 ! nat b)"
  shows "get_band_from_frequency r f = b"
proof -
  have same: "r_bands r ! nat c = bands0 ! nat c" if "0 \<le> c" "c < 24" for c
    using arg_cong[OF assms(1), where f = "\<lambda>l. l ! nat c"] that by simp
  have t: "bd_title (bands0 ! nat b) \<noteq> []"
    using int_below_24[of b] assms(3,4) by (auto simp: BANDS_def bands0_def bnd_def bandstack_defs)
  have "find (band_holds r f) [0 .. BANDS + XVTRS - 1] = Some b"
  proof (rule find_upto)
    show "band_holds r f b" using assms same[of b] t by (auto simp: band_holds_def band_get_band_def BANDS_def)
    show "\<not> band_holds r f j" if "0 \<le> j" "j < b" for j
      using edges_disjoint[of b j f] that assms(3-7) same[of j]
      by (auto simp: band_holds_def band_get_band_def Let_def BANDS_def)
  qed (use assms in \<open>auto simp: BANDS_def XVTRS_def\<close>)
  thus ?thesis by (simp add: get_band_from_frequency_def)
qed

definition bands_radio :: radio where
  "bands_radio = radio0\<lparr>r_bands := bands0\<rparr>"

theorem band_of_frequency_witness: "get_band_from_frequency bands_radio 14195000 = band20"
proof -
  have "bands0 ! nat band20 = bnd ''20'' bandstack20 14000000 14350000 0 0 False"
    by (simp add: bands0_def band20_def)
  thus ?thesis
    by (intro band_of_frequency)
       (simp_all add: bands_radio_def radio0_def bnd_def bandstack20_def band20_def BANDS_def)
qed

definition band_edges :: "band \<Rightarrow> string \<times> int \<times> int" where
  "band_edges bd = (bd_title bd, bd_frequencyMin bd, bd_frequencyMax bd)"

lemma outside_is_general:
  assumes "map band_edges (r_bands r) = map band_edges bands0"
    "\<forall>bd \<in> set (take 24 bands0). \<not> (bd_frequencyMin bd \<le> f \<and> f \<le> bd_frequencyMax bd)"
  shows "get_band_from_frequency r f = bandGen"
proof -
  have l: "length bands0 = 32" by (simp add: bands0_def)
  have x: "\<forall>bd \<in> set (drop 24 bands0). bd_title bd = []" by (simp add: bands0_def bnd_def bandstack_xvtr_def)
  have "\<not> band_holds r f b" if b: "0 \<le> b" "b < 32" for b
  proof -
    have n: "nat b < length bands0" "length (r_bands r) = length bands0" using b l arg_cong[OF assms(1), of length] by simp_all
    hence e: "band_edges (r_bands r ! nat b) = band_edges (bands0 ! nat b)"
      using arg_cong[OF assms(1), where f = "\<lambda>xs. xs ! nat b"] by simp
    show ?thesis
    proof (cases "b < 24")
      case True
      hence "nat b < 24" by simp
      hence "bands0 ! nat b \<in> set (take 24 bands0)" using l by (auto simp: in_set_conv_nth intro!: exI[of _ "nat b"])
      thus ?thesis using e assms(2) by (auto simp: band_holds_def band_get_band_def band_edges_def Let_def)
    next
      case False
      hence "24 \<le> nat b" by simp
      hence "bands0 ! nat b \<in> set (drop 24 bands0)" using l b
        by (auto simp: in_set_conv_nth intro!: exI[of _ "nat b - 24"])
      thus ?thesis using e x by (auto simp: band_holds_def band_get_band_def band_edges_def Let_def)
    qed
  qed
  hence "find (band_holds r f) [0 .. BANDS + XVTRS - 1] = None"
    by (simp add: find_None_iff BANDS_def XVTRS_def)
  thus ?thesis by (simp add: get_band_from_frequency_def)
qed

text \<open>Entries of the built-in band stacks that do not lie in their own band: the last
channel of the 60 m list, all of 220 MHz, and the whole WWV band, which has no edges at all.
Each of them is general coverage as soon as it is tuned.\<close>

lemma stack_outside_its_band:
  assumes "e \<in> {bd_entry (bands0 ! 4) ! 10} \<union> set (bd_entry (bands0 ! 14)) \<union> set (bd_entry (bands0 ! 17))"
  shows "get_band_from_frequency bands_radio (be_frequency e) = bandGen"
proof (rule outside_is_general)
  have "be_frequency e \<in> {5405000, 2500000, 5000000, 10000000, 15000000, 20000000, 220010000, 220200000, 220250000}"
    using assms by (auto simp: bands0_def bnd_def bse_def bandstack60_def bandstack_entries60_UK_def bandstackWWV_def
        bandstack_entriesWWV_def bandstack220_def bandstack_entries220_def)
  moreover have "\<forall>bd \<in> set (take 24 bands0). \<not> (bd_frequencyMin bd \<le> f \<and> f \<le> bd_frequencyMax bd)"
    if "f \<in> {5405000, 2500000, 5000000, 10000000, 15000000, 20000000, 220010000, 220200000, 220250000}" for f
  proof -
    have "\<forall>x \<in> set (map (\<lambda>bd. (bd_frequencyMin bd, bd_frequencyMax bd)) (take 24 bands0)). \<not> (fst x \<le> f \<and> f \<le> snd x)"
      unfolding built_in_edges using that by auto
    thus ?thesis by simp
  qed
  ultimately show "\<forall>bd \<in> set (take 24 bands0). \<not> (bd_frequencyMin bd \<le> be_frequency e \<and> be_frequency e \<le> bd_frequencyMax bd)"
    by blast
qed (simp add: bands_radio_def)

text \<open>Stepping down from a band ends on one the radio can tune, or on the first.\<close>

lemma back_to_tunable_result:
  "0 \<le> b \<Longrightarrow> let c = back_to_tunable r b in 0 \<le> c \<and> c \<le> b \<and>
     (c = 0 \<or> bd_frequencyMin (band_get_band r c) \<le> d_frequency_max (r_discovered r))"
proof (induction r b rule: back_to_tunable.induct)
  case (1 r b)
  show ?case
  proof (cases "bd_frequencyMin (band_get_band r b) > d_frequency_max (r_discovered r) \<and> b > 0")
    case True thus ?thesis using 1 by (subst back_to_tunable.simps) (auto simp: Let_def)
  next
    case False
    hence "back_to_tunable r b = b" by (subst back_to_tunable.simps) auto
    thus ?thesis using False 1(2) by (auto simp: Let_def)
  qed
qed

text \<open>Stack steps go round: forward from the last entry is the first, and back again.\<close>

lemma stack_steps_cycle:
  assumes "nat b < length bs" "0 \<le> bd_current_entry (bs ! nat b)" "bd_current_entry (bs ! nat b) < bd_entries (bs ! nat b)"
  shows "fst (bandstack_entry_previous b (fst (bandstack_entry_next b bs))) = bs"
  using assms by (auto simp: bandstack_entry_previous_def bandstack_entry_next_def stack_step_def Let_def list_update_same_conv)

end
