(* ===== verification/Vfo.thy ===== *)
theory Vfo
  imports Bands "HOL-Library.Signed_Division"
begin

text \<open>Tuning: what moves a receiver's two VFOs, its mode and its filter
(\<open>src/core/receiver.c\<close>, \<open>radio.c\<close>, \<open>ui/vfo.c\<close>, \<open>core/subrx.c\<close>,
\<open>core/transmitter.c\<close>, \<open>set_band\<close> of \<open>core/band.c\<close>).

The state is the radio, the receiver being tuned (taken out of the radio's table, at
\<open>t_index\<close>), the global filter tables, the hidden receiver of a diversity mixer that
shows this one, and the list of what the operations tell the rest of the program: the DSP
channel, the radio's protocol, the display, the TCI server.

A device of protocol 1 or 2 is modelled: the SoapySDR parts of these functions (a receiver
that shares another one's hardware channel) return at once for them. Pushes to the DSP are
one event each; the rebuild of a DSP channel on a change of its rate and the panels of the
decoders, which follow a change of mode, are not modelled.\<close>

section \<open>State and events\<close>

datatype tune_event =
    Ev_Shift real bool | Ev_FeedShift real | Ev_NotchShift real | Ev_NotchTune int | Ev_NotchSync
  | Ev_HiddenShift int | Ev_HighPriority | Ev_TciVfo | Ev_TciMode | Ev_Vfo | Ev_TxPanadapter
  | Ev_RxMode int | Ev_Passband int int | Ev_Deviation int | Ev_Squelch real bool | Ev_Agc int
  | Ev_Apf | Ev_Noise | Ev_TxMode int | Ev_TxPassband int int
  | Ev_SubShift real | Ev_SubMode int | Ev_SubPassband int int | Ev_SubDeviation int
  | Ev_CreateSubrx | Ev_DestroySubrx | Ev_OutOfTable

record tuner =
  t_radio :: radio
  t_index :: nat
  t_rx :: receiver
  t_filters :: filter_table
  t_hidden :: "receiver option"
  t_startup_done :: bool
  t_out :: "tune_event list"

definition out :: "tune_event \<Rightarrow> tuner \<Rightarrow> tuner" where
  "out e t = t\<lparr>t_out := t_out t @ [e]\<rparr>"

definition upd :: "(receiver \<Rightarrow> receiver) \<Rightarrow> tuner \<Rightarrow> tuner" where
  "upd f t = t\<lparr>t_rx := f (t_rx t)\<rparr>"

text \<open>The radio with the receiver back in its place.\<close>

definition tuned_radio :: "tuner \<Rightarrow> radio" where
  "tuned_radio t = (t_radio t)\<lparr>r_receiver := (r_receiver (t_radio t))[t_index t := Some (t_rx t)]\<rparr>"

text \<open>\<open>radio->transmitter->rx==rx\<close>\<close>

definition owns_tx :: "tuner \<Rightarrow> bool" where
  "owns_tx t = (tx_rx (r_transmitter (t_radio t)) = Some (t_index t))"

section \<open>Limits\<close>

definition RECEIVER_FREQ_CEILING_HZ :: int where "RECEIVER_FREQ_CEILING_HZ = 20000000000"
definition RX_SPAN_EDGE_MARGIN_PCT :: int where "RX_SPAN_EDGE_MARGIN_PCT = 15"

definition xvtr_top :: "radio \<Rightarrow> int" where
  "xvtr_top r = fold (\<lambda>b top. let xb = band_get_band r b
                              in if bd_title xb \<noteq> [] \<and> bd_frequencyMax xb > top then bd_frequencyMax xb else top)
                     [BANDS .. BANDS + XVTRS - 1] 0"

definition receiver_max_frequency :: "radio \<Rightarrow> receiver \<Rightarrow> int" where
  "receiver_max_frequency r rx =
     (let dev = d_frequency_max (r_discovered r);
          cap = (if dev > 0 \<and> dev < RECEIVER_FREQ_CEILING_HZ then dev else RECEIVER_FREQ_CEILING_HZ);
          margin = (if rx_sample_rate rx > 1000000 then rx_sample_rate rx else 1000000)
      in if xvtr_top r > 0 \<and> xvtr_top r + margin > cap then xvtr_top r + margin else cap)"

section \<open>The transmitter's filter and mode\<close>

definition set_actual :: "int \<Rightarrow> int \<Rightarrow> transmitter \<Rightarrow> transmitter" where
  "set_actual low high tx = tx\<lparr>tx_actual_filter_low := low, tx_actual_filter_high := high\<rparr>"

definition plain_tx_filter :: "int \<Rightarrow> int \<Rightarrow> int \<Rightarrow> transmitter \<Rightarrow> transmitter" where
  "plain_tx_filter mode low high tx =
     (if mode \<in> {LSB, CWL, DIGL} then set_actual (- high) (- low) tx
      else if mode \<in> {USB, CWU, DIGU} then set_actual low high tx
      else if mode \<in> {DSB, AM, SAM} then set_actual (- high) high tx
      else if mode = FMN then (if tx_deviation tx = 2500 then set_actual (- 4000) 4000 tx
                               else set_actual (- 8000) 8000 tx)
      else if mode = DRM then set_actual 7000 17000 tx
      else tx)"

definition rx_tx_filter :: "int \<Rightarrow> int \<Rightarrow> filter_entry \<Rightarrow> transmitter \<Rightarrow> transmitter" where
  "rx_tx_filter mode pitch f tx =
     (if mode = CWL then set_actual (- pitch - fl_low f) (- pitch + fl_high f) tx
      else if mode = CWU then set_actual (pitch - fl_low f) (pitch + fl_high f) tx
      else set_actual (fl_low f) (fl_high f) tx)"

definition transmitter_set_filter :: "int \<Rightarrow> int \<Rightarrow> tuner \<Rightarrow> tuner" where
  "transmitter_set_filter low high t =
     (let r = tuned_radio t; tx = r_transmitter r; mode = transmitter_get_mode r;
          row = (case tx_receiver r of Some rx \<Rightarrow> rx_filter_a rx | None \<Rightarrow> F5)
      in if tx_use_rx_filter tx then
           (case filter_at (t_filters t) mode row of
              None \<Rightarrow> out Ev_OutOfTable t
            | Some f \<Rightarrow> (let tx1 = rx_tx_filter mode (r_cw_keyer_sidetone_frequency r) f tx
                in out (Ev_TxPassband (tx_actual_filter_low tx1) (tx_actual_filter_high tx1))
                     (t\<lparr>t_radio := (t_radio t)\<lparr>r_transmitter := tx1\<rparr>\<rparr>)))
         else (let tx1 = plain_tx_filter mode low high tx
               in out (Ev_TxPassband (tx_actual_filter_low tx1) (tx_actual_filter_high tx1))
                    (t\<lparr>t_radio := (t_radio t)\<lparr>r_transmitter := tx1\<rparr>\<rparr>)))"

definition transmitter_set_mode :: "int \<Rightarrow> tuner \<Rightarrow> tuner" where
  "transmitter_set_mode mode t =
     transmitter_set_filter (tx_filter_low (r_transmitter (t_radio t))) (tx_filter_high (r_transmitter (t_radio t)))
       (out (Ev_TxMode mode) t)"

section \<open>The sub-receiver\<close>

definition subrx_frequency_changed :: "tuner \<Rightarrow> tuner" where
  "subrx_frequency_changed t =
     out (Ev_SubShift (real_of_int (rx_frequency_b (t_rx t) - rx_frequency_a (t_rx t)) + rx_lo_trim (t_rx t))) t"

definition subrx_filter_changed :: "tuner \<Rightarrow> tuner" where
  "subrx_filter_changed t =
     (if rx_mode_b (t_rx t) = FMN then out (Ev_SubDeviation (rx_deviation (t_rx t))) t
      else out (Ev_SubPassband (rx_filter_low_b (t_rx t)) (rx_filter_high_b (t_rx t))) t)"

definition subrx_mode_changed :: "tuner \<Rightarrow> tuner" where
  "subrx_mode_changed t = subrx_filter_changed (out (Ev_SubMode (rx_mode_b (t_rx t))) t)"

text \<open>Opening the sub-receiver brings VFO B into the span.\<close>

definition create_subrx :: "tuner \<Rightarrow> tuner" where
  "create_subrx t =
     (let t1 = out Ev_CreateSubrx t;
          t2 = upd (\<lambda>rx. rx\<lparr>rx_subrx := True,
                            rx_ctun_min := rx_frequency_a rx - rx_sample_rate rx sdiv 2,
                            rx_ctun_max := rx_frequency_a rx + rx_sample_rate rx sdiv 2\<rparr>) t1;
          t3 = upd (\<lambda>rx. if rx_frequency_b rx < rx_ctun_min rx \<or> rx_frequency_b rx > rx_ctun_max rx
                         then rx\<lparr>rx_frequency_b := rx_frequency_a rx\<rparr> else rx) t2
      in subrx_mode_changed (subrx_frequency_changed t3))"

definition destroy_subrx :: "tuner \<Rightarrow> tuner" where
  "destroy_subrx t = (if rx_subrx (t_rx t) then upd (\<lambda>rx. rx\<lparr>rx_subrx := False\<rparr>) (out Ev_DestroySubrx t) else t)"

section \<open>Where the radio is tuned\<close>

text \<open>The frequency the radio is commanded to, and telling it.\<close>

definition hw_frequency :: "receiver \<Rightarrow> int" where
  "hw_frequency rx = rx_frequency_a rx - rx_lo_a rx + rx_error_a rx"

definition rx_push_hw_frequency :: "bool \<Rightarrow> tuner \<Rightarrow> tuner" where
  "rx_push_hw_frequency force t =
     (let cmd = hw_frequency (t_rx t)
      in if \<not> force \<and> cmd = rx_hw_frequency (t_rx t) then t
         else (let t1 = upd (\<lambda>rx. rx\<lparr>rx_hw_frequency := cmd\<rparr>) t
               in if d_protocol (r_discovered (t_radio t)) = PROTOCOL_2 then out Ev_HighPriority t1 else t1))"

definition tx_push_hw_frequency :: "tuner \<Rightarrow> tuner" where
  "tx_push_hw_frequency t =
     (if \<not> owns_tx t then t
      else if \<not> isTransmitting (t_radio t) then t
      else if d_protocol (r_discovered (t_radio t)) = PROTOCOL_2 then out Ev_HighPriority t else t)"

definition receiver_apply_shift :: "int \<Rightarrow> bool \<Rightarrow> tuner \<Rightarrow> tuner" where
  "receiver_apply_shift offset run t =
     (let t1 = upd (\<lambda>rx. rx\<lparr>rx_shift_offset := offset, rx_shift_run := run\<rparr>) t;
          t2 = upd (\<lambda>rx. if rx_lo_trim rx \<noteq> 0 \<and>
                             (rx_error_a rx \<noteq> rx_lo_trim_error rx \<or> rx_band_a rx \<noteq> rx_lo_trim_band rx)
                         then rx\<lparr>rx_lo_trim := 0\<rparr> else rx) t1;
          hz = (if run then real_of_int offset else 0);
          trim = rx_lo_trim (t_rx t2);
          t3 = out (Ev_NotchShift hz) t2
      in if rx_dsp_feed (t_rx t3)
         then out (Ev_Shift 0 False) (out (Ev_FeedShift (hz + trim)) t3)
         else out (Ev_Shift (hz + trim) (run \<or> trim \<noteq> 0)) t3)"

definition receiver_sync_vfo_b_lo :: "tuner \<Rightarrow> tuner" where
  "receiver_sync_vfo_b_lo t =
     (let b = get_band_from_frequency (t_radio t) (rx_frequency_b (t_rx t));
          bd = band_get_band (t_radio t) b
      in upd (\<lambda>rx. rx\<lparr>rx_band_b := b, rx_lo_b := bd_frequencyLO bd, rx_error_b := bd_errorLO bd\<rparr>) t)"

definition update_frequency :: "tuner \<Rightarrow> tuner" where
  "update_frequency t =
     (let t1 = receiver_sync_vfo_b_lo t;
          t2 = (if rx_vfo (t_rx t1) then out Ev_Vfo t1 else t1)
      in if owns_tx t2 then out Ev_TxPanadapter t2 else t2)"

text \<open>A converter is dropped when the dial leaves every band that uses it, and when it
puts the hardware where it cannot tune.\<close>

definition on_converter_band :: "radio \<Rightarrow> receiver \<Rightarrow> int \<Rightarrow> bool" where
  "on_converter_band r rx b =
     (let bb = band_get_band r b
      in bd_title bb \<noteq> [] \<and> bd_frequencyLO bb = rx_lo_a rx \<and>
         bd_frequencyMin bb \<le> rx_frequency_a rx \<and> rx_frequency_a rx \<le> bd_frequencyMax bb)"

definition receiver_sync_transverter :: "tuner \<Rightarrow> tuner" where
  "receiver_sync_transverter t =
     (let r = t_radio t; rx = t_rx t
      in if rx_lo_a rx = 0 \<or> \<not> t_startup_done t then t
         else (case find (on_converter_band r rx) [0 .. BANDS + XVTRS - 1] of
             Some b \<Rightarrow> upd (\<lambda>rx. rx\<lparr>rx_band_a := b\<rparr>) t
           | None \<Rightarrow>
               (let real = rx_frequency_a rx - rx_lo_a rx;
                    dev_min = d_frequency_min (r_discovered r);
                    dev_max = (if d_frequency_max (r_discovered r) > 0 then d_frequency_max (r_discovered r)
                               else RECEIVER_FREQ_CEILING_HZ)
                in if dev_min \<le> real \<and> real \<le> dev_max then
                     (let nb = get_band_from_frequency r real; nbb = band_get_band r nb
                      in upd (\<lambda>rx. rx\<lparr>rx_band_a := nb, rx_lo_a := bd_frequencyLO nbb,
                                      rx_error_a := bd_errorLO nbb, rx_frequency_a := real + bd_frequencyLO nbb\<rparr>) t)
                   else upd (\<lambda>rx. rx\<lparr>rx_lo_a := 0, rx_error_a := 0,
                                    rx_band_a := get_band_from_frequency r (rx_frequency_a rx)\<rparr>) t)))"

definition sync_hidden :: "tuner \<Rightarrow> tuner" where
  "sync_hidden t =
     t\<lparr>t_hidden := map_option (\<lambda>h. h\<lparr>rx_frequency_a := rx_frequency_a (t_rx t),
                                      rx_frequency_b := rx_frequency_b (t_rx t)\<rparr>) (t_hidden t)\<rparr>"

definition hl2_converter :: "tuner \<Rightarrow> tuner" where
  "hl2_converter t =
     (case r_hl2 (t_radio t) of None \<Rightarrow> t
      | Some h \<Rightarrow>
          (let lo = rx_lo_a (t_rx t);
               h1 = (if lo \<noteq> 0 then HL2clock2Status (h\<lparr>xvtr := True\<rparr>) True lo
                     else HL2clock2Status (h\<lparr>xvtr := False\<rparr>) False lo)
           in t\<lparr>t_radio := (t_radio t)\<lparr>r_hl2 := Some h1\<rparr>\<rparr>))"

definition tune_cursor :: "tuner \<Rightarrow> tuner" where
  "tune_cursor t =
     (let t1 = upd (\<lambda>rx. rx\<lparr>rx_ctun_offset := rx_ctun_frequency rx - rx_frequency_a rx\<rparr>) t;
          rx1 = t_rx t1;
          offset = rx_ctun_offset rx1 + (if rx_rit_enabled rx1 then rx_rit rx1 else 0);
          t2 = receiver_apply_shift offset True t1;
          t3 = out (Ev_NotchTune (rx_frequency_a (t_rx t2))) t2;
          t4 = (case t_hidden t3 of None \<Rightarrow> t3 | Some h \<Rightarrow> out (Ev_HiddenShift offset) t3);
          t5 = (if rx_freetune (t_rx t4)
                then upd (\<lambda>rx. rx\<lparr>rx_band_a := get_band_from_frequency (t_radio t4) (rx_frequency_a rx)\<rparr>) t4
                else t4)
      in rx_push_hw_frequency False t5)"

definition tune_centre :: "tuner \<Rightarrow> tuner" where
  "tune_centre t =
     (let t1 = receiver_apply_shift 0 False (upd (\<lambda>rx. rx\<lparr>rx_ctun_offset := 0\<rparr>) t);
          t2 = upd (\<lambda>rx. rx\<lparr>rx_band_a := get_band_from_frequency (t_radio t1) (rx_frequency_a rx)\<rparr>) t1
      in rx_push_hw_frequency True (out (Ev_NotchTune (rx_frequency_a (t_rx t2))) t2))"

definition subrx_in_passband :: "receiver \<Rightarrow> receiver" where
  "subrx_in_passband rx =
     (let min_frequency = rx_frequency_a rx - rx_sample_rate rx sdiv 2;
          max_frequency = rx_frequency_a rx + rx_sample_rate rx sdiv 2;
          filter_low_frequency = rx_frequency_b rx + rx_filter_low_b rx;
          filter_high_frequency = rx_frequency_b rx + rx_filter_high_b rx
      in if filter_low_frequency < min_frequency
         then rx\<lparr>rx_frequency_b := min_frequency + rx_filter_low_b rx\<rparr>
         else if filter_high_frequency > max_frequency
         then rx\<lparr>rx_frequency_b := max_frequency - rx_filter_high_b rx\<rparr> else rx)"

definition dsp_retune :: "tuner \<Rightarrow> tuner" where
  "dsp_retune t = (if rx_ctun (t_rx t) \<or> rx_freetune (t_rx t) then tune_cursor t else tune_centre t)"

definition notch_retune :: "tuner \<Rightarrow> tuner" where
  "notch_retune t = (if rx_channel (t_rx t) \<ge> 0 \<and> rx_has_af_notch (t_rx t) then out Ev_NotchSync t else t)"

definition subrx_retune :: "tuner \<Rightarrow> tuner" where
  "subrx_retune t =
     (if rx_subrx_enable (t_rx t) then subrx_frequency_changed (upd subrx_in_passband t) else t)"

definition frequency_changed :: "tuner \<Rightarrow> tuner" where
  "frequency_changed t =
     (let t1 = receiver_sync_transverter t;
          t2 = sync_hidden t1;
          t3 = hl2_converter t2;
          t4 = dsp_retune t3;
          t5 = tx_push_hw_frequency t4;
          t6 = notch_retune t5;
          t7 = subrx_retune t6;
          t8 = receiver_sync_vfo_b_lo t7
      in out Ev_TciVfo t8)"

section \<open>Moving the VFOs\<close>

definition round_step :: "bool \<Rightarrow> receiver \<Rightarrow> int \<Rightarrow> int" where
  "round_step rnd rx f =
     (if rnd \<and> rx_mode_a rx \<noteq> CWL \<and> rx_mode_a rx \<noteq> CWU then f sdiv rx_step rx * rx_step rx else f)"

text \<open>Freetune: the span slides along when the cursor comes near its edge.\<close>

definition freetune_follow :: "receiver \<Rightarrow> receiver" where
  "freetune_follow rx =
     (let span_half = rx_sample_rate rx sdiv 2;
          span_min = rx_frequency_a rx - span_half;
          span_max = rx_frequency_a rx + span_half;
          threshold = span_half * RX_SPAN_EDGE_MARGIN_PCT sdiv 100;
          centre = (\<lambda>f. rx\<lparr>rx_frequency_a := f, rx_ctun_min := f - span_half, rx_ctun_max := f + span_half\<rparr>)
      in if rx_ctun_frequency rx > span_max - threshold
         then centre (rx_frequency_a rx + (rx_ctun_frequency rx - (span_max - threshold)))
         else if rx_ctun_frequency rx < span_min + threshold
         then centre (rx_frequency_a rx - ((span_min + threshold) - rx_ctun_frequency rx))
         else rx\<lparr>rx_ctun_frequency := min span_max (max span_min (rx_ctun_frequency rx))\<rparr>)"

definition out_of_range :: "int \<Rightarrow> int \<Rightarrow> int \<Rightarrow> bool" where
  "out_of_range fmax cur nf = ((nf < 0 \<and> nf < cur) \<or> (nf > fmax \<and> nf > cur))"

definition move_a :: "int \<Rightarrow> int \<Rightarrow> bool \<Rightarrow> receiver \<Rightarrow> receiver \<times> int" where
  "move_a fmax hz rnd rx =
     (if rx_locked rx then (rx, 0)
      else (let use_ctun = rx_ctun rx \<or> rx_freetune rx;
                cur = (if use_ctun then rx_ctun_frequency rx else rx_frequency_a rx);
                nf = (if use_ctun then cur + hz else cur - hz)
            in if out_of_range fmax cur nf then (rx, 0)
               else if use_ctun then
                 (let rx1 = rx\<lparr>rx_ctun_frequency := cur + hz\<rparr>;
                      rx2 = (if rx_freetune rx1 then freetune_follow rx1 else rx1);
                      rx3 = rx2\<lparr>rx_ctun_frequency := round_step rnd rx2 (rx_ctun_frequency rx2)\<rparr>
                  in (rx3, rx_ctun_frequency rx3 - cur))
               else
                 (let rx1 = rx\<lparr>rx_frequency_a := round_step rnd rx (cur - hz)\<rparr>
                  in (rx1, rx_frequency_a rx1 - cur))))"

definition receiver_move_a :: "int \<Rightarrow> bool \<Rightarrow> tuner \<Rightarrow> tuner \<times> int" where
  "receiver_move_a hz rnd t =
     (let (rx, delta) = move_a (receiver_max_frequency (t_radio t) (t_rx t)) hz rnd (t_rx t)
      in (t\<lparr>t_rx := rx\<rparr>, delta))"

definition set_b :: "bool \<Rightarrow> int \<Rightarrow> receiver \<Rightarrow> receiver" where
  "set_b rnd f rx = rx\<lparr>rx_frequency_b := (if rnd then f sdiv rx_step rx * rx_step rx else f)\<rparr>"

text \<open>With the sub-receiver open, a B outside the span goes back to where it was.\<close>

definition b_in_span :: "int \<Rightarrow> receiver \<Rightarrow> receiver" where
  "b_in_span f rx =
     (if rx_subrx rx then
        (let rx1 = rx\<lparr>rx_ctun_min := rx_frequency_a rx - rx_sample_rate rx sdiv 2,
                      rx_ctun_max := rx_frequency_a rx + rx_sample_rate rx sdiv 2\<rparr>
         in if rx_frequency_b rx1 < rx_ctun_min rx1 \<or> rx_frequency_b rx1 > rx_ctun_max rx1
            then rx1\<lparr>rx_frequency_b := f\<rparr> else rx1)
      else rx)"

definition receiver_move_b :: "int \<Rightarrow> bool \<Rightarrow> bool \<Rightarrow> tuner \<Rightarrow> tuner" where
  "receiver_move_b hz b_only rnd t =
     (if rx_locked (t_rx t) then t
      else (let fmax = receiver_max_frequency (t_radio t) (t_rx t);
                f = rx_frequency_b (t_rx t);
                nf = f + hz
            in if (nf \<le> 0 \<and> nf < f) \<or> (nf > fmax \<and> nf > f) then t
               else (case rx_split (t_rx t) of
                   SPLIT_OFF \<Rightarrow> update_frequency (upd (set_b rnd (f + hz)) t)
                 | SPLIT_ON \<Rightarrow> update_frequency (upd (set_b rnd (f + hz)) t)
                 | SPLIT_SAT \<Rightarrow>
                     (let t1 = upd (b_in_span f) (upd (set_b rnd (f + hz)) t);
                          t2 = (if \<not> b_only \<and> rx_vfo_linked (t_rx t1)
                                then frequency_changed (fst (receiver_move_a hz rnd t1)) else t1)
                      in update_frequency t2)
                 | SPLIT_RSAT \<Rightarrow>
                     (let t1 = upd (b_in_span f) (upd (set_b rnd (f - hz)) t)
                      in if \<not> b_only \<and> rx_vfo_linked (t_rx t1)
                         then update_frequency (frequency_changed (fst (receiver_move_a (- hz) rnd t1)))
                         else t1))))"

definition satellite :: "split_type \<Rightarrow> bool" where
  "satellite s = (s = SPLIT_SAT \<or> s = SPLIT_RSAT)"

definition receiver_move :: "int \<Rightarrow> bool \<Rightarrow> tuner \<Rightarrow> tuner" where
  "receiver_move hz rnd t =
     (if rx_locked (t_rx t) then t
      else (let (t1, delta) = receiver_move_a hz rnd t;
                t2 = (if satellite (rx_split (t_rx t1)) \<and> rx_vfo_linked (t_rx t1)
                      then receiver_move_b delta True rnd t1 else t1)
            in update_frequency (frequency_changed t2)))"

definition trunc_real :: "real \<Rightarrow> int" where
  "trunc_real x = (if 0 \<le> x then \<lfloor>x\<rfloor> else \<lceil>x\<rceil>)"

definition move_to :: "int \<Rightarrow> int \<Rightarrow> receiver \<Rightarrow> receiver \<times> int" where
  "move_to pitch hz rx =
     (let start = rx_frequency_a rx - rx_sample_rate rx sdiv 2;
          f0 = start + hz + trunc_real (real_of_int (rx_pan rx) * rx_hz_per_pixel rx);
          f = f0 sdiv rx_step rx * rx_step rx;
          cw_offset = (if rx_mode_a rx = CWU then - pitch else if rx_mode_a rx = CWL then pitch else 0)
      in if rx_ctun rx \<or> rx_freetune rx then
           (let span_min = rx_frequency_a rx - rx_sample_rate rx sdiv 2;
                span_max = rx_frequency_a rx + rx_sample_rate rx sdiv 2;
                c = f + cw_offset;
                c1 = (if rx_freetune rx then min span_max (max span_min c) else c)
            in (rx\<lparr>rx_ctun_frequency := c1\<rparr>, c1 - rx_ctun_frequency rx))
         else if rx_split rx = SPLIT_ON \<and> rx_mode_a rx \<in> {CWL, CWU, USB, LSB}
         then (rx\<lparr>rx_frequency_b := f + cw_offset\<rparr>, 0)
         else (rx\<lparr>rx_frequency_a := f + cw_offset\<rparr>, f + cw_offset - rx_frequency_a rx))"

definition receiver_move_to :: "int \<Rightarrow> tuner \<Rightarrow> tuner" where
  "receiver_move_to hz t =
     (if rx_locked (t_rx t) then t
      else (let (rx, delta) = move_to (r_cw_keyer_sidetone_frequency (t_radio t)) hz (t_rx t);
                t1 = t\<lparr>t_rx := rx\<rparr>;
                t2 = (case rx_split rx of
                    SPLIT_SAT \<Rightarrow> if rx_vfo_linked rx then receiver_move_b delta True True t1 else t1
                  | SPLIT_RSAT \<Rightarrow> if rx_vfo_linked rx then receiver_move_b (- delta) True True t1 else t1
                  | _ \<Rightarrow> t1)
            in update_frequency (frequency_changed t2)))"

definition move_span :: "int \<Rightarrow> receiver \<Rightarrow> receiver" where
  "move_span nf rx =
     (let delta = nf - rx_frequency_a rx;
          span_half = rx_sample_rate rx sdiv 2;
          margin = span_half * RX_SPAN_EDGE_MARGIN_PCT sdiv 100;
          lo = nf - span_half + margin;
          hi = nf + span_half - margin;
          c = rx_ctun_frequency rx;
          c1 = (if rx_ctun rx \<or> rx_freetune rx then (if c < lo then lo else if c > hi then hi else c)
                else c + delta)
      in rx\<lparr>rx_frequency_a := nf, rx_ctun_frequency := c1,
            rx_ctun_min := nf - span_half, rx_ctun_max := nf + span_half\<rparr>)"

definition receiver_move_span :: "int \<Rightarrow> tuner \<Rightarrow> tuner" where
  "receiver_move_span hz t =
     (let rx = t_rx t; fmax = receiver_max_frequency (t_radio t) rx; nf = rx_frequency_a rx - hz
      in if rx_locked rx \<or> hz = 0 \<or> out_of_range fmax (rx_frequency_a rx) nf then t
         else (let t1 = upd (move_span nf) t;
                   tuned = rx_ctun_frequency (t_rx t1) - rx_ctun_frequency rx;
                   t2 = (if satellite (rx_split rx) \<and> rx_vfo_linked rx \<and> tuned \<noteq> 0
                         then receiver_move_b tuned True False t1 else t1)
               in update_frequency (frequency_changed t2)))"

definition freetune_on :: "receiver \<Rightarrow> receiver" where
  "freetune_on rx =
     (let c = (if rx_ctun rx then rx_ctun_frequency rx else rx_frequency_a rx);
          lo = rx_frequency_a rx - rx_sample_rate rx sdiv 2;
          hi = rx_frequency_a rx + rx_sample_rate rx sdiv 2
      in rx\<lparr>rx_ctun_min := lo, rx_ctun_max := hi, rx_ctun_frequency := min hi (max lo c),
            rx_hw_frequency := hw_frequency rx\<rparr>)"

definition receiver_set_freetune :: "bool \<Rightarrow> tuner \<Rightarrow> tuner" where
  "receiver_set_freetune enable t =
     (let t1 = upd (\<lambda>rx. rx\<lparr>rx_freetune := enable\<rparr>) t;
          t2 = (if enable then (let t' = upd freetune_on t1 in receiver_apply_shift (rx_ctun_offset (t_rx t')) True t')
                else if \<not> rx_ctun (t_rx t1)
                then receiver_apply_shift 0 False
                       (upd (\<lambda>rx. rx\<lparr>rx_frequency_a := rx_ctun_frequency rx, rx_ctun_offset := 0\<rparr>) t1)
                else t1)
      in if rx_vfo (t_rx t2) then update_frequency (frequency_changed t2) else t2)"

definition receiver_set_ctun :: "tuner \<Rightarrow> tuner" where
  "receiver_set_ctun t =
     (let t1 = upd (\<lambda>rx. rx\<lparr>rx_ctun_offset := 0, rx_ctun_frequency := rx_frequency_a rx,
                            rx_ctun_min := rx_frequency_a rx - rx_sample_rate rx sdiv 2,
                            rx_ctun_max := rx_frequency_a rx + rx_sample_rate rx sdiv 2\<rparr>) t;
          t2 = receiver_apply_shift 0 (rx_ctun (t_rx t1) \<or> rx_freetune (t_rx t1)) t1
      in update_frequency (frequency_changed t2))"

definition vfo_apply_frequency :: "int \<Rightarrow> bool \<Rightarrow> tuner \<Rightarrow> tuner" where
  "vfo_apply_frequency target is_b t =
     (let rx = t_rx t; cursor = (rx_ctun rx \<or> rx_freetune rx)
      in if rx_locked rx then t
         else if is_b then out Ev_Vfo (frequency_changed (receiver_move_b (target - rx_frequency_b rx) False False t))
         else (let want = target - (if cursor then rx_ctun_frequency rx else rx_frequency_a rx)
               in out Ev_Vfo (receiver_move (if cursor then want else - want) False t)))"

section \<open>What a retune does to the receiver\<close>

lemma out_fields [simp]:
  "t_rx (out e t) = t_rx t" "t_radio (out e t) = t_radio t" "t_filters (out e t) = t_filters t"
  "t_index (out e t) = t_index t" "t_startup_done (out e t) = t_startup_done t"
  "t_hidden (out e t) = t_hidden t" "t_out (out e t) = t_out t @ [e]"
  by (simp_all add: out_def)

lemma upd_fields [simp]:
  "t_rx (upd f t) = f (t_rx t)" "t_radio (upd f t) = t_radio t" "t_filters (upd f t) = t_filters t"
  "t_index (upd f t) = t_index t" "t_startup_done (upd f t) = t_startup_done t"
  "t_hidden (upd f t) = t_hidden t" "t_out (upd f t) = t_out t"
  by (simp_all add: upd_def)

definition shifted :: "int \<Rightarrow> bool \<Rightarrow> receiver \<Rightarrow> receiver" where
  "shifted offset run rx =
     rx\<lparr>rx_shift_offset := offset, rx_shift_run := run,
        rx_lo_trim := (if rx_error_a rx \<noteq> rx_lo_trim_error rx \<or> rx_band_a rx \<noteq> rx_lo_trim_band rx then 0
                       else rx_lo_trim rx)\<rparr>"

lemma apply_shift_fields [simp]:
  "t_rx (receiver_apply_shift off run t) = shifted off run (t_rx t)"
  "t_radio (receiver_apply_shift off run t) = t_radio t"
  "t_filters (receiver_apply_shift off run t) = t_filters t"
  "t_index (receiver_apply_shift off run t) = t_index t"
  "t_startup_done (receiver_apply_shift off run t) = t_startup_done t"
  "t_hidden (receiver_apply_shift off run t) = t_hidden t"
  by (auto simp: receiver_apply_shift_def Let_def shifted_def)

lemma push_hw_fields [simp]:
  "t_rx (rx_push_hw_frequency force t) = (t_rx t)\<lparr>rx_hw_frequency := hw_frequency (t_rx t)\<rparr>"
  "t_radio (rx_push_hw_frequency force t) = t_radio t"
  "t_filters (rx_push_hw_frequency force t) = t_filters t"
  "t_index (rx_push_hw_frequency force t) = t_index t"
  "t_startup_done (rx_push_hw_frequency force t) = t_startup_done t"
  "t_hidden (rx_push_hw_frequency force t) = t_hidden t"
  by (auto simp: rx_push_hw_frequency_def Let_def)

lemma tx_push_fields [simp]:
  "t_rx (tx_push_hw_frequency t) = t_rx t" "t_radio (tx_push_hw_frequency t) = t_radio t"
  "t_filters (tx_push_hw_frequency t) = t_filters t" "t_index (tx_push_hw_frequency t) = t_index t"
  "t_startup_done (tx_push_hw_frequency t) = t_startup_done t" "t_hidden (tx_push_hw_frequency t) = t_hidden t"
  by (simp_all add: tx_push_hw_frequency_def)

lemma hl2_converter_fields [simp]:
  "t_rx (hl2_converter t) = t_rx t" "t_filters (hl2_converter t) = t_filters t"
  "t_index (hl2_converter t) = t_index t" "t_startup_done (hl2_converter t) = t_startup_done t"
  "t_hidden (hl2_converter t) = t_hidden t" "t_out (hl2_converter t) = t_out t"
  by (simp_all add: hl2_converter_def Let_def split: option.split)

lemma hl2_converter_radio_fields [simp]:
  "r_bands (t_radio (hl2_converter t)) = r_bands (t_radio t)"
  "r_transmitter (t_radio (hl2_converter t)) = r_transmitter (t_radio t)"
  "r_discovered (t_radio (hl2_converter t)) = r_discovered (t_radio t)"
  "r_receiver (t_radio (hl2_converter t)) = r_receiver (t_radio t)"
  "(r_hl2 (t_radio (hl2_converter t)) = None) = (r_hl2 (t_radio t) = None)"
  by (simp_all add: hl2_converter_def Let_def split: option.split)

lemma same_bands:
  assumes "r_bands r = r_bands r'" "(r_hl2 r = None) = (r_hl2 r' = None)"
  shows "get_band_from_frequency r = get_band_from_frequency r'" "band_get_band r = band_get_band r'"
proof -
  have b: "band_get_band r = band_get_band r'" using assms(1) by (intro ext) (simp add: band_get_band_def)
  have "band_holds r f = band_holds r' f" for f using assms(2) by (intro ext) (simp add: band_holds_def b)
  thus "get_band_from_frequency r = get_band_from_frequency r'"
    by (intro ext) (simp add: get_band_from_frequency_def)
  show "band_get_band r = band_get_band r'" by (rule b)
qed

lemma hl2_converter_bands [simp]:
  "get_band_from_frequency (t_radio (hl2_converter t)) = get_band_from_frequency (t_radio t)"
  "band_get_band (t_radio (hl2_converter t)) = band_get_band (t_radio t)"
  by (rule same_bands; simp)+

lemma sync_hidden_fields [simp]:
  "t_rx (sync_hidden t) = t_rx t" "t_radio (sync_hidden t) = t_radio t" "t_filters (sync_hidden t) = t_filters t"
  "t_index (sync_hidden t) = t_index t" "t_startup_done (sync_hidden t) = t_startup_done t" "t_out (sync_hidden t) = t_out t"
  by (simp_all add: sync_hidden_def)

lemma sync_transverter_fields [simp]:
  "t_radio (receiver_sync_transverter t) = t_radio t" "t_filters (receiver_sync_transverter t) = t_filters t"
  "t_index (receiver_sync_transverter t) = t_index t" "t_startup_done (receiver_sync_transverter t) = t_startup_done t"
  "t_hidden (receiver_sync_transverter t) = t_hidden t" "t_out (receiver_sync_transverter t) = t_out t"
  by (auto simp: receiver_sync_transverter_def Let_def split: option.split)

lemma sync_transverter_none [simp]: "rx_lo_a (t_rx t) = 0 \<Longrightarrow> receiver_sync_transverter t = t"
  by (simp add: receiver_sync_transverter_def)

definition with_b_lo :: "radio \<Rightarrow> receiver \<Rightarrow> receiver" where
  "with_b_lo r rx =
     (let b = get_band_from_frequency r (rx_frequency_b rx)
      in rx\<lparr>rx_band_b := b, rx_lo_b := bd_frequencyLO (band_get_band r b), rx_error_b := bd_errorLO (band_get_band r b)\<rparr>)"

lemma sync_vfo_b_fields [simp]:
  "t_rx (receiver_sync_vfo_b_lo t) = with_b_lo (t_radio t) (t_rx t)"
  "t_radio (receiver_sync_vfo_b_lo t) = t_radio t" "t_filters (receiver_sync_vfo_b_lo t) = t_filters t"
  "t_index (receiver_sync_vfo_b_lo t) = t_index t" "t_startup_done (receiver_sync_vfo_b_lo t) = t_startup_done t"
  "t_hidden (receiver_sync_vfo_b_lo t) = t_hidden t" "t_out (receiver_sync_vfo_b_lo t) = t_out t"
  by (simp_all add: receiver_sync_vfo_b_lo_def with_b_lo_def Let_def)

lemma update_frequency_fields [simp]:
  "t_rx (update_frequency t) = with_b_lo (t_radio t) (t_rx t)"
  "t_radio (update_frequency t) = t_radio t" "t_filters (update_frequency t) = t_filters t"
  "t_index (update_frequency t) = t_index t" "t_startup_done (update_frequency t) = t_startup_done t"
  "t_hidden (update_frequency t) = t_hidden t"
  by (simp_all add: update_frequency_def Let_def)

definition retune_cursor :: "radio \<Rightarrow> receiver \<Rightarrow> receiver" where
  "retune_cursor r rx =
     (let rx1 = rx\<lparr>rx_ctun_offset := rx_ctun_frequency rx - rx_frequency_a rx\<rparr>;
          rx2 = shifted (rx_ctun_offset rx1 + (if rx_rit_enabled rx then rx_rit rx else 0)) True rx1;
          rx3 = (if rx_freetune rx then rx2\<lparr>rx_band_a := get_band_from_frequency r (rx_frequency_a rx)\<rparr> else rx2)
      in rx3\<lparr>rx_hw_frequency := hw_frequency rx\<rparr>)"

definition retune_centre :: "radio \<Rightarrow> receiver \<Rightarrow> receiver" where
  "retune_centre r rx =
     (shifted 0 False (rx\<lparr>rx_ctun_offset := 0\<rparr>))
       \<lparr>rx_band_a := get_band_from_frequency r (rx_frequency_a rx), rx_hw_frequency := hw_frequency rx\<rparr>"

definition retune :: "radio \<Rightarrow> receiver \<Rightarrow> receiver" where
  "retune r rx =
     (let rx1 = (if rx_ctun rx \<or> rx_freetune rx then retune_cursor r rx else retune_centre r rx);
          rx2 = (if rx_subrx_enable rx then subrx_in_passband rx1 else rx1)
      in with_b_lo r rx2)"

lemma tune_cursor_fields [simp]:
  "t_rx (tune_cursor t) = retune_cursor (t_radio t) (t_rx t)" "t_radio (tune_cursor t) = t_radio t"
  "t_filters (tune_cursor t) = t_filters t" "t_index (tune_cursor t) = t_index t"
  "t_startup_done (tune_cursor t) = t_startup_done t" "t_hidden (tune_cursor t) = t_hidden t"
  by (auto simp: tune_cursor_def Let_def retune_cursor_def shifted_def hw_frequency_def split: option.split)

lemma tune_centre_fields [simp]:
  "t_rx (tune_centre t) = retune_centre (t_radio t) (t_rx t)" "t_radio (tune_centre t) = t_radio t"
  "t_filters (tune_centre t) = t_filters t" "t_index (tune_centre t) = t_index t"
  "t_startup_done (tune_centre t) = t_startup_done t" "t_hidden (tune_centre t) = t_hidden t"
  by (auto simp: tune_centre_def Let_def retune_centre_def shifted_def hw_frequency_def)

lemma subrx_frequency_fields [simp]:
  "t_rx (subrx_frequency_changed t) = t_rx t" "t_radio (subrx_frequency_changed t) = t_radio t"
  "t_filters (subrx_frequency_changed t) = t_filters t" "t_index (subrx_frequency_changed t) = t_index t"
  "t_startup_done (subrx_frequency_changed t) = t_startup_done t" "t_hidden (subrx_frequency_changed t) = t_hidden t"
  by (simp_all add: subrx_frequency_changed_def)

lemma retune_flags [simp]:
  "rx_subrx_enable (retune_cursor r rx) = rx_subrx_enable rx" "rx_subrx_enable (retune_centre r rx) = rx_subrx_enable rx"
  by (simp_all add: retune_cursor_def retune_centre_def shifted_def Let_def)

lemma with_b_lo_bands:
  "get_band_from_frequency r = get_band_from_frequency r' \<Longrightarrow> band_get_band r = band_get_band r' \<Longrightarrow>
   with_b_lo r rx = with_b_lo r' rx"
  by (simp add: with_b_lo_def)

lemma retune_bands:
  "get_band_from_frequency r = get_band_from_frequency r' \<Longrightarrow> band_get_band r = band_get_band r' \<Longrightarrow>
   retune r rx = retune r' rx"
  by (simp add: retune_def retune_cursor_def retune_centre_def with_b_lo_def Let_def)

lemma dsp_retune_fields [simp]:
  "t_rx (dsp_retune t) = (if rx_ctun (t_rx t) \<or> rx_freetune (t_rx t) then retune_cursor (t_radio t) (t_rx t)
                          else retune_centre (t_radio t) (t_rx t))"
  "t_radio (dsp_retune t) = t_radio t" "t_filters (dsp_retune t) = t_filters t"
  "t_index (dsp_retune t) = t_index t" "t_startup_done (dsp_retune t) = t_startup_done t"
  "t_hidden (dsp_retune t) = t_hidden t"
  by (simp_all add: dsp_retune_def)

lemma notch_retune_fields [simp]:
  "t_rx (notch_retune t) = t_rx t" "t_radio (notch_retune t) = t_radio t" "t_filters (notch_retune t) = t_filters t"
  "t_index (notch_retune t) = t_index t" "t_startup_done (notch_retune t) = t_startup_done t"
  "t_hidden (notch_retune t) = t_hidden t"
  by (simp_all add: notch_retune_def)

lemma subrx_retune_fields [simp]:
  "t_rx (subrx_retune t) = (if rx_subrx_enable (t_rx t) then subrx_in_passband (t_rx t) else t_rx t)"
  "t_radio (subrx_retune t) = t_radio t" "t_filters (subrx_retune t) = t_filters t"
  "t_index (subrx_retune t) = t_index t" "t_startup_done (subrx_retune t) = t_startup_done t"
  "t_hidden (subrx_retune t) = t_hidden t"
  by (simp_all add: subrx_retune_def)

lemma frequency_changed_fields [simp]:
  "t_rx (frequency_changed t) = retune (t_radio t) (t_rx (receiver_sync_transverter t))"
  "t_radio (frequency_changed t) = t_radio (hl2_converter (sync_hidden (receiver_sync_transverter t)))"
  "t_filters (frequency_changed t) = t_filters t" "t_index (frequency_changed t) = t_index t"
  "t_startup_done (frequency_changed t) = t_startup_done t"
proof -
  let ?t = "hl2_converter (sync_hidden (receiver_sync_transverter t))"
  have r: "retune (t_radio t) rx = retune (t_radio ?t) rx" for rx by (rule retune_bands) simp_all
  show "t_rx (frequency_changed t) = retune (t_radio t) (t_rx (receiver_sync_transverter t))"
    unfolding r by (auto simp add: frequency_changed_def Let_def retune_def)
qed (simp_all add: frequency_changed_def)

lemma retune_fields [simp]:
  "rx_frequency_a (retune r rx) = rx_frequency_a rx" "rx_ctun_frequency (retune r rx) = rx_ctun_frequency rx"
  "rx_ctun (retune r rx) = rx_ctun rx" "rx_freetune (retune r rx) = rx_freetune rx"
  "rx_lo_a (retune r rx) = rx_lo_a rx" "rx_error_a (retune r rx) = rx_error_a rx"
  "rx_mode_a (retune r rx) = rx_mode_a rx" "rx_mode_b (retune r rx) = rx_mode_b rx"
  "rx_filter_a (retune r rx) = rx_filter_a rx" "rx_filter_b (retune r rx) = rx_filter_b rx"
  "rx_split (retune r rx) = rx_split rx" "rx_locked (retune r rx) = rx_locked rx"
  "rx_sample_rate (retune r rx) = rx_sample_rate rx" "rx_step (retune r rx) = rx_step rx"
  "rx_rit (retune r rx) = rx_rit rx" "rx_rit_enabled (retune r rx) = rx_rit_enabled rx"
  "rx_channel (retune r rx) = rx_channel rx" "rx_subrx_enable (retune r rx) = rx_subrx_enable rx"
  "rx_subrx (retune r rx) = rx_subrx rx" "rx_vfo_linked (retune r rx) = rx_vfo_linked rx"
  "rx_mode_filter (retune r rx) = rx_mode_filter rx" "rx_mode_agc (retune r rx) = rx_mode_agc rx"
  "rx_mode_squelch (retune r rx) = rx_mode_squelch rx" "rx_agc (retune r rx) = rx_agc rx"
  "rx_squelch (retune r rx) = rx_squelch rx"
  by (simp_all add: retune_def retune_cursor_def retune_centre_def shifted_def with_b_lo_def
      subrx_in_passband_def Let_def)

lemma retune_b: "\<not> rx_subrx_enable rx \<Longrightarrow> rx_frequency_b (retune r rx) = rx_frequency_b rx"
  by (simp add: retune_def retune_cursor_def retune_centre_def shifted_def with_b_lo_def Let_def)

lemma retune_hw: "rx_hw_frequency (retune r rx) = hw_frequency rx"
  by (simp add: retune_def retune_cursor_def retune_centre_def shifted_def with_b_lo_def
      subrx_in_passband_def Let_def)

lemma retune_shift:
  "rx_shift_run (retune r rx) = (rx_ctun rx \<or> rx_freetune rx)"
  "rx_shift_offset (retune r rx) = (if rx_ctun rx \<or> rx_freetune rx
     then rx_ctun_frequency rx - rx_frequency_a rx + (if rx_rit_enabled rx then rx_rit rx else 0) else 0)"
  "rx_ctun_offset (retune r rx) = (if rx_ctun rx \<or> rx_freetune rx
     then rx_ctun_frequency rx - rx_frequency_a rx else 0)"
  by (simp_all add: retune_def retune_cursor_def retune_centre_def shifted_def with_b_lo_def
      subrx_in_passband_def Let_def)

lemma with_b_lo_fields [simp]:
  "rx_frequency_a (with_b_lo r rx) = rx_frequency_a rx" "rx_ctun_frequency (with_b_lo r rx) = rx_ctun_frequency rx"
  "rx_frequency_b (with_b_lo r rx) = rx_frequency_b rx"
  "rx_ctun (with_b_lo r rx) = rx_ctun rx" "rx_freetune (with_b_lo r rx) = rx_freetune rx"
  "rx_lo_a (with_b_lo r rx) = rx_lo_a rx" "rx_error_a (with_b_lo r rx) = rx_error_a rx"
  "rx_mode_a (with_b_lo r rx) = rx_mode_a rx" "rx_mode_b (with_b_lo r rx) = rx_mode_b rx"
  "rx_filter_a (with_b_lo r rx) = rx_filter_a rx" "rx_filter_b (with_b_lo r rx) = rx_filter_b rx"
  "rx_split (with_b_lo r rx) = rx_split rx" "rx_locked (with_b_lo r rx) = rx_locked rx"
  "rx_sample_rate (with_b_lo r rx) = rx_sample_rate rx" "rx_step (with_b_lo r rx) = rx_step rx"
  "rx_rit (with_b_lo r rx) = rx_rit rx" "rx_rit_enabled (with_b_lo r rx) = rx_rit_enabled rx"
  "rx_channel (with_b_lo r rx) = rx_channel rx" "rx_subrx_enable (with_b_lo r rx) = rx_subrx_enable rx"
  "rx_subrx (with_b_lo r rx) = rx_subrx rx" "rx_vfo_linked (with_b_lo r rx) = rx_vfo_linked rx"
  "rx_mode_filter (with_b_lo r rx) = rx_mode_filter rx" "rx_mode_agc (with_b_lo r rx) = rx_mode_agc rx"
  "rx_mode_squelch (with_b_lo r rx) = rx_mode_squelch rx" "rx_agc (with_b_lo r rx) = rx_agc rx"
  "rx_squelch (with_b_lo r rx) = rx_squelch rx" "rx_hw_frequency (with_b_lo r rx) = rx_hw_frequency rx"
  by (simp_all add: with_b_lo_def Let_def)

text \<open>Events are only ever added; a change of the commanded frequency tells a
protocol 2 radio.\<close>

definition appends :: "tuner \<Rightarrow> tuner \<Rightarrow> bool" where
  "appends t t' = (\<exists>es. t_out t' = t_out t @ es)"

lemma appends_refl [simp]: "appends t t" by (simp add: appends_def)

lemma appends_trans: "appends t t' \<Longrightarrow> appends t' t'' \<Longrightarrow> appends t t''"
  by (auto simp: appends_def)

lemma appends_out: "appends t t' \<Longrightarrow> appends t (out e t')"
  by (auto simp: appends_def)

lemma appends_upd: "appends t t' \<Longrightarrow> appends t (upd f t')"
  by (auto simp: appends_def)

lemma appends_apply_shift: "appends t t' \<Longrightarrow> appends t (receiver_apply_shift off run t')"
  by (erule appends_trans) (simp add: appends_def receiver_apply_shift_def Let_def)

lemma appends_tail:
  "appends t (tx_push_hw_frequency t)" "appends t (notch_retune t)" "appends t (subrx_retune t)"
  "appends t (receiver_sync_vfo_b_lo t)"
  by (auto simp: tx_push_hw_frequency_def notch_retune_def subrx_retune_def receiver_sync_vfo_b_lo_def
      subrx_frequency_changed_def Let_def intro!: appends_out appends_upd)

definition tells_radio :: "tuner \<Rightarrow> tuner \<Rightarrow> bool" where
  "tells_radio t t' \<longleftrightarrow> (\<exists>es. t_out t' = t_out t @ es \<and>
     (d_protocol (r_discovered (t_radio t)) = PROTOCOL_2 \<and> rx_hw_frequency (t_rx t') \<noteq> rx_hw_frequency (t_rx t)
        \<longrightarrow> Ev_HighPriority \<in> set es))"

lemma tells_radio_push:
  "appends t t' \<Longrightarrow> rx_hw_frequency (t_rx t') = rx_hw_frequency (t_rx t) \<Longrightarrow> r_discovered (t_radio t') = r_discovered (t_radio t)
   \<Longrightarrow> tells_radio t (rx_push_hw_frequency force t')"
  by (auto simp: tells_radio_def appends_def rx_push_hw_frequency_def Let_def)

lemma tells_radio_cursor: "tells_radio t (tune_cursor t)"
  unfolding tune_cursor_def Let_def
  by (intro tells_radio_push)
     (auto simp: shifted_def split: option.split intro!: appends_apply_shift appends_out appends_upd)

lemma tells_radio_centre: "tells_radio t (tune_centre t)"
  unfolding tune_centre_def Let_def
  by (intro tells_radio_push) (auto simp: shifted_def intro!: appends_apply_shift appends_out appends_upd)

lemma tells_radio_appends:
  "tells_radio t t' \<Longrightarrow> appends t' t'' \<Longrightarrow> rx_hw_frequency (t_rx t'') = rx_hw_frequency (t_rx t') \<Longrightarrow> tells_radio t t''"
  by (auto simp: tells_radio_def appends_def)


lemma tells_radio_changed: "tells_radio t (frequency_changed t)"
proof -
  let ?h = "hl2_converter (sync_hidden (receiver_sync_transverter t))"
  let ?d = "dsp_retune ?h"
  have h: "rx_hw_frequency (t_rx ?h) = rx_hw_frequency (t_rx t)" "t_out ?h = t_out t"
    by (auto simp: receiver_sync_transverter_def Let_def split: option.split)
  have d: "tells_radio ?h ?d"
    by (simp add: dsp_retune_def tells_radio_cursor tells_radio_centre)
  have t: "tells_radio t ?d" using d h by (simp add: tells_radio_def)
  have "appends ?d (frequency_changed t)"
    unfolding frequency_changed_def Let_def
    by (meson appends_tail appends_trans appends_out)
  moreover have "rx_hw_frequency (t_rx (frequency_changed t)) = rx_hw_frequency (t_rx ?d)"
    by (simp add: retune_hw retune_cursor_def retune_centre_def Let_def)
  ultimately show ?thesis using t tells_radio_appends by blast
qed

text \<open>C20: After every retune the frequency the radio is commanded to is the dial of VFO A less
the converter's oscillator, with its error; the digital shift carries the cursor and the RIT
while there is a cursor and is off otherwise; and a protocol 2 radio has been told when the
commanded frequency changed.\<close>

theorem radio_follows_dial:
  "let t' = frequency_changed t; rx = t_rx t'; cursor = (rx_ctun rx \<or> rx_freetune rx)
   in rx_hw_frequency rx = rx_frequency_a rx - rx_lo_a rx + rx_error_a rx \<and>
      rx_shift_run rx = cursor \<and>
      rx_frequency_a rx + rx_shift_offset rx =
        (if cursor then rx_ctun_frequency rx + (if rx_rit_enabled rx then rx_rit rx else 0) else rx_frequency_a rx) \<and>
      (\<exists>es. t_out t' = t_out t @ es \<and>
        (d_protocol (r_discovered (t_radio t)) \<noteq> PROTOCOL_2 \<or> rx_hw_frequency rx = rx_hw_frequency (t_rx t) \<or>
         Ev_HighPriority \<in> set es))"
  using tells_radio_changed[of t]
  by (auto simp: Let_def retune_hw retune_shift hw_frequency_def tells_radio_def)

section \<open>Landing on a frequency\<close>

definition dial :: "receiver \<Rightarrow> int" where
  "dial rx = (if rx_ctun rx \<or> rx_freetune rx then rx_ctun_frequency rx else rx_frequency_a rx)"

lemma dial_retune [simp]: "dial (retune r rx) = dial rx"
  by (simp add: dial_def)

lemma dial_with_b_lo [simp]: "dial (with_b_lo r rx) = dial rx"
  by (simp add: dial_def)

lemma b_in_span_fields [simp]:
  "rx_frequency_a (b_in_span f rx) = rx_frequency_a rx" "rx_ctun_frequency (b_in_span f rx) = rx_ctun_frequency rx"
  "rx_ctun (b_in_span f rx) = rx_ctun rx" "rx_freetune (b_in_span f rx) = rx_freetune rx"
  "rx_lo_a (b_in_span f rx) = rx_lo_a rx" "rx_sample_rate (b_in_span f rx) = rx_sample_rate rx"
  "rx_step (b_in_span f rx) = rx_step rx" "rx_mode_a (b_in_span f rx) = rx_mode_a rx"
  "rx_locked (b_in_span f rx) = rx_locked rx" "rx_split (b_in_span f rx) = rx_split rx"
  "rx_vfo_linked (b_in_span f rx) = rx_vfo_linked rx"
  by (simp_all add: b_in_span_def Let_def)

lemma set_b_fields [simp]:
  "rx_frequency_a (set_b rnd f rx) = rx_frequency_a rx" "rx_ctun_frequency (set_b rnd f rx) = rx_ctun_frequency rx"
  "rx_ctun (set_b rnd f rx) = rx_ctun rx" "rx_freetune (set_b rnd f rx) = rx_freetune rx"
  "rx_lo_a (set_b rnd f rx) = rx_lo_a rx" "rx_sample_rate (set_b rnd f rx) = rx_sample_rate rx"
  "rx_step (set_b rnd f rx) = rx_step rx" "rx_mode_a (set_b rnd f rx) = rx_mode_a rx"
  "rx_locked (set_b rnd f rx) = rx_locked rx" "rx_split (set_b rnd f rx) = rx_split rx"
  "rx_vfo_linked (set_b rnd f rx) = rx_vfo_linked rx"
  by (simp_all add: set_b_def)

text \<open>Moving only VFO B leaves VFO A alone.\<close>

definition same_a :: "receiver \<Rightarrow> receiver \<Rightarrow> bool" where
  "same_a rx rx' \<longleftrightarrow> rx_frequency_a rx' = rx_frequency_a rx \<and> rx_ctun_frequency rx' = rx_ctun_frequency rx \<and>
     rx_ctun rx' = rx_ctun rx \<and> rx_freetune rx' = rx_freetune rx \<and> rx_lo_a rx' = rx_lo_a rx \<and>
     rx_sample_rate rx' = rx_sample_rate rx \<and> rx_step rx' = rx_step rx \<and> rx_mode_a rx' = rx_mode_a rx"

lemma same_a_refl [simp]: "same_a rx rx" by (simp add: same_a_def)

lemma same_a_dial: "same_a rx rx' \<Longrightarrow> dial rx' = dial rx"
  by (simp add: same_a_def dial_def)

lemma move_b_only_same_a: "same_a (t_rx t) (t_rx (receiver_move_b hz True rnd t))"
  by (simp add: receiver_move_b_def Let_def same_a_def split: split_type.split)

lemma move_b_only_radio [simp]:
  "t_radio (receiver_move_b hz True rnd t) = t_radio t" "t_index (receiver_move_b hz True rnd t) = t_index t"
  "t_startup_done (receiver_move_b hz True rnd t) = t_startup_done t"
  by (simp_all add: receiver_move_b_def Let_def split: split_type.split)

definition after_move :: "int \<Rightarrow> bool \<Rightarrow> tuner \<Rightarrow> receiver" where
  "after_move hz rnd t = fst (move_a (receiver_max_frequency (t_radio t) (t_rx t)) hz rnd (t_rx t))"

lemma move_a_fields [simp]:
  "rx_lo_a (fst (move_a fmax hz rnd rx)) = rx_lo_a rx" "rx_ctun (fst (move_a fmax hz rnd rx)) = rx_ctun rx"
  "rx_freetune (fst (move_a fmax hz rnd rx)) = rx_freetune rx" "rx_sample_rate (fst (move_a fmax hz rnd rx)) = rx_sample_rate rx"
  "rx_step (fst (move_a fmax hz rnd rx)) = rx_step rx" "rx_mode_a (fst (move_a fmax hz rnd rx)) = rx_mode_a rx"
  by (auto simp: move_a_def Let_def freetune_follow_def)

text \<open>Without a converter a move of VFO A is the move of the receiver alone, as far as
VFO A goes.\<close>

lemma receiver_move_same_a:
  assumes "\<not> rx_locked (t_rx t)" "rx_lo_a (t_rx t) = 0"
  shows "same_a (after_move hz rnd t) (t_rx (receiver_move hz rnd t))"
proof -
  let ?rx = "after_move hz rnd t"
  obtain delta where m: "move_a (receiver_max_frequency (t_radio t) (t_rx t)) hz rnd (t_rx t) = (?rx, delta)"
    by (cases "move_a (receiver_max_frequency (t_radio t) (t_rx t)) hz rnd (t_rx t)") (simp add: after_move_def)
  have lo: "rx_lo_a ?rx = 0" using assms(2) by (simp add: after_move_def)
  let ?t1 = "t\<lparr>t_rx := ?rx\<rparr>"
  let ?t2 = "if satellite (rx_split ?rx) \<and> rx_vfo_linked ?rx then receiver_move_b delta True rnd ?t1 else ?t1"
  have s: "same_a ?rx (t_rx ?t2)" using move_b_only_same_a[of ?t1 delta rnd] by simp
  hence "rx_lo_a (t_rx ?t2) = 0" using lo by (simp add: same_a_def)
  moreover have "receiver_move hz rnd t = update_frequency (frequency_changed ?t2)"
    using assms(1) m by (simp add: receiver_move_def receiver_move_a_def)
  ultimately show ?thesis using s by (simp add: same_a_def)
qed

lemma freetune_follow_fields [simp]:
  "rx_ctun (freetune_follow rx) = rx_ctun rx" "rx_freetune (freetune_follow rx) = rx_freetune rx"
  "rx_sample_rate (freetune_follow rx) = rx_sample_rate rx" "rx_step (freetune_follow rx) = rx_step rx"
  "rx_mode_a (freetune_follow rx) = rx_mode_a rx"
  by (simp_all add: freetune_follow_def Let_def)

definition edge_margin :: "receiver \<Rightarrow> int" where
  "edge_margin rx = rx_sample_rate rx sdiv 2 * RX_SPAN_EDGE_MARGIN_PCT sdiv 100"

lemma sdiv_nonneg: "0 \<le> (a :: int) \<Longrightarrow> 0 < b \<Longrightarrow> a sdiv b = a div b"
  by (simp add: signed_divide_int_def sgn_if)

lemma edge_margin_bounds:
  assumes "0 \<le> rx_sample_rate rx"
  shows "0 \<le> edge_margin rx \<and> edge_margin rx \<le> rx_sample_rate rx sdiv 2"
proof -
  have h: "rx_sample_rate rx sdiv 2 = rx_sample_rate rx div 2" using assms by (simp add: sdiv_nonneg)
  have e: "edge_margin rx = rx_sample_rate rx div 2 * 15 div 100"
    using assms by (simp add: edge_margin_def h RX_SPAN_EDGE_MARGIN_PCT_def sdiv_nonneg)
  have p: "0 \<le> x * 15 div 100 \<and> x * 15 div 100 \<le> x" if "0 \<le> x" for x :: int
    using that zdiv_mono1[of "x * 15" "x * 100" 100] by simp
  have "0 \<le> rx_sample_rate rx div 2" using assms by simp
  from p[OF this] show ?thesis unfolding e h .
qed

text \<open>The span follows the cursor and never moves it, when its edges are in order.\<close>

lemma freetune_follow_cursor:
  assumes "0 \<le> rx_sample_rate rx"
  shows "rx_ctun_frequency (freetune_follow rx) = rx_ctun_frequency rx"
    and "\<bar>rx_ctun_frequency rx - rx_frequency_a (freetune_follow rx)\<bar> \<le> rx_sample_rate rx sdiv 2 - edge_margin rx"
  using edge_margin_bounds[OF assms]
  by (auto simp: freetune_follow_def Let_def edge_margin_def[symmetric])

lemma move_a_dial:
  assumes "\<not> rx_locked rx" "0 \<le> rx_sample_rate rx" "0 \<le> d" "d \<le> fmax"
    "hz = (if rx_ctun rx \<or> rx_freetune rx then d - dial rx else dial rx - d)"
  shows "dial (fst (move_a fmax hz False rx)) = d"
  using assms
  by (auto simp: move_a_def Let_def dial_def out_of_range_def round_step_def freetune_follow_cursor)

text \<open>Putting a VFO on a frequency: the dial, which is the cursor while there is one,
reads exactly what was asked for. VFO B needs to be free of the satellite modes and of the
sub-receiver, VFO A of a converter.\<close>

theorem dial_lands_on_target:
  assumes "\<not> rx_locked (t_rx t)" "rx_lo_a (t_rx t) = 0" "0 \<le> rx_sample_rate (t_rx t)"
    "0 < target" "target \<le> receiver_max_frequency (t_radio t) (t_rx t)"
    "is_b \<longrightarrow> \<not> satellite (rx_split (t_rx t)) \<and> \<not> rx_subrx_enable (t_rx t)"
  shows "let rx = t_rx (vfo_apply_frequency target is_b t)
         in (if is_b then rx_frequency_b rx else dial rx) = target"
proof (cases is_b)
  case True
  hence s: "rx_split (t_rx t) = SPLIT_OFF \<or> rx_split (t_rx t) = SPLIT_ON" "\<not> rx_subrx_enable (t_rx t)"
    using assms(6) by (cases "rx_split (t_rx t)"; simp add: satellite_def)+
  let ?t1 = "receiver_move_b (target - rx_frequency_b (t_rx t)) False False t"
  have u: "?t1 = update_frequency (upd (set_b False target) t)"
    using s(1) assms(1,4,5) by (auto simp: receiver_move_b_def Let_def)
  have "rx_lo_a (t_rx ?t1) = 0" "\<not> rx_subrx_enable (t_rx ?t1)" "rx_frequency_b (t_rx ?t1) = target"
    using assms(2) s(2) by (simp_all add: u set_b_def)
  thus ?thesis using True assms(1) by (simp add: vfo_apply_frequency_def Let_def retune_b)
next
  case False
  let ?hz = "if rx_ctun (t_rx t) \<or> rx_freetune (t_rx t) then target - dial (t_rx t) else dial (t_rx t) - target"
  have "vfo_apply_frequency target is_b t = out Ev_Vfo (receiver_move ?hz False t)"
    using False assms(1) by (auto simp: vfo_apply_frequency_def dial_def Let_def)
  moreover have "dial (t_rx (receiver_move ?hz False t)) = dial (after_move ?hz False t)"
    using receiver_move_same_a[OF assms(1,2)] same_a_dial by blast
  moreover have "dial (after_move ?hz False t) = target"
    unfolding after_move_def using assms(1,3-5) by (intro move_a_dial) auto
  ultimately show ?thesis using False by simp
qed

section \<open>Staying in range\<close>

definition in_range :: "radio \<Rightarrow> receiver \<Rightarrow> bool" where
  "in_range r rx \<longleftrightarrow> 0 \<le> dial rx \<and> dial rx \<le> receiver_max_frequency r rx"

definition cursor_in_margin :: "receiver \<Rightarrow> bool" where
  "cursor_in_margin rx \<longleftrightarrow>
     (rx_freetune rx \<longrightarrow> \<bar>rx_ctun_frequency rx - rx_frequency_a rx\<bar> \<le> rx_sample_rate rx sdiv 2 - edge_margin rx)"

lemma max_frequency_cong:
  "rx_sample_rate rx' = rx_sample_rate rx \<Longrightarrow> r_bands r' = r_bands r \<Longrightarrow> r_discovered r' = r_discovered r \<Longrightarrow>
   receiver_max_frequency r' rx' = receiver_max_frequency r rx"
proof -
  assume a: "rx_sample_rate rx' = rx_sample_rate rx" "r_bands r' = r_bands r" "r_discovered r' = r_discovered r"
  have x: "xvtr_top r' = xvtr_top r" using a(2) by (simp add: xvtr_top_def band_get_band_def)
  show ?thesis unfolding receiver_max_frequency_def x a ..
qed

lemma edge_margin_cong: "rx_sample_rate rx' = rx_sample_rate rx \<Longrightarrow> edge_margin rx' = edge_margin rx"
  by (simp add: edge_margin_def)

lemma same_a_margin: "same_a rx rx' \<Longrightarrow> cursor_in_margin rx' = cursor_in_margin rx"
  using edge_margin_cong[of rx' rx] by (simp add: same_a_def cursor_in_margin_def)

lemma same_a_in_range: "same_a rx rx' \<Longrightarrow> in_range r rx' = in_range r rx"
  using max_frequency_cong[of rx' rx r r] same_a_dial[of rx rx'] by (simp add: same_a_def in_range_def)

lemma rounded_down:
  fixes f step :: int
  assumes "0 \<le> f" "0 < step"
  shows "0 \<le> f sdiv step * step \<and> f sdiv step * step \<le> f"
proof -
  have "0 \<le> f div step" using assms pos_imp_zdiv_nonneg_iff by blast
  thus ?thesis using assms zmod_le_nonneg_dividend[of f step]
    by (simp add: sdiv_nonneg minus_mod_eq_div_mult[symmetric])
qed

lemma round_step_range:
  "0 \<le> f \<Longrightarrow> 0 < rx_step rx \<Longrightarrow> 0 \<le> round_step rnd rx f \<and> round_step rnd rx f \<le> f"
  using rounded_down[of f "rx_step rx"] by (simp add: round_step_def)

lemma round_step_cong: "rx_step rx' = rx_step rx \<Longrightarrow> rx_mode_a rx' = rx_mode_a rx \<Longrightarrow> round_step rnd rx' f = round_step rnd rx f"
  by (simp add: round_step_def)

lemma move_a_in_range:
  assumes "0 \<le> dial rx" "dial rx \<le> fmax" "0 < rx_step rx" "0 \<le> rx_sample_rate rx"
  shows "0 \<le> dial (fst (move_a fmax hz rnd rx)) \<and> dial (fst (move_a fmax hz rnd rx)) \<le> fmax"
proof -
  let ?nf = "if rx_ctun rx \<or> rx_freetune rx then dial rx + hz else dial rx - hz"
  have r: "\<not> out_of_range fmax (dial rx) ?nf \<Longrightarrow> 0 \<le> ?nf \<and> ?nf \<le> fmax"
    using assms(1,2) by (auto simp: out_of_range_def)
  show ?thesis
  proof (cases "rx_locked rx \<or> out_of_range fmax (dial rx) ?nf")
    case True
    thus ?thesis using assms by (auto simp: move_a_def Let_def dial_def split: if_splits)
  next
    case False
    have "dial (fst (move_a fmax hz rnd rx)) = round_step rnd rx ?nf"
      using False assms(4) round_step_cong[of "freetune_follow (rx\<lparr>rx_ctun_frequency := rx_ctun_frequency rx + hz\<rparr>)" rx]
        round_step_cong[of "rx\<lparr>rx_ctun_frequency := rx_ctun_frequency rx + hz\<rparr>" rx]
      by (auto simp: move_a_def Let_def dial_def freetune_follow_cursor split: if_splits)
    thus ?thesis using round_step_range[of ?nf rx rnd] r False assms(3) by (smt (verit))
  qed
qed

lemma move_a_in_margin:
  assumes "cursor_in_margin rx" "0 \<le> rx_sample_rate rx"
  shows "cursor_in_margin (fst (move_a fmax hz False rx))"
  using assms freetune_follow_cursor(2)[of "rx\<lparr>rx_ctun_frequency := rx_ctun_frequency rx + hz\<rparr>"]
    edge_margin_cong[of "rx\<lparr>rx_ctun_frequency := rx_ctun_frequency rx + hz\<rparr>" rx]
    edge_margin_cong[of "freetune_follow (rx\<lparr>rx_ctun_frequency := rx_ctun_frequency rx + hz\<rparr>)" rx]
  by (auto simp: cursor_in_margin_def move_a_def Let_def round_step_def freetune_follow_cursor edge_margin_def)

lemma move_span_dial:
  assumes "0 \<le> rx_sample_rate rx" "0 \<le> dial rx" "dial rx \<le> fmax" "0 \<le> nf" "nf \<le> fmax"
    "\<not> (rx_ctun rx \<or> rx_freetune rx) \<Longrightarrow> dial rx = rx_frequency_a rx"
  shows "0 \<le> dial (move_span nf rx) \<and> dial (move_span nf rx) \<le> fmax"
  using assms edge_margin_bounds[OF assms(1)]
  by (auto simp: move_span_def Let_def dial_def edge_margin_def[symmetric] split: if_splits)

lemma move_span_in_margin: "0 \<le> rx_sample_rate rx \<Longrightarrow> cursor_in_margin (move_span nf rx)"
  using edge_margin_bounds[of rx] edge_margin_cong[of "move_span nf rx" rx]
  by (auto simp: cursor_in_margin_def move_span_def Let_def edge_margin_def split: if_splits)

lemma move_span_fields [simp]:
  "rx_lo_a (move_span nf rx) = rx_lo_a rx" "rx_sample_rate (move_span nf rx) = rx_sample_rate rx"
  "rx_frequency_a (move_span nf rx) = nf"
  by (simp_all add: move_span_def Let_def)

lemma receiver_move_span_same_a:
  assumes "\<not> rx_locked (t_rx t)" "hz \<noteq> 0" "rx_lo_a (t_rx t) = 0"
    "\<not> out_of_range (receiver_max_frequency (t_radio t) (t_rx t)) (rx_frequency_a (t_rx t)) (rx_frequency_a (t_rx t) - hz)"
  shows "same_a (move_span (rx_frequency_a (t_rx t) - hz) (t_rx t)) (t_rx (receiver_move_span hz t))"
proof -
  let ?rx = "move_span (rx_frequency_a (t_rx t) - hz) (t_rx t)"
  let ?t1 = "upd (move_span (rx_frequency_a (t_rx t) - hz)) t"
  let ?d = "rx_ctun_frequency ?rx - rx_ctun_frequency (t_rx t)"
  let ?t2 = "if satellite (rx_split (t_rx t)) \<and> rx_vfo_linked (t_rx t) \<and> ?d \<noteq> 0 then receiver_move_b ?d True False ?t1 else ?t1"
  have s: "same_a ?rx (t_rx ?t2)" using move_b_only_same_a[of ?t1 ?d False] by simp
  hence "rx_lo_a (t_rx ?t2) = 0" using assms(3) by (simp add: same_a_def)
  moreover have "receiver_move_span hz t = update_frequency (frequency_changed ?t2)"
    using assms by (simp add: receiver_move_span_def Let_def)
  ultimately show ?thesis using s by (simp add: same_a_def)
qed

text \<open>C22: Tuning by steps (\<open>receiver_move\<close>) and by dragging the span (\<open>receiver_move_span\<close>)
keeps the dial between zero and the receiver's upper limit, and under freetune a drag and a step
that is not rounded to the raster keep the cursor out of the margin at the edge of the span, which
slides along. The dial and the centre start in that range, the step is positive, the sample rate is
not negative and VFO A has no converter oscillator. (Clicking on a frequency, \<open>receiver_move_to\<close>,
is not covered: it can leave the range.)\<close>

theorem tuning_stays_in_range:
  assumes "rx_lo_a (t_rx t) = 0" "0 < rx_step (t_rx t)" "0 \<le> rx_sample_rate (t_rx t)"
    "in_range (t_radio t) (t_rx t)" "0 \<le> rx_frequency_a (t_rx t)"
    "rx_frequency_a (t_rx t) \<le> receiver_max_frequency (t_radio t) (t_rx t)"
  shows "in_range (t_radio t) (t_rx (receiver_move hz rnd t)) \<and>
         in_range (t_radio t) (t_rx (receiver_move_span hz t)) \<and>
         (cursor_in_margin (t_rx t) \<longrightarrow> cursor_in_margin (t_rx (receiver_move hz False t)) \<and>
                                        cursor_in_margin (t_rx (receiver_move_span hz t)))"
proof (cases "rx_locked (t_rx t)")
  case True
  thus ?thesis using assms(4) by (simp add: receiver_move_def receiver_move_span_def Let_def)
next
  case False
  let ?rx = "t_rx t" and ?r = "t_radio t"
  have d: "0 \<le> dial ?rx" "dial ?rx \<le> receiver_max_frequency ?r ?rx" using assms(4) by (simp_all add: in_range_def)
  have m: "in_range ?r (after_move hz b t)" for b
    using move_a_in_range[OF d assms(2,3), of hz b] max_frequency_cong[of "after_move hz b t" ?rx ?r ?r]
    by (simp add: in_range_def after_move_def)
  have "in_range ?r (t_rx (receiver_move hz rnd t))"
    using m same_a_in_range[OF receiver_move_same_a[OF False assms(1)]] by blast
  moreover have "cursor_in_margin ?rx \<longrightarrow> cursor_in_margin (t_rx (receiver_move hz False t))"
    using same_a_margin[OF receiver_move_same_a[OF False assms(1)]] move_a_in_margin[of ?rx] assms(3)
    by (auto simp: after_move_def)
  moreover have "in_range ?r (t_rx (receiver_move_span hz t)) \<and>
      (cursor_in_margin ?rx \<longrightarrow> cursor_in_margin (t_rx (receiver_move_span hz t)))"
  proof (cases "hz = 0 \<or> out_of_range (receiver_max_frequency ?r ?rx) (rx_frequency_a ?rx) (rx_frequency_a ?rx - hz)")
    case True
    thus ?thesis using assms(4) False by (auto simp: receiver_move_span_def Let_def)
  next
    case ok: False
    let ?nf = "rx_frequency_a ?rx - hz"
    have s: "same_a (move_span ?nf ?rx) (t_rx (receiver_move_span hz t))"
      using ok False assms(1) by (intro receiver_move_span_same_a) auto
    have "0 \<le> ?nf \<and> ?nf \<le> receiver_max_frequency ?r ?rx" using ok assms(5,6) by (auto simp: out_of_range_def)
    hence "in_range ?r (move_span ?nf ?rx)"
      using move_span_dial[OF assms(3) d, of ?nf] max_frequency_cong[of "move_span ?nf ?rx" ?rx ?r ?r]
      by (simp add: in_range_def dial_def)
    thus ?thesis using same_a_in_range[OF s] same_a_margin[OF s] move_span_in_margin[OF assms(3)] by blast
  qed
  ultimately show ?thesis by blast
qed

section \<open>Examples and the places where a VFO goes the wrong way\<close>

definition tuner0 :: tuner where
  "tuner0 = \<lparr>t_radio = bands_radio, t_index = 0, t_rx = receiver0, t_filters = filters0, t_hidden = None,
             t_startup_done = True, t_out = []\<rparr>"

lemma bands0_xvtr: "24 \<le> b \<Longrightarrow> b < 32 \<Longrightarrow> bd_title (bands0 ! nat b) = []"
proof -
  assume b: "24 \<le> b" "b < 32"
  have l: "length bands0 = 32" by (simp add: bands0_def)
  have "bands0 ! nat b \<in> set (drop 24 bands0)" using l b
    by (auto simp: in_set_conv_nth intro!: exI[of _ "nat b - 24"])
  moreover have "\<forall>bd \<in> set (drop 24 bands0). bd_title bd = []" by (simp add: bands0_def bnd_def bandstack_xvtr_def)
  ultimately show ?thesis by blast
qed

lemma tuner0_max [simp]: "rx_sample_rate rx \<le> 1000000 \<Longrightarrow> receiver_max_frequency (t_radio tuner0) rx = 61440000"
proof -
  have t: "bd_title (bands0 ! nat b) = []" if "b \<in> set [24 .. 31]" for b
    by (rule bands0_xvtr) (use that in \<open>unfold set_upto, simp_all\<close>)
  have f: "fold (\<lambda>b top. let xb = bands0 ! nat b
                 in if bd_title xb \<noteq> [] \<and> bd_frequencyMax xb > top then bd_frequencyMax xb else top) bs x = x"
    if "\<forall>b \<in> set bs. bd_title (bands0 ! nat b) = []" for bs x using that by (induction bs) (simp_all add: Let_def)
  have "xvtr_top bands_radio = 0"
    unfolding xvtr_top_def band_get_band_def using f[of "[24 .. 31]" 0] t
    by (simp add: bands_radio_def BANDS_def XVTRS_def)
  thus ?thesis
    by (simp add: receiver_max_frequency_def tuner0_def bands_radio_def radio0_def discovered0_def
        RECEIVER_FREQ_CEILING_HZ_def)
qed

lemma tuner0_rx [simp]: "t_rx tuner0 = receiver0" by (simp add: tuner0_def)

theorem dial_lands_on_target_witness:
  "dial (t_rx (vfo_apply_frequency 14195000 False tuner0)) = 14195000"
  using dial_lands_on_target[of tuner0 14195000 False] by (simp add: receiver0_def Let_def)

theorem tuning_stays_in_range_witness:
  "in_range (t_radio tuner0) (t_rx (receiver_move 5000 True tuner0))"
  using tuning_stays_in_range[of tuner0 5000 True] by (simp add: receiver0_def in_range_def dial_def)

text \<open>A protocol 2 radio whose commanded frequency is stale is told of the retune.\<close>

definition stale0 :: tuner where
  "stale0 = tuner0\<lparr>t_radio := bands_radio\<lparr>r_discovered := (r_discovered bands_radio)\<lparr>d_protocol := PROTOCOL_2\<rparr>\<rparr>,
     t_rx := receiver0\<lparr>rx_hw_frequency := 7100000\<rparr>\<rparr>"

theorem radio_follows_dial_witness:
  "rx_hw_frequency (t_rx (frequency_changed stale0)) = 14100000 \<and>
   Ev_HighPriority \<in> set (t_out (frequency_changed stale0))"
proof -
  have s: "receiver_sync_transverter stale0 = stale0"
    by (rule sync_transverter_none) (simp add: stale0_def receiver0_def)
  have f: "rx_hw_frequency (t_rx stale0) = 7100000" "t_out stale0 = []"
    "d_protocol (r_discovered (t_radio stale0)) = PROTOCOL_2" "hw_frequency (t_rx stale0) = 14100000"
    by (simp_all add: stale0_def tuner0_def receiver0_def hw_frequency_def)
  show ?thesis
    using radio_follows_dial[of stale0] unfolding Let_def frequency_changed_fields retune_hw s f by auto
qed

text \<open>VFO B under the inverting satellite split: a frequency typed in is mirrored about
the one it had.\<close>

lemma rsat_entry_is_mirrored:
  assumes "\<not> rx_locked (t_rx t)" "rx_split (t_rx t) = SPLIT_RSAT" "\<not> rx_vfo_linked (t_rx t)"
    "\<not> rx_subrx (t_rx t)" "\<not> rx_subrx_enable (t_rx t)" "rx_lo_a (t_rx t) = 0"
    "0 < target" "target \<le> receiver_max_frequency (t_radio t) (t_rx t)"
  shows "rx_frequency_b (t_rx (vfo_apply_frequency target True t)) = 2 * rx_frequency_b (t_rx t) - target"
proof -
  let ?t1 = "receiver_move_b (target - rx_frequency_b (t_rx t)) False False t"
  have "?t1 = upd (set_b False (2 * rx_frequency_b (t_rx t) - target)) t"
    using assms by (auto simp: receiver_move_b_def Let_def b_in_span_def upd_def set_b_def)
  thus ?thesis using assms(1,5,6) by (simp add: vfo_apply_frequency_def Let_def set_b_def retune_b)
qed

text \<open>A step of VFO B under the non-inverting satellite split moves a linked VFO A the
other way unless there is a cursor.\<close>

lemma sat_step_moves_a_backwards:
  assumes "\<not> rx_locked (t_rx t)" "rx_split (t_rx t) = SPLIT_SAT" "rx_vfo_linked (t_rx t)"
    "\<not> rx_subrx (t_rx t)" "\<not> rx_ctun (t_rx t)" "\<not> rx_freetune (t_rx t)" "rx_lo_a (t_rx t) = 0"
    "0 < rx_frequency_b (t_rx t) + hz" "rx_frequency_b (t_rx t) + hz \<le> receiver_max_frequency (t_radio t) (t_rx t)"
    "0 \<le> rx_frequency_a (t_rx t) - hz" "rx_frequency_a (t_rx t) - hz \<le> receiver_max_frequency (t_radio t) (t_rx t)"
  shows "rx_frequency_a (t_rx (receiver_move_b hz False False t)) = rx_frequency_a (t_rx t) - hz"
proof -
  let ?t1 = "upd (b_in_span (rx_frequency_b (t_rx t))) (upd (set_b False (rx_frequency_b (t_rx t) + hz)) t)"
  have m: "receiver_max_frequency (t_radio t) (t_rx ?t1) = receiver_max_frequency (t_radio t) (t_rx t)"
    by (rule max_frequency_cong) simp_all
  have a: "rx_frequency_a (t_rx (fst (receiver_move_a hz False ?t1))) = rx_frequency_a (t_rx t) - hz"
    "rx_lo_a (t_rx (fst (receiver_move_a hz False ?t1))) = 0"
    using assms m by (simp_all add: receiver_move_a_def move_a_def Let_def out_of_range_def round_step_def)
  have "receiver_move_b hz False False t = update_frequency (frequency_changed (fst (receiver_move_a hz False ?t1)))"
    using assms by (auto simp: receiver_move_b_def Let_def)
  thus ?thesis using a by simp
qed

text \<open>A click on the panadapter has no lower limit.\<close>

lemma click_below_zero:
  "rx_frequency_a (t_rx (receiver_move_to 4000 (upd (\<lambda>rx. rx\<lparr>rx_frequency_a := 10000\<rparr>) tuner0))) = - 10000"
proof -
  let ?t = "upd (\<lambda>rx. rx\<lparr>rx_frequency_a := 10000\<rparr>) tuner0"
  have "receiver_move_to 4000 ?t = update_frequency (frequency_changed (?t\<lparr>t_rx := (t_rx ?t)\<lparr>rx_frequency_a := - 10000\<rparr>\<rparr>))"
    by (simp add: receiver_move_to_def move_to_def Let_def receiver0_def trunc_real_def mode_defs signed_divide_int_def)
  thus ?thesis by (simp add: receiver0_def)
qed

end
