(* ===== verification/Vfo_Mode.thy ===== *)
theory Vfo_Mode
  imports Vfo
begin

text \<open>Mode, filter and band of a receiver and the exchanges between its VFOs:
\<open>set_filter\<close>, \<open>receiver_filter_changed\<close>, \<open>receiver_mode_changed\<close>,
\<open>receiver_band_changed\<close> (\<open>src/core/receiver.c\<close>), \<open>set_band\<close>
(\<open>src/core/band.c\<close>), and the operator's VFO functions of \<open>src/ui/vfo.c\<close>.

A subscript outside the filter tables is the event \<open>Ev_OutOfTable\<close>: what the program
does from there on is not defined, and the model leaves the state as it is.\<close>

section \<open>Filter and mode\<close>

definition set_filter :: "int \<Rightarrow> int \<Rightarrow> tuner \<Rightarrow> tuner" where
  "set_filter low high t =
     (let pitch = r_cw_keyer_sidetone_frequency (t_radio t);
          t1 = upd (\<lambda>rx. if rx_mode_a rx = CWL
                         then rx\<lparr>rx_filter_low_a := - pitch - low, rx_filter_high_a := - pitch + high\<rparr>
                         else if rx_mode_a rx = CWU
                         then rx\<lparr>rx_filter_low_a := pitch - low, rx_filter_high_a := pitch + high\<rparr>
                         else rx\<lparr>rx_filter_low_a := low, rx_filter_high_a := high\<rparr>) t;
          t2 = out (Ev_Passband (rx_filter_low_a (t_rx t1)) (rx_filter_high_a (t_rx t1))) t1
      in if owns_tx t2 \<and> tx_use_rx_filter (r_transmitter (t_radio t2))
         then out Ev_TxPanadapter (transmitter_set_filter (rx_filter_low_a (t_rx t2)) (rx_filter_high_a (t_rx t2)) t2)
         else t2)"

definition set_squelch :: "tuner \<Rightarrow> tuner" where
  "set_squelch t =
     (if rx_channel (t_rx t) < 0 then t
      else (let t1 = upd (\<lambda>rx. rx\<lparr>rx_squelch_enable := (rx_squelch rx > 0),
                                  rx_mode_squelch := (if 0 \<le> rx_mode_a rx \<and> rx_mode_a rx < MODES
                                     then (rx_mode_squelch rx)[nat (rx_mode_a rx) := rx_squelch rx]
                                     else rx_mode_squelch rx)\<rparr>) t
            in out (Ev_Squelch (rx_squelch (t_rx t1)) (rx_squelch_enable (t_rx t1))) t1))"

definition set_deviation :: "tuner \<Rightarrow> tuner" where
  "set_deviation t = set_squelch (out (Ev_Deviation (rx_deviation (t_rx t))) t)"

definition choose_filter :: "int \<Rightarrow> receiver \<Rightarrow> receiver" where
  "choose_filter f rx =
     rx\<lparr>rx_filter_a := f,
        rx_mode_filter := (if 0 \<le> rx_mode_a rx \<and> rx_mode_a rx < MODES
                           then (rx_mode_filter rx)[nat (rx_mode_a rx) := f] else rx_mode_filter rx)\<rparr>"

definition receiver_filter_changed :: "int \<Rightarrow> tuner \<Rightarrow> tuner" where
  "receiver_filter_changed f t =
     (if f < 0 \<or> f \<ge> FILTERS then t
      else (let t1 = upd (choose_filter f) t;
                t2 = (if rx_mode_a (t_rx t1) = FMN then
                        (let dev = (if f = 0 then 2500 else 5000);
                             t' = upd (\<lambda>rx. rx\<lparr>rx_deviation := dev\<rparr>) t1
                         in set_deviation (if dev = 2500 then set_filter (- 4000) 4000 t'
                                           else set_filter (- 8000) 8000 t'))
                      else (case filter_at (t_filters t1) (rx_mode_a (t_rx t1)) f of
                              None \<Rightarrow> out Ev_OutOfTable t1
                            | Some e \<Rightarrow> set_filter (fl_low e) (fl_high e) t1))
            in out Ev_Vfo t2))"

definition remember_mode :: "receiver \<Rightarrow> receiver" where
  "remember_mode rx =
     (if 0 \<le> rx_mode_a rx \<and> rx_mode_a rx < MODES then
        rx\<lparr>rx_mode_filter := (rx_mode_filter rx)[nat (rx_mode_a rx) := rx_filter_a rx],
           rx_mode_agc := (rx_mode_agc rx)[nat (rx_mode_a rx) := rx_agc rx],
           rx_mode_squelch := (rx_mode_squelch rx)[nat (rx_mode_a rx) := rx_squelch rx]\<rparr>
      else rx)"

definition recall_mode :: "int \<Rightarrow> receiver \<Rightarrow> receiver" where
  "recall_mode mode rx =
     rx\<lparr>rx_mode_a := mode, rx_filter_a := rx_mode_filter rx ! nat mode,
        rx_agc := rx_mode_agc rx ! nat mode, rx_squelch := rx_mode_squelch rx ! nat mode\<rparr>"

definition on_channel :: "(tuner \<Rightarrow> tuner) \<Rightarrow> tuner \<Rightarrow> tuner" where
  "on_channel g t = (if rx_channel (t_rx t) \<ge> 0 then g t else t)"

definition receiver_mode_changed :: "int \<Rightarrow> tuner \<Rightarrow> tuner" where
  "receiver_mode_changed mode t =
     (if mode < 0 \<or> mode \<ge> MODES then t
      else (let t1 = out (Ev_RxMode mode) (upd remember_mode t);
                t2 = upd (recall_mode mode) t1;
                t3 = on_channel (\<lambda>t. out (Ev_Agc (rx_agc (t_rx t))) t) t2;
                t4 = on_channel (\<lambda>t. out Ev_Apf (set_squelch t)) t3;
                t5 = receiver_filter_changed (rx_filter_a (t_rx t4)) t4;
                t6 = on_channel (\<lambda>t. out Ev_NotchSync (out Ev_Noise t)) t5
            in out Ev_TciMode t6))"

definition tx_follows_mode :: "tuner \<Rightarrow> tuner" where
  "tx_follows_mode t =
     (if owns_tx t then transmitter_set_mode (if rx_split (t_rx t) \<noteq> SPLIT_OFF then rx_mode_b (t_rx t)
                                              else rx_mode_a (t_rx t)) t
      else t)"

definition vfo_set_mode :: "int \<Rightarrow> tuner \<Rightarrow> tuner" where
  "vfo_set_mode mode t =
     (if mode < 0 \<or> mode \<ge> MODES then t
      else (let t1 = receiver_mode_changed mode t;
                t2 = (if rx_split (t_rx t1) \<noteq> SPLIT_OFF then upd (\<lambda>rx. rx\<lparr>rx_mode_b := mode\<rparr>) t1 else t1)
            in out Ev_Vfo (tx_follows_mode t2)))"

section \<open>Band changes\<close>

definition reanchor :: "receiver \<Rightarrow> receiver" where
  "reanchor rx =
     (if rx_freetune rx then
        rx\<lparr>rx_ctun_frequency := rx_frequency_a rx,
           rx_ctun_min := rx_frequency_a rx - rx_sample_rate rx sdiv 2,
           rx_ctun_max := rx_frequency_a rx + rx_sample_rate rx sdiv 2\<rparr>
      else rx)"

definition receiver_band_changed :: "int \<Rightarrow> tuner \<Rightarrow> tuner" where
  "receiver_band_changed b t =
     (let t1 = upd (\<lambda>rx. rx\<lparr>rx_band_a := b\<rparr>) t;
          t2 = receiver_mode_changed (rx_mode_a (t_rx t1)) t1;
          t3 = receiver_filter_changed (rx_filter_a (t_rx t2)) t2
      in frequency_changed (upd reanchor t3))"

definition upd_band :: "int \<Rightarrow> (band \<Rightarrow> band) \<Rightarrow> tuner \<Rightarrow> tuner" where
  "upd_band b g t =
     t\<lparr>t_radio := (t_radio t)\<lparr>r_bands := (r_bands (t_radio t))[nat b := g (r_bands (t_radio t) ! nat b)]\<rparr>\<rparr>"

text \<open>The frequency, mode and filter go into the entry the band is on, the converter into
the band; leaving the band also leaves the display levels there.\<close>

definition save_entry_of :: "receiver \<Rightarrow> band \<Rightarrow> band" where
  "save_entry_of rx bd =
     bd\<lparr>bd_entry := (bd_entry bd)[nat (bd_current_entry bd) :=
            (bd_entry bd ! nat (bd_current_entry bd))
              \<lparr>be_frequency := rx_frequency_a rx, be_mode := rx_mode_a rx, be_filter := rx_filter_a rx\<rparr>],
        bd_frequencyLO := rx_lo_a rx, bd_errorLO := rx_error_a rx\<rparr>"

definition save_levels :: "receiver \<Rightarrow> band \<Rightarrow> band" where
  "save_levels rx bd =
     bd\<lparr>bd_panadapter_low := rx_panadapter_low rx, bd_panadapter_high := rx_panadapter_high rx,
        bd_panadapter_step := rx_panadapter_step rx, bd_waterfall_low := rx_waterfall_low rx,
        bd_waterfall_high := rx_waterfall_high rx, bd_waterfall_automatic := rx_waterfall_automatic rx\<rparr>"

definition load_band :: "band \<Rightarrow> receiver \<Rightarrow> receiver" where
  "load_band bd rx =
     (let e = bd_entry bd ! nat (bd_current_entry bd)
      in rx\<lparr>rx_frequency_a := be_frequency e, rx_mode_a := be_mode e, rx_filter_a := be_filter e,
            rx_lo_a := bd_frequencyLO bd, rx_error_a := bd_errorLO bd, rx_ctun := False, rx_ctun_offset := 0,
            rx_panadapter_low := bd_panadapter_low bd, rx_panadapter_high := bd_panadapter_high bd,
            rx_panadapter_step := bd_panadapter_step bd, rx_waterfall_low := bd_waterfall_low bd,
            rx_waterfall_high := bd_waterfall_high bd, rx_waterfall_automatic := bd_waterfall_automatic bd\<rparr>)"

definition band_tables :: "int \<Rightarrow> int \<Rightarrow> tuner \<Rightarrow> tuner" where
  "band_tables b bs_entry t =
     (let rx = t_rx t; old = rx_band_a rx;
          cur = bd_current_entry (r_bands (t_radio t) ! nat old);
          t1 = (if b \<noteq> old \<or> bs_entry \<noteq> cur then upd_band old (save_entry_of rx) t else t);
          t2 = (if b \<noteq> old then upd_band old (save_levels rx) t1 else t1)
      in if bs_entry \<noteq> - 1 then upd_band b (\<lambda>bd. bd\<lparr>bd_current_entry := bs_entry\<rparr>) t2 else t2)"

definition set_band :: "int \<Rightarrow> int \<Rightarrow> tuner \<Rightarrow> tuner" where
  "set_band b bs_entry t =
     (if rx_locked (t_rx t) then t
      else (let t1 = band_tables b bs_entry t;
                t2 = upd (load_band (r_bands (t_radio t1) ! nat b)) t1
            in tx_follows_mode (receiver_band_changed b t2)))"

section \<open>Between the VFOs\<close>

definition a_to_b :: "receiver \<Rightarrow> receiver" where
  "a_to_b rx =
     rx\<lparr>rx_band_b := rx_band_a rx, rx_frequency_b := rx_frequency_a rx, rx_mode_b := rx_mode_a rx,
        rx_filter_b := rx_filter_a rx, rx_filter_low_b := rx_filter_low_a rx,
        rx_filter_high_b := rx_filter_high_a rx, rx_lo_b := rx_lo_a rx, rx_error_b := rx_error_a rx\<rparr>"

definition b_to_a :: "receiver \<Rightarrow> receiver" where
  "b_to_a rx =
     rx\<lparr>rx_band_a := rx_band_b rx, rx_frequency_a := rx_frequency_b rx, rx_mode_a := rx_mode_b rx,
        rx_filter_a := rx_filter_b rx, rx_filter_low_a := rx_filter_low_b rx,
        rx_filter_high_a := rx_filter_high_b rx, rx_lo_a := rx_lo_b rx, rx_error_a := rx_error_b rx\<rparr>"

definition swap_vfos :: "receiver \<Rightarrow> receiver" where
  "swap_vfos rx =
     (b_to_a rx)\<lparr>rx_band_b := rx_band_a rx, rx_frequency_b := rx_frequency_a rx, rx_mode_b := rx_mode_a rx,
        rx_filter_b := rx_filter_a rx, rx_filter_low_b := rx_filter_low_a rx,
        rx_filter_high_b := rx_filter_high_a rx, rx_lo_b := rx_lo_a rx, rx_error_b := rx_error_a rx\<rparr>"

definition vfo_a2b :: "tuner \<Rightarrow> tuner" where
  "vfo_a2b t =
     (let m = rx_mode_b (t_rx t); f = rx_filter_b (t_rx t);
          t1 = frequency_changed (upd a_to_b t);
          t2 = (if rx_subrx_enable (t_rx t1)
                then (if m \<noteq> rx_mode_b (t_rx t1) then subrx_mode_changed t1
                      else if f \<noteq> rx_filter_b (t_rx t1) then subrx_filter_changed t1 else t1)
                else t1)
      in out Ev_Vfo t2)"

definition vfo_b2a :: "tuner \<Rightarrow> tuner" where
  "vfo_b2a t =
     (if rx_locked (t_rx t) then t
      else (let m = rx_mode_a (t_rx t); f = rx_filter_a (t_rx t);
                t1 = frequency_changed (upd b_to_a t);
                t2 = (if m \<noteq> rx_mode_a (t_rx t1) then receiver_mode_changed (rx_mode_a (t_rx t1)) t1
                      else if f \<noteq> rx_filter_a (t_rx t1) then receiver_filter_changed (rx_filter_a (t_rx t1)) t1
                      else t1)
            in out Ev_Vfo t2))"

definition vfo_aswapb :: "tuner \<Rightarrow> tuner" where
  "vfo_aswapb t =
     (if rx_locked (t_rx t) then t
      else (let t1 = frequency_changed (upd swap_vfos t);
                t2 = tx_follows_mode (receiver_mode_changed (rx_mode_a (t_rx t1)) t1);
                t3 = (if rx_subrx_enable (t_rx t2)
                      then (if rx_mode_b (t_rx t2) \<noteq> rx_mode_a (t_rx t2) then subrx_mode_changed t2
                            else if rx_filter_b (t_rx t2) \<noteq> rx_filter_a (t_rx t2) then subrx_filter_changed t2
                            else t2)
                      else t2)
            in out Ev_Vfo t3))"

section \<open>Split\<close>

definition EnableSplitSubRX :: "tuner \<Rightarrow> tuner" where
  "EnableSplitSubRX t =
     (let t1 = vfo_a2b t; m = rx_mode_a (t_rx t1)
      in if m = CWL \<or> m = CWU \<or> m = LSB \<or> m = USB then
           (let up = (if m = CWL \<or> m = CWU then 1000 else 5000);
                t2 = upd (\<lambda>rx. rx\<lparr>rx_frequency_b := rx_frequency_a rx + up, rx_mode_b := rx_mode_a rx\<rparr>) t1
            in if \<not> rx_subrx_enable (t_rx t2)
               then upd (\<lambda>rx. rx\<lparr>rx_subrx_enable := True\<rparr>) (create_subrx t2) else t2)
         else t1)"

definition DisableSplitSubRX :: "tuner \<Rightarrow> tuner" where
  "DisableSplitSubRX t =
     (if rx_mode_a (t_rx t) \<in> {CWL, CWU, LSB, USB} \<and> rx_subrx_enable (t_rx t)
      then destroy_subrx (upd (\<lambda>rx. rx\<lparr>rx_subrx_enable := False\<rparr>) t) else t)"

definition vfo_set_split :: "split_type \<Rightarrow> tuner \<Rightarrow> tuner" where
  "vfo_set_split split t =
     (let t1 = upd (\<lambda>rx. rx\<lparr>rx_split := split,
                            rx_split_last := (if split \<noteq> SPLIT_OFF then split else rx_split_last rx)\<rparr>) t;
          t2 = (if owns_tx t1
                then transmitter_set_mode (if split = SPLIT_OFF then rx_mode_a (t_rx t1) else rx_mode_b (t_rx t1)) t1
                else t1)
      in out Ev_Vfo (frequency_changed t2))"

definition vfo_toggle_split :: "tuner \<Rightarrow> tuner" where
  "vfo_toggle_split t =
     (if rx_split (t_rx t) \<noteq> SPLIT_OFF
      then vfo_set_split SPLIT_OFF (upd (\<lambda>rx. rx\<lparr>rx_split_last := rx_split rx\<rparr>) t)
      else vfo_set_split (if rx_split_last (t_rx t) = SPLIT_OFF then SPLIT_ON else rx_split_last (t_rx t)) t)"

definition split_cb :: "split_type \<Rightarrow> tuner \<Rightarrow> tuner" where
  "split_cb selection t =
     (let t1 = (if owns_tx t
                then (if selection = SPLIT_ON then EnableSplitSubRX t
                      else if selection = SPLIT_OFF then DisableSplitSubRX t else t)
                else t)
      in vfo_set_split selection t1)"

section \<open>Subscripts stay inside their tables\<close>

definition fault :: "tuner \<Rightarrow> bool" where
  "fault t = (Ev_OutOfTable \<in> set (t_out t))"

text \<open>What the frequency operations leave alone.\<close>

definition env :: "tuner \<Rightarrow> filter_table \<times> band list \<times> nat \<times> nat" where
  "env t = (t_filters t, r_bands (t_radio t), length (r_receiver (t_radio t)), t_index t)"

definition rx_typed :: "receiver \<Rightarrow> bool" where
  "rx_typed rx \<longleftrightarrow> 0 \<le> rx_mode_a rx \<and> rx_mode_a rx < MODES \<and> 0 \<le> rx_filter_a rx \<and> rx_filter_a rx < FILTERS
     \<and> 0 \<le> rx_mode_b rx \<and> rx_mode_b rx < MODES \<and> 0 \<le> rx_filter_b rx \<and> rx_filter_b rx < FILTERS
     \<and> length (rx_mode_filter rx) = nat MODES \<and> (\<forall>f \<in> set (rx_mode_filter rx). 0 \<le> f \<and> f < FILTERS)
     \<and> length (rx_mode_agc rx) = nat MODES \<and> length (rx_mode_squelch rx) = nat MODES
     \<and> 0 \<le> rx_band_a rx \<and> rx_band_a rx < BANDS + XVTRS
     \<and> 0 \<le> rx_band_b rx \<and> rx_band_b rx < BANDS + XVTRS"

definition entry_typed :: "bandstack_entry \<Rightarrow> bool" where
  "entry_typed e \<longleftrightarrow> 0 \<le> be_mode e \<and> be_mode e < MODES \<and> 0 \<le> be_filter e \<and> be_filter e < FILTERS"

definition stack_typed :: "band \<Rightarrow> bool" where
  "stack_typed bd \<longleftrightarrow> 0 \<le> bd_current_entry bd \<and> nat (bd_current_entry bd) < length (bd_entry bd) \<and>
     (\<forall>e \<in> set (bd_entry bd). entry_typed e)"

definition env_typed :: "filter_table \<times> band list \<times> nat \<times> nat \<Rightarrow> bool" where
  "env_typed e \<longleftrightarrow> (case e of (fs, bands, n, i) \<Rightarrow>
     filters_ok fs \<and> length bands = nat (BANDS + XVTRS) \<and> (\<forall>bd \<in> set bands. stack_typed bd) \<and> i < n)"

definition typed :: "tuner \<Rightarrow> bool" where
  "typed t \<longleftrightarrow> rx_typed (t_rx t) \<and> env_typed (env t) \<and> \<not> fault t"

lemma fault_simps [simp]:
  "fault (out e t) = (e = Ev_OutOfTable \<or> fault t)" "fault (upd f t) = fault t"
  "fault (t\<lparr>t_rx := rx\<rparr>) = fault t"
  "fault (receiver_apply_shift off run t) = fault t" "fault (rx_push_hw_frequency force t) = fault t"
  "fault (tx_push_hw_frequency t) = fault t" "fault (receiver_sync_vfo_b_lo t) = fault t"
  "fault (receiver_sync_transverter t) = fault t" "fault (sync_hidden t) = fault t"
  "fault (hl2_converter t) = fault t" "fault (notch_retune t) = fault t" "fault (subrx_frequency_changed t) = fault t"
  "fault (subrx_retune t) = fault t"
  by (auto simp: fault_def receiver_apply_shift_def rx_push_hw_frequency_def tx_push_hw_frequency_def
      notch_retune_def subrx_frequency_changed_def subrx_retune_def Let_def)

lemma env_simps [simp]:
  "env (out e t) = env t" "env (upd f t) = env t" "env (t\<lparr>t_rx := rx\<rparr>) = env t"
  "env (receiver_apply_shift off run t) = env t"
  "env (subrx_frequency_changed t) = env t" "env (frequency_changed t) = env t" "env (update_frequency t) = env t"
  by (simp_all add: env_def)

lemma fault_tune_cursor [simp]: "fault (tune_cursor t) = fault t"
  by (cases "t_hidden t") (simp_all add: tune_cursor_def Let_def)

lemma fault_tune_centre [simp]: "fault (tune_centre t) = fault t"
  by (simp add: tune_centre_def Let_def)

lemma fault_dsp_retune [simp]: "fault (dsp_retune t) = fault t"
  by (simp add: dsp_retune_def)

lemma fault_frequency_changed [simp]: "fault (frequency_changed t) = fault t"
  by (simp add: frequency_changed_def Let_def)

lemma fault_update_frequency [simp]: "fault (update_frequency t) = fault t"
  by (simp add: update_frequency_def Let_def)

lemma get_band_range: "0 \<le> get_band_from_frequency r f \<and> get_band_from_frequency r f < BANDS + XVTRS"
proof (cases "find (band_holds r f) [0 .. BANDS + XVTRS - 1]")
  case (Some b)
  hence "b \<in> set [0 .. BANDS + XVTRS - 1]" by (auto simp: find_Some_iff)
  thus ?thesis using Some by (simp add: get_band_from_frequency_def)
qed (simp add: get_band_from_frequency_def bandGen_def BANDS_def XVTRS_def)

text \<open>An operation on the receiver that keeps modes, filters and their memories and
leaves the band in the table.\<close>

definition keeps_modes :: "receiver \<Rightarrow> receiver \<Rightarrow> bool" where
  "keeps_modes rx rx' \<longleftrightarrow> rx_mode_a rx' = rx_mode_a rx \<and> rx_filter_a rx' = rx_filter_a rx \<and>
     rx_mode_b rx' = rx_mode_b rx \<and> rx_filter_b rx' = rx_filter_b rx \<and> rx_mode_filter rx' = rx_mode_filter rx \<and>
     rx_mode_agc rx' = rx_mode_agc rx \<and> rx_mode_squelch rx' = rx_mode_squelch rx \<and>
     (rx_band_a rx' = rx_band_a rx \<or> (0 \<le> rx_band_a rx' \<and> rx_band_a rx' < BANDS + XVTRS)) \<and>
     (rx_band_b rx' = rx_band_b rx \<or> (0 \<le> rx_band_b rx' \<and> rx_band_b rx' < BANDS + XVTRS))"

lemma keeps_modes_typed: "rx_typed rx \<Longrightarrow> keeps_modes rx rx' \<Longrightarrow> rx_typed rx'"
  by (auto simp: keeps_modes_def rx_typed_def)

lemma keeps_modes_refl [simp]: "keeps_modes rx rx"
  by (simp add: keeps_modes_def)

lemma keeps_modes_trans: "keeps_modes rx rx' \<Longrightarrow> keeps_modes rx' rx'' \<Longrightarrow> keeps_modes rx rx''"
  by (auto simp: keeps_modes_def)

lemma keeps_modes_retune: "keeps_modes rx (retune r rx)"
  using get_band_range
  by (simp add: keeps_modes_def retune_def retune_cursor_def retune_centre_def shifted_def with_b_lo_def
      subrx_in_passband_def Let_def)

lemma keeps_modes_with_b_lo: "keeps_modes rx (with_b_lo r rx)"
  using get_band_range by (simp add: keeps_modes_def with_b_lo_def Let_def)

lemma keeps_modes_transverter: "keeps_modes (t_rx t) (t_rx (receiver_sync_transverter t))"
proof -
  have b: "0 \<le> b \<and> b < BANDS + XVTRS" if "find P [0 .. BANDS + XVTRS - 1] = Some b" for P b
  proof -
    have "b \<in> set [0 .. BANDS + XVTRS - 1]" using that by (auto simp: find_Some_iff)
    thus ?thesis by simp
  qed
  show ?thesis using get_band_range
    by (auto simp: keeps_modes_def receiver_sync_transverter_def Let_def dest: b split: option.split)
qed

lemma keeps_modes_changed: "keeps_modes (t_rx t) (t_rx (frequency_changed t))"
  using keeps_modes_trans[OF keeps_modes_transverter keeps_modes_retune] by simp

text \<open>A tuning operation: it keeps the modes and the tables and reports no fault.\<close>

definition tunes :: "tuner \<Rightarrow> tuner \<Rightarrow> bool" where
  "tunes t t' \<longleftrightarrow> keeps_modes (t_rx t) (t_rx t') \<and> env t' = env t \<and> fault t' = fault t"

lemma tunes_typed: "typed t \<Longrightarrow> tunes t t' \<Longrightarrow> typed t'"
  using keeps_modes_typed by (auto simp: typed_def tunes_def)

lemma tunes_refl [intro, simp]: "tunes t t" by (simp add: tunes_def)

lemma tunes_trans: "tunes t t' \<Longrightarrow> tunes t' t'' \<Longrightarrow> tunes t t''"
  using keeps_modes_trans by (auto simp: tunes_def)

lemma tunes_changed: "tunes t t' \<Longrightarrow> tunes t (frequency_changed t')"
  using keeps_modes_trans keeps_modes_changed[of t'] by (auto simp: tunes_def)

lemma tunes_update: "tunes t t' \<Longrightarrow> tunes t (update_frequency t')"
  using keeps_modes_trans keeps_modes_with_b_lo by (auto simp: tunes_def)

lemma tunes_out: "tunes t t' \<Longrightarrow> e \<noteq> Ev_OutOfTable \<Longrightarrow> tunes t (out e t')"
  by (simp add: tunes_def)

lemma tunes_upd: "tunes t t' \<Longrightarrow> keeps_modes (t_rx t') (f (t_rx t')) \<Longrightarrow> tunes t (upd f t')"
  using keeps_modes_trans by (auto simp: tunes_def)

lemma tunes_rx: "tunes t t' \<Longrightarrow> keeps_modes (t_rx t') rx \<Longrightarrow> tunes t (t'\<lparr>t_rx := rx\<rparr>)"
  using keeps_modes_trans by (auto simp: tunes_def)

lemma tunes_shift: "tunes t t' \<Longrightarrow> tunes t (receiver_apply_shift off run t')"
  using keeps_modes_trans[of "t_rx t" "t_rx t'"] by (auto simp: tunes_def keeps_modes_def shifted_def)

lemma keeps_modes_move_a: "keeps_modes rx (fst (move_a fmax hz rnd rx))"
  by (auto simp: keeps_modes_def move_a_def Let_def freetune_follow_def)

lemma tunes_move_a: "tunes t t' \<Longrightarrow> tunes t (fst (receiver_move_a hz rnd t'))"
  using keeps_modes_trans[OF _ keeps_modes_move_a]
  by (auto simp: tunes_def receiver_move_a_def split: prod.split) (metis fst_conv)+

lemma keeps_modes_parts:
  "keeps_modes rx (set_b rnd f rx)" "keeps_modes rx (b_in_span f rx)" "keeps_modes rx (move_span nf rx)"
  "keeps_modes rx (fst (move_to pitch hz rx))" "keeps_modes rx (freetune_on rx)" "keeps_modes rx (reanchor rx)"
  by (auto simp: keeps_modes_def set_b_def b_in_span_def move_span_def move_to_def freetune_on_def reanchor_def Let_def)

lemmas tunes_rules = tunes_changed tunes_update tunes_out tunes_upd tunes_rx tunes_shift tunes_move_a keeps_modes_parts

lemma tunes_move_b: "tunes t t' \<Longrightarrow> tunes t (receiver_move_b hz b_only rnd t')"
  by (cases "rx_split (t_rx t')"; simp add: receiver_move_b_def Let_def; auto intro!: tunes_rules)

lemma tunes_move: "tunes t (receiver_move hz rnd t)"
  using tunes_move_a[OF tunes_refl, of t hz rnd]
  by (cases "receiver_move_a hz rnd t")
     (auto simp: receiver_move_def Let_def intro!: tunes_changed tunes_update tunes_move_b)

lemma tunes_move_to: "tunes t (receiver_move_to hz t)"
proof -
  obtain rx delta where m: "move_to (r_cw_keyer_sidetone_frequency (t_radio t)) hz (t_rx t) = (rx, delta)" by force
  have "keeps_modes (t_rx t) rx"
    using keeps_modes_parts(4)[of "t_rx t" "r_cw_keyer_sidetone_frequency (t_radio t)" hz] by (simp add: m)
  hence "tunes t (t\<lparr>t_rx := rx\<rparr>)" by (intro tunes_rx) auto
  thus ?thesis unfolding receiver_move_to_def m Let_def
    by (cases "rx_split rx") (auto simp: intro!: tunes_changed tunes_update tunes_move_b)
qed

lemma tunes_move_span: "tunes t (receiver_move_span hz t)"
  by (auto simp: receiver_move_span_def Let_def intro!: tunes_rules tunes_move_b)

lemma tunes_set_freetune: "tunes t (receiver_set_freetune enable t)"
proof -
  have f: "tunes t (upd (\<lambda>rx. rx\<lparr>rx_freetune := enable\<rparr>) t)" by (intro tunes_upd) (auto simp: keeps_modes_def)
  have s: "tunes t' (if rx_vfo (t_rx t') then update_frequency (frequency_changed t') else t')" for t'
    by (auto intro!: tunes_changed tunes_update)
  show ?thesis unfolding receiver_set_freetune_def Let_def
    by (rule tunes_trans[OF _ s]) (auto intro!: tunes_shift tunes_upd f keeps_modes_parts simp: keeps_modes_def)
qed

lemma tunes_set_ctun: "tunes t (receiver_set_ctun t)"
  unfolding receiver_set_ctun_def Let_def
  by (intro tunes_changed tunes_update tunes_shift tunes_upd) (auto simp: keeps_modes_def)

lemma tunes_apply_frequency: "tunes t (vfo_apply_frequency target is_b t)"
  by (auto simp: vfo_apply_frequency_def Let_def intro!: tunes_out tunes_changed tunes_move_b tunes_move)

lemma tunes_subrx:
  "tunes t t' \<Longrightarrow> tunes t (create_subrx t')" "tunes t t' \<Longrightarrow> tunes t (destroy_subrx t')"
  "tunes t t' \<Longrightarrow> tunes t (subrx_mode_changed t')" "tunes t t' \<Longrightarrow> tunes t (subrx_filter_changed t')"
  by (auto simp: create_subrx_def destroy_subrx_def subrx_mode_changed_def subrx_filter_changed_def
      subrx_frequency_changed_def Let_def keeps_modes_def intro!: tunes_out tunes_upd)

text \<open>The operations on modes, filters and bands keep everything typed as long as the
band stacks are.\<close>

lemma typed_out: "typed t \<Longrightarrow> e \<noteq> Ev_OutOfTable \<Longrightarrow> typed (out e t)"
  by (simp add: typed_def)

lemma typed_upd: "typed t \<Longrightarrow> rx_typed (f (t_rx t)) \<Longrightarrow> typed (upd f t)"
  by (simp add: typed_def)

lemma typed_filter_at:
  "typed t \<Longrightarrow> 0 \<le> m \<Longrightarrow> m < MODES \<Longrightarrow> 0 \<le> f \<Longrightarrow> f < FILTERS \<Longrightarrow> \<exists>e. filter_at (t_filters t) m f = Some e"
  using filter_at_in_range by (auto simp: typed_def env_typed_def env_def)

lemma owner_receiver:
  "owns_tx t \<Longrightarrow> typed t \<Longrightarrow> tx_receiver (tuned_radio t) = Some (t_rx t)"
  by (simp add: owns_tx_def typed_def env_typed_def env_def tx_receiver_def tuned_radio_def)

lemma typed_tx_radio:
  "typed t \<Longrightarrow> typed (t\<lparr>t_radio := (t_radio t)\<lparr>r_transmitter := tx\<rparr>\<rparr>)"
  by (simp add: typed_def env_def fault_def)

lemma typed_tx_filter:
  assumes "typed t" "owns_tx t"
  shows "typed (transmitter_set_filter low high t)"
proof -
  have r: "tx_receiver (tuned_radio t) = Some (t_rx t)" using owner_receiver assms by blast
  have "0 \<le> transmitter_get_mode (tuned_radio t) \<and> transmitter_get_mode (tuned_radio t) < MODES"
    using assms(1) r by (auto simp: transmitter_get_mode_def typed_def rx_typed_def)
  moreover have "0 \<le> rx_filter_a (t_rx t)" "rx_filter_a (t_rx t) < FILTERS" using assms(1) by (auto simp: typed_def rx_typed_def)
  ultimately obtain e where "filter_at (t_filters t) (transmitter_get_mode (tuned_radio t)) (rx_filter_a (t_rx t)) = Some e"
    using typed_filter_at[OF assms(1)] by blast
  thus ?thesis using assms(1) r by (auto simp: transmitter_set_filter_def Let_def intro!: typed_out typed_tx_radio)
qed

lemma owns_tx_simps [simp]:
  "owns_tx (out e t) = owns_tx t" "owns_tx (upd f t) = owns_tx t"
  by (simp_all add: owns_tx_def)

lemma typed_tx_mode: "typed t \<Longrightarrow> owns_tx t \<Longrightarrow> typed (transmitter_set_mode m t)"
  unfolding transmitter_set_mode_def by (intro typed_tx_filter typed_out) simp_all

lemma typed_follows: "typed t \<Longrightarrow> typed (tx_follows_mode t)"
  by (simp add: tx_follows_mode_def typed_tx_mode)

lemma typed_set_filter: "typed t \<Longrightarrow> typed (set_filter low high t)"
  by (auto simp: set_filter_def Let_def rx_typed_def typed_def[of t] intro!: typed_out typed_tx_filter typed_upd)

lemma typed_set_squelch: "typed t \<Longrightarrow> typed (set_squelch t)"
  by (auto simp: set_squelch_def Let_def rx_typed_def typed_def[of t] intro!: typed_out typed_upd)

lemma typed_choose:
  "rx_typed rx \<Longrightarrow> 0 \<le> f \<Longrightarrow> f < FILTERS \<Longrightarrow> rx_typed (choose_filter f rx)"
  by (auto simp: rx_typed_def choose_filter_def dest!: set_update_subset_insert[THEN subsetD])

lemma typed_filter_changed: "typed t \<Longrightarrow> typed (receiver_filter_changed f t)"
proof (cases "f < 0 \<or> f \<ge> FILTERS")
  case False
  assume t: "typed t"
  let ?t1 = "upd (choose_filter f) t"
  have t1: "typed ?t1" using t False typed_choose by (intro typed_upd) (auto simp: typed_def)
  have m: "0 \<le> rx_mode_a (t_rx ?t1) \<and> rx_mode_a (t_rx ?t1) < MODES" using t1 by (simp add: typed_def rx_typed_def)
  obtain e where e: "filter_at (t_filters ?t1) (rx_mode_a (t_rx ?t1)) f = Some e"
    using typed_filter_at[OF t1, of "rx_mode_a (t_rx ?t1)" f] m False by (auto simp: not_less)
  have d: "typed (upd (\<lambda>rx. rx\<lparr>rx_deviation := dev\<rparr>) ?t1)" for dev
    by (rule tunes_typed[OF t1], rule tunes_upd) (simp_all add: keeps_modes_def)
  show ?thesis unfolding receiver_filter_changed_def Let_def
    using False t1 e d by (auto simp: set_deviation_def intro!: typed_out typed_set_filter typed_set_squelch)
qed (simp add: receiver_filter_changed_def)

lemma typed_remember: "rx_typed rx \<Longrightarrow> rx_typed (remember_mode rx)"
  by (auto simp: rx_typed_def remember_mode_def dest!: set_update_subset_insert[THEN subsetD])

lemma typed_recall: "rx_typed rx \<Longrightarrow> 0 \<le> m \<Longrightarrow> m < MODES \<Longrightarrow> rx_typed (recall_mode m rx)"
  by (simp add: rx_typed_def recall_mode_def)

lemma typed_on_channel: "typed t \<Longrightarrow> (typed t \<Longrightarrow> typed (g t)) \<Longrightarrow> typed (on_channel g t)"
  by (simp add: on_channel_def)

lemma typed_mode_changed: "typed t \<Longrightarrow> typed (receiver_mode_changed m t)"
proof (cases "m < 0 \<or> m \<ge> MODES")
  case False
  assume t: "typed t"
  hence "typed (upd (recall_mode m) (out (Ev_RxMode m) (upd remember_mode t)))"
    using False typed_recall[OF typed_remember] by (intro typed_upd typed_out) (auto simp: typed_def intro: typed_remember)
  thus ?thesis using False unfolding receiver_mode_changed_def Let_def
    by (auto intro!: typed_out typed_on_channel typed_filter_changed typed_set_squelch)
qed (simp add: receiver_mode_changed_def)

lemma typed_band_changed:
  assumes "typed t" "0 \<le> b" "b < BANDS + XVTRS"
  shows "typed (receiver_band_changed b t)"
proof -
  have t1: "typed (upd (\<lambda>rx. rx\<lparr>rx_band_a := b\<rparr>) t)" using assms by (intro typed_upd) (auto simp: typed_def rx_typed_def)
  have "typed t' \<Longrightarrow> typed (frequency_changed (upd reanchor t'))" for t'
    by (erule tunes_typed) (intro tunes_changed tunes_upd tunes_refl keeps_modes_parts)
  thus ?thesis unfolding receiver_band_changed_def Let_def
    using typed_filter_changed typed_mode_changed t1 by simp
qed

lemma typed_upd_band:
  assumes "typed t" "\<And>bd. stack_typed bd \<Longrightarrow> bd \<in> set (r_bands (t_radio t)) \<Longrightarrow> bd = r_bands (t_radio t) ! nat b \<Longrightarrow> stack_typed (g bd)"
  shows "typed (upd_band b g t)"
proof (cases "nat b < length (r_bands (t_radio t))")
  case True
  have "stack_typed (g (r_bands (t_radio t) ! nat b))"
    using assms True by (auto simp: typed_def env_typed_def env_def)
  thus ?thesis using assms(1)
    by (auto simp: typed_def env_typed_def env_def upd_band_def fault_def dest!: set_update_subset_insert[THEN subsetD])
next
  case False
  hence "upd_band b g t = t" by (simp add: upd_band_def list_update_beyond)
  thus ?thesis using assms(1) by simp
qed

lemma typed_save_entry: "rx_typed rx \<Longrightarrow> stack_typed bd \<Longrightarrow> stack_typed (save_entry_of rx bd)"
  by (auto simp: stack_typed_def save_entry_of_def rx_typed_def entry_typed_def dest!: set_update_subset_insert[THEN subsetD])

lemma typed_save_levels: "stack_typed bd \<Longrightarrow> stack_typed (save_levels rx bd)"
  by (simp add: stack_typed_def save_levels_def)

lemma upd_band_fields [simp]:
  "t_rx (upd_band b g t) = t_rx t" "length (r_bands (t_radio (upd_band b g t))) = length (r_bands (t_radio t))"
  by (simp_all add: upd_band_def)

lemma typed_load_band:
  assumes "rx_typed rx" "stack_typed bd"
  shows "rx_typed (load_band bd rx)"
proof -
  have "bd_entry bd ! nat (bd_current_entry bd) \<in> set (bd_entry bd)" using assms(2) by (auto simp: stack_typed_def)
  hence "entry_typed (bd_entry bd ! nat (bd_current_entry bd))" using assms(2) by (auto simp: stack_typed_def)
  thus ?thesis using assms(1) by (auto simp: load_band_def Let_def rx_typed_def entry_typed_def)
qed

text \<open>The entry asked for is one of the band's, or \<open>-1\<close> for the one it is on.\<close>

definition entry_of_band :: "tuner \<Rightarrow> int \<Rightarrow> int \<Rightarrow> bool" where
  "entry_of_band t b e \<longleftrightarrow> 0 \<le> b \<and> b < BANDS + XVTRS \<and>
     (e = - 1 \<or> (0 \<le> e \<and> nat e < length (bd_entry (r_bands (t_radio t) ! nat b))))"

lemma upd_band_entry_length:
  "(\<And>bd. length (bd_entry (g bd)) = length (bd_entry bd)) \<Longrightarrow>
   length (bd_entry (r_bands (t_radio (upd_band c g t)) ! i)) = length (bd_entry (r_bands (t_radio t) ! i))"
  by (cases "nat c < length (r_bands (t_radio t))"; cases "i = nat c")
     (auto simp: upd_band_def list_update_beyond nth_list_update)

lemma save_entry_length:
  "length (bd_entry (save_entry_of rx bd)) = length (bd_entry bd)"
  "length (bd_entry (save_levels rx bd)) = length (bd_entry bd)"
  by (simp_all add: save_entry_of_def save_levels_def)

lemma band_tables_rx [simp]: "t_rx (band_tables b e t) = t_rx t"
  by (simp add: band_tables_def Let_def)

lemma typed_band_tables:
  assumes t: "typed t" and e: "entry_of_band t b bs_entry"
  shows "typed (band_tables b bs_entry t)"
proof -
  let ?rx = "t_rx t"
  define t1 where "t1 = (if b \<noteq> rx_band_a ?rx \<or> bs_entry \<noteq> bd_current_entry (r_bands (t_radio t) ! nat (rx_band_a ?rx))
                         then upd_band (rx_band_a ?rx) (save_entry_of ?rx) t else t)"
  define t2 where "t2 = (if b \<noteq> rx_band_a ?rx then upd_band (rx_band_a ?rx) (save_levels ?rx) t1 else t1)"
  define t3 where "t3 = (if bs_entry \<noteq> - 1 then upd_band b (\<lambda>bd. bd\<lparr>bd_current_entry := bs_entry\<rparr>) t2 else t2)"
  have r: "rx_typed ?rx" using t by (simp add: typed_def)
  have t1: "typed t1" using t typed_save_entry[OF r] by (auto simp: t1_def intro!: typed_upd_band)
  have t2: "typed t2" using t1 by (auto simp: t2_def intro!: typed_upd_band typed_save_levels)
  have l: "length (bd_entry (r_bands (t_radio t2) ! nat b)) = length (bd_entry (r_bands (t_radio t) ! nat b))"
    by (simp add: t2_def t1_def upd_band_entry_length save_entry_length)
  have "typed t3" using t2 e l by (auto simp: t3_def entry_of_band_def stack_typed_def intro!: typed_upd_band)
  moreover have "band_tables b bs_entry t = t3" by (simp only: band_tables_def Let_def t1_def t2_def t3_def)
  ultimately show ?thesis by simp
qed

lemma typed_loaded_band:
  assumes t: "typed t" and e: "entry_of_band t b bs_entry"
  shows "typed (upd (load_band (r_bands (t_radio (band_tables b bs_entry t)) ! nat b)) (band_tables b bs_entry t))"
proof -
  let ?t1 = "band_tables b bs_entry t"
  have t1: "typed ?t1" using typed_band_tables assms by blast
  have "length (r_bands (t_radio ?t1)) = nat (BANDS + XVTRS)" "0 \<le> b" "b < BANDS + XVTRS"
    using t1 e by (auto simp: typed_def env_typed_def env_def entry_of_band_def)
  hence "r_bands (t_radio ?t1) ! nat b \<in> set (r_bands (t_radio ?t1))" by simp
  hence "stack_typed (r_bands (t_radio ?t1) ! nat b)" using t1 by (auto simp: typed_def env_typed_def env_def)
  thus ?thesis using t1 typed_load_band by (intro typed_upd) (auto simp: typed_def)
qed

lemma typed_set_band: "typed t \<Longrightarrow> entry_of_band t b bs_entry \<Longrightarrow> typed (set_band b bs_entry t)"
  using typed_loaded_band by (auto simp: set_band_def Let_def entry_of_band_def intro!: typed_follows typed_band_changed)

lemma typed_changed: "typed t \<Longrightarrow> typed (frequency_changed t)"
  by (erule tunes_typed) (rule tunes_changed[OF tunes_refl])

lemma typed_subrx: "typed t \<Longrightarrow> typed (subrx_mode_changed t)" "typed t \<Longrightarrow> typed (subrx_filter_changed t)"
    "typed t \<Longrightarrow> typed (create_subrx t)" "typed t \<Longrightarrow> typed (destroy_subrx t)"
  by (erule tunes_typed, rule tunes_subrx, rule tunes_refl)+

lemma typed_vfo_copies: "rx_typed rx \<Longrightarrow> rx_typed (a_to_b rx)" "rx_typed rx \<Longrightarrow> rx_typed (b_to_a rx)"
    "rx_typed rx \<Longrightarrow> rx_typed (swap_vfos rx)"
  by (simp_all add: rx_typed_def a_to_b_def b_to_a_def swap_vfos_def)

lemma typed_copied: "typed t \<Longrightarrow> typed (frequency_changed (upd a_to_b t))"
    "typed t \<Longrightarrow> typed (frequency_changed (upd b_to_a t))" "typed t \<Longrightarrow> typed (frequency_changed (upd swap_vfos t))"
  by (rule typed_changed, rule typed_upd; simp add: typed_def typed_vfo_copies)+

lemma typed_a2b: "typed t \<Longrightarrow> typed (vfo_a2b t)"
  by (auto simp: vfo_a2b_def Let_def intro!: typed_out typed_subrx typed_copied)

lemma typed_b2a: "typed t \<Longrightarrow> typed (vfo_b2a t)"
  by (auto simp: vfo_b2a_def Let_def intro!: typed_out typed_mode_changed typed_filter_changed typed_copied)

lemma typed_swap: "typed t \<Longrightarrow> typed (vfo_aswapb t)"
proof -
  assume t: "typed t"
  have "typed (tx_follows_mode (receiver_mode_changed m (frequency_changed (upd swap_vfos t))))" for m
    by (intro typed_follows typed_mode_changed typed_copied t)
  thus ?thesis using t by (auto simp: vfo_aswapb_def Let_def intro!: typed_out typed_subrx)
qed

lemma typed_set_mode:
  assumes "typed t" shows "typed (vfo_set_mode m t)"
proof (cases "m < 0 \<or> m \<ge> MODES")
  case False
  have "typed (upd (\<lambda>rx. rx\<lparr>rx_mode_b := m\<rparr>) (receiver_mode_changed m t))"
    using typed_mode_changed[OF assms, of m] False by (intro typed_upd) (auto simp: typed_def rx_typed_def)
  thus ?thesis using False typed_mode_changed[OF assms, of m]
    by (auto simp: vfo_set_mode_def Let_def intro!: typed_out typed_follows)
qed (simp add: vfo_set_mode_def assms)

lemma typed_splits:
  assumes "typed t" shows "typed (upd (\<lambda>rx. rx\<lparr>rx_split := s, rx_split_last := l rx\<rparr>) t)"
  by (rule tunes_typed[OF assms], rule tunes_upd) (simp_all add: keeps_modes_def)

lemma typed_set_split:
  assumes t: "typed t" shows "typed (vfo_set_split s t)"
proof -
  let ?t1 = "upd (\<lambda>rx. rx\<lparr>rx_split := s, rx_split_last := (if s \<noteq> SPLIT_OFF then s else rx_split_last rx)\<rparr>) t"
  have a: "typed ?t1" by (rule typed_splits[OF t])
  have "typed (if owns_tx ?t1 then transmitter_set_mode m ?t1 else ?t1)" for m
    using a typed_tx_mode[OF a] by presburger
  thus ?thesis unfolding vfo_set_split_def Let_def by (intro typed_out typed_changed) simp_all
qed

lemma typed_toggle_split: "typed t \<Longrightarrow> typed (vfo_toggle_split t)"
proof -
  assume t: "typed t"
  have "typed (upd (\<lambda>rx. rx\<lparr>rx_split_last := rx_split rx\<rparr>) t)"
    by (rule tunes_typed[OF t], rule tunes_upd) (simp_all add: keeps_modes_def)
  thus ?thesis using t by (simp add: vfo_toggle_split_def typed_set_split)
qed

lemma typed_enable_split: "typed t \<Longrightarrow> typed (EnableSplitSubRX t)"
proof -
  assume "typed t"
  hence a: "typed (vfo_a2b t)" by (rule typed_a2b)
  hence b: "typed (upd (\<lambda>rx. rx\<lparr>rx_frequency_b := rx_frequency_a rx + up, rx_mode_b := rx_mode_a rx\<rparr>) (vfo_a2b t))" for up
    by (intro typed_upd) (auto simp: typed_def rx_typed_def)
  have c: "typed t' \<Longrightarrow> typed (upd (\<lambda>rx. rx\<lparr>rx_subrx_enable := True\<rparr>) (create_subrx t'))" for t'
    by (drule typed_subrx(3), erule tunes_typed, rule tunes_upd) (simp_all add: keeps_modes_def)
  show ?thesis unfolding EnableSplitSubRX_def Let_def using a b c by auto
qed

lemma typed_disable_split: "typed t \<Longrightarrow> typed (DisableSplitSubRX t)"
proof -
  assume t: "typed t"
  have "typed (upd (\<lambda>rx. rx\<lparr>rx_subrx_enable := False\<rparr>) t)"
    by (rule tunes_typed[OF t], rule tunes_upd) (simp_all add: keeps_modes_def)
  thus ?thesis using t by (simp add: DisableSplitSubRX_def typed_subrx)
qed

lemma typed_split_cb: "typed t \<Longrightarrow> typed (split_cb s t)"
  by (auto simp: split_cb_def Let_def intro!: typed_set_split typed_enable_split typed_disable_split)

section \<open>Sequences of operations\<close>

text \<open>Everything an operator can do to a receiver's tuning, as a step relation. A band
is one of the table, an entry one of its stack; modes, filters, frequencies and steps are
whatever the callers pass.\<close>

inductive tune_step :: "tuner \<Rightarrow> tuner \<Rightarrow> bool" where
  step_move: "tune_step t (receiver_move hz rnd t)"
| step_move_b: "tune_step t (receiver_move_b hz b_only rnd t)"
| step_move_to: "tune_step t (receiver_move_to hz t)"
| step_move_span: "tune_step t (receiver_move_span hz t)"
| step_apply: "tune_step t (vfo_apply_frequency target is_b t)"
| step_freetune: "tune_step t (receiver_set_freetune enable t)"
| step_ctun: "tune_step t (receiver_set_ctun (upd (\<lambda>rx. rx\<lparr>rx_ctun := enable\<rparr>) t))"
| step_filter: "tune_step t (receiver_filter_changed f t)"
| step_mode: "tune_step t (vfo_set_mode m t)"
| step_band: "entry_of_band t b e \<Longrightarrow> tune_step t (set_band b e t)"
| step_a2b: "tune_step t (vfo_a2b t)"
| step_b2a: "tune_step t (vfo_b2a t)"
| step_swap: "tune_step t (vfo_aswapb t)"
| step_split: "tune_step t (split_cb s t)"
| step_toggle: "tune_step t (vfo_toggle_split t)"

lemma typed_step: "tune_step t t' \<Longrightarrow> typed t \<Longrightarrow> typed t'"
proof (induction rule: tune_step.induct)
  case (step_move t hz rnd) thus ?case using tunes_typed[OF _ tunes_move] by blast
next
  case (step_move_b t hz b_only rnd) thus ?case using tunes_typed[OF _ tunes_move_b[OF tunes_refl]] by blast
next
  case (step_move_to t hz) thus ?case using tunes_typed[OF _ tunes_move_to] by blast
next
  case (step_move_span t hz) thus ?case using tunes_typed[OF _ tunes_move_span] by blast
next
  case (step_apply t target is_b) thus ?case using tunes_typed[OF _ tunes_apply_frequency] by blast
next
  case (step_freetune t enable) thus ?case using tunes_typed[OF _ tunes_set_freetune] by blast
next
  case (step_ctun t enable)
  have "tunes t (upd (\<lambda>rx. rx\<lparr>rx_ctun := enable\<rparr>) t)" by (intro tunes_upd) (simp_all add: keeps_modes_def)
  thus ?case using tunes_typed[OF step_ctun tunes_trans[OF _ tunes_set_ctun]] by blast
qed (simp_all add: typed_filter_changed typed_set_mode typed_set_band typed_a2b typed_b2a typed_swap
      typed_split_cb typed_toggle_split)

text \<open>C21: Modes, filters and bands are subscripts into fixed tables. From a state where
they are in range, no sequence of tuning operations, whatever mode or filter numbers are
passed in, subscripts outside a table, and they are in range again after it.\<close>

theorem tuning_is_typed: "typed t \<Longrightarrow> tune_step\<^sup>*\<^sup>* t t' \<Longrightarrow> typed t' \<and> Ev_OutOfTable \<notin> set (t_out t')"
proof -
  assume t: "typed t" and s: "tune_step\<^sup>*\<^sup>* t t'"
  from s t have "typed t'" by (induction rule: rtranclp_induct) (auto intro: typed_step)
  thus ?thesis by (simp add: typed_def fault_def)
qed

lemma tuner0_typed: "typed tuner0"
proof -
  have "\<forall>bd \<in> set bands0. stack_typed bd"
    by (simp add: bands0_def bnd_def bandstack_defs bandstack_entries_defs stack_typed_def entry_typed_def bse_def
        mode_defs filter_numbers)
  thus ?thesis using filters0_ok
    by (simp add: typed_def env_typed_def env_def fault_def tuner0_def bands_radio_def radio0_def rx_typed_def
        receiver0_def mode_defs filter_numbers BANDS_def XVTRS_def) (simp add: bands0_def)
qed

theorem tuning_is_typed_witness:
  "Ev_OutOfTable \<notin> set (t_out (vfo_set_mode 99 (set_band 3 1 tuner0)))"
proof -
  have "entry_of_band tuner0 3 1"
    by (simp add: entry_of_band_def tuner0_def bands_radio_def bands0_def bnd_def bandstack80_def
        bandstack_entries80_def BANDS_def XVTRS_def)
  hence "tune_step\<^sup>*\<^sup>* tuner0 (vfo_set_mode 99 (set_band 3 1 tuner0))"
    by (meson rtranclp.rtrancl_into_rtrancl rtranclp.rtrancl_refl step_band step_mode)
  thus ?thesis using tuning_is_typed[OF tuner0_typed] by blast
qed

section \<open>What a change of mode keeps\<close>

definition same_vfos :: "receiver \<Rightarrow> receiver \<Rightarrow> bool" where
  "same_vfos rx rx' \<longleftrightarrow> rx_frequency_a rx' = rx_frequency_a rx \<and> rx_ctun_frequency rx' = rx_ctun_frequency rx \<and>
     rx_frequency_b rx' = rx_frequency_b rx \<and> rx_mode_b rx' = rx_mode_b rx \<and> rx_filter_b rx' = rx_filter_b rx \<and>
     rx_lo_a rx' = rx_lo_a rx \<and> rx_error_a rx' = rx_error_a rx \<and> rx_subrx_enable rx' = rx_subrx_enable rx \<and>
     rx_split rx' = rx_split rx \<and> rx_ctun rx' = rx_ctun rx \<and> rx_freetune rx' = rx_freetune rx \<and>
     rx_band_a rx' = rx_band_a rx"

text \<open>The settings a mode remembers, as they stand and as they are remembered.\<close>

definition mode_now :: "receiver \<Rightarrow> int \<times> int \<times> real" where
  "mode_now rx = (rx_filter_a rx, rx_agc rx, rx_squelch rx)"

definition mode_memory :: "receiver \<Rightarrow> int \<Rightarrow> int \<times> int \<times> real" where
  "mode_memory rx m = (rx_mode_filter rx ! nat m, rx_mode_agc rx ! nat m, rx_mode_squelch rx ! nat m)"

lemma tx_filter_rx [simp]:
  "t_rx (transmitter_set_filter low high t) = t_rx t"
  "t_rx (transmitter_set_mode m t) = t_rx t" "t_rx (tx_follows_mode t) = t_rx t"
  by (simp_all add: transmitter_set_filter_def transmitter_set_mode_def tx_follows_mode_def Let_def split: option.split)

lemma set_filter_rx:
  "\<exists>l h. t_rx (set_filter low high t) = (t_rx t)\<lparr>rx_filter_low_a := l, rx_filter_high_a := h\<rparr>"
  by (cases "rx_mode_a (t_rx t) = CWL"; cases "rx_mode_a (t_rx t) = CWU") (auto simp: set_filter_def Let_def)

text \<open>A step that keeps the VFOs, the mode and its settings, and every mode's memory,
which already agrees with the settings.\<close>

definition settled :: "receiver \<Rightarrow> bool" where
  "settled rx \<longleftrightarrow> 0 \<le> rx_mode_a rx \<and> rx_mode_a rx < MODES \<and> mode_memory rx (rx_mode_a rx) = mode_now rx \<and>
     length (rx_mode_filter rx) = nat MODES \<and> length (rx_mode_agc rx) = nat MODES \<and> length (rx_mode_squelch rx) = nat MODES"

definition keeps_settings :: "receiver \<Rightarrow> receiver \<Rightarrow> bool" where
  "keeps_settings rx rx' \<longleftrightarrow> same_vfos rx rx' \<and> rx_mode_a rx' = rx_mode_a rx \<and> mode_now rx' = mode_now rx \<and>
     rx_mode_filter rx' = rx_mode_filter rx \<and> rx_mode_agc rx' = rx_mode_agc rx \<and>
     rx_mode_squelch rx' = rx_mode_squelch rx"

lemma keeps_settings_refl [simp]: "keeps_settings rx rx"
  by (simp add: keeps_settings_def same_vfos_def)

lemma keeps_settings_trans: "keeps_settings rx rx' \<Longrightarrow> keeps_settings rx' rx'' \<Longrightarrow> keeps_settings rx rx''"
  by (auto simp: keeps_settings_def same_vfos_def)

lemma keeps_settled: "keeps_settings rx rx' \<Longrightarrow> settled rx \<Longrightarrow> settled rx'"
  by (simp add: keeps_settings_def settled_def mode_memory_def mode_now_def)

lemma set_filter_keeps: "keeps_settings (t_rx t) (t_rx (set_filter low high t))"
  using set_filter_rx[of low high t] by (auto simp: keeps_settings_def same_vfos_def mode_now_def)

lemma set_squelch_keeps: "settled (t_rx t) \<Longrightarrow> keeps_settings (t_rx t) (t_rx (set_squelch t))"
  using list_update_id[of "rx_mode_squelch (t_rx t)" "nat (rx_mode_a (t_rx t))"]
  by (simp add: set_squelch_def Let_def keeps_settings_def same_vfos_def mode_now_def settled_def mode_memory_def)

lemma choose_own_filter: "settled rx \<Longrightarrow> choose_filter (rx_filter_a rx) rx = rx"
  using list_update_id[of "rx_mode_filter rx" "nat (rx_mode_a rx)"]
  by (simp add: choose_filter_def settled_def mode_memory_def mode_now_def)

lemma own_filter_keeps:
  assumes "settled (t_rx t)"
  shows "keeps_settings (t_rx t) (t_rx (receiver_filter_changed (rx_filter_a (t_rx t)) t))"
proof -
  let ?d = "\<lambda>dev. upd (\<lambda>rx. rx\<lparr>rx_deviation := dev\<rparr>) t"
  have u: "upd (choose_filter (rx_filter_a (t_rx t))) t = t"
    using choose_own_filter[OF assms] by (simp add: upd_def)
  have d: "keeps_settings (t_rx t) (t_rx (set_deviation (set_filter l h (?d dev))))" for l h dev
  proof -
    have k: "keeps_settings (t_rx t) (t_rx (?d dev))" by (simp add: keeps_settings_def same_vfos_def mode_now_def)
    have f: "keeps_settings (t_rx t) (t_rx (set_filter l h (?d dev)))"
      using keeps_settings_trans[OF k set_filter_keeps] .
    have "keeps_settings (t_rx (set_filter l h (?d dev))) (t_rx (set_squelch (out e (set_filter l h (?d dev)))))" for e
      using set_squelch_keeps[of "out e (set_filter l h (?d dev))"] keeps_settled[OF f assms] by simp
    thus ?thesis unfolding set_deviation_def using keeps_settings_trans[OF f] by blast
  qed
  show ?thesis unfolding receiver_filter_changed_def Let_def u
    using d[of "- 4000" 4000] d[of "- 8000" 8000] set_filter_keeps
    by (auto split: option.split)
qed

lemma remember_fields:
  assumes "rx_typed rx"
  shows "same_vfos rx (remember_mode rx)" "rx_mode_a (remember_mode rx) = rx_mode_a rx"
    "mode_now (remember_mode rx) = mode_now rx" "settled (remember_mode rx)"
    "m \<noteq> rx_mode_a rx \<Longrightarrow> 0 \<le> m \<Longrightarrow> mode_memory (remember_mode rx) m = mode_memory rx m"
  using assms by (auto simp: same_vfos_def remember_mode_def mode_now_def mode_memory_def settled_def rx_typed_def nth_list_update)

lemma recall_fields:
  assumes "settled rx" "0 \<le> m" "m < MODES"
  shows "same_vfos rx (recall_mode m rx)" "rx_mode_a (recall_mode m rx) = m"
    "mode_now (recall_mode m rx) = mode_memory rx m" "settled (recall_mode m rx)"
    "mode_memory (recall_mode m rx) = mode_memory rx"
  using assms by (auto simp: same_vfos_def recall_mode_def mode_now_def mode_memory_def settled_def)

text \<open>After a change of mode: the VFOs are where they were, the new mode has the
settings remembered for it, the one that was left is remembered with those it had, and the
others are as they were.\<close>

lemma mode_changed_rx:
  assumes "rx_typed (t_rx t)" "0 \<le> m" "m < MODES"
  shows "keeps_settings (recall_mode m (remember_mode (t_rx t))) (t_rx (receiver_mode_changed m t))"
proof -
  let ?rx = "recall_mode m (remember_mode (t_rx t))"
  have s: "settled ?rx" using recall_fields(4)[OF remember_fields(4)[OF assms(1)] assms(2,3)] .
  let ?t2 = "upd (recall_mode m) (out (Ev_RxMode m) (upd remember_mode t))"
  let ?t3 = "on_channel (\<lambda>t. out (Ev_Agc (rx_agc (t_rx t))) t) ?t2"
  let ?t4 = "on_channel (\<lambda>t. out Ev_Apf (set_squelch t)) ?t3"
  let ?t5 = "receiver_filter_changed (rx_filter_a (t_rx ?t4)) ?t4"
  have r3: "t_rx ?t3 = ?rx" by (simp add: on_channel_def)
  have q: "settled (t_rx u) \<Longrightarrow> keeps_settings (t_rx u) (t_rx (on_channel (\<lambda>t. out Ev_Apf (set_squelch t)) u))" for u
    by (simp add: on_channel_def set_squelch_keeps)
  have k4: "keeps_settings ?rx (t_rx ?t4)" using q[of ?t3] s by (simp only: r3)
  have "keeps_settings ?rx (t_rx ?t5)"
    using keeps_settings_trans[OF k4 own_filter_keeps[OF keeps_settled[OF k4 s]]] .
  thus ?thesis using assms(2,3) by (simp add: receiver_mode_changed_def Let_def on_channel_def[of "\<lambda>t. out Ev_NotchSync (out Ev_Noise t)"])
qed

lemma keeps_settings_memory: "keeps_settings rx rx' \<Longrightarrow> mode_memory rx' = mode_memory rx"
  by (intro ext) (simp add: keeps_settings_def mode_memory_def)

lemma mode_changed_facts:
  assumes "rx_typed (t_rx t)" "0 \<le> m" "m < MODES"
  shows "same_vfos (t_rx t) (t_rx (receiver_mode_changed m t))" "rx_mode_a (t_rx (receiver_mode_changed m t)) = m"
    "mode_now (t_rx (receiver_mode_changed m t)) =
       (if m = rx_mode_a (t_rx t) then mode_now (t_rx t) else mode_memory (t_rx t) m)"
    "mode_memory (t_rx (receiver_mode_changed m t)) (rx_mode_a (t_rx t)) = mode_now (t_rx t)"
    "0 \<le> k \<Longrightarrow> k \<noteq> rx_mode_a (t_rx t) \<Longrightarrow> mode_memory (t_rx (receiver_mode_changed m t)) k = mode_memory (t_rx t) k"
proof -
  note k = mode_changed_rx[OF assms]
  note r = remember_fields[OF assms(1)]
  note c = recall_fields[OF r(4) assms(2,3)]
  show "same_vfos (t_rx t) (t_rx (receiver_mode_changed m t))" using k r(1) c(1) by (auto simp: keeps_settings_def same_vfos_def)
  show "rx_mode_a (t_rx (receiver_mode_changed m t)) = m" using k c(2) by (simp add: keeps_settings_def)
  have m: "mode_memory (t_rx (receiver_mode_changed m t)) = mode_memory (remember_mode (t_rx t))"
    using keeps_settings_memory[OF k] c(5) by simp
  show "mode_memory (t_rx (receiver_mode_changed m t)) (rx_mode_a (t_rx t)) = mode_now (t_rx t)"
    using m r(2,3,4) by (simp add: settled_def)
  show "0 \<le> k \<Longrightarrow> k \<noteq> rx_mode_a (t_rx t) \<Longrightarrow> mode_memory (t_rx (receiver_mode_changed m t)) k = mode_memory (t_rx t) k"
    using m r(5) by simp
  show "mode_now (t_rx (receiver_mode_changed m t)) = (if m = rx_mode_a (t_rx t) then mode_now (t_rx t) else mode_memory (t_rx t) m)"
    using k c(3) r(2,3,4) r(5)[OF _ assms(2)] by (auto simp: keeps_settings_def settled_def)
qed

text \<open>Each mode has its own filter, AGC speed and squelch: going to another mode and back
brings back exactly what was set.\<close>

theorem mode_settings_come_back:
  assumes "typed t" "0 \<le> m" "m < MODES" "m \<noteq> rx_mode_a (t_rx t)"
  shows "let rx = t_rx (receiver_mode_changed (rx_mode_a (t_rx t)) (receiver_mode_changed m t))
         in rx_mode_a rx = rx_mode_a (t_rx t) \<and> rx_filter_a rx = rx_filter_a (t_rx t) \<and>
            rx_agc rx = rx_agc (t_rx t) \<and> rx_squelch rx = rx_squelch (t_rx t)"
proof -
  let ?t1 = "receiver_mode_changed m t"
  have r: "rx_typed (t_rx t)" "rx_typed (t_rx ?t1)" using assms(1) typed_mode_changed by (auto simp: typed_def)
  have a: "0 \<le> rx_mode_a (t_rx t)" "rx_mode_a (t_rx t) < MODES" using r(1) by (auto simp: rx_typed_def)
  note f1 = mode_changed_facts[OF r(1) assms(2,3)]
  note f2 = mode_changed_facts[OF r(2) a]
  have "mode_now (t_rx (receiver_mode_changed (rx_mode_a (t_rx t)) ?t1)) = mode_now (t_rx t)"
    using f2(3) f1(2,4) assms(4) by simp
  thus ?thesis using f2(2) by (simp add: mode_now_def)
qed

theorem mode_settings_come_back_witness:
  "rx_agc (t_rx (receiver_mode_changed USB (receiver_mode_changed AM
     (upd (\<lambda>rx. rx\<lparr>rx_agc := 1, rx_mode_agc := (rx_mode_agc rx)[6 := 4]\<rparr>) tuner0)))) = 1"
proof -
  let ?t = "upd (\<lambda>rx. rx\<lparr>rx_agc := 1, rx_mode_agc := (rx_mode_agc rx)[6 := 4]\<rparr>) tuner0"
  have "typed ?t" using tuner0_typed by (intro typed_upd) (auto simp: typed_def rx_typed_def)
  from mode_settings_come_back[OF this, of AM] show ?thesis
    by (simp add: receiver0_def mode_defs Let_def)
qed

section \<open>Exchanging the VFOs\<close>

lemma swap_mode_a: "rx_mode_a (swap_vfos rx) = rx_mode_b rx"
  by (simp add: swap_vfos_def b_to_a_def)

lemma subrx_rx [simp]: "t_rx (subrx_mode_changed t) = t_rx t" "t_rx (subrx_filter_changed t) = t_rx t"
  by (simp_all add: subrx_mode_changed_def subrx_filter_changed_def)

text \<open>The exchange button swaps frequency, mode and filter of the two VFOs.\<close>

theorem swap_exchanges_vfos:
  assumes "typed t" "\<not> rx_locked (t_rx t)" "rx_lo_b (t_rx t) = 0" "\<not> rx_subrx_enable (t_rx t)"
  shows "let rx = t_rx t; rx' = t_rx (vfo_aswapb t)
         in (rx_frequency_a rx', rx_mode_a rx', rx_filter_a rx') = (rx_frequency_b rx, rx_mode_b rx, rx_filter_b rx) \<and>
            (rx_frequency_b rx', rx_mode_b rx', rx_filter_b rx') = (rx_frequency_a rx, rx_mode_a rx, rx_filter_a rx)"
proof -
  let ?t1 = "frequency_changed (upd swap_vfos t)"
  let ?m = "rx_mode_b (t_rx t)"
  have lo: "rx_lo_a (t_rx (upd swap_vfos t)) = 0" using assms(3) by (simp add: swap_vfos_def b_to_a_def)
  have x: "receiver_sync_transverter (upd swap_vfos t) = upd swap_vfos t" using lo by (rule sync_transverter_none)
  have m1: "rx_mode_a (t_rx ?t1) = ?m" by (simp add: x swap_mode_a)
  have t1: "rx_typed (t_rx ?t1)" using typed_copied(3)[OF assms(1)] by (simp only: typed_def)
  have m: "0 \<le> ?m" "?m < MODES" using assms(1) by (auto simp: typed_def rx_typed_def)
  note f = mode_changed_facts[OF t1 m]
  have fb: "rx_frequency_b (t_rx ?t1) = rx_frequency_a (t_rx t)"
    using assms(4) by (simp add: x retune_b swap_vfos_def b_to_a_def)
  have r: "rx_frequency_a (t_rx ?t1) = rx_frequency_b (t_rx t)" "rx_filter_a (t_rx ?t1) = rx_filter_b (t_rx t)"
    "rx_mode_b (t_rx ?t1) = rx_mode_a (t_rx t)" "rx_filter_b (t_rx ?t1) = rx_filter_a (t_rx t)"
    by (simp_all add: x swap_vfos_def b_to_a_def)
  have "t_rx (vfo_aswapb t) = t_rx (receiver_mode_changed ?m ?t1)"
    using assms(2) m1 by (simp add: vfo_aswapb_def Let_def)
  moreover have "mode_now (t_rx (receiver_mode_changed ?m ?t1)) = mode_now (t_rx ?t1)" using f(3) m1 by simp
  ultimately show ?thesis using f(1,2) fb r by (simp add: same_vfos_def mode_now_def Let_def)
qed

theorem swap_exchanges_vfos_witness:
  "rx_frequency_a (t_rx (vfo_aswapb tuner0)) = 14150000 \<and> rx_frequency_b (t_rx (vfo_aswapb tuner0)) = 14100000"
  using swap_exchanges_vfos[OF tuner0_typed] by (simp add: receiver0_def Let_def)

section \<open>The lock\<close>

text \<open>With LOCK on, every operation that tunes VFO A, other than the CTUN and freetune
switches, leaves the whole state as it is: moves and steps of either VFO, a click, a drag of
the span, a typed frequency, B to A, the exchange and a change of band.\<close>

theorem lock_holds_the_dial:
  "rx_locked (t_rx t) \<Longrightarrow>
   receiver_move hz rnd t = t \<and> fst (receiver_move_a hz rnd t) = t \<and> receiver_move_b hz b_only rnd t = t \<and>
   receiver_move_to hz t = t \<and> receiver_move_span hz t = t \<and> vfo_apply_frequency f is_b t = t \<and>
   vfo_b2a t = t \<and> vfo_aswapb t = t \<and> set_band b e t = t"
  by (simp add: receiver_move_def receiver_move_a_def move_a_def receiver_move_b_def receiver_move_to_def
      receiver_move_span_def vfo_apply_frequency_def vfo_b2a_def vfo_aswapb_def set_band_def Let_def)

theorem lock_holds_the_dial_witness:
  "set_band 3 1 (upd (\<lambda>rx. rx\<lparr>rx_locked := True\<rparr>) tuner0) = upd (\<lambda>rx. rx\<lparr>rx_locked := True\<rparr>) tuner0"
  using lock_holds_the_dial[of "upd (\<lambda>rx. rx\<lparr>rx_locked := True\<rparr>) tuner0" 0 False False 0 False 3 1] by simp

text \<open>Switching CTUN off moves the dial under LOCK all the same.\<close>

lemma ctun_switch_ignores_lock:
  assumes "rx_lo_a (t_rx t) = 0" "\<not> rx_freetune (t_rx t)"
  shows "dial (t_rx (receiver_set_ctun (upd (\<lambda>rx. rx\<lparr>rx_ctun := False\<rparr>) t))) = rx_frequency_a (t_rx t)"
  using assms by (simp add: receiver_set_ctun_def Let_def dial_def shifted_def)

section \<open>What a change of band loses\<close>

lemma band_changed_settings:
  assumes "typed t" "0 \<le> b" "b < BANDS + XVTRS"
  shows "mode_now (t_rx (receiver_band_changed b t)) = mode_now (t_rx t)"
    and "mode_memory (t_rx (receiver_band_changed b t)) (rx_mode_a (t_rx t)) = mode_now (t_rx t)"
    and "rx_mode_a (t_rx (receiver_band_changed b t)) = rx_mode_a (t_rx t)"
proof -
  let ?t1 = "upd (\<lambda>rx. rx\<lparr>rx_band_a := b\<rparr>) t"
  let ?m = "rx_mode_a (t_rx t)"
  let ?t2 = "receiver_mode_changed ?m ?t1"
  let ?t3 = "receiver_filter_changed (rx_filter_a (t_rx ?t2)) ?t2"
  have t1: "typed ?t1" using assms by (intro typed_upd) (auto simp: typed_def rx_typed_def)
  have r1: "rx_typed (t_rx ?t1)" using t1 by (simp only: typed_def)
  have m: "0 \<le> ?m" "?m < MODES" using assms(1) by (auto simp: typed_def rx_typed_def)
  note f = mode_changed_facts[OF r1 m]
  have s: "settled (t_rx ?t2)"
    using keeps_settled[OF mode_changed_rx[OF r1 m] recall_fields(4)[OF remember_fields(4)[OF r1] m]] .
  have k: "keeps_settings (t_rx ?t2) (t_rx ?t3)" using own_filter_keeps[OF s] .
  have now: "mode_now (t_rx ?t3) = mode_now (t_rx t)" and mem: "mode_memory (t_rx ?t3) ?m = mode_now (t_rx t)"
    and mode: "rx_mode_a (t_rx ?t3) = ?m"
    using k f(2-4) keeps_settings_memory[OF k] by (simp_all add: keeps_settings_def mode_now_def)
  have e: "receiver_band_changed b t = frequency_changed (upd reanchor ?t3)"
    by (simp add: receiver_band_changed_def Let_def)
  have x: "mode_now (t_rx (frequency_changed (upd reanchor u))) = mode_now (t_rx u)"
    "mode_memory (t_rx (frequency_changed (upd reanchor u))) = mode_memory (t_rx u)"
    "rx_mode_a (t_rx (frequency_changed (upd reanchor u))) = rx_mode_a (t_rx u)" for u
  proof -
    have i: "mode_now (reanchor rx) = mode_now rx" "mode_memory (reanchor rx) = mode_memory rx" "rx_mode_a (reanchor rx) = rx_mode_a rx" for rx
      by (auto simp: reanchor_def mode_now_def mode_memory_def)
    have j: "mode_now (t_rx (receiver_sync_transverter v)) = mode_now (t_rx v)"
      "mode_memory (t_rx (receiver_sync_transverter v)) = mode_memory (t_rx v)"
      "rx_mode_a (t_rx (receiver_sync_transverter v)) = rx_mode_a (t_rx v)" for v
      by (auto simp: receiver_sync_transverter_def Let_def mode_now_def mode_memory_def split: option.split)
    show "mode_now (t_rx (frequency_changed (upd reanchor u))) = mode_now (t_rx u)"
      "mode_memory (t_rx (frequency_changed (upd reanchor u))) = mode_memory (t_rx u)"
      "rx_mode_a (t_rx (frequency_changed (upd reanchor u))) = rx_mode_a (t_rx u)"
      using j[of "upd reanchor u"] i by (simp_all add: mode_now_def mode_memory_def fun_eq_iff)
  qed
  show "mode_now (t_rx (receiver_band_changed b t)) = mode_now (t_rx t)"
    "mode_memory (t_rx (receiver_band_changed b t)) ?m = mode_now (t_rx t)"
    "rx_mode_a (t_rx (receiver_band_changed b t)) = ?m"
    unfolding e x using now mem mode by simp_all
qed

text \<open>A change of band keeps the AGC speed and the squelch of the old mode and files them
under the new one, whatever had been remembered for it: the new mode is written into the
receiver before the change of mode is announced, so the settings of the mode that is left
are taken for its own.\<close>

lemma band_change_overwrites_memory:
  assumes "typed t" "\<not> rx_locked (t_rx t)" "entry_of_band t b e"
  shows "let rx' = t_rx (set_band b e t)
         in rx_agc rx' = rx_agc (t_rx t) \<and> rx_squelch rx' = rx_squelch (t_rx t) \<and>
            rx_mode_agc rx' ! nat (rx_mode_a rx') = rx_agc (t_rx t)"
proof -
  let ?t1 = "band_tables b e t"
  let ?t2 = "upd (load_band (r_bands (t_radio ?t1) ! nat b)) ?t1"
  have b: "0 \<le> b" "b < BANDS + XVTRS" using assms(3) by (auto simp: entry_of_band_def)
  have a: "rx_agc (t_rx ?t2) = rx_agc (t_rx t)" "rx_squelch (t_rx ?t2) = rx_squelch (t_rx t)"
    by (simp_all add: load_band_def Let_def)
  show ?thesis using band_changed_settings[OF typed_loaded_band[OF assms(1,3)] b] a assms(2)
    by (simp add: set_band_def mode_now_def mode_memory_def Let_def)
qed

text \<open>A band stack entry with a mode that does not exist, which the settings file can
hold, goes past the range check of the change of mode into the receiver and from there into
the filter tables.\<close>

lemma fault_grows: "fault t \<Longrightarrow> fault (transmitter_set_filter low high t)"
  by (auto simp: transmitter_set_filter_def fault_def out_def Let_def split: option.split)

lemma bad_mode_in_stack:
  assumes "filters_ok (t_filters t)" "0 \<le> rx_filter_a (t_rx t)" "rx_filter_a (t_rx t) < FILTERS" "MODES \<le> rx_mode_a (t_rx t)"
  shows "fault (receiver_band_changed b t)"
proof -
  let ?t1 = "upd (\<lambda>rx. rx\<lparr>rx_band_a := b\<rparr>) t"
  have n: "filter_at (t_filters t) (rx_mode_a (t_rx t)) (rx_filter_a (t_rx t)) = None"
    using assms(1,4) by (auto simp: filter_at_def filters_ok_def MODES_def)
  have f: "rx_mode_a (t_rx t) \<noteq> FMN" using assms(4) by (auto simp: mode_defs)
  have m: "receiver_mode_changed (rx_mode_a (t_rx t)) ?t1 = ?t1" using assms(4) by (simp add: receiver_mode_changed_def)
  have "fault (receiver_filter_changed (rx_filter_a (t_rx t)) ?t1)"
    using assms(2,3) f n by (simp add: receiver_filter_changed_def Let_def choose_filter_def)
  thus ?thesis by (simp add: receiver_band_changed_def Let_def m)
qed

lemma hand_edited_mode_runs_off_the_tables:
  "fault (set_band 3 1 (upd_band 3 (\<lambda>bd. bd\<lparr>bd_entry := (bd_entry bd)[1 := bse 3751000 99 F5 0 0 0 0]\<rparr>) tuner0))"
proof -
  let ?t = "upd_band 3 (\<lambda>bd. bd\<lparr>bd_entry := (bd_entry bd)[1 := bse 3751000 99 F5 0 0 0 0]\<rparr>) tuner0"
  let ?t1 = "band_tables 3 1 ?t"
  let ?t2 = "upd (load_band (r_bands (t_radio ?t1) ! nat 3)) ?t1"
  have l: "length bands0 = 32" by (simp add: bands0_def)
  have b: "bands0 ! 3 = bnd ''80'' bandstack80 3500000 4000000 0 0 False" by (simp add: bands0_def)
  have "r_bands (t_radio ?t1) ! nat 3 = (bands0 ! 3)\<lparr>bd_current_entry := 1, bd_entry := (bd_entry (bands0 ! 3))[1 := bse 3751000 99 F5 0 0 0 0]\<rparr>"
    by (simp add: band_tables_def Let_def upd_band_def tuner0_def bands_radio_def l receiver0_def)
  hence x: "rx_mode_a (t_rx ?t2) = 99" "rx_filter_a (t_rx ?t2) = F5"
    by (simp_all add: load_band_def Let_def b bnd_def bandstack80_def bandstack_entries80_def bse_def)
  have "t_filters ?t2 = filters0" by (simp add: band_tables_def Let_def upd_band_def tuner0_def)
  hence "fault (receiver_band_changed 3 ?t2)"
    using x filters0_ok by (intro bad_mode_in_stack) (simp_all add: mode_defs filter_numbers)
  hence "fault (tx_follows_mode (receiver_band_changed 3 ?t2))"
    by (simp add: tx_follows_mode_def transmitter_set_mode_def fault_grows)
  moreover have "\<not> rx_locked (t_rx ?t)" by (simp add: receiver0_def)
  ultimately show ?thesis by (simp only: set_band_def Let_def if_False)
qed

lemma tables_of_mode_changes [simp]:
  "r_bands (t_radio (transmitter_set_filter low high t)) = r_bands (t_radio t)"
  "r_hl2 (t_radio (transmitter_set_filter low high t)) = r_hl2 (t_radio t)"
  "r_bands (t_radio (set_filter low high t)) = r_bands (t_radio t)" "r_hl2 (t_radio (set_filter low high t)) = r_hl2 (t_radio t)"
  "t_radio (set_squelch t) = t_radio t"
  by (simp_all add: transmitter_set_filter_def set_filter_def set_squelch_def Let_def split: option.split)

lemma tables_of_filter_change [simp]:
  "r_bands (t_radio (receiver_filter_changed f t)) = r_bands (t_radio t)"
  "r_hl2 (t_radio (receiver_filter_changed f t)) = r_hl2 (t_radio t)"
  by (simp_all add: receiver_filter_changed_def set_deviation_def Let_def split: option.split)

lemma tables_of_mode_change [simp]:
  "r_bands (t_radio (receiver_mode_changed m t)) = r_bands (t_radio t)"
  "r_hl2 (t_radio (receiver_mode_changed m t)) = r_hl2 (t_radio t)"
  by (simp_all add: receiver_mode_changed_def on_channel_def Let_def)

lemma retune_band:
  "\<not> rx_ctun rx \<Longrightarrow> \<not> rx_freetune rx \<Longrightarrow> rx_band_a (retune r rx) = get_band_from_frequency r (rx_frequency_a rx)"
  by (simp add: retune_def retune_centre_def with_b_lo_def subrx_in_passband_def Let_def)

text \<open>Without a cursor and without a converter the band is that of the frequency, whatever
band was chosen.\<close>

lemma band_is_of_the_frequency:
  assumes "typed t" "0 \<le> b" "b < BANDS + XVTRS" "rx_lo_a (t_rx t) = 0" "\<not> rx_ctun (t_rx t)" "\<not> rx_freetune (t_rx t)"
  shows "rx_band_a (t_rx (receiver_band_changed b t)) = get_band_from_frequency (t_radio t) (rx_frequency_a (t_rx t))
       \<and> rx_frequency_a (t_rx (receiver_band_changed b t)) = rx_frequency_a (t_rx t)"
proof -
  let ?t1 = "upd (\<lambda>rx. rx\<lparr>rx_band_a := b\<rparr>) t"
  let ?m = "rx_mode_a (t_rx t)"
  let ?t2 = "receiver_mode_changed ?m ?t1"
  let ?t3 = "receiver_filter_changed (rx_filter_a (t_rx ?t2)) ?t2"
  have "typed ?t1" using assms by (intro typed_upd) (auto simp: typed_def rx_typed_def)
  hence r1: "rx_typed (t_rx ?t1)" by (simp only: typed_def)
  have m: "0 \<le> ?m" "?m < MODES" using assms(1) by (auto simp: typed_def rx_typed_def)
  have s: "settled (t_rx ?t2)"
    using keeps_settled[OF mode_changed_rx[OF r1 m] recall_fields(4)[OF remember_fields(4)[OF r1] m]] .
  have v: "same_vfos (t_rx ?t1) (t_rx ?t3)"
    using mode_changed_facts(1)[OF r1 m] own_filter_keeps[OF s] by (auto simp: keeps_settings_def same_vfos_def)
  have g: "get_band_from_frequency (t_radio ?t3) = get_band_from_frequency (t_radio t)"
    by (rule same_bands) simp_all
  have e: "receiver_band_changed b t = frequency_changed (upd reanchor ?t3)" by (simp add: receiver_band_changed_def Let_def)
  have q: "rx_lo_a (t_rx ?t3) = 0" "\<not> rx_ctun (t_rx ?t3)" "\<not> rx_freetune (t_rx ?t3)" "rx_frequency_a (t_rx ?t3) = rx_frequency_a (t_rx t)"
    using v assms(4-6) by (simp_all add: same_vfos_def)
  hence u: "upd reanchor ?t3 = ?t3" by (simp add: upd_def reanchor_def)
  show ?thesis unfolding e u using q g by (simp add: retune_band)
qed

lemma edges_upd_band:
  assumes "\<And>bd. band_edges (g bd) = band_edges bd"
  shows "map band_edges (r_bands (t_radio (upd_band b g t))) = map band_edges (r_bands (t_radio t))"
proof (cases "nat b < length (r_bands (t_radio t))")
  case True
  hence "band_edges (g (r_bands (t_radio t) ! nat b)) = map band_edges (r_bands (t_radio t)) ! nat b" using assms by simp
  thus ?thesis by (simp add: upd_band_def map_update del: nth_map)
qed (simp add: upd_band_def list_update_beyond)

lemma edges_band_tables:
  "map band_edges (r_bands (t_radio (band_tables b e t))) = map band_edges (r_bands (t_radio t))"
  by (simp add: band_tables_def Let_def edges_upd_band band_edges_def save_entry_of_def save_levels_def)

text \<open>The band WWV has no edges, so choosing it makes the band general coverage, and the
frequency that was chosen from WWV's stack is filed under general coverage when it is left.\<close>

lemma wwv_becomes_general:
  "rx_band_a (t_rx (set_band bandWWV 1 tuner0)) = bandGen \<and> rx_frequency_a (t_rx (set_band bandWWV 1 tuner0)) = 5000000"
proof -
  let ?t1 = "band_tables bandWWV 1 tuner0"
  let ?t2 = "upd (load_band (r_bands (t_radio ?t1) ! nat bandWWV)) ?t1"
  have l: "length bands0 = 32" by (simp add: bands0_def)
  have b: "bands0 ! 14 = bnd ''WWV'' bandstackWWV 0 0 0 0 True" by (simp add: bands0_def)
  have x: "r_bands (t_radio ?t1) ! nat bandWWV = (bands0 ! 14)\<lparr>bd_current_entry := 1\<rparr>"
    by (simp add: band_tables_def Let_def upd_band_def tuner0_def bands_radio_def l receiver0_def bandWWV_def)
  have f: "rx_frequency_a (t_rx ?t2) = 5000000" "rx_lo_a (t_rx ?t2) = 0" "\<not> rx_ctun (t_rx ?t2)" "\<not> rx_freetune (t_rx ?t2)"
    by (simp_all add: x load_band_def Let_def b bnd_def bandstackWWV_def bandstack_entriesWWV_def bse_def receiver0_def)
  have "entry_of_band tuner0 bandWWV 1"
    by (simp add: entry_of_band_def tuner0_def bands_radio_def b bnd_def bandstackWWV_def
        bandstack_entriesWWV_def BANDS_def XVTRS_def bandWWV_def)
  hence t2: "typed ?t2" by (rule typed_loaded_band[OF tuner0_typed])
  have g: "get_band_from_frequency (t_radio ?t2) 5000000 = bandGen"
  proof (rule outside_is_general)
    show "map band_edges (r_bands (t_radio ?t2)) = map band_edges bands0"
      by (simp add: edges_band_tables) (simp add: tuner0_def bands_radio_def)
    have "\<forall>x \<in> set (map (\<lambda>bd. (bd_frequencyMin bd, bd_frequencyMax bd)) (take 24 bands0)). \<not> (fst x \<le> 5000000 \<and> 5000000 \<le> snd x)"
      unfolding built_in_edges by auto
    thus "\<forall>bd \<in> set (take 24 bands0). \<not> (bd_frequencyMin bd \<le> 5000000 \<and> 5000000 \<le> bd_frequencyMax bd)" by simp
  qed
  show ?thesis using band_is_of_the_frequency[OF t2, of bandWWV] f g
    by (simp add: set_band_def Let_def receiver0_def bandWWV_def BANDS_def XVTRS_def)
qed

end
