(* ===== verification/Tuning_P1.thy ===== *)
theory Tuning_P1
  imports Vfo_Mode P1_Commands
begin

text \<open>Tuning and protocol 1 together: the frequency command a radio is sent
(\<open>src/proto/protocol1.c\<close>) and the digital shift (\<open>src/core/radio.c\<close>) add up to
the dial.\<close>

section \<open>What is heard\<close>

text \<open>The frequency at the centre of the demodulator: where the radio is tuned, the shift,
and the pitch that the CW passband lies above or below it.\<close>

definition heard :: "radio \<Rightarrow> receiver \<Rightarrow> int" where
  "heard r rx =
     rx_command_frequency r rx + (if rx_shift_run rx then rx_shift_offset rx else 0) +
     (if rx_mode_a rx = CWU then r_cw_keyer_sidetone_frequency r
      else if rx_mode_a rx = CWL then - r_cw_keyer_sidetone_frequency r else 0)"

lemma with_b_lo_shift [simp]:
  "rx_shift_run (with_b_lo r rx) = rx_shift_run rx" "rx_shift_offset (with_b_lo r rx) = rx_shift_offset rx"
  by (simp_all add: with_b_lo_def Let_def)

text \<open>With a cursor the RIT is in the command and in the shift.\<close>

lemma heard_retuned:
  assumes "rx_lo_a rx = 0" "r_ppm_correction_value r = 0"
  shows "heard r (retune r' rx) = dial rx + rx_error_a rx +
     (if rx_rit_enabled rx then (if rx_ctun rx \<or> rx_freetune rx then 2 * rx_rit rx else rx_rit rx) else 0)"
  using assms by (simp add: heard_def rx_command_frequency_def Let_def retune_shift dial_def)

lemma heard_with_b_lo [simp]: "heard r (with_b_lo r' rx) = heard r rx"
  by (simp add: heard_def rx_command_frequency_def Let_def)

lemma rit_counts_twice_with_a_cursor:
  assumes "rx_lo_a (t_rx t) = 0" "rx_error_a (t_rx t) = 0" "r_ppm_correction_value r = 0"
    "rx_rit_enabled (t_rx t)" "rx_ctun (t_rx t)"
  shows "heard r (t_rx (frequency_changed t)) = dial (t_rx t) + 2 * rx_rit (t_rx t)"
  using assms by (simp add: heard_retuned)

lemma ppm_tuned [simp]:
  "r_ppm_correction_value (t_radio (hl2_converter t)) = r_ppm_correction_value (t_radio t)"
  "r_cw_keyer_sidetone_frequency (t_radio (hl2_converter t)) = r_cw_keyer_sidetone_frequency (t_radio t)"
  "isTransmitting (t_radio (hl2_converter t)) = isTransmitting (t_radio t)"
  by (simp_all add: hl2_converter_def Let_def isTransmitting_def split: option.split)

lemma command_of_tuned_radio:
  assumes "t_index t < length (r_receiver (t_radio t))" "t_index t < d_supported_receivers (r_discovered (t_radio t))"
    "\<not> isTransmitting (t_radio t)" "k < d_supported_receivers (r_discovered (t_radio t))"
    "nth_live (take (d_supported_receivers (r_discovered (t_radio t))) (r_receiver (tuned_radio t))) (int k) (- 1) 0 = t_index t"
  shows "cmd_rx_frequency (tuned_radio t) k = (0x04 + of_nat k * 2, freq_bytes (rx_command_frequency (tuned_radio t) (t_rx t)))"
  using assms by (simp add: cmd_rx_frequency_def tuned_radio_def isTransmitting_def Let_def)

lemma after_move_a_fields [simp]:
  "rx_rit_enabled (fst (move_a fmax hz rnd rx)) = rx_rit_enabled rx" "rx_error_a (fst (move_a fmax hz rnd rx)) = rx_error_a rx"
  by (auto simp: move_a_def Let_def freetune_follow_def)

lemma move_b_only_keeps:
  "rx_rit_enabled (t_rx (receiver_move_b hz True rnd t)) = rx_rit_enabled (t_rx t)"
  "rx_error_a (t_rx (receiver_move_b hz True rnd t)) = rx_error_a (t_rx t)"
  by (simp_all add: receiver_move_b_def Let_def set_b_def b_in_span_def split: split_type.split)

lemma move_is_a_retune:
  assumes "\<not> rx_locked (t_rx t)" "rx_lo_a (t_rx t) = 0"
  shows "\<exists>rx r. t_rx (receiver_move hz rnd t) = with_b_lo r (retune (t_radio t) rx) \<and> rx_lo_a rx = 0 \<and>
           rx_rit_enabled rx = rx_rit_enabled (t_rx t) \<and> rx_error_a rx = rx_error_a (t_rx t)"
proof -
  let ?rx = "after_move hz rnd t"
  obtain delta where m: "move_a (receiver_max_frequency (t_radio t) (t_rx t)) hz rnd (t_rx t) = (?rx, delta)"
    by (cases "move_a (receiver_max_frequency (t_radio t) (t_rx t)) hz rnd (t_rx t)") (simp add: after_move_def)
  let ?t1 = "t\<lparr>t_rx := ?rx\<rparr>"
  let ?t2 = "if satellite (rx_split ?rx) \<and> rx_vfo_linked ?rx then receiver_move_b delta True rnd ?t1 else ?t1"
  have rx: "rx_lo_a ?rx = 0" "rx_rit_enabled ?rx = rx_rit_enabled (t_rx t)" "rx_error_a ?rx = rx_error_a (t_rx t)"
    using assms(2) by (simp_all add: after_move_def)
  have f: "rx_lo_a (t_rx ?t2) = 0" "rx_rit_enabled (t_rx ?t2) = rx_rit_enabled (t_rx t)"
    "rx_error_a (t_rx ?t2) = rx_error_a (t_rx t)" "t_radio ?t2 = t_radio t"
    using rx move_b_only_same_a[of ?t1 delta rnd] by (simp_all add: same_a_def move_b_only_keeps)
  have "receiver_move hz rnd t = update_frequency (frequency_changed ?t2)"
    using assms(1) m by (simp add: receiver_move_def receiver_move_a_def)
  hence "t_rx (receiver_move hz rnd t) = with_b_lo (t_radio (frequency_changed ?t2)) (retune (t_radio t) (t_rx ?t2))"
    using f(1,4) by (metis frequency_changed_fields(1) sync_transverter_none update_frequency_fields(1))
  thus ?thesis using f(1-3) by blast
qed

lemma nth_live_cong:
  "map (\<lambda>x. x = None) xs = map (\<lambda>x. x = None) ys \<Longrightarrow> nth_live xs n i j = nth_live ys n i j"
proof (induction xs arbitrary: ys i j)
  case (Cons x xs)
  then obtain y ys' where "ys = y # ys'" by (cases ys) auto
  thus ?case using Cons by auto
qed simp

lemma nth_live_same_receivers:
  assumes "i < length xs" "xs ! i \<noteq> None"
  shows "nth_live (take s (xs[i := Some y])) n a b = nth_live (take s xs) n a b"
proof (rule nth_live_cong)
  have "map (\<lambda>x. x = None) (xs[i := Some y]) = map (\<lambda>x. x = None) xs"
    using assms by (intro nth_equalityI) (auto simp: nth_list_update)
  thus "map (\<lambda>x. x = None) (take s (xs[i := Some y])) = map (\<lambda>x. x = None) (take s xs)"
    by (simp add: take_map[symmetric])
qed

lemma move_a_radio [simp]:
  "t_radio (fst (receiver_move_a hz rnd t)) = t_radio t" "t_index (fst (receiver_move_a hz rnd t)) = t_index t"
  by (simp_all add: receiver_move_a_def case_prod_beta)

lemma move_radio [simp]:
  "r_receiver (t_radio (receiver_move hz rnd t)) = r_receiver (t_radio t)"
  "r_discovered (t_radio (receiver_move hz rnd t)) = r_discovered (t_radio t)"
  "r_ppm_correction_value (t_radio (receiver_move hz rnd t)) = r_ppm_correction_value (t_radio t)"
  "isTransmitting (t_radio (receiver_move hz rnd t)) = isTransmitting (t_radio t)"
  "t_index (receiver_move hz rnd t) = t_index t"
  by (simp_all add: receiver_move_def Let_def case_prod_beta)

text \<open>What is heard after a frequency was put on VFO A; the radio is the one the move left.\<close>

lemma heard_after_apply:
  assumes "\<not> rx_locked (t_rx t)" "rx_lo_a (t_rx t) = 0" "0 \<le> rx_sample_rate (t_rx t)"
    "0 < target" "target \<le> receiver_max_frequency (t_radio t) (t_rx t)"
    "\<not> rx_rit_enabled (t_rx t)" "r_ppm_correction_value (t_radio t) = 0"
  shows "\<exists>hz. vfo_apply_frequency target False t = out Ev_Vfo (receiver_move hz False t) \<and>
    heard (tuned_radio (receiver_move hz False t)) (t_rx (receiver_move hz False t)) = target + rx_error_a (t_rx t)"
proof -
  let ?hz = "if rx_ctun (t_rx t) \<or> rx_freetune (t_rx t) then target - dial (t_rx t) else dial (t_rx t) - target"
  let ?m = "receiver_move ?hz False t"
  have e: "vfo_apply_frequency target False t = out Ev_Vfo ?m"
    using assms(1) by (auto simp: vfo_apply_frequency_def dial_def Let_def)
  have d: "dial (t_rx ?m) = target"
  proof -
    have "dial (t_rx ?m) = dial (after_move ?hz False t)"
      using receiver_move_same_a[OF assms(1,2)] same_a_dial by blast
    thus ?thesis unfolding after_move_def using move_a_dial[OF assms(1,3), of target] assms(4,5) by simp
  qed
  obtain rx r' where m: "t_rx ?m = with_b_lo r' (retune (t_radio t) rx)" "rx_lo_a rx = 0"
    "rx_rit_enabled rx = rx_rit_enabled (t_rx t)" "rx_error_a rx = rx_error_a (t_rx t)"
    using move_is_a_retune[OF assms(1,2)] by blast
  have p: "r_ppm_correction_value (tuned_radio ?m) = 0" using assms(7) by (simp add: tuned_radio_def)
  have "heard (tuned_radio ?m) (t_rx ?m) = target + rx_error_a (t_rx t)"
    using heard_retuned[OF m(2) p] d assms(6) m by simp
  thus ?thesis using e by blast
qed

lemma tuned_radio_out [simp]: "tuned_radio (out e t) = tuned_radio t" by (simp add: tuned_radio_def)

text \<open>C18: A frequency put on VFO A of an unlocked receiver, above zero and up to the receiver's
upper limit, is the frequency that is heard: the frequency bytes the protocol 1 radio is sent for
that receiver, plus the digital shift, plus the CW pitch, are the frequency asked for, with the
converter's error, in every mode and with or without a cursor. This holds with RIT off, no
correction in parts per million, no converter oscillator on VFO A, a sample rate that is not
negative, and while not transmitting; the receiver is one the radio supports and the one the
command is about.\<close>

theorem tuned_frequency_is_heard:
  assumes "\<not> rx_locked (t_rx t)" "rx_lo_a (t_rx t) = 0" "0 \<le> rx_sample_rate (t_rx t)"
    "0 < target" "target \<le> receiver_max_frequency (t_radio t) (t_rx t)"
    "\<not> rx_rit_enabled (t_rx t)" "r_ppm_correction_value (t_radio t) = 0"
    "t_index t < length (r_receiver (t_radio t))" "r_receiver (t_radio t) ! t_index t \<noteq> None"
    "t_index t < d_supported_receivers (r_discovered (t_radio t))" "k < d_supported_receivers (r_discovered (t_radio t))"
    "nth_live (take (d_supported_receivers (r_discovered (t_radio t))) (r_receiver (t_radio t))) (int k) (- 1) 0 = t_index t"
    "\<not> isTransmitting (t_radio t)"
  shows "let t' = vfo_apply_frequency target False t; r = tuned_radio t'; rx = t_rx t'
         in cmd_rx_frequency r k = (0x04 + of_nat k * 2, freq_bytes (rx_command_frequency r rx)) \<and>
            heard r rx = target + rx_error_a (t_rx t)"
proof -
  obtain hz where h: "vfo_apply_frequency target False t = out Ev_Vfo (receiver_move hz False t)"
    "heard (tuned_radio (receiver_move hz False t)) (t_rx (receiver_move hz False t)) = target + rx_error_a (t_rx t)"
    using heard_after_apply[OF assms(1-7)] by blast
  let ?m = "receiver_move hz False t"
  have "cmd_rx_frequency (tuned_radio ?m) k = (0x04 + of_nat k * 2, freq_bytes (rx_command_frequency (tuned_radio ?m) (t_rx ?m)))"
    using assms(8-13) nth_live_same_receivers[OF assms(8,9)]
    by (intro command_of_tuned_radio) (simp_all add: tuned_radio_def)
  thus ?thesis using h(2) by (simp add: h(1) Let_def)
qed

theorem tuned_frequency_is_heard_witness:
  "heard (tuned_radio (vfo_apply_frequency 14195000 False tuner0)) (t_rx (vfo_apply_frequency 14195000 False tuner0)) = 14195000"
proof -
  have r: "t_radio tuner0 = bands_radio" "t_index tuner0 = 0" by (simp_all add: tuner0_def)
  have m: "receiver_max_frequency bands_radio receiver0 = 61440000"
    using tuner0_max[of receiver0] by (simp add: r receiver0_def)
  show ?thesis
    using tuned_frequency_is_heard[of tuner0 14195000 0]
    by (simp add: r m Let_def) (simp add: receiver0_def bands_radio_def radio0_def discovered0_def isTransmitting_def)
qed

end
