(* ===== verification/P2_Send.thy ===== *)
theory P2_Send
  imports P1_Send "HOL-Library.Signed_Division"
begin

text \<open>The sending half of protocol 2 (\<open>src/proto/protocol2.c\<close>): the four register
blocks (general, high priority, transmit specific, receive specific), each a static buffer
that is cleared, filled and sent to its own port with a sequence number of its own, and the
audio and I/Q streams.

A block is the list of its bytes. Bytes of an integer are stored as the code does,
\<open>n >> 24\<close>, \<open>n >> 16\<close>, ... cut to eight bits. A block that cannot be built because
the code would follow a null pointer or use a variable it has not set is \<open>None\<close>.
\<open>USE_VFO_B_MODE_AND_FILTER\<close> and \<open>PURESIGNAL_P2\<close> are defined, as in the
Makefile; \<open>LOCALCW\<close> is not.\<close>

section \<open>Constants\<close>

definition GENERAL_REGISTERS_FROM_HOST_PORT :: nat where "GENERAL_REGISTERS_FROM_HOST_PORT = 1024"
definition RECEIVER_SPECIFIC_REGISTERS_FROM_HOST_PORT :: nat where
  "RECEIVER_SPECIFIC_REGISTERS_FROM_HOST_PORT = 1025"
definition TRANSMITTER_SPECIFIC_REGISTERS_FROM_HOST_PORT :: nat where
  "TRANSMITTER_SPECIFIC_REGISTERS_FROM_HOST_PORT = 1026"
definition HIGH_PRIORITY_FROM_HOST_PORT :: nat where "HIGH_PRIORITY_FROM_HOST_PORT = 1027"
definition AUDIO_FROM_HOST_PORT :: nat where "AUDIO_FROM_HOST_PORT = 1028"
definition TX_IQ_FROM_HOST_PORT :: nat where "TX_IQ_FROM_HOST_PORT = 1029"

lemmas p2_ports = GENERAL_REGISTERS_FROM_HOST_PORT_def RECEIVER_SPECIFIC_REGISTERS_FROM_HOST_PORT_def
  TRANSMITTER_SPECIFIC_REGISTERS_FROM_HOST_PORT_def HIGH_PRIORITY_FROM_HOST_PORT_def
  AUDIO_FROM_HOST_PORT_def TX_IQ_FROM_HOST_PORT_def

definition DDC_SYNC_BASE :: nat where "DDC_SYNC_BASE = 1363"
definition PS_FEEDBACK_RATE :: int where "PS_FEEDBACK_RATE = 192000"
definition MAX_DIVERSITY_MIXERS :: nat where "MAX_DIVERSITY_MIXERS = 2"
definition WIDEBAND_SAMPLES_PER_PACKET :: int where "WIDEBAND_SAMPLES_PER_PACKET = 512"
definition WIDEBAND_SAMPLE_BITS :: int where "WIDEBAND_SAMPLE_BITS = 16"
definition KEYER_MODE_A :: byte where "KEYER_MODE_A = 1"
definition KEYER_MODE_B :: byte where "KEYER_MODE_B = 2"
definition AUTOMATIC :: int where "AUTOMATIC = 0"

lemmas p2_consts = DDC_SYNC_BASE_def PS_FEEDBACK_RATE_def MAX_DIVERSITY_MIXERS_def
  WIDEBAND_SAMPLES_PER_PACKET_def WIDEBAND_SAMPLE_BITS_def KEYER_MODE_A_def KEYER_MODE_B_def
  AUTOMATIC_def MANUAL_def

section \<open>State\<close>

record p2_tx =
  p2_socket :: bool
  p2_running :: bool
  p2_general_sequence :: int
  p2_high_priority_sequence :: int
  p2_rx_specific_sequence :: int
  p2_tx_specific_sequence :: int
  p2_tx_iq_sequence :: int
  p2_iqbuffer :: "byte list"
  p2_iqindex :: nat
  p2_audiosequence :: int
  p2_audiobuffer :: "byte list"
  p2_audioindex :: nat
  p2_sent :: "(nat \<times> byte list) list"

text \<open>\<open>sendto\<close>: nothing leaves through a socket that is not open, and the error is
only logged.\<close>

definition p2_sendto :: "nat \<Rightarrow> byte list \<Rightarrow> p2_tx \<Rightarrow> p2_tx" where
  "p2_sendto port bytes s = (if p2_socket s then s\<lparr>p2_sent := p2_sent s @ [(port, bytes)]\<rparr> else s)"

definition be32 :: "int \<Rightarrow> byte list" where
  "be32 n = [word_of_int (n div 2 ^ 24), word_of_int (n div 2 ^ 16), word_of_int (n div 2 ^ 8), word_of_int n]"

definition or_at :: "nat \<Rightarrow> byte \<Rightarrow> byte list \<Rightarrow> byte list" where
  "or_at i m buf = buf[i := buf ! i OR m]"

definition clear_at :: "nat \<Rightarrow> byte \<Rightarrow> byte list \<Rightarrow> byte list" where
  "clear_at i m buf = buf[i := buf ! i AND NOT m]"

text \<open>The receiver a pointer of the transmitter or of a diversity mixer points to.\<close>

definition receiver_at :: "radio \<Rightarrow> nat option \<Rightarrow> receiver option" where
  "receiver_at r p = (case p of None \<Rightarrow> None
     | Some i \<Rightarrow> if i < length (r_receiver r) then r_receiver r ! i else None)"

definition p2_receivers :: "radio \<Rightarrow> receiver list" where
  "p2_receivers r = List.map_filter id (take (d_supported_receivers (r_discovered r)) (r_receiver r))"

section \<open>General registers\<close>

definition p2_tx_band :: "radio \<Rightarrow> band option" where
  "p2_tx_band r = map_option (\<lambda>rx. band_get_band r
     (if rx_split rx \<noteq> SPLIT_OFF then rx_band_b rx else rx_band_a rx)) (tx_receiver r)"

definition general_wideband :: "wideband \<Rightarrow> byte list" where
  "general_wideband w =
     (let per_frame = clamp 1 255 (w_buffer_size w sdiv WIDEBAND_SAMPLES_PER_PACKET);
          rate_ms = clamp 1 255 (if w_fps w > 0 then 1000 sdiv w_fps w else 100)
      in [push_bit (nat (w_adc w AND 1)) 1, word_of_int (WIDEBAND_SAMPLES_PER_PACKET div 256),
          word_of_int WIDEBAND_SAMPLES_PER_PACKET, word_of_int WIDEBAND_SAMPLE_BITS,
          word_of_int rate_ms, word_of_int per_frame])"

definition general_pa :: "radio \<Rightarrow> byte" where
  "general_pa r =
     or_if (r_filter_board r = APOLLO) 0x02
       (case p2_tx_band r of None \<Rightarrow> 0x00 | Some bd \<Rightarrow> if bd_disablePA bd then 0x00 else 0x01)"

definition general_alex :: "radio \<Rightarrow> byte" where
  "general_alex r = (if r_filter_board r = ALEX
     then (if d_device (r_discovered r) = DEVICE_ORION2 then 0x03 else 0x01) else 0x00)"

definition general_buffer :: "radio \<Rightarrow> int \<Rightarrow> byte list" where
  "general_buffer r sequence =
     (let buf = put_bytes 0 (be32 sequence) (replicate 60 0);
          buf1 = (case r_wideband r of None \<Rightarrow> buf | Some w \<Rightarrow> put_bytes 23 (general_wideband w) buf)
      in put_bytes 58 [general_pa r, general_alex r] (put_bytes 37 [0x08, 0x01] buf1))"

definition protocol2_general :: "radio \<Rightarrow> p2_tx \<Rightarrow> p2_tx" where
  "protocol2_general r s =
     (p2_sendto GENERAL_REGISTERS_FROM_HOST_PORT (general_buffer r (p2_general_sequence s)) s)
       \<lparr>p2_general_sequence := p2_general_sequence s + 1\<rparr>"

section \<open>High priority: transmit bit and phase words\<close>

text \<open>The mode is taken from VFO A under split and from VFO B otherwise, as the code has
it in two places; \<open>transmitter_get_mode\<close> has it the other way round.\<close>

definition p2_mode :: "radio \<Rightarrow> int" where
  "p2_mode r = (case tx_receiver r of None \<Rightarrow> USB
     | Some rx \<Rightarrow> if rx_split rx \<noteq> SPLIT_OFF then rx_mode_a rx else rx_mode_b rx)"

definition hp_run :: "bool \<Rightarrow> radio \<Rightarrow> byte" where
  "hp_run run r =
     (let b = (if run then 0x01 else 0x00) in
      if p2_mode r = CWU \<or> p2_mode r = CWL then or_if (r_tune r) 0x02 b
      else or_if (isTransmitting r) 0x02 b)"

text \<open>\<open>(long)((4294967296.0*(double)f)/122880000.0)\<close>. The product is exact in a double,
and the quotient lies at least 1/1875 below the next integer unless it is one, which is
more than its rounding error: cutting off the fraction of the exact quotient gives the
same integer.\<close>

definition p2_phase :: "int \<Rightarrow> int" where
  "p2_phase f = (4294967296 * f) sdiv 122880000"

definition p2_rx_frequency :: "radio \<Rightarrow> receiver \<Rightarrow> int" where
  "p2_rx_frequency r rx =
     (let f = rx_frequency_a rx - rx_lo_a rx + rx_error_a rx
              + radio_ppm_correction r (rx_frequency_a rx - rx_lo_a rx)
      in if rx_rit_enabled rx then f + rx_rit rx else f)"

definition p2_tx_frequency :: "radio \<Rightarrow> receiver \<Rightarrow> int" where
  "p2_tx_frequency r rx =
     (let f = transmitter_get_frequency r in
      if rx_mode_a rx = CWU then f + r_cw_keyer_sidetone_frequency r
      else if rx_mode_a rx = CWL then f - r_cw_keyer_sidetone_frequency r else f)"

definition hp_receiver :: "radio \<Rightarrow> receiver \<Rightarrow> byte list \<Rightarrow> byte list" where
  "hp_receiver r rx buf = put_bytes (9 + nat (rx_channel rx) * 4) (be32 (p2_phase (p2_rx_frequency r rx))) buf"

text \<open>The variable \<open>phase\<close> holds the transmit phase when the transmitter has a
receiver, otherwise what the loop over the receivers left there.\<close>

definition hp_tx_phase :: "radio \<Rightarrow> int option" where
  "hp_tx_phase r =
     (case tx_receiver r of Some rx \<Rightarrow> Some (p2_phase (p2_tx_frequency r rx))
      | None \<Rightarrow> if p2_receivers r = [] then None
                else Some (p2_phase (p2_rx_frequency r (last (p2_receivers r)))))"

definition p2_level :: "radio \<Rightarrow> int" where
  "p2_level r =
     (if isTransmitting r then
        (let tx = r_transmitter r;
             pwr = (if r_tune r \<and> \<not> tx_tune_use_drive tx
                    then c_trunc (tx_drive tx / 100 * tx_tune_percent tx) else c_trunc (tx_drive tx));
             gbb = (case p2_tx_band r of None \<Rightarrow> 0 | Some bd \<Rightarrow> bd_pa_calibration bd)
         in pa_level pwr gbb)
      else 0)"

section \<open>High priority: filter boards\<close>

definition ALEX_RX_ANTENNA_XVTR :: "32 word" where "ALEX_RX_ANTENNA_XVTR = 0x00000900"
definition ALEX_RX_ANTENNA_EXT1 :: "32 word" where "ALEX_RX_ANTENNA_EXT1 = 0x00000A00"
definition ALEX_RX_ANTENNA_EXT2 :: "32 word" where "ALEX_RX_ANTENNA_EXT2 = 0x00000C00"
definition ALEX_TX_ANTENNA_1 :: "32 word" where "ALEX_TX_ANTENNA_1 = 0x01000000"
definition ALEX_TX_ANTENNA_2 :: "32 word" where "ALEX_TX_ANTENNA_2 = 0x02000000"
definition ALEX_TX_ANTENNA_3 :: "32 word" where "ALEX_TX_ANTENNA_3 = 0x04000000"

lemmas alex_consts = ALEX_RX_ANTENNA_XVTR_def ALEX_RX_ANTENNA_EXT1_def ALEX_RX_ANTENNA_EXT2_def
  ALEX_TX_ANTENNA_1_def ALEX_TX_ANTENNA_2_def ALEX_TX_ANTENNA_3_def

definition p2_hpf_auto :: "device \<Rightarrow> int \<Rightarrow> 32 word" where
  "p2_hpf_auto dev f =
     (if dev = DEVICE_ORION2 then
        (if f < 1500000 then 0x1000 else if f < 2100000 then 0x40 else if f < 5500000 then 0x20
         else if f < 11000000 then 0x10 else if f < 22000000 then 0x02 else if f < 35000000 then 0x04 else 0x08)
      else
        (if f < 1500000 then 0x1000 else if f < 6500000 then 0x40 else if f < 9500000 then 0x20
         else if f < 13000000 then 0x10 else if f < 20000000 then 0x02 else if f < 50000000 then 0x04 else 0x80))"

definition p2_hpf_manual :: "int \<Rightarrow> 32 word" where
  "p2_hpf_manual h = (if h = 0 then 0x1000 else if h = 1 then 0x40 else if h = 2 then 0x20
     else if h = 3 then 0x10 else if h = 4 then 0x02 else if h = 5 then 0x04 else 0)"

definition p2_lpf_auto :: "device \<Rightarrow> int \<Rightarrow> 32 word" where
  "p2_lpf_auto dev f =
     (if dev = DEVICE_ORION2 then
        (if f > 32000000 then 0x20000000 else if f > 22000000 then 0x40000000 else if f > 11000000 then 0x20000000
         else if f > 5500000 then 0x100000 else if f > 2100000 then 0x200000 else if f > 1500000 then 0x400000
         else 0x800000)
      else
        (if f > 35600000 then 0x08 else if f > 24000000 then 0x04 else if f > 16500000 then 0x02
         else if f > 8000000 then 0x10 else if f > 5000000 then 0x20 else if f > 2500000 then 0x40 else 0x40))"

definition p2_lpf_manual :: "int \<Rightarrow> 32 word" where
  "p2_lpf_manual l = (if l = 0 then 0x800000 else if l = 1 then 0x400000 else if l = 2 then 0x200000
     else if l = 3 then 0x100000 else if l = 4 then 0x80000000 else if l = 5 then 0x40000000
     else if l = 6 then 0x20000000 else 0)"

text \<open>The automatic low pass case has no \<open>break\<close> and runs into the manual one.\<close>

definition p2_hpf :: "radio \<Rightarrow> receiver \<Rightarrow> 32 word" where
  "p2_hpf r rx =
     (let a = r_adc r ! 0; dev = d_device (r_discovered r) in
      if adc_filters a = AUTOMATIC then p2_hpf_auto dev (rx_frequency_a rx - rx_lo_a rx)
      else if adc_filters a = MANUAL then p2_hpf_manual (adc_hpf a) else 0)"

definition p2_lpf :: "radio \<Rightarrow> receiver \<Rightarrow> 32 word" where
  "p2_lpf r rx =
     (let a = r_adc r ! 0; dev = d_device (r_discovered r) in
      if adc_filters a = AUTOMATIC then p2_lpf_auto dev (p2_tx_frequency r rx) OR p2_lpf_manual (adc_lpf a)
      else if adc_filters a = MANUAL then p2_lpf_manual (adc_lpf a) else 0)"

definition p2_rx_antenna :: "int \<Rightarrow> 32 word" where
  "p2_rx_antenna a = (if a = 3 then ALEX_RX_ANTENNA_EXT2 else if a = 4 then ALEX_RX_ANTENNA_EXT1
     else if a = 5 then ALEX_RX_ANTENNA_XVTR else 0)"

definition p2_antenna :: "int \<Rightarrow> 32 word" where
  "p2_antenna a = (if a = 0 then ALEX_TX_ANTENNA_1 else if a = 1 then ALEX_TX_ANTENNA_2
     else if a = 2 then ALEX_TX_ANTENNA_3 else 0)"

definition p2_tx_antenna :: "radio \<Rightarrow> 32 word" where
  "p2_tx_antenna r =
     (let a = adc_antenna (r_adc r ! 0) in
      if isTransmitting r then p2_antenna (r_alex_tx_antenna r)
      else if a \<in> {0, 1, 2} then p2_antenna a
      else if a \<in> {3, 4, 5} then p2_antenna (r_alex_tx_antenna r) else 0)"

definition p2_alex0 :: "radio \<Rightarrow> receiver \<Rightarrow> 32 word" where
  "p2_alex0 r rx =
     (let tx = (if isTransmitting r then 0x08000000 OR (if tx_puresignal (r_transmitter r) then 0x00040000 else 0)
                else 0)
      in tx OR p2_hpf r rx OR p2_lpf r rx OR p2_rx_antenna (adc_antenna (r_adc r ! 0)) OR p2_tx_antenna r)"

text \<open>The second receiver's filters follow the frequency of \<open>receiver[0]\<close>.\<close>

definition p2_alex1 :: "device \<Rightarrow> int \<Rightarrow> 32 word" where
  "p2_alex1 dev f =
     (if dev = DEVICE_ORION2 then
        (if f < 1500000 then 0x1000 else if f < 2100000 then 0x40 else if f < 5500000 then 0x20
         else if f < 11000000 then 0x10 else if f < 22000000 then 0x02 else if f < 35000000 then 0x04 else 0x08)
      else
        (if f < 1800000 then 0x1000 else if f < 6500000 then 0x40 else if f < 9500000 then 0x20
         else if f < 13000000 then 0x10 else if f < 20000000 then 0x02 else if f < 50000000 then 0x04 else 0x08))"

text \<open>An antenna number out of range is put right in the band structure; while transmitting
the variable that names the band has not been set.\<close>

definition p2_antenna_invalid :: "radio \<Rightarrow> bool" where
  "p2_antenna_invalid r \<longleftrightarrow> adc_antenna (r_adc r ! 0) \<notin> {0 .. 5}"

definition p2_antenna_unset :: "radio \<Rightarrow> bool" where
  "p2_antenna_unset r \<longleftrightarrow> isTransmitting r \<and> (p2_antenna_invalid r \<or> r_alex_tx_antenna r \<notin> {0 .. 2})"

definition p2_antenna_reset :: "receiver \<Rightarrow> radio \<Rightarrow> radio" where
  "p2_antenna_reset rx r =
     (if p2_antenna_invalid r then
        r\<lparr>r_bands := (r_bands r)[nat (rx_band_a rx) :=
            (band_get_band r (rx_band_a rx))\<lparr>bd_alexRxAntenna := 0\<rparr>]\<rparr>
      else r)"

section \<open>High priority: the block\<close>

definition hp_front :: "bool \<Rightarrow> radio \<Rightarrow> int \<Rightarrow> int \<Rightarrow> byte list" where
  "hp_front run r sequence phase =
     (let buf = put_bytes 0 (be32 sequence) (replicate 1444 0);
          buf1 = fold (hp_receiver r) (p2_receivers r) (buf[4 := hp_run run r]);
          buf2 = (if isTransmitting r \<and> tx_puresignal (r_transmitter r)
                  then put_bytes 9 (be32 phase @ be32 phase) buf1 else buf1)
      in (put_bytes 329 (be32 phase) buf2)[345 := word_of_int (p2_level r)])"

definition hp_filters :: "radio \<Rightarrow> receiver \<Rightarrow> receiver \<Rightarrow> byte list \<Rightarrow> byte list" where
  "hp_filters r rx rx0 buf =
     (let oc = (if isTransmitting r then 0 else push_bit 1 (bd_OCrx (band_get_band r (rx_band_a rx))));
          alex0 = p2_alex0 r rx;
          alex1 = p2_alex1 (d_device (r_discovered r)) (rx_frequency_a rx0 - rx_lo_a rx0);
          buf1 = put_bytes 1430 [ucast (drop_bit 8 alex1), ucast alex1, ucast (drop_bit 24 alex0),
                   ucast (drop_bit 16 alex0), ucast (drop_bit 8 alex0), ucast alex0] (buf[1401 := oc])
      in if isTransmitting r then buf1[1443 := tx_attenuation (r_transmitter r)]
         else buf1[1443 := word_of_int (adc_attenuation (r_adc r ! 0)),
                   1442 := word_of_int (adc_attenuation (r_adc r ! 1))])"

definition hp_send :: "byte list \<Rightarrow> p2_tx \<Rightarrow> p2_tx" where
  "hp_send buf s = (p2_sendto HIGH_PRIORITY_FROM_HOST_PORT buf s)
     \<lparr>p2_high_priority_sequence := p2_high_priority_sequence s + 1\<rparr>"

text \<open>While transmitting without a receiver the log line of the drive level follows the
null pointer; with one, \<open>receiver[0]\<close> is followed without a test.\<close>

definition protocol2_high_priority :: "radio \<times> p2_tx \<Rightarrow> (radio \<times> p2_tx) option" where
  "protocol2_high_priority rs = (case rs of (r, s) \<Rightarrow>
     if \<not> p2_socket s then Some (r, s)
     else (case hp_tx_phase r of None \<Rightarrow> None
       | Some phase \<Rightarrow>
           (let buf = hp_front (p2_running s) r (p2_high_priority_sequence s) phase in
            case tx_receiver r of
              None \<Rightarrow> if isTransmitting r then None else Some (r, hp_send buf s)
            | Some rx \<Rightarrow>
                (case r_receiver r ! 0 of
                   None \<Rightarrow> None
                 | Some rx0 \<Rightarrow>
                     if p2_antenna_unset r then None
                     else Some (p2_antenna_reset rx r, hp_send (hp_filters r rx rx0 buf) s)))))"

section \<open>Transmit specific\<close>

definition tx_specific_keyer :: "radio \<Rightarrow> byte" where
  "tx_specific_keyer r =
     or_if (r_cw_breakin r) 0x80
       (or_if (r_cw_keyer_spacing r \<noteq> 0) 0x40
         (or_if (r_cw_keyer_sidetone_volume r \<noteq> 0) 0x10
           (or_if (r_cw_keyer_mode r = KEYER_MODE_B) 0x28
             (or_if (r_cw_keyer_mode r = KEYER_MODE_A) 0x08
               (or_if (r_cw_keys_reversed r) 0x04
                 (or_if (p2_mode r = CWU \<or> p2_mode r = CWL) 0x02 0x00))))))"

definition tx_specific_mic :: "radio \<Rightarrow> byte" where
  "tx_specific_mic r =
     or_if (r_mic_bias_enabled r) 0x10
       (or_if (r_mic_ptt_tip_bias_ring r) 0x08
         (or_if (\<not> r_mic_ptt_enabled r) 0x04
           (or_if (r_mic_boost r) 0x02 (or_if (r_mic_linein r) 0x01 0x00))))"

definition tx_specific_buffer :: "radio \<Rightarrow> int \<Rightarrow> byte list" where
  "tx_specific_buffer r sequence =
     put_bytes 50 [tx_specific_mic r, r_linein_gain r]
       (put_bytes 0 (be32 sequence @ [0x01, tx_specific_keyer r, r_cw_keyer_sidetone_volume r]
          @ hi_lo (r_cw_keyer_sidetone_frequency r) @ [r_cw_keyer_speed r, r_cw_keyer_weight r]
          @ hi_lo (r_cw_keyer_hang_time r) @ [0]) (replicate 60 0))"

definition protocol2_transmit_specific :: "radio \<Rightarrow> p2_tx \<Rightarrow> p2_tx" where
  "protocol2_transmit_specific r s =
     (p2_sendto TRANSMITTER_SPECIFIC_REGISTERS_FROM_HOST_PORT
        (tx_specific_buffer r (p2_tx_specific_sequence s)) s)
       \<lparr>p2_tx_specific_sequence := p2_tx_specific_sequence s + 1\<rparr>"

section \<open>Receive specific\<close>

definition rs_bits :: "bool \<Rightarrow> bool \<Rightarrow> byte" where
  "rs_bits x y = or_if y 0x02 (or_if x 0x01 0x00)"

text \<open>The configuration of one DDC: ADC, rate in kilohertz, two unused bytes, bits per sample.\<close>

definition rs_ddc :: "nat \<Rightarrow> byte \<Rightarrow> int \<Rightarrow> byte list \<Rightarrow> byte list" where
  "rs_ddc c a rate buf = (put_bytes (17 + c * 6) (a # hi_lo (rate div 1000)) buf)[22 + c * 6 := 24]"

definition rs_receiver :: "receiver \<Rightarrow> byte list \<Rightarrow> byte list" where
  "rs_receiver rx buf =
     (let c = nat (rx_channel rx)
      in rs_ddc c (word_of_int (rx_adc rx)) (rx_sample_rate rx) (or_at 7 (push_bit c 1) buf))"

definition rs_diversity :: "radio \<Rightarrow> divmixer option \<Rightarrow> byte list \<Rightarrow> byte list" where
  "rs_diversity r dm buf =
     (case dm of None \<Rightarrow> buf
      | Some d \<Rightarrow>
          (case (receiver_at r (dm_rx_visual d), receiver_at r (dm_rx_hidden d)) of
             (Some rxv, Some rxh) \<Rightarrow>
               if rx_channel rxv \<noteq> 0 \<or> rx_channel rxh \<noteq> 1 then buf
               else (let buf1 = buf[17 := 0, 17 + 6 := 1];
                         buf2 = buf1[18 + 6 := buf1 ! 18, 19 + 6 := buf1 ! 19, 22 + 6 := 24]
                     in clear_at 7 0x02 (or_at DDC_SYNC_BASE 0x02 buf2))
           | _ \<Rightarrow> buf))"

definition rs_puresignal :: "radio \<Rightarrow> byte list \<Rightarrow> byte list" where
  "rs_puresignal r buf =
     (let tx = r_transmitter r in
      if tx_puresignal tx \<and> isTransmitting r then
        (case (receiver_at r (tx_rx_puresignal_txfbk tx), receiver_at r (tx_rx_puresignal_rxfbk tx)) of
           (Some txfbk, Some rxfbk) \<Rightarrow>
             (let buf1 = clear_at 7 (push_bit (nat (rx_channel rxfbk)) 1)
                           (clear_at 7 (push_bit (nat (rx_channel txfbk)) 1) buf);
                  buf2 = rs_ddc 1 (word_of_int (d_adcs (r_discovered r))) PS_FEEDBACK_RATE
                           (rs_ddc 0 (word_of_int (rx_adc rxfbk)) PS_FEEDBACK_RATE buf1)
              in clear_at 7 0x02 (or_at 7 0x01 (or_at DDC_SYNC_BASE 0x02 buf2)))
         | _ \<Rightarrow> buf)
      else buf)"

definition rx_specific_buffer :: "radio \<Rightarrow> int \<Rightarrow> byte list" where
  "rx_specific_buffer r sequence =
     (let a0 = r_adc r ! 0; a1 = r_adc r ! 1;
          buf = put_bytes 0 (be32 sequence @ [2, rs_bits (adc_dither a0) (adc_dither a1),
                  rs_bits (adc_random a0) (adc_random a1)]) (replicate 1444 0);
          buf1 = fold rs_receiver (p2_receivers r) buf;
          buf2 = fold (rs_diversity r) (take MAX_DIVERSITY_MIXERS (r_divmixer r)) buf1
      in rs_puresignal r buf2)"

definition protocol2_receive_specific :: "radio \<Rightarrow> p2_tx \<Rightarrow> p2_tx" where
  "protocol2_receive_specific r s =
     (p2_sendto RECEIVER_SPECIFIC_REGISTERS_FROM_HOST_PORT
        (rx_specific_buffer r (p2_rx_specific_sequence s)) s)
       \<lparr>p2_rx_specific_sequence := p2_rx_specific_sequence s + 1\<rparr>"

section \<open>Audio and I/Q samples\<close>

definition protocol2_audio_samples :: "int \<Rightarrow> int \<Rightarrow> p2_tx \<Rightarrow> p2_tx" where
  "protocol2_audio_samples left right s =
     (let buf = put_bytes (p2_audioindex s) (hi_lo left @ hi_lo right) (p2_audiobuffer s);
          i = p2_audioindex s + 4
      in if i \<ge> 260 then
           (let buf1 = put_bytes 0 (be32 (p2_audiosequence s)) buf
            in (p2_sendto AUDIO_FROM_HOST_PORT buf1 s)\<lparr>p2_audiobuffer := buf1,
                 p2_audiosequence := p2_audiosequence s + 1, p2_audioindex := 4\<rparr>)
         else s\<lparr>p2_audiobuffer := buf, p2_audioindex := i\<rparr>)"

definition protocol2_iq_samples :: "int \<Rightarrow> int \<Rightarrow> p2_tx \<Rightarrow> p2_tx" where
  "protocol2_iq_samples isample qsample s =
     (let buf = put_bytes (p2_iqindex s) (enc24 isample @ enc24 qsample) (p2_iqbuffer s);
          i = p2_iqindex s + 6
      in if i = 1444 then
           (let buf1 = put_bytes 0 (be32 (p2_tx_iq_sequence s)) buf
            in (p2_sendto TX_IQ_FROM_HOST_PORT buf1 s)\<lparr>p2_iqbuffer := buf1,
                 p2_tx_iq_sequence := p2_tx_iq_sequence s + 1, p2_iqindex := 4\<rparr>)
         else s\<lparr>p2_iqbuffer := buf, p2_iqindex := i\<rparr>)"

section \<open>Starting, stopping and the register timer\<close>

definition protocol2_start_receiver :: "radio \<times> p2_tx \<Rightarrow> (radio \<times> p2_tx) option" where
  "protocol2_start_receiver rs = (case rs of (r, s) \<Rightarrow>
     map_option (\<lambda>(r, s). (r, protocol2_receive_specific r s))
       (protocol2_high_priority (r, protocol2_general r s)))"

definition protocol2_stop_receiver :: "radio \<times> p2_tx \<Rightarrow> (radio \<times> p2_tx) option" where
  "protocol2_stop_receiver rs = (case rs of (r, s) \<Rightarrow> protocol2_high_priority (r, protocol2_general r s))"

definition protocol2_start :: "radio \<Rightarrow> p2_tx \<Rightarrow> p2_tx" where
  "protocol2_start r s = protocol2_receive_specific r (protocol2_transmit_specific r s)"

definition protocol2_stop :: "radio \<times> p2_tx \<Rightarrow> (radio \<times> p2_tx) option" where
  "protocol2_stop rs = (case rs of (r, s) \<Rightarrow> protocol2_high_priority (r, s\<lparr>p2_running := False\<rparr>))"

definition protocol2_run :: "radio \<times> p2_tx \<Rightarrow> (radio \<times> p2_tx) option" where
  "protocol2_run rs = protocol2_high_priority rs"

text \<open>The head of the data thread, up to its receive loop; the socket is opened.\<close>

definition protocol2_thread_start :: "radio \<times> p2_tx \<Rightarrow> (radio \<times> p2_tx) option" where
  "protocol2_thread_start rs = (case rs of (r, s) \<Rightarrow>
     protocol2_high_priority (r, protocol2_start r (protocol2_general r
       (s\<lparr>p2_socket := True, p2_iqindex := 4, p2_audioindex := 4, p2_audiosequence := 0, p2_running := True\<rparr>))))"

text \<open>A restart joins both threads, closes the socket and starts the data thread again.\<close>

definition protocol2_reconnect :: "radio \<times> p2_tx \<Rightarrow> (radio \<times> p2_tx) option" where
  "protocol2_reconnect rs = (case rs of (r, s) \<Rightarrow>
     protocol2_thread_start (r, s\<lparr>p2_running := False, p2_socket := False\<rparr>))"

definition protocol2_timer_thread :: "radio \<Rightarrow> p2_tx \<Rightarrow> p2_tx" where
  "protocol2_timer_thread r s = (if p2_running s
     then protocol2_receive_specific r (protocol2_transmit_specific r s) else s)"

text \<open>The callbacks of the dialogs only resend the general block. Without \<open>LOCALCW\<close> the
one of the keyer does nothing.\<close>

definition filter_board_changed :: "radio \<Rightarrow> p2_tx \<Rightarrow> p2_tx" where
  "filter_board_changed r s = protocol2_general r s"

definition protocol2_start_wideband :: "radio \<Rightarrow> p2_tx \<Rightarrow> p2_tx" where
  "protocol2_start_wideband r s = protocol2_general r s"

definition protocol2_stop_wideband :: "radio \<Rightarrow> p2_tx \<Rightarrow> p2_tx" where
  "protocol2_stop_wideband r s = protocol2_general r s"

text \<open>At the start every receiver is announced before there is a socket, so nothing of it
leaves; then the socket is made (and made again by the thread, which forgets the first one).\<close>

definition protocol2_init :: "radio \<times> p2_tx \<Rightarrow> (radio \<times> p2_tx) option" where
  "protocol2_init rs = (case rs of (r, s) \<Rightarrow>
     Option.bind (fold (\<lambda>_ rs. Option.bind rs protocol2_start_receiver) (p2_receivers r) (Some (r, s)))
       (\<lambda>(r, s). protocol2_thread_start (r, s\<lparr>p2_socket := True\<rparr>)))"

definition protocol2_is_running :: "p2_tx \<Rightarrow> bool" where
  "protocol2_is_running s = p2_running s"

end
