(* ===== verification/P2_Receive.thy ===== *)
theory P2_Receive
  imports P2_Send P1_Frames
begin

text \<open>The receiving half of protocol 2 (\<open>src/proto/protocol2.c\<close>): the dispatch of
\<open>protocol2_thread\<close> on the port a datagram came from, and the unpacking of I/Q samples,
of synchronised pairs (diversity and PureSignal), of wideband and microphone samples and of the
high priority status.

The calls into other components are the events of \<open>P1_Receive\<close>. A datagram is received
into a freshly allocated block of 2048 bytes; what the datagram does not fill is whatever the
allocator left there, an argument of the model.\<close>

section \<open>Ports and the block a datagram is received into\<close>

definition COMMAND_RESPONCE_TO_HOST_PORT :: nat where "COMMAND_RESPONCE_TO_HOST_PORT = 1024"
definition HIGH_PRIORITY_TO_HOST_PORT :: nat where "HIGH_PRIORITY_TO_HOST_PORT = 1025"
definition MIC_LINE_TO_HOST_PORT :: nat where "MIC_LINE_TO_HOST_PORT = 1026"
definition WIDE_BAND_TO_HOST_PORT :: nat where "WIDE_BAND_TO_HOST_PORT = 1027"
definition RX_IQ_TO_HOST_PORT_0 :: nat where "RX_IQ_TO_HOST_PORT_0 = 1035"
definition RX_IQ_TO_HOST_PORT_7 :: nat where "RX_IQ_TO_HOST_PORT_7 = 1042"
definition NET_BUFFER_SIZE :: nat where "NET_BUFFER_SIZE = 2048"
definition MIC_SAMPLES :: nat where "MIC_SAMPLES = 64"

lemmas p2_host_ports = COMMAND_RESPONCE_TO_HOST_PORT_def HIGH_PRIORITY_TO_HOST_PORT_def
  MIC_LINE_TO_HOST_PORT_def WIDE_BAND_TO_HOST_PORT_def RX_IQ_TO_HOST_PORT_0_def RX_IQ_TO_HOST_PORT_7_def

definition p2_block :: "byte list \<Rightarrow> byte list \<Rightarrow> byte list" where
  "p2_block garbage pkt =
     take NET_BUFFER_SIZE pkt @ drop (length (take NET_BUFFER_SIZE pkt)) garbage"

definition p2_bytesread :: "byte list \<Rightarrow> nat" where
  "p2_bytesread pkt = length (take NET_BUFFER_SIZE pkt)"

record p2_rx =
  pq_response_sequence :: int
  pq_response :: int

text \<open>\<open>(b[0]<<24)+(b[1]<<16)+(b[2]<<8)+b[3]\<close>, an \<open>int\<close>.\<close>

definition p2_sequence :: "byte list \<Rightarrow> int" where
  "p2_sequence b =
     sint (push_bit 24 (ucast (b ! 0)) + push_bit 16 (ucast (b ! 1))
           + push_bit 8 (ucast (b ! 2)) + ucast (b ! 3) :: 32 word)"

section \<open>I/Q samples\<close>

text \<open>The 24 bits at a place of the block, as \<open>process_iq_data\<close> and
\<open>p2_sample24\<close> both put them together.\<close>

definition p2_sample24 :: "byte list \<Rightarrow> nat \<Rightarrow> real" where
  "p2_sample24 b i =
     sample_double (scast (b ! i) * 65536 OR (push_bit 8 (ucast (b ! (i + 1))) AND 0xFF00)
                    OR (ucast (b ! (i + 2)) AND 0xFF))"

definition p2_iq_samples :: "nat \<Rightarrow> byte list \<Rightarrow> nat" where
  "p2_iq_samples bytes b =
     (if bytes < 16 + 6 then 0
      else min (nat (word16 (b ! 14) (b ! 15))) ((bytes - 16) div 6))"

text \<open>The running count of a receiver's datagrams is 32 bits wide.\<close>

definition p2_count :: "nat \<Rightarrow> byte list \<Rightarrow> radio \<Rightarrow> radio" where
  "p2_count j b r =
     (case r_receiver r ! j of None \<Rightarrow> r
      | Some rx \<Rightarrow> r\<lparr>r_receiver := (r_receiver r)[j := Some (rx\<lparr>rx_iq_sequence :=
            (if uint (rx_iq_sequence rx) \<noteq> p2_sequence b then word_of_int (p2_sequence b)
             else rx_iq_sequence rx) + 1\<rparr>)]\<rparr>)"

definition process_iq_data :: "nat \<Rightarrow> nat \<Rightarrow> byte list \<Rightarrow> p1_event list" where
  "process_iq_data j bytes b =
     map (\<lambda>i. Iq_samples j (p2_sample24 b (16 + 6 * i)) (p2_sample24 b (19 + 6 * i)))
       [0..<p2_iq_samples bytes b]"

text \<open>A synchronised pair: base, follower, base, follower; the base's receiver is fed first.\<close>

definition process_div_iq_data :: "nat \<Rightarrow> nat \<Rightarrow> nat \<Rightarrow> byte list \<Rightarrow> p1_event list" where
  "process_div_iq_data visual hidden bytes b =
     concat (map (\<lambda>i. [Iq_samples visual (p2_sample24 b (16 + 12 * i)) (p2_sample24 b (19 + 12 * i)),
                        Iq_samples hidden (p2_sample24 b (22 + 12 * i)) (p2_sample24 b (25 + 12 * i))])
       [0..<p2_iq_samples bytes b div 2])"

definition process_ps_iq_data :: "nat \<Rightarrow> byte list \<Rightarrow> p1_event list" where
  "process_ps_iq_data bytes b =
     (if odd (p2_iq_samples bytes b) then []
      else map (\<lambda>i. Ps_iq_samples (p2_sample24 b (22 + 12 * i)) (p2_sample24 b (25 + 12 * i))
                       (p2_sample24 b (16 + 12 * i)) (p2_sample24 b (19 + 12 * i)))
             [0..<p2_iq_samples bytes b div 2])"

section \<open>The other ports\<close>

definition process_wideband_data :: "nat \<Rightarrow> byte list \<Rightarrow> p1_event list" where
  "process_wideband_data bytes b =
     map (\<lambda>i. Wideband_sample (real_of_int (sint (scast (b ! (4 + 2 * i)) * 256
                OR (ucast (b ! (5 + 2 * i)) AND 0xFF) :: 32 word)) / 32767))
       [0..<(bytes - 4) div 2]"

definition process_command_response :: "byte list \<Rightarrow> p2_rx \<Rightarrow> p2_rx" where
  "process_command_response b x =
     x\<lparr>pq_response_sequence := p2_sequence b, pq_response := uint (b ! 4)\<rparr>"

definition p2_status :: "byte list \<Rightarrow> radio \<Rightarrow> radio" where
  "p2_status b r =
     r\<lparr>r_ptt := bit (b ! 4) 0, r_dot := bit (b ! 4) 1, r_dash := bit (b ! 4) 2,
       r_pll_locked := bit (b ! 4) 3, r_adc_overload := bit (b ! 5) 0,
       r_transmitter := (r_transmitter r)\<lparr>tx_exciter_power := word16 (b ! 6) (b ! 7),
          tx_alex_forward_power := word16 (b ! 14) (b ! 15),
          tx_alex_reverse_power := word16 (b ! 22) (b ! 23)\<rparr>,
       r_supply_volts := word16 (b ! 49) (b ! 50)\<rparr>"

text \<open>The line is compared with the last \<open>ptt\<close>, not with the last
\<open>local_ptt\<close>.\<close>

definition process_high_priority :: "byte list \<Rightarrow> radio \<Rightarrow> radio \<times> p1_event list" where
  "process_high_priority b r =
     (let previous_ptt = r_ptt r;
          r1 = p2_status b r;
          tx_mode = transmitter_get_mode r1;
          local_ptt = (if tx_mode = CWL \<or> tx_mode = CWU then r_ptt r1 \<or> r_dot r1 \<or> r_dash r1 else r_ptt r1)
      in (r1\<lparr>r_local_ptt := local_ptt\<rparr>, if previous_ptt \<noteq> local_ptt then [Ptt_changed] else []))"

definition process_mic_data :: "byte list \<Rightarrow> p1_event list" where
  "process_mic_data b =
     map (\<lambda>i. Mic_sample (real_of_int (sint (push_bit 8 (ucast (b ! (4 + 2 * i)))
                OR ucast (b ! (5 + 2 * i)) :: 16 word)) / 32768))
       [0..<MIC_SAMPLES]"

text \<open>The computer's own microphone.\<close>

definition protocol2_process_local_mic :: "real list \<Rightarrow> p1_event list" where
  "protocol2_process_local_mic local_microphone_buffer = map Mic_sample local_microphone_buffer"

section \<open>Dispatch\<close>

text \<open>The diversity mixer a receiver is the visible half of, with its hidden half.\<close>

definition p2_pair :: "radio \<Rightarrow> nat \<Rightarrow> receiver \<Rightarrow> nat option" where
  "p2_pair r j rx =
     (case r_divmixer r ! rx_dmix_id rx of None \<Rightarrow> None
      | Some d \<Rightarrow> if dm_rx_visual d = Some j then dm_rx_hidden d else None)"

definition p2_iq_port :: "nat \<Rightarrow> nat \<Rightarrow> byte list \<Rightarrow> radio \<Rightarrow> radio \<times> p1_event list" where
  "p2_iq_port ddc bytes b r =
     (if ddc = 0 \<and> isTransmitting r \<and> tx_puresignal (r_transmitter r)
      then (r, process_ps_iq_data bytes b)
      else if ddc \<ge> d_supported_receivers (r_discovered r) then (r, [])
      else (case r_receiver r ! ddc of None \<Rightarrow> (r, [])
        | Some rx \<Rightarrow>
            (p2_count ddc b r,
             (case p2_pair r ddc rx of
                Some hidden \<Rightarrow> process_div_iq_data ddc hidden bytes b
              | None \<Rightarrow> process_iq_data ddc bytes b))))"

definition protocol2_receive :: "nat \<Rightarrow> nat \<Rightarrow> byte list \<Rightarrow> radio \<times> p2_rx \<Rightarrow> (radio \<times> p2_rx) \<times> p1_event list" where
  "protocol2_receive port bytes b rx = (case rx of (r, x) \<Rightarrow>
     if RX_IQ_TO_HOST_PORT_0 \<le> port \<and> port \<le> RX_IQ_TO_HOST_PORT_7 then
       (case p2_iq_port (port - RX_IQ_TO_HOST_PORT_0) bytes b r of (r1, evs) \<Rightarrow> ((r1, x), evs))
     else if port = WIDE_BAND_TO_HOST_PORT then
       ((r, x), if r_wideband r \<noteq> None then process_wideband_data bytes b else [])
     else if port = COMMAND_RESPONCE_TO_HOST_PORT then ((r, process_command_response b x), [])
     else if port = HIGH_PRIORITY_TO_HOST_PORT then
       (case process_high_priority b r of (r1, evs) \<Rightarrow> ((r1, x), evs))
     else if port = MIC_LINE_TO_HOST_PORT then ((r, x), process_mic_data b)
     else ((r, x), []))"

definition protocol2_datagram ::
  "byte list \<Rightarrow> nat \<Rightarrow> byte list \<Rightarrow> radio \<times> p2_rx \<Rightarrow> (radio \<times> p2_rx) \<times> p1_event list" where
  "protocol2_datagram garbage port pkt rx =
     (case protocol2_receive port (p2_bytesread pkt) (p2_block garbage pkt) rx of (rx1, evs) \<Rightarrow>
        (rx1, Note_data # evs))"

end
