(* ===== verification/P2_Samples.thy ===== *)
theory P2_Samples
  imports P2_Receive
begin

text \<open>What the receiving half of protocol 2 guarantees: samples come only from the bytes that
arrived and stay in range, a datagram in the layout of the protocol is decoded exactly, a
synchronised pair stays coherent, and protocol 1 delivers the same samples. The last section is
about the status and microphone ports, which do not have the guard of the others.\<close>

section \<open>Only what arrived\<close>

lemma p2_block_nth: "i < p2_bytesread pkt \<Longrightarrow> p2_block g pkt ! i = pkt ! i"
  by (simp add: p2_block_def p2_bytesread_def nth_append)

lemma p2_sample24_block:
  "i + 2 < p2_bytesread pkt \<Longrightarrow> p2_sample24 (p2_block g pkt) i = p2_sample24 pkt i"
  by (simp add: p2_sample24_def p2_block_nth)

lemma p2_iq_samples_block: "p2_iq_samples (p2_bytesread pkt) (p2_block g pkt) = p2_iq_samples (p2_bytesread pkt) pkt"
  by (simp add: p2_iq_samples_def p2_block_nth)

lemma p2_iq_samples_fit: "16 + 6 * p2_iq_samples bytes b \<le> bytes \<or> p2_iq_samples bytes b = 0"
proof -
  have "6 * ((bytes - 16) div 6) \<le> bytes - 16" by simp
  moreover have "p2_iq_samples bytes b \<le> (bytes - 16) div 6" by (simp add: p2_iq_samples_def)
  ultimately have "6 * p2_iq_samples bytes b \<le> bytes - 16" by linarith
  thus ?thesis by (cases "bytes < 22") (auto simp: p2_iq_samples_def)
qed

lemma process_iq_data_block:
  "process_iq_data j (p2_bytesread pkt) (p2_block g pkt) = process_iq_data j (p2_bytesread pkt) pkt"
  unfolding process_iq_data_def p2_iq_samples_block
  using p2_iq_samples_fit[of "p2_bytesread pkt" pkt]
  by (intro map_cong refl) (auto intro!: p2_sample24_block)

lemma process_div_iq_data_block:
  "process_div_iq_data v h (p2_bytesread pkt) (p2_block g pkt) = process_div_iq_data v h (p2_bytesread pkt) pkt"
proof -
  have "p2_sample24 (p2_block g pkt) (k + 12 * i) = p2_sample24 pkt (k + 12 * i)"
    if "k \<in> {16, 19, 22, 25}" "i < p2_iq_samples (p2_bytesread pkt) pkt div 2" for i k
    using that p2_iq_samples_fit[of "p2_bytesread pkt" pkt] by (intro p2_sample24_block) auto
  thus ?thesis unfolding process_div_iq_data_def p2_iq_samples_block
    by (intro arg_cong[where f = concat] map_cong refl) simp
qed

lemma process_ps_iq_data_block:
  "process_ps_iq_data (p2_bytesread pkt) (p2_block g pkt) = process_ps_iq_data (p2_bytesread pkt) pkt"
proof -
  have "p2_sample24 (p2_block g pkt) (k + 12 * i) = p2_sample24 pkt (k + 12 * i)"
    if "k \<in> {16, 19, 22, 25}" "i < p2_iq_samples (p2_bytesread pkt) pkt div 2" for i k
    using that p2_iq_samples_fit[of "p2_bytesread pkt" pkt] by (intro p2_sample24_block) auto
  thus ?thesis unfolding process_ps_iq_data_def p2_iq_samples_block
    by (intro if_cong map_cong refl) simp
qed

lemma process_wideband_data_block:
  "process_wideband_data (p2_bytesread pkt) (p2_block g pkt) = process_wideband_data (p2_bytesread pkt) pkt"
proof -
  have "p2_block g pkt ! (k + 2 * i) = pkt ! (k + 2 * i)"
    if "k \<in> {4, 5}" "i < (p2_bytesread pkt - 4) div 2" for i k
    using that by (intro p2_block_nth) auto
  thus ?thesis unfolding process_wideband_data_def by (intro map_cong refl) simp
qed

section \<open>Range\<close>

lemma mid_mask: "push_bit 8 (ucast (b :: byte)) AND 0xFF00 = (push_bit 8 (ucast b) :: 32 word)"
proof (rule bit_word_eqI)
  fix n assume "n < LENGTH(32)"
  have m: "(0xFF00 :: 32 word) = push_bit 8 (mask 8)" by (simp add: mask_eq_exp_minus_1)
  have "bit b k \<Longrightarrow> k < 8" for k using bit_imp_le_length[of b k] by simp
  thus "bit (push_bit 8 (ucast b) AND 0xFF00 :: 32 word) n = bit (push_bit 8 (ucast b) :: 32 word) n"
    unfolding m by (auto simp: bit_simps)
qed

lemma low_mask: "ucast (b :: byte) AND 0xFF = (ucast b :: 32 word)"
proof (rule bit_word_eqI)
  fix n assume "n < LENGTH(32)"
  have m: "(0xFF :: 32 word) = mask 8" by (simp add: mask_eq_exp_minus_1)
  have "bit b k \<Longrightarrow> k < 8" for k using bit_imp_le_length[of b k] by simp
  thus "bit (ucast b AND 0xFF :: 32 word) n = bit (ucast b :: 32 word) n"
    unfolding m by (auto simp: bit_simps)
qed

lemma p2_sample24_word:
  "p2_sample24 b i = sample_double (scast (b ! i) * 65536 OR push_bit 8 (ucast (b ! (i + 1))) OR ucast (b ! (i + 2)))"
  by (simp only: p2_sample24_def mid_mask low_mask)

lemma p2_sample24_range: "\<bar>p2_sample24 b i\<bar> \<le> 8388608 / 8388607"
  unfolding p2_sample24_word by (intro ok24_bound ok24_or ok24_hi ok24_mid ok24_low)

lemma p2_sample24_value:
  assumes "in24 v" "b ! i = word_of_int (v div 65536)" "b ! (i + 1) = word_of_int (v div 256)"
    "b ! (i + 2) = word_of_int v"
  shows "p2_sample24 b i = sample24 v"
  unfolding p2_sample24_word assms(2-4) sample_double_def
  by (simp only: join24[OF assms(1)] sint_word24[OF assms(1)] sample24_def)

lemma wideband_range:
  "\<bar>real_of_int (sint (scast (x :: byte) * 256 OR (ucast (y :: byte) AND 0xFF) :: 32 word)) / 32767\<bar> \<le> 32768 / 32767"
proof -
  have x: "- 128 \<le> sint x" "sint x < 128" using sint_greater_eq[of x] sint_less[of x] by simp_all
  have y: "0 \<le> uint y" "uint y < 256" using uint_lt2p[of y] by simp_all
  have a: "sint (scast x * 256 :: 32 word) = sint x * 256"
  proof -
    have "(scast x * 256 :: 32 word) = word_of_int (sint x * 256)" by simp
    moreover have "sint (word_of_int (sint x * 256) :: 32 word) = sint x * 256"
      unfolding signed_of_int of_int_eq_id id_apply using x by (intro signed_take_bit_int_eq_self) simp_all
    ultimately show ?thesis by (simp only:)
  qed
  have b: "sint (ucast y :: 32 word) = uint y"
  proof -
    have "sint (word_of_int k :: 32 word) = k" if "0 \<le> k" "k < 256" for k
      unfolding signed_of_int of_int_eq_id id_apply using that by (intro signed_take_bit_int_eq_self) simp_all
    from this[OF y] show ?thesis by simp
  qed
  have "sint (scast x * 256 OR ucast y :: 32 word) = sint x * 256 OR uint y"
    by (simp only: signed_or_eq a b)
  moreover have "signed_take_bit 15 (sint x * 256 OR uint y) = sint x * 256 OR uint y"
  proof -
    have k: "signed_take_bit 15 k = k" if "- 32768 \<le> k" "k < 32768" for k :: int
      using that by (intro signed_take_bit_int_eq_self) simp_all
    have "- 32768 \<le> uint y" "uint y < 32768" "- 32768 \<le> sint x * 256" "sint x * 256 < 32768"
      using x y by linarith+
    thus ?thesis unfolding stb_or using k by simp
  qed
  ultimately have "- 32768 \<le> sint (scast x * 256 OR ucast y :: 32 word)"
    "sint (scast x * 256 OR ucast y :: 32 word) < 32768"
    by (simp_all add: signed_take_bit_int_eq_self_iff)
  hence "\<bar>real_of_int (sint (scast x * 256 OR ucast y :: 32 word))\<bar> \<le> 32768" by linarith
  thus ?thesis unfolding low_mask abs_divide by (simp only: divide_right_mono abs_numeral zero_le_numeral)
qed

definition sample_in_range :: "p1_event \<Rightarrow> bool" where
  "sample_in_range e = (case e of
     Iq_samples j x y \<Rightarrow> \<bar>x\<bar> \<le> 8388608 / 8388607 \<and> \<bar>y\<bar> \<le> 8388608 / 8388607
   | Ps_iq_samples a b c d \<Rightarrow> (\<forall>x \<in> {a, b, c, d}. \<bar>x\<bar> \<le> 8388608 / 8388607)
   | Wideband_sample x \<Rightarrow> \<bar>x\<bar> \<le> 32768 / 32767
   | _ \<Rightarrow> True)"

definition p2_sample_port :: "nat \<Rightarrow> bool" where
  "p2_sample_port port \<longleftrightarrow> port = WIDE_BAND_TO_HOST_PORT \<or>
     RX_IQ_TO_HOST_PORT_0 \<le> port \<and> port \<le> RX_IQ_TO_HOST_PORT_7"

text \<open>How many samples fit behind the header: six bytes each behind 16 on an I/Q port, two
each behind four on the wideband port.\<close>

definition samples_fit :: "nat \<Rightarrow> nat \<Rightarrow> nat" where
  "samples_fit port bytes =
     (if port = WIDE_BAND_TO_HOST_PORT then (bytes - 4) div 2 else (bytes - 16) div 6)"

lemma p2_iq_port_block:
  "snd (p2_iq_port ddc (p2_bytesread pkt) (p2_block g pkt) r) = snd (p2_iq_port ddc (p2_bytesread pkt) pkt r)"
  by (auto simp: p2_iq_port_def process_iq_data_block process_div_iq_data_block process_ps_iq_data_block
      split: option.split)

lemma receive_samples_block:
  "p2_sample_port port \<Longrightarrow>
   snd (protocol2_receive port (p2_bytesread pkt) (p2_block g pkt) (r, x)) =
   snd (protocol2_receive port (p2_bytesread pkt) pkt (r, x))"
  using p2_iq_port_block[of "port - RX_IQ_TO_HOST_PORT_0" pkt g r]
  by (auto simp: p2_sample_port_def protocol2_receive_def process_wideband_data_block split_def p2_host_ports)

lemma length_div_events: "length (process_div_iq_data v h bytes b) = 2 * (p2_iq_samples bytes b div 2)"
  by (simp add: process_div_iq_data_def length_concat o_def sum_list_triv)

lemma p2_iq_port_events:
  "length (snd (p2_iq_port ddc bytes b r)) \<le> p2_iq_samples bytes b \<and>
   list_all sample_in_range (snd (p2_iq_port ddc bytes b r))"
  using p2_sample24_range[of b]
  by (auto simp: p2_iq_port_def process_iq_data_def process_ps_iq_data_def length_div_events list_all_iff
      sample_in_range_def split: option.split) (auto simp: process_div_iq_data_def)

lemma receive_samples_events:
  assumes "p2_sample_port port"
  shows "length (snd (protocol2_receive port bytes b (r, x))) \<le> samples_fit port bytes \<and>
    list_all sample_in_range (snd (protocol2_receive port bytes b (r, x)))"
proof (cases "port = WIDE_BAND_TO_HOST_PORT")
  case True
  thus ?thesis using wideband_range
    by (auto simp: protocol2_receive_def p2_host_ports process_wideband_data_def list_all_iff sample_in_range_def
        samples_fit_def)
next
  case False
  have "p2_iq_samples bytes b \<le> samples_fit port bytes" using False by (simp add: p2_iq_samples_def samples_fit_def)
  thus ?thesis using p2_iq_port_events[of "port - RX_IQ_TO_HOST_PORT_0" bytes b r] assms False
    by (auto simp: protocol2_receive_def p2_sample_port_def split_def)
qed

text \<open>C4: Samples come only from the datagram. Whatever the I/Q and wideband ports deliver,
whatever the datagram says about its own length and whatever the allocator left in the block,
the calls made are those of the bytes that arrived; besides the note that data came there are at
most as many as samples fit behind the header of that port (six bytes each behind 16 of an I/Q
datagram, two each behind four of a wideband one), and every sample is within its range.\<close>

theorem p2_samples_are_from_the_datagram:
  assumes "p2_sample_port port"
  shows "snd (protocol2_datagram g port pkt (r, x)) = snd (protocol2_datagram g' port pkt (r, x)) \<and>
    length (snd (protocol2_datagram g port pkt (r, x))) \<le> 1 + samples_fit port (p2_bytesread pkt) \<and>
    list_all sample_in_range (snd (protocol2_datagram g port pkt (r, x)))"
  using receive_samples_block[OF assms, of pkt _ r x] receive_samples_events[OF assms, of "p2_bytesread pkt" pkt r x]
  by (auto simp: protocol2_datagram_def split_def sample_in_range_def)

definition p2_rx0 :: p2_rx where
  "p2_rx0 = \<lparr>pq_response_sequence = 0, pq_response = 0\<rparr>"

text \<open>A datagram that claims 65535 samples and carries none.\<close>

theorem p2_samples_are_from_the_datagram_witness:
  "snd (protocol2_datagram (replicate 2048 7) 1035 (replicate 14 0 @ [255, 255]) (radio0, p2_rx0)) =
   snd (protocol2_datagram (replicate 2048 9) 1035 (replicate 14 0 @ [255, 255]) (radio0, p2_rx0)) \<and>
   length (snd (protocol2_datagram (replicate 2048 7) 1035 (replicate 14 0 @ [255, 255]) (radio0, p2_rx0))) \<le> 1"
  using p2_samples_are_from_the_datagram[of 1035 _ "replicate 14 0 @ [255, 255]" radio0 p2_rx0]
  by (auto simp: p2_sample_port_def p2_host_ports samples_fit_def p2_bytesread_def NET_BUFFER_SIZE_def)

section \<open>Datagrams in the layout of the protocol\<close>

text \<open>Sequence number, time stamp and bits per sample (14 bytes), the number of samples, then
the samples.\<close>

definition p2_iq_packet :: "byte list \<Rightarrow> (int \<times> int) list \<Rightarrow> byte list" where
  "p2_iq_packet hdr iqs = hdr @ enc16 (int (length iqs)) @ concat (map (\<lambda>(l, q). enc24 l @ enc24 q) iqs)"

definition p2_packet_ok :: "byte list \<Rightarrow> (int \<times> int) list \<Rightarrow> bool" where
  "p2_packet_ok hdr iqs \<longleftrightarrow> length hdr = 14 \<and> length iqs \<le> 338 \<and> (\<forall>(l, q) \<in> set iqs. in24 l \<and> in24 q)"

lemma length_p2_iq_packet: "length hdr = 14 \<Longrightarrow> length (p2_iq_packet hdr iqs) = 16 + 6 * length iqs"
  using length_concat_chunks[of iqs "\<lambda>(l, q). enc24 l @ enc24 q" 6]
  by (auto simp: p2_iq_packet_def enc16_def enc24_def split_def)

lemma word16_enc16: "0 \<le> n \<Longrightarrow> n < 65536 \<Longrightarrow> word16 (enc16 n ! 0) (enc16 n ! 1) = n"
  by (simp add: word16_def enc16_def uint_word_of_int mod_pos_pos_trivial)

lemma p2_packet_bytes:
  assumes "p2_packet_ok hdr iqs"
  shows "p2_bytesread (p2_iq_packet hdr iqs) = 16 + 6 * length iqs"
    "p2_iq_samples (p2_bytesread (p2_iq_packet hdr iqs)) (p2_iq_packet hdr iqs) = length iqs"
proof -
  have h: "length hdr = 14" and n: "length iqs \<le> 338" using assms by (auto simp: p2_packet_ok_def)
  show b: "p2_bytesread (p2_iq_packet hdr iqs) = 16 + 6 * length iqs"
    using n by (simp add: p2_bytesread_def NET_BUFFER_SIZE_def length_p2_iq_packet[OF h])
  have "p2_iq_packet hdr iqs ! 14 = enc16 (int (length iqs)) ! 0" "p2_iq_packet hdr iqs ! 15 = enc16 (int (length iqs)) ! 1"
    using h by (simp_all add: p2_iq_packet_def nth_append enc16_def)
  hence "word16 (p2_iq_packet hdr iqs ! 14) (p2_iq_packet hdr iqs ! 15) = int (length iqs)"
    using word16_enc16[of "int (length iqs)"] n by simp
  thus "p2_iq_samples (p2_bytesread (p2_iq_packet hdr iqs)) (p2_iq_packet hdr iqs) = length iqs"
    unfolding b p2_iq_samples_def by (cases "length iqs = 0") auto
qed

lemma p2_packet_sample:
  assumes "p2_packet_ok hdr iqs" "i < length iqs"
  shows "p2_sample24 (p2_iq_packet hdr iqs) (16 + 6 * i) = sample24 (fst (iqs ! i))"
    "p2_sample24 (p2_iq_packet hdr iqs) (19 + 6 * i) = sample24 (snd (iqs ! i))"
proof -
  let ?f = "\<lambda>p. enc24 (fst p) @ enc24 (snd p)"
  have h: "length hdr = 14" using assms by (simp add: p2_packet_ok_def)
  have c: "\<forall>x \<in> set iqs. length (?f x) = 6" by (simp add: enc24_def)
  have at: "p2_iq_packet hdr iqs ! (16 + 6 * i + k) = ?f (iqs ! i) ! k" if "k < 6" for k
  proof -
    have "p2_iq_packet hdr iqs ! (16 + 6 * i + k) = concat (map ?f iqs) ! (6 * i + k)"
      using h by (simp add: p2_iq_packet_def nth_append enc16_def split_def)
    thus ?thesis using nth_concat_chunks[OF c assms(2) that] by simp
  qed
  have r: "in24 (fst (iqs ! i))" "in24 (snd (iqs ! i))"
    using assms nth_mem[OF assms(2)] by (auto simp: p2_packet_ok_def split_def)
  show "p2_sample24 (p2_iq_packet hdr iqs) (16 + 6 * i) = sample24 (fst (iqs ! i))"
    using at[of 0] at[of 1] at[of 2] by (intro p2_sample24_value[OF r(1)]) (simp_all add: enc24_def)
  show "p2_sample24 (p2_iq_packet hdr iqs) (19 + 6 * i) = sample24 (snd (iqs ! i))"
    using at[of 3] at[of 4] at[of 5] by (intro p2_sample24_value[OF r(2)]) (simp_all add: enc24_def)
qed

lemma process_iq_packet:
  assumes "p2_packet_ok hdr iqs"
  shows "process_iq_data j (p2_bytesread (p2_iq_packet hdr iqs)) (p2_iq_packet hdr iqs) =
    map (\<lambda>(l, q). Iq_samples j (sample24 l) (sample24 q)) iqs"
proof -
  have "process_iq_data j (p2_bytesread (p2_iq_packet hdr iqs)) (p2_iq_packet hdr iqs) =
    map (\<lambda>i. case iqs ! i of (l, q) \<Rightarrow> Iq_samples j (sample24 l) (sample24 q)) [0..<length iqs]"
    unfolding process_iq_data_def p2_packet_bytes(2)[OF assms]
    using p2_packet_sample[OF assms] by (intro map_cong) (simp_all add: split_def)
  thus ?thesis by (simp only: map_upt_nth)
qed

text \<open>A synchronised pair: one sample of the base, one of the follower, and so on.\<close>

fun interleave :: "'a list \<Rightarrow> 'a list \<Rightarrow> 'a list" where
  "interleave (x # xs) (y # ys) = x # y # interleave xs ys"
| "interleave _ _ = []"

lemma length_interleave: "length xs = length ys \<Longrightarrow> length (interleave xs ys) = 2 * length xs"
  by (induction xs ys rule: interleave.induct) auto

lemma nth_interleave:
  "length xs = length ys \<Longrightarrow> i < length xs \<Longrightarrow>
   interleave xs ys ! (2 * i) = xs ! i \<and> interleave xs ys ! Suc (2 * i) = ys ! i"
proof (induction xs ys arbitrary: i rule: interleave.induct)
  case (1 x xs y ys)
  thus ?case by (cases i) auto
qed auto

lemma set_interleave: "set (interleave xs ys) \<subseteq> set xs \<union> set ys"
  by (induction xs ys rule: interleave.induct) auto

definition pair_events :: "nat \<Rightarrow> nat \<Rightarrow> int \<times> int \<Rightarrow> int \<times> int \<Rightarrow> p1_event list" where
  "pair_events v h b f = [Iq_samples v (sample24 (fst b)) (sample24 (snd b)),
                          Iq_samples h (sample24 (fst f)) (sample24 (snd f))]"

lemma process_div_packet:
  assumes ok: "p2_packet_ok hdr (interleave base follower)" and len: "length base = length follower"
  defines "pkt \<equiv> p2_iq_packet hdr (interleave base follower)"
  shows "process_div_iq_data v h (p2_bytesread pkt) pkt = concat (map2 (pair_events v h) base follower)"
proof -
  have n: "p2_iq_samples (p2_bytesread pkt) pkt div 2 = length base"
    using p2_packet_bytes(2)[OF ok] length_interleave[OF len] by (simp add: pkt_def)
  have s: "p2_sample24 pkt (16 + 12 * i) = sample24 (fst (base ! i))"
    "p2_sample24 pkt (19 + 12 * i) = sample24 (snd (base ! i))"
    "p2_sample24 pkt (22 + 12 * i) = sample24 (fst (follower ! i))"
    "p2_sample24 pkt (25 + 12 * i) = sample24 (snd (follower ! i))" if "i < length base" for i
  proof -
    have "2 * i < length (interleave base follower)" "Suc (2 * i) < length (interleave base follower)"
      using that len by (auto simp: length_interleave)
    from p2_packet_sample[OF ok this(1)] p2_packet_sample[OF ok this(2)] nth_interleave[OF len that]
    show "p2_sample24 pkt (16 + 12 * i) = sample24 (fst (base ! i))"
      "p2_sample24 pkt (19 + 12 * i) = sample24 (snd (base ! i))"
      "p2_sample24 pkt (22 + 12 * i) = sample24 (fst (follower ! i))"
      "p2_sample24 pkt (25 + 12 * i) = sample24 (snd (follower ! i))"
      by (simp_all add: pkt_def)
  qed
  have "process_div_iq_data v h (p2_bytesread pkt) pkt =
      concat (map (\<lambda>i. pair_events v h (base ! i) (follower ! i)) [0..<length base])"
    unfolding process_div_iq_data_def n by (intro arg_cong[where f = concat] map_cong) (simp_all add: s pair_events_def)
  also have "map (\<lambda>i. pair_events v h (base ! i) (follower ! i)) [0..<length base] =
      map2 (pair_events v h) base follower"
    using len by (intro nth_equalityI) simp_all
  finally show ?thesis .
qed

definition of_receiver :: "nat \<Rightarrow> p1_event \<Rightarrow> bool" where
  "of_receiver j e = (case e of Iq_samples k x y \<Rightarrow> k = j | _ \<Rightarrow> False)"

lemma of_receiver_simps [simp]:
  "of_receiver j (Iq_samples k x y) = (k = j)" "\<not> of_receiver j Note_data" "\<not> of_receiver j Ptt_changed"
  "\<not> of_receiver j (Mic_sample z)" "\<not> of_receiver j (Full_tx_buffer b)"
  by (simp_all add: of_receiver_def)

lemma datagram_iq_port:
  assumes "no_ps r" "j < d_supported_receivers (r_discovered r)" "j \<le> 7" "r_receiver r ! j = Some rx"
  shows "snd (protocol2_datagram g (RX_IQ_TO_HOST_PORT_0 + j) pkt (r, x)) = Note_data #
    (case p2_pair r j rx of Some h \<Rightarrow> process_div_iq_data j h (p2_bytesread pkt) pkt
     | None \<Rightarrow> process_iq_data j (p2_bytesread pkt) pkt)"
  using assms
  by (auto simp: protocol2_datagram_def protocol2_receive_def p2_iq_port_def p2_host_ports no_ps_def
      process_iq_data_block process_div_iq_data_block split: option.split)

text \<open>A diversity pair stays coherent. From a datagram of the base receiver's port that
carries both streams sample by sample, every sample of the base goes to the visible receiver and
the sample taken at the same moment goes to the hidden one right after it, in order and scaled to
full scale.\<close>

theorem diversity_pair_stays_coherent:
  assumes "no_ps r" "0 < d_supported_receivers (r_discovered r)" "r_receiver r ! 0 = Some rx"
    and "p2_pair r 0 rx = Some h"
    and "length base = length follower" "p2_packet_ok hdr (interleave base follower)"
  shows "snd (protocol2_datagram g RX_IQ_TO_HOST_PORT_0 (p2_iq_packet hdr (interleave base follower)) (r, x)) =
    Note_data # concat (map2 (pair_events 0 h) base follower)"
  using datagram_iq_port[OF assms(1,2) _ assms(3), of g "p2_iq_packet hdr (interleave base follower)" x]
    process_div_packet[OF assms(6,5)] assms(4) by simp

definition diversity_radio :: radio where
  "diversity_radio = radio0\<lparr>r_receiver := [Some (receiver0\<lparr>rx_dmix_id := 0\<rparr>),
       Some (receiver0\<lparr>rx_channel := 1, rx_adc := 1, rx_dmix_id := 0\<rparr>), None, None, None, None, None, None],
     r_receivers := 2, r_divmixer := [Some \<lparr>dm_rx_visual = Some 0, dm_rx_hidden = Some 1\<rparr>, None, None]\<rparr>"

theorem diversity_pair_stays_coherent_witness:
  "snd (protocol2_datagram (replicate 2048 7) RX_IQ_TO_HOST_PORT_0
      (p2_iq_packet (replicate 14 0) (interleave [(1, 2), (3, 4)] [(- 1, - 2), (- 3, - 4)])) (diversity_radio, p2_rx0)) =
    Note_data # concat (map2 (pair_events 0 1) [(1, 2), (3, 4)] [(- 1, - 2), (- 3, - 4)])"
  by (rule diversity_pair_stays_coherent[where rx = "receiver0\<lparr>rx_dmix_id := 0\<rparr>"])
     (simp_all add: diversity_radio_def p2_pair_def p2_packet_ok_def in24_def no_ps_def radio0_def
        isTransmitting_def discovered0_def)

section \<open>The two protocols\<close>

lemma control_bytes_no_iq: "filter (of_receiver j) (snd (process_control_bytes ci r)) = []"
  using process_control_bytes_events[of ci r]
  by (auto simp: filter_empty_conv)

lemma group_column:
  assumes "k < length (live_slots r)" "group_ok r g"
  shows "filter (of_receiver (live_slots r ! k)) (group_events r kept g) =
    [Iq_samples (live_slots r ! k) (sample24 (fst (fst g ! k))) (sample24 (snd (fst g ! k)))]"
proof -
  have d: "distinct (live_slots r)" by (simp add: live_slots_def)
  have l: "length (fst g) = length (live_slots r)" using assms(2) by (simp add: group_ok_def)
  have "filter (of_receiver (js ! k)) (map (\<lambda>(j, l, q). Iq_samples j (sample24 l) (sample24 q)) (zip js ps)) =
      [Iq_samples (js ! k) (sample24 (fst (ps ! k))) (sample24 (snd (ps ! k)))]"
    if "distinct js" "length ps = length js" "k < length js" for js ps k
    using that
  proof (induction js arbitrary: ps k)
    case (Cons j js)
    obtain p ps' where p: "ps = p # ps'" using Cons.prems(2) by (cases ps) auto
    show ?case
    proof (cases k)
      case 0
      have "filter (of_receiver j) (map (\<lambda>(j, l, q). Iq_samples j (sample24 l) (sample24 q)) (zip js ps')) = []"
        using Cons.prems(1) by (auto simp: filter_empty_conv dest: set_zip_leftD)
      thus ?thesis using 0 p by (simp add: split_def)
    next
      case (Suc m)
      have "j \<noteq> js ! m" using Cons.prems(1,3) Suc by auto
      thus ?thesis using Cons.IH[of ps' m] Cons.prems Suc p by (simp add: split_def)
    qed
  qed simp
  from this[OF d l assms(1)] show ?thesis
    by (auto simp: group_events_def)
qed

lemma frame_column:
  assumes "k < length (live_slots r)" "\<forall>g \<in> set gs. group_ok r g"
  shows "filter (of_receiver (live_slots r ! k)) (frame_events r s i gs) =
    map (\<lambda>g. Iq_samples (live_slots r ! k) (sample24 (fst (fst g ! k))) (sample24 (snd (fst g ! k)))) gs"
  using assms(2) by (induction gs arbitrary: i) (simp_all add: group_column[OF assms(1)])

text \<open>C3: Both protocols deliver the same samples, as long as no PureSignal transmission is on
and the receiver is not the visible half of a diversity pair (both divert the samples). The samples
of one receiver, in one of the eight slots with a port of its own, in a protocol 1 frame of the
radio's layout, taken out of the interleaved groups, give exactly the calls that a protocol 2
datagram carrying the same codes to that receiver gives: same receiver, same order, same scale. The
protocol 1 machine is synchronised, its microphone count lies below a positive divisor, and the
count of receivers agrees with the slots.\<close>

theorem protocols_deliver_the_same_samples:
  assumes wf: "rx_wf r" and ci: "length ci = 5"
    and ps: "no_ps r" "no_ps (fst (process_control_bytes ci r))"
    and s: "pr_state s = SYNC_0" "length (pr_control_in s) = 5"
      "0 \<le> pr_mic_samples s" "pr_mic_samples s < pr_mic_sample_divisor s"
    and gs: "int (length gs) = (512 - 8) div (r_receivers r * 6 + 2)" "gs \<noteq> []" "\<forall>g \<in> set gs. group_ok r g"
    and pad: "SYNC \<notin> set pad" "length (enc_frame ci gs pad) = 512"
    and k: "k < length (live_slots r)" "live_slots r ! k \<le> 7"
    and solo: "\<And>rx. r_receiver r ! (live_slots r ! k) = Some rx \<Longrightarrow> p2_pair r (live_slots r ! k) rx = None"
    and hdr: "length hdr = 14"
  shows "filter (of_receiver (live_slots r ! k)) (snd (process_ozy_input_buffer (enc_frame ci gs pad) (r, s))) =
    filter (of_receiver (live_slots r ! k)) (snd (protocol2_datagram garbage (RX_IQ_TO_HOST_PORT_0 + live_slots r ! k)
       (p2_iq_packet hdr (map (\<lambda>g. fst g ! k) gs)) (r, x)))"
proof -
  let ?j = "live_slots r ! k" and ?iqs = "map (\<lambda>g. fst g ! k) gs"
  obtain rx where rx: "r_receiver r ! ?j = Some rx" "?j < d_supported_receivers (r_discovered r)"
    using live_slots_nth[OF k(1)] by auto
  have "r_receivers r > 0" using wf by (simp add: rx_wf_def)
  hence "(512 - 8) div (r_receivers r * 6 + 2) \<le> (512 - 8) div 1" by (intro zdiv_mono2) simp_all
  hence "length gs \<le> 504" using gs(1) by simp
  moreover have "(512 - 8) div (r_receivers r * 6 + 2) \<le> (512 - 8) div (8 :: int)"
    using \<open>r_receivers r > 0\<close> by (intro zdiv_mono2) simp_all
  ultimately have n: "length gs \<le> 338" using gs(1) by simp
  have "in24 (fst (fst g ! k)) \<and> in24 (snd (fst g ! k))" if "g \<in> set gs" for g
    using gs(3) that k(1) nth_mem[of k "fst g"] by (auto simp: group_ok_def split_def)
  hence ok: "p2_packet_ok hdr ?iqs" using hdr n unfolding p2_packet_ok_def split_def by auto
  obtain t where t: "process_ozy_input_buffer (enc_frame ci gs pad) (r, s) =
      ((fst (process_control_bytes ci r), t), snd (process_control_bytes ci r) @ frame_events r s 0 gs)"
    using process_frame[OF wf ci ps(2) s gs pad(1)] wf pad(2)
    by (auto simp: process_ozy_input_buffer_def rx_wf_def)
  have "snd (protocol2_datagram garbage (RX_IQ_TO_HOST_PORT_0 + ?j) (p2_iq_packet hdr ?iqs) (r, x)) =
      Note_data # map (\<lambda>(l, q). Iq_samples ?j (sample24 l) (sample24 q)) ?iqs"
    using datagram_iq_port[OF ps(1) rx(2) k(2) rx(1)] solo[OF rx(1)] process_iq_packet[OF ok] by simp
  moreover have "filter (of_receiver ?j) (map (\<lambda>(l, q). Iq_samples ?j (sample24 l) (sample24 q)) ?iqs) =
      map (\<lambda>(l, q). Iq_samples ?j (sample24 l) (sample24 q)) ?iqs"
    by (auto simp: filter_id_conv split_def)
  ultimately show ?thesis
    using frame_column[OF k(1) gs(3), of s 0]
    by (simp add: t control_bytes_no_iq o_def split_def)
qed

theorem protocols_deliver_the_same_samples_witness:
  "filter (of_receiver 0) (snd (process_ozy_input_buffer
      (enc_frame [0xF8, 0, 0, 0, 0] (replicate 63 ([(1, - 1)], 5)) []) (radio0, p1_rx0))) =
   filter (of_receiver 0) (snd (protocol2_datagram (replicate 2048 7) (RX_IQ_TO_HOST_PORT_0 + 0)
       (p2_iq_packet (replicate 14 0) (map (\<lambda>g. fst g ! 0) (replicate 63 ([(1, - 1)], 5 :: int)))) (radio0, p2_rx0)))"
proof -
  have ps: "no_ps radio0" "no_ps (fst (process_control_bytes [0xF8, 0, 0, 0, 0] radio0))"
    using process_control_bytes_frame[of "[0xF8, 0, 0, 0, 0]" radio0]
    by (simp_all add: no_ps_def radio0_def transmitter0_def)
  have len: "length (enc_frame [0xF8, 0, 0, 0, 0] (replicate 63 ([(1, - 1)], 5)) []) = 512"
    by (simp add: enc_frame_def enc_group_def enc24_def enc16_def length_concat map_replicate sum_list_replicate)
  have ok: "group_ok radio0 ([(1, - 1)], 5)"
    by (simp add: group_ok_def radio0_rx in24_def in16_def)
  have solo: "p2_pair radio0 0 rx = None" if "r_receiver radio0 ! 0 = Some rx" for rx
    using that by (auto simp: p2_pair_def radio0_def receiver0_def)
  have l: "live_slots radio0 ! 0 = 0" "0 < length (live_slots radio0)" by (simp_all add: radio0_rx)
  have "int (length (replicate 63 ([(1 :: int, - 1 :: int)], 5 :: int))) = (512 - 8) div (r_receivers radio0 * 6 + 2)"
    by (simp add: radio0_def)
  thus ?thesis
    using protocols_deliver_the_same_samples[of radio0 "[0xF8, 0, 0, 0, 0]" p1_rx0 "replicate 63 ([(1, - 1)], 5)" "[]" 0
        "replicate 14 0" "replicate 2048 7" p2_rx0, unfolded l(1)] ps len ok radio0_rx l(2) solo
    by (simp add: p1_rx0_def)
qed

section \<open>Status and microphone\<close>

lemma mode_cong:
  "r_receiver r' = r_receiver r \<Longrightarrow> tx_rx (r_transmitter r') = tx_rx (r_transmitter r) \<Longrightarrow>
   transmitter_get_mode r' = transmitter_get_mode r"
  by (simp add: transmitter_get_mode_def tx_receiver_def split: option.split)

lemma p2_status_mode [simp]: "transmitter_get_mode (p2_status b r) = transmitter_get_mode r"
  by (rule mode_cong) (simp_all add: p2_status_def)

lemma local_ptt_mode [simp]: "transmitter_get_mode (r\<lparr>r_local_ptt := y\<rparr>) = transmitter_get_mode r"
  by (rule mode_cong) simp_all

text \<open>Outside CW the key line of the radio is followed exactly: a change of the line is
reported once, an unchanged line is not.\<close>

lemma ptt_line_reported:
  assumes "transmitter_get_mode r \<noteq> CWL" "transmitter_get_mode r \<noteq> CWU"
  shows "snd (process_high_priority b r) = (if bit (b ! 4) 0 \<noteq> r_ptt r then [Ptt_changed] else []) \<and>
    r_local_ptt (fst (process_high_priority b r)) = bit (b ! 4) 0"
  using assms by (simp add: process_high_priority_def Let_def) (auto simp: p2_status_def)

text \<open>In CW a paddle pressed at the radio keys the transmitter, and letting go of it is never
reported: \<open>local_ptt\<close> falls, but the last \<open>ptt\<close> it is compared with was low all
the time.\<close>

lemma key_release_is_lost:
  assumes "transmitter_get_mode r \<in> {CWL, CWU}" "\<not> r_ptt r" "\<not> r_local_ptt r"
    and "\<not> bit (b ! 4) 0" "bit (b ! 4) 1" "b' ! 4 = 0"
  shows "case process_high_priority b r of (r1, evs) \<Rightarrow> evs = [Ptt_changed] \<and> r_local_ptt r1 \<and>
    (case process_high_priority b' r1 of (r2, evs2) \<Rightarrow> evs2 = [] \<and> \<not> r_local_ptt r2)"
  using assms by (auto simp: process_high_priority_def Let_def) (auto simp: p2_status_def)

text \<open>The status and microphone ports do not look at the length of the datagram: an empty one
is read out of what the allocator left in the block, and can key the transmitter.\<close>

lemma empty_status_is_garbage:
  assumes "transmitter_get_mode r \<notin> {CWL, CWU}" "\<not> r_ptt r"
  shows "snd (protocol2_datagram (replicate 2048 0) HIGH_PRIORITY_TO_HOST_PORT [] (r, x)) = [Note_data]"
    "snd (protocol2_datagram (replicate 2048 1) HIGH_PRIORITY_TO_HOST_PORT [] (r, x)) = [Note_data, Ptt_changed]"
proof -
  have "snd (protocol2_datagram g HIGH_PRIORITY_TO_HOST_PORT [] (r, x)) =
      Note_data # (if bit (g ! 4) 0 then [Ptt_changed] else [])" for g
    using ptt_line_reported[of r g] assms
    by (auto simp: protocol2_datagram_def protocol2_receive_def p2_host_ports p2_block_def p2_bytesread_def split_def)
  thus "snd (protocol2_datagram (replicate 2048 0) HIGH_PRIORITY_TO_HOST_PORT [] (r, x)) = [Note_data]"
    "snd (protocol2_datagram (replicate 2048 1) HIGH_PRIORITY_TO_HOST_PORT [] (r, x)) = [Note_data, Ptt_changed]"
    by simp_all
qed

text \<open>The microphone at the radio feeds the transmitter also when the operator has chosen the
microphone of the computer; protocol 1 looks at the choice.\<close>

lemma radio_microphone_not_silenced:
  "r_local_microphone r \<Longrightarrow>
   length (filter (\<lambda>e. case e of Mic_sample y \<Rightarrow> True | _ \<Rightarrow> False)
     (snd (protocol2_datagram g MIC_LINE_TO_HOST_PORT pkt (r, x)))) = 64"
  by (simp add: protocol2_datagram_def protocol2_receive_def p2_host_ports process_mic_data_def MIC_SAMPLES_def o_def)

end
