(* ===== verification/P2_Registers.thy ===== *)
theory P2_Registers
  imports P2_Samples P1_Commands
begin

text \<open>What the sending half of protocol 2 guarantees: the high priority block carries the
frequencies, the receive specific block enables the DDCs that are listened to, the sample streams
are packed without loss, and every store stays inside its buffer. The last section shows where the
blocks say something other than the radio's state.\<close>

section \<open>Phase words\<close>

definition from_be32 :: "byte list \<Rightarrow> int" where
  "from_be32 bs = uint (bs ! 0) * 2 ^ 24 + uint (bs ! 1) * 2 ^ 16 + uint (bs ! 2) * 2 ^ 8 + uint (bs ! 3)"

lemma from_be32: "0 \<le> n \<Longrightarrow> n < 2 ^ 32 \<Longrightarrow> from_be32 (be32 n) = n"
  using freq_bytes_value[of n] by (simp add: from_be32_def be32_def freq_bytes_def)

lemma length_be32 [simp]: "length (be32 n) = 4" by (simp add: be32_def)

lemma p2_phase_nonneg: "0 \<le> f \<Longrightarrow> p2_phase f = 65536 * f div 1875"
proof -
  assume f: "0 \<le> f"
  have "p2_phase f = 4294967296 * f div 122880000"
    using f by (simp add: p2_phase_def signed_divide_int_def sgn_if)
  also have "\<dots> = (65536 * (65536 * f)) div (65536 * 1875)" by simp
  also have "\<dots> = 65536 * f div 1875" by (subst div_mult_mult1) simp_all
  finally show ?thesis .
qed

text \<open>The frequency a radio makes of a phase word, to the next hertz above.\<close>

definition phase_frequency :: "int \<Rightarrow> int" where
  "phase_frequency n = (122880000 * n + 4294967295) div 4294967296"

lemma phase_frequency_phase:
  assumes "0 \<le> f" shows "phase_frequency (p2_phase f) = f"
proof -
  have ceil: "(122880000 * q + 4294967295) div 4294967296 = f"
    if "1875 * q \<le> 65536 * f" "65536 * f < 1875 * q + 1875" for q
  proof -
    have "122880000 * q + 4294967295 = 4294967296 * f + (122880000 * q + 4294967295 - 4294967296 * f)" by simp
    moreover have "0 \<le> 122880000 * q + 4294967295 - 4294967296 * f"
      "122880000 * q + 4294967295 - 4294967296 * f < 4294967296" using that by linarith+
    ultimately show ?thesis by (rule int_div_pos_eq)
  qed
  show ?thesis unfolding phase_frequency_def p2_phase_nonneg[OF assms] by (rule ceil) simp_all
qed

lemma p2_phase_range: "0 \<le> f \<Longrightarrow> f < 122880000 \<Longrightarrow> 0 \<le> p2_phase f \<and> p2_phase f < 2 ^ 32"
proof -
  assume f: "0 \<le> f" "f < 122880000"
  have "65536 * f div 1875 \<le> 65536 * 122879999 div 1875" using f by (intro zdiv_mono1) simp_all
  thus ?thesis using f by (simp add: p2_phase_nonneg pos_imp_zdiv_nonneg_iff)
qed

section \<open>Bytes of a register block\<close>

lemma put_bytes_nth:
  "off + length bs \<le> length buf \<Longrightarrow> i < length buf \<Longrightarrow>
   put_bytes off bs buf ! i = (if off \<le> i \<and> i < off + length bs then bs ! (i - off) else buf ! i)"
  by (auto simp: put_bytes_def nth_append min_def)

text \<open>Two blocks have the same word at a place.\<close>

lemma from_be32_at:
  assumes "\<And>k. k < 4 \<Longrightarrow> buf ! (i + k) = bs ! k" "i + 4 \<le> length buf"
  shows "from_be32 (drop i buf) = from_be32 bs"
  using assms(1)[of 0] assms(1)[of 1] assms(1)[of 2] assms(1)[of 3] assms(2) by (simp add: from_be32_def)

lemma from_be32_cong:
  assumes "\<And>k. k < 4 \<Longrightarrow> buf ! (i + k) = buf' ! (i + k)" "i + 4 \<le> length buf" "length buf' = length buf"
  shows "from_be32 (drop i buf) = from_be32 (drop i buf')"
  using assms(1)[of 0] assms(1)[of 1] assms(1)[of 2] assms(1)[of 3] assms(2,3) by (simp add: from_be32_def)

lemma from_be32_put:
  "i + 4 \<le> length buf \<Longrightarrow> 0 \<le> n \<Longrightarrow> n < 2 ^ 32 \<Longrightarrow> from_be32 (drop i (put_bytes i (be32 n) buf)) = n"
  by (subst from_be32_at[where bs = "be32 n"]) (simp_all add: put_bytes_nth from_be32)

lemma from_be32_put_other:
  "off + length bs \<le> length buf \<Longrightarrow> i + 4 \<le> length buf \<Longrightarrow> i + 4 \<le> off \<or> off + length bs \<le> i \<Longrightarrow>
   from_be32 (drop i (put_bytes off bs buf)) = from_be32 (drop i buf)"
  by (rule from_be32_cong) (auto simp: put_bytes_nth)

lemma from_be32_update_other:
  "i + 4 \<le> length buf \<Longrightarrow> k < i \<or> i + 4 \<le> k \<Longrightarrow> from_be32 (drop i (buf[k := v])) = from_be32 (drop i buf)"
  by (rule from_be32_cong) auto

section \<open>The high priority block\<close>

text \<open>The receivers are on different DDCs, of which there are eight.\<close>

definition ddc_wf :: "radio \<Rightarrow> bool" where
  "ddc_wf r \<longleftrightarrow> distinct (map rx_channel (p2_receivers r)) \<and> (\<forall>rx \<in> set (p2_receivers r). 0 \<le> rx_channel rx \<and> rx_channel rx < 8)"

lemma length_hp_receivers:
  "\<forall>rx \<in> set rxs. 0 \<le> rx_channel rx \<and> rx_channel rx < 8 \<Longrightarrow> length buf = 1444 \<Longrightarrow>
   length (fold (hp_receiver r) rxs buf) = 1444"
  by (induction rxs arbitrary: buf) (auto simp: hp_receiver_def)

lemma hp_receivers_other:
  "\<forall>rx \<in> set rxs. 0 \<le> rx_channel rx \<and> rx_channel rx < 8 \<and> (i < 9 + nat (rx_channel rx) * 4 \<or> 13 + nat (rx_channel rx) * 4 \<le> i) \<Longrightarrow>
   length buf = 1444 \<Longrightarrow> i < 1444 \<Longrightarrow> fold (hp_receiver r) rxs buf ! i = buf ! i"
proof (induction rxs arbitrary: buf)
  case (Cons x rxs)
  have "length (hp_receiver r x buf) = 1444" "hp_receiver r x buf ! i = buf ! i"
    using Cons.prems by (auto simp: hp_receiver_def put_bytes_nth)
  thus ?case using Cons by simp
qed simp

lemma hp_receivers_word:
  assumes "distinct (map rx_channel rxs)" "\<forall>rx \<in> set rxs. 0 \<le> rx_channel rx \<and> rx_channel rx < 8"
    and "rx \<in> set rxs" "length buf = 1444" "0 \<le> p2_rx_frequency r rx" "p2_rx_frequency r rx < 122880000"
  shows "from_be32 (drop (9 + 4 * nat (rx_channel rx)) (fold (hp_receiver r) rxs buf)) = p2_phase (p2_rx_frequency r rx)"
  using assms(1-4)
proof (induction rxs arbitrary: buf)
  case (Cons x rxs)
  let ?b = "hp_receiver r x buf"
  have l: "length ?b = 1444" using Cons.prems by (auto simp: hp_receiver_def)
  have c: "0 \<le> rx_channel rx" "rx_channel rx < 8" using Cons.prems by auto
  show ?case
  proof (cases "rx \<in> set rxs")
    case True
    thus ?thesis using Cons.IH[of ?b] Cons.prems l by simp
  next
    case False
    hence x: "x = rx" using Cons.prems(3) by simp
    have "rx_channel y \<noteq> rx_channel rx" if "y \<in> set rxs" for y
      using Cons.prems(1) that x by (metis distinct.simps(2) image_eqI list.set_map list.simps(9))
    hence o: "\<forall>y \<in> set rxs. nat (rx_channel y) \<noteq> nat (rx_channel rx)"
      using Cons.prems(2) c by (auto simp: eq_nat_nat_iff)
    have "fold (hp_receiver r) rxs ?b ! (9 + 4 * nat (rx_channel rx) + k) = ?b ! (9 + 4 * nat (rx_channel rx) + k)"
      if k: "k < 4" for k
    proof (rule hp_receivers_other[OF _ l])
      have "9 + 4 * m + k < 9 + n * 4 \<or> 13 + n * 4 \<le> 9 + 4 * m + k" if "n \<noteq> m" for n m :: nat
        using that k by presburger
      thus "\<forall>y \<in> set rxs. 0 \<le> rx_channel y \<and> rx_channel y < 8 \<and>
          (9 + 4 * nat (rx_channel rx) + k < 9 + nat (rx_channel y) * 4 \<or>
           13 + nat (rx_channel y) * 4 \<le> 9 + 4 * nat (rx_channel rx) + k)"
        using o Cons.prems(2) by auto
    qed (use k c in auto)
    hence "from_be32 (drop (9 + 4 * nat (rx_channel rx)) (fold (hp_receiver r) rxs ?b)) =
        from_be32 (drop (9 + 4 * nat (rx_channel rx)) ?b)"
      using length_hp_receivers[of rxs ?b r] Cons.prems(2) l c by (intro from_be32_cong) auto
    also have "\<dots> = p2_phase (p2_rx_frequency r rx)"
      using p2_phase_range[OF assms(5,6)] c Cons.prems(4)
      by (simp add: x hp_receiver_def from_be32_put mult.commute)
    finally show ?thesis by simp
  qed
qed simp

lemma length_hp_front: "ddc_wf r \<Longrightarrow> length (hp_front run r sq ph) = 1444"
  by (simp add: hp_front_def Let_def length_hp_receivers ddc_wf_def)

definition ps_active :: "radio \<Rightarrow> bool" where
  "ps_active r \<longleftrightarrow> isTransmitting r \<and> tx_puresignal (r_transmitter r)"

lemma hp_front_receiver:
  assumes "ddc_wf r" "rx \<in> set (p2_receivers r)" "0 \<le> p2_rx_frequency r rx" "p2_rx_frequency r rx < 122880000"
    and "ps_active r \<Longrightarrow> 2 \<le> rx_channel rx"
  shows "from_be32 (drop (9 + 4 * nat (rx_channel rx)) (hp_front run r sq ph)) = p2_phase (p2_rx_frequency r rx)"
proof -
  let ?b = "(put_bytes 0 (be32 sq) (replicate 1444 0))[4 := hp_run run r]"
  have c: "0 \<le> rx_channel rx" "rx_channel rx < 8" using assms(1,2) by (auto simp: ddc_wf_def)
  have l: "length (fold (hp_receiver r) (p2_receivers r) ?b) = 1444"
    using assms(1) by (simp add: length_hp_receivers ddc_wf_def)
  have w: "from_be32 (drop (9 + 4 * nat (rx_channel rx)) (fold (hp_receiver r) (p2_receivers r) ?b)) =
      p2_phase (p2_rx_frequency r rx)"
    using assms by (intro hp_receivers_word) (simp_all add: ddc_wf_def)
  have m: "nat (rx_channel rx) < 8" using c by simp
  have ps: "2 \<le> nat (rx_channel rx)" if "isTransmitting r" "tx_puresignal (r_transmitter r)"
    using assms(5) that by (simp add: ps_active_def)
  show ?thesis
    using w l m ps by (auto simp: hp_front_def Let_def from_be32_update_other from_be32_put_other)
qed

lemma hp_front_tx:
  assumes "ddc_wf r" "0 \<le> ph" "ph < 2 ^ 32"
  shows "from_be32 (drop 329 (hp_front run r sq ph)) = ph"
proof -
  let ?b = "(put_bytes 0 (be32 sq) (replicate 1444 0))[4 := hp_run run r]"
  have "length (fold (hp_receiver r) (p2_receivers r) ?b) = 1444"
    using assms(1) by (simp add: length_hp_receivers ddc_wf_def)
  thus ?thesis using assms(2,3)
    by (auto simp: hp_front_def Let_def from_be32_update_other from_be32_put)
qed

lemma hp_front_bytes:
  assumes "ddc_wf r"
  shows "hp_front run r sq ph ! 4 = hp_run run r" "hp_front run r sq ph ! 345 = word_of_int (p2_level r)"
    "0 \<le> sq \<Longrightarrow> sq < 2 ^ 32 \<Longrightarrow> from_be32 (drop 0 (hp_front run r sq ph)) = sq"
proof -
  let ?b = "(put_bytes 0 (be32 sq) (replicate 1444 0))[4 := hp_run run r]"
  let ?f = "fold (hp_receiver r) (p2_receivers r) ?b"
  have l: "length ?f = 1444" using assms(1) by (simp add: length_hp_receivers ddc_wf_def)
  have o: "?f ! i = ?b ! i" if "i < 9" for i
    using assms(1) that by (intro hp_receivers_other) (auto simp: ddc_wf_def)
  show "hp_front run r sq ph ! 4 = hp_run run r"
    using l o[of 4] by (auto simp: hp_front_def Let_def put_bytes_nth)
  show "hp_front run r sq ph ! 345 = word_of_int (p2_level r)"
    using l by (auto simp: hp_front_def Let_def)
  assume s: "0 \<le> sq" "sq < 2 ^ 32"
  have "from_be32 (drop 0 ?f) = from_be32 (drop 0 ?b)" using o l by (intro from_be32_cong) auto
  also have "\<dots> = sq" using from_be32_put[of 0 "replicate 1444 0" sq] s by (subst from_be32_update_other) simp_all
  finally have f: "from_be32 (drop 0 ?f) = sq" .
  have "from_be32 (drop 0 (hp_front run r sq ph)) = from_be32 (drop 0 ?f)"
    using l by (intro from_be32_cong) (auto simp: hp_front_def Let_def put_bytes_nth)
  thus "from_be32 (drop 0 (hp_front run r sq ph)) = sq" using f by simp
qed

lemma hp_run_bits:
  "bit (hp_run run r) 0 = run"
  "bit (hp_run run r) 1 = (if p2_mode r \<in> {CWL, CWU} then r_tune r else isTransmitting r)"
  by (auto simp: hp_run_def Let_def or_if_def bit_simps)

text \<open>The drive level always fits its byte.\<close>

lemma p2_level_byte: "0 \<le> p2_level r" "p2_level r \<le> 255"
proof -
  have "0 \<le> pa_level p gbb \<and> pa_level p gbb \<le> 255" for p gbb
    using drive_level_bounds[of p p gbb] by (cases "0 \<le> p") (simp_all add: pa_level_def)
  thus "0 \<le> p2_level r" "p2_level r \<le> 255" by (simp_all add: p2_level_def Let_def)
qed

lemma uint_p2_level: "uint (word_of_int (p2_level r) :: byte) = p2_level r"
  using p2_level_byte[of r] by (simp add: uint_word_of_int)

lemma hp_filters_front:
  assumes "length buf = 1444"
  shows "length (hp_filters r rx rx0 buf) = 1444" "i < 1401 \<Longrightarrow> hp_filters r rx rx0 buf ! i = buf ! i"
    "i + 4 \<le> 1401 \<Longrightarrow> from_be32 (drop i (hp_filters r rx rx0 buf)) = from_be32 (drop i buf)"
proof -
  show l: "length (hp_filters r rx rx0 buf) = 1444" using assms by (simp add: hp_filters_def Let_def)
  show o: "hp_filters r rx rx0 buf ! i = buf ! i" if "i < 1401" for i
    using assms that by (auto simp: hp_filters_def Let_def put_bytes_nth)
  show "i + 4 \<le> 1401 \<Longrightarrow> from_be32 (drop i (hp_filters r rx rx0 buf)) = from_be32 (drop i buf)"
    using o assms l by (intro from_be32_cong) auto
qed


definition p2_tx0 :: p2_tx where
  "p2_tx0 = \<lparr>p2_socket = True, p2_running = True, p2_general_sequence = 0, p2_high_priority_sequence = 0,
     p2_rx_specific_sequence = 0, p2_tx_specific_sequence = 0, p2_tx_iq_sequence = 0,
     p2_iqbuffer = replicate 1444 0, p2_iqindex = 4, p2_audiosequence = 0, p2_audiobuffer = replicate 260 0,
     p2_audioindex = 4, p2_sent = []\<rparr>"

lemma radio0_p2: "p2_receivers radio0 = [receiver0]" "ddc_wf radio0" "tx_receiver radio0 = Some receiver0"
  "p2_tx_frequency radio0 receiver0 = 14100000" "p2_rx_frequency radio0 receiver0 = 14100000"
  "isTransmitting radio0 = False"
proof -
  show p: "p2_receivers radio0 = [receiver0]"
    by (simp add: p2_receivers_def radio0_def discovered0_def numeral_eq_Suc List.map_filter_def)
  show "ddc_wf radio0" by (simp add: ddc_wf_def p receiver0_def)
  show t: "tx_receiver radio0 = Some receiver0" by (rule radio0_tx(1))
  show "p2_tx_frequency radio0 receiver0 = 14100000"
    by (simp add: p2_tx_frequency_def transmitter_get_frequency_def t Let_def)
       (simp add: receiver0_def radio0_def transmitter0_def mode_defs)
  show "p2_rx_frequency radio0 receiver0 = 14100000"
    by (simp add: p2_rx_frequency_def receiver0_def Let_def) (simp add: radio0_def)
  show "isTransmitting radio0 = False" by (simp add: isTransmitting_def radio0_def)
qed


section \<open>The receive specific block\<close>

lemma or_at_nth: "i < length buf \<Longrightarrow> or_at k m buf ! i = (if i = k then buf ! i OR m else buf ! i)"
  by (auto simp: or_at_def)

lemma clear_at_nth: "i < length buf \<Longrightarrow> clear_at k m buf ! i = (if i = k then buf ! i AND NOT m else buf ! i)"
  by (auto simp: clear_at_def)

lemma length_at [simp]: "length (or_at k m buf) = length buf" "length (clear_at k m buf) = length buf"
  by (simp_all add: or_at_def clear_at_def)

lemma length_rs_ddc [simp]: "c < 8 \<Longrightarrow> length buf = 1444 \<Longrightarrow> length (rs_ddc c a rt buf) = 1444"
  by (simp add: rs_ddc_def hi_lo_def)

lemma rs_ddc_low: "c < 8 \<Longrightarrow> length buf = 1444 \<Longrightarrow> i < 17 \<or> 65 \<le> i \<Longrightarrow> i < 1444 \<Longrightarrow> rs_ddc c a rt buf ! i = buf ! i"
  by (auto simp: rs_ddc_def put_bytes_nth hi_lo_def)

lemma rs_receivers:
  assumes "\<forall>rx \<in> set rxs. 0 \<le> rx_channel rx \<and> rx_channel rx < 8" "length buf = 1444"
  shows "length (fold rs_receiver rxs buf) = 1444"
    "i < 17 \<or> 65 \<le> i \<Longrightarrow> i < 1444 \<Longrightarrow> i \<noteq> 7 \<Longrightarrow> fold rs_receiver rxs buf ! i = buf ! i"
    "c < 8 \<Longrightarrow> bit (fold rs_receiver rxs buf ! 7) c = (bit (buf ! 7) c \<or> (\<exists>rx \<in> set rxs. nat (rx_channel rx) = c))"
proof -
  have step: "length (rs_receiver x b) = 1444 \<and>
      (\<forall>i. (i < 17 \<or> 65 \<le> i) \<and> i < 1444 \<and> i \<noteq> 7 \<longrightarrow> rs_receiver x b ! i = b ! i) \<and>
      (\<forall>c < 8. bit (rs_receiver x b ! 7) c = (bit (b ! 7) c \<or> nat (rx_channel x) = c))"
    if "0 \<le> rx_channel x" "rx_channel x < 8" "length b = 1444" for x b
    using that by (auto simp: rs_receiver_def Let_def rs_ddc_low or_at_nth bit_simps)
  show "length (fold rs_receiver rxs buf) = 1444" using assms
    by (induction rxs arbitrary: buf) (auto simp: step)
  show "i < 17 \<or> 65 \<le> i \<Longrightarrow> i < 1444 \<Longrightarrow> i \<noteq> 7 \<Longrightarrow> fold rs_receiver rxs buf ! i = buf ! i" using assms
    by (induction rxs arbitrary: buf) (auto simp: step)
  show "c < 8 \<Longrightarrow> bit (fold rs_receiver rxs buf ! 7) c = (bit (buf ! 7) c \<or> (\<exists>rx \<in> set rxs. nat (rx_channel rx) = c))"
    using assms by (induction rxs arbitrary: buf) (auto simp: step)
qed

text \<open>A diversity mixer whose halves are DDC 0 and DDC 1.\<close>

definition pair01 :: "radio \<Rightarrow> divmixer option \<Rightarrow> bool" where
  "pair01 r dm \<longleftrightarrow> (case dm of None \<Rightarrow> False
     | Some d \<Rightarrow> (case (receiver_at r (dm_rx_visual d), receiver_at r (dm_rx_hidden d)) of
         (Some v, Some h) \<Rightarrow> rx_channel v = 0 \<and> rx_channel h = 1 | _ \<Rightarrow> False))"

lemma rs_diversities:
  assumes "length buf = 1444"
  shows "length (fold (rs_diversity r) dms buf) = 1444"
    "c < 8 \<Longrightarrow> bit (fold (rs_diversity r) dms buf ! 7) c = (bit (buf ! 7) c \<and> \<not> (c = 1 \<and> list_ex (pair01 r) dms))"
    "fold (rs_diversity r) dms buf ! DDC_SYNC_BASE = (if list_ex (pair01 r) dms then buf ! DDC_SYNC_BASE OR 2 else buf ! DDC_SYNC_BASE)"
    "i < 17 \<Longrightarrow> i \<noteq> 7 \<Longrightarrow> fold (rs_diversity r) dms buf ! i = buf ! i"
proof -
  have two: "bit (2 :: byte) c \<longleftrightarrow> c = 1" for c using bit_pow2[of "2 :: byte" 1 c] by simp
  have step: "length (rs_diversity r d b) = 1444 \<and>
      (\<forall>c < 8. bit (rs_diversity r d b ! 7) c = (bit (b ! 7) c \<and> \<not> (c = 1 \<and> pair01 r d))) \<and>
      rs_diversity r d b ! DDC_SYNC_BASE = (if pair01 r d then b ! DDC_SYNC_BASE OR 2 else b ! DDC_SYNC_BASE) \<and>
      (\<forall>i. i < 17 \<and> i \<noteq> 7 \<longrightarrow> rs_diversity r d b ! i = b ! i)"
    if "length b = 1444" for d b
    using that by (auto simp: rs_diversity_def pair01_def DDC_SYNC_BASE_def Let_def clear_at_nth or_at_nth
        bit_simps two split: option.split)
  show "length (fold (rs_diversity r) dms buf) = 1444"
    using assms by (induction dms arbitrary: buf) (simp_all add: step)
  show "c < 8 \<Longrightarrow> bit (fold (rs_diversity r) dms buf ! 7) c = (bit (buf ! 7) c \<and> \<not> (c = 1 \<and> list_ex (pair01 r) dms))"
    using assms by (induction dms arbitrary: buf) (auto simp: step)
  show "fold (rs_diversity r) dms buf ! DDC_SYNC_BASE = (if list_ex (pair01 r) dms then buf ! DDC_SYNC_BASE OR 2 else buf ! DDC_SYNC_BASE)"
    using assms by (induction dms arbitrary: buf) (auto simp: step or.assoc)
  show "i < 17 \<Longrightarrow> i \<noteq> 7 \<Longrightarrow> fold (rs_diversity r) dms buf ! i = buf ! i"
    using assms by (induction dms arbitrary: buf) (auto simp: step)
qed

definition diversity_pair :: "radio \<Rightarrow> bool" where
  "diversity_pair r \<longleftrightarrow> list_ex (pair01 r) (take MAX_DIVERSITY_MIXERS (r_divmixer r))"

text \<open>C6: The radio streams the DDCs that are listened to. Outside a PureSignal transmission the
enable byte has the bit of a DDC set exactly when a receiver is on it and it is not the follower of
a diversity pair, and DDC 1 is made to follow DDC 0 exactly when there is such a pair.\<close>

theorem streams_what_is_received:
  assumes "ddc_wf r" "\<not> ps_active r" "c < 8"
  shows "bit (rx_specific_buffer r sq ! 7) c =
      ((\<exists>rx \<in> set (p2_receivers r). rx_channel rx = int c) \<and> \<not> (c = 1 \<and> diversity_pair r)) \<and>
    rx_specific_buffer r sq ! DDC_SYNC_BASE = (if diversity_pair r then 2 else 0)"
proof -
  let ?b = "put_bytes 0 (be32 sq @ [2, rs_bits (adc_dither (r_adc r ! 0)) (adc_dither (r_adc r ! 1)),
      rs_bits (adc_random (r_adc r ! 0)) (adc_random (r_adc r ! 1))]) (replicate 1444 0)"
  let ?c = "fold rs_receiver (p2_receivers r) ?b"
  let ?d = "fold (rs_diversity r) (take MAX_DIVERSITY_MIXERS (r_divmixer r)) ?c"
  have w: "\<forall>rx \<in> set (p2_receivers r). 0 \<le> rx_channel rx \<and> rx_channel rx < 8" using assms(1) by (simp add: ddc_wf_def)
  have l: "length ?b = 1444" by simp
  have z: "?b ! 7 = 0" "?b ! DDC_SYNC_BASE = 0" by (simp_all add: put_bytes_nth DDC_SYNC_BASE_def)
  note c = rs_receivers[OF w l]
  note d = rs_diversities[OF c(1), where r = r and dms = "take MAX_DIVERSITY_MIXERS (r_divmixer r)"]
  have p: "rs_puresignal r x = x" for x using assms(2) by (auto simp: rs_puresignal_def ps_active_def Let_def)
  have b: "rx_specific_buffer r sq = ?d" by (simp add: rx_specific_buffer_def Let_def p)
  have n: "(\<exists>rx \<in> set (p2_receivers r). nat (rx_channel rx) = c) = (\<exists>rx \<in> set (p2_receivers r). rx_channel rx = int c)"
    using w by (metis nat_int int_nat_eq)
  show ?thesis unfolding b d(3) d(2)[OF assms(3)] c(3)[OF assms(3)] n z(1) diversity_pair_def
    using c(2)[of DDC_SYNC_BASE] z(2) by (simp add: DDC_SYNC_BASE_def)
qed

theorem streams_what_is_received_witness:
  "bit (rx_specific_buffer diversity_radio 5 ! 7) 0 \<and> \<not> bit (rx_specific_buffer diversity_radio 5 ! 7) 1 \<and>
   rx_specific_buffer diversity_radio 5 ! DDC_SYNC_BASE = 2"
proof -
  have p: "p2_receivers diversity_radio = [receiver0\<lparr>rx_dmix_id := 0\<rparr>, receiver0\<lparr>rx_channel := 1, rx_adc := 1, rx_dmix_id := 0\<rparr>]"
    by (simp add: p2_receivers_def diversity_radio_def radio0_def discovered0_def numeral_eq_Suc List.map_filter_def)
  have d: "ddc_wf diversity_radio" by (simp add: ddc_wf_def p receiver0_def)
  have s: "\<not> ps_active diversity_radio" by (simp add: ps_active_def isTransmitting_def diversity_radio_def radio0_def)
  have "diversity_pair diversity_radio"
    by (simp add: diversity_pair_def MAX_DIVERSITY_MIXERS_def diversity_radio_def pair01_def receiver_at_def receiver0_def
        numeral_eq_Suc)
  thus ?thesis using streams_what_is_received[OF d s, of 0 5] streams_what_is_received[OF d s, of 1 5]
    by (simp add: p receiver0_def)
qed

text \<open>During a PureSignal transmission DDC 0 carries the feedback pair and DDC 1 rides on it.\<close>

lemma puresignal_takes_the_pair:
  assumes "ps_active r" "receiver_at r (tx_rx_puresignal_txfbk (r_transmitter r)) = Some tf"
    "receiver_at r (tx_rx_puresignal_rxfbk (r_transmitter r)) = Some rf" "length buf = 1444"
  shows "bit (rs_puresignal r buf ! 7) 0" "\<not> bit (rs_puresignal r buf ! 7) 1"
    "bit (rs_puresignal r buf ! DDC_SYNC_BASE) 1"
proof -
  have two: "bit (2 :: byte) c \<longleftrightarrow> c = 1" for c using bit_pow2[of "2 :: byte" 1 c] by simp
  show "bit (rs_puresignal r buf ! 7) 0" "\<not> bit (rs_puresignal r buf ! 7) 1"
    "bit (rs_puresignal r buf ! DDC_SYNC_BASE) 1"
    using assms by (auto simp: rs_puresignal_def ps_active_def Let_def clear_at_nth or_at_nth rs_ddc_low
        DDC_SYNC_BASE_def bit_simps two)
qed

section \<open>The sample streams\<close>

definition iq_put :: "int \<times> int \<Rightarrow> p2_tx \<Rightarrow> p2_tx" where
  "iq_put p s = protocol2_iq_samples (fst p) (snd p) s"

definition audio_put :: "int \<times> int \<Rightarrow> p2_tx \<Rightarrow> p2_tx" where
  "audio_put p s = protocol2_audio_samples (fst p) (snd p) s"

definition p2_stream_inv :: "p2_tx \<Rightarrow> bool" where
  "p2_stream_inv s \<longleftrightarrow> length (p2_iqbuffer s) = 1444 \<and> length (p2_audiobuffer s) = 260 \<and>
     p2_iqindex s mod 6 = 4 \<and> p2_iqindex s < 1444 \<and> p2_audioindex s mod 4 = 0 \<and> 4 \<le> p2_audioindex s \<and> p2_audioindex s < 260"

lemma length_enc [simp]: "length (enc24 v) = 3" "length (hi_lo v) = 2" by (simp_all add: enc24_def hi_lo_def)

lemma sendto_fields [simp]:
  "p2_iqbuffer (p2_sendto p bs s) = p2_iqbuffer s" "p2_audiobuffer (p2_sendto p bs s) = p2_audiobuffer s"
  "p2_iqindex (p2_sendto p bs s) = p2_iqindex s" "p2_audioindex (p2_sendto p bs s) = p2_audioindex s"
  "p2_socket (p2_sendto p bs s) = p2_socket s" "p2_running (p2_sendto p bs s) = p2_running s"
  "p2_tx_iq_sequence (p2_sendto p bs s) = p2_tx_iq_sequence s" "p2_audiosequence (p2_sendto p bs s) = p2_audiosequence s"
  by (simp_all add: p2_sendto_def)

text \<open>Every sample is stored inside its buffer, and the places stay aligned, whatever the order of
samples and register blocks.\<close>

lemma mod6_room: "(i :: nat) mod 6 = 4 \<Longrightarrow> i < 1444 \<Longrightarrow> i + 6 \<le> 1444"
  by presburger

lemma mod4_room: "(i :: nat) mod 4 = 0 \<Longrightarrow> i < 260 \<Longrightarrow> i + 4 \<le> 260"
  by presburger

lemma stream_index_in_bounds:
  assumes "p2_stream_inv s"
  shows "p2_stream_inv (protocol2_iq_samples i q s)" "p2_stream_inv (protocol2_audio_samples l a s)"
    "p2_stream_inv (protocol2_general r s)" "p2_stream_inv (protocol2_transmit_specific r s)"
    "p2_stream_inv (protocol2_receive_specific r s)"
    "protocol2_high_priority (r, s) = Some (r', s') \<Longrightarrow> p2_stream_inv s'"
proof -
  have m: "(p2_iqindex s + 6) mod 6 = 4" "(p2_audioindex s + 4) mod 4 = 0"
    using assms by (simp_all add: p2_stream_inv_def)
  have room: "p2_iqindex s + 6 \<le> 1444" "p2_audioindex s + 4 \<le> 260"
    using assms mod6_room mod4_room by (auto simp: p2_stream_inv_def)
  show "p2_stream_inv (protocol2_iq_samples i q s)"
    using assms m room by (auto simp: protocol2_iq_samples_def p2_stream_inv_def Let_def)
  show "p2_stream_inv (protocol2_audio_samples l a s)"
    using assms m room by (auto simp: protocol2_audio_samples_def p2_stream_inv_def Let_def)
  show "p2_stream_inv (protocol2_general r s)" "p2_stream_inv (protocol2_transmit_specific r s)"
    "p2_stream_inv (protocol2_receive_specific r s)"
    using assms by (simp_all add: protocol2_general_def protocol2_transmit_specific_def protocol2_receive_specific_def
        p2_stream_inv_def)
  show "protocol2_high_priority (r, s) = Some (r', s') \<Longrightarrow> p2_stream_inv s'"
    using assms by (auto simp: protocol2_high_priority_def hp_send_def p2_stream_inv_def Let_def
        split: if_splits option.splits)
qed

lemma take_put_bytes:
  "off + length bs \<le> length buf \<Longrightarrow> take (off + length bs) (put_bytes off bs buf) = take off buf @ bs"
  by (simp add: put_bytes_def)

lemma drop_put_bytes0: "length bs \<le> length buf \<Longrightarrow> put_bytes 0 bs buf = bs @ drop (length bs) buf"
  by (simp add: put_bytes_def)

lemma drop_snoc_chunk:
  assumes "take n b = w" "length w = n" "m \<le> n" "n + length bs \<le> length b"
  shows "take (n + length bs) (put_bytes n bs b) = w @ bs"
  using assms take_put_bytes[of n bs b] by simp

lemma iq_partial:
  assumes "p2_iqindex s = 4" "length (p2_iqbuffer s) = 1444"
  shows "length xs < 240 \<Longrightarrow> \<exists>b. fold iq_put xs s = s\<lparr>p2_iqbuffer := b, p2_iqindex := 4 + 6 * length xs\<rparr> \<and>
     length b = 1444 \<and> take (4 + 6 * length xs) b =
       take 4 (p2_iqbuffer s) @ concat (map (\<lambda>(i, q). enc24 i @ enc24 q) xs)"
proof (induction xs rule: rev_induct)
  case Nil
  show ?case using assms by (intro exI[of _ "p2_iqbuffer s"]) (cases s, simp)
next
  case (snoc x xs)
  obtain b where b: "fold iq_put xs s = s\<lparr>p2_iqbuffer := b, p2_iqindex := 4 + 6 * length xs\<rparr>" "length b = 1444"
    "take (4 + 6 * length xs) b = take 4 (p2_iqbuffer s) @ concat (map (\<lambda>(i, q). enc24 i @ enc24 q) xs)"
    using snoc by auto
  let ?bs = "enc24 (fst x) @ enc24 (snd x)"
  have room: "4 + 6 * length xs + length ?bs \<le> length b" "4 + 6 * length xs + 6 \<noteq> 1444" using snoc.prems b(2) by auto
  have "fold iq_put (xs @ [x]) s =
      s\<lparr>p2_iqbuffer := put_bytes (4 + 6 * length xs) ?bs b, p2_iqindex := 4 + 6 * length (xs @ [x])\<rparr>"
    using b(1) room(2) by (simp add: iq_put_def protocol2_iq_samples_def Let_def)
  moreover have "take (4 + 6 * length (xs @ [x])) (put_bytes (4 + 6 * length xs) ?bs b) =
      take 4 (p2_iqbuffer s) @ concat (map (\<lambda>(i, q). enc24 i @ enc24 q) (xs @ [x]))"
    using take_put_bytes[OF room(1)] b(3) by (simp add: split_def add.commute)
  ultimately show ?case using room(1) b(2) by (intro exI[of _ "put_bytes (4 + 6 * length xs) ?bs b"]) simp
qed

lemma audio_partial:
  assumes "p2_audioindex s = 4" "length (p2_audiobuffer s) = 260"
  shows "length xs < 64 \<Longrightarrow> \<exists>b. fold audio_put xs s = s\<lparr>p2_audiobuffer := b, p2_audioindex := 4 + 4 * length xs\<rparr> \<and>
     length b = 260 \<and> take (4 + 4 * length xs) b =
       take 4 (p2_audiobuffer s) @ concat (map (\<lambda>(l, a). hi_lo l @ hi_lo a) xs)"
proof (induction xs rule: rev_induct)
  case Nil
  show ?case using assms by (intro exI[of _ "p2_audiobuffer s"]) (cases s, simp)
next
  case (snoc x xs)
  obtain b where b: "fold audio_put xs s = s\<lparr>p2_audiobuffer := b, p2_audioindex := 4 + 4 * length xs\<rparr>" "length b = 260"
    "take (4 + 4 * length xs) b = take 4 (p2_audiobuffer s) @ concat (map (\<lambda>(l, a). hi_lo l @ hi_lo a) xs)"
    using snoc by auto
  let ?bs = "hi_lo (fst x) @ hi_lo (snd x)"
  have room: "4 + 4 * length xs + length ?bs \<le> length b" "\<not> 4 + 4 * length xs + 4 \<ge> 260" using snoc.prems b(2) by auto
  have "fold audio_put (xs @ [x]) s =
      s\<lparr>p2_audiobuffer := put_bytes (4 + 4 * length xs) ?bs b, p2_audioindex := 4 + 4 * length (xs @ [x])\<rparr>"
    using b(1) room(2) by (simp add: audio_put_def protocol2_audio_samples_def Let_def)
  moreover have "take (4 + 4 * length (xs @ [x])) (put_bytes (4 + 4 * length xs) ?bs b) =
      take 4 (p2_audiobuffer s) @ concat (map (\<lambda>(l, a). hi_lo l @ hi_lo a) (xs @ [x]))"
    using take_put_bytes[OF room(1)] b(3) by (simp add: split_def add.commute)
  ultimately show ?case using room(1) b(2) by (intro exI[of _ "put_bytes (4 + 4 * length xs) ?bs b"]) simp
qed

lemma full_packet:
  assumes "take n b = h @ c" "length h = 4" "length b = n + length bs" "length (be32 sq) = 4"
  shows "put_bytes 0 (be32 sq) (put_bytes n bs b) = be32 sq @ c @ bs"
proof -
  have n: "n = 4 + length c" using assms(1-3) by (metis add_diff_cancel_left' append_take_drop_id length_append length_take min.absorb2 le_add1)
  have "put_bytes n bs b = h @ c @ bs" using assms n by (simp add: put_bytes_def)
  thus ?thesis using assms(2) by (simp add: put_bytes_def)
qed

text \<open>The transmit and audio streams lose nothing and change nothing. From the start of a
datagram, 240 I/Q pairs leave as one datagram with its sequence number and all pairs in order, three
bytes a value; 64 pairs of audio samples leave as one with two bytes a value; the next datagram then
starts afresh with the next number.\<close>

theorem p2_streams_are_packed:
  assumes "p2_socket s" "p2_stream_inv s" "p2_iqindex s = 4" "p2_audioindex s = 4" "length xs = 240" "length ys = 64"
  shows "(let s' = fold iq_put xs s in p2_iqindex s' = 4 \<and> p2_tx_iq_sequence s' = p2_tx_iq_sequence s + 1 \<and>
      p2_sent s' = p2_sent s @
        [(TX_IQ_FROM_HOST_PORT, be32 (p2_tx_iq_sequence s) @ concat (map (\<lambda>(i, q). enc24 i @ enc24 q) xs))]) \<and>
    (let s' = fold audio_put ys s in p2_audioindex s' = 4 \<and> p2_audiosequence s' = p2_audiosequence s + 1 \<and>
      p2_sent s' = p2_sent s @
        [(AUDIO_FROM_HOST_PORT, be32 (p2_audiosequence s) @ concat (map (\<lambda>(l, a). hi_lo l @ hi_lo a) ys))])"
proof (rule conjI)
  have l: "length (p2_iqbuffer s) = 1444" "length (p2_audiobuffer s) = 260" using assms(2) by (simp_all add: p2_stream_inv_def)
  obtain zs x where xs: "xs = zs @ [x]" "length zs = 239"
    using assms(5) by (cases xs rule: rev_cases) auto
  obtain b where b: "fold iq_put zs s = s\<lparr>p2_iqbuffer := b, p2_iqindex := 4 + 6 * 239\<rparr>" "length b = 1444"
    "take (4 + 6 * 239) b = take 4 (p2_iqbuffer s) @ concat (map (\<lambda>(i, q). enc24 i @ enc24 q) zs)"
    using iq_partial[OF assms(3) l(1), of zs] xs(2) by auto
  have "put_bytes 0 (be32 (p2_tx_iq_sequence s)) (put_bytes (4 + 6 * 239) (enc24 (fst x) @ enc24 (snd x)) b) =
      be32 (p2_tx_iq_sequence s) @ concat (map (\<lambda>(i, q). enc24 i @ enc24 q) zs) @ enc24 (fst x) @ enc24 (snd x)"
    by (rule full_packet[OF b(3)]) (simp_all add: b(2) l)
  thus "let s' = fold iq_put xs s in p2_iqindex s' = 4 \<and> p2_tx_iq_sequence s' = p2_tx_iq_sequence s + 1 \<and>
      p2_sent s' = p2_sent s @
        [(TX_IQ_FROM_HOST_PORT, be32 (p2_tx_iq_sequence s) @ concat (map (\<lambda>(i, q). enc24 i @ enc24 q) xs))]"
    using b(1) assms(1) by (simp add: xs(1) iq_put_def protocol2_iq_samples_def p2_sendto_def Let_def split_def)
  obtain us y where ys: "ys = us @ [y]" "length us = 63"
    using assms(6) by (cases ys rule: rev_cases) auto
  obtain d where d: "fold audio_put us s = s\<lparr>p2_audiobuffer := d, p2_audioindex := 4 + 4 * 63\<rparr>" "length d = 260"
    "take (4 + 4 * 63) d = take 4 (p2_audiobuffer s) @ concat (map (\<lambda>(l, a). hi_lo l @ hi_lo a) us)"
    using audio_partial[OF assms(4) l(2), of us] ys(2) by auto
  have "put_bytes 0 (be32 (p2_audiosequence s)) (put_bytes (4 + 4 * 63) (hi_lo (fst y) @ hi_lo (snd y)) d) =
      be32 (p2_audiosequence s) @ concat (map (\<lambda>(l, a). hi_lo l @ hi_lo a) us) @ hi_lo (fst y) @ hi_lo (snd y)"
    by (rule full_packet[OF d(3)]) (simp_all add: d(2) l)
  thus "let s' = fold audio_put ys s in p2_audioindex s' = 4 \<and> p2_audiosequence s' = p2_audiosequence s + 1 \<and>
      p2_sent s' = p2_sent s @
        [(AUDIO_FROM_HOST_PORT, be32 (p2_audiosequence s) @ concat (map (\<lambda>(l, a). hi_lo l @ hi_lo a) ys))]"
    using d(1) assms(1) by (simp add: ys(1) audio_put_def protocol2_audio_samples_def p2_sendto_def Let_def split_def)
qed

theorem p2_streams_are_packed_witness:
  "p2_sent (fold audio_put (replicate 64 (1, - 2)) p2_tx0) = [(1028, be32 0 @ concat (replicate 64 [0, 1, - 1, - 2]))]"
proof -
  have "p2_stream_inv p2_tx0" by (simp add: p2_stream_inv_def p2_tx0_def)
  thus ?thesis
    using p2_streams_are_packed[of p2_tx0 "replicate 240 (0, 0)" "replicate 64 (1, - 2)"]
    by (simp add: Let_def) (simp add: p2_tx0_def p2_ports hi_lo_def)
qed

section \<open>Where the blocks say something else\<close>

text \<open>The run byte looks at the wrong VFO: without split, an SSB transmitter whose VFO B is in CW
is never told to transmit.\<close>

lemma ssb_not_keyed_with_cw_on_vfo_b:
  assumes "tx_receiver r = Some rx" "rx_split rx = SPLIT_OFF" "rx_mode_a rx = USB" "rx_mode_b rx = CWU" "\<not> r_tune r"
  shows "transmitter_get_mode r = USB" "hp_run True r = 0x01"
  using assms by (simp_all add: transmitter_get_mode_def hp_run_def p2_mode_def mode_defs or_if_def)

text \<open>On a radio other than the Orion 2 the automatic low pass choice sets bits of the receive high
pass filters, and, with no \<open>break\<close>, those of the manual choice as well; on an Orion 2 the
17/15 m band (11 to 22 MHz) gets the 6 m filter.\<close>

lemma low_pass_choice:
  assumes "adc_filters (r_adc r ! 0) = AUTOMATIC" "adc_lpf (r_adc r ! 0) = 0" "p2_tx_frequency r rx = 14200000"
  shows "d_device (r_discovered r) = DEVICE_HERMES \<Longrightarrow> p2_lpf r rx = 0x10 OR 0x800000"
    "d_device (r_discovered r) = DEVICE_ORION2 \<Longrightarrow> p2_lpf r rx = 0x20000000 OR 0x800000"
  using assms by (simp_all add: p2_lpf_def p2_lpf_auto_def p2_lpf_manual_def Let_def)

text \<open>Antenna 3 is XVTR and 5 is EXT 2 in \<open>adc.h\<close>; their relays are exchanged here.\<close>

lemma transverter_and_ext2_exchanged:
  "p2_rx_antenna 3 = ALEX_RX_ANTENNA_EXT2" "p2_rx_antenna 5 = ALEX_RX_ANTENNA_XVTR"
  by (simp_all add: p2_rx_antenna_def)

text \<open>Closing the first receiver while another is open leaves a null pointer that the next block
follows.\<close>

lemma first_receiver_closed_crashes:
  assumes "p2_socket s" "tx_receiver r = Some rx" "r_receiver r ! 0 = None"
  shows "protocol2_high_priority (r, s) = None"
  using assms by (simp add: protocol2_high_priority_def hp_tx_phase_def Let_def)

end
