(* ===== verification/Tuning_P2.thy ===== *)
theory Tuning_P2
  imports Tuning_P1 P2_Registers
begin

text \<open>Tuning and protocol 2 together: the phase word a radio is sent
(\<open>src/proto/protocol2.c\<close>) and the digital shift (\<open>src/core/radio.c\<close>) add up to the
dial, as they do with protocol 1.\<close>

text \<open>In every mode protocol 2 asks for the frequency protocol 1 asks for, less the CW pitch that
protocol 1 adds.\<close>

lemma heard_protocol_2:
  "heard r rx = p2_rx_frequency r rx + (if rx_shift_run rx then rx_shift_offset rx else 0)"
  by (simp add: heard_def rx_command_frequency_def p2_rx_frequency_def Let_def mode_defs)

lemma high_priority_word:
  assumes "ddc_wf r" "rx \<in> set (p2_receivers r)" "\<not> ps_active r" "tx_receiver r \<noteq> None" "p2_socket s"
    "0 \<le> p2_rx_frequency r rx" "p2_rx_frequency r rx < 122880000"
    "protocol2_high_priority (r, s) = Some (r', s')"
  shows "\<exists>buf. p2_sent s' = p2_sent s @ [(HIGH_PRIORITY_FROM_HOST_PORT, buf)] \<and>
    phase_frequency (from_be32 (drop (9 + 4 * nat (rx_channel rx)) buf)) = p2_rx_frequency r rx"
proof -
  obtain tx where tx: "tx_receiver r = Some tx" using assms(4) by auto
  let ?f = "hp_front (p2_running s) r (p2_high_priority_sequence s) (p2_phase (p2_tx_frequency r tx))"
  obtain rx0 where s: "s' = hp_send (hp_filters r tx rx0 ?f) s"
    using assms(5,8) tx by (auto simp: protocol2_high_priority_def hp_tx_phase_def Let_def split: option.splits if_splits)
  have c: "nat (rx_channel rx) < 8" using assms(1,2) by (auto simp: ddc_wf_def)
  have l: "length ?f = 1444" using assms(1) by (rule length_hp_front)
  have "from_be32 (drop (9 + 4 * nat (rx_channel rx)) (hp_filters r tx rx0 ?f)) = p2_phase (p2_rx_frequency r rx)"
    using hp_filters_front(3)[OF l] hp_front_receiver[OF assms(1,2,6,7)] assms(3) c by simp
  thus ?thesis using assms(5) by (simp add: s hp_send_def p2_sendto_def phase_frequency_phase[OF assms(6)])
qed

text \<open>C19: A frequency put on VFO A of an unlocked receiver, above zero and up to the receiver's
upper limit, is the frequency a protocol 2 radio is asked for: in the next high priority block the
phase word of the receiver's DDC, read back in hertz, plus the digital shift, is the frequency
asked for, with the converter's error, in every mode and with or without a cursor. This holds with
RIT off, no correction in parts per million, no converter oscillator on VFO A and a sample rate that
is not negative; outside a PureSignal transmission; with the socket open, a transmitter that has a
receiver, the receivers on different DDCs, a block that is sent at all, and a hardware frequency
from zero to below 122.88 MHz.\<close>

theorem tuned_frequency_reaches_protocol_2:
  fixes t :: tuner and target :: int
  defines "r \<equiv> tuned_radio (vfo_apply_frequency target False t)"
    and "rx \<equiv> t_rx (vfo_apply_frequency target False t)"
  assumes "\<not> rx_locked (t_rx t)" "rx_lo_a (t_rx t) = 0" "0 \<le> rx_sample_rate (t_rx t)"
    "0 < target" "target \<le> receiver_max_frequency (t_radio t) (t_rx t)"
    "\<not> rx_rit_enabled (t_rx t)" "r_ppm_correction_value (t_radio t) = 0"
    and "ddc_wf r" "rx \<in> set (p2_receivers r)" "\<not> ps_active r" "tx_receiver r \<noteq> None" "p2_socket s"
    and "0 \<le> p2_rx_frequency r rx" "p2_rx_frequency r rx < 122880000"
    and "protocol2_high_priority (r, s) = Some (r', s')"
  shows "\<exists>buf. p2_sent s' = p2_sent s @ [(HIGH_PRIORITY_FROM_HOST_PORT, buf)] \<and>
    phase_frequency (from_be32 (drop (9 + 4 * nat (rx_channel rx)) buf)) +
      (if rx_shift_run rx then rx_shift_offset rx else 0) = target + rx_error_a (t_rx t)"
proof -
  obtain hz where h: "vfo_apply_frequency target False t = out Ev_Vfo (receiver_move hz False t)"
    "heard (tuned_radio (receiver_move hz False t)) (t_rx (receiver_move hz False t)) = target + rx_error_a (t_rx t)"
    using heard_after_apply[OF assms(3-9)] by blast
  have "heard r rx = target + rx_error_a (t_rx t)" using h(2) by (simp add: r_def rx_def h(1))
  thus ?thesis
    using high_priority_word[OF assms(10-17)] by (auto simp: heard_protocol_2)
qed

lemma tuner0_moved:
  "t_rx (receiver_move (- 95000) False tuner0) = with_b_lo bands_radio (retune bands_radio (receiver0\<lparr>rx_frequency_a := 14195000\<rparr>))"
  "t_radio (receiver_move (- 95000) False tuner0) = bands_radio"
proof -
  let ?t = "tuner0\<lparr>t_rx := receiver0\<lparr>rx_frequency_a := 14195000\<rparr>\<rparr>"
  have m: "receiver_max_frequency (t_radio tuner0) receiver0 = 61440000" using tuner0_max[of receiver0] by (simp add: receiver0_def)
  have a: "receiver_move_a (- 95000) False tuner0 = (?t, 95000)"
    by (simp add: receiver_move_a_def m move_a_def Let_def) (simp add: receiver0_def out_of_range_def round_step_def)
  have b: "r_hl2 bands_radio = None" "t_radio tuner0 = bands_radio" "t_startup_done tuner0" "t_hidden tuner0 = None"
    by (simp_all add: bands_radio_def radio0_def tuner0_def)
  have h: "hl2_converter (sync_hidden ?t) = sync_hidden ?t"
    using b by (simp add: hl2_converter_def)
  have n: "\<not> satellite (rx_split (receiver0\<lparr>rx_frequency_a := 14195000\<rparr>))" by (simp add: receiver0_def satellite_def)
  have s: "receiver_sync_transverter ?t = ?t" by (rule sync_transverter_none) (simp add: receiver0_def)
  have e: "receiver_move (- 95000) False tuner0 = update_frequency (frequency_changed ?t)"
    using n by (simp add: receiver_move_def a) (simp add: receiver0_def)
  show "t_rx (receiver_move (- 95000) False tuner0) = with_b_lo bands_radio (retune bands_radio (receiver0\<lparr>rx_frequency_a := 14195000\<rparr>))"
    "t_radio (receiver_move (- 95000) False tuner0) = bands_radio"
    unfolding e using s b h by simp_all
qed

theorem tuned_frequency_reaches_protocol_2_witness:
  "\<exists>r' s' buf. protocol2_high_priority (tuned_radio (vfo_apply_frequency 14195000 False tuner0), p2_tx0) = Some (r', s') \<and>
     p2_sent s' = [(HIGH_PRIORITY_FROM_HOST_PORT, buf)] \<and> phase_frequency (from_be32 (drop 9 buf)) = 14195000"
proof -
  let ?rx = "with_b_lo bands_radio (retune bands_radio (receiver0\<lparr>rx_frequency_a := 14195000\<rparr>))"
  let ?r = "bands_radio\<lparr>r_receiver := [Some ?rx, None, None, None, None, None, None, None]\<rparr>"
  have e: "vfo_apply_frequency 14195000 False tuner0 = out Ev_Vfo (receiver_move (- 95000) False tuner0)"
    by (simp add: vfo_apply_frequency_def receiver0_def Let_def)
  have r: "tuned_radio (vfo_apply_frequency 14195000 False tuner0) = ?r"
    "t_rx (vfo_apply_frequency 14195000 False tuner0) = ?rx"
    by (simp_all add: e tuned_radio_def tuner0_moved) (simp add: tuner0_def bands_radio_def radio0_def)
  have f: "rx_channel ?rx = 0" "\<not> rx_shift_run ?rx" "rx_split ?rx = SPLIT_OFF" "rx_mode_a ?rx = USB"
    by (simp_all add: retune_shift) (simp_all add: receiver0_def)
  have q: "p2_rx_frequency ?r ?rx = 14195000"
    by (simp add: p2_rx_frequency_def Let_def) (simp add: receiver0_def bands_radio_def radio0_def)
  have p: "p2_receivers ?r = [?rx]"
    by (simp add: p2_receivers_def bands_radio_def radio0_def discovered0_def numeral_eq_Suc List.map_filter_def)
  have "ddc_wf ?r" by (simp add: ddc_wf_def p) (simp add: receiver0_def)
  moreover have "\<not> ps_active (x\<lparr>r_receiver := l\<rparr>)" "\<not> p2_antenna_unset (x\<lparr>r_receiver := l\<rparr>)" if "x = bands_radio" for x l
    unfolding that by (simp_all add: ps_active_def p2_antenna_unset_def isTransmitting_def bands_radio_def radio0_def)
  moreover have "tx_receiver (bands_radio\<lparr>r_receiver := Some x # l\<rparr>) = Some x" for x l
    by (simp add: tx_receiver_def bands_radio_def radio0_def transmitter0_def)
  ultimately have w: "ddc_wf ?r" "\<not> ps_active ?r" "tx_receiver ?r = Some ?rx" "\<not> p2_antenna_unset ?r" by blast+
  have z: "p2_socket p2_tx0" "p2_sent p2_tx0 = []" by (simp_all add: p2_tx0_def)
  obtain r' s' where h: "protocol2_high_priority (?r, p2_tx0) = Some (r', s')"
    using w z by (simp add: protocol2_high_priority_def hp_tx_phase_def Let_def)
  have t: "\<not> rx_locked (t_rx tuner0)" "rx_lo_a (t_rx tuner0) = 0" "0 \<le> rx_sample_rate (t_rx tuner0)"
    "14195000 \<le> receiver_max_frequency (t_radio tuner0) (t_rx tuner0)" "\<not> rx_rit_enabled (t_rx tuner0)"
    "r_ppm_correction_value (t_radio tuner0) = 0" "rx_error_a (t_rx tuner0) = 0"
    using tuner0_max[of receiver0] by (simp_all add: receiver0_def) (simp add: tuner0_def bands_radio_def radio0_def)
  show ?thesis
    using tuned_frequency_reaches_protocol_2[of tuner0 14195000 p2_tx0 r' s', unfolded r] t w z p f q h
    by (simp add: r)
qed

end
