(* ===== verification/Tci_Ws.thy ===== *)
theory Tci_Ws
  imports C_Strings
begin

text \<open>The WebSocket layer under the TCI server and the browser remote
(\<open>src/proto/tci_ws.c\<close>): the frame header, blocking reads and writes through a
pair of callbacks, the reassembly of a fragmented message and the HTTP upgrade.

The callbacks are arguments, as in the code: a read takes the transport's state and the
number of bytes wanted and returns \<open>None\<close> for an error or the end, or the bytes it
got. What the reader needs of them is the locale \<open>byte_stream\<close>; its
interpretation is \<open>socket_read\<close> over a socket that delivers its bytes in segments of
any size.\<close>

section \<open>Frames\<close>

definition TCI_WS_MAX_MSG :: nat where "TCI_WS_MAX_MSG = 262144"

definition tci_ws_write_header :: "int \<Rightarrow> nat \<Rightarrow> byte list" where
  "tci_ws_write_header opcode len =
     (0x80 OR (word_of_int opcode AND 0x0f)) #
     (if len < 126 then [of_nat len]
      else if len < 65536 then [126, of_nat (len div 256), of_nat len]
      else 127 # map (\<lambda>i. of_nat (len div 2 ^ (56 - 8 * i))) [0..<8])"

text \<open>A transfer loop hands the callback what is left until all of it is done.\<close>

type_synonym 's read_cb = "'s \<Rightarrow> nat \<Rightarrow> byte list option \<times> 's"

function recv_all :: "'s read_cb \<Rightarrow> 's \<Rightarrow> nat \<Rightarrow> byte list option \<times> 's" where
  "recv_all rd s n =
     (if n = 0 then (Some [], s)
      else case rd s n of
        (None, s1) \<Rightarrow> (None, s1)
      | (Some got, s1) \<Rightarrow>
          if got = [] then (None, s1)
          else case recv_all rd s1 (n - length got) of
            (None, s2) \<Rightarrow> (None, s2)
          | (Some rest, s2) \<Rightarrow> (Some (got @ rest), s2))"
  by pat_completeness auto
termination by (relation "measure (\<lambda>(_, _, n). n)") auto

declare recv_all.simps [simp del]

datatype write_result = Wrote nat | Interrupted | Write_failed

type_synonym 's write_cb = "'s \<Rightarrow> byte list \<Rightarrow> write_result \<times> 's"

text \<open>An interrupted write is tried again, so the loop has fuel for the number of
attempts.\<close>

fun tci_ws_io_send_all :: "'s write_cb \<Rightarrow> nat \<Rightarrow> 's \<Rightarrow> byte list \<Rightarrow> (bool \<times> 's) option" where
  "tci_ws_io_send_all wr fuel s [] = Some (True, s)"
| "tci_ws_io_send_all wr 0 s (b # bs) = None"
| "tci_ws_io_send_all wr (Suc fuel) s (b # bs) =
     (case wr s (b # bs) of
        (Interrupted, s1) \<Rightarrow> tci_ws_io_send_all wr fuel s1 (b # bs)
      | (Write_failed, s1) \<Rightarrow> Some (False, s1)
      | (Wrote w, s1) \<Rightarrow>
          if w = 0 then Some (False, s1) else tci_ws_io_send_all wr fuel s1 (drop w (b # bs)))"

definition tci_ws_io_send_blocking ::
    "'s write_cb \<Rightarrow> nat \<Rightarrow> 's \<Rightarrow> int \<Rightarrow> byte list \<Rightarrow> (bool \<times> 's) option" where
  "tci_ws_io_send_blocking wr fuel s opcode payload =
     (case tci_ws_io_send_all wr fuel s (tci_ws_write_header opcode (length payload)) of
        None \<Rightarrow> None
      | Some (False, s1) \<Rightarrow> Some (False, s1)
      | Some (True, s1) \<Rightarrow>
          if payload = [] then Some (True, s1) else tci_ws_io_send_all wr fuel s1 payload)"

section \<open>Receiving a message\<close>

text \<open>One turn of the loop of \<open>tci_ws_io_recv\<close> reads a header, checks the
size, reads the masking key and the payload, and unmasks it.\<close>

definition recv_length :: "'s read_cb \<Rightarrow> 's \<Rightarrow> byte \<Rightarrow> nat option \<times> 's" where
  "recv_length rd s h1 =
     (let len = unat (h1 AND 0x7f)
      in if len = 126 then
           case recv_all rd s 2 of
             (None, s1) \<Rightarrow> (None, s1)
           | (Some e, s1) \<Rightarrow> (Some (unat (e ! 0) * 256 + unat (e ! 1)), s1)
         else if len = 127 then
           case recv_all rd s 8 of
             (None, s1) \<Rightarrow> (None, s1)
           | (Some e, s1) \<Rightarrow> (Some (foldl (\<lambda>a b. a * 256 + unat b) 0 e), s1)
         else (Some len, s))"

definition unmask :: "byte list \<Rightarrow> byte list \<Rightarrow> byte list" where
  "unmask key buf = map (\<lambda>i. buf ! i XOR key ! (i mod 4)) [0..<length buf]"

definition recv_payload :: "'s read_cb \<Rightarrow> 's \<Rightarrow> bool \<Rightarrow> nat \<Rightarrow> byte list option \<times> 's" where
  "recv_payload rd s masked len =
     (if masked then
        case recv_all rd s 4 of
          (None, s1) \<Rightarrow> (None, s1)
        | (Some key, s1) \<Rightarrow> (case recv_all rd s1 len of
            (None, s2) \<Rightarrow> (None, s2)
          | (Some buf, s2) \<Rightarrow> (Some (unmask key buf), s2))
      else recv_all rd s len)"

record ws_frame =
  wf_fin :: bool
  wf_opcode :: nat
  wf_payload :: "byte list"

definition recv_frame :: "'s read_cb \<Rightarrow> 's \<Rightarrow> nat \<Rightarrow> ws_frame option \<times> 's" where
  "recv_frame rd s acc_len =
     (case recv_all rd s 2 of
        (None, s1) \<Rightarrow> (None, s1)
      | (Some h, s1) \<Rightarrow> (case recv_length rd s1 (h ! 1) of
          (None, s2) \<Rightarrow> (None, s2)
        | (Some len, s2) \<Rightarrow>
            if len > TCI_WS_MAX_MSG \<or> acc_len + len > TCI_WS_MAX_MSG then (None, s2)
            else case recv_payload rd s2 (h ! 1 AND 0x80 \<noteq> 0) len of
              (None, s3) \<Rightarrow> (None, s3)
            | (Some buf, s3) \<Rightarrow>
                (Some \<lparr>wf_fin = (h ! 0 AND 0x80 \<noteq> 0), wf_opcode = unat (h ! 0 AND 0x0f), wf_payload = buf\<rparr>, s3)))"

text \<open>\<open>acc\<close> is the message so far and \<open>acc_op\<close> the opcode it began with,
\<open>None\<close> for -1. The result is an opcode and a message, \<open>None\<close> for the
return value -1; running out of fuel is the outer \<open>None\<close>.\<close>

fun recv_loop ::
    "'s read_cb \<Rightarrow> nat \<Rightarrow> 's \<Rightarrow> byte list \<Rightarrow> nat option \<Rightarrow> ((nat \<times> byte list) option \<times> 's) option" where
  "recv_loop rd 0 s acc acc_op = None"
| "recv_loop rd (Suc fuel) s acc acc_op =
     (case recv_frame rd s (length acc) of
        (None, s1) \<Rightarrow> Some (None, s1)
      | (Some f, s1) \<Rightarrow>
          if wf_opcode f \<ge> 8 then Some (Some (wf_opcode f, wf_payload f), s1)
          else if wf_opcode f = 0 \<and> acc_op = None then recv_loop rd fuel s1 acc acc_op
          else
            let (acc1, op1) = (if wf_opcode f = 0 then (acc, the acc_op) else ([], wf_opcode f));
                acc2 = acc1 @ wf_payload f
            in if wf_fin f then Some (Some (op1, acc2), s1) else recv_loop rd fuel s1 acc2 (Some op1))"

definition tci_ws_io_recv :: "'s read_cb \<Rightarrow> nat \<Rightarrow> 's \<Rightarrow> ((nat \<times> byte list) option \<times> 's) option" where
  "tci_ws_io_recv rd fuel s = recv_loop rd fuel s [] None"

section \<open>The transport\<close>

text \<open>A blocking socket: the segments still to arrive, the bytes sent so far and what
the system will do with the coming writes. \<open>recv\<close> gives some of the bytes that
have arrived, at least one while there are any and at most those asked for;
\<open>send\<close> takes some of them, is interrupted or fails.\<close>

record socket =
  so_in :: "byte list list"
  so_out :: "byte list"
  so_events :: "write_result list"

definition socket_read :: "socket read_cb" where
  "socket_read s n = (case dropWhile (\<lambda>g. g = []) (so_in s) of
     [] \<Rightarrow> (None, s\<lparr>so_in := []\<rparr>)
   | g # gs \<Rightarrow> (Some (take n g), s\<lparr>so_in := drop n g # gs\<rparr>))"

definition socket_write :: "socket write_cb" where
  "socket_write s bs = (case so_events s of
     [] \<Rightarrow> (Write_failed, s)
   | Wrote w # es \<Rightarrow>
       (Wrote (min w (length bs)), s\<lparr>so_out := so_out s @ take w bs, so_events := es\<rparr>)
   | r # es \<Rightarrow> (r, s\<lparr>so_events := es\<rparr>))"

definition arriving :: "socket \<Rightarrow> byte list" where
  "arriving s = concat (so_in s)"

text \<open>What a blocking byte stream promises its reader.\<close>

locale byte_stream =
  fixes rd :: "'s \<Rightarrow> nat \<Rightarrow> byte list option \<times> 's"
    and pending :: "'s \<Rightarrow> byte list"
  assumes read_end: "0 < n \<Longrightarrow> pending s = [] \<Longrightarrow> fst (rd s n) = None \<and> pending (snd (rd s n)) = []"
    and read_some: "0 < n \<Longrightarrow> pending s \<noteq> [] \<Longrightarrow>
      \<exists>got s1. rd s n = (Some got, s1) \<and> got \<noteq> [] \<and> length got \<le> n \<and> pending s = got @ pending s1"
begin

text \<open>A read returns the next bytes in order, however they arrive, and fails exactly
when too few are left.\<close>

lemma recv_all_enough:
  "n \<le> length (pending s) \<Longrightarrow>
     \<exists>s1. recv_all rd s n = (Some (take n (pending s)), s1) \<and> pending s1 = drop n (pending s)"
proof (induction n arbitrary: s rule: less_induct)
  case (less n)
  show ?case
  proof (cases "n = 0")
    case True thus ?thesis by (simp add: recv_all.simps)
  next
    case False
    hence "pending s \<noteq> []" using less.prems by auto
    then obtain got s1 where g: "rd s n = (Some got, s1)" "got \<noteq> []" "length got \<le> n" "pending s = got @ pending s1"
      using read_some False by blast
    have "n - length got < n" using False g(2) by (cases got) auto
    moreover have "n - length got \<le> length (pending s1)" using less.prems g(4) by simp
    ultimately obtain s2 where r: "recv_all rd s1 (n - length got) = (Some (take (n - length got) (pending s1)), s2)"
        "pending s2 = drop (n - length got) (pending s1)"
      using less.IH by blast
    have "recv_all rd s n = (Some (got @ take (n - length got) (pending s1)), s2)"
      by (subst recv_all.simps) (simp add: False g(1,2) r(1))
    thus ?thesis using g(3,4) r(2) by simp
  qed
qed

lemma recv_all_short:
  "length (pending s) < n \<Longrightarrow> \<exists>s1. recv_all rd s n = (None, s1) \<and> pending s1 = []"
proof (induction n arbitrary: s rule: less_induct)
  case (less n)
  show ?case
  proof (cases "pending s = []")
    case True
    have "fst (rd s n) = None" "pending (snd (rd s n)) = []" using less.prems read_end[of n s] True by auto
    moreover from this(1) have "recv_all rd s n = (None, snd (rd s n))"
      using less.prems by (subst recv_all.simps) (auto split: prod.split)
    ultimately show ?thesis by blast
  next
    case False
    have "0 < n" using less.prems by simp
    from read_some[OF this False] obtain got s1
      where g: "rd s n = (Some got, s1)" "got \<noteq> []" "length got \<le> n" "pending s = got @ pending s1" by blast
    have "n - length got < n" using less.prems g(2) by (cases got) auto
    moreover have "length (pending s1) < n - length got" using less.prems g by simp
    ultimately obtain s2 where r: "recv_all rd s1 (n - length got) = (None, s2)" "pending s2 = []"
      using less.IH by blast
    have "recv_all rd s n = (None, s2)"
      using less.prems by (subst recv_all.simps) (simp add: g(1,2) r(1))
    thus ?thesis using r(2) by simp
  qed
qed

lemma recv_all_app:
  "pending s = a @ b \<Longrightarrow> length a = n \<Longrightarrow> \<exists>s1. recv_all rd s n = (Some a, s1) \<and> pending s1 = b"
  using recv_all_enough[of n s] by auto

end

interpretation socket: byte_stream socket_read arriving
proof
  fix n :: nat and s :: socket
  assume n: "0 < n"
  { assume "arriving s = []"
    hence "dropWhile (\<lambda>g. g = []) (so_in s) = []" by (simp add: arriving_def)
    thus "fst (socket_read s n) = None \<and> arriving (snd (socket_read s n)) = []"
      by (simp add: socket_read_def arriving_def del: dropWhile_eq_Nil_conv concat_eq_Nil_conv) }
  { assume a: "arriving s \<noteq> []"
    have "concat (dropWhile (\<lambda>g. g = []) gs) = concat gs" for gs :: "byte list list" by (induction gs) auto
    hence c: "arriving s = concat (dropWhile (\<lambda>g. g = []) (so_in s))" by (simp add: arriving_def)
    then obtain g gs where g: "dropWhile (\<lambda>g. g = []) (so_in s) = g # gs"
      using a by (cases "dropWhile (\<lambda>g. g = []) (so_in s)") auto
    hence "g \<noteq> []" using hd_dropWhile[of "\<lambda>g. g = []" "so_in s"] by simp
    thus "\<exists>got s1. socket_read s n = (Some got, s1) \<and> got \<noteq> [] \<and> length got \<le> n \<and> arriving s = got @ arriving s1"
      using n c g by (auto simp: socket_read_def arriving_def) }
qed

text \<open>What a byte sink promises its writer.\<close>

locale byte_sink =
  fixes wr :: "'s \<Rightarrow> byte list \<Rightarrow> write_result \<times> 's"
    and written :: "'s \<Rightarrow> byte list"
  assumes write_some: "wr s bs = (Wrote w, s1) \<Longrightarrow> w \<le> length bs \<and> written s1 = written s @ take w bs"
    and write_none: "wr s bs = (Interrupted, s1) \<or> wr s bs = (Write_failed, s1) \<Longrightarrow> written s1 = written s"
begin

lemma send_all_prefix:
  "tci_ws_io_send_all wr fuel s bs = Some (ok, s1) \<Longrightarrow>
   \<exists>n \<le> length bs. written s1 = written s @ take n bs \<and> (ok \<longrightarrow> n = length bs)"
proof (induction fuel arbitrary: s bs)
  case 0 thus ?case by (cases bs) auto
next
  case (Suc fuel)
  show ?case
  proof (cases bs)
    case Nil thus ?thesis using Suc.prems by auto
  next
    case (Cons b cs)
    obtain r s2 where r: "wr s (b # cs) = (r, s2)" by (cases "wr s (b # cs)")
    show ?thesis
    proof (cases r)
      case Interrupted
      thus ?thesis using Suc.IH[of s2 "b # cs"] Suc.prems r write_none[of s "b # cs" s2] by (simp add: Cons)
    next
      case Write_failed
      thus ?thesis using Suc.prems r write_none[of s "b # cs" s2] by (auto simp: Cons)
    next
      case (Wrote w)
      have w: "w \<le> length bs" "written s2 = written s @ take w bs" using write_some[of s "b # cs" w s2] r Wrote Cons by auto
      show ?thesis
      proof (cases "w = 0")
        case True thus ?thesis using Suc.prems r Wrote w by (auto simp: Cons)
      next
        case False
        hence "tci_ws_io_send_all wr fuel s2 (drop w bs) = Some (ok, s1)" using Suc.prems r Wrote by (simp add: Cons)
        then obtain n where n: "n \<le> length (drop w bs)" "written s1 = written s2 @ take n (drop w bs)"
            "ok \<longrightarrow> n = length (drop w bs)"
          using Suc.IH by blast
        have "take w bs @ take n (drop w bs) = take (w + n) bs" by (simp add: take_add)
        thus ?thesis using n w by (intro exI[of _ "w + n"]) auto
      qed
    qed
  qed
qed

lemma send_all_whole:
  "tci_ws_io_send_all wr fuel s bs = Some (True, s1) \<Longrightarrow> written s1 = written s @ bs"
  using send_all_prefix[of fuel s bs True s1] by auto

lemma send_blocking_whole:
  assumes "tci_ws_io_send_blocking wr fuel s op p = Some (True, s1)"
  shows "written s1 = written s @ tci_ws_write_header op (length p) @ p"
proof -
  let ?h = "tci_ws_write_header op (length p)"
  obtain s2 where h: "tci_ws_io_send_all wr fuel s ?h = Some (True, s2)"
    using assms by (auto simp: tci_ws_io_send_blocking_def split: option.splits prod.splits bool.splits)
  have "written s2 = written s @ ?h" by (rule send_all_whole[OF h])
  moreover have "written s1 = written s2 @ p"
    using assms h send_all_whole[of fuel s2 p s1] by (auto simp: tci_ws_io_send_blocking_def split: if_splits)
  ultimately show ?thesis by simp
qed

end

interpretation socket_out: byte_sink socket_write so_out
  by unfold_locales (auto simp: socket_write_def min_def split: list.splits write_result.splits)

section \<open>How the bytes arrive does not matter\<close>

text \<open>Against a stream of known bytes the reader is a function of those bytes.\<close>

definition take_bytes :: "nat \<Rightarrow> byte list \<Rightarrow> byte list option \<times> byte list" where
  "take_bytes n bs = (if n \<le> length bs then (Some (take n bs), drop n bs) else (None, []))"

definition list_read :: "byte list read_cb" where
  "list_read bs n = (if bs = [] then (None, []) else (Some (take n bs), drop n bs))"

interpretation bytes: byte_stream list_read "\<lambda>bs. bs"
  by unfold_locales (auto simp: list_read_def)

lemma recv_all_list_read: "recv_all list_read bs n = take_bytes n bs"
  using bytes.recv_all_enough[of n bs] bytes.recv_all_short[of bs n]
  by (cases "n \<le> length bs") (auto simp: take_bytes_def)

context byte_stream
begin

definition seen :: "'a \<times> 's \<Rightarrow> 'a \<times> byte list" where
  "seen r = (fst r, pending (snd r))"

lemma seen_pair [simp]: "seen (x, s) = (x, pending s)"
  by (simp add: seen_def)

lemma recv_all_seen: "seen (recv_all rd s n) = recv_all list_read (pending s) n"
  using recv_all_enough[of n s] recv_all_short[of s n]
  by (cases "n \<le> length (pending s)") (auto simp: recv_all_list_read take_bytes_def)

lemma seen_cases:
  obtains x s1 where "recv_all rd s n = (x, s1)" "recv_all list_read (pending s) n = (x, pending s1)"
  using recv_all_seen[of s n] by (cases "recv_all rd s n") auto

lemma recv_length_seen: "seen (recv_length rd s h) = recv_length list_read (pending s) h"
proof -
  obtain x s1 where a: "recv_all rd s 2 = (x, s1)" "recv_all list_read (pending s) 2 = (x, pending s1)"
    by (rule seen_cases)
  obtain y s2 where b: "recv_all rd s 8 = (y, s2)" "recv_all list_read (pending s) 8 = (y, pending s2)"
    by (rule seen_cases)
  show ?thesis by (simp add: recv_length_def a b Let_def split: option.split)
qed

lemma recv_payload_seen: "seen (recv_payload rd s m n) = recv_payload list_read (pending s) m n"
proof -
  obtain x s1 where a: "recv_all rd s 4 = (x, s1)" "recv_all list_read (pending s) 4 = (x, pending s1)"
    by (rule seen_cases)
  obtain y s2 where b: "recv_all rd s1 n = (y, s2)" "recv_all list_read (pending s1) n = (y, pending s2)"
    by (rule seen_cases)
  show ?thesis by (simp add: recv_payload_def a b recv_all_seen split: option.split)
qed

lemma recv_frame_seen: "seen (recv_frame rd s n) = recv_frame list_read (pending s) n"
proof -
  obtain x s1 where a: "recv_all rd s 2 = (x, s1)" "recv_all list_read (pending s) 2 = (x, pending s1)"
    by (rule seen_cases)
  show ?thesis
  proof (cases x)
    case None thus ?thesis by (simp add: recv_frame_def a)
  next
    case (Some h)
    obtain l s2 where b: "recv_length rd s1 (h ! Suc 0) = (l, s2)" by (cases "recv_length rd s1 (h ! Suc 0)")
    have b2: "recv_length list_read (pending s1) (h ! Suc 0) = (l, pending s2)"
      using recv_length_seen[of s1 "h ! Suc 0"] b by simp
    show ?thesis
    proof (cases l)
      case None thus ?thesis by (simp add: recv_frame_def a b b2 Some)
    next
      case (Some len)
      let ?m = "h ! Suc 0 AND 0x80 \<noteq> 0"
      obtain p s3 where c: "recv_payload rd s2 ?m len = (p, s3)" by (cases "recv_payload rd s2 ?m len")
      have c2: "recv_payload list_read (pending s2) ?m len = (p, pending s3)"
        using recv_payload_seen[of s2 ?m len] c by simp
      show ?thesis by (simp add: recv_frame_def a b b2 c c2 Some \<open>x = Some h\<close> split: option.split)
    qed
  qed
qed

lemma recv_loop_seen:
  "map_option seen (recv_loop rd fuel s acc op) = recv_loop list_read fuel (pending s) acc op"
proof (induction fuel arbitrary: s acc op)
  case (Suc fuel)
  obtain f s1 where a: "recv_frame rd s (length acc) = (f, s1)" by (cases "recv_frame rd s (length acc)")
  have "recv_frame list_read (pending s) (length acc) = (f, pending s1)"
    using recv_frame_seen[of s "length acc"] a by simp
  thus ?case by (simp add: a Suc.IH Let_def split: option.split)
qed simp

lemma recv_seen: "map_option seen (tci_ws_io_recv rd fuel s) = tci_ws_io_recv list_read fuel (pending s)"
  by (simp add: tci_ws_io_recv_def recv_loop_seen)

lemma recv_result:
  assumes "tci_ws_io_recv list_read fuel (pending s) = Some (m, rest)"
  shows "\<exists>s1. tci_ws_io_recv rd fuel s = Some (m, s1) \<and> pending s1 = rest"
  using recv_seen[of fuel s] assms by (cases "tci_ws_io_recv rd fuel s") (auto simp: seen_def)

end

section \<open>Frames on the wire\<close>

text \<open>A frame as RFC 6455 writes it. The code's header is the case without a masking
key and with the final bit set.\<close>

definition ws_length :: "nat \<Rightarrow> byte list" where
  "ws_length len = (if len < 126 then [of_nat len]
     else if len < 65536 then [126, of_nat (len div 256), of_nat len]
     else 127 # map (\<lambda>i. of_nat (len div 2 ^ (56 - 8 * i))) [0..<8])"

definition ws_wire :: "bool \<Rightarrow> nat \<Rightarrow> byte list option \<Rightarrow> byte list \<Rightarrow> byte list" where
  "ws_wire fin op key p =
     ((if fin then 0x80 else 0) OR of_nat op) #
     (case key of None \<Rightarrow> ws_length (length p) @ p
      | Some k \<Rightarrow> (0x80 OR hd (ws_length (length p))) # tl (ws_length (length p)) @ k @ unmask k p)"

lemma write_header_wire:
  "op < 16 \<Longrightarrow> tci_ws_write_header (int op) (length p) @ p = ws_wire True op None p"
proof -
  assume "op < 16"
  hence "of_nat op AND (0x0f :: byte) = of_nat op"
    using less_mask_eq[of "of_nat op :: byte" 4] by (simp add: mask_numerals word_less_nat_alt unat_of_nat)
  thus ?thesis by (simp add: tci_ws_write_header_def ws_wire_def ws_length_def)
qed

lemma length_unmask [simp]: "length (unmask k p) = length p"
  by (simp add: unmask_def)

lemma unmask_unmask [simp]: "unmask k (unmask k p) = p"
  by (rule nth_equalityI) (simp_all add: unmask_def xor.assoc)

lemma take_bytes_app [simp]: "length a = n \<Longrightarrow> take_bytes n (a @ b) = (Some a, b)"
  by (simp add: take_bytes_def)

lemma unat_byte: "unat (of_nat x :: byte) = x mod 256"
  by (simp add: unat_of_nat)

lemma be_step: "x div (c * 256) * 256 + x div c mod 256 = x div (c :: nat)"
  by (metis div_mult_mod_eq div_mult2_eq)

lemma be64:
  assumes "len < 2 ^ 64"
  shows "foldl (\<lambda>a b. a * 256 + unat b) 0 (map (\<lambda>i. of_nat (len div 2 ^ (56 - 8 * i)) :: byte) [0..<8]) = len"
proof -
  have u: "[0..<8] = [0, 1, 2, 3, 4, 5, 6, 7 :: nat]" by (simp add: upt_rec)
  have t: "len div 72057594037927936 mod 256 = len div 72057594037927936" using assms by simp
  note s = be_step[of len 281474976710656, simplified] be_step[of len 1099511627776, simplified]
    be_step[of len 4294967296, simplified] be_step[of len 16777216, simplified]
    be_step[of len 65536, simplified] be_step[of len 256, simplified] be_step[of len 1, simplified]
  show ?thesis by (simp add: u unat_byte t s)
qed

lemma recv_length_wire:
  assumes "len < 2 ^ 64" "h AND 0x7f = hd (ws_length len)"
  shows "recv_length list_read (tl (ws_length len) @ rest) h = (Some len, rest)"
proof -
  consider "len < 126" | "126 \<le> len" "len < 65536" | "65536 \<le> len" by linarith
  thus ?thesis
  proof cases
    case 1 thus ?thesis using assms by (simp add: recv_length_def ws_length_def unat_byte)
  next
    case 2
    have "len div 256 mod 256 * 256 + len mod 256 = len" using be_step[of len 1] 2 by simp
    thus ?thesis using assms(2) 2
      by (simp add: recv_length_def ws_length_def recv_all_list_read take_bytes_def unat_byte)
  next
    case 3
    thus ?thesis using assms(2) be64[OF assms(1)]
      by (simp add: recv_length_def ws_length_def recv_all_list_read)
  qed
qed

lemma word_opcode:
  assumes "op < 16"
  shows "unat (((if fin then 0x80 else 0) OR of_nat op :: byte) AND 0x0f) = op"
    and "((if fin then 0x80 else 0) OR of_nat op :: byte) AND 0x80 \<noteq> 0 \<longleftrightarrow> fin"
proof -
  have o: "of_nat op AND mask 4 = (of_nat op :: byte)"
    using assms less_mask_eq[of "of_nat op :: byte" 4] by (simp add: word_less_nat_alt unat_of_nat)
  have n: "of_nat op AND (0x80 :: byte) = 0"
  proof -
    have "of_nat op AND (0x80 :: byte) = (of_nat op AND mask 4) AND 0x80" by (simp add: o)
    also have "\<dots> = of_nat op AND (mask 4 AND 0x80)" by (simp add: and.assoc)
    finally show ?thesis by (simp add: mask_eq_exp_minus_1)
  qed
  have f: "((if fin then 0x80 else 0) :: byte) AND 0x0f = 0" by simp
  show "unat (((if fin then 0x80 else 0) OR of_nat op :: byte) AND 0x0f) = op"
    using assms o f by (simp add: bit.conj_disj_distrib2 mask_numerals unat_of_nat)
  show "((if fin then 0x80 else 0) OR of_nat op :: byte) AND 0x80 \<noteq> 0 \<longleftrightarrow> fin"
    using n by (simp add: bit.conj_disj_distrib2)
qed

lemma hd_ws_length: "hd (ws_length n) < 0x80"
  by (simp add: ws_length_def word_less_nat_alt unat_byte)

lemma word_length_byte:
  assumes "(h :: byte) < 0x80"
  shows "h AND 0x7f = h" "h AND 0x80 = 0" "(0x80 OR h) AND 0x7f = h" "(0x80 OR h) AND 0x80 = 0x80"
proof -
  have o: "h AND mask 7 = h" using assms less_mask_eq[of h 7] by simp
  thus a: "h AND 0x7f = h" by (simp add: mask_numerals)
  have "h AND (0x80 :: byte) = (h AND mask 7) AND 0x80" by (simp add: o)
  also have "\<dots> = h AND (mask 7 AND 0x80)" by (simp add: and.assoc)
  finally show b: "h AND 0x80 = 0" by (simp add: mask_eq_exp_minus_1)
  show "(0x80 OR h) AND 0x7f = h" using a by (simp add: bit.conj_disj_distrib2)
  show "(0x80 OR h) AND 0x80 = 0x80" using b by (simp add: bit.conj_disj_distrib2)
qed

lemma ws_length_cons: "ws_length n = hd (ws_length n) # tl (ws_length n)"
  by (simp add: ws_length_def)

lemma recv_frame_wire:
  assumes "op < 16" "n + length p \<le> TCI_WS_MAX_MSG" "\<forall>k. key = Some k \<longrightarrow> length k = 4"
  shows "recv_frame list_read (ws_wire fin op key p @ rest) n =
    (Some \<lparr>wf_fin = fin, wf_opcode = op, wf_payload = p\<rparr>, rest)"
proof -
  let ?h0 = "(if fin then 0x80 else 0) OR of_nat op :: byte"
  let ?l = "ws_length (length p)"
  note h0 = word_opcode[OF assms(1), of fin]
  note h1 = word_length_byte[OF hd_ws_length[of "length p"]]
  have small: "length p < 2 ^ 64" "\<not> TCI_WS_MAX_MSG < length p" "\<not> TCI_WS_MAX_MSG < n + length p"
    using assms(2) by (auto simp: TCI_WS_MAX_MSG_def)
  show ?thesis
  proof (cases key)
    case None
    have "recv_all list_read (ws_wire fin op key p @ rest) 2 = (Some [?h0, hd ?l], tl ?l @ p @ rest)"
    proof -
      have "ws_wire fin op key p @ rest = ?h0 # (hd ?l # tl ?l) @ p @ rest"
        using ws_length_cons[of "length p"] by (simp add: ws_wire_def None)
      thus ?thesis by (simp add: recv_all_list_read take_bytes_def)
    qed
    thus ?thesis
      using small h0 h1 recv_length_wire[of "length p" "hd ?l" "p @ rest"]
      by (simp add: recv_frame_def recv_payload_def recv_all_list_read)
  next
    case (Some k)
    have k: "length k = 4" using assms(3) Some by simp
    have "recv_all list_read (ws_wire fin op key p @ rest) 2 =
        (Some [?h0, 0x80 OR hd ?l], tl ?l @ k @ unmask k p @ rest)"
      by (simp add: ws_wire_def Some recv_all_list_read take_bytes_def)
    thus ?thesis
      using small h0 h1 k recv_length_wire[of "length p" "0x80 OR hd ?l" "k @ unmask k p @ rest"]
      by (simp add: recv_frame_def recv_payload_def recv_all_list_read)
  qed
qed

text \<open>More bytes behind a message change nothing.\<close>

lemma take_bytes_more: "take_bytes n bs = (Some a, r) \<Longrightarrow> take_bytes n (bs @ e) = (Some a, r @ e)"
  by (auto simp: take_bytes_def split: if_splits)

lemma recv_length_more:
  "recv_length list_read bs h = (Some l, r) \<Longrightarrow> recv_length list_read (bs @ e) h = (Some l, r @ e)"
  by (auto simp: recv_length_def recv_all_list_read Let_def split: if_splits option.splits prod.splits
      dest: take_bytes_more[where e = e])

lemma recv_payload_more:
  assumes "recv_payload list_read bs m l = (Some p, r)"
  shows "recv_payload list_read (bs @ e) m l = (Some p, r @ e)"
proof (cases m)
  case False thus ?thesis using assms take_bytes_more by (simp add: recv_payload_def recv_all_list_read)
next
  case True
  then obtain k r1 b where k: "take_bytes 4 bs = (Some k, r1)" "take_bytes l r1 = (Some b, r)" "p = unmask k b"
    using assms by (auto simp: recv_payload_def recv_all_list_read split: option.splits prod.splits)
  show ?thesis using True take_bytes_more[OF k(1), of e] take_bytes_more[OF k(2), of e] k(3)
    by (simp add: recv_payload_def recv_all_list_read)
qed

lemma recv_frame_more:
  assumes "recv_frame list_read bs n = (Some f, r)"
  shows "recv_frame list_read (bs @ e) n = (Some f, r @ e)"
proof -
  obtain h r1 where h: "take_bytes 2 bs = (Some h, r1)"
    using assms by (auto simp: recv_frame_def recv_all_list_read split: option.splits prod.splits)
  obtain l r2 where l: "recv_length list_read r1 (h ! 1) = (Some l, r2)"
    using assms h by (auto simp: recv_frame_def recv_all_list_read split: option.splits prod.splits)
  have c: "\<not> (TCI_WS_MAX_MSG < l \<or> TCI_WS_MAX_MSG < n + l)"
    using assms h l by (auto simp: recv_frame_def recv_all_list_read split: option.splits prod.splits)
  obtain p r3 where p: "recv_payload list_read r2 (h ! 1 AND 0x80 \<noteq> 0) l = (Some p, r3)"
    using assms h l c by (auto simp: recv_frame_def recv_all_list_read split: option.splits prod.splits)
  show ?thesis
    using assms h l c p take_bytes_more[OF h, of e] recv_length_more[OF l, of e] recv_payload_more[OF p, of e]
    by (simp add: recv_frame_def recv_all_list_read)
qed

lemma recv_loop_more:
  "recv_loop list_read fuel bs acc op = Some (Some m, r) \<Longrightarrow>
   recv_loop list_read fuel (bs @ e) acc op = Some (Some m, r @ e)"
proof (induction fuel arbitrary: bs acc op)
  case (Suc fuel)
  obtain f r1 where f: "recv_frame list_read bs (length acc) = (Some f, r1)"
    using Suc.prems by (auto split: option.splits prod.splits)
  show ?case using Suc f recv_frame_more[OF f, of e] by (auto simp: Let_def split: if_splits)
qed simp

section \<open>Whole messages\<close>

text \<open>A message in fragments: the first carries the opcode, the last the final bit.\<close>

fun ws_fragments :: "nat \<Rightarrow> (byte list option \<times> byte list) list \<Rightarrow> byte list" where
  "ws_fragments op [] = []"
| "ws_fragments op [f] = ws_wire True op (fst f) (snd f)"
| "ws_fragments op (f # g # fs) = ws_wire False op (fst f) (snd f) @ ws_fragments 0 (g # fs)"

definition keys_ok :: "(byte list option \<times> byte list) list \<Rightarrow> bool" where
  "keys_ok fs = list_all (\<lambda>f. case fst f of None \<Rightarrow> True | Some k \<Rightarrow> length k = 4) fs"

lemma keys_ok_Cons: "keys_ok (f # fs) = ((\<forall>k. fst f = Some k \<longrightarrow> length k = 4) \<and> keys_ok fs)"
  by (auto simp: keys_ok_def split: option.split)

lemma recv_continuation:
  assumes "fs \<noteq> []" "length fs \<le> fuel" "keys_ok fs"
    "length acc + length (concat (map snd fs)) \<le> TCI_WS_MAX_MSG"
  shows "recv_loop list_read fuel (ws_fragments 0 fs @ rest) acc (Some op) =
    Some (Some (op, acc @ concat (map snd fs)), rest)"
  using assms
proof (induction fs arbitrary: fuel acc)
  case (Cons f fs)
  obtain n where n: "fuel = Suc n" using Cons.prems(2) by (cases fuel) auto
  have k: "\<forall>k. fst f = Some k \<longrightarrow> length k = 4" and ks: "keys_ok fs"
    using Cons.prems(3) by (simp_all add: keys_ok_Cons)
  have m: "length acc + length (snd f) \<le> TCI_WS_MAX_MSG" using Cons.prems(4) by simp
  note w = recv_frame_wire[of 0 "length acc" "snd f" "fst f", OF _ m k, simplified]
  show ?case
  proof (cases fs)
    case Nil thus ?thesis by (simp add: n w Let_def)
  next
    case (Cons g gs)
    thus ?thesis using Cons.IH[of n "acc @ snd f"] Cons.prems ks by (simp add: n w Let_def)
  qed
qed simp

lemma recv_fragments:
  assumes "fs \<noteq> []" "length fs \<le> fuel" "keys_ok fs" "0 < op" "op < 8"
    "length (concat (map snd fs)) \<le> TCI_WS_MAX_MSG"
  shows "tci_ws_io_recv list_read fuel (ws_fragments op fs @ rest) = Some (Some (op, concat (map snd fs)), rest)"
proof -
  obtain f gs where f: "fs = f # gs" using assms(1) by (cases fs) auto
  obtain n where n: "fuel = Suc n" using assms(2) f by (cases fuel) auto
  have k: "\<forall>k. fst f = Some k \<longrightarrow> length k = 4" and ks: "keys_ok gs"
    using assms(3) by (simp_all add: f keys_ok_Cons)
  have m: "0 + length (snd f) \<le> TCI_WS_MAX_MSG" using assms(6) by (simp add: f)
  note w = recv_frame_wire[of op 0 "snd f" "fst f", OF _ m k, simplified]
  show ?thesis
  proof (cases gs)
    case Nil thus ?thesis using assms w by (simp add: f n tci_ws_io_recv_def Let_def)
  next
    case (Cons g hs)
    hence "recv_loop list_read n (ws_fragments 0 gs @ rest) (snd f) (Some op) =
        Some (Some (op, snd f @ concat (map snd gs)), rest)"
      using assms f ks n by (intro recv_continuation) auto
    thus ?thesis using assms w Cons by (simp add: f n tci_ws_io_recv_def Let_def)
  qed
qed

lemma recv_control:
  assumes "8 \<le> op" "op < 16" "length p \<le> TCI_WS_MAX_MSG" "\<forall>k. key = Some k \<longrightarrow> length k = 4"
  shows "tci_ws_io_recv list_read (Suc fuel) (ws_wire fin op key p @ rest) = Some (Some (op, p), rest)"
  using recv_frame_wire[of op 0 p key fin rest] assms by (simp add: tci_ws_io_recv_def)

text \<open>Every turn of the loop takes at least a header, so it ends.\<close>

lemma take_bytes_shorter: "take_bytes n bs = (x, r) \<Longrightarrow> length r \<le> length bs"
  by (auto simp: take_bytes_def split: if_splits)

lemma recv_length_shorter: "recv_length list_read bs h = (x, r) \<Longrightarrow> length r \<le> length bs"
  by (auto simp: recv_length_def recv_all_list_read Let_def split: if_splits option.splits prod.splits
      dest: take_bytes_shorter)

lemma recv_payload_shorter: "recv_payload list_read bs m l = (x, r) \<Longrightarrow> length r \<le> length bs"
  by (force simp: recv_payload_def recv_all_list_read split: if_splits option.splits prod.splits
      dest: take_bytes_shorter)

lemma recv_frame_shorter: "recv_frame list_read bs n = (Some f, r) \<Longrightarrow> length r + 2 \<le> length bs"
proof -
  assume a: "recv_frame list_read bs n = (Some f, r)"
  obtain h r1 where h: "take_bytes 2 bs = (Some h, r1)"
    using a by (auto simp: recv_frame_def recv_all_list_read split: option.splits prod.splits)
  obtain l r2 where l: "recv_length list_read r1 (h ! 1) = (Some l, r2)"
    using a h by (auto simp: recv_frame_def recv_all_list_read split: option.splits prod.splits)
  obtain p where p: "recv_payload list_read r2 (h ! 1 AND 0x80 \<noteq> 0) l = (Some p, r)"
    using a h l by (auto simp: recv_frame_def recv_all_list_read split: option.splits prod.splits if_splits)
  have "length r1 + 2 = length bs" using h by (auto simp: take_bytes_def split: if_splits)
  thus ?thesis using recv_length_shorter[OF l] recv_payload_shorter[OF p] by linarith
qed

lemma recv_loop_ends: "length bs < 2 * fuel \<Longrightarrow> recv_loop list_read fuel bs acc op \<noteq> None"
proof (induction fuel arbitrary: bs acc op)
  case (Suc fuel)
  show ?case
  proof (cases "recv_frame list_read bs (length acc)")
    case (Pair f r)
    show ?thesis
    proof (cases f)
      case None thus ?thesis by (simp add: Pair)
    next
      case (Some g)
      have "length r < 2 * fuel" using recv_frame_shorter[of bs "length acc" g r] Pair Some Suc.prems by simp
      thus ?thesis using Suc.IH[of r] by (simp add: Pair Some Let_def)
    qed
  qed
qed simp

text \<open>A message is delivered whole or not at all.\<close>

lemma recv_cut:
  assumes full: "tci_ws_io_recv list_read fuel bs = Some (Some m, [])"
    and cut: "k < length bs" and fuel: "k < 2 * fuel"
  shows "\<exists>r. tci_ws_io_recv list_read fuel (take k bs) = Some (None, r)"
proof -
  have "recv_loop list_read fuel (take k bs) [] None \<noteq> None" using recv_loop_ends cut fuel by simp
  then obtain x r where x: "recv_loop list_read fuel (take k bs) [] None = Some (x, r)" by auto
  show ?thesis
  proof (cases x)
    case None thus ?thesis using x by (simp add: tci_ws_io_recv_def)
  next
    case (Some y)
    from recv_loop_more[OF x[unfolded Some], of "drop k bs"]
    have "recv_loop list_read fuel bs [] None = Some (Some y, r @ drop k bs)" by simp
    thus ?thesis using full cut by (simp add: tci_ws_io_recv_def)
  qed
qed

text \<open>The cap holds for the whole message.\<close>

lemma recv_all_length: "recv_all list_read bs n = (Some a, r) \<Longrightarrow> length a = n"
  by (auto simp: recv_all_list_read take_bytes_def split: if_splits)

lemma recv_frame_cap:
  "recv_frame list_read bs n = (Some f, r) \<Longrightarrow> n + length (wf_payload f) \<le> TCI_WS_MAX_MSG"
  by (auto simp: recv_frame_def recv_payload_def split: option.splits prod.splits if_splits dest!: recv_all_length)

lemma recv_loop_cap:
  "length acc \<le> TCI_WS_MAX_MSG \<Longrightarrow> recv_loop list_read fuel bs acc op = Some (Some (o1, m), r) \<Longrightarrow>
   length m \<le> TCI_WS_MAX_MSG"
proof (induction fuel arbitrary: bs acc op)
  case (Suc fuel)
  obtain f r1 where f: "recv_frame list_read bs (length acc) = (Some f, r1)"
    using Suc.prems(2) by (auto split: option.splits prod.splits)
  show ?case using Suc.prems f recv_frame_cap[OF f]
    by (auto simp: Let_def split: if_splits dest: Suc.IH[rotated])
qed simp

section \<open>The upgrade\<close>

text \<open>SHA-1 and base64 are GLib's and are arguments. A buffer is a C string: what
follows a null in it is not seen.\<close>

definition chars :: "byte list \<Rightarrow> string" where
  "chars bs = map (\<lambda>b. char_of (unat b)) bs"

definition octets :: "string \<Rightarrow> byte list" where
  "octets s = map (\<lambda>c. of_nat (of_char c)) s"

lemma chars_octets [simp]: "chars (octets s) = s"
  by (induction s) (simp_all add: chars_def octets_def unat_byte of_char_mod_256)

lemma chars_append [simp]: "chars (a @ b) = chars a @ chars b"
  by (simp add: chars_def)

lemma octets_append [simp]: "octets (a @ b) = octets a @ octets b"
  by (simp add: octets_def)

lemma length_octets [simp]: "length (octets s) = length s"
  by (simp add: octets_def)

definition seen_string :: "string \<Rightarrow> string" where
  "seen_string s = takeWhile (\<lambda>c. c \<noteq> CHR 0x00) s"

fun strstr :: "string \<Rightarrow> string \<Rightarrow> string option" where
  "strstr needle [] = (if needle = [] then Some [] else None)"
| "strstr needle (c # cs) =
     (if take (length needle) (c # cs) = needle then Some (c # cs) else strstr needle cs)"

definition crlf :: string where "crlf = [CHR 0x0D, CHR 0x0A]"

definition TCI_WS_GUID :: string where "TCI_WS_GUID = ''258EAFA5-E914-47DA-95CA-C5AB0DC85B11''"

definition ws_accept_key :: "(string \<Rightarrow> byte list) \<Rightarrow> (byte list \<Rightarrow> string) \<Rightarrow> string \<Rightarrow> string" where
  "ws_accept_key sha1 base64 key = base64 (sha1 (take 255 (key @ TCI_WS_GUID)))"

definition ws_response :: "string \<Rightarrow> string option \<Rightarrow> string" where
  "ws_response accept protocol =
     ''HTTP/1.1 101 Switching Protocols'' @ crlf @ ''Upgrade: websocket'' @ crlf @
     ''Connection: Upgrade'' @ crlf @ ''Sec-WebSocket-Accept: '' @ accept @ crlf @
     (case protocol of None \<Rightarrow> [] | Some p \<Rightarrow> ''Sec-WebSocket-Protocol: '' @ p @ crlf) @ crlf"

definition tci_ws_io_accept ::
    "(string \<Rightarrow> byte list) \<Rightarrow> (byte list \<Rightarrow> string) \<Rightarrow> 's write_cb \<Rightarrow> nat \<Rightarrow> 's \<Rightarrow>
     string option \<Rightarrow> string option \<Rightarrow> (bool \<times> 's) option" where
  "tci_ws_io_accept sha1 base64 wr fuel s key protocol =
     (if key = None \<or> key = Some [] then Some (False, s)
      else tci_ws_io_send_all wr fuel s (octets (ws_response (ws_accept_key sha1 base64 (the key)) protocol)))"

text \<open>The request is read into 2,048 characters, until the blank line that ends it.\<close>

function read_request :: "'s read_cb \<Rightarrow> 's \<Rightarrow> string \<Rightarrow> string option \<times> 's" where
  "read_request rd s req =
     (if length req < 2047 then
        case rd s (2047 - length req) of
          (None, s1) \<Rightarrow> (None, s1)
        | (Some got, s1) \<Rightarrow>
            if got = [] then (None, s1)
            else if strstr (crlf @ crlf) (seen_string (req @ chars got)) \<noteq> None then (Some (req @ chars got), s1)
            else read_request rd s1 (req @ chars got)
      else (Some req, s))"
  by pat_completeness auto
termination by (relation "measure (\<lambda>(_, _, req). 2047 - length req)")
  (auto simp: chars_def simp flip: length_greater_0_conv)

declare read_request.simps [simp del]

fun find_key_header :: "string \<Rightarrow> string option" where
  "find_key_header [] = None"
| "find_key_header (c # cs) =
     (if strcaseeq (take 18 (c # cs)) ''Sec-WebSocket-Key:'' then Some (drop 18 (c # cs))
      else find_key_header cs)"

definition request_key :: "string \<Rightarrow> string option" where
  "request_key req = (case find_key_header (seen_string req) of
     None \<Rightarrow> None
   | Some h \<Rightarrow> Some (take 127 (takeWhile (\<lambda>c. c \<noteq> CHR 0x0D \<and> c \<noteq> CHR 0x0A)
        (dropWhile (\<lambda>c. c = CHR '' '' \<or> c = CHR 0x09) h))))"

definition tci_ws_handshake ::
    "(string \<Rightarrow> byte list) \<Rightarrow> (byte list \<Rightarrow> string) \<Rightarrow> 's read_cb \<Rightarrow> 's write_cb \<Rightarrow> nat \<Rightarrow> 's \<Rightarrow>
     (bool \<times> 's) option" where
  "tci_ws_handshake sha1 base64 rd wr fuel s =
     (case read_request rd s [] of
        (None, s1) \<Rightarrow> Some (False, s1)
      | (Some req, s1) \<Rightarrow> (case request_key req of
          None \<Rightarrow> Some (False, s1)
        | Some key \<Rightarrow> tci_ws_io_accept sha1 base64 wr fuel s1 (Some key) None))"

context byte_stream
begin

text \<open>The request is read whole, however it arrives.\<close>

lemma read_request_whole:
  assumes "pending s = octets rest" "rest \<noteq> []" "length (sofar @ rest) \<le> 2047"
    "strstr (crlf @ crlf) (seen_string (sofar @ rest)) \<noteq> None"
    "\<forall>k < length (sofar @ rest). strstr (crlf @ crlf) (seen_string (take k (sofar @ rest))) = None"
  shows "\<exists>s1. read_request rd s sofar = (Some (sofar @ rest), s1) \<and> pending s1 = []"
  using assms
proof (induction "length rest" arbitrary: s sofar rest rule: less_induct)
  case less
  let ?n = "2047 - length sofar"
  have n: "0 < ?n" "length sofar < 2047" using less.prems(2,3) by (cases rest; simp)+
  have "pending s \<noteq> []" using less.prems(1,2) by (simp add: octets_def)
  from read_some[OF n(1) this] obtain got s1
    where g: "rd s ?n = (Some got, s1)" "got \<noteq> []" "length got \<le> ?n" "pending s = got @ pending s1" by blast
  let ?k = "length got"
  have l: "?k \<le> length rest" using g(4) less.prems(1) by (metis length_append length_octets le_add1)
  have "chars got @ chars (pending s1) = rest" using g(4) less.prems(1) by (metis chars_append chars_octets)
  moreover have "length (chars got) = ?k" by (simp add: chars_def)
  ultimately have cg: "chars got = take ?k rest" by (metis append_eq_conv_conj)
  have p1: "pending s1 = octets (drop ?k rest)"
    using g(4) less.prems(1) by (metis append_eq_conv_conj drop_map octets_def)
  show ?case
  proof (cases "?k = length rest")
    case True
    hence "read_request rd s sofar = (Some (sofar @ rest), s1)"
      using n g(1,2) cg less.prems(4) by (subst read_request.simps) simp
    thus ?thesis using p1 True by (simp add: octets_def)
  next
    case False
    hence k: "?k < length rest" using l by simp
    have "sofar @ chars got = take (length sofar + ?k) (sofar @ rest)" by (simp add: cg)
    hence "strstr (crlf @ crlf) (seen_string (sofar @ chars got)) = None"
      using less.prems(5)[rule_format, of "length sofar + ?k"] k by simp
    hence step: "read_request rd s sofar = read_request rd s1 (sofar @ chars got)"
      using n g(1,2) by (subst read_request.simps) simp
    have whole: "(sofar @ chars got) @ drop ?k rest = sofar @ rest" by (simp add: cg)
    have "length (drop ?k rest) < length rest" using g(2) k by (cases got) auto
    from less.hyps[OF this p1, of "sofar @ chars got"] k less.prems(3,4,5)
    show ?thesis unfolding step whole by simp
  qed
qed

end

lemma socket_read_out: "so_out (snd (socket_read s n)) = so_out s"
  by (simp add: socket_read_def split: list.split)

lemma read_request_out: "so_out (snd (read_request socket_read s req)) = so_out s"
proof (induction "2047 - length req" arbitrary: s req rule: less_induct)
  case less
  obtain x s1 where x: "socket_read s (2047 - length req) = (x, s1)" by (cases "socket_read s (2047 - length req)")
  have o: "so_out s1 = so_out s" using socket_read_out[of s "2047 - length req"] x by simp
  show ?case
  proof (cases "length req < 2047 \<and> (\<exists>got. x = Some got \<and> got \<noteq> [])")
    case False
    thus ?thesis using x o by (subst read_request.simps) (auto split: option.split)
  next
    case True
    then obtain got where g: "x = Some got" "got \<noteq> []" by blast
    hence "so_out (snd (read_request socket_read s1 (req @ chars got))) = so_out s1"
      using True by (intro less) (auto simp: chars_def simp flip: length_greater_0_conv)
    thus ?thesis using x o g by (subst read_request.simps) simp
  qed
qed

text \<open>The upgrade answers the key of the request.\<close>

lemma handshake_answers:
  assumes "arriving s = octets req" "req \<noteq> []" "length req \<le> 2047"
    "strstr (crlf @ crlf) (seen_string req) \<noteq> None"
    "\<forall>k < length req. strstr (crlf @ crlf) (seen_string (take k req)) = None"
    "request_key req = Some key" "key \<noteq> []"
    "tci_ws_handshake sha1 base64 socket_read socket_write fuel s = Some (True, s1)"
  shows "so_out s1 = so_out s @ octets (ws_response (ws_accept_key sha1 base64 key) None)"
proof -
  obtain s2 where r: "read_request socket_read s [] = (Some req, s2)"
    using socket.read_request_whole[of s req "[]"] assms(1-5) by auto
  have "so_out s2 = so_out s" using read_request_out[of s "[]"] r by simp
  thus ?thesis using assms(6-8) r socket_out.send_all_whole
    by (auto simp: tci_ws_handshake_def tci_ws_io_accept_def)
qed

section \<open>Text to be keyed\<close>

text \<open>The message of a \<open>cw_msg\<close> command (\<open>src/proto/tci_cw.c\<close>):
\<open>cw_msg:trx,before,callsign,after\<close>, where the last field is the text and may
hold commas.\<close>

definition g_ascii_isspace :: "char \<Rightarrow> bool" where
  "g_ascii_isspace c = (c \<in> set [CHR '' '', CHR 0x09, CHR 0x0A, CHR 0x0C, CHR 0x0D])"

definition tci_cw_append :: "string \<Rightarrow> string \<Rightarrow> string" where
  "tci_cw_append s part =
     (if part = [] then s
      else if s \<noteq> [] \<and> \<not> g_ascii_isspace (last s) \<and> \<not> g_ascii_isspace (hd part) then s @ '' '' @ part
      else s @ part)"

definition split_at :: "char \<Rightarrow> string \<Rightarrow> (string \<times> string) option" where
  "split_at d s = (if d \<in> set s then Some (takeWhile (\<lambda>c. c \<noteq> d) s, tl (dropWhile (\<lambda>c. c \<noteq> d) s)) else None)"

definition tci_cw_msg_fields :: "string \<Rightarrow> (string \<times> string \<times> string) option" where
  "tci_cw_msg_fields token =
     (case split_at (CHR '':'') token of None \<Rightarrow> None
      | Some (_, p) \<Rightarrow> (case split_at (CHR '','') p of None \<Rightarrow> None
      | Some (_, q) \<Rightarrow> (case split_at (CHR '','') q of None \<Rightarrow> None
      | Some (before, r) \<Rightarrow> (case split_at (CHR '','') r of None \<Rightarrow> None
      | Some (after, text) \<Rightarrow> Some (before, after, text)))))"

definition tci_cw_msg_text :: "string \<Rightarrow> string option" where
  "tci_cw_msg_text token =
     (case tci_cw_msg_fields token of None \<Rightarrow> None
      | Some (before, after, text) \<Rightarrow>
          let msg = tci_cw_append (tci_cw_append (tci_cw_append [] before) text) after
          in if msg = [] then None else Some msg)"

lemma split_at_app: "d \<notin> set a \<Longrightarrow> split_at d (a @ d # b) = Some (a, b)"
  by (simp add: split_at_def takeWhile_upto dropWhile_upto)

lemma cw_msg_fields_back:
  assumes "CHR '':'' \<notin> set name" "CHR '','' \<notin> set trx" "CHR '','' \<notin> set before" "CHR '','' \<notin> set after"
  shows "tci_cw_msg_fields (name @ '':'' @ trx @ '','' @ before @ '','' @ after @ '','' @ text) =
    Some (before, after, text)"
  using assms by (simp add: tci_cw_msg_fields_def split_at_app)

text \<open>The fields are keyed as separate words, each whole and in the order before, text,
after.\<close>

definition spaced :: "string \<Rightarrow> string \<Rightarrow> bool" where
  "spaced a b = (a = [] \<or> b = [] \<or> g_ascii_isspace (last a) \<or> g_ascii_isspace (hd b))"

lemma cw_append_spaced:
  "\<exists>gap. tci_cw_append s part = s @ gap @ part \<and> spaced s (gap @ part) \<and> (gap = [] \<or> gap = '' '')"
proof -
  consider "part = []" | "part \<noteq> []" "s \<noteq> [] \<and> \<not> g_ascii_isspace (last s) \<and> \<not> g_ascii_isspace (hd part)"
    | "part \<noteq> []" "\<not> (s \<noteq> [] \<and> \<not> g_ascii_isspace (last s) \<and> \<not> g_ascii_isspace (hd part))" by blast
  thus ?thesis
  proof cases
    case 2 thus ?thesis by (intro exI[of _ "'' ''"]) (auto simp: tci_cw_append_def spaced_def g_ascii_isspace_def)
  qed (auto simp: tci_cw_append_def spaced_def)
qed

section \<open>Properties\<close>

lemma ws_length_nonempty: "ws_length n \<noteq> []"
  by (simp add: ws_length_def)

lemma ws_wire_length: "2 \<le> length (ws_wire fin op key p)"
  using ws_length_nonempty[of "length p"] by (cases "ws_length (length p)") (auto simp: ws_wire_def split: option.split)

lemma ws_fragments_length: "2 * length fs \<le> length (ws_fragments op fs)"
proof (induction op fs rule: ws_fragments.induct)
  case (3 op f g fs)
  thus ?case using ws_wire_length[of False op "fst f" "snd f"] by simp
qed (simp_all add: ws_wire_length)

text \<open>C15: What the receiver makes of a connection depends only on the bytes that arrive and
not on how the transport cuts them: reading from the socket, with its partial reads, is the
same function as reading from the list of those bytes, in the message, the verdict and what is
left unread.\<close>

theorem recv_sees_only_the_bytes:
  "map_option (\<lambda>(m, s1). (m, arriving s1)) (tci_ws_io_recv socket_read fuel s) =
   tci_ws_io_recv list_read fuel (arriving s)"
  using socket.recv_seen[of fuel s]
  by (cases "tci_ws_io_recv socket_read fuel s") (auto simp: socket.seen_def)

text \<open>C12: A message a client sends in any number of fragments, each masked with its own key
or not masked, and delivered by the socket in segments of any size, is received as one message
with the opcode of its first fragment and the payloads in order, and what follows it is left for
the next call.\<close>

theorem fragmented_message_reassembled:
  assumes "arriving s = ws_fragments op fs @ rest" "fs \<noteq> []" "keys_ok fs" "0 < op" "op < 8"
    "length (concat (map snd fs)) \<le> TCI_WS_MAX_MSG" "length fs \<le> fuel"
  shows "\<exists>s1. tci_ws_io_recv socket_read fuel s = Some (Some (op, concat (map snd fs)), s1) \<and> arriving s1 = rest"
  by (rule socket.recv_result) (simp add: assms recv_fragments)

theorem fragmented_message_reassembled_witness:
  "\<exists>s1. tci_ws_io_recv socket_read 2
     \<lparr>so_in = [[0x01, 0x83, 1], [2, 3, 4, 0x77, 0x64], [0x6c, 0x80, 0x82, 9, 9, 9, 9, 0x38, 0x32, 0x88], [0]],
      so_out = [], so_events = []\<rparr> = Some (Some (1, [0x76, 0x66, 0x6f, 0x31, 0x3b]), s1) \<and> arriving s1 = [0x88, 0]"
  using fragmented_message_reassembled[of "\<lparr>so_in = [[0x01, 0x83, 1], [2, 3, 4, 0x77, 0x64],
      [0x6c, 0x80, 0x82, 9, 9, 9, 9, 0x38, 0x32, 0x88], [0]], so_out = [], so_events = []\<rparr>" 1
      "[(Some [1, 2, 3, 4], [0x76, 0x66, 0x6f]), (Some [9, 9, 9, 9], [0x31, 0x3b])]" "[0x88, 0]" 2]
  by (simp add: arriving_def ws_wire_def ws_length_def unmask_def keys_ok_def TCI_WS_MAX_MSG_def upt_rec)

text \<open>C13: A connection that is cut anywhere inside a message, fragmented or not, is an error:
the receiver returns -1 and never hands over the part that arrived, so a truncated command is
never carried out.\<close>

theorem cut_message_is_an_error:
  assumes "arriving s = take k (ws_fragments op fs)" "k < length (ws_fragments op fs)"
    "fs \<noteq> []" "keys_ok fs" "0 < op" "op < 8" "length (concat (map snd fs)) \<le> TCI_WS_MAX_MSG"
    "length (ws_fragments op fs) \<le> 2 * fuel"
  shows "\<exists>s1. tci_ws_io_recv socket_read fuel s = Some (None, s1)"
proof -
  have "length fs \<le> fuel" using ws_fragments_length[of fs op] assms(8) by simp
  hence "tci_ws_io_recv list_read fuel (ws_fragments op fs) = Some (Some (op, concat (map snd fs)), [])"
    using recv_fragments[of fs fuel op "[]"] assms by simp
  from recv_cut[OF this assms(2)] assms(1,2,8) socket.recv_result[of fuel s None] show ?thesis by auto
qed

theorem cut_message_is_an_error_witness:
  "\<exists>s1. tci_ws_io_recv socket_read 4 \<lparr>so_in = [[0x01, 0x03, 0x76], [0x66, 0x6f, 0x80]], so_out = [],
     so_events = []\<rparr> = Some (None, s1)"
  using cut_message_is_an_error[of "\<lparr>so_in = [[0x01, 0x03, 0x76], [0x66, 0x6f, 0x80]], so_out = [], so_events = []\<rparr>"
      6 1 "[(None, [0x76, 0x66, 0x6f]), (None, [])]" 4]
  by (simp add: arriving_def ws_wire_def ws_length_def keys_ok_def TCI_WS_MAX_MSG_def)

text \<open>C14: A message the server sends, however the system takes the bytes, partial and
interrupted writes included, is received by the same code as that opcode and payload, for text,
binary, close, ping and pong alike and for every length up to the cap (7, 16 and 64 bit length
fields).\<close>

theorem sent_message_received:
  assumes "tci_ws_io_send_blocking socket_write fuel s (int op) p = Some (True, s1)" "so_out s = []"
    "0 < op" "op < 16" "length p \<le> TCI_WS_MAX_MSG" "arriving r = so_out s1 @ rest"
  shows "\<exists>r1. tci_ws_io_recv socket_read (Suc n) r = Some (Some (op, p), r1) \<and> arriving r1 = rest"
proof (rule socket.recv_result)
  have "so_out s1 = ws_wire True op None p"
    using socket_out.send_blocking_whole[OF assms(1)] assms(2,4) write_header_wire by simp
  hence a: "arriving r = ws_wire True op None p @ rest" using assms(6) by simp
  show "tci_ws_io_recv list_read (Suc n) (arriving r) = Some (Some (op, p), rest)"
  proof (cases "op < 8")
    case True
    thus ?thesis using recv_fragments[of "[(None, p)]" "Suc n" op rest] assms(3,5) a by (simp add: keys_ok_def)
  next
    case False
    thus ?thesis using recv_control[of op p None n True rest] assms(4,5) a by simp
  qed
qed

theorem sent_message_received_witness:
  "\<exists>r1. tci_ws_io_recv socket_read 1 \<lparr>so_in = [[0x81], [2, 0x72], [0x78]], so_out = [], so_events = []\<rparr> =
     Some (Some (1, [0x72, 0x78]), r1) \<and> arriving r1 = []"
proof -
  have send: "tci_ws_io_send_blocking socket_write (Suc (Suc (Suc 0)))
      \<lparr>so_in = [], so_out = [], so_events = [Wrote 1, Interrupted, Wrote 9, Wrote 9]\<rparr> (int 1) [0x72, 0x78] =
      Some (True, \<lparr>so_in = [], so_out = [0x81, 2, 0x72, 0x78], so_events = []\<rparr>)"
    by (simp add: tci_ws_io_send_blocking_def tci_ws_write_header_def socket_write_def)
  from sent_message_received[OF send, of "\<lparr>so_in = [[0x81], [2, 0x72], [0x78]], so_out = [], so_events = []\<rparr>" "[]" 0]
  show ?thesis by (simp add: arriving_def TCI_WS_MAX_MSG_def)
qed

text \<open>Whatever a peer sends, no message longer than the cap is ever handed over: the
limit counts all the fragments of a message, so fragments cannot grow it.\<close>

theorem message_within_cap:
  assumes "tci_ws_io_recv socket_read fuel s = Some (Some (op, m), s1)"
  shows "length m \<le> TCI_WS_MAX_MSG"
proof -
  have "recv_loop list_read fuel (arriving s) [] None = Some (Some (op, m), arriving s1)"
    using socket.recv_seen[of fuel s] assms by (simp add: tci_ws_io_recv_def)
  from recv_loop_cap[OF _ this] show ?thesis by simp
qed

theorem message_within_cap_witness: "length [0x76 :: byte] \<le> TCI_WS_MAX_MSG"
  by (rule message_within_cap[of 1 "\<lparr>so_in = [[0x81, 1, 0x76]], so_out = [], so_events = []\<rparr>" 1 _
        "\<lparr>so_in = [[]], so_out = [], so_events = []\<rparr>"])
     (simp add: tci_ws_io_recv_def recv_frame_def recv_length_def recv_payload_def recv_all.simps socket_read_def
        TCI_WS_MAX_MSG_def)

end
