(* ===== verification/Ptt.thy ===== *)
theory Ptt
  imports P1_Receive Vfo "HOL-Library.Signed_Division"
begin

text \<open>Keying: what switches the program between receiving and transmitting. The MOX,
tune and PTT paths of \<open>src/core/radio.c\<close> (\<open>rxtx\<close>,
\<open>set_mox\<close>, \<open>ptt_changed\<close>, \<open>set_tune\<close>) and the voice
operated switch of \<open>src/core/vox.c\<close>.

The state is the radio of theory \<open>Radio\<close> with what these functions reach besides
it: the run state of the WDSP channels, the PostGen generator, PureSignal, the stream of a
SoapySDR device, the clients told over TCI, the VOX settings and the GLib main loop. The main
loop is the list of idle callbacks still to be run, in order, and the VOX poll source.

Three threads meet here: the GTK thread runs the callbacks and the operator's actions one at
a time, the microphone thread runs \<open>update_vox\<close> and the receive thread decodes the
key lines of the radio. The microphone thread is cut at each of its accesses to shared
variables, so that every interleaving is a sequence of steps.\<close>

section \<open>State\<close>

datatype idle = Vox_key | Ext_ptt_changed | Ext_set_mox bool

datatype soapy_call = Rx_pause | Set_tx_frequency | Set_tx_antenna | Activate_tx | Deactivate_tx | Rx_resume

record keying =
  k_radio :: radio
  k_tx_channel :: int
  k_duplex :: "nat \<Rightarrow> bool"
  k_full_duplex :: bool
  k_running :: "int \<Rightarrow> bool"
  k_ps_mox :: bool
  k_txfbk_samples :: int
  k_rxfbk_samples :: int
  k_txa_mode :: int
  k_postgen :: bool
  k_tones :: "real list"
  k_tune_two_tone :: bool
  k_tune_tt_spacing :: real
  k_txcal_active :: bool
  k_p2_updates :: int
  k_soapy :: "soapy_call list"
  k_tci :: "bool list"
  k_vox_enabled :: bool
  k_vox_peak :: real
  k_vox_threshold :: real
  k_vox_hang :: real
  k_vox_timeout :: bool
  k_vox_hang_until :: int
  k_hang_time_ctr :: real
  k_protocol1_timer :: real
  k_idle :: "idle list"

definition tx_mode_a :: "radio \<Rightarrow> int" where
  "tx_mode_a r = (case tx_receiver r of None \<Rightarrow> USB | Some rx \<Rightarrow> rx_mode_a rx)"

section \<open>Switching between receive and transmit\<close>

definition SetChannelState :: "int \<Rightarrow> bool \<Rightarrow> keying \<Rightarrow> keying" where
  "SetChannelState ch on k = k\<lparr>k_running := (k_running k)(ch := on)\<rparr>"

text \<open>The receivers that do not listen through a transmission.\<close>

definition half_duplex :: "keying \<Rightarrow> nat \<Rightarrow> receiver option" where
  "half_duplex k i =
     (if i < length (r_receiver (k_radio k)) \<and> \<not> k_duplex k i then r_receiver (k_radio k) ! i else None)"

definition run_slot :: "bool \<Rightarrow> nat \<Rightarrow> keying \<Rightarrow> keying" where
  "run_slot on i k = (case half_duplex k i of None \<Rightarrow> k | Some rx \<Rightarrow> SetChannelState (rx_channel rx) on k)"

definition run_receivers :: "bool \<Rightarrow> keying \<Rightarrow> keying" where
  "run_receivers on k = fold (run_slot on) [0..<d_supported_receivers (r_discovered (k_radio k))] k"

definition duplex_wanted :: "keying \<Rightarrow> bool" where
  "duplex_wanted k =
     list_ex (\<lambda>i. i < length (r_receiver (k_radio k)) \<and> r_receiver (k_radio k) ! i \<noteq> None \<and> k_duplex k i)
       [0..<d_supported_receivers (r_discovered (k_radio k))]"

definition puresignal_on :: "keying \<Rightarrow> keying" where
  "puresignal_on k =
     (let tx = r_transmitter (k_radio k)
      in if tx_puresignal tx
         then k\<lparr>k_ps_mox := True,
                k_txfbk_samples := (if tx_rx_puresignal_txfbk tx \<noteq> None then 0 else k_txfbk_samples k),
                k_rxfbk_samples := (if tx_rx_puresignal_rxfbk tx \<noteq> None then 0 else k_rxfbk_samples k)\<rparr>
         else k)"

definition puresignal_off :: "keying \<Rightarrow> keying" where
  "puresignal_off k = (if tx_puresignal (r_transmitter (k_radio k)) then k\<lparr>k_ps_mox := False\<rparr> else k)"

definition device_transmit :: "keying \<Rightarrow> keying" where
  "device_transmit k = (case d_protocol (r_discovered (k_radio k)) of
     PROTOCOL_2 \<Rightarrow> k\<lparr>k_p2_updates := k_p2_updates k + 1\<rparr>
   | PROTOCOL_SOAPYSDR \<Rightarrow>
       k\<lparr>k_soapy := k_soapy k @ (if k_full_duplex k \<and> duplex_wanted k then [] else [Rx_pause])
            @ [Set_tx_frequency, Set_tx_antenna, Activate_tx]\<rparr>
   | _ \<Rightarrow> k)"

definition device_receive :: "keying \<Rightarrow> keying" where
  "device_receive k = (case d_protocol (r_discovered (k_radio k)) of
     PROTOCOL_2 \<Rightarrow> k\<lparr>k_p2_updates := k_p2_updates k + 1\<rparr>
   | PROTOCOL_SOAPYSDR \<Rightarrow> k\<lparr>k_soapy := k_soapy k @ [Deactivate_tx, Rx_resume]\<rparr>
   | _ \<Rightarrow> k)"

definition rxtx :: "keying \<Rightarrow> keying" where
  "rxtx k =
     (if isTransmitting (k_radio k)
      then device_transmit (puresignal_on (SetChannelState (k_tx_channel k) True (run_receivers False k)))
      else (device_receive (run_receivers True (puresignal_off (SetChannelState (k_tx_channel k) False k))))
             \<lparr>k_vox_peak := 0\<rparr>)"

section \<open>MOX, PTT and tune\<close>

definition mox_stops_tune :: "keying \<Rightarrow> keying" where
  "mox_stops_tune k =
     (if r_tune (k_radio k)
      then k\<lparr>k_radio := (k_radio k)\<lparr>r_tune := False\<rparr>, k_postgen := False,
             k_txa_mode := (if tx_mode_a (k_radio k) = CWL \<or> tx_mode_a (k_radio k) = CWU
                            then tx_mode_a (k_radio k) else k_txa_mode k)\<rparr>
      else k)"

definition set_mox :: "bool \<Rightarrow> keying \<Rightarrow> keying" where
  "set_mox st k =
     (let k1 = mox_stops_tune k
      in rxtx (k1\<lparr>k_radio := (k_radio k1)\<lparr>r_mox := st\<rparr>, k_tci := k_tci k1 @ [st]\<rparr>))"

definition ptt_changed :: "keying \<Rightarrow> keying" where
  "ptt_changed k = set_mox (r_local_ptt (k_radio k)) k"

definition mox_cb :: "keying \<Rightarrow> keying" where
  "mox_cb k = set_mox (\<not> r_mox (k_radio k)) k"

text \<open>Where the carrier of Tune comes out, relative to the transmit dial.\<close>

definition radio_tune_tone_hz :: "radio \<Rightarrow> int" where
  "radio_tune_tone_hz r =
     (case tx_receiver r of None \<Rightarrow> 0
      | Some rx \<Rightarrow>
          (let tx = r_transmitter r; half = (tx_filter_high tx - tx_filter_low tx) sdiv 2
           in if rx_mode_a rx = CWL then - r_cw_keyer_sidetone_frequency r
              else if rx_mode_a rx = CWU then r_cw_keyer_sidetone_frequency r
              else if rx_mode_a rx = LSB \<or> rx_mode_a rx = DIGL then - tx_filter_low tx - half
              else tx_filter_low tx + half))"

definition radio_tune_program_signal :: "keying \<Rightarrow> keying" where
  "radio_tune_program_signal k =
     (let centre = real_of_int (radio_tune_tone_hz (k_radio k)); half = k_tune_tt_spacing k / 2
      in if k_tune_two_tone k \<and> \<not> k_txcal_active k
         then k\<lparr>k_tones := [centre - half, centre + half]\<rparr>
         else k\<lparr>k_tones := [centre]\<rparr>)"

definition start_tune :: "int \<Rightarrow> int \<Rightarrow> keying \<Rightarrow> keying" where
  "start_tune now full_tune_time k =
     (let m = tx_mode_a (k_radio k)
      in rxtx ((radio_tune_program_signal
            (k\<lparr>k_radio := (k_radio k)\<lparr>r_tune_timeout := now + full_tune_time,
                  r_cw_keyer_internal := (if m = CWL \<or> m = CWU then False else r_cw_keyer_internal (k_radio k))\<rparr>,
                k_txa_mode := (if m = CWL then LSB else if m = CWU then USB else k_txa_mode k)\<rparr>))
          \<lparr>k_postgen := True\<rparr>))"

definition stop_tune :: "keying \<Rightarrow> keying" where
  "stop_tune k =
     (let m = tx_mode_a (k_radio k)
      in rxtx (k\<lparr>k_radio := (k_radio k)\<lparr>r_cw_keyer_internal :=
                    (if m = CWL \<or> m = CWU then True else r_cw_keyer_internal (k_radio k))\<rparr>,
                k_txa_mode := (if m = CWL \<or> m = CWU then m else k_txa_mode k),
                k_postgen := False\<rparr>))"

definition set_tune :: "int \<Rightarrow> int \<Rightarrow> bool \<Rightarrow> keying \<Rightarrow> keying" where
  "set_tune now full_tune_time st k =
     (let k1 = k\<lparr>k_radio := (k_radio k)\<lparr>r_mox := False, r_tune := st\<rparr>\<rparr>
      in if st then start_tune now full_tune_time k1 else stop_tune k1)"

definition tune_cb :: "int \<Rightarrow> int \<Rightarrow> keying \<Rightarrow> keying" where
  "tune_cb now full_tune_time k = set_tune now full_tune_time (\<not> r_tune (k_radio k)) k"

section \<open>The voice operated switch\<close>

definition vox_changed :: "keying \<Rightarrow> keying" where
  "vox_changed k = rxtx k"

definition set_vox :: "bool \<Rightarrow> keying \<Rightarrow> keying" where
  "set_vox b k = k\<lparr>k_radio := (k_radio k)\<lparr>r_vox := b\<rparr>\<rparr>"

definition vox_release :: "keying \<Rightarrow> keying" where
  "vox_release k = vox_changed ((set_vox False k)\<lparr>k_vox_timeout := False\<rparr>)"

definition vox_cancel :: "keying \<Rightarrow> keying" where
  "vox_cancel k = (if r_vox (k_radio k) \<or> k_vox_timeout k then vox_release k else k)"

definition vox_set_enabled :: "bool \<Rightarrow> keying \<Rightarrow> keying" where
  "vox_set_enabled b k =
     (let k1 = k\<lparr>k_vox_enabled := b\<rparr> in if b then k1 else vox_cancel k1)"

definition vox_cb :: "keying \<Rightarrow> keying" where
  "vox_cb k = vox_set_enabled (\<not> k_vox_enabled k) k"

definition vox_poll_cb :: "int \<Rightarrow> keying \<Rightarrow> keying" where
  "vox_poll_cb now k =
     (if \<not> r_vox (k_radio k) then k\<lparr>k_vox_timeout := False\<rparr>
      else if \<not> k_vox_enabled k \<or> now \<ge> k_vox_hang_until k
      then vox_changed ((set_vox False k)\<lparr>k_vox_timeout := False\<rparr>)
      else k)"

definition vox_key_idle :: "keying \<Rightarrow> keying" where
  "vox_key_idle k =
     vox_changed (if r_vox (k_radio k) \<and> \<not> k_vox_timeout k then k\<lparr>k_vox_timeout := True\<rparr> else k)"

text \<open>\<open>update_vox\<close> on the microphone thread, in its steps: measure, test,
push the deadline, raise the key, post the callback. The clock is in microseconds.\<close>

datatype mic_pc = Mic_idle | Mic_measured | Mic_loud | Mic_test | Mic_post

definition vox_measure :: "real list \<Rightarrow> keying \<Rightarrow> keying" where
  "vox_measure buf k = k\<lparr>k_vox_peak := fold (\<lambda>s p. max \<bar>s\<bar> p) buf 0\<rparr>"

definition vox_deadline :: "int \<Rightarrow> keying \<Rightarrow> keying" where
  "vox_deadline now k = k\<lparr>k_vox_hang_until := now + \<lfloor>max (k_vox_hang k) 0 * 1000\<rfloor>\<rparr>"

fun mic_step :: "int \<Rightarrow> mic_pc \<times> keying \<Rightarrow> mic_pc \<times> keying" where
  "mic_step now (Mic_idle, k) = (Mic_idle, k)"
| "mic_step now (Mic_measured, k) =
     (if k_vox_enabled k \<and> k_vox_peak k > k_vox_threshold k then Mic_loud else Mic_idle, k)"
| "mic_step now (Mic_loud, k) = (Mic_test, vox_deadline now k)"
| "mic_step now (Mic_test, k) = (if r_vox (k_radio k) then (Mic_idle, k) else (Mic_post, set_vox True k))"
| "mic_step now (Mic_post, k) = (Mic_idle, k\<lparr>k_idle := k_idle k @ [Vox_key]\<rparr>)"

definition update_vox :: "int \<Rightarrow> real list \<Rightarrow> keying \<Rightarrow> keying" where
  "update_vox now buf k = snd ((mic_step now ^^ 4) (Mic_measured, vox_measure buf k))"

section \<open>Keying from the CW daemon\<close>

definition set_cwvox :: "bool \<Rightarrow> keying \<Rightarrow> keying" where
  "set_cwvox key_down k =
     (let k1 = k\<lparr>k_hang_time_ctr := 0\<rparr>
      in if key_down \<and> \<not> r_mox (k_radio k1) then k1\<lparr>k_idle := k_idle k1 @ [Ext_set_mox True]\<rparr> else k1)"

definition update_cwvox :: "keying \<Rightarrow> keying" where
  "update_cwvox k =
     (let k1 = k\<lparr>k_hang_time_ctr := k_hang_time_ctr k + k_protocol1_timer k\<rparr>
      in if k_hang_time_ctr k1 > of_int (r_cw_keyer_hang_time (k_radio k1))
         then k1\<lparr>k_idle := k_idle k1 @ [Ext_set_mox False]\<rparr> else k1)"

section \<open>The main loop and the three threads\<close>

definition run_idle :: "idle \<Rightarrow> keying \<Rightarrow> keying" where
  "run_idle i k = (case i of
     Vox_key \<Rightarrow> vox_key_idle k
   | Ext_ptt_changed \<Rightarrow> ptt_changed k
   | Ext_set_mox b \<Rightarrow> set_mox b k)"

definition main_iteration :: "keying \<Rightarrow> keying" where
  "main_iteration k = (case k_idle k of [] \<Rightarrow> k | i # is \<Rightarrow> run_idle i (k\<lparr>k_idle := is\<rparr>))"

text \<open>The key lines of a protocol 1 frame, as \<open>process_control_bytes\<close> takes
them.\<close>

definition key_lines :: "byte \<Rightarrow> keying \<Rightarrow> keying" where
  "key_lines c0 k =
     (let r1 = p1_key_lines c0 (k_radio k)
      in if r_local_ptt (k_radio k) \<noteq> r_local_ptt r1
         then k\<lparr>k_radio := r1, k_idle := k_idle k @ [Ext_ptt_changed]\<rparr>
         else k\<lparr>k_radio := r1\<rparr>)"

text \<open>A step of the system: of the microphone thread, of the main loop, of the VOX poll
while its source is alive, an action of the operator, a request from another thread or a frame
from the radio.\<close>

inductive key_step :: "mic_pc \<times> keying \<Rightarrow> mic_pc \<times> keying \<Rightarrow> bool" where
  mic_block: "key_step (Mic_idle, k) (Mic_measured, vox_measure buf k)"
| mic_moves: "key_step (pc, k) (mic_step now (pc, k))"
| main_loop: "key_step (pc, k) (pc, main_iteration k)"
| vox_poll: "k_vox_timeout k \<Longrightarrow> key_step (pc, k) (pc, vox_poll_cb now k)"
| mox_button: "key_step (pc, k) (pc, mox_cb k)"
| tune_button: "key_step (pc, k) (pc, tune_cb now t k)"
| vox_switch: "key_step (pc, k) (pc, vox_set_enabled b k)"
| mox_request: "key_step (pc, k) (pc, k\<lparr>k_idle := k_idle k @ [Ext_set_mox b]\<rparr>)"
| cw_key: "key_step (pc, k) (pc, set_cwvox b k)"
| cw_hang: "key_step (pc, k) (pc, update_cwvox k)"
| radio_keys: "key_step (pc, k) (pc, key_lines c0 k)"

inductive reachable :: "keying \<Rightarrow> mic_pc \<times> keying \<Rightarrow> bool" for k0 where
  start: "reachable k0 (Mic_idle, k0)"
| step: "reachable k0 s \<Longrightarrow> key_step s t \<Longrightarrow> reachable k0 t"

inductive_cases key_stepE: "key_step (pc, k) s"

section \<open>Receiving and transmitting\<close>

text \<open>The WDSP channels are in step with the key: the transmitter's runs exactly while
transmitting, those of the receivers that do not listen through it exactly while not.\<close>

definition slots :: "keying \<Rightarrow> nat list" where
  "slots k = [0..<d_supported_receivers (r_discovered (k_radio k))]"

definition in_step :: "keying \<Rightarrow> bool" where
  "in_step k =
     (k_running k (k_tx_channel k) = isTransmitting (k_radio k) \<and>
      list_all (\<lambda>i. case half_duplex k i of None \<Rightarrow> True
         | Some rx \<Rightarrow> k_running k (rx_channel rx) = (\<not> isTransmitting (k_radio k))) (slots k))"

definition own_channel :: "keying \<Rightarrow> bool" where
  "own_channel k =
     list_all (\<lambda>i. case half_duplex k i of None \<Rightarrow> True | Some rx \<Rightarrow> rx_channel rx \<noteq> k_tx_channel k) (slots k)"

text \<open>What \<open>rxtx\<close> leaves alone.\<close>

definition same_setup :: "keying \<Rightarrow> keying \<Rightarrow> bool" where
  "same_setup k l =
     (k_tx_channel l = k_tx_channel k \<and> k_duplex l = k_duplex k \<and> k_idle l = k_idle k \<and>
      k_vox_enabled l = k_vox_enabled k \<and> k_vox_timeout l = k_vox_timeout k \<and>
      k_vox_hang_until l = k_vox_hang_until k \<and> k_radio l = k_radio k)"

lemma same_setup_refl [simp]: "same_setup k k"
  by (simp add: same_setup_def)

lemma same_setup_trans: "same_setup a b \<Longrightarrow> same_setup b c \<Longrightarrow> same_setup a c"
  by (simp add: same_setup_def)

lemma SetChannelState_setup [simp]: "same_setup k (SetChannelState c b l) = same_setup k l"
  by (simp add: same_setup_def SetChannelState_def)

lemma half_duplex_cong: "same_setup k l \<Longrightarrow> half_duplex l = half_duplex k"
  by (rule ext) (simp add: same_setup_def half_duplex_def)

lemma slots_cong: "same_setup k l \<Longrightarrow> slots l = slots k"
  by (simp add: same_setup_def slots_def)

lemma run_receivers_slots: "run_receivers on k = fold (run_slot on) (slots k) k"
  by (simp add: run_receivers_def slots_def)

lemma run_slot_setup: "same_setup k (run_slot on i k)"
  by (simp add: run_slot_def split: option.split)

lemma run_slots:
  "same_setup k (fold (run_slot on) is k) \<and>
   k_running (fold (run_slot on) is k) c =
     (if list_ex (\<lambda>i. \<exists>rx. half_duplex k i = Some rx \<and> rx_channel rx = c) is then on else k_running k c)"
proof (induction "is" arbitrary: k)
  case (Cons i js)
  have s: "same_setup k (run_slot on i k)" by (rule run_slot_setup)
  have h: "half_duplex (run_slot on i k) = half_duplex k" by (rule half_duplex_cong[OF s])
  have "k_running (run_slot on i k) c =
      (if \<exists>rx. half_duplex k i = Some rx \<and> rx_channel rx = c then on else k_running k c)"
    by (simp add: run_slot_def SetChannelState_def split: option.split)
  thus ?case using Cons.IH[of "run_slot on i k"] same_setup_trans[OF s] h by auto
qed simp

lemma run_receivers_setup: "same_setup k (run_receivers on k)"
  using run_slots[where c = 0] by (simp add: run_receivers_slots)

lemma run_receivers_running:
  "k_running (run_receivers on k) c =
     (if list_ex (\<lambda>i. \<exists>rx. half_duplex k i = Some rx \<and> rx_channel rx = c) (slots k) then on else k_running k c)"
  using run_slots by (simp add: run_receivers_slots)

lemma puresignal_setup:
  "same_setup k (puresignal_on k)" "same_setup k (puresignal_off k)"
  "k_running (puresignal_on k) = k_running k" "k_running (puresignal_off k) = k_running k"
  by (simp_all add: puresignal_on_def puresignal_off_def same_setup_def Let_def)

lemma device_setup:
  "same_setup k (device_transmit k)" "same_setup k (device_receive k)"
  "k_running (device_transmit k) = k_running k" "k_running (device_receive k) = k_running k"
  by (simp_all add: device_transmit_def device_receive_def same_setup_def split: protocol.split)

lemma rxtx_setup: "same_setup k (rxtx k)"
proof -
  let ?a = "SetChannelState (k_tx_channel k) True (run_receivers False k)"
  let ?b = "SetChannelState (k_tx_channel k) False k"
  have a: "same_setup k (device_transmit (puresignal_on ?a))"
    using run_receivers_setup[of k False] puresignal_setup(1)[of ?a] device_setup(1)[of "puresignal_on ?a"]
    by (meson SetChannelState_setup same_setup_trans)
  have "same_setup k (device_receive (run_receivers True (puresignal_off ?b)))"
    using puresignal_setup(2)[of ?b] run_receivers_setup[of "puresignal_off ?b" True]
      device_setup(2)[of "run_receivers True (puresignal_off ?b)"] same_setup_refl[of k]
    by (meson SetChannelState_setup same_setup_trans)
  hence b: "same_setup k ((device_receive (run_receivers True (puresignal_off ?b)))\<lparr>k_vox_peak := 0\<rparr>)"
    by (simp add: same_setup_def)
  show ?thesis using a b by (simp add: rxtx_def)
qed

lemma rxtx_simps [simp]:
  "k_radio (rxtx k) = k_radio k" "k_idle (rxtx k) = k_idle k" "k_vox_timeout (rxtx k) = k_vox_timeout k"
  "k_vox_enabled (rxtx k) = k_vox_enabled k" "k_vox_hang_until (rxtx k) = k_vox_hang_until k"
  "k_tx_channel (rxtx k) = k_tx_channel k" "k_duplex (rxtx k) = k_duplex k" "half_duplex (rxtx k) = half_duplex k" "slots (rxtx k) = slots k"
  using rxtx_setup[of k] half_duplex_cong[OF rxtx_setup] slots_cong[OF rxtx_setup] by (simp_all add: same_setup_def)

lemma rxtx_running:
  assumes "own_channel k"
  shows "k_running (rxtx k) (k_tx_channel k) = isTransmitting (k_radio k)"
    and "i \<in> set (slots k) \<Longrightarrow> half_duplex k i = Some rx \<Longrightarrow>
      k_running (rxtx k) (rx_channel rx) = (\<not> isTransmitting (k_radio k))"
proof -
  have no: "\<not> list_ex (\<lambda>i. \<exists>rx. half_duplex k i = Some rx \<and> rx_channel rx = k_tx_channel k) (slots k)"
    using assms by (auto simp: own_channel_def list_ex_iff list_all_iff)
  let ?b = "SetChannelState (k_tx_channel k) False k"
  have hb: "half_duplex (puresignal_off ?b) = half_duplex k" "slots (puresignal_off ?b) = slots k"
    using half_duplex_cong[of k "puresignal_off ?b"] slots_cong[of k "puresignal_off ?b"]
      puresignal_setup(2)[of ?b] same_setup_trans[of k ?b] by auto
  show "k_running (rxtx k) (k_tx_channel k) = isTransmitting (k_radio k)"
    using no by (simp add: rxtx_def device_setup puresignal_setup run_receivers_running hb)
       (simp add: SetChannelState_def)
  assume i: "i \<in> set (slots k)" "half_duplex k i = Some rx"
  hence "list_ex (\<lambda>i. \<exists>rx'. half_duplex k i = Some rx' \<and> rx_channel rx' = rx_channel rx) (slots k)"
    by (auto simp: list_ex_iff)
  moreover have "rx_channel rx \<noteq> k_tx_channel k" using assms i by (auto simp: own_channel_def list_all_iff split: option.splits)
  ultimately show "k_running (rxtx k) (rx_channel rx) = (\<not> isTransmitting (k_radio k))"
    by (simp add: rxtx_def device_setup puresignal_setup run_receivers_running hb)
       (simp add: SetChannelState_def run_receivers_running)
qed

lemma rxtx_in_step: "own_channel k \<Longrightarrow> in_step (rxtx k)"
  using rxtx_running by (auto simp: in_step_def list_all_iff split: option.split)

text \<open>What no operation of this theory changes.\<close>

definition same_wiring :: "keying \<Rightarrow> keying \<Rightarrow> bool" where
  "same_wiring k l =
     (k_tx_channel l = k_tx_channel k \<and> k_duplex l = k_duplex k \<and>
      r_receiver (k_radio l) = r_receiver (k_radio k) \<and> r_discovered (k_radio l) = r_discovered (k_radio k) \<and>
      r_transmitter (k_radio l) = r_transmitter (k_radio k))"

lemma same_wiring_rxtx [simp]: "same_wiring k (rxtx l) = same_wiring k l"
  using rxtx_setup[of l] by (simp add: same_wiring_def same_setup_def)

lemma wiring_half_duplex: "same_wiring k l \<Longrightarrow> half_duplex l = half_duplex k"
  by (rule ext) (simp add: same_wiring_def half_duplex_def)

lemma wiring_slots: "same_wiring k l \<Longrightarrow> slots l = slots k"
  by (simp add: same_wiring_def slots_def)

lemma wiring_own_channel: "same_wiring k l \<Longrightarrow> own_channel l = own_channel k"
  using wiring_half_duplex[of k l] wiring_slots[of k l] by (simp add: own_channel_def same_wiring_def cong: option.case_cong)

lemma wiring_mode: "same_wiring k l \<Longrightarrow> transmitter_get_mode (k_radio l) = transmitter_get_mode (k_radio k)"
  by (simp add: same_wiring_def transmitter_get_mode_def tx_receiver_def split: option.split)

lemma wiring_in_step:
  "same_wiring k l \<Longrightarrow> k_running l = k_running k \<Longrightarrow>
   isTransmitting (k_radio l) = isTransmitting (k_radio k) \<Longrightarrow> in_step l = in_step k"
  using wiring_half_duplex[of k l] wiring_slots[of k l] by (simp add: in_step_def same_wiring_def cong: option.case_cong)

lemma rxtx_steps_in: "own_channel k \<Longrightarrow> same_wiring k l \<Longrightarrow> in_step (rxtx l)"
  using wiring_own_channel rxtx_in_step by blast

text \<open>The operations of the operator and of the main loop end in \<open>rxtx\<close>, with the
VOX state and the queue of callbacks as they were.\<close>

definition switches :: "keying \<Rightarrow> keying \<Rightarrow> bool" where
  "switches k l =
     (same_wiring k l \<and> (own_channel k \<longrightarrow> in_step l) \<and> k_idle l = k_idle k \<and>
      k_vox_timeout l = k_vox_timeout k \<and> k_vox_enabled l = k_vox_enabled k \<and> k_vox_hang_until l = k_vox_hang_until k \<and>
      r_vox (k_radio l) = r_vox (k_radio k) \<and> r_ptt (k_radio l) = r_ptt (k_radio k) \<and>
      r_local_ptt (k_radio l) = r_local_ptt (k_radio k))"

lemma switches_rxtx:
  assumes "same_wiring k l" "k_idle l = k_idle k" "k_vox_timeout l = k_vox_timeout k" "k_vox_enabled l = k_vox_enabled k"
    "k_vox_hang_until l = k_vox_hang_until k" "r_vox (k_radio l) = r_vox (k_radio k)" "r_ptt (k_radio l) = r_ptt (k_radio k)"
    "r_local_ptt (k_radio l) = r_local_ptt (k_radio k)"
  shows "switches k (rxtx l)"
  using assms rxtx_steps_in[of k l] by (simp add: switches_def)

lemma set_mox_switches: "switches k (set_mox b k)"
  unfolding set_mox_def Let_def by (rule switches_rxtx) (simp_all add: mox_stops_tune_def same_wiring_def)

lemma set_mox_mox: "r_mox (k_radio (set_mox b k)) = b"
  by (simp add: set_mox_def Let_def)

lemma set_mox_tune: "r_tune (k_radio (set_mox b k)) = False"
  by (simp add: set_mox_def mox_stops_tune_def Let_def)

lemma program_signal_fields:
  "same_wiring l (radio_tune_program_signal k) = same_wiring l k" "k_radio (radio_tune_program_signal k) = k_radio k"
  "k_idle (radio_tune_program_signal k) = k_idle k" "k_vox_timeout (radio_tune_program_signal k) = k_vox_timeout k"
  "k_vox_enabled (radio_tune_program_signal k) = k_vox_enabled k"
  "k_vox_hang_until (radio_tune_program_signal k) = k_vox_hang_until k"
  "k_tx_channel (radio_tune_program_signal k) = k_tx_channel k" "k_duplex (radio_tune_program_signal k) = k_duplex k"
  by (simp_all add: radio_tune_program_signal_def same_wiring_def Let_def)

lemma set_tune_switches: "switches k (set_tune now t b k)"
  unfolding set_tune_def start_tune_def stop_tune_def Let_def
  by (cases b) (auto intro!: switches_rxtx simp: program_signal_fields same_wiring_def)

lemma vox_key_switches:
  "same_wiring k (vox_key_idle k)" "own_channel k \<Longrightarrow> in_step (vox_key_idle k)" "k_idle (vox_key_idle k) = k_idle k"
  "k_vox_enabled (vox_key_idle k) = k_vox_enabled k" "k_vox_hang_until (vox_key_idle k) = k_vox_hang_until k"
  "k_radio (vox_key_idle k) = k_radio k"
  "k_vox_timeout (vox_key_idle k) = (k_vox_timeout k \<or> r_vox (k_radio k))"
  using rxtx_steps_in[of k] by (auto simp: vox_key_idle_def vox_changed_def same_wiring_def)

lemma vox_off_switches:
  "same_wiring k (vox_release k)" "own_channel k \<Longrightarrow> in_step (vox_release k)" "k_idle (vox_release k) = k_idle k"
  "r_vox (k_radio (vox_release k)) = False" "k_vox_enabled (vox_release k) = k_vox_enabled k"
  "r_ptt (k_radio (vox_release k)) = r_ptt (k_radio k)" "r_local_ptt (k_radio (vox_release k)) = r_local_ptt (k_radio k)"
  "k_radio (vox_release k) = (k_radio k)\<lparr>r_vox := False\<rparr>"
  using rxtx_steps_in[of k] by (simp_all add: vox_release_def vox_changed_def set_vox_def same_wiring_def)

lemma vox_poll_release:
  "r_vox (k_radio k) \<Longrightarrow> \<not> k_vox_enabled k \<or> k_vox_hang_until k \<le> now \<Longrightarrow> vox_poll_cb now k = vox_release k"
  by (simp add: vox_poll_cb_def vox_release_def)

section \<open>Invariants\<close>

text \<open>Outside CW the key line of the radio is its PTT.\<close>

definition phone :: "keying \<Rightarrow> bool" where
  "phone k = (transmitter_get_mode (k_radio k) \<noteq> CWL \<and> transmitter_get_mode (k_radio k) \<noteq> CWU)"

definition key_inv :: "mic_pc \<times> keying \<Rightarrow> bool" where
  "key_inv s = (case s of (pc, k) \<Rightarrow>
     own_channel k \<and> phone k \<and> r_local_ptt (k_radio k) = r_ptt (k_radio k) \<and>
     (in_step k \<or> k_idle k \<noteq> [] \<or> pc = Mic_post) \<and>
     (r_vox (k_radio k) \<longrightarrow> k_vox_timeout k \<or> Vox_key \<in> set (k_idle k) \<or> pc = Mic_post))"

lemma key_inv_switch:
  assumes "key_inv (pc, k)" "switches k l"
  shows "key_inv (pc, l)"
  using assms wiring_own_channel[of k l] wiring_mode[of k l] by (auto simp: key_inv_def switches_def phone_def)

lemma key_inv_vox_off:
  assumes "key_inv (pc, k)"
  shows "key_inv (pc, vox_release k)"
  using assms wiring_own_channel[of k "vox_release k"] wiring_mode[of k "vox_release k"] vox_off_switches[of k]
  by (auto simp: key_inv_def phone_def)

lemma key_inv_fields:
  assumes "key_inv (pc, k)" "same_wiring k l" "k_running l = k_running k" "k_radio l = k_radio k"
    "k_vox_timeout l = k_vox_timeout k" "k_idle l = k_idle k @ xs"
  shows "key_inv (pc, l)"
  using assms wiring_own_channel[of k l] wiring_in_step[of k l] by (auto simp: key_inv_def phone_def)

lemma key_inv_run_idle:
  assumes "key_inv (pc, k)" "k_idle k = i # xs"
  shows "key_inv (pc, run_idle i (k\<lparr>k_idle := xs\<rparr>))"
proof -
  let ?k = "k\<lparr>k_idle := xs\<rparr>"
  have w: "same_wiring k ?k" by (simp add: same_wiring_def)
  have o: "own_channel ?k" using assms(1) wiring_own_channel[OF w] by (simp add: key_inv_def)
  have p: "phone ?k" "r_local_ptt (k_radio ?k) = r_ptt (k_radio ?k)" using assms(1) by (simp_all add: key_inv_def phone_def)
  have sw: "key_inv (pc, l)" if "switches ?k l" "i \<noteq> Vox_key" for l
    using that assms o p wiring_own_channel[of ?k l] wiring_mode[of ?k l] by (auto simp: key_inv_def switches_def phone_def)
  show ?thesis
  proof (cases i)
    case Vox_key
    have "key_inv (pc, vox_key_idle ?k)"
      using o p vox_key_switches[of ?k] wiring_own_channel[of ?k "vox_key_idle ?k"] by (auto simp: key_inv_def phone_def)
    thus ?thesis by (simp add: Vox_key run_idle_def)
  next
    case Ext_ptt_changed
    thus ?thesis using sw[OF set_mox_switches] by (simp add: run_idle_def ptt_changed_def)
  next
    case (Ext_set_mox b)
    thus ?thesis using sw[OF set_mox_switches] by (simp add: run_idle_def)
  qed
qed

lemma key_inv_main: "key_inv (pc, k) \<Longrightarrow> key_inv (pc, main_iteration k)"
  using key_inv_run_idle by (auto simp: main_iteration_def split: list.split)

lemma key_inv_mic: "key_inv (pc, k) \<Longrightarrow> key_inv (mic_step now (pc, k))"
proof (cases pc)
  case Mic_loud
  assume a: "key_inv (pc, k)"
  have "key_inv (pc, vox_deadline now k)"
    using a by (rule key_inv_fields[where xs = "[]"]) (simp_all add: vox_deadline_def same_wiring_def)
  thus ?thesis by (simp add: Mic_loud key_inv_def)
next
  case Mic_test
  assume a: "key_inv (pc, k)"
  have w: "same_wiring k (set_vox True k)" by (simp add: set_vox_def same_wiring_def)
  show ?thesis using a wiring_own_channel[OF w] wiring_mode[OF w]
    by (auto simp: Mic_test key_inv_def phone_def set_vox_def)
next
  case Mic_post
  assume a: "key_inv (pc, k)"
  have w: "same_wiring k (k\<lparr>k_idle := k_idle k @ [Vox_key]\<rparr>)" by (simp add: same_wiring_def)
  show ?thesis using a wiring_own_channel[OF w] by (auto simp: Mic_post key_inv_def phone_def)
qed (auto simp: key_inv_def)

lemma p1_key_lines_fields:
  "r_receiver (p1_key_lines c0 r) = r_receiver r" "r_discovered (p1_key_lines c0 r) = r_discovered r"
  "r_transmitter (p1_key_lines c0 r) = r_transmitter r" "r_mox (p1_key_lines c0 r) = r_mox r"
  "r_vox (p1_key_lines c0 r) = r_vox r" "r_tune (p1_key_lines c0 r) = r_tune r"
  by (simp_all add: p1_key_lines_def Let_def)

lemma p1_key_lines_phone:
  "transmitter_get_mode r \<noteq> CWL \<Longrightarrow> transmitter_get_mode r \<noteq> CWU \<Longrightarrow>
   r_local_ptt (p1_key_lines c0 r) = r_ptt (p1_key_lines c0 r)"
  by (simp add: p1_key_lines_def Let_def)

lemma key_inv_key_lines:
  assumes "key_inv (pc, k)"
  shows "key_inv (pc, key_lines c0 k)"
proof -
  let ?r = "p1_key_lines c0 (k_radio k)"
  have w: "same_wiring k (key_lines c0 k)"
    by (simp add: key_lines_def same_wiring_def Let_def p1_key_lines_fields)
  have l: "r_local_ptt ?r = r_ptt ?r" using assms p1_key_lines_phone by (simp add: key_inv_def phone_def)
  show ?thesis
  proof (cases "r_local_ptt (k_radio k) = r_local_ptt ?r")
    case True
    hence "isTransmitting ?r = isTransmitting (k_radio k)"
      using l assms by (simp add: isTransmitting_def p1_key_lines_fields key_inv_def)
    hence "in_step (key_lines c0 k) = in_step k"
      using wiring_in_step[OF w] True by (simp add: key_lines_def Let_def)
    thus ?thesis using assms l True wiring_own_channel[OF w] wiring_mode[OF w]
      by (auto simp: key_inv_def phone_def key_lines_def Let_def p1_key_lines_fields)
  next
    case False
    thus ?thesis using assms l wiring_own_channel[OF w] wiring_mode[OF w]
      by (auto simp: key_inv_def phone_def key_lines_def Let_def p1_key_lines_fields)
  qed
qed

lemma key_inv_step: "key_step s t \<Longrightarrow> key_inv s \<Longrightarrow> key_inv t"
proof (induction rule: key_step.induct)
  case (mic_block k buf)
  have "key_inv (Mic_idle, vox_measure buf k)"
    using mic_block by (rule key_inv_fields[where xs = "[]"]) (simp_all add: vox_measure_def same_wiring_def)
  thus ?case by (simp add: key_inv_def)
next
  case (vox_poll k pc now)
  show ?case
  proof (cases "r_vox (k_radio k)")
    case False
    have w: "same_wiring k (k\<lparr>k_vox_timeout := False\<rparr>)" by (simp add: same_wiring_def)
    show ?thesis using vox_poll(2) False wiring_own_channel[OF w] wiring_in_step[OF w]
      by (auto simp: vox_poll_cb_def key_inv_def phone_def)
  next
    case True
    show ?thesis
    proof (cases "\<not> k_vox_enabled k \<or> k_vox_hang_until k \<le> now")
      case True
      thus ?thesis using vox_poll_release[OF \<open>r_vox (k_radio k)\<close>] key_inv_vox_off[OF vox_poll(2)] by simp
    next
      case False
      thus ?thesis using vox_poll(2) True by (simp add: vox_poll_cb_def)
    qed
  qed
next
  case (vox_switch pc k b)
  have "key_inv (pc, k\<lparr>k_vox_enabled := b\<rparr>)"
    using vox_switch by (rule key_inv_fields[where xs = "[]"]) (simp_all add: same_wiring_def)
  thus ?case using key_inv_vox_off by (auto simp: vox_set_enabled_def vox_cancel_def Let_def)
next
  case (mox_button pc k)
  show ?case unfolding mox_cb_def by (rule key_inv_switch[OF mox_button set_mox_switches])
next
  case (tune_button pc k now t)
  show ?case unfolding tune_cb_def by (rule key_inv_switch[OF tune_button set_tune_switches])
next
  case (mox_request pc k b)
  show ?case using mox_request by (rule key_inv_fields) (simp_all add: same_wiring_def)
next
  case (cw_key pc k b)
  show ?case using cw_key
    by (rule key_inv_fields[where xs = "if b \<and> \<not> r_mox (k_radio k) then [Ext_set_mox True] else []"])
       (simp_all add: set_cwvox_def same_wiring_def Let_def)
next
  case (cw_hang pc k)
  show ?case using cw_hang
    by (rule key_inv_fields[where xs =
          "if k_hang_time_ctr k + k_protocol1_timer k > of_int (r_cw_keyer_hang_time (k_radio k)) then [Ext_set_mox False] else []"])
       (simp_all add: update_cwvox_def same_wiring_def Let_def)
qed (auto intro: key_inv_mic key_inv_main key_inv_key_lines)

lemma key_inv_reachable: "reachable k0 s \<Longrightarrow> key_inv (Mic_idle, k0) \<Longrightarrow> key_inv s"
  by (induction rule: reachable.induct) (auto intro: key_inv_step)

section \<open>The microphone thread alone\<close>

text \<open>Run without interruption the steps are \<open>update_vox\<close>: a block above the
threshold moves the deadline and, when the key is up, raises it and posts the callback.\<close>

lemma fold_max: "fold (\<lambda>s p. max \<bar>s\<bar> p) xs p = Max (insert p ((\<lambda>s. \<bar>s\<bar>) ` set xs))" for p :: real
proof (induction xs arbitrary: p)
  case (Cons x xs)
  have "insert (max \<bar>x\<bar> p) ((\<lambda>s. \<bar>s\<bar>) ` set xs) \<noteq> {}" by simp
  thus ?case using Cons.IH[of "max \<bar>x\<bar> p"]
    by (cases "xs = []") (simp_all add: max.assoc max.left_commute max.commute)
qed simp

lemma update_vox_runs:
  "update_vox now buf k =
     (let k1 = vox_measure buf k
      in if k_vox_enabled k1 \<and> k_vox_peak k1 > k_vox_threshold k1
         then let k2 = vox_deadline now k1
              in if r_vox (k_radio k2) then k2
                 else (set_vox True k2)\<lparr>k_idle := k_idle k2 @ [Vox_key]\<rparr>
         else k1)"
  by (simp add: update_vox_def Let_def numeral_eq_Suc set_vox_def)

lemma mic_run_idle: "fst ((mic_step now ^^ 4) (Mic_measured, k)) = Mic_idle"
  by (simp add: numeral_eq_Suc)

lemma reachable_mic: "reachable k0 s \<Longrightarrow> reachable k0 ((mic_step now ^^ n) s)"
proof (induction n)
  case (Suc n)
  obtain pc k where "(mic_step now ^^ n) s = (pc, k)" by fastforce
  thus ?case using Suc reachable.step[OF _ mic_moves, of k0 pc k now] by simp
qed simp

lemma reachable_update_vox:
  assumes "reachable k0 (Mic_idle, k)"
  shows "reachable k0 (Mic_idle, update_vox now buf k)"
proof -
  have "reachable k0 ((mic_step now ^^ 4) (Mic_measured, vox_measure buf k))"
    by (rule reachable_mic[OF reachable.step[OF assms mic_block]])
  thus ?thesis using mic_run_idle[of now "vox_measure buf k"]
    by (simp add: update_vox_def) (metis prod.collapse)
qed

text \<open>The key stays down between the words: until the deadline the poll changes nothing.\<close>

lemma vox_holds_until_deadline:
  assumes "k_vox_enabled k" "\<bar>s\<bar> > k_vox_threshold k" "s \<in> set buf" "now2 < now1 + \<lfloor>max (k_vox_hang k) 0 * 1000\<rfloor>"
  shows "vox_poll_cb now2 (update_vox now1 buf k) = update_vox now1 buf k"
    and "r_vox (k_radio (update_vox now1 buf k))"
proof -
  have "k_vox_threshold k < fold (\<lambda>s p. max \<bar>s\<bar> p) buf 0"
    unfolding fold_max using assms(2,3) by (subst Max_gr_iff) auto
  hence loud: "k_vox_enabled (vox_measure buf k) \<and> k_vox_peak (vox_measure buf k) > k_vox_threshold (vox_measure buf k)"
    using assms(1) by (simp add: vox_measure_def)
  show v: "r_vox (k_radio (update_vox now1 buf k))"
    unfolding update_vox_runs using loud by (simp add: Let_def set_vox_def)
  have "k_vox_hang_until (update_vox now1 buf k) = now1 + \<lfloor>max (k_vox_hang k) 0 * 1000\<rfloor>"
    "k_vox_enabled (update_vox now1 buf k)"
    unfolding update_vox_runs using loud
    by (simp_all add: Let_def set_vox_def vox_deadline_def vox_measure_def)
  thus "vox_poll_cb now2 (update_vox now1 buf k) = update_vox now1 buf k"
    using v assms(4) by (simp add: vox_poll_cb_def)
qed

section \<open>Draining the main loop\<close>

lemma run_idle_idle: "k_idle (run_idle i k) = k_idle k"
  using set_mox_switches by (auto simp: run_idle_def ptt_changed_def vox_key_switches switches_def split: idle.split)

lemma run_idle_deadline:
  "k_vox_hang_until (run_idle i k) = k_vox_hang_until k" "k_vox_enabled (run_idle i k) = k_vox_enabled k"
  using set_mox_switches by (auto simp: run_idle_def ptt_changed_def vox_key_switches switches_def split: idle.split)

lemma main_iteration_fields:
  "k_idle (main_iteration k) = drop 1 (k_idle k)"
  "k_vox_hang_until (main_iteration k) = k_vox_hang_until k" "k_vox_enabled (main_iteration k) = k_vox_enabled k"
  by (simp_all add: main_iteration_def run_idle_idle run_idle_deadline split: list.split)

definition drain :: "keying \<Rightarrow> keying" where
  "drain k = (main_iteration ^^ length (k_idle k)) k"

lemma drained:
  "k_idle ((main_iteration ^^ n) k) = drop n (k_idle k)"
  "k_vox_hang_until ((main_iteration ^^ n) k) = k_vox_hang_until k"
  "k_vox_enabled ((main_iteration ^^ n) k) = k_vox_enabled k"
  by (induction n) (simp_all add: main_iteration_fields)

lemma reachable_drain: "reachable k0 (pc, k) \<Longrightarrow> reachable k0 (pc, (main_iteration ^^ n) k)"
  by (induction n) (auto intro: reachable.step main_loop)

lemma key_inv_start:
  assumes "own_channel k0" "phone k0" "in_step k0" "r_local_ptt (k_radio k0) = r_ptt (k_radio k0)" "\<not> r_vox (k_radio k0)"
  shows "key_inv (Mic_idle, k0)"
  using assms by (simp add: key_inv_def)

lemma in_step_receiver:
  "in_step k \<Longrightarrow> i < d_supported_receivers (r_discovered (k_radio k)) \<Longrightarrow> half_duplex k i = Some rx \<Longrightarrow>
   k_running k (rx_channel rx) = (\<not> isTransmitting (k_radio k))"
proof -
  assume a: "in_step k" "i < d_supported_receivers (r_discovered (k_radio k))" "half_duplex k i = Some rx"
  have "list_all (\<lambda>i. case half_duplex k i of None \<Rightarrow> True
         | Some rx \<Rightarrow> k_running k (rx_channel rx) = (\<not> isTransmitting (k_radio k))) (slots k)"
    using a(1) by (simp add: in_step_def)
  moreover have "i \<in> set (slots k)" using a(2) by (simp add: slots_def)
  ultimately have "case half_duplex k i of None \<Rightarrow> True
         | Some rx \<Rightarrow> k_running k (rx_channel rx) = (\<not> isTransmitting (k_radio k))"
    unfolding list_all_iff by (rule bspec)
  thus ?thesis by (simp add: a(3))
qed

section \<open>A keyer with one receiver\<close>

definition keying0 :: keying where
  "keying0 = \<lparr>k_radio = radio0, k_tx_channel = 8, k_duplex = (\<lambda>_. False), k_full_duplex = False,
     k_running = (\<lambda>c. c \<noteq> 8), k_ps_mox = False, k_txfbk_samples = 0, k_rxfbk_samples = 0, k_txa_mode = USB,
     k_postgen = False, k_tones = [], k_tune_two_tone = False, k_tune_tt_spacing = 700, k_txcal_active = False,
     k_p2_updates = 0, k_soapy = [], k_tci = [],
     k_vox_enabled = True, k_vox_peak = 0, k_vox_threshold = 1 / 10, k_vox_hang = 250, k_vox_timeout = False,
     k_vox_hang_until = 0, k_hang_time_ctr = 0, k_protocol1_timer = 0, k_idle = []\<rparr>"

lemma keying0_simps: "k_tx_channel keying0 = 8" "k_radio keying0 = radio0" "k_running keying0 = (\<lambda>c. c \<noteq> 8)"
  by (simp_all add: keying0_def)

lemma half_duplex_keying0: "half_duplex keying0 = (\<lambda>i. if i = 0 then Some receiver0 else None)"
  by (rule ext) (auto simp: half_duplex_def keying0_def radio0_def less_Suc_eq)

lemma radio0_keys:
  "\<not> isTransmitting radio0" "r_local_ptt radio0 = r_ptt radio0" "\<not> r_vox radio0" "transmitter_get_mode radio0 = USB"
  by (simp_all add: isTransmitting_def radio0_def transmitter_get_mode_def tx_receiver_def transmitter0_def receiver0_def)

lemma channel_receiver0: "rx_channel receiver0 = 0"
  by (simp add: receiver0_def)

lemma keying0_starts: "own_channel keying0" "phone keying0" "in_step keying0"
    "r_local_ptt (k_radio keying0) = r_ptt (k_radio keying0)" "\<not> r_vox (k_radio keying0)"
  by (simp_all add: own_channel_def phone_def in_step_def keying0_simps half_duplex_keying0 radio0_keys
      channel_receiver0 list_all_iff mode_defs)

section \<open>Properties\<close>

text \<open>C9: Outside CW the channels follow the key. The transmitter's mode is not CW, its channel is
no receiver's, and the threads start with VOX off, the key line settled and the channels in step
with the key. However the microphone thread, the receive thread, requests from the network, the
operator's buttons and the VOX poll then interleave, whenever the main loop has nothing left to run
and the microphone thread is not between raising VOX and posting the callback for it, the
transmitter's channel runs exactly while any of PTT, MOX, VOX and Tune is on, and the channel of
every receiver that does not listen through a transmission runs exactly while none is.\<close>

theorem channels_follow_the_key:
  assumes "reachable k0 (pc, k)" "own_channel k0" "phone k0" "in_step k0"
    "r_local_ptt (k_radio k0) = r_ptt (k_radio k0)" "\<not> r_vox (k_radio k0)" "k_idle k = []" "pc \<noteq> Mic_post"
    "i < d_supported_receivers (r_discovered (k_radio k))" "half_duplex k i = Some rx"
  shows "k_running k (k_tx_channel k) = isTransmitting (k_radio k) \<and>
    k_running k (rx_channel rx) = (\<not> isTransmitting (k_radio k))"
proof -
  have "in_step k"
    using key_inv_reachable[OF assms(1) key_inv_start[OF assms(2-6)]] assms(7,8) by (simp add: key_inv_def)
  thus ?thesis using in_step_receiver assms(9,10) by (simp add: in_step_def)
qed


theorem channels_follow_the_key_witness:
  "k_running (mox_cb keying0) 8 \<and> \<not> k_running (mox_cb keying0) 0"
proof -
  have r: "reachable keying0 (Mic_idle, mox_cb keying0)" by (rule reachable.step[OF reachable.start mox_button])
  have sw: "switches keying0 (mox_cb keying0)" unfolding mox_cb_def by (rule set_mox_switches)
  hence w: "k_idle (mox_cb keying0) = []" "half_duplex (mox_cb keying0) = half_duplex keying0"
    "d_supported_receivers (r_discovered (k_radio (mox_cb keying0))) = d_supported_receivers (r_discovered radio0)"
    "k_tx_channel (mox_cb keying0) = 8"
    using wiring_half_duplex by (auto simp: switches_def same_wiring_def keying0_def)
  have h: "half_duplex keying0 0 = Some receiver0" by (simp add: half_duplex_def keying0_def radio0_def)
  have t: "isTransmitting (k_radio (mox_cb keying0))"
    by (simp add: mox_cb_def isTransmitting_def set_mox_mox keying0_def radio0_def)
  show ?thesis
    using channels_follow_the_key[OF r keying0_starts(1-5) w(1), of 0 receiver0] h w t
    by (simp add: radio0_def receiver0_def discovered0_def)
qed


section \<open>What modelling showed\<close>

text \<open>Tune in CW switches the internal keyer of the radio off and only the end of Tune by
its own button switches it on again: MOX ends Tune too, and leaves it off.\<close>

lemma tx_mode_a_keys:
  "tx_mode_a (r\<lparr>r_mox := a\<rparr>) = tx_mode_a r" "tx_mode_a (r\<lparr>r_tune := a\<rparr>) = tx_mode_a r"
  "tx_mode_a (r\<lparr>r_tune_timeout := n\<rparr>) = tx_mode_a r" "tx_mode_a (r\<lparr>r_cw_keyer_internal := a\<rparr>) = tx_mode_a r"
  by (simp_all add: tx_mode_a_def tx_receiver_def cong: option.case_cong if_cong)

lemma mox_after_tune_loses_the_keyer:
  assumes "tx_mode_a (k_radio k) = CWU"
  shows "\<not> r_tune (k_radio (set_mox b (set_tune now t True k))) \<and>
         \<not> r_cw_keyer_internal (k_radio (set_mox b (set_tune now t True k)))"
  using assms
  by (simp add: set_mox_def mox_stops_tune_def set_tune_def start_tune_def Let_def program_signal_fields
      tx_mode_a_keys)

text \<open>In CW a PTT line that rises while the paddle line is held does not change
\<open>local_ptt\<close>, so no callback runs: with MOX released by its button the program is
transmitting while its channels receive.\<close>

lemma cw_ptt_under_a_held_paddle:
  assumes "transmitter_get_mode (k_radio k) = CWU" "r_cw_keyer_internal (k_radio k)" "r_local_ptt (k_radio k)"
    "in_step k" "\<not> isTransmitting (k_radio k)"
  shows "isTransmitting (k_radio (key_lines 0x05 k))" "k_idle (key_lines 0x05 k) = k_idle k"
    "\<not> k_running (key_lines 0x05 k) (k_tx_channel k)"
  using assms by (simp_all add: key_lines_def p1_key_lines_def isTransmitting_def in_step_def Let_def)

text \<open>The carrier of Tune is inside the transmit passband, when VFO A transmits.\<close>

lemma sdiv_half: "0 \<le> x \<Longrightarrow> 0 \<le> x sdiv 2 \<and> x sdiv 2 \<le> (x :: int)"
  by (cases "x = 0") (auto simp: signed_divide_int_def sgn_if)

lemma tune_tone_in_passband:
  assumes "tx_receiver r = Some rx" "rx_split rx = SPLIT_OFF" "rx_mode_a rx \<in> {LSB, DIGL, USB, DIGU, DSB, AM, SAM}"
    "0 \<le> tx_filter_low (r_transmitter r)" "tx_filter_low (r_transmitter r) \<le> tx_filter_high (r_transmitter r)"
    "tx = plain_tx_filter (transmitter_get_mode r) (tx_filter_low (r_transmitter r)) (tx_filter_high (r_transmitter r))
       (r_transmitter r)"
  shows "tx_actual_filter_low tx \<le> radio_tune_tone_hz r" "radio_tune_tone_hz r \<le> tx_actual_filter_high tx"
  using assms sdiv_half[of "tx_filter_high (r_transmitter r) - tx_filter_low (r_transmitter r)"]
  by (auto simp: radio_tune_tone_hz_def plain_tx_filter_def transmitter_get_mode_def set_actual_def mode_defs Let_def)

text \<open>Under split the passband is that of VFO B and the tone that of VFO A: on opposite
sidebands the carrier falls outside the passband.\<close>

lemma tune_tone_misses_under_split:
  assumes "tx_receiver r = Some rx" "rx_split rx = SPLIT_ON" "rx_mode_a rx = USB" "rx_mode_b rx = LSB"
    "0 < tx_filter_low (r_transmitter r)" "tx_filter_low (r_transmitter r) \<le> tx_filter_high (r_transmitter r)"
    "tx = plain_tx_filter (transmitter_get_mode r) (tx_filter_low (r_transmitter r)) (tx_filter_high (r_transmitter r))
       (r_transmitter r)"
  shows "tx_actual_filter_high tx < radio_tune_tone_hz r"
  using assms sdiv_half[of "tx_filter_high (r_transmitter r) - tx_filter_low (r_transmitter r)"]
  by (auto simp: radio_tune_tone_hz_def plain_tx_filter_def transmitter_get_mode_def set_actual_def mode_defs Let_def)

end
