(* ===== verification/Cw_Keyer.thy ===== *)
theory Cw_Keyer
  imports Ptt
begin

text \<open>Keying by hand and from memory: the iambic keyer of
\<open>src/decode/cw_keyer.c\<close> and the transmitter side of
\<open>src/decode/cw_encoder.c\<close>, which raises MOX for a paddle or a message and drops it
again. Both run on the GTK thread; the audio thread only reads the waveform position and the
key.

Times are seconds (the keyer) and milliseconds (the transmitter) of the clock, durations are
exact.\<close>

section \<open>The transmitter\<close>

definition CW_TX_RATE :: int where "CW_TX_RATE = 48000"
definition CW_TX_MAX_MARGIN_MS :: int where "CW_TX_MAX_MARGIN_MS = 2000"
definition CW_TX_MAX_SAMPLES :: int where "CW_TX_MAX_SAMPLES = CW_TX_RATE * 60"
definition CW_KEYER_HANG_MS :: int where "CW_KEYER_HANG_MS = 250"

datatype cw_tx_mode = CW_TX_IDLE | CW_TX_MESSAGE | CW_TX_KEYER

record cw_tx =
  c_keying :: keying
  c_can_transmit :: bool
  c_wave_len :: int
  c_wave_pos :: int
  c_active :: bool
  c_we_keyed :: bool
  c_ticking :: bool
  c_key_time_ms :: int
  c_tx_mode :: cw_tx_mode
  c_key_on :: bool
  c_last_key_ms :: int

abbreviation c_radio :: "cw_tx \<Rightarrow> radio" where
  "c_radio c \<equiv> k_radio (c_keying c)"

definition c_set_mox :: "bool \<Rightarrow> cw_tx \<Rightarrow> cw_tx" where
  "c_set_mox b c = c\<lparr>c_keying := set_mox b (c_keying c)\<rparr>"

definition drop_mox :: "cw_tx \<Rightarrow> cw_tx" where
  "drop_mox c = (if c_we_keyed c then c_set_mox False (c\<lparr>c_we_keyed := False\<rparr>) else c)"

definition raise_mox :: "cw_tx \<Rightarrow> cw_tx" where
  "raise_mox c =
     (if \<not> r_mox (c_radio c) then c_set_mox True (c\<lparr>c_we_keyed := True\<rparr>) else c\<lparr>c_we_keyed := False\<rparr>)"

definition hang_ms :: "radio \<Rightarrow> int" where
  "hang_ms r =
     (let cfg_hang = (if r_cw_keyer_hang_time r > 0 then r_cw_keyer_hang_time r else CW_KEYER_HANG_MS);
          min_hang = (if uint (r_cw_keyer_speed r) > 0 then 2400 div uint (r_cw_keyer_speed r) else 120)
      in max cfg_hang min_hang)"

definition message_max_ms :: "cw_tx \<Rightarrow> int" where
  "message_max_ms c = c_wave_len c * 1000 div CW_TX_RATE + CW_TX_MAX_MARGIN_MS"

definition end_session :: "cw_tx \<Rightarrow> cw_tx" where
  "end_session c = (drop_mox (c\<lparr>c_active := False, c_tx_mode := CW_TX_IDLE\<rparr>))\<lparr>c_ticking := False\<rparr>"

definition cw_tx_tick :: "int \<Rightarrow> cw_tx \<Rightarrow> cw_tx" where
  "cw_tx_tick now c =
     (if \<not> c_active c then c\<lparr>c_ticking := False\<rparr>
      else if c_tx_mode c = CW_TX_KEYER then
        (if \<not> c_key_on c \<and> now - c_last_key_ms c > hang_ms (c_radio c) then end_session c else c)
      else if c_wave_pos c \<ge> c_wave_len c then end_session c
      else if c_key_time_ms c \<noteq> 0 \<and> now - c_key_time_ms c > message_max_ms c then end_session c
      else c)"

definition transmits_cw :: "radio \<Rightarrow> bool" where
  "transmits_cw r = (transmitter_get_mode r = CWL \<or> transmitter_get_mode r = CWU)"

text \<open>\<open>encoded\<close> is the number of samples \<open>cw_encode_to_audio\<close> makes of the
text (\<open>None\<close> for nothing to send).\<close>

definition cw_tx_send_text :: "int \<Rightarrow> int option \<Rightarrow> string \<Rightarrow> cw_tx \<Rightarrow> bool \<times> cw_tx" where
  "cw_tx_send_text now encoded s c =
     (if s = [] \<or> c_active c \<or> \<not> c_can_transmit c \<or> r_tune (c_radio c) \<or> \<not> transmits_cw (c_radio c) then (False, c)
      else case encoded of
        None \<Rightarrow> (False, c)
      | Some n \<Rightarrow>
          if n \<le> 0 then (False, c)
          else (True, (raise_mox (c\<lparr>c_wave_len := min n CW_TX_MAX_SAMPLES, c_wave_pos := 0, c_key_time_ms := now,
                        c_tx_mode := CW_TX_MESSAGE, c_active := True\<rparr>))\<lparr>c_ticking := True\<rparr>))"

definition cw_tx_abort :: "cw_tx \<Rightarrow> cw_tx" where
  "cw_tx_abort c = drop_mox (c\<lparr>c_active := False, c_tx_mode := CW_TX_IDLE\<rparr>)"

definition start_keying :: "cw_tx \<Rightarrow> cw_tx" where
  "start_keying c =
     (if c_tx_mode c \<noteq> CW_TX_KEYER
      then (raise_mox (c\<lparr>c_tx_mode := CW_TX_KEYER, c_active := True\<rparr>))\<lparr>c_ticking := True\<rparr> else c)"

definition cw_tx_key :: "int \<Rightarrow> bool \<Rightarrow> cw_tx \<Rightarrow> cw_tx" where
  "cw_tx_key now down c =
     (if c_tx_mode c = CW_TX_MESSAGE then c
      else if down then
        (if \<not> c_can_transmit c \<or> \<not> transmits_cw (c_radio c) then c
         else (start_keying c)\<lparr>c_key_on := True, c_last_key_ms := now\<rparr>)
      else c\<lparr>c_key_on := False, c_last_key_ms := now\<rparr>)"

text \<open>The audio thread: which sample of the message is sent next.\<close>

definition cw_tx_next_sample :: "cw_tx \<Rightarrow> int option \<times> cw_tx" where
  "cw_tx_next_sample c =
     (if c_active c \<and> c_tx_mode c = CW_TX_MESSAGE \<and> c_wave_pos c < c_wave_len c
      then (Some (c_wave_pos c), c\<lparr>c_wave_pos := c_wave_pos c + 1\<rparr>) else (None, c))"

section \<open>The iambic keyer\<close>

datatype elem = ELEM_DIT | ELEM_DAH
datatype paddle = CW_PADDLE_DOT | CW_PADDLE_DASH
datatype keyer_state = KEYER_ST_IDLE | KEYER_ST_MARK | KEYER_ST_SPACE

definition CW_KEYER_STUCK_S :: real where "CW_KEYER_STUCK_S = 15"
definition KEYER_STRAIGHT :: byte where "KEYER_STRAIGHT = 0"
definition KEYER_IAMBIC_B :: byte where "KEYER_IAMBIC_B = 2"

record keyer =
  y_phys_dot :: bool
  y_phys_dash :: bool
  y_state :: keyer_state
  y_current_elem :: "elem option"
  y_elem_end :: real
  y_dit_latch :: bool
  y_dah_latch :: bool
  y_ticking :: bool
  y_last_change :: real

text \<open>What the keyer emits: the key goes down for an element that starts at a time, and
up.\<close>

datatype key_edge = Mark_start elem real | Mark_end

definition dot_down :: "radio \<Rightarrow> keyer \<Rightarrow> bool" where
  "dot_down r y = (if r_cw_keys_reversed r then y_phys_dash y else y_phys_dot y)"

definition dash_down :: "radio \<Rightarrow> keyer \<Rightarrow> bool" where
  "dash_down r y = (if r_cw_keys_reversed r then y_phys_dot y else y_phys_dash y)"

definition dot_unit_ms :: "radio \<Rightarrow> real" where
  "dot_unit_ms r = 1200 / real_of_int (max (uint (r_cw_keyer_speed r)) 1)"

definition weight_scale :: "radio \<Rightarrow> real" where
  "weight_scale r = (if r_cw_keyer_weight r = 0 then 50 else real_of_int (uint (r_cw_keyer_weight r))) / 50"

definition sample_latch :: "radio \<Rightarrow> keyer \<Rightarrow> keyer" where
  "sample_latch r y =
     (case y_current_elem y of
        Some ELEM_DAH \<Rightarrow> if dot_down r y then y\<lparr>y_dit_latch := True\<rparr> else y
      | Some ELEM_DIT \<Rightarrow> if dash_down r y then y\<lparr>y_dah_latch := True\<rparr> else y
      | None \<Rightarrow> y)"

definition mark_length_ms :: "radio \<Rightarrow> elem \<Rightarrow> real" where
  "mark_length_ms r e = (if e = ELEM_DIT then dot_unit_ms r else 3 * dot_unit_ms r) * weight_scale r"

definition start_mark :: "radio \<Rightarrow> elem \<Rightarrow> real \<Rightarrow> keyer \<Rightarrow> keyer \<times> key_edge list" where
  "start_mark r e t y =
     (sample_latch r (y\<lparr>y_current_elem := Some e, y_dit_latch := False, y_dah_latch := False,
        y_elem_end := t + mark_length_ms r e / 1000, y_state := KEYER_ST_MARK\<rparr>), [Mark_start e t])"

definition begin_space :: "radio \<Rightarrow> real \<Rightarrow> keyer \<Rightarrow> keyer \<times> key_edge list" where
  "begin_space r t y = (y\<lparr>y_elem_end := t + dot_unit_ms r / 1000, y_state := KEYER_ST_SPACE\<rparr>, [Mark_end])"

fun opposite :: "elem \<Rightarrow> elem" where
  "opposite ELEM_DIT = ELEM_DAH"
| "opposite ELEM_DAH = ELEM_DIT"

definition paddle_down :: "radio \<Rightarrow> keyer \<Rightarrow> elem \<Rightarrow> bool" where
  "paddle_down r y e = (if e = ELEM_DIT then dot_down r y else dash_down r y)"

definition latched :: "keyer \<Rightarrow> elem \<Rightarrow> bool" where
  "latched y e = (if e = ELEM_DIT then y_dit_latch y else y_dah_latch y)"

definition decide_next :: "radio \<Rightarrow> keyer \<Rightarrow> elem option" where
  "decide_next r y =
     (let cur = the (y_current_elem y); opp = opposite cur
      in if latched y opp \<and> (r_cw_keyer_mode r = KEYER_IAMBIC_B \<or> paddle_down r y opp) then Some opp
         else if paddle_down r y cur then Some cur
         else if dot_down r y then Some ELEM_DIT
         else if dash_down r y then Some ELEM_DAH
         else None)"

definition clear_latches :: "keyer \<Rightarrow> keyer" where
  "clear_latches y = y\<lparr>y_dit_latch := False, y_dah_latch := False\<rparr>"

definition keyer_idle :: "keyer \<Rightarrow> keyer" where
  "keyer_idle y = y\<lparr>y_state := KEYER_ST_IDLE, y_current_elem := None\<rparr>"

definition stuck_guard :: "real \<Rightarrow> keyer \<Rightarrow> keyer" where
  "stuck_guard now y =
     (if (y_phys_dot y \<or> y_phys_dash y) \<and> now - y_last_change y > CW_KEYER_STUCK_S
      then y\<lparr>y_phys_dot := False, y_phys_dash := False\<rparr> else y)"

definition end_of_space :: "radio \<Rightarrow> keyer \<Rightarrow> keyer \<times> key_edge list" where
  "end_of_space r y =
     (case decide_next r y of
        None \<Rightarrow> (keyer_idle (clear_latches y), [])
      | Some e \<Rightarrow> start_mark r e (y_elem_end y) (clear_latches y))"

definition iambic_advance :: "radio \<Rightarrow> real \<Rightarrow> keyer \<Rightarrow> keyer \<times> key_edge list" where
  "iambic_advance r now y =
     (case y_state y of
        KEYER_ST_IDLE \<Rightarrow>
          if dot_down r y \<or> dash_down r y
          then start_mark r (if dot_down r y then ELEM_DIT else ELEM_DAH) now y else (y, [])
      | KEYER_ST_MARK \<Rightarrow>
          let y1 = sample_latch r y
          in if now \<ge> y_elem_end y1 then begin_space r (y_elem_end y1) y1 else (y1, [])
      | KEYER_ST_SPACE \<Rightarrow>
          let y1 = sample_latch r y
          in if now \<ge> y_elem_end y1 then end_of_space r y1 else (y1, []))"

definition straight_advance :: "keyer \<Rightarrow> keyer \<times> key_edge list" where
  "straight_advance y =
     (if y_state y \<noteq> KEYER_ST_IDLE
      then (keyer_idle y, if y_state y = KEYER_ST_MARK then [Mark_end] else []) else (y, []))"

definition cw_keyer_advance :: "radio \<Rightarrow> real \<Rightarrow> keyer \<Rightarrow> keyer \<times> key_edge list" where
  "cw_keyer_advance r now y =
     (if r_cw_keyer_mode r = KEYER_STRAIGHT then straight_advance y
      else iambic_advance r now (stuck_guard now y))"

text \<open>The edges go to the transmitter.\<close>

definition emit :: "int \<Rightarrow> key_edge \<Rightarrow> cw_tx \<Rightarrow> cw_tx" where
  "emit now e c = cw_tx_key now (case e of Mark_start _ _ \<Rightarrow> True | Mark_end \<Rightarrow> False) c"

definition keyer_tick :: "real \<Rightarrow> int \<Rightarrow> keyer \<times> cw_tx \<Rightarrow> keyer \<times> cw_tx" where
  "keyer_tick now_s now_ms s =
     (case cw_keyer_advance (c_radio (snd s)) now_s (fst s) of (y1, es) \<Rightarrow>
        (if y_state y1 = KEYER_ST_IDLE \<and> \<not> y_phys_dot y1 \<and> \<not> y_phys_dash y1 then y1\<lparr>y_ticking := False\<rparr> else y1,
         fold (emit now_ms) es (snd s)))"

definition store_paddle :: "paddle \<Rightarrow> bool \<Rightarrow> real \<Rightarrow> keyer \<Rightarrow> keyer" where
  "store_paddle which pressed now y =
     (if which = CW_PADDLE_DOT then y\<lparr>y_phys_dot := pressed, y_last_change := now\<rparr>
      else y\<lparr>y_phys_dash := pressed, y_last_change := now\<rparr>)"

definition straight_paddle :: "radio \<Rightarrow> paddle" where
  "straight_paddle r = (if r_cw_keys_reversed r then CW_PADDLE_DASH else CW_PADDLE_DOT)"

definition cw_keyer_paddle :: "paddle \<Rightarrow> bool \<Rightarrow> real \<Rightarrow> int \<Rightarrow> keyer \<times> cw_tx \<Rightarrow> keyer \<times> cw_tx" where
  "cw_keyer_paddle which pressed now_s now_ms s =
     (let r = c_radio (snd s); y1 = store_paddle which pressed now_s (fst s)
      in if r_cw_keyer_mode r = KEYER_STRAIGHT
         then (y1, if which = straight_paddle r then cw_tx_key now_ms pressed (snd s) else snd s)
         else ((if pressed then sample_latch r y1 else y1)\<lparr>y_ticking := True\<rparr>, snd s))"

definition cw_keyer_reset :: "int \<Rightarrow> keyer \<times> cw_tx \<Rightarrow> keyer \<times> cw_tx" where
  "cw_keyer_reset now_ms s =
     ((fst s)\<lparr>y_ticking := False, y_phys_dot := False, y_phys_dash := False, y_dit_latch := False,
        y_dah_latch := False, y_state := KEYER_ST_IDLE, y_current_elem := None, y_elem_end := 0\<rparr>,
      if y_state (fst s) = KEYER_ST_MARK then cw_tx_key now_ms False (snd s) else snd s)"

section \<open>The transmitter is let go\<close>

text \<open>The settings of the keyer and the mode of the transmitter, which keying does not
change.\<close>

definition same_keyer_settings :: "radio \<Rightarrow> radio \<Rightarrow> bool" where
  "same_keyer_settings r q =
     (r_cw_keys_reversed q = r_cw_keys_reversed r \<and> r_cw_keyer_speed q = r_cw_keyer_speed r \<and>
      r_cw_keyer_weight q = r_cw_keyer_weight r \<and> r_cw_keyer_mode q = r_cw_keyer_mode r \<and>
      r_cw_keyer_hang_time q = r_cw_keyer_hang_time r \<and> transmitter_get_mode q = transmitter_get_mode r)"

lemma same_keyer_settings_trans:
  "same_keyer_settings a b \<Longrightarrow> same_keyer_settings b c \<Longrightarrow> same_keyer_settings a c"
  by (simp add: same_keyer_settings_def)

lemma transmitter_get_mode_keys:
  "transmitter_get_mode (r\<lparr>r_mox := a\<rparr>) = transmitter_get_mode r"
  "transmitter_get_mode (r\<lparr>r_tune := a\<rparr>) = transmitter_get_mode r"
  by (simp_all add: transmitter_get_mode_def tx_receiver_def cong: option.case_cong if_cong)

lemma set_mox_settings: "same_keyer_settings (k_radio k) (k_radio (set_mox b k))"
  by (simp add: same_keyer_settings_def set_mox_def mox_stops_tune_def Let_def transmitter_get_mode_keys)

lemma c_set_mox_simps [simp]:
  "c_active (c_set_mox b c) = c_active c" "c_ticking (c_set_mox b c) = c_ticking c"
  "c_tx_mode (c_set_mox b c) = c_tx_mode c" "c_key_on (c_set_mox b c) = c_key_on c"
  "c_we_keyed (c_set_mox b c) = c_we_keyed c" "c_key_time_ms (c_set_mox b c) = c_key_time_ms c"
  "c_last_key_ms (c_set_mox b c) = c_last_key_ms c" "c_can_transmit (c_set_mox b c) = c_can_transmit c"
  "c_wave_len (c_set_mox b c) = c_wave_len c" "c_wave_pos (c_set_mox b c) = c_wave_pos c"
  "r_mox (c_radio (c_set_mox b c)) = b"
  by (simp_all add: c_set_mox_def set_mox_mox)

lemma c_set_mox_settings: "same_keyer_settings (c_radio c) (c_radio (c_set_mox b c))"
  by (simp add: c_set_mox_def set_mox_settings)

lemma drop_mox_simps [simp]:
  "c_active (drop_mox c) = c_active c" "c_ticking (drop_mox c) = c_ticking c" "c_tx_mode (drop_mox c) = c_tx_mode c"
  "c_key_on (drop_mox c) = c_key_on c" "\<not> c_we_keyed (drop_mox c)" "c_key_time_ms (drop_mox c) = c_key_time_ms c"
  "c_we_keyed c \<Longrightarrow> \<not> r_mox (c_radio (drop_mox c))"
  by (simp_all add: drop_mox_def)

lemma raise_mox_simps [simp]:
  "c_active (raise_mox c) = c_active c" "c_ticking (raise_mox c) = c_ticking c" "c_tx_mode (raise_mox c) = c_tx_mode c"
  "c_key_on (raise_mox c) = c_key_on c" "c_key_time_ms (raise_mox c) = c_key_time_ms c" "r_mox (c_radio (raise_mox c))"
  "c_last_key_ms (raise_mox c) = c_last_key_ms c"
  by (simp_all add: raise_mox_def)

lemma drop_mox_settings: "same_keyer_settings (c_radio c) (c_radio (drop_mox c))"
  using c_set_mox_settings[of "c\<lparr>c_we_keyed := False\<rparr>" False]
  by (simp add: drop_mox_def) (simp add: same_keyer_settings_def)

lemma raise_mox_settings: "same_keyer_settings (c_radio c) (c_radio (raise_mox c))"
  using c_set_mox_settings[of "c\<lparr>c_we_keyed := True\<rparr>" True]
  by (simp add: raise_mox_def) (simp add: same_keyer_settings_def)

text \<open>While a session runs, its watchdog runs; MOX is only owned by a running
session.\<close>

definition cw_inv :: "cw_tx \<Rightarrow> bool" where
  "cw_inv c =
     ((c_we_keyed c \<longrightarrow> c_active c) \<and> (c_active c \<longrightarrow> c_ticking c) \<and>
      (c_active c \<longleftrightarrow> c_tx_mode c \<noteq> CW_TX_IDLE) \<and> (c_tx_mode c = CW_TX_MESSAGE \<longrightarrow> c_key_time_ms c \<noteq> 0))"

lemma end_session_simps:
  "\<not> c_active (end_session c)" "\<not> c_we_keyed (end_session c)" "c_tx_mode (end_session c) = CW_TX_IDLE"
  "c_we_keyed c \<Longrightarrow> \<not> r_mox (c_radio (end_session c))" "c_key_on (end_session c) = c_key_on c"
  by (simp_all add: end_session_def)

lemma end_session_settings: "same_keyer_settings (c_radio c) (c_radio (end_session c))"
  using drop_mox_settings[of "c\<lparr>c_active := False, c_tx_mode := CW_TX_IDLE\<rparr>"] by (simp add: end_session_def)

lemma end_session_inv: "cw_inv (end_session c)"
  using end_session_simps[of c] by (simp add: cw_inv_def)

lemma cw_tx_tick_inv: "cw_inv c \<Longrightarrow> cw_inv (cw_tx_tick now c)"
  by (auto simp: cw_tx_tick_def end_session_inv) (auto simp: cw_inv_def)

lemma send_text_inv: "cw_inv c \<Longrightarrow> now \<noteq> 0 \<Longrightarrow> cw_inv (snd (cw_tx_send_text now enc s c))"
  by (auto simp: cw_tx_send_text_def split: option.split) (auto simp: cw_inv_def)

lemma abort_inv: "cw_inv c \<Longrightarrow> cw_inv (cw_tx_abort c)"
  by (auto simp: cw_tx_abort_def cw_inv_def)

lemma tx_key_inv: "cw_inv c \<Longrightarrow> cw_inv (cw_tx_key now b c)"
  by (auto simp: cw_tx_key_def start_keying_def cw_inv_def)

lemma next_sample_inv: "cw_inv c \<Longrightarrow> cw_inv (snd (cw_tx_next_sample c))"
  by (auto simp: cw_tx_next_sample_def cw_inv_def)

lemma mox_inv: "cw_inv c \<Longrightarrow> cw_inv (c_set_mox b c)"
  by (auto simp: cw_inv_def)

section \<open>The keyer\<close>

definition iambic :: "radio \<Rightarrow> bool" where
  "iambic r = (r_cw_keyer_mode r \<noteq> KEYER_STRAIGHT)"

lemma sample_latch_simps [simp]:
  "y_state (sample_latch r y) = y_state y" "y_current_elem (sample_latch r y) = y_current_elem y"
  "y_elem_end (sample_latch r y) = y_elem_end y" "y_phys_dot (sample_latch r y) = y_phys_dot y"
  "y_phys_dash (sample_latch r y) = y_phys_dash y" "y_last_change (sample_latch r y) = y_last_change y"
  by (simp_all add: sample_latch_def split: option.split elem.split)

lemma sample_latch_down [simp]:
  "dot_down r (sample_latch q y) = dot_down r y" "dash_down r (sample_latch q y) = dash_down r y"
  "paddle_down r (sample_latch q y) e = paddle_down r y e"
  by (simp_all add: dot_down_def dash_down_def paddle_down_def)

lemma down_updates [simp]:
  "dot_down r (y\<lparr>y_state := a\<rparr>) = dot_down r y" "dash_down r (y\<lparr>y_state := a\<rparr>) = dash_down r y"
  "dot_down r (y\<lparr>y_elem_end := t\<rparr>) = dot_down r y" "dash_down r (y\<lparr>y_elem_end := t\<rparr>) = dash_down r y"
  "dot_down r (y\<lparr>y_current_elem := e\<rparr>) = dot_down r y" "dash_down r (y\<lparr>y_current_elem := e\<rparr>) = dash_down r y"
  "dot_down r (y\<lparr>y_dit_latch := b\<rparr>) = dot_down r y" "dash_down r (y\<lparr>y_dit_latch := b\<rparr>) = dash_down r y"
  "dot_down r (y\<lparr>y_dah_latch := b\<rparr>) = dot_down r y" "dash_down r (y\<lparr>y_dah_latch := b\<rparr>) = dash_down r y"
  "dot_down r (y\<lparr>y_ticking := b\<rparr>) = dot_down r y" "dash_down r (y\<lparr>y_ticking := b\<rparr>) = dash_down r y"
  by (simp_all add: dot_down_def dash_down_def)

lemma start_mark_down [simp]:
  "dot_down q (fst (start_mark r e t y)) = dot_down q y" "dash_down q (fst (start_mark r e t y)) = dash_down q y"
  by (simp_all add: start_mark_def)

lemma start_mark_latch: "latched (fst (start_mark r e t y)) (opposite e) = paddle_down r y (opposite e)"
  by (cases e) (simp_all add: start_mark_def sample_latch_def latched_def paddle_down_def)

lemma start_mark_state:
  "y_state (fst (start_mark r e t y)) = KEYER_ST_MARK" "snd (start_mark r e t y) = [Mark_start e t]"
  "y_current_elem (fst (start_mark r e t y)) = Some e"
  "y_elem_end (fst (start_mark r e t y)) = t + mark_length_ms r e / 1000"
  "y_phys_dot (fst (start_mark r e t y)) = y_phys_dot y" "y_phys_dash (fst (start_mark r e t y)) = y_phys_dash y"
  "y_last_change (fst (start_mark r e t y)) = y_last_change y"
  by (simp_all add: start_mark_def)

text \<open>An element is current exactly when the keyer is not idle.\<close>

definition elem_inv :: "keyer \<Rightarrow> bool" where
  "elem_inv y = (y_state y = KEYER_ST_IDLE \<longleftrightarrow> y_current_elem y = None)"

fun edges_alternate :: "bool \<Rightarrow> key_edge list \<Rightarrow> bool" where
  "edges_alternate down [] = True"
| "edges_alternate down (Mark_start e t # es) = (\<not> down \<and> edges_alternate True es)"
| "edges_alternate down (Mark_end # es) = (down \<and> edges_alternate False es)"

fun down_after :: "bool \<Rightarrow> key_edge list \<Rightarrow> bool" where
  "down_after down [] = down"
| "down_after down (Mark_start e t # es) = down_after True es"
| "down_after down (Mark_end # es) = down_after False es"

definition marking :: "keyer \<Rightarrow> bool" where
  "marking y = (y_state y = KEYER_ST_MARK)"

text \<open>One turn of the keyer emits at most one edge, and the key is down exactly in a
mark.\<close>

lemma stuck_guard_state [simp]:
  "y_state (stuck_guard now y) = y_state y" "y_current_elem (stuck_guard now y) = y_current_elem y"
  "y_elem_end (stuck_guard now y) = y_elem_end y"
  by (simp_all add: stuck_guard_def)

lemma iambic_advance_edges:
  "edges_alternate (marking y) (snd (iambic_advance r now y)) \<and>
   down_after (marking y) (snd (iambic_advance r now y)) = marking (fst (iambic_advance r now y))"
  by (cases "y_state y")
     (auto simp: iambic_advance_def marking_def start_mark_state begin_space_def end_of_space_def keyer_idle_def
        clear_latches_def Let_def split: option.split)

lemma advance_edges:
  "edges_alternate (marking y) (snd (cw_keyer_advance r now y)) \<and>
   down_after (marking y) (snd (cw_keyer_advance r now y)) = marking (fst (cw_keyer_advance r now y))"
proof (cases "r_cw_keyer_mode r = KEYER_STRAIGHT")
  case True
  thus ?thesis by (auto simp: cw_keyer_advance_def straight_advance_def marking_def keyer_idle_def)
next
  case False
  thus ?thesis using iambic_advance_edges[of "stuck_guard now y" r now]
    by (simp add: cw_keyer_advance_def marking_def)
qed

lemma end_of_space_elem: "elem_inv (fst (end_of_space r y))"
  by (auto simp: end_of_space_def elem_inv_def start_mark_state keyer_idle_def split: option.split)

lemma advance_elem_inv: "elem_inv y \<Longrightarrow> elem_inv (fst (cw_keyer_advance r now y))"
proof (cases "r_cw_keyer_mode r = KEYER_STRAIGHT")
  case True
  assume "elem_inv y"
  thus ?thesis using True by (auto simp: cw_keyer_advance_def straight_advance_def elem_inv_def keyer_idle_def)
next
  case False
  assume "elem_inv y"
  thus ?thesis using False end_of_space_elem
    by (cases "y_state y")
       (auto simp: cw_keyer_advance_def iambic_advance_def start_mark_state begin_space_def Let_def elem_inv_def[of y]
          elem_inv_def[of "sample_latch _ _"] elem_inv_def[of "fst (start_mark _ _ _ _)"] elem_inv_def[of "y_elem_end_update _ _"]
          elem_inv_def[of "y_state_update _ _"] elem_inv_def[of "stuck_guard _ _"])
qed

section \<open>A held squeeze\<close>

fun keyer_run :: "radio \<Rightarrow> real list \<Rightarrow> keyer \<Rightarrow> keyer \<times> key_edge list" where
  "keyer_run r [] y = (y, [])"
| "keyer_run r (t # ts) y =
     (fst (keyer_run r ts (fst (cw_keyer_advance r t y))),
      snd (cw_keyer_advance r t y) @ snd (keyer_run r ts (fst (cw_keyer_advance r t y))))"

text \<open>The ideal keying: the edges of \<open>n\<close> marks with their times, each mark following the one
before after its length and one dot of space.\<close>

definition period_s :: "radio \<Rightarrow> elem \<Rightarrow> real" where
  "period_s r e = (mark_length_ms r e + dot_unit_ms r) / 1000"

fun ideal_keying :: "radio \<Rightarrow> (elem \<Rightarrow> elem) \<Rightarrow> elem \<Rightarrow> real \<Rightarrow> nat \<Rightarrow> (real \<times> key_edge) list" where
  "ideal_keying r nx e t 0 = []"
| "ideal_keying r nx e t (Suc n) =
     (t, Mark_start e t) # (t + mark_length_ms r e / 1000, Mark_end) # ideal_keying r nx (nx e) (t + period_s r e) n"

text \<open>Keyed by ticks: a tick at or after the time of the next edge keys it, and no other.\<close>

fun keyed_by :: "(real \<times> key_edge) list \<Rightarrow> real list \<Rightarrow> key_edge list" where
  "keyed_by ((d, x) # es) (t # ts) = (if d \<le> t then x # keyed_by es ts else keyed_by ((d, x) # es) ts)"
| "keyed_by _ _ = []"

lemma unit_pos: "0 < dot_unit_ms r"
  by (simp add: dot_unit_ms_def)

lemma weight_pos: "0 < weight_scale r"
proof (cases "r_cw_keyer_weight r = 0")
  case False
  hence "0 < uint (r_cw_keyer_weight r)"
    using uint_ge_0[of "r_cw_keyer_weight r"] uint_0_iff[of "r_cw_keyer_weight r"] by linarith
  hence "0 < real_of_int (uint (r_cw_keyer_weight r))" by (simp only: of_int_0_less_iff)
  thus ?thesis using False by (simp add: weight_scale_def)
qed (simp add: weight_scale_def)

lemma mark_length_pos: "0 < mark_length_ms r e"
  using unit_pos[of r] weight_pos[of r] by (simp add: mark_length_ms_def)

lemma period_pos: "0 < period_s r e"
  using unit_pos[of r] mark_length_pos[of r e] by (simp add: period_s_def)

text \<open>The paddles as held at the beginning, no longer than the guard allows.\<close>

definition holding :: "radio \<Rightarrow> bool \<Rightarrow> bool \<Rightarrow> real \<Rightarrow> keyer \<Rightarrow> bool" where
  "holding r dot dash since y =
     (iambic r \<and> (dot \<or> dash) \<and> dot_down r y = dot \<and> dash_down r y = dash \<and> y_last_change y = since)"

lemma holding_guard: "holding r dot dash since y \<Longrightarrow> t - since \<le> CW_KEYER_STUCK_S \<Longrightarrow> stuck_guard t y = y"
  by (auto simp: holding_def stuck_guard_def)

definition next_of :: "bool \<Rightarrow> bool \<Rightarrow> elem \<Rightarrow> elem" where
  "next_of dot dash e = (if (if e = ELEM_DIT then dash else dot) then opposite e else e)"

definition in_mark :: "radio \<Rightarrow> bool \<Rightarrow> bool \<Rightarrow> elem \<Rightarrow> keyer \<Rightarrow> bool" where
  "in_mark r dot dash e y =
     (y_state y \<noteq> KEYER_ST_IDLE \<and> y_current_elem y = Some e \<and>
      latched y (opposite e) = (if e = ELEM_DIT then dash else dot))"

lemma start_mark_holding:
  assumes "holding r dot dash since y"
  shows "holding r dot dash since (fst (start_mark r e t y))" "in_mark r dot dash e (fst (start_mark r e t y))"
proof -
  show "holding r dot dash since (fst (start_mark r e t y))"
    using assms by (simp add: holding_def start_mark_state)
  show "in_mark r dot dash e (fst (start_mark r e t y))"
    using assms start_mark_latch[of r e t y]
    by (cases e) (simp_all add: in_mark_def start_mark_state holding_def paddle_down_def)
qed

lemma sample_latch_holding:
  assumes "holding r dot dash since y" "in_mark r dot dash e y"
  shows "sample_latch r y = y"
  using assms by (cases e) (auto simp: holding_def in_mark_def sample_latch_def latched_def)

lemma decide_holding:
  assumes "holding r dot dash since y" "in_mark r dot dash e y"
  shows "decide_next r y = Some (next_of dot dash e)"
  using assms by (cases e) (auto simp: holding_def in_mark_def decide_next_def next_of_def latched_def paddle_down_def Let_def)

lemma held_mark:
  assumes "holding r dot dash since y" "in_mark r dot dash e y" "t - since \<le> CW_KEYER_STUCK_S" "y_state y = KEYER_ST_MARK"
  shows "cw_keyer_advance r t y = (if y_elem_end y \<le> t then begin_space r (y_elem_end y) y else (y, []))"
  using assms holding_guard[OF assms(1,3)] sample_latch_holding[OF assms(1,2)]
  by (simp add: cw_keyer_advance_def iambic_advance_def holding_def iambic_def Let_def)

lemma held_space:
  assumes "holding r dot dash since y" "in_mark r dot dash e y" "t - since \<le> CW_KEYER_STUCK_S" "y_state y = KEYER_ST_SPACE"
  shows "cw_keyer_advance r t y =
    (if y_elem_end y \<le> t then start_mark r (next_of dot dash e) (y_elem_end y) (clear_latches y) else (y, []))"
  using assms holding_guard[OF assms(1,3)] sample_latch_holding[OF assms(1,2)] decide_holding[OF assms(1,2)]
  by (simp add: cw_keyer_advance_def iambic_advance_def holding_def iambic_def end_of_space_def Let_def)

definition next_start :: "radio \<Rightarrow> keyer \<Rightarrow> real" where
  "next_start r y = (if y_state y = KEYER_ST_SPACE then y_elem_end y else y_elem_end y + dot_unit_ms r / 1000)"

text \<open>What is still to be keyed of the ideal keying.\<close>

definition to_key :: "radio \<Rightarrow> (elem \<Rightarrow> elem) \<Rightarrow> elem \<Rightarrow> nat \<Rightarrow> keyer \<Rightarrow> (real \<times> key_edge) list" where
  "to_key r nx e n y = (if y_state y = KEYER_ST_SPACE then [] else [(y_elem_end y, Mark_end)]) @
     ideal_keying r nx (nx e) (next_start r y) n"

lemma held_run:
  assumes "holding r dot dash since y" "in_mark r dot dash e y" "\<forall>t \<in> set ts. t - since \<le> CW_KEYER_STUCK_S" "length ts \<le> n"
  shows "snd (keyer_run r ts y) = keyed_by (to_key r (next_of dot dash) e n y) ts"
  using assms
proof (induction ts arbitrary: y e n)
  case (Cons t ts)
  let ?nx = "next_of dot dash"
  have g: "t - since \<le> CW_KEYER_STUCK_S" "\<forall>t \<in> set ts. t - since \<le> CW_KEYER_STUCK_S" using Cons.prems(3) by auto
  obtain m where m: "n = Suc m" "length ts \<le> m" using Cons.prems(4) by (cases n) auto
  consider "y_state y = KEYER_ST_MARK" | "y_state y = KEYER_ST_SPACE"
    using Cons.prems(2) by (cases "y_state y") (auto simp: in_mark_def)
  thus ?case
  proof cases
    case 1
    show ?thesis
    proof (cases "y_elem_end y \<le> t")
      case False
      thus ?thesis using Cons.IH[OF Cons.prems(1,2) g(2), of n] m held_mark[OF Cons.prems(1,2) g(1) 1] 1
        by (simp add: to_key_def)
    next
      case True
      let ?y = "fst (begin_space r (y_elem_end y) y)"
      have h: "holding r dot dash since ?y" "in_mark r dot dash e ?y"
        using Cons.prems(1,2) by (auto simp: begin_space_def holding_def in_mark_def latched_def)
      have s: "y_state ?y = KEYER_ST_SPACE" "next_start r ?y = next_start r y"
        by (simp_all add: begin_space_def next_start_def 1)
      have e: "snd (begin_space r (y_elem_end y) y) = [Mark_end]" by (simp add: begin_space_def)
      from Cons.IH[OF h g(2), of n] show ?thesis
        using held_mark[OF Cons.prems(1,2) g(1) 1] True s e 1 m by (simp add: to_key_def)
    qed
  next
    case 2
    show ?thesis
    proof (cases "y_elem_end y \<le> t")
      case False
      thus ?thesis using Cons.IH[OF Cons.prems(1,2) g(2), of n] m held_space[OF Cons.prems(1,2) g(1) 2] 2
        by (simp add: to_key_def next_start_def)
    next
      case True
      let ?e = "?nx e"
      let ?m = "start_mark r ?e (y_elem_end y) (clear_latches y)"
      have hc: "holding r dot dash since (clear_latches y)"
        using Cons.prems(1) by (simp add: holding_def clear_latches_def)
      note h = start_mark_holding[OF hc, of ?e "y_elem_end y"]
      have s: "y_state (fst ?m) = KEYER_ST_MARK" "next_start r (fst ?m) = next_start r y + period_s r ?e"
        "y_elem_end (fst ?m) = y_elem_end y + mark_length_ms r ?e / 1000" "snd ?m = [Mark_start ?e (y_elem_end y)]"
        by (simp_all add: start_mark_state next_start_def 2 period_s_def add_divide_distrib)
      have k: "to_key r ?nx ?e m (fst ?m) = (y_elem_end y + mark_length_ms r ?e / 1000, Mark_end) #
          ideal_keying r ?nx (?nx ?e) (y_elem_end y + period_s r ?e) m"
        using s 2 by (simp add: to_key_def next_start_def[of r y])
      have "to_key r ?nx e n y = ideal_keying r ?nx ?e (y_elem_end y) n" by (simp add: to_key_def next_start_def 2)
      thus ?thesis using Cons.IH[OF h g(2) m(2)] held_space[OF Cons.prems(1,2) g(1) 2] True s(4) m(1) k by simp
    qed
  qed
qed simp

lemma held_squeeze:
  assumes "holding r dot dash since y" "y_state y = KEYER_ST_IDLE" "\<forall>t \<in> set (t0 # ts). t - since \<le> CW_KEYER_STUCK_S"
  shows "snd (keyer_run r (t0 # ts) y) =
      keyed_by (ideal_keying r (next_of dot dash) (if dot then ELEM_DIT else ELEM_DAH) t0 (length (t0 # ts))) (t0 # ts)"
proof -
  let ?e = "if dot then ELEM_DIT else ELEM_DAH"
  let ?m = "start_mark r ?e t0 y"
  have "cw_keyer_advance r t0 y = ?m"
    using assms holding_guard[OF assms(1), of t0]
    by (auto simp: cw_keyer_advance_def iambic_advance_def holding_def iambic_def)
  moreover have "next_start r (fst ?m) = t0 + period_s r ?e"
    by (simp add: next_start_def start_mark_state period_s_def add_divide_distrib)
  moreover have "snd (keyer_run r ts (fst ?m)) = keyed_by (to_key r (next_of dot dash) ?e (length ts) (fst ?m)) ts"
    using assms(3) by (intro held_run[OF start_mark_holding[OF assms(1)]]) simp_all
  ultimately show ?thesis by (simp add: to_key_def start_mark_state)
qed

section \<open>Paddles released\<close>

text \<open>With both paddles up the keyer comes to rest: the element in flight, its space and,
in mode B, one element more for a squeeze seen on the way.\<close>

definition released :: "keyer \<Rightarrow> bool" where
  "released y = (\<not> y_phys_dot y \<and> \<not> y_phys_dash y)"

definition owed :: "radio \<Rightarrow> keyer \<Rightarrow> elem option" where
  "owed r y = (case y_current_elem y of
     None \<Rightarrow> None
   | Some e \<Rightarrow> if r_cw_keyer_mode r = KEYER_IAMBIC_B \<and> latched y (opposite e) then Some (opposite e) else None)"

definition turns_left :: "radio \<Rightarrow> keyer \<Rightarrow> nat" where
  "turns_left r y = (case y_state y of
     KEYER_ST_IDLE \<Rightarrow> 0
   | KEYER_ST_MARK \<Rightarrow> if owed r y = None then 2 else 4
   | KEYER_ST_SPACE \<Rightarrow> if owed r y = None then 1 else 3)"

definition rest_time :: "radio \<Rightarrow> keyer \<Rightarrow> real" where
  "rest_time r y =
     next_start r y + (case owed r y of None \<Rightarrow> 0 | Some e \<Rightarrow> period_s r e)"

lemma released_down [simp]:
  "released y \<Longrightarrow> dot_down r y = False" "released y \<Longrightarrow> dash_down r y = False" "released y \<Longrightarrow> paddle_down r y e = False"
  by (simp_all add: released_def dot_down_def dash_down_def paddle_down_def)

lemma released_latch: "released y \<Longrightarrow> sample_latch r y = y"
  by (simp add: sample_latch_def split: option.split elem.split)

lemma released_guard: "released y \<Longrightarrow> stuck_guard t y = y"
  by (simp add: released_def stuck_guard_def)

lemma released_decide:
  "released y \<Longrightarrow> y_current_elem y \<noteq> None \<Longrightarrow> decide_next r y = owed r y"
  by (auto simp: decide_next_def owed_def Let_def)

lemma start_mark_released:
  assumes "released y"
  shows "released (fst (start_mark r e t y))" "owed r (fst (start_mark r e t y)) = None"
  using assms start_mark_latch[of r e t y] by (simp_all add: released_def start_mark_state owed_def)

lemma owed_cong:
  assumes "y_current_elem z = y_current_elem y" "y_dit_latch z = y_dit_latch y" "y_dah_latch z = y_dah_latch y"
  shows "owed r z = owed r y"
proof -
  have "latched z = latched y" using assms by (simp add: fun_eq_iff latched_def)
  thus ?thesis using assms by (simp add: owed_def split: option.split)
qed

lemma released_advance:
  assumes "released y" "elem_inv y" "iambic r" and z_def: "z = fst (cw_keyer_advance r t y)"
  shows "released z \<and> elem_inv z \<and> turns_left r z \<le> turns_left r y \<and>
    (turns_left r z \<noteq> 0 \<longrightarrow> rest_time r z = rest_time r y) \<and>
    (rest_time r y \<le> t \<longrightarrow> turns_left r y \<noteq> 0 \<longrightarrow> turns_left r z < turns_left r y)"
proof -
  have inv: "elem_inv z" unfolding z_def by (rule advance_elem_inv[OF assms(2)])
  note a = released_latch[OF assms(1)] released_guard[OF assms(1)]
  have late: "y_elem_end y \<le> rest_time r y"
    using unit_pos[of r] period_pos by (auto simp: rest_time_def next_start_def less_imp_le split: option.split)
  show ?thesis
  proof (cases "y_state y")
    case KEYER_ST_IDLE
    hence "z = y" using assms(1,3) a by (simp add: z_def cw_keyer_advance_def iambic_advance_def iambic_def)
    thus ?thesis using assms(1,2) KEYER_ST_IDLE by (simp add: turns_left_def)
  next
    case KEYER_ST_MARK
    hence z: "z = (if y_elem_end y \<le> t then fst (begin_space r (y_elem_end y) y) else y)"
      using assms(1,3) a by (simp add: z_def cw_keyer_advance_def iambic_advance_def iambic_def Let_def)
    show ?thesis
    proof (cases "y_elem_end y \<le> t")
      case False
      thus ?thesis using z assms(1,2) late by simp
    next
      case True
      have o: "owed r z = owed r y" using True by (intro owed_cong) (simp_all add: z begin_space_def)
      have "next_start r z = next_start r y" using True KEYER_ST_MARK by (simp add: z begin_space_def next_start_def)
      thus ?thesis using True inv o KEYER_ST_MARK assms(1)
        by (simp add: z begin_space_def turns_left_def rest_time_def released_def)
    qed
  next
    case KEYER_ST_SPACE
    hence c: "y_current_elem y \<noteq> None" using assms(2) by (simp add: elem_inv_def)
    hence z: "z = (if y_elem_end y \<le> t then fst (end_of_space r y) else y)"
      using assms(1,3) a KEYER_ST_SPACE by (simp add: z_def cw_keyer_advance_def iambic_advance_def iambic_def Let_def)
    show ?thesis
    proof (cases "y_elem_end y \<le> t")
      case False
      thus ?thesis using z assms(1,2) late by simp
    next
      case True
      show ?thesis
      proof (cases "owed r y")
        case None
        hence "z = keyer_idle (clear_latches y)"
          using True released_decide[OF assms(1) c] by (simp add: z end_of_space_def)
        thus ?thesis using inv assms(1) KEYER_ST_SPACE None
          by (simp add: keyer_idle_def clear_latches_def turns_left_def released_def)
      next
        case (Some e)
        let ?y = "clear_latches y"
        have zm: "z = fst (start_mark r e (y_elem_end y) ?y)"
          using True Some released_decide[OF assms(1) c] by (simp add: z end_of_space_def)
        have rl: "released ?y" using assms(1) by (simp add: released_def clear_latches_def)
        note m = start_mark_released[OF rl, of r e "y_elem_end y"]
        have s: "y_state z = KEYER_ST_MARK" "owed r z = None" "released z" using m by (simp_all add: zm start_mark_state)
        have "rest_time r z = rest_time r y"
          using s KEYER_ST_SPACE Some
          by (simp add: rest_time_def next_start_def) (simp add: zm start_mark_state period_s_def add_divide_distrib)
        thus ?thesis using inv s KEYER_ST_SPACE Some by (simp add: turns_left_def)
      qed
    qed
  qed
qed

section \<open>The keyer and the transmitter together\<close>

definition keyer_inv :: "radio \<Rightarrow> keyer \<times> cw_tx \<Rightarrow> bool" where
  "keyer_inv r0 s =
     (elem_inv (fst s) \<and> cw_inv (snd s) \<and> same_keyer_settings r0 (c_radio (snd s)) \<and>
      (c_tx_mode (snd s) = CW_TX_KEYER \<longrightarrow> c_key_on (snd s) \<longrightarrow> marking (fst s)))"

lemma settings_cong:
  assumes "same_keyer_settings r q"
  shows "cw_keyer_advance q = cw_keyer_advance r" "iambic q = iambic r" "hang_ms q = hang_ms r"
    "turns_left q = turns_left r" "rest_time q = rest_time r" "sample_latch q = sample_latch r"
proof -
  have s: "r_cw_keys_reversed q = r_cw_keys_reversed r" "r_cw_keyer_speed q = r_cw_keyer_speed r"
    "r_cw_keyer_weight q = r_cw_keyer_weight r" "r_cw_keyer_mode q = r_cw_keyer_mode r"
    "r_cw_keyer_hang_time q = r_cw_keyer_hang_time r" using assms by (simp_all add: same_keyer_settings_def)
  have d: "dot_down q = dot_down r" "dash_down q = dash_down r" "dot_unit_ms q = dot_unit_ms r" "weight_scale q = weight_scale r"
    by (simp_all add: fun_eq_iff dot_down_def dash_down_def dot_unit_ms_def weight_scale_def s)
  show l: "sample_latch q = sample_latch r" by (simp add: fun_eq_iff sample_latch_def d)
  have m: "mark_length_ms q = mark_length_ms r" "paddle_down q = paddle_down r"
    by (simp_all add: fun_eq_iff mark_length_ms_def paddle_down_def d)
  have st: "start_mark q = start_mark r" "begin_space q = begin_space r" "decide_next q = decide_next r"
    by (auto simp: fun_eq_iff start_mark_def begin_space_def decide_next_def Let_def l m d s)
  have es: "end_of_space q = end_of_space r"
    by (simp add: fun_eq_iff end_of_space_def st split: option.split)
  show "cw_keyer_advance q = cw_keyer_advance r"
    by (simp add: fun_eq_iff cw_keyer_advance_def iambic_advance_def Let_def st es l d s split: keyer_state.split)
  show "iambic q = iambic r" "hang_ms q = hang_ms r" by (simp_all add: iambic_def hang_ms_def s)
  have o: "owed q = owed r" by (simp add: fun_eq_iff owed_def s split: option.split)
  show "turns_left q = turns_left r" by (simp add: fun_eq_iff turns_left_def o split: keyer_state.split)
  show "rest_time q = rest_time r" by (simp add: fun_eq_iff rest_time_def next_start_def period_s_def m o d split: option.split)
qed

lemma start_keying_simps [simp]:
  "c_tx_mode (start_keying c) = CW_TX_KEYER" "c_key_on (start_keying c) = c_key_on c"
  by (simp_all add: start_keying_def)

lemma start_keying_settings: "same_keyer_settings (c_radio c) (c_radio (start_keying c))"
  using raise_mox_settings[of "c\<lparr>c_tx_mode := CW_TX_KEYER, c_active := True\<rparr>"]
  by (simp add: start_keying_def) (simp add: same_keyer_settings_def)

lemma cw_tx_key_settings: "same_keyer_settings (c_radio c) (c_radio (cw_tx_key now b c))"
  using start_keying_settings[of c] by (simp add: cw_tx_key_def) (simp add: same_keyer_settings_def)

lemma cw_tx_key_up: "c_tx_mode (cw_tx_key now False c) = CW_TX_KEYER \<Longrightarrow> \<not> c_key_on (cw_tx_key now False c)"
  by (auto simp: cw_tx_key_def split: if_splits)

lemma emit_inv:
  assumes "cw_inv c" "same_keyer_settings r0 (c_radio c)"
  shows "cw_inv (emit now e c)" "same_keyer_settings r0 (c_radio (emit now e c))"
  using assms tx_key_inv cw_tx_key_settings same_keyer_settings_trans
  by (auto simp: emit_def split: key_edge.split)

lemma emit_edges:
  assumes "cw_inv c" "same_keyer_settings r0 (c_radio c)"
    "c_tx_mode c = CW_TX_KEYER \<longrightarrow> c_key_on c \<longrightarrow> down"
  shows "cw_inv (fold (emit now) es c) \<and> same_keyer_settings r0 (c_radio (fold (emit now) es c)) \<and>
    (c_tx_mode (fold (emit now) es c) = CW_TX_KEYER \<longrightarrow> c_key_on (fold (emit now) es c) \<longrightarrow> down_after down es)"
  using assms
proof (induction es arbitrary: c down)
  case (Cons e es)
  note i = emit_inv[OF Cons.prems(1,2), of now e]
  show ?case
  proof (cases e)
    case (Mark_start a t)
    thus ?thesis using Cons.IH[OF i, of True] by simp
  next
    case Mark_end
    have "\<not> c_key_on (emit now e c)" if "c_tx_mode (emit now e c) = CW_TX_KEYER"
      using that cw_tx_key_up by (simp add: emit_def Mark_end)
    thus ?thesis using Cons.IH[OF i, of False] Mark_end by simp
  qed
qed simp

lemma keyer_tick_state:
  "fst (keyer_tick ts tm s) = fst (cw_keyer_advance (c_radio (snd s)) ts (fst s)) \<or>
   fst (keyer_tick ts tm s) = (fst (cw_keyer_advance (c_radio (snd s)) ts (fst s)))\<lparr>y_ticking := False\<rparr>"
  "snd (keyer_tick ts tm s) = fold (emit tm) (snd (cw_keyer_advance (c_radio (snd s)) ts (fst s))) (snd s)"
  by (simp_all add: keyer_tick_def split: prod.split)

lemma ticking_irrelevant [simp]:
  "elem_inv (y\<lparr>y_ticking := b\<rparr>) = elem_inv y" "marking (y\<lparr>y_ticking := b\<rparr>) = marking y"
  "released (y\<lparr>y_ticking := b\<rparr>) = released y" "turns_left r (y\<lparr>y_ticking := b\<rparr>) = turns_left r y"
  "rest_time r (y\<lparr>y_ticking := b\<rparr>) = rest_time r y"
  using owed_cong[of "y\<lparr>y_ticking := b\<rparr>" y r]
  by (simp_all add: elem_inv_def marking_def released_def turns_left_def rest_time_def next_start_def
      split: keyer_state.split option.split)

lemma keyer_tick_inv: "keyer_inv r0 s \<Longrightarrow> keyer_inv r0 (keyer_tick ts tm s)"
proof -
  assume a: "keyer_inv r0 s"
  let ?r = "c_radio (snd s)"
  have e: "elem_inv (fst (cw_keyer_advance ?r ts (fst s)))" using a advance_elem_inv by (simp add: keyer_inv_def)
  have "c_tx_mode (snd s) = CW_TX_KEYER \<longrightarrow> c_key_on (snd s) \<longrightarrow> marking (fst s)" using a by (simp add: keyer_inv_def)
  from emit_edges[of "snd s" r0 "marking (fst s)" tm "snd (cw_keyer_advance ?r ts (fst s))", OF _ _ this] a
    advance_edges[of "fst s" ?r ts]
  have "cw_inv (snd (keyer_tick ts tm s)) \<and> same_keyer_settings r0 (c_radio (snd (keyer_tick ts tm s))) \<and>
    (c_tx_mode (snd (keyer_tick ts tm s)) = CW_TX_KEYER \<longrightarrow> c_key_on (snd (keyer_tick ts tm s)) \<longrightarrow>
       marking (fst (cw_keyer_advance ?r ts (fst s))))"
    unfolding keyer_tick_state(2) by (simp add: keyer_inv_def)
  thus ?thesis using keyer_tick_state(1)[of ts tm s] e by (auto simp: keyer_inv_def)
qed

inductive cw_step :: "keyer \<times> cw_tx \<Rightarrow> keyer \<times> cw_tx \<Rightarrow> bool" where
  tick: "cw_step s (keyer_tick now_s now_ms s)"
| paddle: "cw_step s (cw_keyer_paddle which pressed now_s now_ms s)"
| reset: "cw_step s (cw_keyer_reset now_ms s)"
| watchdog: "cw_step (y, c) (y, cw_tx_tick now_ms c)"
| send: "now_ms \<noteq> 0 \<Longrightarrow> cw_step (y, c) (y, snd (cw_tx_send_text now_ms encoded s c))"
| abort: "cw_step (y, c) (y, cw_tx_abort c)"
| sample: "cw_step (y, c) (y, snd (cw_tx_next_sample c))"
| mox: "cw_step (y, c) (y, c_set_mox b c)"

inductive cw_reachable :: "keyer \<times> cw_tx \<Rightarrow> keyer \<times> cw_tx \<Rightarrow> bool" for s0 where
  start: "cw_reachable s0 s0"
| step: "cw_reachable s0 s \<Longrightarrow> cw_step s t \<Longrightarrow> cw_reachable s0 t"

lemma paddle_inv:
  assumes "keyer_inv r0 s" "iambic r0"
  shows "keyer_inv r0 (cw_keyer_paddle which pressed ts tm s)"
proof -
  have "iambic (c_radio (snd s))" using assms settings_cong(2)[of r0 "c_radio (snd s)"] by (simp add: keyer_inv_def)
  hence p: "cw_keyer_paddle which pressed ts tm s =
      ((if pressed then sample_latch (c_radio (snd s)) (store_paddle which pressed ts (fst s))
        else store_paddle which pressed ts (fst s))\<lparr>y_ticking := True\<rparr>, snd s)"
    by (simp add: cw_keyer_paddle_def iambic_def Let_def)
  show ?thesis using assms(1) by (simp add: p keyer_inv_def) (simp add: elem_inv_def marking_def store_paddle_def)
qed

lemma reset_inv:
  assumes "keyer_inv r0 s"
  shows "keyer_inv r0 (cw_keyer_reset tm s)"
proof -
  have "cw_inv (cw_tx_key tm False (snd s))" "same_keyer_settings r0 (c_radio (cw_tx_key tm False (snd s)))"
    using assms tx_key_inv cw_tx_key_settings same_keyer_settings_trans by (auto simp: keyer_inv_def)
  thus ?thesis using assms cw_tx_key_up by (auto simp: keyer_inv_def cw_keyer_reset_def elem_inv_def marking_def)
qed

lemma cw_tx_tick_settings: "same_keyer_settings (c_radio c) (c_radio (cw_tx_tick now c))"
  using end_session_settings[of c] by (simp add: cw_tx_tick_def) (simp add: same_keyer_settings_def)

lemma send_text_settings: "same_keyer_settings (c_radio c) (c_radio (snd (cw_tx_send_text now enc s c)))"
  using raise_mox_settings[of "c\<lparr>c_wave_len := w, c_wave_pos := 0, c_key_time_ms := now, c_tx_mode := CW_TX_MESSAGE, c_active := True\<rparr>" for w]
  by (simp add: cw_tx_send_text_def split: option.split) (simp add: same_keyer_settings_def)

lemma abort_settings: "same_keyer_settings (c_radio c) (c_radio (cw_tx_abort c))"
  using drop_mox_settings[of "c\<lparr>c_active := False, c_tx_mode := CW_TX_IDLE\<rparr>"] by (simp add: cw_tx_abort_def)

lemma keyer_inv_step: "cw_step s t \<Longrightarrow> iambic r0 \<Longrightarrow> keyer_inv r0 s \<Longrightarrow> keyer_inv r0 t"
proof (induction rule: cw_step.induct)
  case (watchdog y c now)
  thus ?case using cw_tx_tick_inv cw_tx_tick_settings same_keyer_settings_trans end_session_simps(3)[of c]
    by (auto simp: keyer_inv_def) (auto simp: cw_tx_tick_def split: if_splits)
next
  case (send now y c enc s)
  have m: "c_tx_mode (snd (cw_tx_send_text now enc s c)) = CW_TX_KEYER \<longrightarrow> snd (cw_tx_send_text now enc s c) = c"
    by (simp add: cw_tx_send_text_def split: option.split)
  show ?case using send m send_text_inv send_text_settings same_keyer_settings_trans by (fastforce simp: keyer_inv_def)
next
  case (abort y c)
  thus ?case using abort_inv abort_settings same_keyer_settings_trans by (fastforce simp: keyer_inv_def cw_tx_abort_def)
next
  case (sample y c)
  have "same_keyer_settings (c_radio c) (c_radio (snd (cw_tx_next_sample c)))"
    by (simp add: cw_tx_next_sample_def same_keyer_settings_def)
  thus ?case using sample next_sample_inv same_keyer_settings_trans
    by (fastforce simp: keyer_inv_def cw_tx_next_sample_def)
next
  case (mox y c b)
  thus ?case using mox_inv c_set_mox_settings same_keyer_settings_trans by (fastforce simp: keyer_inv_def)
qed (auto intro: keyer_tick_inv paddle_inv reset_inv)

lemma keyer_inv_reachable: "cw_reachable s0 s \<Longrightarrow> iambic r0 \<Longrightarrow> keyer_inv r0 s0 \<Longrightarrow> keyer_inv r0 s"
  by (induction rule: cw_reachable.induct) (auto intro: keyer_inv_step)

section \<open>Coming to rest\<close>

definition run_ticks :: "(real \<times> int) list \<Rightarrow> keyer \<times> cw_tx \<Rightarrow> keyer \<times> cw_tx" where
  "run_ticks ticks s = fold (\<lambda>(a, b). keyer_tick a b) ticks s"

definition resting :: "radio \<Rightarrow> keyer \<times> cw_tx \<Rightarrow> bool" where
  "resting r0 s = (keyer_inv r0 s \<and> iambic r0 \<and> released (fst s))"

lemma keyer_tick_advance:
  assumes "keyer_inv r0 s"
  shows "fst (keyer_tick a b s) = fst (cw_keyer_advance r0 a (fst s)) \<or>
    fst (keyer_tick a b s) = (fst (cw_keyer_advance r0 a (fst s)))\<lparr>y_ticking := False\<rparr>"
  using keyer_tick_state(1)[of a b s] settings_cong(1)[of r0 "c_radio (snd s)"] assms by (auto simp: keyer_inv_def)

lemma resting_tick:
  assumes "resting r0 s"
  defines "z \<equiv> \<lambda>a b. keyer_tick a b s"
  shows "resting r0 (z a b)" "turns_left r0 (fst (z a b)) \<le> turns_left r0 (fst s)"
    "turns_left r0 (fst (z a b)) \<noteq> 0 \<Longrightarrow> rest_time r0 (fst (z a b)) = rest_time r0 (fst s)"
    "rest_time r0 (fst s) \<le> a \<Longrightarrow> turns_left r0 (fst s) \<noteq> 0 \<Longrightarrow> turns_left r0 (fst (z a b)) < turns_left r0 (fst s)"
proof -
  have r: "keyer_inv r0 s" "iambic r0" "released (fst s)" "elem_inv (fst s)"
    using assms(1) by (simp_all add: resting_def keyer_inv_def)
  note adv = released_advance[OF r(3,4,2) refl, of a]
  note t = keyer_tick_advance[OF r(1), of a b]
  show "resting r0 (z a b)" using keyer_tick_inv[OF r(1)] r(2) adv t by (auto simp: resting_def z_def)
  show "turns_left r0 (fst (z a b)) \<le> turns_left r0 (fst s)" using adv t by (auto simp: z_def)
  show "turns_left r0 (fst (z a b)) \<noteq> 0 \<Longrightarrow> rest_time r0 (fst (z a b)) = rest_time r0 (fst s)"
    using adv t by (auto simp: z_def)
  show "rest_time r0 (fst s) \<le> a \<Longrightarrow> turns_left r0 (fst s) \<noteq> 0 \<Longrightarrow> turns_left r0 (fst (z a b)) < turns_left r0 (fst s)"
    using adv t by (auto simp: z_def)
qed

lemma resting_run:
  "resting r0 s \<Longrightarrow> resting r0 (run_ticks ticks s) \<and> turns_left r0 (fst (run_ticks ticks s)) \<le> turns_left r0 (fst s) \<and>
   (turns_left r0 (fst (run_ticks ticks s)) \<noteq> 0 \<longrightarrow> rest_time r0 (fst (run_ticks ticks s)) = rest_time r0 (fst s))"
proof (induction ticks arbitrary: s)
  case (Cons x ticks)
  obtain a b where x: "x = (a, b)" by fastforce
  note t = resting_tick[OF Cons.prems, of a b]
  show ?case using Cons.IH[OF t(1)] t(2,3) by (auto simp: run_ticks_def x)
qed (simp add: run_ticks_def)

lemma resting_late:
  assumes "resting r0 s" "list_all (\<lambda>x. rest_time r0 (fst s) \<le> fst x) late" "turns_left r0 (fst s) \<le> length late"
  shows "turns_left r0 (fst (run_ticks late s)) = 0"
  using assms
proof (induction late arbitrary: s)
  case (Cons x late)
  obtain a b where x: "x = (a, b)" by fastforce
  note t = resting_tick[OF Cons.prems(1), of a b]
  show ?case
  proof (cases "turns_left r0 (fst (keyer_tick a b s)) = 0")
    case True
    thus ?thesis using resting_run[OF t(1), of late] by (simp add: run_ticks_def x)
  next
    case False
    hence "turns_left r0 (fst s) \<noteq> 0" using t(2) by simp
    hence "turns_left r0 (fst (keyer_tick a b s)) \<le> length late" using t(4) Cons.prems(2,3) x by simp
    moreover have "list_all (\<lambda>x. rest_time r0 (fst (keyer_tick a b s)) \<le> fst x) late"
      using Cons.prems(2) t(3)[OF False] by simp
    ultimately show ?thesis using Cons.IH[OF t(1)] by (simp add: run_ticks_def x)
  qed
qed (simp add: run_ticks_def)

lemma turns_left_4: "turns_left r y \<le> 4"
  by (simp add: turns_left_def split: keyer_state.split)

lemma turns_left_0: "turns_left r y = 0 \<longleftrightarrow> y_state y = KEYER_ST_IDLE"
  by (simp add: turns_left_def split: keyer_state.split)

lemma guard_twice: "stuck_guard t (stuck_guard t y) = stuck_guard t y"
  by (simp add: stuck_guard_def)

lemma rests_after_tick:
  assumes "keyer_inv r0 s" "iambic r0" "released (fst s) \<or> a - y_last_change (fst s) > CW_KEYER_STUCK_S"
  shows "resting r0 (keyer_tick a b s)"
proof -
  let ?y = "stuck_guard a (fst s)"
  have rl: "released ?y" using assms(3) by (auto simp: released_def stuck_guard_def)
  have e: "elem_inv ?y" using assms(1) by (simp add: keyer_inv_def elem_inv_def)
  have "cw_keyer_advance r0 a (fst s) = cw_keyer_advance r0 a ?y"
    using assms(2) by (simp add: cw_keyer_advance_def iambic_def guard_twice)
  thus ?thesis
    using released_advance[OF rl e assms(2) refl, of a] keyer_tick_advance[OF assms(1), of a b] keyer_tick_inv[OF assms(1)]
      assms(2) by (auto simp: resting_def)
qed

section \<open>A keyer in the middle of a dot\<close>

definition cw_radio0 :: radio where
  "cw_radio0 = radio0\<lparr>r_cw_keyer_mode := KEYER_IAMBIC_B, r_cw_keyer_speed := 20, r_cw_keyer_weight := 50,
     r_cw_keys_reversed := False, r_cw_keyer_hang_time := 250\<rparr>"

definition keyer0 :: keyer where
  "keyer0 = \<lparr>y_phys_dot = True, y_phys_dash = False, y_state = KEYER_ST_MARK, y_current_elem = Some ELEM_DIT,
     y_elem_end = 6 / 100, y_dit_latch = False, y_dah_latch = False, y_ticking = True, y_last_change = 0\<rparr>"

definition cw_tx0 :: cw_tx where
  "cw_tx0 = \<lparr>c_keying = keying0\<lparr>k_radio := cw_radio0\<lparr>r_mox := True\<rparr>\<rparr>, c_can_transmit = True, c_wave_len = 0, c_wave_pos = 0,
     c_active = True, c_we_keyed = True, c_ticking = True, c_key_time_ms = 0, c_tx_mode = CW_TX_KEYER, c_key_on = True,
     c_last_key_ms = 0\<rparr>"

lemma cw_radio0_settings: "iambic cw_radio0" "dot_unit_ms cw_radio0 = 60" "hang_ms cw_radio0 = 250"
    "same_keyer_settings cw_radio0 (c_radio cw_tx0)" "c_radio cw_tx0 = cw_radio0\<lparr>r_mox := True\<rparr>"
  by (simp_all add: iambic_def cw_radio0_def KEYER_IAMBIC_B_def KEYER_STRAIGHT_def dot_unit_ms_def hang_ms_def
      CW_KEYER_HANG_MS_def same_keyer_settings_def cw_tx0_def transmitter_get_mode_keys)

lemma keyer0_starts: "keyer_inv cw_radio0 (keyer0, cw_tx0)"
  using cw_radio0_settings(4) by (simp add: keyer_inv_def keyer0_def cw_tx0_def elem_inv_def cw_inv_def marking_def)

lemma keyer0_advance:
  "cw_keyer_advance (cw_radio0\<lparr>r_mox := True\<rparr>) 20 keyer0 =
     (keyer0\<lparr>y_phys_dot := False, y_elem_end := 12 / 100, y_state := KEYER_ST_SPACE\<rparr>, [Mark_end])"
proof -
  have m: "r_cw_keyer_mode cw_radio0 = 2" "r_cw_keys_reversed cw_radio0 = False"
    by (simp_all add: cw_radio0_def KEYER_IAMBIC_B_def)
  have d: "dot_unit_ms (cw_radio0\<lparr>r_mox := True\<rparr>) = 60" by (simp add: cw_radio0_def dot_unit_ms_def)
  show ?thesis
    by (simp add: cw_keyer_advance_def m d KEYER_STRAIGHT_def iambic_advance_def stuck_guard_def CW_KEYER_STUCK_S_def keyer0_def
        sample_latch_def dash_down_def begin_space_def Let_def)
qed

lemma keyer0_tick:
  "keyer_tick 20 20000 (keyer0, cw_tx0) =
     (keyer0\<lparr>y_phys_dot := False, y_elem_end := 12 / 100, y_state := KEYER_ST_SPACE\<rparr>,
      cw_tx0\<lparr>c_key_on := False, c_last_key_ms := 20000\<rparr>)"
  by (simp add: keyer_tick_def cw_radio0_settings(5) keyer0_advance emit_def cw_tx_key_def)
     (simp add: cw_tx0_def keyer0_def)

lemma quiet_tick:
  assumes "released y" "elem_inv y" "iambic (c_radio c)" "y_state y \<noteq> KEYER_ST_MARK" "owed (c_radio c) y = None"
  shows "snd (keyer_tick a b (y, c)) = c" "y_state (fst (keyer_tick a b (y, c))) \<noteq> KEYER_ST_MARK"
    "owed (c_radio c) (fst (keyer_tick a b (y, c))) = None"
proof -
  let ?r = "c_radio c"
  have a: "cw_keyer_advance ?r a y = (y, []) \<or> cw_keyer_advance ?r a y = (keyer_idle (clear_latches y), [])"
  proof (cases "y_state y")
    case KEYER_ST_IDLE
    thus ?thesis using assms by (simp add: cw_keyer_advance_def iambic_advance_def iambic_def released_guard)
  next
    case KEYER_ST_SPACE
    hence "decide_next ?r y = None" using assms released_decide by (simp add: elem_inv_def)
    thus ?thesis using assms KEYER_ST_SPACE
      by (simp add: cw_keyer_advance_def iambic_advance_def iambic_def released_guard released_latch end_of_space_def Let_def)
  qed (use assms in simp)
  have o: "owed ?r (keyer_idle (clear_latches y)) = None" by (simp add: owed_def keyer_idle_def)
  have t: "owed ?r (z\<lparr>y_ticking := False\<rparr>) = owed ?r z" for z by (rule owed_cong) simp_all
  show "snd (keyer_tick a b (y, c)) = c" "y_state (fst (keyer_tick a b (y, c))) \<noteq> KEYER_ST_MARK"
    "owed ?r (fst (keyer_tick a b (y, c))) = None"
    using a assms(4,5) o t by (auto simp: keyer_tick_def keyer_idle_def clear_latches_def split: if_splits)
qed

section \<open>Properties\<close>

text \<open>C11: Paddles held from rest (one of them, or both squeezed, in iambic mode) key dots and dashes
in the iambic order, alternating in a squeeze and repeating otherwise, on an ideal schedule: each
mark lasts its length and starts exactly where the one before it and a space of one dot end. How
late or unevenly the ticks come does not move an edge of that schedule. What they key is fixed edge by
edge: a tick at or after the time of the next edge keys that edge, and no other tick keys anything,
so the keyer neither stalls nor runs ahead. This holds for the ticks up to 15 seconds
(\<open>CW_KEYER_STUCK_S\<close>) after the paddles last changed; then the watchdog stops the keyer.\<close>

theorem squeeze_is_keyed_on_time:
  assumes "iambic r" "dot_down r y \<or> dash_down r y" "y_state y = KEYER_ST_IDLE"
    "\<forall>t \<in> set (t0 # ts). t - y_last_change y \<le> CW_KEYER_STUCK_S"
  shows "snd (keyer_run r (t0 # ts) y) =
      keyed_by (ideal_keying r (next_of (dot_down r y) (dash_down r y)) (if dot_down r y then ELEM_DIT else ELEM_DAH)
                  t0 (length (t0 # ts))) (t0 # ts)"
  by (rule held_squeeze[OF _ assms(3,4)]) (use assms(1,2) in \<open>simp add: holding_def\<close>)

theorem squeeze_is_keyed_on_time_witness:
  "snd (keyer_run cw_radio0 [1, 2, 3, 3, 4] (keyer0\<lparr>y_phys_dash := True, y_state := KEYER_ST_IDLE\<rparr>)) =
      keyed_by (ideal_keying cw_radio0 (next_of True True) ELEM_DIT 1 5) [1, 2, 3, 3, 4]"
proof -
  let ?y = "keyer0\<lparr>y_phys_dash := True, y_state := KEYER_ST_IDLE\<rparr>"
  have d: "dot_down cw_radio0 ?y" "dash_down cw_radio0 ?y"
    by (simp_all add: dot_down_def dash_down_def cw_radio0_def keyer0_def)
  have n: "length [1 :: real, 2, 3, 3, 4] = 5" by simp
  have g: "\<forall>t \<in> set [1 :: real, 2, 3, 3, 4]. t - y_last_change ?y \<le> CW_KEYER_STUCK_S"
    by (simp add: keyer0_def CW_KEYER_STUCK_S_def)
  show ?thesis using squeeze_is_keyed_on_time[OF cw_radio0_settings(1) _ _ g, unfolded n] d by simp
qed

text \<open>C10: The paddles cannot leave the transmitter on. From any state of the iambic keyer and
the transmitter that paddles, ticks, messages, aborts, other users of MOX and resets can reach, once
the paddles are up, or have been held without a change for more than fifteen seconds as after a lost
release, any four ticks after the element in flight, and one more in mode B, bring the keyer to rest
with the key up; the first watchdog turn after the hang time then ends the session and drops the MOX
it had raised.\<close>

theorem paddles_cannot_hold_the_transmitter:
  assumes "cw_reachable s0 s" "keyer_inv r0 s0" "iambic r0"
    "released (fst s) \<or> a - y_last_change (fst s) > CW_KEYER_STUCK_S"
    "s1 = keyer_tick a b s" "4 \<le> length late" "list_all (\<lambda>x. rest_time r0 (fst s1) \<le> fst x) late"
    "s2 = run_ticks late (run_ticks ticks s1)" "c_last_key_ms (snd s2) + hang_ms r0 < now"
  shows "y_state (fst s2) = KEYER_ST_IDLE \<and>
    (c_tx_mode (snd s2) = CW_TX_KEYER \<longrightarrow> \<not> c_key_on (snd s2) \<and> \<not> c_active (cw_tx_tick now (snd s2)) \<and>
       \<not> c_we_keyed (cw_tx_tick now (snd s2)) \<and> (c_we_keyed (snd s2) \<longrightarrow> \<not> r_mox (c_radio (cw_tx_tick now (snd s2)))))"
proof -
  have k: "keyer_inv r0 s" by (rule keyer_inv_reachable[OF assms(1,3,2)])
  have r1: "resting r0 s1" unfolding assms(5) by (rule rests_after_tick[OF k assms(3,4)])
  let ?m = "run_ticks ticks s1"
  have m: "resting r0 ?m" using resting_run[OF r1] by blast
  have "turns_left r0 (fst s2) = 0"
  proof (cases "turns_left r0 (fst ?m) = 0")
    case True
    thus ?thesis using resting_run[OF m, of late] by (simp add: assms(8))
  next
    case False
    hence "rest_time r0 (fst ?m) = rest_time r0 (fst s1)" using resting_run[OF r1, of ticks] by blast
    thus ?thesis unfolding assms(8) using assms(6,7) turns_left_4[of r0 "fst ?m"] by (intro resting_late[OF m]) simp_all
  qed
  hence idle: "y_state (fst s2) = KEYER_ST_IDLE" by (simp add: turns_left_0)
  have inv: "keyer_inv r0 s2" using resting_run[OF m, of late] by (simp add: assms(8) resting_def)
  hence h: "hang_ms (c_radio (snd s2)) = hang_ms r0" using settings_cong(3) by (simp add: keyer_inv_def)
  have "cw_tx_tick now (snd s2) = end_session (snd s2)" "\<not> c_key_on (snd s2)" if "c_tx_mode (snd s2) = CW_TX_KEYER"
    using that inv idle h assms(9) by (auto simp: cw_tx_tick_def keyer_inv_def marking_def cw_inv_def)
  thus ?thesis using idle end_session_simps[of "snd s2"] by auto
qed

theorem paddles_cannot_hold_the_transmitter_witness:
  "\<exists>s2 :: keyer \<times> cw_tx. y_state (fst s2) = KEYER_ST_IDLE \<and> c_tx_mode (snd s2) = CW_TX_KEYER \<and> c_we_keyed (snd s2) \<and>
     \<not> c_active (cw_tx_tick 20251 (snd s2)) \<and> \<not> r_mox (c_radio (cw_tx_tick 20251 (snd s2)))"
proof -
  let ?late = "[(21, 21000), (21, 21000), (21, 21000), (21, 21000)] :: (real \<times> int) list"
  let ?s1 = "keyer_tick 20 20000 (keyer0, cw_tx0)"
  let ?c1 = "cw_tx0\<lparr>c_key_on := False, c_last_key_ms := 20000\<rparr>"
  let ?s2 = "run_ticks ?late (run_ticks [] ?s1)"
  have rest: "resting cw_radio0 ?s1"
    by (rule rests_after_tick[OF keyer0_starts cw_radio0_settings(1)]) (simp add: keyer0_def CW_KEYER_STUCK_S_def)
  have rt: "rest_time cw_radio0 (fst ?s1) = 12 / 100"
    unfolding keyer0_tick by (simp add: rest_time_def next_start_def owed_def latched_def cw_radio0_settings(2))
      (simp add: keyer0_def latched_def)
  have late: "list_all (\<lambda>x. rest_time cw_radio0 (fst ?s1) \<le> fst x) ?late" by (simp add: rt)
  have snd: "snd (run_ticks ts (y, ?c1)) = ?c1"
    if "resting cw_radio0 (y, ?c1)" "y_state y \<noteq> KEYER_ST_MARK" "owed (c_radio ?c1) y = None" for ts y
    using that
  proof (induction ts arbitrary: y)
    case (Cons x ts)
    obtain a b where x: "x = (a, b)" by fastforce
    have i: "released y" "elem_inv y" "iambic (c_radio ?c1)"
      using Cons.prems(1) settings_cong(2)[of cw_radio0 "c_radio ?c1"] by (simp_all add: resting_def keyer_inv_def)
    note q = quiet_tick[OF i Cons.prems(2,3), of a b]
    obtain z where z: "keyer_tick a b (y, ?c1) = (z, ?c1)" using q(1) by (metis prod.collapse)
    have "resting cw_radio0 (z, ?c1)" using resting_tick(1)[OF Cons.prems(1), of a b] z by simp
    thus ?case using Cons.IH[of z] q(2,3) z by (simp add: run_ticks_def x)
  qed (simp add: run_ticks_def)
  have c: "snd ?s2 = ?c1"
    using snd[of "fst ?s1" ?late] rest unfolding keyer0_tick
    by (simp add: run_ticks_def owed_def latched_def) (simp add: keyer0_def latched_def)
  have "y_state (fst ?s2) = KEYER_ST_IDLE \<and>
    (c_tx_mode (snd ?s2) = CW_TX_KEYER \<longrightarrow> \<not> c_key_on (snd ?s2) \<and> \<not> c_active (cw_tx_tick 20251 (snd ?s2)) \<and>
       \<not> c_we_keyed (cw_tx_tick 20251 (snd ?s2)) \<and> (c_we_keyed (snd ?s2) \<longrightarrow> \<not> r_mox (c_radio (cw_tx_tick 20251 (snd ?s2)))))"
  proof (rule paddles_cannot_hold_the_transmitter[OF cw_reachable.start keyer0_starts cw_radio0_settings(1) _ refl _ late refl])
    show "released (fst (keyer0, cw_tx0)) \<or> 20 - y_last_change (fst (keyer0, cw_tx0)) > CW_KEYER_STUCK_S"
      by (simp add: keyer0_def CW_KEYER_STUCK_S_def)
    show "c_last_key_ms (snd ?s2) + hang_ms cw_radio0 < 20251" unfolding c by (simp add: cw_radio0_settings(3))
  qed simp
  moreover have "c_tx_mode (snd ?s2) = CW_TX_KEYER \<and> c_we_keyed (snd ?s2)" unfolding c by (simp add: cw_tx0_def)
  ultimately show ?thesis by (intro exI[of _ ?s2] conjI) blast+
qed

section \<open>What modelling showed\<close>

text \<open>In straight key mode the paddle drives the key directly, and the swap of the paddles is
looked up at each event. Swapping them while the key is down makes its release that of the other
paddle, which is ignored.\<close>

lemma reversed_straight_key_sticks:
  assumes "r_cw_keyer_mode (c_radio c) = KEYER_STRAIGHT" "r_cw_keys_reversed (c_radio c)" "c_key_on c"
  shows "c_key_on (snd (cw_keyer_paddle CW_PADDLE_DOT False now_s now_ms (y, c)))"
  using assms by (simp add: cw_keyer_paddle_def straight_paddle_def)

text \<open>Choosing an iambic mode while the straight key is down: the release is then an iambic
paddle event, which emits nothing, and no later tick or watchdog turn lifts the key.\<close>

lemma key_down_into_iambic_sticks:
  assumes "iambic (c_radio c)" "y_state y = KEYER_ST_IDLE" "\<not> y_phys_dash y" "c_key_on c" "c_tx_mode c = CW_TX_KEYER"
    "c_active c" and s1_def: "s1 = cw_keyer_paddle CW_PADDLE_DOT False now_s now_ms (y, c)"
  shows "snd (keyer_tick t1 t2 s1) = c" "cw_tx_tick t c = c"
proof -
  have "snd s1 = c" "released (fst s1)" "y_state (fst s1) = KEYER_ST_IDLE"
    using assms(1-3) by (simp_all add: s1_def cw_keyer_paddle_def iambic_def Let_def store_paddle_def released_def)
  hence "cw_keyer_advance (c_radio c) t1 (fst s1) = (fst s1, [])"
    using assms(1) by (simp add: cw_keyer_advance_def iambic_def iambic_advance_def released_guard)
  thus "snd (keyer_tick t1 t2 s1) = c" using \<open>snd s1 = c\<close> by (simp add: keyer_tick_def)
  show "cw_tx_tick t c = c" using assms(4-6) by (simp add: cw_tx_tick_def)
qed

text \<open>The fifteen second guard does not cover the straight key: a lost release keys the
transmitter for ever.\<close>

lemma straight_key_has_no_guard:
  assumes "r_cw_keyer_mode (c_radio c) = KEYER_STRAIGHT" "y_state y = KEYER_ST_IDLE" "c_key_on c"
    "c_tx_mode c = CW_TX_KEYER" "c_active c"
  shows "snd (keyer_tick now_s now_ms (y, c)) = c" "cw_tx_tick now c = c"
  using assms by (simp_all add: keyer_tick_def cw_keyer_advance_def straight_advance_def cw_tx_tick_def)

end
