(* ===== verification/Cw_Encoder.thy ===== *)
theory Cw_Encoder
  imports C_Strings Complex_Main
begin

text \<open>Text to Morse (\<open>src/decode/cw_encoder.c\<close>): the code table, the macros of
a memory, the sequence of marks and gaps a text is keyed as, and where each of them begins and
ends in the audio buffer. The waveform inside a mark (a sine with raised cosine edges) is not
modelled; what is keyed and when is. Durations are in milliseconds and exact.\<close>

section \<open>The code table\<close>

definition CW_CODE_TABLE :: "(char \<times> string) list" where
  "CW_CODE_TABLE =
    [(CHR ''A'', ''.-''), (CHR ''B'', ''-...''), (CHR ''C'', ''-.-.''), (CHR ''D'', ''-..''),
     (CHR ''E'', ''.''), (CHR ''F'', ''..-.''), (CHR ''G'', ''--.''), (CHR ''H'', ''....''),
     (CHR ''I'', ''..''), (CHR ''J'', ''.---''), (CHR ''K'', ''-.-''), (CHR ''L'', ''.-..''),
     (CHR ''M'', ''--''), (CHR ''N'', ''-.''), (CHR ''O'', ''---''), (CHR ''P'', ''.--.''),
     (CHR ''Q'', ''--.-''), (CHR ''R'', ''.-.''), (CHR ''S'', ''...''), (CHR ''T'', ''-''),
     (CHR ''U'', ''..-''), (CHR ''V'', ''...-''), (CHR ''W'', ''.--''), (CHR ''X'', ''-..-''),
     (CHR ''Y'', ''-.--''), (CHR ''Z'', ''--..''),
     (CHR ''0'', ''-----''), (CHR ''1'', ''.----''), (CHR ''2'', ''..---''), (CHR ''3'', ''...--''),
     (CHR ''4'', ''....-''), (CHR ''5'', ''.....''), (CHR ''6'', ''-....''), (CHR ''7'', ''--...''),
     (CHR ''8'', ''---..''), (CHR ''9'', ''----.''),
     (CHR ''.'', ''.-.-.-''), (CHR '','', ''--..--''), (CHR ''?'', ''..--..''), (CHR ''/'', ''-..-.''),
     (CHR ''='', ''-...-''), (CHR ''+'', ''.-.-.''), (CHR ''-'', ''-....-''), (CHR ''@'', ''.--.-.''),
     (CHR ''('', ''-.--.''), (CHR '')'', ''-.--.-'')]"

definition char_to_code :: "char \<Rightarrow> string option" where
  "char_to_code c = map_of CW_CODE_TABLE c"

fun expand_macros :: "string \<Rightarrow> string \<Rightarrow> string" where
  "expand_macros call [] = []"
| "expand_macros call [c] = [c]"
| "expand_macros call (c # d # cs) =
     (if c = CHR ''%'' \<and> d = CHR ''C'' then call @ expand_macros call cs
      else if c = CHR ''%'' \<and> d = CHR ''%'' then CHR ''%'' # expand_macros call cs
      else c # expand_macros call (d # cs))"

definition cw_expand_macros :: "string \<Rightarrow> string \<Rightarrow> nat \<Rightarrow> string" where
  "cw_expand_macros call s outlen = take (outlen - 1) (expand_macros call s)"

section \<open>Marks and gaps\<close>

record cw_seg =
  seg_on :: bool
  seg_ms :: real

definition dot_ms :: "int \<Rightarrow> real" where
  "dot_ms wpm = 1200 / real_of_int (max wpm 1)"

definition wscale :: "int \<Rightarrow> real" where
  "wscale weight = min (max (real_of_int weight / 50) (3 / 10)) (5 / 2)"

definition elem_gap_ms :: "int \<Rightarrow> int \<Rightarrow> real" where
  "elem_gap_ms wpm weight = max ((2 - wscale weight) * dot_ms wpm) (1 / 4 * dot_ms wpm)"

definition seg_push :: "bool \<Rightarrow> real \<Rightarrow> cw_seg list \<Rightarrow> cw_seg list" where
  "seg_push on d segs = (if d \<le> 0 then segs else segs @ [\<lparr>seg_on = on, seg_ms = d\<rparr>])"

definition mark_ms :: "int \<Rightarrow> int \<Rightarrow> char \<Rightarrow> real" where
  "mark_ms wpm weight k = (if k = CHR ''-'' then 3 else 1) * dot_ms wpm * wscale weight"

fun push_elements :: "int \<Rightarrow> int \<Rightarrow> bool \<Rightarrow> string \<Rightarrow> cw_seg list \<Rightarrow> cw_seg list" where
  "push_elements wpm weight first [] segs = segs"
| "push_elements wpm weight first (k # ks) segs =
     push_elements wpm weight False ks
       (seg_push True (mark_ms wpm weight k)
         (if first then segs else seg_push False (elem_gap_ms wpm weight) segs))"

record cw_encoder =
  en_segs :: "cw_seg list"
  en_next_gap_dots :: real
  en_first_char :: bool

definition encode_char :: "int \<Rightarrow> int \<Rightarrow> char \<Rightarrow> cw_encoder \<Rightarrow> cw_encoder" where
  "encode_char wpm weight c0 e =
     (let c = toupper_c c0
      in if c = CHR '' '' then
           (if \<not> en_first_char e \<and> en_next_gap_dots e < 7 then e\<lparr>en_next_gap_dots := 7\<rparr> else e)
         else case char_to_code c of
           None \<Rightarrow> e
         | Some code \<Rightarrow>
             e\<lparr>en_segs := push_elements wpm weight True code
                 (if en_first_char e then en_segs e
                  else seg_push False (en_next_gap_dots e * dot_ms wpm) (en_segs e)),
               en_next_gap_dots := 3, en_first_char := False\<rparr>)"

definition cw_segments :: "string \<Rightarrow> int \<Rightarrow> int \<Rightarrow> cw_seg list" where
  "cw_segments s wpm weight =
     en_segs (fold (encode_char wpm weight) s \<lparr>en_segs = [], en_next_gap_dots = 0, en_first_char = True\<rparr>)"

text \<open>The buffer: every segment ends at the sample nearest to its exact time, so that
rounding never adds up.\<close>

definition sample_at :: "int \<Rightarrow> real \<Rightarrow> int" where
  "sample_at rate ms = \<lfloor>ms * real_of_int rate / 1000 + 1 / 2\<rfloor>"

fun cw_runs :: "int \<Rightarrow> int \<Rightarrow> real \<Rightarrow> int \<Rightarrow> cw_seg list \<Rightarrow> (bool \<times> int \<times> int) list" where
  "cw_runs rate samples cum start [] = []"
| "cw_runs rate samples cum start (s # ss) =
     (let cum1 = cum + seg_ms s; stop = min (sample_at rate cum1) samples
      in if stop - start \<le> 0 then cw_runs rate samples cum1 stop ss
         else (seg_on s, start, stop - start) # cw_runs rate samples cum1 stop ss)"

definition total_ms :: "cw_seg list \<Rightarrow> real" where
  "total_ms segs = sum_list (map seg_ms segs)"

definition cw_encode_to_audio :: "string \<Rightarrow> int \<Rightarrow> int \<Rightarrow> int \<Rightarrow> (int \<times> (bool \<times> int \<times> int) list) option" where
  "cw_encode_to_audio s wpm weight rate =
     (let segs = cw_segments s wpm weight; samples = sample_at rate (total_ms segs)
      in if segs = [] \<or> samples \<le> 0 then None else Some (samples, cw_runs rate samples 0 0 segs))"

section \<open>Reading a keying back\<close>

text \<open>A listener's view of marks and gaps: a mark is a dash when it is longer than two
dots of the same weight; a gap of two dots ends a letter, one of five a word.\<close>

definition code_to_char :: "string \<Rightarrow> char" where
  "code_to_char code = the (map_of (map (\<lambda>(c, k). (k, c)) CW_CODE_TABLE) code)"

fun read_keying :: "real \<Rightarrow> real \<Rightarrow> string \<Rightarrow> cw_seg list \<Rightarrow> string" where
  "read_keying dot w code [] = (if code = [] then [] else [code_to_char code])"
| "read_keying dot w code (s # ss) =
     (if seg_on s then read_keying dot w (code @ [if seg_ms s > 2 * dot * w then CHR ''-'' else CHR ''.'']) ss
      else if seg_ms s < 2 * dot then read_keying dot w code ss
      else if seg_ms s < 5 * dot then code_to_char code # read_keying dot w [] ss
      else code_to_char code # CHR '' '' # read_keying dot w [] ss)"

text \<open>What the keying sounds like: marks with no gap between them are one mark, and so with
gaps.\<close>

function sounding :: "cw_seg list \<Rightarrow> cw_seg list" where
  "sounding [] = []"
| "sounding [s] = [s]"
| "sounding (s # u # ss) =
     (if seg_on s = seg_on u then sounding (\<lparr>seg_on = seg_on s, seg_ms = seg_ms s + seg_ms u\<rparr> # ss)
      else s # sounding (u # ss))"
  by pat_completeness auto
termination by (relation "measure length") auto

text \<open>What can be keyed of a text: its words in capitals, without the characters that have
no code.\<close>

fun words_of :: "string \<Rightarrow> string list" where
  "words_of [] = [[]]"
| "words_of (c # cs) = (if c = CHR '' '' then [] # words_of cs
     else (c # hd (words_of cs)) # tl (words_of cs))"

fun unwords :: "string list \<Rightarrow> string" where
  "unwords [] = []"
| "unwords [w] = w"
| "unwords (w # v # ws) = w @ CHR '' '' # unwords (v # ws)"

definition keyed_text :: "string \<Rightarrow> string" where
  "keyed_text s = unwords (filter (\<lambda>w. w \<noteq> [])
     (words_of (filter (\<lambda>c. c = CHR '' '' \<or> char_to_code c \<noteq> None) (map toupper_c s))))"

lemma code_to_char_code:
  assumes "char_to_code c = Some code"
  shows "code_to_char code = c"
proof -
  have d: "distinct (map fst (map (\<lambda>(c, k). (k, c)) CW_CODE_TABLE))" by code_simp
  have "(c, code) \<in> set CW_CODE_TABLE" using assms by (simp add: char_to_code_def map_of_SomeD)
  hence "(code, c) \<in> set (map (\<lambda>(c, k). (k, c)) CW_CODE_TABLE)" by force
  from map_of_is_SomeI[OF d this] show ?thesis by (simp add: code_to_char_def)
qed

lemma code_elements:
  assumes "char_to_code c = Some code"
  shows "code \<noteq> []" "list_all (\<lambda>k. k = CHR ''-'' \<or> k = CHR ''.'') code"
proof -
  have "list_all (\<lambda>(c, k). k \<noteq> [] \<and> list_all (\<lambda>e. e = CHR ''-'' \<or> e = CHR ''.'') k) CW_CODE_TABLE" by code_simp
  moreover have "(c, code) \<in> set CW_CODE_TABLE" using assms by (simp add: char_to_code_def map_of_SomeD)
  ultimately show "code \<noteq> []" "list_all (\<lambda>k. k = CHR ''-'' \<or> k = CHR ''.'') code"
    by (auto simp: list_all_iff)
qed

section \<open>The keying of a text\<close>

lemma dot_pos: "0 < dot_ms wpm"
  by (simp add: dot_ms_def)

lemma wscale_bounds: "3 / 10 \<le> wscale weight" "wscale weight \<le> 5 / 2"
  by (simp_all add: wscale_def)

lemma wscale_pos: "0 < wscale weight"
  using wscale_bounds(1)[of weight] by linarith

lemma elem_gap_bounds: "0 < elem_gap_ms wpm weight" "elem_gap_ms wpm weight < 2 * dot_ms wpm"
proof -
  show "0 < elem_gap_ms wpm weight" using dot_pos[of wpm] by (simp add: elem_gap_ms_def less_max_iff_disj)
  have "(2 - wscale weight) * dot_ms wpm < 2 * dot_ms wpm" using dot_pos[of wpm] wscale_pos[of weight] by simp
  thus "elem_gap_ms wpm weight < 2 * dot_ms wpm" using dot_pos[of wpm] by (simp add: elem_gap_ms_def)
qed

lemma mark_pos: "0 < mark_ms wpm weight k"
  using dot_pos[of wpm] wscale_pos[of weight] by (simp add: mark_ms_def)

lemma seg_push_pos: "0 < d \<Longrightarrow> seg_push on d segs = segs @ [\<lparr>seg_on = on, seg_ms = d\<rparr>]"
  by (simp add: seg_push_def)

definition mark_of :: "int \<Rightarrow> int \<Rightarrow> char \<Rightarrow> cw_seg" where
  "mark_of wpm weight k = \<lparr>seg_on = True, seg_ms = mark_ms wpm weight k\<rparr>"

definition gap_of :: "real \<Rightarrow> cw_seg" where
  "gap_of d = \<lparr>seg_on = False, seg_ms = d\<rparr>"

definition rest_elements :: "int \<Rightarrow> int \<Rightarrow> string \<Rightarrow> cw_seg list" where
  "rest_elements wpm weight ks = concat (map (\<lambda>k. [gap_of (elem_gap_ms wpm weight), mark_of wpm weight k]) ks)"

lemma push_rest: "push_elements wpm weight False ks segs = segs @ rest_elements wpm weight ks"
  by (induction ks arbitrary: segs)
     (simp_all add: rest_elements_def seg_push_pos mark_pos elem_gap_bounds mark_of_def gap_of_def)

lemma push_code: "push_elements wpm weight True (k # ks) segs = segs @ mark_of wpm weight k # rest_elements wpm weight ks"
  by (simp add: push_rest seg_push_pos mark_pos mark_of_def)

text \<open>The letters of a text with the gap in front of each, in dots.\<close>

fun letters :: "bool \<Rightarrow> real \<Rightarrow> string \<Rightarrow> (real \<times> char) list" where
  "letters first gap [] = []"
| "letters first gap (c0 # cs) =
     (let c = toupper_c c0
      in if c = CHR '' '' then letters first (if \<not> first \<and> gap < 7 then 7 else gap) cs
         else if char_to_code c = None then letters first gap cs
         else (if first then 0 else gap, c) # letters False 3 cs)"

definition letter_segs :: "int \<Rightarrow> int \<Rightarrow> real \<times> char \<Rightarrow> cw_seg list" where
  "letter_segs wpm weight l =
     (if fst l = 0 then [] else [gap_of (fst l * dot_ms wpm)]) @
     mark_of wpm weight (hd (the (char_to_code (snd l)))) # rest_elements wpm weight (tl (the (char_to_code (snd l))))"

lemma encode_char_letter:
  assumes "en_first_char e \<or> 0 < en_next_gap_dots e" "toupper_c c0 \<noteq> CHR '' ''"
    "char_to_code (toupper_c c0) = Some code"
  shows "encode_char wpm weight c0 e =
    e\<lparr>en_segs := en_segs e @ letter_segs wpm weight (if en_first_char e then 0 else en_next_gap_dots e, toupper_c c0),
      en_next_gap_dots := 3, en_first_char := False\<rparr>"
proof -
  obtain k ks where k: "code = k # ks" using code_elements(1)[OF assms(3)] by (cases code) auto
  have "0 < en_next_gap_dots e * dot_ms wpm" if "\<not> en_first_char e" using that assms(1) dot_pos by simp
  thus ?thesis using assms k
    by (cases "en_first_char e") (simp_all add: encode_char_def Let_def push_code letter_segs_def seg_push_pos gap_of_def del: push_elements.simps)
qed

lemma encode_letters:
  assumes "en_first_char e \<or> 0 < en_next_gap_dots e"
  shows "en_segs (fold (encode_char wpm weight) s e) =
    en_segs e @ concat (map (letter_segs wpm weight) (letters (en_first_char e) (en_next_gap_dots e) s))"
  using assms
proof (induction s arbitrary: e)
  case (Cons c0 cs)
  let ?c = "toupper_c c0"
  consider "?c = CHR '' ''" | "?c \<noteq> CHR '' ''" "char_to_code ?c = None"
    | code where "?c \<noteq> CHR '' ''" "char_to_code ?c = Some code" by (cases "char_to_code ?c") auto
  thus ?case
  proof cases
    case 1
    hence "encode_char wpm weight c0 e =
        (if \<not> en_first_char e \<and> en_next_gap_dots e < 7 then e\<lparr>en_next_gap_dots := 7\<rparr> else e)"
      by (simp add: encode_char_def)
    thus ?thesis using 1 Cons.IH Cons.prems by (simp add: Let_def)
  next
    case 2
    hence "encode_char wpm weight c0 e = e" by (simp add: encode_char_def)
    thus ?thesis using 2 Cons.IH Cons.prems by (simp add: Let_def)
  next
    case 3
    thus ?thesis using Cons.IH encode_char_letter[OF Cons.prems 3] by (simp add: Let_def)
  qed
qed simp

lemma read_rest:
  assumes "list_all (\<lambda>k. k = CHR ''-'' \<or> k = CHR ''.'') ks"
  shows "read_keying (dot_ms wpm) (wscale weight) code (rest_elements wpm weight ks @ ss) =
    read_keying (dot_ms wpm) (wscale weight) (code @ ks) ss"
  using assms
proof (induction ks arbitrary: code)
  case (Cons k ks)
  have p: "0 < dot_ms wpm * wscale weight" using dot_pos wscale_pos by simp
  have k: "k = CHR ''-'' \<or> k = CHR ''.''" using Cons.prems by simp
  have m: "(mark_ms wpm weight k > 2 * dot_ms wpm * wscale weight) = (k = CHR ''-'')"
    using k p by (auto simp: mark_ms_def)
  have "read_keying (dot_ms wpm) (wscale weight) code (rest_elements wpm weight (k # ks) @ ss) =
      read_keying (dot_ms wpm) (wscale weight) (code @ [k]) (rest_elements wpm weight ks @ ss)"
    using k m elem_gap_bounds[of wpm weight] by (auto simp: rest_elements_def gap_of_def mark_of_def)
  thus ?case using Cons by simp
qed (simp add: rest_elements_def)

lemma read_letter:
  assumes "char_to_code c = Some code"
  shows "read_keying (dot_ms wpm) (wscale weight) [] (mark_of wpm weight (hd code) # rest_elements wpm weight (tl code) @ ss) =
    read_keying (dot_ms wpm) (wscale weight) code ss"
proof -
  obtain k ks where k: "code = k # ks" using code_elements(1)[OF assms] by (cases code) auto
  have "0 < dot_ms wpm * wscale weight" using dot_pos wscale_pos by simp
  thus ?thesis using code_elements(2)[OF assms] k read_rest[of ks wpm weight "[k]" ss]
    by (auto simp: mark_of_def mark_ms_def)
qed

definition spaced_letter :: "real \<times> char \<Rightarrow> string" where
  "spaced_letter l = (if fst l = 7 then [CHR '' '', snd l] else [snd l])"

lemma read_letters:
  assumes "list_all (\<lambda>l. (fst l = 3 \<or> fst l = 7) \<and> char_to_code (snd l) \<noteq> None) ls" "char_to_code c = Some code"
  shows "read_keying (dot_ms wpm) (wscale weight) code (concat (map (letter_segs wpm weight) ls)) =
    c # concat (map spaced_letter ls)"
  using assms
proof (induction ls arbitrary: c code)
  case Nil
  thus ?case using code_elements(1) code_to_char_code by simp
next
  case (Cons l ls)
  obtain code2 where c2: "char_to_code (snd l) = Some code2" using Cons.prems(1) by auto
  have l: "fst l = 3 \<or> fst l = 7" using Cons.prems(1) by simp
  have "letter_segs wpm weight l =
      gap_of (fst l * dot_ms wpm) # mark_of wpm weight (hd code2) # rest_elements wpm weight (tl code2)"
    using l c2 by (auto simp: letter_segs_def)
  hence "read_keying (dot_ms wpm) (wscale weight) code (concat (map (letter_segs wpm weight) (l # ls))) =
      c # (if fst l = 7 then [CHR '' ''] else []) @
        read_keying (dot_ms wpm) (wscale weight) code2 (concat (map (letter_segs wpm weight) ls))"
    using l dot_pos[of wpm] read_letter[OF c2] code_to_char_code[OF Cons.prems(2)] by (auto simp: gap_of_def)
  also have "\<dots> = c # (if fst l = 7 then [CHR '' ''] else []) @ snd l # concat (map spaced_letter ls)"
    using Cons.IH[OF _ c2] Cons.prems(1) by simp
  finally show ?case by (simp add: spaced_letter_def[of l])
qed

text \<open>The letters are those of the words of the text.\<close>

definition keyable :: "string \<Rightarrow> string" where
  "keyable s = filter (\<lambda>c. c = CHR '' '' \<or> char_to_code c \<noteq> None) (map toupper_c s)"

fun plain_letters :: "bool \<Rightarrow> real \<Rightarrow> string \<Rightarrow> (real \<times> char) list" where
  "plain_letters first gap [] = []"
| "plain_letters first gap (c # cs) =
     (if c = CHR '' '' then plain_letters first (if \<not> first \<and> gap < 7 then 7 else gap) cs
      else (if first then 0 else gap, c) # plain_letters False 3 cs)"

lemma letters_plain: "letters first gap s = plain_letters first gap (keyable s)"
  by (induction s arbitrary: first gap) (auto simp: keyable_def Let_def)

lemma words_nonempty: "words_of s \<noteq> []"
  by (cases s) auto

lemma plain_letters_gaps:
  assumes "gap = 3 \<or> gap = 7" "list_all (\<lambda>c. c = CHR '' '' \<or> char_to_code c \<noteq> None) s"
  shows "list_all (\<lambda>l. (fst l = 3 \<or> fst l = 7) \<and> char_to_code (snd l) \<noteq> None) (plain_letters False gap s)"
  using assms by (induction s arbitrary: gap) auto

abbreviation later_words :: "string list \<Rightarrow> string" where
  "later_words ws \<equiv> concat (map (\<lambda>w. CHR '' '' # w) (filter (\<lambda>w. w \<noteq> []) ws))"

lemma plain_letters_words:
  "concat (map spaced_letter (plain_letters False 3 s)) = hd (words_of s) @ later_words (tl (words_of s))"
  "concat (map spaced_letter (plain_letters False 7 s)) = later_words (words_of s)"
proof (induction s)
  case (Cons c cs)
  {
    case 1
    show ?case using Cons words_nonempty[of cs] by (auto simp: spaced_letter_def[of "(_, _)"])
  next
    case 2
    show ?case using Cons words_nonempty[of cs]
      by (cases "words_of cs") (auto simp: spaced_letter_def[of "(_, _)"])
  }
qed simp_all

lemma unwords_later: "unwords (w # ws) = w @ concat (map (\<lambda>w. CHR '' '' # w) ws)"
  by (induction ws arbitrary: w) simp_all

definition read_first :: "(real \<times> char) list \<Rightarrow> string" where
  "read_first ls = (case ls of [] \<Rightarrow> [] | l # ms \<Rightarrow> snd l # concat (map spaced_letter ms))"

lemma first_letters_words:
  "read_first (plain_letters True 0 s) = unwords (filter (\<lambda>w. w \<noteq> []) (words_of s))"
proof (induction s)
  case (Cons c cs)
  show ?case
  proof (cases "c = CHR '' ''")
    case False
    thus ?thesis using plain_letters_words(1)[of cs] words_nonempty[of cs]
      by (cases "words_of cs") (simp_all add: read_first_def unwords_later)
  qed (use Cons in simp)
qed (simp add: read_first_def)

lemma keyed_reads_back:
  "read_keying (dot_ms wpm) (wscale weight) [] (cw_segments s wpm weight) = keyed_text s"
proof -
  let ?ls = "plain_letters True 0 (keyable s)"
  have segs: "cw_segments s wpm weight = concat (map (letter_segs wpm weight) ?ls)"
    unfolding cw_segments_def by (subst encode_letters) (simp_all add: letters_plain)
  have k: "list_all (\<lambda>c. c = CHR '' '' \<or> char_to_code c \<noteq> None) (keyable s)"
    by (simp add: keyable_def list_all_iff)
  have "read_keying (dot_ms wpm) (wscale weight) [] (concat (map (letter_segs wpm weight) (plain_letters True 0 t))) =
      read_first (plain_letters True 0 t)"
    if "list_all (\<lambda>c. c = CHR '' '' \<or> char_to_code c \<noteq> None) t" for t
    using that
  proof (induction t)
    case (Cons c cs)
    show ?case
    proof (cases "c = CHR '' ''")
      case False
      then obtain code where code: "char_to_code c = Some code" using Cons.prems by auto
      have "list_all (\<lambda>l. (fst l = 3 \<or> fst l = 7) \<and> char_to_code (snd l) \<noteq> None) (plain_letters False 3 cs)"
        using plain_letters_gaps Cons.prems by simp
      from read_letters[OF this code] False code read_letter[OF code]
      show ?thesis by (simp add: letter_segs_def[of _ _ "(_, _)"] read_first_def)
    qed (use Cons in simp)
  qed (simp add: read_first_def)
  from this[OF k] show ?thesis
    unfolding segs by (simp add: first_letters_words keyed_text_def keyable_def)
qed

text \<open>Marks and gaps take turns, so none of them run together, and no gap is shorter than a quarter
of a dot.\<close>

fun turns :: "bool \<Rightarrow> cw_seg list \<Rightarrow> bool" where
  "turns b [] = True"
| "turns b (s # ss) = (seg_on s = b \<and> turns (\<not> b) ss)"

lemma sounding_turns: "turns b ss \<Longrightarrow> sounding ss = ss"
  by (induction ss arbitrary: b rule: sounding.induct) auto

lemma turns_rest: "turns False (rest_elements wpm weight ks @ ss) = turns False ss"
  by (induction ks) (simp_all add: rest_elements_def gap_of_def mark_of_def)

lemma turns_letters: "list_all (\<lambda>l. fst l \<noteq> 0) ls \<Longrightarrow> turns False (concat (map (letter_segs wpm weight) ls))"
  by (induction ls) (simp_all add: letter_segs_def gap_of_def mark_of_def turns_rest)

lemma gaps_letters:
  "list_all (\<lambda>l. fst l = 0 \<or> 1 \<le> fst l) ls \<Longrightarrow>
   list_all (\<lambda>g. seg_on g \<or> dot_ms wpm / 4 \<le> seg_ms g) (concat (map (letter_segs wpm weight) ls))"
proof (induction ls)
  case (Cons l ls)
  have "list_all (\<lambda>g. seg_on g \<or> dot_ms wpm / 4 \<le> seg_ms g) (rest_elements wpm weight ks)" for ks
    by (induction ks) (simp_all add: rest_elements_def gap_of_def mark_of_def elem_gap_ms_def)
  moreover have "1 \<le> fst l \<Longrightarrow> dot_ms wpm / 4 \<le> fst l * dot_ms wpm"
    using dot_pos[of wpm] mult_right_mono[of 1 "fst l" "dot_ms wpm"] by linarith
  ultimately show ?case using Cons by (auto simp: letter_segs_def gap_of_def mark_of_def)
qed simp

lemma letters_from_first:
  "plain_letters True 0 t = [] \<or> (\<exists>l ls. plain_letters True 0 t = l # ls \<and> fst l = 0 \<and> list_all (\<lambda>l. fst l = 3 \<or> fst l = 7) ls)"
proof -
  have "gap = 3 \<or> gap = 7 \<Longrightarrow> list_all (\<lambda>l. fst l = 3 \<or> fst l = 7) (plain_letters False gap u)" for gap u
    by (induction u arbitrary: gap) auto
  thus ?thesis by (induction t) auto
qed

lemma keying_turns:
  "turns True (cw_segments s wpm weight)" "list_all (\<lambda>g. seg_on g \<or> dot_ms wpm / 4 \<le> seg_ms g) (cw_segments s wpm weight)"
proof -
  let ?ls = "plain_letters True 0 (keyable s)"
  have segs: "cw_segments s wpm weight = concat (map (letter_segs wpm weight) ?ls)"
    unfolding cw_segments_def by (subst encode_letters) (simp_all add: letters_plain)
  have "list_all (\<lambda>l. fst l = 3 \<or> fst l = 7) ls \<Longrightarrow> list_all (\<lambda>l. fst l = 0 \<or> 1 \<le> fst l) ls" for ls :: "(real \<times> char) list"
    by (induction ls) auto
  hence "list_all (\<lambda>l. fst l = 0 \<or> 1 \<le> fst l) ?ls" using letters_from_first[of "keyable s"] by auto
  thus "list_all (\<lambda>g. seg_on g \<or> dot_ms wpm / 4 \<le> seg_ms g) (cw_segments s wpm weight)"
    unfolding segs by (rule gaps_letters)
  show "turns True (cw_segments s wpm weight)"
  proof (cases "?ls = []")
    case False
    then obtain l ls where l: "?ls = l # ls" "fst l = 0" "list_all (\<lambda>l. fst l = 3 \<or> fst l = 7) ls"
      using letters_from_first[of "keyable s"] by blast
    have "list_all (\<lambda>l. fst l \<noteq> 0) ls" using l(3) by (auto simp: list_all_iff)
    from turns_letters[OF this] l(2) show ?thesis
      unfolding segs l(1) by (simp add: letter_segs_def[of _ _ l] mark_of_def turns_rest)
  qed (simp add: segs)
qed

section \<open>The buffer\<close>

text \<open>The runs lie one after the other inside the buffer, and each edge is within half a
sample of its exact time.\<close>

lemma sample_at_near: "\<bar>real_of_int (sample_at rate ms) - ms * real_of_int rate / 1000\<bar> \<le> 1 / 2"
  unfolding sample_at_def by linarith

lemma sample_at_mono: "0 \<le> rate \<Longrightarrow> a \<le> b \<Longrightarrow> sample_at rate a \<le> sample_at rate b"
  unfolding sample_at_def by (intro floor_mono) (simp add: mult_right_mono divide_right_mono)

lemma cw_runs_edges:
  assumes "(on, start, n) \<in> set (cw_runs rate samples cum (sample_at rate cum) segs)" "0 \<le> rate"
    "list_all (\<lambda>s. 0 < seg_ms s) segs" "sample_at rate (cum + total_ms segs) \<le> samples"
  shows "\<exists>pre s post. segs = pre @ s # post \<and> on = seg_on s \<and> start = sample_at rate (cum + total_ms pre)
    \<and> start + n = sample_at rate (cum + total_ms pre + seg_ms s) \<and> 0 < n \<and> start + n \<le> samples"
  using assms
proof (induction segs arbitrary: cum)
  case (Cons s ss)
  let ?cum = "cum + seg_ms s"
  have pos: "0 \<le> total_ms ss"
    unfolding total_ms_def using Cons.prems(3) by (intro sum_list_nonneg) (auto simp: list_all_iff)
  have le: "sample_at rate ?cum \<le> samples"
    using sample_at_mono[OF Cons.prems(2), of ?cum "?cum + total_ms ss"] pos Cons.prems(4)
    by (simp add: total_ms_def add.assoc)
  hence stop: "min (sample_at rate ?cum) samples = sample_at rate ?cum" by simp
  consider "start = sample_at rate cum" "on = seg_on s" "n = sample_at rate ?cum - sample_at rate cum" "0 < n"
    | "(on, start, n) \<in> set (cw_runs rate samples ?cum (sample_at rate ?cum) ss)"
    using Cons.prems(1) by (auto simp: Let_def stop split: if_splits)
  thus ?case
  proof cases
    case 1
    thus ?thesis using le by (intro exI[of _ "[]"]) (simp add: total_ms_def)
  next
    case 2
    have "sample_at rate (?cum + total_ms ss) \<le> samples"
      using Cons.prems(4) by (simp add: total_ms_def add.assoc)
    then obtain pre u post where "ss = pre @ u # post" "on = seg_on u" "start = sample_at rate (?cum + total_ms pre)"
        "start + n = sample_at rate (?cum + total_ms pre + seg_ms u)" "0 < n" "start + n \<le> samples"
      using Cons.IH[OF 2 Cons.prems(2)] Cons.prems(3) by auto
    thus ?thesis by (intro exI[of _ "s # pre"] exI[of _ u] exI[of _ post]) (simp add: total_ms_def add.assoc)
  qed
qed simp

lemma segments_positive: "list_all (\<lambda>s. 0 < seg_ms s) (cw_segments s wpm weight)"
proof -
  have m1: "list_all (\<lambda>s. 0 < seg_ms s) (letter_segs wpm weight l)" if "0 \<le> fst l" for l
    using that dot_pos[of wpm] mark_pos elem_gap_bounds(1)
    by (auto simp: letter_segs_def rest_elements_def gap_of_def mark_of_def list_all_iff)
  have m2: "list_all (\<lambda>l. 0 \<le> fst l) (letters first gap t)" if "0 \<le> gap" for first gap t
    using that by (induction t arbitrary: first gap) (auto simp: Let_def)
  have "\<forall>l \<in> set (letters True 0 s). \<forall>x \<in> set (letter_segs wpm weight l). 0 < seg_ms x"
    using m1 m2[of 0 True s] unfolding list_all_iff by blast
  hence "list_all (\<lambda>s. 0 < seg_ms s) (concat (map (letter_segs wpm weight) (letters True 0 s)))"
    by (simp add: list_all_iff)
  thus ?thesis unfolding cw_segments_def by (subst encode_letters) simp_all
qed

section \<open>Properties\<close>

text \<open>C37: What the encoder keys can be read back: for any text, speed and weight, a listener who
hears marks with no gap between them as one mark, takes a mark longer than two dots of the weight in
use for a dash, the gaps from two plain dots on for the ends of letters and those from five on for
the ends of words, reads the words of the text in capitals, one space apart, without the characters
Morse has no code for. No gap is shorter than a quarter of a dot. So no setting of the weight, which
moves time between marks and gaps, runs elements, letters or words together.\<close>

theorem keying_reads_back:
  "read_keying (dot_ms wpm) (wscale weight) [] (sounding (cw_segments s wpm weight)) = keyed_text s \<and>
   list_all (\<lambda>g. seg_on g \<or> dot_ms wpm / 4 \<le> seg_ms g) (cw_segments s wpm weight)"
  using keyed_reads_back[of wpm weight s] sounding_turns[OF keying_turns(1)] keying_turns(2) by simp


text \<open>The edges of the keyed audio do not drift: every mark and gap of a message of any
length begins and ends within half a sample of its exact time, however many came before it, and
lies inside the buffer that was allocated.\<close>

theorem keying_edges_do_not_drift:
  assumes "cw_encode_to_audio s wpm weight rate = Some (samples, runs)" "(on, start, n) \<in> set runs" "0 < rate"
  shows "\<exists>pre seg post. cw_segments s wpm weight = pre @ seg # post \<and> on = seg_on seg
    \<and> \<bar>real_of_int start - total_ms pre * real_of_int rate / 1000\<bar> \<le> 1 / 2
    \<and> \<bar>real_of_int (start + n) - (total_ms pre + seg_ms seg) * real_of_int rate / 1000\<bar> \<le> 1 / 2
    \<and> 0 \<le> start \<and> start + n \<le> samples"
proof -
  let ?segs = "cw_segments s wpm weight"
  have z: "sample_at rate 0 = 0" by (simp add: sample_at_def)
  have r: "runs = cw_runs rate samples 0 (sample_at rate 0) ?segs" "samples = sample_at rate (total_ms ?segs)"
    using assms(1) by (auto simp: cw_encode_to_audio_def Let_def z split: if_splits)
  from cw_runs_edges[of on start n rate samples 0 ?segs] assms(2,3) segments_positive r
  obtain pre seg post where e: "?segs = pre @ seg # post" "on = seg_on seg" "start = sample_at rate (total_ms pre)"
      "start + n = sample_at rate (total_ms pre + seg_ms seg)" "start + n \<le> samples" by auto
  have "0 \<le> total_ms pre" unfolding total_ms_def
    using segments_positive[of s wpm weight] by (intro sum_list_nonneg) (auto simp: e(1) list_all_iff less_imp_le)
  hence "0 \<le> start" using sample_at_mono[of rate 0 "total_ms pre"] assms(3) z e(3) by simp
  thus ?thesis using e sample_at_near[of rate "total_ms pre"] sample_at_near[of rate "total_ms pre + seg_ms seg"]
    by (intro exI[of _ pre] exI[of _ seg] exI[of _ post]) simp
qed

theorem keying_edges_do_not_drift_witness:
  "\<exists>pre seg post. cw_segments ''T'' 20 50 = pre @ seg # post \<and> True = seg_on seg
    \<and> \<bar>real_of_int 0 - total_ms pre * real_of_int 8000 / 1000\<bar> \<le> 1 / 2
    \<and> \<bar>real_of_int (0 + 1440) - (total_ms pre + seg_ms seg) * real_of_int 8000 / 1000\<bar> \<le> 1 / 2
    \<and> 0 \<le> (0 :: int) \<and> 0 + 1440 \<le> (1440 :: int)"
proof -
  have "cw_segments ''T'' 20 50 = [\<lparr>seg_on = True, seg_ms = 180\<rparr>]"
    by (simp add: cw_segments_def encode_char_def toupper_c_def char_to_code_def CW_CODE_TABLE_def seg_push_def
        mark_ms_def dot_ms_def wscale_def of_char_def)
  hence "cw_encode_to_audio ''T'' 20 50 8000 = Some (1440, [(True, 0, 1440)])"
    by (simp add: cw_encode_to_audio_def total_ms_def sample_at_def)
  from keying_edges_do_not_drift[OF this, of True 0 1440] show ?thesis by simp
qed

end
