(* ===== verification/Keybind.thy ===== *)
theory Keybind
  imports Property_Store Radio "HOL-Library.Word"
begin

text \<open>The operator's keyboard shortcuts: the table of actions, the bindings, their
matching against key events, the press and release of a held action and the way they are
saved (\<open>src/core/keybind.c\<close>). What an action does to the radio is theory
\<open>Key_Events\<close>.

GTK's part of it is an argument of the definitions, the record \<open>toolkit\<close>: the
lower case of a key value, the modifiers that count in an accelerator, the key values a
hardware key produces over all keyboard layouts, and the accelerator strings. What a lemma
relies on of them is one of the two predicates \<open>lower_ok\<close> and
\<open>accel_ok\<close>. The shortcuts page's headings and hover texts are not modelled.\<close>

unbundle bit_operations_syntax

section \<open>The actions\<close>

datatype kb_action =
    KB_NONE
  | KB_ZOOM_IN | KB_ZOOM_OUT | KB_ZOOM_RESET | KB_PAN_LEFT | KB_PAN_RIGHT
  | KB_PTT | KB_MOX | KB_TUNE
  | KB_SIDEBAND | KB_MODE_NEXT | KB_MODE_PREV
  | KB_BAND_UP | KB_BAND_DOWN | KB_FILTER_UP | KB_FILTER_DOWN | KB_FREQ_UP | KB_FREQ_DOWN | KB_LOCK
  | KB_A_TO_B | KB_B_TO_A | KB_A_SWAP_B | KB_SPLIT | KB_CTUN
  | KB_RIT | KB_RIT_CLEAR | KB_XIT | KB_XIT_CLEAR
  | KB_MUTE | KB_VOLUME_UP | KB_VOLUME_DOWN | KB_AGC_GAIN_UP | KB_AGC_GAIN_DOWN
  | KB_SQUELCH_UP | KB_SQUELCH_DOWN | KB_SQUELCH_TOGGLE
  | KB_AGC | KB_NB | KB_NR | KB_ANF | KB_SNB
  | KB_MODE int

text \<open>\<open>KB_MODE m\<close> is the code's \<open>KB_MODE_BASE+m\<close>.\<close>

datatype kb_row = Kb_row (ka_id: string) (ka_label: string) (ka_action: kb_action) (ka_hold: bool)

definition keybind_actions :: "kb_row list" where
  "keybind_actions =
  [Kb_row ''zoom_in'' ''Zoom in'' KB_ZOOM_IN False,
   Kb_row ''zoom_out'' ''Zoom out'' KB_ZOOM_OUT False,
   Kb_row ''zoom_reset'' ''Zoom x1'' KB_ZOOM_RESET False,
   Kb_row ''pan_left'' ''Pan left'' KB_PAN_LEFT False,
   Kb_row ''pan_right'' ''Pan right'' KB_PAN_RIGHT False,
   Kb_row ''ptt'' ''Transmit (hold)'' KB_PTT True,
   Kb_row ''mox'' ''Transmit (toggle)'' KB_MOX False,
   Kb_row ''tune'' ''Tune'' KB_TUNE False,
   Kb_row ''sideband'' ''Swap sideband'' KB_SIDEBAND False,
   Kb_row ''mode_next'' ''Next mode'' KB_MODE_NEXT False,
   Kb_row ''mode_prev'' ''Previous mode'' KB_MODE_PREV False,
   Kb_row ''band_up'' ''Band +'' KB_BAND_UP False,
   Kb_row ''band_down'' ''Band -'' KB_BAND_DOWN False,
   Kb_row ''filter_up'' ''Filter +'' KB_FILTER_UP False,
   Kb_row ''filter_down'' ''Filter -'' KB_FILTER_DOWN False,
   Kb_row ''freq_up'' ''Tune up one step'' KB_FREQ_UP False,
   Kb_row ''freq_down'' ''Tune down one step'' KB_FREQ_DOWN False,
   Kb_row ''lock'' ''Lock VFO'' KB_LOCK False,
   Kb_row ''a_to_b'' ''A > B'' KB_A_TO_B False,
   Kb_row ''b_to_a'' ''B > A'' KB_B_TO_A False,
   Kb_row ''a_swap_b'' ''A <> B'' KB_A_SWAP_B False,
   Kb_row ''split'' ''Split'' KB_SPLIT False,
   Kb_row ''ctun'' ''CTUN'' KB_CTUN False,
   Kb_row ''rit'' ''RIT on/off'' KB_RIT False,
   Kb_row ''rit_clear'' ''RIT clear'' KB_RIT_CLEAR False,
   Kb_row ''xit'' ''XIT on/off'' KB_XIT False,
   Kb_row ''xit_clear'' ''XIT clear'' KB_XIT_CLEAR False,
   Kb_row ''mute'' ''Mute'' KB_MUTE False,
   Kb_row ''volume_up'' ''Volume +'' KB_VOLUME_UP False,
   Kb_row ''volume_down'' ''Volume -'' KB_VOLUME_DOWN False,
   Kb_row ''agc_gain_up'' ''AGC gain +'' KB_AGC_GAIN_UP False,
   Kb_row ''agc_gain_down'' ''AGC gain -'' KB_AGC_GAIN_DOWN False,
   Kb_row ''squelch_up'' ''Squelch +'' KB_SQUELCH_UP False,
   Kb_row ''squelch_down'' ''Squelch -'' KB_SQUELCH_DOWN False,
   Kb_row ''squelch_toggle'' ''Squelch off/on'' KB_SQUELCH_TOGGLE False,
   Kb_row ''agc'' ''AGC speed'' KB_AGC False,
   Kb_row ''nb'' ''Noise blanker'' KB_NB False,
   Kb_row ''nr'' ''Noise reduction'' KB_NR False,
   Kb_row ''anf'' ''Auto notch'' KB_ANF False,
   Kb_row ''snb'' ''Spectral NB'' KB_SNB False,
   Kb_row ''mode_lsb'' ''LSB'' (KB_MODE LSB) False,
   Kb_row ''mode_usb'' ''USB'' (KB_MODE USB) False,
   Kb_row ''mode_dsb'' ''DSB'' (KB_MODE DSB) False,
   Kb_row ''mode_cwl'' ''CWL'' (KB_MODE CWL) False,
   Kb_row ''mode_cwu'' ''CWU'' (KB_MODE CWU) False,
   Kb_row ''mode_fmn'' ''FMN'' (KB_MODE FMN) False,
   Kb_row ''mode_am'' ''AM'' (KB_MODE AM) False,
   Kb_row ''mode_digu'' ''DIGU'' (KB_MODE DIGU) False,
   Kb_row ''mode_spec'' ''SPEC'' (KB_MODE SPEC) False,
   Kb_row ''mode_digl'' ''DIGL'' (KB_MODE DIGL) False,
   Kb_row ''mode_sam'' ''SAM'' (KB_MODE SAM) False,
   Kb_row ''mode_drm'' ''DRM'' (KB_MODE DRM) False,
   Kb_row ''mode_wfm'' ''WFM'' (KB_MODE WFM) False]"

definition keybind_action_count :: nat where "keybind_action_count = length keybind_actions"

section \<open>The bindings\<close>

type_synonym guint = "32 word"

record toolkit =
  tk_to_lower :: "guint \<Rightarrow> guint"
  tk_accel_mask :: guint
  tk_keymap :: "guint \<Rightarrow> guint list option"
  tk_accel_name :: "guint \<Rightarrow> guint \<Rightarrow> string option"
  tk_accel_parse :: "string \<Rightarrow> (guint \<times> guint) option"

record binding =
  b_keyval :: guint
  b_mods :: guint
  b_held :: bool

type_synonym bindings = "binding list"

definition unbound :: binding where
  "unbound = \<lparr>b_keyval = 0, b_mods = 0, b_held = False\<rparr>"

definition no_bindings :: bindings where
  "no_bindings = replicate keybind_action_count unbound"

definition mod_mask :: "toolkit \<Rightarrow> guint \<Rightarrow> guint" where
  "mod_mask tk state = state AND tk_accel_mask tk"

definition valid_row :: "int \<Rightarrow> bool" where
  "valid_row index \<longleftrightarrow> \<not> (index < 0 \<or> index \<ge> int keybind_action_count)"

definition keybind_get :: "int \<Rightarrow> bindings \<Rightarrow> guint \<times> guint" where
  "keybind_get index bs =
     (if \<not> valid_row index then (0, 0) else (b_keyval (bs ! nat index), b_mods (bs ! nat index)))"

text \<open>The first row of the table that satisfies a test.\<close>

definition first_row :: "(nat \<Rightarrow> bool) \<Rightarrow> nat option" where
  "first_row P = find P [0..<keybind_action_count]"

definition combination :: "guint \<Rightarrow> guint \<Rightarrow> binding \<Rightarrow> bool" where
  "combination keyval mods b \<longleftrightarrow> b_keyval b \<noteq> 0 \<and> b_keyval b = keyval \<and> b_mods b = mods"

definition keybind_find :: "toolkit \<Rightarrow> guint \<Rightarrow> guint \<Rightarrow> bindings \<Rightarrow> nat option" where
  "keybind_find tk keyval mods bs =
     first_row (\<lambda>i. combination (tk_to_lower tk keyval) (mod_mask tk mods) (bs ! i))"

definition keybind_clear :: "int \<Rightarrow> bindings \<Rightarrow> bindings" where
  "keybind_clear index bs = (if \<not> valid_row index then bs else bs[nat index := unbound])"

text \<open>The loop of \<open>keybind_set\<close>: whoever holds the combination loses it. Every
round clears a bound row, so the number of bound rows bounds the rounds.\<close>

definition bound_rows :: "bindings \<Rightarrow> nat" where
  "bound_rows bs = length (filter (\<lambda>b. b_keyval b \<noteq> 0) bs)"

lemma first_row_SomeD: "first_row P = Some i \<Longrightarrow> i < keybind_action_count \<and> P i"
  by (auto simp: first_row_def find_Some_iff)

lemma bound_rows_clear:
  assumes "i < length bs" "b_keyval (bs ! i) \<noteq> 0"
  shows "bound_rows (bs[i := unbound]) < bound_rows bs"
proof -
  have "bs = take i bs @ bs ! i # drop (Suc i) bs" using assms(1) by (rule id_take_nth_drop)
  hence "bound_rows bs = bound_rows (take i bs @ bs ! i # drop (Suc i) bs)" by simp
  thus ?thesis using assms by (simp add: bound_rows_def upd_conv_take_nth_drop unbound_def)
qed

function release_combination :: "toolkit \<Rightarrow> int \<Rightarrow> guint \<Rightarrow> guint \<Rightarrow> bindings \<Rightarrow> bindings" where
  "release_combination tk index keyval mods bs =
     (case keybind_find tk keyval mods bs of
        None \<Rightarrow> bs
      | Some other \<Rightarrow>
          if int other = index \<or> length bs \<le> other then bs
          else release_combination tk index keyval mods (keybind_clear (int other) bs))"
  by pat_completeness auto
termination
proof (relation "measure (\<lambda>(tk, index, keyval, mods, bs). bound_rows bs)", goal_cases)
  case (2 tk index keyval mods bs other)
  thus ?case by (auto simp: keybind_find_def combination_def keybind_clear_def valid_row_def
        dest!: first_row_SomeD intro!: bound_rows_clear)
qed simp

definition keybind_set :: "toolkit \<Rightarrow> int \<Rightarrow> guint \<Rightarrow> guint \<Rightarrow> bindings \<Rightarrow> bindings" where
  "keybind_set tk index keyval mods bs =
     (if \<not> valid_row index then bs
      else if keyval = 0 then keybind_clear index bs
      else (let mods = mod_mask tk mods; keyval = tk_to_lower tk keyval
            in (release_combination tk index keyval mods bs)
                 [nat index := \<lparr>b_keyval = keyval, b_mods = mods, b_held = False\<rparr>]))"

definition keybind_clear_all :: "bindings \<Rightarrow> bindings" where
  "keybind_clear_all bs = fold (\<lambda>i. keybind_clear (int i)) [0..<keybind_action_count] bs"

section \<open>Matching key events\<close>

definition KB_MAX_CANDIDATES :: nat where "KB_MAX_CANDIDATES = 8"

definition candidates_add :: "toolkit \<Rightarrow> guint \<Rightarrow> guint list \<Rightarrow> guint list" where
  "candidates_add tk keyval c =
     (let k = tk_to_lower tk keyval
      in if k = 0 \<or> k \<in> set c then c else if length c < KB_MAX_CANDIDATES then c @ [k] else c)"

definition candidates_build :: "toolkit \<Rightarrow> guint \<Rightarrow> guint \<Rightarrow> guint list" where
  "candidates_build tk keyval keycode =
     (let c = candidates_add tk keyval []
      in if keycode = 0 then c
         else case tk_keymap tk keycode of None \<Rightarrow> c | Some keyvals \<Rightarrow> fold (candidates_add tk) keyvals c)"

definition candidates_have :: "toolkit \<Rightarrow> guint list \<Rightarrow> guint \<Rightarrow> bool" where
  "candidates_have tk c keyval \<longleftrightarrow> tk_to_lower tk keyval \<in> set c"

text \<open>The test the three loops share: the key value itself, or one the same hardware key
produces on another layout.\<close>

definition key_matches :: "toolkit \<Rightarrow> guint \<Rightarrow> guint \<Rightarrow> binding \<Rightarrow> bool" where
  "key_matches tk keyval keycode b \<longleftrightarrow>
     tk_to_lower tk (b_keyval b) = tk_to_lower tk keyval
     \<or> candidates_have tk (candidates_build tk keyval keycode) (b_keyval b)"

text \<open>A press: the bindings afterwards and the action run, if any.\<close>

definition press_matches :: "toolkit \<Rightarrow> guint \<Rightarrow> guint \<Rightarrow> guint \<Rightarrow> binding \<Rightarrow> bool" where
  "press_matches tk keyval keycode state b \<longleftrightarrow>
     b_keyval b \<noteq> 0 \<and> b_mods b = mod_mask tk state \<and> key_matches tk keyval keycode b"

definition keybind_key_pressed ::
  "toolkit \<Rightarrow> guint \<Rightarrow> guint \<Rightarrow> guint \<Rightarrow> bindings \<Rightarrow> bindings \<times> kb_action option" where
  "keybind_key_pressed tk keyval keycode state bs =
     (case first_row (\<lambda>i. press_matches tk keyval keycode state (bs ! i)) of
        None \<Rightarrow> (bs, None)
      | Some i \<Rightarrow> (if ka_hold (keybind_actions ! i) then bs[i := (bs ! i)\<lparr>b_held := True\<rparr>] else bs,
                   Some (ka_action (keybind_actions ! i))))"

text \<open>A release: the bindings afterwards and the held actions it ends, in the order in
which they are ended. The modifiers are not compared.\<close>

definition release_matches :: "toolkit \<Rightarrow> guint \<Rightarrow> guint \<Rightarrow> binding \<Rightarrow> bool" where
  "release_matches tk keyval keycode b \<longleftrightarrow> b_held b \<and> key_matches tk keyval keycode b"

definition release_row :: "toolkit \<Rightarrow> guint \<Rightarrow> guint \<Rightarrow> nat \<Rightarrow> bindings \<times> kb_action list \<Rightarrow> bindings \<times> kb_action list" where
  "release_row tk keyval keycode i s =
     (case s of (bs, runs) \<Rightarrow>
        if release_matches tk keyval keycode (bs ! i)
        then (bs[i := (bs ! i)\<lparr>b_held := False\<rparr>], runs @ [ka_action (keybind_actions ! i)])
        else (bs, runs))"

definition keybind_key_released :: "toolkit \<Rightarrow> guint \<Rightarrow> guint \<Rightarrow> bindings \<Rightarrow> bindings \<times> kb_action list" where
  "keybind_key_released tk keyval keycode bs =
     fold (release_row tk keyval keycode) [0..<keybind_action_count] (bs, [])"

definition keybind_key_bound :: "toolkit \<Rightarrow> guint \<Rightarrow> guint \<Rightarrow> bindings \<Rightarrow> bool" where
  "keybind_key_bound tk keyval keycode bs =
     list_ex (\<lambda>i. b_keyval (bs ! i) \<noteq> 0 \<and> key_matches tk keyval keycode (bs ! i)) [0..<keybind_action_count]"

section \<open>Saving and restoring\<close>

definition keybind_name :: "nat \<Rightarrow> string" where
  "keybind_name i = take 63 (''keybind.'' @ ka_id (keybind_actions ! i))"

definition accel_text :: "toolkit \<Rightarrow> binding \<Rightarrow> string" where
  "accel_text tk b =
     (if b_keyval b = 0 then ''''
      else case tk_accel_name tk (b_keyval b) (b_mods b) of None \<Rightarrow> '''' | Some a \<Rightarrow> a)"

definition keybind_save_state :: "toolkit \<Rightarrow> bindings \<Rightarrow> props \<Rightarrow> props" where
  "keybind_save_state tk bs p =
     fold (\<lambda>i. setProperty (keybind_name i) (accel_text tk (bs ! i))) [0..<keybind_action_count] p"

definition restore_row :: "toolkit \<Rightarrow> props \<Rightarrow> nat \<Rightarrow> bindings \<Rightarrow> bindings" where
  "restore_row tk p i bs =
     (case getProperty (keybind_name i) p of
        None \<Rightarrow> bs
      | Some v \<Rightarrow>
          if v = '''' then bs
          else (case tk_accel_parse tk v of
                  None \<Rightarrow> bs
                | Some (keyval, mods) \<Rightarrow> if keyval = 0 then bs else keybind_set tk (int i) keyval mods bs))"

definition keybind_restore_state :: "toolkit \<Rightarrow> props \<Rightarrow> bindings \<Rightarrow> bindings" where
  "keybind_restore_state tk p bs = fold (restore_row tk p) [0..<keybind_action_count] (keybind_clear_all bs)"

section \<open>What is relied on of GTK\<close>

text \<open>\<open>gdk_keyval_to_lower\<close>: the lower case of a lower case key value is itself,
and only 0, which is no key, is mapped to 0.\<close>

definition lower_ok :: "toolkit \<Rightarrow> bool" where
  "lower_ok tk \<longleftrightarrow> (\<forall>k. tk_to_lower tk (tk_to_lower tk k) = tk_to_lower tk k \<and> (tk_to_lower tk k = 0 \<longleftrightarrow> k = 0))"

text \<open>\<open>gtk_accelerator_parse\<close> reads what \<open>gtk_accelerator_name\<close> wrote of a
binding.\<close>

definition accel_ok :: "toolkit \<Rightarrow> binding \<Rightarrow> bool" where
  "accel_ok tk b \<longleftrightarrow>
     (case tk_accel_name tk (b_keyval b) (b_mods b) of
        None \<Rightarrow> False
      | Some a \<Rightarrow> a \<noteq> '''' \<and> tk_accel_parse tk a = Some (b_keyval b, b_mods b))"

section \<open>One combination, one action\<close>

definition row_ok :: "toolkit \<Rightarrow> nat \<Rightarrow> binding \<Rightarrow> bool" where
  "row_ok tk i b \<longleftrightarrow>
     (b_keyval b = 0 \<longrightarrow> b = unbound) \<and> tk_to_lower tk (b_keyval b) = b_keyval b \<and> mod_mask tk (b_mods b) = b_mods b
     \<and> (b_held b \<longrightarrow> ka_hold (keybind_actions ! i))"

definition same_keys :: "binding \<Rightarrow> binding \<Rightarrow> bool" where
  "same_keys b b' \<longleftrightarrow> b_keyval b \<noteq> 0 \<and> b_keyval b = b_keyval b' \<and> b_mods b = b_mods b'"

definition bindings_ok :: "toolkit \<Rightarrow> bindings \<Rightarrow> bool" where
  "bindings_ok tk bs \<longleftrightarrow>
     length bs = keybind_action_count \<and> (\<forall>i < keybind_action_count. row_ok tk i (bs ! i)) \<and>
     (\<forall>i < keybind_action_count. \<forall>j < keybind_action_count. same_keys (bs ! i) (bs ! j) \<longrightarrow> i = j)"

lemma bindings_okD:
  assumes "bindings_ok tk bs"
  shows "length bs = keybind_action_count"
    and "i < keybind_action_count \<Longrightarrow> row_ok tk i (bs ! i)"
    and "i < keybind_action_count \<Longrightarrow> j < keybind_action_count \<Longrightarrow> same_keys (bs ! i) (bs ! j) \<Longrightarrow> i = j"
  using assms by (auto simp: bindings_ok_def)

lemma unbound_simps [simp]: "b_keyval unbound = 0" "b_mods unbound = 0" "\<not> b_held unbound"
  by (simp_all add: unbound_def)

declare release_combination.simps [simp del]

lemma valid_row_nat: "valid_row index \<Longrightarrow> nat index < keybind_action_count"
  by (auto simp: valid_row_def)

lemma mod_mask_idem [simp]: "mod_mask tk (mod_mask tk s) = mod_mask tk s"
  by (simp add: mod_mask_def and.assoc)

lemma row_ok_unbound: "lower_ok tk \<Longrightarrow> row_ok tk i unbound"
  by (simp add: row_ok_def lower_ok_def mod_mask_def)

lemma first_row_Some:
  "first_row P = Some i \<longleftrightarrow> i < keybind_action_count \<and> P i \<and> (\<forall>j < i. \<not> P j)"
  by (auto simp: first_row_def find_Some_iff)

lemma first_row_None: "first_row P = None \<longleftrightarrow> (\<forall>i < keybind_action_count. \<not> P i)"
  by (auto simp: first_row_def find_None_iff)

text \<open>A table changed in some rows, to unbound ones or ones that stay normal.\<close>

lemma bindings_ok_weaken:
  assumes "bindings_ok tk bs" "length bs' = keybind_action_count"
    and "\<And>i. i < keybind_action_count \<Longrightarrow> row_ok tk i (bs' ! i)"
    and "\<And>i. i < keybind_action_count \<Longrightarrow> b_keyval (bs' ! i) \<noteq> 0 \<Longrightarrow>
           b_keyval (bs' ! i) = b_keyval (bs ! i) \<and> b_mods (bs' ! i) = b_mods (bs ! i)"
  shows "bindings_ok tk bs'"
  unfolding bindings_ok_def
proof (intro conjI allI impI)
  fix i j assume ij: "i < keybind_action_count" "j < keybind_action_count" "same_keys (bs' ! i) (bs' ! j)"
  hence "same_keys (bs ! i) (bs ! j)" using assms(4)[of i] assms(4)[of j] by (auto simp: same_keys_def)
  thus "i = j" using bindings_okD(3)[OF assms(1)] ij by blast
qed (use assms in auto)

lemma bindings_ok_no_bindings: "lower_ok tk \<Longrightarrow> bindings_ok tk no_bindings"
  by (auto simp: bindings_ok_def no_bindings_def row_ok_unbound same_keys_def)

lemma bindings_ok_clear:
  assumes "lower_ok tk" "bindings_ok tk bs"
  shows "bindings_ok tk (keybind_clear index bs)"
proof (cases "valid_row index")
  case True
  thus ?thesis using assms bindings_okD(1,2)[OF assms(2)] valid_row_nat[OF True]
    by (auto simp: keybind_clear_def row_ok_unbound nth_list_update intro!: bindings_ok_weaken[OF assms(2)])
qed (simp add: keybind_clear_def assms(2))

text \<open>The loop of \<open>keybind_set\<close> clears the one row, if any, that has the
combination.\<close>

lemma keybind_find_None:
  "keybind_find tk keyval mods bs = None \<longleftrightarrow>
   (\<forall>i < keybind_action_count. \<not> combination (tk_to_lower tk keyval) (mod_mask tk mods) (bs ! i))"
  by (simp add: keybind_find_def first_row_None)

lemma combination_unique:
  assumes "bindings_ok tk bs" "i < keybind_action_count" "j < keybind_action_count"
    and "combination k m (bs ! i)" "combination k m (bs ! j)"
  shows "i = j"
  using assms bindings_okD(3)[OF assms(1), of i j] by (auto simp: combination_def same_keys_def)

lemma release_combination_eq:
  assumes "bindings_ok tk bs"
  shows "release_combination tk index keyval mods bs =
    (case keybind_find tk keyval mods bs of None \<Rightarrow> bs
     | Some other \<Rightarrow> if int other = index then bs else bs[other := unbound])"
proof (cases "keybind_find tk keyval mods bs")
  case None thus ?thesis by (subst release_combination.simps) simp
next
  case (Some other)
  let ?C = "combination (tk_to_lower tk keyval) (mod_mask tk mods)"
  have o: "other < keybind_action_count" "?C (bs ! other)"
    using Some by (auto simp: keybind_find_def dest!: first_row_SomeD)
  have l: "length bs = keybind_action_count" by (rule bindings_okD(1)[OF assms])
  have "keybind_find tk keyval mods (bs[other := unbound]) = None"
    unfolding keybind_find_None
  proof (intro allI impI)
    fix i assume i: "i < keybind_action_count"
    show "\<not> ?C (bs[other := unbound] ! i)"
      using combination_unique[OF assms i o(1) _ o(2)] o(1) l by (cases "i = other") (auto simp: combination_def)
  qed
  hence "release_combination tk index keyval mods (bs[other := unbound]) = bs[other := unbound]"
    by (subst release_combination.simps) simp
  thus ?thesis using Some o l
    by (subst release_combination.simps) (auto simp: keybind_clear_def valid_row_def)
qed

lemma keybind_set_nth:
  assumes tk: "lower_ok tk" and ok: "bindings_ok tk bs" and v: "valid_row index" and k: "keyval \<noteq> 0"
    and j: "j < keybind_action_count"
  shows "keybind_set tk index keyval mods bs ! j =
    (if j = nat index then \<lparr>b_keyval = tk_to_lower tk keyval, b_mods = mod_mask tk mods, b_held = False\<rparr>
     else if combination (tk_to_lower tk keyval) (mod_mask tk mods) (bs ! j) then unbound else bs ! j)"
proof -
  let ?k = "tk_to_lower tk keyval" and ?m = "mod_mask tk mods"
  have idem: "tk_to_lower tk ?k = ?k" using tk by (simp add: lower_ok_def)
  have l: "length bs = keybind_action_count" by (rule bindings_okD(1)[OF ok])
  note n = valid_row_nat[OF v]
  show ?thesis
  proof (cases "keybind_find tk ?k ?m bs")
    case None
    hence "release_combination tk index ?k ?m bs = bs" by (simp add: release_combination_eq[OF ok])
    moreover have "\<not> combination ?k ?m (bs ! j)" using None j idem by (simp add: keybind_find_None)
    ultimately show ?thesis using v k j l n by (simp add: keybind_set_def Let_def nth_list_update)
  next
    case (Some other)
    hence o: "other < keybind_action_count" "combination ?k ?m (bs ! other)"
      using idem by (auto simp: keybind_find_def dest!: first_row_SomeD)
    have "combination ?k ?m (bs ! j) \<longleftrightarrow> j = other" using combination_unique[OF ok j o(1) _ o(2)] o by blast
    moreover have "release_combination tk index ?k ?m bs = (if int other = index then bs else bs[other := unbound])"
      by (simp add: release_combination_eq[OF ok] Some)
    ultimately show ?thesis using v k j l o n by (auto simp: keybind_set_def Let_def nth_list_update)
  qed
qed

lemma length_keybind_clear [simp]: "length (keybind_clear index bs) = length bs"
  by (simp add: keybind_clear_def)

lemma length_keybind_set:
  "bindings_ok tk bs \<Longrightarrow> length (keybind_set tk index keyval mods bs) = length bs"
  by (simp add: keybind_set_def Let_def release_combination_eq split: option.split)

lemma bindings_ok_set:
  assumes tk: "lower_ok tk" and ok: "bindings_ok tk bs"
  shows "bindings_ok tk (keybind_set tk index keyval mods bs)"
proof (cases "valid_row index \<and> keyval \<noteq> 0")
  case False thus ?thesis using assms by (auto simp: keybind_set_def bindings_ok_clear)
next
  case True
  let ?bs = "keybind_set tk index keyval mods bs"
  note nth = keybind_set_nth[OF tk ok True[THEN conjunct1] True[THEN conjunct2], of _ mods]
  note rows = bindings_okD[OF ok]
  show ?thesis
    unfolding bindings_ok_def
  proof (intro conjI allI impI)
    show "length ?bs = keybind_action_count" using rows(1) by (simp add: length_keybind_set[OF ok])
  next
    fix i assume i: "i < keybind_action_count"
    show "row_ok tk i (?bs ! i)"
      using rows(2)[OF i] tk True by (auto simp: nth[OF i] row_ok_unbound) (auto simp: row_ok_def lower_ok_def)
  next
    fix i j assume i: "i < keybind_action_count" and j: "j < keybind_action_count" and s: "same_keys (?bs ! i) (?bs ! j)"
    show "i = j" using s rows(3)[OF i j]
      by (auto simp: nth[OF i] nth[OF j] same_keys_def combination_def split: if_splits)
  qed
qed

lemma bindings_ok_clear_all:
  assumes "lower_ok tk" "bindings_ok tk bs"
  shows "bindings_ok tk (keybind_clear_all bs)"
  unfolding keybind_clear_all_def
  by (rule List.fold_invariant[where Q = "\<lambda>_. True"]) (use assms bindings_ok_clear in auto)

lemma bindings_ok_restore:
  assumes "lower_ok tk" "bindings_ok tk bs"
  shows "bindings_ok tk (keybind_restore_state tk p bs)"
  unfolding keybind_restore_state_def
  by (rule List.fold_invariant[where Q = "\<lambda>_. True"])
     (use assms bindings_ok_set bindings_ok_clear_all in \<open>auto simp: restore_row_def split: option.splits\<close>)

lemma bindings_ok_held:
  assumes "bindings_ok tk bs" "i < keybind_action_count" "h \<longrightarrow> ka_hold (keybind_actions ! i) \<and> b_keyval (bs ! i) \<noteq> 0"
  shows "bindings_ok tk (bs[i := (bs ! i)\<lparr>b_held := h\<rparr>])"
proof (rule bindings_ok_weaken[OF assms(1)])
  fix j assume j: "j < keybind_action_count"
  show "row_ok tk j (bs[i := (bs ! i)\<lparr>b_held := h\<rparr>] ! j)"
    using bindings_okD(1)[OF assms(1)] bindings_okD(2)[OF assms(1) j] j assms(2,3)
    by (cases "b_keyval (bs ! j) = 0") (auto simp: nth_list_update row_ok_def unbound_def)
qed (use bindings_okD(1)[OF assms(1)] assms(2) in \<open>auto simp: nth_list_update\<close>)

lemma bindings_ok_pressed:
  assumes "bindings_ok tk bs"
  shows "bindings_ok tk (fst (keybind_key_pressed tk keyval keycode state bs))"
  using assms by (auto simp: keybind_key_pressed_def press_matches_def dest!: first_row_SomeD
      intro!: bindings_ok_held split: option.splits)

lemma bindings_ok_release_row:
  "bindings_ok tk (fst s) \<Longrightarrow> i < keybind_action_count \<Longrightarrow> bindings_ok tk (fst (release_row tk keyval keycode i s))"
  by (auto simp: release_row_def intro!: bindings_ok_held split: prod.splits)

lemma bindings_ok_released:
  assumes "bindings_ok tk bs"
  shows "bindings_ok tk (fst (keybind_key_released tk keyval keycode bs))"
  unfolding keybind_key_released_def
  by (rule List.fold_invariant[where P = "\<lambda>s. bindings_ok tk (fst s)" and Q = "\<lambda>i. i < keybind_action_count"])
     (use assms bindings_ok_release_row in auto)

section \<open>Histories\<close>

text \<open>What the shortcuts page, the settings file and the keyboard do to the bindings, and
the actions this runs: \<open>(a, True)\<close> for a press, \<open>(a, False)\<close> for the end of
a held action.\<close>

inductive kb_history :: "toolkit \<Rightarrow> (kb_action \<times> bool) list \<Rightarrow> bindings \<Rightarrow> bool" for tk where
  kh_start: "kb_history tk [] no_bindings"
| kh_set: "kb_history tk h bs \<Longrightarrow> kb_history tk h (keybind_set tk index keyval mods bs)"
| kh_clear: "kb_history tk h bs \<Longrightarrow> kb_history tk h (keybind_clear index bs)"
| kh_clear_all: "kb_history tk h bs \<Longrightarrow> kb_history tk h (keybind_clear_all bs)"
| kh_restore: "kb_history tk h bs \<Longrightarrow> kb_history tk h (keybind_restore_state tk p bs)"
| kh_press: "kb_history tk h bs \<Longrightarrow> keybind_key_pressed tk keyval keycode state bs = (bs', r) \<Longrightarrow>
     kb_history tk (h @ (case r of None \<Rightarrow> [] | Some a \<Rightarrow> [(a, True)])) bs'"
| kh_release: "kb_history tk h bs \<Longrightarrow> keybind_key_released tk keyval keycode bs = (bs', rs) \<Longrightarrow>
     kb_history tk (h @ map (\<lambda>a. (a, False)) rs) bs'"

lemma kb_history_ok: "kb_history tk h bs \<Longrightarrow> lower_ok tk \<Longrightarrow> bindings_ok tk bs"
proof (induction rule: kb_history.induct)
  case (kh_press h bs keyval keycode state bs' r)
  thus ?case using bindings_ok_pressed[of tk bs keyval keycode state] by simp
next
  case (kh_release h bs keyval keycode bs' rs)
  thus ?case using bindings_ok_released[of tk bs keyval keycode] by simp
qed (simp_all add: bindings_ok_no_bindings bindings_ok_set bindings_ok_clear bindings_ok_clear_all bindings_ok_restore)

text \<open>What the last run of an action was.\<close>

definition last_run :: "kb_action \<Rightarrow> (kb_action \<times> bool) list \<Rightarrow> bool option" where
  "last_run a h = map_of (rev h) a"

lemma last_run_snoc: "last_run a (h @ [(b, p)]) = (if a = b then Some p else last_run a h)"
  by (simp add: last_run_def)

lemma last_run_releases:
  "last_run a (h @ map (\<lambda>a. (a, False)) rs) = (if a \<in> set rs then Some False else last_run a h)"
  by (induction rs rule: rev_induct) (simp_all add: last_run_snoc flip: append_assoc)

lemma count_value: "keybind_action_count = 53"
  by (simp add: keybind_action_count_def keybind_actions_def)

lemma actions_distinct: "distinct (map ka_action keybind_actions)"
  by (simp add: keybind_actions_def mode_defs)

lemma action_row_unique:
  assumes "i < keybind_action_count" "j < keybind_action_count"
    and "ka_action (keybind_actions ! i) = ka_action (keybind_actions ! j)"
  shows "i = j"
  using actions_distinct assms by (auto simp: distinct_conv_nth keybind_action_count_def)

section \<open>Releases\<close>

text \<open>A release in closed form: every held row of the key loses its mark, and the actions
run are those of these rows, in table order.\<close>

lemma release_fold:
  assumes "n \<le> keybind_action_count" "length bs = keybind_action_count"
  shows "fold (release_row tk keyval keycode) [0..<n] (bs, []) =
    (map (\<lambda>i. if i < n \<and> release_matches tk keyval keycode (bs ! i) then (bs ! i)\<lparr>b_held := False\<rparr> else bs ! i)
       [0..<keybind_action_count],
     map (\<lambda>i. ka_action (keybind_actions ! i)) (filter (\<lambda>i. release_matches tk keyval keycode (bs ! i)) [0..<n]))"
  using assms(1)
proof (induction n)
  case 0 show ?case using assms(2) by (simp add: map_nth flip: assms(2))
next
  case (Suc n)
  thus ?case by (auto simp: release_row_def intro!: nth_equalityI simp: nth_list_update less_Suc_eq)
qed

lemma keybind_key_released_eq:
  assumes "length bs = keybind_action_count"
  shows "keybind_key_released tk keyval keycode bs =
    (map (\<lambda>b. if release_matches tk keyval keycode b then b\<lparr>b_held := False\<rparr> else b) bs,
     map (\<lambda>i. ka_action (keybind_actions ! i))
       (filter (\<lambda>i. release_matches tk keyval keycode (bs ! i)) [0..<keybind_action_count]))"
  unfolding keybind_key_released_def release_fold[OF order.refl assms]
  by (auto simp: assms intro!: nth_equalityI)

lemma released_nth:
  assumes "bindings_ok tk bs" "i < keybind_action_count"
  shows "fst (keybind_key_released tk keyval keycode bs) ! i =
    (if release_matches tk keyval keycode (bs ! i) then (bs ! i)\<lparr>b_held := False\<rparr> else bs ! i)"
  using assms(2) bindings_okD(1)[OF assms(1)] by (simp add: keybind_key_released_eq)

lemma released_runs:
  assumes "bindings_ok tk bs" "i < keybind_action_count"
  shows "ka_action (keybind_actions ! i) \<in> set (snd (keybind_key_released tk keyval keycode bs))
    \<longleftrightarrow> release_matches tk keyval keycode (bs ! i)"
  using assms(2) bindings_okD(1)[OF assms(1)] action_row_unique[OF assms(2)]
  by (auto simp: keybind_key_released_eq image_iff)

lemma pressed_nth:
  assumes "bindings_ok tk bs" "i < keybind_action_count"
  shows "fst (keybind_key_pressed tk keyval keycode state bs) ! i = bs ! i \<or>
    fst (keybind_key_pressed tk keyval keycode state bs) ! i = (bs ! i)\<lparr>b_held := True\<rparr> \<and>
      snd (keybind_key_pressed tk keyval keycode state bs) = Some (ka_action (keybind_actions ! i))"
  using assms(2) bindings_okD(1)[OF assms(1)]
  by (auto simp: keybind_key_pressed_def nth_list_update split: option.split if_splits dest!: first_row_SomeD)

text \<open>Changing the bindings holds no action that was not held.\<close>

definition holds_no_more :: "bindings \<Rightarrow> bindings \<Rightarrow> bool" where
  "holds_no_more bs' bs \<longleftrightarrow> (\<forall>i < keybind_action_count. b_held (bs' ! i) \<longrightarrow> b_held (bs ! i))"

lemma holds_no_more_trans: "holds_no_more bs2 bs1 \<Longrightarrow> holds_no_more bs1 bs \<Longrightarrow> holds_no_more bs2 bs"
  by (auto simp: holds_no_more_def)

lemma holds_no_more_refl [simp]: "holds_no_more bs bs"
  by (simp add: holds_no_more_def)

lemma holds_no_more_clear: "bindings_ok tk bs \<Longrightarrow> holds_no_more (keybind_clear index bs) bs"
  using bindings_okD(1)[of tk bs]
  by (auto simp: holds_no_more_def keybind_clear_def nth_list_update valid_row_def split: if_splits)

lemma holds_no_more_set:
  assumes "lower_ok tk" "bindings_ok tk bs"
  shows "holds_no_more (keybind_set tk index keyval mods bs) bs"
proof (cases "valid_row index \<and> keyval \<noteq> 0")
  case True thus ?thesis using assms by (auto simp: holds_no_more_def keybind_set_nth)
next
  case False thus ?thesis using holds_no_more_clear[OF assms(2)] by (auto simp: keybind_set_def)
qed

lemma holds_no_more_clear_all:
  assumes "lower_ok tk" "bindings_ok tk bs"
  shows "holds_no_more (keybind_clear_all bs) bs"
  using List.fold_invariant[where Q = "\<lambda>_. True" and P = "\<lambda>b. bindings_ok tk b \<and> holds_no_more b bs"
      and xs = "[0..<keybind_action_count]" and f = "\<lambda>i. keybind_clear (int i)" and s = bs]
    assms holds_no_more_trans[OF holds_no_more_clear]
  by (auto simp: keybind_clear_all_def bindings_ok_clear)

lemma restore_row_ok:
  assumes "lower_ok tk" "bindings_ok tk b"
  shows "bindings_ok tk (restore_row tk p i b) \<and> holds_no_more (restore_row tk p i b) b"
  using assms by (auto simp: restore_row_def bindings_ok_set holds_no_more_set split: option.split)

lemma holds_no_more_restore:
  assumes "lower_ok tk" "bindings_ok tk bs"
  shows "holds_no_more (keybind_restore_state tk p bs) bs"
proof -
  have "bindings_ok tk (keybind_restore_state tk p bs) \<and> holds_no_more (keybind_restore_state tk p bs) bs"
    unfolding keybind_restore_state_def
    by (rule List.fold_invariant[where Q = "\<lambda>_. True" and P = "\<lambda>b. bindings_ok tk b \<and> holds_no_more b bs"])
       (use assms restore_row_ok[OF assms(1)] bindings_ok_clear_all holds_no_more_clear_all holds_no_more_trans in blast)+
  thus ?thesis by blast
qed

lemma held_is_pressed:
  assumes "kb_history tk h bs" "lower_ok tk" "i < keybind_action_count" "b_held (bs ! i)"
  shows "last_run (ka_action (keybind_actions ! i)) h = Some True"
  using assms
proof (induction arbitrary: i rule: kb_history.induct)
  case kh_start thus ?case by (simp add: no_bindings_def)
next
  case (kh_set h bs index keyval mods)
  thus ?case using holds_no_more_set[OF _ kb_history_ok] by (auto simp: holds_no_more_def)
next
  case (kh_clear h bs index)
  thus ?case using holds_no_more_clear[OF kb_history_ok] by (auto simp: holds_no_more_def)
next
  case (kh_clear_all h bs)
  thus ?case using holds_no_more_clear_all[OF _ kb_history_ok] by (auto simp: holds_no_more_def)
next
  case (kh_restore h bs p)
  thus ?case using holds_no_more_restore[OF _ kb_history_ok] by (auto simp: holds_no_more_def)
next
  case (kh_press h bs keyval keycode state bs' r)
  show ?case
    using pressed_nth[OF kb_history_ok[OF kh_press.hyps(1) kh_press.prems(1)] kh_press.prems(2), of keyval keycode state]
      kh_press
    by (auto simp: last_run_snoc split: option.split)
next
  case (kh_release h bs keyval keycode bs' rs)
  note ok = kb_history_ok[OF kh_release.hyps(1) kh_release.prems(1)]
  show ?case
    using released_nth[OF ok kh_release.prems(2), of keyval keycode] released_runs[OF ok kh_release.prems(2), of keyval keycode]
      kh_release by (auto simp: last_run_releases split: if_splits)
qed

section \<open>One combination, one action\<close>

text \<open>C40: No two rows of the shortcuts table hold the same combination, whatever the
shortcuts page, a settings file and the keyboard have done before.\<close>

theorem one_combination_one_action:
  assumes "kb_history tk h bs" "lower_ok tk" "i < keybind_action_count" "j < keybind_action_count"
    and "keybind_get (int i) bs = keybind_get (int j) bs" "fst (keybind_get (int i) bs) \<noteq> 0"
  shows "i = j"
  using assms bindings_okD(3)[OF kb_history_ok[OF assms(1,2)] assms(3,4)]
  by (simp add: keybind_get_def valid_row_def same_keys_def)

text \<open>A keyboard with a Latin and a Russian layout: hardware key 52 is \<open>z\<close> on one and
\<open>ya\<close> on the other.\<close>

definition tk0 :: toolkit where
  "tk0 = \<lparr>tk_to_lower = (\<lambda>k. if 0x41 \<le> k \<and> k \<le> 0x5A then k + 32 else if k = 0x6F1 then 0x6D1 else k),
          tk_accel_mask = 0x1C00000D,
          tk_keymap = (\<lambda>c. if c = 52 then Some [0x7A, 0x5A, 0x6D1, 0x6F1] else None),
          tk_accel_name = (\<lambda>k m. if k = 0x7A \<and> m = 4 then Some ''<Control>z'' else None),
          tk_accel_parse = (\<lambda>a. if a = ''<Control>z'' then Some (0x7A, 4) else None)\<rparr>"

lemma lower_ok_tk0: "lower_ok tk0"
proof -
  have "k + 32 \<noteq> 0 \<and> \<not> (k + 32 \<le> 0x5A) \<and> k + 32 \<noteq> 0x6F1" if "0x41 \<le> k" "k \<le> 0x5A" for k :: guint
  proof -
    have u: "65 \<le> unat k" "unat k \<le> 90" using that by (simp_all add: word_le_nat_alt)
    hence "unat (k + 32) = unat k + 32" by (simp add: unat_word_ariths)
    thus ?thesis using u by (auto simp: word_le_nat_alt dest: arg_cong[where f = unat])
  qed
  thus ?thesis unfolding lower_ok_def tk0_def by auto
qed

lemma kb_rows:
  "keybind_actions ! 0 = Kb_row ''zoom_in'' ''Zoom in'' KB_ZOOM_IN False"
  "keybind_actions ! 5 = Kb_row ''ptt'' ''Transmit (hold)'' KB_PTT True"
  "keybind_actions ! 6 = Kb_row ''mox'' ''Transmit (toggle)'' KB_MOX False"
  by (simp_all add: keybind_actions_def)

definition bound0 :: bindings where "bound0 = keybind_set tk0 5 0x5A 4 no_bindings"

lemma bound0_history: "kb_history tk0 [] bound0"
  unfolding bound0_def by (intro kh_set kh_start)

lemma bound0_nth: "j < keybind_action_count \<Longrightarrow>
    bound0 ! j = (if j = 5 then \<lparr>b_keyval = 0x7A, b_mods = 4, b_held = False\<rparr> else unbound)"
  using keybind_set_nth[OF lower_ok_tk0 bindings_ok_no_bindings[OF lower_ok_tk0], of 5 "0x5A" j 4]
  by (simp add: bound0_def valid_row_def count_value no_bindings_def combination_def tk0_def mod_mask_def)

theorem one_combination_one_action_witness:
  "fst (keybind_get 5 bound0) = 0x7A \<and> keybind_get 5 bound0 \<noteq> keybind_get 6 bound0"
  using one_combination_one_action[OF bound0_history lower_ok_tk0, of 5 6]
  by (auto simp: keybind_get_def valid_row_def count_value bound0_nth)

section \<open>The action of an assigned key\<close>

lemma pressed_run:
  assumes "i < keybind_action_count" "press_matches tk keyval keycode state (bs ! i)"
    and "\<And>j. j < keybind_action_count \<Longrightarrow> press_matches tk keyval keycode state (bs ! j) \<Longrightarrow> j = i"
  shows "snd (keybind_key_pressed tk keyval keycode state bs) = Some (ka_action (keybind_actions ! i))"
proof -
  have "first_row (\<lambda>i. press_matches tk keyval keycode state (bs ! i)) = Some i"
    unfolding first_row_Some using assms(1,2) assms(3)[OF less_trans[OF _ assms(1)]] less_irrefl by blast
  thus ?thesis by (simp add: keybind_key_pressed_def)
qed

lemma press_unbound [simp]: "\<not> press_matches tk keyval keycode state unbound"
  by (simp add: press_matches_def)

text \<open>A combination assigned to a row runs the row's action when it is pressed: in
either case, with or without Caps Lock and the other modifiers that do not count, and whatever
row had the combination before. The exception is a row bound to another key value that the same
hardware key produces.\<close>

theorem assigned_key_runs_its_action:
  assumes "kb_history tk h bs" "lower_ok tk" "i < keybind_action_count" "keyval \<noteq> 0"
    and "tk_to_lower tk keyval' = tk_to_lower tk keyval" "mod_mask tk state = mod_mask tk mods"
    and "\<And>j. j < keybind_action_count \<Longrightarrow> j \<noteq> i \<Longrightarrow> press_matches tk keyval' keycode state (bs ! j) \<Longrightarrow>
           b_keyval (bs ! j) = tk_to_lower tk keyval"
  shows "snd (keybind_key_pressed tk keyval' keycode state (keybind_set tk (int i) keyval mods bs))
           = Some (ka_action (keybind_actions ! i))"
proof -
  have v: "valid_row (int i)" using assms(3) by (simp add: valid_row_def)
  note nth = keybind_set_nth[OF assms(2) kb_history_ok[OF assms(1,2)] v assms(4), of _ mods]
  show ?thesis
  proof (rule pressed_run[OF assms(3)])
    show "press_matches tk keyval' keycode state (keybind_set tk (int i) keyval mods bs ! i)"
      using assms(2,4,5,6) by (simp add: nth[OF assms(3)] press_matches_def key_matches_def lower_ok_def)
  next
    fix j assume j: "j < keybind_action_count"
      and m: "press_matches tk keyval' keycode state (keybind_set tk (int i) keyval mods bs ! j)"
    show "j = i"
    proof (rule ccontr)
      assume "j \<noteq> i"
      with m assms(7)[OF j] show False
        by (auto simp: nth[OF j] combination_def press_matches_def assms(6) split: if_splits)
    qed
  qed
qed

theorem assigned_key_runs_its_action_witness:
  "snd (keybind_key_pressed tk0 0x5A 52 6 (keybind_set tk0 0 0x7A 4 bound0)) = Some KB_ZOOM_IN"
proof -
  have "snd (keybind_key_pressed tk0 0x5A 52 6 (keybind_set tk0 (int 0) 0x7A 4 bound0))
      = Some (ka_action (keybind_actions ! 0))"
    by (rule assigned_key_runs_its_action[OF bound0_history lower_ok_tk0])
       (simp_all add: count_value bound0_nth[unfolded count_value] split: if_split_asm, simp_all add: tk0_def mod_mask_def)
  thus ?thesis by (simp add: kb_rows)
qed

text \<open>The exception: a row bound on one keyboard layout hides one bound to the same key on
another.\<close>

theorem same_key_bound_twice:
  "snd (keybind_key_pressed tk0 0x6D1 52 4 (keybind_set tk0 6 0x6D1 4 bound0)) = Some KB_PTT \<and>
   keybind_find tk0 0x6D1 4 (keybind_set tk0 6 0x6D1 4 bound0) = Some 6"
proof -
  let ?bs = "keybind_set tk0 6 0x6D1 4 bound0"
  have nth: "?bs ! j = (if j = 6 then \<lparr>b_keyval = 0x6D1, b_mods = 4, b_held = False\<rparr>
      else if j = 5 then \<lparr>b_keyval = 0x7A, b_mods = 4, b_held = False\<rparr> else unbound)" if "j < keybind_action_count" for j
    using keybind_set_nth[OF lower_ok_tk0 kb_history_ok[OF bound0_history lower_ok_tk0], of 6 "0x6D1" j 4] that
    by (simp add: valid_row_def count_value bound0_nth combination_def) (simp add: tk0_def mod_mask_def)
  have "first_row (\<lambda>i. press_matches tk0 0x6D1 52 4 (?bs ! i)) = Some 5"
    by (auto simp: first_row_Some count_value nth)
       (simp add: press_matches_def key_matches_def tk0_def mod_mask_def candidates_build_def candidates_add_def
          candidates_have_def KB_MAX_CANDIDATES_def)
  moreover have "keybind_find tk0 0x6D1 4 ?bs = Some 6"
    by (auto simp: keybind_find_def first_row_Some count_value nth combination_def)
       (simp_all add: tk0_def mod_mask_def)
  ultimately show ?thesis by (simp add: keybind_key_pressed_def kb_rows)
qed

section \<open>Letting go of a held action\<close>

lemma candidates_fold:
  assumes "distinct c" "0 \<notin> set c" "card (set c \<union> (tk_to_lower tk ` set ks - {0})) \<le> KB_MAX_CANDIDATES"
  shows "set (fold (candidates_add tk) ks c) = set c \<union> (tk_to_lower tk ` set ks - {0})"
  using assms
proof (induction ks arbitrary: c)
  case (Cons k ks)
  let ?k = "tk_to_lower tk k"
  show ?case
  proof (cases "?k = 0 \<or> ?k \<in> set c")
    case True
    hence "set c \<union> (tk_to_lower tk ` set (k # ks) - {0}) = set c \<union> (tk_to_lower tk ` set ks - {0})" by auto
    thus ?thesis using Cons.IH[of c] Cons.prems True by (simp add: candidates_add_def)
  next
    case False
    have eq: "set c \<union> (tk_to_lower tk ` set (k # ks) - {0}) = set (c @ [?k]) \<union> (tk_to_lower tk ` set ks - {0})"
      using False by auto
    have "length (c @ [?k]) = card (set (c @ [?k]))" using False Cons.prems(1) by (simp add: distinct_card)
    also have "\<dots> \<le> card (set (c @ [?k]) \<union> (tk_to_lower tk ` set ks - {0}))" by (rule card_mono) auto
    also have "\<dots> \<le> KB_MAX_CANDIDATES" using Cons.prems(3) eq by simp
    finally have "candidates_add tk k c = c @ [?k]" using False by (simp add: candidates_add_def)
    thus ?thesis using Cons.IH[of "c @ [?k]"] Cons.prems False eq by simp
  qed
qed simp

lemma candidates_build_set:
  assumes "keycode \<noteq> 0" "tk_keymap tk keycode = Some vs" "keyval \<in> set vs"
    and "card (tk_to_lower tk ` set vs) \<le> KB_MAX_CANDIDATES"
  shows "set (candidates_build tk keyval keycode) = tk_to_lower tk ` set vs - {0}"
proof -
  let ?c = "candidates_add tk keyval []"
  have c: "set ?c = {tk_to_lower tk keyval} - {0}" "distinct ?c"
    by (simp_all add: candidates_add_def KB_MAX_CANDIDATES_def Let_def)
  have eq: "set ?c \<union> (tk_to_lower tk ` set vs - {0}) = tk_to_lower tk ` set vs - {0}" using c assms(3) by auto
  have "card (set ?c \<union> (tk_to_lower tk ` set vs - {0})) \<le> KB_MAX_CANDIDATES"
    unfolding eq using card_mono[of "tk_to_lower tk ` set vs" "tk_to_lower tk ` set vs - {0}"] assms(4) by simp
  hence "set (fold (candidates_add tk) vs ?c) = set ?c \<union> (tk_to_lower tk ` set vs - {0})"
    using c by (intro candidates_fold) auto
  thus ?thesis using assms(1,2) eq by (simp add: candidates_build_def Let_def)
qed

lemma length_candidates_fold:
  "length c \<le> KB_MAX_CANDIDATES \<Longrightarrow> length (fold (candidates_add tk) ks c) \<le> KB_MAX_CANDIDATES"
  by (induction ks arbitrary: c) (auto simp: candidates_add_def Let_def)

lemma candidates_bounded: "length (candidates_build tk keyval keycode) \<le> KB_MAX_CANDIDATES"
  by (auto simp: candidates_build_def Let_def candidates_add_def KB_MAX_CANDIDATES_def
      split: option.split intro!: length_candidates_fold[unfolded KB_MAX_CANDIDATES_def])

lemma key_matches_same_key:
  assumes "lower_ok tk" "b_keyval b \<noteq> 0" "keycode \<noteq> 0" "tk_keymap tk keycode = Some vs" "keyval \<in> set vs" "keyval' \<in> set vs"
    and "card (tk_to_lower tk ` set vs) \<le> KB_MAX_CANDIDATES" "key_matches tk keyval keycode b"
  shows "key_matches tk keyval' keycode b"
  using assms candidates_build_set[OF assms(3,4,5,7)] candidates_build_set[OF assms(3,4,6,7)]
  by (auto simp: key_matches_def candidates_have_def lower_ok_def)

text \<open>Presses keep a held row and its key.\<close>

definition press_all :: "toolkit \<Rightarrow> (guint \<times> guint \<times> guint) list \<Rightarrow> bindings \<Rightarrow> bindings" where
  "press_all tk es bs = fold (\<lambda>(keyval, keycode, state) b. fst (keybind_key_pressed tk keyval keycode state b)) es bs"

lemma press_all_keeps:
  assumes "bindings_ok tk bs" "i < keybind_action_count" "b_held (bs ! i)"
  shows "bindings_ok tk (press_all tk es bs) \<and> press_all tk es bs ! i = bs ! i"
  using assms
proof (induction es arbitrary: bs)
  case (Cons e es)
  obtain keyval keycode state where e: "e = (keyval, keycode, state)" by (cases e)
  let ?b = "fst (keybind_key_pressed tk keyval keycode state bs)"
  have "?b ! i = bs ! i" using pressed_nth[OF Cons.prems(1,2), of keyval keycode state] Cons.prems(3) by auto
  thus ?case using Cons.IH[of ?b] Cons.prems bindings_ok_pressed by (simp add: press_all_def e)
qed (simp add: press_all_def)

text \<open>A held action ends when its key is released: whatever other keys are pressed
meanwhile, in whatever order the key and its modifiers are let go, and on whatever keyboard
layout, as long as the key has at most eight values.\<close>

theorem releasing_the_key_ends_the_hold:
  assumes "kb_history tk h bs" "lower_ok tk" "i < keybind_action_count" "ka_hold (keybind_actions ! i)"
    and "keycode \<noteq> 0" "tk_keymap tk keycode = Some vs" "keyval \<in> set vs" "keyval' \<in> set vs"
    and "card (tk_to_lower tk ` set vs) \<le> KB_MAX_CANDIDATES"
    and "keybind_key_pressed tk keyval keycode state bs = (bs1, Some (ka_action (keybind_actions ! i)))"
    and "keybind_key_released tk keyval' keycode (press_all tk es bs1) = (bs2, runs)"
  shows "\<not> b_held (bs2 ! i) \<and> ka_action (keybind_actions ! i) \<in> set runs"
proof -
  note ok = kb_history_ok[OF assms(1,2)]
  obtain i' where i': "first_row (\<lambda>i. press_matches tk keyval keycode state (bs ! i)) = Some i'"
    and a: "ka_action (keybind_actions ! i') = ka_action (keybind_actions ! i)"
    using assms(10) by (auto simp: keybind_key_pressed_def split: option.splits)
  have "i' = i" using action_row_unique[OF _ assms(3) a] first_row_SomeD[OF i'] by blast
  hence m: "press_matches tk keyval keycode state (bs ! i)" using first_row_SomeD[OF i'] by simp
  have bs1: "bs1 = bs[i := (bs ! i)\<lparr>b_held := True\<rparr>]"
    using assms(4,10) i' \<open>i' = i\<close> by (simp add: keybind_key_pressed_def)
  hence b1: "bs1 ! i = (bs ! i)\<lparr>b_held := True\<rparr>" using bindings_okD(1)[OF ok] assms(3) by simp
  have ok1: "bindings_ok tk bs1" using bindings_ok_pressed[OF ok, of keyval keycode state] assms(10) by simp
  note keeps = press_all_keeps[OF ok1 assms(3), of es]
  have "key_matches tk keyval' keycode (bs1 ! i)"
    using key_matches_same_key[OF assms(2) _ assms(5-9), of "bs1 ! i"] m b1
    by (simp add: press_matches_def key_matches_def)
  hence "release_matches tk keyval' keycode (press_all tk es bs1 ! i)" using keeps b1 by (simp add: release_matches_def)
  thus ?thesis
    using released_nth[of tk "press_all tk es bs1" i keyval' keycode] released_runs[of tk "press_all tk es bs1" i keyval' keycode]
      keeps b1 assms(3,11) by simp
qed

theorem releasing_the_key_ends_the_hold_witness:
  "snd (keybind_key_released tk0 0x6D1 52 (press_all tk0 [(0x7B, 61, 0)] (bound0[5 := (bound0 ! 5)\<lparr>b_held := True\<rparr>]))) \<noteq> []"
proof -
  have "first_row (\<lambda>i. press_matches tk0 0x7A 52 4 (bound0 ! i)) = Some 5"
    by (auto simp: first_row_Some count_value bound0_nth)
       (simp add: press_matches_def key_matches_def tk0_def mod_mask_def)
  hence p: "keybind_key_pressed tk0 0x7A 52 4 bound0
      = (bound0[5 := (bound0 ! 5)\<lparr>b_held := True\<rparr>], Some (ka_action (keybind_actions ! 5)))"
    by (simp add: keybind_key_pressed_def kb_rows)
  have "card (tk_to_lower tk0 ` set [0x7A, 0x5A, 0x6D1, 0x6F1]) \<le> KB_MAX_CANDIDATES"
    by (simp add: tk0_def KB_MAX_CANDIDATES_def card_insert_if)
  from releasing_the_key_ends_the_hold[OF bound0_history lower_ok_tk0 _ _ _ _ _ _ this p surjective_pairing, of "0x6D1" "[(0x7B, 61, 0)]"]
  show ?thesis by (force simp: count_value kb_rows tk0_def)
qed

text \<open>With more values on the key the ninth is not seen, and a release that arrives under
another layout leaves the action running.\<close>

definition tk9 :: toolkit where
  "tk9 = tk0\<lparr>tk_keymap := (\<lambda>c. Some [0x61, 0x62, 0x63, 0x64, 0x65, 0x66, 0x67, 0x68, 0x7A])\<rparr>"

theorem ninth_value_is_not_released:
  "keybind_key_released tk9 0x61 52 (bound0[5 := (bound0 ! 5)\<lparr>b_held := True\<rparr>])
     = (bound0[5 := (bound0 ! 5)\<lparr>b_held := True\<rparr>], [])"
proof -
  let ?bs = "bound0[5 := (bound0 ! 5)\<lparr>b_held := True\<rparr>]"
  have l: "length bound0 = keybind_action_count"
    by (rule bindings_okD(1)[OF kb_history_ok[OF bound0_history lower_ok_tk0]])
  have n: "\<not> release_matches tk9 0x61 52 (?bs ! j)" if "j < keybind_action_count" for j
  proof (cases "j = 5")
    case True
    have "candidates_build tk9 0x61 52 = [0x61, 0x62, 0x63, 0x64, 0x65, 0x66, 0x67, 0x68]" by code_simp
    thus ?thesis using True that l
      by (simp add: bound0_nth release_matches_def key_matches_def candidates_have_def) (simp add: tk9_def tk0_def)
  next
    case False thus ?thesis using that l by (simp add: bound0_nth release_matches_def)
  qed
  hence "map (\<lambda>b. if release_matches tk9 0x61 52 b then b\<lparr>b_held := False\<rparr> else b) ?bs = ?bs"
    using l by (intro nth_equalityI) (simp_all add: nth_list_update)
  thus ?thesis using n l by (simp add: keybind_key_released_eq)
qed

lemma keybind_clear_all_eq:
  assumes "length bs = keybind_action_count"
  shows "keybind_clear_all bs = no_bindings"
proof -
  have "n \<le> keybind_action_count \<Longrightarrow> length (fold (\<lambda>i. keybind_clear (int i)) [0..<n] bs) = length bs \<and>
      (\<forall>i < n. fold (\<lambda>i. keybind_clear (int i)) [0..<n] bs ! i = unbound)" for n
    using assms by (induction n) (auto simp: keybind_clear_def valid_row_def nth_list_update less_Suc_eq)
  thus ?thesis using assms by (auto simp: keybind_clear_all_def no_bindings_def intro!: nth_equalityI)
qed

text \<open>Taking a shortcut away while its key is held leaves the action running: the release
that follows finds no row that is held.\<close>

theorem rebinding_strands_the_hold:
  assumes "kb_history tk h bs" "lower_ok tk"
  shows "snd (keybind_key_released tk keyval keycode (keybind_clear_all bs)) = []"
  using bindings_okD(1)[OF kb_history_ok[OF assms]]
  by (simp add: keybind_clear_all_eq keybind_key_released_eq no_bindings_def release_matches_def)

section \<open>A restart\<close>

lemma keybind_names_distinct: "distinct (map keybind_name [0..<keybind_action_count])"
  by code_simp

lemma saved_bindings:
  assumes "i < keybind_action_count"
  shows "getProperty (keybind_name i) (keybind_save_state tk bs p) = Some (accel_text tk (bs ! i))"
proof -
  let ?kvs = "map (\<lambda>i. (keybind_name i, accel_text tk (bs ! i))) [0..<keybind_action_count]"
  have "keybind_save_state tk bs p = store.put_all ?kvs p"
    by (simp add: keybind_save_state_def store.put_all_def fold_map comp_def)
  moreover have d: "distinct (map fst ?kvs)" using keybind_names_distinct by (simp add: comp_def)
  moreover have "map_of ?kvs (keybind_name i) = Some (accel_text tk (bs ! i))"
    using d assms by (intro map_of_is_SomeI) auto
  ultimately show ?thesis by (simp only: store.get_put_all_distinct option.case)
qed

lemma restore_fold:
  assumes tk: "lower_ok tk" and ok: "bindings_ok tk bs"
    and acc: "\<And>i. i < keybind_action_count \<Longrightarrow> b_keyval (bs ! i) \<noteq> 0 \<Longrightarrow> accel_ok tk (bs ! i)"
    and n: "n \<le> keybind_action_count"
  shows "fold (restore_row tk (keybind_save_state tk bs p)) [0..<n] no_bindings =
    map (\<lambda>i. if i < n then (bs ! i)\<lparr>b_held := False\<rparr> else unbound) [0..<keybind_action_count]"
  using n
proof (induction n)
  case 0 show ?case by (simp add: no_bindings_def map_replicate_const)
next
  case (Suc n)
  let ?p = "keybind_save_state tk bs p"
  let ?T = "\<lambda>n. map (\<lambda>i. if i < n then (bs ! i)\<lparr>b_held := False\<rparr> else unbound) [0..<keybind_action_count]"
  have n: "n < keybind_action_count" using Suc.prems by simp
  have IH: "fold (restore_row tk ?p) [0..<n] no_bindings = ?T n" using Suc by simp
  note rows = bindings_okD[OF ok]
  have okT: "bindings_ok tk (?T n)"
  proof (rule bindings_ok_weaken[OF ok])
    fix i assume i: "i < keybind_action_count"
    show "row_ok tk i (?T n ! i)"
      using rows(2)[OF i] i row_ok_unbound[OF tk, of i]
      by (cases "b_keyval (bs ! i) = 0") (auto simp: row_ok_def unbound_def)
  qed auto
  have "restore_row tk ?p n (?T n) = ?T (Suc n)"
  proof (cases "b_keyval (bs ! n) = 0")
    case True
    have "bs ! n = unbound" using rows(2)[OF n] True by (simp add: row_ok_def)
    hence "?T n = ?T (Suc n)" by (auto simp: less_Suc_eq unbound_def)
    thus ?thesis using True by (simp add: restore_row_def saved_bindings[OF n] accel_text_def)
  next
    case False
    have "tk_accel_parse tk (accel_text tk (bs ! n)) = Some (b_keyval (bs ! n), b_mods (bs ! n))"
      and "accel_text tk (bs ! n) \<noteq> []"
      using acc[OF n False] False by (auto simp: accel_ok_def accel_text_def split: option.splits)
    hence r: "restore_row tk ?p n (?T n) = keybind_set tk (int n) (b_keyval (bs ! n)) (b_mods (bs ! n)) (?T n)"
      using False by (simp add: restore_row_def saved_bindings[OF n])
    have v: "valid_row (int n)" using n by (simp add: valid_row_def)
    have norm: "tk_to_lower tk (b_keyval (bs ! n)) = b_keyval (bs ! n)" "mod_mask tk (b_mods (bs ! n)) = b_mods (bs ! n)"
      using rows(2)[OF n] by (simp_all add: row_ok_def)
    have other: "\<not> combination (b_keyval (bs ! n)) (b_mods (bs ! n)) (?T n ! j)" if "j < keybind_action_count" "j \<noteq> n" for j
      using rows(3)[OF that(1) n] that by (auto simp: combination_def same_keys_def)
    show ?thesis unfolding r
    proof (rule nth_equalityI)
      fix j assume "j < length (keybind_set tk (int n) (b_keyval (bs ! n)) (b_mods (bs ! n)) (?T n))"
      hence j: "j < keybind_action_count" by (simp add: length_keybind_set[OF okT])
      show "keybind_set tk (int n) (b_keyval (bs ! n)) (b_mods (bs ! n)) (?T n) ! j = ?T (Suc n) ! j"
        using keybind_set_nth[OF tk okT v False j, of "b_mods (bs ! n)"] other[OF j] j norm
        by (auto simp: less_Suc_eq)
    qed (simp add: length_keybind_set[OF okT])
  qed
  thus ?case using IH by simp
qed

text \<open>Restoring the settings a run of the program saved gives back every shortcut, each
with no key held, over whatever bindings there were.\<close>

theorem shortcuts_survive_a_restart:
  assumes "lower_ok tk" "kb_history tk h bs" "kb_history tk h' bs'"
    and "\<And>i. i < keybind_action_count \<Longrightarrow> b_keyval (bs ! i) \<noteq> 0 \<Longrightarrow> accel_ok tk (bs ! i)"
  shows "keybind_restore_state tk (keybind_save_state tk bs p) bs' = map (b_held_update (\<lambda>_. False)) bs"
proof -
  have l: "length bs = keybind_action_count" "length bs' = keybind_action_count"
    using bindings_okD(1)[OF kb_history_ok] assms(1,2,3) by blast+
  have "fold (restore_row tk (keybind_save_state tk bs p)) [0..<keybind_action_count] no_bindings =
      map (\<lambda>i. if i < keybind_action_count then (bs ! i)\<lparr>b_held := False\<rparr> else unbound) [0..<keybind_action_count]"
    by (rule restore_fold[OF assms(1) kb_history_ok[OF assms(2,1)] assms(4) order.refl])
  thus ?thesis using l
    by (simp add: keybind_restore_state_def keybind_clear_all_eq) (auto intro!: nth_equalityI)
qed

theorem shortcuts_survive_a_restart_witness:
  "keybind_restore_state tk0 (keybind_save_state tk0 bound0 props0) no_bindings = map (b_held_update (\<lambda>_. False)) bound0"
proof (rule shortcuts_survive_a_restart[OF lower_ok_tk0 bound0_history kh_start])
  fix i assume "i < keybind_action_count" "b_keyval (bound0 ! i) \<noteq> 0"
  thus "accel_ok tk0 (bound0 ! i)" by (simp add: bound0_nth accel_ok_def tk0_def split: if_splits)
qed

end
