(* ===== verification/Controls.thy ===== *)
theory Controls
  imports Keybind Cw_Keyer Vfo_Mode
begin

text \<open>The operator's controls: what a keyboard shortcut does
(\<open>src/core/keybind_run.c\<close>) and what the buttons, menus and wheels of the VFO row do
(\<open>src/ui/vfo.c\<close>), over one state that joins the radio, its receivers, the keying paths
and the keyer.

A receiver operation of theories \<open>Vfo\<close> and \<open>Vfo_Mode\<close> runs on the receiver
taken out of the radio's table and put back. The receiver fields those theories do not have
(zoom, gains, mute, squelch cut-out, noise reduction) are the record \<open>panel\<close>, one per
receiver. What is pushed to the DSP for them is a list of events. Volumes and gains are real
numbers; the labels and icons of the buttons are not modelled.\<close>

section \<open>State\<close>

record panel =
  pn_zoom :: int
  pn_pixels :: int
  pn_panadapter_width :: int
  pn_volume :: real
  pn_mute :: bool
  pn_agc_gain :: real
  pn_squelch_off :: bool
  pn_nb :: bool
  pn_nb2 :: bool
  pn_nr :: bool
  pn_nr2 :: bool
  pn_nr3 :: bool
  pn_nr4 :: bool
  pn_anf :: bool
  pn_snb :: bool
  pn_rit_step :: int
  pn_decoding :: bool

text \<open>\<open>Pe_Noise\<close> holds the run flags of the blankers, the four noise reductions, the
notch and the spectral blanker, in this order.\<close>

datatype panel_event =
    Pe_Analyzer | Pe_Volume | Pe_Sub_volume | Pe_Agc int real | Pe_Agc_top real | Pe_Squelch_run bool
  | Pe_Noise "bool list" | Pe_Sub_noise | Pe_Tci_state

record console =
  st_cw :: cw_tx
  st_keyer :: keyer
  st_active :: "nat option"
  st_filters :: filter_table
  st_hidden :: "nat \<Rightarrow> receiver option"
  st_startup_done :: bool
  st_out :: "tune_event list"
  st_panel :: "nat \<Rightarrow> panel"
  st_dsp :: "(nat \<times> panel_event) list"
  st_bindings :: bindings
  st_hover :: "(nat \<times> int \<times> bool) option"
  st_vfo_scroll_reversed :: bool
  st_pan_scroll_reversed :: bool
  st_quit :: bool
  st_fault :: bool

abbreviation st_keying :: "console \<Rightarrow> keying" where "st_keying st \<equiv> c_keying (st_cw st)"
abbreviation st_radio :: "console \<Rightarrow> radio" where "st_radio st \<equiv> k_radio (c_keying (st_cw st))"
abbreviation st_can_transmit :: "console \<Rightarrow> bool" where "st_can_transmit st \<equiv> c_can_transmit (st_cw st)"

definition slot :: "console \<Rightarrow> nat \<Rightarrow> receiver option" where
  "slot st i = (if i < length (r_receiver (st_radio st)) then r_receiver (st_radio st) ! i else None)"

definition on_keying :: "(keying \<Rightarrow> keying) \<Rightarrow> console \<Rightarrow> console" where
  "on_keying f st = st\<lparr>st_cw := (st_cw st)\<lparr>c_keying := f (st_keying st)\<rparr>\<rparr>"

definition on_radio :: "(radio \<Rightarrow> radio) \<Rightarrow> console \<Rightarrow> console" where
  "on_radio f st = on_keying (\<lambda>k. k\<lparr>k_radio := f (k_radio k)\<rparr>) st"

definition tuner_of :: "nat \<Rightarrow> receiver \<Rightarrow> console \<Rightarrow> tuner" where
  "tuner_of i rx st =
     \<lparr>t_radio = st_radio st, t_index = i, t_rx = rx, t_filters = st_filters st, t_hidden = st_hidden st i,
      t_startup_done = st_startup_done st, t_out = st_out st\<rparr>"

definition put_tuner :: "tuner \<Rightarrow> console \<Rightarrow> console" where
  "put_tuner t st =
     (on_radio (\<lambda>_. tuned_radio t) st)
       \<lparr>st_filters := t_filters t, st_hidden := (st_hidden st)(t_index t := t_hidden t), st_out := t_out t\<rparr>"

definition on_rx :: "nat \<Rightarrow> (tuner \<Rightarrow> tuner) \<Rightarrow> console \<Rightarrow> console" where
  "on_rx i f st = (case slot st i of None \<Rightarrow> st | Some rx \<Rightarrow> put_tuner (f (tuner_of i rx st)) st)"

definition on_panel :: "nat \<Rightarrow> (panel \<Rightarrow> panel) \<Rightarrow> console \<Rightarrow> console" where
  "on_panel i f st = st\<lparr>st_panel := (st_panel st)(i := f (st_panel st i))\<rparr>"

definition dsp :: "nat \<Rightarrow> panel_event \<Rightarrow> console \<Rightarrow> console" where
  "dsp i e st = st\<lparr>st_dsp := st_dsp st @ [(i, e)]\<rparr>"

definition update_vfo :: "nat \<Rightarrow> console \<Rightarrow> console" where
  "update_vfo i st = on_rx i (out Ev_Vfo) st"

definition rx_of :: "console \<Rightarrow> nat \<Rightarrow> receiver" where
  "rx_of st i = the (slot st i)"

section \<open>What the controls push\<close>

definition bypass_stream_dsp :: "nat \<Rightarrow> console \<Rightarrow> bool" where
  "bypass_stream_dsp i st \<longleftrightarrow>
     rx_mode_a (rx_of st i) = DIGU \<or> rx_mode_a (rx_of st i) = DIGL \<or> pn_decoding (st_panel st i)"

definition noise_flags :: "panel \<Rightarrow> bool list" where
  "noise_flags p = [pn_nb p, pn_nb2 p, pn_nr p, pn_nr2 p, pn_nr3 p, pn_nr4 p, pn_anf p, pn_snb p]"

definition update_noise :: "nat \<Rightarrow> console \<Rightarrow> console" where
  "update_noise i st =
     (let flags = (if bypass_stream_dsp i st then replicate 8 False else noise_flags (st_panel st i));
          sub = rx_subrx_enable (rx_of st i) \<and> rx_subrx (rx_of st i);
          st1 = dsp i (Pe_Noise flags) st
      in update_vfo i (if sub then dsp i Pe_Sub_noise st1 else st1))"

definition receiver_nr_mode :: "panel \<Rightarrow> int" where
  "receiver_nr_mode p =
     (if pn_nr p then 1 else if pn_nr2 p then 2 else if pn_nr3 p then 3 else if pn_nr4 p then 4 else 0)"

definition receiver_set_nr_mode :: "nat \<Rightarrow> int \<Rightarrow> console \<Rightarrow> console" where
  "receiver_set_nr_mode i mode st =
     update_noise i (on_panel i (\<lambda>p. p\<lparr>pn_nr := (mode = 1), pn_nr2 := (mode = 2), pn_nr3 := (mode = 3),
                                      pn_nr4 := (mode = 4)\<rparr>) st)"

definition receiver_set_volume :: "nat \<Rightarrow> console \<Rightarrow> console" where
  "receiver_set_volume i st =
     (let st1 = dsp i Pe_Volume st in if rx_subrx_enable (rx_of st i) then dsp i Pe_Sub_volume st1 else st1)"

definition receiver_set_agc_gain :: "nat \<Rightarrow> console \<Rightarrow> console" where
  "receiver_set_agc_gain i st = dsp i (Pe_Agc_top (pn_agc_gain (st_panel st i))) st"

definition set_agc :: "nat \<Rightarrow> console \<Rightarrow> console" where
  "set_agc i st = dsp i (Pe_Agc (rx_agc (rx_of st i)) (pn_agc_gain (st_panel st i))) st"

text \<open>\<open>set_squelch\<close> of theory \<open>Vfo_Mode\<close> keeps the threshold and its per-mode
memory; the run flag also depends on the cut-out and on a running decoder.\<close>

definition st_set_squelch :: "nat \<Rightarrow> console \<Rightarrow> console" where
  "st_set_squelch i st =
     (let st1 = on_rx i set_squelch st
      in if rx_channel (rx_of st i) < 0 then st1
         else dsp i (Pe_Squelch_run (rx_squelch_enable (rx_of st1 i) \<and> \<not> pn_squelch_off (st_panel st1 i)
                \<and> \<not> bypass_stream_dsp i st1)) st1)"

section \<open>Zoom and pan\<close>

definition WDSP_MAX_PIXELS :: int where "WDSP_MAX_PIXELS = 16384"

definition receiver_max_zoom :: "panel \<Rightarrow> int" where
  "receiver_max_zoom p =
     (let max_zoom = (if pn_panadapter_width p > 0 then WDSP_MAX_PIXELS sdiv pn_panadapter_width p else 1)
      in if max_zoom < 1 then 1 else max_zoom)"

definition center_pan_on_cursor :: "panel \<Rightarrow> receiver \<Rightarrow> receiver" where
  "center_pan_on_cursor p rx =
     (if pn_zoom p \<le> 1 then rx\<lparr>rx_pan := 0\<rparr>
      else (let hz_per_pixel = real_of_int (rx_sample_rate rx) / real_of_int (pn_pixels p);
                cursor_px = pn_pixels p sdiv 2
                  + trunc_real (real_of_int (rx_ctun_frequency rx - rx_frequency_a rx) / hz_per_pixel);
                pan0 = cursor_px - pn_panadapter_width p sdiv 2;
                pan1 = (if pan0 < 0 then 0 else pan0)
            in rx\<lparr>rx_pan := (if pan1 > pn_pixels p - pn_panadapter_width p
                             then pn_pixels p - pn_panadapter_width p else pan1)\<rparr>))"

definition receiver_change_zoom :: "nat \<Rightarrow> int \<Rightarrow> console \<Rightarrow> console" where
  "receiver_change_zoom i zoom st =
     (let p = st_panel st i;
          z0 = (if pn_panadapter_width p > 0 \<and> zoom > receiver_max_zoom p then receiver_max_zoom p else zoom);
          z = (if z0 < 1 then 1 else z0);
          st1 = on_panel i (\<lambda>p. p\<lparr>pn_zoom := z, pn_pixels := pn_panadapter_width p * z\<rparr>) st
      in dsp i Pe_Analyzer (on_rx i (upd (center_pan_on_cursor (st_panel st1 i))) st1))"

section \<open>The shortcuts' own steps\<close>

definition kb_zoom :: "nat \<Rightarrow> int \<Rightarrow> console \<Rightarrow> console" where
  "kb_zoom i zoom st =
     (let z0 = (if zoom < 1 then 1 else zoom); z = (if z0 > 32 then 32 else z0)
      in if z = pn_zoom (st_panel st i) then st else update_vfo i (receiver_change_zoom i z st))"

definition kb_pan :: "nat \<Rightarrow> int \<Rightarrow> console \<Rightarrow> console" where
  "kb_pan i delta st =
     (let pn = st_panel st i; p = rx_pan (rx_of st i) + delta * (if pn_zoom pn > 0 then pn_zoom pn else 1);
          mx0 = pn_pixels pn - pn_panadapter_width pn; mx = (if mx0 < 0 then 0 else mx0);
          p1 = (if p < 0 then 0 else p); p2 = (if p1 > mx then mx else p1)
      in on_rx i (upd (\<lambda>rx. rx\<lparr>rx_pan := p2\<rparr>)) st)"

definition limit_to :: "real \<Rightarrow> real \<Rightarrow> real \<Rightarrow> real" where
  "limit_to lo hi x = (let x1 = (if x > hi then hi else x) in if x1 < lo then lo else x1)"

definition kb_volume :: "nat \<Rightarrow> real \<Rightarrow> console \<Rightarrow> console" where
  "kb_volume i delta st =
     update_vfo i (receiver_set_volume i (on_panel i (\<lambda>p. p\<lparr>pn_volume := limit_to 0 1 (pn_volume p + delta)\<rparr>) st))"

definition kb_agc_gain :: "nat \<Rightarrow> real \<Rightarrow> console \<Rightarrow> console" where
  "kb_agc_gain i delta st =
     update_vfo i (receiver_set_agc_gain i
       (on_panel i (\<lambda>p. p\<lparr>pn_agc_gain := limit_to (- 20) 120 (pn_agc_gain p + delta)\<rparr>) st))"

definition kb_squelch :: "nat \<Rightarrow> real \<Rightarrow> console \<Rightarrow> console" where
  "kb_squelch i delta st =
     update_vfo i (st_set_squelch i (on_rx i (upd (\<lambda>rx. rx\<lparr>rx_squelch := limit_to 0 1 (rx_squelch rx + delta)\<rparr>)) st))"

definition kb_squelch_toggle :: "nat \<Rightarrow> console \<Rightarrow> console" where
  "kb_squelch_toggle i st =
     update_vfo i (st_set_squelch i (on_panel i (\<lambda>p. p\<lparr>pn_squelch_off := \<not> pn_squelch_off p\<rparr>) st))"

definition kb_other_sideband :: "int \<Rightarrow> int" where
  "kb_other_sideband mode =
     (if mode = LSB then USB else if mode = USB then LSB else if mode = CWL then CWU else if mode = CWU then CWL
      else if mode = DIGL then DIGU else if mode = DIGU then DIGL else - 1)"

definition AGC_OFF :: int where "AGC_OFF = 0"
definition AGC_FAST :: int where "AGC_FAST = 4"

definition choose_agc :: "int \<Rightarrow> receiver \<Rightarrow> receiver" where
  "choose_agc a rx =
     rx\<lparr>rx_agc := a,
        rx_mode_agc := (if 0 \<le> rx_mode_a rx \<and> rx_mode_a rx < MODES
                        then (rx_mode_agc rx)[nat (rx_mode_a rx) := a] else rx_mode_agc rx)\<rparr>"

definition kb_agc :: "nat \<Rightarrow> console \<Rightarrow> console" where
  "kb_agc i st =
     update_vfo i (set_agc i
       (on_rx i (upd (\<lambda>rx. choose_agc (if rx_agc rx \<ge> AGC_FAST then AGC_OFF else rx_agc rx + 1) rx)) st))"

definition next_blanker :: "panel \<Rightarrow> panel" where
  "next_blanker p =
     (if pn_nb p then p\<lparr>pn_nb := False, pn_nb2 := True\<rparr>
      else if pn_nb2 p then p\<lparr>pn_nb := False, pn_nb2 := False\<rparr>
      else p\<lparr>pn_nb := True, pn_nb2 := False\<rparr>)"

definition tci_notify_state :: "nat \<Rightarrow> console \<Rightarrow> console" where
  "tci_notify_state i st = dsp i Pe_Tci_state st"

definition on_transmitter :: "(transmitter \<Rightarrow> transmitter) \<Rightarrow> console \<Rightarrow> console" where
  "on_transmitter f st = on_radio (\<lambda>r. r\<lparr>r_transmitter := f (r_transmitter r)\<rparr>) st"

section \<open>Carrying out an action\<close>

text \<open>\<open>now\<close> and \<open>full_tune_time\<close> are the clock and the setting that
\<open>set_tune\<close> reads.\<close>

fun run_action :: "int \<Rightarrow> int \<Rightarrow> nat \<Rightarrow> kb_action \<Rightarrow> bool \<Rightarrow> console \<Rightarrow> console" where
  "run_action now ftt i KB_ZOOM_IN p st = kb_zoom i (pn_zoom (st_panel st i) + 1) st"
| "run_action now ftt i KB_ZOOM_OUT p st = kb_zoom i (pn_zoom (st_panel st i) - 1) st"
| "run_action now ftt i KB_ZOOM_RESET p st = kb_zoom i 1 st"
| "run_action now ftt i KB_PAN_LEFT p st = kb_pan i (- 1) st"
| "run_action now ftt i KB_PAN_RIGHT p st = kb_pan i 1 st"
| "run_action now ftt i KB_PTT p st = (if st_can_transmit st then on_keying (set_mox p) st else st)"
| "run_action now ftt i KB_MOX p st =
     (if st_can_transmit st then on_keying (set_mox (\<not> r_mox (st_radio st))) st else st)"
| "run_action now ftt i KB_TUNE p st =
     (if st_can_transmit st then on_keying (set_tune now ftt (\<not> r_tune (st_radio st))) st else st)"
| "run_action now ftt i KB_SIDEBAND p st =
     (let m = kb_other_sideband (rx_mode_a (rx_of st i)) in if m \<ge> 0 then on_rx i (vfo_set_mode m) st else st)"
| "run_action now ftt i KB_MODE_NEXT p st = on_rx i (vfo_set_mode ((rx_mode_a (rx_of st i) + 1) smod MODES)) st"
| "run_action now ftt i KB_MODE_PREV p st = on_rx i (vfo_set_mode ((rx_mode_a (rx_of st i) + MODES - 1) smod MODES)) st"
| "run_action now ftt i KB_BAND_UP p st =
     update_vfo i (on_rx i (\<lambda>t. set_band (next_band (t_radio t) (rx_band_a (t_rx t))) (- 1) t) st)"
| "run_action now ftt i KB_BAND_DOWN p st =
     update_vfo i (on_rx i (\<lambda>t. set_band (previous_band (t_radio t) (rx_band_a (t_rx t))) (- 1) t) st)"
| "run_action now ftt i KB_FILTER_UP p st =
     (let f = rx_filter_a (rx_of st i) + 1
      in update_vfo i (on_rx i (receiver_filter_changed (if f \<ge> FILTERS then 0 else f)) st))"
| "run_action now ftt i KB_FILTER_DOWN p st =
     (let f = rx_filter_a (rx_of st i) - 1
      in update_vfo i (on_rx i (receiver_filter_changed (if f < 0 then FILTERS - 1 else f)) st))"
| "run_action now ftt i KB_FREQ_UP p st =
     (if \<not> rx_locked (rx_of st i) then on_rx i (receiver_move (rx_step (rx_of st i)) True) st else st)"
| "run_action now ftt i KB_FREQ_DOWN p st =
     (if \<not> rx_locked (rx_of st i) then on_rx i (receiver_move (- rx_step (rx_of st i)) True) st else st)"
| "run_action now ftt i KB_LOCK p st = update_vfo i (on_rx i (upd (\<lambda>rx. rx\<lparr>rx_locked := \<not> rx_locked rx\<rparr>)) st)"
| "run_action now ftt i KB_A_TO_B p st = on_rx i vfo_a2b st"
| "run_action now ftt i KB_B_TO_A p st = on_rx i vfo_b2a st"
| "run_action now ftt i KB_A_SWAP_B p st = on_rx i vfo_aswapb st"
| "run_action now ftt i KB_SPLIT p st = tci_notify_state i (on_rx i vfo_toggle_split st)"
| "run_action now ftt i KB_CTUN p st =
     update_vfo i (on_rx i (\<lambda>t. receiver_set_ctun (upd (\<lambda>rx. rx\<lparr>rx_ctun := \<not> rx_ctun rx\<rparr>) t)) st)"
| "run_action now ftt i KB_RIT p st =
     tci_notify_state i (update_vfo i
       (on_rx i (\<lambda>t. frequency_changed (upd (\<lambda>rx. rx\<lparr>rx_rit_enabled := \<not> rx_rit_enabled rx\<rparr>) t)) st))"
| "run_action now ftt i KB_RIT_CLEAR p st =
     tci_notify_state i (update_vfo i (on_rx i (\<lambda>t. frequency_changed (upd (\<lambda>rx. rx\<lparr>rx_rit := 0\<rparr>) t)) st))"
| "run_action now ftt i KB_XIT p st =
     (if st_can_transmit st
      then tci_notify_state i (update_vfo i (on_transmitter (\<lambda>tx. tx\<lparr>tx_xit_enabled := \<not> tx_xit_enabled tx\<rparr>) st))
      else st)"
| "run_action now ftt i KB_XIT_CLEAR p st =
     (if st_can_transmit st \<and> \<not> isTransmitting (st_radio st)
      then tci_notify_state i (update_vfo i (on_transmitter (\<lambda>tx. tx\<lparr>tx_xit := 0, tx_xit_enabled := False\<rparr>) st))
      else st)"
| "run_action now ftt i KB_MUTE p st =
     update_vfo i (receiver_set_volume i (on_panel i (\<lambda>p. p\<lparr>pn_mute := \<not> pn_mute p\<rparr>) st))"
| "run_action now ftt i KB_VOLUME_UP p st = kb_volume i (1 / 100) st"
| "run_action now ftt i KB_VOLUME_DOWN p st = kb_volume i (- 1 / 100) st"
| "run_action now ftt i KB_AGC_GAIN_UP p st = kb_agc_gain i 1 st"
| "run_action now ftt i KB_AGC_GAIN_DOWN p st = kb_agc_gain i (- 1) st"
| "run_action now ftt i KB_SQUELCH_UP p st = kb_squelch i (1 / 100) st"
| "run_action now ftt i KB_SQUELCH_DOWN p st = kb_squelch i (- 1 / 100) st"
| "run_action now ftt i KB_SQUELCH_TOGGLE p st = kb_squelch_toggle i st"
| "run_action now ftt i KB_AGC p st = kb_agc i st"
| "run_action now ftt i KB_NB p st = update_vfo i (update_noise i (on_panel i next_blanker st))"
| "run_action now ftt i KB_NR p st =
     update_vfo i (receiver_set_nr_mode i ((receiver_nr_mode (st_panel st i) + 1) mod 5) st)"
| "run_action now ftt i KB_ANF p st = update_vfo i (update_noise i (on_panel i (\<lambda>p. p\<lparr>pn_anf := \<not> pn_anf p\<rparr>) st))"
| "run_action now ftt i KB_SNB p st = update_vfo i (update_noise i (on_panel i (\<lambda>p. p\<lparr>pn_snb := \<not> pn_snb p\<rparr>) st))"
| "run_action now ftt i (KB_MODE m) p st = (if 0 \<le> m \<and> m < MODES then on_rx i (vfo_set_mode m) st else st)"
| "run_action now ftt i KB_NONE p st = st"

definition active_rx :: "console \<Rightarrow> nat option" where
  "active_rx st = (case st_active st of None \<Rightarrow> None | Some i \<Rightarrow> if slot st i = None then None else Some i)"

definition keybind_run :: "int \<Rightarrow> int \<Rightarrow> kb_action \<Rightarrow> bool \<Rightarrow> console \<Rightarrow> console" where
  "keybind_run now ftt action pressed st =
     (case active_rx st of None \<Rightarrow> st | Some i \<Rightarrow> run_action now ftt i action pressed st)"

section \<open>The buttons and menus of the VFO row\<close>

text \<open>A toggle button's handler is given the state the button has taken; a menu's handler
the choice.\<close>

definition lock_b_cb :: "nat \<Rightarrow> bool \<Rightarrow> console \<Rightarrow> console" where
  "lock_b_cb i on st = on_rx i (upd (\<lambda>rx. rx\<lparr>rx_locked := on\<rparr>)) st"

definition mute_b_cb :: "nat \<Rightarrow> bool \<Rightarrow> console \<Rightarrow> console" where
  "mute_b_cb i on st = receiver_set_volume i (on_panel i (\<lambda>p. p\<lparr>pn_mute := on\<rparr>) st)"

definition split_b_cb :: "nat \<Rightarrow> console \<Rightarrow> console" where
  "split_b_cb i st = on_rx i vfo_toggle_split st"

definition zoom_cb :: "nat \<Rightarrow> int \<Rightarrow> console \<Rightarrow> console" where
  "zoom_cb i selection st = receiver_change_zoom i selection st"

definition mode_cb :: "nat \<Rightarrow> int \<Rightarrow> console \<Rightarrow> console" where
  "mode_cb i selection st = on_rx i (vfo_set_mode selection) st"

definition filter_cb :: "nat \<Rightarrow> int \<Rightarrow> console \<Rightarrow> console" where
  "filter_cb i selection st = on_rx i (receiver_filter_changed selection) st"

definition nb_cb :: "nat \<Rightarrow> int \<Rightarrow> console \<Rightarrow> console" where
  "nb_cb i selection st =
     update_noise i (on_panel i (\<lambda>p. if selection = 0 then p\<lparr>pn_nb := False, pn_nb2 := False\<rparr>
                                     else if selection = 1 then p\<lparr>pn_nb := True, pn_nb2 := False\<rparr>
                                     else if selection = 2 then p\<lparr>pn_nb := False, pn_nb2 := True\<rparr> else p) st)"

definition nr_cb :: "nat \<Rightarrow> int \<Rightarrow> console \<Rightarrow> console" where
  "nr_cb i selection st = receiver_set_nr_mode i selection st"

definition snb_b_cb :: "nat \<Rightarrow> bool \<Rightarrow> console \<Rightarrow> console" where
  "snb_b_cb i on st = update_noise i (on_panel i (\<lambda>p. p\<lparr>pn_snb := on\<rparr>) st)"

definition anf_b_cb :: "nat \<Rightarrow> bool \<Rightarrow> console \<Rightarrow> console" where
  "anf_b_cb i on st = update_noise i (on_panel i (\<lambda>p. p\<lparr>pn_anf := on\<rparr>) st)"

definition ant_b_cb :: "console \<Rightarrow> console" where
  "ant_b_cb st = on_radio (\<lambda>r. r\<lparr>r_adc := (case r_adc r of [] \<Rightarrow> []
      | a # as \<Rightarrow> a\<lparr>adc_antenna := (if adc_antenna a = 0 then 3 else 0)\<rparr> # as)\<rparr>) st"

definition rit_b_cb :: "nat \<Rightarrow> bool \<Rightarrow> console \<Rightarrow> console" where
  "rit_b_cb i on st =
     on_rx i (\<lambda>t. update_frequency (frequency_changed (upd (\<lambda>rx. rx\<lparr>rx_rit_enabled := on\<rparr>) t))) st"

definition rit_b_scroll_event_cb :: "nat \<Rightarrow> real \<Rightarrow> console \<Rightarrow> console" where
  "rit_b_scroll_event_cb i dy st =
     (let rit_step = pn_rit_step (st_panel st i);
          new = (\<lambda>rx. if dy < 0 then (if rx_rit rx + rit_step > 10000 then 10000 else rx_rit rx + rit_step)
                      else (if rx_rit rx - rit_step < - 10000 then - 10000 else rx_rit rx - rit_step))
      in on_rx i (\<lambda>t. update_frequency (frequency_changed (upd (\<lambda>rx. rx\<lparr>rx_rit := new rx\<rparr>) t))) st)"

definition rit_cb :: "nat \<Rightarrow> int \<Rightarrow> console \<Rightarrow> console" where
  "rit_cb i selection st = on_panel i (\<lambda>p. p\<lparr>pn_rit_step := selection\<rparr>) st"

definition owns_transmitter :: "nat \<Rightarrow> console \<Rightarrow> bool" where
  "owns_transmitter i st \<longleftrightarrow> st_can_transmit st \<and> tx_rx (r_transmitter (st_radio st)) = Some i"

definition xit_b_cb :: "nat \<Rightarrow> bool \<Rightarrow> console \<Rightarrow> console" where
  "xit_b_cb i on st =
     (if owns_transmitter i st then on_transmitter (\<lambda>tx. tx\<lparr>tx_xit_enabled := on\<rparr>) st else st)"

definition dup_b_cb :: "nat \<Rightarrow> bool \<Rightarrow> console \<Rightarrow> console" where
  "dup_b_cb i on st = on_keying (\<lambda>k. k\<lparr>k_duplex := (k_duplex k)(i := on)\<rparr>) st"

definition link_b_cb :: "nat \<Rightarrow> bool \<Rightarrow> console \<Rightarrow> console" where
  "link_b_cb i on st = on_rx i (upd (\<lambda>rx. rx\<lparr>rx_vfo_linked := on\<rparr>)) st"

definition a2b_cb :: "nat \<Rightarrow> console \<Rightarrow> console" where
  "a2b_cb i st = on_rx i vfo_a2b st"

definition b2a_cb :: "nat \<Rightarrow> console \<Rightarrow> console" where
  "b2a_cb i st = on_rx i vfo_b2a st"

definition aswapb_cb :: "nat \<Rightarrow> console \<Rightarrow> console" where
  "aswapb_cb i st = on_rx i vfo_aswapb st"

definition ctun_b_cb :: "nat \<Rightarrow> console \<Rightarrow> console" where
  "ctun_b_cb i st = on_rx i (\<lambda>t. receiver_set_ctun (upd (\<lambda>rx. rx\<lparr>rx_ctun := \<not> rx_ctun rx\<rparr>) t)) st"

definition agc_cb :: "nat \<Rightarrow> int \<Rightarrow> console \<Rightarrow> console" where
  "agc_cb i selection st = update_noise i (set_agc i (on_rx i (upd (choose_agc selection)) st))"

definition squelch_toggle_cb :: "nat \<Rightarrow> bool \<Rightarrow> console \<Rightarrow> console" where
  "squelch_toggle_cb i active st =
     update_vfo i (st_set_squelch i (on_panel i (\<lambda>p. p\<lparr>pn_squelch_off := \<not> active\<rparr>) st))"

definition band_cb :: "nat \<Rightarrow> int \<Rightarrow> int \<Rightarrow> console \<Rightarrow> console" where
  "band_cb i selection sub_selection st = update_vfo i (on_rx i (set_band selection sub_selection) st)"

section \<open>The wheels\<close>

definition afgain_scale_scroll_event_cb :: "nat \<Rightarrow> real \<Rightarrow> console \<Rightarrow> console" where
  "afgain_scale_scroll_event_cb i dy st =
     receiver_set_volume i (on_panel i (\<lambda>p.
       if dy > 0 then (if pn_volume p > 0 then p\<lparr>pn_volume := pn_volume p - 1 / 100\<rparr> else p)
       else if dy < 0 then (if pn_volume p < 1 then p\<lparr>pn_volume := pn_volume p + 1 / 100\<rparr> else p)
       else p) st)"

definition agcgain_scale_scroll_event_cb :: "nat \<Rightarrow> real \<Rightarrow> console \<Rightarrow> console" where
  "agcgain_scale_scroll_event_cb i dy st =
     receiver_set_agc_gain i (on_panel i (\<lambda>p.
       if dy > 0 then (if pn_agc_gain p > - 20 then p\<lparr>pn_agc_gain := pn_agc_gain p - 1\<rparr> else p)
       else if dy < 0 then (if pn_agc_gain p < 120 then p\<lparr>pn_agc_gain := pn_agc_gain p + 1\<rparr> else p)
       else p) st)"

definition squelch_scale_scroll_event_cb :: "nat \<Rightarrow> real \<Rightarrow> console \<Rightarrow> console" where
  "squelch_scale_scroll_event_cb i dy st =
     st_set_squelch i (on_rx i (upd (\<lambda>rx.
       if dy > 0 then (if rx_squelch rx > 0 then rx\<lparr>rx_squelch := rx_squelch rx - 1 / 100\<rparr> else rx)
       else if dy < 0 then (if rx_squelch rx < 1 then rx\<lparr>rx_squelch := rx_squelch rx + 1 / 100\<rparr> else rx)
       else rx)) st)"

text \<open>The wheel over the spectrum (the tuning branch of \<open>receiver_scroll_cb\<close>), and
the wheel over a digit of VFO A. \<open>n\<close> is what \<open>scroll_notches\<close> returned,
negative for up.\<close>

definition ll_step :: "int list" where
  "ll_step = [10000000000, 1000000000, 100000000, 10000000, 1000000, 0, 100000, 10000, 1000, 0, 100, 10, 1]"

definition wheel_tunes :: "nat \<Rightarrow> int \<Rightarrow> console \<Rightarrow> console" where
  "wheel_tunes i n st =
     (let up = (n < 0); mag = (if n < 0 then - n else n); tune_up = (if st_pan_scroll_reversed st then \<not> up else up);
          cursor = rx_ctun (rx_of st i) \<or> rx_freetune (rx_of st i); step = rx_step (rx_of st i) * mag
      in if n = 0 \<or> rx_locked (rx_of st i) then st
         else if tune_up then on_rx i (receiver_move (if cursor then step else - step) True) st
         else on_rx i (receiver_move (if cursor then - step else step) True) st)"

definition frequency_a_scroll_event_cb :: "nat \<Rightarrow> int \<Rightarrow> int \<Rightarrow> console \<Rightarrow> console" where
  "frequency_a_scroll_event_cb i digit notches st =
     (let n = (if st_vfo_scroll_reversed st then - notches else notches);
          step0 = (if 0 \<le> digit \<and> digit < 13 then ll_step ! nat digit * (if n < 0 then - n else n) else 0);
          adds = rx_ctun (rx_of st i) \<or> rx_freetune (rx_of st i);
          step = (if n > 0 \<and> \<not> adds \<or> n < 0 \<and> adds then - step0 else step0)
      in update_vfo i (if \<not> rx_locked (rx_of st i) \<and> n \<noteq> 0 then on_rx i (receiver_move step False) st else st))"

section \<open>Typing over a digit\<close>

definition GDK_KEY_0 :: guint where "GDK_KEY_0 = 0x30"
definition GDK_KEY_9 :: guint where "GDK_KEY_9 = 0x39"
definition GDK_KEY_KP_0 :: guint where "GDK_KEY_KP_0 = 0xFFB0"
definition GDK_KEY_KP_9 :: guint where "GDK_KEY_KP_9 = 0xFFB9"

definition key_digit :: "guint \<Rightarrow> int option" where
  "key_digit keyval =
     (if keyval \<ge> GDK_KEY_0 \<and> keyval \<le> GDK_KEY_9 then Some (uint (keyval - GDK_KEY_0))
      else if keyval \<ge> GDK_KEY_KP_0 \<and> keyval \<le> GDK_KEY_KP_9 then Some (uint (keyval - GDK_KEY_KP_0)) else None)"

definition next_digit :: "int \<Rightarrow> int" where
  "next_digit digit = (case find (\<lambda>d. ll_step ! nat d \<noteq> 0) [digit + 1 .. 12] of None \<Rightarrow> digit | Some d \<Rightarrow> d)"

definition shown :: "bool \<Rightarrow> receiver \<Rightarrow> int" where
  "shown is_b rx =
     (if is_b then rx_frequency_b rx else if rx_ctun rx \<or> rx_freetune rx then rx_ctun_frequency rx else rx_frequency_a rx)"

definition type_at :: "bool \<Rightarrow> int \<Rightarrow> int \<Rightarrow> tuner \<Rightarrow> tuner" where
  "type_at is_b place n t =
     (let f = shown is_b (t_rx t); cur = (f sdiv place) smod 10; want = (n - cur) * place
      in if is_b then frequency_changed (receiver_move_b want False False t)
         else if rx_ctun (t_rx t) \<or> rx_freetune (t_rx t) then receiver_move want False t
         else receiver_move (- want) False t)"

definition vfo_type_digit :: "guint \<Rightarrow> console \<Rightarrow> bool \<times> console" where
  "vfo_type_digit keyval st =
     (case key_digit keyval of None \<Rightarrow> (False, st)
      | Some n \<Rightarrow>
          (case st_hover st of None \<Rightarrow> (False, st)
           | Some (i, digit, is_b) \<Rightarrow>
               if rx_locked (rx_of st i) \<or> digit < 0 \<or> digit \<ge> 13 \<or> ll_step ! nat digit = 0 then (False, st)
               else (True, update_vfo i ((on_rx i (type_at is_b (ll_step ! nat digit) n) st)
                             \<lparr>st_hover := Some (i, next_digit digit, is_b)\<rparr>))))"

section \<open>Putting a receiver back\<close>

lemma slot_put:
  "slot (put_tuner t st) j =
    (if j < length (r_receiver (t_radio t)) then (if j = t_index t then Some (t_rx t) else r_receiver (t_radio t) ! j) else None)"
  by (simp add: slot_def put_tuner_def on_radio_def on_keying_def tuned_radio_def)

lemma tuner_of_fields [simp]:
  "t_radio (tuner_of i rx st) = st_radio st" "t_rx (tuner_of i rx st) = rx" "t_index (tuner_of i rx st) = i"
  "t_filters (tuner_of i rx st) = st_filters st"
  by (simp_all add: tuner_of_def)

lemma rx_of_on_rx:
  assumes "slot st i = Some rx" "t_index (f (tuner_of i rx st)) = i"
    and "length (r_receiver (t_radio (f (tuner_of i rx st)))) = length (r_receiver (st_radio st))"
  shows "rx_of (on_rx i f st) i = t_rx (f (tuner_of i rx st))"
  using assms by (simp add: rx_of_def on_rx_def slot_put) (simp add: slot_def split: if_splits)

text \<open>The state without what has been told to the display and the DSP.\<close>

definition settings :: "console \<Rightarrow> console" where
  "settings st = st\<lparr>st_out := [], st_dsp := []\<rparr>"

lemma settings_dsp [simp]: "settings (dsp i e st) = settings st"
  by (simp add: settings_def dsp_def)

lemma settings_put_tuner:
  assumes "t\<lparr>t_out := []\<rparr> = t'\<lparr>t_out := []\<rparr>"
  shows "settings (put_tuner t st) = settings (put_tuner t' st)"
proof -
  have "t_radio t = t_radio t'" "t_index t = t_index t'" "t_rx t = t_rx t'" "t_filters t = t_filters t'" "t_hidden t = t_hidden t'"
    using arg_cong[OF assms, of t_radio] arg_cong[OF assms, of t_index] arg_cong[OF assms, of t_rx]
      arg_cong[OF assms, of t_filters] arg_cong[OF assms, of t_hidden] by simp_all
  thus ?thesis by (simp add: settings_def put_tuner_def tuned_radio_def on_radio_def on_keying_def)
qed

lemma settings_update_vfo [simp]: "settings (update_vfo i st) = settings st"
proof (cases "slot st i")
  case (Some rx)
  hence "(r_receiver (st_radio st))[i := Some rx] = r_receiver (st_radio st)"
    by (metis list_update_id slot_def option.distinct(1))
  thus ?thesis using Some
    by (simp add: update_vfo_def on_rx_def put_tuner_def tuned_radio_def on_radio_def on_keying_def settings_def
        tuner_of_def out_def)
qed (simp add: update_vfo_def on_rx_def)

lemma settings_update_noise [simp]: "settings (update_noise i st) = settings st"
  by (simp add: update_noise_def Let_def)

lemma settings_set_volume [simp]: "settings (receiver_set_volume i st) = settings st"
  by (simp add: receiver_set_volume_def Let_def)

lemma settings_set_agc [simp]: "settings (set_agc i st) = settings st"
  by (simp add: set_agc_def)

lemma settings_tci [simp]: "settings (tci_notify_state i st) = settings st"
  by (simp add: tci_notify_state_def)

section \<open>A shortcut does what its control does\<close>

text \<open>What the radio and the DSP have been told, in order: everything but the repainting of the
display and the notice to the TCI clients, which the shortcuts give more often.\<close>

definition orders :: "console \<Rightarrow> tune_event list \<times> (nat \<times> panel_event) list" where
  "orders st = (filter (\<lambda>e. e \<noteq> Ev_Vfo \<and> e \<noteq> Ev_TxPanadapter) (st_out st),
                filter (\<lambda>(j, e). e \<noteq> Pe_Tci_state) (st_dsp st))"

lemma orders_update_vfo [simp]: "orders (update_vfo i st) = orders st"
  by (simp add: update_vfo_def on_rx_def put_tuner_def on_radio_def on_keying_def orders_def tuner_of_def out_def split: option.split)

lemma orders_tci [simp]: "orders (tci_notify_state i st) = orders st"
  by (simp add: tci_notify_state_def dsp_def orders_def)

lemma slot_update_vfo [simp]: "slot (update_vfo i st) j = slot st j"
  using arg_cong[OF settings_update_vfo[of i st], of st_cw] by (simp add: settings_def slot_def)

lemma rx_of_update_vfo [simp]: "rx_of (update_vfo i st) j = rx_of st j"
  by (simp add: rx_of_def)

lemma orders_update_noise_vfo: "orders (update_noise i (update_vfo i st)) = orders (update_noise i st)"
proof -
  have p: "st_panel (update_vfo i st) = st_panel st"
    using arg_cong[OF settings_update_vfo[of i st], of st_panel] by (simp add: settings_def)
  have b: "bypass_stream_dsp i (update_vfo i st) = bypass_stream_dsp i st" by (simp add: bypass_stream_dsp_def p)
  have d: "orders (dsp i e x) = (fst (orders x), snd (orders x) @ filter (\<lambda>(j, e). e \<noteq> Pe_Tci_state) [(i, e)])" for x e
    by (simp add: orders_def dsp_def)
  show ?thesis by (simp add: update_noise_def Let_def b p d)
qed

text \<open>The control a shortcut stands for, given what the operator would do to it: press the
button, choose the entry the shortcut goes to from the menu, or turn the wheel over a level or over
the spectrum by one notch. The menu of the zoom has the entries of \<open>zoom_entries\<close>, that of
the filters two in FM. A step that would leave the range of its level has no control (the shortcut
clamps it; see the last section for the wheel), nor has a frequency step without a cursor, where
the two go opposite ways (\<open>tune_up_key_goes_down\<close>).\<close>

definition zoom_entries :: "int list" where
  "zoom_entries = [1, 2, 3, 4, 5, 6, 7, 8, 10, 12, 16, 32]"

definition one_notch :: "real \<Rightarrow> real \<Rightarrow> real \<Rightarrow> console \<Rightarrow> console option" where
  "one_notch lo hi x st = (if lo \<le> x \<and> x \<le> hi then Some st else None)"

definition cursor_wheel :: "nat \<Rightarrow> int \<Rightarrow> console \<Rightarrow> console option" where
  "cursor_wheel i n st =
     (if (rx_ctun (rx_of st i) \<or> rx_freetune (rx_of st i)) \<and> \<not> st_pan_scroll_reversed st
      then Some (wheel_tunes i n st) else None)"

fun matching_control :: "int \<Rightarrow> int \<Rightarrow> nat \<Rightarrow> kb_action \<Rightarrow> console \<Rightarrow> console option" where
  "matching_control now ftt i KB_MOX st = (if st_can_transmit st then Some (on_keying mox_cb st) else None)"
| "matching_control now ftt i KB_TUNE st = (if st_can_transmit st then Some (on_keying (tune_cb now ftt) st) else None)"
| "matching_control now ftt i KB_BAND_UP st = Some (band_cb i (next_band (st_radio st) (rx_band_a (rx_of st i))) (- 1) st)"
| "matching_control now ftt i KB_BAND_DOWN st = Some (band_cb i (previous_band (st_radio st) (rx_band_a (rx_of st i))) (- 1) st)"
| "matching_control now ftt i KB_LOCK st = Some (lock_b_cb i (\<not> rx_locked (rx_of st i)) st)"
| "matching_control now ftt i KB_SPLIT st = Some (split_b_cb i st)"
| "matching_control now ftt i KB_CTUN st = Some (ctun_b_cb i st)"
| "matching_control now ftt i KB_RIT st = Some (rit_b_cb i (\<not> rx_rit_enabled (rx_of st i)) st)"
| "matching_control now ftt i KB_XIT st = Some (xit_b_cb i (\<not> tx_xit_enabled (r_transmitter (st_radio st))) st)"
| "matching_control now ftt i KB_MUTE st = Some (mute_b_cb i (\<not> pn_mute (st_panel st i)) st)"
| "matching_control now ftt i KB_SQUELCH_TOGGLE st = Some (squelch_toggle_cb i (pn_squelch_off (st_panel st i)) st)"
| "matching_control now ftt i KB_AGC st =
     Some (agc_cb i (if rx_agc (rx_of st i) \<ge> AGC_FAST then AGC_OFF else rx_agc (rx_of st i) + 1) st)"
| "matching_control now ftt i KB_NB st =
     Some (nb_cb i (if pn_nb (st_panel st i) then 2 else if pn_nb2 (st_panel st i) then 0 else 1) st)"
| "matching_control now ftt i KB_NR st = Some (nr_cb i ((receiver_nr_mode (st_panel st i) + 1) mod 5) st)"
| "matching_control now ftt i KB_ANF st = Some (anf_b_cb i (\<not> pn_anf (st_panel st i)) st)"
| "matching_control now ftt i KB_SNB st = Some (snb_b_cb i (\<not> pn_snb (st_panel st i)) st)"
| "matching_control now ftt i (KB_MODE m) st = (if 0 \<le> m \<and> m < MODES then Some (mode_cb i m st) else None)"
| "matching_control now ftt i KB_A_TO_B st = Some (a2b_cb i st)"
| "matching_control now ftt i KB_B_TO_A st = Some (b2a_cb i st)"
| "matching_control now ftt i KB_A_SWAP_B st = Some (aswapb_cb i st)"
| "matching_control now ftt i KB_MODE_NEXT st = Some (mode_cb i ((rx_mode_a (rx_of st i) + 1) smod MODES) st)"
| "matching_control now ftt i KB_MODE_PREV st = Some (mode_cb i ((rx_mode_a (rx_of st i) + MODES - 1) smod MODES) st)"
| "matching_control now ftt i KB_SIDEBAND st =
     (let m = kb_other_sideband (rx_mode_a (rx_of st i)) in if m \<ge> 0 then Some (mode_cb i m st) else None)"
| "matching_control now ftt i KB_FILTER_UP st =
     (let f = (if rx_filter_a (rx_of st i) + 1 \<ge> FILTERS then 0 else rx_filter_a (rx_of st i) + 1)
      in if rx_mode_a (rx_of st i) = FMN \<and> f > 1 then None else Some (filter_cb i f st))"
| "matching_control now ftt i KB_FILTER_DOWN st =
     (let f = (if rx_filter_a (rx_of st i) - 1 < 0 then FILTERS - 1 else rx_filter_a (rx_of st i) - 1)
      in if rx_mode_a (rx_of st i) = FMN \<and> f > 1 then None else Some (filter_cb i f st))"
| "matching_control now ftt i KB_ZOOM_IN st =
     (let z = pn_zoom (st_panel st i) + 1 in if z \<in> set zoom_entries then Some (zoom_cb i z st) else None)"
| "matching_control now ftt i KB_ZOOM_OUT st =
     (let z = pn_zoom (st_panel st i) - 1 in if z \<in> set zoom_entries then Some (zoom_cb i z st) else None)"
| "matching_control now ftt i KB_ZOOM_RESET st =
     (if pn_zoom (st_panel st i) \<noteq> 1 then Some (zoom_cb i 1 st) else None)"
| "matching_control now ftt i KB_VOLUME_UP st =
     one_notch 0 1 (pn_volume (st_panel st i) + 1 / 100) (afgain_scale_scroll_event_cb i (- 1) st)"
| "matching_control now ftt i KB_VOLUME_DOWN st =
     one_notch 0 1 (pn_volume (st_panel st i) - 1 / 100) (afgain_scale_scroll_event_cb i 1 st)"
| "matching_control now ftt i KB_AGC_GAIN_UP st =
     one_notch (- 20) 120 (pn_agc_gain (st_panel st i) + 1) (agcgain_scale_scroll_event_cb i (- 1) st)"
| "matching_control now ftt i KB_AGC_GAIN_DOWN st =
     one_notch (- 20) 120 (pn_agc_gain (st_panel st i) - 1) (agcgain_scale_scroll_event_cb i 1 st)"
| "matching_control now ftt i KB_SQUELCH_UP st =
     one_notch 0 1 (rx_squelch (rx_of st i) + 1 / 100) (squelch_scale_scroll_event_cb i (- 1) st)"
| "matching_control now ftt i KB_SQUELCH_DOWN st =
     one_notch 0 1 (rx_squelch (rx_of st i) - 1 / 100) (squelch_scale_scroll_event_cb i 1 st)"
| "matching_control now ftt i KB_FREQ_UP st = cursor_wheel i (- 1) st"
| "matching_control now ftt i KB_FREQ_DOWN st = cursor_wheel i 1 st"
| "matching_control now ftt i _ st = None"

lemma sync_b_lo_again:
  "receiver_sync_vfo_b_lo (out e (receiver_sync_vfo_b_lo t)) = out e (receiver_sync_vfo_b_lo t)"
  by (simp add: receiver_sync_vfo_b_lo_def upd_def out_def Let_def)

lemma update_frequency_again:
  "(update_frequency (frequency_changed t))\<lparr>t_out := []\<rparr> = (frequency_changed t)\<lparr>t_out := []\<rparr>"
  by (simp add: update_frequency_def frequency_changed_def Let_def sync_b_lo_again) (simp add: out_def)?

lemma active_rxD: "active_rx st = Some i \<Longrightarrow> \<exists>rx. slot st i = Some rx"
  by (auto simp: active_rx_def split: option.splits if_splits)

lemma on_panel_cong: "f (st_panel st i) = g (st_panel st i) \<Longrightarrow> on_panel i f st = on_panel i g st"
  by (simp add: on_panel_def)

lemma zoom_of_the_menu:
  assumes "z \<in> set zoom_entries" "z \<noteq> pn_zoom (st_panel st i)"
  shows "kb_zoom i z st = update_vfo i (zoom_cb i z st)"
proof -
  have "\<not> z < 1" "\<not> z > 32" using assms(1) by (auto simp: zoom_entries_def)
  thus ?thesis using assms(2) by (simp add: kb_zoom_def zoom_cb_def Let_def)
qed

lemma volume_notch:
  "one_notch 0 1 (pn_volume (st_panel st i) + 1 / 100) (afgain_scale_scroll_event_cb i (- 1) st) = Some st' \<Longrightarrow>
   kb_volume i (1 / 100) st = update_vfo i st'"
  "one_notch 0 1 (pn_volume (st_panel st i) - 1 / 100) (afgain_scale_scroll_event_cb i 1 st) = Some st' \<Longrightarrow>
   kb_volume i (- 1 / 100) st = update_vfo i st'"
  by (auto simp: one_notch_def kb_volume_def afgain_scale_scroll_event_cb_def on_panel_def limit_to_def split: if_splits)

lemma agc_gain_notch:
  "one_notch (- 20) 120 (pn_agc_gain (st_panel st i) + 1) (agcgain_scale_scroll_event_cb i (- 1) st) = Some st' \<Longrightarrow>
   kb_agc_gain i 1 st = update_vfo i st'"
  "one_notch (- 20) 120 (pn_agc_gain (st_panel st i) - 1) (agcgain_scale_scroll_event_cb i 1 st) = Some st' \<Longrightarrow>
   kb_agc_gain i (- 1) st = update_vfo i st'"
  by (auto simp: one_notch_def kb_agc_gain_def agcgain_scale_scroll_event_cb_def on_panel_def limit_to_def split: if_splits)

lemma squelch_notch:
  assumes "slot st i = Some rx"
  shows "one_notch 0 1 (rx_squelch rx + 1 / 100) (squelch_scale_scroll_event_cb i (- 1) st) = Some st' \<Longrightarrow>
    kb_squelch i (1 / 100) st = update_vfo i st'"
    "one_notch 0 1 (rx_squelch rx - 1 / 100) (squelch_scale_scroll_event_cb i 1 st) = Some st' \<Longrightarrow>
    kb_squelch i (- 1 / 100) st = update_vfo i st'"
  by (auto simp: one_notch_def kb_squelch_def squelch_scale_scroll_event_cb_def on_rx_def upd_def assms limit_to_def split: if_splits)

lemma frequency_notch:
  "cursor_wheel i (- 1) st = Some st' \<Longrightarrow> run_action now ftt i KB_FREQ_UP p st = st'"
  "cursor_wheel i 1 st = Some st' \<Longrightarrow> run_action now ftt i KB_FREQ_DOWN p st = st'"
  by (auto simp: cursor_wheel_def wheel_tunes_def Let_def split: if_splits)

definition stepping :: "kb_action set" where
  "stepping = {KB_ZOOM_IN, KB_ZOOM_OUT, KB_ZOOM_RESET, KB_VOLUME_UP, KB_VOLUME_DOWN, KB_AGC_GAIN_UP, KB_AGC_GAIN_DOWN,
     KB_SQUELCH_UP, KB_SQUELCH_DOWN, KB_FREQ_UP, KB_FREQ_DOWN}"

lemma shortcut_steps_like_the_wheel:
  assumes "slot st i = Some rx" "a \<in> stepping" "matching_control now ftt i a st = Some st'"
  shows "run_action now ftt i a True st = update_vfo i st' \<or> run_action now ftt i a True st = st'"
proof -
  have r: "rx_of st i = rx" using assms(1) by (simp add: rx_of_def)
  note sq = squelch_notch[OF assms(1)]
  have m: "a = b \<Longrightarrow> matching_control now ftt i b st = Some st'" for b using assms(3) by simp
  have "run_action now ftt i a True st = update_vfo i st'" if "a \<in> {KB_ZOOM_IN, KB_ZOOM_OUT, KB_ZOOM_RESET}"
    using that m by (auto simp: Let_def zoom_of_the_menu zoom_entries_def split: if_splits)
  moreover have "a = KB_VOLUME_UP \<Longrightarrow> run_action now ftt i a True st = update_vfo i st'"
    "a = KB_VOLUME_DOWN \<Longrightarrow> run_action now ftt i a True st = update_vfo i st'"
    by (simp only: run_action.simps, rule volume_notch, drule m, simp only: matching_control.simps)+
  moreover have "a = KB_AGC_GAIN_UP \<Longrightarrow> run_action now ftt i a True st = update_vfo i st'"
    "a = KB_AGC_GAIN_DOWN \<Longrightarrow> run_action now ftt i a True st = update_vfo i st'"
    by (simp only: run_action.simps, rule agc_gain_notch, drule m, simp only: matching_control.simps)+
  moreover have "a = KB_SQUELCH_UP \<Longrightarrow> run_action now ftt i a True st = update_vfo i st'"
    "a = KB_SQUELCH_DOWN \<Longrightarrow> run_action now ftt i a True st = update_vfo i st'"
    by (simp only: run_action.simps, rule sq, drule m, simp only: matching_control.simps r)+
  moreover have "a = KB_FREQ_UP \<Longrightarrow> run_action now ftt i a True st = st'"
    "a = KB_FREQ_DOWN \<Longrightarrow> run_action now ftt i a True st = st'"
    using m by (auto simp: frequency_notch simp del: run_action.simps)
  ultimately show ?thesis using assms(2) unfolding stepping_def by blast
qed

lemmas buttons = mox_cb_def tune_cb_def band_cb_def lock_b_cb_def split_b_cb_def ctun_b_cb_def rit_b_cb_def xit_b_cb_def
  mute_b_cb_def squelch_toggle_cb_def agc_cb_def nb_cb_def nr_cb_def anf_b_cb_def snb_b_cb_def mode_cb_def filter_cb_def
  a2b_cb_def b2a_cb_def aswapb_cb_def

text \<open>Three shortcuts are written in another way than their controls: the button of RIT asks for
the frequency once more, the shortcut of the noise blankers steps through what the menu sets, and
the menu of the AGC sends the noise settings too.\<close>

lemma rit_key_and_button:
  fixes now ftt :: int and p :: bool
  assumes "slot st i = Some rx"
  defines "k \<equiv> run_action now ftt i KB_RIT p st" and "c \<equiv> rit_b_cb i (\<not> rx_rit_enabled rx) st"
  shows "settings k = settings c \<and> orders k = orders c"
proof -
  let ?t = "upd (\<lambda>rx. rx\<lparr>rx_rit_enabled := \<not> rx_rit_enabled rx\<rparr>) (tuner_of i rx st)"
  have e: "?t = upd (\<lambda>r. r\<lparr>rx_rit_enabled := \<not> rx_rit_enabled rx\<rparr>) (tuner_of i rx st)" by (simp add: upd_def)
  have c: "c = put_tuner (update_frequency (frequency_changed ?t)) st"
    unfolding e c_def using assms(1) by (simp add: rit_b_cb_def on_rx_def)
  have k: "k = tci_notify_state i (update_vfo i (put_tuner (frequency_changed ?t) st))"
    using assms(1) by (simp add: k_def on_rx_def)
  have "orders (put_tuner (update_frequency t) st) = orders (put_tuner t st)" for t
    by (simp add: orders_def put_tuner_def on_radio_def on_keying_def update_frequency_def receiver_sync_vfo_b_lo_def out_def
        upd_def Let_def)
  thus ?thesis unfolding c k by (simp add: settings_put_tuner[OF update_frequency_again])
qed

lemma nb_key_and_menu:
  "run_action now ftt i KB_NB p st =
   update_vfo i (nb_cb i (if pn_nb (st_panel st i) then 2 else if pn_nb2 (st_panel st i) then 0 else 1) st)"
proof -
  let ?v = "if pn_nb (st_panel st i) then 2 else if pn_nb2 (st_panel st i) then 0 else 1 :: int"
  have "on_panel i next_blanker st = on_panel i (\<lambda>p. if ?v = 0 then p\<lparr>pn_nb := False, pn_nb2 := False\<rparr>
        else if ?v = 1 then p\<lparr>pn_nb := True, pn_nb2 := False\<rparr>
        else if ?v = 2 then p\<lparr>pn_nb := False, pn_nb2 := True\<rparr> else p) st"
    by (rule on_panel_cong) (simp add: next_blanker_def)
  thus ?thesis by (auto simp: nb_cb_def)
qed

lemma agc_key_and_menu:
  fixes now ftt :: int and p :: bool
  assumes "slot st i = Some rx"
  defines "k \<equiv> run_action now ftt i KB_AGC p st"
    and "c \<equiv> agc_cb i (if rx_agc rx \<ge> AGC_FAST then AGC_OFF else rx_agc rx + 1) st"
  shows "settings k = settings c \<and> orders (update_noise i k) = orders c"
proof -
  let ?x = "set_agc i (on_rx i (upd (\<lambda>rx. choose_agc (if rx_agc rx \<ge> AGC_FAST then AGC_OFF else rx_agc rx + 1) rx)) st)"
  have "on_rx i (upd (choose_agc (if rx_agc rx \<ge> AGC_FAST then AGC_OFF else rx_agc rx + 1))) st =
      on_rx i (upd (\<lambda>rx. choose_agc (if rx_agc rx \<ge> AGC_FAST then AGC_OFF else rx_agc rx + 1) rx)) st"
    using assms(1) by (simp add: on_rx_def upd_def)
  hence c: "c = update_noise i ?x" by (simp add: c_def agc_cb_def)
  have k: "k = update_vfo i ?x" by (simp add: k_def kb_agc_def)
  show ?thesis unfolding c k using orders_update_noise_vfo by simp
qed

lemma shortcut_presses_its_button:
  assumes "slot st i = Some rx" "a \<notin> stepping" "a \<notin> {KB_RIT, KB_NB, KB_AGC}" "a = KB_XIT \<longrightarrow> owns_transmitter i st"
    and "matching_control now ftt i a st = Some st'"
  shows "settings (run_action now ftt i a True st) = settings st' \<and> orders (run_action now ftt i a True st) = orders st'"
proof -
  have r: "rx_of st i = rx" using assms(1) by (simp add: rx_of_def)
  show ?thesis
  proof (cases "a = KB_XIT")
    case True
    hence "run_action now ftt i a True st = tci_notify_state i (update_vfo i st')"
      using assms(4,5) by (auto simp: buttons owns_transmitter_def on_transmitter_def on_radio_def on_keying_def)
    thus ?thesis by simp
  next
    case False
    thus ?thesis using assms(2,3,5) assms(1) r
      by (cases a) (auto simp: stepping_def buttons on_keying_def on_rx_def upd_def kb_squelch_toggle_def
          on_panel_def Let_def split: if_splits)
  qed
qed

text \<open>C39: A shortcut does to the radio exactly what its control in the main window does. For MOX,
Tune, the bands, the modes and sidebands, the filters, lock, copying and swapping the VFOs, split,
CTUN, RIT, XIT, mute, the squelch cut-out, AGC, the noise blankers, noise reduction, the notch and
the spectral blanker, zoom, and the levels (volume, AGC gain, squelch) and the frequency by a notch
of the wheel: pressed for the active receiver, it leaves the settings, the receivers, the
transmitter and the keying as the button, or the entry of the menu it goes to, would leave them, and
tells the radio and the DSP the same in the same order; only the AGC menu sends the noise settings
once more. The repainting of the display and the notice to the TCI clients are not compared. XIT is
compared where the transmitter belongs to the active receiver; where it belongs to another, only the
shortcut switches it. A zoom is compared where the menu has it, a step of a level while it stays in
its range, a step of the frequency where there is a cursor and the wheel is not reversed (without a
cursor the shortcut tunes the other way). Not compared are pan, PTT and clearing RIT and XIT.\<close>

theorem shortcut_does_what_its_control_does:
  assumes "active_rx st = Some i" "a = KB_XIT \<longrightarrow> owns_transmitter i st"
    and "matching_control now ftt i a st = Some st'"
  shows "settings (keybind_run now ftt a True st) = settings st' \<and>
    orders (if a = KB_AGC then update_noise i (keybind_run now ftt a True st) else keybind_run now ftt a True st) = orders st'"
proof -
  obtain rx where rx: "slot st i = Some rx" using active_rxD[OF assms(1)] by blast
  have r: "rx_of st i = rx" using rx by (simp add: rx_of_def)
  have run: "keybind_run now ftt b True st = run_action now ftt i b True st" for b using assms(1) by (simp add: keybind_run_def)
  consider "a \<in> stepping" | "a = KB_RIT" | "a = KB_NB" | "a = KB_AGC" | "a \<notin> stepping \<and> a \<notin> {KB_RIT, KB_NB, KB_AGC}"
    by blast
  thus ?thesis
  proof cases
    case 1
    hence "a \<noteq> KB_AGC" by (auto simp: stepping_def)
    thus ?thesis using shortcut_steps_like_the_wheel[OF rx 1 assms(3)] by (auto simp: run)
  next
    case 2
    thus ?thesis using assms(3) rit_key_and_button[OF rx] r by (simp add: run)
  next
    case 3
    hence "keybind_run now ftt a True st = update_vfo i st'" using assms(3) nb_key_and_menu[of now ftt i True st] by (simp add: run)
    thus ?thesis using 3 by simp
  next
    case 4
    thus ?thesis using assms(3) agc_key_and_menu[OF rx] r by (auto simp: run split: if_splits)
  next
    case 5
    hence "a \<noteq> KB_AGC" by simp
    thus ?thesis using shortcut_presses_its_button[OF rx _ _ assms(2,3)] 5 by (simp add: run)
  qed
qed

text \<open>Where the transmitter belongs to another receiver the shortcut switches XIT and the
button does not.\<close>

theorem xit_key_and_button_differ:
  assumes "active_rx st = Some i" "st_can_transmit st" "\<not> owns_transmitter i st"
  shows "tx_xit_enabled (r_transmitter (st_radio (keybind_run now ftt KB_XIT True st)))
           = (\<not> tx_xit_enabled (r_transmitter (st_radio st)))"
    and "xit_b_cb i on st = st"
proof -
  have s: "st_cw x = st_cw y" if "settings x = settings y" for x y
    using arg_cong[OF that, of st_cw] by (simp add: settings_def)
  have "settings (keybind_run now ftt KB_XIT True st) = settings (on_transmitter (\<lambda>tx. tx\<lparr>tx_xit_enabled := \<not> tx_xit_enabled tx\<rparr>) st)"
    using assms by (simp add: keybind_run_def)
  from s[OF this] show "tx_xit_enabled (r_transmitter (st_radio (keybind_run now ftt KB_XIT True st)))
           = (\<not> tx_xit_enabled (r_transmitter (st_radio st)))"
    by (simp add: on_transmitter_def on_radio_def on_keying_def)
qed (simp add: xit_b_cb_def assms)

section \<open>Gains and zoom stay in range\<close>

text \<open>The spectrum never has more pixels than the DSP's buffers.\<close>

definition panel_ok :: "panel \<Rightarrow> bool" where
  "panel_ok p \<longleftrightarrow> 0 \<le> pn_volume p \<and> pn_volume p \<le> 1 \<and> - 20 \<le> pn_agc_gain p \<and> pn_agc_gain p \<le> 120 \<and>
     1 \<le> pn_zoom p \<and> pn_pixels p = pn_panadapter_width p * pn_zoom p \<and> pn_pixels p \<le> WDSP_MAX_PIXELS"

lemma limit_to_bounds: "lo \<le> hi \<Longrightarrow> lo \<le> limit_to lo hi x \<and> limit_to lo hi x \<le> hi"
  by (simp add: limit_to_def Let_def)

lemma panel_put [simp]:
  "st_panel (put_tuner t st) = st_panel st" "st_panel (on_keying f st) = st_panel st" "st_panel (on_radio g st) = st_panel st"
  "st_panel (on_transmitter h st) = st_panel st" "st_panel (dsp i e st) = st_panel st"
  by (simp_all add: put_tuner_def on_radio_def on_keying_def on_transmitter_def dsp_def)

lemma panel_on_rx [simp]: "st_panel (on_rx i f st) = st_panel st"
  by (simp add: on_rx_def split: option.split)

lemma panel_pushes [simp]:
  "st_panel (update_vfo i st) = st_panel st" "st_panel (update_noise i st) = st_panel st"
  "st_panel (receiver_set_volume i st) = st_panel st" "st_panel (receiver_set_agc_gain i st) = st_panel st"
  "st_panel (set_agc i st) = st_panel st" "st_panel (st_set_squelch i st) = st_panel st"
  "st_panel (tci_notify_state i st) = st_panel st"
  by (simp_all add: update_vfo_def update_noise_def receiver_set_volume_def receiver_set_agc_gain_def set_agc_def
      st_set_squelch_def tci_notify_state_def Let_def)

lemma panel_on_panel [simp]: "st_panel (on_panel i f st) = (st_panel st)(i := f (st_panel st i))"
  by (simp add: on_panel_def)

lemma max_zoom_pixels:
  assumes "1 \<le> z" "0 < pn_panadapter_width p" "z \<le> receiver_max_zoom p" "pn_panadapter_width p \<le> WDSP_MAX_PIXELS"
  shows "pn_panadapter_width p * z \<le> WDSP_MAX_PIXELS"
proof -
  let ?w = "pn_panadapter_width p" and ?q = "WDSP_MAX_PIXELS div pn_panadapter_width p"
  have q: "WDSP_MAX_PIXELS sdiv ?w = ?q" using assms(2) by (simp add: signed_divide_int_def WDSP_MAX_PIXELS_def)
  have "1 \<le> ?q" using assms(2,4) by (simp add: pos_imp_zdiv_pos_iff int_one_le_iff_zero_less)
  hence "z \<le> ?q" using assms(2,3) q by (simp add: receiver_max_zoom_def)
  hence "?w * z \<le> ?w * ?q" using assms(2) by simp
  also have "\<dots> \<le> WDSP_MAX_PIXELS"
    using mult_div_mod_eq[of ?w WDSP_MAX_PIXELS] pos_mod_sign[OF assms(2), of WDSP_MAX_PIXELS] by linarith
  finally show ?thesis .
qed

lemma change_zoom_ok:
  assumes "panel_ok (st_panel st i)"
  shows "panel_ok (st_panel (receiver_change_zoom i zoom st) i)"
proof -
  let ?p = "st_panel st i"
  let ?z0 = "if pn_panadapter_width ?p > 0 \<and> zoom > receiver_max_zoom ?p then receiver_max_zoom ?p else zoom"
  let ?z = "if ?z0 < 1 then 1 else ?z0"
  have m: "1 \<le> receiver_max_zoom ?p" by (simp add: receiver_max_zoom_def Let_def)
  have ok: "1 \<le> pn_zoom ?p" "pn_pixels ?p = pn_panadapter_width ?p * pn_zoom ?p" "pn_pixels ?p \<le> WDSP_MAX_PIXELS"
    using assms by (simp_all add: panel_ok_def)
  have "pn_panadapter_width ?p * ?z \<le> WDSP_MAX_PIXELS"
  proof (cases "0 < pn_panadapter_width ?p")
    case True
    have "pn_panadapter_width ?p * 1 \<le> pn_panadapter_width ?p * pn_zoom ?p" using True ok(1) by (intro mult_left_mono) auto
    hence "pn_panadapter_width ?p \<le> WDSP_MAX_PIXELS" using ok by simp
    thus ?thesis using True m by (intro max_zoom_pixels) auto
  next
    case False
    hence "pn_panadapter_width ?p * ?z \<le> 0" by (intro mult_nonpos_nonneg) auto
    thus ?thesis by (simp add: WDSP_MAX_PIXELS_def)
  qed
  thus ?thesis using assms by (simp add: receiver_change_zoom_def Let_def panel_ok_def)
qed

text \<open>No shortcut takes the volume, the AGC gain or the zoom of a receiver out of its
range, or gives the spectrum more pixels than the DSP has room for.\<close>

theorem shortcuts_stay_in_range:
  assumes "\<And>j. panel_ok (st_panel st j)"
  shows "panel_ok (st_panel (keybind_run now ftt a pressed st) j)"
proof (cases "active_rx st")
  case (Some i)
  have z: "panel_ok (st_panel (kb_zoom i zoom st) j)" for zoom
    using change_zoom_ok[of st i] assms by (cases "j = i") (auto simp: kb_zoom_def Let_def receiver_change_zoom_def)
  have gains: "panel_ok (p\<lparr>pn_volume := limit_to 0 1 x\<rparr>)" "panel_ok (p\<lparr>pn_agc_gain := limit_to (- 20) 120 x\<rparr>)"
    if "panel_ok p" for p x
    using that limit_to_bounds[of 0 1 x] limit_to_bounds[of "- 20" 120 x] by (simp_all add: panel_ok_def)
  have flags: "panel_ok (p\<lparr>pn_mute := a\<rparr>)" "panel_ok (p\<lparr>pn_anf := a\<rparr>)" "panel_ok (p\<lparr>pn_snb := a\<rparr>)"
    "panel_ok (p\<lparr>pn_squelch_off := a\<rparr>)" "panel_ok (next_blanker p)"
    "panel_ok (p\<lparr>pn_nr := a, pn_nr2 := b, pn_nr3 := c, pn_nr4 := d\<rparr>)" if "panel_ok p" for p a b c d
    using that by (auto simp: panel_ok_def next_blanker_def)
  show ?thesis
    using assms z Some
    by (cases a) (auto simp: keybind_run_def Let_def kb_pan_def kb_volume_def kb_agc_gain_def kb_squelch_def
        kb_squelch_toggle_def kb_agc_def receiver_set_nr_mode_def gains flags)
qed (simp add: keybind_run_def assms)

section \<open>Which way the dial goes\<close>

lemma moved_dial:
  assumes "\<not> rx_locked rx" "0 \<le> rx_sample_rate rx"
    and "nf = (if rx_ctun rx \<or> rx_freetune rx then dial rx + hz else dial rx - hz)" "0 \<le> nf" "nf \<le> fmax"
  shows "dial (fst (move_a fmax hz rnd rx)) = round_step rnd rx nf"
  using assms round_step_cong[of "freetune_follow (rx\<lparr>rx_ctun_frequency := rx_ctun_frequency rx + hz\<rparr>)" rx]
    round_step_cong[of "rx\<lparr>rx_ctun_frequency := rx_ctun_frequency rx + hz\<rparr>" rx]
  by (auto simp: move_a_def Let_def dial_def out_of_range_def freetune_follow_cursor split: if_splits)

lemma move_keeps_place:
  "t_index (receiver_move hz rnd t) = t_index t" "r_receiver (t_radio (receiver_move hz rnd t)) = r_receiver (t_radio t)"
  by (simp_all add: receiver_move_def receiver_move_a_def Let_def case_prod_beta)

lemma hover_update_vfo [simp]: "st_hover (update_vfo i st) = st_hover st"
  using arg_cong[OF settings_update_vfo[of i st], of st_hover] by (simp add: settings_def)

lemma dial_on_rx:
  assumes "slot st i = Some rx" "\<not> rx_locked rx" "rx_lo_a rx = 0" "0 \<le> rx_sample_rate rx"
    and "nf = (if rx_ctun rx \<or> rx_freetune rx then dial rx + hz else dial rx - hz)" "0 \<le> nf"
    and "nf \<le> receiver_max_frequency (st_radio st) rx"
  shows "dial (rx_of (on_rx i (receiver_move hz rnd) st) i) = round_step rnd rx nf"
proof -
  let ?t = "tuner_of i rx st"
  have "rx_of (on_rx i (receiver_move hz rnd) st) i = t_rx (receiver_move hz rnd ?t)"
    by (rule rx_of_on_rx[OF assms(1)]) (simp_all add: move_keeps_place)
  moreover have "dial (t_rx (receiver_move hz rnd ?t)) = dial (after_move hz rnd ?t)"
    using receiver_move_same_a[of ?t hz rnd] same_a_dial assms(2,3) by simp
  ultimately show ?thesis using moved_dial[OF assms(2,4,5,6,7)] by (simp add: after_move_def)
qed

text \<open>A notch of the wheel up over the spectrum raises the dial by one step and a notch
down lowers it, cursor or no cursor, and the other way round where the operator has reversed
the wheel.\<close>

theorem wheel_tunes_the_way_it_turns:
  assumes "slot st i = Some rx" "\<not> rx_locked rx" "rx_lo_a rx = 0" "0 \<le> rx_sample_rate rx" "n \<noteq> 0"
    and "nf = dial rx + rx_step rx * (if st_pan_scroll_reversed st then n else - n)"
    and "0 \<le> nf" "nf \<le> receiver_max_frequency (st_radio st) rx"
  shows "dial (rx_of (wheel_tunes i n st) i) = round_step True rx nf"
proof -
  have r: "rx_of st i = rx" using assms(1) by (simp add: rx_of_def)
  let ?hz = "if rx_ctun rx \<or> rx_freetune rx then nf - dial rx else dial rx - nf"
  have "wheel_tunes i n st = on_rx i (receiver_move ?hz True) st"
    using assms(2,5,6) by (auto simp: wheel_tunes_def Let_def r)
  thus ?thesis using dial_on_rx[OF assms(1-4) _ assms(7,8), of ?hz True] by simp
qed

text \<open>The shortcut "tune up one step" goes up where there is a cursor and down where there is
none.\<close>

theorem tune_up_key_goes_down:
  assumes "active_rx st = Some i" "slot st i = Some rx" "\<not> rx_locked rx" "rx_lo_a rx = 0" "0 \<le> rx_sample_rate rx"
    and "\<not> rx_ctun rx" "\<not> rx_freetune rx"
    and "0 \<le> dial rx - rx_step rx" "dial rx - rx_step rx \<le> receiver_max_frequency (st_radio st) rx"
  shows "dial (rx_of (keybind_run now ftt KB_FREQ_UP True st) i) = round_step True rx (dial rx - rx_step rx)"
proof -
  have "rx_of st i = rx" using assms(2) by (simp add: rx_of_def)
  thus ?thesis using assms(1,3) dial_on_rx[OF assms(2-5) _ assms(8,9), of "rx_step rx" True] assms(6,7)
    by (simp add: keybind_run_def)
qed

text \<open>So does the wheel over a digit of VFO A: a notch up tunes down, with and without a
cursor.\<close>

theorem digit_wheel_is_reversed:
  assumes "slot st i = Some rx" "\<not> rx_locked rx" "rx_lo_a rx = 0" "0 \<le> rx_sample_rate rx"
    and "\<not> st_vfo_scroll_reversed st" "0 \<le> digit" "digit < 13" "n < 0"
    and "nf = dial rx + n * ll_step ! nat digit" "0 \<le> nf" "nf \<le> receiver_max_frequency (st_radio st) rx"
  shows "dial (rx_of (frequency_a_scroll_event_cb i digit n st) i) = nf"
proof -
  have r: "rx_of st i = rx" using assms(1) by (simp add: rx_of_def)
  let ?hz = "if rx_ctun rx \<or> rx_freetune rx then nf - dial rx else dial rx - nf"
  have "frequency_a_scroll_event_cb i digit n st = update_vfo i (on_rx i (receiver_move ?hz False) st)"
    using assms(2,5-9) by (auto simp: frequency_a_scroll_event_cb_def Let_def r mult.commute)
  thus ?thesis using dial_on_rx[OF assms(1-4) _ assms(10,11), of ?hz False] by (simp add: rx_of_update_vfo round_step_def)
qed

section \<open>Typing over a digit\<close>

lemma digit_replaced:
  fixes f :: int
  assumes "0 < p"
  shows "((f + (n - (f div p) mod 10) * p) div p) mod 10 = n mod 10"
    and "(f + (n - (f div p) mod 10) * p) mod p = f mod p"
    and "0 \<le> n \<Longrightarrow> n < 10 \<Longrightarrow> (f + (n - (f div p) mod 10) * p) div (p * 10) = f div (p * 10)"
proof -
  let ?q = "f div p"
  have d: "(f + (n - ?q mod 10) * p) div p = ?q + (n - ?q mod 10)" using assms by simp
  have e: "?q + (n - ?q mod 10) = n + 10 * (?q div 10)" using mult_div_mod_eq[of 10 ?q] by linarith
  show "((f + (n - ?q mod 10) * p) div p) mod 10 = n mod 10" unfolding d e by simp
  show "(f + (n - ?q mod 10) * p) mod p = f mod p" by simp
  assume n: "0 \<le> n" "n < 10"
  have "(f + (n - ?q mod 10) * p) div (p * 10) = (n + 10 * (?q div 10)) div 10"
    using d e assms by (simp add: zdiv_zmult2_eq)
  also have "\<dots> = f div (p * 10)" using n assms by (simp add: zdiv_zmult2_eq)
  finally show "(f + (n - ?q mod 10) * p) div (p * 10) = f div (p * 10)" .
qed

lemma ll_step_pos: "ll_step ! nat digit \<noteq> 0 \<Longrightarrow> 0 \<le> digit \<Longrightarrow> digit < 13 \<Longrightarrow> 0 < ll_step ! nat digit"
proof -
  assume a: "ll_step ! nat digit \<noteq> 0" "0 \<le> digit" "digit < 13"
  have "list_all (\<lambda>x. 0 \<le> x) ll_step" by (simp add: ll_step_def)
  hence "0 \<le> ll_step ! nat digit" using a by (simp add: list_all_length ll_step_def)
  thus ?thesis using a(1) by simp
qed

lemma key_digit_range: "key_digit keyval = Some n \<Longrightarrow> 0 \<le> n \<and> n < 10"
proof -
  assume k: "key_digit keyval = Some n"
  have "uint (keyval - b) < 10" if "b \<le> keyval" "keyval \<le> b + 9" "b = 0x30 \<or> b = 0xFFB0" for b :: guint
  proof -
    have u: "uint b \<le> uint keyval" "uint keyval \<le> uint b + 9"
      using that by (auto simp: word_le_def)
    hence "uint (keyval - b) = uint keyval - uint b" using that(1) by (simp add: uint_sub_if')
    thus ?thesis using u by simp
  qed
  note r = this[of "0x30"] this[of "0xFFB0"]
  show ?thesis using k r
    by (auto simp: key_digit_def GDK_KEY_0_def GDK_KEY_9_def GDK_KEY_KP_0_def GDK_KEY_KP_9_def split: if_splits)
qed

text \<open>A digit typed over a digit of VFO A replaces that digit of the dial and no other,
and the next one typed goes to the right of it.\<close>

theorem typed_digit_replaces_a_digit:
  assumes "key_digit keyval = Some n" "st_hover st = Some (i, digit, False)" "0 \<le> digit" "digit < 13"
    and "p = ll_step ! nat digit" "p \<noteq> 0"
    and "slot st i = Some rx" "\<not> rx_locked rx" "rx_lo_a rx = 0" "0 \<le> rx_sample_rate rx"
    and "f = dial rx" "0 \<le> f" "f + 9 * p \<le> receiver_max_frequency (st_radio st) rx"
    and "vfo_type_digit keyval st = (handled, st')" "f' = dial (rx_of st' i)"
  shows "handled \<and> f' div p mod 10 = n \<and> f' mod p = f mod p \<and> f' div (p * 10) = f div (p * 10) \<and>
    st_hover st' = Some (i, next_digit digit, False)"
proof -
  have p: "0 < p" using ll_step_pos[of digit] assms(3-6) by simp
  have n: "0 \<le> n" "n < 10" using key_digit_range[OF assms(1)] by auto
  have r: "rx_of st i = rx" using assms(7) by (simp add: rx_of_def)
  let ?nf = "f + (n - (f div p) mod 10) * p"
  let ?hz = "if rx_ctun rx \<or> rx_freetune rx then ?nf - f else f - ?nf"
  have sm: "(f sdiv p) smod 10 = (f div p) mod 10"
    using pos_imp_zdiv_nonneg_iff[OF p, of f] assms(12) p by (auto simp: sdiv_nonneg signed_modulo_int_def sgn_if)
  have t: "type_at False p n (tuner_of i rx st) = receiver_move ?hz False (tuner_of i rx st)"
    using sm assms(11) by (auto simp: type_at_def shown_def Let_def dial_def)
  have "0 \<le> f div p" using assms(12) p by (simp add: pos_imp_zdiv_nonneg_iff)
  hence "(f div p) mod 10 \<le> f div p" by (simp add: zmod_le_nonneg_dividend)
  hence "(f div p) mod 10 * p \<le> f div p * p" using p by (intro mult_right_mono) auto
  also have "\<dots> \<le> f" using pos_mod_sign[OF p, of f] div_mult_mod_eq[of f p] by linarith
  finally have lo: "0 \<le> ?nf" using mult_nonneg_nonneg[OF n(1) less_imp_le[OF p]] unfolding left_diff_distrib by linarith
  have "(n - (f div p) mod 10) * p \<le> 9 * p" using n(2) p by (intro mult_right_mono) auto
  hence hi: "?nf \<le> receiver_max_frequency (st_radio st) rx" using assms(13) by linarith
  let ?st = "(on_rx i (type_at False p n) st)\<lparr>st_hover := Some (i, next_digit digit, False)\<rparr>"
  have v: "vfo_type_digit keyval st = (True, update_vfo i ?st)"
    using assms(1-6,8) r by (simp add: vfo_type_digit_def)
  have "rx_of (update_vfo i ?st) i = rx_of (on_rx i (type_at False p n) st) i"
    by (simp add: rx_of_update_vfo) (simp add: rx_of_def slot_def)
  moreover have "on_rx i (type_at False p n) st = on_rx i (receiver_move ?hz False) st"
    using assms(7) t by (simp add: on_rx_def)
  ultimately have "f' = ?nf"
    using dial_on_rx[OF assms(7-10) _ lo hi, of ?hz False] assms(11,14,15) v by (auto simp: round_step_def)
  moreover have "st_hover st' = Some (i, next_digit digit, False)" using assms(14) v by auto
  ultimately show ?thesis using digit_replaced(1,2)[OF p, of f n] digit_replaced(3)[OF p n, of f] n assms(14) v by simp
qed

section \<open>An example, and a wheel that leaves the range\<close>

definition panel0 :: panel where
  "panel0 = \<lparr>pn_zoom = 2, pn_pixels = 2048, pn_panadapter_width = 1024, pn_volume = 1 / 200, pn_mute = False,
     pn_agc_gain = 80, pn_squelch_off = False, pn_nb = False, pn_nb2 = False, pn_nr = False, pn_nr2 = False,
     pn_nr3 = False, pn_nr4 = False, pn_anf = False, pn_snb = False, pn_rit_step = 10,
     pn_decoding = False\<rparr>"

definition console0 :: console where
  "console0 =
     \<lparr>st_cw = cw_tx0\<lparr>c_keying := keying0\<lparr>k_radio := bands_radio\<rparr>\<rparr>, st_keyer = keyer0, st_active = Some 0,
      st_filters = filters0, st_hidden = (\<lambda>_. None), st_startup_done = True, st_out = [],
      st_panel = (\<lambda>_. panel0), st_dsp = [], st_bindings = bound0, st_hover = Some (0, 8, False),
      st_vfo_scroll_reversed = False, st_pan_scroll_reversed = False, st_quit = False, st_fault = False\<rparr>"

lemma console0_simps:
  "st_radio console0 = bands_radio" "slot console0 0 = Some receiver0" "rx_of console0 0 = receiver0"
  "active_rx console0 = Some 0" "st_panel console0 = (\<lambda>_. panel0)" "st_can_transmit console0"
  "\<not> st_pan_scroll_reversed console0" "st_hover console0 = Some (0, 8, False)" "st_bindings console0 = bound0"
  by (simp_all add: console0_def slot_def active_rx_def rx_of_def bands_radio_def radio0_def cw_tx0_def)

lemma console0_max [simp]: "receiver_max_frequency bands_radio receiver0 = 61440000"
  using tuner0_max[of receiver0] by (simp add: tuner0_def receiver0_def)

lemma receiver0_simps: "\<not> rx_locked receiver0" "rx_lo_a receiver0 = 0" "0 \<le> rx_sample_rate receiver0"
  "dial receiver0 = 14100000" "rx_step receiver0 = 100" "\<not> rx_ctun receiver0" "\<not> rx_freetune receiver0"
  by (simp_all add: receiver0_def dial_def)

theorem shortcut_does_what_its_control_does_witness:
  "settings (keybind_run 0 0 KB_RIT True console0) = settings (rit_b_cb 0 True console0) \<and>
   orders (keybind_run 0 0 KB_RIT True console0) = orders (rit_b_cb 0 True console0)"
  using shortcut_does_what_its_control_does[of console0 0 KB_RIT 0 0 "rit_b_cb 0 True console0"]
  by (simp add: console0_simps receiver0_def)

theorem shortcuts_stay_in_range_witness:
  "panel_ok (st_panel (keybind_run 0 0 KB_VOLUME_DOWN True console0) 0)"
  by (rule shortcuts_stay_in_range) (simp add: console0_simps panel_ok_def panel0_def WDSP_MAX_PIXELS_def)

theorem wheel_tunes_the_way_it_turns_witness:
  "dial (rx_of (wheel_tunes 0 (- 1) console0) 0) = 14100100"
  using wheel_tunes_the_way_it_turns[OF console0_simps(2) receiver0_simps(1-3), of "- 1" 14100100]
  by (simp add: console0_simps receiver0_simps round_step_def signed_divide_int_def)

theorem typed_digit_replaces_a_digit_witness:
  "dial (rx_of (snd (vfo_type_digit 0x37 console0)) 0) div 1000 mod 10 = 7"
proof -
  have k: "key_digit 0x37 = Some 7"
    by (simp add: key_digit_def GDK_KEY_0_def GDK_KEY_9_def)
  show ?thesis
    using typed_digit_replaces_a_digit[OF k console0_simps(8) _ _ refl _ console0_simps(2) receiver0_simps(1-3) refl _ _
        surjective_pairing refl]
    by (simp add: console0_simps receiver0_simps ll_step_def)
qed

theorem tune_up_key_witness:
  "dial (rx_of (keybind_run 0 0 KB_FREQ_UP True console0) 0) = 14099900"
  using tune_up_key_goes_down[OF console0_simps(4,2) receiver0_simps(1-3,6,7)]
  by (simp add: console0_simps receiver0_simps round_step_def signed_divide_int_def)

text \<open>The volume wheel tests the volume before the notch and not after it.\<close>

theorem wheel_takes_the_volume_below_zero:
  "pn_volume (st_panel (afgain_scale_scroll_event_cb 0 1 console0) 0) = - 1 / 200"
  by (simp add: afgain_scale_scroll_event_cb_def console0_simps panel0_def)

end
