(* ===== verification/Key_Events.thy ===== *)
theory Key_Events
  imports Controls
begin

text \<open>The main window's key handlers, \<open>receiver_key_pressed\<close> and
\<open>receiver_key_released\<close> of \<open>src/core/receiver.c\<close>: typing over a digit of the
VFO, the operator's shortcuts, the space bar and the paddles on the bracket keys.

Both handlers return at once while there is no radio, which is not a state of the model.
Whether the focus is in an editable field is an argument.\<close>

section \<open>The handlers\<close>

record key_env =
  ke_text_field :: bool
  ke_now :: int
  ke_now_s :: real
  ke_now_ms :: int
  ke_full_tune_time :: int

definition GDK_CONTROL_MASK :: guint where "GDK_CONTROL_MASK = 0x4"
definition GDK_ALT_MASK :: guint where "GDK_ALT_MASK = 0x8"
definition GDK_META_MASK :: guint where "GDK_META_MASK = 0x10000000"
definition GDK_KEY_space :: guint where "GDK_KEY_space = 0x20"
definition GDK_KEY_bracketleft :: guint where "GDK_KEY_bracketleft = 0x5B"
definition GDK_KEY_bracketright :: guint where "GDK_KEY_bracketright = 0x5D"
definition GDK_KEY_Q :: guint where "GDK_KEY_Q = 0x51"
definition GDK_KEY_q :: guint where "GDK_KEY_q = 0x71"

definition key_is_q :: "toolkit \<Rightarrow> guint \<Rightarrow> guint \<Rightarrow> bool" where
  "key_is_q tk keyval keycode \<longleftrightarrow>
     keyval = GDK_KEY_q \<or> keyval = GDK_KEY_Q \<or>
     (keycode \<noteq> 0 \<and> (case tk_keymap tk keycode of None \<Rightarrow> False | Some vs \<Rightarrow> GDK_KEY_q \<in> set vs \<or> GDK_KEY_Q \<in> set vs))"

definition run :: "key_env \<Rightarrow> bool \<Rightarrow> kb_action \<Rightarrow> console \<Rightarrow> console" where
  "run e pressed a st = keybind_run (ke_now e) (ke_full_tune_time e) a pressed st"

text \<open>\<open>set_mox\<close> reads the transmitter, which a radio that cannot transmit does not
have: \<open>st_fault\<close> is the null pointer.\<close>

definition space_mox :: "bool \<Rightarrow> console \<Rightarrow> console" where
  "space_mox b st = (if st_can_transmit st then on_keying (set_mox b) st else st\<lparr>st_fault := True\<rparr>)"

definition paddle_key :: "key_env \<Rightarrow> paddle \<Rightarrow> bool \<Rightarrow> console \<Rightarrow> console" where
  "paddle_key e which pressed st =
     (case cw_keyer_paddle which pressed (ke_now_s e) (ke_now_ms e) (st_keyer st, st_cw st) of
        (y, c) \<Rightarrow> st\<lparr>st_keyer := y, st_cw := c\<rparr>)"

definition cw_receiver :: "console \<Rightarrow> bool" where
  "cw_receiver st =
     (case active_rx st of None \<Rightarrow> False
      | Some i \<Rightarrow> rx_mode_a (rx_of st i) = CWL \<or> rx_mode_a (rx_of st i) = CWU)"

definition fixed_key_pressed :: "key_env \<Rightarrow> guint \<Rightarrow> console \<Rightarrow> bool \<times> console" where
  "fixed_key_pressed e keyval st =
     (if keyval = GDK_KEY_space then (True, space_mox True st)
      else if keyval = GDK_KEY_bracketleft \<and> cw_receiver st then (True, paddle_key e CW_PADDLE_DOT True st)
      else if keyval = GDK_KEY_bracketright \<and> cw_receiver st then (True, paddle_key e CW_PADDLE_DASH True st)
      else (False, st))"

definition shortcut_pressed :: "key_env \<Rightarrow> toolkit \<Rightarrow> guint \<Rightarrow> guint \<Rightarrow> guint \<Rightarrow> console \<Rightarrow> bool \<times> console" where
  "shortcut_pressed e tk keyval keycode state st =
     (case keybind_key_pressed tk keyval keycode state (st_bindings st) of
        (bs, Some a) \<Rightarrow> (True, run e True a (st\<lparr>st_bindings := bs\<rparr>))
      | (bs, None) \<Rightarrow> fixed_key_pressed e keyval (st\<lparr>st_bindings := bs\<rparr>))"

definition receiver_key_pressed :: "key_env \<Rightarrow> toolkit \<Rightarrow> guint \<Rightarrow> guint \<Rightarrow> guint \<Rightarrow> console \<Rightarrow> bool \<times> console" where
  "receiver_key_pressed e tk keyval keycode state st =
     (if ke_text_field e then (False, st)
      else if key_is_q tk keyval keycode \<and> state AND (GDK_META_MASK OR GDK_ALT_MASK OR GDK_CONTROL_MASK) \<noteq> 0
      then (True, st\<lparr>st_quit := True\<rparr>)
      else (case vfo_type_digit keyval st of
              (True, st1) \<Rightarrow> (True, st1)
            | (False, st1) \<Rightarrow> shortcut_pressed e tk keyval keycode state st1))"

definition fixed_key_released :: "key_env \<Rightarrow> toolkit \<Rightarrow> guint \<Rightarrow> guint \<Rightarrow> console \<Rightarrow> console" where
  "fixed_key_released e tk keyval keycode st =
     (if keyval = GDK_KEY_space
      then (if \<not> keybind_key_bound tk keyval keycode (st_bindings st) then space_mox False st else st)
      else if keyval = GDK_KEY_bracketleft then paddle_key e CW_PADDLE_DOT False st
      else if keyval = GDK_KEY_bracketright then paddle_key e CW_PADDLE_DASH False st
      else st)"

definition shortcut_released :: "key_env \<Rightarrow> toolkit \<Rightarrow> guint \<Rightarrow> guint \<Rightarrow> console \<Rightarrow> console" where
  "shortcut_released e tk keyval keycode st =
     (case keybind_key_released tk keyval keycode (st_bindings st) of
        (bs, runs) \<Rightarrow> fold (run e False) runs (st\<lparr>st_bindings := bs\<rparr>))"

definition receiver_key_released :: "key_env \<Rightarrow> toolkit \<Rightarrow> guint \<Rightarrow> guint \<Rightarrow> console \<Rightarrow> console" where
  "receiver_key_released e tk keyval keycode st =
     (let st1 = shortcut_released e tk keyval keycode st
      in if ke_text_field e then st1 else fixed_key_released e tk keyval keycode st1)"

section \<open>Hold to talk\<close>

lemma only_ptt_is_held:
  assumes "i < keybind_action_count" "ka_hold (keybind_actions ! i)"
  shows "i = 5"
proof -
  have "list_all (\<lambda>i. i = 5 \<or> \<not> ka_hold (keybind_actions ! i)) [0..<53]" by code_simp
  thus ?thesis using assms by (auto simp: list_all_iff count_value)
qed

lemma shortcut_released_ptt:
  assumes "bindings_ok tk (st_bindings st)" "release_matches tk keyval keycode (st_bindings st ! 5)"
  shows "shortcut_released e tk keyval keycode st =
    run e False KB_PTT (st\<lparr>st_bindings := fst (keybind_key_released tk keyval keycode (st_bindings st))\<rparr>)"
proof -
  let ?P = "\<lambda>i. release_matches tk keyval keycode (st_bindings st ! i)"
  have "?P i \<longleftrightarrow> i = 5" if "i < keybind_action_count" for i
    using assms(2) bindings_okD(2)[OF assms(1) that] only_ptt_is_held[OF that]
    by (auto simp: release_matches_def row_ok_def)
  hence "filter ?P [0..<keybind_action_count] = filter (\<lambda>i. i = 5) [0..<keybind_action_count]"
    by (intro filter_cong) auto
  also have "\<dots> = [5]" unfolding count_value by code_simp
  finally show ?thesis
    using bindings_okD(1)[OF assms(1)]
    by (simp add: shortcut_released_def keybind_key_released_eq kb_rows)
qed

lemma paddle_release_radio [simp]:
  "st_keying (paddle_key e which False st) = st_keying st"
  by (simp add: paddle_key_def cw_keyer_paddle_def Let_def cw_tx_key_def split: prod.split)

text \<open>A fixed key's release never raises MOX, and keeps the channels in step.\<close>

definition off_air :: "console \<Rightarrow> bool" where
  "off_air st \<longleftrightarrow> \<not> r_mox (st_radio st) \<and> own_channel (st_keying st) \<and> in_step (st_keying st)"

lemma fixed_release_off_air:
  assumes "off_air st"
  shows "off_air (fixed_key_released e tk keyval keycode st)"
  using assms set_mox_switches[of "st_keying st" False] wiring_own_channel[of "st_keying st" "set_mox False (st_keying st)"]
  by (auto simp: fixed_key_released_def space_mox_def on_keying_def set_mox_mox off_air_def switches_def)

lemma run_ptt:
  assumes "st_can_transmit st" "active_rx st = Some i"
  shows "run e p KB_PTT st = on_keying (set_mox p) st"
  using assms by (simp add: run_def keybind_run_def)

lemma slot_set_mox [simp]: "slot (on_keying (set_mox b) st) j = slot st j"
  using set_mox_switches[of "st_keying st" b] by (simp add: slot_def on_keying_def switches_def same_wiring_def)

lemma slot_bindings [simp]: "slot (st\<lparr>st_bindings := bs\<rparr>) j = slot st j"
  by (simp add: slot_def)

lemma active_set_mox [simp]: "active_rx (on_keying (set_mox b) st) = active_rx st"
proof -
  have "st_active (on_keying (set_mox b) st) = st_active st" by (simp add: on_keying_def)
  thus ?thesis by (simp add: active_rx_def split: option.split)
qed

lemma active_bindings [simp]: "active_rx (st\<lparr>st_bindings := bs\<rparr>) = active_rx st"
  by (simp add: active_rx_def split: option.split)


text \<open>The space bar keys a radio that has no transmitter.\<close>

theorem space_bar_without_a_transmitter:
  assumes "\<not> st_can_transmit st" "\<not> ke_text_field e" "\<not> key_is_q tk GDK_KEY_space keycode"
    and "snd (keybind_key_pressed tk GDK_KEY_space keycode state (st_bindings st)) = None"
  shows "st_fault (snd (receiver_key_pressed e tk GDK_KEY_space keycode state st))"
proof -
  have "key_digit GDK_KEY_space = None"
    by (simp add: key_digit_def GDK_KEY_space_def GDK_KEY_0_def GDK_KEY_9_def GDK_KEY_KP_0_def GDK_KEY_KP_9_def)
  moreover obtain bs where "keybind_key_pressed tk GDK_KEY_space keycode state (st_bindings st) = (bs, None)"
    using assms(4) by (metis prod.collapse)
  ultimately show ?thesis
    using assms(1-3) by (simp add: receiver_key_pressed_def vfo_type_digit_def shortcut_pressed_def fixed_key_pressed_def space_mox_def)
qed

definition key_env0 :: key_env where
  "key_env0 = \<lparr>ke_text_field = False, ke_now = 0, ke_now_s = 0, ke_now_ms = 0, ke_full_tune_time = 0\<rparr>"

end
