(* ===== verification/Cat.thy ===== *)
theory Cat
  imports Controls
begin

text \<open>The CAT server of a receiver: an emulated TS-2000 with the extended ZZ commands of
PowerSDR. \<open>src/proto/rigctl.c\<close> cuts the bytes of a client into commands and
\<open>src/proto/rigctl_parse.c\<close> carries them out on the main loop, one after the other.

One definition per \<open>case\<close> of the two outer switches, in the order of the code. What a
command does to the receiver is done by the operations of theories \<open>Vfo\<close>,
\<open>Vfo_Mode\<close>, \<open>Ptt\<close> and \<open>Controls\<close>; what is pushed to the DSP besides is an
event. A command is the string up to and including its semicolon. The program looks for the
semicolon at fixed places, also behind the end of a shorter command; no other semicolon is in
the buffer, so every such test fails, as it does here.

A \<open>gboolean\<close> is a truth value and the split an enumeration, but several commands store
the digit they were sent: \<open>ca_beyond\<close> is set when it is not a value of the type, and
nothing is claimed of what happens after that.\<close>

section \<open>State\<close>

record cat_rx =
  cx_equalizer :: "int list"
  cx_enable_equalizer :: bool
  cx_smeter :: int
  cx_meter_db :: real
  cx_display_average_time :: real

record cat_tx =
  ct_equalizer :: "int list"
  ct_enable_equalizer :: bool
  ct_mic_gain :: real
  ct_compressor_level :: real
  ct_ctcss_enabled :: bool
  ct_ctcss :: int
  ct_puresignal_enabled :: bool
  ct_dac_antenna :: int

datatype cat_event =
    Ca_Rx_eq nat "int list" | Ca_Rx_eq_run nat bool | Ca_Tx_eq "int list" | Ca_Tx_eq_run bool
  | Ca_Mic_gain real | Ca_Ctcss int bool | Ca_Set_ps bool

record cat =
  ca_console :: console
  ca_rx :: "nat \<Rightarrow> cat_rx"
  ca_tx :: cat_tx
  ca_out :: "cat_event list"
  ca_beyond :: bool

record cat_env =
  ce_now :: int
  ce_full_tune_time :: int

text \<open>What a command leads to: the state, the replies sent, and whether it is
implemented.\<close>

type_synonym answer = "cat \<times> string list \<times> bool"

definition reply :: "string \<Rightarrow> cat \<Rightarrow> answer" where "reply s c = (c, [s], True)"
definition ok :: "cat \<Rightarrow> answer" where "ok c = (c, [], True)"
definition refuse :: "cat \<Rightarrow> answer" where "refuse c = (c, [], False)"

abbreviation ca_radio :: "cat \<Rightarrow> radio" where "ca_radio c \<equiv> st_radio (ca_console c)"
abbreviation ca_can_transmit :: "cat \<Rightarrow> bool" where "ca_can_transmit c \<equiv> st_can_transmit (ca_console c)"

definition on_console :: "(console \<Rightarrow> console) \<Rightarrow> cat \<Rightarrow> cat" where
  "on_console f c = c\<lparr>ca_console := f (ca_console c)\<rparr>"

definition tune_rx :: "nat \<Rightarrow> (tuner \<Rightarrow> tuner) \<Rightarrow> cat \<Rightarrow> cat" where
  "tune_rx i f c = on_console (on_rx i f) c"

definition ca_event :: "cat_event \<Rightarrow> cat \<Rightarrow> cat" where
  "ca_event e c = c\<lparr>ca_out := ca_out c @ [e]\<rparr>"

definition on_cx :: "nat \<Rightarrow> (cat_rx \<Rightarrow> cat_rx) \<Rightarrow> cat \<Rightarrow> cat" where
  "on_cx i f c = c\<lparr>ca_rx := (ca_rx c)(i := f (ca_rx c i))\<rparr>"

definition on_ct :: "(cat_tx \<Rightarrow> cat_tx) \<Rightarrow> cat \<Rightarrow> cat" where
  "on_ct f c = c\<lparr>ca_tx := f (ca_tx c)\<rparr>"

definition shown_on :: "nat \<Rightarrow> cat \<Rightarrow> cat" where
  "shown_on i c = on_console (update_vfo i) c"

definition a_flag :: "int \<Rightarrow> cat \<Rightarrow> cat" where
  "a_flag n c = (if n = 0 \<or> n = 1 then c else c\<lparr>ca_beyond := True\<rparr>)"

text \<open>What \<open>radio->transmitter\<close> is needed for: a radio that cannot transmit has none.\<close>

definition keyed :: "(keying \<Rightarrow> keying) \<Rightarrow> cat \<Rightarrow> cat" where
  "keyed f c = on_console (\<lambda>st. if st_can_transmit st then on_keying f st else st\<lparr>st_fault := True\<rparr>) c"

section \<open>Strings\<close>

definition chr_at :: "string \<Rightarrow> nat \<Rightarrow> char" where
  "chr_at cmd k = (if k < length cmd then cmd ! k else CHR 0x00)"

definition ends :: "string \<Rightarrow> nat \<Rightarrow> bool" where "ends cmd k \<longleftrightarrow> chr_at cmd k = CHR '';''"

definition num :: "nat \<Rightarrow> string \<Rightarrow> int" where "num k cmd = atoi (drop k cmd)"

text \<open>\<open>%0wd\<close>, \<open>%+0wd\<close>, \<open>%wd\<close>, \<open>%+wd\<close>, \<open>%ws\<close> and
\<open>%d\<close> of a truth value.\<close>

definition pad_left :: "char \<Rightarrow> nat \<Rightarrow> string \<Rightarrow> string" where
  "pad_left ch w s = replicate (w - length s) ch @ s"

definition fmt_zero :: "nat \<Rightarrow> int \<Rightarrow> string" where
  "fmt_zero w x = (if x < 0 then CHR ''-'' # pad_left CHR ''0'' (w - 1) (digits (nat (- x)))
                   else pad_left CHR ''0'' w (digits (nat x)))"

definition fmt_plus_zero :: "nat \<Rightarrow> int \<Rightarrow> string" where
  "fmt_plus_zero w x = (if x < 0 then CHR ''-'' else CHR ''+'') # pad_left CHR ''0'' (w - 1) (digits (nat \<bar>x\<bar>))"

definition fmt_blank :: "nat \<Rightarrow> int \<Rightarrow> string" where
  "fmt_blank w x = pad_left CHR '' '' w (fmt_d x)"

definition fmt_plus_blank :: "nat \<Rightarrow> int \<Rightarrow> string" where
  "fmt_plus_blank w x = pad_left CHR '' '' w ((if x < 0 then CHR ''-'' else CHR ''+'') # digits (nat \<bar>x\<bar>))"

definition fmt_s :: "nat \<Rightarrow> string \<Rightarrow> string" where "fmt_s w s = pad_left CHR '' '' w s"

definition fmt_flag :: "bool \<Rightarrow> string" where "fmt_flag b = (if b then ''1'' else ''0'')"

section \<open>What the replies are made of\<close>

definition steps :: "int list" where
  "steps = [1, 10, 25, 50, 100, 250, 500, 1000, 5000, 9000, 10000, 12500, 100000, 250000, 500000, 1000000]"

definition step_size :: "receiver \<Rightarrow> int" where
  "step_size rx = (case find (\<lambda>k. steps ! nat k = rx_step rx) [0 .. 14] of Some k \<Rightarrow> k + 1 | None \<Rightarrow> 1)"

text \<open>The step that a two digit index names, if any.\<close>

definition step_named :: "int \<Rightarrow> int" where
  "step_named n = (if 0 < n \<and> n \<le> 14 then steps ! nat (n - 1) else 0)"

definition band2200 :: int where "band2200 = 0"
definition band630 :: int where "band630 = 1"

definition cat_band :: "receiver \<Rightarrow> int" where
  "cat_band rx =
     (let b = rx_band_a rx
      in if b = band2200 then 888 else if b = band630 then 888 else if b = band160 then 160
         else if b = band80 then 80 else if b = band60 then 60 else if b = band40 then 40
         else if b = band30 then 30 else if b = band20 then 20 else if b = band17 then 17
         else if b = band15 then 15 else if b = band12 then 12 else if b = band10 then 10
         else if b = band6 then 6 else if b = bandGen then 888 else if b = bandWWV then 999 else 20)"

definition adc_of_rx :: "receiver \<Rightarrow> cat \<Rightarrow> adc" where
  "adc_of_rx rx c = r_adc (ca_radio c) ! nat (rx_adc rx)"

definition on_adc :: "receiver \<Rightarrow> (adc \<Rightarrow> adc) \<Rightarrow> cat \<Rightarrow> cat" where
  "on_adc rx f c = on_console (on_radio (\<lambda>r. r\<lparr>r_adc := (r_adc r)[nat (rx_adc rx) := f (r_adc r ! nat (rx_adc rx))]\<rparr>)) c"

definition s_meter_level :: "nat \<Rightarrow> receiver \<Rightarrow> cat \<Rightarrow> real" where
  "s_meter_level i rx c =
     (let attenuation = of_int (adc_attenuation (adc_of_rx rx c))
      in cx_meter_db (ca_rx c i)
         + (if d_device (r_discovered (ca_radio c)) = DEVICE_HERMES_LITE2 then - attenuation else attenuation))"

definition ts2000_mode :: "int \<Rightarrow> int" where
  "ts2000_mode m =
     (if m = LSB then 1 else if m = USB then 2 else if m = CWL then 7 else if m = CWU then 3
      else if m = FMN then 4 else if m = AM \<or> m = SAM then 5 else if m = DIGL then 6
      else if m = DIGU then 9 else 1)"

definition split_number :: "split_type \<Rightarrow> int" where
  "split_number s = (case s of SPLIT_OFF \<Rightarrow> 0 | SPLIT_ON \<Rightarrow> 1 | SPLIT_SAT \<Rightarrow> 2 | SPLIT_RSAT \<Rightarrow> 3)"

definition receiver_tuned_frequency :: "receiver \<Rightarrow> int" where
  "receiver_tuned_frequency rx = (if rx_ctun rx \<or> rx_freetune rx then rx_ctun_frequency rx else rx_frequency_a rx)"

section \<open>What several commands do\<close>

definition cat_set_vfo_a :: "nat \<Rightarrow> int \<Rightarrow> cat \<Rightarrow> cat" where
  "cat_set_vfo_a i hz c = (if hz \<le> 0 then c else tune_rx i (vfo_apply_frequency hz False) c)"

definition set_vfo_b :: "nat \<Rightarrow> int \<Rightarrow> cat \<Rightarrow> cat" where
  "set_vfo_b i f c =
     tune_rx i (\<lambda>t. if rx_locked (t_rx t) then t
                    else update_frequency (frequency_changed (upd (\<lambda>rx. rx\<lparr>rx_frequency_b := f\<rparr>) t))) c"

definition set_split_digit :: "int \<Rightarrow> nat \<Rightarrow> cat \<Rightarrow> cat" where
  "set_split_digit n i c =
     (if n < 0 \<or> n > 3 then c\<lparr>ca_beyond := True\<rparr>
      else tune_rx i (upd (\<lambda>rx. rx\<lparr>rx_split := [SPLIT_OFF, SPLIT_ON, SPLIT_SAT, SPLIT_RSAT] ! nat n\<rparr>)) c)"

text \<open>\<open>if(radio->transmitter) transmitter_set_mode(...)\<close>, with the mode of VFO A or B.\<close>

definition tx_set_mode :: "(receiver \<Rightarrow> int) \<Rightarrow> nat \<Rightarrow> cat \<Rightarrow> cat" where
  "tx_set_mode m i c =
     (if ca_can_transmit c then tune_rx i (\<lambda>t. transmitter_set_mode (m (t_rx t)) t) c else c)"

definition set_rit :: "(receiver \<Rightarrow> int) \<Rightarrow> nat \<Rightarrow> cat \<Rightarrow> cat" where
  "set_rit f i c = shown_on i (tune_rx i (upd (\<lambda>rx. rx\<lparr>rx_rit := f rx\<rparr>)) c)"

definition rit_notch :: "receiver \<Rightarrow> int" where
  "rit_notch rx = (if rx_mode_a rx = CWL \<or> rx_mode_a rx = CWU then 10 else 50)"

definition set_rit_enabled :: "int \<Rightarrow> nat \<Rightarrow> cat \<Rightarrow> cat" where
  "set_rit_enabled n i c =
     shown_on i (tune_rx i (\<lambda>t. frequency_changed (upd (\<lambda>rx. rx\<lparr>rx_rit_enabled := (n \<noteq> 0)\<rparr>) t)) (a_flag n c))"

definition set_noise :: "(panel \<Rightarrow> panel) \<Rightarrow> int \<Rightarrow> nat \<Rightarrow> cat \<Rightarrow> cat" where
  "set_noise f n i c = on_console (\<lambda>st. update_noise i (on_panel i f st)) (a_flag n c)"

definition nb_flag :: "int \<Rightarrow> panel \<Rightarrow> panel" where
  "nb_flag n p = (if n \<noteq> 0 then p\<lparr>pn_nb := True, pn_nb2 := False\<rparr> else p\<lparr>pn_nb := False\<rparr>)"

definition nb2_flag :: "int \<Rightarrow> panel \<Rightarrow> panel" where
  "nb2_flag n p = (if n \<noteq> 0 then p\<lparr>pn_nb2 := True, pn_nb := False\<rparr> else p\<lparr>pn_nb2 := False\<rparr>)"

definition nr_flag :: "int \<Rightarrow> panel \<Rightarrow> panel" where
  "nr_flag n p = (if n \<noteq> 0 then p\<lparr>pn_nr := True, pn_nr2 := False, pn_nr3 := False, pn_nr4 := False\<rparr>
                  else p\<lparr>pn_nr := False\<rparr>)"

definition nr2_flag :: "int \<Rightarrow> panel \<Rightarrow> panel" where
  "nr2_flag n p = (if n \<noteq> 0 then p\<lparr>pn_nr2 := True, pn_nr := False, pn_nr3 := False, pn_nr4 := False\<rparr>
                   else p\<lparr>pn_nr2 := False\<rparr>)"

definition set_volume :: "real \<Rightarrow> nat \<Rightarrow> cat \<Rightarrow> cat" where
  "set_volume v i c = on_console (\<lambda>st. receiver_set_volume i (on_panel i (\<lambda>p. p\<lparr>pn_volume := v\<rparr>) st)) c"

definition set_agc_to :: "int \<Rightarrow> nat \<Rightarrow> cat \<Rightarrow> cat" where
  "set_agc_to a i c =
     (let c1 = tune_rx i (upd (\<lambda>rx. rx\<lparr>rx_agc := a\<rparr>)) c
      in shown_on i (if rx_channel (rx_of (ca_console c1) i) \<ge> 0 then on_console (set_agc i) c1 else c1))"

definition AGC_LAST :: int where "AGC_LAST = AGC_FAST"

definition set_mic_gain :: "real \<Rightarrow> cat \<Rightarrow> cat" where
  "set_mic_gain g0 c =
     (let g = (let g1 = (if g0 < - 10 then - 10 else g0) in if g1 > 50 then 50 else g1)
      in ca_event (Ca_Mic_gain g) (on_ct (\<lambda>x. x\<lparr>ct_mic_gain := g\<rparr>) c))"

definition transmitter_set_ctcss :: "bool \<Rightarrow> int \<Rightarrow> cat \<Rightarrow> cat" where
  "transmitter_set_ctcss run k c =
     ca_event (Ca_Ctcss k run) (on_ct (\<lambda>x. x\<lparr>ct_ctcss_enabled := run, ct_ctcss := k\<rparr>) c)"

definition CTCSS_FREQUENCIES :: int where "CTCSS_FREQUENCIES = 38"

text \<open>Selecting the first variable filter, and changing one of its edges.\<close>

definition to_var1 :: "tuner \<Rightarrow> tuner" where
  "to_var1 t = (if rx_filter_a (t_rx t) \<noteq> FVar1 then receiver_filter_changed FVar1 t else t)"

definition put_var1 :: "(filter_entry \<Rightarrow> filter_entry) \<Rightarrow> tuner \<Rightarrow> tuner" where
  "put_var1 g t = t\<lparr>t_filters := filter_put (rx_mode_a (t_rx t)) FVar1 g (t_filters t)\<rparr>"

definition set_var1 :: "(filter_entry \<Rightarrow> filter_entry) \<Rightarrow> nat \<Rightarrow> cat \<Rightarrow> cat" where
  "set_var1 g i c = tune_rx i (\<lambda>t. receiver_filter_changed FVar1 (put_var1 g (to_var1 t))) c"

definition var1_of :: "nat \<Rightarrow> cat \<Rightarrow> filter_entry" where
  "var1_of i c = st_filters (ca_console c) ! nat (rx_mode_a (rx_of (ca_console c) i)) ! nat FVar1"

text \<open>A subscript \<open>filters[m]\<close> of the commands themselves: outside the tables it is the event
\<open>Ev_OutOfTable\<close>. \<open>mode_filters\<close> is \<open>filters[rx->mode_a]\<close> with \<open>FVar1\<close> in it.\<close>

definition filter_subscript :: "int \<Rightarrow> int \<Rightarrow> cat \<Rightarrow> cat" where
  "filter_subscript m f c =
     (if 0 \<le> m \<and> m < MODES \<and> 0 \<le> f \<and> f < FILTERS then c
      else on_console (\<lambda>st. st\<lparr>st_out := st_out st @ [Ev_OutOfTable]\<rparr>) c)"

definition mode_filters :: "nat \<Rightarrow> cat \<Rightarrow> cat" where
  "mode_filters i c = filter_subscript (rx_mode_a (rx_of (ca_console c) i)) FVar1 c"

definition zz_attenuation :: "int \<Rightarrow> int" where
  "zz_attenuation a = (if a = 0 then 1 else if a \<le> - 30 then 4 else if a \<le> - 20 then 0 else if a \<le> - 10 then 2 else 3)"

section \<open>The extended commands\<close>

text \<open>Each definition is a \<open>case\<close> of \<open>parse_extended_cmd\<close>: \<open>k\<close> is the fourth
character, \<open>n\<close> the number behind it. The cases that only refuse are the last
\<open>else\<close>.\<close>

definition zz_A :: "nat \<Rightarrow> string \<Rightarrow> cat \<Rightarrow> answer" where
  "zz_A i cmd c =
     (let k = chr_at cmd 3; rx = rx_of (ca_console c) i; p = st_panel (ca_console c) i; n = num 4 cmd
      in if k = CHR ''C'' then
           (if ends cmd 4 then reply (''ZZAC'' @ fmt_zero 2 (step_size rx) @ '';'') c
            else if ends cmd 6 \<and> step_named n \<noteq> 0
            then ok (shown_on i (tune_rx i (upd (\<lambda>rx. rx\<lparr>rx_step := step_named n\<rparr>)) c))
            else ok c)
         else if k = CHR ''D'' then
           ok (if ends cmd 6 \<and> step_named n \<noteq> 0 then tune_rx i (receiver_move (- step_named n) False) c else c)
         else if k = CHR ''E'' then
           ok (if ends cmd 6 then tune_rx i (receiver_move (rx_step rx * - n) True) c else c)
         else if k = CHR ''F'' then
           ok (if ends cmd 6 then tune_rx i (receiver_move (rx_step rx * n) True) c else c)
         else if k = CHR ''G'' then
           (if ends cmd 4 then reply (''ZZAG'' @ fmt_zero 3 (trunc_real (pn_volume p * 100)) @ '';'') c
            else ok (shown_on i (set_volume (of_int n / 100) i c)))
         else if k = CHR ''R'' then
           (if ends cmd 4 then reply (''ZZAR'' @ fmt_plus_zero 4 (trunc_real (pn_agc_gain p)) @ '';'') c
            else ok (on_console (\<lambda>st. receiver_set_agc_gain i (on_panel i (\<lambda>p. p\<lparr>pn_agc_gain := of_int n\<rparr>) st)) c))
         else if k = CHR ''U'' then
           ok (if ends cmd 6 \<and> step_named n \<noteq> 0 then tune_rx i (receiver_move (step_named n) True) c else c)
         else refuse c)"

definition zz_B :: "nat \<Rightarrow> string \<Rightarrow> cat \<Rightarrow> answer" where
  "zz_B i cmd c =
     (let k = chr_at cmd 3; rx = rx_of (ca_console c) i; n = num 4 cmd
      in if k = CHR ''D'' then
           ok (if ends cmd 4 then tune_rx i (set_band (previous_band (ca_radio c) (rx_band_a rx)) (- 1)) c else c)
         else if k = CHR ''E'' then
           ok (if ends cmd 6 then tune_rx i (receiver_move (rx_step rx * - n) True) c else c)
         else if k = CHR ''F'' then
           ok (if ends cmd 6 then tune_rx i (receiver_move (rx_step rx * n) True) c else c)
         else if k = CHR ''G'' then (if ends cmd 4 then reply ''ZZBG0;'' c else refuse c)
         else if k = CHR ''I'' then (if ends cmd 4 then reply ''ZZBI0;'' c else refuse c)
         else if k = CHR ''M'' then
           ok (if ends cmd 6 \<and> step_named n \<noteq> 0 then tune_rx i (receiver_move_b (- step_named n) False False) c else c)
         else if k = CHR ''P'' then
           ok (if ends cmd 6 \<and> step_named n \<noteq> 0 then tune_rx i (receiver_move_b (step_named n) False False) c else c)
         else if k = CHR ''R'' then (if ends cmd 4 then reply ''ZZBR0;'' c else refuse c)
         else if k = CHR ''S'' then
           (if ends cmd 4 then reply (''ZZBS'' @ fmt_zero 3 (cat_band rx) @ '';'') c else refuse c)
         else refuse c)"

definition zz_C :: "nat \<Rightarrow> string \<Rightarrow> cat \<Rightarrow> answer" where
  "zz_C i cmd c =
     (let k = chr_at cmd 3; rx = rx_of (ca_console c) i; n = num 4 cmd
      in if k = CHR ''N'' then
           (if ends cmd 4 then reply (''ZZCN'' @ fmt_flag (rx_ctun rx) @ '';'') c
            else if ends cmd 5
            then ok (tune_rx i (\<lambda>t. receiver_set_ctun (upd (\<lambda>rx. rx\<lparr>rx_ctun := (n \<noteq> 0)\<rparr>) t)) (a_flag n c))
            else refuse c)
         else if k = CHR ''P'' then (if ends cmd 4 then reply ''ZZCP0;'' c else refuse c)
         else refuse c)"

text \<open>The level of the display a command sets or reads: \<open>ZZDQ\<close> ends with
\<open>implemented=FALSE\<close> whatever it did.\<close>

definition level_cmd :: "string \<Rightarrow> nat \<Rightarrow> nat \<Rightarrow> string \<Rightarrow> (receiver \<Rightarrow> receiver) \<Rightarrow> string \<Rightarrow> cat \<Rightarrow> answer" where
  "level_cmd name k i level f cmd c =
     (if ends cmd 4 then reply (name @ level @ '';'') c
      else if ends cmd k then ok (tune_rx i (upd f) c) else refuse c)"

definition status_reply :: "nat \<Rightarrow> cat \<Rightarrow> string" where
  "status_reply i c =
     (let rx = rx_of (ca_console c) i; r = ca_radio c; tx = r_transmitter r; has_tx = ca_can_transmit c;
          split = fmt_flag (rx_split rx \<noteq> SPLIT_OFF); antenna = fmt_d (adc_antenna (adc_of_rx rx c))
      in split @ split @ fmt_flag (r_tune r) @ fmt_flag (r_mox r) @ antenna @ antenna
         @ fmt_d (if has_tx then ct_dac_antenna (ca_tx c) else 0) @ ''0'' @ fmt_flag (rx_rit_enabled rx) @ ''0''
         @ fmt_d (rx_agc rx) @ ''0'' @ fmt_flag (has_tx \<and> tx_xit_enabled tx)
         @ fmt_zero 2 (step_size rx) @ fmt_zero 2 (rx_mode_a rx) @ ''00'' @ ''00'' @ fmt_zero 2 (rx_filter_a rx)
         @ ''000'' @ ''000'' @ fmt_zero 3 (if has_tx then trunc_real (tx_drive tx) else 0) @ fmt_zero 3 (cat_band rx)
         @ fmt_zero 3 (trunc_real (pn_volume (st_panel (ca_console c) i) * 100)) @ ''00''
         @ fmt_zero 3 (if has_tx then trunc_real (tx_tune_percent tx) else 0) @ ''0000''
         @ fmt_zero 4 (trunc_real (s_meter_level i rx c)) @ fmt_zero 5 (rx_rit rx) @ ''00000''
         @ fmt_zero 5 (if has_tx then tx_xit tx else 0) @ ''0.00''
         @ fmt_zero 11 (rx_frequency_a rx) @ fmt_zero 11 (rx_frequency_b rx) @ '';'')"

definition zz_D :: "nat \<Rightarrow> string \<Rightarrow> cat \<Rightarrow> answer" where
  "zz_D i cmd c =
     (let k = chr_at cmd 3; rx = rx_of (ca_console c) i; n = num 4 cmd
      in if k = CHR ''A'' then
           (if ends cmd 4 then reply (''ZZDA'' @ fmt_flag (cx_display_average_time (ca_rx c i) > 1) @ '';'') c else refuse c)
         else if k = CHR ''M'' then (if ends cmd 4 then reply ''ZZDM8;'' c else refuse c)
         else if k = CHR ''N'' then
           level_cmd ''ZZDN'' 8 i (fmt_plus_blank 4 (rx_waterfall_low rx)) (\<lambda>rx. rx\<lparr>rx_waterfall_low := n\<rparr>) cmd c
         else if k = CHR ''O'' then
           level_cmd ''ZZDO'' 8 i (fmt_plus_blank 4 (rx_waterfall_high rx)) (\<lambda>rx. rx\<lparr>rx_waterfall_high := n\<rparr>) cmd c
         else if k = CHR ''P'' then
           level_cmd ''ZZDP'' 8 i (fmt_plus_blank 4 (rx_panadapter_high rx)) (\<lambda>rx. rx\<lparr>rx_panadapter_high := n\<rparr>) cmd c
         else if k = CHR ''Q'' then
           (case level_cmd ''ZZDQ'' 8 i (fmt_plus_blank 4 (rx_panadapter_low rx)) (\<lambda>rx. rx\<lparr>rx_panadapter_low := n\<rparr>) cmd c
            of (c', replies, _) \<Rightarrow> (c', replies, False))
         else if k = CHR ''R'' then
           level_cmd ''ZZDR'' 6 i (fmt_zero 2 (rx_panadapter_step rx)) (\<lambda>rx. rx\<lparr>rx_panadapter_step := n\<rparr>) cmd c
         else if k = CHR ''U'' then reply (status_reply i c) c
         else refuse c)"

text \<open>The equalizer commands: a three digit band count and three gains.\<close>

definition field3 :: "nat \<Rightarrow> string \<Rightarrow> int" where "field3 k cmd = atoi (take 3 (drop k cmd))"

definition eq_reply :: "string \<Rightarrow> int list \<Rightarrow> string" where
  "eq_reply name eq =
     name @ ''003'' @ fmt_zero 3 (eq ! 0) @ fmt_zero 3 (eq ! 1) @ fmt_zero 3 (eq ! 2) @ fmt_zero 3 (eq ! 3)
       @ ''00000000000000000000;''"

definition eq_set :: "string \<Rightarrow> int list \<Rightarrow> int list" where
  "eq_set cmd eq = eq[0 := field3 7 cmd, 1 := field3 10 cmd, 2 := field3 13 cmd]"

definition zz_E :: "nat \<Rightarrow> string \<Rightarrow> cat \<Rightarrow> answer" where
  "zz_E i cmd c =
     (let k = chr_at cmd 3; rx = rx_of (ca_console c) i; n = num 4 cmd; x = ca_rx c i; y = ca_tx c
      in if k = CHR ''A'' then
           (if ends cmd 4 then reply (eq_reply ''ZZEA'' (cx_equalizer x)) c
            else if ends cmd 37 \<and> field3 4 cmd = 3 then
              (let eq = eq_set cmd (cx_equalizer x); c1 = on_cx i (\<lambda>x. x\<lparr>cx_equalizer := eq\<rparr>) c
               in ok (if rx_channel rx \<ge> 0 then ca_event (Ca_Rx_eq i eq) c1 else c1))
            else ok c)
         else if k = CHR ''B'' then
           (if ca_can_transmit c \<and> tx_rx (r_transmitter (ca_radio c)) = Some i then
              (if ends cmd 4 then reply (eq_reply ''ZZEB'' (ct_equalizer y)) c
               else if ends cmd 37 \<and> field3 4 cmd = 3 then
                 (let eq = eq_set cmd (ct_equalizer y)
                  in ok (ca_event (Ca_Tx_eq eq) (on_ct (\<lambda>y. y\<lparr>ct_equalizer := eq\<rparr>) c)))
               else ok c)
            else refuse c)
         else if k = CHR ''R'' then
           (if ca_can_transmit c then
              (if ends cmd 4 then reply (''ZZER'' @ fmt_flag (cx_enable_equalizer x) @ '';'') c
               else if ends cmd 5 then
                 (let c1 = on_cx i (\<lambda>x. x\<lparr>cx_enable_equalizer := (n \<noteq> 0)\<rparr>) c
                  in ok (if rx_channel rx \<ge> 0 then ca_event (Ca_Rx_eq_run i (n \<noteq> 0)) c1 else c1))
               else ok c)
            else refuse c)
         else if k = CHR ''T'' then
           (if ca_can_transmit c then
              (if ends cmd 4 then reply (''ZZET'' @ fmt_flag (ct_enable_equalizer y) @ '';'') c
               else if ends cmd 5
               then ok (ca_event (Ca_Tx_eq_run (n \<noteq> 0)) (on_ct (\<lambda>y. y\<lparr>ct_enable_equalizer := (n \<noteq> 0)\<rparr>) c))
               else ok c)
            else refuse c)
         else refuse c)"

definition filter_edge_9999 :: "int \<Rightarrow> int" where "filter_edge_9999 n = max (- 9999) (min 9999 n)"

definition zz_F :: "nat \<Rightarrow> string \<Rightarrow> cat \<Rightarrow> answer" where
  "zz_F i cmd c =
     (let k = chr_at cmd 3; rx = rx_of (ca_console c) i; n = num 4 cmd
      in if k = CHR ''A'' then
           (if ends cmd 4 then reply (''ZZFA'' @ fmt_zero 11 (receiver_tuned_frequency rx) @ '';'') c
            else ok (if ends cmd 15 then cat_set_vfo_a i n c else c))
         else if k = CHR ''B'' then
           (if ends cmd 4 then reply (''ZZFB'' @ fmt_zero 11 (rx_frequency_b rx) @ '';'') c
            else ok (if ends cmd 15 then set_vfo_b i n c else c))
         else if k = CHR ''D'' then
           (if ends cmd 4 then reply (''ZZFD'' @ fmt_flag (rx_deviation rx \<noteq> 2500) @ '';'') c
            else if ends cmd 5 then
              ok (shown_on i (if n = 0 then tune_rx i (upd (\<lambda>rx. rx\<lparr>rx_deviation := 2500\<rparr>)) c
                              else if n = 1 then tune_rx i (upd (\<lambda>rx. rx\<lparr>rx_deviation := 5000\<rparr>)) c else c))
            else ok c)
         else if k = CHR ''H'' then
           (if ends cmd 4 then reply (''ZZFH'' @ fmt_zero 5 (rx_filter_high_a rx) @ '';'') c
            else ok (if ends cmd 9 then set_var1 (\<lambda>f. f\<lparr>fl_high := filter_edge_9999 n\<rparr>) i c else c))
         else if k = CHR ''I'' then
           (if ends cmd 4 then reply (''ZZFI'' @ fmt_zero 2 (rx_filter_a rx) @ '';'') c
            else if ends cmd 6 then
              (if n < 0 \<or> n \<ge> FILTERS then refuse c else ok (tune_rx i (receiver_filter_changed n) c))
            else ok c)
         else if k = CHR ''J'' then
           (if ends cmd 4 then reply (''ZZFJ'' @ fmt_zero 2 (rx_filter_b rx) @ '';'') c
            else if ends cmd 6 then
              (if n < 0 \<or> n \<ge> FILTERS then refuse c
               else ok (tune_rx i (\<lambda>t. let t1 = upd (\<lambda>rx. rx\<lparr>rx_filter_b := n\<rparr>) t
                                       in if rx_subrx_enable (t_rx t1) then subrx_filter_changed t1 else t1) c))
            else ok c)
         else if k = CHR ''L'' then
           (if ends cmd 4 then reply (''ZZFL'' @ fmt_zero 5 (rx_filter_low_a rx) @ '';'') c
            else ok (if ends cmd 9 then set_var1 (\<lambda>f. f\<lparr>fl_low := filter_edge_9999 n\<rparr>) i c else c))
         else refuse c)"

definition zz_G :: "nat \<Rightarrow> string \<Rightarrow> cat \<Rightarrow> answer" where
  "zz_G i cmd c =
     (let k = chr_at cmd 3; rx = rx_of (ca_console c) i; n = num 4 cmd
      in if k = CHR ''T'' then
           (if ends cmd 4 then reply (''ZZGT'' @ fmt_d (rx_agc rx) @ '';'') c
            else if ends cmd 5 then (if n < AGC_OFF \<or> n > AGC_LAST then refuse c else ok (set_agc_to n i c))
            else ok c)
         else refuse c)"

definition zz_I :: "string \<Rightarrow> cat \<Rightarrow> answer" where
  "zz_I cmd c = (if chr_at cmd 3 = CHR ''D'' then reply ''ZZID240;'' c else refuse c)"

definition zz_L :: "nat \<Rightarrow> string \<Rightarrow> cat \<Rightarrow> answer" where
  "zz_L i cmd c =
     (let k = chr_at cmd 3; p = st_panel (ca_console c) i; n = num 4 cmd
      in if k = CHR ''A'' then
           (if ends cmd 4 then reply (''ZZLA'' @ fmt_zero 3 (trunc_real (pn_volume p * 100)) @ '';'') c
            else ok (shown_on i (set_volume (of_int n / 100) i c)))
         else if k = CHR ''I'' then
           (if ca_can_transmit c then
              (if ends cmd 4 then reply (''ZZLI'' @ fmt_flag (ct_puresignal_enabled (ca_tx c)) @ '';'') (shown_on i c)
               else ok (shown_on i (ca_event (Ca_Set_ps (n \<noteq> 0)) c)))
            else refuse c)
         else refuse c)"

definition filter_line :: "filter_entry \<Rightarrow> string" where
  "filter_line f = fmt_s 5 (fl_title f) @ fmt_blank 5 (fl_high f) @ fmt_blank 5 (fl_low f)"

definition zz_M :: "nat \<Rightarrow> string \<Rightarrow> cat \<Rightarrow> answer" where
  "zz_M i cmd c =
     (let k = chr_at cmd 3; rx = rx_of (ca_console c) i; n = num 4 cmd
      in if k = CHR ''D'' then
           (if ends cmd 4 then reply (''ZZMD'' @ fmt_zero 2 (rx_mode_a rx) @ '';'') c
            else if ends cmd 6 then
              (if n < 0 \<or> n \<ge> MODES then refuse c else ok (tune_rx i (receiver_mode_changed n) c))
            else ok c)
         else if k = CHR ''E'' then
           (if ends cmd 4 then reply (''ZZME'' @ fmt_zero 2 (rx_mode_b rx) @ '';'') c
            else if ends cmd 6 then
              (if n < 0 \<or> n \<ge> MODES then refuse c
               else ok (tune_rx i (\<lambda>t. let t1 = upd (\<lambda>rx. rx\<lparr>rx_mode_b := n\<rparr>) t
                                       in if rx_subrx_enable (t_rx t1) then subrx_mode_changed t1 else t1) c))
            else ok c)
         else if k = CHR ''G'' then
           (if ca_can_transmit c then
              (if ends cmd 4 then reply (''ZZMG'' @ fmt_zero 3 (trunc_real (ct_mic_gain (ca_tx c))) @ '';'') c
               else ok (if ends cmd 7 then set_mic_gain (of_int n) c else c))
            else refuse c)
         else if k = CHR ''L'' then
           (if ends cmd 4
            then reply ''ZZML LSB00: USB01: DSB02: CWL03: CWU04: FMN05:  AM06:DIGU07:SPEC08:DIGL09: SAM10: DRM11;'' c
            else ok c)
         else if k = CHR ''N'' then
           (if ends cmd 6 then
              (if n - 1 < 0 \<or> n - 1 \<ge> MODES then refuse c
               else reply (''ZZMN'' @ concat (map filter_line (take (nat FILTERS) (st_filters (ca_console c) ! nat (n - 1)))) @ '';'')
                      (filter_subscript (n - 1) (FILTERS - 1) c))
            else ok c)
         else if k = CHR ''O'' then (if ends cmd 4 then reply ''ZZMO0;'' c else ok c)
         else if k = CHR ''R'' then
           (if ends cmd 4 then reply (''ZZMR'' @ fmt_d (cx_smeter (ca_rx c i) + 1) @ '';'') c
            else ok (if ends cmd 5 then on_cx i (\<lambda>x. x\<lparr>cx_smeter := n - 1\<rparr>) c else c))
         else if k = CHR ''T'' then (if ends cmd 4 then reply ''ZZMT01;'' c else ok c)
         else refuse c)"

definition flag_cmd :: "string \<Rightarrow> bool \<Rightarrow> (int \<Rightarrow> cat \<Rightarrow> cat) \<Rightarrow> string \<Rightarrow> cat \<Rightarrow> answer" where
  "flag_cmd name flag f cmd c =
     (let l = length name
      in if ends cmd l then reply (name @ fmt_flag flag @ '';'') c
         else ok (if ends cmd (l + 1) then f (num l cmd) c else c))"

definition zz_N :: "nat \<Rightarrow> string \<Rightarrow> cat \<Rightarrow> answer" where
  "zz_N i cmd c =
     (let k = chr_at cmd 3; p = st_panel (ca_console c) i
      in if k = CHR ''A'' then flag_cmd ''ZZNA'' (pn_nb p) (\<lambda>n. set_noise (nb_flag n) n i) cmd c
         else if k = CHR ''B'' then flag_cmd ''ZZNB'' (pn_nb2 p) (\<lambda>n. set_noise (nb2_flag n) n i) cmd c
         else if k = CHR ''C'' then flag_cmd ''ZZNC'' (pn_nb p) (\<lambda>n. set_noise (nb_flag n) n i) cmd c
         else if k = CHR ''D'' then flag_cmd ''ZZND'' (pn_nb2 p) (\<lambda>n. set_noise (nb2_flag n) n i) cmd c
         else if k = CHR ''N'' then flag_cmd ''ZZNN'' (pn_snb p) (\<lambda>n. set_noise (\<lambda>p. p\<lparr>pn_snb := (n \<noteq> 0)\<rparr>) n i) cmd c
         else if k = CHR ''O'' then flag_cmd ''ZZNO'' (pn_snb p) (\<lambda>n. set_noise (\<lambda>p. p\<lparr>pn_snb := (n \<noteq> 0)\<rparr>) n i) cmd c
         else if k = CHR ''R'' then flag_cmd ''ZZNR'' (pn_nr p) (\<lambda>n. set_noise (nr_flag n) n i) cmd c
         else if k = CHR ''S'' then flag_cmd ''ZZNS'' (pn_nr2 p) (\<lambda>n. set_noise (nr2_flag n) n i) cmd c
         else if k = CHR ''T'' then flag_cmd ''ZZNT'' (pn_anf p) (\<lambda>n. set_noise (\<lambda>p. p\<lparr>pn_anf := (n \<noteq> 0)\<rparr>) n i) cmd c
         else if k = CHR ''U'' then flag_cmd ''ZZNU'' (pn_anf p) (\<lambda>n. set_noise (\<lambda>p. p\<lparr>pn_anf := (n \<noteq> 0)\<rparr>) n i) cmd c
         else if k = CHR ''V'' then flag_cmd ''ZZNV'' (pn_nr p) (\<lambda>n. set_noise (nr_flag n) n i) cmd c
         else if k = CHR ''W'' then flag_cmd ''ZZNW'' (pn_nr2 p) (\<lambda>n. set_noise (nr2_flag n) n i) cmd c
         else refuse c)"

definition zz_P :: "nat \<Rightarrow> string \<Rightarrow> cat \<Rightarrow> answer" where
  "zz_P i cmd c =
     (let rx = rx_of (ca_console c) i; n = num 4 cmd
      in if chr_at cmd 3 = CHR ''A'' then
           (if ends cmd 4 then reply (''ZZPA'' @ fmt_d (zz_attenuation (adc_attenuation (adc_of_rx rx c))) @ '';'') c
            else ok (if ends cmd 5 then
                on_adc rx (\<lambda>a. a\<lparr>adc_attenuation := (if n = 0 then - 20 else if n = 1 then 0 else if n = 2 then - 10
                                                    else if n = 3 then - 20 else if n = 4 then - 30 else 0)\<rparr>) c
              else c))
         else refuse c)"

definition zz_R :: "nat \<Rightarrow> string \<Rightarrow> cat \<Rightarrow> answer" where
  "zz_R i cmd c =
     (let k = chr_at cmd 3; rx = rx_of (ca_console c) i; n = num 4 cmd
      in if k = CHR ''C'' then ok (if ends cmd 4 then set_rit (\<lambda>_. 0) i c else c)
         else if k = CHR ''D'' then
           ok (if ends cmd 4 then set_rit (\<lambda>rx. rx_rit rx - rit_notch rx) i c
               else if ends cmd 9 then set_rit (\<lambda>_. n) i c else c)
         else if k = CHR ''F'' then
           (if ends cmd 4 then reply (''ZZRF'' @ fmt_plus_blank 5 (rx_rit rx) @ '';'') c
            else ok (if ends cmd 9 then set_rit (\<lambda>_. n) i c else c))
         else if k = CHR ''M'' then
           (if ends cmd 5
            then reply (''ZZRM'' @ fmt_d (cx_smeter (ca_rx c i)) @ fmt_blank 20 (trunc_real (s_meter_level i rx c)) @ '';'') c
            else ok c)
         else if k = CHR ''T'' then flag_cmd ''ZZRT'' (rx_rit_enabled rx) (\<lambda>n. set_rit_enabled n i) cmd c
         else if k = CHR ''U'' then
           ok (if ends cmd 4 then set_rit (\<lambda>rx. rx_rit rx + rit_notch rx) i c
               else if ends cmd 9 then set_rit (\<lambda>_. n) i c else c)
         else refuse c)"

definition split_cmd :: "string \<Rightarrow> nat \<Rightarrow> string \<Rightarrow> cat \<Rightarrow> answer" where
  "split_cmd name i cmd c =
     (if ends cmd 4 then reply (name @ fmt_d (split_number (rx_split (rx_of (ca_console c) i))) @ '';'') c
      else ok (if ends cmd 5 then shown_on i (tx_set_mode rx_mode_b i (set_split_digit (num 4 cmd) i c)) else c))"

definition zz_S :: "nat \<Rightarrow> string \<Rightarrow> cat \<Rightarrow> answer" where
  "zz_S i cmd c =
     (let k = chr_at cmd 3; rx = rx_of (ca_console c) i; n = num 4 cmd
      in if k = CHR ''A'' then ok (if ends cmd 4 then tune_rx i (receiver_move (- rx_step rx) True) c else c)
         else if k = CHR ''B'' then ok (if ends cmd 4 then tune_rx i (receiver_move (rx_step rx) True) c else c)
         else if k = CHR ''G'' then ok (if ends cmd 4 then tune_rx i (receiver_move_b (- rx_step rx) False True) c else c)
         else if k = CHR ''H'' then ok (if ends cmd 4 then tune_rx i (receiver_move_b (rx_step rx) False True) c else c)
         else if k = CHR ''M'' then
           (if ends cmd 5 \<and> (n = 0 \<or> n = 1) then
              (let level = min (- 10) (max (- 140) (s_meter_level i rx c))
               in reply (''ZZSM'' @ fmt_d n @ fmt_zero 3 (trunc_real ((level + 140) * 2)) @ '';'') c)
            else ok c)
         else if k = CHR ''P'' then split_cmd ''ZZSP'' i cmd c
         else if k = CHR ''W'' then split_cmd ''ZZSW'' i cmd c
         else refuse c)"

definition zz_T :: "cat_env \<Rightarrow> string \<Rightarrow> cat \<Rightarrow> answer" where
  "zz_T e cmd c =
     (let k = chr_at cmd 3
      in if k = CHR ''U'' then
           flag_cmd ''ZZTU'' (r_tune (ca_radio c))
             (\<lambda>n c. keyed (set_tune (ce_now e) (ce_full_tune_time e) (n \<noteq> 0)) (a_flag n c)) cmd c
         else if k = CHR ''X'' then
           flag_cmd ''ZZTX'' (r_mox (ca_radio c)) (\<lambda>n c. keyed (set_mox (n \<noteq> 0)) (a_flag n c)) cmd c
         else refuse c)"

definition set_locked :: "bool \<Rightarrow> nat \<Rightarrow> cat \<Rightarrow> cat" where
  "set_locked b i c = shown_on i (tune_rx i (upd (\<lambda>rx. rx\<lparr>rx_locked := b\<rparr>)) c)"

definition zz_U :: "nat \<Rightarrow> string \<Rightarrow> cat \<Rightarrow> answer" where
  "zz_U i cmd c =
     (if chr_at cmd 3 = CHR ''X''
      then flag_cmd ''ZZUX'' (rx_locked (rx_of (ca_console c) i)) (\<lambda>_. set_locked (chr_at cmd 4 = CHR ''1'') i) cmd c
      else refuse c)"

text \<open>\<open>ZZVS\<close> is accepted and does nothing.\<close>

definition zz_V :: "string \<Rightarrow> cat \<Rightarrow> answer" where
  "zz_V cmd c = (if chr_at cmd 3 = CHR ''S'' \<and> ends cmd 5 then ok c else refuse c)"

definition if_bit :: "bool \<Rightarrow> int \<Rightarrow> int" where "if_bit b v = (if b then v else 0)"

definition rx_status :: "nat \<Rightarrow> cat \<Rightarrow> int" where
  "rx_status i c =
     (let rx = rx_of (ca_console c) i; p = st_panel (ca_console c) i
      in rx_agc rx mod 4 + zz_attenuation (adc_attenuation (adc_of_rx rx c)) mod 4 * 8 + if_bit (pn_nb p) 128
         + if_bit (pn_nb2 p) 256 + if_bit (pn_nr p) 512 + if_bit (pn_nr2 p) 1024 + if_bit (pn_snb p) 2048
         + if_bit (pn_anf p) 4096)"

definition vfo_status :: "nat \<Rightarrow> cat \<Rightarrow> int" where
  "vfo_status i c =
     (let rx = rx_of (ca_console c) i
      in if_bit (rx_rit_enabled rx) 0x01 + if_bit (rx_locked rx) (0x02 + 0x04) + if_bit (rx_split rx \<noteq> SPLIT_OFF) 0x08
         + if_bit (rx_ctun rx) (0x10 + 0x20) + if_bit (r_mox (ca_radio c)) 0x40 + if_bit (r_tune (ca_radio c)) 0x80)"

definition on_tx :: "(transmitter \<Rightarrow> transmitter) \<Rightarrow> cat \<Rightarrow> cat" where
  "on_tx f c = on_console (on_transmitter f) c"

definition set_xit_enabled :: "int \<Rightarrow> nat \<Rightarrow> cat \<Rightarrow> cat" where
  "set_xit_enabled n i c = shown_on i (on_tx (\<lambda>tx. tx\<lparr>tx_xit_enabled := (n \<noteq> 0)\<rparr>) (a_flag n c))"

definition zz_X :: "nat \<Rightarrow> string \<Rightarrow> cat \<Rightarrow> answer" where
  "zz_X i cmd c =
     (let k = chr_at cmd 3; tx = r_transmitter (ca_radio c); n = num 4 cmd
      in if k = CHR ''C'' then
           (if ca_can_transmit c then ok (if ends cmd 4 then shown_on i (on_tx (\<lambda>tx. tx\<lparr>tx_xit := 0\<rparr>) c) else c) else refuse c)
         else if k = CHR ''F'' then
           (if ca_can_transmit c then
              (if ends cmd 4 then reply (''ZZXF'' @ fmt_plus_zero 5 (tx_xit tx) @ '';'') c
               else ok (if ends cmd 9 then shown_on i (on_tx (\<lambda>tx. tx\<lparr>tx_xit := n\<rparr>) c) else c))
            else refuse c)
         else if k = CHR ''N'' then (if ends cmd 4 then reply (''ZZXN'' @ fmt_zero 4 (rx_status i c) @ '';'') c else ok c)
         else if k = CHR ''S'' then
           (if ca_can_transmit c then flag_cmd ''ZZXS'' (tx_xit_enabled tx) (\<lambda>n. set_xit_enabled n i) cmd c else refuse c)
         else if k = CHR ''V'' then (if ends cmd 4 then reply (''ZZXV'' @ fmt_zero 3 (vfo_status i c) @ '';'') c else ok c)
         else refuse c)"

text \<open>The letters H, K, O, Q, W, Y and Z have no command that is implemented, and J has
no \<open>case\<close>.\<close>

definition parse_extended_cmd :: "cat_env \<Rightarrow> nat \<Rightarrow> string \<Rightarrow> cat \<Rightarrow> answer" where
  "parse_extended_cmd e i cmd c =
     (let k = chr_at cmd 2
      in if k = CHR ''A'' then zz_A i cmd c else if k = CHR ''B'' then zz_B i cmd c
         else if k = CHR ''C'' then zz_C i cmd c else if k = CHR ''D'' then zz_D i cmd c
         else if k = CHR ''E'' then zz_E i cmd c else if k = CHR ''F'' then zz_F i cmd c
         else if k = CHR ''G'' then zz_G i cmd c else if k = CHR ''I'' then zz_I cmd c
         else if k = CHR ''L'' then zz_L i cmd c else if k = CHR ''M'' then zz_M i cmd c
         else if k = CHR ''N'' then zz_N i cmd c else if k = CHR ''P'' then zz_P i cmd c
         else if k = CHR ''R'' then zz_R i cmd c else if k = CHR ''S'' then zz_S i cmd c
         else if k = CHR ''T'' then zz_T e cmd c else if k = CHR ''U'' then zz_U i cmd c
         else if k = CHR ''V'' then zz_V cmd c else if k = CHR ''X'' then zz_X i cmd c
         else refuse c)"

section \<open>The commands of the TS-2000\<close>

definition cat_A :: "nat \<Rightarrow> string \<Rightarrow> cat \<Rightarrow> answer" where
  "cat_A i cmd c =
     (let k = chr_at cmd 1
      in if k = CHR ''G'' then
           (if ends cmd 2 then reply (''AG0'' @ fmt_zero 3 (trunc_real (pn_volume (st_panel (ca_console c) i) * 255)) @ '';'') c
            else ok (if ends cmd 6 then set_volume (of_int (num 3 cmd) / 255) i c else c))
         else if k = CHR ''I'' then (if ends cmd 2 then reply ''AI0;'' c else ok c)
         else refuse c)"

definition cat_B :: "nat \<Rightarrow> string \<Rightarrow> cat \<Rightarrow> answer" where
  "cat_B i cmd c =
     (let k = chr_at cmd 1; b = rx_band_a (rx_of (ca_console c) i)
      in if k = CHR ''D'' then ok (tune_rx i (set_band (previous_band (ca_radio c) b) (- 1)) c)
         else if k = CHR ''U'' then ok (tune_rx i (set_band (next_band (ca_radio c) b) (- 1)) c)
         else refuse c)"

definition cat_C :: "string \<Rightarrow> cat \<Rightarrow> answer" where
  "cat_C cmd c =
     (let k = chr_at cmd 1; tx = ca_tx c; n = num 2 cmd
      in if k = CHR ''N'' then
           (if ca_can_transmit c then
              (if ends cmd 2 then reply (''CN'' @ fmt_zero 2 (ct_ctcss tx + 1) @ '';'') c
               else if ends cmd 4 then
                 (if n - 1 < 0 \<or> n - 1 \<ge> CTCSS_FREQUENCIES then refuse c
                  else ok (transmitter_set_ctcss (ct_ctcss_enabled tx) (n - 1) c))
               else ok c)
            else ok c)
         else if k = CHR ''T'' then
           (if ca_can_transmit c
            then flag_cmd ''CT'' (ct_ctcss_enabled tx) (\<lambda>n c. transmitter_set_ctcss (n \<noteq> 0) (ct_ctcss tx) (a_flag n c)) cmd c
            else refuse c)
         else refuse c)"

definition cat_D :: "nat \<Rightarrow> string \<Rightarrow> cat \<Rightarrow> answer" where
  "cat_D i cmd c =
     (if chr_at cmd 1 = CHR ''N'' then ok (tune_rx i (receiver_move (- rx_step (rx_of (ca_console c) i)) True) c)
      else refuse c)"

definition fw_read :: "nat \<Rightarrow> cat \<Rightarrow> answer" where
  "fw_read i c =
     (let rx = rx_of (ca_console c) i; m = rx_mode_a rx; low = fl_low (var1_of i c);
          answer = (\<lambda>val. reply (''FW'' @ fmt_zero 4 val @ '';'') c)
      in if m = CWL \<or> m = CWU then answer (low * 2)
         else if m = AM \<or> m = SAM then answer (if low \<ge> - 4000 then 1 else 0)
         else if m = FMN then answer (if rx_deviation rx = 5000 then 1 else 0)
         else refuse c)"

definition fw_edges :: "int \<Rightarrow> filter_entry \<Rightarrow> filter_entry" where
  "fw_edges fw f = (if fw = 0 then f\<lparr>fl_low := - 4000, fl_high := 4000\<rparr> else f\<lparr>fl_low := - 8000, fl_high := 8000\<rparr>)"

definition fw_set :: "nat \<Rightarrow> int \<Rightarrow> cat \<Rightarrow> answer" where
  "fw_set i fw c =
     (let c1 = tune_rx i to_var1 c; m = rx_mode_a (rx_of (ca_console c1) i)
      in if m = CWL \<or> m = CWU
         then ok (tune_rx i (\<lambda>t. receiver_filter_changed FVar1
                (put_var1 (\<lambda>f. f\<lparr>fl_low := fw sdiv 2, fl_high := fw sdiv 2\<rparr>) t)) c1)
         else if m = FMN
         then ok (tune_rx i (\<lambda>t. receiver_filter_changed FVar1
                (upd (\<lambda>rx. rx\<lparr>rx_deviation := (if fw = 0 then 2500 else 5000)\<rparr>) (put_var1 (fw_edges fw) t))) c1)
         else if m = AM \<or> m = SAM
         then ok (tune_rx i (\<lambda>t. receiver_filter_changed FVar1 (put_var1 (fw_edges fw) t)) c1)
         else refuse c1)"

definition cat_F :: "nat \<Rightarrow> string \<Rightarrow> cat \<Rightarrow> answer" where
  "cat_F i cmd c =
     (let k = chr_at cmd 1; rx = rx_of (ca_console c) i; n = num 2 cmd
      in if k = CHR ''A'' then
           (if ends cmd 2 then reply (''FA'' @ fmt_zero 11 (receiver_tuned_frequency rx) @ '';'') c
            else ok (if ends cmd 13 then cat_set_vfo_a i n c else c))
         else if k = CHR ''B'' then
           (if ends cmd 2 then reply (''FB'' @ fmt_zero 11 (rx_frequency_b rx) @ '';'') c
            else ok (if ends cmd 13 then set_vfo_b i n c else c))
         else if k = CHR ''R'' then
           (if ends cmd 2 then reply ''FR0;'' c else if ends cmd 3 then refuse c else ok c)
         else if k = CHR ''T'' then
           (if ends cmd 2 then reply (''FT'' @ fmt_flag (rx_split rx \<noteq> SPLIT_OFF) @ '';'') c
            else ok (if ends cmd 3 then
                shown_on i (if n = 0
                  then tx_set_mode rx_mode_a i (tune_rx i (upd (\<lambda>rx. rx\<lparr>rx_split := SPLIT_OFF\<rparr>)) c)
                  else tx_set_mode rx_mode_b i (tune_rx i (upd (\<lambda>rx. rx\<lparr>rx_split := SPLIT_ON\<rparr>)) c))
              else c))
         else if k = CHR ''W'' then
           (let c1 = mode_filters i c
            in if ends cmd 2 then fw_read i c1 else if ends cmd 6 then fw_set i n c1 else ok c1)
         else refuse c)"

definition cat_G :: "nat \<Rightarrow> string \<Rightarrow> cat \<Rightarrow> answer" where
  "cat_G i cmd c =
     (let a = num 2 cmd sdiv 5
      in if chr_at cmd 1 = CHR ''T'' then
           (if ends cmd 2 then reply (''GT'' @ fmt_zero 3 (rx_agc (rx_of (ca_console c) i) * 5) @ '';'') c
            else if ends cmd 5 then (if a < AGC_OFF \<or> a > AGC_LAST then refuse c else ok (set_agc_to a i c))
            else ok c)
         else refuse c)"

definition if_reply :: "nat \<Rightarrow> cat \<Rightarrow> string" where
  "if_reply i c =
     (let rx = rx_of (ca_console c) i; r = ca_radio c; has_tx = ca_can_transmit c
      in ''IF'' @ fmt_zero 11 (if rx_ctun rx then rx_ctun_frequency rx else rx_frequency_a rx)
         @ fmt_zero 4 (min 9999 (max 0 (rx_step rx))) @ fmt_plus_zero 6 (min 99999 (max (- 99999) (rx_rit rx)))
         @ fmt_flag (rx_rit_enabled rx) @ fmt_flag (has_tx \<and> tx_xit_enabled (r_transmitter r)) @ ''0'' @ ''00''
         @ fmt_flag (isTransmitting r) @ fmt_d (ts2000_mode (rx_mode_a rx)) @ ''0'' @ ''0''
         @ fmt_d (split_number (rx_split rx)) @ (if has_tx \<and> ct_ctcss_enabled (ca_tx c) then ''2'' else ''0'')
         @ fmt_zero 2 (if has_tx then ct_ctcss (ca_tx c) else 0) @ ''0'' @ '';'')"

definition cat_I :: "nat \<Rightarrow> string \<Rightarrow> cat \<Rightarrow> answer" where
  "cat_I i cmd c =
     (let k = chr_at cmd 1
      in if k = CHR ''D'' then reply ''ID019;'' c
         else if k = CHR ''F'' then reply (if_reply i c) c
         else if k = CHR ''S'' then (if ends cmd 2 then reply ''IS 0000;'' c else refuse c)
         else refuse c)"

text \<open>The bodies of \<open>KS\<close> and \<open>KY\<close> are commented out.\<close>

definition cat_K :: "string \<Rightarrow> cat \<Rightarrow> answer" where
  "cat_K cmd c = (if chr_at cmd 1 = CHR ''S'' \<or> chr_at cmd 1 = CHR ''Y'' then ok c else refuse c)"

definition cat_L :: "nat \<Rightarrow> string \<Rightarrow> cat \<Rightarrow> answer" where
  "cat_L i cmd c =
     (let locked = fmt_flag (rx_locked (rx_of (ca_console c) i))
      in if chr_at cmd 1 = CHR ''K'' then
           (if ends cmd 2 then reply (''LK'' @ locked @ locked @ '';'') c
            else ok (if ends cmd 4 then set_locked (chr_at cmd 2 = CHR ''1'') i c else c))
         else refuse c)"

definition mode_of_ts2000 :: "int \<Rightarrow> int" where
  "mode_of_ts2000 n =
     (if n = 1 then LSB else if n = 2 then USB else if n = 3 then CWU else if n = 4 then FMN else if n = 5 then AM
      else if n = 6 then DIGL else if n = 7 then CWL else if n = 9 then DIGU else USB)"

definition cat_M :: "nat \<Rightarrow> string \<Rightarrow> cat \<Rightarrow> answer" where
  "cat_M i cmd c =
     (let k = chr_at cmd 1; n = num 2 cmd
      in if k = CHR ''D'' then
           (if ends cmd 2 then reply (''MD'' @ fmt_d (ts2000_mode (rx_mode_a (rx_of (ca_console c) i))) @ '';'') c
            else ok (if ends cmd 3 then tune_rx i (receiver_mode_changed (mode_of_ts2000 n)) c else c))
         else if k = CHR ''G'' then
           (if ca_can_transmit c then
              (if ends cmd 2 then reply (''MG'' @ fmt_zero 3 (trunc_real ((ct_mic_gain (ca_tx c) + 12) / 72 * 100)) @ '';'') c
               else ok (if ends cmd 5 then set_mic_gain (of_int n / 100 * 72 - 12) c else c))
            else refuse c)
         else refuse c)"

definition nr_choice :: "int \<Rightarrow> panel \<Rightarrow> panel" where
  "nr_choice n p =
     (if n = 0 \<or> n = 1 \<or> n = 2 then p\<lparr>pn_nr := (n = 1), pn_nr2 := (n = 2), pn_nr3 := False, pn_nr4 := False\<rparr> else p)"

definition cat_N :: "nat \<Rightarrow> string \<Rightarrow> cat \<Rightarrow> answer" where
  "cat_N i cmd c =
     (let k = chr_at cmd 1; p = st_panel (ca_console c) i
      in if k = CHR ''B'' then flag_cmd ''NB'' (pn_nb p) (\<lambda>n. set_noise (nb_flag n) n i) cmd c
         else if k = CHR ''R'' then
           (if ends cmd 2 then reply (''NR'' @ (if pn_nr p then ''1'' else if pn_nr2 p then ''2'' else ''0'') @ '';'') c
            else ok (if ends cmd 3 then on_console (\<lambda>st. update_noise i (on_panel i (nr_choice (num 2 cmd)) st)) c else c))
         else if k = CHR ''T'' then flag_cmd ''NT'' (pn_anf p) (\<lambda>n. set_noise (\<lambda>p. p\<lparr>pn_anf := (n \<noteq> 0)\<rparr>) n i) cmd c
         else refuse c)"

definition cat_P :: "nat \<Rightarrow> string \<Rightarrow> cat \<Rightarrow> answer" where
  "cat_P i cmd c =
     (let k = chr_at cmd 1; rx = rx_of (ca_console c) i; n = num 2 cmd
      in if k = CHR ''A'' then
           (if ends cmd 2 then reply (''PA'' @ fmt_flag (adc_preamp (adc_of_rx rx c)) @ ''0;'') c
            else ok (if ends cmd 4 then on_adc rx (\<lambda>a. a\<lparr>adc_preamp := (chr_at cmd 2 = CHR ''1'')\<rparr>) c else c))
         else if k = CHR ''C'' then
           (if ca_can_transmit c then
              (if ends cmd 2 then reply (''PC'' @ fmt_zero 3 (trunc_real (tx_drive (r_transmitter (ca_radio c)))) @ '';'') c
               else ok (if ends cmd 5 then on_tx (\<lambda>tx. tx\<lparr>tx_drive := of_int n\<rparr>) c else c))
            else refuse c)
         else if k = CHR ''L'' then
           (if ca_can_transmit c then
              (if ends cmd 2
               then reply (''PL'' @ fmt_zero 3 (trunc_real (ct_compressor_level (ca_tx c) / 20 * 100)) @ ''000;'') c
               else ok (if ends cmd 8 then
                   shown_on i (on_ct (\<lambda>y. y\<lparr>ct_compressor_level := of_int (field3 2 cmd) / 100 * 20\<rparr>) c) else c))
            else refuse c)
         else if k = CHR ''S'' then (if ends cmd 2 then reply ''PS1;'' c else ok c)
         else refuse c)"

definition cat_R :: "nat \<Rightarrow> string \<Rightarrow> cat \<Rightarrow> answer" where
  "cat_R i cmd c =
     (let k = chr_at cmd 1; rx = rx_of (ca_console c) i; n = num 2 cmd
      in if k = CHR ''A'' then
           (if ends cmd 2
            then reply (''RA'' @ fmt_zero 2 (trunc_real (of_int (adc_attenuation (adc_of_rx rx c)) / 31 * 99)) @ ''00;'') c
            else ok (if ends cmd 4 then on_adc rx (\<lambda>a. a\<lparr>adc_attenuation := trunc_real (of_int n / 99 * 31)\<rparr>) c else c))
         else if k = CHR ''C'' then ok (if ends cmd 2 then set_rit (\<lambda>_. 0) i c else c)
         else if k = CHR ''D'' then
           ok (if ends cmd 2 then set_rit (\<lambda>rx. rx_rit rx - rit_notch rx) i c
               else if ends cmd 7 then set_rit (\<lambda>_. n) i c else c)
         else if k = CHR ''T'' then flag_cmd ''RT'' (rx_rit_enabled rx) (\<lambda>n. set_rit_enabled n i) cmd c
         else if k = CHR ''U'' then
           ok (if ends cmd 2 then set_rit (\<lambda>rx. rx_rit rx + rit_notch rx) i c
               else if ends cmd 7 then set_rit (\<lambda>_. n) i c else c)
         else if k = CHR ''X'' then
           ok (if ends cmd 2 then on_console (on_keying (\<lambda>k. k\<lparr>k_idle := k_idle k @ [Ext_set_mox False]\<rparr>)) c else c)
         else refuse c)"

text \<open>The filter edge commands: both select the first variable filter before they look
at what is asked, reading included.\<close>

definition sh_index :: "int \<Rightarrow> int" where
  "sh_index high =
     (if high \<le> 1400 then 0 else if high \<le> 1600 then 1 else if high \<le> 1800 then 2 else if high \<le> 2000 then 3
      else if high \<le> 2200 then 4 else if high \<le> 2400 then 5 else if high \<le> 2600 then 6 else if high \<le> 2800 then 7
      else if high \<le> 3000 then 8 else if high \<le> 3400 then 9 else if high \<le> 4000 then 10 else 11)"

definition sl_index :: "int \<Rightarrow> int" where
  "sl_index low =
     (if low \<le> 10 then 0 else if low \<le> 50 then 1 else if low \<le> 100 then 2 else if low \<le> 200 then 3
      else if low \<le> 300 then 4 else if low \<le> 400 then 5 else if low \<le> 500 then 6 else if low \<le> 600 then 7
      else if low \<le> 700 then 8 else if low \<le> 800 then 9 else if low \<le> 900 then 10 else 11)"

definition edge_choice :: "int list \<Rightarrow> int \<Rightarrow> int \<Rightarrow> int" where
  "edge_choice ssb mode n =
     (if mode = LSB \<or> mode = USB \<or> mode = FMN then (if 0 \<le> n \<and> n \<le> 11 then ssb ! nat n else 100)
      else if mode = AM \<or> mode = SAM then (if n = 0 then 10 else if n = 1 then 100 else if n = 2 then 200
                                           else if n = 3 then 500 else 100)
      else 100)"

definition sh_edges :: "int list" where
  "sh_edges = [1400, 1600, 1800, 2000, 2200, 2400, 2600, 2800, 3000, 3400, 4000, 5000]"

definition sl_edges :: "int list" where
  "sl_edges = [10, 50, 100, 200, 300, 400, 500, 600, 700, 800, 900, 1000]"

definition cmd_SH :: "nat \<Rightarrow> string \<Rightarrow> cat \<Rightarrow> answer" where
  "cmd_SH i cmd c =
     (let c1 = mode_filters i (tune_rx i to_var1 c); m = rx_mode_a (rx_of (ca_console c1) i); f = var1_of i c1;
          fh = edge_choice sh_edges m (num 2 cmd)
      in if ends cmd 2 then reply (''SH'' @ fmt_zero 2 (sh_index (if m = LSB then \<bar>fl_low f\<bar> else fl_high f)) @ '';'') c1
         else ok (if ends cmd 4
                  then tune_rx i (\<lambda>t. receiver_filter_changed FVar1
                         (put_var1 (\<lambda>f. if m = LSB then f\<lparr>fl_low := - fh\<rparr> else f\<lparr>fl_high := fh\<rparr>) t)) c1
                  else c1))"

definition cmd_SL :: "nat \<Rightarrow> string \<Rightarrow> cat \<Rightarrow> answer" where
  "cmd_SL i cmd c =
     (let c1 = mode_filters i (tune_rx i to_var1 c); m = rx_mode_a (rx_of (ca_console c1) i); f = var1_of i c1;
          fl = edge_choice sl_edges m (num 2 cmd)
      in if ends cmd 2 then reply (''SL'' @ fmt_zero 2 (sl_index (if m = LSB then \<bar>fl_high f\<bar> else fl_low f)) @ '';'') c1
         else ok (if ends cmd 4
                  then tune_rx i (\<lambda>t. receiver_filter_changed FVar1
                         (put_var1 (\<lambda>f. if m = LSB then f\<lparr>fl_high := - fl\<rparr> else f\<lparr>fl_low := fl\<rparr>) t)) c1
                  else c1))"

definition set_split :: "split_type \<Rightarrow> nat \<Rightarrow> cat \<Rightarrow> cat" where
  "set_split s i c = tune_rx i (upd (\<lambda>rx. rx\<lparr>rx_split := s\<rparr>)) c"

definition cmd_SA :: "nat \<Rightarrow> string \<Rightarrow> cat \<Rightarrow> answer" where
  "cmd_SA i cmd c =
     (let s = rx_split (rx_of (ca_console c) i)
      in if ends cmd 2 then
           reply (''SA'' @ fmt_flag (s = SPLIT_SAT \<or> s = SPLIT_RSAT) @ ''000'' @ fmt_flag (s = SPLIT_SAT)
                  @ fmt_flag (s = SPLIT_RSAT) @ ''0SAT?    ;'') c
         else if ends cmd 9 then
           (if chr_at cmd 2 = CHR ''0'' then ok (set_split SPLIT_OFF i c)
            else if chr_at cmd 2 = CHR ''1'' then
              (if chr_at cmd 6 = CHR ''0'' \<and> chr_at cmd 7 = CHR ''0'' then ok (set_split SPLIT_OFF i c)
               else if chr_at cmd 6 = CHR ''1'' \<and> chr_at cmd 7 = CHR ''0'' then ok (set_split SPLIT_SAT i c)
               else if chr_at cmd 6 = CHR ''0'' \<and> chr_at cmd 7 = CHR ''1'' then ok (set_split SPLIT_RSAT i c)
               else refuse c)
            else ok c)
         else refuse c)"

definition s_units :: "real \<Rightarrow> int" where
  "s_units level = (let v = llround ((max (- 140) (min (- 10) level) + 140) * 30 / 130)
     in let v1 = (if v < 0 then 0 else v) in if v1 > 30 then 30 else v1)"

text \<open>The bodies of \<open>SD\<close> and \<open>SQ\<close> are commented out.\<close>

definition cat_S :: "nat \<Rightarrow> string \<Rightarrow> cat \<Rightarrow> answer" where
  "cat_S i cmd c =
     (let k = chr_at cmd 1; n = num 2 cmd
      in if k = CHR ''A'' then cmd_SA i cmd c
         else if k = CHR ''D'' then ok c
         else if k = CHR ''H'' then cmd_SH i cmd c
         else if k = CHR ''L'' then cmd_SL i cmd c
         else if k = CHR ''M'' then
           (if ends cmd 3 \<and> (n = 0 \<or> n = 1)
            then reply (''SM'' @ fmt_zero 4 (s_units (s_meter_level i (rx_of (ca_console c) i) c)) @ '';'') c
            else ok c)
         else if k = CHR ''Q'' then ok c
         else refuse c)"

definition cat_T :: "string \<Rightarrow> cat \<Rightarrow> answer" where
  "cat_T cmd c =
     (if chr_at cmd 1 = CHR ''X'' then
        ok (if ends cmd 2 then on_console (on_keying (\<lambda>k. k\<lparr>k_idle := k_idle k @ [Ext_set_mox True]\<rparr>)) c else c)
      else refuse c)"

definition cat_U :: "nat \<Rightarrow> string \<Rightarrow> cat \<Rightarrow> answer" where
  "cat_U i cmd c =
     (if chr_at cmd 1 = CHR ''P''
      then ok (if ends cmd 2 then tune_rx i (receiver_move (rx_step (rx_of (ca_console c) i)) True) c else c)
      else refuse c)"

definition vox_gain :: "int \<Rightarrow> int" where
  "vox_gain g = (let g1 = (if g < 0 then 0 else g) in if g1 > 9 then 9 else g1)"

definition cat_V :: "nat \<Rightarrow> string \<Rightarrow> cat \<Rightarrow> answer" where
  "cat_V i cmd c =
     (let k = chr_at cmd 1; n = num 2 cmd; key = st_keying (ca_console c)
      in if k = CHR ''G'' then
           (if ends cmd 2 then reply (''VG'' @ fmt_zero 3 (vox_gain (llround (k_vox_threshold key * 9))) @ '';'') c
            else ok (if ends cmd 5 then
                shown_on i (on_console (on_keying (\<lambda>k. k\<lparr>k_vox_threshold := of_int (vox_gain n) / 9\<rparr>)) c) else c))
         else if k = CHR ''X'' then
           (if ends cmd 2 then reply (''VX'' @ fmt_flag (k_vox_enabled key) @ '';'') c
            else ok (if ends cmd 3 then shown_on i (on_console (on_keying (vox_set_enabled (n \<noteq> 0))) c) else c))
         else refuse c)"

definition cat_X :: "nat \<Rightarrow> string \<Rightarrow> cat \<Rightarrow> answer" where
  "cat_X i cmd c =
     (if chr_at cmd 1 = CHR ''T'' \<and> ca_can_transmit c
      then flag_cmd ''XT'' (tx_xit_enabled (r_transmitter (ca_radio c))) (\<lambda>n. set_xit_enabled n i) cmd c
      else refuse c)"

definition cat_Z :: "cat_env \<Rightarrow> nat \<Rightarrow> string \<Rightarrow> cat \<Rightarrow> answer" where
  "cat_Z e i cmd c = (if chr_at cmd 1 = CHR ''Z'' then parse_extended_cmd e i cmd c else refuse c)"

section \<open>One command, and the bytes of a client\<close>

text \<open>The letters E, H, J, O, Q, W and Y have no command that is implemented.\<close>

definition dispatch :: "cat_env \<Rightarrow> nat \<Rightarrow> string \<Rightarrow> cat \<Rightarrow> answer" where
  "dispatch e i cmd c =
     (let k = chr_at cmd 0
      in if k = CHR ''A'' then cat_A i cmd c else if k = CHR ''B'' then cat_B i cmd c
         else if k = CHR ''C'' then cat_C cmd c else if k = CHR ''D'' then cat_D i cmd c
         else if k = CHR ''F'' then cat_F i cmd c else if k = CHR ''G'' then cat_G i cmd c
         else if k = CHR ''I'' then cat_I i cmd c else if k = CHR ''K'' then cat_K cmd c
         else if k = CHR ''L'' then cat_L i cmd c else if k = CHR ''M'' then cat_M i cmd c
         else if k = CHR ''N'' then cat_N i cmd c else if k = CHR ''P'' then cat_P i cmd c
         else if k = CHR ''R'' then cat_R i cmd c else if k = CHR ''S'' then cat_S i cmd c
         else if k = CHR ''T'' then cat_T cmd c else if k = CHR ''U'' then cat_U i cmd c
         else if k = CHR ''V'' then cat_V i cmd c else if k = CHR ''X'' then cat_X i cmd c
         else if k = CHR ''Z'' then cat_Z e i cmd c else refuse c)"

text \<open>A command for a receiver that has been closed in the meantime is dropped.\<close>

definition parse_cmd :: "cat_env \<Rightarrow> nat \<Rightarrow> string \<Rightarrow> cat \<Rightarrow> cat \<times> string list" where
  "parse_cmd e i cmd c =
     (case slot (ca_console c) i of None \<Rightarrow> (c, [])
      | Some _ \<Rightarrow> (case dispatch e i cmd c of (c', replies, implemented) \<Rightarrow>
                     (c', if implemented then replies else replies @ [''?;''])))"

text \<open>\<open>rigctl_client\<close> (and \<open>serial_server\<close>): the command being collected and the
commands handed over; a run of bytes without a semicolon that would fill the buffer is thrown
away. \<open>recv\<close> delivers the bytes in pieces of any size.\<close>

definition MAXDATASIZE :: nat where "MAXDATASIZE = 2000"

definition client_byte :: "char \<Rightarrow> string \<times> string list \<Rightarrow> string \<times> string list" where
  "client_byte b s =
     (case s of (command, cmds) \<Rightarrow>
        (let command1 = (if length command \<ge> MAXDATASIZE - 1 then [] else command) @ [b]
         in if b = CHR '';'' then ([], cmds @ [command1]) else (command1, cmds)))"

definition rigctl_client :: "string list \<Rightarrow> string list" where
  "rigctl_client pieces = snd (fold (\<lambda>piece. fold client_byte piece) pieces ([], []))"

text \<open>The commands of a session, carried out one after the other.\<close>

fun session :: "cat_env \<Rightarrow> nat \<Rightarrow> string list \<Rightarrow> cat \<Rightarrow> cat \<times> string list" where
  "session e i [] c = (c, [])"
| "session e i (cmd # cmds) c =
     (case parse_cmd e i cmd c of (c1, out1) \<Rightarrow> (case session e i cmds c1 of (c2, out2) \<Rightarrow> (c2, out1 @ out2)))"

end
