(* ===== verification/Tci.thy ===== *)
theory Tci
  imports Cat Tci_Ws
begin

text \<open>The TCI server (\<open>src/proto/tci.c\<close>): text commands of several WebSocket clients
that control the receivers and the transmitter, and their subscriptions to the binary streams.

A command is handled on the thread of its client: a query is answered from the state as it is,
a setting is queued for the main loop (\<open>src/core/ext.c\<close>), which applies it a turn later. A
receiver is named by its slot, a client by its place in the table; \<open>tc_sent\<close> is what was sent
to whom. The radio exists (the server is started at the end of \<open>create_radio\<close>); a radio
that cannot transmit has no transmitter. The notifications that are merely dropped when a client
is busy are not modelled; the streams are those of \<open>Tci_Audio\<close>.\<close>

section \<open>State\<close>

datatype tci_op =
    TCI_OP_RIT_ENABLE | TCI_OP_RIT_OFFSET | TCI_OP_XIT_ENABLE | TCI_OP_XIT_OFFSET | TCI_OP_SPLIT | TCI_OP_IF
  | TCI_OP_MUTE | TCI_OP_VOLUME | TCI_OP_LOCK | TCI_OP_SUBRX | TCI_OP_MUTE_ALL | TCI_OP_VOLUME_ALL | TCI_OP_TUNE
  | TCI_OP_DRIVE | TCI_OP_TUNE_DRIVE

record tci_state_cmd =
  sc_op :: tci_op
  sc_rx_index :: int
  sc_b :: bool
  sc_v :: int
  sc_d :: real

datatype tci_idle =
    Idle_frequency_a nat int | Idle_frequency_b nat int | Idle_mode nat int | Idle_mox bool
  | Idle_state tci_state_cmd | Idle_cw_send string | Idle_cw_stop

record tci_client =
  tl_connected :: bool
  tl_iq_mask :: "32 word"
  tl_audio_mask :: "32 word"
  tl_tx_chrono :: bool

text \<open>What the settings ask of parts that are not modelled.\<close>

datatype tci_event = Te_drive real | Te_tx_ring_reset

record tci =
  tc_cat :: cat
  tc_show_rx :: "nat \<Rightarrow> bool"
  tc_clients :: "tci_client list"
  tc_iq_sub_count :: int
  tc_audio_sub_count :: int
  tc_audio_rx_mask :: "32 word"
  tc_audio_stream_rate :: int
  tc_tx_chrono_clients :: int
  tc_tx_chrono_samples :: int
  tc_tx_chrono_buffer_ms :: int
  tc_idle :: "tci_idle list"
  tc_sent :: "(nat \<times> string) list"
  tc_out :: "tci_event list"

text \<open>\<open>g_ascii_strtod\<close>, the clock and the setting of \<open>set_tune\<close>, and the number of
samples a text is encoded to, if it can be.\<close>

record tci_env =
  te_strtod :: "string \<Rightarrow> real"
  te_now :: int
  te_full_tune_time :: int
  te_encoded :: "string \<Rightarrow> int option"

abbreviation tc_console :: "tci \<Rightarrow> console" where "tc_console t \<equiv> ca_console (tc_cat t)"
abbreviation tc_radio :: "tci \<Rightarrow> radio" where "tc_radio t \<equiv> ca_radio (tc_cat t)"
abbreviation tc_can_transmit :: "tci \<Rightarrow> bool" where "tc_can_transmit t \<equiv> ca_can_transmit (tc_cat t)"

definition on_cat :: "(cat \<Rightarrow> cat) \<Rightarrow> tci \<Rightarrow> tci" where "on_cat f t = t\<lparr>tc_cat := f (tc_cat t)\<rparr>"

definition on_client :: "nat \<Rightarrow> (tci_client \<Rightarrow> tci_client) \<Rightarrow> tci \<Rightarrow> tci" where
  "on_client k f t = t\<lparr>tc_clients := (tc_clients t)[k := f (tc_clients t ! k)]\<rparr>"

definition client_send_text :: "nat \<Rightarrow> string \<Rightarrow> tci \<Rightarrow> tci" where
  "client_send_text k s t = (if tl_connected (tc_clients t ! k) then t\<lparr>tc_sent := tc_sent t @ [(k, s)]\<rparr> else t)"

definition g_idle_add :: "tci_idle \<Rightarrow> tci \<Rightarrow> tci" where
  "g_idle_add x t = t\<lparr>tc_idle := tc_idle t @ [x]\<rparr>"

section \<open>Words of the protocol\<close>

definition g_ascii_tolower :: "string \<Rightarrow> string" where "g_ascii_tolower s = map tolower_c s"

definition g_strstrip :: "string \<Rightarrow> string" where
  "g_strstrip s = rev (dropWhile g_ascii_isspace (rev (dropWhile g_ascii_isspace s)))"

definition g_ascii_strtoll :: "string \<Rightarrow> int" where
  "g_ascii_strtoll s =
     (let s1 = dropWhile g_ascii_isspace s;
          neg = (s1 \<noteq> [] \<and> hd s1 = CHR ''-'');
          s2 = (if s1 \<noteq> [] \<and> (hd s1 = CHR ''-'' \<or> hd s1 = CHR ''+'') then tl s1 else s1);
          v = int (digits_value (takeWhile isdigit_c s2))
      in if neg then max (- (2 ^ 63)) (- v) else min (2 ^ 63 - 1) v)"

text \<open>At most \<open>n\<close> tokens, each stripped of blanks.\<close>

fun tokens :: "nat \<Rightarrow> char \<Rightarrow> string \<Rightarrow> string list" where
  "tokens 0 d s = []"
| "tokens (Suc n) d s = (case strtok d s of None \<Rightarrow> [] | Some (tok, r) \<Rightarrow> g_strstrip tok # tokens n d r)"

definition truth :: "bool \<Rightarrow> string" where "truth b = (if b then ''true'' else ''false'')"

definition tci_argbool :: "string \<Rightarrow> bool" where
  "tci_argbool s \<longleftrightarrow> g_ascii_tolower s = ''true'' \<or> s = ''1''"

fun with_commas :: "string list \<Rightarrow> string" where
  "with_commas [] = []"
| "with_commas [f] = f"
| "with_commas (f # g # fs) = f @ '','' @ with_commas (g # fs)"

definition line :: "string \<Rightarrow> string list \<Rightarrow> string" where
  "line name fs = name @ '':'' @ with_commas fs @ '';''"

definition mode_to_tci :: "int \<Rightarrow> string" where
  "mode_to_tci m =
     (if m = LSB then ''lsb'' else if m = USB then ''usb'' else if m = DSB then ''dsb'' else if m = CWL \<or> m = CWU then ''cw''
      else if m = FMN then ''nfm'' else if m = AM then ''am'' else if m = DIGU then ''digu'' else if m = SPEC then ''spec''
      else if m = DIGL then ''digl'' else if m = SAM then ''sam'' else if m = DRM then ''drm'' else if m = WFM then ''wfm''
      else ''usb'')"

definition tci_to_mode :: "string \<Rightarrow> int" where
  "tci_to_mode s0 =
     (let s = g_ascii_tolower s0
      in if s = ''lsb'' then LSB else if s = ''usb'' then USB else if s = ''dsb'' then DSB else if s = ''cw'' then CWU
         else if s = ''cwu'' then CWU else if s = ''cwl'' then CWL else if s = ''nfm'' then FMN else if s = ''fm'' then FMN
         else if s = ''am'' then AM else if s = ''digu'' then DIGU else if s = ''digl'' then DIGL else if s = ''spec'' then SPEC
         else if s = ''sam'' then SAM else if s = ''drm'' then DRM else if s = ''wfm'' then WFM else - 1)"

definition TCI_VOL_MIN_DB :: int where "TCI_VOL_MIN_DB = - 60"

definition tci_db_to_gain :: "real \<Rightarrow> real" where
  "tci_db_to_gain db =
     (if db \<le> of_int TCI_VOL_MIN_DB then 0 else if db \<ge> 0 then 1 else 10 powr (db / 20))"

definition tci_gain_to_db :: "real \<Rightarrow> int" where
  "tci_gain_to_db gain =
     (if gain \<le> 0 then TCI_VOL_MIN_DB else if gain \<ge> 1 then 0
      else (let db = llround (20 * log 10 gain); db1 = (if db < TCI_VOL_MIN_DB then TCI_VOL_MIN_DB else db)
            in if db1 > 0 then 0 else db1))"

section \<open>Receivers as clients see them\<close>

definition MAX_RECEIVERS :: nat where "MAX_RECEIVERS = 8"

definition visible :: "tci \<Rightarrow> nat list" where
  "visible t = filter (\<lambda>i. slot (tc_console t) i \<noteq> None \<and> tc_show_rx t i) [0 ..< MAX_RECEIVERS]"

definition tci_trx_count :: "tci \<Rightarrow> int" where
  "tci_trx_count t = (let n = int (length (visible t)) in if n > 0 then n else 1)"

definition tci_rx_index :: "nat \<Rightarrow> tci \<Rightarrow> int" where
  "tci_rx_index i t = (if i \<in> set (visible t) then int (length (filter (\<lambda>j. j < i) (visible t))) else - 1)"

definition tci_tx_index :: "tci \<Rightarrow> int" where
  "tci_tx_index t =
     (if \<not> tc_can_transmit t then 0
      else (case tx_rx (r_transmitter (tc_radio t)) of None \<Rightarrow> 0
            | Some i \<Rightarrow> (let idx = tci_rx_index i t in if idx \<ge> 0 then idx else 0)))"

definition tci_rx_at :: "int \<Rightarrow> tci \<Rightarrow> nat option" where
  "tci_rx_at idx t =
     (if 0 \<le> idx \<and> idx < int (length (visible t)) then Some (visible t ! nat idx) else None)"

section \<open>Settings, on the main loop\<close>

definition ext_set_frequency_a :: "nat \<Rightarrow> int \<Rightarrow> cat \<Rightarrow> cat" where
  "ext_set_frequency_a i hz c = tune_rx i (vfo_apply_frequency hz False) c"

definition ext_set_frequency_b :: "nat \<Rightarrow> int \<Rightarrow> cat \<Rightarrow> cat" where
  "ext_set_frequency_b i nf c =
     tune_rx i (\<lambda>t.
       (let rx = t_rx t; fmax = receiver_max_frequency (t_radio t) rx; b = rx_frequency_b rx
        in if rx_locked rx \<or> (nf \<le> 0 \<and> nf < b) \<or> (nf > fmax \<and> nf > b) then t
           else out Ev_Vfo (frequency_changed (upd (\<lambda>rx. rx\<lparr>rx_frequency_b := nf,
                  rx_band_b := get_band_from_frequency (t_radio t) nf\<rparr>) t)))) c"

definition ext_set_mode :: "nat \<Rightarrow> int \<Rightarrow> cat \<Rightarrow> cat" where
  "ext_set_mode i m c = tune_rx i (vfo_set_mode m) c"

definition tci_op_is_global :: "tci_op \<Rightarrow> bool" where
  "tci_op_is_global op \<longleftrightarrow> op \<in> {TCI_OP_MUTE_ALL, TCI_OP_VOLUME_ALL, TCI_OP_TUNE, TCI_OP_DRIVE, TCI_OP_TUNE_DRIVE}"

definition set_audio :: "(panel \<Rightarrow> panel) \<Rightarrow> nat \<Rightarrow> cat \<Rightarrow> cat" where
  "set_audio f i c = on_console (\<lambda>st. receiver_set_volume i (on_panel i f st)) c"

definition tci_apply_global :: "tci_env \<Rightarrow> tci_state_cmd \<Rightarrow> tci \<Rightarrow> tci" where
  "tci_apply_global e s t =
     (let mute_or_volume = (\<lambda>p. if sc_op s = TCI_OP_MUTE_ALL then p\<lparr>pn_mute := sc_b s\<rparr> else p\<lparr>pn_volume := sc_d s\<rparr>);
          v = (let v1 = (if sc_d s < 0 then 0 else sc_d s) in if v1 > 100 then 100 else v1)
      in case sc_op s of
           TCI_OP_MUTE_ALL \<Rightarrow> fold (\<lambda>i. on_cat (\<lambda>c. shown_on i (set_audio mute_or_volume i c))) (visible t) t
         | TCI_OP_VOLUME_ALL \<Rightarrow> fold (\<lambda>i. on_cat (\<lambda>c. shown_on i (set_audio mute_or_volume i c))) (visible t) t
         | TCI_OP_TUNE \<Rightarrow>
             (if tc_can_transmit t
              then on_cat (on_console (on_keying (set_tune (te_now e) (te_full_tune_time e) (sc_b s)))) t else t)
         | TCI_OP_DRIVE \<Rightarrow>
             (if tc_can_transmit t
              then (on_cat (on_tx (\<lambda>tx. tx\<lparr>tx_drive := v\<rparr>)) t)\<lparr>tc_out := tc_out t @ [Te_drive v]\<rparr> else t)
         | TCI_OP_TUNE_DRIVE \<Rightarrow> (if tc_can_transmit t then on_cat (on_tx (\<lambda>tx. tx\<lparr>tx_tune_percent := v\<rparr>)) t else t)
         | _ \<Rightarrow> t)"

definition tci_if :: "int \<Rightarrow> tuner \<Rightarrow> tuner" where
  "tci_if v t =
     (if rx_locked (t_rx t) then t
      else frequency_changed (upd (\<lambda>rx. (if v \<noteq> 0 \<and> \<not> rx_ctun rx \<and> \<not> rx_freetune rx then rx\<lparr>rx_ctun := True\<rparr> else rx)
             \<lparr>rx_ctun_frequency := rx_frequency_a rx + v\<rparr>) t))"

definition tci_subrx :: "bool \<Rightarrow> tuner \<Rightarrow> tuner" where
  "tci_subrx b t =
     (if b \<and> \<not> rx_subrx_enable (t_rx t) then upd (\<lambda>rx. rx\<lparr>rx_subrx_enable := True\<rparr>) (create_subrx t)
      else if \<not> b \<and> rx_subrx_enable (t_rx t)
      then upd (\<lambda>rx. rx\<lparr>rx_subrx := False\<rparr>) (destroy_subrx (upd (\<lambda>rx. rx\<lparr>rx_subrx_enable := False\<rparr>) t))
      else t)"

definition tci_apply_rx :: "nat \<Rightarrow> tci_state_cmd \<Rightarrow> cat \<Rightarrow> cat" where
  "tci_apply_rx i s c =
     (case sc_op s of
        TCI_OP_RIT_ENABLE \<Rightarrow> tune_rx i (\<lambda>t. frequency_changed (upd (\<lambda>rx. rx\<lparr>rx_rit_enabled := sc_b s\<rparr>) t)) c
      | TCI_OP_RIT_OFFSET \<Rightarrow> tune_rx i (\<lambda>t. frequency_changed (upd (\<lambda>rx. rx\<lparr>rx_rit := sc_v s\<rparr>) t)) c
      | TCI_OP_XIT_ENABLE \<Rightarrow> (if ca_can_transmit c then on_tx (\<lambda>tx. tx\<lparr>tx_xit_enabled := sc_b s\<rparr>) c else c)
      | TCI_OP_XIT_OFFSET \<Rightarrow> (if ca_can_transmit c then on_tx (\<lambda>tx. tx\<lparr>tx_xit := sc_v s\<rparr>) c else c)
      | TCI_OP_SPLIT \<Rightarrow>
          tx_set_mode (if sc_b s then rx_mode_b else rx_mode_a) i (set_split (if sc_b s then SPLIT_ON else SPLIT_OFF) i c)
      | TCI_OP_IF \<Rightarrow> tune_rx i (tci_if (sc_v s)) c
      | TCI_OP_MUTE \<Rightarrow> set_audio (\<lambda>p. p\<lparr>pn_mute := sc_b s\<rparr>) i c
      | TCI_OP_VOLUME \<Rightarrow> set_audio (\<lambda>p. p\<lparr>pn_volume := sc_d s\<rparr>) i c
      | TCI_OP_LOCK \<Rightarrow> tune_rx i (upd (\<lambda>rx. rx\<lparr>rx_locked := sc_b s\<rparr>)) c
      | TCI_OP_SUBRX \<Rightarrow> tune_rx i (tci_subrx (sc_b s)) c
      | _ \<Rightarrow> c)"

definition tci_apply_state_idle :: "tci_env \<Rightarrow> tci_state_cmd \<Rightarrow> tci \<Rightarrow> tci" where
  "tci_apply_state_idle e s t =
     (if tci_op_is_global (sc_op s) then tci_apply_global e s t
      else (case (case tci_rx_at (sc_rx_index s) t of Some i \<Rightarrow> Some i | None \<Rightarrow> st_active (tc_console t)) of
              None \<Rightarrow> t
            | Some i \<Rightarrow> on_cat (\<lambda>c. shown_on i (tci_apply_rx i s c)) t))"

section \<open>Streams and the transmit audio of a client\<close>

definition popcount :: "32 word \<Rightarrow> int" where
  "popcount w = int (length (filter (bit w) [0 ..< 32]))"

text \<open>A negative index is the internal "every receiver".\<close>

definition mask_with :: "int \<Rightarrow> bool \<Rightarrow> 32 word \<Rightarrow> 32 word" where
  "mask_with rx_index on old =
     (let bits = (if rx_index < 0 then - 1 else push_bit (nat rx_index) 1) in if on then or old bits else and old (not bits))"

definition client_set_iq :: "nat \<Rightarrow> int \<Rightarrow> bool \<Rightarrow> tci \<Rightarrow> tci" where
  "client_set_iq k rx_index on t =
     (if rx_index \<ge> int MAX_RECEIVERS then t
      else (let old = tl_iq_mask (tc_clients t ! k); nw = mask_with rx_index on old
            in if nw = old then t
               else (on_client k (\<lambda>c. c\<lparr>tl_iq_mask := nw\<rparr>) t)
                 \<lparr>tc_iq_sub_count := tc_iq_sub_count t + popcount (xor nw old) * (if on then 1 else - 1)\<rparr>))"

definition audio_union :: "tci_client list \<Rightarrow> 32 word" where
  "audio_union cs = fold (\<lambda>c all. or all (tl_audio_mask c)) cs 0"

definition client_set_audio :: "nat \<Rightarrow> int \<Rightarrow> bool \<Rightarrow> tci \<Rightarrow> tci" where
  "client_set_audio k rx_index on t =
     (if rx_index \<ge> int MAX_RECEIVERS then t
      else (let old = tl_audio_mask (tc_clients t ! k); nw = mask_with rx_index on old
            in if nw = old then t
               else (let t1 = on_client k (\<lambda>c. c\<lparr>tl_audio_mask := nw\<rparr>) t
                     in t1\<lparr>tc_audio_sub_count := tc_audio_sub_count t + popcount (xor nw old) * (if on then 1 else - 1),
                           tc_audio_rx_mask := audio_union (tc_clients t1)\<rparr>)))"

definition tci_audio_subscribed :: "nat \<Rightarrow> tci \<Rightarrow> bool" where
  "tci_audio_subscribed i t \<longleftrightarrow> tci_rx_index i t \<ge> 0 \<and> bit (tc_audio_rx_mask t) (nat (tci_rx_index i t))"

definition tci_set_tx_chrono :: "nat \<Rightarrow> bool \<Rightarrow> tci \<Rightarrow> tci" where
  "tci_set_tx_chrono k on t =
     (if tl_tx_chrono (tc_clients t ! k) = on then t
      else (let t1 = on_client k (\<lambda>c. c\<lparr>tl_tx_chrono := on\<rparr>) t
            in if on then t1\<lparr>tc_tx_chrono_clients := tc_tx_chrono_clients t + 1,
                             tc_out := (if tc_tx_chrono_clients t = 0 then tc_out t @ [Te_tx_ring_reset] else tc_out t)\<rparr>
               else t1\<lparr>tc_tx_chrono_clients := tc_tx_chrono_clients t - 1\<rparr>))"

definition tci_tx_chrono_disarm_all :: "tci \<Rightarrow> tci" where
  "tci_tx_chrono_disarm_all t =
     fold (\<lambda>k t. if tl_connected (tc_clients t ! k) then tci_set_tx_chrono k False t else t) [0 ..< length (tc_clients t)] t"

text \<open>\<open>tci_notify_trx\<close> is called by \<open>set_mox\<close>.\<close>

definition tci_broadcast_text :: "string \<Rightarrow> tci \<Rightarrow> tci" where
  "tci_broadcast_text s t =
     (if length s > 160 then t else fold (\<lambda>k. client_send_text k s) [0 ..< length (tc_clients t)] t)"

definition tci_notify_trx :: "bool \<Rightarrow> tci \<Rightarrow> tci" where
  "tci_notify_trx mox t =
     (let t1 = (if mox then t else tci_tx_chrono_disarm_all t)
      in tci_broadcast_text (line ''trx'' [fmt_d (tci_tx_index t1), truth mox]) t1)"

definition tci_set_mox :: "bool \<Rightarrow> tci \<Rightarrow> tci" where
  "tci_set_mox b t = tci_notify_trx b (on_cat (on_console (on_keying (set_mox b))) t)"

definition on_cw :: "(cw_tx \<Rightarrow> cw_tx) \<Rightarrow> console \<Rightarrow> console" where
  "on_cw f st = st\<lparr>st_cw := f (st_cw st)\<rparr>"

definition run_idle_source :: "tci_env \<Rightarrow> tci_idle \<Rightarrow> tci \<Rightarrow> tci" where
  "run_idle_source e x t =
     (case x of
        Idle_frequency_a i hz \<Rightarrow> on_cat (ext_set_frequency_a i hz) t
      | Idle_frequency_b i hz \<Rightarrow> on_cat (ext_set_frequency_b i hz) t
      | Idle_mode i m \<Rightarrow> on_cat (ext_set_mode i m) t
      | Idle_mox b \<Rightarrow> tci_set_mox b t
      | Idle_state s \<Rightarrow> tci_apply_state_idle e s t
      | Idle_cw_send s \<Rightarrow> on_cat (on_console (on_cw (\<lambda>w. snd (cw_tx_send_text (te_now e) (te_encoded e s) s w)))) t
      | Idle_cw_stop \<Rightarrow> on_cat (on_console (on_cw cw_tx_abort)) t)"

definition main_loop :: "tci_env \<Rightarrow> tci \<Rightarrow> tci" where
  "main_loop e t = fold (run_idle_source e) (tc_idle t) (t\<lparr>tc_idle := []\<rparr>)"

section \<open>Commands\<close>

text \<open>A command as \<open>tci_handle_command\<close> takes it apart.\<close>

record tci_req =
  tq_token :: string
  tq_name :: string
  tq_args :: "string list"
  tq_req_index :: int
  tq_addr :: "nat option"
  tq_rx_index :: int
  tq_trx :: "nat option"

definition tci_request :: "string \<Rightarrow> tci \<Rightarrow> tci_req" where
  "tci_request token t =
     (let name = g_ascii_tolower (take 31 (takeWhile (\<lambda>c. c \<noteq> CHR '':'') token));
          args = (if CHR '':'' \<in> set token then tokens 4 (CHR '','') (take 127 (tl (dropWhile (\<lambda>c. c \<noteq> CHR '':'') token))) else []);
          req_index = (if args \<noteq> [] then atoi (args ! 0) else 0);
          addr = tci_rx_at req_index t
      in \<lparr>tq_token = token, tq_name = name, tq_args = args, tq_req_index = req_index, tq_addr = addr,
          tq_rx_index = (if addr \<noteq> None then req_index else 0),
          tq_trx = (if addr \<noteq> None then addr else st_active (tc_console t))\<rparr>)"

abbreviation nargs :: "tci_req \<Rightarrow> nat" where "nargs q \<equiv> length (tq_args q)"

definition is_tx :: "tci_req \<Rightarrow> tci \<Rightarrow> bool" where
  "is_tx q t \<longleftrightarrow> tq_addr q \<noteq> None \<and> tq_req_index q = tci_tx_index t"

definition tci_ack_echo :: "nat \<Rightarrow> tci_req \<Rightarrow> tci \<Rightarrow> tci" where
  "tci_ack_echo k q t = client_send_text k (take 159 (tq_token q @ '';'')) t"

definition tci_dispatch_state :: "int \<Rightarrow> tci_op \<Rightarrow> bool \<Rightarrow> int \<Rightarrow> real \<Rightarrow> tci \<Rightarrow> tci" where
  "tci_dispatch_state rx_index op b v d t =
     g_idle_add (Idle_state \<lparr>sc_op = op, sc_rx_index = rx_index, sc_b = b, sc_v = v, sc_d = d\<rparr>) t"

definition dispatch_set_mox :: "bool \<Rightarrow> tci \<Rightarrow> tci" where
  "dispatch_set_mox b t = (if tc_can_transmit t then g_idle_add (Idle_mox b) t else t)"

text \<open>The answer about the receiver addressed; without one, nothing or an echo.\<close>

definition answer_rx :: "(nat \<Rightarrow> string list) \<Rightarrow> string \<Rightarrow> nat \<Rightarrow> tci_req \<Rightarrow> tci \<Rightarrow> tci" where
  "answer_rx fs name k q t =
     (case tq_trx q of None \<Rightarrow> t | Some i \<Rightarrow> client_send_text k (line name (fmt_d (tq_rx_index q) # fs i)) t)"

definition answer_rx_or_echo :: "(nat \<Rightarrow> string list) \<Rightarrow> string \<Rightarrow> nat \<Rightarrow> tci_req \<Rightarrow> tci \<Rightarrow> tci" where
  "answer_rx_or_echo fs name k q t = (if tq_trx q = None then tci_ack_echo k q t else answer_rx fs name k q t)"

definition cmd_vfo :: "nat \<Rightarrow> tci_req \<Rightarrow> tci \<Rightarrow> tci" where
  "cmd_vfo k q t =
     (if nargs q \<ge> 3 then
        (let ch = atoi (tq_args q ! 1); hz = g_ascii_strtoll (tq_args q ! 2)
         in case tq_trx q of None \<Rightarrow> t
            | Some i \<Rightarrow> if ch = 0 then g_idle_add (Idle_frequency_a i hz) t
                        else if ch = 1 then g_idle_add (Idle_frequency_b i hz) t else t)
      else (let ch = (if nargs q \<ge> 2 then atoi (tq_args q ! 1) else 0)
            in answer_rx (\<lambda>i. let rx = rx_of (tc_console t) i
                 in [fmt_d ch, fmt_d (if ch = 1 then rx_frequency_b rx else receiver_tuned_frequency rx)]) ''vfo'' k q t))"

definition cmd_modulation :: "nat \<Rightarrow> tci_req \<Rightarrow> tci \<Rightarrow> tci" where
  "cmd_modulation k q t =
     (if nargs q \<ge> 2 then
        (let m = tci_to_mode (tq_args q ! 1)
         in case tq_trx q of None \<Rightarrow> t | Some i \<Rightarrow> if m \<ge> 0 then g_idle_add (Idle_mode i m) t else t)
      else answer_rx (\<lambda>i. [mode_to_tci (rx_mode_a (rx_of (tc_console t) i))]) ''modulation'' k q t)"

definition cmd_trx :: "nat \<Rightarrow> tci_req \<Rightarrow> tci \<Rightarrow> tci" where
  "cmd_trx k q t =
     (if nargs q \<ge> 2 then
        (if is_tx q t then
           (let on = tci_argbool (tq_args q ! 1); src_tci = (nargs q \<ge> 3 \<and> g_ascii_tolower (tq_args q ! 2) = ''tci'')
            in dispatch_set_mox on (tci_set_tx_chrono k (on \<and> src_tci) t))
         else t)
      else client_send_text k (line ''trx'' [fmt_d (tq_req_index q), truth (is_tx q t \<and> r_mox (tc_radio t))]) t)"

definition stream_start :: "(nat \<Rightarrow> int \<Rightarrow> bool \<Rightarrow> tci \<Rightarrow> tci) \<Rightarrow> string \<Rightarrow> nat \<Rightarrow> tci_req \<Rightarrow> tci \<Rightarrow> tci" where
  "stream_start subscribe name k q t =
     (if tq_addr q \<noteq> None then client_send_text k (line name [fmt_d (tq_req_index q)]) (subscribe k (tq_req_index q) True t) else t)"

definition stream_stop :: "(nat \<Rightarrow> int \<Rightarrow> bool \<Rightarrow> tci \<Rightarrow> tci) \<Rightarrow> string \<Rightarrow> nat \<Rightarrow> tci_req \<Rightarrow> tci \<Rightarrow> tci" where
  "stream_stop subscribe name k q t =
     (let idx = (if nargs q \<ge> 1 then (if tq_req_index q \<ge> 0 then tq_req_index q else int MAX_RECEIVERS) else - 1);
          t1 = subscribe k idx False t
      in if nargs q \<ge> 1 \<and> tq_req_index q \<ge> 0 then client_send_text k (line name [fmt_d (tq_req_index q)]) t1
         else tci_ack_echo k q t1)"

definition cmd_iq_samplerate :: "nat \<Rightarrow> tci_req \<Rightarrow> tci \<Rightarrow> tci" where
  "cmd_iq_samplerate k q t =
     client_send_text k (line ''iq_samplerate''
       [fmt_d (case tq_trx q of None \<Rightarrow> 48000 | Some i \<Rightarrow> rx_sample_rate (rx_of (tc_console t) i))]) t"

definition cmd_audio_samplerate :: "nat \<Rightarrow> tci_req \<Rightarrow> tci \<Rightarrow> tci" where
  "cmd_audio_samplerate k q t =
     (let t1 = (if nargs q \<ge> 1 \<and> atoi (tq_args q ! 0) > 0
                then t\<lparr>tc_audio_stream_rate := min 192000 (max 8000 (atoi (tq_args q ! 0)))\<rparr> else t)
      in client_send_text k (line ''audio_samplerate'' [fmt_d (tc_audio_stream_rate t1)]) t1)"

text \<open>RIT, XIT, split and the cursor.\<close>

definition cmd_rit_enable :: "nat \<Rightarrow> tci_req \<Rightarrow> tci \<Rightarrow> tci" where
  "cmd_rit_enable k q t =
     (if nargs q \<ge> 2 then tci_dispatch_state (tq_rx_index q) TCI_OP_RIT_ENABLE (tci_argbool (tq_args q ! 1)) 0 0 t
      else answer_rx (\<lambda>i. [truth (rx_rit_enabled (rx_of (tc_console t) i))]) ''rit_enable'' k q t)"

definition cmd_rit_offset :: "nat \<Rightarrow> tci_req \<Rightarrow> tci \<Rightarrow> tci" where
  "cmd_rit_offset k q t =
     (if nargs q \<ge> 2 then tci_dispatch_state (tq_rx_index q) TCI_OP_RIT_OFFSET False (g_ascii_strtoll (tq_args q ! 1)) 0 t
      else answer_rx (\<lambda>i. [fmt_d (rx_rit (rx_of (tc_console t) i))]) ''rit_offset'' k q t)"

definition cmd_xit_enable :: "nat \<Rightarrow> tci_req \<Rightarrow> tci \<Rightarrow> tci" where
  "cmd_xit_enable k q t =
     (if nargs q \<ge> 2 then tci_dispatch_state (tci_tx_index t) TCI_OP_XIT_ENABLE (tci_argbool (tq_args q ! 1)) 0 0 t
      else client_send_text k (line ''xit_enable'' [fmt_d (tci_tx_index t),
             truth (tc_can_transmit t \<and> tx_xit_enabled (r_transmitter (tc_radio t)))]) t)"

definition cmd_xit_offset :: "nat \<Rightarrow> tci_req \<Rightarrow> tci \<Rightarrow> tci" where
  "cmd_xit_offset k q t =
     (if nargs q \<ge> 2 then tci_dispatch_state (tci_tx_index t) TCI_OP_XIT_OFFSET False (g_ascii_strtoll (tq_args q ! 1)) 0 t
      else client_send_text k (line ''xit_offset'' [fmt_d (tci_tx_index t),
             fmt_d (if tc_can_transmit t then tx_xit (r_transmitter (tc_radio t)) else 0)]) t)"

definition cmd_split_enable :: "nat \<Rightarrow> tci_req \<Rightarrow> tci \<Rightarrow> tci" where
  "cmd_split_enable k q t =
     (if nargs q \<ge> 2 then tci_dispatch_state (tq_rx_index q) TCI_OP_SPLIT (tci_argbool (tq_args q ! 1)) 0 0 t
      else answer_rx (\<lambda>i. [truth (rx_split (rx_of (tc_console t) i) \<noteq> SPLIT_OFF)]) ''split_enable'' k q t)"

definition if_limit :: "tci_req \<Rightarrow> tci \<Rightarrow> int" where
  "if_limit q t =
     (case tq_trx q of None \<Rightarrow> 24000
      | Some i \<Rightarrow> (let rate = rx_sample_rate (rx_of (tc_console t) i) in if rate > 0 then rate sdiv 2 else 24000))"

definition cmd_if :: "nat \<Rightarrow> tci_req \<Rightarrow> tci \<Rightarrow> tci" where
  "cmd_if k q t =
     (if nargs q \<ge> 3 then
        (let chan = atoi (tq_args q ! 1); lim = if_limit q t;
             off1 = (let off = g_ascii_strtoll (tq_args q ! 2) in if off > lim then lim else off);
             off2 = (if off1 < - lim then - lim else off1)
         in if chan = 0 then tci_dispatch_state (tq_rx_index q) TCI_OP_IF False off2 0 t
            else client_send_text k (line ''if'' [fmt_d (tq_rx_index q), fmt_d chan, fmt_d off2]) t)
      else (let chan = (if nargs q \<ge> 2 then atoi (tq_args q ! 1) else 0)
            in answer_rx (\<lambda>i. let rx = rx_of (tc_console t) i
                 in [fmt_d chan, fmt_d (if chan = 0 \<and> (rx_ctun rx \<or> rx_freetune rx)
                                       then rx_ctun_frequency rx - rx_frequency_a rx else 0)]) ''if'' k q t))"

definition cmd_cw_msg :: "nat \<Rightarrow> tci_req \<Rightarrow> tci \<Rightarrow> tci" where
  "cmd_cw_msg k q t =
     (if is_tx q t then (case tci_cw_msg_text (tq_token q) of None \<Rightarrow> t | Some msg \<Rightarrow> g_idle_add (Idle_cw_send msg) t) else t)"

definition cmd_cw_macros_speed :: "nat \<Rightarrow> tci_req \<Rightarrow> tci \<Rightarrow> tci" where
  "cmd_cw_macros_speed k q t =
     (if nargs q \<ge> 1 then
        (let wpm = atoi (tq_args q ! 0)
         in if 5 \<le> wpm \<and> wpm \<le> 60 then on_cat (on_console (on_radio (\<lambda>r. r\<lparr>r_cw_keyer_speed := of_int wpm\<rparr>))) t else t)
      else client_send_text k (line ''cw_macros_speed'' [fmt_d (uint (r_cw_keyer_speed (tc_radio t)))]) t)"

text \<open>Levels and switches.\<close>

definition active_panel :: "tci \<Rightarrow> panel option" where
  "active_panel t = map_option (st_panel (tc_console t)) (st_active (tc_console t))"

definition cmd_mute :: "nat \<Rightarrow> tci_req \<Rightarrow> tci \<Rightarrow> tci" where
  "cmd_mute k q t =
     (if nargs q \<ge> 1 then tci_dispatch_state 0 TCI_OP_MUTE_ALL (tci_argbool (tq_args q ! 0)) 0 0 t
      else client_send_text k (line ''mute'' [truth (case active_panel t of None \<Rightarrow> False | Some p \<Rightarrow> pn_mute p)]) t)"

definition cmd_volume :: "tci_env \<Rightarrow> nat \<Rightarrow> tci_req \<Rightarrow> tci \<Rightarrow> tci" where
  "cmd_volume e k q t =
     (if nargs q \<ge> 1 then tci_dispatch_state 0 TCI_OP_VOLUME_ALL False 0 (tci_db_to_gain (te_strtod e (tq_args q ! 0))) t
      else client_send_text k (line ''volume''
             [fmt_d (tci_gain_to_db (case active_panel t of None \<Rightarrow> 0 | Some p \<Rightarrow> pn_volume p))]) t)"

definition cmd_rx_mute :: "nat \<Rightarrow> tci_req \<Rightarrow> tci \<Rightarrow> tci" where
  "cmd_rx_mute k q t =
     (if nargs q \<ge> 2 then tci_dispatch_state (tq_rx_index q) TCI_OP_MUTE (tci_argbool (tq_args q ! 1)) 0 0 t
      else answer_rx_or_echo (\<lambda>i. [truth (pn_mute (st_panel (tc_console t) i))]) ''rx_mute'' k q t)"

definition cmd_rx_volume :: "tci_env \<Rightarrow> nat \<Rightarrow> tci_req \<Rightarrow> tci \<Rightarrow> tci" where
  "cmd_rx_volume e k q t =
     (let chan = (if nargs q \<ge> 2 then atoi (tq_args q ! 1) else 0)
      in if nargs q \<ge> 3 \<and> chan = 0
         then tci_dispatch_state (tq_rx_index q) TCI_OP_VOLUME False 0 (tci_db_to_gain (te_strtod e (tq_args q ! 2))) t
         else answer_rx_or_echo (\<lambda>i. [fmt_d chan, fmt_d (tci_gain_to_db (pn_volume (st_panel (tc_console t) i)))])
                ''rx_volume'' k q t)"

definition level_of_tx :: "(transmitter \<Rightarrow> real) \<Rightarrow> string \<Rightarrow> tci_op \<Rightarrow> tci_env \<Rightarrow> nat \<Rightarrow> tci_req \<Rightarrow> tci \<Rightarrow> tci" where
  "level_of_tx level name op e k q t =
     (if nargs q \<ge> 1 then tci_dispatch_state 0 op False 0 (te_strtod e (tq_args q ! 0)) t
      else if tc_can_transmit t then client_send_text k (line name [fmt_d (llround (level (r_transmitter (tc_radio t))))]) t
      else tci_ack_echo k q t)"

definition cmd_tune :: "nat \<Rightarrow> tci_req \<Rightarrow> tci \<Rightarrow> tci" where
  "cmd_tune k q t =
     (if nargs q \<ge> 2 then
        (if is_tx q t then tci_dispatch_state 0 TCI_OP_TUNE (tci_argbool (tq_args q ! 1)) 0 0 t else t)
      else client_send_text k (line ''tune'' [fmt_d (tq_req_index q), truth (is_tx q t \<and> r_tune (tc_radio t))]) t)"

definition cmd_lock :: "nat \<Rightarrow> tci_req \<Rightarrow> tci \<Rightarrow> tci" where
  "cmd_lock k q t =
     (if nargs q \<ge> 2 then tci_dispatch_state (tq_rx_index q) TCI_OP_LOCK (tci_argbool (tq_args q ! 1)) 0 0 t
      else answer_rx_or_echo (\<lambda>i. [truth (rx_locked (rx_of (tc_console t) i))]) ''lock'' k q t)"

definition cmd_rx_channel_enable :: "nat \<Rightarrow> tci_req \<Rightarrow> tci \<Rightarrow> tci" where
  "cmd_rx_channel_enable k q t =
     (let chan = (if nargs q \<ge> 2 then atoi (tq_args q ! 1) else 0)
      in if nargs q \<ge> 3 \<and> chan = 1 \<and> tq_addr q \<noteq> None
         then tci_dispatch_state (tq_rx_index q) TCI_OP_SUBRX (tci_argbool (tq_args q ! 2)) 0 0 t
         else answer_rx_or_echo (\<lambda>i. [fmt_d chan, truth (if chan = 0 then True else chan = 1 \<and> rx_subrx_enable (rx_of (tc_console t) i))])
                ''rx_channel_enable'' k q t)"

definition cmd_rx_smeter :: "nat \<Rightarrow> tci_req \<Rightarrow> tci \<Rightarrow> tci" where
  "cmd_rx_smeter k q t =
     (let chan = (if nargs q \<ge> 2 then atoi (tq_args q ! 1) else 0)
      in answer_rx_or_echo (\<lambda>i. [fmt_d chan, fmt_d (llround (cx_meter_db (ca_rx (tc_cat t) i)))]) ''rx_smeter'' k q t)"

definition cmd_audio_stream_samples :: "nat \<Rightarrow> tci_req \<Rightarrow> tci \<Rightarrow> tci" where
  "cmd_audio_stream_samples k q t =
     (let t1 = (if nargs q \<ge> 1 then t\<lparr>tc_tx_chrono_samples := min 2048 (max 100 (atoi (tq_args q ! 0)))\<rparr> else t)
      in client_send_text k (line ''audio_stream_samples'' [fmt_d (tc_tx_chrono_samples t1)]) t1)"

definition cmd_tx_stream_audio_buffering :: "nat \<Rightarrow> tci_req \<Rightarrow> tci \<Rightarrow> tci" where
  "cmd_tx_stream_audio_buffering k q t =
     (let t1 = (if nargs q \<ge> 1 then t\<lparr>tc_tx_chrono_buffer_ms := min 1000 (max 0 (atoi (tq_args q ! 0)))\<rparr> else t)
      in client_send_text k (line ''tx_stream_audio_buffering'' [fmt_d (tc_tx_chrono_buffer_ms t1)]) t1)"

definition TCI_MODLIST :: string where "TCI_MODLIST = ''am,sam,dsb,lsb,usb,cw,nfm,digl,digu,wfm,drm,spec''"

text \<open>What is the same for every client, in commands and in the greeting.\<close>

definition facts :: "tci \<Rightarrow> (string \<times> string) list" where
  "facts t =
     [(''channels_count'', ''channels_count:2;''), (''device'', ''device:MacHPSDR;''),
      (''protocol'', ''protocol:ExpertSDR3,1.9;''),
      (''receive_only'', if tc_can_transmit t then ''receive_only:false;'' else ''receive_only:true;''),
      (''vfo_limits'', line ''vfo_limits'' [''0'', fmt_d RECEIVER_FREQ_CEILING_HZ]),
      (''modulations_list'', ''modulations_list:'' @ TCI_MODLIST @ '';''),
      (''trx_count'', line ''trx_count'' [fmt_d (tci_trx_count t)]),
      (''audio_stream_sample_type'', ''audio_stream_sample_type:float32;''),
      (''audio_stream_channels'', ''audio_stream_channels:2;'')]"

definition tci_handle_command :: "tci_env \<Rightarrow> nat \<Rightarrow> string \<Rightarrow> tci \<Rightarrow> tci" where
  "tci_handle_command e k token t =
     (let q = tci_request token t; name = tq_name q
      in if name = ''vfo'' \<or> name = ''dds'' then cmd_vfo k q t
         else if name = ''modulation'' \<or> name = ''trx_mode'' then cmd_modulation k q t
         else if name = ''trx'' then cmd_trx k q t
         else if name = ''iq_start'' then stream_start client_set_iq ''iq_start'' k q t
         else if name = ''iq_stop'' then stream_stop client_set_iq ''iq_stop'' k q t
         else if name = ''iq_samplerate'' \<or> name = ''iq_sample_rate'' then cmd_iq_samplerate k q t
         else if name = ''audio_start'' then stream_start client_set_audio ''audio_start'' k q t
         else if name = ''audio_stop'' then stream_stop client_set_audio ''audio_stop'' k q t
         else if name = ''audio_samplerate'' \<or> name = ''audio_sample_rate'' then cmd_audio_samplerate k q t
         else if name = ''rit_enable'' then cmd_rit_enable k q t
         else if name = ''rit_offset'' then cmd_rit_offset k q t
         else if name = ''xit_enable'' then cmd_xit_enable k q t
         else if name = ''xit_offset'' then cmd_xit_offset k q t
         else if name = ''split_enable'' then cmd_split_enable k q t
         else if name = ''if'' then cmd_if k q t
         else if name = ''cw_msg'' then cmd_cw_msg k q t
         else if name = ''cw_macros_stop'' \<or> name = ''cw_stop'' then g_idle_add Idle_cw_stop t
         else if name = ''cw_macros_speed'' then cmd_cw_macros_speed k q t
         else if name = ''mute'' then cmd_mute k q t
         else if name = ''volume'' then cmd_volume e k q t
         else if name = ''rx_mute'' then cmd_rx_mute k q t
         else if name = ''rx_volume'' then cmd_rx_volume e k q t
         else if name = ''drive'' then level_of_tx tx_drive ''drive'' TCI_OP_DRIVE e k q t
         else if name = ''tune_drive'' then level_of_tx tx_tune_percent ''tune_drive'' TCI_OP_TUNE_DRIVE e k q t
         else if name = ''tune'' then cmd_tune k q t
         else if name = ''lock'' then cmd_lock k q t
         else if name = ''rx_enable''
         then client_send_text k (line ''rx_enable'' [fmt_d (tq_req_index q), truth (tq_addr q \<noteq> None)]) t
         else if name = ''rx_channel_enable'' then cmd_rx_channel_enable k q t
         else if name = ''rx_smeter'' then cmd_rx_smeter k q t
         else if name = ''sql_enable''
         then answer_rx_or_echo (\<lambda>i. [truth (rx_squelch_enable (rx_of (tc_console t) i))]) ''sql_enable'' k q t
         else if name = ''audio_stream_samples'' then cmd_audio_stream_samples k q t
         else if name = ''tx_stream_audio_buffering'' then cmd_tx_stream_audio_buffering k q t
         else if name = ''if_limits''
         then client_send_text k (line ''if_limits'' [fmt_d (- if_limit q t), fmt_d (if_limit q t)]) t
         else (case map_of (facts t) name of Some s \<Rightarrow> client_send_text k s t | None \<Rightarrow> tci_ack_echo k q t))"

text \<open>The commands of one text message.\<close>

definition tci_commands :: "string \<Rightarrow> string list" where
  "tci_commands text =
     (let s = takeWhile (\<lambda>c. c \<noteq> CHR 0x00) text in filter (\<lambda>cmd. cmd \<noteq> []) (tokens (length s) (CHR '';'') s))"

definition tci_process_text :: "tci_env \<Rightarrow> nat \<Rightarrow> string \<Rightarrow> tci \<Rightarrow> tci" where
  "tci_process_text e k text t = fold (tci_handle_command e k) (tci_commands text) t"

section \<open>Clients come and go\<close>

definition trx_lines :: "tci \<Rightarrow> int \<Rightarrow> string list" where
  "trx_lines t idx =
     (case tci_rx_at idx t of None \<Rightarrow> []
      | Some i \<Rightarrow> (let rx = rx_of (tc_console t) i; n = fmt_d idx
                   in [line ''vfo'' [n, ''0'', fmt_d (receiver_tuned_frequency rx)], line ''vfo'' [n, ''1'', fmt_d (rx_frequency_b rx)],
                       line ''modulation'' [n, mode_to_tci (rx_mode_a rx)], line ''rit_enable'' [n, truth (rx_rit_enabled rx)],
                       line ''rit_offset'' [n, fmt_d (rx_rit rx)], line ''split_enable'' [n, truth (rx_split rx \<noteq> SPLIT_OFF)],
                       line ''tx_enable'' [n, truth (idx = tci_tx_index t \<and> tc_can_transmit t)]]))"

definition tx_lines :: "tci \<Rightarrow> string list" where
  "tx_lines t =
     (let tx = r_transmitter (tc_radio t); n = fmt_d (tci_tx_index t)
      in if tc_can_transmit t
         then [line ''xit_enable'' [n, truth (tx_xit_enabled tx)], line ''xit_offset'' [n, fmt_d (tx_xit tx)],
               line ''trx'' [n, truth (r_mox (tc_radio t))]]
         else [])"

definition greeting :: "tci \<Rightarrow> string list" where
  "greeting t =
     (let rate = map_option (\<lambda>i. rx_sample_rate (rx_of (tc_console t) i)) (st_active (tc_console t));
          fact = (\<lambda>name. the (map_of (facts t) name))
      in map fact [''protocol'', ''device'', ''receive_only'', ''trx_count'', ''channels_count'', ''vfo_limits'']
         @ [case rate of None \<Rightarrow> ''if_limits:-24000,24000;''
            | Some r \<Rightarrow> if r > 0 then line ''if_limits'' [fmt_d (- r sdiv 2), fmt_d (r sdiv 2)] else ''if_limits:-24000,24000;'']
         @ [fact ''modulations_list'', line ''audio_samplerate'' [fmt_d (tc_audio_stream_rate t)]]
         @ (case rate of None \<Rightarrow> [] | Some r \<Rightarrow> [line ''iq_samplerate'' [fmt_d r]])
         @ concat (map (trx_lines t) [0 .. tci_trx_count t - 1]) @ tx_lines t @ [''start;'', ''ready;''])"

definition tci_send_handshake :: "nat \<Rightarrow> tci \<Rightarrow> tci" where
  "tci_send_handshake k t = fold (client_send_text k) (greeting t) t"

text \<open>The server before its first client.\<close>

definition TCI_MAX_CLIENTS :: nat where "TCI_MAX_CLIENTS = 8"

definition tci_init :: "cat \<Rightarrow> (nat \<Rightarrow> bool) \<Rightarrow> tci" where
  "tci_init c show_rx =
     \<lparr>tc_cat = c, tc_show_rx = show_rx,
      tc_clients = replicate TCI_MAX_CLIENTS \<lparr>tl_connected = False, tl_iq_mask = 0, tl_audio_mask = 0, tl_tx_chrono = False\<rparr>,
      tc_iq_sub_count = 0, tc_audio_sub_count = 0, tc_audio_rx_mask = 0, tc_audio_stream_rate = 48000,
      tc_tx_chrono_clients = 0, tc_tx_chrono_samples = 2048, tc_tx_chrono_buffer_ms = 50, tc_idle = [], tc_sent = [],
      tc_out = []\<rparr>"

text \<open>A connection takes the first free place, if there is one.\<close>

definition tci_accept :: "tci \<Rightarrow> tci" where
  "tci_accept t =
     (case find (\<lambda>k. \<not> tl_connected (tc_clients t ! k)) [0 ..< length (tc_clients t)] of
        None \<Rightarrow> t
      | Some k \<Rightarrow> tci_send_handshake k
          (on_client k (\<lambda>c. c\<lparr>tl_connected := True, tl_iq_mask := 0, tl_audio_mask := 0\<rparr>) t))"

definition clients_remove :: "nat \<Rightarrow> tci \<Rightarrow> tci" where
  "clients_remove k t =
     on_client k (\<lambda>c. c\<lparr>tl_connected := False\<rparr>)
       (tci_set_tx_chrono k False (client_set_audio k (- 1) False (client_set_iq k (- 1) False t)))"

text \<open>What happens to the server: a connection, a command of a connected client, the end of a
client, a turn of the main loop, and MOX switched by the operator.\<close>

datatype tci_step = Accept | Command nat string | Leave nat | Main_loop | Operator_mox bool

fun tci_run :: "tci_env \<Rightarrow> tci_step \<Rightarrow> tci \<Rightarrow> tci" where
  "tci_run e Accept t = tci_accept t"
| "tci_run e (Command k token) t =
     (if k < length (tc_clients t) \<and> tl_connected (tc_clients t ! k) then tci_handle_command e k token t else t)"
| "tci_run e (Leave k) t =
     (if k < length (tc_clients t) \<and> tl_connected (tc_clients t ! k) then clients_remove k t else t)"
| "tci_run e Main_loop t = main_loop e t"
| "tci_run e (Operator_mox b) t = tci_set_mox b t"

definition tci_after :: "tci_env \<Rightarrow> cat \<Rightarrow> (nat \<Rightarrow> bool) \<Rightarrow> tci_step list \<Rightarrow> tci" where
  "tci_after e c show_rx xs = fold (tci_run e) xs (tci_init c show_rx)"

end
