(* ===== verification/Cat_Session.thy ===== *)
theory Cat_Session
  imports Cat
begin

text \<open>What a CAT client can and cannot do to the radio: the bytes are cut into the commands
that were sent, however they arrive; no session takes a receiver out of its tables; the
frequency set is the frequency read.\<close>

section \<open>Numbers in a field\<close>

lemma digits_value_bound: "\<forall>c \<in> set s. isdigit_c c \<Longrightarrow> digits_value s < 10 ^ length s"
proof (induction s rule: rev_induct)
  case (snoc c s)
  have "digits_value (s @ [c]) = 10 * digits_value s + (of_char c - 48)" by (simp add: digits_value_def)
  moreover have "of_char c - 48 \<le> (9 :: nat)" using snoc.prems by (auto simp: isdigit_c_def)
  ultimately show ?case using snoc by simp
qed (simp add: digits_value_def)

definition after_sign :: "string \<Rightarrow> string" where
  "after_sign s = (if s \<noteq> [] \<and> (hd s = CHR ''-'' \<or> hd s = CHR ''+'') then tl s else s)"

lemma atoi_abs: "\<bar>atoi s\<bar> = int (digits_value (takeWhile isdigit_c (after_sign (dropWhile isspace_c s))))"
  unfolding atoi_def after_sign_def Let_def by (simp only: abs_minus_cancel abs_of_nat if_distrib[of abs] if_cancel)

lemma atoi_before: "\<bar>atoi (u @ CHR '';'' # v)\<bar> < 10 ^ length u"
proof -
  have sc: "\<not> isspace_c CHR '';''" "\<not> isdigit_c CHR '';''" by (simp_all add: isspace_c_def isdigit_c_def)
  define w where "w = after_sign (dropWhile isspace_c u)"
  have d: "dropWhile isspace_c (u @ CHR '';'' # v) = dropWhile isspace_c u @ CHR '';'' # v"
    using sc(1) by (induction u) auto
  have a: "after_sign (x @ CHR '';'' # v) = after_sign x @ CHR '';'' # v" for x
    by (cases x) (simp_all add: after_sign_def)
  have t: "takeWhile isdigit_c (w @ CHR '';'' # v) = takeWhile isdigit_c w"
    using sc(2) by (induction w) auto
  have "length w \<le> length (dropWhile isspace_c u)" by (simp add: w_def after_sign_def)
  hence "length (takeWhile isdigit_c w) \<le> length u"
    using length_takeWhile_le[of isdigit_c w] length_dropWhile_le[of isspace_c u] by linarith
  hence "(10 :: nat) ^ length (takeWhile isdigit_c w) \<le> 10 ^ length u" by simp
  moreover have "digits_value (takeWhile isdigit_c w) < 10 ^ length (takeWhile isdigit_c w)"
    by (rule digits_value_bound) (auto dest: set_takeWhileD)
  ultimately have "digits_value (takeWhile isdigit_c w) < 10 ^ length u" by linarith
  hence "int (digits_value (takeWhile isdigit_c w)) < 10 ^ length u"
    using of_nat_less_iff[where 'a = int] by (metis of_nat_numeral of_nat_power)
  thus ?thesis unfolding atoi_abs d a w_def[symmetric] t .
qed

text \<open>A number of \<open>d\<close> characters before the semicolon.\<close>

lemma num_bound:
  assumes "ends cmd (k + d)" shows "\<bar>num k cmd\<bar> < 10 ^ d"
proof -
  have l: "k + d < length cmd" and c: "cmd ! (k + d) = CHR '';''"
    using assms by (auto simp: ends_def chr_at_def split: if_splits)
  have "drop k cmd = take d (drop k cmd) @ CHR '';'' # drop (Suc d) (drop k cmd)"
    using l c id_take_nth_drop[of d "drop k cmd"] by simp
  thus ?thesis using atoi_before[of "take d (drop k cmd)" "drop (Suc d) (drop k cmd)"] l by (simp add: num_def)
qed

section \<open>Operations that keep the tables\<close>

text \<open>\<open>stays f\<close>: on receivers that are all in their tables, \<open>f\<close> keeps this one
there and leaves the others alone.\<close>

definition others_typed :: "tuner \<Rightarrow> bool" where
  "others_typed t \<longleftrightarrow> (\<forall>rx. Some rx \<in> set (r_receiver (t_radio t)) \<longrightarrow> rx_typed rx)"

definition same_place :: "tuner \<Rightarrow> tuner \<Rightarrow> bool" where
  "same_place t t' \<longleftrightarrow> t_index t' = t_index t \<and> r_receiver (t_radio t') = r_receiver (t_radio t)"

definition stays :: "(tuner \<Rightarrow> tuner) \<Rightarrow> bool" where
  "stays f \<longleftrightarrow> (\<forall>t. typed t \<and> others_typed t \<longrightarrow> typed (f t) \<and> same_place t (f t))"

definition cat_typed :: "console \<Rightarrow> bool" where
  "cat_typed st \<longleftrightarrow> filters_ok (st_filters st) \<and> length (r_bands (st_radio st)) = nat (BANDS + XVTRS) \<and>
     (\<forall>bd \<in> set (r_bands (st_radio st)). stack_typed bd) \<and> Ev_OutOfTable \<notin> set (st_out st) \<and>
     (\<forall>rx. Some rx \<in> set (r_receiver (st_radio st)) \<longrightarrow> rx_typed rx)"

lemma same_place_refl [simp]: "same_place t t" by (simp add: same_place_def)

lemma same_place_trans: "same_place t t' \<Longrightarrow> same_place t' t'' \<Longrightarrow> same_place t t''"
  by (simp add: same_place_def)

lemma same_place_simps [simp]:
  "same_place t (out e t') = same_place t t'" "same_place t (upd g t') = same_place t t'"
  "same_place t (frequency_changed t') = same_place t t'" "same_place t (update_frequency t') = same_place t t'"
  "same_place t (t'\<lparr>t_filters := fs\<rparr>) = same_place t t'"
  "same_place t (receiver_apply_shift off run t') = same_place t t'"
  by (simp_all add: same_place_def)

lemma same_place_filter [simp]: "same_place t (transmitter_set_filter low high t') = same_place t t'"
  by (simp add: same_place_def transmitter_set_filter_def Let_def split: option.split)

lemma same_place_tx [simp]:
  "same_place t (transmitter_set_mode m t') = same_place t t'" "same_place t (tx_follows_mode t') = same_place t t'"
  by (simp_all add: transmitter_set_mode_def tx_follows_mode_def)

lemma same_place_set_filter [simp]: "same_place t (set_filter low high t') = same_place t t'"
  by (simp add: set_filter_def Let_def)

lemma same_place_squelch [simp]: "same_place t (set_squelch t') = same_place t t'"
  by (simp add: set_squelch_def Let_def)

lemma same_place_filter_changed [simp]: "same_place t (receiver_filter_changed f t') = same_place t t'"
  by (simp add: receiver_filter_changed_def set_deviation_def Let_def split: option.split)

lemma same_place_mode [simp]: "same_place t (receiver_mode_changed m t') = same_place t t'"
  by (simp add: receiver_mode_changed_def on_channel_def Let_def)

lemma same_place_upd_band [simp]: "same_place t (upd_band b g t') = same_place t t'"
  by (simp add: same_place_def upd_band_def)

lemma same_place_band [simp]: "same_place t (set_band b e t') = same_place t t'"
  by (simp add: set_band_def receiver_band_changed_def band_tables_def Let_def)

lemma same_place_move_b [simp]: "same_place t (receiver_move_b hz b_only rnd t') = same_place t t'"
  by (simp add: receiver_move_b_def receiver_move_a_def same_place_def Let_def case_prod_beta split: split_type.split)

lemma same_place_move [simp]: "same_place t (receiver_move hz rnd t') = same_place t t'"
  by (simp add: same_place_def move_keeps_place)

lemma same_place_apply [simp]: "same_place t (vfo_apply_frequency hz is_b t') = same_place t t'"
  by (simp add: vfo_apply_frequency_def Let_def)

lemma same_place_ctun [simp]: "same_place t (receiver_set_ctun t') = same_place t t'"
  by (simp add: receiver_set_ctun_def Let_def)

lemma same_place_sub [simp]:
  "same_place t (subrx_filter_changed t') = same_place t t'" "same_place t (subrx_mode_changed t') = same_place t t'"
  by (simp_all add: subrx_filter_changed_def subrx_mode_changed_def)

lemma staysI: "(\<And>t. typed t \<Longrightarrow> typed (f t)) \<Longrightarrow> (\<And>t. same_place t (f t)) \<Longrightarrow> stays f"
  by (simp add: stays_def)

lemma stays_typed: "stays f \<Longrightarrow> typed t \<Longrightarrow> others_typed t \<Longrightarrow> typed (f t)"
  by (simp add: stays_def)

lemma stays_place: "stays f \<Longrightarrow> typed t \<Longrightarrow> others_typed t \<Longrightarrow> same_place t (f t)"
  by (simp add: stays_def)

lemma others_same_place: "same_place t t' \<Longrightarrow> others_typed t' = others_typed t"
  by (simp add: same_place_def others_typed_def)

lemma stays_comp: "stays f \<Longrightarrow> stays g \<Longrightarrow> stays (\<lambda>t. f (g t))"
  unfolding stays_def using others_same_place same_place_trans by blast

lemma stays_moves:
  "stays (receiver_move hz rnd)" "stays (receiver_move_b hz b_only rnd)" "stays (vfo_apply_frequency hz is_b)"
  "stays (receiver_filter_changed f)" "stays (receiver_mode_changed m)" "stays receiver_set_ctun"
  by (rule staysI; simp add: typed_filter_changed typed_mode_changed
      tunes_typed[OF _ tunes_move] tunes_typed[OF _ tunes_move_b[OF tunes_refl]]
      tunes_typed[OF _ tunes_apply_frequency] tunes_typed[OF _ tunes_set_ctun])+

lemma stays_upd: "(\<And>rx. rx_typed rx \<Longrightarrow> rx_typed (g rx)) \<Longrightarrow> stays (upd g)"
  by (auto simp: stays_def typed_def intro: typed_upd)

lemma stays_after_upd: "(\<And>rx. rx_typed rx \<Longrightarrow> rx_typed (g rx)) \<Longrightarrow> stays f \<Longrightarrow> stays (\<lambda>t. f (upd g t))"
  using stays_comp[OF _ stays_upd] by blast

lemma stays_if: "stays f \<Longrightarrow> stays g \<Longrightarrow> stays (\<lambda>t. if P t then f t else g t)"
  by (simp add: stays_def)

lemma stays_id: "stays (\<lambda>t. t)" by (simp add: stays_def)

lemma stays_retune: "stays frequency_changed" "stays update_frequency"
  by (rule staysI; simp add: typed_changed tunes_typed[OF _ tunes_update[OF tunes_refl]])+

lemma stays_sub: "stays subrx_filter_changed" "stays subrx_mode_changed"
  by (rule staysI; simp add: typed_subrx)+

lemma stays_band: "0 \<le> b \<Longrightarrow> b < BANDS + XVTRS \<Longrightarrow> stays (set_band b (- 1))"
  by (rule staysI) (simp_all add: typed_set_band entry_of_band_def)

lemma stays_vfo: "stays (out Ev_Vfo)"
  by (rule staysI) (simp_all add: typed_out)

text \<open>The transmitter's passband follows the receiver that owns it, which is in its tables
like all the others.\<close>

lemma tx_receiver_typed:
  assumes "typed t" "others_typed t" "tx_receiver (tuned_radio t) = Some rx"
  shows "rx_typed rx"
proof -
  have "Some rx \<in> set ((r_receiver (t_radio t))[t_index t := Some (t_rx t)])"
    using assms(3) by (auto simp: tx_receiver_def tuned_radio_def in_set_conv_nth split: option.splits if_splits)
  hence "Some rx \<in> insert (Some (t_rx t)) (set (r_receiver (t_radio t)))"
    using set_update_subset_insert by (metis subsetD)
  thus ?thesis using assms(1,2) by (auto simp: typed_def others_typed_def)
qed

lemma stays_tx_mode: "stays (\<lambda>t. transmitter_set_mode (m (t_rx t)) t)"
proof -
  have "typed (transmitter_set_filter low high t)" if t: "typed t" "others_typed t" for low high t
  proof -
    let ?r = "tuned_radio t"
    let ?row = "case tx_receiver ?r of Some rx \<Rightarrow> rx_filter_a rx | None \<Rightarrow> F5"
    have m: "0 \<le> transmitter_get_mode ?r \<and> transmitter_get_mode ?r < MODES"
      using tx_receiver_typed[OF t] by (auto simp: transmitter_get_mode_def rx_typed_def mode_defs split: option.split)
    have f: "0 \<le> ?row \<and> ?row < FILTERS"
      using tx_receiver_typed[OF t] by (auto simp: rx_typed_def filter_numbers split: option.split)
    obtain e where "filter_at (t_filters t) (transmitter_get_mode ?r) ?row = Some e"
      using typed_filter_at[OF t(1)] m f by blast
    thus ?thesis using t(1) by (auto simp: transmitter_set_filter_def Let_def intro!: typed_out typed_tx_radio)
  qed
  hence "typed (transmitter_set_mode k t)" if "typed t" "others_typed t" for k t
    using that by (simp add: transmitter_set_mode_def typed_out others_typed_def)
  thus ?thesis by (simp add: stays_def)
qed

definition edges_kept :: "(filter_entry \<Rightarrow> filter_entry) \<Rightarrow> bool" where
  "edges_kept g \<longleftrightarrow> (\<forall>f. \<bar>fl_low f\<bar> \<le> FILTER_EDGE_LIMIT_HZ \<and> \<bar>fl_high f\<bar> \<le> FILTER_EDGE_LIMIT_HZ \<longrightarrow>
     \<bar>fl_low (g f)\<bar> \<le> FILTER_EDGE_LIMIT_HZ \<and> \<bar>fl_high (g f)\<bar> \<le> FILTER_EDGE_LIMIT_HZ)"

lemma typed_put_var1: "typed t \<Longrightarrow> edges_kept g \<Longrightarrow> typed (put_var1 g t)"
  by (auto simp: typed_def env_typed_def env_def put_var1_def fault_def edges_kept_def intro!: filter_put_ok)

lemma stays_put_var1: "edges_kept g \<Longrightarrow> stays (put_var1 g)"
  using typed_put_var1 by (simp add: stays_def put_var1_def)

lemma stays_to_var1: "stays to_var1"
  using stays_if[OF stays_moves(4) stays_id, of "\<lambda>t. rx_filter_a (t_rx t) \<noteq> FVar1" FVar1]
  by (simp add: stays_def to_var1_def)

lemmas stays_rules = stays_moves stays_upd stays_if stays_id stays_retune stays_sub stays_band stays_vfo stays_tx_mode
  stays_put_var1 stays_to_var1

section \<open>Commands that keep the tables\<close>

lemma slot_in_set: "slot st i = Some rx \<Longrightarrow> Some rx \<in> set (r_receiver (st_radio st))"
  by (auto simp: slot_def in_set_conv_nth split: if_splits)

lemma cat_typed_rx: "cat_typed st \<Longrightarrow> slot st i = Some rx \<Longrightarrow> rx_typed rx"
  using slot_in_set by (auto simp: cat_typed_def)

lemma typed_tuner_of:
  assumes "cat_typed st" "slot st i = Some rx"
  shows "typed (tuner_of i rx st)" "others_typed (tuner_of i rx st)"
  using assms cat_typed_rx[OF assms]
  by (auto simp: cat_typed_def typed_def env_typed_def env_def fault_def tuner_of_def others_typed_def slot_def split: if_splits)

lemma cat_typed_on_rx:
  assumes "cat_typed st" "stays f"
  shows "cat_typed (on_rx i f st)"
proof (cases "slot st i")
  case (Some rx)
  let ?t = "tuner_of i rx st"
  have t: "typed (f ?t)" and p: "same_place ?t (f ?t)"
    using stays_typed[OF assms(2)] stays_place[OF assms(2)] typed_tuner_of[OF assms(1) Some] by blast+
  have "Some r \<in> set ((r_receiver (st_radio st))[i := Some (t_rx (f ?t))]) \<Longrightarrow> rx_typed r" for r
    using t assms(1) by (auto simp: cat_typed_def typed_def dest!: set_update_subset_insert[THEN subsetD])
  moreover have "on_rx i f st = put_tuner (f ?t) st" by (simp add: on_rx_def Some)
  ultimately show ?thesis using t p
    by (auto simp: cat_typed_def put_tuner_def on_radio_def on_keying_def tuned_radio_def same_place_def
        typed_def env_typed_def env_def fault_def)
qed (simp add: on_rx_def assms)

definition kept :: "answer \<Rightarrow> bool" where "kept a \<longleftrightarrow> cat_typed (ca_console (fst a))"

lemma kept_simps [simp]:
  "kept (reply s c) = cat_typed (ca_console c)" "kept (ok c) = cat_typed (ca_console c)"
  "kept (refuse c) = cat_typed (ca_console c)" "kept (c, out', imp) = cat_typed (ca_console c)"
  by (simp_all add: kept_def reply_def ok_def refuse_def)

text \<open>Two states with the same receivers, bands, filters and faults.\<close>

definition same_tables :: "console \<Rightarrow> console \<Rightarrow> bool" where
  "same_tables st st' \<longleftrightarrow> st_filters st' = st_filters st \<and> r_bands (st_radio st') = r_bands (st_radio st) \<and>
     r_receiver (st_radio st') = r_receiver (st_radio st) \<and> st_out st' = st_out st"

lemma cat_typed_cong: "same_tables st st' \<Longrightarrow> cat_typed st' = cat_typed st"
  by (simp add: same_tables_def cat_typed_def)

lemma kept_console [simp]:
  "ca_console (ca_event e c) = ca_console c" "ca_console (on_cx i f c) = ca_console c"
  "ca_console (on_ct g c) = ca_console c" "ca_console (a_flag n c) = ca_console c"
  "ca_console (set_mic_gain v c) = ca_console c" "ca_console (transmitter_set_ctcss b k c) = ca_console c"
  "ca_console (on_console h c) = h (ca_console c)" "ca_console (c\<lparr>ca_beyond := b\<rparr>) = ca_console c"
  by (simp_all add: ca_event_def on_cx_def on_ct_def a_flag_def set_mic_gain_def transmitter_set_ctcss_def on_console_def Let_def)

lemma typed_tune [intro]: "cat_typed (ca_console c) \<Longrightarrow> stays f \<Longrightarrow> cat_typed (ca_console (tune_rx i f c))"
  by (simp add: tune_rx_def cat_typed_on_rx)

lemma typed_vfo [simp]: "cat_typed st \<Longrightarrow> cat_typed (update_vfo i st)"
  by (simp add: update_vfo_def cat_typed_on_rx stays_vfo)

lemma typed_shown [simp]: "cat_typed (ca_console c) \<Longrightarrow> cat_typed (ca_console (shown_on i c))"
  by (simp add: shown_on_def)

lemma typed_panel [simp]:
  "cat_typed (on_panel i f st) = cat_typed st" "cat_typed (dsp i e st) = cat_typed st"
  "cat_typed (st\<lparr>st_fault := b\<rparr>) = cat_typed st"
  by (rule cat_typed_cong; simp add: same_tables_def on_panel_def dsp_def)+

lemma typed_pushes [simp]:
  "cat_typed st \<Longrightarrow> cat_typed (update_noise i st)" "cat_typed (receiver_set_volume i st) = cat_typed st"
  "cat_typed (receiver_set_agc_gain i st) = cat_typed st" "cat_typed (set_agc i st) = cat_typed st"
  by (simp_all add: update_noise_def receiver_set_volume_def receiver_set_agc_gain_def set_agc_def Let_def)

lemma typed_keying:
  "(\<And>k. r_bands (k_radio (f k)) = r_bands (k_radio k) \<and> r_receiver (k_radio (f k)) = r_receiver (k_radio k)) \<Longrightarrow>
   cat_typed (on_keying f st) = cat_typed st"
  by (rule cat_typed_cong) (simp add: same_tables_def on_keying_def)

lemma typed_radio:
  "(\<And>r. r_bands (f r) = r_bands r \<and> r_receiver (f r) = r_receiver r) \<Longrightarrow> cat_typed (on_radio f st) = cat_typed st"
  by (simp add: on_radio_def typed_keying)

lemma typed_keyings [simp]:
  "cat_typed (on_keying (set_mox b) st) = cat_typed st" "cat_typed (on_keying (set_tune now ftt b) st) = cat_typed st"
  "cat_typed (on_keying (vox_set_enabled b) st) = cat_typed st"
  "cat_typed (on_keying (\<lambda>k. k\<lparr>k_vox_threshold := v\<rparr>) st) = cat_typed st"
  "cat_typed (on_keying (\<lambda>k. k\<lparr>k_idle := k_idle k @ q\<rparr>) st) = cat_typed st"
  "cat_typed (on_transmitter h st) = cat_typed st"
  by (simp_all add: typed_keying typed_radio set_mox_def mox_stops_tune_def set_tune_def start_tune_def stop_tune_def
      radio_tune_program_signal_def vox_set_enabled_def vox_cancel_def vox_release_def vox_changed_def set_vox_def
      on_transmitter_def Let_def)

lemma typed_keyed [simp]:
  "cat_typed (ca_console (keyed (set_mox b) c)) = cat_typed (ca_console c)"
  "cat_typed (ca_console (keyed (set_tune now ftt b) c)) = cat_typed (ca_console c)"
  by (simp_all add: keyed_def)

lemma typed_on_adc [simp]: "cat_typed (ca_console (on_adc rx f c)) = cat_typed (ca_console c)"
  by (simp add: on_adc_def typed_radio)

lemma rx_typed_fields [simp]:
  "rx_typed (rx\<lparr>rx_rit := x\<rparr>) = rx_typed rx" "rx_typed (rx\<lparr>rx_rit_enabled := b\<rparr>) = rx_typed rx"
  "rx_typed (rx\<lparr>rx_locked := b\<rparr>) = rx_typed rx" "rx_typed (rx\<lparr>rx_split := sp\<rparr>) = rx_typed rx"
  "rx_typed (rx\<lparr>rx_agc := x\<rparr>) = rx_typed rx" "rx_typed (rx\<lparr>rx_step := x\<rparr>) = rx_typed rx"
  "rx_typed (rx\<lparr>rx_ctun := b\<rparr>) = rx_typed rx" "rx_typed (rx\<lparr>rx_frequency_b := x\<rparr>) = rx_typed rx"
  "rx_typed (rx\<lparr>rx_deviation := x\<rparr>) = rx_typed rx" "rx_typed (rx\<lparr>rx_waterfall_low := x\<rparr>) = rx_typed rx"
  "rx_typed (rx\<lparr>rx_waterfall_high := x\<rparr>) = rx_typed rx" "rx_typed (rx\<lparr>rx_panadapter_low := x\<rparr>) = rx_typed rx"
  "rx_typed (rx\<lparr>rx_panadapter_high := x\<rparr>) = rx_typed rx" "rx_typed (rx\<lparr>rx_panadapter_step := x\<rparr>) = rx_typed rx"
  by (simp_all add: rx_typed_def)

lemma typed_upd_rx:
  "cat_typed (ca_console c) \<Longrightarrow> \<forall>rx. rx_typed rx \<longrightarrow> rx_typed (f rx) \<Longrightarrow> cat_typed (ca_console (tune_rx i (upd f) c))"
  by (intro typed_tune stays_upd) simp_all

lemma stays_set_b: "stays (\<lambda>t. update_frequency (frequency_changed (upd (\<lambda>rx. rx\<lparr>rx_frequency_b := f\<rparr>) t)))"
  by (intro stays_comp[OF stays_retune(2)] stays_after_upd stays_retune) (simp add: rx_typed_def)

lemma typed_helpers [simp]:
  assumes "cat_typed (ca_console c)"
  shows "cat_typed (ca_console (set_rit g i c))" "cat_typed (ca_console (set_rit_enabled n i c))"
    "cat_typed (ca_console (set_noise h n i c))" "cat_typed (ca_console (set_volume v i c))"
    "cat_typed (ca_console (set_agc_to n i c))" "cat_typed (ca_console (cat_set_vfo_a i n c))"
    "cat_typed (ca_console (set_vfo_b i n c))" "cat_typed (ca_console (set_split_digit n i c))"
    "cat_typed (ca_console (tx_set_mode m i c))" "cat_typed (ca_console (set_locked b i c))"
    "cat_typed (ca_console (set_split sp i c))" "cat_typed (ca_console (on_tx k c))"
    "cat_typed (ca_console (set_xit_enabled n i c))"
proof -
  have s: "stays (\<lambda>t. frequency_changed (upd (\<lambda>rx. rx\<lparr>rx_rit_enabled := b\<rparr>) t))" for b
    by (rule stays_after_upd[OF _ stays_retune(1)]) (simp add: rx_typed_def)
  have b: "stays (\<lambda>t. if rx_locked (t_rx t) then t else update_frequency (frequency_changed (upd (\<lambda>rx. rx\<lparr>rx_frequency_b := f\<rparr>) t)))" for f
    by (intro stays_if stays_id stays_set_b)
  note d = set_rit_def set_rit_enabled_def set_noise_def set_volume_def set_agc_to_def cat_set_vfo_a_def set_vfo_b_def
    set_split_digit_def tx_set_mode_def set_locked_def set_split_def on_tx_def set_xit_enabled_def Let_def
  show "cat_typed (ca_console (set_rit g i c))" "cat_typed (ca_console (set_locked b i c))"
    "cat_typed (ca_console (set_split sp i c))" "cat_typed (ca_console (set_split_digit n i c))"
    using assms by (simp_all add: d typed_upd_rx)
  show "cat_typed (ca_console (set_rit_enabled n i c))" using typed_tune[OF _ s, of "a_flag n c"] assms by (simp add: d)
  show "cat_typed (ca_console (set_vfo_b i n c))" using typed_tune[OF assms b] by (simp add: d)
  show "cat_typed (ca_console (set_noise h n i c))" "cat_typed (ca_console (set_volume v i c))"
    "cat_typed (ca_console (on_tx k c))" "cat_typed (ca_console (set_xit_enabled n i c))"
    using assms by (simp_all add: d)
  show "cat_typed (ca_console (set_agc_to n i c))"
    using typed_upd_rx[OF assms, of "\<lambda>rx. rx\<lparr>rx_agc := n\<rparr>" i] by (simp add: d)
  show "cat_typed (ca_console (cat_set_vfo_a i n c))" using typed_tune[OF assms stays_moves(3)] assms by (simp add: d)
  show "cat_typed (ca_console (tx_set_mode m i c))" using typed_tune[OF assms stays_tx_mode] assms by (simp add: d)
qed

lemma typed_edit_filter:
  "cat_typed (ca_console c) \<Longrightarrow> edges_kept g \<Longrightarrow>
   cat_typed (ca_console (tune_rx i (\<lambda>t. receiver_filter_changed FVar1 (put_var1 g t)) c))"
  by (intro typed_tune stays_comp[OF stays_moves(4) stays_put_var1])

lemma typed_set_var1: "cat_typed (ca_console c) \<Longrightarrow> edges_kept g \<Longrightarrow> cat_typed (ca_console (set_var1 g i c))"
  unfolding set_var1_def
  by (intro typed_tune stays_comp[OF stays_moves(4) stays_comp[OF stays_put_var1 stays_to_var1]])

lemma typed_rx_mode: "cat_typed (ca_console c) \<Longrightarrow> 0 \<le> n \<Longrightarrow> n < MODES \<Longrightarrow>
    cat_typed (ca_console (tune_rx i (\<lambda>t. let t1 = upd (\<lambda>rx. rx\<lparr>rx_mode_b := n\<rparr>) t
       in if rx_subrx_enable (t_rx t1) then subrx_mode_changed t1 else t1) c))"
  unfolding Let_def
  by (intro typed_tune stays_if stays_after_upd stays_upd stays_sub) (simp_all add: rx_typed_def)

lemma typed_rx_filter: "cat_typed (ca_console c) \<Longrightarrow> 0 \<le> n \<Longrightarrow> n < FILTERS \<Longrightarrow>
    cat_typed (ca_console (tune_rx i (\<lambda>t. let t1 = upd (\<lambda>rx. rx\<lparr>rx_filter_b := n\<rparr>) t
       in if rx_subrx_enable (t_rx t1) then subrx_filter_changed t1 else t1) c))"
  unfolding Let_def
  by (intro typed_tune stays_if stays_after_upd stays_upd stays_sub) (simp_all add: rx_typed_def)

lemma stays_ctun_switch: "stays (\<lambda>t. receiver_set_ctun (upd (\<lambda>rx. rx\<lparr>rx_ctun := b\<rparr>) t))"
  by (rule stays_after_upd[OF _ stays_moves(6)]) (simp add: rx_typed_def)

lemma next_band_in_table: "0 \<le> b \<Longrightarrow> 0 \<le> next_band r b \<and> next_band r b < BANDS + XVTRS"
  by (auto simp: next_band_def Let_def band_numbers)

lemma previous_band_in_table:
  assumes "0 \<le> b" "b < BANDS + XVTRS" shows "0 \<le> previous_band r b \<and> previous_band r b < BANDS + XVTRS"
proof (cases "b = 0")
  case False
  thus ?thesis using assms back_to_tunable_result[of "b - 1" r] by (simp add: previous_band_def Let_def)
qed (simp add: previous_band_def band_numbers)

lemma typed_band_steps:
  assumes "cat_typed (ca_console c)" "slot (ca_console c) i = Some rx"
  shows "cat_typed (ca_console (tune_rx i (set_band (previous_band r (rx_band_a (rx_of (ca_console c) i))) (- 1)) c))"
    "cat_typed (ca_console (tune_rx i (set_band (next_band r (rx_band_a (rx_of (ca_console c) i))) (- 1)) c))"
  using assms cat_typed_rx[OF assms] next_band_in_table previous_band_in_table
  by (auto simp: rx_of_def rx_typed_def intro!: typed_tune stays_band)

lemma edges_kept_simps [simp]:
  "\<bar>e\<bar> \<le> FILTER_EDGE_LIMIT_HZ \<Longrightarrow> edges_kept (\<lambda>f. f\<lparr>fl_low := e\<rparr>)"
  "\<bar>e\<bar> \<le> FILTER_EDGE_LIMIT_HZ \<Longrightarrow> edges_kept (\<lambda>f. f\<lparr>fl_high := e\<rparr>)"
  "\<bar>e\<bar> \<le> FILTER_EDGE_LIMIT_HZ \<Longrightarrow> edges_kept (\<lambda>f. f\<lparr>fl_low := e, fl_high := e\<rparr>)"
  "edges_kept (fw_edges fw)"
  by (auto simp: edges_kept_def fw_edges_def FILTER_EDGE_LIMIT_HZ_def)

lemma filter_edge_9999_limit [simp]: "\<bar>filter_edge_9999 n\<bar> \<le> FILTER_EDGE_LIMIT_HZ"
  by (simp add: filter_edge_9999_def FILTER_EDGE_LIMIT_HZ_def)

lemma edge_lists: "length sh_edges = 12" "length sl_edges = 12"
  "\<forall>x \<in> set sh_edges. \<bar>x\<bar> \<le> FILTER_EDGE_LIMIT_HZ" "\<forall>x \<in> set sl_edges. \<bar>x\<bar> \<le> FILTER_EDGE_LIMIT_HZ"
  by (simp_all add: sh_edges_def sl_edges_def FILTER_EDGE_LIMIT_HZ_def)

lemma edge_choice_limit:
  assumes "length xs = 12" "\<forall>x \<in> set xs. \<bar>x\<bar> \<le> FILTER_EDGE_LIMIT_HZ"
  shows "\<bar>edge_choice xs m n\<bar> \<le> FILTER_EDGE_LIMIT_HZ"
proof -
  have "\<bar>xs ! nat n\<bar> \<le> FILTER_EDGE_LIMIT_HZ" if "0 \<le> n" "n \<le> 11"
    using assms(2) nth_mem[of "nat n" xs] assms(1) that by simp
  thus ?thesis by (simp add: edge_choice_def FILTER_EDGE_LIMIT_HZ_def)
qed

lemmas typed_ops = stays_moves[THEN typed_tune[rotated]] stays_to_var1[THEN typed_tune[rotated]]
  stays_ctun_switch[THEN typed_tune[rotated]] typed_upd_rx typed_set_var1 typed_edit_filter typed_band_steps
  typed_rx_mode[unfolded Let_def, simplified] typed_rx_filter[unfolded Let_def, simplified]

lemma kept_if: "kept (if b then x else y) \<longleftrightarrow> (b \<longrightarrow> kept x) \<and> (\<not> b \<longrightarrow> kept y)" by simp

lemma kept_flag_cmd: "cat_typed (ca_console c) \<Longrightarrow> \<forall>n. cat_typed (ca_console (f n c)) \<Longrightarrow> kept (flag_cmd name b f cmd c)"
  by (simp add: flag_cmd_def Let_def)

lemma kept_level_cmd:
  "cat_typed (ca_console c) \<Longrightarrow> \<forall>rx. rx_typed rx \<longrightarrow> rx_typed (f rx) \<Longrightarrow> kept (level_cmd name k i level f cmd c)"
  by (simp add: level_cmd_def typed_ops)

lemma kept_split_cmd: "cat_typed (ca_console c) \<Longrightarrow> kept (split_cmd name i cmd c)"
  by (simp add: split_cmd_def)

text \<open>Where the receiver is after a step of the tuner, and the subscripts of the commands
themselves.\<close>

lemma slot_tune:
  assumes "cat_typed (ca_console c)" "slot (ca_console c) i = Some rx" "stays f"
  shows "slot (ca_console (tune_rx i f c)) i = Some (t_rx (f (tuner_of i rx (ca_console c))))"
proof -
  have "same_place (tuner_of i rx (ca_console c)) (f (tuner_of i rx (ca_console c)))"
    using stays_place[OF assms(3)] typed_tuner_of[OF assms(1,2)] by blast
  thus ?thesis using assms(2) by (simp add: tune_rx_def on_rx_def slot_put same_place_def) (simp add: slot_def split: if_splits)
qed

lemma filter_subscript_row: "0 \<le> m \<Longrightarrow> m < MODES \<Longrightarrow> filter_subscript m (FILTERS - 1) c = c"
  by (simp add: filter_subscript_def FILTERS_def)

lemma mode_filters_in:
  assumes "cat_typed (ca_console c)" "slot (ca_console c) i = Some rx"
  shows "mode_filters i c = c"
  using cat_typed_rx[OF assms] assms(2)
  by (simp add: mode_filters_def filter_subscript_def rx_of_def rx_typed_def FILTERS_def FVar1_def)

lemma kept_zz:
  assumes "cat_typed (ca_console c)" "slot (ca_console c) i = Some rx"
  shows "kept (zz_A i cmd c)" "kept (zz_B i cmd c)" "kept (zz_C i cmd c)" "kept (zz_D i cmd c)" "kept (zz_E i cmd c)"
    "kept (zz_F i cmd c)" "kept (zz_G i cmd c)" "kept (zz_I cmd c)" "kept (zz_L i cmd c)" "kept (zz_M i cmd c)"
    "kept (zz_N i cmd c)" "kept (zz_P i cmd c)" "kept (zz_R i cmd c)" "kept (zz_S i cmd c)" "kept (zz_T e cmd c)"
    "kept (zz_U i cmd c)" "kept (zz_V cmd c)" "kept (zz_X i cmd c)"
proof -
  note t = assms(1)
  note r = kept_flag_cmd kept_level_cmd kept_split_cmd typed_ops t typed_band_steps[OF assms]
  show "kept (zz_A i cmd c)" unfolding zz_A_def Let_def by (simp add: r)
  show "kept (zz_B i cmd c)" unfolding zz_B_def Let_def by (simp add: r)
  show "kept (zz_C i cmd c)" unfolding zz_C_def Let_def by (simp add: r)
  show "kept (zz_E i cmd c)" unfolding zz_E_def Let_def by (simp add: r)
  show "kept (zz_F i cmd c)" unfolding zz_F_def Let_def by (simp add: r)
  show "kept (zz_G i cmd c)" unfolding zz_G_def Let_def by (simp add: r)
  show "kept (zz_I cmd c)" unfolding zz_I_def Let_def by (simp add: r)
  show "kept (zz_L i cmd c)" unfolding zz_L_def Let_def by (simp add: r)
  show "kept (zz_M i cmd c)" unfolding zz_M_def Let_def by (simp add: r filter_subscript_row)
  show "kept (zz_N i cmd c)" unfolding zz_N_def Let_def by (simp add: r)
  show "kept (zz_P i cmd c)" unfolding zz_P_def Let_def by (simp add: r)
  show "kept (zz_R i cmd c)" unfolding zz_R_def Let_def by (simp add: r)
  show "kept (zz_S i cmd c)" unfolding zz_S_def Let_def by (simp add: r)
  show "kept (zz_T e cmd c)" unfolding zz_T_def Let_def by (simp add: r)
  show "kept (zz_U i cmd c)" unfolding zz_U_def Let_def by (simp add: r)
  show "kept (zz_V cmd c)" unfolding zz_V_def Let_def by (simp add: r)
  show "kept (zz_X i cmd c)" unfolding zz_X_def Let_def by (simp add: r)
  have q: "kept (case level_cmd name k i level f cmd c of (c', replies, _) \<Rightarrow> (c', replies, False))"
    if "\<forall>rx. rx_typed rx \<longrightarrow> rx_typed (f rx)" for name k level f
    using kept_level_cmd[OF t that, of name k i level cmd] by (cases "level_cmd name k i level f cmd c") simp
  show "kept (zz_D i cmd c)" unfolding zz_D_def Let_def by (simp add: r q)
qed

lemma kept_extended:
  "cat_typed (ca_console c) \<Longrightarrow> slot (ca_console c) i = Some rx \<Longrightarrow> kept (parse_extended_cmd e i cmd c)"
  unfolding parse_extended_cmd_def Let_def by (simp add: kept_zz)

lemma kept_fw_set:
  assumes t: "cat_typed (ca_console c)" and e: "\<bar>fw\<bar> < 10000"
  shows "kept (fw_set i fw c)"
proof -
  have l: "\<bar>fw sdiv 2\<bar> \<le> FILTER_EDGE_LIMIT_HZ"
    using e by (simp add: FILTER_EDGE_LIMIT_HZ_def signed_divide_int_def abs_mult) linarith
  have "stays (\<lambda>t. receiver_filter_changed FVar1 (upd (\<lambda>rx. rx\<lparr>rx_deviation := d\<rparr>) (put_var1 (fw_edges fw) t)))" for d
    by (intro stays_comp[OF stays_moves(4)] stays_comp[OF stays_upd] stays_put_var1) simp_all
  hence d: "cat_typed (ca_console c') \<Longrightarrow> cat_typed (ca_console (tune_rx i (\<lambda>t. receiver_filter_changed FVar1
       (upd (\<lambda>rx. rx\<lparr>rx_deviation := d\<rparr>) (put_var1 (fw_edges fw) t))) c'))" for c' d by blast
  show ?thesis using t l d by (simp add: fw_set_def Let_def typed_ops)
qed

lemma kept_SH_SL:
  assumes t: "cat_typed (ca_console c)" "slot (ca_console c) i = Some rx"
  shows "kept (cmd_SH i cmd c)" "kept (cmd_SL i cmd c)"
proof -
  have "edges_kept (\<lambda>f. if m = LSB then f\<lparr>fl_low := - x\<rparr> else f\<lparr>fl_high := x\<rparr>)"
    "edges_kept (\<lambda>f. if m = LSB then f\<lparr>fl_high := - x\<rparr> else f\<lparr>fl_low := x\<rparr>)" if "\<bar>x\<bar> \<le> FILTER_EDGE_LIMIT_HZ" for m x
    using that by (simp_all add: edges_kept_def)
  note e = this[OF edge_choice_limit[OF edge_lists(1,3)]] this[OF edge_choice_limit[OF edge_lists(2,4)]]
  note u = typed_edit_filter[OF _ e(1)] typed_edit_filter[OF _ e(4)]
  have t1: "cat_typed (ca_console (tune_rx i to_var1 c))" using t by (simp add: typed_ops)
  note m = mode_filters_in[OF t1 slot_tune[OF t stays_to_var1]]
  show "kept (cmd_SH i cmd c)" "kept (cmd_SL i cmd c)"
    unfolding cmd_SH_def cmd_SL_def Let_def m using t1 u[OF t1] by simp_all
qed

lemma kept_cat:
  assumes "cat_typed (ca_console c)" "slot (ca_console c) i = Some rx"
  shows "kept (dispatch e i cmd c)"
proof -
  note t = assms(1)
  note r = kept_flag_cmd typed_ops t typed_band_steps[OF assms]
  have a: "kept (cat_A i cmd c)" unfolding cat_A_def Let_def by (simp add: r)
  have b: "kept (cat_B i cmd c)" unfolding cat_B_def Let_def by (simp add: r)
  have cc: "kept (cat_C cmd c)" unfolding cat_C_def Let_def by (simp add: r)
  have d: "kept (cat_D i cmd c)" unfolding cat_D_def Let_def by (simp add: r)
  have fw: "ends cmd 6 \<longrightarrow> kept (fw_set i (num 2 cmd) c)" using num_bound[of cmd 2 4] kept_fw_set[OF t] by simp
  have fr: "kept (fw_read i c)" using t by (simp add: fw_read_def Let_def)
  have f: "kept (cat_F i cmd c)" unfolding cat_F_def Let_def mode_filters_in[OF assms] by (simp add: r fr fw)
  have g: "kept (cat_G i cmd c)" unfolding cat_G_def Let_def by (simp add: r)
  have ii: "kept (cat_I i cmd c)" unfolding cat_I_def Let_def by (simp add: r)
  have k: "kept (cat_K cmd c)" unfolding cat_K_def Let_def by (simp add: r)
  have l: "kept (cat_L i cmd c)" unfolding cat_L_def Let_def by (simp add: r)
  have m: "kept (cat_M i cmd c)" unfolding cat_M_def Let_def by (simp add: r)
  have n: "kept (cat_N i cmd c)" unfolding cat_N_def Let_def by (simp add: r)
  have p: "kept (cat_P i cmd c)" unfolding cat_P_def Let_def by (simp add: r)
  have rr: "kept (cat_R i cmd c)" unfolding cat_R_def Let_def by (simp add: r)
  have sa: "kept (cmd_SA i cmd c)" unfolding cmd_SA_def Let_def by (simp add: r)
  have s: "kept (cat_S i cmd c)" unfolding cat_S_def Let_def by (simp add: r sa kept_SH_SL[OF assms])
  have tt: "kept (cat_T cmd c)" unfolding cat_T_def Let_def by (simp add: r)
  have u: "kept (cat_U i cmd c)" unfolding cat_U_def Let_def by (simp add: r)
  have v: "kept (cat_V i cmd c)" unfolding cat_V_def Let_def by (simp add: r)
  have x: "kept (cat_X i cmd c)" unfolding cat_X_def Let_def by (simp add: r)
  have z: "kept (cat_Z e i cmd c)" using kept_extended[OF assms] t by (simp add: cat_Z_def)
  show ?thesis unfolding dispatch_def Let_def
    by (simp add: a b cc d f g ii k l m n p rr s tt u v x z t)
qed

lemma typed_parse_cmd: "cat_typed (ca_console c) \<Longrightarrow> cat_typed (ca_console (fst (parse_cmd e i cmd c)))"
  using kept_cat[of c i _ e cmd]
  by (cases "slot (ca_console c) i"; cases "dispatch e i cmd c") (simp_all add: parse_cmd_def)

lemma typed_session: "cat_typed (ca_console c) \<Longrightarrow> cat_typed (ca_console (fst (session e i cmds c)))"
proof (induction cmds arbitrary: c)
  case (Cons cmd cmds)
  show ?case using Cons.IH[OF typed_parse_cmd[OF Cons.prems, of e i cmd]] by (auto split: prod.split)
qed simp

text \<open>C23: Whatever bytes a CAT client sends, in whatever pieces they arrive, no command
subscripts outside the mode, filter and band tables, and every receiver of the radio, the one
the client talks to and the others, is inside them afterwards.\<close>

theorem cat_client_cannot_leave_the_tables:
  assumes "cat_typed (ca_console c)" "slot (ca_console (fst (session e i (rigctl_client pieces) c))) j = Some rx"
  shows "0 \<le> rx_mode_a rx \<and> rx_mode_a rx < MODES \<and> 0 \<le> rx_filter_a rx \<and> rx_filter_a rx < FILTERS \<and>
    0 \<le> rx_mode_b rx \<and> rx_mode_b rx < MODES \<and> 0 \<le> rx_filter_b rx \<and> rx_filter_b rx < FILTERS \<and>
    0 \<le> rx_band_a rx \<and> rx_band_a rx < BANDS + XVTRS \<and>
    Ev_OutOfTable \<notin> set (st_out (ca_console (fst (session e i (rigctl_client pieces) c))))"
  using typed_session[OF assms(1), of e i "rigctl_client pieces"] cat_typed_rx[OF _ assms(2)]
  by (auto simp: cat_typed_def rx_typed_def)

section \<open>The bytes of a client\<close>

lemma client_bytes:
  assumes "CHR '';'' \<notin> set w" "length buf + length w < MAXDATASIZE"
  shows "fold client_byte w (buf, cmds) = (buf @ w, cmds)"
  using assms
proof (induction w arbitrary: buf)
  case (Cons b w)
  have "client_byte b (buf, cmds) = (buf @ [b], cmds)" using Cons.prems by (auto simp: client_byte_def MAXDATASIZE_def)
  thus ?case using Cons.IH[of "buf @ [b]"] Cons.prems by simp
qed simp

lemma client_command:
  assumes "CHR '';'' \<notin> set w" "length w < MAXDATASIZE - 1"
  shows "fold client_byte (w @ '';'') ([], cmds) = ([], cmds @ [w @ '';''])"
  using client_bytes[OF assms(1), of "[]" cmds] assms(2) by (simp add: client_byte_def MAXDATASIZE_def)

lemma fold_pieces: "fold (\<lambda>piece. fold client_byte piece) pieces s = fold client_byte (concat pieces) s"
  by (induction pieces arbitrary: s) simp_all

lemma client_commands:
  "\<forall>w \<in> set ws. CHR '';'' \<notin> set w \<and> length w < MAXDATASIZE - 1 \<Longrightarrow>
   fold client_byte (concat (map (\<lambda>w. w @ '';'') ws)) ([], cmds) = ([], cmds @ map (\<lambda>w. w @ '';'') ws)"
proof (induction ws arbitrary: cmds)
  case (Cons w ws)
  have "fold client_byte (w @ '';'') ([], cmds) = ([], cmds @ [w @ '';''])" using client_command Cons.prems by simp
  moreover have "fold client_byte (concat (map (\<lambda>w. w @ '';'') (w # ws))) ([], cmds) =
      fold client_byte (concat (map (\<lambda>w. w @ '';'') ws)) (fold client_byte (w @ '';'') ([], cmds))"
    by (simp only: list.map concat.simps fold_append comp_apply)
  ultimately show ?case using Cons.IH[of "cmds @ [w @ '';'']"] Cons.prems by simp
qed simp

text \<open>C26: The commands carried out are the commands sent, in order and each whole, however
the network cuts them: a piece may hold half a command or several. What follows the last
semicolon is kept for later.\<close>

theorem commands_survive_any_cut:
  assumes "concat pieces = concat (map (\<lambda>w. w @ '';'') ws) @ rest"
    and "\<forall>w \<in> set ws. CHR '';'' \<notin> set w \<and> length w < MAXDATASIZE - 1"
    and "CHR '';'' \<notin> set rest" "length rest < MAXDATASIZE"
  shows "rigctl_client pieces = map (\<lambda>w. w @ '';'') ws"
  using client_commands[OF assms(2), of "[]"] client_bytes[OF assms(3), of "[]"] assms(4)
  by (simp add: rigctl_client_def fold_pieces assms(1))

section \<open>A radio with a CAT client\<close>

definition cat0 :: cat where
  "cat0 = \<lparr>ca_console = console0,
     ca_rx = (\<lambda>_. \<lparr>cx_equalizer = [0, 0, 0, 0], cx_enable_equalizer = False, cx_smeter = 0, cx_meter_db = - 100,
                  cx_display_average_time = 120\<rparr>),
     ca_tx = \<lparr>ct_equalizer = [0, 0, 0, 0], ct_enable_equalizer = False, ct_mic_gain = 0, ct_compressor_level = 0,
              ct_ctcss_enabled = False, ct_ctcss = 0, ct_puresignal_enabled = False, ct_dac_antenna = 0\<rparr>,
     ca_out = [], ca_beyond = False\<rparr>"

definition cat_env0 :: cat_env where "cat_env0 = \<lparr>ce_now = 0, ce_full_tune_time = 0\<rparr>"

lemma cat0_console [simp]: "ca_console cat0 = console0" by (simp add: cat0_def)

lemma cat0_typed: "cat_typed (ca_console cat0)"
  using tuner0_typed
  by (simp add: cat_typed_def console0_simps typed_def env_typed_def env_def tuner0_def fault_def)
     (auto simp: console0_def bands_radio_def radio0_def rx_typed_def)

lemma refused_digits: "num 4 ''ZZMD99;'' = 99" "ends ''ZZMD99;'' 6" "\<not> ends ''ZZMD99;'' 4"
  by code_simp+

theorem cat_client_cannot_leave_the_tables_witness:
  "Ev_OutOfTable \<notin> set (st_out (ca_console (fst (session cat_env0 0 (rigctl_client [''ZZM'', ''D99;'']) cat0))))"
proof -
  have c: "rigctl_client [''ZZM'', ''D99;''] = [''ZZMD99;'']" by code_simp
  have p: "parse_cmd cat_env0 0 ''ZZMD99;'' cat0 = (cat0, [''?;''])"
    by (simp add: parse_cmd_def console0_simps dispatch_def cat_Z_def parse_extended_cmd_def zz_M_def refused_digits
        refuse_def chr_at_def mode_defs)
  have "slot (ca_console (fst (session cat_env0 0 (rigctl_client [''ZZM'', ''D99;'']) cat0))) 0 = Some receiver0"
    by (simp add: c p console0_simps)
  thus ?thesis using cat_client_cannot_leave_the_tables[OF cat0_typed] by blast
qed

theorem commands_survive_any_cut_witness:
  "rigctl_client [''FA;I'', ''F;M'', ''D''] = [''FA;'', ''IF;'']"
  using commands_survive_any_cut[of "[''FA;I'', ''F;M'', ''D'']" "[''FA'', ''IF'']" "''MD''"] by (simp add: MAXDATASIZE_def)

end
