(* ===== verification/Tci_Subs.thy ===== *)
theory Tci_Subs
  imports Tci Cat_Session
begin

text \<open>The subscriptions of the TCI clients are counted right whatever the clients do, and
nobody but a command addressed to the transmitting receiver asks for a transmission.\<close>

section \<open>Counting bits\<close>

lemma filter_both_length:
  "(\<And>x. Q x \<Longrightarrow> P x) \<Longrightarrow>
   length (filter P xs) = length (filter Q xs) + length (filter (\<lambda>x. P x \<noteq> Q x) xs)"
  by (induction xs) auto

lemma popcount_grow:
  assumes "\<And>n. bit old n \<Longrightarrow> bit nw n"
  shows "popcount nw = popcount old + popcount (xor nw old)"
proof -
  have "filter (bit (xor nw old)) [0 ..< 32] = filter (\<lambda>x. bit nw x \<noteq> bit old x) [0 ..< 32]"
    by (rule filter_cong) (auto simp: bit_simps)
  thus ?thesis using filter_both_length[of "bit old" "bit nw" "[0 ..< 32]", OF assms] by (simp add: popcount_def)
qed

lemma popcount_mask:
  "popcount (mask_with idx on old) = popcount old + popcount (xor (mask_with idx on old) old) * (if on then 1 else - 1)"
proof (cases on)
  case True
  thus ?thesis using popcount_grow[of old "mask_with idx on old"] by (simp add: mask_with_def bit_simps Let_def)
next
  case False
  hence "popcount old = popcount (mask_with idx on old) + popcount (xor old (mask_with idx on old))"
    by (intro popcount_grow) (simp add: mask_with_def bit_simps Let_def)
  thus ?thesis using False by (simp add: xor.commute)
qed

lemma mask_all_off [simp]: "mask_with (- 1) False old = 0"
  by (simp add: mask_with_def)

section \<open>The table of clients\<close>

definition total :: "(tci_client \<Rightarrow> int) \<Rightarrow> tci_client list \<Rightarrow> int" where
  "total f cs = sum_list (map f cs)"

lemma total_update: "k < length cs \<Longrightarrow> total f (cs[k := c]) = total f cs - f (cs ! k) + f c"
proof (induction cs arbitrary: k)
  case (Cons a cs) thus ?case by (cases k) (auto simp: total_def)
qed simp

definition armed :: "tci_client \<Rightarrow> int" where "armed c = (if tl_tx_chrono c then 1 else 0)"

definition quiet :: "tci_client \<Rightarrow> bool" where
  "quiet c \<longleftrightarrow> tl_connected c \<or> (tl_iq_mask c = 0 \<and> tl_audio_mask c = 0 \<and> \<not> tl_tx_chrono c)"

definition counted :: "tci \<Rightarrow> bool" where
  "counted t \<longleftrightarrow> tc_iq_sub_count t = total (\<lambda>c. popcount (tl_iq_mask c)) (tc_clients t) \<and>
     tc_audio_sub_count t = total (\<lambda>c. popcount (tl_audio_mask c)) (tc_clients t) \<and>
     tc_audio_rx_mask t = audio_union (tc_clients t) \<and> tc_tx_chrono_clients t = total armed (tc_clients t) \<and>
     (\<forall>c \<in> set (tc_clients t). quiet c)"

definition same_clients :: "tci \<Rightarrow> tci \<Rightarrow> bool" where
  "same_clients t t' \<longleftrightarrow> tc_clients t' = tc_clients t \<and> tc_iq_sub_count t' = tc_iq_sub_count t \<and>
     tc_audio_sub_count t' = tc_audio_sub_count t \<and> tc_audio_rx_mask t' = tc_audio_rx_mask t \<and>
     tc_tx_chrono_clients t' = tc_tx_chrono_clients t"

lemma same_clients_refl [simp]: "same_clients t t" by (simp add: same_clients_def)

lemma same_clients_counted: "same_clients t t' \<Longrightarrow> counted t' = counted t"
  by (simp add: same_clients_def counted_def)

lemma same_clients_steps [simp]:
  "same_clients t (client_send_text k s t') = same_clients t t'" "same_clients t (g_idle_add x t') = same_clients t t'"
  "same_clients t (on_cat f t') = same_clients t t'" "same_clients t (tci_dispatch_state i op b v d t') = same_clients t t'"
  "same_clients t (dispatch_set_mox b t') = same_clients t t'" "same_clients t (tci_ack_echo k q t') = same_clients t t'"
  "same_clients t (answer_rx fn name k q t') = same_clients t t'"
  "same_clients t (answer_rx_or_echo fn name k q t') = same_clients t t'"
  by (simp_all add: same_clients_def client_send_text_def g_idle_add_def on_cat_def tci_dispatch_state_def
      dispatch_set_mox_def tci_ack_echo_def answer_rx_def answer_rx_or_echo_def split: option.split)

lemma same_clients_send [simp]:
  "same_clients t (fold (client_send_text k) ls t') = same_clients t t'"
  "same_clients t (fold (\<lambda>k. client_send_text k s) ks t') = same_clients t t'"
  by (induction ls arbitrary: t', simp_all) (induction ks arbitrary: t', simp_all)

lemma same_clients_broadcast [simp]: "same_clients t (tci_broadcast_text s t') = same_clients t t'"
  by (simp add: tci_broadcast_text_def)

lemma same_clients_greeting [simp]: "same_clients t (tci_send_handshake k t') = same_clients t t'"
  by (simp add: tci_send_handshake_def)

lemma same_clients_fold: "(\<And>x t'. same_clients t (h x t') = same_clients t t') \<Longrightarrow> same_clients t (fold h xs t') = same_clients t t'"
  by (induction xs arbitrary: t') simp_all

lemma same_clients_state [simp]: "same_clients t (tci_apply_state_idle e s t)"
  by (simp add: tci_apply_state_idle_def tci_apply_global_def same_clients_fold Let_def split: option.split tci_op.split)
     (simp add: same_clients_def on_cat_def)

lemma on_client_clients [simp]:
  "tc_clients (on_client k f t) = (tc_clients t)[k := f (tc_clients t ! k)]"
  "tc_iq_sub_count (on_client k f t) = tc_iq_sub_count t" "tc_audio_sub_count (on_client k f t) = tc_audio_sub_count t"
  "tc_audio_rx_mask (on_client k f t) = tc_audio_rx_mask t" "tc_tx_chrono_clients (on_client k f t) = tc_tx_chrono_clients t"
  by (simp_all add: on_client_def)

lemma audio_union_map: "audio_union cs = fold (\<lambda>m all. or all m) (map tl_audio_mask cs) 0"
  by (simp add: audio_union_def fold_map comp_def)

lemma audio_union_update: "tl_audio_mask c = tl_audio_mask (cs ! k) \<Longrightarrow> audio_union (cs[k := c]) = audio_union cs"
proof (cases "k < length cs")
  case True
  moreover assume "tl_audio_mask c = tl_audio_mask (cs ! k)"
  ultimately have "map tl_audio_mask (cs[k := c]) = map tl_audio_mask cs"
    by (metis list_update_id map_update nth_map)
  thus ?thesis by (simp add: audio_union_map)
qed (simp add: list_update_beyond)

text \<open>A change of one client that the counters follow keeps them right.\<close>

lemma counted_update:
  assumes "counted t" "k < length (tc_clients t)" "tc_clients t' = (tc_clients t)[k := c]" "quiet c"
    and "tc_iq_sub_count t' = tc_iq_sub_count t - popcount (tl_iq_mask (tc_clients t ! k)) + popcount (tl_iq_mask c)"
    and "tc_audio_sub_count t' = tc_audio_sub_count t - popcount (tl_audio_mask (tc_clients t ! k)) + popcount (tl_audio_mask c)"
    and "tc_tx_chrono_clients t' = tc_tx_chrono_clients t - armed (tc_clients t ! k) + armed c"
    and "tc_audio_rx_mask t' = audio_union (tc_clients t')"
  shows "counted t'"
  using assms set_update_subset_insert[of "tc_clients t" k c] by (auto simp: counted_def total_update)

definition live :: "nat \<Rightarrow> tci \<Rightarrow> bool" where
  "live k t \<longleftrightarrow> k < length (tc_clients t) \<and> tl_connected (tc_clients t ! k)"

lemma same_clients_live: "same_clients t t' \<Longrightarrow> live k t' = live k t"
  by (simp add: same_clients_def live_def)

lemma counted_set_iq:
  assumes "counted t" "live k t"
  shows "counted (client_set_iq k idx on t)"
proof (cases "idx \<ge> int MAX_RECEIVERS \<or> mask_with idx on (tl_iq_mask (tc_clients t ! k)) = tl_iq_mask (tc_clients t ! k)")
  case False
  let ?c = "(tc_clients t ! k)\<lparr>tl_iq_mask := mask_with idx on (tl_iq_mask (tc_clients t ! k))\<rparr>"
  have k: "k < length (tc_clients t)" "quiet ?c" using assms(2) by (simp_all add: live_def quiet_def)
  show ?thesis
    by (rule counted_update[OF assms(1) k(1) _ k(2)])
       (use False assms(1) popcount_mask[of idx on "tl_iq_mask (tc_clients t ! k)"] in
         \<open>simp_all add: client_set_iq_def Let_def counted_def audio_union_update armed_def\<close>)
qed (use assms in \<open>auto simp: client_set_iq_def Let_def\<close>)

lemma counted_set_audio:
  assumes "counted t" "live k t"
  shows "counted (client_set_audio k idx on t)"
proof (cases "idx \<ge> int MAX_RECEIVERS \<or> mask_with idx on (tl_audio_mask (tc_clients t ! k)) = tl_audio_mask (tc_clients t ! k)")
  case False
  let ?c = "(tc_clients t ! k)\<lparr>tl_audio_mask := mask_with idx on (tl_audio_mask (tc_clients t ! k))\<rparr>"
  have k: "k < length (tc_clients t)" "quiet ?c" using assms(2) by (simp_all add: live_def quiet_def)
  show ?thesis
    by (rule counted_update[OF assms(1) k(1) _ k(2)])
       (use False popcount_mask[of idx on "tl_audio_mask (tc_clients t ! k)"] in
         \<open>simp_all add: client_set_audio_def Let_def armed_def\<close>)
qed (use assms in \<open>auto simp: client_set_audio_def Let_def\<close>)

lemma counted_set_chrono:
  assumes "counted t" "live k t"
  shows "counted (tci_set_tx_chrono k on t)"
proof (cases "tl_tx_chrono (tc_clients t ! k) = on")
  case False
  let ?c = "(tc_clients t ! k)\<lparr>tl_tx_chrono := on\<rparr>"
  have k: "k < length (tc_clients t)" "quiet ?c" using assms(2) by (simp_all add: live_def quiet_def)
  show ?thesis
    by (rule counted_update[OF assms(1) k(1) _ k(2)])
       (use False assms(1) in \<open>simp_all add: tci_set_tx_chrono_def Let_def counted_def audio_union_update armed_def\<close>)
qed (use assms in \<open>simp add: tci_set_tx_chrono_def\<close>)

lemma live_sets [simp]:
  "live j (client_set_iq k idx on t) = live j t" "live j (client_set_audio k idx on t) = live j t"
  "live j (tci_set_tx_chrono k on t) = live j t"
  by (cases "j = k"; auto simp: live_def client_set_iq_def client_set_audio_def tci_set_tx_chrono_def Let_def)+

section \<open>The steps of the server\<close>

lemma counted_disarm: "counted t \<Longrightarrow> counted (tci_tx_chrono_disarm_all t) \<and> length (tc_clients (tci_tx_chrono_disarm_all t)) = length (tc_clients t)"
proof -
  have "counted (fold (\<lambda>k t. if tl_connected (tc_clients t ! k) then tci_set_tx_chrono k False t else t) ks t') \<and>
      length (tc_clients (fold (\<lambda>k t. if tl_connected (tc_clients t ! k) then tci_set_tx_chrono k False t else t) ks t')) = n"
    if "counted t'" "length (tc_clients t') = n" "\<forall>k \<in> set ks. k < n" for ks n t'
    using that
  proof (induction ks arbitrary: t')
    case (Cons k ks)
    let ?t = "if tl_connected (tc_clients t' ! k) then tci_set_tx_chrono k False t' else t'"
    have "counted ?t" using Cons.prems counted_set_chrono[of t' k] by (auto simp: live_def)
    moreover have "length (tc_clients ?t) = n" using Cons.prems by (simp add: tci_set_tx_chrono_def Let_def)
    ultimately show ?case using Cons.IH[of ?t] Cons.prems(3) by simp
  qed simp
  thus "counted t \<Longrightarrow> ?thesis" by (simp add: tci_tx_chrono_disarm_all_def)
qed

lemma counted_set_mox: "counted t \<Longrightarrow> counted (tci_set_mox b t)"
proof -
  assume c: "counted t"
  let ?t = "on_cat (on_console (on_keying (set_mox b))) t"
  have "counted ?t" using c same_clients_counted[of t ?t] by simp
  hence "counted (if b then ?t else tci_tx_chrono_disarm_all ?t)" using counted_disarm by presburger
  thus ?thesis unfolding tci_set_mox_def tci_notify_trx_def Let_def
    using same_clients_counted same_clients_broadcast same_clients_refl by blast
qed

lemma counted_idle: "counted t \<Longrightarrow> counted (run_idle_source e x t)"
  using same_clients_counted[of t "run_idle_source e x t"]
  by (cases x) (simp_all add: run_idle_source_def counted_set_mox)

lemma counted_main_loop: "counted t \<Longrightarrow> counted (main_loop e t)"
proof -
  assume c: "counted t"
  have "counted t' \<Longrightarrow> counted (fold (run_idle_source e) xs t')" for xs t'
    by (induction xs arbitrary: t') (simp_all add: counted_idle)
  moreover have "counted (t\<lparr>tc_idle := []\<rparr>)" using c by (simp add: counted_def)
  ultimately show ?thesis by (simp add: main_loop_def)
qed

lemma counted_start:
  assumes "counted t" "live k t" "\<And>i b t. counted t \<Longrightarrow> live k t \<Longrightarrow> counted (subscribe k i b t)"
  shows "counted (stream_start subscribe name k q t)" "counted (stream_stop subscribe name k q t)"
  using assms(1) assms(3)[OF assms(1,2)] same_clients_counted[OF same_clients_steps(1)[THEN iffD2, OF same_clients_refl]]
    same_clients_counted[OF same_clients_steps(6)[THEN iffD2, OF same_clients_refl]]
  by (simp_all add: stream_start_def stream_stop_def Let_def)

lemma counted_trx: "counted t \<Longrightarrow> live k t \<Longrightarrow> counted (cmd_trx k q t)"
  using counted_set_chrono[of t k] same_clients_counted[OF same_clients_steps(5)[THEN iffD2, OF same_clients_refl]]
    same_clients_counted[OF same_clients_steps(1)[THEN iffD2, OF same_clients_refl]]
  by (simp add: cmd_trx_def Let_def)

lemma same_clients_settings [simp]:
  "same_clients t (cmd_vfo k q t)" "same_clients t (cmd_modulation k q t)" "same_clients t (cmd_iq_samplerate k q t)"
  "same_clients t (cmd_rit_enable k q t)" "same_clients t (cmd_rit_offset k q t)" "same_clients t (cmd_xit_enable k q t)"
  "same_clients t (cmd_xit_offset k q t)" "same_clients t (cmd_split_enable k q t)" "same_clients t (cmd_if k q t)"
  "same_clients t (cmd_cw_msg k q t)" "same_clients t (cmd_cw_macros_speed k q t)" "same_clients t (cmd_mute k q t)"
  "same_clients t (cmd_volume e k q t)" "same_clients t (cmd_rx_mute k q t)" "same_clients t (cmd_rx_volume e k q t)"
  "same_clients t (level_of_tx level name op e k q t)" "same_clients t (cmd_tune k q t)" "same_clients t (cmd_lock k q t)"
  "same_clients t (cmd_rx_channel_enable k q t)" "same_clients t (cmd_rx_smeter k q t)"
  by (simp_all add: cmd_vfo_def cmd_modulation_def cmd_iq_samplerate_def cmd_rit_enable_def cmd_rit_offset_def
      cmd_xit_enable_def cmd_xit_offset_def cmd_split_enable_def cmd_if_def cmd_cw_msg_def cmd_cw_macros_speed_def
      cmd_mute_def cmd_volume_def cmd_rx_mute_def cmd_rx_volume_def level_of_tx_def cmd_tune_def cmd_lock_def
      cmd_rx_channel_enable_def cmd_rx_smeter_def Let_def split: option.split)

lemma same_clients_streams [simp]:
  "same_clients t (cmd_audio_samplerate k q t)" "same_clients t (cmd_audio_stream_samples k q t)"
  "same_clients t (cmd_tx_stream_audio_buffering k q t)"
  by (simp_all add: cmd_audio_samplerate_def cmd_audio_stream_samples_def cmd_tx_stream_audio_buffering_def Let_def)
     (simp_all add: same_clients_def)

lemma handled_streams:
  "tq_name (tci_request token t) = ''trx'' \<Longrightarrow> tci_handle_command e k token t = cmd_trx k (tci_request token t) t"
  "tq_name (tci_request token t) = ''iq_start'' \<Longrightarrow>
     tci_handle_command e k token t = stream_start client_set_iq ''iq_start'' k (tci_request token t) t"
  "tq_name (tci_request token t) = ''iq_stop'' \<Longrightarrow>
     tci_handle_command e k token t = stream_stop client_set_iq ''iq_stop'' k (tci_request token t) t"
  "tq_name (tci_request token t) = ''audio_start'' \<Longrightarrow>
     tci_handle_command e k token t = stream_start client_set_audio ''audio_start'' k (tci_request token t) t"
  "tq_name (tci_request token t) = ''audio_stop'' \<Longrightarrow>
     tci_handle_command e k token t = stream_stop client_set_audio ''audio_stop'' k (tci_request token t) t"
  by (simp_all add: tci_handle_command_def Let_def)

lemma counted_command:
  assumes "counted t" "live k t"
  shows "counted (tci_handle_command e k token t)"
proof -
  let ?q = "tci_request token t"
  note streams = counted_start[OF assms, where subscribe = client_set_iq, OF counted_set_iq]
    counted_start[OF assms, where subscribe = client_set_audio, OF counted_set_audio] counted_trx[OF assms]
  consider "tq_name ?q = ''trx''" | "tq_name ?q = ''iq_start''" | "tq_name ?q = ''iq_stop''" | "tq_name ?q = ''audio_start''"
    | "tq_name ?q = ''audio_stop''" | "tq_name ?q \<notin> {''trx'', ''iq_start'', ''iq_stop'', ''audio_start'', ''audio_stop''}" by blast
  thus ?thesis
  proof cases
    case 6
    hence "same_clients t (tci_handle_command e k token t)" by (simp add: tci_handle_command_def Let_def split: option.split)
    thus ?thesis using same_clients_counted assms(1) by blast
  qed (simp_all add: handled_streams streams)
qed

lemma counted_greeting: "counted t \<Longrightarrow> counted (tci_send_handshake k t)"
  using same_clients_counted[of t "tci_send_handshake k t"] by simp

lemma counted_accept:
  assumes "counted t" shows "counted (tci_accept t)"
proof (cases "find (\<lambda>k. \<not> tl_connected (tc_clients t ! k)) [0 ..< length (tc_clients t)]")
  case (Some k)
  let ?c = "(tc_clients t ! k)\<lparr>tl_connected := True, tl_iq_mask := 0, tl_audio_mask := 0\<rparr>"
  have k: "k < length (tc_clients t)" "\<not> tl_connected (tc_clients t ! k)"
    using Some by (auto simp: find_Some_iff)
  hence "quiet (tc_clients t ! k)" using assms by (simp add: counted_def)
  hence m: "tl_iq_mask (tc_clients t ! k) = 0" "tl_audio_mask (tc_clients t ! k) = 0" using k(2) by (simp_all add: quiet_def)
  have "counted (on_client k (\<lambda>c. c\<lparr>tl_connected := True, tl_iq_mask := 0, tl_audio_mask := 0\<rparr>) t)"
    by (rule counted_update[OF assms k(1), where c = ?c])
       (use assms m in \<open>simp_all add: counted_def quiet_def audio_union_update armed_def\<close>)
  thus ?thesis using Some counted_greeting by (simp add: tci_accept_def)
qed (simp add: tci_accept_def assms)

lemma counted_remove:
  assumes "counted t" "live k t" shows "counted (clients_remove k t)"
proof -
  let ?t = "tci_set_tx_chrono k False (client_set_audio k (- 1) False (client_set_iq k (- 1) False t))"
  have c: "counted ?t" "live k ?t"
    using assms by (simp_all add: counted_set_iq counted_set_audio counted_set_chrono)
  have m: "tl_iq_mask (tc_clients ?t ! k) = 0" "tl_audio_mask (tc_clients ?t ! k) = 0" "\<not> tl_tx_chrono (tc_clients ?t ! k)"
    using assms(2) by (auto simp: tci_set_tx_chrono_def client_set_audio_def client_set_iq_def live_def Let_def MAX_RECEIVERS_def)
  have k: "k < length (tc_clients ?t)" using c(2) by (simp add: live_def)
  show ?thesis unfolding clients_remove_def
    by (rule counted_update[OF c(1) k, where c = "(tc_clients ?t ! k)\<lparr>tl_connected := False\<rparr>"])
       (use c(1) m in \<open>simp_all add: counted_def quiet_def audio_union_update armed_def\<close>)
qed

lemma counted_run: "counted t \<Longrightarrow> counted (tci_run e x t)"
  using counted_accept counted_command counted_remove counted_main_loop counted_set_mox
  by (cases x) (simp_all add: live_def)

lemma counted_init: "counted (tci_init c show_rx)"
  by (simp add: counted_def tci_init_def total_def audio_union_def quiet_def armed_def popcount_def sum_list_replicate
      TCI_MAX_CLIENTS_def eval_nat_numeral)

lemma audio_union_bit: "bit (fold (\<lambda>m all. or all m) ms m0) n \<longleftrightarrow> bit m0 n \<or> (\<exists>m \<in> set ms. bit m n)" for m0 :: "32 word"
  by (induction ms arbitrary: m0) (auto simp: bit_simps)

text \<open>C28: The TCI server knows what it streams. Whatever clients connect, send and leave, and
whatever the operator does meanwhile, the two subscription counts are the numbers of bits set in
the masks of the clients, a receiver is in the union of the audio masks exactly when a connected
client is subscribed to it, and the count of clients that supply transmit audio is their
number.\<close>

theorem subscriptions_are_counted:
  "tc_iq_sub_count (tci_after e c show_rx xs) = (\<Sum>l \<leftarrow> tc_clients (tci_after e c show_rx xs). popcount (tl_iq_mask l)) \<and>
   tc_audio_sub_count (tci_after e c show_rx xs) = (\<Sum>l \<leftarrow> tc_clients (tci_after e c show_rx xs). popcount (tl_audio_mask l)) \<and>
   tc_tx_chrono_clients (tci_after e c show_rx xs) = int (length (filter tl_tx_chrono (tc_clients (tci_after e c show_rx xs)))) \<and>
   (bit (tc_audio_rx_mask (tci_after e c show_rx xs)) n \<longleftrightarrow>
      (\<exists>l \<in> set (tc_clients (tci_after e c show_rx xs)). tl_connected l \<and> bit (tl_audio_mask l) n))"
proof -
  have "counted t' \<Longrightarrow> counted (fold (tci_run e) xs t')" for xs t'
    by (induction xs arbitrary: t') (simp_all add: counted_run)
  hence c: "counted (tci_after e c show_rx xs)" using counted_init by (simp add: tci_after_def)
  have a: "sum_list (map armed ls) = int (length (filter tl_tx_chrono ls))" for ls
    by (induction ls) (simp_all add: armed_def)
  have "bit (tc_audio_rx_mask (tci_after e c show_rx xs)) n \<longleftrightarrow> (\<exists>l \<in> set (tc_clients (tci_after e c show_rx xs)). bit (tl_audio_mask l) n)"
    using c by (simp add: counted_def audio_union_map audio_union_bit)
  moreover have "l \<in> set (tc_clients (tci_after e c show_rx xs)) \<Longrightarrow> bit (tl_audio_mask l) n \<Longrightarrow> tl_connected l" for l
    using c by (auto simp: counted_def quiet_def)
  ultimately show ?thesis using c by (auto simp: counted_def total_def a)
qed

section \<open>Who keys the transmitter\<close>

definition asks_to_transmit :: "tci_idle \<Rightarrow> bool" where
  "asks_to_transmit x \<longleftrightarrow> x = Idle_mox True \<or> (\<exists>s. x = Idle_cw_send s) \<or>
     (\<exists>s. x = Idle_state s \<and> sc_op s = TCI_OP_TUNE \<and> sc_b s)"

definition queued :: "tci \<Rightarrow> tci \<Rightarrow> tci_idle set" where
  "queued t t' = set (drop (length (tc_idle t)) (tc_idle t'))"

text \<open>A command that queues nothing of the kind, and does not touch the transmit state
itself.\<close>

definition harmless :: "tci \<Rightarrow> tci \<Rightarrow> bool" where
  "harmless t t' \<longleftrightarrow> (\<exists>xs. tc_idle t' = tc_idle t @ xs \<and> (\<forall>x \<in> set xs. \<not> asks_to_transmit x)) \<and>
     r_mox (tc_radio t') = r_mox (tc_radio t) \<and> r_tune (tc_radio t') = r_tune (tc_radio t)"

lemma harmless_refl [simp]: "harmless t t" by (simp add: harmless_def)

lemma harmless_clients [simp]:
  "harmless t (on_client k f t') = harmless t t'" "harmless t (client_send_text k s t') = harmless t t'"
  "harmless t (tci_ack_echo k q t') = harmless t t'" "harmless t (answer_rx fn name k q t') = harmless t t'"
  "harmless t (answer_rx_or_echo fn name k q t') = harmless t t'"
  "harmless t (client_set_iq k i b t') = harmless t t'" "harmless t (client_set_audio k i b t') = harmless t t'"
  "harmless t (tci_set_tx_chrono k b t') = harmless t t'"
  by (simp_all add: harmless_def on_client_def client_send_text_def tci_ack_echo_def answer_rx_def answer_rx_or_echo_def
      client_set_iq_def client_set_audio_def tci_set_tx_chrono_def Let_def split: option.split)

lemma harmless_queue:
  "harmless t t' \<Longrightarrow> \<not> asks_to_transmit x \<Longrightarrow> harmless t (g_idle_add x t')"
  by (auto simp: harmless_def g_idle_add_def)

lemma harmless_state: "op \<noteq> TCI_OP_TUNE \<Longrightarrow> harmless t (tci_dispatch_state i op b v d t)"
  by (simp add: tci_dispatch_state_def harmless_queue asks_to_transmit_def)

lemma harmless_idle [simp]:
  "harmless t (g_idle_add (Idle_frequency_a i hz) t)" "harmless t (g_idle_add (Idle_frequency_b i hz) t)"
  "harmless t (g_idle_add (Idle_mode i m) t)" "harmless t (g_idle_add Idle_cw_stop t)"
  by (simp_all add: harmless_queue asks_to_transmit_def)

lemma harmless_speed [simp]: "harmless t (on_cat (on_console (on_radio (\<lambda>r. r\<lparr>r_cw_keyer_speed := w\<rparr>))) t)"
  by (simp add: harmless_def on_cat_def on_console_def on_radio_def on_keying_def)

lemma harmless_settings [simp]:
  "harmless t (cmd_vfo k q t)" "harmless t (cmd_modulation k q t)" "harmless t (cmd_iq_samplerate k q t)"
  "harmless t (cmd_rit_enable k q t)" "harmless t (cmd_rit_offset k q t)" "harmless t (cmd_xit_enable k q t)"
  "harmless t (cmd_xit_offset k q t)" "harmless t (cmd_split_enable k q t)" "harmless t (cmd_if k q t)"
  "harmless t (cmd_cw_macros_speed k q t)" "harmless t (cmd_mute k q t)"
  "harmless t (cmd_volume e k q t)" "harmless t (cmd_rx_mute k q t)" "harmless t (cmd_rx_volume e k q t)"
  "harmless t (cmd_lock k q t)" "harmless t (cmd_rx_channel_enable k q t)" "harmless t (cmd_rx_smeter k q t)"
  "op \<noteq> TCI_OP_TUNE \<Longrightarrow> harmless t (level_of_tx level name op e k q t)"
  by (simp_all add: cmd_vfo_def cmd_modulation_def cmd_iq_samplerate_def cmd_rit_enable_def cmd_rit_offset_def
      cmd_xit_enable_def cmd_xit_offset_def cmd_split_enable_def cmd_if_def cmd_cw_macros_speed_def harmless_state
      cmd_mute_def cmd_volume_def cmd_rx_mute_def cmd_rx_volume_def level_of_tx_def cmd_lock_def
      cmd_rx_channel_enable_def cmd_rx_smeter_def Let_def split: option.split)

lemma harmless_streams [simp]:
  "harmless t (cmd_audio_samplerate k q t)" "harmless t (cmd_audio_stream_samples k q t)"
  "harmless t (cmd_tx_stream_audio_buffering k q t)"
  "harmless t (stream_start client_set_iq name k q t)" "harmless t (stream_stop client_set_iq name k q t)"
  "harmless t (stream_start client_set_audio name k q t)" "harmless t (stream_stop client_set_audio name k q t)"
  by (simp_all add: cmd_audio_samplerate_def cmd_audio_stream_samples_def cmd_tx_stream_audio_buffering_def
      stream_start_def stream_stop_def Let_def)
     (simp_all add: harmless_def)

lemma harmless_keys: "\<not> is_tx q t \<Longrightarrow> harmless t (cmd_trx k q t) \<and> harmless t (cmd_tune k q t) \<and> harmless t (cmd_cw_msg k q t)"
  by (simp add: cmd_trx_def cmd_tune_def cmd_cw_msg_def)

lemma harmless_command:
  assumes "tq_name (tci_request token t) \<notin> {''trx'', ''tune'', ''cw_msg''} \<or> \<not> is_tx (tci_request token t) t"
  shows "harmless t (tci_handle_command e k token t)"
proof (cases "is_tx (tci_request token t) t")
  case True
  thus ?thesis using assms by (simp add: tci_handle_command_def Let_def split: option.split)
next
  case False
  thus ?thesis using harmless_keys[OF False, of k] by (simp add: tci_handle_command_def Let_def split: option.split)
qed

lemma rx_at_index:
  assumes "i \<in> set (visible t)"
  shows "tci_rx_at (tci_rx_index i t) t = Some i"
proof -
  have "x \<in> set xs \<Longrightarrow> sorted xs \<Longrightarrow> distinct xs \<Longrightarrow>
      length (filter (\<lambda>j. j < x) xs) < length xs \<and> xs ! length (filter (\<lambda>j. j < x) xs) = x" for xs and x :: nat
  proof (induction xs)
    case (Cons a xs)
    have "x = a \<Longrightarrow> filter (\<lambda>j. j < x) xs = []" using Cons.prems by (auto simp: filter_empty_conv)
    moreover have "x \<noteq> a \<Longrightarrow> a < x" using Cons.prems by (auto simp: le_neq_implies_less)
    ultimately show ?case using Cons by (cases "x = a") auto
  qed simp
  moreover have "sorted (visible t)" "distinct (visible t)" by (simp_all add: visible_def sorted_wrt_filter)
  ultimately show ?thesis using assms by (simp add: tci_rx_at_def tci_rx_index_def)
qed

text \<open>No command, not even one that asks for a transmission, touches the transmit state itself or
what is queued already.\<close>

definition keeps_key :: "tci \<Rightarrow> tci \<Rightarrow> bool" where
  "keeps_key t t' \<longleftrightarrow> r_mox (tc_radio t') = r_mox (tc_radio t) \<and> r_tune (tc_radio t') = r_tune (tc_radio t) \<and>
     take (length (tc_idle t)) (tc_idle t') = tc_idle t"

lemma harmless_keeps_key: "harmless t t' \<Longrightarrow> keeps_key t t'"
  by (auto simp: harmless_def keeps_key_def)

lemma keeps_key_keys: "keeps_key t (cmd_trx k q t)" "keeps_key t (cmd_tune k q t)" "keeps_key t (cmd_cw_msg k q t)"
  by (auto simp: keeps_key_def cmd_trx_def cmd_tune_def cmd_cw_msg_def dispatch_set_mox_def tci_dispatch_state_def
      g_idle_add_def tci_set_tx_chrono_def client_send_text_def on_client_def Let_def split: option.split)

lemma keeps_key_command: "keeps_key t (tci_handle_command e k token t)"
proof (cases "tq_name (tci_request token t) \<in> {''trx'', ''tune'', ''cw_msg''}")
  case True
  thus ?thesis using keeps_key_keys[of t k "tci_request token t"] by (auto simp: tci_handle_command_def Let_def)
next
  case False
  thus ?thesis by (intro harmless_keeps_key harmless_command) simp
qed


section \<open>A server with a radio\<close>

definition tci0 :: tci where "tci0 = tci_init cat0 (\<lambda>_. True)"

definition tci_env0 :: tci_env where
  "tci_env0 = \<lparr>te_strtod = (\<lambda>s. of_int (atoi s)), te_now = 0, te_full_tune_time = 0, te_encoded = (\<lambda>s. Some 48000)\<rparr>"

lemma tci0_cat [simp]: "tc_cat tci0 = cat0" "tc_idle tci0 = []" "tc_show_rx tci0 i" by (simp_all add: tci0_def tci_init_def)

lemma visible0 [simp]: "visible tci0 = [0]"
proof -
  have "slot console0 i \<noteq> None \<longleftrightarrow> i = 0" if "i < 8" for i
    using that by (auto simp: slot_def console0_simps(1) bands_radio_def radio0_def nth_Cons' split: if_splits)
  hence "visible tci0 = filter (\<lambda>i. i = 0) [0 ..< 8]"
    unfolding visible_def MAX_RECEIVERS_def by (intro filter_cong) simp_all
  thus ?thesis by (simp add: upt_rec)
qed

lemma request0: "tci_request ''trx:0,true'' tci0 =
    \<lparr>tq_token = ''trx:0,true'', tq_name = ''trx'', tq_args = [''0'', ''true''], tq_req_index = 0, tq_addr = Some 0,
     tq_rx_index = 0, tq_trx = Some 0\<rparr>"
proof -
  have p: "g_ascii_tolower ''trx'' = ''trx''" "tokens 4 (CHR '','') ''0,true'' = [''0'', ''true'']" "atoi ''0'' = 0"
    by code_simp+
  show ?thesis by (simp add: tci_request_def p tci_rx_at_def Let_def)
qed

lemma unarmed0: "tci_set_tx_chrono 0 False tci0 = tci0"
  by (simp add: tci_set_tx_chrono_def tci0_def tci_init_def TCI_MAX_CLIENTS_def)


section \<open>What is left open\<close>

text \<open>A client that goes away is disarmed, but the transmitter it keyed stays keyed: nothing
of the radio changes and nothing is queued.\<close>

lemma leaving_client_keeps_transmitting:
  "tc_cat (clients_remove k t) = tc_cat t" "tc_idle (clients_remove k t) = tc_idle t"
  by (simp_all add: clients_remove_def tci_set_tx_chrono_def client_set_audio_def client_set_iq_def on_client_def Let_def)

text \<open>A first field that is no number counts as index 0.\<close>

lemma garbage_index_keys:
  "Idle_mox True \<in> set (tc_idle (tci_handle_command tci_env0 0 ''trx:x,true'' tci0))"
proof -
  have p: "g_ascii_tolower ''trx'' = ''trx''" "tokens 4 (CHR '','') ''x,true'' = [''x'', ''true'']" "atoi ''x'' = 0"
    "tci_argbool ''true''"
    by code_simp+
  have x: "tx_rx (r_transmitter (st_radio console0)) = Some 0" "st_can_transmit console0"
    by (simp_all add: console0_simps bands_radio_def radio0_def transmitter0_def)
  have r: "tci_request ''trx:x,true'' tci0 =
    \<lparr>tq_token = ''trx:x,true'', tq_name = ''trx'', tq_args = [''x'', ''true''], tq_req_index = 0, tq_addr = Some 0,
     tq_rx_index = 0, tq_trx = Some 0\<rparr>"
    by (simp add: tci_request_def p tci_rx_at_def Let_def)
  have "tci_handle_command tci_env0 0 ''trx:x,true'' tci0 = cmd_trx 0 (tci_request ''trx:x,true'' tci0) tci0"
    unfolding tci_handle_command_def Let_def r by simp
  thus ?thesis
    unfolding r by (simp add: cmd_trx_def is_tx_def tci_tx_index_def x tci_rx_index_def p unarmed0 dispatch_set_mox_def
        g_idle_add_def Let_def)
qed

end
