(* ===== verification/Cat_Replies.thy ===== *)
theory Cat_Replies
  imports Cat_Session
begin

text \<open>What a CAT client is told: the frequency and the settings it has set are read back as
it wrote them, a reply is one frame that begins with the letters of its command; and where the
commands do not do what they are meant to do.\<close>

section \<open>Numbers that go out and come in\<close>

lemma dropWhile_hd: "s \<noteq> [] \<Longrightarrow> \<not> P (hd s) \<Longrightarrow> dropWhile P s = s"
  by (cases s) simp_all

lemma digits_value_zeros: "digits_value (replicate n CHR ''0'' @ s) = digits_value s"
  by (induction n) (simp_all add: digits_value_def)

lemma atoi_of_digits:
  assumes "s \<noteq> []" "\<forall>c \<in> set s. isdigit_c c" "r = [] \<or> \<not> isdigit_c (hd r)"
  shows "atoi (s @ r) = int (digits_value s)"
proof -
  obtain c cs where s: "s = c # cs" using assms(1) by (cases s) auto
  have d: "isdigit_c c" using assms(2) s by simp
  have "takeWhile isdigit_c (s @ r) = s" by (rule takeWhile_digits[OF assms(2,3)])
  thus ?thesis using isdigit_not_space[OF d] isdigit_not_sign[OF d] by (simp add: atoi_def s Let_def)
qed

lemma zeros_digits: "\<forall>c \<in> set (replicate n CHR ''0'' @ digits k). isdigit_c c"
  using digits_isdigit[of k] by (auto simp: isdigit_c_def)

lemma atoi_fmt_zero: "0 \<le> n \<Longrightarrow> atoi (fmt_zero w n @ '';'') = n"
  using atoi_of_digits[OF _ zeros_digits, of "w - length (digits (nat n))" "nat n" "'';''"]
  by (simp add: fmt_zero_def pad_left_def digits_value_zeros digits_value_digits isdigit_c_def)

lemma length_pad [simp]: "length (pad_left ch w s) = max w (length s)"
  by (simp add: pad_left_def)

lemma digits_length: "n < 10 ^ w \<Longrightarrow> 0 < w \<Longrightarrow> length (digits n) \<le> w"
proof (induction w arbitrary: n)
  case (Suc w)
  show ?case
  proof (cases "n < 10")
    case False
    hence "n div 10 < 10 ^ w" "0 < w" using Suc.prems by (auto simp: less_mult_imp_div_less intro: gr0I)
    thus ?thesis using Suc.IH[of "n div 10"] False by (subst digits.simps) simp
  qed (subst digits.simps, simp)
qed simp

lemma length_fmt_zero: "0 \<le> n \<Longrightarrow> n < 10 ^ w \<Longrightarrow> 0 < w \<Longrightarrow> length (fmt_zero w n) = w"
  using digits_length[of "nat n" w] by (simp add: fmt_zero_def nat_less_iff)

text \<open>A command is its letters, a field and the only semicolon, so the tests for its end
succeed at one place.\<close>

lemma ends_command: "CHR '';'' \<notin> set w \<Longrightarrow> ends (w @ '';'') k \<longleftrightarrow> k = length w"
  by (auto simp: ends_def chr_at_def nth_append dest: nth_mem)

definition spells :: "string \<Rightarrow> string \<Rightarrow> string \<Rightarrow> bool" where
  "spells cmd name f \<longleftrightarrow> (\<forall>k. ends cmd k = (k = length name + length f)) \<and>
     num (length name) cmd = atoi (f @ '';'') \<and> (\<forall>k < length name. chr_at cmd k = name ! k)"

lemma spells_command: "CHR '';'' \<notin> set name \<Longrightarrow> CHR '';'' \<notin> set f \<Longrightarrow> spells (name @ f @ '';'') name f"
  using ends_command[of "name @ f"] by (simp add: spells_def num_def chr_at_def nth_append)

lemma spells_query: "CHR '';'' \<notin> set name \<Longrightarrow> spells (name @ '';'') name []"
  using spells_command[of name "[]"] by simp

lemma spells2:
  "spells cmd [a, b] f \<Longrightarrow> chr_at cmd 0 = a \<and> chr_at cmd 1 = b \<and> chr_at cmd (Suc 0) = b \<and> num 2 cmd = atoi (f @ '';'') \<and>
     (\<forall>k. ends cmd k = (k = 2 + length f))"
  by (simp add: spells_def numeral_2_eq_2 less_Suc_eq)

lemma spells4:
  "spells cmd [a, b, x, y] f \<Longrightarrow> chr_at cmd 0 = a \<and> chr_at cmd 1 = b \<and> chr_at cmd (Suc 0) = b \<and> chr_at cmd 2 = x \<and>
     chr_at cmd 3 = y \<and> num 4 cmd = atoi (f @ '';'') \<and> (\<forall>k. ends cmd k = (k = 4 + length f))"
  by (simp add: spells_def eval_nat_numeral less_Suc_eq all_conj_distrib)

lemma digits_no_semicolon: "CHR '';'' \<notin> set (digits n)"
  using digits_isdigit[of n] by (auto simp: isdigit_c_def)

lemma fmt_no_semicolon [simp]:
  "CHR '';'' \<notin> set (fmt_zero w n)" "CHR '';'' \<notin> set (fmt_plus_zero w n)" "CHR '';'' \<notin> set (fmt_d n)"
  "CHR '';'' \<notin> set (fmt_blank w n)" "CHR '';'' \<notin> set (fmt_plus_blank w n)" "CHR '';'' \<notin> set (fmt_flag b)"
  by (simp_all add: fmt_zero_def fmt_plus_zero_def fmt_d_def fmt_blank_def fmt_plus_blank_def fmt_flag_def pad_left_def
      digits_no_semicolon)

section \<open>The frequency\<close>

lemma receiver_tuned_dial: "receiver_tuned_frequency rx = dial rx"
  by (simp add: receiver_tuned_frequency_def dial_def)

lemma apply_on_rx:
  assumes "slot st i = Some rx" "\<not> rx_locked rx" "rx_lo_a rx = 0" "0 \<le> rx_sample_rate rx"
    and "0 \<le> hz" "hz \<le> receiver_max_frequency (st_radio st) rx"
  shows "dial (rx_of (on_rx i (vfo_apply_frequency hz False) st) i) = hz"
    and "\<exists>rx'. slot (on_rx i (vfo_apply_frequency hz False) st) i = Some rx'"
proof -
  let ?d = "if rx_ctun rx \<or> rx_freetune rx then hz - dial rx else dial rx - hz"
  have e: "vfo_apply_frequency hz False (tuner_of i rx st) = out Ev_Vfo (receiver_move ?d False (tuner_of i rx st))"
    using assms(2) by (auto simp: vfo_apply_frequency_def dial_def Let_def)
  have l: "t_index (receiver_move ?d False (tuner_of i rx st)) = i"
    "length (r_receiver (t_radio (receiver_move ?d False (tuner_of i rx st)))) = length (r_receiver (st_radio st))"
    by (simp_all add: move_keeps_place)
  have "rx_of (on_rx i (vfo_apply_frequency hz False) st) i = rx_of (on_rx i (receiver_move ?d False) st) i"
    using rx_of_on_rx[OF assms(1), of "vfo_apply_frequency hz False"] rx_of_on_rx[OF assms(1), of "receiver_move ?d False"] e l
    by simp
  thus "dial (rx_of (on_rx i (vfo_apply_frequency hz False) st) i) = hz"
    using dial_on_rx[OF assms(1-4), of hz ?d False] assms(5,6) by (simp add: round_step_def)
  have "i < length (r_receiver (st_radio st))" using assms(1) by (simp add: slot_def split: if_splits)
  thus "\<exists>rx'. slot (on_rx i (vfo_apply_frequency hz False) st) i = Some rx'"
    using assms(1) l e by (simp add: on_rx_def slot_put)
qed

text \<open>C24: The frequency a CAT client sets is the one it reads: after \<open>FA\<close> or \<open>ZZFA\<close>
with eleven digits, on an unlocked receiver without a converter oscillator on VFO A, for a frequency
above zero, within the receiver's upper limit and of at most eleven digits, with or without a
cursor, the dial is on that frequency and both queries answer with exactly those digits.\<close>

theorem frequency_set_is_frequency_read:
  assumes "slot (ca_console c) i = Some rx" "\<not> rx_locked rx" "rx_lo_a rx = 0" "0 \<le> rx_sample_rate rx"
    and "0 < hz" "hz \<le> receiver_max_frequency (ca_radio c) rx" "hz < 10 ^ 11"
    and "cmd = ''FA'' @ fmt_zero 11 hz @ '';'' \<or> cmd = ''ZZFA'' @ fmt_zero 11 hz @ '';''"
    and "c1 = fst (parse_cmd e i cmd c)"
  shows "snd (parse_cmd e i cmd c) = [] \<and> dial (rx_of (ca_console c1) i) = hz \<and>
    snd (parse_cmd e i ''FA;'' c1) = [''FA'' @ fmt_zero 11 hz @ '';''] \<and>
    snd (parse_cmd e i ''ZZFA;'' c1) = [''ZZFA'' @ fmt_zero 11 hz @ '';'']"
proof -
  let ?c1 = "tune_rx i (vfo_apply_frequency hz False) c"
  let ?f = "fmt_zero 11 hz"
  have l: "length ?f = 11" using length_fmt_zero[of hz 11] assms(5,7) by simp
  have a: "atoi (?f @ '';'') = hz" using atoi_fmt_zero assms(5) by simp
  have "dispatch e i cmd c = ok ?c1"
    using assms(8)
  proof
    assume "cmd = ''FA'' @ ?f @ '';''"
    hence "spells cmd ''FA'' ?f" using spells_command[of "''FA''" ?f] by simp
    from spells2[OF this] show ?thesis using a l assms(5) by (simp add: dispatch_def cat_F_def cat_set_vfo_a_def)
  next
    assume "cmd = ''ZZFA'' @ ?f @ '';''"
    hence "spells cmd ''ZZFA'' ?f" using spells_command[of "''ZZFA''" ?f] by simp
    from spells4[OF this] show ?thesis using a l assms(5)
      by (simp add: dispatch_def cat_Z_def parse_extended_cmd_def zz_F_def cat_set_vfo_a_def)
  qed
  hence p: "parse_cmd e i cmd c = (?c1, [])" using assms(1) by (simp add: parse_cmd_def ok_def)
  obtain rx' where rx': "slot (ca_console ?c1) i = Some rx'"
    using apply_on_rx(2)[OF assms(1-4), of hz] assms(5,6) by (auto simp: tune_rx_def)
  have d: "dial (rx_of (ca_console ?c1) i) = hz"
    using apply_on_rx(1)[OF assms(1-4)] assms(5,6) by (simp add: tune_rx_def)
  have "dispatch e i ''FA;'' ?c1 = reply (''FA'' @ ?f @ '';'') ?c1"
    using spells2[OF spells_query[of "''FA''", simplified]] d by (simp add: dispatch_def cat_F_def receiver_tuned_dial Let_def)
  moreover have "dispatch e i ''ZZFA;'' ?c1 = reply (''ZZFA'' @ ?f @ '';'') ?c1"
    using spells4[OF spells_query[of "''ZZFA''", simplified]] d
    by (simp add: dispatch_def cat_Z_def parse_extended_cmd_def zz_F_def receiver_tuned_dial Let_def)
  moreover have "c1 = ?c1" by (simp add: assms(9) p)
  moreover have "parse_cmd e i q ?c1 = (fst (dispatch e i q ?c1), fst (snd (dispatch e i q ?c1)))"
    if "snd (snd (dispatch e i q ?c1))" for q
    using rx' that by (simp add: parse_cmd_def case_prod_beta)
  ultimately show ?thesis using d p by (simp add: reply_def)
qed

lemma digit_chars:
  "digit_char 0 = CHR ''0''" "digit_char 1 = CHR ''1''" "digit_char (Suc 0) = CHR ''1''" "digit_char 2 = CHR ''2''"
  "digit_char 3 = CHR ''3''" "digit_char 4 = CHR ''4''" "digit_char 5 = CHR ''5''" "digit_char 6 = CHR ''6''"
  "digit_char 7 = CHR ''7''" "digit_char 8 = CHR ''8''" "digit_char 9 = CHR ''9''"
  by code_simp+

theorem frequency_set_is_frequency_read_witness:
  "snd (parse_cmd cat_env0 0 ''FA;'' (fst (parse_cmd cat_env0 0 ''FA00014195000;'' cat0))) = [''FA00014195000;'']"
proof -
  have f: "fmt_zero 11 14195000 = ''00014195000''"
  proof -
    have d: "digits 14195000 = ''14195000''" by (simp add: digits.simps digit_chars)
    have r: "replicate 3 CHR ''0'' = ''000''" by code_simp
    show ?thesis by (simp add: fmt_zero_def pad_left_def d r)
  qed
  have s: "slot (ca_console cat0) 0 = Some receiver0" by (simp add: console0_simps)
  have m: "14195000 \<le> receiver_max_frequency (ca_radio cat0) receiver0" by (simp add: console0_simps)
  have n: "(0 :: int) < 14195000" "(14195000 :: int) < 10 ^ 11" by simp_all
  have c: "''FA00014195000;'' = ''FA'' @ fmt_zero 11 14195000 @ '';''" by (simp add: f)
  show ?thesis
    using frequency_set_is_frequency_read[OF s receiver0_simps(1-3) n(1) m n(2) disjI1[OF c] refl, of cat_env0]
    unfolding f by (elim conjE) (simp only: append_Cons append_Nil)
qed

section \<open>Replies\<close>

text \<open>A frame is closed by its only semicolon. A reply to an extended command begins with
its four letters, to any other with its two.\<close>

definition frame :: "string \<Rightarrow> bool" where
  "frame s \<longleftrightarrow> s \<noteq> [] \<and> last s = CHR '';'' \<and> CHR '';'' \<notin> set (butlast s)"

definition letter_count :: "string \<Rightarrow> nat" where
  "letter_count cmd = (if chr_at cmd 0 = CHR ''Z'' then 4 else 2)"

definition begins :: "string \<Rightarrow> string \<Rightarrow> bool" where
  "begins cmd s \<longleftrightarrow> (\<forall>k < letter_count cmd. chr_at s k = chr_at cmd k)"

definition sound :: "string \<Rightarrow> answer \<Rightarrow> bool" where
  "sound cmd a \<longleftrightarrow> (case a of (_, replies, implemented) \<Rightarrow>
     length replies \<le> 1 \<and> (\<not> implemented \<longrightarrow> replies = []) \<and> (\<forall>s \<in> set replies. frame s \<and> begins cmd s))"

lemma sound_simps [simp]:
  "sound cmd (ok c)" "sound cmd (refuse c)" "sound cmd (reply s c) \<longleftrightarrow> frame s \<and> begins cmd s"
  by (simp_all add: sound_def ok_def refuse_def reply_def)

lemma frame_simps [simp]:
  "frame (x # xs) \<longleftrightarrow> (if xs = [] then x = CHR '';'' else x \<noteq> CHR '';'' \<and> frame xs)"
  "b \<noteq> [] \<Longrightarrow> frame (a @ b) \<longleftrightarrow> CHR '';'' \<notin> set a \<and> frame b" "\<not> frame []"
  by (auto simp: frame_def butlast_append)

lemma chr_at_Cons [simp]:
  "chr_at (x # xs) 0 = x" "chr_at (x # xs) (Suc k) = chr_at xs k" "chr_at (x # xs) 2 = chr_at xs 1"
  "chr_at (x # xs) 3 = chr_at xs 2"
  by (simp_all add: chr_at_def eval_nat_numeral)

lemma begins4: "chr_at cmd 0 = CHR ''Z'' \<Longrightarrow> begins cmd s \<longleftrightarrow> chr_at s 0 = chr_at cmd 0 \<and> chr_at s 1 = chr_at cmd 1 \<and>
    chr_at s 2 = chr_at cmd 2 \<and> chr_at s 3 = chr_at cmd 3"
  by (simp add: begins_def letter_count_def eval_nat_numeral less_Suc_eq all_conj_distrib conj_ac)

lemma begins2: "chr_at cmd 0 \<noteq> CHR ''Z'' \<Longrightarrow> begins cmd s \<longleftrightarrow> chr_at s 0 = chr_at cmd 0 \<and> chr_at s 1 = chr_at cmd 1"
  by (simp add: begins_def letter_count_def eval_nat_numeral less_Suc_eq all_conj_distrib conj_ac)

definition titles_plain :: "cat \<Rightarrow> bool" where
  "titles_plain c \<longleftrightarrow> (\<forall>row \<in> set (st_filters (ca_console c)). \<forall>f \<in> set row. CHR '';'' \<notin> set (fl_title f))"

lemma filter_lines_plain:
  assumes "titles_plain c" "filters_ok (st_filters (ca_console c))" "0 \<le> m" "m < MODES"
  shows "CHR '';'' \<notin> set (concat (map filter_line (take n (st_filters (ca_console c) ! nat m))))"
proof -
  have "st_filters (ca_console c) ! nat m \<in> set (st_filters (ca_console c))"
    using assms(2-4) by (simp add: filters_ok_def)
  hence "CHR '';'' \<notin> set (fl_title f)" if "f \<in> set (take n (st_filters (ca_console c) ! nat m))" for f
    using assms(1) in_set_takeD[OF that] unfolding titles_plain_def by blast
  hence "CHR '';'' \<notin> set (filter_line f)" if "f \<in> set (take n (st_filters (ca_console c) ! nat m))" for f
    using that by (simp add: filter_line_def fmt_s_def pad_left_def)
  thus ?thesis unfolding set_concat set_map by blast
qed

lemma sound_flag_cmd:
  "name \<noteq> [] \<Longrightarrow> CHR '';'' \<notin> set name \<Longrightarrow> begins cmd (name @ fmt_flag b @ '';'') \<Longrightarrow> sound cmd (flag_cmd name b f cmd c)"
  by (simp add: flag_cmd_def Let_def)

lemma sound_level_cmd:
  "CHR '';'' \<notin> set name \<Longrightarrow> CHR '';'' \<notin> set level \<Longrightarrow> begins cmd (name @ level @ '';'') \<Longrightarrow> sound cmd (level_cmd name k i level f cmd c)"
  by (simp add: level_cmd_def)

lemma sound_zz:
  assumes z: "chr_at cmd 0 = CHR ''Z''" "chr_at cmd 1 = CHR ''Z''"
    and t: "titles_plain c" "filters_ok (st_filters (ca_console c))"
    and q: "\<not> (chr_at cmd 2 = CHR ''D'' \<and> (chr_at cmd 3 = CHR ''Q'' \<or> chr_at cmd 3 = CHR ''U''))"
  shows "sound cmd (parse_extended_cmd e i cmd c)"
proof -
  have z1: "chr_at cmd (Suc 0) = CHR ''Z''" using z(2) by simp
  note r = z z1 begins4[OF z(1)] sound_flag_cmd sound_level_cmd eq_reply_def split_cmd_def
  have "sound cmd (zz_A i cmd c)" if "chr_at cmd 2 = CHR ''A''" unfolding zz_A_def Let_def using that by (simp add: r)
  moreover have "sound cmd (zz_B i cmd c)" if "chr_at cmd 2 = CHR ''B''" unfolding zz_B_def Let_def using that by (simp add: r)
  moreover have "sound cmd (zz_C i cmd c)" if "chr_at cmd 2 = CHR ''C''" unfolding zz_C_def Let_def using that by (simp add: r)
  moreover have "sound cmd (zz_D i cmd c)" if "chr_at cmd 2 = CHR ''D''" unfolding zz_D_def Let_def using that q by (simp add: r)
  moreover have "sound cmd (zz_E i cmd c)" if "chr_at cmd 2 = CHR ''E''" unfolding zz_E_def Let_def using that by (simp add: r)
  moreover have "sound cmd (zz_F i cmd c)" if "chr_at cmd 2 = CHR ''F''" unfolding zz_F_def Let_def using that by (simp add: r)
  moreover have "sound cmd (zz_G i cmd c)" if "chr_at cmd 2 = CHR ''G''" unfolding zz_G_def Let_def using that by (simp add: r)
  moreover have "sound cmd (zz_I cmd c)" if "chr_at cmd 2 = CHR ''I''" unfolding zz_I_def Let_def using that by (simp add: r)
  moreover have "sound cmd (zz_L i cmd c)" if "chr_at cmd 2 = CHR ''L''" unfolding zz_L_def Let_def using that by (simp add: r)
  moreover have "sound cmd (zz_M i cmd c)" if "chr_at cmd 2 = CHR ''M''"
    unfolding zz_M_def Let_def using that filter_lines_plain[OF t, of "num 4 cmd - 1" "nat FILTERS"] by (simp add: r)
  moreover have "sound cmd (zz_N i cmd c)" if "chr_at cmd 2 = CHR ''N''" unfolding zz_N_def Let_def using that by (simp add: r)
  moreover have "sound cmd (zz_P i cmd c)" if "chr_at cmd 2 = CHR ''P''" unfolding zz_P_def Let_def using that by (simp add: r)
  moreover have "sound cmd (zz_R i cmd c)" if "chr_at cmd 2 = CHR ''R''" unfolding zz_R_def Let_def using that by (simp add: r)
  moreover have "sound cmd (zz_S i cmd c)" if "chr_at cmd 2 = CHR ''S''" unfolding zz_S_def Let_def using that by (simp add: r)
  moreover have "sound cmd (zz_T e cmd c)" if "chr_at cmd 2 = CHR ''T''" unfolding zz_T_def Let_def using that by (simp add: r)
  moreover have "sound cmd (zz_U i cmd c)" if "chr_at cmd 2 = CHR ''U''" unfolding zz_U_def Let_def using that by (simp add: r)
  moreover have "sound cmd (zz_V cmd c)" if "chr_at cmd 2 = CHR ''V''" unfolding zz_V_def Let_def using that by (simp add: r)
  moreover have "sound cmd (zz_X i cmd c)" if "chr_at cmd 2 = CHR ''X''" unfolding zz_X_def Let_def using that by (simp add: r)
  ultimately show ?thesis unfolding parse_extended_cmd_def Let_def by simp
qed

lemma sound_fw: "chr_at cmd 0 = CHR ''F'' \<Longrightarrow> chr_at cmd 1 = CHR ''W'' \<Longrightarrow> sound cmd (fw_read i c) \<and> sound cmd (fw_set i n c)"
  by (simp add: fw_read_def fw_set_def begins2 Let_def)

lemma sound_dispatch:
  assumes t: "titles_plain c" "filters_ok (st_filters (ca_console c))"
    and q: "take 4 cmd \<noteq> ''ZZDQ''" "take 4 cmd \<noteq> ''ZZDU''"
  shows "sound cmd (dispatch e i cmd c)"
proof (cases "chr_at cmd 0 = CHR ''Z''")
  case True
  have "take 4 cmd = [chr_at cmd 0, chr_at cmd 1, chr_at cmd 2, chr_at cmd 3]" if "chr_at cmd 3 \<noteq> CHR 0x00"
    using that by (cases cmd; cases "tl cmd"; cases "tl (tl cmd)"; cases "tl (tl (tl cmd))")
      (auto simp: chr_at_def eval_nat_numeral split: if_splits)
  hence "chr_at cmd 1 = CHR ''Z'' \<Longrightarrow> \<not> (chr_at cmd 2 = CHR ''D'' \<and> (chr_at cmd 3 = CHR ''Q'' \<or> chr_at cmd 3 = CHR ''U''))"
    using q True by auto
  thus ?thesis using sound_zz[OF True _ t, of e i] True by (simp add: dispatch_def cat_Z_def Let_def)
next
  case False
  note r = begins2[OF False] sound_flag_cmd
  have a: "chr_at cmd 0 = CHR ''A'' \<Longrightarrow> sound cmd (cat_A i cmd c)" unfolding cat_A_def Let_def by (simp add: r)
  have b: "chr_at cmd 0 = CHR ''B'' \<Longrightarrow> sound cmd (cat_B i cmd c)" unfolding cat_B_def Let_def by (simp add: r)
  have cc: "chr_at cmd 0 = CHR ''C'' \<Longrightarrow> sound cmd (cat_C cmd c)" unfolding cat_C_def Let_def by (simp add: r)
  have d: "chr_at cmd 0 = CHR ''D'' \<Longrightarrow> sound cmd (cat_D i cmd c)" unfolding cat_D_def Let_def by (simp add: r)
  have f: "chr_at cmd 0 = CHR ''F'' \<Longrightarrow> sound cmd (cat_F i cmd c)"
    unfolding cat_F_def Let_def using sound_fw[of cmd] by (simp add: r)
  have g: "chr_at cmd 0 = CHR ''G'' \<Longrightarrow> sound cmd (cat_G i cmd c)" unfolding cat_G_def Let_def by (simp add: r)
  have ii: "chr_at cmd 0 = CHR ''I'' \<Longrightarrow> sound cmd (cat_I i cmd c)" unfolding cat_I_def if_reply_def Let_def by (simp add: r)
  have k: "chr_at cmd 0 = CHR ''K'' \<Longrightarrow> sound cmd (cat_K cmd c)" unfolding cat_K_def Let_def by (simp add: r)
  have l: "chr_at cmd 0 = CHR ''L'' \<Longrightarrow> sound cmd (cat_L i cmd c)" unfolding cat_L_def Let_def by (simp add: r)
  have m: "chr_at cmd 0 = CHR ''M'' \<Longrightarrow> sound cmd (cat_M i cmd c)" unfolding cat_M_def Let_def by (simp add: r)
  have n: "chr_at cmd 0 = CHR ''N'' \<Longrightarrow> sound cmd (cat_N i cmd c)" unfolding cat_N_def Let_def by (simp add: r)
  have p: "chr_at cmd 0 = CHR ''P'' \<Longrightarrow> sound cmd (cat_P i cmd c)" unfolding cat_P_def Let_def by (simp add: r)
  have rr: "chr_at cmd 0 = CHR ''R'' \<Longrightarrow> sound cmd (cat_R i cmd c)" unfolding cat_R_def Let_def by (simp add: r)
  have s: "chr_at cmd 0 = CHR ''S'' \<Longrightarrow> sound cmd (cat_S i cmd c)"
    unfolding cat_S_def cmd_SA_def cmd_SH_def cmd_SL_def Let_def by (simp add: r)
  have tt: "chr_at cmd 0 = CHR ''T'' \<Longrightarrow> sound cmd (cat_T cmd c)" unfolding cat_T_def Let_def by (simp add: r)
  have u: "chr_at cmd 0 = CHR ''U'' \<Longrightarrow> sound cmd (cat_U i cmd c)" unfolding cat_U_def Let_def by (simp add: r)
  have v: "chr_at cmd 0 = CHR ''V'' \<Longrightarrow> sound cmd (cat_V i cmd c)" unfolding cat_V_def Let_def by (simp add: r)
  have x: "chr_at cmd 0 = CHR ''X'' \<Longrightarrow> sound cmd (cat_X i cmd c)" unfolding cat_X_def Let_def by (simp add: r)
  show ?thesis using False unfolding dispatch_def Let_def
    by (simp add: a b cc d f g ii k l m n p rr s tt u v x)
qed

text \<open>A CAT client can match replies to commands: every command but \<open>ZZDQ\<close> and
\<open>ZZDU\<close> is answered at most once, by one frame (a string closed by its only semicolon), and
the frame begins with the letters of the command or is the refusal \<open>?;\<close>.\<close>

theorem replies_match_their_commands:
  assumes "cat_typed (ca_console c)" "titles_plain c" "take 4 cmd \<noteq> ''ZZDQ''" "take 4 cmd \<noteq> ''ZZDU''"
    and "replies = snd (parse_cmd e i cmd c)"
  shows "length replies \<le> 1 \<and> (\<forall>s \<in> set replies. frame s \<and> (s = ''?;'' \<or> begins cmd s))"
proof -
  have "sound cmd (dispatch e i cmd c)" using sound_dispatch[OF assms(2) _ assms(3,4)] assms(1) by (simp add: cat_typed_def)
  thus ?thesis using assms(5) by (cases "dispatch e i cmd c"; cases "slot (ca_console c) i") (auto simp: parse_cmd_def sound_def)
qed

lemma titles0: "titles_plain cat0"
  by (simp add: titles_plain_def console0_def filters0_def filter_row_defs flt_def)

theorem replies_match_their_commands_witness:
  "snd (parse_cmd cat_env0 0 ''FA;'' cat0) \<noteq> [''A;'', ''B;'']"
  using replies_match_their_commands[OF cat0_typed titles0 _ _ refl, of "''FA;''" cat_env0 0] by auto

text \<open>The two exceptions: the status reply does not begin with its command, and the level
command replies and refuses.\<close>

theorem status_reply_has_no_name:
  "hd (status_reply i c) = CHR ''0'' \<or> hd (status_reply i c) = CHR ''1''"
  by (simp add: status_reply_def fmt_flag_def Let_def)

theorem level_is_answered_twice:
  assumes "slot (ca_console c) i = Some rx"
  shows "snd (parse_cmd e i ''ZZDQ;'' c) = [''ZZDQ'' @ fmt_plus_blank 4 (rx_panadapter_low rx) @ '';'', ''?;'']"
  using spells4[OF spells_query[of "''ZZDQ''", simplified]] assms
  by (simp add: parse_cmd_def dispatch_def cat_Z_def parse_extended_cmd_def zz_D_def level_cmd_def reply_def rx_of_def Let_def)

section \<open>Settings are read back\<close>

text \<open>A setting is made without a reply, and the query is then answered with the very
command that made it.\<close>

definition reads_back :: "cat_env \<Rightarrow> nat \<Rightarrow> string \<Rightarrow> string \<Rightarrow> cat \<Rightarrow> bool" where
  "reads_back e i name f c \<longleftrightarrow> snd (parse_cmd e i (name @ f @ '';'') c) = [] \<and>
     snd (parse_cmd e i (name @ '';'') (fst (parse_cmd e i (name @ f @ '';'') c))) = [name @ f @ '';'']"

lemma reads_backI:
  assumes "slot (ca_console c) i = Some rx" "dispatch e i (name @ f @ '';'') c = ok c1"
    and "slot (ca_console c1) i = Some rx1" "dispatch e i (name @ '';'') c1 = reply (name @ f @ '';'') c1"
  shows "reads_back e i name f c"
  using assms by (simp add: reads_back_def parse_cmd_def ok_def reply_def)

lemma fmt_d_digit: "0 \<le> n \<Longrightarrow> n < 10 \<Longrightarrow> length (fmt_d n) = 1 \<and> atoi (fmt_d n @ '';'') = n"
  using atoi_digits[of "'';''" "nat n"] by (simp add: fmt_d_def isdigit_c_def digits.simps)

lemma fmt_flag_d: "n = 0 \<or> n = 1 \<Longrightarrow> fmt_flag (n = 1) = fmt_d n"
  by (auto simp: fmt_flag_def fmt_d_def digits.simps digit_chars)

lemma flag_reads_back:
  assumes "slot (ca_console c) i = Some rx" "n = 0 \<or> n = 1" "CHR '';'' \<notin> set name"
    and d: "\<And>cmd c' g. spells cmd name g \<Longrightarrow> P c' \<Longrightarrow> dispatch e i cmd c' = flag_cmd name (b c') (f c') cmd c'"
    and "P c" "P (f c n c)" "b (f c n c) = (n = 1)" "slot (ca_console (f c n c)) i = Some rx1"
  shows "reads_back e i name (fmt_d n) c"
proof (rule reads_backI[OF assms(1) _ assms(8)])
  have l: "length (fmt_d n) = 1" "atoi (fmt_d n @ '';'') = n" using fmt_d_digit[of n] assms(2) by auto
  have s: "spells (name @ fmt_d n @ '';'') name (fmt_d n)" using spells_command[OF assms(3)] by simp
  show "dispatch e i (name @ fmt_d n @ '';'') c = ok (f c n c)"
    using s unfolding d[OF s assms(5)] by (simp add: flag_cmd_def spells_def l Let_def)
  have q: "spells (name @ '';'') name []" by (rule spells_query[OF assms(3)])
  show "dispatch e i (name @ '';'') (f c n c) = reply (name @ fmt_d n @ '';'') (f c n c)"
    using q fmt_flag_d[OF assms(2)] unfolding d[OF q assms(6)] by (simp add: flag_cmd_def spells_def assms(7) Let_def)
qed

text \<open>Where the receiver is after a step of the panel.\<close>

lemma slot_shown [simp]: "slot (ca_console (shown_on i c)) j = slot (ca_console c) j"
  by (simp add: shown_on_def)

lemma slot_panel [simp]:
  "slot (st\<lparr>st_panel := p\<rparr>) j = slot st j" "slot (dsp i e st) j = slot st j" "slot (on_panel i f st) j = slot st j"
  by (simp_all add: slot_def dsp_def on_panel_def)

lemma slot_pushes [simp]: "slot (update_noise i st) j = slot st j" "slot (set_agc i st) j = slot st j"
  by (simp_all add: update_noise_def set_agc_def Let_def)

lemma panel_noise [simp]: "st_panel (update_noise i st) = st_panel st"
  by (simp add: update_noise_def update_vfo_def Let_def dsp_def)

lemma slot_keying: "(\<And>k. r_receiver (k_radio (f k)) = r_receiver (k_radio k)) \<Longrightarrow> slot (on_keying f st) j = slot st j"
  by (simp add: slot_def on_keying_def)

lemma noise_reads_back:
  assumes "slot (ca_console c) i = Some rx" "n = 0 \<or> n = 1" "CHR '';'' \<notin> set name"
    and "\<And>cmd c' g. spells cmd name g \<Longrightarrow>
      dispatch e i cmd c' = flag_cmd name (b (st_panel (ca_console c') i)) (\<lambda>n. set_noise (f n) n i) cmd c'"
    and "\<And>p. b (f n p) = (n = 1)"
  shows "reads_back e i name (fmt_d n) c"
proof (rule flag_reads_back[where P = "\<lambda>_. True" and b = "\<lambda>c. b (st_panel (ca_console c) i)"
      and f = "\<lambda>_ n. set_noise (f n) n i" and ?rx1.0 = rx, OF assms(1-3)])
  show "dispatch e i cmd c' = flag_cmd name (b (st_panel (ca_console c') i)) (\<lambda>n. set_noise (f n) n i) cmd c'"
    if "spells cmd name g" for cmd c' g by (rule assms(4)[OF that])
  show "b (st_panel (ca_console (set_noise (f n) n i c)) i) = (n = 1)"
    using assms(5) by (simp add: set_noise_def on_console_def on_panel_def a_flag_def)
  show "slot (ca_console (set_noise (f n) n i c)) i = Some rx"
    using assms(1) by (simp add: set_noise_def on_console_def a_flag_def)
qed simp_all

lemmas dispatch_defs = dispatch_def cat_Z_def parse_extended_cmd_def Let_def

lemma noise_settings:
  assumes "slot (ca_console c) i = Some rx" "n = 0 \<or> n = 1"
    and "name \<in> {''NB'', ''NT'', ''ZZNA'', ''ZZNB'', ''ZZNC'', ''ZZND'', ''ZZNN'', ''ZZNO'', ''ZZNR'', ''ZZNS'', ''ZZNT'',
                 ''ZZNU'', ''ZZNV'', ''ZZNW''}"
  shows "reads_back e i name (fmt_d n) c"
proof -
  note r = noise_reads_back[OF assms(1,2)]
  note q = dispatch_defs zz_N_def cat_N_def
  have f: "pn_nb (nb_flag n p) = (n = 1)" "pn_nb2 (nb2_flag n p) = (n = 1)" "pn_nr (nr_flag n p) = (n = 1)"
    "pn_nr2 (nr2_flag n p) = (n = 1)" for p
    using assms(2) by (auto simp: nb_flag_def nb2_flag_def nr_flag_def nr2_flag_def)
  have a0: "reads_back e i ''ZZNA'' (fmt_d n) c"
    by (rule r[where b = pn_nb and f = nb_flag], simp, drule spells4, simp add: q, insert assms(2), auto simp: f)
  have a1: "reads_back e i ''ZZNC'' (fmt_d n) c"
    by (rule r[where b = pn_nb and f = nb_flag], simp, drule spells4, simp add: q, insert assms(2), auto simp: f)
  have a2: "reads_back e i ''NB'' (fmt_d n) c"
    by (rule r[where b = pn_nb and f = nb_flag], simp, drule spells2, simp add: q, insert assms(2), auto simp: f)
  have b0: "reads_back e i ''ZZNB'' (fmt_d n) c"
    by (rule r[where b = pn_nb2 and f = nb2_flag], simp, drule spells4, simp add: q, insert assms(2), auto simp: f)
  have b1: "reads_back e i ''ZZND'' (fmt_d n) c"
    by (rule r[where b = pn_nb2 and f = nb2_flag], simp, drule spells4, simp add: q, insert assms(2), auto simp: f)
  have d0: "reads_back e i ''ZZNR'' (fmt_d n) c"
    by (rule r[where b = pn_nr and f = nr_flag], simp, drule spells4, simp add: q, insert assms(2), auto simp: f)
  have d1: "reads_back e i ''ZZNV'' (fmt_d n) c"
    by (rule r[where b = pn_nr and f = nr_flag], simp, drule spells4, simp add: q, insert assms(2), auto simp: f)
  have g0: "reads_back e i ''ZZNS'' (fmt_d n) c"
    by (rule r[where b = pn_nr2 and f = nr2_flag], simp, drule spells4, simp add: q, insert assms(2), auto simp: f)
  have g1: "reads_back e i ''ZZNW'' (fmt_d n) c"
    by (rule r[where b = pn_nr2 and f = nr2_flag], simp, drule spells4, simp add: q, insert assms(2), auto simp: f)
  have h0: "reads_back e i ''ZZNN'' (fmt_d n) c"
    by (rule r[where b = pn_snb and f = "\<lambda>n p. p\<lparr>pn_snb := (n \<noteq> 0)\<rparr>"], simp, drule spells4, simp add: q, insert assms(2), auto simp: f)
  have h1: "reads_back e i ''ZZNO'' (fmt_d n) c"
    by (rule r[where b = pn_snb and f = "\<lambda>n p. p\<lparr>pn_snb := (n \<noteq> 0)\<rparr>"], simp, drule spells4, simp add: q, insert assms(2), auto simp: f)
  have k0: "reads_back e i ''ZZNT'' (fmt_d n) c"
    by (rule r[where b = pn_anf and f = "\<lambda>n p. p\<lparr>pn_anf := (n \<noteq> 0)\<rparr>"], simp, drule spells4, simp add: q, insert assms(2), auto simp: f)
  have k1: "reads_back e i ''ZZNU'' (fmt_d n) c"
    by (rule r[where b = pn_anf and f = "\<lambda>n p. p\<lparr>pn_anf := (n \<noteq> 0)\<rparr>"], simp, drule spells4, simp add: q, insert assms(2), auto simp: f)
  have k2: "reads_back e i ''NT'' (fmt_d n) c"
    by (rule r[where b = pn_anf and f = "\<lambda>n p. p\<lparr>pn_anf := (n \<noteq> 0)\<rparr>"], simp, drule spells2, simp add: q, insert assms(2), auto simp: f)
  show ?thesis using assms(3) a0 a1 a2 b0 b1 d0 d1 g0 g1 h0 h1 k0 k1 k2 by auto
qed

lemma slot_mode:
  assumes "cat_typed (ca_console c)" "slot (ca_console c) i = Some rx" "0 \<le> m" "m < MODES"
  obtains rx' where "slot (ca_console (tune_rx i (receiver_mode_changed m) c)) i = Some rx'" "rx_mode_a rx' = m"
proof
  show "slot (ca_console (tune_rx i (receiver_mode_changed m) c)) i = Some (t_rx (receiver_mode_changed m (tuner_of i rx (ca_console c))))"
    using assms by (intro slot_tune stays_moves)
  show "rx_mode_a (t_rx (receiver_mode_changed m (tuner_of i rx (ca_console c)))) = m"
    using mode_changed_facts(2)[OF _ assms(3,4)] typed_tuner_of[OF assms(1,2)] by (simp add: typed_def)
qed

lemma mode_reads_back:
  assumes "cat_typed (ca_console c)" "slot (ca_console c) i = Some rx" "0 \<le> m" "m < MODES"
  shows "reads_back e i ''ZZMD'' (fmt_zero 2 m) c"
proof -
  obtain rx' where r: "slot (ca_console (tune_rx i (receiver_mode_changed m) c)) i = Some rx'" "rx_mode_a rx' = m"
    by (rule slot_mode[OF assms])
  have l: "length (fmt_zero 2 m) = 2" using assms(3,4) by (intro length_fmt_zero) (simp_all add: MODES_def)
  have a: "atoi (fmt_zero 2 m @ '';'') = m" by (rule atoi_fmt_zero[OF assms(3)])
  have s: "spells (''ZZMD'' @ fmt_zero 2 m @ '';'') ''ZZMD'' (fmt_zero 2 m)" by (rule spells_command) simp_all
  have q: "spells (''ZZMD'' @ '';'') ''ZZMD'' []" by (rule spells_query) simp
  show ?thesis
  proof (rule reads_backI[OF assms(2) _ r(1)])
    show "dispatch e i (''ZZMD'' @ fmt_zero 2 m @ '';'') c = ok (tune_rx i (receiver_mode_changed m) c)"
      using spells4[OF s] l a assms(3,4) by (simp add: dispatch_defs zz_M_def)
    show "dispatch e i (''ZZMD'' @ '';'') (tune_rx i (receiver_mode_changed m) c) =
        reply (''ZZMD'' @ fmt_zero 2 m @ '';'') (tune_rx i (receiver_mode_changed m) c)"
      using spells4[OF q] r by (simp add: dispatch_defs zz_M_def rx_of_def)
  qed
qed

lemma ts2000_modes: "n \<in> {1, 2, 3, 4, 5, 6, 7, 9} \<Longrightarrow> ts2000_mode (mode_of_ts2000 n) = n \<and> 0 \<le> mode_of_ts2000 n \<and>
    mode_of_ts2000 n < MODES"
  by (auto simp: ts2000_mode_def mode_of_ts2000_def mode_defs MODES_def)

lemma ts2000_mode_reads_back:
  assumes "cat_typed (ca_console c)" "slot (ca_console c) i = Some rx" "n \<in> {1, 2, 3, 4, 5, 6, 7, 9}"
  shows "reads_back e i ''MD'' (fmt_d n) c"
proof -
  note m = ts2000_modes[OF assms(3)]
  let ?c1 = "tune_rx i (receiver_mode_changed (mode_of_ts2000 n)) c"
  obtain rx' where r: "slot (ca_console ?c1) i = Some rx'" "rx_mode_a rx' = mode_of_ts2000 n"
    using m by (auto intro: slot_mode[OF assms(1,2)])
  have l: "length (fmt_d n) = 1" "atoi (fmt_d n @ '';'') = n" using fmt_d_digit[of n] assms(3) by auto
  have s: "spells (''MD'' @ fmt_d n @ '';'') ''MD'' (fmt_d n)" by (rule spells_command) simp_all
  have q: "spells (''MD'' @ '';'') ''MD'' []" by (rule spells_query) simp
  show ?thesis
  proof (rule reads_backI[OF assms(2) _ r(1)])
    show "dispatch e i (''MD'' @ fmt_d n @ '';'') c = ok ?c1"
      using spells2[OF s] l by (simp add: dispatch_def cat_M_def)
    show "dispatch e i (''MD'' @ '';'') ?c1 = reply (''MD'' @ fmt_d n @ '';'') ?c1"
      using spells2[OF q] r m by (simp add: dispatch_def cat_M_def rx_of_def)
  qed
qed

lemma filter_chosen:
  assumes "0 \<le> f" "f < FILTERS"
  shows "rx_filter_a (t_rx (receiver_filter_changed f t)) = f"
proof -
  have a: "rx_filter_a (t_rx (set_filter l h t')) = rx_filter_a (t_rx t')" for l h t'
    using set_filter_keeps[of t' l h] by (simp add: keeps_settings_def mode_now_def)
  show ?thesis using assms
    by (auto simp: receiver_filter_changed_def choose_filter_def set_deviation_def set_squelch_def a Let_def split: option.split)
qed

lemma filter_reads_back:
  assumes "cat_typed (ca_console c)" "slot (ca_console c) i = Some rx" "0 \<le> n" "n < FILTERS"
  shows "reads_back e i ''ZZFI'' (fmt_zero 2 n) c"
proof -
  let ?c1 = "tune_rx i (receiver_filter_changed n) c"
  have r: "slot (ca_console ?c1) i = Some (t_rx (receiver_filter_changed n (tuner_of i rx (ca_console c))))"
    using assms by (intro slot_tune stays_moves)
  have l: "length (fmt_zero 2 n) = 2" using assms(3,4) by (intro length_fmt_zero) (simp_all add: FILTERS_def)
  have a: "atoi (fmt_zero 2 n @ '';'') = n" by (rule atoi_fmt_zero[OF assms(3)])
  have s: "spells (''ZZFI'' @ fmt_zero 2 n @ '';'') ''ZZFI'' (fmt_zero 2 n)" by (rule spells_command) simp_all
  have q: "spells (''ZZFI'' @ '';'') ''ZZFI'' []" by (rule spells_query) simp
  show ?thesis
  proof (rule reads_backI[OF assms(2) _ r])
    show "dispatch e i (''ZZFI'' @ fmt_zero 2 n @ '';'') c = ok ?c1"
      using spells4[OF s] l a assms(3,4) by (simp add: dispatch_defs zz_F_def)
    show "dispatch e i (''ZZFI'' @ '';'') ?c1 = reply (''ZZFI'' @ fmt_zero 2 n @ '';'') ?c1"
      using spells4[OF q] r filter_chosen[OF assms(3,4)] by (simp add: dispatch_defs zz_F_def rx_of_def)
  qed
qed

lemma vox_gain_inverts: "0 \<le> n \<Longrightarrow> n \<le> 9 \<Longrightarrow> vox_gain (llround (of_int (vox_gain n) / 9 * 9)) = n"
  by (simp add: vox_gain_def llround_def)

lemma vox_reads_back:
  assumes "slot (ca_console c) i = Some rx" "0 \<le> n" "n \<le> 9"
  shows "reads_back e i ''VG'' (fmt_zero 3 n) c"
proof -
  let ?c1 = "shown_on i (on_console (on_keying (\<lambda>k. k\<lparr>k_vox_threshold := of_int (vox_gain n) / 9\<rparr>)) c)"
  have r: "slot (ca_console ?c1) i = Some rx"
    using assms(1) by (simp add: on_console_def slot_keying)
  have l: "length (fmt_zero 3 n) = 3" using assms by (intro length_fmt_zero) simp_all
  have a: "atoi (fmt_zero 3 n @ '';'') = n" by (rule atoi_fmt_zero[OF assms(2)])
  have s: "spells (''VG'' @ fmt_zero 3 n @ '';'') ''VG'' (fmt_zero 3 n)" by (rule spells_command) simp_all
  have q: "spells (''VG'' @ '';'') ''VG'' []" by (rule spells_query) simp
  have v: "k_vox_threshold (st_keying (ca_console ?c1)) = of_int (vox_gain n) / 9"
    by (simp add: shown_on_def on_console_def on_keying_def update_vfo_def on_rx_def put_tuner_def on_radio_def split: option.split)
  show ?thesis
  proof (rule reads_backI[OF assms(1) _ r])
    show "dispatch e i (''VG'' @ fmt_zero 3 n @ '';'') c = ok ?c1"
      using spells2[OF s] l a by (simp add: dispatch_def cat_V_def)
    show "dispatch e i (''VG'' @ '';'') ?c1 = reply (''VG'' @ fmt_zero 3 n @ '';'') ?c1"
      using spells2[OF q] vox_gain_inverts[OF assms(2,3)] by (simp add: dispatch_def cat_V_def v)
  qed
qed

text \<open>C25: A setting made over CAT is the one read back: after a noise command with 0 or 1, an
extended mode or filter command with any mode or filter of the program, a TS-2000 mode command
with any mode the TS-2000 has, or a VOX gain from 0 to 9, nothing is answered, and the query of the same letters is answered with the very
command that made the setting.\<close>

theorem settings_are_read_back:
  assumes "cat_typed (ca_console c)" "slot (ca_console c) i = Some rx"
    and "(name \<in> {''NB'', ''NT'', ''ZZNA'', ''ZZNB'', ''ZZNC'', ''ZZND'', ''ZZNN'', ''ZZNO'', ''ZZNR'', ''ZZNS'', ''ZZNT'',
                  ''ZZNU'', ''ZZNV'', ''ZZNW''} \<and> n \<in> {0, 1} \<and> f = fmt_d n) \<or>
         (name = ''ZZMD'' \<and> n \<in> {0 ..< MODES} \<and> f = fmt_zero 2 n) \<or>
         (name = ''ZZFI'' \<and> n \<in> {0 ..< FILTERS} \<and> f = fmt_zero 2 n) \<or>
         (name = ''VG'' \<and> n \<in> {0 .. 9} \<and> f = fmt_zero 3 n) \<or>
         (name = ''MD'' \<and> n \<in> {1, 2, 3, 4, 5, 6, 7, 9} \<and> f = fmt_d n)"
  shows "snd (parse_cmd e i (name @ f @ '';'') c) = [] \<and>
     snd (parse_cmd e i (name @ '';'') (fst (parse_cmd e i (name @ f @ '';'') c))) = [name @ f @ '';'']"
  using assms(3) noise_settings[OF assms(2), of n name e] mode_reads_back[OF assms(1,2), of n e]
    ts2000_mode_reads_back[OF assms(1,2), of n e] filter_reads_back[OF assms(1,2), of n e] vox_reads_back[OF assms(2), of n e]
  unfolding reads_back_def by (elim disjE conjE) simp_all

theorem settings_are_read_back_witness:
  "snd (parse_cmd cat_env0 0 ''ZZMD;'' (fst (parse_cmd cat_env0 0 ''ZZMD06;'' cat0))) = [''ZZMD06;'']"
proof -
  have s: "slot (ca_console cat0) 0 = Some receiver0" by (simp add: console0_simps)
  have f: "fmt_zero 2 6 = ''06''" by (simp add: fmt_zero_def pad_left_def digits.simps digit_chars)
  show ?thesis
    using settings_are_read_back[OF cat0_typed s, of "''ZZMD''" 6 "''06''" cat_env0] f by (simp add: MODES_def)
qed

section \<open>Where the commands do something else\<close>

text \<open>The command to step up goes down where there is no cursor.\<close>

theorem up_command_goes_down:
  assumes "slot (ca_console c) i = Some rx" "\<not> rx_locked rx" "rx_lo_a rx = 0" "0 \<le> rx_sample_rate rx"
    and "\<not> rx_ctun rx" "\<not> rx_freetune rx"
    and "0 \<le> dial rx - rx_step rx" "dial rx - rx_step rx \<le> receiver_max_frequency (ca_radio c) rx"
  shows "dial (rx_of (ca_console (fst (parse_cmd e i ''UP;'' c))) i) = round_step True rx (dial rx - rx_step rx)"
proof -
  have "fst (parse_cmd e i ''UP;'' c) = tune_rx i (receiver_move (rx_step rx) True) c"
    using spells2[OF spells_query[of "''UP''", simplified]] assms(1)
    by (simp add: parse_cmd_def dispatch_def cat_U_def ok_def rx_of_def Let_def)
  thus ?thesis using dial_on_rx[OF assms(1-4) _ assms(7,8), of "rx_step rx" True] assms(5,6) by (simp add: tune_rx_def)
qed

text \<open>Asking for a filter edge selects the first variable filter.\<close>

theorem edge_query_changes_the_filter:
  assumes "cat_typed (ca_console c)" "slot (ca_console c) i = Some rx"
  shows "rx_filter_a (rx_of (ca_console (fst (parse_cmd e i ''SH;'' c))) i) = FVar1"
proof -
  have t1: "cat_typed (ca_console (tune_rx i to_var1 c))" using assms(1) by (rule typed_tune) (rule stays_to_var1)
  note m = mode_filters_in[OF t1 slot_tune[OF assms stays_to_var1]]
  have "fst (parse_cmd e i ''SH;'' c) = tune_rx i to_var1 c"
    using spells2[OF spells_query[of "''SH''", simplified]] assms(2)
    by (simp add: parse_cmd_def dispatch_def cat_S_def cmd_SH_def reply_def m Let_def)
  thus ?thesis using slot_tune[OF assms stays_to_var1] filter_chosen[of FVar1]
    by (simp add: rx_of_def to_var1_def FVar1_def FILTERS_def)
qed

text \<open>The attenuator choice "-10 dB" is stored as a negative attenuation, of which
protocol 1 sends the low five bits: 22 dB.\<close>

theorem minus_ten_is_sent_as_22:
  assumes "slot (ca_console c) i = Some rx" "nat (rx_adc rx) < length (r_adc (ca_radio c))"
  shows "adc_attenuation (adc_of_rx rx (fst (parse_cmd e i ''ZZPA2;'' c))) mod 32 = 22"
proof -
  have "spells ''ZZPA2;'' ''ZZPA'' ''2''" using spells_command[of "''ZZPA''" "''2''"] by simp
  moreover have "atoi ''2;'' = 2" by code_simp
  ultimately have "fst (parse_cmd e i ''ZZPA2;'' c) = on_adc rx (\<lambda>a. a\<lparr>adc_attenuation := - 10\<rparr>) c"
    using spells4[of "''ZZPA2;''" _ _ _ _ "''2''"] assms(1)
    by (simp add: parse_cmd_def dispatch_defs zz_P_def ok_def rx_of_def)
  thus ?thesis using assms(2) by (simp add: adc_of_rx_def on_adc_def on_console_def on_radio_def on_keying_def)
qed

text \<open>The equalizer reply is two digits longer than the command that sets the equalizer, so
sent back it does nothing.\<close>

lemma length_gain: "- 99 \<le> x \<Longrightarrow> x < 1000 \<Longrightarrow> length (fmt_zero 3 x) = 3"
  using length_fmt_zero[of x 3] digits_length[of "nat (- x)" 2] by (auto simp: fmt_zero_def nat_less_iff)

theorem equalizer_reply_sets_nothing:
  assumes "\<forall>k < 4. - 99 \<le> eq ! k \<and> eq ! k < 1000"
  shows "fst (parse_cmd e i (eq_reply ''ZZEA'' eq) c) = c"
proof -
  let ?f = "''003'' @ fmt_zero 3 (eq ! 0) @ fmt_zero 3 (eq ! 1) @ fmt_zero 3 (eq ! 2) @ fmt_zero 3 (eq ! 3) @ ''00000000000000000000''"
  have "length ?f = 35" using assms by (simp add: length_gain)
  moreover have "spells (eq_reply ''ZZEA'' eq) ''ZZEA'' ?f"
    using spells_command[of "''ZZEA''" ?f] by (simp add: eq_reply_def)
  ultimately have "dispatch e i (eq_reply ''ZZEA'' eq) c = ok c"
    using spells4[of "eq_reply ''ZZEA'' eq" _ _ _ _ ?f] by (simp add: dispatch_defs zz_E_def)
  thus ?thesis by (simp add: parse_cmd_def ok_def split: option.split)
qed

end
