(* ===== verification/Tci_Replies.thy ===== *)
theory Tci_Replies
  imports Tci_Subs Cat_Replies
begin

text \<open>A setting a TCI client makes is the one it reads, once the main loop has had its
turn.\<close>

section \<open>Words that come back\<close>

definition word :: "string \<Rightarrow> bool" where
  "word f \<longleftrightarrow> f \<noteq> [] \<and> CHR '','' \<notin> set f \<and> CHR 0x00 \<notin> set f \<and> (\<forall>c \<in> set f. \<not> g_ascii_isspace c)"

lemma strip_word: "word f \<Longrightarrow> g_strstrip f = f"
proof -
  assume "word f"
  hence "\<forall>c \<in> set f. \<not> g_ascii_isspace c" "\<forall>c \<in> set (rev f). \<not> g_ascii_isspace c" by (simp_all add: word_def)
  moreover have d: "\<forall>c \<in> set s. \<not> P c \<Longrightarrow> dropWhile P s = s" for s :: string and P by (cases s) simp_all
  ultimately show ?thesis using d[of f g_ascii_isspace] d[of "rev f" g_ascii_isspace] by (simp add: g_strstrip_def)
qed

lemma strtok_word:
  assumes "word f"
  shows "strtok (CHR '','') f = Some (f, [])" "strtok (CHR '','') (f @ CHR '','' # r) = Some (f, r)"
proof -
  have a: "takeWhile (\<lambda>c. c \<noteq> CHR '','') f = f" "dropWhile (\<lambda>c. c \<noteq> CHR '','') f = []"
    using assms by (auto simp: word_def takeWhile_eq_all_conv dropWhile_eq_Nil_conv)
  have b: "takeWhile (\<lambda>c. c \<noteq> CHR '','') (f @ CHR '','' # r) = f" "dropWhile (\<lambda>c. c \<noteq> CHR '','') (f @ CHR '','' # r) = CHR '','' # r"
    using assms by (simp_all add: word_def takeWhile_upto dropWhile_upto)
  have h: "dropWhile (\<lambda>c. c = CHR '','') (f @ s) = f @ s" for s using assms by (cases f) (auto simp: word_def)
  have h0: "dropWhile (\<lambda>c. c = CHR '','') f = f" using h[of "[]"] by simp
  have "f \<noteq> []" using assms by (simp add: word_def)
  thus "strtok (CHR '','') f = Some (f, [])" by (simp add: strtok_def a h0)
  show "strtok (CHR '','') (f @ CHR '','' # r) = Some (f, r)" using assms b h by (simp add: strtok_def word_def)
qed

lemma tokens_words: "\<forall>f \<in> set fs. word f \<Longrightarrow> length fs \<le> n \<Longrightarrow> tokens n (CHR '','') (with_commas fs) = fs"
proof (induction fs arbitrary: n rule: with_commas.induct)
  case 1 thus ?case by (cases n) (simp_all add: strtok_def)
next
  case (2 f)
  thus ?case by (cases n; cases "n - 1") (simp_all add: strtok_word strip_word, simp add: strtok_def)
next
  case (3 f g fs)
  thus ?case using 3(1)[of "n - 1"] by (cases n) (simp_all add: strtok_word strip_word)
qed

definition command :: "string \<Rightarrow> string list \<Rightarrow> string" where
  "command name fs = name @ '':'' @ with_commas fs"

definition plain_text :: "string \<Rightarrow> bool" where
  "plain_text name \<longleftrightarrow> CHR '':'' \<notin> set name \<and> length name \<le> 31 \<and> g_ascii_tolower name = name"

lemma request_command:
  assumes "plain_text name" "\<forall>f \<in> set fs. word f" "length fs \<le> 4" "length (with_commas fs) \<le> 127" "fs = fmt_d idx # gs"
    and "tci_rx_at idx t = Some i"
  shows "tci_request (command name fs) t =
    \<lparr>tq_token = command name fs, tq_name = name, tq_args = fs, tq_req_index = idx, tq_addr = Some i, tq_rx_index = idx,
     tq_trx = Some i\<rparr>"
proof -
  have n: "takeWhile (\<lambda>c. c \<noteq> CHR '':'') (command name fs) = name"
    "dropWhile (\<lambda>c. c \<noteq> CHR '':'') (command name fs) = CHR '':'' # with_commas fs" "CHR '':'' \<in> set (command name fs)"
    using assms(1) by (simp_all add: command_def plain_text_def takeWhile_upto dropWhile_upto)
  have w: "tokens 4 (CHR '','') (with_commas fs) = fs" using tokens_words assms(2,3) by blast
  have "fs \<noteq> []" "fs ! 0 = fmt_d idx" using assms(5) by simp_all
  thus ?thesis using assms(1,4,6) by (simp add: tci_request_def n w plain_text_def Let_def)
qed

lemma digits_word: "word (digits n)" 
proof -
  have "digits n \<noteq> []" by (subst digits.simps) simp
  moreover have "isdigit_c c \<Longrightarrow> c \<noteq> CHR '','' \<and> c \<noteq> CHR 0x00 \<and> \<not> g_ascii_isspace c" for c
    by (auto simp: isdigit_c_def g_ascii_isspace_def)
  ultimately show ?thesis using digits_isdigit[of n] unfolding word_def by blast
qed

lemma word_fmt_d [simp]: "word (fmt_d n)"
  using digits_word[of "nat n"] digits_word[of "nat (- n)"] by (auto simp: fmt_d_def word_def g_ascii_isspace_def)

lemma word_simps [simp]: "word (truth b)" "word ''0''"
  by (simp_all add: truth_def word_def g_ascii_isspace_def)

lemma length_fmt_d: "\<bar>n\<bar> < 10 ^ w \<Longrightarrow> 0 < w \<Longrightarrow> length (fmt_d n) \<le> w + 1"
  using digits_length[of "nat n" w] digits_length[of "nat (- n)" w] by (auto simp: fmt_d_def nat_less_iff)

lemma argbool_truth [simp]: "tci_argbool (truth b) = b"
proof -
  have "tci_argbool ''true''" "\<not> tci_argbool ''false''" by code_simp+
  thus ?thesis by (simp add: truth_def)
qed

section \<open>A setting and its query\<close>

definition tci_reads_back :: "tci_env \<Rightarrow> nat \<Rightarrow> string \<Rightarrow> string list \<Rightarrow> string list \<Rightarrow> tci \<Rightarrow> bool" where
  "tci_reads_back e k name fs q t \<longleftrightarrow>
     tc_sent (tci_handle_command e k (command name q) (main_loop e (tci_handle_command e k (command name fs) t))) =
     tc_sent t @ [(k, line name fs)]"

text \<open>The receivers stay where they are, so an index still names the same one.\<close>

definition same_slots :: "cat \<Rightarrow> cat \<Rightarrow> bool" where
  "same_slots c c' \<longleftrightarrow> (\<forall>j. (slot (ca_console c') j = None) = (slot (ca_console c) j = None))"

lemma visible_same: "same_slots (tc_cat t) (f (tc_cat t)) \<Longrightarrow> visible (on_cat f t) = visible t"
  unfolding visible_def by (intro filter_cong) (simp_all add: on_cat_def same_slots_def)

lemma rx_at_same: "same_slots (tc_cat t) (f (tc_cat t)) \<Longrightarrow> tci_rx_at idx (on_cat f t) = tci_rx_at idx t"
  using visible_same[of t f] by (simp add: tci_rx_at_def)

lemma same_slots_tune:
  assumes "cat_typed (ca_console c)" "slot (ca_console c) i = Some rx" "stays f"
  shows "same_slots c (tune_rx i f c)"
proof -
  have "same_place (tuner_of i rx (ca_console c)) (f (tuner_of i rx (ca_console c)))"
    using stays_place[OF assms(3)] typed_tuner_of[OF assms(1,2)] by blast
  thus ?thesis using assms(2)
    by (auto simp: same_slots_def tune_rx_def on_rx_def slot_put same_place_def) (auto simp: slot_def split: if_splits)
qed

lemma same_slots_shown [simp]: "same_slots c (shown_on i c') = same_slots c c'"
  by (simp add: same_slots_def)

lemma slot_set_audio [simp]: "slot (ca_console (set_audio f i c)) j = slot (ca_console c) j"
  by (simp add: set_audio_def receiver_set_volume_def Let_def)

lemma same_slots_audio [simp]: "same_slots c (set_audio f i c)" by (simp add: same_slots_def)

lemma panel_set_audio [simp]: "st_panel (ca_console (set_audio f i c)) = (st_panel (ca_console c))(i := f (st_panel (ca_console c) i))"
  by (simp add: set_audio_def)

lemma panel_shown [simp]: "st_panel (ca_console (shown_on i c)) = st_panel (ca_console c)"
  by (simp add: shown_on_def)

lemma one_idle:
  assumes "tc_idle t = []"
  shows "main_loop e (g_idle_add x t) = run_idle_source e x t"
proof -
  have "t\<lparr>tc_idle := []\<rparr> = t" using assms by (cases t) simp
  moreover have "main_loop e (g_idle_add x t) = run_idle_source e x (t\<lparr>tc_idle := []\<rparr>)"
    using assms by (simp add: main_loop_def g_idle_add_def)
  ultimately show ?thesis by argo
qed

lemma rx_at_slot: "tci_rx_at idx t = Some i \<Longrightarrow> (\<exists>rx. slot (tc_console t) i = Some rx) \<and> 0 \<le> idx \<and> idx < 8"
proof -
  assume a: "tci_rx_at idx t = Some i"
  hence b: "0 \<le> idx" "nat idx < length (visible t)" "i = visible t ! nat idx" by (auto simp: tci_rx_at_def split: if_splits)
  have "i \<in> set (visible t)" using b nth_mem by simp
  moreover have "length (visible t) \<le> 8"
    using length_filter_le[of _ "[0 ..< MAX_RECEIVERS]"] by (simp add: visible_def MAX_RECEIVERS_def)
  ultimately show ?thesis using b by (auto simp: visible_def)
qed

text \<open>What makes a setting read back: its command queues a request, the request is a
change of the state that leaves the receivers in place, and the query of the changed state is
answered with the command.\<close>

lemma tci_reads_backI:
  assumes "tc_idle t = []" "tci_handle_command e k (command name fs) t = g_idle_add x t"
    and "run_idle_source e x t = on_cat g t"
    and "tci_handle_command e k (command name q) (on_cat g t) = client_send_text k (line name fs) (on_cat g t)"
    and "tl_connected (tc_clients t ! k)"
  shows "tci_reads_back e k name fs q t"
  using assms(5) by (simp add: tci_reads_back_def assms(2) one_idle[OF assms(1)] assms(3,4)) (simp add: client_send_text_def on_cat_def)

definition addressed :: "int \<Rightarrow> nat \<Rightarrow> nat \<Rightarrow> tci \<Rightarrow> bool" where
  "addressed idx i k t \<longleftrightarrow> tci_rx_at idx t = Some i \<and> tl_connected (tc_clients t ! k) \<and> tc_idle t = [] \<and>
     cat_typed (tc_console t)"

lemma idx_length: "0 \<le> idx \<Longrightarrow> idx < 8 \<Longrightarrow> length (fmt_d idx) \<le> 2"
  using length_fmt_d[of idx 1] by simp

lemma request_set:
  assumes "addressed idx i k t" "plain_text name" "word v" "length v \<le> 100"
  shows "tci_request (command name [fmt_d idx, v]) t =
    \<lparr>tq_token = command name [fmt_d idx, v], tq_name = name, tq_args = [fmt_d idx, v], tq_req_index = idx, tq_addr = Some i,
     tq_rx_index = idx, tq_trx = Some i\<rparr>"
  using assms rx_at_slot[of idx t i] idx_length[of idx] by (intro request_command) (auto simp: addressed_def)

lemma request_set3:
  assumes "addressed idx i k t" "plain_text name" "word v" "length v \<le> 100"
  shows "tci_request (command name [fmt_d idx, ''0'', v]) t =
    \<lparr>tq_token = command name [fmt_d idx, ''0'', v], tq_name = name, tq_args = [fmt_d idx, ''0'', v], tq_req_index = idx,
     tq_addr = Some i, tq_rx_index = idx, tq_trx = Some i\<rparr>"
  using assms rx_at_slot[of idx t i] idx_length[of idx] by (intro request_command) (auto simp: addressed_def)

lemma request_query:
  assumes "addressed idx i k t" "plain_text name" "same_slots (tc_cat t) (g (tc_cat t))"
  shows "tci_request (command name [fmt_d idx]) (on_cat g t) =
    \<lparr>tq_token = command name [fmt_d idx], tq_name = name, tq_args = [fmt_d idx], tq_req_index = idx, tq_addr = Some i,
     tq_rx_index = idx, tq_trx = Some i\<rparr>"
  using assms rx_at_slot[of idx t i] idx_length[of idx] rx_at_same[where f = g and t = t and idx = idx]
  by (intro request_command) (auto simp: addressed_def)

lemma plain_names: "plain_text ''lock''" "plain_text ''rx_mute''" "plain_text ''rx_volume''" "plain_text ''modulation''" "plain_text ''vfo''"
  by code_simp+

text \<open>Which definition answers a command.\<close>

lemma handled:
  "tci_request tok t = q \<Longrightarrow> tq_name q = ''lock'' \<Longrightarrow> tci_handle_command e k tok t = cmd_lock k q t"
  "tci_request tok t = q \<Longrightarrow> tq_name q = ''rx_mute'' \<Longrightarrow> tci_handle_command e k tok t = cmd_rx_mute k q t"
  "tci_request tok t = q \<Longrightarrow> tq_name q = ''rx_volume'' \<Longrightarrow> tci_handle_command e k tok t = cmd_rx_volume e k q t"
  "tci_request tok t = q \<Longrightarrow> tq_name q = ''modulation'' \<Longrightarrow> tci_handle_command e k tok t = cmd_modulation k q t"
  "tci_request tok t = q \<Longrightarrow> tq_name q = ''vfo'' \<Longrightarrow> tci_handle_command e k tok t = cmd_vfo k q t"
  by (simp_all add: tci_handle_command_def Let_def)

lemma state_idle:
  assumes "addressed idx i k t" "\<not> tci_op_is_global op"
  shows "run_idle_source e (Idle_state \<lparr>sc_op = op, sc_rx_index = idx, sc_b = b, sc_v = v, sc_d = d\<rparr>) t =
    on_cat (\<lambda>c. shown_on i (tci_apply_rx i \<lparr>sc_op = op, sc_rx_index = idx, sc_b = b, sc_v = v, sc_d = d\<rparr> c)) t"
  using assms by (simp add: run_idle_source_def tci_apply_state_idle_def addressed_def)

lemma local_ops: "\<not> tci_op_is_global TCI_OP_LOCK" "\<not> tci_op_is_global TCI_OP_MUTE" "\<not> tci_op_is_global TCI_OP_VOLUME"
  by (simp_all add: tci_op_is_global_def)

lemma length_truth [simp]: "length (truth b) \<le> 100" by (simp add: truth_def)

lemma rx_of_slot: "slot st i = Some rx \<Longrightarrow> rx_of st i = rx" by (simp add: rx_of_def)

lemmas answer_defs = answer_rx_or_echo_def answer_rx_def

lemma tc_cat_on_cat [simp]: "tc_cat (on_cat g t) = g (tc_cat t)" by (simp add: on_cat_def)

lemma lock_reads_back:
  assumes "addressed idx i k t"
  shows "tci_reads_back e k ''lock'' [fmt_d idx, truth b] [fmt_d idx] t"
proof -
  obtain rx where rx: "slot (tc_console t) i = Some rx" using assms rx_at_slot[of idx t i] by (auto simp: addressed_def)
  have ty: "cat_typed (tc_console t)" "tc_idle t = []" "tl_connected (tc_clients t ! k)" using assms by (simp_all add: addressed_def)
  let ?f = "upd (\<lambda>rx. rx\<lparr>rx_locked := b\<rparr>)"
  have st: "stays ?f" by (rule stays_upd) simp
  let ?g = "\<lambda>c. shown_on i (tune_rx i ?f c)"
  have same: "same_slots (tc_cat t) (?g (tc_cat t))" using same_slots_tune[OF ty(1) rx st] by simp
  have l: "rx_locked (rx_of (ca_console (?g (tc_cat t))) i) = b"
    using slot_tune[OF ty(1) rx st] by (simp add: rx_of_slot)
  show ?thesis
  proof (rule tci_reads_backI[OF ty(2) _ _ _ ty(3)])
    show "tci_handle_command e k (command ''lock'' [fmt_d idx, truth b]) t =
        g_idle_add (Idle_state \<lparr>sc_op = TCI_OP_LOCK, sc_rx_index = idx, sc_b = b, sc_v = 0, sc_d = 0\<rparr>) t"
      by (simp add: handled(1)[OF request_set[OF assms plain_names(1)]] cmd_lock_def tci_dispatch_state_def)
    show "run_idle_source e (Idle_state \<lparr>sc_op = TCI_OP_LOCK, sc_rx_index = idx, sc_b = b, sc_v = 0, sc_d = 0\<rparr>) t = on_cat ?g t"
      by (simp add: state_idle[OF assms local_ops(1)] tci_apply_rx_def)
    show "tci_handle_command e k (command ''lock'' [fmt_d idx]) (on_cat ?g t) =
        client_send_text k (line ''lock'' [fmt_d idx, truth b]) (on_cat ?g t)"
      using l by (simp add: handled(1)[OF request_query[where g = ?g, OF assms plain_names(1) same]] cmd_lock_def answer_defs)
  qed
qed

text \<open>Mute and volume change the panel only.\<close>

lemma panel_reads_back:
  assumes "addressed idx i k t" "op \<in> {TCI_OP_MUTE, TCI_OP_VOLUME}"
    and "f = (if op = TCI_OP_MUTE then (\<lambda>p. p\<lparr>pn_mute := b\<rparr>) else (\<lambda>p. p\<lparr>pn_volume := d\<rparr>))"
    and "tci_handle_command e k (command name fs) t =
      g_idle_add (Idle_state \<lparr>sc_op = op, sc_rx_index = idx, sc_b = b, sc_v = 0, sc_d = d\<rparr>) t"
    and "\<And>g. same_slots (tc_cat t) (g (tc_cat t)) \<Longrightarrow>
      st_panel (ca_console (g (tc_cat t))) i = f (st_panel (tc_console t) i) \<Longrightarrow>
      tci_handle_command e k (command name q) (on_cat g t) = client_send_text k (line name fs) (on_cat g t)"
  shows "tci_reads_back e k name fs q t"
proof -
  let ?g = "\<lambda>c. shown_on i (set_audio f i c)"
  have ty: "tc_idle t = []" "tl_connected (tc_clients t ! k)" using assms(1) by (simp_all add: addressed_def)
  have "run_idle_source e (Idle_state \<lparr>sc_op = op, sc_rx_index = idx, sc_b = b, sc_v = 0, sc_d = d\<rparr>) t = on_cat ?g t"
    using assms(2,3) state_idle[OF assms(1) local_ops(2)] state_idle[OF assms(1) local_ops(3)]
    by (auto simp: tci_apply_rx_def)
  moreover have "tci_handle_command e k (command name q) (on_cat ?g t) = client_send_text k (line name fs) (on_cat ?g t)"
    by (rule assms(5)) simp_all
  ultimately show ?thesis by (rule tci_reads_backI[OF ty(1) assms(4) _ _ ty(2)])
qed

lemma mute_reads_back:
  assumes "addressed idx i k t"
  shows "tci_reads_back e k ''rx_mute'' [fmt_d idx, truth b] [fmt_d idx] t"
proof (rule panel_reads_back[where op = TCI_OP_MUTE and b = b and d = 0, OF assms _ refl])
  show "tci_handle_command e k (command ''rx_mute'' [fmt_d idx, truth b]) t =
      g_idle_add (Idle_state \<lparr>sc_op = TCI_OP_MUTE, sc_rx_index = idx, sc_b = b, sc_v = 0, sc_d = 0\<rparr>) t"
    by (simp add: handled(2)[OF request_set[OF assms plain_names(2)]] cmd_rx_mute_def tci_dispatch_state_def)
  fix g
  assume g: "same_slots (tc_cat t) (g (tc_cat t))"
    "st_panel (ca_console (g (tc_cat t))) i =
      (if TCI_OP_MUTE = TCI_OP_MUTE then \<lambda>p. p\<lparr>pn_mute := b\<rparr> else (\<lambda>p. p\<lparr>pn_volume := 0\<rparr>)) (st_panel (tc_console t) i)"
  show "tci_handle_command e k (command ''rx_mute'' [fmt_d idx]) (on_cat g t) =
      client_send_text k (line ''rx_mute'' [fmt_d idx, truth b]) (on_cat g t)"
    using g(2) by (simp add: handled(2)[OF request_query[where g = g, OF assms plain_names(2) g(1)]] cmd_rx_mute_def answer_defs)
qed simp

text \<open>A level in whole decibels survives the way to a gain and back.\<close>

lemma level_round_trip:
  assumes "- 60 \<le> v" "v \<le> 0"
  shows "tci_gain_to_db (tci_db_to_gain (of_int v)) = v"
proof -
  consider "v = - 60" | "v = 0" | "- 60 < v" "v < 0" using assms by linarith
  thus ?thesis
  proof cases
    case 3
    have g: "tci_db_to_gain (of_int v) = 10 powr (of_int v / 20)" using 3 by (simp add: tci_db_to_gain_def TCI_VOL_MIN_DB_def)
    have "10 powr (of_int v / 20) < (1 :: real)" using 3 powr_less_cancel_iff[of 10 "of_int v / 20" 0] by simp
    moreover have "20 * log 10 (10 powr (of_int v / 20)) = (of_int v :: real)" by simp
    moreover have "llround (of_int v) = v" using 3 by (simp add: llround_def) linarith
    ultimately show ?thesis using 3 by (simp add: g tci_gain_to_db_def TCI_VOL_MIN_DB_def not_le[symmetric])
  qed (simp_all add: tci_gain_to_db_def tci_db_to_gain_def TCI_VOL_MIN_DB_def)
qed

lemma volume_reads_back:
  assumes "addressed idx i k t" "- 60 \<le> v" "v \<le> 0" "te_strtod e (fmt_d v) = of_int v"
  shows "tci_reads_back e k ''rx_volume'' [fmt_d idx, ''0'', fmt_d v] [fmt_d idx] t"
proof (rule panel_reads_back[where op = TCI_OP_VOLUME and b = False and d = "tci_db_to_gain (of_int v)", OF assms(1) _ refl])
  have l: "length (fmt_d v) \<le> 100" using length_fmt_d[of v 2] assms(2,3) by simp
  have z: "atoi ''0'' = 0" by code_simp
  show "tci_handle_command e k (command ''rx_volume'' [fmt_d idx, ''0'', fmt_d v]) t =
      g_idle_add (Idle_state \<lparr>sc_op = TCI_OP_VOLUME, sc_rx_index = idx, sc_b = False, sc_v = 0, sc_d = tci_db_to_gain (of_int v)\<rparr>) t"
    by (simp add: handled(3)[OF request_set3[OF assms(1) plain_names(3) word_fmt_d l]] cmd_rx_volume_def z assms(4)
        tci_dispatch_state_def)
  fix g
  assume g: "same_slots (tc_cat t) (g (tc_cat t))"
    "st_panel (ca_console (g (tc_cat t))) i =
      (if TCI_OP_VOLUME = TCI_OP_MUTE then \<lambda>p. p\<lparr>pn_mute := False\<rparr> else (\<lambda>p. p\<lparr>pn_volume := tci_db_to_gain (of_int v)\<rparr>))
        (st_panel (tc_console t) i)"
  have "fmt_d 0 = ''0''" by code_simp
  thus "tci_handle_command e k (command ''rx_volume'' [fmt_d idx]) (on_cat g t) =
      client_send_text k (line ''rx_volume'' [fmt_d idx, ''0'', fmt_d v]) (on_cat g t)"
    using g(2) level_round_trip[OF assms(2,3)]
    by (simp add: handled(3)[OF request_query[where g = g, OF assms(1) plain_names(3) g(1)]] cmd_rx_volume_def answer_defs)
qed simp

text \<open>Mode and frequency.\<close>

definition tci_mode_words :: "string list" where
  "tci_mode_words = [''lsb'', ''usb'', ''dsb'', ''cw'', ''nfm'', ''am'', ''digu'', ''digl'', ''spec'', ''sam'', ''drm'', ''wfm'']"

lemma names_lower: "\<forall>nm \<in> set tci_mode_words. g_ascii_tolower nm = nm" by code_simp

lemma names_words: "\<forall>nm \<in> set tci_mode_words. word nm \<and> length nm \<le> 100"
  by (simp add: tci_mode_words_def word_def g_ascii_isspace_def)

lemma names_modes: "\<forall>nm \<in> set tci_mode_words. 0 \<le> tci_to_mode nm \<and> tci_to_mode nm < MODES \<and> mode_to_tci (tci_to_mode nm) = nm"
  using names_lower by (simp add: tci_mode_words_def tci_to_mode_def mode_to_tci_def mode_defs)

lemma stays_set_mode: "stays (vfo_set_mode m)"
proof (rule staysI)
  show "typed t \<Longrightarrow> typed (vfo_set_mode m t)" for t by (rule typed_set_mode)
  show "same_place t (vfo_set_mode m t)" for t
    by (simp add: vfo_set_mode_def tx_follows_mode_def Let_def split: option.split)
qed

lemma mode_of_set_mode:
  "typed t \<Longrightarrow> 0 \<le> m \<Longrightarrow> m < MODES \<Longrightarrow> rx_mode_a (t_rx (vfo_set_mode m t)) = m"
  using mode_changed_facts(2)[of t m] by (simp add: vfo_set_mode_def Let_def typed_def)

lemma modulation_reads_back:
  assumes "addressed idx i k t"
    and "nm \<in> set tci_mode_words"
  shows "tci_reads_back e k ''modulation'' [fmt_d idx, nm] [fmt_d idx] t"
proof -
  obtain rx where rx: "slot (tc_console t) i = Some rx" using assms rx_at_slot[of idx t i] by (auto simp: addressed_def)
  have ty: "cat_typed (tc_console t)" "tc_idle t = []" "tl_connected (tc_clients t ! k)" using assms by (simp_all add: addressed_def)
  have m: "0 \<le> tci_to_mode nm" "tci_to_mode nm < MODES" "mode_to_tci (tci_to_mode nm) = nm" "word nm" "length nm \<le> 100"
    using names_words names_modes assms(2) by blast+
  let ?g = "ext_set_mode i (tci_to_mode nm)"
  have same: "same_slots (tc_cat t) (?g (tc_cat t))" using same_slots_tune[OF ty(1) rx stays_set_mode] by (simp add: ext_set_mode_def)
  have a: "rx_mode_a (rx_of (ca_console (?g (tc_cat t))) i) = tci_to_mode nm"
    using slot_tune[OF ty(1) rx stays_set_mode] mode_of_set_mode[OF typed_tuner_of(1)[OF ty(1) rx] m(1,2)]
    by (simp add: ext_set_mode_def rx_of_slot)
  show ?thesis
  proof (rule tci_reads_backI[OF ty(2) _ _ _ ty(3)])
    show "tci_handle_command e k (command ''modulation'' [fmt_d idx, nm]) t = g_idle_add (Idle_mode i (tci_to_mode nm)) t"
      using m(1) by (simp add: handled(4)[OF request_set[OF assms(1) plain_names(4) m(4,5)]] cmd_modulation_def Let_def)
    show "run_idle_source e (Idle_mode i (tci_to_mode nm)) t = on_cat ?g t" by (simp add: run_idle_source_def)
    show "tci_handle_command e k (command ''modulation'' [fmt_d idx]) (on_cat ?g t) =
        client_send_text k (line ''modulation'' [fmt_d idx, nm]) (on_cat ?g t)"
      using a m(3) by (simp add: handled(4)[OF request_query[where g = ?g, OF assms(1) plain_names(4) same]] cmd_modulation_def
          answer_defs)
  qed
qed

lemma strtoll_fmt_d: "0 \<le> n \<Longrightarrow> n < 2 ^ 63 \<Longrightarrow> g_ascii_strtoll (fmt_d n) = n"
proof -
  assume n: "0 \<le> n" "n < 2 ^ 63"
  obtain c cs where c: "digits (nat n) = c # cs" by (cases "digits (nat n)") (simp add: digits.simps[of "nat n"] split: if_splits)
  have d: "isdigit_c c" using digits_isdigit[of "nat n"] c by simp
  have s: "\<not> g_ascii_isspace c" using d by (auto simp: isdigit_c_def g_ascii_isspace_def)
  have "\<forall>x \<in> set cs. isdigit_c x" using digits_isdigit[of "nat n"] c by simp
  hence tw: "takeWhile isdigit_c cs = cs" by (simp add: takeWhile_eq_all_conv)
  thus ?thesis using n d s isdigit_not_sign[OF d] digits_value_digits[of "nat n"]
    by (simp add: g_ascii_strtoll_def fmt_d_def c tw Let_def)
qed

lemma frequency_reads_back:
  assumes "addressed idx i k t" "slot (tc_console t) i = Some rx" "\<not> rx_locked rx" "rx_lo_a rx = 0" "0 \<le> rx_sample_rate rx"
    and "0 \<le> hz" "hz \<le> receiver_max_frequency (tc_radio t) rx" "hz < 10 ^ 11"
  shows "tci_reads_back e k ''vfo'' [fmt_d idx, ''0'', fmt_d hz] [fmt_d idx] t"
proof -
  have ty: "cat_typed (tc_console t)" "tc_idle t = []" "tl_connected (tc_clients t ! k)" using assms(1) by (simp_all add: addressed_def)
  let ?g = "ext_set_frequency_a i hz"
  have same: "same_slots (tc_cat t) (?g (tc_cat t))"
    using same_slots_tune[OF ty(1) assms(2) stays_moves(3)] by (simp add: ext_set_frequency_a_def)
  have d: "dial (rx_of (ca_console (?g (tc_cat t))) i) = hz"
    using apply_on_rx(1)[OF assms(2-7)] by (simp add: ext_set_frequency_a_def tune_rx_def)
  have l: "length (fmt_d hz) \<le> 100" using length_fmt_d[of hz 11] assms(6,8) by simp
  have z: "atoi ''0'' = 0" "fmt_d 0 = ''0''" by code_simp+
  have h: "g_ascii_strtoll (fmt_d hz) = hz" using assms(6,8) by (intro strtoll_fmt_d) simp_all
  show ?thesis
  proof (rule tci_reads_backI[OF ty(2) _ _ _ ty(3)])
    show "tci_handle_command e k (command ''vfo'' [fmt_d idx, ''0'', fmt_d hz]) t = g_idle_add (Idle_frequency_a i hz) t"
      by (simp add: handled(5)[OF request_set3[OF assms(1) plain_names(5) word_fmt_d l]] cmd_vfo_def z h Let_def)
    show "run_idle_source e (Idle_frequency_a i hz) t = on_cat ?g t" by (simp add: run_idle_source_def)
    show "tci_handle_command e k (command ''vfo'' [fmt_d idx]) (on_cat ?g t) =
        client_send_text k (line ''vfo'' [fmt_d idx, ''0'', fmt_d hz]) (on_cat ?g t)"
      using d by (simp add: handled(5)[OF request_query[where g = ?g, OF assms(1) plain_names(5) same]] cmd_vfo_def
          answer_defs z receiver_tuned_dial Let_def)
  qed
qed

text \<open>C29: A setting made over TCI is the one read back. A connected client addresses an existing
receiver while nothing waits in the main loop, and every receiver's mode, filter and band are inside
their tables. After the main loop has run, the query of the receiver's lock, mute, level, mode or
frequency is answered with the very line that set it: either switch, every level in whole decibels
the protocol has (as \<open>strtod\<close> reads it), every mode the server lists, and every frequency from
zero to the upper limit of an unlocked receiver without a converter oscillator on VFO A, with or
without a cursor.\<close>

theorem tci_settings_are_read_back:
  assumes "tci_rx_at idx t = Some i" "tl_connected (tc_clients t ! k)" "tc_idle t = []" "cat_typed (tc_console t)"
    and "slot (tc_console t) i = Some rx" "0 \<le> rx_sample_rate rx"
    and "(name = ''lock'' \<or> name = ''rx_mute'') \<and> fs = [truth b] \<or>
         name = ''rx_volume'' \<and> fs = [''0'', fmt_d v] \<and> v \<in> {- 60 .. 0} \<and> te_strtod e (fmt_d v) = of_int v \<or>
         name = ''modulation'' \<and> fs = [nm] \<and> nm \<in> set tci_mode_words \<or>
         name = ''vfo'' \<and> fs = [''0'', fmt_d hz] \<and> \<not> rx_locked rx \<and> rx_lo_a rx = 0 \<and>
           hz \<in> {0 .. receiver_max_frequency (tc_radio t) rx} \<and> hz < 10 ^ 11"
  shows "tc_sent (tci_handle_command e k (command name [fmt_d idx])
      (main_loop e (tci_handle_command e k (command name (fmt_d idx # fs)) t))) = tc_sent t @ [(k, line name (fmt_d idx # fs))]"
proof -
  have a: "addressed idx i k t" using assms(1-4) by (simp add: addressed_def)
  have "tci_reads_back e k name (fmt_d idx # fs) [fmt_d idx] t"
    using assms(7) lock_reads_back[OF a] mute_reads_back[OF a] volume_reads_back[OF a] modulation_reads_back[OF a]
      frequency_reads_back[OF a assms(5) _ _ assms(6)]
    by (elim disjE conjE) simp_all
  thus ?thesis by (simp add: tci_reads_back_def)
qed

theorem tci_settings_are_read_back_witness:
  "tc_sent (tci_handle_command tci_env0 0 ''vfo:0'' (main_loop tci_env0 (tci_handle_command tci_env0 0 ''vfo:0,0,14195000''
     (on_client 0 (\<lambda>c. c\<lparr>tl_connected := True\<rparr>) tci0)))) = [(0, ''vfo:0,0,14195000;'')]"
proof -
  let ?t = "on_client 0 (\<lambda>c. c\<lparr>tl_connected := True\<rparr>) tci0"
  have "tc_cat ?t = cat0" "tc_idle ?t = []" "tc_sent ?t = []" "visible ?t = visible tci0"
    by (simp_all add: on_client_def visible_def) (simp add: tci0_def tci_init_def)
  hence s: "tci_rx_at 0 ?t = Some 0" "tc_idle ?t = []" "cat_typed (tc_console ?t)" "slot (tc_console ?t) 0 = Some receiver0"
    "tc_sent ?t = []" "tc_radio ?t = bands_radio"
    using cat0_typed by (simp_all add: tci_rx_at_def console0_simps)
  have c: "tl_connected (tc_clients ?t ! 0)" by (simp add: tci0_def tci_init_def TCI_MAX_CLIENTS_def)
  have f: "fmt_d 14195000 = ''14195000''" "fmt_d 0 = ''0''" by (simp_all add: fmt_d_def digits.simps digit_chars)
  show ?thesis
    using tci_settings_are_read_back[OF s(1) c s(2,3,4) receiver0_simps(3), of "''vfo''" "[''0'', fmt_d 14195000]" False 0 tci_env0 "[]" 14195000]
    by (simp add: s(5,6) f command_def line_def receiver0_simps)
qed

text \<open>The mode reported for CWL, sent back, is CWU.\<close>

lemma cwl_comes_back_as_cwu: "tci_to_mode (mode_to_tci CWL) = CWU" by code_simp

end
