(* ===== verification/Tci_Audio.thy ===== *)
theory Tci_Audio
  imports Tci Ringbuffer Complex_Main
begin

text \<open>The binary streams of the TCI server (\<open>src/proto/tci.c\<close>,
\<open>src/proto/tci_stream.h\<close>): transmit audio of a client, taken from its frames into the
ring the transmitter reads, the ticks that ask the client for it, and the audio and I/Q of the
receivers sent to the clients that subscribed.

The server is running. A \<open>float\<close> is a real number without rounding, like a \<open>double\<close>;
its 32 bits in a frame are a parameter. The lines and counters that only go to the log are not
modelled.\<close>

section \<open>Numbers in a frame\<close>

definition st32le :: "32 word \<Rightarrow> byte list" where
  "st32le v = [ucast (and v 0xff), ucast (and (drop_bit 8 v) 0xff), ucast (and (drop_bit 16 v) 0xff),
               ucast (and (drop_bit 24 v) 0xff)]"

definition ld32le :: "byte list \<Rightarrow> nat \<Rightarrow> 32 word" where
  "ld32le b i = or (or (or (ucast (b ! i)) (push_bit 8 (ucast (b ! (i + 1))))) (push_bit 16 (ucast (b ! (i + 2)))))
                   (push_bit 24 (ucast (b ! (i + 3))))"

definition TCI_HDR_BYTES :: nat where "TCI_HDR_BYTES = 64"
definition TCI_SAMPLE_FLOAT32 :: "32 word" where "TCI_SAMPLE_FLOAT32 = 3"
definition TCI_STREAM_IQ :: "32 word" where "TCI_STREAM_IQ = 0"
definition TCI_STREAM_RX_AUDIO :: "32 word" where "TCI_STREAM_RX_AUDIO = 1"
definition TCI_STREAM_TX_AUDIO :: "32 word" where "TCI_STREAM_TX_AUDIO = 2"
definition TCI_STREAM_TX_CHRONO :: "32 word" where "TCI_STREAM_TX_CHRONO = 3"
definition TCI_AUDIO_CHANNELS :: nat where "TCI_AUDIO_CHANNELS = 2"
definition TCI_AUDIO_RATE :: int where "TCI_AUDIO_RATE = 48000"

definition tci_stream_float_count :: "32 word \<Rightarrow> nat \<Rightarrow> nat" where
  "tci_stream_float_count declared payload_bytes =
     (let available = payload_bytes div 4 in if unat declared < available then unat declared else available)"

text \<open>The products of two 32 bit numbers fit the 64 bits they are computed in.\<close>

definition tci_stream_mic_samples :: "nat \<Rightarrow> nat \<Rightarrow> nat \<Rightarrow> nat \<Rightarrow> int" where
  "tci_stream_mic_samples len channels stream_rate mic_rate =
     (if len = 0 \<or> channels = 0 \<or> stream_rate = 0 \<or> mic_rate = 0 then 0
      else (let samples = int ((len * mic_rate) div (channels * stream_rate))
            in if samples > 2 ^ 31 - 1 then 2 ^ 31 - 1 else samples))"

section \<open>The resampler\<close>

definition TCI_RS_HALF :: int where "TCI_RS_HALF = 16"
definition TCI_RS_HIST :: nat where "TCI_RS_HIST = 32"
definition TCI_RS_MAX_IN :: nat where "TCI_RS_MAX_IN = 4096"

record tci_resamp =
  rs_rin :: int
  rs_rout :: int
  rs_step :: real
  rs_rp :: real
  rs_hist :: "real list"

definition tci_resamp_zero :: tci_resamp where
  "tci_resamp_zero = \<lparr>rs_rin = 0, rs_rout = 0, rs_step = 0, rs_rp = 0, rs_hist = replicate TCI_RS_HIST 0\<rparr>"

definition tci_resamp_reset :: "int \<Rightarrow> int \<Rightarrow> tci_resamp" where
  "tci_resamp_reset rin rout =
     \<lparr>rs_rin = rin, rs_rout = rout, rs_step = of_int rin / of_int rout, rs_rp = of_nat TCI_RS_HIST,
      rs_hist = replicate TCI_RS_HIST 0\<rparr>"

definition tci_sinc :: "real \<Rightarrow> real" where
  "tci_sinc x = (if x < 1 / 10 ^ 9 \<and> x > - (1 / 10 ^ 9) then 1 else sin (pi * x) / (pi * x))"

definition rs_weight :: "int \<Rightarrow> int \<Rightarrow> real \<Rightarrow> real" where
  "rs_weight rin rout x =
     (let fc = 1 / 2 * (if rout < rin then of_int rout / of_int rin else 1); gain = 2 * fc;
          wnd = 1 / 2 + 1 / 2 * cos (pi * x / of_int TCI_RS_HALF)
      in gain * tci_sinc (2 * fc * x) * wnd)"

definition rs_sample :: "int \<Rightarrow> int \<Rightarrow> real list \<Rightarrow> real \<Rightarrow> real" where
  "rs_sample rin rout w rp =
     (\<Sum>k \<leftarrow> [\<lfloor>rp\<rfloor> - TCI_RS_HALF + 1 .. \<lfloor>rp\<rfloor> + TCI_RS_HALF].
        (if 0 \<le> k \<and> k < int (length w) then w ! nat k else 0) * rs_weight rin rout (rp - of_int k))"

text \<open>The loop writes at most \<open>out_cap\<close> samples; it returns them and the read pointer.\<close>

fun rs_loop :: "nat \<Rightarrow> (real \<Rightarrow> real) \<Rightarrow> real \<Rightarrow> real \<Rightarrow> real \<Rightarrow> real list \<times> real" where
  "rs_loop 0 sample step limit rp = ([], rp)"
| "rs_loop (Suc out_cap) sample step limit rp =
     (if rp \<le> limit
      then (case rs_loop out_cap sample step limit (rp + step) of (out_rest, rp1) \<Rightarrow> (sample rp # out_rest, rp1))
      else ([], rp))"

definition tci_resamp_run :: "tci_resamp \<Rightarrow> real list \<Rightarrow> nat \<Rightarrow> real list \<times> tci_resamp" where
  "tci_resamp_run s ins out_cap =
     (if ins = [] \<or> length ins > TCI_RS_MAX_IN then ([], s)
      else (let w = rs_hist s @ ins; limit = of_int (int (length w) - 1 - TCI_RS_HALF)
            in case rs_loop out_cap (rs_sample (rs_rin s) (rs_rout s) w) (rs_step s) limit (rs_rp s) of
                 (samples, rp) \<Rightarrow>
                   (samples, s\<lparr>rs_hist := drop (length w - TCI_RS_HIST) w,
                               rs_rp := (if rp - of_nat (length ins) < 0 then 0 else rp - of_nat (length ins))\<rparr>)))"

section \<open>State of the streams\<close>

definition TCI_TX_RING :: nat where "TCI_TX_RING = 48000"
definition TCI_TX_ACTIVE_US :: int where "TCI_TX_ACTIVE_US = 250000"

record tci_audio =
  ta_tx_ring :: "real list"
  ta_tx_ring_head :: int
  ta_tx_ring_tail :: int
  ta_tx_ring_dropped :: int
  ta_tx_ring_underruns :: int
  ta_tx_audio_last_us :: int
  ta_tx_frames_in :: int
  ta_rs_tx :: tci_resamp
  ta_chrono_acc :: int
  ta_chrono_primed :: bool
  ta_rs_rx :: "(tci_resamp \<times> tci_resamp) list"
  ta_lim_gain :: "real list"
  ta_lvl_low_since :: "int list"
  ta_lvl_warned :: "bool list"
  ta_warnings :: "nat list"
  ta_frames_out :: "(nat \<times> byte list) list"

text \<open>The bits of a float, the clock in microseconds, and the clients whose socket takes a
frame at once.\<close>

record tci_io =
  io_float :: "32 word \<Rightarrow> real"
  io_bits :: "real \<Rightarrow> 32 word"
  io_now :: int
  io_takes :: "nat \<Rightarrow> bool"

definition tci_audio_init :: tci_audio where
  "tci_audio_init =
     \<lparr>ta_tx_ring = replicate TCI_TX_RING 0, ta_tx_ring_head = 0, ta_tx_ring_tail = 0, ta_tx_ring_dropped = 0,
      ta_tx_ring_underruns = 0, ta_tx_audio_last_us = 0, ta_tx_frames_in = 0, ta_rs_tx = tci_resamp_zero,
      ta_chrono_acc = 0, ta_chrono_primed = False,
      ta_rs_rx = replicate MAX_RECEIVERS (tci_resamp_zero, tci_resamp_zero), ta_lim_gain = replicate MAX_RECEIVERS 1,
      ta_lvl_low_since = replicate MAX_RECEIVERS 0, ta_lvl_warned = replicate MAX_RECEIVERS False,
      ta_warnings = [], ta_frames_out = []\<rparr>"

section \<open>Transmit audio\<close>

fun tx_ring_push_locked :: "real list \<Rightarrow> tci_audio \<Rightarrow> tci_audio" where
  "tx_ring_push_locked [] a = a"
| "tx_ring_push_locked (x # xs) a =
     (let head = ta_tx_ring_head a; nxt = (head + 1) mod int TCI_TX_RING
      in if nxt = ta_tx_ring_tail a
         then a\<lparr>ta_tx_ring_dropped := ta_tx_ring_dropped a + int (length (x # xs))\<rparr>
         else tx_ring_push_locked xs (a\<lparr>ta_tx_ring := (ta_tx_ring a)[nat head := x], ta_tx_ring_head := nxt\<rparr>))"

fun pieces :: "nat \<Rightarrow> 'a list \<Rightarrow> 'a list list" where
  "pieces n xs = (if n = 0 \<or> xs = [] then [] else take n xs # pieces n (drop n xs))"

declare pieces.simps [simp del]

definition resample_to_ring :: "nat \<Rightarrow> real list \<Rightarrow> tci_audio \<Rightarrow> tci_audio" where
  "resample_to_ring cap samples a =
     (case tci_resamp_run (ta_rs_tx a) samples cap of (res, rs) \<Rightarrow> tx_ring_push_locked res (a\<lparr>ta_rs_tx := rs\<rparr>))"

definition tci_ingest_binary :: "tci_io \<Rightarrow> byte list \<Rightarrow> tci_audio \<Rightarrow> tci_audio" where
  "tci_ingest_binary e buf a =
     (if length buf < TCI_HDR_BYTES + 4 then a
      else (let srate = ld32le buf 4; fmt0 = ld32le buf 8; declared = ld32le buf 20; dtype = ld32le buf 24;
                fmt = (if fmt0 = 4 then TCI_SAMPLE_FLOAT32 else fmt0)
            in if dtype \<noteq> TCI_STREAM_TX_AUDIO \<or> fmt \<noteq> TCI_SAMPLE_FLOAT32 then a
               else (let nfloats = tci_stream_float_count declared (length buf - TCI_HDR_BYTES);
                         stride = TCI_AUDIO_CHANNELS; nmono = nfloats div stride
                     in if nmono = 0 then a
                        else (let samples = map (\<lambda>j. io_float e (ld32le buf (TCI_HDR_BYTES + 4 * (j * stride)))) [0 ..< nmono];
                                  rate0 = (if srate > 0 then sint srate else TCI_AUDIO_RATE);
                                  rate1 = (if rate0 < 8000 then 8000 else rate0);
                                  want_rate = (if rate1 > 192000 then 192000 else rate1);
                                  a1 = (if want_rate = TCI_AUDIO_RATE then tx_ring_push_locked samples a
                                        else (let a0 = (if rs_rin (ta_rs_tx a) \<noteq> want_rate \<or> rs_rout (ta_rs_tx a) \<noteq> TCI_AUDIO_RATE
                                                        then a\<lparr>ta_rs_tx := tci_resamp_reset want_rate TCI_AUDIO_RATE\<rparr> else a);
                                                  cap = nat ((int TCI_RS_MAX_IN * TCI_AUDIO_RATE) div want_rate) + 4
                                              in fold (resample_to_ring cap) (pieces TCI_RS_MAX_IN samples) a0))
                              in a1\<lparr>ta_tx_audio_last_us := io_now e, ta_tx_frames_in := ta_tx_frames_in a1 + 1\<rparr>))))"

text \<open>What \<open>tci_set_tx_chrono\<close> does to the streams when the first client is armed
(\<open>Te_tx_ring_reset\<close>).\<close>

definition tx_ring_reset :: "tci_audio \<Rightarrow> tci_audio" where
  "tx_ring_reset a =
     a\<lparr>ta_tx_ring_head := 0, ta_tx_ring_tail := 0, ta_rs_tx := tci_resamp_zero,
       ta_tx_audio_last_us := 0, ta_tx_ring_dropped := 0, ta_tx_ring_underruns := 0\<rparr>"

definition tci_tx_active :: "tci_io \<Rightarrow> tci \<Rightarrow> tci_audio \<Rightarrow> bool" where
  "tci_tx_active e t a \<longleftrightarrow> r_mox (tc_radio t) \<and> io_now e - ta_tx_audio_last_us a < TCI_TX_ACTIVE_US"

definition tci_tx_next_sample :: "tci \<Rightarrow> tci_audio \<Rightarrow> real \<times> tci_audio" where
  "tci_tx_next_sample t a =
     (let tail = ta_tx_ring_tail a
      in if tail \<noteq> ta_tx_ring_head a
         then (ta_tx_ring a ! nat tail, a\<lparr>ta_tx_ring_tail := (tail + 1) mod int TCI_TX_RING\<rparr>)
         else (0, if tc_tx_chrono_clients t > 0 then a\<lparr>ta_tx_ring_underruns := ta_tx_ring_underruns a + 1\<rparr> else a))"

section \<open>Frames to the clients\<close>

definition stream_header :: "int \<Rightarrow> int \<Rightarrow> nat \<Rightarrow> 32 word \<Rightarrow> int \<Rightarrow> byte list" where
  "stream_header rx_index sample_rate nfloats data_type channels =
     concat (map st32le [word_of_int rx_index, word_of_int sample_rate, TCI_SAMPLE_FLOAT32, 0, 0, of_nat nfloats, data_type,
                         word_of_int channels]) @ replicate 32 0"

definition send_frame :: "tci_io \<Rightarrow> (tci_client \<Rightarrow> bool) \<Rightarrow> byte list \<Rightarrow> tci \<Rightarrow> tci_audio \<Rightarrow> tci_audio" where
  "send_frame e wanted frame t a =
     a\<lparr>ta_frames_out := ta_frames_out a @
        map (\<lambda>k. (k, frame)) (filter (\<lambda>k. tl_connected (tc_clients t ! k) \<and> wanted (tc_clients t ! k) \<and> io_takes e k)
                              [0 ..< length (tc_clients t)])\<rparr>"

definition tci_send_chrono :: "tci_io \<Rightarrow> int \<Rightarrow> tci \<Rightarrow> tci_audio \<Rightarrow> tci_audio" where
  "tci_send_chrono e nsamples t =
     send_frame e tl_tx_chrono
       (tci_ws_write_header 2 TCI_HDR_BYTES
          @ stream_header (tci_tx_index t) (tc_audio_stream_rate t) (nat nsamples) TCI_STREAM_TX_CHRONO (int TCI_AUDIO_CHANNELS)) t"

fun chrono_loop :: "tci_io \<Rightarrow> tci \<Rightarrow> int \<Rightarrow> int \<Rightarrow> nat \<Rightarrow> tci_audio \<Rightarrow> tci_audio" where
  "chrono_loop e t want per acc a =
     (if per \<le> 0 \<or> int acc < per then a\<lparr>ta_chrono_acc := int acc\<rparr>
      else chrono_loop e t want per (acc - nat per) (tci_send_chrono e want t a))"

declare chrono_loop.simps [simp del]

definition chrono_per :: "tci \<Rightarrow> int" where
  "chrono_per t =
     (let per = tci_stream_mic_samples (nat (tc_tx_chrono_samples t)) TCI_AUDIO_CHANNELS (nat (tc_audio_stream_rate t))
                  (nat TCI_AUDIO_RATE)
      in if per < 1 then 1 else per)"

definition chrono_burst :: "tci \<Rightarrow> int" where
  "chrono_burst t =
     (let ticks = (tc_tx_chrono_buffer_ms t * TCI_AUDIO_RATE) div (1000 * chrono_per t) + 1 in if ticks > 16 then 16 else ticks)"

definition tci_tx_chrono_tick :: "tci_io \<Rightarrow> int \<Rightarrow> tci \<Rightarrow> tci_audio \<Rightarrow> tci_audio" where
  "tci_tx_chrono_tick e nsamples t a =
     (if tc_tx_chrono_clients t \<le> 0 \<or> \<not> r_mox (tc_radio t) then a\<lparr>ta_chrono_acc := 0, ta_chrono_primed := False\<rparr>
      else if nsamples \<le> 0 then a
      else (let want = tc_tx_chrono_samples t; rate = tc_audio_stream_rate t
            in if want \<le> 0 \<or> rate \<le> 0 then a
               else (let per = chrono_per t;
                         a1 = (if \<not> ta_chrono_primed a
                               then ((tci_send_chrono e want t ^^ nat (chrono_burst t)) a)\<lparr>ta_chrono_primed := True\<rparr> else a)
                     in chrono_loop e t want per (nat (ta_chrono_acc a1 + nsamples)) a1)))"

text \<open>Both callers hand over floats that carry their gain.\<close>

definition tci_stream_broadcast :: "tci_io \<Rightarrow> 32 word \<Rightarrow> int \<Rightarrow> int \<Rightarrow> real list \<Rightarrow> bool \<Rightarrow> tci \<Rightarrow> tci_audio \<Rightarrow> tci_audio" where
  "tci_stream_broadcast e data_type rx_index sample_rate fsrc audio t a =
     (if rx_index < 0 \<or> rx_index \<ge> int TCI_MAX_CLIENTS * 4 then a
      else (let mask = (\<lambda>c. if audio then tl_audio_mask c else tl_iq_mask c);
                wanted = (\<lambda>c. bit (mask c) (nat rx_index));
                clip = (\<lambda>v :: real. if v > 1 then 1 else if v < - 1 then - 1 else v);
                samples = (if audio then map clip fsrc else fsrc);
                frame = tci_ws_write_header 2 (TCI_HDR_BYTES + 4 * length fsrc)
                          @ stream_header rx_index sample_rate (length fsrc) data_type 2
                          @ concat (map (\<lambda>v. st32le (io_bits e v)) samples)
            in if \<exists>c \<in> set (tc_clients t). tl_connected c \<and> wanted c then send_frame e wanted frame t a else a))"

definition tci_iq_feed :: "tci_io \<Rightarrow> nat \<Rightarrow> real list \<Rightarrow> int \<Rightarrow> tci \<Rightarrow> tci_audio \<Rightarrow> tci_audio" where
  "tci_iq_feed e i iq sample_rate t a =
     (let nsamples = length iq div 2; idx = tci_rx_index i t
      in if tc_iq_sub_count t \<le> 0 \<or> nsamples = 0 \<or> idx < 0 then a
         else tci_stream_broadcast e TCI_STREAM_IQ idx sample_rate
                (concat (map (\<lambda>j. [iq ! (2 * j + 1), iq ! (2 * j)]) [0 ..< nsamples])) False t a)"

section \<open>The level of the audio stream\<close>

definition TCI_LIM_TARGET :: real where "TCI_LIM_TARGET = 1 / 2"
definition TCI_LIM_MAX_GAIN :: real where "TCI_LIM_MAX_GAIN = 10"
definition TCI_LIM_REL_S :: real where "TCI_LIM_REL_S = 10"
definition TCI_LVL_FLOOR :: real where "TCI_LVL_FLOOR = 2 / 100"
definition TCI_LVL_HOLD_S :: int where "TCI_LVL_HOLD_S = 20"

definition peak_of :: "real list \<Rightarrow> real" where
  "peak_of audio = fold (\<lambda>x peak. if \<bar>x\<bar> > peak then \<bar>x\<bar> else peak) audio 0"

text \<open>The gain at the start and at the end of the block.\<close>

definition tci_limiter_step :: "nat \<Rightarrow> real list \<Rightarrow> tci_audio \<Rightarrow> (real \<times> real) \<times> tci_audio" where
  "tci_limiter_step idx audio a =
     (let peak = peak_of audio; g = ta_lim_gain a ! idx;
          want0 = (if peak > 1 / 10 ^ 9 then TCI_LIM_TARGET / peak else TCI_LIM_MAX_GAIN);
          want = (if want0 > TCI_LIM_MAX_GAIN then TCI_LIM_MAX_GAIN else want0);
          dur = of_nat (length audio div 2) / 48000;
          (from0, g1) = (if want < g then (want, want) else (g, g + (want - g) * (1 - exp (- dur / TCI_LIM_REL_S))));
          g2 = (if g1 < 1 / 10 ^ 6 then 1 / 10 ^ 6 else g1)
      in ((from0, g2), a\<lparr>ta_lim_gain := (ta_lim_gain a)[idx := g2]\<rparr>))"

definition tci_level_check :: "tci_io \<Rightarrow> nat \<Rightarrow> real \<Rightarrow> real \<Rightarrow> tci_audio \<Rightarrow> tci_audio" where
  "tci_level_check e idx peak_in gain a =
     (let peak_out = peak_in * gain; pinned = (gain \<ge> TCI_LIM_MAX_GAIN * (999 / 1000)); now = io_now e;
          since = ta_lvl_low_since a ! idx
      in if \<not> pinned \<or> peak_out \<ge> TCI_LVL_FLOOR
         then a\<lparr>ta_lvl_low_since := (ta_lvl_low_since a)[idx := 0], ta_lvl_warned := (ta_lvl_warned a)[idx := False]\<rparr>
         else if since = 0 then a\<lparr>ta_lvl_low_since := (ta_lvl_low_since a)[idx := now]\<rparr>
         else if now - since < TCI_LVL_HOLD_S * 10 ^ 6 \<or> ta_lvl_warned a ! idx then a
         else a\<lparr>ta_lvl_warned := (ta_lvl_warned a)[idx := True], ta_warnings := ta_warnings a @ [idx]\<rparr>)"

definition apply_ramp :: "real \<Rightarrow> real \<Rightarrow> real list \<Rightarrow> real list" where
  "apply_ramp g0 g1 audio =
     (let n = length audio div 2
      in concat (map (\<lambda>i. let g = g0 + (g1 - g0) * (of_nat i / of_nat n) in [audio ! (2 * i) * g, audio ! (2 * i + 1) * g])
                     [0 ..< n]))"

definition tci_audio_feed :: "tci_io \<Rightarrow> nat \<Rightarrow> real list \<Rightarrow> int \<Rightarrow> tci \<Rightarrow> tci_audio \<Rightarrow> tci_audio" where
  "tci_audio_feed e i audio sample_rate t a =
     (let nstereo = length audio div 2; idx = tci_rx_index i t; k = nat idx
      in if tc_audio_sub_count t \<le> 0 \<or> nstereo = 0 \<or> idx < 0 \<or> idx \<ge> int MAX_RECEIVERS then a
         else (case tci_limiter_step k audio a of ((g0, g1), a1) \<Rightarrow>
           (let a2 = tci_level_check e k (peak_of audio) g1 a1; lin = apply_ramp g0 g1 audio; target = tc_audio_stream_rate t
            in if target \<le> 0 \<or> target = sample_rate then tci_stream_broadcast e TCI_STREAM_RX_AUDIO idx sample_rate lin True t a2
               else (let fresh = (\<lambda>s. if rs_rin s \<noteq> sample_rate \<or> rs_rout s \<noteq> target then tci_resamp_reset sample_rate target else s);
                         cap = nat ((int nstereo * target) div sample_rate) + 4;
                         left = map (\<lambda>j. lin ! (2 * j)) [0 ..< nstereo]; right = map (\<lambda>j. lin ! (2 * j + 1)) [0 ..< nstereo];
                         (out_l, l1) = tci_resamp_run (fresh (fst (ta_rs_rx a2 ! k))) left cap;
                         (out_r, r1) = tci_resamp_run (fresh (snd (ta_rs_rx a2 ! k))) right cap;
                         n = min (length out_l) (length out_r);
                         a3 = a2\<lparr>ta_rs_rx := (ta_rs_rx a2)[k := (l1, r1)]\<rparr>
                     in if n > 0
                        then tci_stream_broadcast e TCI_STREAM_RX_AUDIO idx target
                               (concat (map (\<lambda>j. [out_l ! j, out_r ! j]) [0 ..< n])) True t a3
                        else a3))))"

end
