(* ===== verification/Tci_Streams.thy ===== *)
theory Tci_Streams
  imports Tci_Audio Tci_Subs
begin

text \<open>What the streams of the TCI server do to the sound: the audio of a client reaches the
transmitter in its order, resampled as one signal however it was cut into frames; the audio of
a receiver reaches its subscribers scaled, never clipped; and a client that supplies audio is
asked for as much as is consumed.\<close>

section \<open>The resampler computes one convolution\<close>

lemma rs_sample_sum:
  "rs_sample rin rout w rp =
     (\<Sum>k \<in> {\<lfloor>rp\<rfloor> - 15 .. \<lfloor>rp\<rfloor> + 16}. (if 0 \<le> k \<and> k < int (length w) then w ! nat k else 0) * rs_weight rin rout (rp - of_int k))"
  unfolding rs_sample_def TCI_RS_HALF_def interv_sum_list_conv_sum_set_int by simp

text \<open>A sample whose taps lie inside a part of the signal is computed from that part.\<close>

lemma rs_sample_inside:
  assumes "15 \<le> \<lfloor>rp\<rfloor>" "\<lfloor>rp\<rfloor> + 16 < int (length w)"
  shows "rs_sample rin rout (pre @ w @ post) (rp + of_nat (length pre)) = rs_sample rin rout w rp"
proof -
  let ?d = "int (length pre)"
  have f: "\<lfloor>rp + of_nat (length pre)\<rfloor> = \<lfloor>rp\<rfloor> + ?d" by (metis floor_add_int of_int_of_nat_eq)
  have "(\<Sum>k \<in> {\<lfloor>rp\<rfloor> + ?d - 15 .. \<lfloor>rp\<rfloor> + ?d + 16}.
          (if 0 \<le> k \<and> k < int (length (pre @ w @ post)) then (pre @ w @ post) ! nat k else 0)
            * rs_weight rin rout (rp + of_nat (length pre) - of_int k)) =
        (\<Sum>k \<in> {\<lfloor>rp\<rfloor> - 15 .. \<lfloor>rp\<rfloor> + 16}. (if 0 \<le> k \<and> k < int (length w) then w ! nat k else 0) * rs_weight rin rout (rp - of_int k))"
  proof (rule sum.reindex_bij_witness[where i = "\<lambda>k. k + ?d" and j = "\<lambda>k. k - ?d"])
    fix k assume k: "k \<in> {\<lfloor>rp\<rfloor> + ?d - 15 .. \<lfloor>rp\<rfloor> + ?d + 16}"
    have kd: "?d \<le> k" "k - ?d < int (length w)" using k[unfolded atLeastAtMost_iff] assms by linarith+
    hence "nat k = length pre + nat (k - ?d)" "nat (k - ?d) < length w" by linarith+
    hence "(pre @ w @ post) ! nat k = w ! nat (k - ?d)" by (simp add: nth_append)
    thus "(if 0 \<le> k - ?d \<and> k - ?d < int (length w) then w ! nat (k - ?d) else 0) * rs_weight rin rout (rp - of_int (k - ?d)) =
        (if 0 \<le> k \<and> k < int (length (pre @ w @ post)) then (pre @ w @ post) ! nat k else 0)
          * rs_weight rin rout (rp + of_nat (length pre) - of_int k)"
      using kd by (simp add: algebra_simps)
  qed auto
  thus ?thesis unfolding rs_sample_sum f by (simp add: algebra_simps)
qed

lemma rs_loop_counts:
  assumes "0 < step" "limit < rp + of_nat cap * step"
  shows "\<exists>n \<le> cap. rs_loop cap f step limit rp = (map (\<lambda>j. f (rp + of_nat j * step)) [0 ..< n], rp + of_nat n * step) \<and>
           (\<forall>j < n. rp + of_nat j * step \<le> limit) \<and> limit < rp + of_nat n * step"
  using assms(2)
proof (induction cap arbitrary: rp)
  case (Suc cap)
  show ?case
  proof (cases "rp \<le> limit")
    case True
    have "limit < rp + step + of_nat cap * step" using Suc.prems by (simp add: algebra_simps)
    from Suc.IH[OF this] obtain n where n: "n \<le> cap"
      "rs_loop cap f step limit (rp + step) = (map (\<lambda>j. f (rp + step + of_nat j * step)) [0 ..< n], rp + step + of_nat n * step)"
      "\<forall>j < n. rp + step + of_nat j * step \<le> limit" "limit < rp + step + of_nat n * step" by blast
    have "map (\<lambda>j. f (rp + of_nat j * step)) [0 ..< Suc n] = f rp # map (\<lambda>j. f (rp + step + of_nat j * step)) [0 ..< n]"
      unfolding map_upt0_Suc_Cons by (simp add: algebra_simps)
    moreover have "\<forall>j < Suc n. rp + of_nat j * step \<le> limit"
      using n(3) True by (auto simp: less_Suc_eq_0_disj algebra_simps)
    ultimately show ?thesis using n True by (intro exI[of _ "Suc n"]) (simp add: algebra_simps del: upt_Suc)
  qed (auto intro!: exI[of _ 0])
qed auto

text \<open>What a resampler holds after \<open>n\<close> samples out for the signal \<open>x\<close> in.\<close>

definition before :: "real list \<Rightarrow> real list" where "before x = replicate 32 0 @ x"

lemma length_before [simp]: "length (before x) = length x + 32" by (simp add: before_def)

definition resampled :: "int \<Rightarrow> int \<Rightarrow> real list \<Rightarrow> nat \<Rightarrow> tci_resamp \<Rightarrow> bool" where
  "resampled rin rout x n s \<longleftrightarrow> rs_rin s = rin \<and> rs_rout s = rout \<and> rs_step s = of_int rin / of_int rout \<and>
     rs_hist s = drop (length x) (before x) \<and> rs_rp s = 32 + of_nat n * rs_step s - of_nat (length x) \<and>
     of_nat (length x) - 17 < of_nat n * rs_step s \<and> (\<forall>j < n. of_nat j * rs_step s \<le> of_nat (length x) - 17)"

definition resampling :: "int \<Rightarrow> int \<Rightarrow> real list \<Rightarrow> nat \<Rightarrow> real" where
  "resampling rin rout x j = rs_sample rin rout (before x) (32 + of_nat j * (of_int rin / of_int rout))"

lemma resampled_reset: "resampled rin rout [] 0 (tci_resamp_reset rin rout)"
  by (simp add: resampled_def tci_resamp_reset_def before_def TCI_RS_HIST_def)

text \<open>More signal changes no sample already due.\<close>

lemma resampling_append:
  assumes "0 < rin" "0 < rout" "of_nat j * (of_int rin / of_int rout :: real) \<le> of_nat (length x) - 17"
  shows "resampling rin rout (x @ y) j = resampling rin rout x j"
proof -
  let ?rp = "32 + of_nat j * (of_int rin / of_int rout) :: real"
  have p: "0 \<le> of_nat j * (of_int rin / of_int rout :: real)" using assms(1,2) by simp
  have "15 \<le> \<lfloor>?rp\<rfloor>" "\<lfloor>?rp\<rfloor> + 16 < int (length (before x))"
    using p assms(3) by (simp_all add: le_floor_iff floor_less_iff) linarith?
  from rs_sample_inside[OF this, of rin rout "[]" y] show ?thesis by (simp add: resampling_def before_def)
qed

lemma resamp_update:
  "rs_rin (s\<lparr>rs_hist := h, rs_rp := p\<rparr>) = rs_rin s" "rs_rout (s\<lparr>rs_hist := h, rs_rp := p\<rparr>) = rs_rout s"
  "rs_step (s\<lparr>rs_hist := h, rs_rp := p\<rparr>) = rs_step s" "rs_hist (s\<lparr>rs_hist := h, rs_rp := p\<rparr>) = h"
  "rs_rp (s\<lparr>rs_hist := h, rs_rp := p\<rparr>) = p"
  by simp_all

lemma resamp_run:
  assumes "0 < rin" "0 < rout" "resampled rin rout x n s" "length b \<le> 4096"
    and "of_nat (length b) \<le> of_nat cap * (of_int rin / of_int rout :: real)"
  shows "\<exists>m s'. tci_resamp_run s b cap = (map (resampling rin rout (x @ b)) [n ..< n + m], s') \<and>
           resampled rin rout (x @ b) (n + m) s'"
proof (cases "b = []")
  case True
  thus ?thesis using assms(3) by (intro exI[of _ 0] exI[of _ s]) (simp add: tci_resamp_run_def)
next
  case False
  let ?step = "of_int rin / of_int rout :: real" and ?w = "rs_hist s @ b" and ?d = "length x"
  have s: "rs_rin s = rin" "rs_rout s = rout" "rs_step s = ?step" "rs_hist s = drop ?d (before x)"
    "rs_rp s = 32 + of_nat n * ?step - of_nat ?d" "of_nat ?d - 17 < of_nat n * ?step"
    "\<forall>j < n. of_nat j * ?step \<le> of_nat ?d - 17"
    using assms(3) by (auto simp: resampled_def)
  have step: "0 < ?step" using assms(1,2) by simp
  have lh: "length (rs_hist s) = 32" by (simp add: s(4) before_def)
  let ?limit = "of_int (int (length ?w) - 1 - TCI_RS_HALF) :: real"
  have lim: "?limit = 15 + of_nat (length b)" using lh by (simp add: TCI_RS_HALF_def)
  have "?limit < rs_rp s + of_nat cap * ?step" using assms(5) s(5,6) lim by linarith
  from rs_loop_counts[OF step this, of "rs_sample rin rout ?w"] obtain m where m:
    "rs_loop cap (rs_sample rin rout ?w) ?step ?limit (rs_rp s) =
       (map (\<lambda>j. rs_sample rin rout ?w (rs_rp s + of_nat j * ?step)) [0 ..< m], rs_rp s + of_nat m * ?step)"
    "\<forall>j < m. rs_rp s + of_nat j * ?step \<le> ?limit" "?limit < rs_rp s + of_nat m * ?step" by blast
  have split: "before (x @ b) = take ?d (before x) @ ?w @ []"
    using append_take_drop_id[of ?d "before x"] by (simp add: s(4) before_def)
  have lt: "length (take ?d (before x)) = ?d" by (simp add: before_def)
  have here: "rs_sample rin rout ?w (rs_rp s + of_nat j * ?step) = resampling rin rout (x @ b) (n + j)" if "j < m" for j
  proof -
    let ?rp = "rs_rp s + of_nat j * ?step"
    have nn: "0 \<le> of_nat j * ?step" by (rule mult_nonneg_nonneg[OF of_nat_0_le_iff less_imp_le[OF step]])
    have "15 \<le> ?rp" using s(5,6) nn by linarith
    moreover have "?rp \<le> 15 + of_nat (length b)" using m(2) that lim by auto
    ultimately have "15 \<le> \<lfloor>?rp\<rfloor>" "\<lfloor>?rp\<rfloor> + 16 < int (length ?w)"
      using lh by (simp_all add: le_floor_iff floor_less_iff)
    note rs_sample_inside[OF this, of rin rout "take ?d (before x)" "[]"]
    moreover have "?rp + of_nat ?d = 32 + of_nat (n + j) * ?step"
      unfolding s(5) of_nat_add distrib_right by linarith
    ultimately show ?thesis unfolding resampling_def split[symmetric] lt by simp
  qed
  have outs: "map (\<lambda>j. rs_sample rin rout ?w (rs_rp s + of_nat j * ?step)) [0 ..< m] = map (resampling rin rout (x @ b)) [n ..< n + m]"
    using here by (intro nth_equalityI) simp_all
  have keep: "\<not> rs_rp s + of_nat m * ?step - of_nat (length b) < 0" using m(3) lim by simp
  let ?s' = "s\<lparr>rs_hist := drop (length ?w - TCI_RS_HIST) ?w, rs_rp := rs_rp s + of_nat m * ?step - of_nat (length b)\<rparr>"
  have run: "tci_resamp_run s b cap = (map (resampling rin rout (x @ b)) [n ..< n + m], ?s')"
    using False assms(4) keep m(1) outs unfolding tci_resamp_run_def Let_def s(1-3)
    by (simp add: TCI_RS_MAX_IN_def s(3))
  have hist: "drop (length ?w - TCI_RS_HIST) ?w = drop (?d + length b) (before (x @ b))"
    unfolding split using lh by (simp add: TCI_RS_HIST_def lt)
  have due: "of_nat j * ?step \<le> of_nat (?d + length b) - 17" if "j < n + m" for j
  proof (cases "j < n")
    case True
    thus ?thesis using s(7) by fastforce
  next
    case False
    hence "j - n < m" using that by linarith
    hence "rs_rp s + of_nat (j - n) * ?step \<le> ?limit" using m(2) by blast
    hence "rs_rp s + of_nat (j - n) * ?step \<le> 15 + of_nat (length b)" unfolding lim .
    moreover have "of_nat n * ?step + of_nat (j - n) * ?step = of_nat j * ?step"
      using False unfolding distrib_right[symmetric] of_nat_add[symmetric] by simp
    ultimately show ?thesis using s(5) by simp
  qed
  have after: "of_nat (?d + length b) - 17 < of_nat (n + m) * ?step"
    using m(3) unfolding lim s(5) of_nat_add distrib_right by linarith
  have pos: "rs_rp s + of_nat m * ?step - of_nat (length b) = 32 + of_nat (n + m) * ?step - of_nat (?d + length b)"
    unfolding s(5) of_nat_add distrib_right by linarith
  note u = resamp_update[where s = s and h = "drop (length ?w - TCI_RS_HIST) ?w" and p = "rs_rp s + of_nat m * ?step - of_nat (length b)"]
  have v: "rs_rin ?s' = rin" "rs_rout ?s' = rout" "rs_step ?s' = ?step" "rs_hist ?s' = drop (?d + length b) (before (x @ b))"
    unfolding u by (rule s(1) s(2) s(3) hist)+
  have "resampled rin rout (x @ b) (n + m) ?s'"
    unfolding resampled_def v u(5) unfolding pos length_append by (intro conjI refl allI impI after) (rule due)
  thus ?thesis using run by blast
qed

lemma resampled_count:
  assumes "0 < rin" "0 < rout" "resampled rin rout x n s"
  shows "n = nat (\<lfloor>(of_nat (length x) - 17) * (of_int rout / of_int rin :: real)\<rfloor> + 1)"
proof -
  let ?step = "of_int rin / of_int rout :: real" and ?l = "of_nat (length x) - 17 :: real"
  have step: "0 < ?step" "?l * (of_int rout / of_int rin) = ?l / ?step" using assms(1,2) by simp_all
  have c: "?l < of_nat n * ?step" "\<forall>j < n. of_nat j * ?step \<le> ?l" using assms(3) unfolding resampled_def by metis+
  have u: "?l / ?step < of_nat n" unfolding pos_divide_less_eq[OF step(1)] by (rule c(1))
  show ?thesis
  proof (cases n)
    case 0
    hence "\<lfloor>?l / ?step\<rfloor> < 0" using u unfolding floor_less_zero by simp
    thus ?thesis unfolding step(2) using 0 by linarith
  next
    case (Suc m)
    have "of_nat m * ?step \<le> ?l" using c(2) Suc by blast
    hence "of_nat m \<le> ?l / ?step" unfolding pos_le_divide_eq[OF step(1)] .
    hence "\<lfloor>?l / ?step\<rfloor> = int m" using u Suc by (intro floor_unique) simp_all
    thus ?thesis unfolding step(2) using Suc by simp
  qed
qed

section \<open>The ring of the transmit audio is a bounded queue\<close>

definition tx_queue :: "tci_audio \<Rightarrow> real ringbufferl" where
  "tx_queue a = \<lparr>queue = ta_tx_ring a, queue_in = ta_tx_ring_head a, queue_out = ta_tx_ring_tail a,
                 queue_size = int TCI_TX_RING\<rparr>"

lemma fifo_put_all_append: "put_all put (xs @ ys) q = put_all put ys (put_all put xs q)"
  by (induction xs arbitrary: q) simp_all

lemma put_all_full: "(\<And>y. put q y = (q, - 1)) \<Longrightarrow> put_all put xs q = q"
  by (induction xs) simp_all

lemma ring_full_test:
  fixes h t :: int
  assumes "0 \<le> h" "h < 48000" "0 \<le> t" "t < 48000"
  shows "(h + 1) mod 48000 = t \<longleftrightarrow> h = (t - 1 + 48000) mod 48000"
proof -
  have "(h + 1) mod 48000 = (if h = 47999 then 0 else h + 1)" using assms by auto
  moreover have "(t - 1 + 48000) mod 48000 = (if t = 0 then 47999 else t - 1)"
    using mod_window[of "t - 1 + 48000 - 48000" 48000] mod_add_self2[of "t - 1" 48000] assms by (simp split: if_splits)
  ultimately show ?thesis using assms by auto
qed

lemma push_is_put_all:
  "rb_inv (tx_queue a) \<Longrightarrow> tx_queue (tx_ring_push_locked xs a) = put_all queue_put xs (tx_queue a)"
proof (induction xs arbitrary: a)
  case (Cons x xs)
  let ?h = "ta_tx_ring_head a" and ?t = "ta_tx_ring_tail a"
  have b: "0 \<le> ?h" "?h < 48000" "0 \<le> ?t" "?t < 48000"
    using Cons.prems by (simp_all add: rb_inv_def tx_queue_def TCI_TX_RING_def)
  show ?case
  proof (cases "(?h + 1) mod 48000 = ?t")
    case True
    hence "queue_put (tx_queue a) y = (tx_queue a, - 1)" for y
      using ring_full_test[OF b] by (simp add: queue_put_def tx_queue_def TCI_TX_RING_def)
    hence "put_all queue_put (x # xs) (tx_queue a) = tx_queue a" by (rule put_all_full)
    moreover have "tx_queue (tx_ring_push_locked (x # xs) a) = tx_queue a"
      using True by (simp add: TCI_TX_RING_def tx_queue_def)
    ultimately show ?thesis by simp
  next
    case False
    let ?a = "a\<lparr>ta_tx_ring := (ta_tx_ring a)[nat ?h := x], ta_tx_ring_head := (?h + 1) mod 48000\<rparr>"
    have q: "fst (queue_put (tx_queue a) x) = tx_queue ?a"
      using False ring_full_test[OF b] by (simp add: queue_put_def tx_queue_def TCI_TX_RING_def)
    have "rb_inv (tx_queue ?a)" using rb.put_inv[OF Cons.prems, of x] q by simp
    thus ?thesis using Cons.IH[of ?a] False q by (simp add: TCI_TX_RING_def Let_def)
  qed
qed simp

lemma push_keeps [simp]: "ta_rs_tx (tx_ring_push_locked xs a) = ta_rs_tx a"
  by (induction xs arbitrary: a) (simp_all add: Let_def)

lemma put_all_inv: "rb_inv q \<Longrightarrow> rb_inv (put_all queue_put xs q)"
  using rb.put_all_contents[of q xs] by blast

lemma next_sample_is_get:
  "fst (tci_tx_next_sample t a) = fst (snd (queue_get (tx_queue a) 0)) \<and>
   tx_queue (snd (tci_tx_next_sample t a)) = fst (queue_get (tx_queue a) 0)"
  by (auto simp: tci_tx_next_sample_def queue_get_def tx_queue_def Let_def)

section \<open>From the frames of a client to the transmitter\<close>

text \<open>A frame of transmit audio at a rate, and the samples it carries for the transmitter: the
left channel of what its header declares and the frame holds.\<close>

definition tx_frame :: "int \<Rightarrow> byte list \<Rightarrow> bool" where
  "tx_frame rate buf \<longleftrightarrow> 68 \<le> length buf \<and> ld32le buf 4 = word_of_int rate \<and> ld32le buf 8 \<in> {3, 4} \<and> ld32le buf 24 = 2"

definition left_channel :: "tci_io \<Rightarrow> byte list \<Rightarrow> real list" where
  "left_channel e buf =
     map (\<lambda>j. io_float e (ld32le buf (64 + 8 * j)))
       [0 ..< min (unat (ld32le buf 20)) ((length buf - 64) div 4) div 2]"

lemma pieces_concat: "0 < n \<Longrightarrow> concat (pieces n xs) = xs \<and> (\<forall>p \<in> set (pieces n xs). length p \<le> n)"
proof (induction n xs rule: pieces.induct)
  case (1 n xs)
  show ?case
  proof (cases "xs = []")
    case False
    thus ?thesis using 1 by (subst (1 2) pieces.simps) simp
  qed (simp add: pieces.simps)
qed

lemma sint_rate: "8000 \<le> rate \<Longrightarrow> rate \<le> 192000 \<Longrightarrow> sint (word_of_int rate :: 32 word) = rate \<and> (word_of_int rate :: 32 word) > 0"
proof -
  assume r: "8000 \<le> rate" "rate \<le> 192000"
  have "uint (word_of_int rate :: 32 word) = rate" using r by (simp add: uint_word_of_int)
  moreover have "sint (word_of_int rate :: 32 word) = rate"
    unfolding sint_uint using r calculation by (simp add: signed_take_bit_int_eq_self)
  ultimately show ?thesis using r by (simp add: word_less_def)
qed

lemma ring_of_pieces:
  assumes "0 < rin" "0 < rout" "resampled rin rout x n (ta_rs_tx a)" "rb_inv (tx_queue a)"
    and "\<forall>b \<in> set bs. length b \<le> 4096" "4096 \<le> of_nat cap * (of_int rin / of_int rout :: real)"
  shows "\<exists>m. resampled rin rout (x @ concat bs) (n + m) (ta_rs_tx (fold (resample_to_ring cap) bs a)) \<and>
           tx_queue (fold (resample_to_ring cap) bs a) =
             put_all queue_put (map (resampling rin rout (x @ concat bs)) [n ..< n + m]) (tx_queue a)"
  using assms(3-5)
proof (induction bs arbitrary: x n a)
  case Nil
  thus ?case by (intro exI[of _ 0]) simp
next
  case (Cons b bs)
  have b: "length b \<le> 4096" "of_nat (length b) \<le> of_nat cap * (of_int rin / of_int rout :: real)"
    using Cons.prems(3) assms(6) by force+
  from resamp_run[OF assms(1,2) Cons.prems(1) b] obtain m s where m:
    "tci_resamp_run (ta_rs_tx a) b cap = (map (resampling rin rout (x @ b)) [n ..< n + m], s)"
    "resampled rin rout (x @ b) (n + m) s" by blast
  let ?a = "resample_to_ring cap b a"
  have q: "ta_rs_tx ?a = s" "tx_queue ?a = put_all queue_put (map (resampling rin rout (x @ b)) [n ..< n + m]) (tx_queue a)"
    using push_is_put_all[of "a\<lparr>ta_rs_tx := s\<rparr>"] Cons.prems(2)
    by (simp_all add: resample_to_ring_def m(1)) (simp add: tx_queue_def)
  have "resampled rin rout (x @ b) (n + m) (ta_rs_tx ?a)" "rb_inv (tx_queue ?a)"
    using m(2) q put_all_inv[OF Cons.prems(2)] by simp_all
  from Cons.IH[OF this] Cons.prems(3) obtain m' where m':
    "resampled rin rout ((x @ b) @ concat bs) (n + m + m') (ta_rs_tx (fold (resample_to_ring cap) bs ?a))"
    "tx_queue (fold (resample_to_ring cap) bs ?a) =
       put_all queue_put (map (resampling rin rout ((x @ b) @ concat bs)) [n + m ..< n + m + m']) (tx_queue ?a)" by auto
  have "resampling rin rout (x @ b) j = resampling rin rout ((x @ b) @ concat bs) j" if "j < n + m" for j
    using m(2) that by (intro resampling_append[symmetric] assms(1,2)) (auto simp: resampled_def)
  hence "map (resampling rin rout (x @ b)) [n ..< n + m] = map (resampling rin rout ((x @ b) @ concat bs)) [n ..< n + m]" by simp
  note m'(2)[unfolded q(2) this]
  moreover have "[n ..< n + (m + m')] = [n ..< n + m] @ [n + m ..< n + m + m']"
    using upt_add_eq_append[of n "n + m" m'] by (simp add: add.assoc)
  ultimately show ?case using m'(1)
    by (intro exI[of _ "m + m'"]) (simp only: fold_simps concat.simps append_assoc add.assoc map_append fifo_put_all_append comp_apply simp_thms)
qed

lemma room_for_a_piece:
  assumes "8000 \<le> rate" "rate \<le> 192000"
  shows "4096 \<le> of_nat (nat ((int TCI_RS_MAX_IN * TCI_AUDIO_RATE) div rate) + 4) * (of_int rate / of_int 48000 :: real)"
proof -
  let ?c = "196608000 div rate"
  have "rate * ?c + 196608000 mod rate = 196608000" "196608000 mod rate < rate" using assms(1) by simp_all
  hence "196608000 < rate * (?c + 4)" using assms(1) unfolding distrib_left by linarith
  moreover have "0 \<le> ?c" using assms(1) by (simp add: pos_imp_zdiv_nonneg_iff)
  ultimately have "(196608000 :: real) \<le> of_int rate * (of_int ?c + 4)"
    by (metis less_imp_le of_int_add of_int_le_iff of_int_mult of_int_numeral)
  thus ?thesis using \<open>0 \<le> ?c\<close> by (simp add: TCI_RS_MAX_IN_def TCI_AUDIO_RATE_def field_simps)
qed

text \<open>Where the resampler of the transmit audio stands: nothing came since the reset, or it
resamples what came.\<close>

definition streaming :: "int \<Rightarrow> real list \<Rightarrow> nat \<Rightarrow> tci_audio \<Rightarrow> bool" where
  "streaming rate x n a \<longleftrightarrow> resampled rate 48000 x n (ta_rs_tx a) \<or> x = [] \<and> n = 0 \<and> ta_rs_tx a = tci_resamp_zero"

lemma ingest_frame:
  assumes "tx_frame rate buf" "8000 \<le> rate" "rate \<le> 192000"
  shows "tci_ingest_binary e buf a =
    (if left_channel e buf = [] then a
     else let a1 = (if rate = 48000 then tx_ring_push_locked (left_channel e buf) a
                    else fold (resample_to_ring (nat ((int TCI_RS_MAX_IN * TCI_AUDIO_RATE) div rate) + 4))
                           (pieces TCI_RS_MAX_IN (left_channel e buf))
                           (if rs_rin (ta_rs_tx a) \<noteq> rate \<or> rs_rout (ta_rs_tx a) \<noteq> 48000
                            then a\<lparr>ta_rs_tx := tci_resamp_reset rate 48000\<rparr> else a))
          in a1\<lparr>ta_tx_audio_last_us := io_now e, ta_tx_frames_in := ta_tx_frames_in a1 + 1\<rparr>)"
proof -
  have f: "\<not> length buf < 68" "ld32le buf 4 = word_of_int rate" "ld32le buf 8 = 4 \<or> ld32le buf 8 = 3" "ld32le buf 24 = 2"
    using assms(1) by (auto simp: tx_frame_def)
  have c: "tci_stream_float_count (ld32le buf 20) (length buf - 64) = min (unat (ld32le buf 20)) ((length buf - 64) div 4)"
    by (simp add: tci_stream_float_count_def Let_def min_def)
  have r: "(if (word_of_int rate :: 32 word) > 0 then sint (word_of_int rate :: 32 word) else 48000) = rate"
    using sint_rate[OF assms(2,3)] by simp
  have l: "left_channel e buf =
      map (\<lambda>j. io_float e (ld32le buf (64 + 4 * (j * 2)))) [0 ..< min (unat (ld32le buf 20)) ((length buf - 64) div 4) div 2]"
    by (simp add: left_channel_def mult.commute)
  have fm: "(if ld32le buf 8 = 4 then 3 else ld32le buf 8) = (3 :: 32 word)" using f(3) by auto
  have n: "min (unat (ld32le buf 20)) ((length buf - 64) div 4) div 2 = 0 \<longleftrightarrow> left_channel e buf = []"
    by (simp add: left_channel_def)
  have cl: "(if rate < 8000 then 8000 else rate) = rate" "(if rate > 192000 then 192000 else rate) = rate"
    using assms(2,3) by simp_all
  have h: "(length buf < 64 + 4) = False" using f(1) by simp
  show ?thesis
    unfolding tci_ingest_binary_def TCI_HDR_BYTES_def TCI_SAMPLE_FLOAT32_def TCI_STREAM_TX_AUDIO_def TCI_AUDIO_CHANNELS_def
      Let_def f(2,4) TCI_AUDIO_RATE_def r fm c l[symmetric] n cl h
    by (simp only: if_False simp_thms)
qed

lemma streaming_frame:
  assumes "tx_frame rate buf" "8000 \<le> rate" "rate \<le> 192000" "rate \<noteq> 48000" "streaming rate x n a" "rb_inv (tx_queue a)"
  shows "\<exists>m. streaming rate (x @ left_channel e buf) (n + m) (tci_ingest_binary e buf a) \<and>
           tx_queue (tci_ingest_binary e buf a) =
             put_all queue_put (map (resampling rate 48000 (x @ left_channel e buf)) [n ..< n + m]) (tx_queue a)"
proof (cases "left_channel e buf = []")
  case True
  thus ?thesis using assms(5) unfolding ingest_frame[OF assms(1-3)] by (intro exI[of _ 0]) simp
next
  case False
  let ?a = "if rs_rin (ta_rs_tx a) \<noteq> rate \<or> rs_rout (ta_rs_tx a) \<noteq> 48000 then a\<lparr>ta_rs_tx := tci_resamp_reset rate 48000\<rparr> else a"
  have q: "tx_queue ?a = tx_queue a" by (simp add: tx_queue_def)
  have "resampled rate 48000 x n (ta_rs_tx ?a)"
  proof (cases "resampled rate 48000 x n (ta_rs_tx a)")
    case True
    thus ?thesis by (simp add: resampled_def)
  next
    case False
    hence "x = []" "n = 0" "ta_rs_tx a = tci_resamp_zero" using assms(5) by (auto simp: streaming_def)
    thus ?thesis using assms(2) resampled_reset by (simp add: tci_resamp_zero_def)
  qed
  moreover have "concat (pieces TCI_RS_MAX_IN (left_channel e buf)) = left_channel e buf"
    "\<forall>b \<in> set (pieces TCI_RS_MAX_IN (left_channel e buf)). length b \<le> 4096"
    using pieces_concat[of TCI_RS_MAX_IN "left_channel e buf"] by (simp_all add: TCI_RS_MAX_IN_def)
  moreover have "rb_inv (tx_queue ?a)" unfolding q by (rule assms(6))
  moreover have "0 < rate" "(0 :: int) < 48000" using assms(2) by simp_all
  ultimately obtain m where m:
    "resampled rate 48000 (x @ left_channel e buf) (n + m)
       (ta_rs_tx (fold (resample_to_ring (nat ((int TCI_RS_MAX_IN * TCI_AUDIO_RATE) div rate) + 4))
                    (pieces TCI_RS_MAX_IN (left_channel e buf)) ?a))"
    "tx_queue (fold (resample_to_ring (nat ((int TCI_RS_MAX_IN * TCI_AUDIO_RATE) div rate) + 4))
                    (pieces TCI_RS_MAX_IN (left_channel e buf)) ?a) =
       put_all queue_put (map (resampling rate 48000 (x @ left_channel e buf)) [n ..< n + m]) (tx_queue a)"
    using ring_of_pieces[of rate 48000 x n ?a "pieces TCI_RS_MAX_IN (left_channel e buf)", OF _ _ _ _ _ room_for_a_piece[OF assms(2,3)]]
    unfolding q by metis
  thus ?thesis using False assms(4) unfolding ingest_frame[OF assms(1-3)] Let_def
    by (intro exI[of _ m]) (simp add: streaming_def tx_queue_def)
qed

text \<open>The samples that are due of a signal.\<close>

definition resampled_signal :: "int \<Rightarrow> real list \<Rightarrow> real list" where
  "resampled_signal rate x =
     map (resampling rate 48000 x) [0 ..< nat (\<lfloor>(of_nat (length x) - 17) * (48000 / of_int rate :: real)\<rfloor> + 1)]"

lemma streaming_count:
  assumes "8000 \<le> rate" "rate \<le> 192000" "streaming rate x n a"
  shows "map (resampling rate 48000 x) [0 ..< n] = resampled_signal rate x"
proof (cases "resampled rate 48000 x n (ta_rs_tx a)")
  case True
  thus ?thesis using resampled_count[OF _ _ True] assms(1) by (simp add: resampled_signal_def)
next
  case False
  hence z: "x = []" "n = 0" using assms(3) by (auto simp: streaming_def)
  have "(- 17 :: real) * (48000 / of_int rate) \<le> - 4" using assms(1,2) by (simp add: field_simps)
  hence "\<lfloor>(- 17 :: real) * (48000 / of_int rate)\<rfloor> + 1 \<le> 0" by linarith
  thus ?thesis using z by (simp add: resampled_signal_def)
qed

lemma ring_after_reset:
  assumes "length (ta_tx_ring a) = TCI_TX_RING"
  shows "rb_inv (tx_queue (tx_ring_reset a))" "rb_list (tx_queue (tx_ring_reset a)) = []" "rb_cap (tx_queue (tx_ring_reset a)) = 47999"
    "streaming rate [] 0 (tx_ring_reset a)"
  using assms by (simp_all add: rb_inv_def rb_list_def rb_length_def rb_cap_def tx_queue_def tx_ring_reset_def TCI_TX_RING_def
      streaming_def)

text \<open>What happens to the transmit audio: a client is armed, a frame of it arrives, the
transmitter takes a sample.\<close>

datatype audio_step = Arm | Frame "byte list" | Play

fun audio_run :: "tci_io \<Rightarrow> tci \<Rightarrow> audio_step list \<Rightarrow> tci_audio \<Rightarrow> real list" where
  "audio_run e t [] a = []"
| "audio_run e t (Arm # ss) a = audio_run e t ss (tx_ring_reset a)"
| "audio_run e t (Frame buf # ss) a = audio_run e t ss (tci_ingest_binary e buf a)"
| "audio_run e t (Play # ss) a = (case tci_tx_next_sample t a of (s, a1) \<Rightarrow> s # audio_run e t ss a1)"

text \<open>The same with a list for the queue: \<open>x\<close> is the sound since the client was armed, \<open>q\<close> what
of it waits to be played. A frame adds the results that have become due by it.\<close>

definition due_signal :: "int \<Rightarrow> real list \<Rightarrow> real list" where
  "due_signal rate x = (if rate = 48000 then x else resampled_signal rate x)"

fun audio_spec :: "tci_io \<Rightarrow> int \<Rightarrow> audio_step list \<Rightarrow> real list \<Rightarrow> real list \<Rightarrow> real list" where
  "audio_spec e rate [] x q = []"
| "audio_spec e rate (Arm # ss) x q = audio_spec e rate ss [] []"
| "audio_spec e rate (Frame buf # ss) x q =
     (let x1 = x @ left_channel e buf; new = drop (length (due_signal rate x)) (due_signal rate x1)
      in audio_spec e rate ss x1 (q @ take (47999 - length q) new))"
| "audio_spec e rate (Play # ss) x q = (case q of [] \<Rightarrow> 0 # audio_spec e rate ss x [] | s # q1 \<Rightarrow> s # audio_spec e rate ss x q1)"

definition audio_sim :: "int \<Rightarrow> real list \<Rightarrow> real list \<Rightarrow> tci_audio \<Rightarrow> bool" where
  "audio_sim rate x q a \<longleftrightarrow> rb_inv (tx_queue a) \<and> rb_cap (tx_queue a) = 47999 \<and> rb_list (tx_queue a) = q \<and>
     (rate \<noteq> 48000 \<longrightarrow> (\<exists>n. streaming rate x n a))"

lemma audio_sim_put:
  assumes "audio_sim rate x q a" "tx_queue a' = put_all queue_put new (tx_queue a)"
    and "rate \<noteq> 48000 \<longrightarrow> (\<exists>n. streaming rate x' n a')"
  shows "audio_sim rate x' (q @ take (47999 - length q) new) a'"
proof -
  have "rb_list (tx_queue a) = q" using assms(1) by (simp add: audio_sim_def)
  hence "rb_length (tx_queue a) = length q" by auto
  thus ?thesis using rb.put_all_contents[of "tx_queue a" new] assms by (simp add: audio_sim_def)
qed

lemma audio_sim_frame:
  assumes "audio_sim rate x q a" "8000 \<le> rate" "rate \<le> 192000" "tx_frame rate buf"
  shows "audio_sim rate (x @ left_channel e buf) (q @ take (47999 - length q)
     (drop (length (due_signal rate x)) (due_signal rate (x @ left_channel e buf)))) (tci_ingest_binary e buf a)"
proof (cases "rate = 48000")
  case True
  have f: "tx_frame 48000 buf" and i: "rb_inv (tx_queue a)" using assms True by (simp_all add: audio_sim_def)
  have "tx_queue (tci_ingest_binary e buf a) = put_all queue_put (left_channel e buf) (tx_queue a)"
  proof (cases "left_channel e buf = []")
    case False
    thus ?thesis using push_is_put_all[OF i, of "left_channel e buf"]
      unfolding ingest_frame[OF f, simplified] by (simp add: tx_queue_def Let_def)
  qed (simp add: ingest_frame[OF f, simplified])
  from audio_sim_put[OF assms(1) this, of "x @ left_channel e buf"] True show ?thesis by (simp add: due_signal_def)
next
  case False
  let ?x = "x @ left_channel e buf"
  obtain n where n: "streaming rate x n a" "rb_inv (tx_queue a)" using assms(1) False by (auto simp: audio_sim_def)
  from streaming_frame[OF assms(4,2,3) False n] obtain m where m: "streaming rate ?x (n + m) (tci_ingest_binary e buf a)"
    "tx_queue (tci_ingest_binary e buf a) = put_all queue_put (map (resampling rate 48000 ?x) [n ..< n + m]) (tx_queue a)" by blast
  have l: "length (resampled_signal rate x) = n" using streaming_count[OF assms(2,3) n(1)]
    by (metis length_map length_upt diff_zero)
  have "[0 ..< n + m] = [0 ..< n] @ [n ..< n + m]" by (rule upt_add_eq_append) simp
  hence "resampled_signal rate ?x = map (resampling rate 48000 ?x) [0 ..< n] @ map (resampling rate 48000 ?x) [n ..< n + m]"
    using streaming_count[OF assms(2,3) m(1)] by simp
  hence "drop (length (due_signal rate x)) (due_signal rate ?x) = map (resampling rate 48000 ?x) [n ..< n + m]"
    using False l by (simp add: due_signal_def)
  with audio_sim_put[OF assms(1) m(2), of ?x] m(1) show ?thesis by auto
qed

lemma audio_sim_play:
  assumes "audio_sim rate x q a" "tci_tx_next_sample t a = (s, a1)"
  shows "s = (case q of [] \<Rightarrow> 0 | y # ys \<Rightarrow> y) \<and> audio_sim rate x (tl q) a1"
proof -
  have i: "rb_inv (tx_queue a)" "rb_cap (tx_queue a) = 47999" "rb_list (tx_queue a) = q"
    and st: "rate \<noteq> 48000 \<longrightarrow> (\<exists>n. streaming rate x n a)" using assms(1) by (simp_all add: audio_sim_def)
  have g: "s = fst (snd (queue_get (tx_queue a) 0))" "tx_queue a1 = fst (queue_get (tx_queue a) 0)"
    using next_sample_is_get[of t a] assms(2) by simp_all
  have r: "ta_rs_tx a1 = ta_rs_tx a" using assms(2) by (auto simp: tci_tx_next_sample_def Let_def split: if_splits)
  have v: "rb_inv (tx_queue a1)" "rb_cap (tx_queue a1) = 47999" using rb.get_inv[OF i(1), of 0] g(2) i(2) by simp_all
  have "s = (case q of [] \<Rightarrow> 0 | y # ys \<Rightarrow> y) \<and> rb_list (tx_queue a1) = tl q"
    using rb.get_some[OF i(1), of _ _ 0] rb.get_none[OF i(1), of 0] i(3) g by (cases q) simp_all
  thus ?thesis using v st by (simp add: audio_sim_def streaming_def r)
qed

lemma audio_run_spec:
  assumes "8000 \<le> rate" "rate \<le> 192000"
  shows "\<forall>buf. Frame buf \<in> set ss \<longrightarrow> tx_frame rate buf \<Longrightarrow> audio_sim rate x q a \<Longrightarrow> length (ta_tx_ring a) = TCI_TX_RING \<Longrightarrow>
    audio_run e t ss a = audio_spec e rate ss x q"
proof (induction ss arbitrary: x q a)
  case (Cons st ss)
  have i: "\<forall>buf. Frame buf \<in> set ss \<longrightarrow> tx_frame rate buf" using Cons.prems(1) by simp
  have len: "length (ta_tx_ring a) = TCI_TX_RING" if "audio_sim rate x q a" for x q a
    using that by (simp add: audio_sim_def rb_inv_def tx_queue_def)
  show ?case
  proof (cases st)
    case Arm
    have "audio_sim rate [] [] (tx_ring_reset a)"
      using ring_after_reset[OF Cons.prems(3)] by (auto simp: audio_sim_def)
    thus ?thesis using Cons.IH[OF i] len Arm by simp
  next
    case (Frame buf)
    have "tx_frame rate buf" using Cons.prems(1) Frame by simp
    from audio_sim_frame[OF Cons.prems(2) assms this, of e] show ?thesis using Cons.IH[OF i] len Frame by (simp add: Let_def)
  next
    case Play
    obtain s a1 where s: "tci_tx_next_sample t a = (s, a1)" by fastforce
    from audio_sim_play[OF Cons.prems(2) s] have "audio_sim rate x (tl q) a1" "s = (case q of [] \<Rightarrow> 0 | y # ys \<Rightarrow> y)" by simp_all
    thus ?thesis using Cons.IH[OF i] len Play s by (cases q) simp_all
  qed
qed simp

text \<open>C30: A client's transmit audio is played in its order, while it keeps coming in. Take any
order of arming a client, frames of transmit audio arriving and samples being taken by the
transmitter, the first step being an arming. All frames have one rate from 8 to 192 kHz. The samples
taken are those of a list that starts empty at every arming, holds at most 47999 (what does not fit
is lost), is taken from at the front, and gives silence while it is empty. A frame appends to it, at
48 kHz, the samples of the left channel that its header declares, whatever follows them; at another
rate it appends those results that have become due of the convolution of the whole sound since the
arming, so that it does not matter how the sound is cut into frames and blocks.\<close>

theorem tx_audio_is_played_in_order:
  assumes "length (ta_tx_ring a) = TCI_TX_RING" "8000 \<le> rate" "rate \<le> 192000"
    and "\<forall>buf. Frame buf \<in> set ss \<longrightarrow> tx_frame rate buf"
  shows "audio_run e t (Arm # ss) a = audio_spec e rate ss [] []"
proof -
  note r = ring_after_reset[OF assms(1)]
  have "audio_sim rate [] [] (tx_ring_reset a)" using r by (auto simp: audio_sim_def)
  moreover from this have "length (ta_tx_ring (tx_ring_reset a)) = TCI_TX_RING"
    by (simp add: audio_sim_def rb_inv_def tx_queue_def)
  ultimately show ?thesis using audio_run_spec[OF assms(2-4)] by simp
qed

text \<open>A frame of one sample per channel that declares two floats and carries two more.\<close>

definition tci_io0 :: tci_io where
  "tci_io0 = \<lparr>io_float = (\<lambda>w. of_int (sint w)), io_bits = (\<lambda>v. word_of_int \<lfloor>v\<rfloor>), io_now = 0, io_takes = (\<lambda>k. True)\<rparr>"

definition frame0 :: "byte list" where
  "frame0 = [0, 0, 0, 0, 128, 187, 0, 0, 4, 0, 0, 0, 0, 0, 0, 0, 0, 0, 0, 0, 2, 0, 0, 0, 2, 0, 0, 0, 1, 0, 0, 0] @ replicate 32 0
     @ [7, 0, 0, 0, 8, 0, 0, 0, 9, 0, 0, 0, 9, 0, 0, 0]"

lemma frame0_words: "length frame0 = 80" "ld32le frame0 4 = 48000" "ld32le frame0 8 = 4" "ld32le frame0 20 = 2"
  "ld32le frame0 24 = 2" "ld32le frame0 64 = 7"
  by code_simp+

theorem tx_audio_is_played_in_order_witness:
  "audio_run tci_io0 tci0 [Arm, Frame frame0, Frame frame0, Play, Frame frame0, Play, Play, Play] tci_audio_init = [7, 7, 7, 0]"
proof -
  have a: "length (ta_tx_ring tci_audio_init) = TCI_TX_RING" by (simp add: tci_audio_init_def)
  have f: "\<forall>buf. Frame buf \<in> set [Frame frame0, Frame frame0, Play, Frame frame0, Play, Play, Play] \<longrightarrow> tx_frame 48000 buf"
    by (simp add: tx_frame_def frame0_words)
  have l: "left_channel tci_io0 frame0 = [7]" by (simp add: left_channel_def frame0_words tci_io0_def)
  show ?thesis using tx_audio_is_played_in_order[OF a _ _ f, of tci_io0 tci0] by (simp add: l due_signal_def)
qed

section \<open>The level of the audio sent\<close>

lemma fold_peak: "p \<le> fold (\<lambda>x peak. if \<bar>x\<bar> > peak then \<bar>x\<bar> else peak) xs p \<and>
   (\<forall>x \<in> set xs. \<bar>x\<bar> \<le> fold (\<lambda>x peak. if \<bar>x\<bar> > peak then \<bar>x\<bar> else peak) xs p)" for p :: real
proof (induction xs arbitrary: p)
  case (Cons x xs)
  from Cons.IH[of "if \<bar>x\<bar> > p then \<bar>x\<bar> else p"] show ?case by (auto split: if_splits)
qed simp

lemma fold_peak_le: "p \<le> B \<Longrightarrow> \<forall>x \<in> set xs. \<bar>x\<bar> \<le> B \<Longrightarrow> fold (\<lambda>x peak. if \<bar>x\<bar> > peak then \<bar>x\<bar> else peak) xs p \<le> B" for p :: real
  by (induction xs arbitrary: p) auto

lemma peak_of_bounds: "0 \<le> peak_of xs" "x \<in> set xs \<Longrightarrow> \<bar>x\<bar> \<le> peak_of xs" "0 \<le> B \<Longrightarrow> \<forall>x \<in> set xs. \<bar>x\<bar> \<le> B \<Longrightarrow> peak_of xs \<le> B"
  using fold_peak[of 0 xs] fold_peak_le[of 0 B xs] by (auto simp: peak_of_def)

lemma limiter_wants:
  assumes "\<forall>x \<in> set audio. \<bar>x\<bar> \<le> 500000" "x \<in> set audio"
    and "want = (let w = if peak_of audio > 1 / 10 ^ 9 then 1 / 2 / peak_of audio else 10 in if w > 10 then 10 else w)"
  shows "1 / 10 ^ 6 \<le> want \<and> \<bar>x\<bar> * want \<le> 1 / 2"
proof (cases "peak_of audio > 1 / 10 ^ 9")
  case True
  let ?p = "peak_of audio"
  have p: "0 < ?p" "?p \<le> 500000" "\<bar>x\<bar> \<le> ?p" using True peak_of_bounds(2)[OF assms(2)] peak_of_bounds(3)[of 500000 audio] assms(1) by auto
  obtain q where q: "q = 1 / 2 / ?p" by blast
  have w: "want = (if q > 10 then 10 else q)" using assms(3) True unfolding q by (simp add: Let_def)
  have "1 / 10 ^ 6 \<le> q" "\<bar>x\<bar> * q \<le> 1 / 2" using p unfolding q by (simp_all add: field_simps)
  moreover have "\<bar>x\<bar> * want \<le> \<bar>x\<bar> * q" by (intro mult_left_mono) (simp_all add: w)
  moreover have "want = 10 \<or> want = q" by (simp add: w)
  ultimately show ?thesis by force
next
  case False
  hence "\<bar>x\<bar> \<le> 1 / 10 ^ 9" using peak_of_bounds(2)[OF assms(2)] by linarith
  thus ?thesis using assms(3) False by (simp add: Let_def)
qed

lemma release_between:
  fixes g :: real
  assumes "g \<le> want" "0 < g" "0 < e" "e \<le> 1"
  shows "0 < g + (want - g) * (1 - e)" "g + (want - g) * (1 - e) \<le> want"
proof -
  have "0 \<le> (want - g) * (1 - e)" using assms by simp
  thus "0 < g + (want - g) * (1 - e)" using assms(2) by linarith
  have "(want - g) * (1 - e) \<le> (want - g) * 1" using assms by (intro mult_left_mono) simp_all
  thus "g + (want - g) * (1 - e) \<le> want" by simp
qed

lemma limiter_bounds:
  assumes "\<forall>x \<in> set audio. \<bar>x\<bar> \<le> 500000" "0 < ta_lim_gain a ! idx" "tci_limiter_step idx audio a = ((g0, g1), a1)" "x \<in> set audio"
  shows "0 \<le> g0 \<and> 0 \<le> g1 \<and> \<bar>x\<bar> * g0 \<le> 1 / 2 \<and> \<bar>x\<bar> * g1 \<le> 1 / 2"
proof -
  define want where "want = (let w = if peak_of audio > 1 / 10 ^ 9 then 1 / 2 / peak_of audio else 10 in if w > 10 then 10 else w)"
  note w = limiter_wants[OF assms(1,4) want_def]
  obtain e where e: "e = exp (- (of_nat (length audio div 2) / 48000) / 10 :: real)" by blast
  hence e1: "0 < e" "e \<le> 1" by simp_all
  let ?g = "ta_lim_gain a ! idx"
  have "tci_limiter_step idx audio a =
      (let (f, h) = (if want < ?g then (want, want) else (?g, ?g + (want - ?g) * (1 - e)));
           h2 = (if h < 1 / 10 ^ 6 then 1 / 10 ^ 6 else h)
       in ((f, h2), a\<lparr>ta_lim_gain := (ta_lim_gain a)[idx := h2]\<rparr>))"
    unfolding tci_limiter_step_def want_def e TCI_LIM_TARGET_def TCI_LIM_MAX_GAIN_def TCI_LIM_REL_S_def Let_def by (rule refl)
  hence g: "0 \<le> g0" "g0 \<le> want" "0 \<le> g1" "g1 \<le> want"
    using assms(2,3) w release_between[OF _ assms(2) e1, of want] by (auto simp: Let_def split: if_splits)
  have "\<bar>x\<bar> * g0 \<le> \<bar>x\<bar> * want" "\<bar>x\<bar> * g1 \<le> \<bar>x\<bar> * want" using g by (simp_all add: mult_left_mono)
  thus ?thesis using g w by linarith
qed

lemma step_gain: "tci_limiter_step idx audio a = ((g0, g1), a1) \<Longrightarrow>
    a1 = a\<lparr>ta_lim_gain := (ta_lim_gain a)[idx := g1]\<rparr> \<and> 0 < g1"
  by (auto simp: tci_limiter_step_def Let_def split: prod.splits if_splits)

lemma gain_kept [simp]:
  "ta_lim_gain (send_frame e wanted frame t a) = ta_lim_gain a"
  "ta_lim_gain (tci_stream_broadcast e ty i r xs au t a) = ta_lim_gain a"
  "ta_lim_gain (tci_level_check e k p g a) = ta_lim_gain a"
  "ta_frames_out (tci_level_check e k p g a) = ta_frames_out a"
  by (simp_all add: send_frame_def tci_stream_broadcast_def tci_level_check_def Let_def)

definition gains_ok :: "tci_audio \<Rightarrow> bool" where
  "gains_ok a \<longleftrightarrow> length (ta_lim_gain a) = 8 \<and> (\<forall>g \<in> set (ta_lim_gain a). 0 < g)"

lemma gains_ok_feed:
  assumes "gains_ok a"
  shows "gains_ok (tci_audio_feed e i audio r t a)"
proof (cases "tc_audio_sub_count t \<le> 0 \<or> length audio div 2 = 0 \<or> tci_rx_index i t < 0 \<or> tci_rx_index i t \<ge> int MAX_RECEIVERS")
  case True
  thus ?thesis using assms by (simp add: tci_audio_feed_def Let_def)
next
  case False
  obtain g0 g1 a1 where s: "tci_limiter_step (nat (tci_rx_index i t)) audio a = ((g0, g1), a1)" by (metis prod.exhaust)
  have "ta_lim_gain (tci_audio_feed e i audio r t a) = ta_lim_gain a1"
    using False s by (simp add: tci_audio_feed_def Let_def split: prod.split)
  moreover have "gains_ok a1"
    using assms step_gain[OF s] set_update_subset_insert[of "ta_lim_gain a" "nat (tci_rx_index i t)" g1] by (auto simp: gains_ok_def)
  ultimately show ?thesis by (simp add: gains_ok_def)
qed

text \<open>The streams after blocks of audio of any receivers, with any subscriptions.\<close>

definition audio_after :: "(tci_io \<times> nat \<times> real list \<times> int \<times> tci) list \<Rightarrow> tci_audio" where
  "audio_after xs = fold (\<lambda>(e, i, audio, r, t). tci_audio_feed e i audio r t) xs tci_audio_init"

lemma gains_ok_after: "gains_ok (audio_after xs)"
proof -
  have "gains_ok a \<Longrightarrow> gains_ok (fold (\<lambda>(e, i, audio, r, t). tci_audio_feed e i audio r t) xs a)" for a
    by (induction xs arbitrary: a) (auto simp: gains_ok_feed)
  moreover have "gains_ok tci_audio_init" by (simp add: gains_ok_def tci_audio_init_def MAX_RECEIVERS_def)
  ultimately show ?thesis by (simp add: audio_after_def)
qed

lemma ramp_between:
  fixes g0 g1 :: real
  assumes "0 \<le> c" "c \<le> 1" "0 \<le> g0" "0 \<le> g1" "\<bar>x\<bar> * g0 \<le> B" "\<bar>x\<bar> * g1 \<le> B"
  shows "\<bar>x * (g0 + (g1 - g0) * c)\<bar> \<le> B"
proof -
  have "g0 + (g1 - g0) * c = g0 * (1 - c) + g1 * c" by (simp add: algebra_simps)
  moreover have "0 \<le> g0 * (1 - c) + g1 * c" using assms by simp
  ultimately have "\<bar>x * (g0 + (g1 - g0) * c)\<bar> = \<bar>x\<bar> * (g0 * (1 - c) + g1 * c)" by (simp only: abs_mult abs_of_nonneg)
  also have "\<dots> = (\<bar>x\<bar> * g0) * (1 - c) + (\<bar>x\<bar> * g1) * c" by (simp only: distrib_left mult.assoc)
  also have "\<dots> \<le> B * (1 - c) + B * c" using assms by (intro add_mono mult_right_mono) simp_all
  finally show ?thesis by (simp add: algebra_simps)
qed

lemma ramp_bounds:
  assumes "length audio = 2 * n" "\<And>x. x \<in> set audio \<Longrightarrow> 0 \<le> g0 \<and> 0 \<le> g1 \<and> \<bar>x\<bar> * g0 \<le> B \<and> \<bar>x\<bar> * g1 \<le> B"
    and "v \<in> set (apply_ramp g0 g1 audio)"
  shows "\<bar>v\<bar> \<le> B"
proof -
  obtain i where i: "i < n" "v = audio ! (2 * i) * (g0 + (g1 - g0) * (of_nat i / of_nat n)) \<or>
      v = audio ! (2 * i + 1) * (g0 + (g1 - g0) * (of_nat i / of_nat n))"
    using assms(1,3) by (auto simp: apply_ramp_def Let_def)
  have "audio ! (2 * i) \<in> set audio" "audio ! (2 * i + 1) \<in> set audio" using i(1) assms(1) by simp_all
  thus ?thesis using i assms(2) ramp_between[of "of_nat i / of_nat n" g0 g1 _ B] by (auto simp: divide_le_eq)
qed

lemma rx_index_small: "tci_rx_index i t < 8"
proof -
  have "set (filter (\<lambda>j. j < i) (visible t)) \<subseteq> {..< i}" "distinct (filter (\<lambda>j. j < i) (visible t))" by (auto simp: visible_def)
  hence "length (filter (\<lambda>j. j < i) (visible t)) \<le> i"
    by (metis card_lessThan card_mono distinct_card finite_lessThan)
  moreover have "i \<in> set (visible t) \<Longrightarrow> i < 8" by (simp add: visible_def MAX_RECEIVERS_def)
  ultimately show ?thesis by (auto simp: tci_rx_index_def)
qed

lemma length_ramp: "length audio = 2 * n \<Longrightarrow> length (apply_ramp g0 g1 audio) = 2 * n"
  by (simp add: apply_ramp_def Let_def length_concat comp_def sum_list_triv)

text \<open>C31: The audio of a receiver reaches exactly its subscribers, and it is never clipped.
Whatever was streamed before, a block of audio at the rate of the stream goes, as one frame
that says what it holds, to the connected clients subscribed to that receiver whose socket
takes it; its samples are those of the receiver under a gain that moves evenly through the
block, and none of them leaves the range from -1/2 to 1/2, so the clamp of the sender changes
nothing.\<close>

theorem rx_audio_reaches_its_subscribers:
  assumes "length audio = 2 * n" "0 < n" "\<forall>x \<in> set audio. \<bar>x\<bar> \<le> 500000"
    and "tci_rx_index i t = int idx" "0 < tc_audio_sub_count t" "tc_audio_stream_rate t = rate"
  shows "\<exists>g0 g1. (\<forall>v \<in> set (apply_ramp g0 g1 audio). \<bar>v\<bar> \<le> 1 / 2) \<and>
    ta_frames_out (tci_audio_feed e i audio rate t (audio_after xs)) = ta_frames_out (audio_after xs) @
      map (\<lambda>k. (k, tci_ws_write_header 2 (64 + 4 * (2 * n)) @ stream_header (int idx) rate (2 * n) 1 2
                     @ concat (map (\<lambda>v. st32le (io_bits e v)) (apply_ramp g0 g1 audio))))
        (filter (\<lambda>k. tl_connected (tc_clients t ! k) \<and> bit (tl_audio_mask (tc_clients t ! k)) idx \<and> io_takes e k)
           [0 ..< length (tc_clients t)])"
proof -
  let ?a = "audio_after xs"
  have k: "idx < 8" using rx_index_small[of i t] assms(4) by simp
  obtain g0 g1 a1 where s: "tci_limiter_step idx audio ?a = ((g0, g1), a1)" by (metis prod.exhaust)
  have "0 < ta_lim_gain ?a ! idx" using gains_ok_after[of xs] k by (simp add: gains_ok_def)
  from limiter_bounds[OF assms(3) this s] have b: "\<forall>v \<in> set (apply_ramp g0 g1 audio). \<bar>v\<bar> \<le> 1 / 2"
    using ramp_bounds[OF assms(1)] by blast
  let ?vs = "apply_ramp g0 g1 audio" and ?a2 = "tci_level_check e idx (peak_of audio) g1 a1"
  have c: "map (\<lambda>v :: real. if v > 1 then 1 else if v < - 1 then - 1 else v) ?vs = ?vs"
    using b by (intro map_idI) force
  have f: "ta_frames_out ?a2 = ta_frames_out ?a" using step_gain[OF s] by simp
  have d: "tci_audio_feed e i audio rate t ?a = tci_stream_broadcast e TCI_STREAM_RX_AUDIO (int idx) rate ?vs True t ?a2"
    using assms k s by (simp add: tci_audio_feed_def Let_def MAX_RECEIVERS_def)
  have "filter (\<lambda>k. tl_connected (tc_clients t ! k) \<and> bit (tl_audio_mask (tc_clients t ! k)) idx \<and> io_takes e k)
           [0 ..< length (tc_clients t)] = []" if "\<not> (\<exists>l \<in> set (tc_clients t). tl_connected l \<and> bit (tl_audio_mask l) idx)"
    using that by (auto simp: filter_empty_conv)
  hence "ta_frames_out (tci_audio_feed e i audio rate t ?a) = ta_frames_out ?a @
      map (\<lambda>k. (k, tci_ws_write_header 2 (64 + 4 * (2 * n)) @ stream_header (int idx) rate (2 * n) 1 2
                     @ concat (map (\<lambda>v. st32le (io_bits e v)) ?vs)))
        (filter (\<lambda>k. tl_connected (tc_clients t ! k) \<and> bit (tl_audio_mask (tc_clients t ! k)) idx \<and> io_takes e k)
           [0 ..< length (tc_clients t)])"
    unfolding d tci_stream_broadcast_def Let_def using k f
    by (simp add: c length_ramp[OF assms(1)] send_frame_def TCI_MAX_CLIENTS_def TCI_HDR_BYTES_def TCI_STREAM_RX_AUDIO_def)
  thus ?thesis using b by blast
qed

text \<open>The first receiver's audio with one client subscribed to it.\<close>

definition tci_subscribed :: tci where
  "tci_subscribed = (on_client 0 (\<lambda>c. c\<lparr>tl_connected := True, tl_audio_mask := 1\<rparr>) tci0)\<lparr>tc_audio_sub_count := 1\<rparr>"

lemma subscribed_simps: "tci_rx_index 0 tci_subscribed = 0" "tc_audio_sub_count tci_subscribed = 1"
  "tc_audio_stream_rate tci_subscribed = 48000"
  "filter (\<lambda>k. tl_connected (tc_clients tci_subscribed ! k) \<and> bit (tl_audio_mask (tc_clients tci_subscribed ! k)) 0)
     [0 ..< length (tc_clients tci_subscribed)] = [0]"
proof -
  have "visible tci_subscribed = visible tci0" by (simp add: visible_def tci_subscribed_def on_client_def)
  thus "tci_rx_index 0 tci_subscribed = 0" by (simp add: tci_rx_index_def)
  have "tc_clients tci_subscribed = \<lparr>tl_connected = True, tl_iq_mask = 0, tl_audio_mask = 1, tl_tx_chrono = False\<rparr>
      # replicate 7 \<lparr>tl_connected = False, tl_iq_mask = 0, tl_audio_mask = 0, tl_tx_chrono = False\<rparr>"
    by (simp add: tci_subscribed_def tci0_def tci_init_def TCI_MAX_CLIENTS_def on_client_def numeral_nat)
  thus "filter (\<lambda>k. tl_connected (tc_clients tci_subscribed ! k) \<and> bit (tl_audio_mask (tc_clients tci_subscribed ! k)) 0)
     [0 ..< length (tc_clients tci_subscribed)] = [0]" by (simp add: upt_rec nth_Cons')
qed (simp_all add: tci_subscribed_def on_client_def tci0_def tci_init_def)

theorem rx_audio_reaches_its_subscribers_witness:
  "\<exists>g0 g1. (\<forall>v \<in> set (apply_ramp g0 g1 [3, - 4]). \<bar>v\<bar> \<le> 1 / 2) \<and>
     map fst (ta_frames_out (tci_audio_feed tci_io0 0 [3, - 4] 48000 tci_subscribed (audio_after []))) = [0]"
proof -
  have e: "ta_frames_out (audio_after []) = []" by (simp add: audio_after_def tci_audio_init_def)
  have f: "filter (\<lambda>k. tl_connected (tc_clients tci_subscribed ! k) \<and> bit (tl_audio_mask (tc_clients tci_subscribed ! k)) 0 \<and> io_takes tci_io0 k)
     [0 ..< length (tc_clients tci_subscribed)] = [0]"
    using subscribed_simps(4) by (simp add: tci_io0_def)
  obtain g0 g1 where g: "\<forall>v \<in> set (apply_ramp g0 g1 [3, - 4]). \<bar>v\<bar> \<le> 1 / 2"
    "ta_frames_out (tci_audio_feed tci_io0 0 [3, - 4] 48000 tci_subscribed (audio_after [])) =
      map (\<lambda>k. (k, tci_ws_write_header 2 (64 + 4 * (2 * 1)) @ stream_header (int 0) 48000 (2 * 1) 1 2
                     @ concat (map (\<lambda>v. st32le (io_bits tci_io0 v)) (apply_ramp g0 g1 [3, - 4])))) [0]"
    using rx_audio_reaches_its_subscribers[of "[3, - 4]" 1 0 tci_subscribed 0 48000 tci_io0 "[]"] subscribed_simps(1-3) e f by auto
  thus ?thesis by (intro exI[of _ g0] exI[of _ g1]) simp
qed

section \<open>Asking for audio\<close>

definition asked :: "nat \<Rightarrow> tci_audio \<Rightarrow> nat" where
  "asked k a = length (filter (\<lambda>f. fst f = k) (ta_frames_out a))"

text \<open>Client \<open>k\<close> supplies the audio and its socket is free.\<close>

definition supplier :: "tci_io \<Rightarrow> nat \<Rightarrow> tci \<Rightarrow> bool" where
  "supplier e k t \<longleftrightarrow> k < length (tc_clients t) \<and> tl_connected (tc_clients t ! k) \<and> tl_tx_chrono (tc_clients t ! k) \<and> io_takes e k"

lemma one_of_upt: "length (filter (\<lambda>f. fst f = k) (map (\<lambda>k. (k, x)) (filter P [0 ..< n]))) = (if k < n \<and> P k then 1 else 0)"
  by (induction n) auto

lemma asked_chrono: "supplier e k t \<Longrightarrow> asked k (tci_send_chrono e want t a) = asked k a + 1"
proof -
  assume p: "supplier e k t"
  let ?frame = "tci_ws_write_header 2 TCI_HDR_BYTES @ stream_header (tci_tx_index t) (tc_audio_stream_rate t) (nat want)
    TCI_STREAM_TX_CHRONO (int TCI_AUDIO_CHANNELS)"
  let ?P = "\<lambda>k. tl_connected (tc_clients t ! k) \<and> tl_tx_chrono (tc_clients t ! k) \<and> io_takes e k"
  have "ta_frames_out (tci_send_chrono e want t a) =
      ta_frames_out a @ map (\<lambda>k. (k, ?frame)) (filter ?P [0 ..< length (tc_clients t)])"
    by (simp add: tci_send_chrono_def send_frame_def)
  moreover have "k < length (tc_clients t) \<and> ?P k" using p by (simp add: supplier_def)
  ultimately show ?thesis unfolding asked_def using one_of_upt[of k ?frame ?P "length (tc_clients t)"] by simp
qed

lemma chrono_keeps [simp]:
  "ta_chrono_acc (tci_send_chrono e want t a) = ta_chrono_acc a" "ta_chrono_primed (tci_send_chrono e want t a) = ta_chrono_primed a"
  by (simp_all add: tci_send_chrono_def send_frame_def)

lemma chrono_burst_keeps:
  "supplier e k t \<Longrightarrow> asked k ((tci_send_chrono e want t ^^ n) a) = asked k a + n \<and>
     ta_chrono_acc ((tci_send_chrono e want t ^^ n) a) = ta_chrono_acc a"
  by (induction n) (simp_all add: asked_chrono)

lemma asked_loop:
  "supplier e k t \<Longrightarrow> 0 < per \<Longrightarrow> asked k (chrono_loop e t want per acc a) = asked k a + acc div nat per \<and>
     ta_chrono_acc (chrono_loop e t want per acc a) = int (acc mod nat per) \<and>
     ta_chrono_primed (chrono_loop e t want per acc a) = ta_chrono_primed a"
proof (induction e t want per acc a rule: chrono_loop.induct)
  case (1 e t want per acc a)
  show ?case
  proof (cases "int acc < per")
    case True
    thus ?thesis using 1(3) by (subst (1 2 3) chrono_loop.simps) (simp add: asked_def zless_nat_eq_int_zless)
  next
    case False
    hence "nat per \<le> acc" "0 < nat per" using 1(3) by simp_all
    thus ?thesis using 1 False asked_chrono[OF 1(2), of want a]
      by (subst (1 2 3) chrono_loop.simps) (simp add: le_div_geq le_mod_geq)
  qed
qed

lemma div_carry: "0 < p \<Longrightarrow> (x + y) div p = x div p + (x mod p + y) div p" for p x y :: nat
proof -
  assume p: "0 < p"
  have "x + y = x div p * p + (x mod p + y)" by simp
  hence "(x + y) div p = (x div p * p + (x mod p + y)) div p" by simp
  thus ?thesis using p by (simp only: div_mult_self3)
qed

lemma chrono_per_pos: "0 < chrono_per t" by (simp add: chrono_per_def Let_def)

lemma asked_tick:
  assumes "supplier e k t" "0 < tc_tx_chrono_clients t" "r_mox (tc_radio t)" "0 < tc_tx_chrono_samples t" "0 < tc_audio_stream_rate t"
    and "0 < n" "ta_chrono_acc a = int acc"
  shows "asked k (tci_tx_chrono_tick e n t a) =
      asked k a + (if ta_chrono_primed a then 0 else nat (chrono_burst t)) + (acc + nat n) div nat (chrono_per t) \<and>
    ta_chrono_acc (tci_tx_chrono_tick e n t a) = int ((acc + nat n) mod nat (chrono_per t)) \<and>
    ta_chrono_primed (tci_tx_chrono_tick e n t a)"
proof -
  let ?a = "if \<not> ta_chrono_primed a
            then ((tci_send_chrono e (tc_tx_chrono_samples t) t ^^ nat (chrono_burst t)) a)\<lparr>ta_chrono_primed := True\<rparr> else a"
  have t: "tci_tx_chrono_tick e n t a =
      chrono_loop e t (tc_tx_chrono_samples t) (chrono_per t) (nat (ta_chrono_acc ?a + n)) ?a"
    using assms by (simp add: tci_tx_chrono_tick_def Let_def)
  have "ta_chrono_acc ?a = int acc" using chrono_burst_keeps[OF assms(1)] assms(7) by simp
  hence s: "nat (ta_chrono_acc ?a + n) = acc + nat n" using assms(6) by simp
  have k: "asked k ?a = asked k a + (if ta_chrono_primed a then 0 else nat (chrono_burst t))"
    using chrono_burst_keeps[OF assms(1), where want = "tc_tx_chrono_samples t" and n = "nat (chrono_burst t)" and a = a] by (simp add: asked_def)
  have p: "ta_chrono_primed ?a" by simp
  show ?thesis unfolding t s using asked_loop[OF assms(1) chrono_per_pos[of t], of "tc_tx_chrono_samples t" "acc + nat n" ?a] k p
    by simp
qed

text \<open>C32: A client that supplies the transmit audio is asked for what the transmitter consumes.
Over a transmission with steady settings, whatever the sizes of the blocks the transmitter takes,
the client gets a first burst of at least one and at most sixteen requests, and from then on one
request for every block of its own size that was played: none is lost to rounding.\<close>

theorem client_is_asked_for_what_is_played:
  assumes "supplier e k t" "0 < tc_tx_chrono_clients t" "r_mox (tc_radio t)" "0 < tc_tx_chrono_samples t" "0 < tc_audio_stream_rate t"
    and "0 \<le> tc_tx_chrono_buffer_ms t" "\<not> ta_chrono_primed a" "ta_chrono_acc a = 0" "\<forall>n \<in> set (n # ns). 0 < n"
  shows "asked k (fold (\<lambda>n. tci_tx_chrono_tick e n t) (n # ns) a) =
      asked k a + nat (chrono_burst t) + nat (sum_list (n # ns)) div nat (chrono_per t) \<and>
    1 \<le> chrono_burst t \<and> chrono_burst t \<le> 16"
proof -
  let ?p = "nat (chrono_per t)"
  have run: "asked k (fold (\<lambda>n. tci_tx_chrono_tick e n t) ns a') = asked k a' + (acc mod ?p + nat (sum_list ns)) div ?p"
    if "ta_chrono_primed a'" "ta_chrono_acc a' = int (acc mod ?p)" "\<forall>n \<in> set ns. 0 < n" for ns a' acc
    using that
  proof (induction ns arbitrary: a' acc)
    case Nil
    thus ?case using chrono_per_pos[of t] by simp
  next
    case (Cons m ns)
    have m: "0 < m" "\<forall>n \<in> set ns. 0 < n" using Cons.prems(3) by simp_all
    obtain x where x: "x = acc mod ?p + nat m" by blast
    let ?a = "tci_tx_chrono_tick e m t a'"
    note s = asked_tick[OF assms(1-5) m(1) Cons.prems(2), folded x]
    have "0 \<le> sum_list ns" using m(2) by (intro sum_list_nonneg) force
    hence S: "acc mod ?p + nat (sum_list (m # ns)) = x + nat (sum_list ns)" using m(1) x by simp
    have "ta_chrono_primed ?a" "ta_chrono_acc ?a = int (x mod ?p)" "asked k ?a = asked k a' + x div ?p"
      using s Cons.prems(1) by simp_all
    from Cons.IH[OF this(1,2) m(2)] this(3)
    have "asked k (fold (\<lambda>n. tci_tx_chrono_tick e n t) ns ?a) = asked k a' + (x div ?p + (x mod ?p + nat (sum_list ns)) div ?p)"
      by simp
    thus ?case unfolding S using div_carry[of ?p x "nat (sum_list ns)"] chrono_per_pos[of t] by simp
  qed
  have n: "0 < n" "\<forall>n \<in> set ns. 0 < n" using assms(9) by simp_all
  let ?a = "tci_tx_chrono_tick e n t a"
  note s = asked_tick[OF assms(1-5) n(1), of a 0]
  have "0 \<le> sum_list ns" using n(2) by (intro sum_list_nonneg) force
  hence sum: "nat (sum_list (n # ns)) = nat n + nat (sum_list ns)" using n(1) by simp
  note dm = div_carry[of ?p "nat n" "nat (sum_list ns)"]
  have "0 \<le> (tc_tx_chrono_buffer_ms t * TCI_AUDIO_RATE) div (1000 * chrono_per t)"
    using assms(6) chrono_per_pos[of t] by (simp add: TCI_AUDIO_RATE_def pos_imp_zdiv_nonneg_iff)
  hence "1 \<le> chrono_burst t \<and> chrono_burst t \<le> 16" by (simp add: chrono_burst_def Let_def)
  moreover have "ta_chrono_primed ?a" "ta_chrono_acc ?a = int (nat n mod ?p)"
    "asked k ?a = asked k a + nat (chrono_burst t) + nat n div ?p"
    using s assms(7,8) by simp_all
  note run[OF this(1,2) n(2)] this(3)
  ultimately show ?thesis unfolding sum using dm chrono_per_pos[of t] by simp
qed

text \<open>A client that asked for 50 ms of buffering supplies the audio of a transmission.\<close>

definition tci_armed :: tci where
  "tci_armed = (on_client 0 (\<lambda>c. c\<lparr>tl_connected := True, tl_tx_chrono := True\<rparr>)
     (on_cat (on_console (on_radio (\<lambda>r. r\<lparr>r_mox := True\<rparr>))) tci0))\<lparr>tc_tx_chrono_clients := 1\<rparr>"

lemma armed_simps: "r_mox (tc_radio tci_armed)" "tc_tx_chrono_clients tci_armed = 1" "tc_tx_chrono_samples tci_armed = 2048"
  "tc_audio_stream_rate tci_armed = 48000" "tc_tx_chrono_buffer_ms tci_armed = 50" "supplier tci_io0 0 tci_armed"
  by (simp_all add: tci_armed_def on_client_def on_cat_def on_console_def on_radio_def tci0_def tci_init_def supplier_def
      tci_io0_def TCI_MAX_CLIENTS_def on_keying_def)

theorem client_is_asked_for_what_is_played_witness:
  "asked 0 (fold (\<lambda>n. tci_tx_chrono_tick tci_io0 n tci_armed) [1024, 1024, 512] tci_audio_init) = 5"
proof -
  have p: "chrono_per tci_armed = 1024"
    by (simp add: chrono_per_def tci_stream_mic_samples_def armed_simps TCI_AUDIO_RATE_def TCI_AUDIO_CHANNELS_def Let_def)
  have b: "chrono_burst tci_armed = 3" by (simp add: chrono_burst_def p armed_simps TCI_AUDIO_RATE_def Let_def)
  have a: "\<not> ta_chrono_primed tci_audio_init" "ta_chrono_acc tci_audio_init = 0" "asked 0 tci_audio_init = 0"
    by (simp_all add: tci_audio_init_def asked_def)
  show ?thesis
    using client_is_asked_for_what_is_played[of tci_io0 0 tci_armed tci_audio_init 1024 "[1024, 512]"]
    by (simp add: armed_simps p b a)
qed

end
