(* ===== verification/Spec2Isabelle.thy ===== *)
theory Spec2Isabelle
  imports P1_Frames P1_Commands Link Property_Store Ft8_Qso Tuning_P2 Tci_Ws Cw_Keyer Cw_Encoder Key_Events Tci_Replies Tci_Streams
begin

text \<open>A verification development for MacHPSDR, a receiver and transmitter program for
software defined radios (C, GTK, WDSP; the program's own code is \<open>src/\<close> of the repository).

The program and its parts. A radio on the network (or the USB bus) streams digitised antenna
samples to the program and takes transmit samples and settings from it. \<open>proto/\<close> speaks to
the radio: protocol 1 (one byte stream cut into frames, settings rotating through eleven
commands), protocol 2 (a UDP port per kind of data, settings in four register blocks), the
SoapySDR library, and a watchdog that reconnects a radio that fell silent. \<open>core/\<close> holds
the radio itself: the receivers with their VFOs, bands, filters and modes, the transmitter,
and the settings store that saves all of it. \<open>decode/\<close> are the digital modes; the FT8
machinery there answers calls by itself and keys the transmitter. \<open>dsp/\<close> and
\<open>audio/\<close> are signal processing and sound, \<open>ui/\<close> the widgets.

How the model is written. A structure is a record with the fields the modelled operations
use; a null pointer is \<open>None\<close>; an operation takes the structures it changes and returns
them. What an operation asks of a part that is not modelled (a sample for the DSP, a widget to
be redrawn, a datagram to be sent) is an event, kept in the order of the calls. Code not under
\<open>src/\<close> (GLib's number formatting, the \<open>ft8_lib\<close> encoder, the file system) is an
argument of the definitions that use it. Words keep their C width where bits or wrap-around
matter, other integers are \<open>int\<close>, a \<open>double\<close> is a real number without rounding.

The theories.

\<^item> \<open>Prelude\<close>: types, list and word lemmas, clamping. \<open>C_Strings\<close>: the C string
  functions the parsers use (\<open>strtok\<close>, \<open>fgets\<close>, \<open>atoi\<close>, \<open>snprintf\<close> formats).
\<^item> \<open>Ringbuffer\<close> (\<open>core/ringbuffer.c\<close>), \<open>Peak_Detect\<close>
  (\<open>dsp/peak_detect.c\<close>), \<open>Hl2\<close> (\<open>proto/hl2.c\<close>): the ring buffer against the
  queue locale it refines, the window maximum, and the Hermes-Lite 2 requests built on both.
\<^item> \<open>Radio\<close>: \<open>RADIO\<close>, \<open>RECEIVER\<close>, \<open>TRANSMITTER\<close>, \<open>BAND\<close>,
  \<open>ADC\<close>, \<open>DISCOVERED\<close> and the small functions every protocol shares
  (\<open>isTransmitting\<close>, \<open>transmitter_get_frequency\<close>, \<open>radio_ppm_correction\<close>).
\<^item> \<open>P1_Receive\<close>, \<open>P1_Frames\<close>: the receiving half of \<open>proto/protocol1.c\<close>. A
  well formed frame is decoded exactly, and no bytes whatever make a sample go astray.
\<^item> \<open>P1_Send\<close>, \<open>P1_Commands\<close>: the sending half: every command, the assembly of
  two buffers into a datagram, the restart. The restart ends, each command is sent in turn, the
  transmit bit is the one of the radio's state, indices stay in their buffers. The restart loops
  take fuel; \<open>metis_restart_terminates\<close> proves that the number of commands plus receivers
  is enough.
\<^item> \<open>P2_Send\<close>, \<open>P2_Receive\<close>: the two halves of \<open>proto/protocol2.c\<close>, the
  register blocks it sends and the datagrams it takes apart. \<open>P2_Registers\<close>: the blocks carry
  the frequencies and levels of the radio, and exactly the receivers that are open are asked for.
  \<open>P2_Samples\<close>: no sample comes from outside its datagram, the two receivers of a diversity
  pair stay in phase, and protocol 1 and protocol 2 deliver the same samples for the same signal.
\<^item> \<open>Ptt\<close> (\<open>core/radio.c\<close>, \<open>core/vox.c\<close>): MOX, PTT, Tune and VOX. The
  microphone thread is cut at its accesses to shared variables and interleaved with the main loop
  and the receive thread; the DSP channels follow the key, and VOX lets go by itself.
\<^item> \<open>Cw_Encoder\<close>, \<open>Cw_Keyer\<close> (\<open>decode/cw_encoder.c\<close>,
  \<open>decode/cw_keyer.c\<close>): text to Morse, which can be read back at every weight; the iambic
  keyer, whose marks do not move with its ticks, and its transmitter side, which no paddle can hold.
\<^item> \<open>Tci_Ws\<close> (\<open>proto/tci_ws.c\<close>, \<open>proto/tci_cw.c\<close>): WebSocket frames over
  any transport that meets the locales \<open>byte_stream\<close> and \<open>byte_sink\<close>. A message is
  received whole or not at all, however it is cut. The receive loop takes fuel for its turns; two
  bytes of input are at least one turn, so half the input length is enough.
\<^item> \<open>Link\<close>: \<open>proto/link_state.c\<close>, \<open>proto/reconnect.c\<close>. A silent radio is
  retried for ever, at distances that double up to a minute.
\<^item> \<open>Property_Store\<close>: \<open>core/property.c\<close>. What is saved is read back; a crash in the
  middle of a save leaves the old or the new settings; a failed save leaves the old ones. The
  other theories reach the store through the locale \<open>kv_store\<close>.
\<^item> \<open>Filters\<close> (\<open>core/filter.c\<close>, \<open>core/mode.c\<close>), \<open>Bands\<close>
  (\<open>core/band.c\<close>): the tables, the lookups, and their round trip through the store.
\<^item> \<open>Vfo\<close>, \<open>Vfo_Mode\<close> (\<open>core/receiver.c\<close>, \<open>core/radio.c\<close>,
  \<open>ui/vfo.c\<close>, \<open>core/subrx.c\<close>, \<open>core/transmitter.c\<close>, \<open>core/band.c\<close>): what
  tuning does. The dial lands where it was sent, stays in range, stays put under the lock; the
  radio is commanded to the dial; mode, filter and band numbers stay inside their tables; each
  mode gets its settings back. \<open>Tuning_P1\<close> and \<open>Tuning_P2\<close> compose tuning with the
  command of protocol 1 and the registers of protocol 2: the frequency tuned is the frequency heard.
\<^item> \<open>Keybind\<close> (\<open>core/keybind.c\<close>), \<open>Controls\<close>
  (\<open>core/keybind_run.c\<close>, the callbacks of \<open>ui/vfo.c\<close>, the wheels of
  \<open>core/receiver.c\<close>), \<open>Key_Events\<close> (the key handlers of
  \<open>core/receiver.c\<close>): the operator's side. A combination runs one action, a shortcut does
  what its control does, the transmitter is on the air exactly while the key given to PTT is
  down, and the shortcuts come back with the settings. GTK's lower case of a key value and the
  accelerator strings are parameters.
\<^item> \<open>Cat\<close> (\<open>proto/rigctl_parse.c\<close>, the client loop of
  \<open>proto/rigctl.c\<close>): the CAT server, one definition per case of its two switches, working on
  the same state as the shortcuts. \<open>Cat_Session\<close>: a client gets its commands carried out
  whole however the network cuts them, and no sequence of commands takes mode, filter, band or
  edges out of their tables. \<open>Cat_Replies\<close>: the frequency and the settings a client makes
  are read back as it made them, and replies can be matched to commands.
\<^item> \<open>Tci\<close> (\<open>proto/tci.c\<close>, \<open>core/ext.c\<close>): the TCI server. The client threads
  answer from the state and queue settings, which the main loop applies a turn later.
  \<open>Tci_Subs\<close>: the subscriptions are counted right, and only a command addressed to the
  transmitting receiver asks for a transmission. \<open>Tci_Replies\<close>: a setting is read back as it
  was made.
\<^item> \<open>Tci_Audio\<close> (\<open>proto/tci.c\<close>, \<open>proto/tci_stream.h\<close>): its binary streams.
  \<open>Tci_Streams\<close>: a client's transmit audio is played in its order and resampled as one
  signal, through a ring shown to be the bounded queue of \<open>Ringbuffer\<close>; a receiver's audio
  reaches its subscribers unclipped; a client is asked for as much audio as is consumed.
\<^item> \<open>Ft8_Dxcc\<close> (\<open>decode/ft8_dxcc.c\<close>), \<open>Ft8_Tx\<close>
  (\<open>decode/ft8_encoder.c\<close>), \<open>Ft8_Qso\<close> (\<open>decode/ft8_qso.c\<close>): country lookup by
  longest prefix, the slot scheduler that keys the transmitter, and the state machine that
  conducts a contact. Keying is balanced and ends in time, nothing is sent unless enabled, a
  contact runs to its end and is logged once.

Not modelled, and why: signal processing is floating point and mostly calls of the WDSP library
(\<open>wdsp/\<close>, like \<open>ft8_lib/\<close>, \<open>sgp4sdp4/\<close> and \<open>hfdl_lib/\<close> third-party
code); widgets, drawing, audio devices, sockets, threads and timers are only the events above;
the mutexes around shared structures are not modelled, an operation is one step. The SoapySDR
layer, the sockets of the CAT and TCI servers, the web servers, and the picture, HFDL, ACARS and
CW decoders are not modelled yet; the manifest lists each part with its status.\<close>

end
